(* ===== verification/Prelude.thy ===== *)
theory Prelude
  imports
    Complex_Main
    "HOL-Library.List_Lexorder"
    "HOL-Library.Char_ord"
    "HOL-Library.Multiset"
begin

text \<open>
  Shared vocabulary of the development: the fact collections the components feed, the Python
  operations on strings, lists and dictionaries the source uses, and the generic lemmas on sorted
  lists, sums and maps that more than one component needs.

  Python strings are \<^typ>\<open>string\<close>s ordered lexicographically by character code, as Python orders
  them by code point; the text handled by the modelled functions (model, column and type names,
  identifiers) is ASCII, so one \<^typ>\<open>char\<close> is one code point. Python integers are
  \<^typ>\<open>int\<close>, a \<^verbatim>\<open>float\<close> is the rational number it denotes (rounding of sums and products, infinities and
  NaN are outside the model), a \<^verbatim>\<open>date\<close> is its proleptic ordinal and a \<^verbatim>\<open>datetime\<close> its number of
  microseconds. A raised exception is the \<^const>\<open>Inl\<close> of a sum.
\<close>

subsection \<open>Fact collections\<close>

named_theorems defs_simps "definitions of small operations that proofs unfold"
named_theorems store_simps "what an operation on a stored table does to the other observations"

type_synonym date = int
type_synonym timestamp = int \<comment> \<open>microseconds\<close>

definition microseconds_per_second :: int where
  "microseconds_per_second = 1000000"

definition microseconds_per_day :: int where
  "microseconds_per_day = 86400 * 1000000"

subsection \<open>Sorted lists\<close>

text \<open>Python's \<^verbatim>\<open>sorted(set(xs))\<close>: the distinct elements in ascending order.\<close>

definition sorted_set :: "'a::linorder list \<Rightarrow> 'a list" where
  "sorted_set xs = sort (remdups xs)"

lemma set_sorted_set [simp]: "set (sorted_set xs) = set xs"
  by (simp add: sorted_set_def)

lemma sorted_sorted_set [simp]: "sorted (sorted_set xs)"
  by (simp add: sorted_set_def)

lemma distinct_sorted_set [simp]: "distinct (sorted_set xs)"
  by (simp add: sorted_set_def)

lemma sorted_distinct_eqI:
  assumes "sorted xs" "distinct xs" "sorted ys" "distinct ys" "set xs = set ys"
  shows "xs = ys"
  using assms by (rule sorted_distinct_set_unique)

lemma sorted_set_cong: "set xs = set ys \<Longrightarrow> sorted_set xs = sorted_set ys"
  by (rule sorted_distinct_eqI) auto

lemma sorted_set_Nil [simp]: "sorted_set [] = []"
  by (simp add: sorted_set_def)

lemma sorted_set_eq_Nil_iff [simp]: "sorted_set xs = [] \<longleftrightarrow> xs = []"
  by (metis set_empty2 set_sorted_set set_empty)

lemma sorted_set_idem [simp]: "sorted xs \<Longrightarrow> distinct xs \<Longrightarrow> sorted_set xs = xs"
  by (rule sorted_distinct_eqI) auto

lemma sorted_set_sorted_list_of_set: "sorted_set xs = sorted_list_of_set (set xs)"
  by (rule sorted_distinct_eqI) auto

text \<open>The filter of an ascending list is ascending; used for every \<^verbatim>\<open>sorted(p for p in \<dots>)\<close>.\<close>

lemma sorted_sort_filter_cong:
  fixes xs ys :: "'a::linorder list"
  assumes "distinct xs" "distinct ys" "set (filter P xs) = set (filter Q ys)"
  shows "sort (filter P xs) = sort (filter Q ys)"
  by (rule sorted_distinct_eqI) (use assms in auto)

lemma sort_distinct_cong:
  fixes xs ys :: "'a::linorder list"
  assumes "distinct xs" "distinct ys" "set xs = set ys"
  shows "sort xs = sort ys"
  by (rule sorted_distinct_eqI) (use assms in auto)

subsection \<open>Positions in a list\<close>

text \<open>\<open>before xs a b\<close>: \<open>a\<close> occurs in \<open>xs\<close> at a position strictly before one of \<open>b\<close>.\<close>

definition before :: "'a list \<Rightarrow> 'a \<Rightarrow> 'a \<Rightarrow> bool" where
  "before xs a b \<longleftrightarrow> (\<exists>i j. i < j \<and> j < length xs \<and> xs ! i = a \<and> xs ! j = b)"

lemma before_appendI: "a \<in> set xs \<Longrightarrow> b \<in> set ys \<Longrightarrow> before (xs @ ys) a b"
  unfolding before_def in_set_conv_nth
  by (metis add_less_cancel_left length_append nth_append nth_append_length_plus trans_less_add1)

lemma before_append_mono: "before xs a b \<Longrightarrow> before (xs @ ys) a b"
  unfolding before_def by (metis length_append nth_append order_less_trans trans_less_add1)

subsection \<open>Strings\<close>

definition lower_char :: "char \<Rightarrow> char" where
  "lower_char c = (let n = (of_char c :: nat) in if 65 \<le> n \<and> n \<le> 90 then char_of (n + 32) else c)"

definition upper_char :: "char \<Rightarrow> char" where
  "upper_char c = (let n = (of_char c :: nat) in if 97 \<le> n \<and> n \<le> 122 then char_of (n - 32) else c)"

definition is_space :: "char \<Rightarrow> bool" where
  "is_space c = (let n = (of_char c :: nat) in n = 32 \<or> (9 \<le> n \<and> n \<le> 13) \<or> (28 \<le> n \<and> n \<le> 31))"

text \<open>The same three on the characters themselves, which is how the simplifier evaluates them.\<close>

lemma of_char_nat_eq: "of_char c = (of_char d :: nat) \<longleftrightarrow> c = d"
  by simp

lemma is_space_code [code]:
  "is_space c \<longleftrightarrow> List.member [CHR 0x20, CHR 0x09, CHR 0x0A, CHR 0x0B, CHR 0x0C, CHR 0x0D, CHR 0x1C, CHR 0x1D, CHR 0x1E, CHR 0x1F] c"
proof -
  have "(9 \<le> n \<and> n \<le> (13::nat)) \<longleftrightarrow> n \<in> {9, 10, 11, 12, 13}" "(28 \<le> n \<and> n \<le> (31::nat)) \<longleftrightarrow> n \<in> {28, 29, 30, 31}" for n
    by auto
  then show ?thesis
    unfolding is_space_def Let_def
    using of_char_nat_eq[of c "CHR 0x20"] of_char_nat_eq[of c "CHR 0x09"] of_char_nat_eq[of c "CHR 0x0A"]
      of_char_nat_eq[of c "CHR 0x0B"] of_char_nat_eq[of c "CHR 0x0C"] of_char_nat_eq[of c "CHR 0x0D"]
      of_char_nat_eq[of c "CHR 0x1C"] of_char_nat_eq[of c "CHR 0x1D"] of_char_nat_eq[of c "CHR 0x1E"] of_char_nat_eq[of c "CHR 0x1F"]
    by simp
qed

definition lower_table :: "(char \<times> char) list" where
  "lower_table = zip ''ABCDEFGHIJKLMNOPQRSTUVWXYZ'' ''abcdefghijklmnopqrstuvwxyz''"

definition upper_table :: "(char \<times> char) list" where
  "upper_table = zip ''abcdefghijklmnopqrstuvwxyz'' ''ABCDEFGHIJKLMNOPQRSTUVWXYZ''"

lemma case_tables:
  "list_all (\<lambda>c. lower_char c = (case map_of lower_table c of Some d \<Rightarrow> d | None \<Rightarrow> c) \<and>
     upper_char c = (case map_of upper_table c of Some d \<Rightarrow> d | None \<Rightarrow> c)) Enum.enum"
  by code_simp

lemma lower_char_code [code]: "lower_char c = (case map_of lower_table c of Some d \<Rightarrow> d | None \<Rightarrow> c)"
  and upper_char_code [code]: "upper_char c = (case map_of upper_table c of Some d \<Rightarrow> d | None \<Rightarrow> c)"
  using case_tables by (simp_all add: list_all_iff enum_UNIV)

text \<open>\<^verbatim>\<open>str.lower\<close>, \<^verbatim>\<open>str.upper\<close> and \<^verbatim>\<open>str.strip\<close> on ASCII text.\<close>

definition py_lower :: "string \<Rightarrow> string" where
  "py_lower s = map lower_char s"

definition py_upper :: "string \<Rightarrow> string" where
  "py_upper s = map upper_char s"

definition py_lstrip :: "string \<Rightarrow> string" where
  "py_lstrip s = dropWhile is_space s"

definition py_strip :: "string \<Rightarrow> string" where
  "py_strip s = rev (dropWhile is_space (rev (dropWhile is_space s)))"

lemma lower_char_idem [simp]: "lower_char (lower_char c) = lower_char c"
  by (auto simp: lower_char_def Let_def)

lemma py_lower_idem [simp]: "py_lower (py_lower s) = py_lower s"
  by (simp add: py_lower_def)

text \<open>\<^verbatim>\<open>sep.join(parts)\<close>\<close>

fun py_join :: "string \<Rightarrow> string list \<Rightarrow> string" where
  "py_join sep [] = []"
| "py_join sep [s] = s"
| "py_join sep (s # ss) = s @ sep @ py_join sep ss"

text \<open>A value between single quotes, as the messages print names.\<close>

definition quoted :: "string \<Rightarrow> string" where
  "quoted s = CHR 0x27 # s @ [CHR 0x27]"

subsection \<open>Dictionaries as association lists\<close>

text \<open>
  A Python dictionary whose iteration order matters is an association list in insertion order with
  distinct keys. \<open>dict_set\<close> is item assignment: an existing key keeps its place. \<open>dict_del\<close> is
  \<^verbatim>\<open>del d[k]\<close> for a key known to be there.
\<close>

fun dict_set :: "('k \<times> 'v) list \<Rightarrow> 'k \<Rightarrow> 'v \<Rightarrow> ('k \<times> 'v) list" where
  "dict_set [] k v = [(k, v)]"
| "dict_set ((k', v') # d) k v = (if k' = k then (k, v) # d else (k', v') # dict_set d k v)"

definition dict_del :: "('k \<times> 'v) list \<Rightarrow> 'k \<Rightarrow> ('k \<times> 'v) list" where
  "dict_del d k = filter (\<lambda>(k', _). k' \<noteq> k) d"

definition dict_keys :: "('k \<times> 'v) list \<Rightarrow> 'k list" where
  "dict_keys d = map fst d"

definition dict_ok :: "('k \<times> 'v) list \<Rightarrow> bool" where
  "dict_ok d \<longleftrightarrow> distinct (map fst d)"

lemma map_of_dict_set [simp]: "map_of (dict_set d k v) = (map_of d)(k \<mapsto> v)"
  by (induction d k v rule: dict_set.induct) (auto simp: fun_eq_iff)

lemma set_fst_dict_set [simp]: "fst ` set (dict_set d k v) = insert k (fst ` set d)"
  by (induction d k v rule: dict_set.induct) auto

lemma dict_set_ok [simp]: "dict_ok d \<Longrightarrow> dict_ok (dict_set d k v)"
  unfolding dict_ok_def
  by (induction d k v rule: dict_set.induct) (auto simp: image_iff)

lemma length_dict_set:
  "length (dict_set d k v) = (if k \<in> fst ` set d then length d else Suc (length d))"
  by (induction d k v rule: dict_set.induct) auto

lemma map_of_dict_del [simp]: "map_of (dict_del d k) = (map_of d)(k := None)"
  by (induction d) (auto simp: dict_del_def fun_eq_iff)

lemma dict_del_ok [simp]: "dict_ok d \<Longrightarrow> dict_ok (dict_del d k)"
  unfolding dict_ok_def dict_del_def by (induction d) auto

lemma set_fst_dict_del [simp]: "fst ` set (dict_del d k) = fst ` set d - {k}"
  by (auto simp: dict_del_def image_iff)

lemma dict_ok_filter [simp]: "dict_ok d \<Longrightarrow> dict_ok (filter P d)"
  unfolding dict_ok_def by (induction d) auto

lemma map_of_filter_key:
  "dict_ok d \<Longrightarrow> map_of (filter P d) k =
     (case map_of d k of None \<Rightarrow> None | Some v \<Rightarrow> if P (k, v) then Some v else None)"
  unfolding dict_ok_def
  by (induction d) (auto split: option.splits simp: map_of_eq_None_iff image_iff dest: map_of_SomeD)

lemma map_of_SomeI: "dict_ok d \<Longrightarrow> (k, v) \<in> set d \<Longrightarrow> map_of d k = Some v"
  by (simp add: dict_ok_def)

subsection \<open>Rounding\<close>

text \<open>\<^verbatim>\<open>round(x, n)\<close>: to the nearest multiple of \<open>1 / 10 ^ n\<close>, ties to the even one.\<close>

definition round_half_even :: "rat \<Rightarrow> int" where
  "round_half_even x =
     (let f = \<lfloor>x\<rfloor>; d = x - of_int f
      in if d < 1 / 2 then f else if d > 1 / 2 then f + 1 else if even f then f else f + 1)"

definition py_round :: "rat \<Rightarrow> nat \<Rightarrow> rat" where
  "py_round x n = of_int (round_half_even (x * 10 ^ n)) / 10 ^ n"

lemma round_half_even_bounds: "\<bar>of_int (round_half_even x) - x\<bar> \<le> 1 / 2"
proof -
  have "of_int \<lfloor>x\<rfloor> \<le> x" "x < of_int \<lfloor>x\<rfloor> + 1" using floor_correct[of x] by simp_all
  then show ?thesis by (auto simp: round_half_even_def Let_def abs_le_iff)
qed

lemma round_half_even_nonneg: "0 \<le> x \<Longrightarrow> 0 \<le> round_half_even x"
  by (simp add: round_half_even_def Let_def)

lemma py_round_nonneg: "0 \<le> x \<Longrightarrow> 0 \<le> py_round x n"
  by (simp add: py_round_def round_half_even_nonneg)

lemma py_round_error: "\<bar>py_round x n - x\<bar> \<le> 1 / (2 * 10 ^ n)"
proof -
  have "py_round x n - x = (of_int (round_half_even (x * 10 ^ n)) - x * 10 ^ n) / 10 ^ n"
    by (simp add: py_round_def field_simps)
  then have "\<bar>py_round x n - x\<bar> = \<bar>of_int (round_half_even (x * 10 ^ n)) - x * 10 ^ n\<bar> / 10 ^ n"
    by simp
  also have "\<dots> \<le> (1 / 2) / 10 ^ n"
    by (rule divide_right_mono[OF round_half_even_bounds]) simp
  finally show ?thesis by simp
qed

lemma round_half_even_mono: "x \<le> y \<Longrightarrow> round_half_even x \<le> round_half_even y"
proof -
  assume xy: "x \<le> y"
  then have le: "\<lfloor>x\<rfloor> \<le> \<lfloor>y\<rfloor>" by (rule floor_mono)
  show ?thesis
  proof (cases "\<lfloor>x\<rfloor> = \<lfloor>y\<rfloor>")
    case True
    with xy show ?thesis by (simp add: round_half_even_def Let_def)
  next
    case False
    then have "\<lfloor>x\<rfloor> + 1 \<le> \<lfloor>y\<rfloor>" using le by simp
    moreover have "round_half_even x \<le> \<lfloor>x\<rfloor> + 1" "\<lfloor>y\<rfloor> \<le> round_half_even y" by (simp_all add: round_half_even_def Let_def)
    ultimately show ?thesis by simp
  qed
qed

lemma py_round_mono: "x \<le> y \<Longrightarrow> py_round x n \<le> py_round y n"
  by (simp add: py_round_def divide_right_mono round_half_even_mono)

lemma py_round_of_int [simp]: "py_round (of_int k) n = of_int k"
proof -
  have "round_half_even (of_int (k * 10 ^ n)) = k * 10 ^ n" by (simp only: round_half_even_def floor_of_int Let_def) simp
  then show ?thesis by (simp add: py_round_def)
qed

lemma py_round_between: "of_int a \<le> x \<Longrightarrow> x \<le> of_int b \<Longrightarrow> of_int a \<le> py_round x n \<and> py_round x n \<le> of_int b"
  using py_round_mono[of "of_int a" x n] py_round_mono[of x "of_int b" n] by simp

lemma py_round_le: "x \<le> of_int k \<Longrightarrow> py_round x n \<le> of_int k"
  using py_round_mono[of x "of_int k" n] by simp

subsection \<open>Optional values\<close>

text \<open>\<open>opt_or x d\<close> is Python's \<^verbatim>\<open>x or d\<close> for an optional string: \<^verbatim>\<open>None\<close> and the empty string give \<open>d\<close>.\<close>

definition opt_or :: "string option \<Rightarrow> string \<Rightarrow> string" where
  "opt_or x d = (case x of None \<Rightarrow> d | Some s \<Rightarrow> if s = [] then d else s)"

text \<open>A computation that was evaluated to a result, not to an error.\<close>

lemma case_Inr: "(case x of Inl e \<Rightarrow> False | Inr q \<Rightarrow> P q) \<Longrightarrow> \<exists>q. x = Inr q \<and> P q"
  by (cases x) auto

end
