(* ===== verification/Models.thy ===== *)
theory Models
  imports Prelude
begin

text \<open>
  The data models of \<^verbatim>\<open>core_engine/core_engine/models/\<close>: model definitions with their validator,
  date ranges, plan steps and plans, structural diffs and run states. Every enum is a datatype with
  the source's members, every pydantic class a record with the source's fields in the source's
  order; the field names carry a prefix because Isabelle's record fields are global.
\<close>

subsection \<open>Enumerations of model_definition.py\<close>

datatype model_test_type = NOT_NULL | UNIQUE | ROW_COUNT_MIN | ROW_COUNT_MAX | ACCEPTED_VALUES | CUSTOM_SQL

datatype test_severity = SEV_BLOCK | SEV_WARN

record model_test_definition =
  mt_test_type :: model_test_type
  mt_column :: "string option"
  mt_threshold :: "int option"
  mt_values :: "string list option"
  mt_sql :: "string option"
  mt_severity :: test_severity

datatype model_kind = FULL_REFRESH_KIND | INCREMENTAL_BY_TIME_RANGE | APPEND_ONLY | MERGE_BY_KEY

datatype materialization = TABLE | VIEW | MERGE | INSERT_OVERWRITE

datatype schema_contract_mode = DISABLED | WARN | STRICT

record exposure_ref =
  ex_name :: string
  ex_type :: string
  ex_url :: "string option"
  ex_label :: "string option"

record column_contract =
  cc_name :: string
  cc_data_type :: string
  cc_nullable :: bool

subsection \<open>Model definitions\<close>

record model_definition =
  md_name :: string
  md_kind :: model_kind
  md_materialization :: materialization
  md_time_column :: "string option"
  md_unique_key :: "string option"
  md_partition_by :: "string option"
  md_incremental_strategy :: "string option"
  md_owner :: "string option"
  md_tags :: "string list"
  md_dependencies :: "string list"
  md_exposures :: "exposure_ref list"
  md_pre_hooks :: "string list"
  md_post_hooks :: "string list"
  md_file_path :: string
  md_raw_sql :: string
  md_clean_sql :: string
  md_content_hash :: string
  md_referenced_tables :: "string list"
  md_output_columns :: "string list"
  md_contract_mode :: schema_contract_mode
  md_contract_columns :: "column_contract list"
  md_tests :: "model_test_definition list"

datatype model_error =
    MissingTimeColumn string
  | MissingUniqueKey string

text \<open>An optional string is falsy when it is \<^verbatim>\<open>None\<close> or empty.\<close>

definition falsy :: "string option \<Rightarrow> bool" where
  "falsy s \<longleftrightarrow> s = None \<or> s = Some []"

definition validate_kind_requirements :: "model_definition \<Rightarrow> model_error + model_definition" where
  "validate_kind_requirements m =
     (if md_kind m = INCREMENTAL_BY_TIME_RANGE \<and> falsy (md_time_column m) then Inl (MissingTimeColumn (md_name m))
      else if md_kind m = MERGE_BY_KEY \<and> falsy (md_unique_key m) then Inl (MissingUniqueKey (md_name m))
      else Inr m)"

definition with_parsed_artifacts ::
  "model_definition \<Rightarrow> string \<Rightarrow> string \<Rightarrow> string list \<Rightarrow> string list \<Rightarrow> model_definition" where
  "with_parsed_artifacts m sql hash tables columns =
     m\<lparr>md_clean_sql := sql, md_content_hash := hash, md_referenced_tables := tables,
       md_output_columns := columns\<rparr>"

lemma validate_kind_requirements_Inr:
  "validate_kind_requirements m = Inr m' \<longleftrightarrow>
     m' = m \<and> (md_kind m = INCREMENTAL_BY_TIME_RANGE \<longrightarrow> \<not> falsy (md_time_column m)) \<and>
     (md_kind m = MERGE_BY_KEY \<longrightarrow> \<not> falsy (md_unique_key m))"
  by (auto simp: validate_kind_requirements_def)

lemma with_parsed_artifacts_valid:
  "validate_kind_requirements m = Inr m \<Longrightarrow>
   validate_kind_requirements (with_parsed_artifacts m s h t c) = Inr (with_parsed_artifacts m s h t c)"
  by (auto simp: validate_kind_requirements_Inr with_parsed_artifacts_def)

subsection \<open>plan.py: date ranges, steps, plans\<close>

record date_range =
  dr_start :: date
  dr_end :: date

datatype range_error = RangeStartAfterEnd date date

text \<open>Building a \<^verbatim>\<open>DateRange\<close> runs its validator.\<close>

definition mk_date_range :: "date \<Rightarrow> date \<Rightarrow> range_error + date_range" where
  "mk_date_range s e =
     (if s > e then Inl (RangeStartAfterEnd s e) else Inr \<lparr>dr_start = s, dr_end = e\<rparr>)"

definition date_range_ok :: "date_range \<Rightarrow> bool" where
  "date_range_ok r \<longleftrightarrow> dr_start r \<le> dr_end r"

lemma mk_date_range_ok: "mk_date_range s e = Inr r \<Longrightarrow> date_range_ok r \<and> dr_start r = s \<and> dr_end r = e"
  by (auto simp: mk_date_range_def date_range_ok_def split: if_splits)

datatype run_type = FULL_REFRESH | INCREMENTAL

text \<open>The six entries of a step's contract violation dictionary (\<^verbatim>\<open>message\<close> is display text).\<close>

record step_violation =
  sv_column_name :: string
  sv_violation_type :: string
  sv_severity :: string
  sv_expected :: string
  sv_actual :: string
  sv_message :: string

record plan_step =
  ps_step_id :: string
  ps_model :: string
  ps_run_type :: run_type
  ps_input_range :: "date_range option"
  ps_depends_on :: "string list"
  ps_parallel_group :: nat
  ps_reason :: string
  ps_estimated_compute_seconds :: rat
  ps_estimated_cost_usd :: rat
  ps_contract_violations :: "step_violation list"

record plan_summary =
  sm_total_steps :: nat
  sm_estimated_cost_usd :: rat
  sm_models_changed :: "string list"
  sm_cosmetic_changes_skipped :: "string list"
  sm_contract_violations_count :: nat
  sm_breaking_contract_violations :: nat

record plan =
  pl_plan_id :: string
  pl_base :: string
  pl_target :: string
  pl_summary :: plan_summary
  pl_steps :: "plan_step list"

text \<open>
  \<^verbatim>\<open>compute_deterministic_id\<close>: the hash is fed the parts one after the other, each followed by a NUL
  byte, so it is the hash of their concatenation. SHA-256 itself is the argument \<open>sha\<close>.
\<close>

definition id_preimage :: "string list \<Rightarrow> string" where
  "id_preimage parts = concat (map (\<lambda>p. p @ [CHR 0x00]) parts)"

definition compute_deterministic_id :: "(string \<Rightarrow> string) \<Rightarrow> string list \<Rightarrow> string" where
  "compute_deterministic_id sha parts = sha (id_preimage parts)"

text \<open>The NUL separator makes the preimage unambiguous as long as no part holds a NUL itself.\<close>

lemma append_sep_eq:
  "z \<notin> set a \<Longrightarrow> z \<notin> set b \<Longrightarrow> a @ z # r = b @ z # s \<longleftrightarrow> a = b \<and> r = s"
  by (induction a arbitrary: b) (case_tac b; auto)+

lemma id_preimage_inj:
  "\<forall>p\<in>set ps. CHR 0x00 \<notin> set p \<Longrightarrow> \<forall>q\<in>set qs. CHR 0x00 \<notin> set q \<Longrightarrow>
   id_preimage ps = id_preimage qs \<longleftrightarrow> ps = qs"
proof (induction ps arbitrary: qs)
  case Nil
  then show ?case by (cases qs) (auto simp: id_preimage_def)
next
  case (Cons p ps)
  show ?case
  proof (cases qs)
    case Nil
    then show ?thesis by (auto simp: id_preimage_def)
  next
    case (Cons q qs')
    have "id_preimage (p # ps) = id_preimage (q # qs') \<longleftrightarrow>
          p @ CHR 0x00 # id_preimage ps = q @ CHR 0x00 # id_preimage qs'"
      by (simp add: id_preimage_def)
    also have "\<dots> \<longleftrightarrow> p = q \<and> id_preimage ps = id_preimage qs'"
      using Cons.prems Cons by (intro append_sep_eq) auto
    also have "\<dots> \<longleftrightarrow> p = q \<and> ps = qs'"
      using Cons.IH[of qs'] Cons.prems Cons by auto
    finally show ?thesis using Cons by simp
  qed
qed

subsection \<open>diff.py\<close>

datatype change_type = ADDED | REMOVED | MODIFIED | COSMETIC_ONLY | NO_CHANGE

record hash_change =
  hc_old_hash :: string
  hc_new_hash :: string

record diff_result =
  df_added_models :: "string list"
  df_removed_models :: "string list"
  df_modified_models :: "string list"
  df_hash_changes :: "(string \<times> hash_change) list"

subsection \<open>run.py\<close>

datatype run_status = PENDING | RUNNING | SUCCESS | FAIL | CANCELLED

text \<open>\<^verbatim>\<open>RunStatus.value\<close>\<close>

fun run_status_value :: "run_status \<Rightarrow> string" where
  "run_status_value PENDING = ''PENDING''"
| "run_status_value RUNNING = ''RUNNING''"
| "run_status_value SUCCESS = ''SUCCESS''"
| "run_status_value FAIL = ''FAIL''"
| "run_status_value CANCELLED = ''CANCELLED''"

subsection \<open>A sample model, used to evaluate the definitions on concrete inputs\<close>

definition demo_model :: "string \<Rightarrow> string list \<Rightarrow> model_definition" where
  "demo_model n deps =
     \<lparr>md_name = n, md_kind = FULL_REFRESH_KIND, md_materialization = TABLE, md_time_column = None,
      md_unique_key = None, md_partition_by = None, md_incremental_strategy = None, md_owner = None,
      md_tags = [], md_dependencies = deps, md_exposures = [], md_pre_hooks = [], md_post_hooks = [],
      md_file_path = n @ ''.sql'', md_raw_sql = [], md_clean_sql = ''SELECT 1'', md_content_hash = n,
      md_referenced_tables = [], md_output_columns = [], md_contract_mode = DISABLED,
      md_contract_columns = [], md_tests = []\<rparr>"

lemma demo_model_sel [simp]:
  "md_name (demo_model n deps) = n" "md_dependencies (demo_model n deps) = deps"
  "md_referenced_tables (demo_model n deps) = []" "md_kind (demo_model n deps) = FULL_REFRESH_KIND"
  "md_contract_columns (demo_model n deps) = []" "md_clean_sql (demo_model n deps) = ''SELECT 1''"
  by (simp_all add: demo_model_def)

end
