(* ===== verification/Digraph.thy ===== *)
theory Digraph
  imports Models
begin

text \<open>
  The graph library. The source keeps the dependency graph in a \<^verbatim>\<open>networkx.DiGraph\<close>, which is not
  part of the repository: the calls it makes are the fields of a record \<open>nx\<close> that every definition
  using a graph takes as an argument, and \<open>nx_laws\<close> states the documented behaviour the code
  relies on. \<open>list_nx\<close> is a graph library of adjacency pairs that satisfies the laws, so that
  concrete inputs can be evaluated. A Python set the library returns is a list here, of which only
  the members matter.
\<close>

record 'g nx =
  nx_empty :: 'g
  nx_add_node :: "'g \<Rightarrow> string \<Rightarrow> model_definition \<Rightarrow> 'g"
  nx_add_edge :: "'g \<Rightarrow> string \<Rightarrow> string \<Rightarrow> 'g"
  nx_subgraph :: "'g \<Rightarrow> string list \<Rightarrow> 'g"
  nx_nodes :: "'g \<Rightarrow> string list"
  nx_model :: "'g \<Rightarrow> string \<Rightarrow> model_definition option"
  nx_successors :: "'g \<Rightarrow> string \<Rightarrow> string list"
  nx_predecessors :: "'g \<Rightarrow> string \<Rightarrow> string list"
  nx_in_degree :: "'g \<Rightarrow> (string \<times> int) list"
  nx_descendants :: "'g \<Rightarrow> string \<Rightarrow> string list"
  nx_ancestors :: "'g \<Rightarrow> string \<Rightarrow> string list"
  nx_simple_cycles :: "'g \<Rightarrow> string list list"

definition nx_edges :: "'g nx \<Rightarrow> 'g \<Rightarrow> (string \<times> string) set" where
  "nx_edges nx g = {(u, v). u \<in> set (nx_nodes nx g) \<and> v \<in> set (nx_successors nx g u)}"

text \<open>What the queries of one graph say about its nodes and edges.\<close>

definition nx_graph :: "'g nx \<Rightarrow> 'g \<Rightarrow> bool" where
  "nx_graph nx g \<longleftrightarrow>
     distinct (nx_nodes nx g) \<and>
     (\<forall>u\<in>set (nx_nodes nx g). distinct (nx_successors nx g u) \<and> set (nx_successors nx g u) \<subseteq> set (nx_nodes nx g)) \<and>
     (\<forall>v\<in>set (nx_nodes nx g). distinct (nx_predecessors nx g v) \<and>
        set (nx_predecessors nx g v) = {u. (u, v) \<in> nx_edges nx g}) \<and>
     nx_in_degree nx g = map (\<lambda>v. (v, int (length (nx_predecessors nx g v)))) (nx_nodes nx g) \<and>
     (\<forall>u\<in>set (nx_nodes nx g). set (nx_descendants nx g u) = {v. (u, v) \<in> (nx_edges nx g)\<^sup>+} - {u}) \<and>
     (\<forall>v\<in>set (nx_nodes nx g). set (nx_ancestors nx g v) = {u. (u, v) \<in> (nx_edges nx g)\<^sup>+} - {v}) \<and>
     (nx_simple_cycles nx g = [] \<longleftrightarrow> acyclic (nx_edges nx g))"

text \<open>What the constructing calls do.\<close>

definition nx_laws :: "'g nx \<Rightarrow> bool" where
  "nx_laws nx \<longleftrightarrow>
     (\<forall>g. nx_graph nx g) \<and>
     nx_nodes nx (nx_empty nx) = [] \<and>
     (\<forall>g n m. set (nx_nodes nx (nx_add_node nx g n m)) = insert n (set (nx_nodes nx g)) \<and>
        nx_edges nx (nx_add_node nx g n m) = nx_edges nx g \<and>
        nx_model nx (nx_add_node nx g n m) = (nx_model nx g)(n \<mapsto> m)) \<and>
     (\<forall>g u v. set (nx_nodes nx (nx_add_edge nx g u v)) = set (nx_nodes nx g) \<union> {u, v} \<and>
        nx_edges nx (nx_add_edge nx g u v) = insert (u, v) (nx_edges nx g) \<and>
        nx_model nx (nx_add_edge nx g u v) = nx_model nx g) \<and>
     (\<forall>g S. set (nx_nodes nx (nx_subgraph nx g S)) = set (nx_nodes nx g) \<inter> set S \<and>
        nx_edges nx (nx_subgraph nx g S) = nx_edges nx g \<inter> (set S \<times> set S))"

named_theorems nx_facts "consequences of the graph library's laws"

lemma nx_laws_graph: "nx_laws nx \<Longrightarrow> nx_graph nx g"
  by (simp add: nx_laws_def)

lemma nx_distinct_nodes [nx_facts]: "nx_laws nx \<Longrightarrow> distinct (nx_nodes nx g)"
  by (drule nx_laws_graph[where g = g]) (simp add: nx_graph_def)

lemma nx_successors_nodes:
  "nx_laws nx \<Longrightarrow> u \<in> set (nx_nodes nx g) \<Longrightarrow> set (nx_successors nx g u) \<subseteq> set (nx_nodes nx g)"
  by (drule nx_laws_graph[where g = g]) (simp only: nx_graph_def)

lemma nx_edges_nodes: "nx_laws nx \<Longrightarrow> nx_edges nx g \<subseteq> set (nx_nodes nx g) \<times> set (nx_nodes nx g)"
  unfolding nx_edges_def using nx_successors_nodes by fast

lemma nx_edge_nodesD:
  "nx_laws nx \<Longrightarrow> (u, v) \<in> nx_edges nx g \<Longrightarrow> u \<in> set (nx_nodes nx g) \<and> v \<in> set (nx_nodes nx g)"
  by (drule nx_edges_nodes) auto

lemma nx_finite_edges: "nx_laws nx \<Longrightarrow> finite (nx_edges nx g)"
  by (rule finite_subset[OF nx_edges_nodes]) auto

lemma nx_set_successors [nx_facts]:
  "u \<in> set (nx_nodes nx g) \<Longrightarrow> set (nx_successors nx g u) = {v. (u, v) \<in> nx_edges nx g}"
  by (auto simp: nx_edges_def)

lemma nx_distinct_successors [nx_facts]:
  "nx_laws nx \<Longrightarrow> u \<in> set (nx_nodes nx g) \<Longrightarrow> distinct (nx_successors nx g u)"
  by (drule nx_laws_graph[where g = g]) (simp add: nx_graph_def)

lemma nx_set_predecessors [nx_facts]:
  "nx_laws nx \<Longrightarrow> v \<in> set (nx_nodes nx g) \<Longrightarrow> set (nx_predecessors nx g v) = {u. (u, v) \<in> nx_edges nx g}"
  by (drule nx_laws_graph[where g = g]) (simp add: nx_graph_def)

lemma nx_distinct_predecessors [nx_facts]:
  "nx_laws nx \<Longrightarrow> v \<in> set (nx_nodes nx g) \<Longrightarrow> distinct (nx_predecessors nx g v)"
  by (drule nx_laws_graph[where g = g]) (simp add: nx_graph_def)

lemma nx_in_degree_eq:
  "nx_laws nx \<Longrightarrow> nx_in_degree nx g = map (\<lambda>v. (v, int (length (nx_predecessors nx g v)))) (nx_nodes nx g)"
  by (drule nx_laws_graph[where g = g]) (simp add: nx_graph_def)

lemma nx_set_descendants [nx_facts]:
  "nx_laws nx \<Longrightarrow> u \<in> set (nx_nodes nx g) \<Longrightarrow>
   set (nx_descendants nx g u) = {v. (u, v) \<in> (nx_edges nx g)\<^sup>+} - {u}"
  by (drule nx_laws_graph[where g = g]) (simp add: nx_graph_def)

lemma nx_set_ancestors [nx_facts]:
  "nx_laws nx \<Longrightarrow> v \<in> set (nx_nodes nx g) \<Longrightarrow>
   set (nx_ancestors nx g v) = {u. (u, v) \<in> (nx_edges nx g)\<^sup>+} - {v}"
  by (drule nx_laws_graph[where g = g]) (simp add: nx_graph_def)

lemma nx_simple_cycles_iff: "nx_laws nx \<Longrightarrow> nx_simple_cycles nx g = [] \<longleftrightarrow> acyclic (nx_edges nx g)"
  by (drule nx_laws_graph[where g = g]) (simp add: nx_graph_def)

lemma nx_subgraph_facts [nx_facts]:
  assumes "nx_laws nx"
  shows "set (nx_nodes nx (nx_subgraph nx g S)) = set (nx_nodes nx g) \<inter> set S"
    and "nx_edges nx (nx_subgraph nx g S) = nx_edges nx g \<inter> (set S \<times> set S)"
  using assms by (simp_all add: nx_laws_def)

lemma nx_construct_facts [nx_facts]:
  assumes "nx_laws nx"
  shows "nx_nodes nx (nx_empty nx) = []"
    and "set (nx_nodes nx (nx_add_node nx g n m)) = insert n (set (nx_nodes nx g))"
    and "nx_edges nx (nx_add_node nx g n m) = nx_edges nx g"
    and "nx_model nx (nx_add_node nx g n m) = (nx_model nx g)(n \<mapsto> m)"
    and "set (nx_nodes nx (nx_add_edge nx g u v)) = set (nx_nodes nx g) \<union> {u, v}"
    and "nx_edges nx (nx_add_edge nx g u v) = insert (u, v) (nx_edges nx g)"
    and "nx_model nx (nx_add_edge nx g u v) = nx_model nx g"
  using assms by (simp_all add: nx_laws_def)

lemma nx_empty_edges [nx_facts]: "nx_laws nx \<Longrightarrow> nx_edges nx (nx_empty nx) = {}"
  by (simp add: nx_edges_def nx_construct_facts)

subsection \<open>A library of adjacency pairs\<close>

type_synonym list_graph = "(string \<times> model_definition option) list \<times> (string \<times> string) list"

definition lg_nodes :: "list_graph \<Rightarrow> string list" where
  "lg_nodes g = remdups (map fst (fst g) @ map fst (snd g) @ map snd (snd g))"

definition lg_model :: "list_graph \<Rightarrow> string \<Rightarrow> model_definition option" where
  "lg_model g n = (case map_of (fst g) n of None \<Rightarrow> None | Some m \<Rightarrow> m)"

definition lg_succs :: "list_graph \<Rightarrow> string \<Rightarrow> string list" where
  "lg_succs g u = remdups (map snd (filter (\<lambda>e. fst e = u) (snd g)))"

definition lg_preds :: "list_graph \<Rightarrow> string \<Rightarrow> string list" where
  "lg_preds g v = remdups (map fst (filter (\<lambda>e. snd e = v) (snd g)))"

definition list_nx :: "list_graph nx" where
  "list_nx = \<lparr>nx_empty = ([], []),
     nx_add_node = (\<lambda>g n m. ((n, Some m) # fst g, snd g)),
     nx_add_edge = (\<lambda>g u v. (fst g, (u, v) # snd g)),
     nx_subgraph = (\<lambda>g S. (map (\<lambda>n. (n, lg_model g n)) (filter (\<lambda>n. n \<in> set S) (lg_nodes g)),
                           filter (\<lambda>e. fst e \<in> set S \<and> snd e \<in> set S) (snd g))),
     nx_nodes = lg_nodes,
     nx_model = lg_model,
     nx_successors = lg_succs,
     nx_predecessors = lg_preds,
     nx_in_degree = (\<lambda>g. map (\<lambda>v. (v, int (length (lg_preds g v)))) (lg_nodes g)),
     nx_descendants = (\<lambda>g u. filter (\<lambda>v. v \<noteq> u \<and> (u, v) \<in> (set (snd g))\<^sup>+) (lg_nodes g)),
     nx_ancestors = (\<lambda>g v. filter (\<lambda>u. u \<noteq> v \<and> (u, v) \<in> (set (snd g))\<^sup>+) (lg_nodes g)),
     nx_simple_cycles = (\<lambda>g. map (\<lambda>u. [u]) (filter (\<lambda>u. (u, u) \<in> (set (snd g))\<^sup>+) (lg_nodes g)))\<rparr>"

lemmas lg_defs = lg_nodes_def lg_model_def lg_succs_def lg_preds_def

lemma list_nx_edges: "nx_edges list_nx g = set (snd g)"
  by (force simp: nx_edges_def list_nx_def lg_defs)

lemma lg_trancl_nodes: "(u, v) \<in> (set (snd g))\<^sup>+ \<Longrightarrow> u \<in> set (lg_nodes g) \<and> v \<in> set (lg_nodes g)"
proof -
  assume "(u, v) \<in> (set (snd g))\<^sup>+"
  then obtain a b where "(u, b) \<in> set (snd g)" "(a, v) \<in> set (snd g)"
    by (metis tranclD tranclD2)
  then show ?thesis by (force simp: lg_nodes_def)
qed

lemma list_nx_sel [simp]:
  "nx_empty list_nx = ([], [])"
  "nx_add_node list_nx g n m = ((n, Some m) # fst g, snd g)"
  "nx_add_edge list_nx g u v = (fst g, (u, v) # snd g)"
  "nx_nodes list_nx = lg_nodes" "nx_model list_nx = lg_model"
  "nx_successors list_nx = lg_succs" "nx_predecessors list_nx = lg_preds"
  by (simp_all add: list_nx_def)

lemma list_nx_graph: "nx_graph list_nx g"
  unfolding nx_graph_def list_nx_edges
proof (intro conjI ballI)
  show "distinct (nx_nodes list_nx g)" by (simp add: lg_nodes_def)
next
  fix u
  show "distinct (nx_successors list_nx g u)" by (simp add: lg_succs_def)
  show "set (nx_successors list_nx g u) \<subseteq> set (nx_nodes list_nx g)" by (auto simp: lg_succs_def lg_nodes_def)
next
  fix v
  show "distinct (nx_predecessors list_nx g v)" by (simp add: lg_preds_def)
  show "set (nx_predecessors list_nx g v) = {u. (u, v) \<in> set (snd g)}" by (force simp: lg_preds_def)
next
  show "nx_in_degree list_nx g = map (\<lambda>v. (v, int (length (nx_predecessors list_nx g v)))) (nx_nodes list_nx g)"
    by (simp add: list_nx_def)
next
  fix u
  show "set (nx_descendants list_nx g u) = {v. (u, v) \<in> (set (snd g))\<^sup>+} - {u}"
    using lg_trancl_nodes[of u _ g] by (auto simp: list_nx_def)
next
  fix v
  show "set (nx_ancestors list_nx g v) = {u. (u, v) \<in> (set (snd g))\<^sup>+} - {v}"
    using lg_trancl_nodes[of _ v g] by (auto simp: list_nx_def)
next
  show "(nx_simple_cycles list_nx g = []) = acyclic (set (snd g))"
    using lg_trancl_nodes[of _ _ g] by (auto simp: list_nx_def acyclic_def filter_empty_conv)
qed

lemma list_nx_laws: "nx_laws list_nx"
  unfolding nx_laws_def list_nx_edges
proof (intro conjI allI)
  fix g n m
  show "nx_graph list_nx g" by (rule list_nx_graph)
  show "nx_nodes list_nx (nx_empty list_nx) = []" by (simp add: lg_nodes_def)
  show "set (nx_nodes list_nx (nx_add_node list_nx g n m)) = insert n (set (nx_nodes list_nx g))"
    by (auto simp: lg_nodes_def)
  show "set (snd (nx_add_node list_nx g n m)) = set (snd g)" by simp
  show "nx_model list_nx (nx_add_node list_nx g n m) = (nx_model list_nx g)(n \<mapsto> m)"
    by (simp add: lg_model_def fun_eq_iff)
next
  fix g u v
  show "set (nx_nodes list_nx (nx_add_edge list_nx g u v)) = set (nx_nodes list_nx g) \<union> {u, v}"
    by (auto simp: lg_nodes_def)
  show "set (snd (nx_add_edge list_nx g u v)) = insert (u, v) (set (snd g))" by simp
  show "nx_model list_nx (nx_add_edge list_nx g u v) = nx_model list_nx g"
    by (simp add: lg_model_def fun_eq_iff)
next
  fix g S
  show "set (nx_nodes list_nx (nx_subgraph list_nx g S)) = set (nx_nodes list_nx g) \<inter> set S"
    by (force simp: list_nx_def lg_nodes_def)
  show "set (snd (nx_subgraph list_nx g S)) = set (snd g) \<inter> set S \<times> set S"
    by (auto simp: list_nx_def)
qed

subsection \<open>Facts on finite acyclic relations\<close>

lemma finite_acyclic_minimal:
  assumes "finite V" "V \<noteq> {}" "acyclic E" "finite E"
  shows "\<exists>v\<in>V. \<forall>u\<in>V. (u, v) \<notin> E"
proof -
  have "wf E" using assms(3,4) by (rule finite_acyclic_wf[rotated])
  then show ?thesis using assms(2) by (metis ex_in_conv wfE_min)
qed

lemma trancl_closedD: "(u, v) \<in> E\<^sup>+ \<Longrightarrow> E \<subseteq> V \<times> V \<Longrightarrow> u \<in> V \<and> v \<in> V"
  using trancl_subset_Sigma[of E V] by blast

end
