(* ===== verification/Dag.thy ===== *)
theory Dag
  imports Digraph
begin

text \<open>
  The dependency graph of \<^verbatim>\<open>core_engine/core_engine/graph/dag_builder.py\<close>: construction from model
  definitions, the lexicographic topological sort (Kahn's algorithm with a min-heap), breadth-first
  closures, parallel group assignment, cycle detection and validation. The Python loops are
  \<open>relax\<close> (the inner \<^verbatim>\<open>for successor\<close>), \<open>topo_loop\<close> (the outer \<^verbatim>\<open>while heap\<close>), \<open>bfs\<close> (the deque
  loop of both closures) and \<open>depth_loop\<close>.
\<close>

datatype dag_error =
    CyclicDependencyError "string list list"
  | NetworkXUnfeasible
  | DagKeyError string

subsection \<open>The heap\<close>

text \<open>
  \<^verbatim>\<open>heapq\<close> keeps a list whose observable behaviour is: push adds an element, pop removes one
  occurrence of the least. The contract the sort relies on is the locale \<open>min_heap\<close>.
\<close>

definition heappush :: "'a list \<Rightarrow> 'a \<Rightarrow> 'a list" where
  "heappush h x = x # h"

definition heappop :: "'a::linorder list \<Rightarrow> 'a \<times> 'a list" where
  "heappop h = (let m = Min (set h) in (m, remove1 m h))"

locale min_heap =
  fixes push :: "'h \<Rightarrow> 'a::linorder \<Rightarrow> 'h"
    and pop :: "'h \<Rightarrow> 'a \<times> 'h"
    and elems :: "'h \<Rightarrow> 'a multiset"
  assumes push_elems: "elems (push h x) = add_mset x (elems h)"
    and pop_elems: "elems h \<noteq> {#} \<Longrightarrow> elems (snd (pop h)) = elems h - {#fst (pop h)#}"
    and pop_min: "elems h \<noteq> {#} \<Longrightarrow> fst (pop h) = Min_mset (elems h)"
begin

lemma pop_member: "elems h \<noteq> {#} \<Longrightarrow> fst (pop h) \<in># elems h"
  by (simp add: pop_min)

lemma pop_split: "elems h \<noteq> {#} \<Longrightarrow> elems h = add_mset (fst (pop h)) (elems (snd (pop h)))"
  using pop_member[of h] by (simp add: pop_elems)

lemma pop_least: "x \<in># elems h \<Longrightarrow> fst (pop h) \<le> x"
  by (cases "elems h = {#}") (simp_all add: pop_min)

lemma pop_size: "elems h \<noteq> {#} \<Longrightarrow> size (elems h) = Suc (size (elems (snd (pop h))))"
  by (subst pop_split) simp_all

end

interpretation heapq: min_heap "heappush :: string list \<Rightarrow> string \<Rightarrow> string list" heappop mset
  by unfold_locales (auto simp: heappush_def heappop_def Let_def)

subsection \<open>Building the graph\<close>

definition upstream_names :: "model_definition \<Rightarrow> string list" where
  "upstream_names m = remdups (md_referenced_tables m @ md_dependencies m)"

fun add_nodes :: "'g nx \<Rightarrow> 'g \<Rightarrow> model_definition list \<Rightarrow> 'g" where
  "add_nodes nx g [] = g"
| "add_nodes nx g (m # ms) = add_nodes nx (nx_add_node nx g (md_name m) m) ms"

fun add_upstream_edges :: "'g nx \<Rightarrow> string list \<Rightarrow> string \<Rightarrow> 'g \<Rightarrow> string list \<Rightarrow> 'g" where
  "add_upstream_edges nx names n g [] = g"
| "add_upstream_edges nx names n g (u # us) =
     add_upstream_edges nx names n (if u \<in> set names \<and> u \<noteq> n then nx_add_edge nx g u n else g) us"

fun add_edges :: "'g nx \<Rightarrow> string list \<Rightarrow> 'g \<Rightarrow> model_definition list \<Rightarrow> 'g" where
  "add_edges nx names g [] = g"
| "add_edges nx names g (m # ms) =
     add_edges nx names (add_upstream_edges nx names (md_name m) g (upstream_names m)) ms"

definition build_dag :: "'g nx \<Rightarrow> model_definition list \<Rightarrow> 'g" where
  "build_dag nx models = add_edges nx (map md_name models) (add_nodes nx (nx_empty nx) models) models"

subsection \<open>Topological sort\<close>

fun relax :: "(string \<times> int) list \<Rightarrow> string list \<Rightarrow> string list \<Rightarrow>
    dag_error + (string \<times> int) list \<times> string list" where
  "relax deg heap [] = Inr (deg, heap)"
| "relax deg heap (s # ss) =
     (case map_of deg s of
        None \<Rightarrow> Inl (DagKeyError s)
      | Some d \<Rightarrow> relax (dict_set deg s (d - 1)) (if d - 1 = 0 then heappush heap s else heap) ss)"

text \<open>Every round of the loop moves one node out of the positive degrees or out of the heap.\<close>

definition positive_count :: "(string \<times> int) list \<Rightarrow> nat" where
  "positive_count deg = length (filter (\<lambda>(_, d). d > 0) deg)"

lemma positive_count_dict_set:
  "map_of deg s = Some d \<Longrightarrow>
   positive_count (dict_set deg s (d - 1)) + (if d = 1 then 1 else 0) = positive_count deg"
proof (induction deg)
  case Nil
  then show ?case by simp
next
  case (Cons p deg)
  obtain k e where p: "p = (k, e)" by (cases p)
  show ?case
  proof (cases "k = s")
    case True
    with Cons.prems p show ?thesis by (auto simp: positive_count_def)
  next
    case False
    with Cons.prems p have "map_of deg s = Some d" by auto
    then have "positive_count (dict_set deg s (d - 1)) + (if d = 1 then 1 else 0) = positive_count deg"
      by (rule Cons.IH)
    with False p show ?thesis by (auto simp: positive_count_def)
  qed
qed

lemma relax_measure:
  "relax deg heap ss = Inr (deg', heap') \<Longrightarrow>
   positive_count deg' + length heap' = positive_count deg + length heap"
proof (induction deg heap ss rule: relax.induct)
  case (1 deg heap)
  then show ?case by simp
next
  case (2 deg heap s ss)
  from "2.prems" obtain d where d: "map_of deg s = Some d"
    by (auto split: option.splits)
  with "2.prems" have "relax (dict_set deg s (d - 1)) (if d - 1 = 0 then heappush heap s else heap) ss
      = Inr (deg', heap')" by simp
  from "2.IH"[OF d this] positive_count_dict_set[OF d] show ?case
    by (auto simp: heappush_def split: if_splits)
qed

lemma heappop_length: "h \<noteq> [] \<Longrightarrow> length h = Suc (length (snd (heappop h)))"
  for h :: "string list"
  using heapq.pop_size[of h] by simp

function topo_loop :: "(string \<Rightarrow> string list) \<Rightarrow> (string \<times> int) list \<Rightarrow> string list \<Rightarrow> string list \<Rightarrow>
    dag_error + string list" where
  "topo_loop successors deg heap result =
     (if heap = [] then Inr result
      else case relax deg (snd (heappop heap)) (sort (successors (fst (heappop heap)))) of
             Inl e \<Rightarrow> Inl e
           | Inr (deg', heap') \<Rightarrow> topo_loop successors deg' heap' (result @ [fst (heappop heap)]))"
  by pat_completeness auto
termination
proof (relation "measure (\<lambda>(_, deg, heap, _). positive_count deg + length heap)", goal_cases)
  case 1
  then show ?case by simp
next
  case (2 successors deg heap result p deg' heap')
  then show ?case
    using relax_measure[of deg "snd (heappop heap)" "sort (successors (fst (heappop heap)))" deg' heap']
      heappop_length[of heap]
    by simp
qed

declare topo_loop.simps [simp del]

definition lexicographic_topological_sort :: "'g nx \<Rightarrow> 'g \<Rightarrow> dag_error + string list" where
  "lexicographic_topological_sort nx g =
     (let in_degree = nx_in_degree nx g;
          heap = sort (map fst (filter (\<lambda>(_, d). d = 0) in_degree))
      in case topo_loop (nx_successors nx g) in_degree heap [] of
           Inl e \<Rightarrow> Inl e
         | Inr result \<Rightarrow>
             if length result \<noteq> length (nx_nodes nx g) then Inl NetworkXUnfeasible else Inr result)"

definition topological_sort :: "'g nx \<Rightarrow> 'g \<Rightarrow> dag_error + string list" where
  "topological_sort nx g =
     (case lexicographic_topological_sort nx g of
        Inl NetworkXUnfeasible \<Rightarrow> Inl (CyclicDependencyError (nx_simple_cycles nx g))
      | r \<Rightarrow> r)"

subsection \<open>Traversals\<close>

text \<open>The deque loop may not end on an arbitrary graph value; \<open>None\<close> is "does not return".\<close>

partial_function (option) bfs ::
  "(string \<Rightarrow> string list) \<Rightarrow> string list \<Rightarrow> string list \<Rightarrow> string list option" where
  "bfs next visited queue =
     (case queue of
        [] \<Rightarrow> Some visited
      | current # rest \<Rightarrow>
          if current \<in> set visited then bfs next visited rest
          else bfs next (current # visited) (rest @ next current))"

definition get_downstream :: "'g nx \<Rightarrow> 'g \<Rightarrow> string \<Rightarrow> string list option" where
  "get_downstream nx g model_name =
     (if model_name \<notin> set (nx_nodes nx g) then Some []
      else bfs (nx_successors nx g) [] (nx_successors nx g model_name))"

definition get_upstream :: "'g nx \<Rightarrow> 'g \<Rightarrow> string \<Rightarrow> string list option" where
  "get_upstream nx g model_name =
     (if model_name \<notin> set (nx_nodes nx g) then Some []
      else bfs (nx_predecessors nx g) [] (nx_predecessors nx g model_name))"

subsection \<open>Parallel groups\<close>

text \<open>\<^verbatim>\<open>depth[pred]\<close> raises \<^verbatim>\<open>KeyError\<close> when a predecessor has no depth yet.\<close>

fun depth_loop :: "(string \<Rightarrow> string list) \<Rightarrow> (string \<times> nat) list \<Rightarrow> string list \<Rightarrow>
    dag_error + (string \<times> nat) list" where
  "depth_loop predecessors depth [] = Inr depth"
| "depth_loop predecessors depth (node # order) =
     (case filter (\<lambda>p. map_of depth p = None) (predecessors node) of
        p # _ \<Rightarrow> Inl (DagKeyError p)
      | [] \<Rightarrow>
          depth_loop predecessors
            (dict_set depth node
               (if predecessors node = [] then 0
                else Max (set (map (\<lambda>p. the (map_of depth p)) (predecessors node))) + 1))
            order)"

definition assign_parallel_groups ::
  "'g nx \<Rightarrow> 'g \<Rightarrow> string list \<Rightarrow> dag_error + (string \<times> nat) list" where
  "assign_parallel_groups nx g models_to_run =
     (if models_to_run = [] then Inr []
      else let subgraph = nx_subgraph nx g models_to_run
           in case lexicographic_topological_sort nx subgraph of
                Inl NetworkXUnfeasible \<Rightarrow> Inl (CyclicDependencyError (nx_simple_cycles nx subgraph))
              | Inl e \<Rightarrow> Inl e
              | Inr order \<Rightarrow>
                  (case depth_loop (nx_predecessors nx subgraph) [] order of
                     Inl e \<Rightarrow> Inl e
                   | Inr depth \<Rightarrow> Inr (map (\<lambda>(node, d). (node, d + 1)) depth)))"

subsection \<open>Cycle detection and validation\<close>

definition detect_cycles :: "'g nx \<Rightarrow> 'g \<Rightarrow> dag_error + string list list" where
  "detect_cycles nx g =
     (let cycles = nx_simple_cycles nx g
      in if cycles \<noteq> [] then Inl (CyclicDependencyError cycles) else Inr cycles)"

text \<open>A warning is the pair of the model and the unknown reference its text names.\<close>

definition node_warnings :: "'g nx \<Rightarrow> 'g \<Rightarrow> string list \<Rightarrow> string \<Rightarrow> (string \<times> string) list" where
  "node_warnings nx g known node =
     (case nx_model nx g node of
        None \<Rightarrow> []
      | Some m \<Rightarrow>
          map (\<lambda>ref. (node, ref))
            (filter (\<lambda>ref. ref \<notin> set known \<and> ref \<notin> set (nx_nodes nx g))
               (sorted_set (md_referenced_tables m @ md_dependencies m))))"

definition validate_dag :: "'g nx \<Rightarrow> 'g \<Rightarrow> string list \<Rightarrow> (string \<times> string) list" where
  "validate_dag nx g known = concat (map (node_warnings nx g known) (nx_nodes nx g))"

end
