(* ===== verification/Dag_Sort.thy ===== *)
theory Dag_Sort
  imports Dag
begin

text \<open>
  Correctness of the lexicographic topological sort. The specification does not mention the
  algorithm: \<open>greedy_order V E xs\<close> says that every element of \<open>xs\<close> is the alphabetically least node
  among those whose predecessors all stand before it. A complete greedy order is unique, so the
  result depends on the node set and the edge set only.
\<close>

definition ready :: "string set \<Rightarrow> (string \<times> string) set \<Rightarrow> string set \<Rightarrow> string set" where
  "ready V E S = {v \<in> V - S. \<forall>u. (u, v) \<in> E \<longrightarrow> u \<in> S}"

definition greedy_order :: "string set \<Rightarrow> (string \<times> string) set \<Rightarrow> string list \<Rightarrow> bool" where
  "greedy_order V E xs \<longleftrightarrow>
     (\<forall>i<length xs. xs ! i \<in> ready V E (set (take i xs)) \<and> (\<forall>w\<in>ready V E (set (take i xs)). xs ! i \<le> w))"

lemma greedy_order_Nil [simp]: "greedy_order V E []"
  by (simp add: greedy_order_def)

lemma greedy_order_snoc:
  "greedy_order V E (xs @ [x]) \<longleftrightarrow>
     greedy_order V E xs \<and> x \<in> ready V E (set xs) \<and> (\<forall>w\<in>ready V E (set xs). x \<le> w)"
  unfolding greedy_order_def by (auto simp: nth_append less_Suc_eq)

lemma greedy_order_take: "greedy_order V E xs \<Longrightarrow> greedy_order V E (take n xs)"
  unfolding greedy_order_def by (auto simp: min_absorb1)

lemma greedy_order_distinct: "greedy_order V E xs \<Longrightarrow> distinct xs"
  by (induction xs rule: rev_induct) (auto simp: greedy_order_snoc ready_def)

lemma greedy_order_subset: "greedy_order V E xs \<Longrightarrow> set xs \<subseteq> V"
  by (induction xs rule: rev_induct) (auto simp: greedy_order_snoc ready_def)

lemma greedy_order_closed: "greedy_order V E xs \<Longrightarrow> v \<in> set xs \<Longrightarrow> (u, v) \<in> E \<Longrightarrow> u \<in> set xs"
  by (induction xs rule: rev_induct) (auto simp: greedy_order_snoc ready_def)

lemma greedy_order_before:
  "greedy_order V E xs \<Longrightarrow> v \<in> set xs \<Longrightarrow> (u, v) \<in> E \<Longrightarrow> before xs u v"
proof (induction xs rule: rev_induct)
  case Nil
  then show ?case by simp
next
  case (snoc x xs)
  then have g: "greedy_order V E xs" and x: "x \<in> ready V E (set xs)"
    by (simp_all add: greedy_order_snoc)
  show ?case
  proof (cases "v \<in> set xs")
    case True
    with snoc.IH[OF g] snoc.prems(3) show ?thesis by (blast intro: before_append_mono)
  next
    case False
    with snoc.prems have "v = x" by simp
    with x snoc.prems(3) have "u \<in> set xs" by (auto simp: ready_def)
    with \<open>v = x\<close> show ?thesis by (auto intro: before_appendI)
  qed
qed

lemma greedy_order_unique_nth:
  assumes "greedy_order V E xs" "greedy_order V E ys" "i < length xs" "i < length ys"
  shows "take (Suc i) xs = take (Suc i) ys"
  using assms(3,4)
proof (induction i)
  case 0
  then have "xs ! 0 \<le> ys ! 0" "ys ! 0 \<le> xs ! 0"
    using assms(1,2) unfolding greedy_order_def by (metis take_0)+
  with 0 show ?case by (simp add: take_Suc_conv_app_nth)
next
  case (Suc i)
  then have IH: "take (Suc i) xs = take (Suc i) ys" by simp
  have "xs ! Suc i \<le> ys ! Suc i" "ys ! Suc i \<le> xs ! Suc i"
    using assms(1,2) Suc.prems IH unfolding greedy_order_def by metis+
  with IH Suc.prems show ?case by (simp add: take_Suc_conv_app_nth)
qed

lemma greedy_order_unique:
  assumes "greedy_order V E xs" "greedy_order V E ys" "length xs = length ys"
  shows "xs = ys"
proof (cases xs rule: rev_cases)
  case Nil
  with assms(3) show ?thesis by simp
next
  case (snoc zs z)
  with assms(3) have "length zs < length xs" "length zs < length ys" by auto
  from greedy_order_unique_nth[OF assms(1,2) this] assms(3) snoc show ?thesis by simp
qed

lemma greedy_complete_acyclic:
  assumes "greedy_order V E xs" "E \<subseteq> V \<times> V" "set xs = V"
  shows "acyclic E"
proof -
  have "before xs u v" if "(u, v) \<in> E\<^sup>+" for u v
    using that
  proof (induction rule: trancl_induct)
    case (base y)
    then show ?case using greedy_order_before[OF assms(1)] assms(2,3) by blast
  next
    case (step y z)
    then have "before xs y z" using greedy_order_before[OF assms(1)] assms(2,3) by blast
    with step.IH greedy_order_distinct[OF assms(1)] show ?case
      unfolding before_def by (metis distinct_conv_nth order_less_trans)
  qed
  moreover have "\<not> before xs v v" for v
    using greedy_order_distinct[OF assms(1)] unfolding before_def by (metis distinct_conv_nth order_less_irrefl order_less_trans)
  ultimately show ?thesis by (auto simp: acyclic_def)
qed

lemma ready_empty_acyclic:
  assumes "finite V" "E \<subseteq> V \<times> V" "acyclic E" "ready V E S = {}" "S \<subseteq> V"
  shows "S = V"
proof (rule ccontr)
  assume "S \<noteq> V"
  with assms(5) have "V - S \<noteq> {}" by blast
  moreover have "finite E" using assms(1,2) by (blast intro: finite_subset)
  ultimately obtain v where "v \<in> V - S" "\<forall>u\<in>V - S. (u, v) \<notin> E"
    using finite_acyclic_minimal[of "V - S" E] assms(1,3) by auto
  then have "v \<in> ready V E S" using assms(2) by (auto simp: ready_def)
  with assms(4) show False by simp
qed

subsection \<open>The loop\<close>

lemma relax_result:
  assumes "distinct ss" "\<forall>s\<in>set ss. map_of deg s \<noteq> None"
  shows "\<exists>deg' heap'. relax deg heap ss = Inr (deg', heap') \<and>
     map_of deg' = (\<lambda>v. if v \<in> set ss then map_option (\<lambda>d. d - 1) (map_of deg v) else map_of deg v) \<and>
     mset heap' = mset heap + mset (filter (\<lambda>s. map_of deg s = Some 1) ss)"
  using assms
proof (induction deg heap ss rule: relax.induct)
  case (1 deg heap)
  then show ?case by simp
next
  case (2 deg heap s ss)
  then obtain d where d: "map_of deg s = Some d" by auto
  let ?deg = "dict_set deg s (d - 1)" and ?heap = "if d - 1 = 0 then heappush heap s else heap"
  have "distinct ss" "\<forall>x\<in>set ss. map_of ?deg x \<noteq> None" using "2.prems" by auto
  from "2.IH"[OF d this] obtain deg' heap' where
    r: "relax ?deg ?heap ss = Inr (deg', heap')" and
    m: "map_of deg' = (\<lambda>v. if v \<in> set ss then map_option (\<lambda>d. d - 1) (map_of ?deg v) else map_of ?deg v)" and
    h: "mset heap' = mset ?heap + mset (filter (\<lambda>s. map_of ?deg s = Some 1) ss)"
    by blast
  have "filter (\<lambda>x. map_of ?deg x = Some 1) ss = filter (\<lambda>x. map_of deg x = Some 1) ss"
    using "2.prems"(1) by (intro filter_cong) auto
  then have "mset heap' = mset heap + mset (filter (\<lambda>s. map_of deg s = Some 1) (s # ss))"
    using h d by (simp add: heappush_def)
  moreover have "map_of deg' = (\<lambda>v. if v \<in> set (s # ss) then map_option (\<lambda>d. d - 1) (map_of deg v) else map_of deg v)"
    using m "2.prems"(1) d by (auto simp: fun_eq_iff)
  moreover have "relax deg heap (s # ss) = Inr (deg', heap')" using r d by simp
  ultimately show ?case by blast
qed

definition topo_inv :: "string set \<Rightarrow> (string \<times> string) set \<Rightarrow> (string \<times> int) list \<Rightarrow> string list \<Rightarrow> string list \<Rightarrow> bool" where
  "topo_inv V E deg heap res \<longleftrightarrow>
     greedy_order V E res \<and> mset heap = mset_set (ready V E (set res)) \<and>
     map_of deg = (\<lambda>v. if v \<in> V then Some (int (card {u. (u, v) \<in> E \<and> u \<notin> set res})) else None)"

lemma ready_finite [simp]: "finite V \<Longrightarrow> finite (ready V E S)"
  by (simp add: ready_def)

lemma ready_insert:
  assumes g: "greedy_order V E res" and x: "x \<in> ready V E (set res)" and E: "E \<subseteq> V \<times> V" "finite E"
  shows "ready V E (insert x (set res)) =
     (ready V E (set res) - {x}) \<union> {s. (x, s) \<in> E \<and> card {u. (u, s) \<in> E \<and> u \<notin> set res} = 1}"
    (is "?L = (?R - {x}) \<union> ?N")
    and "(ready V E (set res) - {x}) \<inter> {s. (x, s) \<in> E \<and> card {u. (u, s) \<in> E \<and> u \<notin> set res} = 1} = {}"
proof -
  have x': "x \<notin> set res" "x \<in> V" "(x, x) \<notin> E" using x by (auto simp: ready_def)
  have N: "s \<in> ?N \<longleftrightarrow> (x, s) \<in> E \<and> (\<forall>u. (u, s) \<in> E \<longrightarrow> u \<in> insert x (set res))" for s
  proof (cases "(x, s) \<in> E")
    case True
    have "card {u. (u, s) \<in> E \<and> u \<notin> set res} = 1 \<longleftrightarrow> {u. (u, s) \<in> E \<and> u \<notin> set res} = {x}"
    proof
      assume "card {u. (u, s) \<in> E \<and> u \<notin> set res} = 1"
      then obtain y where y: "{u. (u, s) \<in> E \<and> u \<notin> set res} = {y}" by (rule card_1_singletonE)
      moreover have "x \<in> {u. (u, s) \<in> E \<and> u \<notin> set res}" using True x'(1) by simp
      ultimately show "{u. (u, s) \<in> E \<and> u \<notin> set res} = {x}" by simp
    qed simp
    with True x'(1) show ?thesis by auto
  qed simp
  have out: "s \<notin> set res" if "(x, s) \<in> E" for s
    using greedy_order_closed[OF g, of s x] that x'(1) by blast
  show "?L = (?R - {x}) \<union> ?N"
  proof (rule set_eqI)
    fix s
    show "s \<in> ?L \<longleftrightarrow> s \<in> (?R - {x}) \<union> ?N"
    proof (cases "(x, s) \<in> E")
      case True
      with out[OF True] E(1) x' show ?thesis unfolding Un_iff N by (auto simp: ready_def)
    next
      case False
      then show ?thesis unfolding Un_iff N by (auto simp: ready_def)
    qed
  qed
  show "(?R - {x}) \<inter> ?N = {}" using x'(1) by (auto simp: ready_def)
qed

lemma topo_inv_step:
  assumes inv: "topo_inv V E deg heap res" and V: "finite V" "E \<subseteq> V \<times> V"
    and succs: "\<forall>u\<in>V. distinct (successors u) \<and> set (successors u) = {v. (u, v) \<in> E}"
    and ne: "heap \<noteq> []"
  shows "\<exists>deg' heap'. relax deg (snd (heappop heap)) (sort (successors (fst (heappop heap)))) = Inr (deg', heap') \<and>
     topo_inv V E deg' heap' (res @ [fst (heappop heap)])"
proof -
  define x where "x = fst (heappop heap)"
  have E: "finite E" using V by (blast intro: finite_subset)
  from inv have g: "greedy_order V E res" and h: "mset heap = mset_set (ready V E (set res))"
    and d: "map_of deg = (\<lambda>v. if v \<in> V then Some (int (card {u. (u, v) \<in> E \<and> u \<notin> set res})) else None)"
    by (auto simp: topo_inv_def)
  have hs: "set heap = ready V E (set res)" using h V(1) by (metis finite_set_mset_mset_set ready_finite set_mset_mset)
  have x: "x \<in> ready V E (set res)" using heapq.pop_member[of heap] ne hs by (simp add: x_def)
  have least: "\<forall>w\<in>ready V E (set res). x \<le> w" using heapq.pop_least[of _ heap] hs by (simp add: x_def)
  have xV: "x \<in> V" "x \<notin> set res" using x by (auto simp: ready_def)
  have ss: "distinct (sort (successors x))" "set (sort (successors x)) = {v. (x, v) \<in> E}"
    using succs xV(1) by auto
  have "\<forall>s\<in>set (sort (successors x)). map_of deg s \<noteq> None" using ss(2) d V(2) by auto
  from relax_result[OF ss(1) this, of "snd (heappop heap)"] obtain deg' heap' where
    r: "relax deg (snd (heappop heap)) (sort (successors x)) = Inr (deg', heap')" and
    m': "map_of deg' = (\<lambda>v. if v \<in> set (sort (successors x)) then map_option (\<lambda>d. d - 1) (map_of deg v) else map_of deg v)" and
    h': "mset heap' = mset (snd (heappop heap)) + mset (filter (\<lambda>s. map_of deg s = Some 1) (sort (successors x)))"
    by blast
  have m: "map_of deg' = (\<lambda>v. if (x, v) \<in> E then map_option (\<lambda>d. d - 1) (map_of deg v) else map_of deg v)"
    using m' ss(2) by simp
  have "int (card {u. (u, v) \<in> E \<and> u \<notin> set res}) - 1 = int (card {u. (u, v) \<in> E \<and> u \<notin> insert x (set res)})"
    if "(x, v) \<in> E" for v
  proof -
    have "{u. (u, v) \<in> E \<and> u \<notin> set res} = insert x {u. (u, v) \<in> E \<and> u \<notin> insert x (set res)}"
      using that xV(2) by auto
    moreover have "finite {u. (u, v) \<in> E \<and> u \<notin> insert x (set res)}"
      using V by (auto intro: finite_subset[of _ V])
    ultimately show ?thesis by simp
  qed
  moreover have "{u. (u, v) \<in> E \<and> u \<notin> insert x (set res)} = {u. (u, v) \<in> E \<and> u \<notin> set res}"
    if "(x, v) \<notin> E" for v using that by auto
  ultimately have "map_of deg' = (\<lambda>v. if v \<in> V then Some (int (card {u. (u, v) \<in> E \<and> u \<notin> set (res @ [x])})) else None)"
    using V(2) by (auto simp: m d fun_eq_iff)
  moreover have "mset heap' = mset_set (ready V E (set (res @ [x])))"
  proof -
    let ?N = "{s. (x, s) \<in> E \<and> card {u. (u, s) \<in> E \<and> u \<notin> set res} = 1}"
    have "mset (filter (\<lambda>s. map_of deg s = Some 1) (sort (successors x))) = mset_set ?N"
    proof -
      have "s \<in> V" if "(x, s) \<in> E" for s using that V(2) by blast
      then have N: "set (filter (\<lambda>s. map_of deg s = Some 1) (sort (successors x))) = ?N"
        unfolding set_filter ss(2) d by (auto split: if_splits)
      have "distinct (filter (\<lambda>s. map_of deg s = Some 1) (sort (successors x)))"
        using ss(1) by (rule distinct_filter)
      then show ?thesis unfolding N[symmetric] by (rule mset_set_set[symmetric])
    qed
    moreover have "mset (snd (heappop heap)) = mset_set (ready V E (set res) - {x})"
    proof -
      have "mset (snd (heappop heap)) = mset heap - {#x#}"
        using heapq.pop_elems[of heap] ne by (simp add: x_def)
      then show ?thesis using h x V(1) by (simp add: mset_set_Diff)
    qed
    moreover have "finite ?N" using V by (auto intro: finite_subset[of _ V])
    ultimately show ?thesis
      using h' ready_insert[OF g x V(2) E] V(1) by (simp add: mset_set_Union)
  qed
  moreover have "greedy_order V E (res @ [x])" using g x least by (simp add: greedy_order_snoc)
  ultimately show ?thesis using r unfolding x_def topo_inv_def by blast
qed

lemma topo_loop_correct:
  assumes "topo_inv V E deg heap res" "finite V" "E \<subseteq> V \<times> V"
    and "\<forall>u\<in>V. distinct (successors u) \<and> set (successors u) = {v. (u, v) \<in> E}"
  shows "\<exists>r. topo_loop successors deg heap res = Inr r \<and> greedy_order V E r \<and> ready V E (set r) = {}"
  using assms
proof (induction successors deg heap res rule: topo_loop.induct)
  case (1 successors deg heap res)
  show ?case
  proof (cases "heap = []")
    case True
    with "1.prems"(1,2) have "greedy_order V E res" "ready V E (set res) = {}"
      by (auto simp: topo_inv_def mset_set_empty_iff)
    with True show ?thesis by (simp add: topo_loop.simps)
  next
    case False
    from topo_inv_step[OF "1.prems"(1-4) False] obtain deg' heap' where
      r: "relax deg (snd (heappop heap)) (sort (successors (fst (heappop heap)))) = Inr (deg', heap')" and
      inv: "topo_inv V E deg' heap' (res @ [fst (heappop heap)])" by blast
    from "1.IH"[OF False r refl inv "1.prems"(2-4)] False r show ?thesis
      by (subst topo_loop.simps) simp
  qed
qed

subsection \<open>The sort on a graph value\<close>

lemma topo_initial:
  assumes "nx_laws nx"
  shows "topo_inv (set (nx_nodes nx g)) (nx_edges nx g) (nx_in_degree nx g)
           (sort (map fst (filter (\<lambda>(_, d). d = 0) (nx_in_degree nx g)))) []"
proof -
  let ?V = "set (nx_nodes nx g)" and ?E = "nx_edges nx g"
  have d: "map_of (nx_in_degree nx g) = (\<lambda>v. if v \<in> ?V then Some (int (length (nx_predecessors nx g v))) else None)"
    unfolding nx_in_degree_eq[OF assms] by (simp add: map_of_map_restrict restrict_map_def fun_eq_iff)
  have len: "length (nx_predecessors nx g v) = card {u. (u, v) \<in> ?E}" if "v \<in> ?V" for v
    using nx_distinct_predecessors[OF assms that] nx_set_predecessors[OF assms that]
    by (metis distinct_card)
  have fin: "finite {u. (u, v) \<in> ?E}" for v
    using nx_edges_nodes[OF assms, of g] by (auto intro: finite_subset[of _ ?V])
  have empty: "nx_predecessors nx g v = [] \<longleftrightarrow> (\<forall>u. (u, v) \<notin> ?E)" if "v \<in> ?V" for v
    using nx_set_predecessors[OF assms that] by (metis (mono_tags, lifting) Collect_empty_eq set_empty)
  have "map fst (filter (\<lambda>(_, d). d = 0) (nx_in_degree nx g)) = filter (\<lambda>v. nx_predecessors nx g v = []) (nx_nodes nx g)"
    unfolding nx_in_degree_eq[OF assms] by (simp add: filter_map o_def)
  moreover have "set (filter (\<lambda>v. nx_predecessors nx g v = []) (nx_nodes nx g)) = ready ?V ?E {}"
    using empty by (auto simp: ready_def)
  moreover have "distinct (filter (\<lambda>v. nx_predecessors nx g v = []) (nx_nodes nx g))"
    using nx_distinct_nodes[OF assms] by simp
  ultimately have "mset (sort (map fst (filter (\<lambda>(_, d). d = 0) (nx_in_degree nx g)))) = mset_set (ready ?V ?E {})"
    by (metis mset_set_set mset_sort)
  moreover have "map_of (nx_in_degree nx g) =
      (\<lambda>v. if v \<in> ?V then Some (int (card {u. (u, v) \<in> ?E \<and> u \<notin> set []})) else None)"
    unfolding d by (rule ext) (simp add: len)
  ultimately show ?thesis unfolding topo_inv_def by simp
qed

lemma lex_sort_cases:
  assumes "nx_laws nx"
  shows "\<exists>xs. greedy_order (set (nx_nodes nx g)) (nx_edges nx g) xs \<and>
     ready (set (nx_nodes nx g)) (nx_edges nx g) (set xs) = {} \<and>
     lexicographic_topological_sort nx g =
       (if set xs = set (nx_nodes nx g) then Inr xs else Inl NetworkXUnfeasible)"
proof -
  let ?V = "set (nx_nodes nx g)" and ?E = "nx_edges nx g"
  have succs: "\<forall>u\<in>?V. distinct (nx_successors nx g u) \<and> set (nx_successors nx g u) = {v. (u, v) \<in> ?E}"
    by (intro ballI conjI nx_distinct_successors[OF assms] nx_set_successors)
  from topo_loop_correct[OF topo_initial[OF assms] finite_set nx_edges_nodes[OF assms] succs]
  obtain xs where xs: "topo_loop (nx_successors nx g) (nx_in_degree nx g)
        (sort (map fst (filter (\<lambda>(_, d). d = 0) (nx_in_degree nx g)))) [] = Inr xs"
      "greedy_order ?V ?E xs" "ready ?V ?E (set xs) = {}" by blast
  have "length xs = length (nx_nodes nx g) \<longleftrightarrow> set xs = ?V"
    using greedy_order_distinct[OF xs(2)] greedy_order_subset[OF xs(2)] nx_distinct_nodes[OF assms, of g]
    by (metis List.finite_set card_subset_eq distinct_card)
  then have "lexicographic_topological_sort nx g =
       (if set xs = set (nx_nodes nx g) then Inr xs else Inl NetworkXUnfeasible)"
    unfolding lexicographic_topological_sort_def Let_def xs(1) by simp
  with xs(2,3) show ?thesis by blast
qed

lemma lex_sort_Inr:
  assumes "nx_laws nx"
  shows "lexicographic_topological_sort nx g = Inr xs \<longleftrightarrow>
     greedy_order (set (nx_nodes nx g)) (nx_edges nx g) xs \<and> set xs = set (nx_nodes nx g)"
proof -
  from lex_sort_cases[OF assms, of g] obtain ys where
    ys: "greedy_order (set (nx_nodes nx g)) (nx_edges nx g) ys"
      "ready (set (nx_nodes nx g)) (nx_edges nx g) (set ys) = {}"
      "lexicographic_topological_sort nx g =
         (if set ys = set (nx_nodes nx g) then Inr ys else Inl NetworkXUnfeasible)" by blast
  show ?thesis
  proof
    assume "lexicographic_topological_sort nx g = Inr xs"
    with ys show "greedy_order (set (nx_nodes nx g)) (nx_edges nx g) xs \<and> set xs = set (nx_nodes nx g)"
      by (auto split: if_splits)
  next
    assume xs: "greedy_order (set (nx_nodes nx g)) (nx_edges nx g) xs \<and> set xs = set (nx_nodes nx g)"
    then have "acyclic (nx_edges nx g)"
      using greedy_complete_acyclic nx_edges_nodes[OF assms] by blast
    then have "set ys = set (nx_nodes nx g)"
      using ready_empty_acyclic[OF _ nx_edges_nodes[OF assms] _ ys(2)] greedy_order_subset[OF ys(1)] by simp
    moreover from this have "ys = xs"
      using xs ys(1) by (metis distinct_card greedy_order_distinct greedy_order_unique)
    ultimately show "lexicographic_topological_sort nx g = Inr xs" using ys(3) by simp
  qed
qed

lemma lex_sort_acyclic_iff:
  assumes "nx_laws nx"
  shows "(\<exists>xs. lexicographic_topological_sort nx g = Inr xs) \<longleftrightarrow> acyclic (nx_edges nx g)"
proof
  assume "\<exists>xs. lexicographic_topological_sort nx g = Inr xs"
  then show "acyclic (nx_edges nx g)"
    using greedy_complete_acyclic nx_edges_nodes[OF assms] unfolding lex_sort_Inr[OF assms] by blast
next
  assume a: "acyclic (nx_edges nx g)"
  from lex_sort_cases[OF assms, of g] obtain ys where
    ys: "greedy_order (set (nx_nodes nx g)) (nx_edges nx g) ys"
      "ready (set (nx_nodes nx g)) (nx_edges nx g) (set ys) = {}"
      "lexicographic_topological_sort nx g =
         (if set ys = set (nx_nodes nx g) then Inr ys else Inl NetworkXUnfeasible)" by blast
  have "set ys = set (nx_nodes nx g)"
    using ready_empty_acyclic[OF _ nx_edges_nodes[OF assms] a ys(2)] greedy_order_subset[OF ys(1)] by simp
  with ys(3) show "\<exists>xs. lexicographic_topological_sort nx g = Inr xs" by auto
qed

lemma lex_sort_error:
  "nx_laws nx \<Longrightarrow> lexicographic_topological_sort nx g = Inl e \<Longrightarrow> e = NetworkXUnfeasible"
  using lex_sort_cases[of nx g] by (auto split: if_splits)

text \<open>The result depends on the node set and the edge set only.\<close>

lemma lex_sort_cong:
  assumes "nx_laws nx" "nx_laws nx'" "set (nx_nodes nx g) = set (nx_nodes nx' g')"
    and "nx_edges nx g = nx_edges nx' g'"
  shows "lexicographic_topological_sort nx g = lexicographic_topological_sort nx' g'"
proof (cases "lexicographic_topological_sort nx g")
  case (Inr xs)
  then have "lexicographic_topological_sort nx' g' = Inr xs"
    using assms by (simp add: lex_sort_Inr)
  with Inr show ?thesis by simp
next
  case (Inl e)
  then have "\<not> acyclic (nx_edges nx' g')"
    using lex_sort_acyclic_iff[OF assms(1), of g] assms(4) by simp
  then obtain e' where "lexicographic_topological_sort nx' g' = Inl e'"
    using lex_sort_acyclic_iff[OF assms(2), of g'] by (cases "lexicographic_topological_sort nx' g'") auto
  with Inl show ?thesis using lex_sort_error[OF assms(1)] lex_sort_error[OF assms(2)] by metis
qed

end
