(* ===== verification/Dag_Facts.thy ===== *)
theory Dag_Facts
  imports Dag_Sort
begin

text \<open>
  Construction, traversal and layering of the dependency graph: the breadth-first loop ends and
  computes the transitive closure, every group number is one more than the length of the longest
  path to the model, and the graph built from model definitions has exactly the declared edges.
\<close>

subsection \<open>Breadth-first closure\<close>

lemma bfs_Nil [simp]: "bfs next visited [] = Some visited"
  by (simp add: bfs.simps)

lemma bfs_Cons [simp]:
  "bfs next visited (c # rest) =
     (if c \<in> set visited then bfs next visited rest else bfs next (c # visited) (rest @ next c))"
  by (subst bfs.simps) simp

lemma closed_rtrancl: "(q, w) \<in> E\<^sup>* \<Longrightarrow> q \<in> S \<Longrightarrow> (\<And>u v. u \<in> S \<Longrightarrow> (u, v) \<in> E \<Longrightarrow> v \<in> S) \<Longrightarrow> w \<in> S"
  by (induction rule: rtrancl_induct) auto

lemma bfs_correct:
  assumes "finite V" "E \<subseteq> V \<times> V" "\<forall>u\<in>V. set (next u) = {v. (u, v) \<in> E}"
    and "set visited \<subseteq> V" "set queue \<subseteq> V" "distinct visited"
    and "\<forall>u\<in>set visited. \<forall>v. (u, v) \<in> E \<longrightarrow> v \<in> set visited \<union> set queue"
  shows "\<exists>r. bfs next visited queue = Some r \<and> distinct r \<and>
     set r = {w. \<exists>q\<in>set visited \<union> set queue. (q, w) \<in> E\<^sup>*}"
  using assms(4-7)
proof (induction "(card (V - set visited), length queue)" arbitrary: visited queue
       rule: wf_induct_rule[OF wf_lex_prod[OF wf_less_than wf_less_than]])
  case (1 visited queue)
  show ?case
  proof (cases queue)
    case Nil
    have "w \<in> set visited" if "q \<in> set visited" "(q, w) \<in> E\<^sup>*" for q w
      by (rule closed_rtrancl[OF that(2,1)]) (use "1.prems"(4) Nil in auto)
    then have "set visited = {w. \<exists>q\<in>set visited. (q, w) \<in> E\<^sup>*}" by blast
    with Nil "1.prems"(3) show ?thesis by simp
  next
    case (Cons c rest)
    show ?thesis
    proof (cases "c \<in> set visited")
      case True
      have "((card (V - set visited), length rest), (card (V - set visited), length queue)) \<in> less_than <*lex*> less_than"
        using Cons by simp
      from "1.hyps"[OF this] "1.prems" Cons True obtain r where
        r: "bfs next visited rest = Some r" "distinct r"
          "set r = {w. \<exists>q\<in>set visited \<union> set rest. (q, w) \<in> E\<^sup>*}" by auto
      moreover have "set visited \<union> set queue = set visited \<union> set rest" using Cons True by auto
      ultimately show ?thesis using Cons True by simp
    next
      case False
      have c: "c \<in> V" using "1.prems"(2) Cons by simp
      then have nc: "set (next c) = {v. (c, v) \<in> E}" using assms(3) by simp
      have "card (V - set (c # visited)) < card (V - set visited)"
        using c False assms(1) by (intro psubset_card_mono) auto
      then have "((card (V - set (c # visited)), length (rest @ next c)),
          (card (V - set visited), length queue)) \<in> less_than <*lex*> less_than" by simp
      moreover have "set (next c) \<subseteq> V" using nc assms(2) by auto
      moreover have "\<forall>u\<in>set (c # visited). \<forall>v. (u, v) \<in> E \<longrightarrow> v \<in> set (c # visited) \<union> set (rest @ next c)"
        using "1.prems"(4) Cons nc by auto
      ultimately obtain r where
        r: "bfs next (c # visited) (rest @ next c) = Some r" "distinct r"
          "set r = {w. \<exists>q\<in>set (c # visited) \<union> set (rest @ next c). (q, w) \<in> E\<^sup>*}"
        using "1.hyps"[of "c # visited" "rest @ next c"] "1.prems" Cons c False by auto
      have "set r = {w. \<exists>q\<in>set visited \<union> set queue. (q, w) \<in> E\<^sup>*}"
        unfolding r(3) using Cons nc by (auto intro: converse_rtrancl_into_rtrancl)
      with r(1,2) Cons False show ?thesis by simp
    qed
  qed
qed

lemma trancl_first_step: "{w. \<exists>q. (m, q) \<in> E \<and> (q, w) \<in> E\<^sup>*} = {w. (m, w) \<in> E\<^sup>+}"
  by (auto intro: rtrancl_into_trancl2 dest: tranclD)

lemma bfs_from:
  assumes "finite V" "E \<subseteq> V \<times> V" "\<forall>u\<in>V. set (next u) = {v. (u, v) \<in> E}" "m \<in> V"
  shows "\<exists>r. bfs next [] (next m) = Some r \<and> distinct r \<and> set r = {w. (m, w) \<in> E\<^sup>+}"
proof -
  have "set (next m) \<subseteq> V" using assms by auto
  with bfs_correct[OF assms(1-3), of "[]" "next m"] obtain r where
    "bfs next [] (next m) = Some r" "distinct r" "set r = {w. \<exists>q\<in>set (next m). (q, w) \<in> E\<^sup>*}" by auto
  moreover have "{w. \<exists>q\<in>set (next m). (q, w) \<in> E\<^sup>*} = {w. (m, w) \<in> E\<^sup>+}"
    unfolding trancl_first_step[symmetric] using assms(3,4) by auto
  ultimately show ?thesis by auto
qed

lemma get_downstream_closure:
  assumes "nx_laws nx"
  shows "\<exists>r. get_downstream nx g m = Some r \<and> distinct r \<and> set r = {v. (m, v) \<in> (nx_edges nx g)\<^sup>+}"
proof (cases "m \<in> set (nx_nodes nx g)")
  case True
  have "\<forall>u\<in>set (nx_nodes nx g). set (nx_successors nx g u) = {v. (u, v) \<in> nx_edges nx g}"
    by (intro ballI nx_set_successors)
  from bfs_from[OF finite_set nx_edges_nodes[OF assms] this True] True show ?thesis
    by (simp add: get_downstream_def)
next
  case False
  then have "{v. (m, v) \<in> (nx_edges nx g)\<^sup>+} = {}"
    using trancl_closedD[OF _ nx_edges_nodes[OF assms]] by blast
  with False show ?thesis by (simp add: get_downstream_def)
qed

lemma get_upstream_closure:
  assumes "nx_laws nx"
  shows "\<exists>r. get_upstream nx g m = Some r \<and> distinct r \<and> set r = {u. (u, m) \<in> (nx_edges nx g)\<^sup>+}"
proof (cases "m \<in> set (nx_nodes nx g)")
  case True
  have "\<forall>u\<in>set (nx_nodes nx g). set (nx_predecessors nx g u) = {v. (u, v) \<in> (nx_edges nx g)\<inverse>}"
    using nx_set_predecessors[OF assms] by simp
  moreover have "(nx_edges nx g)\<inverse> \<subseteq> set (nx_nodes nx g) \<times> set (nx_nodes nx g)"
    using nx_edges_nodes[OF assms] by blast
  ultimately have "\<exists>r. bfs (nx_predecessors nx g) [] (nx_predecessors nx g m) = Some r \<and> distinct r \<and>
      set r = {w. (m, w) \<in> ((nx_edges nx g)\<inverse>)\<^sup>+}" using bfs_from[OF finite_set _ _ True] by blast
  with True show ?thesis by (simp add: get_upstream_def trancl_converse)
next
  case False
  then have "{u. (u, m) \<in> (nx_edges nx g)\<^sup>+} = {}"
    using trancl_closedD[OF _ nx_edges_nodes[OF assms]] by blast
  with False show ?thesis by (simp add: get_upstream_def)
qed

subsection \<open>Longest paths\<close>

text \<open>\<open>path_level E v n\<close>: the longest path ending in \<open>v\<close> has \<open>n\<close> edges.\<close>

definition path_level :: "(string \<times> string) set \<Rightarrow> string \<Rightarrow> nat \<Rightarrow> bool" where
  "path_level E v n \<longleftrightarrow> (\<exists>u. (u, v) \<in> E ^^ n) \<and> (\<forall>k u. (u, v) \<in> E ^^ k \<longrightarrow> k \<le> n)"

lemma path_level_unique: "path_level E v m \<Longrightarrow> path_level E v n \<Longrightarrow> m = n"
  unfolding path_level_def by (meson le_antisym)

lemma path_level_source: "{u. (u, v) \<in> E} = {} \<Longrightarrow> path_level E v 0"
  unfolding path_level_def by (auto elim: relpow_E)

lemma path_level_step:
  assumes P: "P = {u. (u, v) \<in> E}" "finite P" "P \<noteq> {}" and f: "\<forall>u\<in>P. path_level E u (f u)"
  shows "path_level E v (Max (f ` P) + 1)"
proof -
  have "Max (f ` P) \<in> f ` P" using P(2,3) by (intro Max_in) auto
  then obtain u where u: "u \<in> P" "f u = Max (f ` P)" by auto
  from f u(1) obtain w where "(w, u) \<in> E ^^ f u" unfolding path_level_def by blast
  then have "(w, v) \<in> E ^^ (Max (f ` P) + 1)" using u P(1) by auto
  moreover have "k \<le> Max (f ` P) + 1" if "(w, v) \<in> E ^^ k" for k w
  proof (cases k)
    case (Suc j)
    with that obtain x where x: "(w, x) \<in> E ^^ j" "(x, v) \<in> E" by auto
    then have "j \<le> f x" using f P(1) unfolding path_level_def by blast
    also have "\<dots> \<le> Max (f ` P)" using x(2) P(1,2) by simp
    finally show ?thesis using Suc by simp
  qed simp
  ultimately show ?thesis unfolding path_level_def by blast
qed

lemma path_level_edge: "(u, v) \<in> E \<Longrightarrow> path_level E u m \<Longrightarrow> path_level E v n \<Longrightarrow> m < n"
  unfolding path_level_def by (metis Suc_le_lessD relpow_Suc_I)

lemma greedy_order_split_preds:
  assumes "greedy_order V E (xs @ v # ys)"
  shows "{u. (u, v) \<in> E} \<subseteq> set xs"
proof -
  have "greedy_order V E (xs @ [v])"
    using greedy_order_take[OF assms, of "Suc (length xs)"] by simp
  then show ?thesis by (auto simp: greedy_order_snoc ready_def)
qed

lemma depth_loop_levels:
  assumes "greedy_order V E (xs @ ys)" "fst ` set depth = set xs"
    and "\<forall>v\<in>set xs. \<exists>n. map_of depth v = Some n \<and> path_level E v n"
    and "\<forall>v\<in>set ys. set (preds v) = {u. (u, v) \<in> E}"
  shows "\<exists>depth'. depth_loop preds depth ys = Inr depth' \<and> fst ` set depth' = set (xs @ ys) \<and>
     (\<forall>v\<in>set (xs @ ys). \<exists>n. map_of depth' v = Some n \<and> path_level E v n)"
  using assms
proof (induction ys arbitrary: xs depth)
  case Nil
  then show ?case by simp
next
  case (Cons v ys)
  have P: "set (preds v) = {u. (u, v) \<in> E}" using Cons.prems(4) by simp
  have sub: "set (preds v) \<subseteq> set xs" using greedy_order_split_preds[OF Cons.prems(1)] P by simp
  have none: "filter (\<lambda>p. map_of depth p = None) (preds v) = []"
    using sub Cons.prems(3) by (fastforce simp: filter_empty_conv)
  define n where "n = (if preds v = [] then 0 else Max (set (map (\<lambda>p. the (map_of depth p)) (preds v))) + 1)"
  have lev: "\<forall>u\<in>set (preds v). path_level E u (the (map_of depth u))"
    using sub Cons.prems(3) by fastforce
  have "path_level E v n"
  proof (cases "preds v = []")
    case True
    with P show ?thesis by (simp add: n_def path_level_source)
  next
    case False
    with path_level_step[OF P finite_set _ lev] show ?thesis by (simp add: n_def)
  qed
  then have "\<forall>w\<in>set (xs @ [v]). \<exists>m. map_of (dict_set depth v n) w = Some m \<and> path_level E w m"
    using Cons.prems(3) by auto
  moreover have "depth_loop preds depth (v # ys) = depth_loop preds (dict_set depth v n) ys"
    using none by (simp add: n_def)
  moreover have "greedy_order V E ((xs @ [v]) @ ys)" using Cons.prems(1) by simp
  moreover have "fst ` set (dict_set depth v n) = set (xs @ [v])" using Cons.prems(2) by auto
  ultimately show ?case
    using Cons.IH[of "xs @ [v]" "dict_set depth v n"] Cons.prems(4) by auto
qed

lemma depth_loop_ok: "dict_ok depth \<Longrightarrow> depth_loop preds depth order = Inr d \<Longrightarrow> dict_ok d"
proof (induction preds depth order rule: depth_loop.induct)
  case (2 preds depth node order)
  then show ?case by (auto split: list.splits)
qed simp

definition induced_edges :: "'g nx \<Rightarrow> 'g \<Rightarrow> string list \<Rightarrow> (string \<times> string) set" where
  "induced_edges nx g ms = nx_edges nx g \<inter> (set ms \<times> set ms)"

lemma map_of_map_value: "map_of (map (\<lambda>(k, v). (k, f v)) d) k = map_option f (map_of d k)"
  by (induction d) auto

lemma assign_parallel_groups_levels:
  assumes "nx_laws nx" "acyclic (induced_edges nx g ms)" "set ms \<subseteq> set (nx_nodes nx g)"
  shows "\<exists>groups. assign_parallel_groups nx g ms = Inr groups \<and> dict_ok groups \<and>
     fst ` set groups = set ms \<and>
     (\<forall>m\<in>set ms. \<exists>n. map_of groups m = Some (n + 1) \<and> path_level (induced_edges nx g ms) m n)"
proof (cases "ms = []")
  case True
  then show ?thesis by (simp add: assign_parallel_groups_def dict_ok_def)
next
  case False
  let ?sg = "nx_subgraph nx g ms"
  have nodes: "set (nx_nodes nx ?sg) = set ms"
    using assms(3) nx_subgraph_facts(1)[OF assms(1)] by auto
  have edges: "nx_edges nx ?sg = induced_edges nx g ms"
    by (simp add: nx_subgraph_facts(2)[OF assms(1)] induced_edges_def)
  obtain order where order: "lexicographic_topological_sort nx ?sg = Inr order"
    using lex_sort_acyclic_iff[OF assms(1), of ?sg] assms(2) edges by auto
  then have g: "greedy_order (set ms) (induced_edges nx g ms) ([] @ order)" and so: "set order = set ms"
    using nodes edges unfolding lex_sort_Inr[OF assms(1)] by simp_all
  have "\<forall>v\<in>set order. set (nx_predecessors nx ?sg v) = {u. (u, v) \<in> induced_edges nx g ms}"
    using nx_set_predecessors[OF assms(1), of _ ?sg] nodes so edges by simp
  from depth_loop_levels[OF g _ _ this, of "[]"] obtain d where
    d: "depth_loop (nx_predecessors nx ?sg) [] order = Inr d" "fst ` set d = set order"
      "\<forall>v\<in>set order. \<exists>n. map_of d v = Some n \<and> path_level (induced_edges nx g ms) v n" by auto
  have "dict_ok d" using depth_loop_ok[OF _ d(1)] by (simp add: dict_ok_def)
  then have "dict_ok (map (\<lambda>(node, d). (node, d + 1)) d)"
    by (simp add: dict_ok_def o_def case_prod_beta)
  moreover have "fst ` set (map (\<lambda>(node, d). (node, d + 1)) d) = set ms"
    using d(2) so by (simp add: image_image case_prod_beta)
  moreover have "assign_parallel_groups nx g ms = Inr (map (\<lambda>(node, d). (node, d + 1)) d)"
    using False order d(1) by (simp add: assign_parallel_groups_def)
  moreover have "\<forall>m\<in>set ms. \<exists>n. map_of (map (\<lambda>(node, d). (node, d + 1)) d) m = Some (n + 1) \<and>
      path_level (induced_edges nx g ms) m n"
    using d(3) so by (fastforce simp: map_of_map_value)
  ultimately show ?thesis by blast
qed

subsection \<open>The graph built from model definitions\<close>

lemma set_upstream_names [simp]: "set (upstream_names m) = set (md_referenced_tables m) \<union> set (md_dependencies m)"
  by (simp add: upstream_names_def)

lemma add_nodes_facts:
  assumes "nx_laws nx"
  shows "set (nx_nodes nx (add_nodes nx g ms)) = set (nx_nodes nx g) \<union> md_name ` set ms \<and>
     nx_edges nx (add_nodes nx g ms) = nx_edges nx g"
  by (induction ms arbitrary: g) (auto simp: nx_construct_facts[OF assms])

lemma add_upstream_edges_facts:
  assumes "nx_laws nx" "n \<in> set names" "set names \<subseteq> set (nx_nodes nx g)"
  shows "set (nx_nodes nx (add_upstream_edges nx names n g us)) = set (nx_nodes nx g) \<and>
     nx_edges nx (add_upstream_edges nx names n g us) =
       nx_edges nx g \<union> {(u, n) | u. u \<in> set us \<and> u \<in> set names \<and> u \<noteq> n}"
  using assms(2,3)
proof (induction us arbitrary: g)
  case (Cons u us)
  show ?case
  proof (cases "u \<in> set names \<and> u \<noteq> n")
    case True
    then have "set (nx_nodes nx (nx_add_edge nx g u n)) = set (nx_nodes nx g)"
      using Cons.prems nx_construct_facts(5)[OF assms(1), of g u n] by auto
    with Cons.IH[of "nx_add_edge nx g u n"] Cons.prems True show ?thesis
      by (auto simp: nx_construct_facts(6)[OF assms(1)])
  next
    case False
    with Cons.IH[of g] Cons.prems show ?thesis by auto
  qed
qed simp

lemma add_edges_facts:
  assumes "nx_laws nx" "md_name ` set ms \<subseteq> set names" "set names \<subseteq> set (nx_nodes nx g)"
  shows "set (nx_nodes nx (add_edges nx names g ms)) = set (nx_nodes nx g) \<and>
     nx_edges nx (add_edges nx names g ms) = nx_edges nx g \<union>
       {(u, md_name m) | u m. m \<in> set ms \<and> u \<in> set (upstream_names m) \<and> u \<in> set names \<and> u \<noteq> md_name m}"
  using assms(2,3)
proof (induction ms arbitrary: g)
  case (Cons m ms)
  let ?g = "add_upstream_edges nx names (md_name m) g (upstream_names m)"
  from Cons.prems have "md_name m \<in> set names" by simp
  from add_upstream_edges_facts[OF assms(1) this Cons.prems(2), of "upstream_names m"]
  have g: "set (nx_nodes nx ?g) = set (nx_nodes nx g)"
    "nx_edges nx ?g = nx_edges nx g \<union> {(u, md_name m) | u. u \<in> set (upstream_names m) \<and> u \<in> set names \<and> u \<noteq> md_name m}"
    by blast+
  from Cons.IH[of ?g] Cons.prems g(1) have
    "set (nx_nodes nx (add_edges nx names ?g ms)) = set (nx_nodes nx g)"
    "nx_edges nx (add_edges nx names ?g ms) = nx_edges nx ?g \<union>
       {(u, md_name m) | u m. m \<in> set ms \<and> u \<in> set (upstream_names m) \<and> u \<in> set names \<and> u \<noteq> md_name m}"
    by auto
  then show ?case unfolding g(2) by auto
qed simp

lemma build_dag_facts:
  assumes "nx_laws nx"
  shows "set (nx_nodes nx (build_dag nx ms)) = md_name ` set ms"
    and "nx_edges nx (build_dag nx ms) =
       {(u, md_name m) | u m. m \<in> set ms \<and> u \<in> set (md_referenced_tables m) \<union> set (md_dependencies m) \<and>
          u \<in> md_name ` set ms \<and> u \<noteq> md_name m}"
  using add_nodes_facts[OF assms, of "nx_empty nx" ms]
    add_edges_facts[OF assms, of ms "map md_name ms" "add_nodes nx (nx_empty nx) ms"]
  by (auto simp: build_dag_def nx_construct_facts[OF assms] nx_empty_edges[OF assms])

subsection \<open>Properties of the graph module\<close>

definition demo_graph :: list_graph where
  "demo_graph = ([(''c'', None), (''b'', None), (''a'', None)], [(''a'', ''c''), (''b'', ''c'')])"

lemma demo_graph_facts:
  "set (lg_nodes demo_graph) = {''a'', ''b'', ''c''}"
  "nx_edges list_nx demo_graph = {(''a'', ''c''), (''b'', ''c'')}"
  by (auto simp: demo_graph_def lg_nodes_def list_nx_edges)

lemma demo_graph_acyclic: "acyclic (nx_edges list_nx demo_graph)"
proof -
  have "acyclic {(''a'', ''c''), (''b'', ''c'')}"
    by (rule wf_acyclic, rule wf_subset[of "measure (\<lambda>s. if s = ''c'' then 1 else 0)"]) auto
  then show ?thesis by (simp add: demo_graph_facts)
qed

text \<open>C1: on every graph the sort returns an order of all models in which each dependency stands
  before its dependents and each position holds the alphabetically least model that can stand there,
  or it raises the cyclic dependency error with a nonempty list of cycles; the error is raised
  exactly on cyclic graphs and no other exception escapes.\<close>

theorem topological_sort_correct:
  assumes "nx_laws nx"
  shows "case topological_sort nx g of
      Inr xs \<Rightarrow> acyclic (nx_edges nx g) \<and> distinct xs \<and> set xs = set (nx_nodes nx g) \<and>
        (\<forall>(u, v)\<in>nx_edges nx g. before xs u v) \<and> greedy_order (set (nx_nodes nx g)) (nx_edges nx g) xs
    | Inl e \<Rightarrow> \<not> acyclic (nx_edges nx g) \<and> (\<exists>cycles. e = CyclicDependencyError cycles \<and> cycles \<noteq> [])"
proof (cases "lexicographic_topological_sort nx g")
  case (Inl e)
  then have "e = NetworkXUnfeasible" "\<not> acyclic (nx_edges nx g)"
    using lex_sort_error[OF assms] lex_sort_acyclic_iff[OF assms, of g] by auto
  with Inl show ?thesis using nx_simple_cycles_iff[OF assms, of g] by (simp add: topological_sort_def)
next
  case (Inr xs)
  then have xs: "greedy_order (set (nx_nodes nx g)) (nx_edges nx g) xs" "set xs = set (nx_nodes nx g)"
    using lex_sort_Inr[OF assms] by auto
  have "before xs u v" if "(u, v) \<in> nx_edges nx g" for u v
    using greedy_order_before[OF xs(1) _ that] nx_edge_nodesD[OF assms that] xs(2) by simp
  with Inr xs show ?thesis
    using lex_sort_acyclic_iff[OF assms, of g] greedy_order_distinct[OF xs(1)]
    by (auto simp: topological_sort_def)
qed

theorem topological_sort_correct_witness:
  "\<exists>xs. topological_sort list_nx demo_graph = Inr xs \<and> before xs ''b'' ''c''"
  using topological_sort_correct[OF list_nx_laws, of demo_graph] demo_graph_acyclic
  by (auto simp: demo_graph_facts split: sum.splits)

text \<open>the order does not depend on the iteration order of the graph library: two graph values with
  the same nodes and edges are sorted into the same list, whatever libraries hold them.\<close>

theorem topological_sort_deterministic:
  assumes "nx_laws nx" "nx_laws nx'" "set (nx_nodes nx g) = set (nx_nodes nx' g')"
    and "nx_edges nx g = nx_edges nx' g'" "topological_sort nx g = Inr xs"
  shows "topological_sort nx' g' = Inr xs"
  using lex_sort_cong[OF assms(1-4)] assms(5) lex_sort_error[OF assms(1), of g]
  by (auto simp: topological_sort_def split: sum.splits dag_error.splits)

theorem topological_sort_deterministic_witness:
  "\<exists>xs. topological_sort list_nx demo_graph = Inr xs \<and>
     topological_sort list_nx ([(''a'', None)], [(''b'', ''c''), (''a'', ''c'')]) = Inr xs"
proof -
  have "\<not> (\<exists>e. topological_sort list_nx demo_graph = Inl e)"
    using topological_sort_correct[OF list_nx_laws, of demo_graph] demo_graph_acyclic by auto
  then obtain xs where xs: "topological_sort list_nx demo_graph = Inr xs"
    by (cases "topological_sort list_nx demo_graph") auto
  have "set (nx_nodes list_nx demo_graph) =
      set (nx_nodes list_nx ([(''a'', None)], [(''b'', ''c''), (''a'', ''c'')]))"
    "nx_edges list_nx demo_graph = nx_edges list_nx ([(''a'', None)], [(''b'', ''c''), (''a'', ''c'')])"
    by (auto simp: demo_graph_def lg_nodes_def list_nx_edges)
  from topological_sort_deterministic[OF list_nx_laws list_nx_laws this xs] xs show ?thesis by blast
qed

text \<open>both traversals return (the deque loop ends) on every graph, cyclic ones included, and return
  exactly the models reachable over one or more edges, without repetition.\<close>

theorem traversal_closure:
  assumes "nx_laws nx"
  shows "(\<exists>r. get_downstream nx g m = Some r \<and> distinct r \<and> set r = {v. (m, v) \<in> (nx_edges nx g)\<^sup>+}) \<and>
     (\<exists>r. get_upstream nx g m = Some r \<and> distinct r \<and> set r = {u. (u, m) \<in> (nx_edges nx g)\<^sup>+})"
  using get_downstream_closure[OF assms] get_upstream_closure[OF assms] by blast

theorem traversal_closure_witness:
  "\<exists>r. get_downstream list_nx ([], [(''a'', ''b''), (''b'', ''a'')]) ''a'' = Some r \<and> ''a'' \<in> set r"
proof -
  have "(''a'', ''a'') \<in> (nx_edges list_nx ([], [(''a'', ''b''), (''b'', ''a'')]))\<^sup>+"
    by (simp add: list_nx_edges) (meson insertI1 insertI2 trancl.simps)
  then show ?thesis
    using traversal_closure[OF list_nx_laws, of "([], [(''a'', ''b''), (''b'', ''a'')])" "''a''"] by blast
qed

text \<open>the group of a model is one more than the length of the longest dependency path that ends in
  it within the models to run, exactly these models get a group, and so a model's group is larger
  than the group of everything it depends on.\<close>

theorem assign_parallel_groups_correct:
  assumes "nx_laws nx" "acyclic (induced_edges nx g ms)" "set ms \<subseteq> set (nx_nodes nx g)"
  shows "\<exists>groups. assign_parallel_groups nx g ms = Inr groups \<and> dom (map_of groups) = set ms \<and>
     (\<forall>m\<in>set ms. \<exists>n. map_of groups m = Some (n + 1) \<and> path_level (induced_edges nx g ms) m n) \<and>
     (\<forall>(u, v)\<in>induced_edges nx g ms. the (map_of groups u) < the (map_of groups v))"
proof -
  from assign_parallel_groups_levels[OF assms] obtain groups where
    groups: "assign_parallel_groups nx g ms = Inr groups" "fst ` set groups = set ms"
      "\<forall>m\<in>set ms. \<exists>n. map_of groups m = Some (n + 1) \<and> path_level (induced_edges nx g ms) m n" by blast
  have "the (map_of groups u) < the (map_of groups v)" if "(u, v) \<in> induced_edges nx g ms" for u v
  proof -
    from that have "u \<in> set ms" "v \<in> set ms" by (auto simp: induced_edges_def)
    with groups(3) obtain m n where "map_of groups u = Some (m + 1)" "map_of groups v = Some (n + 1)"
      "path_level (induced_edges nx g ms) u m" "path_level (induced_edges nx g ms) v n" by blast
    with path_level_edge[OF that] show ?thesis by simp
  qed
  with groups show ?thesis by (auto simp: dom_map_of_conv_image_fst)
qed

theorem assign_parallel_groups_correct_witness:
  "\<exists>groups. assign_parallel_groups list_nx demo_graph [''c'', ''a''] = Inr groups \<and>
     the (map_of groups ''a'') < the (map_of groups ''c'')"
proof -
  have e: "induced_edges list_nx demo_graph [''c'', ''a''] = {(''a'', ''c'')}"
    unfolding induced_edges_def demo_graph_facts by auto
  have "acyclic (induced_edges list_nx demo_graph [''c'', ''a''])"
    using demo_graph_acyclic by (rule acyclic_subset) (auto simp: induced_edges_def)
  moreover have "set [''c'', ''a''] \<subseteq> set (nx_nodes list_nx demo_graph)" by (simp add: demo_graph_facts)
  ultimately show ?thesis
    using assign_parallel_groups_correct[OF list_nx_laws, of demo_graph "[''c'', ''a'']"] e by auto
qed

text \<open>the graph built from model definitions has the models as its nodes and an edge from \<open>u\<close> to a model
  exactly when the model references or declares \<open>u\<close>, \<open>u\<close> is a model of the list and not the model
  itself; external tables and self references add nothing.\<close>

theorem build_dag_exact:
  assumes "nx_laws nx"
  shows "set (nx_nodes nx (build_dag nx ms)) = md_name ` set ms \<and>
     nx_edges nx (build_dag nx ms) =
       {(u, md_name m) | u m. m \<in> set ms \<and> u \<in> set (md_referenced_tables m) \<union> set (md_dependencies m) \<and>
          u \<in> md_name ` set ms \<and> u \<noteq> md_name m}"
  using build_dag_facts[OF assms] by blast

theorem build_dag_exact_witness:
  "nx_edges list_nx (build_dag list_nx [demo_model ''a'' [''a'', ''ext''], demo_model ''b'' [''a'']]) =
     {(''a'', ''b'')}"
  unfolding build_dag_exact[OF list_nx_laws, THEN conjunct2]
  by (auto intro!: exI[of _ "demo_model ''b'' [''a'']"])

end
