(* ===== verification/Contracts.thy ===== *)
theory Contracts
  imports Models "HOL-Library.Product_Lexorder"
begin

text \<open>
  Schema contracts, \<^verbatim>\<open>core_engine/core_engine/contracts/schema_validator.py\<close>: the comparison of a model's
  declared columns with the columns it produces. \<open>contract_violations\<close> is the loop over the contracted
  columns with its three checks, \<open>added_violations\<close> the loop over the produced ones.
\<close>

datatype violation_severity = BREAKING | WARNING | INFO

fun severity_value :: "violation_severity \<Rightarrow> string" where
  "severity_value BREAKING = ''BREAKING''"
| "severity_value WARNING = ''WARNING''"
| "severity_value INFO = ''INFO''"

record contract_violation =
  cv_model_name :: string
  cv_column_name :: string
  cv_violation_type :: string
  cv_severity :: violation_severity
  cv_expected :: string
  cv_actual :: string
  cv_message :: string

record contract_validation_result =
  cr_violations :: "contract_violation list"
  cr_models_checked :: nat

definition count_severity :: "violation_severity \<Rightarrow> contract_validation_result \<Rightarrow> nat" where
  "count_severity s r = length (filter (\<lambda>v. cv_severity v = s) (cr_violations r))"

definition has_breaking_violations :: "contract_validation_result \<Rightarrow> bool" where
  "has_breaking_violations r \<longleftrightarrow> list_ex (\<lambda>v. cv_severity v = BREAKING) (cr_violations r)"

definition violations_for_model :: "contract_validation_result \<Rightarrow> string \<Rightarrow> contract_violation list" where
  "violations_for_model r model_name = filter (\<lambda>v. cv_model_name v = model_name) (cr_violations r)"

definition type_aliases :: "(string \<times> string) list" where
  "type_aliases =
    [(''INTEGER'', ''INT''), (''BIGINTEGER'', ''BIGINT''), (''LONG'', ''BIGINT''), (''SHORT'', ''SMALLINT''),
     (''TINYINT'', ''SMALLINT''), (''REAL'', ''FLOAT''), (''DOUBLE PRECISION'', ''DOUBLE''),
     (''VARCHAR'', ''STRING''), (''TEXT'', ''STRING''), (''CHAR'', ''STRING''), (''NVARCHAR'', ''STRING''),
     (''DATETIME'', ''TIMESTAMP''), (''BOOL'', ''BOOLEAN''), (''NUMERIC'', ''DECIMAL''), (''NUMBER'', ''DECIMAL'')]"

definition normalize_type :: "string \<Rightarrow> string" where
  "normalize_type data_type =
     (let normalized = py_upper (py_strip data_type)
      in case map_of type_aliases normalized of Some t \<Rightarrow> t | None \<Rightarrow> normalized)"

text \<open>The scan of a dictionary for the first key that agrees with the column up to case.\<close>

fun lookup_ci :: "(string \<times> 'a) list \<Rightarrow> string \<Rightarrow> 'a option" where
  "lookup_ci [] col_lower = None"
| "lookup_ci ((k, x) # d) col_lower = (if py_lower k = col_lower then Some x else lookup_ci d col_lower)"

definition removed_violation :: "model_definition \<Rightarrow> column_contract \<Rightarrow> contract_violation" where
  "removed_violation m c =
     \<lparr>cv_model_name = md_name m, cv_column_name = cc_name c, cv_violation_type = ''COLUMN_REMOVED'',
      cv_severity = BREAKING, cv_expected = cc_name c @ '': '' @ cc_data_type c, cv_actual = ''(missing)'',
      cv_message = ''Contracted column '' @ quoted (cc_name c) @ '' (type: '' @ cc_data_type c @
        '') is missing from model output.''\<rparr>"

definition type_violation :: "model_definition \<Rightarrow> column_contract \<Rightarrow> string \<Rightarrow> contract_violation" where
  "type_violation m c actual =
     \<lparr>cv_model_name = md_name m, cv_column_name = cc_name c, cv_violation_type = ''TYPE_CHANGED'',
      cv_severity = BREAKING, cv_expected = cc_data_type c, cv_actual = actual,
      cv_message = ''Column '' @ quoted (cc_name c) @ '' type changed: contract declares '' @ cc_data_type c @
        '', actual is '' @ actual @ ''.''\<rparr>"

definition nullable_violation :: "model_definition \<Rightarrow> column_contract \<Rightarrow> contract_violation" where
  "nullable_violation m c =
     \<lparr>cv_model_name = md_name m, cv_column_name = cc_name c, cv_violation_type = ''NULLABLE_TIGHTENED'',
      cv_severity = BREAKING, cv_expected = ''NOT NULL'', cv_actual = ''NULLABLE'',
      cv_message = ''Column '' @ quoted (cc_name c) @ '' is declared NOT NULL in contract but is nullable in actual output.''\<rparr>"

definition added_violation :: "model_definition \<Rightarrow> string \<Rightarrow> contract_violation" where
  "added_violation m col =
     \<lparr>cv_model_name = md_name m, cv_column_name = col, cv_violation_type = ''COLUMN_ADDED'',
      cv_severity = INFO, cv_expected = ''(not in contract)'', cv_actual = col,
      cv_message = ''Column '' @ quoted col @ '' exists in output but is not declared in the schema contract.''\<rparr>"

lemma violation_sel [simp]:
  "cv_severity (removed_violation m c) = BREAKING" "cv_model_name (removed_violation m c) = md_name m"
  "cv_severity (type_violation m c t) = BREAKING" "cv_model_name (type_violation m c t) = md_name m"
  "cv_severity (nullable_violation m c) = BREAKING" "cv_model_name (nullable_violation m c) = md_name m"
  "cv_severity (added_violation m col) = INFO" "cv_model_name (added_violation m col) = md_name m"
  by (simp_all add: removed_violation_def type_violation_def nullable_violation_def added_violation_def)

definition column_violations ::
  "model_definition \<Rightarrow> string list \<Rightarrow> (string \<times> string) list option \<Rightarrow> (string \<times> bool) list option \<Rightarrow>
   column_contract \<Rightarrow> contract_violation list" where
  "column_violations m columns types nulls c =
     (if py_lower (cc_name c) \<notin> set (map py_lower columns) then [removed_violation m c]
      else
        (case types of
           None \<Rightarrow> []
         | Some ts \<Rightarrow>
             (case lookup_ci ts (py_lower (cc_name c)) of
                None \<Rightarrow> []
              | Some actual \<Rightarrow>
                  if normalize_type (cc_data_type c) \<noteq> normalize_type actual
                  then [type_violation m c actual] else [])) @
        (case nulls of
           None \<Rightarrow> []
         | Some ns \<Rightarrow>
             (case lookup_ci ns (py_lower (cc_name c)) of
                None \<Rightarrow> []
              | Some actual_nullable \<Rightarrow>
                  if \<not> cc_nullable c \<and> actual_nullable then [nullable_violation m c] else [])))"

definition added_violations :: "model_definition \<Rightarrow> string list \<Rightarrow> contract_violation list" where
  "added_violations m columns =
     map (added_violation m)
       (filter (\<lambda>col. py_lower col \<notin> set (map (\<lambda>c. py_lower (cc_name c)) (md_contract_columns m))) (sort columns))"

definition violation_key :: "contract_violation \<Rightarrow> string \<times> string \<times> string" where
  "violation_key v = (cv_model_name v, cv_column_name v, cv_violation_type v)"

definition validate_schema_contract ::
  "model_definition \<Rightarrow> string list option \<Rightarrow> (string \<times> string) list option \<Rightarrow>
   (string \<times> bool) list option \<Rightarrow> contract_validation_result" where
  "validate_schema_contract m actual_columns types nulls =
     (if md_contract_mode m = DISABLED then \<lparr>cr_violations = [], cr_models_checked = 0\<rparr>
      else if md_contract_columns m = [] then \<lparr>cr_violations = [], cr_models_checked = 1\<rparr>
      else let columns = (case actual_columns of Some cs \<Rightarrow> cs | None \<Rightarrow> md_output_columns m)
           in \<lparr>cr_violations = sort_key violation_key
                 (concat (map (column_violations m columns types nulls) (md_contract_columns m)) @
                  added_violations m columns),
               cr_models_checked = 1\<rparr>)"

definition map_get :: "(string \<times> 'a) list option \<Rightarrow> string \<Rightarrow> 'a option" where
  "map_get d k = (case d of None \<Rightarrow> None | Some xs \<Rightarrow> map_of xs k)"

fun batch_loop ::
  "(string \<times> string list) list option \<Rightarrow> (string \<times> (string \<times> string) list) list option \<Rightarrow>
   (string \<times> (string \<times> bool) list) list option \<Rightarrow> model_definition list \<Rightarrow>
   contract_violation list \<Rightarrow> nat \<Rightarrow> contract_violation list \<times> nat" where
  "batch_loop cols types nulls [] all checked = (all, checked)"
| "batch_loop cols types nulls (m # ms) all checked =
     (if md_contract_mode m = DISABLED then batch_loop cols types nulls ms all checked
      else let result = validate_schema_contract m (map_get cols (md_name m)) (map_get types (md_name m))
                          (map_get nulls (md_name m))
           in batch_loop cols types nulls ms (all @ cr_violations result) (checked + cr_models_checked result))"

definition validate_schema_contracts_batch ::
  "model_definition list \<Rightarrow> (string \<times> string list) list option \<Rightarrow>
   (string \<times> (string \<times> string) list) list option \<Rightarrow> (string \<times> (string \<times> bool) list) list option \<Rightarrow>
   contract_validation_result" where
  "validate_schema_contracts_batch models cols types nulls =
     (let (all, checked) = batch_loop cols types nulls (sort_key md_name models) [] 0
      in \<lparr>cr_violations = sort_key violation_key all, cr_models_checked = checked\<rparr>)"

subsection \<open>What a validation reports\<close>

text \<open>The contract of one column, read off the documentation: it is broken when the column is missing, has
  another type up to aliases, or is declared \<^verbatim>\<open>NOT NULL\<close> and comes out nullable.\<close>

definition column_broken ::
  "string list \<Rightarrow> (string \<times> string) list option \<Rightarrow> (string \<times> bool) list option \<Rightarrow> column_contract \<Rightarrow> bool" where
  "column_broken columns types nulls c \<longleftrightarrow>
     py_lower (cc_name c) \<notin> py_lower ` set columns \<or>
     (\<exists>t. Option.bind types (\<lambda>ts. lookup_ci ts (py_lower (cc_name c))) = Some t \<and>
        normalize_type t \<noteq> normalize_type (cc_data_type c)) \<or>
     \<not> cc_nullable c \<and> Option.bind nulls (\<lambda>ns. lookup_ci ns (py_lower (cc_name c))) = Some True"

lemma column_violations_breaking:
  "(\<exists>v\<in>set (column_violations m columns types nulls c). cv_severity v = BREAKING) \<longleftrightarrow>
   column_broken columns types nulls c"
proof -
  let ?t = "Option.bind types (\<lambda>ts. lookup_ci ts (py_lower (cc_name c)))"
  let ?n = "Option.bind nulls (\<lambda>ns. lookup_ci ns (py_lower (cc_name c)))"
  have "column_violations m columns types nulls c =
     (if py_lower (cc_name c) \<notin> py_lower ` set columns then [removed_violation m c]
      else (case ?t of None \<Rightarrow> [] | Some actual \<Rightarrow>
              if normalize_type (cc_data_type c) \<noteq> normalize_type actual then [type_violation m c actual] else []) @
           (case ?n of None \<Rightarrow> [] | Some b \<Rightarrow> if \<not> cc_nullable c \<and> b then [nullable_violation m c] else []))"
    by (cases types; cases nulls) (simp_all add: column_violations_def)
  then show ?thesis by (cases ?t; cases ?n) (auto simp: column_broken_def)
qed

lemma column_violations_model: "v \<in> set (column_violations m columns types nulls c) \<Longrightarrow> cv_model_name v = md_name m"
  by (auto simp: column_violations_def split: option.splits if_splits)

lemma added_violations_info: "v \<in> set (added_violations m columns) \<Longrightarrow> cv_severity v = INFO \<and> cv_model_name v = md_name m"
  by (auto simp: added_violations_def)

lemma validate_violation_model:
  "v \<in> set (cr_violations (validate_schema_contract m cols types nulls)) \<Longrightarrow> cv_model_name v = md_name m"
  by (auto simp: validate_schema_contract_def Let_def dest: column_violations_model added_violations_info split: if_splits)

lemma validate_disabled: "md_contract_mode m = DISABLED \<Longrightarrow> cr_violations (validate_schema_contract m c t n) = []"
  by (simp add: validate_schema_contract_def)

lemma validate_sorted: "sorted (map violation_key (cr_violations (validate_schema_contract m c t n)))"
  by (simp add: validate_schema_contract_def Let_def)

lemma batch_loop_result:
  "batch_loop cols types nulls ms all checked =
     (all @ concat (map (\<lambda>m. cr_violations (validate_schema_contract m (map_get cols (md_name m))
        (map_get types (md_name m)) (map_get nulls (md_name m)))) ms),
      checked + length (filter (\<lambda>m. md_contract_mode m \<noteq> DISABLED) ms))"
proof (induction ms arbitrary: all checked)
  case (Cons m ms)
  show ?case
  proof (cases "md_contract_mode m = DISABLED")
    case True
    with Cons.IH show ?thesis by (simp add: validate_disabled)
  next
    case False
    then have "cr_models_checked (validate_schema_contract m c t n) = 1" for c t n
      by (simp add: validate_schema_contract_def Let_def)
    with Cons.IH False show ?thesis by (simp add: Let_def)
  qed
qed simp

lemma filter_concat_single:
  assumes "distinct (map md_name ms)" "m \<in> set ms" "\<And>m v. v \<in> set (f m) \<Longrightarrow> cv_model_name v = md_name m"
  shows "filter (\<lambda>v. cv_model_name v = md_name m) (concat (map f ms)) = f m"
  using assms(1,2)
proof (induction ms)
  case (Cons x ms)
  have none: "filter (\<lambda>v. cv_model_name v = md_name m) (concat (map f ms')) = []"
    if "md_name m \<notin> md_name ` set ms'" for ms'
    using that by (auto simp: filter_empty_conv dest!: assms(3))
  have all: "filter (\<lambda>v. cv_model_name v = md_name m) (f m) = f m"
    using assms(3) by (auto simp: filter_id_conv)
  show ?case
  proof (cases "x = m")
    case True
    with Cons.prems none[of ms] all show ?thesis by auto
  next
    case False
    with Cons.prems have m: "m \<in> set ms" "md_name x \<noteq> md_name m" by auto
    then have "filter (\<lambda>v. cv_model_name v = md_name m) (f x) = []"
      by (auto simp: filter_empty_conv dest!: assms(3))
    with Cons m show ?thesis by simp
  qed
qed simp

subsection \<open>Properties of contract validation\<close>

text \<open>a validation reports a breaking violation exactly when contracts are enabled for the model and some
  contracted column is broken: missing up to letter case, of another type up to the alias table, or
  declared NOT NULL and produced nullable. Extra columns never break a contract.\<close>

theorem has_breaking_violations_iff:
  "has_breaking_violations (validate_schema_contract m cols types nulls) \<longleftrightarrow>
     md_contract_mode m \<noteq> DISABLED \<and>
     (\<exists>c\<in>set (md_contract_columns m).
        column_broken (case cols of Some cs \<Rightarrow> cs | None \<Rightarrow> md_output_columns m) types nulls c)"
proof -
  let ?cs = "case cols of Some cs \<Rightarrow> cs | None \<Rightarrow> md_output_columns m"
  have added: "\<not> (\<exists>v\<in>set (added_violations m ?cs). cv_severity v = BREAKING)"
    using added_violations_info by fastforce
  show ?thesis
  proof (cases "md_contract_mode m = DISABLED \<or> md_contract_columns m = []")
    case True
    then show ?thesis by (auto simp: has_breaking_violations_def validate_schema_contract_def)
  next
    case False
    then have "has_breaking_violations (validate_schema_contract m cols types nulls) \<longleftrightarrow>
       (\<exists>c\<in>set (md_contract_columns m). \<exists>v\<in>set (column_violations m ?cs types nulls c). cv_severity v = BREAKING)"
      using added by (auto simp: has_breaking_violations_def validate_schema_contract_def Let_def list_ex_iff)
    with False show ?thesis by (simp add: column_violations_breaking)
  qed
qed

text \<open>a batch reports for every model of the batch exactly what the validation of that model alone
  reports, in the same order, and counts the models whose contracts are enabled.\<close>

theorem batch_violations_for_model:
  assumes "distinct (map md_name models)" "m \<in> set models"
  shows "violations_for_model (validate_schema_contracts_batch models cols types nulls) (md_name m) =
     cr_violations (validate_schema_contract m (map_get cols (md_name m)) (map_get types (md_name m))
       (map_get nulls (md_name m)))"
    (is "?lhs = cr_violations (?v m)")
proof -
  let ?f = "\<lambda>m. cr_violations (validate_schema_contract m (map_get cols (md_name m)) (map_get types (md_name m))
       (map_get nulls (md_name m)))"
  have "distinct (map md_name (sort_key md_name models))"
    using assms(1) by (simp add: distinct_map)
  then have "filter (\<lambda>v. cv_model_name v = md_name m) (concat (map ?f (sort_key md_name models))) = ?f m"
    using assms(2) validate_violation_model by (intro filter_concat_single) auto
  then have "?lhs = sort_key violation_key (?f m)"
    by (simp add: violations_for_model_def validate_schema_contracts_batch_def batch_loop_result filter_sort)
  also have "\<dots> = ?f m" using validate_sorted by (rule sort_key_id_if_sorted)
  finally show ?thesis .
qed

theorem batch_violations_for_model_witness:
  "violations_for_model
     (validate_schema_contracts_batch
        [demo_model ''b'' [], (demo_model ''a'' [])\<lparr>md_contract_mode := STRICT,
           md_contract_columns := [\<lparr>cc_name = ''id'', cc_data_type = ''INT'', cc_nullable = False\<rparr>]\<rparr>]
        (Some [(''a'', [''ID''])]) None (Some [(''a'', [(''Id'', True)])])) ''a'' =
   [nullable_violation (demo_model ''a'' []) \<lparr>cc_name = ''id'', cc_data_type = ''INT'', cc_nullable = False\<rparr>]"
proof -
  let ?c = "\<lparr>cc_name = ''id'', cc_data_type = ''INT'', cc_nullable = False\<rparr>"
  let ?m = "(demo_model ''a'' [])\<lparr>md_contract_mode := STRICT, md_contract_columns := [?c]\<rparr>"
  have lower: "py_lower ''ID'' = ''id''" "py_lower ''Id'' = ''id''" "py_lower ''id'' = ''id''" by code_simp+
  have "cr_violations (validate_schema_contract ?m (Some [''ID'']) None (Some [(''Id'', True)])) =
      [nullable_violation (demo_model ''a'' []) ?c]"
    by (simp add: validate_schema_contract_def column_violations_def added_violations_def lower
        nullable_violation_def)
  then show ?thesis
    using batch_violations_for_model[of "[demo_model ''b'' [], ?m]" ?m "Some [(''a'', [''ID''])]" None
        "Some [(''a'', [(''Id'', True)])]"]
    by (simp add: map_get_def)
qed

end
