(* ===== verification/Planner.thy ===== *)
theory Planner
  imports Dag_Facts Contracts
begin

text \<open>
  The structural diff of \<^verbatim>\<open>core_engine/core_engine/diff/structural_diff.py\<close> and the interval planner of
  \<^verbatim>\<open>core_engine/core_engine/planner/interval_planner.py\<close>. Python dictionaries that are only looked up are
  maps. The SQL differ, SHA-256 and the graph library are arguments: \<open>differ old new\<close> is \<open>None\<close> when the
  toolkit raises, otherwise the pair of its \<^verbatim>\<open>is_cosmetic_only\<close> and \<^verbatim>\<open>is_identical\<close> flags.
\<close>

subsection \<open>Structural diff\<close>

definition compute_structural_diff ::
  "(string \<times> string) list \<Rightarrow> (string \<times> string) list \<Rightarrow> diff_result" where
  "compute_structural_diff previous current =
     (let previous_keys = dict_keys previous; current_keys = dict_keys current;
          added = sorted_set (filter (\<lambda>k. k \<notin> set previous_keys) current_keys);
          removed = sorted_set (filter (\<lambda>k. k \<notin> set current_keys) previous_keys);
          modified = sorted_set (filter (\<lambda>k. k \<in> set current_keys \<and> map_of previous k \<noteq> map_of current k)
                       previous_keys)
      in \<lparr>df_added_models = added, df_removed_models = removed, df_modified_models = modified,
          df_hash_changes = map (\<lambda>k. (k, \<lparr>hc_old_hash = the (map_of previous k), hc_new_hash = the (map_of current k)\<rparr>))
            modified\<rparr>)"

subsection \<open>Configuration\<close>

record planner_config =
  pc_default_lookback_days :: int
  pc_cost_per_compute_second :: rat
  pc_skip_cosmetic_changes :: bool

definition default_config :: planner_config where
  "default_config = \<lparr>pc_default_lookback_days = 30, pc_cost_per_compute_second = 7 / 10000,
     pc_skip_cosmetic_changes = True\<rparr>"

definition default_estimated_seconds :: rat where
  "default_estimated_seconds = 300"

datatype planner_error =
    AsOfDateRequired
  | DateOverflow
  | InvalidRange range_error

text \<open>A \<^verbatim>\<open>date\<close> minus a \<^verbatim>\<open>timedelta\<close> raises \<^verbatim>\<open>OverflowError\<close> before the first of January of year 1 (ordinal 1).\<close>

definition date_minus_days :: "date \<Rightarrow> int \<Rightarrow> planner_error + date" where
  "date_minus_days d n = (if d - n < 1 then Inl DateOverflow else Inr (d - n))"

subsection \<open>The helpers\<close>

definition dag_preds_in :: "'g nx \<Rightarrow> 'g \<Rightarrow> string \<Rightarrow> string list \<Rightarrow> string list" where
  "dag_preds_in nx dag name affected =
     (if name \<in> set (nx_nodes nx dag) then filter (\<lambda>p. p \<in> set affected) (nx_predecessors nx dag name) else [])"

fun widen_start :: "(string \<rightharpoonup> date \<times> date) \<Rightarrow> date \<Rightarrow> string list \<Rightarrow> date" where
  "widen_start watermarks start [] = start"
| "widen_start watermarks start (u # us) =
     widen_start watermarks
       (case watermarks u of
          Some (upstream_start, _) \<Rightarrow> if upstream_start < start then upstream_start else start
        | None \<Rightarrow> start) us"

definition compute_incremental_range ::
  "model_definition \<Rightarrow> (string \<rightharpoonup> date \<times> date) \<Rightarrow> string list \<Rightarrow> planner_config \<Rightarrow> date \<Rightarrow>
   planner_error + date_range" where
  "compute_incremental_range m watermarks upstream_models config as_of =
     (case (case watermarks (md_name m) of
              Some (_, wm_end) \<Rightarrow> Inr wm_end
            | None \<Rightarrow> date_minus_days as_of (pc_default_lookback_days config)) of
        Inl e \<Rightarrow> Inl e
      | Inr start0 \<Rightarrow>
          let start = widen_start watermarks start0 (sorted_set upstream_models);
              start = (if start > as_of then as_of else start)
          in case mk_date_range start as_of of Inl e \<Rightarrow> Inl (InvalidRange e) | Inr r \<Rightarrow> Inr r)"

definition determine_run_type ::
  "'g nx \<Rightarrow> 'g \<Rightarrow> model_definition \<Rightarrow> diff_result \<Rightarrow> (string \<rightharpoonup> date \<times> date) \<Rightarrow> string list \<Rightarrow>
   planner_config \<Rightarrow> date \<Rightarrow> planner_error + run_type \<times> date_range option" where
  "determine_run_type nx dag m diff watermarks all_affected config as_of =
     (if md_name m \<in> set (df_added_models diff) then Inr (FULL_REFRESH, None)
      else if md_kind m \<in> {FULL_REFRESH_KIND, MERGE_BY_KEY} then Inr (FULL_REFRESH, None)
      else if md_kind m \<in> {INCREMENTAL_BY_TIME_RANGE, APPEND_ONLY} then
        (case compute_incremental_range m watermarks (dag_preds_in nx dag (md_name m) all_affected) config as_of of
           Inl e \<Rightarrow> Inl e
         | Inr r \<Rightarrow> Inr (INCREMENTAL, Some r))
      else Inr (FULL_REFRESH, None))"

fun longest_path_loop :: "(string \<Rightarrow> string list) \<Rightarrow> (string \<times> nat) list \<Rightarrow> string list \<Rightarrow> (string \<times> nat) list" where
  "longest_path_loop predecessors longest [] = longest"
| "longest_path_loop predecessors longest (node # order) =
     (let preds_in_sub = filter (\<lambda>p. map_of longest p \<noteq> None) (predecessors node)
      in longest_path_loop predecessors
           (dict_set longest node
              (if preds_in_sub \<noteq> [] then Max (set (map (\<lambda>p. the (map_of longest p)) preds_in_sub)) + 1 else 0))
           order)"

definition plan_parallel_groups :: "'g nx \<Rightarrow> string list \<Rightarrow> 'g \<Rightarrow> (string \<times> nat) list" where
  "plan_parallel_groups nx affected_models dag =
     (if affected_models = [] then []
      else let subgraph = nx_subgraph nx dag (filter (\<lambda>n. n \<in> set affected_models) (nx_nodes nx dag))
           in if nx_nodes nx subgraph = [] then map (\<lambda>m. (m, 0)) affected_models
              else case topological_sort nx subgraph of
                     Inl _ \<Rightarrow> zip affected_models [0..<length affected_models]
                   | Inr order \<Rightarrow>
                       let longest = longest_path_loop (nx_predecessors nx subgraph) [] order
                       in map (\<lambda>m. (m, case map_of longest m of Some n \<Rightarrow> n | None \<Rightarrow> 0)) affected_models)"

definition estimate_cost :: "string \<Rightarrow> (string \<rightharpoonup> (string \<times> rat) list) \<Rightarrow> planner_config \<Rightarrow> rat \<times> rat" where
  "estimate_cost model_name run_stats config =
     (let seconds = (case run_stats model_name of
                       Some stats \<Rightarrow> (case map_of stats ''avg_runtime_seconds'' of
                                        Some s \<Rightarrow> s | None \<Rightarrow> default_estimated_seconds)
                     | None \<Rightarrow> default_estimated_seconds)
      in (seconds, py_round (seconds * pc_cost_per_compute_second config) 6))"

definition build_reason ::
  "'g nx \<Rightarrow> 'g \<Rightarrow> string \<Rightarrow> diff_result \<Rightarrow> bool \<Rightarrow> string list \<Rightarrow> string" where
  "build_reason nx dag model_name diff is_direct directly_changed =
     (if model_name \<in> set (df_added_models diff) then ''new model added''
      else if model_name \<in> set (df_modified_models diff) then ''SQL logic changed''
      else if \<not> is_direct \<and> model_name \<in> set (nx_nodes nx dag) then
        (case sort (filter (\<lambda>p. p \<in> set directly_changed) (nx_predecessors nx dag model_name)) of
           c # _ \<Rightarrow> ''downstream of '' @ c
         | [] \<Rightarrow>
             (case sorted_set (filter (\<lambda>a. a \<in> set directly_changed) (nx_ancestors nx dag model_name)) of
                c # _ \<Rightarrow> ''downstream of '' @ c
              | [] \<Rightarrow> ''included by planner policy''))
      else ''included by planner policy'')"

definition is_cosmetic_change :: "(string \<Rightarrow> string \<Rightarrow> (bool \<times> bool) option) \<Rightarrow> string \<Rightarrow> string \<Rightarrow> bool" where
  "is_cosmetic_change differ old_sql new_sql =
     (case differ old_sql new_sql of
        Some (is_cosmetic_only, is_identical) \<Rightarrow> is_cosmetic_only \<or> is_identical
      | None \<Rightarrow> False)"

definition compute_step_id :: "(string \<Rightarrow> string) \<Rightarrow> string \<Rightarrow> string \<Rightarrow> string \<Rightarrow> string" where
  "compute_step_id sha model_name base target = sha (model_name @ '':'' @ base @ '':'' @ target)"

definition compute_plan_id :: "(string \<Rightarrow> string) \<Rightarrow> string \<Rightarrow> string \<Rightarrow> plan_step list \<Rightarrow> string" where
  "compute_plan_id sha base target steps = sha (base @ target @ concat (map ps_step_id steps))"

subsection \<open>Generating a plan\<close>

definition cosmetic_models ::
  "(string \<Rightarrow> string \<Rightarrow> (bool \<times> bool) option) \<Rightarrow> (string \<rightharpoonup> model_definition) \<Rightarrow> diff_result \<Rightarrow>
   planner_config \<Rightarrow> (string \<rightharpoonup> string) option \<Rightarrow> string list" where
  "cosmetic_models differ models diff config base_sql =
     (case base_sql of
        Some old \<Rightarrow>
          if pc_skip_cosmetic_changes config then
            filter (\<lambda>m. case (old m, models m) of
                      (Some old_sql, Some d) \<Rightarrow> is_cosmetic_change differ old_sql (md_clean_sql d)
                    | _ \<Rightarrow> False) (sorted_set (df_modified_models diff))
          else []
      | None \<Rightarrow> [])"

definition directly_changed_models ::
  "(string \<Rightarrow> string \<Rightarrow> (bool \<times> bool) option) \<Rightarrow> (string \<rightharpoonup> model_definition) \<Rightarrow> diff_result \<Rightarrow>
   planner_config \<Rightarrow> (string \<rightharpoonup> string) option \<Rightarrow> string list" where
  "directly_changed_models differ models diff config base_sql =
     filter (\<lambda>m. m \<notin> set (cosmetic_models differ models diff config base_sql))
       (sorted_set (df_added_models diff @ df_modified_models diff))"

definition affected_models :: "'g nx \<Rightarrow> 'g \<Rightarrow> (string \<rightharpoonup> model_definition) \<Rightarrow> string list \<Rightarrow> string list" where
  "affected_models nx dag models directly_changed =
     sorted_set (filter (\<lambda>m. models m \<noteq> None)
       (directly_changed @
        concat (map (\<lambda>m. if m \<in> set (nx_nodes nx dag) then nx_descendants nx dag m else []) directly_changed)))"

definition step_violations :: "contract_validation_result option \<Rightarrow> string \<Rightarrow> step_violation list" where
  "step_violations results model_name =
     (case results of
        None \<Rightarrow> []
      | Some r \<Rightarrow> map (\<lambda>v. \<lparr>sv_column_name = cv_column_name v, sv_violation_type = cv_violation_type v,
                            sv_severity = severity_value (cv_severity v), sv_expected = cv_expected v,
                            sv_actual = cv_actual v, sv_message = cv_message v\<rparr>)
                  (violations_for_model r model_name))"

record 'g plan_request =
  rq_models :: "string \<rightharpoonup> model_definition"
  rq_diff :: diff_result
  rq_dag :: 'g
  rq_watermarks :: "string \<rightharpoonup> date \<times> date"
  rq_run_stats :: "string \<rightharpoonup> (string \<times> rat) list"
  rq_config :: "planner_config option"
  rq_base :: string
  rq_target :: string
  rq_as_of_date :: "date option"
  rq_base_sql :: "(string \<rightharpoonup> string) option"
  rq_contract_results :: "contract_validation_result option"

definition request_config :: "'g plan_request \<Rightarrow> planner_config" where
  "request_config rq = (case rq_config rq of Some c \<Rightarrow> c | None \<Rightarrow> default_config)"

definition make_step ::
  "'g nx \<Rightarrow> (string \<Rightarrow> string) \<Rightarrow> 'g plan_request \<Rightarrow> date \<Rightarrow> string list \<Rightarrow> string list \<Rightarrow>
   (string \<times> nat) list \<Rightarrow> string \<Rightarrow> planner_error + plan_step" where
  "make_step nx sha rq as_of directly_changed affected groups model_name =
     (case determine_run_type nx (rq_dag rq) (the (rq_models rq model_name)) (rq_diff rq) (rq_watermarks rq)
             affected (request_config rq) as_of of
        Inl e \<Rightarrow> Inl e
      | Inr (rt, rng) \<Rightarrow>
          let (secs, usd) = estimate_cost model_name (rq_run_stats rq) (request_config rq)
          in Inr \<lparr>ps_step_id = compute_step_id sha model_name (rq_base rq) (rq_target rq),
                  ps_model = model_name, ps_run_type = rt, ps_input_range = rng,
                  ps_depends_on = map (\<lambda>dep. compute_step_id sha dep (rq_base rq) (rq_target rq))
                    (sort (dag_preds_in nx (rq_dag rq) model_name affected)),
                  ps_parallel_group = (case map_of groups model_name of Some n \<Rightarrow> n | None \<Rightarrow> 0),
                  ps_reason = build_reason nx (rq_dag rq) model_name (rq_diff rq)
                    (model_name \<in> set directly_changed) directly_changed,
                  ps_estimated_compute_seconds = secs, ps_estimated_cost_usd = usd,
                  ps_contract_violations = step_violations (rq_contract_results rq) model_name\<rparr>)"

fun make_steps :: "(string \<Rightarrow> planner_error + plan_step) \<Rightarrow> string list \<Rightarrow> planner_error + plan_step list" where
  "make_steps f [] = Inr []"
| "make_steps f (m # ms) =
     (case f m of
        Inl e \<Rightarrow> Inl e
      | Inr s \<Rightarrow> (case make_steps f ms of Inl e \<Rightarrow> Inl e | Inr ss \<Rightarrow> Inr (s # ss)))"

definition plan_summary_of :: "plan_step list \<Rightarrow> string list \<Rightarrow> string list \<Rightarrow> plan_summary" where
  "plan_summary_of steps affected cosmetic =
     \<lparr>sm_total_steps = length steps,
      sm_estimated_cost_usd = py_round (sum_list (map ps_estimated_cost_usd steps)) 6,
      sm_models_changed = affected, sm_cosmetic_changes_skipped = sorted_set cosmetic,
      sm_contract_violations_count = sum_list (map (\<lambda>s. length (ps_contract_violations s)) steps),
      sm_breaking_contract_violations =
        length (filter (\<lambda>v. sv_severity v = ''BREAKING'') (concat (map ps_contract_violations steps)))\<rparr>"

definition generate_plan ::
  "'g nx \<Rightarrow> (string \<Rightarrow> string) \<Rightarrow> (string \<Rightarrow> string \<Rightarrow> (bool \<times> bool) option) \<Rightarrow> 'g plan_request \<Rightarrow>
   planner_error + plan" where
  "generate_plan nx sha differ rq =
     (case rq_as_of_date rq of
        None \<Rightarrow> Inl AsOfDateRequired
      | Some as_of \<Rightarrow>
          let config = request_config rq;
              cosmetic = cosmetic_models differ (rq_models rq) (rq_diff rq) config (rq_base_sql rq);
              directly_changed = directly_changed_models differ (rq_models rq) (rq_diff rq) config (rq_base_sql rq);
              affected = affected_models nx (rq_dag rq) (rq_models rq) directly_changed;
              groups = plan_parallel_groups nx affected (rq_dag rq)
          in case make_steps (make_step nx sha rq as_of directly_changed affected groups) affected of
               Inl e \<Rightarrow> Inl e
             | Inr steps \<Rightarrow>
                 Inr \<lparr>pl_plan_id = compute_plan_id sha (rq_base rq) (rq_target rq) steps,
                      pl_base = rq_base rq, pl_target = rq_target rq,
                      pl_summary = plan_summary_of steps affected cosmetic, pl_steps = steps\<rparr>)"

end
