(* ===== verification/Planner_Facts.thy ===== *)
theory Planner_Facts
  imports Planner
begin

text \<open>
  The planner's guarantees: which models a plan holds, what its steps depend on and in which group
  they run, the date ranges, and that a plan is a function of the inputs and not of the graph
  library's iteration order.
\<close>

subsection \<open>Steps\<close>

lemma make_steps_Inr: "make_steps f ms = Inr ss \<longleftrightarrow> list_all2 (\<lambda>m s. f m = Inr s) ms ss"
proof (induction ms arbitrary: ss)
  case (Cons m ms)
  have "make_steps f (m # ms) = Inr ss \<longleftrightarrow>
      (\<exists>s ss'. f m = Inr s \<and> make_steps f ms = Inr ss' \<and> ss = s # ss')"
    by (cases "f m"; cases "make_steps f ms") auto
  then show ?case by (auto simp: Cons.IH list_all2_Cons1)
qed auto

lemma make_steps_ex: "\<forall>m\<in>set ms. \<exists>s. f m = Inr s \<Longrightarrow> \<exists>ss. make_steps f ms = Inr ss"
  by (induction ms) (auto split: sum.splits)

lemma make_steps_cong: "(\<And>m. m \<in> set ms \<Longrightarrow> f m = g m) \<Longrightarrow> make_steps f ms = make_steps g ms"
  by (induction ms) (auto split: sum.splits)

lemma make_step_Inr:
  assumes "make_step nx sha rq as_of dc affected groups m = Inr s"
  shows "ps_model s = m" "ps_step_id s = compute_step_id sha m (rq_base rq) (rq_target rq)"
    "ps_depends_on s = map (\<lambda>dep. compute_step_id sha dep (rq_base rq) (rq_target rq))
       (sort (dag_preds_in nx (rq_dag rq) m affected))"
    "ps_parallel_group s = (case map_of groups m of Some n \<Rightarrow> n | None \<Rightarrow> 0)"
    "ps_contract_violations s = step_violations (rq_contract_results rq) m"
    "determine_run_type nx (rq_dag rq) (the (rq_models rq m)) (rq_diff rq) (rq_watermarks rq) affected
       (request_config rq) as_of = Inr (ps_run_type s, ps_input_range s)"
    "(ps_estimated_compute_seconds s, ps_estimated_cost_usd s) = estimate_cost m (rq_run_stats rq) (request_config rq)"
  using assms by (auto simp: make_step_def split: sum.splits prod.splits)

lemma steps_models:
  assumes "list_all2 (\<lambda>m s. make_step nx sha rq as_of dc affected groups m = Inr s) ms ss"
  shows "map ps_model ss = ms"
  using assms by (induction rule: list_all2_induct) (auto dest: make_step_Inr(1))

lemma steps_member:
  assumes "list_all2 (\<lambda>m s. make_step nx sha rq as_of dc affected groups m = Inr s) ms ss" "s \<in> set ss"
  shows "make_step nx sha rq as_of dc affected groups (ps_model s) = Inr s"
  using assms by (induction rule: list_all2_induct) (auto dest: make_step_Inr(1))

abbreviation request_cosmetic where
  "request_cosmetic differ rq \<equiv>
     cosmetic_models differ (rq_models rq) (rq_diff rq) (request_config rq) (rq_base_sql rq)"

abbreviation request_changed where
  "request_changed differ rq \<equiv>
     directly_changed_models differ (rq_models rq) (rq_diff rq) (request_config rq) (rq_base_sql rq)"

abbreviation request_affected where
  "request_affected nx differ rq \<equiv> affected_models nx (rq_dag rq) (rq_models rq) (request_changed differ rq)"

lemma generate_plan_Inr:
  assumes "generate_plan nx sha differ rq = Inr p"
  obtains as_of where "rq_as_of_date rq = Some as_of"
    "list_all2 (\<lambda>m s. make_step nx sha rq as_of (request_changed differ rq) (request_affected nx differ rq)
        (plan_parallel_groups nx (request_affected nx differ rq) (rq_dag rq)) m = Inr s)
      (request_affected nx differ rq) (pl_steps p)"
    "pl_summary p = plan_summary_of (pl_steps p) (request_affected nx differ rq) (request_cosmetic differ rq)"
    "pl_plan_id p = compute_plan_id sha (rq_base rq) (rq_target rq) (pl_steps p)"
  using assms by (auto simp: generate_plan_def Let_def make_steps_Inr split: option.splits sum.splits)

lemma plan_step_models:
  assumes "generate_plan nx sha differ rq = Inr p"
  shows "map ps_model (pl_steps p) = request_affected nx differ rq"
  using assms by (elim generate_plan_Inr) (rule steps_models)

subsection \<open>The affected models\<close>

lemma set_affected_models:
  assumes "nx_laws nx"
  shows "set (affected_models nx dag models dc) =
     {m. models m \<noteq> None \<and> (\<exists>c\<in>set dc. (c, m) \<in> (nx_edges nx dag)\<^sup>*)}"
proof -
  have desc: "m \<in> set (if c \<in> set (nx_nodes nx dag) then nx_descendants nx dag c else []) \<longleftrightarrow>
      (c, m) \<in> (nx_edges nx dag)\<^sup>+ \<and> c \<noteq> m" for c m
    using nx_set_descendants[OF assms, of c dag] trancl_closedD[OF _ nx_edges_nodes[OF assms], of c m dag] by auto
  have "set (affected_models nx dag models dc) =
     {m. models m \<noteq> None \<and> (m \<in> set dc \<or> (\<exists>c\<in>set dc. (c, m) \<in> (nx_edges nx dag)\<^sup>+ \<and> c \<noteq> m))}"
    unfolding affected_models_def set_sorted_set set_filter set_append set_concat set_map
    using desc by auto
  then show ?thesis by (auto simp: rtrancl_eq_or_trancl)
qed

lemma sorted_affected [simp]: "sorted (affected_models nx dag models dc)" "distinct (affected_models nx dag models dc)"
  by (simp_all add: affected_models_def)

lemma set_cosmetic_models:
  "set (cosmetic_models differ models diff config base_sql) =
     {m \<in> set (df_modified_models diff). pc_skip_cosmetic_changes config \<and>
        (\<exists>old old_sql d. base_sql = Some old \<and> old m = Some old_sql \<and> models m = Some d \<and>
           is_cosmetic_change differ old_sql (md_clean_sql d))}"
proof (cases base_sql)
  case (Some old)
  have "(case (old m, models m) of (Some old_sql, Some d) \<Rightarrow> is_cosmetic_change differ old_sql (md_clean_sql d) | _ \<Rightarrow> False)
      \<longleftrightarrow> (\<exists>old_sql d. old m = Some old_sql \<and> models m = Some d \<and> is_cosmetic_change differ old_sql (md_clean_sql d))" for m
    by (cases "old m"; cases "models m") auto
  with Some show ?thesis by (auto simp: cosmetic_models_def)
qed (simp add: cosmetic_models_def)

lemma set_directly_changed:
  "set (directly_changed_models differ models diff config base_sql) =
     (set (df_added_models diff) \<union> set (df_modified_models diff)) -
     set (cosmetic_models differ models diff config base_sql)"
  by (auto simp: directly_changed_models_def)

subsection \<open>Predecessors within the plan\<close>

lemma set_dag_preds_in:
  assumes "nx_laws nx"
  shows "set (dag_preds_in nx dag m affected) = {u \<in> set affected. (u, m) \<in> nx_edges nx dag}"
proof (cases "m \<in> set (nx_nodes nx dag)")
  case True
  then show ?thesis using nx_set_predecessors[OF assms True] by (auto simp: dag_preds_in_def)
next
  case False
  then show ?thesis using nx_edge_nodesD[OF assms] by (auto simp: dag_preds_in_def)
qed

lemma distinct_dag_preds_in: "nx_laws nx \<Longrightarrow> distinct (dag_preds_in nx dag m affected)"
  by (simp add: dag_preds_in_def nx_distinct_predecessors)

lemma dag_preds_in_cong:
  assumes "nx_laws nx" "nx_laws nx'" "nx_edges nx dag = nx_edges nx' dag'"
  shows "sort (dag_preds_in nx dag m affected) = sort (dag_preds_in nx' dag' m affected)"
    "sorted_set (dag_preds_in nx dag m affected) = sorted_set (dag_preds_in nx' dag' m affected)"
  using assms by (auto intro!: sort_distinct_cong sorted_set_cong distinct_dag_preds_in simp: set_dag_preds_in)

subsection \<open>Parallel groups of the planner\<close>

lemma longest_path_depth: "depth_loop preds depth order = Inr d \<Longrightarrow> longest_path_loop preds depth order = d"
proof (induction preds depth order rule: depth_loop.induct)
  case (2 preds depth node order)
  then have none: "filter (\<lambda>p. map_of depth p = None) (preds node) = []" by (auto split: list.splits)
  then have "filter (\<lambda>p. map_of depth p \<noteq> None) (preds node) = preds node"
    by (auto simp: filter_empty_conv filter_id_conv)
  with 2 none show ?case by (cases "preds node = []") (simp_all add: Let_def)
qed simp

lemma longest_path_cong:
  assumes "\<forall>v\<in>set order. set (preds v) = set (preds' v)"
  shows "longest_path_loop preds longest order = longest_path_loop preds' longest order"
  using assms
proof (induction preds longest order rule: longest_path_loop.induct)
  case (2 preds longest node order)
  then have s: "set (preds node) = set (preds' node)" by simp
  then have "filter (\<lambda>p. map_of longest p \<noteq> None) (preds node) = [] \<longleftrightarrow>
      filter (\<lambda>p. map_of longest p \<noteq> None) (preds' node) = []"
    unfolding filter_empty_conv by blast
  moreover have "set (map (\<lambda>p. the (map_of longest p)) (filter (\<lambda>p. map_of longest p \<noteq> None) (preds node))) =
      set (map (\<lambda>p. the (map_of longest p)) (filter (\<lambda>p. map_of longest p \<noteq> None) (preds' node)))"
    unfolding set_map set_filter s by (rule refl)
  ultimately show ?case using 2 by (simp add: Let_def del: set_map set_filter)
qed simp

definition plan_subgraph :: "'g nx \<Rightarrow> string list \<Rightarrow> 'g \<Rightarrow> 'g" where
  "plan_subgraph nx affected dag = nx_subgraph nx dag (filter (\<lambda>n. n \<in> set affected) (nx_nodes nx dag))"

lemma plan_subgraph_facts:
  assumes "nx_laws nx"
  shows "set (nx_nodes nx (plan_subgraph nx affected dag)) = set (nx_nodes nx dag) \<inter> set affected"
    and "nx_edges nx (plan_subgraph nx affected dag) = induced_edges nx dag affected"
  using nx_edge_nodesD[OF assms, of _ _ dag]
  by (auto simp: plan_subgraph_def induced_edges_def nx_subgraph_facts[OF assms])

lemma map_of_map_key: "map_of (map (\<lambda>m. (m, f m)) ms) m = (if m \<in> set ms then Some (f m) else None)"
  by (induction ms) auto

lemma plan_parallel_groups_levels:
  assumes "nx_laws nx" "acyclic (induced_edges nx dag affected)" "m \<in> set affected"
  shows "\<exists>n. map_of (plan_parallel_groups nx affected dag) m = Some n \<and> path_level (induced_edges nx dag affected) m n"
proof -
  let ?sg = "plan_subgraph nx affected dag" and ?E = "induced_edges nx dag affected"
  note sg = plan_subgraph_facts[OF assms(1), of affected dag]
  have ne: "affected \<noteq> []" using assms(3) by auto
  have outside: "path_level ?E m 0" if "m \<notin> set (nx_nodes nx ?sg)"
    using that nx_edges_nodes[OF assms(1), of ?sg] unfolding sg(2) by (intro path_level_source) blast
  show ?thesis
  proof (cases "nx_nodes nx ?sg = []")
    case True
    then have "map_of (plan_parallel_groups nx affected dag) m = Some 0"
      using ne assms(3) by (simp add: plan_parallel_groups_def Let_def plan_subgraph_def[symmetric] map_of_map_key)
    with outside True show ?thesis by simp
  next
    case False
    obtain order where order: "lexicographic_topological_sort nx ?sg = Inr order"
      using lex_sort_acyclic_iff[OF assms(1), of ?sg] assms(2) sg(2) by auto
    then have topo: "topological_sort nx ?sg = Inr order" by (simp add: topological_sort_def)
    from order have g: "greedy_order (set (nx_nodes nx ?sg)) ?E ([] @ order)" "set order = set (nx_nodes nx ?sg)"
      using lex_sort_Inr[OF assms(1), of ?sg] sg(2) by auto
    have "\<forall>v\<in>set order. set (nx_predecessors nx ?sg v) = {u. (u, v) \<in> ?E}"
      using nx_set_predecessors[OF assms(1), of _ ?sg] g(2) sg(2) by simp
    from depth_loop_levels[OF g(1) _ _ this, of "[]"] obtain d where
      d: "depth_loop (nx_predecessors nx ?sg) [] order = Inr d" "fst ` set d = set order"
        "\<forall>v\<in>set order. \<exists>n. map_of d v = Some n \<and> path_level ?E v n" by auto
    have group: "map_of (plan_parallel_groups nx affected dag) m = Some (case map_of d m of Some n \<Rightarrow> n | None \<Rightarrow> 0)"
      using ne assms(3) False topo longest_path_depth[OF d(1)]
      by (simp add: plan_parallel_groups_def Let_def plan_subgraph_def[symmetric] map_of_map_key)
    show ?thesis
    proof (cases "m \<in> set order")
      case True
      with d(3) group show ?thesis by force
    next
      case out: False
      then have "map_of d m = None" using d(2) by (simp add: map_of_eq_None_iff)
      with outside out g(2) group show ?thesis by simp
    qed
  qed
qed

lemma topological_sort_cong_cases:
  assumes "nx_laws nx" "nx_laws nx'" "set (nx_nodes nx g) = set (nx_nodes nx' g')" "nx_edges nx g = nx_edges nx' g'"
  shows "(\<exists>e e'. topological_sort nx g = Inl e \<and> topological_sort nx' g' = Inl e') \<or>
     (\<exists>xs. set xs = set (nx_nodes nx g) \<and> topological_sort nx g = Inr xs \<and> topological_sort nx' g' = Inr xs)"
proof (cases "lexicographic_topological_sort nx g")
  case (Inl e)
  then have "e = NetworkXUnfeasible" "lexicographic_topological_sort nx' g' = Inl e"
    using lex_sort_error[OF assms(1)] lex_sort_cong[OF assms] by auto
  with Inl show ?thesis by (simp add: topological_sort_def)
next
  case (Inr xs)
  then show ?thesis
    using lex_sort_cong[OF assms] lex_sort_Inr[OF assms(1), of g xs] by (simp add: topological_sort_def)
qed

lemma plan_parallel_groups_cong:
  assumes "nx_laws nx" "nx_laws nx'" "set (nx_nodes nx dag) = set (nx_nodes nx' dag')"
    and "nx_edges nx dag = nx_edges nx' dag'"
  shows "plan_parallel_groups nx affected dag = plan_parallel_groups nx' affected dag'"
proof -
  let ?sg = "plan_subgraph nx affected dag" and ?sg' = "plan_subgraph nx' affected dag'"
  have nodes: "set (nx_nodes nx ?sg) = set (nx_nodes nx' ?sg')" and edges: "nx_edges nx ?sg = nx_edges nx' ?sg'"
    using assms by (simp_all add: plan_subgraph_facts induced_edges_def)
  have empty: "nx_nodes nx ?sg = [] \<longleftrightarrow> nx_nodes nx' ?sg' = []"
    using nodes by (metis set_empty)
  from topological_sort_cong_cases[OF assms(1,2) nodes edges] show ?thesis
  proof (elim disjE exE conjE)
    fix e e' assume "topological_sort nx ?sg = Inl e" "topological_sort nx' ?sg' = Inl e'"
    with empty show ?thesis by (simp add: plan_parallel_groups_def Let_def plan_subgraph_def[symmetric])
  next
    fix xs assume xs: "set xs = set (nx_nodes nx ?sg)" "topological_sort nx ?sg = Inr xs" "topological_sort nx' ?sg' = Inr xs"
    have "\<forall>v\<in>set xs. set (nx_predecessors nx ?sg v) = set (nx_predecessors nx' ?sg' v)"
      using xs(1) nodes edges nx_set_predecessors[OF assms(1), of _ ?sg] nx_set_predecessors[OF assms(2), of _ ?sg']
      by simp
    from longest_path_cong[OF this, of "[]"] xs empty show ?thesis
      by (simp add: plan_parallel_groups_def Let_def plan_subgraph_def[symmetric])
  qed
qed

subsection \<open>Date ranges\<close>

lemma widen_start_le: "widen_start w s us \<le> s"
proof (induction w s us rule: widen_start.induct)
  case (2 w s u us)
  then show ?case by (auto split: option.splits prod.splits if_splits)
qed simp

lemma widen_start_Min:
  "widen_start w s us = Min (insert s {a. \<exists>u\<in>set us. \<exists>b. w u = Some (a, b)})"
proof (induction us arbitrary: s)
  case (Cons u us)
  have fin: "finite {a. \<exists>u\<in>set us. \<exists>b. w u = Some (a, b)}"
    by (rule finite_subset[of _ "(fst \<circ> the \<circ> w) ` set us"]) (auto simp: image_iff, force)
  show ?case
  proof (cases "w u")
    case None
    then have "{a. \<exists>v\<in>set (u # us). \<exists>b. w v = Some (a, b)} = {a. \<exists>u\<in>set us. \<exists>b. w u = Some (a, b)}" by auto
    with None Cons.IH show ?thesis by simp
  next
    case (Some p)
    obtain a b where p: "p = (a, b)" by (cases p)
    with Some have "insert s {a. \<exists>v\<in>set (u # us). \<exists>b. w v = Some (a, b)} =
        insert s (insert a {a. \<exists>u\<in>set us. \<exists>b. w u = Some (a, b)})" by auto
    moreover have "widen_start w s (u # us) = widen_start w (min s a) us"
      using Some p by (simp add: min_def)
    moreover have "Min (insert (min s a) A) = Min (insert s (insert a A))" if "finite A" for A :: "int set"
      using that by (cases "A = {}") (simp_all add: min.assoc)
    ultimately show ?thesis using Cons.IH fin by simp
  qed
qed simp

lemma incremental_range_eq:
  "compute_incremental_range m watermarks us config as_of =
     (case (case watermarks (md_name m) of Some (_, e) \<Rightarrow> Inr e
            | None \<Rightarrow> date_minus_days as_of (pc_default_lookback_days config)) of
        Inl e \<Rightarrow> Inl e
      | Inr s \<Rightarrow> Inr \<lparr>dr_start = min as_of (Min (insert s {a. \<exists>u\<in>set us. \<exists>b. watermarks u = Some (a, b)})),
                      dr_end = as_of\<rparr>)"
  by (auto simp: compute_incremental_range_def widen_start_Min mk_date_range_def Let_def min_def split: sum.splits)

lemma determine_run_type_Inr:
  assumes "determine_run_type nx dag m diff watermarks affected config as_of = Inr (rt, rng)"
  shows "(rt = INCREMENTAL \<longleftrightarrow> md_name m \<notin> set (df_added_models diff) \<and>
            md_kind m \<in> {INCREMENTAL_BY_TIME_RANGE, APPEND_ONLY})"
    and "rng = None \<longleftrightarrow> rt = FULL_REFRESH"
    and "rt = INCREMENTAL \<Longrightarrow> map_sum id Some
       (compute_incremental_range m watermarks (dag_preds_in nx dag (md_name m) affected) config as_of) = Inr rng"
  using assms by (auto simp: determine_run_type_def split: if_splits sum.splits)

lemma determine_run_type_ex:
  assumes "pc_default_lookback_days config < as_of"
  shows "\<exists>r. determine_run_type nx dag m diff watermarks affected config as_of = Inr r"
  using assms
  by (auto simp: determine_run_type_def incremental_range_eq date_minus_days_def split: option.splits sum.splits)

lemma determine_run_type_cong:
  assumes "nx_laws nx" "nx_laws nx'" "nx_edges nx dag = nx_edges nx' dag'"
  shows "determine_run_type nx dag m diff watermarks affected config as_of =
     determine_run_type nx' dag' m diff watermarks affected config as_of"
  unfolding determine_run_type_def compute_incremental_range_def dag_preds_in_cong(2)[OF assms] by (rule refl)

lemma build_reason_cong:
  assumes "nx_laws nx" "nx_laws nx'" "set (nx_nodes nx dag) = set (nx_nodes nx' dag')"
    and "nx_edges nx dag = nx_edges nx' dag'"
  shows "build_reason nx dag m diff direct dc = build_reason nx' dag' m diff direct dc"
proof (cases "m \<in> set (nx_nodes nx dag)")
  case True
  with assms(3) have m': "m \<in> set (nx_nodes nx' dag')" by simp
  have "sort (filter (\<lambda>p. p \<in> set dc) (nx_predecessors nx dag m)) =
      sort (filter (\<lambda>p. p \<in> set dc) (nx_predecessors nx' dag' m))"
    using True m' assms(1,2,4)
    by (intro sorted_sort_filter_cong) (auto simp: nx_set_predecessors nx_distinct_predecessors)
  moreover have "sorted_set (filter (\<lambda>p. p \<in> set dc) (nx_ancestors nx dag m)) =
      sorted_set (filter (\<lambda>p. p \<in> set dc) (nx_ancestors nx' dag' m))"
    using True m' assms(1,2,4) by (intro sorted_set_cong) (auto simp: nx_set_ancestors)
  ultimately show ?thesis using True m' by (simp only: build_reason_def)
next
  case False
  with assms(3) show ?thesis by (simp add: build_reason_def)
qed

lemma affected_models_cong:
  assumes "nx_laws nx" "nx_laws nx'" "nx_edges nx dag = nx_edges nx' dag'"
  shows "affected_models nx dag models dc = affected_models nx' dag' models dc"
  by (rule sorted_distinct_eqI) (simp_all add: set_affected_models assms)

subsection \<open>Properties of the diff and the planner\<close>

definition demo_request :: "string list \<Rightarrow> list_graph plan_request" where
  "demo_request changed =
     \<lparr>rq_models = [''a'' \<mapsto> demo_model ''a'' [], ''b'' \<mapsto> demo_model ''b'' [], ''c'' \<mapsto> demo_model ''c'' [''a'', ''b'']],
      rq_diff = \<lparr>df_added_models = [], df_removed_models = [], df_modified_models = changed, df_hash_changes = []\<rparr>,
      rq_dag = demo_graph, rq_watermarks = Map.empty, rq_run_stats = Map.empty, rq_config = None,
      rq_base = ''v1'', rq_target = ''v2'', rq_as_of_date = Some 738000, rq_base_sql = None,
      rq_contract_results = None\<rparr>"

text \<open>the diff of two snapshots lists, in strictly ascending order, exactly the models that appeared, that
  vanished and whose hash changed, records both hashes of every changed model, and lists nothing
  exactly when the snapshots agree.\<close>

theorem structural_diff_exact:
  "set (df_added_models (compute_structural_diff prev cur)) = dom (map_of cur) - dom (map_of prev) \<and>
     set (df_removed_models (compute_structural_diff prev cur)) = dom (map_of prev) - dom (map_of cur) \<and>
     set (df_modified_models (compute_structural_diff prev cur)) =
       {m. \<exists>x y. map_of prev m = Some x \<and> map_of cur m = Some y \<and> x \<noteq> y} \<and>
     sorted_wrt (<) (df_added_models (compute_structural_diff prev cur)) \<and>
     sorted_wrt (<) (df_removed_models (compute_structural_diff prev cur)) \<and>
     sorted_wrt (<) (df_modified_models (compute_structural_diff prev cur)) \<and>
     map_of (df_hash_changes (compute_structural_diff prev cur)) =
       (\<lambda>m. case (map_of prev m, map_of cur m) of
              (Some x, Some y) \<Rightarrow> if x \<noteq> y then Some \<lparr>hc_old_hash = x, hc_new_hash = y\<rparr> else None
            | _ \<Rightarrow> None) \<and>
     (df_added_models (compute_structural_diff prev cur) @ df_removed_models (compute_structural_diff prev cur) @
        df_modified_models (compute_structural_diff prev cur) = [] \<longleftrightarrow> map_of prev = map_of cur)"
    (is "?A \<and> ?R \<and> ?M \<and> ?SA \<and> ?SR \<and> ?SM \<and> ?H \<and> (?E \<longleftrightarrow> ?eq)")
proof -
  let ?d = "compute_structural_diff prev cur"
  have A: ?A and R: ?R
    by (simp_all add: compute_structural_diff_def Let_def dict_keys_def dom_map_of_conv_image_fst set_diff_eq)
  have M: ?M
  proof (rule set_eqI)
    fix m
    have "m \<in> set (df_modified_models ?d) \<longleftrightarrow>
        m \<in> dom (map_of prev) \<and> m \<in> dom (map_of cur) \<and> map_of prev m \<noteq> map_of cur m"
      by (simp add: compute_structural_diff_def Let_def dict_keys_def dom_map_of_conv_image_fst)
    then show "m \<in> set (df_modified_models ?d) \<longleftrightarrow>
        m \<in> {m. \<exists>x y. map_of prev m = Some x \<and> map_of cur m = Some y \<and> x \<noteq> y}"
      by (cases "map_of prev m"; cases "map_of cur m") (simp_all add: domIff)
  qed
  have "df_hash_changes ?d = map (\<lambda>k. (k, \<lparr>hc_old_hash = the (map_of prev k),
      hc_new_hash = the (map_of cur k)\<rparr>)) (df_modified_models ?d)"
    by (simp add: compute_structural_diff_def Let_def)
  then have H: ?H
    by (intro ext) (simp add: map_of_map_key M split: option.split)
  have S: ?SA ?SR ?SM
    by (simp_all add: compute_structural_diff_def Let_def strict_sorted_iff)
  have "?E \<longleftrightarrow> set (df_added_models ?d) = {} \<and> set (df_removed_models ?d) = {} \<and> set (df_modified_models ?d) = {}"
    by simp
  also have "\<dots> \<longleftrightarrow> (\<forall>m. m \<notin> set (df_added_models ?d) \<and> m \<notin> set (df_removed_models ?d) \<and>
      m \<notin> set (df_modified_models ?d))" unfolding set_eq_iff empty_iff by (simp only: all_conj_distrib) simp
  also have "\<dots> \<longleftrightarrow> (\<forall>m. map_of prev m = map_of cur m)"
  proof (rule all_cong1)
    fix m
    show "(m \<notin> set (df_added_models ?d) \<and> m \<notin> set (df_removed_models ?d) \<and> m \<notin> set (df_modified_models ?d))
        \<longleftrightarrow> map_of prev m = map_of cur m"
      unfolding A R M by (cases "map_of prev m"; cases "map_of cur m") (simp_all add: domIff)
  qed
  finally have "?E \<longleftrightarrow> ?eq" unfolding fun_eq_iff .
  with A R M H S show ?thesis by blast
qed

text \<open>C2: a plan holds, once each and in alphabetical order, exactly the known models that are reachable from a
  model that was added or modified, where a modification that the SQL differ calls cosmetic or
  identical does not count when skipping is on and the base SQL is given; the summary lists the same
  models and counts them.\<close>

theorem plan_affected_models:
  assumes "nx_laws nx" "generate_plan nx sha differ rq = Inr p"
  shows "map ps_model (pl_steps p) = sm_models_changed (pl_summary p) \<and>
     sorted_wrt (<) (sm_models_changed (pl_summary p)) \<and>
     sm_total_steps (pl_summary p) = card (set (sm_models_changed (pl_summary p))) \<and>
     set (sm_models_changed (pl_summary p)) =
       {m. rq_models rq m \<noteq> None \<and>
         (\<exists>c\<in>(set (df_added_models (rq_diff rq)) \<union> set (df_modified_models (rq_diff rq))) -
              {m \<in> set (df_modified_models (rq_diff rq)). pc_skip_cosmetic_changes (request_config rq) \<and>
                 (\<exists>old old_sql d. rq_base_sql rq = Some old \<and> old m = Some old_sql \<and> rq_models rq m = Some d \<and>
                    is_cosmetic_change differ old_sql (md_clean_sql d))}.
            (c, m) \<in> (nx_edges nx (rq_dag rq))\<^sup>*)}"
proof -
  have models: "map ps_model (pl_steps p) = request_affected nx differ rq"
    by (rule plan_step_models[OF assms(2)])
  have "pl_summary p = plan_summary_of (pl_steps p) (request_affected nx differ rq) (request_cosmetic differ rq)"
    using assms(2) by (rule generate_plan_Inr)
  then have sum: "sm_models_changed (pl_summary p) = request_affected nx differ rq"
    "sm_total_steps (pl_summary p) = length (request_affected nx differ rq)"
    using models by (auto simp: plan_summary_of_def dest: arg_cong[where f = length])
  have "length (request_affected nx differ rq) = card (set (request_affected nx differ rq))"
    by (simp add: distinct_card)
  moreover have "sorted_wrt (<) (request_affected nx differ rq)"
    by (simp add: strict_sorted_iff)
  ultimately show ?thesis
    unfolding sum models
    by (intro conjI) (assumption | rule refl | simp only: set_affected_models[OF assms(1)] set_directly_changed set_cosmetic_models)+
qed

lemma generate_plan_ex:
  assumes "rq_as_of_date rq = Some as_of" "pc_default_lookback_days (request_config rq) < as_of"
  shows "\<exists>p. generate_plan nx sha differ rq = Inr p"
proof -
  have "\<exists>s. make_step nx sha rq as_of dc affected groups m = Inr s" for dc affected groups m
    using determine_run_type_ex[OF assms(2), of nx "rq_dag rq" "the (rq_models rq m)" "rq_diff rq" "rq_watermarks rq" affected]
    by (auto simp: make_step_def split: prod.splits)
  then have "\<exists>ss. make_steps (make_step nx sha rq as_of (request_changed differ rq) (request_affected nx differ rq)
      (plan_parallel_groups nx (request_affected nx differ rq) (rq_dag rq))) (request_affected nx differ rq) = Inr ss"
    by (intro make_steps_ex) blast
  then show ?thesis using assms(1) by (auto simp: generate_plan_def Let_def)
qed

lemma demo_request_sel [simp]:
  "rq_dag (demo_request cs) = demo_graph" "rq_as_of_date (demo_request cs) = Some 738000"
  "request_config (demo_request cs) = default_config" "rq_base_sql (demo_request cs) = None"
  "df_added_models (rq_diff (demo_request cs)) = []" "df_modified_models (rq_diff (demo_request cs)) = cs"
  "dom (rq_models (demo_request cs)) = {''a'', ''b'', ''c''}"
  by (auto simp: demo_request_def request_config_def)

lemma demo_request_models: "(\<exists>y. rq_models (demo_request cs) m = Some y) \<longleftrightarrow> m \<in> {''a'', ''b'', ''c''}"
  using demo_request_sel(7)[of cs] by blast

lemma demo_plan:
  "\<exists>p. generate_plan list_nx (\<lambda>s. s) (\<lambda>_ _. None) (demo_request cs) = Inr p \<and>
     map ps_model (pl_steps p) = request_affected list_nx (\<lambda>_ _. None) (demo_request cs)"
proof -
  obtain p where "generate_plan list_nx (\<lambda>s. s) (\<lambda>_ _. None) (demo_request cs) = Inr p"
    using generate_plan_ex[of "demo_request cs" 738000 list_nx "\<lambda>s. s" "\<lambda>_ _. None"]
    by (auto simp: default_config_def)
  with plan_step_models[OF this] show ?thesis by blast
qed

lemma demo_changed [simp]: "set (request_changed (\<lambda>_ _. None) (demo_request cs)) = set cs"
  unfolding set_directly_changed set_cosmetic_models by simp

lemma demo_reach:
  "(''b'', m) \<in> (nx_edges list_nx demo_graph)\<^sup>* \<longleftrightarrow> m = ''b'' \<or> m = ''c''"
proof
  assume "(''b'', m) \<in> (nx_edges list_nx demo_graph)\<^sup>*"
  then show "m = ''b'' \<or> m = ''c''"
    by (rule closed_rtrancl[of _ _ _ "{''b'', ''c''}", simplified]) (auto simp: demo_graph_facts)
next
  assume "m = ''b'' \<or> m = ''c''"
  then show "(''b'', m) \<in> (nx_edges list_nx demo_graph)\<^sup>*" by (auto simp: demo_graph_facts)
qed

theorem plan_affected_models_witness:
  "\<exists>p. generate_plan list_nx (\<lambda>s. s) (\<lambda>_ _. None) (demo_request [''b'']) = Inr p \<and>
     set (sm_models_changed (pl_summary p)) = {''b'', ''c''}"
proof -
  obtain p where p: "generate_plan list_nx (\<lambda>s. s) (\<lambda>_ _. None) (demo_request [''b'']) = Inr p"
    using demo_plan by blast
  have "set (sm_models_changed (pl_summary p)) = {m. rq_models (demo_request [''b'']) m \<noteq> None \<and>
      (''b'', m) \<in> (nx_edges list_nx demo_graph)\<^sup>*}"
    using plan_affected_models[OF list_nx_laws p] by simp
  also have "\<dots> = {''b'', ''c''}" unfolding demo_reach by (auto simp: demo_request_models)
  finally show ?thesis using p by blast
qed

text \<open>C3: a step waits for exactly the steps of the plan whose models are its direct upstreams, listed in the
  plan's order; models outside the plan never appear among its dependencies.\<close>

theorem plan_depends_on_exact:
  assumes "nx_laws nx" "generate_plan nx sha differ rq = Inr p" "s \<in> set (pl_steps p)"
  shows "ps_depends_on s =
     map ps_step_id (filter (\<lambda>t. (ps_model t, ps_model s) \<in> nx_edges nx (rq_dag rq)) (pl_steps p))"
proof -
  let ?aff = "request_affected nx differ rq" and ?E = "nx_edges nx (rq_dag rq)"
  let ?id = "\<lambda>m. compute_step_id sha m (rq_base rq) (rq_target rq)"
  from assms(2) obtain as_of where steps:
    "list_all2 (\<lambda>m s. make_step nx sha rq as_of (request_changed differ rq) ?aff
        (plan_parallel_groups nx ?aff (rq_dag rq)) m = Inr s) ?aff (pl_steps p)" by (rule generate_plan_Inr)
  note step = make_step_Inr[OF steps_member[OF steps]]
  have "sort (dag_preds_in nx (rq_dag rq) (ps_model s) ?aff) = filter (\<lambda>u. (u, ps_model s) \<in> ?E) ?aff"
    by (rule sorted_distinct_eqI)
      (auto simp: set_dag_preds_in[OF assms(1)] distinct_dag_preds_in[OF assms(1)] sorted_filter[of id, simplified])
  then have "ps_depends_on s = map ?id (filter (\<lambda>u. (u, ps_model s) \<in> ?E) (map ps_model (pl_steps p)))"
    using step(3)[OF assms(3)] plan_step_models[OF assms(2)] by simp
  also have "\<dots> = map (?id \<circ> ps_model) (filter (\<lambda>t. (ps_model t, ps_model s) \<in> ?E) (pl_steps p))"
    by (simp add: filter_map o_def)
  also have "\<dots> = map ps_step_id (filter (\<lambda>t. (ps_model t, ps_model s) \<in> ?E) (pl_steps p))"
    using step(2) by (intro map_cong) auto
  finally show ?thesis .
qed

theorem plan_depends_on_exact_witness:
  "\<exists>p s. generate_plan list_nx (\<lambda>s. s) (\<lambda>_ _. None) (demo_request [''b'']) = Inr p \<and> s \<in> set (pl_steps p) \<and>
     ps_depends_on s = map ps_step_id (filter (\<lambda>t. (ps_model t, ps_model s) \<in> nx_edges list_nx demo_graph) (pl_steps p))"
proof -
  obtain p where p: "generate_plan list_nx (\<lambda>s. s) (\<lambda>_ _. None) (demo_request [''b'']) = Inr p"
    "map ps_model (pl_steps p) = request_affected list_nx (\<lambda>_ _. None) (demo_request [''b''])"
    using demo_plan by blast
  have "''b'' \<in> set (map ps_model (pl_steps p))"
    unfolding p(2) set_affected_models[OF list_nx_laws] demo_changed by (simp add: demo_request_models)
  then obtain s where s: "s \<in> set (pl_steps p)" by auto
  from plan_depends_on_exact[OF list_nx_laws p(1) s] p(1) s show ?thesis by auto
qed

text \<open>C4: when the planned part of the graph is acyclic, the group of a step is the length of the longest
  dependency path within the plan that ends in its model, so every step runs in a strictly later
  group than all steps it depends on, and the groups are those of the graph module less one.\<close>

theorem plan_groups_respect_dependencies:
  assumes "nx_laws nx" "generate_plan nx sha differ rq = Inr p"
    and "acyclic (induced_edges nx (rq_dag rq) (map ps_model (pl_steps p)))"
  shows "(\<forall>s\<in>set (pl_steps p).
        path_level (induced_edges nx (rq_dag rq) (map ps_model (pl_steps p))) (ps_model s) (ps_parallel_group s)) \<and>
     (\<forall>s\<in>set (pl_steps p). \<forall>t\<in>set (pl_steps p).
        (ps_model t, ps_model s) \<in> nx_edges nx (rq_dag rq) \<longrightarrow> ps_parallel_group t < ps_parallel_group s) \<and>
     (set (map ps_model (pl_steps p)) \<subseteq> set (nx_nodes nx (rq_dag rq)) \<longrightarrow>
        (\<exists>groups. assign_parallel_groups nx (rq_dag rq) (map ps_model (pl_steps p)) = Inr groups \<and>
          (\<forall>s\<in>set (pl_steps p). map_of groups (ps_model s) = Some (ps_parallel_group s + 1))))"
proof -
  let ?aff = "request_affected nx differ rq"
  let ?E = "induced_edges nx (rq_dag rq) (map ps_model (pl_steps p))"
  have models: "map ps_model (pl_steps p) = ?aff" by (rule plan_step_models[OF assms(2)])
  from assms(2) obtain as_of where steps:
    "list_all2 (\<lambda>m s. make_step nx sha rq as_of (request_changed differ rq) ?aff
        (plan_parallel_groups nx ?aff (rq_dag rq)) m = Inr s) ?aff (pl_steps p)" by (rule generate_plan_Inr)
  have level: "path_level ?E (ps_model s) (ps_parallel_group s)" if s: "s \<in> set (pl_steps p)" for s
  proof -
    from s have "ps_model s \<in> set ?aff" unfolding models[symmetric] by simp
    with plan_parallel_groups_levels[OF assms(1), of "rq_dag rq" ?aff "ps_model s"] assms(3)
    obtain n where "map_of (plan_parallel_groups nx ?aff (rq_dag rq)) (ps_model s) = Some n" "path_level ?E (ps_model s) n"
      unfolding models by blast
    with make_step_Inr(4)[OF steps_member[OF steps s]] show ?thesis by simp
  qed
  moreover have "ps_parallel_group t < ps_parallel_group s"
    if "s \<in> set (pl_steps p)" "t \<in> set (pl_steps p)" "(ps_model t, ps_model s) \<in> nx_edges nx (rq_dag rq)" for s t
  proof -
    have "(ps_model t, ps_model s) \<in> ?E" using that by (simp add: induced_edges_def)
    from path_level_edge[OF this level[OF that(2)] level[OF that(1)]] show ?thesis .
  qed
  moreover have "\<exists>groups. assign_parallel_groups nx (rq_dag rq) (map ps_model (pl_steps p)) = Inr groups \<and>
      (\<forall>s\<in>set (pl_steps p). map_of groups (ps_model s) = Some (ps_parallel_group s + 1))"
    if "set (map ps_model (pl_steps p)) \<subseteq> set (nx_nodes nx (rq_dag rq))"
  proof -
    from assign_parallel_groups_levels[OF assms(1,3) that] obtain groups where
      groups: "assign_parallel_groups nx (rq_dag rq) (map ps_model (pl_steps p)) = Inr groups"
        "\<forall>m\<in>set (map ps_model (pl_steps p)). \<exists>n. map_of groups m = Some (n + 1) \<and> path_level ?E m n" by blast
    have "map_of groups (ps_model s) = Some (ps_parallel_group s + 1)" if s: "s \<in> set (pl_steps p)" for s
    proof -
      from groups(2) s obtain n where "map_of groups (ps_model s) = Some (n + 1)" "path_level ?E (ps_model s) n"
        by (metis image_eqI set_map)
      with path_level_unique[OF level[OF s]] show ?thesis by simp
    qed
    with groups(1) show ?thesis by blast
  qed
  ultimately show ?thesis by blast
qed

theorem plan_groups_respect_dependencies_witness:
  "\<exists>p. generate_plan list_nx (\<lambda>s. s) (\<lambda>_ _. None) (demo_request [''b'']) = Inr p \<and>
     (\<forall>s\<in>set (pl_steps p). \<forall>t\<in>set (pl_steps p).
        (ps_model t, ps_model s) \<in> nx_edges list_nx demo_graph \<longrightarrow> ps_parallel_group t < ps_parallel_group s)"
proof -
  obtain p where p: "generate_plan list_nx (\<lambda>s. s) (\<lambda>_ _. None) (demo_request [''b'']) = Inr p"
    using demo_plan by blast
  have dag: "rq_dag (demo_request [''b'']) = demo_graph" by simp
  have "acyclic (induced_edges list_nx demo_graph (map ps_model (pl_steps p)))"
    using demo_graph_acyclic by (rule acyclic_subset) (auto simp: induced_edges_def)
  with plan_groups_respect_dependencies[OF list_nx_laws p] p show ?thesis unfolding dag by blast
qed

text \<open>the date range of an incremental run always ends at the planning date and never starts after it; it
  starts at the earliest of the model's own watermark end (or the look-back date when it has none)
  and the watermark starts of the upstreams in the plan, cut at the planning date.\<close>

theorem incremental_range_exact:
  "compute_incremental_range m watermarks us config as_of =
     (case (case watermarks (md_name m) of Some (_, e) \<Rightarrow> Inr e
            | None \<Rightarrow> date_minus_days as_of (pc_default_lookback_days config)) of
        Inl e \<Rightarrow> Inl e
      | Inr s \<Rightarrow> Inr \<lparr>dr_start = min as_of (Min (insert s {a. \<exists>u\<in>set us. \<exists>b. watermarks u = Some (a, b)})),
                      dr_end = as_of\<rparr>)"
  by (rule incremental_range_eq)

text \<open>planning succeeds whenever a planning date is given and the look-back period does not reach before
  the first representable day, whatever the graph (cycles included), the watermarks and the
  statistics are; without a planning date it is refused.\<close>

theorem generate_plan_returns:
  assumes "rq_as_of_date rq = Some as_of" "pc_default_lookback_days (request_config rq) < as_of"
  shows "\<exists>p. generate_plan nx sha differ rq = Inr p"
  by (rule generate_plan_ex[OF assms])

theorem generate_plan_returns_witness:
  "\<exists>p. generate_plan list_nx (\<lambda>s. s) (\<lambda>_ _. None) (demo_request [''b'']) = Inr p"
  by (rule generate_plan_returns[of _ 738000])
    (simp_all add: default_config_def)

text \<open>the plan is a function of its inputs: with graph values that have the same nodes and edges, held by
  any two libraries, the planner returns the same plan (identifiers, order, groups, reasons, ranges
  and costs included) or the same error.\<close>

theorem generate_plan_deterministic:
  assumes "nx_laws nx" "nx_laws nx'" "set (nx_nodes nx (rq_dag rq)) = set (nx_nodes nx' dag')"
    and "nx_edges nx (rq_dag rq) = nx_edges nx' dag'"
    and "rq' = \<lparr>rq_models = rq_models rq, rq_diff = rq_diff rq, rq_dag = dag', rq_watermarks = rq_watermarks rq,
      rq_run_stats = rq_run_stats rq, rq_config = rq_config rq, rq_base = rq_base rq, rq_target = rq_target rq,
      rq_as_of_date = rq_as_of_date rq, rq_base_sql = rq_base_sql rq, rq_contract_results = rq_contract_results rq\<rparr>"
  shows "generate_plan nx sha differ rq = generate_plan nx' sha differ rq'"
proof -
  have sel: "rq_models rq' = rq_models rq" "rq_diff rq' = rq_diff rq" "rq_dag rq' = dag'"
    "rq_watermarks rq' = rq_watermarks rq" "rq_run_stats rq' = rq_run_stats rq"
    "request_config rq' = request_config rq" "rq_base rq' = rq_base rq" "rq_target rq' = rq_target rq"
    "rq_as_of_date rq' = rq_as_of_date rq" "rq_base_sql rq' = rq_base_sql rq"
    "rq_contract_results rq' = rq_contract_results rq"
    by (simp_all add: assms(5) request_config_def)
  note aff = affected_models_cong[OF assms(1,2,4)]
  note groups = plan_parallel_groups_cong[OF assms(1-4)]
  have step: "make_step nx sha rq as_of dc affected grp m = make_step nx' sha rq' as_of dc affected grp m"
    for as_of dc affected grp m
    unfolding make_step_def sel determine_run_type_cong[OF assms(1,2,4)] build_reason_cong[OF assms(1-4)]
      dag_preds_in_cong(1)[OF assms(1,2,4)] by (rule refl)
  have "make_step nx sha rq = make_step nx' sha rq'" by (intro ext step)
  then show ?thesis unfolding generate_plan_def sel aff groups by (simp only:)
qed

theorem generate_plan_deterministic_witness:
  "generate_plan list_nx (\<lambda>s. s) (\<lambda>_ _. None) (demo_request [''b'']) =
   generate_plan list_nx (\<lambda>s. s) (\<lambda>_ _. None)
     ((demo_request [''b''])\<lparr>rq_dag := ([(''a'', None)], [(''b'', ''c''), (''a'', ''c'')])\<rparr>)"
  by (rule generate_plan_deterministic[OF list_nx_laws list_nx_laws,
        where dag' = "([(''a'', None)], [(''b'', ''c''), (''a'', ''c'')])"])
    (auto simp: demo_request_def demo_graph_def lg_nodes_def list_nx_edges)

end
