(* ===== verification/Py_Text.thy ===== *)
theory Py_Text
  imports Json "HOL-Library.Product_Lexorder"
begin

text \<open>
  The string methods of Python the loader uses, on ASCII text: \<^verbatim>\<open>splitlines\<close>, \<^verbatim>\<open>split\<close> and \<^verbatim>\<open>partition\<close> at a
  character, \<^verbatim>\<open>rsplit(x, 1)\<close>, \<^verbatim>\<open>replace\<close>, \<^verbatim>\<open>find\<close> and \<^verbatim>\<open>int\<close>, with what the parsers need to know of them.
\<close>

definition is_line_break :: "char \<Rightarrow> bool" where
  "is_line_break c = (let n = (of_char c :: nat) in (10 \<le> n \<and> n \<le> 13) \<or> (28 \<le> n \<and> n \<le> 30))"

lemma is_line_break_code [code]:
  "is_line_break c \<longleftrightarrow> List.member [CHR 0x0A, CHR 0x0B, CHR 0x0C, CHR 0x0D, CHR 0x1C, CHR 0x1D, CHR 0x1E] c"
proof -
  have "(10 \<le> n \<and> n \<le> (13::nat)) \<longleftrightarrow> n \<in> {10, 11, 12, 13}" "(28 \<le> n \<and> n \<le> (30::nat)) \<longleftrightarrow> n \<in> {28, 29, 30}" for n
    by auto
  then show ?thesis
    unfolding is_line_break_def Let_def
    using of_char_nat_eq[of c "CHR 0x0A"] of_char_nat_eq[of c "CHR 0x0B"] of_char_nat_eq[of c "CHR 0x0C"] of_char_nat_eq[of c "CHR 0x0D"]
      of_char_nat_eq[of c "CHR 0x1C"] of_char_nat_eq[of c "CHR 0x1D"] of_char_nat_eq[of c "CHR 0x1E"]
    by simp
qed

fun splitlines_loop :: "string \<Rightarrow> string \<Rightarrow> string list" where
  "splitlines_loop line [] = (if line = [] then [] else [rev line])"
| "splitlines_loop line [c] = (if is_line_break c then [rev line] else [rev (c # line)])"
| "splitlines_loop line (c # d # cs) =
     (if c = CHR 0x0D \<and> d = CHR 0x0A then rev line # splitlines_loop [] cs
      else if is_line_break c then rev line # splitlines_loop [] (d # cs)
      else splitlines_loop (c # line) (d # cs))"

definition py_splitlines :: "string \<Rightarrow> string list" where
  "py_splitlines s = splitlines_loop [] s"

text \<open>\<^verbatim>\<open>s.split(c)\<close>: always at least one part.\<close>

fun py_split :: "char \<Rightarrow> string \<Rightarrow> string list" where
  "py_split c [] = [[]]"
| "py_split c (x # xs) =
     (if x = c then [] # py_split c xs
      else (case py_split c xs of [] \<Rightarrow> [[x]] | p # ps \<Rightarrow> (x # p) # ps))"

text \<open>\<^verbatim>\<open>s.partition(c)\<close> without the separator; \<^verbatim>\<open>s.rsplit(c, 1)\<close> of a string that contains \<open>c\<close>.\<close>

definition py_partition :: "char \<Rightarrow> string \<Rightarrow> string \<times> string" where
  "py_partition c s = (takeWhile (\<lambda>x. x \<noteq> c) s, drop 1 (dropWhile (\<lambda>x. x \<noteq> c) s))"

definition after_last :: "char \<Rightarrow> string \<Rightarrow> string" where
  "after_last c s = rev (takeWhile (\<lambda>x. x \<noteq> c) (rev s))"

definition starts_with :: "string \<Rightarrow> string \<Rightarrow> bool" where
  "starts_with p s \<longleftrightarrow> take (length p) s = p"

definition ends_with :: "string \<Rightarrow> string \<Rightarrow> bool" where
  "ends_with p s \<longleftrightarrow> length p \<le> length s \<and> drop (length s - length p) s = p"

text \<open>\<^verbatim>\<open>s.replace(old, new)\<close> for a non-empty \<open>old\<close>: leftmost occurrences, without overlap.\<close>

function py_replace :: "string \<Rightarrow> string \<Rightarrow> string \<Rightarrow> string" where
  "py_replace old new s =
     (case s of [] \<Rightarrow> []
      | c # cs \<Rightarrow> if old \<noteq> [] \<and> starts_with old s then new @ py_replace old new (drop (length old) s)
                  else c # py_replace old new cs)"
  by pat_completeness auto
termination
  by (relation "measure (\<lambda>(old, new, s). length s)") (auto split: list.splits)

declare py_replace.simps [simp del]

text \<open>Where a pattern occurs last: the part before and the part after it.\<close>

fun rsplit_at :: "string \<Rightarrow> string \<Rightarrow> (string \<times> string) option" where
  "rsplit_at p [] = None"
| "rsplit_at p (c # cs) =
     (case rsplit_at p cs of
        Some (a, b) \<Rightarrow> Some (c # a, b)
      | None \<Rightarrow> if starts_with p (c # cs) then Some ([], drop (length p) (c # cs)) else None)"

text \<open>\<^verbatim>\<open>int(text)\<close>: blanks around it, a sign, and digits with single underscores between them.\<close>

definition digit_value :: "char \<Rightarrow> nat option" where
  "digit_value c = (let n = (of_char c :: nat) in if 48 \<le> n \<and> n \<le> 57 then Some (n - 48) else None)"

fun int_digits :: "nat \<Rightarrow> string \<Rightarrow> nat option" where
  "int_digits acc [] = Some acc"
| "int_digits acc (c # cs) =
     (if c = CHR ''_'' then (case cs of d # ds \<Rightarrow> (case digit_value d of Some v \<Rightarrow> int_digits (10 * acc + v) ds | None \<Rightarrow> None)
                             | [] \<Rightarrow> None)
      else (case digit_value c of Some v \<Rightarrow> int_digits (10 * acc + v) cs | None \<Rightarrow> None))"

definition nat_of_text :: "string \<Rightarrow> nat option" where
  "nat_of_text s = (case s of [] \<Rightarrow> None | c # cs \<Rightarrow> (case digit_value c of Some v \<Rightarrow> int_digits v cs | None \<Rightarrow> None))"

definition py_int :: "string \<Rightarrow> int option" where
  "py_int s =
     (case py_strip s of
        [] \<Rightarrow> None
      | c # cs \<Rightarrow> if c = CHR ''-'' then map_option (\<lambda>n. - int n) (nat_of_text cs)
                  else if c = CHR ''+'' then map_option int (nat_of_text cs)
                  else map_option int (nat_of_text (c # cs)))"

subsection \<open>Facts\<close>

lemma py_split_ne [simp]: "py_split c s \<noteq> []"
  by (induction s) (auto split: list.splits)

lemma py_split_none: "c \<notin> set s \<Longrightarrow> py_split c s = [s]"
  by (induction s) auto

lemma py_split_append: "c \<notin> set s \<Longrightarrow> py_split c (s @ c # t) = s # py_split c t"
  by (induction s) auto

text \<open>Splitting undoes joining.\<close>

lemma py_split_join:
  "ps \<noteq> [] \<Longrightarrow> \<forall>p\<in>set ps. c \<notin> set p \<Longrightarrow> py_split c (py_join [c] ps) = ps"
proof (induction ps)
  case (Cons p ps)
  then show ?case by (cases ps) (auto simp: py_split_none py_split_append)
qed simp

lemma py_strip_id: "s = [] \<or> (\<not> is_space (hd s) \<and> \<not> is_space (last s)) \<Longrightarrow> py_strip s = s"
proof (cases "s = []")
  case False
  assume "s = [] \<or> (\<not> is_space (hd s) \<and> \<not> is_space (last s))"
  with False have "dropWhile is_space s = s" "dropWhile is_space (rev s) = rev s"
    by (simp_all add: dropWhile_eq_self_iff hd_rev)
  then show ?thesis by (simp add: py_strip_def)
qed (simp add: py_strip_def)

lemma py_strip_idem [simp]: "py_strip (py_strip s) = py_strip s"
proof -
  have "py_strip s = [] \<or> (\<not> is_space (hd (py_strip s)) \<and> \<not> is_space (last (py_strip s)))"
  proof (cases "py_strip s = []")
    case False
    let ?d = "dropWhile is_space (rev (dropWhile is_space s))"
    have d: "?d \<noteq> []" using False by (simp add: py_strip_def)
    then have "\<not> is_space (hd ?d)" by (rule hd_dropWhile)
    then have last: "\<not> is_space (last (py_strip s))" using d by (simp add: py_strip_def last_rev)
    have ne: "dropWhile is_space s \<noteq> []" using d by (metis dropWhile.simps(1) rev.simps(1))
    obtain pre where pre: "rev (dropWhile is_space s) = pre @ ?d" by (metis takeWhile_dropWhile_id)
    then have "dropWhile is_space s = rev ?d @ rev pre" by (metis rev_append rev_rev_ident)
    moreover have "rev ?d \<noteq> []" using d by (simp only: rev_is_Nil_conv) simp
  ultimately have "hd (py_strip s) = hd (dropWhile is_space s)" unfolding py_strip_def by (metis hd_append2)
    then show ?thesis using hd_dropWhile[of is_space s] ne last by simp
  qed simp
  then show ?thesis by (rule py_strip_id)
qed

text \<open>Decimal digits are read back.\<close>

lemma digit_value_digit: "d < 10 \<Longrightarrow> digit_value (char_of (48 + d)) = Some d"
  by (simp add: digit_value_def Let_def)

lemma int_digits_snoc:
  "int_digits acc xs = Some n \<Longrightarrow> d < 10 \<Longrightarrow> int_digits acc (xs @ [char_of (48 + d)]) = Some (10 * n + d)"
proof (induction acc xs rule: int_digits.induct)
  case (1 acc)
  have "char_of (48 + d) \<noteq> CHR ''_''"
  proof
    assume "char_of (48 + d) = CHR ''_''"
    then have "(of_char (char_of (48 + d) :: char) :: nat) = of_char CHR ''_''" by simp
    with 1 show False by simp
  qed
  with 1 digit_value_digit[of d] show ?case by simp
next
  case (2 acc c cs)
  then show ?case by (auto split: if_splits option.splits list.splits)
qed

lemma nat_digits_ne: "nat_digits n \<noteq> []"
  by (subst nat_digits.simps) simp

lemma nat_of_text_snoc: "nat_of_text xs = Some n \<Longrightarrow> d < 10 \<Longrightarrow> nat_of_text (xs @ [char_of (48 + d)]) = Some (10 * n + d)"
  by (cases xs) (auto simp: nat_of_text_def int_digits_snoc split: option.splits)

lemma nat_of_digits: "nat_of_text (nat_digits n) = Some n"
proof (induction n rule: nat_digits.induct)
  case (1 n)
  show ?case
  proof (cases "n < 10")
    case True
    then show ?thesis by (subst nat_digits.simps) (simp add: nat_of_text_def digit_value_digit)
  next
    case False
    have "n mod 10 < 10" by simp
    from nat_of_text_snoc[OF 1[OF False] this] False show ?thesis by (subst nat_digits.simps) simp
  qed
qed

lemma digits_no_space: "c \<in> set (nat_digits n) \<Longrightarrow> \<exists>d::nat. d < 10 \<and> c = char_of (48 + d)"
proof (induction n rule: nat_digits.induct)
  case (1 n)
  show ?case
  proof (cases "n < 10")
    case True
    with 1(2) show ?thesis by (subst (asm) nat_digits.simps) auto
  next
    case False
    then have "nat_digits n = nat_digits (n div 10) @ [char_of (48 + n mod 10)]" by (subst nat_digits.simps) simp
    with 1(2) consider "c \<in> set (nat_digits (n div 10))" | "c = char_of (48 + n mod 10)" by auto
    then show ?thesis
    proof cases
      case 1
      with "1.IH"[OF False] show ?thesis .
    next
      case 2
      have "n mod 10 < 10" by simp
      with 2 show ?thesis by blast
    qed
  qed
qed

lemma digit_char:
  fixes d :: nat
  assumes "d < 10"
  shows "\<not> is_space (char_of (48 + d))" "char_of (48 + d) \<noteq> CHR ''-''" "char_of (48 + d) \<noteq> CHR ''+''"
proof -
  have v: "(of_char (char_of (48 + d) :: char) :: nat) = 48 + d" using assms by simp
  then show "\<not> is_space (char_of (48 + d))" using assms by (simp add: is_space_def Let_def)
  show "char_of (48 + d) \<noteq> CHR ''-''" "char_of (48 + d) \<noteq> CHR ''+''"
    using v by (auto dest: arg_cong[where f = "of_char :: char \<Rightarrow> nat"])
qed

lemma py_int_int_string: "py_int (int_string (int n)) = Some (int n)"
proof -
  obtain c cs where cs: "nat_digits n = c # cs" using nat_digits_ne by (cases "nat_digits n") auto
  have digit: "\<exists>d::nat. d < 10 \<and> x = char_of (48 + d)" if "x \<in> set (c # cs)" for x
    using digits_no_space that cs by metis
  have "\<not> is_space x" if "x \<in> set (c # cs)" for x using digit[OF that] digit_char(1) by blast
  then have "\<not> is_space (hd (c # cs))" "\<not> is_space (last (c # cs))" by (metis hd_in_set last_in_set list.discI)+
  then have "py_strip (c # cs) = c # cs" using py_strip_id by blast
  moreover have "c \<noteq> CHR ''-''" "c \<noteq> CHR ''+''" using digit[of c] digit_char by auto
  ultimately show ?thesis using nat_of_digits[of n] by (simp add: py_int_def int_string_def cs)
qed

end
