(* ===== verification/Loader.thy ===== *)
theory Loader
  imports Py_Text Models
begin

text \<open>
  The model loader: \<^verbatim>\<open>core_engine/core_engine/loader/model_loader.py\<close> (header parser, column contracts, test
  declarations, files, the two-pass directory scan) and \<^verbatim>\<open>ref_resolver.py\<close> (the \<^verbatim>\<open>ref\<close> macro). Files come
  as their paths, in the order of the sorted directory scan, with their content, or \<open>None\<close> where reading fails.
  The JSON decoder, \<^verbatim>\<open>str\<close> of a JSON value and SHA-256 are the environment.
\<close>

record loader_env =
  ld_json_loads :: "string \<Rightarrow> json option"
  ld_json_str :: "json \<Rightarrow> string"
  ld_sha :: "string \<Rightarrow> string"

datatype load_error =
    HeaderParseError string
  | ModelLoadError string
  | UnresolvedRefError string
  | ValidationError model_error
  | BadEnumValue string
  | EmptyModelName

subsection \<open>Header fields\<close>

datatype header_value =
    HStr string
  | HList "string list"
  | HColumns "column_contract list"
  | HTests "model_test_definition list"
  | HExposures "exposure_ref list"

type_synonym header = "(string \<times> header_value) list"

definition required_fields :: "string list" where
  "required_fields = [''name'', ''kind'']"

definition list_fields :: "string list" where
  "list_fields = [''tags'', ''dependencies'']"

definition known_fields :: "string list" where
  "known_fields =
     [''name'', ''kind'', ''materialization'', ''time_column'', ''unique_key'', ''partition_by'', ''incremental_strategy'',
      ''owner'', ''tags'', ''dependencies'', ''contract_mode'', ''contract_columns'', ''tests'', ''exposures'',
      ''pre_hook_sql'', ''post_hook_sql'']"

subsection \<open>Column contracts\<close>

definition parse_contract_item :: "string \<Rightarrow> load_error + column_contract" where
  "parse_contract_item item =
     (case py_split CHR '':'' item of
        n # t # rest \<Rightarrow>
          let col_name = py_strip n; data_type = py_upper (py_strip t);
              modifier = (case rest of m # _ \<Rightarrow> py_upper (py_strip m) | [] \<Rightarrow> [])
          in if modifier \<noteq> [] \<and> modifier \<noteq> ''NOT_NULL'' then Inl (HeaderParseError ''modifier'')
             else if col_name = [] then Inl (HeaderParseError ''column name'')
             else if data_type = [] then Inl (HeaderParseError ''data type'')
             else Inr \<lparr>cc_name = col_name, cc_data_type = data_type, cc_nullable = (modifier \<noteq> ''NOT_NULL'')\<rparr>
      | _ \<Rightarrow> Inl (HeaderParseError ''entry''))"

fun parse_contract_items :: "string list \<Rightarrow> load_error + column_contract list" where
  "parse_contract_items [] = Inr []"
| "parse_contract_items (item # items) =
     (if py_strip item = [] then parse_contract_items items
      else case parse_contract_item (py_strip item) of
             Inl e \<Rightarrow> Inl e
           | Inr c \<Rightarrow> (case parse_contract_items items of Inl e \<Rightarrow> Inl e | Inr cs \<Rightarrow> Inr (c # cs)))"

definition parse_contract_columns :: "string \<Rightarrow> load_error + column_contract list" where
  "parse_contract_columns value = (if py_strip value = [] then Inr [] else parse_contract_items (py_split CHR '','' value))"

subsection \<open>Test declarations\<close>

text \<open>The loop over the characters: the parenthesis depth, the current declaration and the finished ones, reversed.\<close>

fun split_declarations :: "int \<Rightarrow> string \<Rightarrow> string list \<Rightarrow> string \<Rightarrow> string list" where
  "split_declarations depth current declarations [] =
     (let trailing = py_strip (rev current)
      in rev (if trailing = [] then declarations else trailing # declarations))"
| "split_declarations depth current declarations (ch # cs) =
     (if ch = CHR ''('' then split_declarations (depth + 1) (ch # current) declarations cs
      else if ch = CHR '')'' then split_declarations (depth - 1) (ch # current) declarations cs
      else if ch = CHR '','' \<and> depth = 0 then split_declarations depth [] (py_strip (rev current) # declarations) cs
      else split_declarations depth (ch # current) declarations cs)"

definition test_type_lookup :: "(string \<times> model_test_type) list" where
  "test_type_lookup =
     [(''not_null'', NOT_NULL), (''unique'', UNIQUE), (''row_count_min'', ROW_COUNT_MIN),
      (''row_count_max'', ROW_COUNT_MAX), (''accepted_values'', ACCEPTED_VALUES), (''custom_sql'', CUSTOM_SQL)]"

definition test_severity_of_text :: "string \<Rightarrow> load_error + test_severity" where
  "test_severity_of_text s =
     (if s = ''BLOCK'' then Inr SEV_BLOCK else if s = ''WARN'' then Inr SEV_WARN
      else Inl (HeaderParseError ''severity''))"

definition bare_test :: "model_test_type \<Rightarrow> test_severity \<Rightarrow> model_test_definition" where
  "bare_test t sev = \<lparr>mt_test_type = t, mt_column = None, mt_threshold = None, mt_values = None, mt_sql = None, mt_severity = sev\<rparr>"

definition build_test :: "model_test_type \<Rightarrow> string \<Rightarrow> test_severity \<Rightarrow> load_error + model_test_definition" where
  "build_test test_type arg sev =
     (if test_type \<in> {NOT_NULL, UNIQUE} then
        (if arg = [] then Inl (HeaderParseError ''column argument'')
         else Inr (bare_test test_type sev\<lparr>mt_column := Some arg\<rparr>))
      else if test_type \<in> {ROW_COUNT_MIN, ROW_COUNT_MAX} then
        (if arg = [] then Inl (HeaderParseError ''threshold argument'')
         else case py_int arg of
                None \<Rightarrow> Inl (HeaderParseError ''threshold'')
              | Some n \<Rightarrow> Inr (bare_test test_type sev\<lparr>mt_threshold := Some n\<rparr>))
      else if test_type = ACCEPTED_VALUES then
        (if CHR '':'' \<notin> set arg then Inl (HeaderParseError ''accepted_values syntax'')
         else let (c, vals_str) = py_partition CHR '':'' arg; col = py_strip c;
                  vals = sort (filter (\<lambda>v. v \<noteq> []) (map py_strip (py_split CHR ''|'' vals_str)))
              in if col = [] then Inl (HeaderParseError ''accepted_values column'')
                 else if vals = [] then Inl (HeaderParseError ''accepted_values values'')
                 else Inr (bare_test test_type sev\<lparr>mt_column := Some col, mt_values := Some vals\<rparr>))
      else (if arg = [] then Inl (HeaderParseError ''custom_sql argument'')
            else Inr (bare_test test_type sev\<lparr>mt_sql := Some arg\<rparr>)))"

definition parse_test_declaration :: "string \<Rightarrow> load_error + model_test_definition" where
  "parse_test_declaration decl =
     (let suffix = rsplit_at '')@'' decl;
          base_decl = (case suffix of Some (b, _) \<Rightarrow> b @ '')'' | None \<Rightarrow> decl)
      in case (case suffix of Some (_, s) \<Rightarrow> test_severity_of_text (py_upper (py_strip s)) | None \<Rightarrow> Inr SEV_BLOCK) of
           Inl e \<Rightarrow> Inl e
         | Inr sev \<Rightarrow>
             if CHR ''('' \<notin> set base_decl \<or> \<not> ends_with '')'' base_decl then Inl (HeaderParseError ''declaration'')
             else let (n, r) = py_partition CHR ''('' base_decl;
                      test_name = py_lower (py_strip n); arg = py_strip (butlast r)
                  in case map_of test_type_lookup test_name of
                       None \<Rightarrow> Inl (HeaderParseError ''test type'')
                     | Some test_type \<Rightarrow> build_test test_type arg sev)"

fun parse_declarations :: "string list \<Rightarrow> load_error + model_test_definition list" where
  "parse_declarations [] = Inr []"
| "parse_declarations (d # ds) =
     (if d = [] then parse_declarations ds
      else case parse_test_declaration d of
             Inl e \<Rightarrow> Inl e
           | Inr t \<Rightarrow> (case parse_declarations ds of Inl e \<Rightarrow> Inl e | Inr ts \<Rightarrow> Inr (t # ts)))"

definition test_type_value :: "model_test_type \<Rightarrow> string" where
  "test_type_value t =
     (case t of NOT_NULL \<Rightarrow> ''NOT_NULL'' | UNIQUE \<Rightarrow> ''UNIQUE'' | ROW_COUNT_MIN \<Rightarrow> ''ROW_COUNT_MIN''
      | ROW_COUNT_MAX \<Rightarrow> ''ROW_COUNT_MAX'' | ACCEPTED_VALUES \<Rightarrow> ''ACCEPTED_VALUES'' | CUSTOM_SQL \<Rightarrow> ''CUSTOM_SQL'')"

definition test_sort_key :: "model_test_definition \<Rightarrow> string \<times> string \<times> string" where
  "test_sort_key t = (test_type_value (mt_test_type t), opt_or (mt_column t) [], opt_or (mt_sql t) [])"

definition parse_test_declarations :: "string \<Rightarrow> load_error + model_test_definition list" where
  "parse_test_declarations value =
     (if py_strip value = [] then Inr []
      else case parse_declarations (split_declarations 0 [] [] value) of
             Inl e \<Rightarrow> Inl e | Inr tests \<Rightarrow> Inr (sort_key test_sort_key tests))"

subsection \<open>Exposures\<close>

definition json_get :: "json \<Rightarrow> string \<Rightarrow> json option" where
  "json_get j k = (case j of JObj kvs \<Rightarrow> map_of (rev kvs) k | _ \<Rightarrow> None)"

definition json_get_truthy :: "json \<Rightarrow> string \<Rightarrow> json option" where
  "json_get_truthy j k = (case json_get j k of Some v \<Rightarrow> if json_falsy v then None else Some v | None \<Rightarrow> None)"

definition parse_exposure :: "(json \<Rightarrow> string) \<Rightarrow> json \<Rightarrow> load_error + exposure_ref option" where
  "parse_exposure str item =
     (case item of
        JObj _ \<Rightarrow>
          (case json_get_truthy item ''name'' of
             None \<Rightarrow> Inr None
           | Some n \<Rightarrow>
               if py_strip (str n) = [] then Inr None
               else Inr (Some \<lparr>ex_name = py_strip (str n),
                 ex_type = opt_or (Some (py_strip (case json_get item ''type'' of Some t \<Rightarrow> str t | None \<Rightarrow> ''dashboard'')))
                   ''dashboard'',
                 ex_url = map_option (\<lambda>v. py_strip (str v)) (json_get_truthy item ''url''),
                 ex_label = map_option (\<lambda>v. py_strip (str v)) (json_get_truthy item ''label'')\<rparr>))
      | _ \<Rightarrow> Inl (HeaderParseError ''exposure object''))"

fun parse_exposure_items :: "(json \<Rightarrow> string) \<Rightarrow> json list \<Rightarrow> load_error + exposure_ref list" where
  "parse_exposure_items str [] = Inr []"
| "parse_exposure_items str (item # items) =
     (case parse_exposure str item of
        Inl e \<Rightarrow> Inl e
      | Inr x \<Rightarrow> (case parse_exposure_items str items of
                   Inl e \<Rightarrow> Inl e | Inr xs \<Rightarrow> Inr ((case x of None \<Rightarrow> xs | Some e \<Rightarrow> e # xs))))"

definition parse_exposures :: "loader_env \<Rightarrow> string \<Rightarrow> load_error + exposure_ref list" where
  "parse_exposures env value =
     (if py_strip value = [] then Inr []
      else case ld_json_loads env (py_strip value) of
             None \<Rightarrow> Inl (HeaderParseError ''exposures JSON'')
           | Some (JList items) \<Rightarrow> parse_exposure_items (ld_json_str env) items
           | Some _ \<Rightarrow> Inl (HeaderParseError ''exposures array''))"

subsection \<open>Headers and bodies\<close>

text \<open>Empty lines and comment lines make the header; the first other line ends it.\<close>

definition is_header_line :: "string \<Rightarrow> bool" where
  "is_header_line line \<longleftrightarrow> py_strip line = [] \<or> starts_with ''--'' (py_strip line)"

definition parse_field :: "loader_env \<Rightarrow> string \<Rightarrow> string \<Rightarrow> load_error + header_value" where
  "parse_field env key value =
     (if key = ''contract_columns'' then map_sum (\<lambda>e. e) HColumns (parse_contract_columns value)
      else if key = ''tests'' then map_sum (\<lambda>e. e) HTests (parse_test_declarations value)
      else if key = ''exposures'' then map_sum (\<lambda>e. e) HExposures (parse_exposures env value)
      else if key \<in> set list_fields then
        Inr (HList (filter (\<lambda>i. i \<noteq> []) (map py_strip (py_split CHR '','' value))))
      else Inr (HStr value))"

definition parse_header_line :: "loader_env \<Rightarrow> string \<Rightarrow> header \<Rightarrow> load_error + header" where
  "parse_header_line env line header =
     (let payload = py_strip (drop 2 (py_strip line))
      in if \<not> starts_with ''--'' (py_strip line) \<or> CHR '':'' \<notin> set payload then Inr header
         else let (k, v) = py_partition CHR '':'' payload; key = py_lower (py_strip k); value = py_strip v
              in if key \<in> set known_fields then
                   (case parse_field env key value of Inl e \<Rightarrow> Inl e | Inr x \<Rightarrow> Inr (dict_set header key x))
                 else Inr header)"

fun parse_header_lines :: "loader_env \<Rightarrow> string list \<Rightarrow> header \<Rightarrow> load_error + header" where
  "parse_header_lines env [] header = Inr header"
| "parse_header_lines env (line # lines) header =
     (if is_header_line line then
        (case parse_header_line env line header of
           Inl e \<Rightarrow> Inl e | Inr header' \<Rightarrow> parse_header_lines env lines header')
      else Inr header)"

definition parse_yaml_header :: "loader_env \<Rightarrow> string \<Rightarrow> load_error + header" where
  "parse_yaml_header env sql_content =
     (case parse_header_lines env (py_splitlines sql_content) [] of
        Inl e \<Rightarrow> Inl e
      | Inr header \<Rightarrow>
          if filter (\<lambda>f. f \<notin> set (dict_keys header)) required_fields \<noteq> [] then Inl (HeaderParseError ''required fields'')
          else Inr header)"

definition extract_sql_body :: "string \<Rightarrow> string" where
  "extract_sql_body sql_content =
     py_strip (py_join [CHR 0x0A] (dropWhile is_header_line (py_splitlines sql_content)))"

subsection \<open>The ref macro\<close>

text \<open>
  The pattern \<^verbatim>\<open>\{\{\s*ref\s*\(\s*(?:'([^']+)'|"([^"]+)")\s*\)\s*\}\}\<close> at the start of a text: the captured name and the
  rest. No choice is left to backtracking, since what follows a repetition cannot belong to it.
\<close>

definition expect :: "string \<Rightarrow> string \<Rightarrow> string option" where
  "expect p s = (if starts_with p s then Some (drop (length p) s) else None)"

definition match_quoted :: "string \<Rightarrow> (string \<times> string) option" where
  "match_quoted s =
     (case s of
        q # cs \<Rightarrow>
          if q = CHR 0x27 \<or> q = CHR 0x22 then
            (case dropWhile (\<lambda>c. c \<noteq> q) cs of
               _ # rest \<Rightarrow> if takeWhile (\<lambda>c. c \<noteq> q) cs = [] then None else Some (takeWhile (\<lambda>c. c \<noteq> q) cs, rest)
             | [] \<Rightarrow> None)
          else None
      | [] \<Rightarrow> None)"

definition match_ref :: "string \<Rightarrow> (string \<times> string) option" where
  "match_ref s =
     (case expect ''{{'' s of None \<Rightarrow> None
      | Some s1 \<Rightarrow> (case expect ''ref'' (py_lstrip s1) of None \<Rightarrow> None
      | Some s2 \<Rightarrow> (case expect ''('' (py_lstrip s2) of None \<Rightarrow> None
      | Some s3 \<Rightarrow> (case match_quoted (py_lstrip s3) of None \<Rightarrow> None
      | Some (ref_name, s4) \<Rightarrow> (case expect '')'' (py_lstrip s4) of None \<Rightarrow> None
      | Some s5 \<Rightarrow> (case expect ''}}'' (py_lstrip s5) of None \<Rightarrow> None
      | Some s6 \<Rightarrow> Some (ref_name, s6)))))))"

lemma expect_length: "expect p s = Some r \<Longrightarrow> p \<noteq> [] \<Longrightarrow> length r < length s"
  by (cases s) (auto simp: expect_def starts_with_def split: if_splits)

lemma match_quoted_length: "match_quoted s = Some (n, r) \<Longrightarrow> length r < length s"
  by (auto simp: match_quoted_def split: list.splits if_splits)
    (metis length_Cons length_dropWhile_le less_Suc_eq_le Suc_lessD less_SucI order_less_le_trans)+

lemma lstrip_length: "length (py_lstrip s) \<le> length s"
  by (simp add: py_lstrip_def length_dropWhile_le)

lemma match_ref_length: "match_ref s = Some (n, r) \<Longrightarrow> length r < length s"
  unfolding match_ref_def
  by (auto split: option.splits prod.splits dest!: expect_length match_quoted_length)
    (meson lstrip_length order_less_le_trans order_less_trans)

text \<open>What \<^verbatim>\<open>sub\<close> and \<^verbatim>\<open>finditer\<close> see: characters that are copied, and the references between them.\<close>

datatype piece = Text char | Ref string

function ref_pieces :: "string \<Rightarrow> piece list" where
  "ref_pieces s =
     (case s of [] \<Rightarrow> []
      | c # cs \<Rightarrow> (case match_ref s of Some (n, rest) \<Rightarrow> Ref n # ref_pieces rest | None \<Rightarrow> Text c # ref_pieces cs))"
  by pat_completeness auto
termination
  by (relation "measure length") (auto dest: match_ref_length)

declare ref_pieces.simps [simp del]

fun ref_names_of :: "piece list \<Rightarrow> string list" where
  "ref_names_of [] = []"
| "ref_names_of (Text c # ps) = ref_names_of ps"
| "ref_names_of (Ref n # ps) = n # ref_names_of ps"

fun substitute_refs :: "(string \<times> string) list \<Rightarrow> piece list \<Rightarrow> load_error + string" where
  "substitute_refs registry [] = Inr []"
| "substitute_refs registry (Text c # ps) = map_sum (\<lambda>e. e) (\<lambda>s. c # s) (substitute_refs registry ps)"
| "substitute_refs registry (Ref n # ps) =
     (case map_of registry n of
        None \<Rightarrow> Inl (UnresolvedRefError n)
      | Some canonical \<Rightarrow> map_sum (\<lambda>e. e) (\<lambda>s. canonical @ s) (substitute_refs registry ps))"

definition resolve_refs :: "string \<Rightarrow> (string \<times> string) list \<Rightarrow> load_error + string" where
  "resolve_refs sql registry = substitute_refs registry (ref_pieces sql)"

fun dedup :: "string list \<Rightarrow> string list \<Rightarrow> string list" where
  "dedup seen [] = []"
| "dedup seen (n # ns) = (if n \<in> set seen then dedup seen ns else n # dedup (n # seen) ns)"

definition extract_ref_names :: "string \<Rightarrow> string list" where
  "extract_ref_names sql = dedup [] (ref_names_of (ref_pieces sql))"

definition register_model :: "(string \<times> string) list \<Rightarrow> string \<Rightarrow> (string \<times> string) list" where
  "register_model registry canonical =
     (let registry = dict_set registry canonical canonical
      in if CHR ''.'' \<in> set canonical then dict_set registry (after_last CHR ''.'' canonical) canonical else registry)"

definition build_model_registry :: "model_definition list \<Rightarrow> (string \<times> string) list" where
  "build_model_registry models = foldl register_model [] (map md_name models)"

subsection \<open>Files\<close>

definition header_text :: "header \<Rightarrow> string \<Rightarrow> string option" where
  "header_text header k = (case map_of header k of Some (HStr s) \<Rightarrow> Some s | _ \<Rightarrow> None)"

definition header_list :: "header \<Rightarrow> string \<Rightarrow> string list" where
  "header_list header k = (case map_of header k of Some (HList xs) \<Rightarrow> xs | _ \<Rightarrow> [])"

definition model_kind_of :: "string \<Rightarrow> load_error + model_kind" where
  "model_kind_of s =
     (case map_of [(''FULL_REFRESH'', FULL_REFRESH_KIND), (''INCREMENTAL_BY_TIME_RANGE'', INCREMENTAL_BY_TIME_RANGE),
        (''APPEND_ONLY'', APPEND_ONLY), (''MERGE_BY_KEY'', MERGE_BY_KEY)] s of
        Some k \<Rightarrow> Inr k | None \<Rightarrow> Inl (BadEnumValue s))"

definition materialization_of :: "string option \<Rightarrow> load_error + materialization" where
  "materialization_of x =
     (case x of
        None \<Rightarrow> Inr TABLE
      | Some s \<Rightarrow> (case map_of [(''TABLE'', TABLE), (''VIEW'', VIEW), (''MERGE'', MERGE), (''INSERT_OVERWRITE'', INSERT_OVERWRITE)] s of
                    Some m \<Rightarrow> Inr m | None \<Rightarrow> Inl (BadEnumValue s)))"

definition contract_mode_of :: "string option \<Rightarrow> load_error + schema_contract_mode" where
  "contract_mode_of x =
     (case x of
        None \<Rightarrow> Inr DISABLED
      | Some s \<Rightarrow> (case map_of [(''DISABLED'', DISABLED), (''WARN'', WARN), (''STRICT'', STRICT)] (py_upper s) of
                    Some m \<Rightarrow> Inr m | None \<Rightarrow> Inl (HeaderParseError ''contract_mode'')))"

definition parse_hook_sql :: "string \<Rightarrow> string list" where
  "parse_hook_sql raw =
     (if py_strip raw = [] then []
      else filter (\<lambda>line. py_strip line \<noteq> [])
        (py_split CHR 0x0A (py_replace [CHR 0x5C, CHR 0x5C] [CHR 0x5C] (py_replace [CHR 0x5C, CHR ''n''] [CHR 0x0A] raw))))"

definition ref_target :: "(string \<times> string) list \<Rightarrow> string \<Rightarrow> string" where
  "ref_target registry n = (case map_of registry n of Some c \<Rightarrow> c | None \<Rightarrow> n)"

text \<open>Building the \<^verbatim>\<open>ModelDefinition\<close>: the two enums first, then pydantic's checks.\<close>

definition build_definition ::
  "loader_env \<Rightarrow> string \<Rightarrow> string \<Rightarrow> header \<Rightarrow> string \<Rightarrow> string list \<Rightarrow> schema_contract_mode \<Rightarrow> load_error + model_definition" where
  "build_definition env path raw_sql header clean_sql referenced mode =
     (case model_kind_of (opt_or (header_text header ''kind'') []) of
        Inl e \<Rightarrow> Inl e
      | Inr kind \<Rightarrow>
          (case materialization_of (header_text header ''materialization'') of
             Inl e \<Rightarrow> Inl e
           | Inr mat \<Rightarrow>
               let n = opt_or (header_text header ''name'') []
               in if n = [] then Inl EmptyModelName
                  else map_sum ValidationError (\<lambda>m. m) (validate_kind_requirements
                    \<lparr>md_name = n, md_kind = kind, md_materialization = mat,
                     md_time_column = header_text header ''time_column'', md_unique_key = header_text header ''unique_key'',
                     md_partition_by = header_text header ''partition_by'',
                     md_incremental_strategy = header_text header ''incremental_strategy'',
                     md_owner = header_text header ''owner'', md_tags = header_list header ''tags'',
                     md_dependencies = header_list header ''dependencies'',
                     md_exposures = (case map_of header ''exposures'' of Some (HExposures xs) \<Rightarrow> xs | _ \<Rightarrow> []),
                     md_pre_hooks = parse_hook_sql (opt_or (header_text header ''pre_hook_sql'') []),
                     md_post_hooks = parse_hook_sql (opt_or (header_text header ''post_hook_sql'') []),
                     md_file_path = path, md_raw_sql = raw_sql, md_clean_sql = clean_sql,
                     md_content_hash = ld_sha env clean_sql, md_referenced_tables = referenced, md_output_columns = [],
                     md_contract_mode = mode,
                     md_contract_columns = (case map_of header ''contract_columns'' of Some (HColumns cs) \<Rightarrow> cs | _ \<Rightarrow> []),
                     md_tests = (case map_of header ''tests'' of Some (HTests ts) \<Rightarrow> ts | _ \<Rightarrow> [])\<rparr>)))"

definition parse_model_file ::
  "loader_env \<Rightarrow> string \<times> string option \<Rightarrow> (string \<times> string) list option \<Rightarrow> load_error + model_definition" where
  "parse_model_file env file registry =
     (case snd file of
        None \<Rightarrow> Inl (ModelLoadError (fst file))
      | Some raw_sql \<Rightarrow>
          (case parse_yaml_header env raw_sql of
             Inl e \<Rightarrow> Inl e
           | Inr header \<Rightarrow>
               let sql_body = extract_sql_body raw_sql; ref_names = extract_ref_names sql_body
               in case (case registry of Some reg \<Rightarrow> resolve_refs sql_body reg | None \<Rightarrow> Inr sql_body) of
                    Inl e \<Rightarrow> Inl e
                  | Inr clean_sql \<Rightarrow>
                      (case contract_mode_of (header_text header ''contract_mode'') of
                         Inl e \<Rightarrow> Inl e
                       | Inr mode \<Rightarrow>
                           build_definition env (fst file) raw_sql header clean_sql
                             (case registry of Some reg \<Rightarrow> map (ref_target reg) ref_names | None \<Rightarrow> ref_names) mode)))"

definition is_skipped :: "load_error \<Rightarrow> bool" where
  "is_skipped e \<longleftrightarrow> (case e of HeaderParseError _ \<Rightarrow> True | ModelLoadError _ \<Rightarrow> True | _ \<Rightarrow> False)"

text \<open>One pass over the files: the two expected exceptions skip the file, any other one ends the load.\<close>

fun load_pass ::
  "loader_env \<Rightarrow> (string \<times> string) list option \<Rightarrow> (string \<times> string option) list \<Rightarrow> load_error + model_definition list" where
  "load_pass env registry [] = Inr []"
| "load_pass env registry (file # files) =
     (case parse_model_file env file registry of
        Inl e \<Rightarrow> if is_skipped e then load_pass env registry files else Inl e
      | Inr m \<Rightarrow> (case load_pass env registry files of Inl e \<Rightarrow> Inl e | Inr ms \<Rightarrow> Inr (m # ms)))"

definition load_models_from_directory ::
  "loader_env \<Rightarrow> (string \<times> string option) list \<Rightarrow> load_error + model_definition list" where
  "load_models_from_directory env files =
     (case load_pass env None files of
        Inl e \<Rightarrow> Inl e
      | Inr header_models \<Rightarrow>
          (case load_pass env (Some (build_model_registry header_models)) files of
             Inl e \<Rightarrow> Inl e | Inr models \<Rightarrow> Inr (sort_key md_name models)))"

end
