(* ===== verification/Loader_Facts.thy ===== *)
theory Loader_Facts
  imports Loader
begin

text \<open>
  What the loader guarantees: contract columns are read back as they were written, the header never
  reaches the SQL body, \<^verbatim>\<open>ref\<close> macros are replaced and nothing else is, the registry answers with the model
  registered last, and a directory that loads has no dangling reference.
\<close>

subsection \<open>Lines\<close>

lemma splitlines_loop_first:
  "s \<noteq> [] \<or> line \<noteq> [] \<Longrightarrow> \<exists>rest. splitlines_loop line s = (rev line @ takeWhile (\<lambda>c. \<not> is_line_break c) s) # rest"
proof (induction line s rule: splitlines_loop.induct)
  case (3 line c d cs)
  have "is_line_break CHR 0x0D" by (simp add: is_line_break_def)
  then show ?case using 3 by auto
qed auto

lemma splitlines_first: "s \<noteq> [] \<Longrightarrow> \<exists>rest. py_splitlines s = takeWhile (\<lambda>c. \<not> is_line_break c) s # rest"
  using splitlines_loop_first[of s "[]"] by (simp add: py_splitlines_def)

lemma splitlines_Nil [simp]: "py_splitlines [] = []"
  by (simp add: py_splitlines_def)

definition one_line :: "string \<Rightarrow> bool" where
  "one_line l \<longleftrightarrow> (\<forall>c\<in>set l. \<not> is_line_break c)"

lemma one_line_Cons: "one_line (c # l) \<longleftrightarrow> \<not> is_line_break c \<and> one_line l"
  by (simp add: one_line_def)

lemma one_line_rev [simp]: "one_line (rev l) = one_line l"
  by (simp add: one_line_def)

lemma splitlines_one_line: "one_line line \<Longrightarrow> list_all one_line (splitlines_loop line s)"
proof (induction line s rule: splitlines_loop.induct)
  case (2 line c)
  then show ?case by (simp add: one_line_def)
next
  case (3 line c d cs)
  have nil: "one_line []" by (simp add: one_line_def)
  consider (crlf) "c = CHR 0x0D \<and> d = CHR 0x0A" | (brk) "\<not> (c = CHR 0x0D \<and> d = CHR 0x0A)" "is_line_break c"
    | (char) "\<not> (c = CHR 0x0D \<and> d = CHR 0x0A)" "\<not> is_line_break c" by blast
  then show ?case
  proof cases
    case crlf
    from "3.IH"(1)[OF crlf nil] "3.prems" crlf show ?thesis
      by (simp only: splitlines_loop.simps if_True list.pred_inject one_line_rev simp_thms)
  next
    case brk
    from "3.IH"(2)[OF brk nil] "3.prems" brk show ?thesis
      by (simp only: splitlines_loop.simps if_True if_False list.pred_inject one_line_rev simp_thms)
  next
    case char
    have "one_line (c # line)" using char(2) "3.prems" by (simp add: one_line_Cons)
    from "3.IH"(3)[OF char this] char show ?thesis by (simp only: splitlines_loop.simps if_False)
  qed
qed simp

lemma line_break_space: "is_line_break c \<Longrightarrow> is_space c"
  by (auto simp: is_line_break_def is_space_def Let_def)

text \<open>The first line of a text that starts with a visible character, when the text itself is the stripped rest of a file.\<close>

lemma strip_append_first_line:
  assumes "py_strip l \<noteq> []" "\<forall>c\<in>set l. \<not> is_line_break c" "rest = [] \<or> is_line_break (hd rest)"
  shows "py_strip (takeWhile (\<lambda>c. \<not> is_line_break c) (py_strip (l @ rest))) = py_strip l"
proof -
  let ?nb = "\<lambda>c. \<not> is_line_break c"
  have "dropWhile is_space l \<noteq> []" using assms(1) unfolding py_strip_def by (metis dropWhile.simps(1) rev.simps(1))
  then obtain l' where l': "dropWhile is_space l = l'" "l' \<noteq> []" by blast
  have nb: "\<forall>c\<in>set l'. ?nb c" using assms(2) l'(1) by (metis set_dropWhileD)
  have drop: "dropWhile is_space (l @ rest) = l' @ rest"
    using l' by (metis dropWhile_append3 dropWhile_append1 dropWhile_eq_Nil_conv)
  define r where "r = rev (dropWhile is_space (rev rest))"
  show ?thesis
  proof (cases "r = []")
    case True
    then have "dropWhile is_space (rev rest @ rev l') = dropWhile is_space (rev l')"
      unfolding r_def by (subst dropWhile_append2) simp_all
    then have "py_strip (l @ rest) = py_strip l" using drop l'(1) by (simp add: py_strip_def)
    moreover have "\<forall>c\<in>set (py_strip l). ?nb c"
      using nb l'(1) unfolding py_strip_def by (metis set_dropWhileD set_rev)
    ultimately show ?thesis by (simp add: takeWhile_eq_all_conv[THEN iffD2])
  next
    case False
    then obtain x where "x \<in> set (rev rest)" "\<not> is_space x" by (auto simp: r_def)
    then have "dropWhile is_space (rev rest @ rev l') = dropWhile is_space (rev rest) @ rev l'" by (rule dropWhile_append1)
    then have "py_strip (l @ rest) = l' @ r" unfolding py_strip_def drop rev_append r_def by (simp only: rev_append rev_rev_ident)
    moreover have "takeWhile ?nb (l' @ r) = l'"
    proof -
      obtain post where "rev rest = post @ dropWhile is_space (rev rest)" by (metis takeWhile_dropWhile_id)
      then have "rest = r @ rev post" unfolding r_def by (metis rev_append rev_rev_ident)
      then have "hd r = hd rest" using False by simp
      then have "\<not> ?nb (hd r)" using assms(3) False \<open>rest = r @ rev post\<close> by auto
      then show ?thesis using nb False by (cases r) (auto simp: takeWhile_append takeWhile_eq_all_conv)
    qed
    moreover have "dropWhile is_space l' = l'" using l' by (metis dropWhile_idem)
    ultimately show ?thesis using l' by (simp add: py_strip_def)
  qed
qed

text \<open>The SQL body has no header: parsing what the loader keeps as the body of any file, as if it were a file, finds none of
  the required fields.\<close>

theorem sql_body_has_no_header:
  "parse_yaml_header env (extract_sql_body s) = Inl (HeaderParseError ''required fields'')"
proof -
  have noheader: "parse_yaml_header env b = Inl (HeaderParseError ''required fields'')"
    if "b = [] \<or> \<not> is_header_line (takeWhile (\<lambda>c. \<not> is_line_break c) b)" for b
  proof -
    have "parse_header_lines env (py_splitlines b) [] = Inr []"
    proof (cases "b = []")
      case False
      with splitlines_first[OF False] that show ?thesis by auto
    qed simp
    then show ?thesis by (simp add: parse_yaml_header_def dict_keys_def required_fields_def)
  qed
  show ?thesis
  proof (cases "dropWhile is_header_line (py_splitlines s)")
    case Nil
    then show ?thesis unfolding extract_sql_body_def by (intro noheader) (simp add: Nil py_strip_def)
  next
    case (Cons l ls)
    then have l: "\<not> is_header_line l" by (metis dropWhile_eq_Cons_conv)
    have "l \<in> set (py_splitlines s)" using Cons by (metis list.set_intros(1) set_dropWhileD)
    then have nb: "\<forall>c\<in>set l. \<not> is_line_break c"
      using splitlines_one_line[of "[]" s] by (auto simp: py_splitlines_def list_all_iff one_line_def)
    obtain rest where rest: "py_join [CHR 0x0A] (l # ls) = l @ rest" "rest = [] \<or> is_line_break (hd rest)"
      by (cases ls) (auto simp: is_line_break_def)
    have "py_strip l \<noteq> []" using l by (simp add: is_header_line_def)
    from strip_append_first_line[OF this nb rest(2)] l show ?thesis
      by (intro noheader) (simp add: extract_sql_body_def Cons rest(1) is_header_line_def)
  qed
qed

subsection \<open>The registry and references\<close>

text \<open>A model answers to its canonical name and to the part after its last dot.\<close>

definition answers_to :: "string \<Rightarrow> string \<Rightarrow> bool" where
  "answers_to canonical k \<longleftrightarrow> canonical = k \<or> (CHR ''.'' \<in> set canonical \<and> after_last CHR ''.'' canonical = k)"

lemma map_of_register_model:
  "map_of (register_model registry c) k = (if answers_to c k then Some c else map_of registry k)"
  by (auto simp: register_model_def Let_def answers_to_def)

text \<open>Looking a name up in the registry gives the last loaded model that answers to it; a model's own full name can thus be
  taken over by the short name of a later one.\<close>

theorem registry_last_answering:
  "map_of (build_model_registry models) k =
     (case filter (\<lambda>m. answers_to (md_name m) k) (rev models) of [] \<Rightarrow> None | m # _ \<Rightarrow> Some (md_name m))"
proof (induction models rule: rev_induct)
  case Nil
  then show ?case by (simp add: build_model_registry_def)
next
  case (snoc m models)
  have "map_of (build_model_registry (models @ [m])) k =
      (if answers_to (md_name m) k then Some (md_name m) else map_of (build_model_registry models) k)"
    by (simp add: build_model_registry_def map_of_register_model)
  with snoc.IH show ?case by simp
qed

lemma registry_values: "map_of (build_model_registry models) k = Some c \<Longrightarrow> c \<in> md_name ` set models"
  using registry_last_answering[of models k] 
  by (auto split: list.splits dest: arg_cong[where f = set] simp: filter_eq_Cons_iff)

lemma dedup_set: "set (dedup seen ns) = set ns - set seen"
  by (induction seen ns rule: dedup.induct) auto

lemma substitute_refs_ok:
  "(\<exists>s. substitute_refs reg ps = Inr s) \<longleftrightarrow> set (ref_names_of ps) \<subseteq> dom (map_of reg)"
proof (induction ps rule: ref_names_of.induct)
  case (2 c ps)
  then show ?case by (cases "substitute_refs reg ps") auto
next
  case (3 n ps)
  then show ?case by (cases "substitute_refs reg ps") (auto split: option.splits)
qed simp

lemma resolve_refs_ok: "(\<exists>s. resolve_refs sql reg = Inr s) \<longleftrightarrow> set (extract_ref_names sql) \<subseteq> dom (map_of reg)"
  by (simp add: resolve_refs_def extract_ref_names_def substitute_refs_ok dedup_set)

subsection \<open>Parsing one file, with and without a registry\<close>

lemma build_definition_fields:
  assumes "build_definition env path raw header sql refs mode = Inr m"
  shows "md_name m = opt_or (header_text header ''name'') []" "md_referenced_tables m = refs"
    "md_clean_sql m = sql" "md_content_hash m = ld_sha env sql" "md_file_path m = path" "md_raw_sql m = raw"
  using assms
  by (auto simp: build_definition_def Let_def validate_kind_requirements_def split: sum.splits if_splits)

lemma isl_validate [simp]:
  "isl (validate_kind_requirements m) \<longleftrightarrow> (md_kind m = INCREMENTAL_BY_TIME_RANGE \<and> falsy (md_time_column m)) \<or>
     (md_kind m = MERGE_BY_KEY \<and> falsy (md_unique_key m))"
  by (simp add: validate_kind_requirements_def)

lemma build_definition_cong:
  "isl (build_definition env path raw header sql refs mode) = isl (build_definition env path raw header sql2 refs2 mode)"
proof (cases "model_kind_of (opt_or (header_text header ''kind'') [])")
  case (Inr kind)
  note kind = this
  show ?thesis
  proof (cases "materialization_of (header_text header ''materialization'')")
    case (Inr mat)
    show ?thesis
      by (cases "opt_or (header_text header ''name'') [] = []")
        (simp_all only: build_definition_def kind Inr sum.case Let_def if_True if_False isl_map_sum isl_validate
          model_definition.select_convs simp_thms)
  qed (simp only: build_definition_def kind sum.case)
qed (simp only: build_definition_def sum.case)

lemma build_definition_not_skipped:
  assumes "build_definition env path raw header sql refs mode = Inl e"
  shows "\<not> is_skipped e"
proof (cases "model_kind_of (opt_or (header_text header ''kind'') [])")
  case (Inl e')
  with assms have "e = e'" by (simp only: build_definition_def sum.case sum.inject)
  with Inl show ?thesis by (auto simp: model_kind_of_def is_skipped_def split: option.splits)
next
  case (Inr kind)
  note kind = this
  show ?thesis
  proof (cases "materialization_of (header_text header ''materialization'')")
    case (Inl e')
    with assms kind have "e = e'" by (simp only: build_definition_def sum.case sum.inject)
    with Inl show ?thesis by (auto simp: materialization_of_def is_skipped_def split: option.splits)
  next
    case (Inr mat)
    have "\<exists>m. Inl e = (if opt_or (header_text header ''name'') [] = [] then Inl EmptyModelName
        else map_sum ValidationError (\<lambda>m. m) (validate_kind_requirements m))"
      by (rule exI) (rule assms[unfolded build_definition_def kind Inr sum.case Let_def, symmetric])
    then obtain m where "Inl e = (if opt_or (header_text header ''name'') [] = [] then Inl EmptyModelName
        else map_sum ValidationError (\<lambda>m. m) (validate_kind_requirements m))" ..
    then show ?thesis
      by (cases "validate_kind_requirements m") (auto simp: is_skipped_def split: if_splits)
  qed
qed

lemma contract_mode_error: "contract_mode_of x = Inl e \<Longrightarrow> is_skipped e"
  by (auto simp: contract_mode_of_def is_skipped_def split: option.splits)

lemma resolve_refs_error: "resolve_refs sql reg = Inl e \<Longrightarrow> \<not> is_skipped e"
proof -
  have "substitute_refs reg ps = Inl e \<Longrightarrow> \<not> is_skipped e" for ps
  proof (induction ps rule: ref_names_of.induct)
    case (2 c ps)
    then show ?case by (cases "substitute_refs reg ps") auto
  next
    case (3 n ps)
    then show ?case by (cases "substitute_refs reg ps") (auto simp: is_skipped_def split: option.splits)
  qed simp
  then show "resolve_refs sql reg = Inl e \<Longrightarrow> \<not> is_skipped e" by (simp add: resolve_refs_def)
qed

text \<open>When the second pass does not abort at a file, it loads it exactly if the first pass did, under the same name.\<close>

lemma second_pass_file:
  assumes "\<And>e. parse_model_file env file (Some reg) = Inl e \<Longrightarrow> is_skipped e"
  shows "(\<exists>h m. parse_model_file env file None = Inr h \<and> parse_model_file env file (Some reg) = Inr m \<and> md_name h = md_name m \<and>
      set (md_referenced_tables m) \<subseteq> ran (map_of reg)) \<or>
    (\<exists>e e'. parse_model_file env file None = Inl e \<and> parse_model_file env file (Some reg) = Inl e')"
proof (cases "snd file")
  case None
  then show ?thesis by (simp add: parse_model_file_def)
next
  case (Some raw)
  note raw = this
  show ?thesis
  proof (cases "parse_yaml_header env raw")
    case (Inl e)
    with raw show ?thesis by (simp add: parse_model_file_def)
  next
    case (Inr header)
    note head = this
    let ?body = "extract_sql_body raw" and ?refs = "extract_ref_names (extract_sql_body raw)"
    show ?thesis
    proof (cases "resolve_refs ?body reg")
      case (Inl e)
      with raw head assms[of e] resolve_refs_error[OF Inl] show ?thesis by (simp add: parse_model_file_def)
    next
      case (Inr clean)
      note clean = this
      then have "set ?refs \<subseteq> dom (map_of reg)" using resolve_refs_ok by blast
      then have ran: "set (map (ref_target reg) ?refs) \<subseteq> ran (map_of reg)"
        by (auto simp: ref_target_def ran_def split: option.splits)
      show ?thesis
      proof (cases "contract_mode_of (header_text header ''contract_mode'')")
        case (Inl e)
        with raw head clean show ?thesis by (simp add: parse_model_file_def Let_def)
      next
        case (Inr mode)
        have first: "parse_model_file env file None = build_definition env (fst file) raw header ?body ?refs mode"
          using raw head Inr by (simp add: parse_model_file_def Let_def)
        have second: "parse_model_file env file (Some reg) =
            build_definition env (fst file) raw header clean (map (ref_target reg) ?refs) mode"
          using raw head Inr clean by (simp add: parse_model_file_def Let_def)
        show ?thesis
        proof (cases "build_definition env (fst file) raw header clean (map (ref_target reg) ?refs) mode")
          case (Inl e)
          with second assms[of e] build_definition_not_skipped[OF Inl] show ?thesis by simp
        next
          case (Inr m)
          then obtain h where h: "build_definition env (fst file) raw header ?body ?refs mode = Inr h"
            using build_definition_cong[of env "fst file" raw header ?body ?refs mode clean "map (ref_target reg) ?refs"]
            by (cases "build_definition env (fst file) raw header ?body ?refs mode") simp_all
          then show ?thesis using first second Inr ran build_definition_fields(1,2)[OF h] build_definition_fields(1,2)[OF Inr] by simp
        qed
      qed
    qed
  qed
qed

lemma load_passes:
  assumes "load_pass env None files = Inr hs" "load_pass env (Some reg) files = Inr ms"
  shows "map md_name ms = map md_name hs \<and> (\<forall>m\<in>set ms. set (md_referenced_tables m) \<subseteq> ran (map_of reg))"
  using assms
proof (induction files arbitrary: hs ms)
  case (Cons f files)
  have "is_skipped e" if "parse_model_file env f (Some reg) = Inl e" for e
    using Cons.prems(2) that by (auto split: if_splits)
  from second_pass_file[OF this] consider
      (loaded) h m where "parse_model_file env f None = Inr h" "parse_model_file env f (Some reg) = Inr m"
        "md_name h = md_name m" "set (md_referenced_tables m) \<subseteq> ran (map_of reg)"
    | (skipped) e e' where "parse_model_file env f None = Inl e" "parse_model_file env f (Some reg) = Inl e'" by blast
  then show ?case
  proof cases
    case loaded
    then obtain hs' ms' where "load_pass env None files = Inr hs'" "load_pass env (Some reg) files = Inr ms'"
        "hs = h # hs'" "ms = m # ms'"
      using Cons.prems by (auto split: sum.splits)
    with Cons.IH[of hs' ms'] loaded show ?thesis by simp
  next
    case skipped
    then have "load_pass env None files = Inr hs" "load_pass env (Some reg) files = Inr ms"
      using Cons.prems by (auto split: if_splits)
    then show ?thesis by (rule Cons.IH)
  qed
qed simp

text \<open>C7: A directory that loads has no dangling reference: the models come sorted by name and every table a model references is the
  name of a model that was loaded.\<close>

theorem loaded_models_closed:
  assumes "load_models_from_directory env files = Inr ms"
  shows "sorted (map md_name ms) \<and> (\<forall>m\<in>set ms. set (md_referenced_tables m) \<subseteq> md_name ` set ms)"
proof -
  from assms obtain hs ms0 where l: "load_pass env None files = Inr hs"
      "load_pass env (Some (build_model_registry hs)) files = Inr ms0" "ms = sort_key md_name ms0"
    by (auto simp: load_models_from_directory_def split: sum.splits)
  from load_passes[OF l(1,2)] have names: "map md_name ms0 = map md_name hs"
      and refs: "\<forall>m\<in>set ms0. set (md_referenced_tables m) \<subseteq> ran (map_of (build_model_registry hs))" by auto
  have "ran (map_of (build_model_registry hs)) \<subseteq> md_name ` set hs"
    using registry_values by (auto simp: ran_def)
  also have "md_name ` set hs = md_name ` set ms0" using names by (metis set_map)
  finally show ?thesis using refs l(3) by (auto simp del: set_map)
qed

definition demo_loader :: loader_env where
  "demo_loader = \<lparr>ld_json_loads = (\<lambda>s. None), ld_json_str = (\<lambda>j. []), ld_sha = (\<lambda>s. s)\<rparr>"

definition demo_file :: "string \<Rightarrow> string \<Rightarrow> string \<times> string option" where
  "demo_file n body = (n @ ''.sql'', Some (''-- name: '' @ n @ [CHR 0x0A] @ ''-- kind: FULL_REFRESH'' @ [CHR 0x0A] @ body))"

definition demo_files :: "(string \<times> string option) list" where
  "demo_files = [demo_file ''b'' (''select * from {{ ref('' @ [CHR 0x22] @ ''a'' @ [CHR 0x22] @ '') }}''),
     demo_file ''x.a'' ''select 1'']"

lemma demo_load:
  "\<exists>ms. load_models_from_directory demo_loader demo_files = Inr ms \<and>
     map (\<lambda>m. (md_name m, md_referenced_tables m, md_clean_sql m)) ms =
       [(''b'', [''x.a''], ''select * from x.a''), (''x.a'', [], ''select 1'')]"
proof -
  have "case load_models_from_directory demo_loader demo_files of Inl e \<Rightarrow> False
    | Inr ms \<Rightarrow> map (\<lambda>m. (md_name m, md_referenced_tables m, md_clean_sql m)) ms =
       [(''b'', [''x.a''], ''select * from x.a''), (''x.a'', [], ''select 1'')]" by code_simp
  from case_Inr[OF this] show ?thesis .
qed

lemma demo_load_names:
  "\<exists>ms. load_models_from_directory demo_loader demo_files = Inr ms \<and> map md_name ms = [''b'', ''x.a''] \<and>
     map md_referenced_tables ms = [[''x.a''], []] \<and>
     list_all (\<lambda>m. isl (parse_yaml_header demo_loader (md_clean_sql m))) ms"
proof -
  have "case load_models_from_directory demo_loader demo_files of Inl e \<Rightarrow> False
    | Inr ms \<Rightarrow> map md_name ms = [''b'', ''x.a''] \<and> map md_referenced_tables ms = [[''x.a''], []] \<and>
        list_all (\<lambda>m. isl (parse_yaml_header demo_loader (md_clean_sql m))) ms" by code_simp
  from case_Inr[OF this] show ?thesis .
qed

theorem loaded_models_closed_witness:
  "\<exists>ms. load_models_from_directory demo_loader demo_files = Inr ms \<and> length ms = 2 \<and> sorted (map md_name ms) \<and>
     list_all (\<lambda>m. set (md_referenced_tables m) \<subseteq> md_name ` set ms) ms"
proof -
  from demo_load obtain ms where ms: "load_models_from_directory demo_loader demo_files = Inr ms \<and>
     map (\<lambda>m. (md_name m, md_referenced_tables m, md_clean_sql m)) ms =
       [(''b'', [''x.a''], ''select * from x.a''), (''x.a'', [], ''select 1'')]" ..
  have "length ms = 2" using arg_cong[OF conjunct2[OF ms], where f = length] by (simp only: length_map list.size)
  with loaded_models_closed[OF conjunct1[OF ms]] conjunct1[OF ms] show ?thesis by (auto simp: list_all_iff)
qed

subsection \<open>Column contracts round trip\<close>

text \<open>A contract as the header spells it, and the contracts that can be spelled.\<close>

definition render_contract :: "column_contract \<Rightarrow> string" where
  "render_contract c = cc_name c @ '':'' @ cc_data_type c @ (if cc_nullable c then [] else '':NOT_NULL'')"

definition plain_text :: "string \<Rightarrow> bool" where
  "plain_text s \<longleftrightarrow> s \<noteq> [] \<and> list_all (\<lambda>c. c \<noteq> CHR '','' \<and> c \<noteq> CHR '':'') s \<and> \<not> is_space (hd s) \<and> \<not> is_space (last s)"

definition spelled :: "column_contract \<Rightarrow> bool" where
  "spelled c \<longleftrightarrow> plain_text (cc_name c) \<and> plain_text (cc_data_type c) \<and> py_upper (cc_data_type c) = cc_data_type c"

lemma plain_text_strip: "plain_text s \<Longrightarrow> py_strip s = s"
  by (simp add: plain_text_def py_strip_id)

lemma plain_text_chars: "plain_text s \<Longrightarrow> CHR '','' \<notin> set s" "plain_text s \<Longrightarrow> CHR '':'' \<notin> set s"
  by (auto simp: plain_text_def list_all_iff)

lemma render_contract_strip: "spelled c \<Longrightarrow> py_strip (render_contract c) = render_contract c \<and> render_contract c \<noteq> []"
proof -
  assume c: "spelled c"
  then have ne: "cc_name c \<noteq> []" "cc_data_type c \<noteq> []" and sp: "\<not> is_space (hd (cc_name c))" "\<not> is_space (last (cc_data_type c))"
    by (simp_all add: spelled_def plain_text_def)
  have "\<not> is_space CHR ''L''" by code_simp
  then have "\<not> is_space (last (render_contract c))" using ne sp by (simp add: render_contract_def last_append)
  moreover have "\<not> is_space (hd (render_contract c))" using ne sp by (simp add: render_contract_def)
  ultimately show ?thesis using ne by (simp add: py_strip_id) (simp add: render_contract_def)
qed

lemma parse_rendered_item: "spelled c \<Longrightarrow> parse_contract_item (render_contract c) = Inr c"
proof -
  assume c: "spelled c"
  then have n: "py_strip (cc_name c) = cc_name c" "CHR '':'' \<notin> set (cc_name c)" "cc_name c \<noteq> []"
    and t: "py_strip (cc_data_type c) = cc_data_type c" "CHR '':'' \<notin> set (cc_data_type c)" "cc_data_type c \<noteq> []"
      "py_upper (cc_data_type c) = cc_data_type c"
    by (auto simp: spelled_def plain_text_strip plain_text_chars) (simp_all add: plain_text_def)
  have mod: "py_strip ''NOT_NULL'' = ''NOT_NULL''" "py_upper ''NOT_NULL'' = ''NOT_NULL''" by code_simp+
  show ?thesis
  proof (cases "cc_nullable c")
    case True
    then have "py_split CHR '':'' (render_contract c) = [cc_name c, cc_data_type c]"
      using n t by (simp add: render_contract_def py_split_append py_split_none)
    with n t True show ?thesis by (simp add: parse_contract_item_def Let_def)
  next
    case False
    then have "py_split CHR '':'' (render_contract c) = [cc_name c, cc_data_type c, ''NOT_NULL'']"
      using n t by (simp add: render_contract_def py_split_append)
    with n t False show ?thesis unfolding parse_contract_item_def by (simp only: list.case Let_def mod) simp
  qed
qed

lemma parse_rendered_items:
  "list_all spelled cs \<Longrightarrow> parse_contract_items (map render_contract cs) = Inr cs"
  by (induction cs) (simp_all add: render_contract_strip parse_rendered_item)

text \<open>Column contracts are read back as they were written: parsing the comma-separated spelling of any list of contracts whose names
  and types hold no separator gives the list itself.\<close>

theorem contract_columns_roundtrip:
  assumes "list_all spelled cs"
  shows "parse_contract_columns (py_join '','' (map render_contract cs)) = Inr cs"
proof (cases "cs = []")
  case True
  then show ?thesis by (simp add: parse_contract_columns_def py_strip_def)
next
  case False
  have "CHR '','' \<notin> set (render_contract c)" if "c \<in> set cs" for c
    using assms that plain_text_chars by (auto simp: list_all_iff spelled_def render_contract_def)
  then have split: "py_split CHR '','' (py_join '','' (map render_contract cs)) = map render_contract cs"
    using False by (intro py_split_join) auto
  have "py_strip (py_join '','' (map render_contract cs)) \<noteq> []"
  proof -
    obtain c rest where cs: "cs = c # rest" using False by (cases cs) auto
    then obtain x where x: "py_join '','' (map render_contract cs) = render_contract c @ x"
      by (cases rest) auto
    have "cc_name c \<noteq> []" "\<not> is_space (hd (cc_name c))" using assms cs by (simp_all add: spelled_def plain_text_def)
    then have "hd (render_contract c @ x) \<in> set (render_contract c @ x)" "\<not> is_space (hd (render_contract c @ x))"
      by (simp_all add: render_contract_def)
    then have "\<exists>ch\<in>set (render_contract c @ x). \<not> is_space ch" by blast
    then have "dropWhile is_space (render_contract c @ x) \<noteq> []" by (simp only: dropWhile_eq_Nil_conv) blast
    from hd_dropWhile[OF this] this have "\<exists>ch\<in>set (rev (dropWhile is_space (render_contract c @ x))). \<not> is_space ch"
      by (metis hd_in_set set_rev)
    then show ?thesis unfolding x py_strip_def by (simp only: rev_is_Nil_conv dropWhile_eq_Nil_conv) blast
  qed
  then show ?thesis by (simp add: parse_contract_columns_def split parse_rendered_items[OF assms])
qed

theorem contract_columns_roundtrip_witness:
  "parse_contract_columns ''id:INT:NOT_NULL,name:STRING'' =
     Inr [\<lparr>cc_name = ''id'', cc_data_type = ''INT'', cc_nullable = False\<rparr>, \<lparr>cc_name = ''name'', cc_data_type = ''STRING'', cc_nullable = True\<rparr>]"
proof -
  let ?cs = "[\<lparr>cc_name = ''id'', cc_data_type = ''INT'', cc_nullable = False\<rparr>, \<lparr>cc_name = ''name'', cc_data_type = ''STRING'', cc_nullable = True\<rparr>]"
  have "list_all spelled ?cs" by code_simp
  from contract_columns_roundtrip[OF this] show ?thesis by (simp add: render_contract_def)
qed

subsection \<open>Replacing the macro\<close>

lemma expect_append [simp]: "expect p (p @ s) = Some s"
  by (simp add: expect_def starts_with_def)

lemma lstrip_append: "list_all is_space w \<Longrightarrow> s \<noteq> [] \<Longrightarrow> \<not> is_space (hd s) \<Longrightarrow> py_lstrip (w @ s) = s"
  by (induction w) (auto simp: py_lstrip_def dropWhile_eq_self_iff neq_Nil_conv)

lemma match_quoted_append:
  "q = CHR 0x27 \<or> q = CHR 0x22 \<Longrightarrow> n \<noteq> [] \<Longrightarrow> q \<notin> set n \<Longrightarrow> match_quoted (q # n @ q # s) = Some (n, s)"
proof -
  assume q: "q = CHR 0x27 \<or> q = CHR 0x22" and n: "n \<noteq> []" "q \<notin> set n"
  have all: "\<And>c. c \<in> set n \<Longrightarrow> c \<noteq> q" using n(2) by blast
  have "dropWhile (\<lambda>c. c \<noteq> q) (n @ q # s) = q # s" by (subst dropWhile_append2) (auto dest: all)
  moreover have "takeWhile (\<lambda>c. c \<noteq> q) (n @ q # s) = n" by (subst takeWhile_append2) (auto dest: all)
  ultimately show ?thesis using q n(1) by (auto simp: match_quoted_def)
qed

definition ref_macro :: "string list \<Rightarrow> char \<Rightarrow> string \<Rightarrow> string" where
  "ref_macro ws q n = ''{{'' @ ws ! 0 @ ''ref'' @ ws ! 1 @ ''('' @ ws ! 2 @ (q # n @ [q]) @ ws ! 3 @ '')'' @ ws ! 4 @ ''}}''"

lemma match_ref_macro:
  assumes "length ws = 5" "list_all (list_all is_space) ws" "q = CHR 0x27 \<or> q = CHR 0x22" "n \<noteq> []" "q \<notin> set n"
  shows "match_ref (ref_macro ws q n @ s) = Some (n, s)"
proof -
  have w: "list_all is_space (ws ! 0)" "list_all is_space (ws ! 1)" "list_all is_space (ws ! 2)" "list_all is_space (ws ! 3)"
    "list_all is_space (ws ! 4)" using assms(1,2) by (simp_all add: list_all_length)
  have vis: "\<not> is_space CHR ''r''" "\<not> is_space CHR ''(''" "\<not> is_space CHR '')''" "\<not> is_space CHR ''}''" "\<not> is_space q"
    using assms(3) by (auto simp: is_space_def)
  let ?rest_e = "ws ! 4 @ ''}}'' @ s" let ?rest_d = "ws ! 3 @ '')'' @ ?rest_e"
  let ?rest_c = "ws ! 2 @ q # n @ q # ?rest_d" let ?rest_b = "ws ! 1 @ ''('' @ ?rest_c" let ?rest_a = "ws ! 0 @ ''ref'' @ ?rest_b"
  have macro: "ref_macro ws q n @ s = ''{{'' @ ?rest_a" by (simp add: ref_macro_def)
  have strips: "py_lstrip ?rest_a = ''ref'' @ ?rest_b" "py_lstrip ?rest_b = ''('' @ ?rest_c" "py_lstrip ?rest_c = q # n @ q # ?rest_d"
    "py_lstrip ?rest_d = '')'' @ ?rest_e" "py_lstrip ?rest_e = ''}}'' @ s"
    by (intro lstrip_append w; simp add: vis)+
  have "match_quoted (q # n @ q # ?rest_d) = Some (n, ?rest_d)" by (rule match_quoted_append[OF assms(3-5)])
  then show ?thesis by (simp only: match_ref_def macro expect_append option.case strips prod.case)
qed

lemma ref_pieces_text: "CHR 0x7B \<notin> set a \<Longrightarrow> ref_pieces (a @ s) = map Text a @ ref_pieces s"
proof (induction a)
  case (Cons c a)
  have "expect ''{{'' (c # a @ s) = None" using Cons.prems by (auto simp: expect_def starts_with_def)
  then have "match_ref (c # a @ s) = None" by (simp add: match_ref_def)
  with Cons show ?case by (subst ref_pieces.simps) simp
qed simp

lemma substitute_text: "substitute_refs reg (map Text a @ ps) = map_sum (\<lambda>e. e) (\<lambda>s. a @ s) (substitute_refs reg ps)"
  by (induction a) (auto simp: map_sum.compositionality comp_def map_sum.identity[unfolded id_def])

text \<open>A \<open>ref\<close> macro, with either quote and any blanks the pattern allows, is replaced by the canonical name of the model it names and the
  text before it is kept; the first macro that names no model is the error.\<close>

theorem resolve_refs_macro:
  assumes "length ws = 5" "list_all (list_all is_space) ws" "q = CHR 0x27 \<or> q = CHR 0x22" "n \<noteq> []" "q \<notin> set n"
    and "CHR 0x7B \<notin> set a"
  shows "resolve_refs (a @ ref_macro ws q n @ b) reg =
    (case map_of reg n of
       None \<Rightarrow> Inl (UnresolvedRefError n)
     | Some canonical \<Rightarrow> map_sum (\<lambda>e. e) (\<lambda>s. a @ canonical @ s) (resolve_refs b reg))"
proof -
  have "ref_macro ws q n @ b \<noteq> []" by (simp add: ref_macro_def)
  then obtain c cs where c: "ref_macro ws q n @ b = c # cs" by (cases "ref_macro ws q n @ b") simp_all
  then have "ref_pieces (ref_macro ws q n @ b) = Ref n # ref_pieces b"
    using match_ref_macro[OF assms(1-5), of b] by (subst ref_pieces.simps) simp
  then show ?thesis
    by (auto simp: resolve_refs_def ref_pieces_text[OF assms(6)] substitute_text map_sum.compositionality comp_def split: option.split)
qed

theorem resolve_refs_macro_witness:
  "resolve_refs (''from '' @ ref_macro ['' '', [], [], [], '' ''] CHR 0x27 ''a'' @ '' x'') [(''a'', ''s.a'')] = Inr ''from s.a x''"
proof -
  have "resolve_refs '' x'' [(''a'', ''s.a'')] = Inr '' x''" by code_simp
  then show ?thesis
    using resolve_refs_macro[of "['' '', [], [], [], '' '']" "CHR 0x27" "''a''" "''from ''" "'' x''" "[(''a'', ''s.a'')]"]
    by (simp add: is_space_def)
qed

end
