(* ===== verification/Audit_Log.thy ===== *)
theory Audit_Log
  imports Json
begin

text \<open>
  The hash-chained audit log, \<^verbatim>\<open>AuditRepository\<close> of \<^verbatim>\<open>core_engine/core_engine/state/repository.py\<close>. The table
  \<^verbatim>\<open>audit_log\<close> is the list of its rows in insertion order; a query's \<^verbatim>\<open>ORDER BY\<close> is a stable sort and its
  \<^verbatim>\<open>LIMIT\<close> a prefix. SHA-256 (\<open>sha\<close>) and the text form of an instant (\<open>isof\<close>) are arguments, the row
  identifier and the clock reading of a call are too.
\<close>

record audit_row =
  au_id :: string
  au_tenant :: string
  au_actor :: string
  au_action :: string
  au_entity_type :: "string option"
  au_entity_id :: "string option"
  au_metadata :: "json option"
  au_previous_hash :: "string option"
  au_entry_hash :: string
  au_created_at :: timestamp
  au_is_anonymized :: bool

type_synonym audit_log = "audit_row list"

definition hash_parts ::
  "(timestamp \<Rightarrow> string) \<Rightarrow> string \<Rightarrow> string \<Rightarrow> string \<Rightarrow> string option \<Rightarrow> string option \<Rightarrow> json option \<Rightarrow>
   string option \<Rightarrow> timestamp \<Rightarrow> string list" where
  "hash_parts isof tenant actor action entity_type entity_id metadata previous_hash created_at =
     [tenant, actor, action, opt_or entity_type [], opt_or entity_id [],
      (case metadata of None \<Rightarrow> [] | Some m \<Rightarrow> if json_falsy m then [] else json_dumps m),
      opt_or previous_hash [], isof created_at]"

definition compute_hash ::
  "(string \<Rightarrow> string) \<Rightarrow> (timestamp \<Rightarrow> string) \<Rightarrow> string \<Rightarrow> string \<Rightarrow> string \<Rightarrow> string option \<Rightarrow> string option \<Rightarrow>
   json option \<Rightarrow> string option \<Rightarrow> timestamp \<Rightarrow> string" where
  "compute_hash sha isof tenant actor action entity_type entity_id metadata previous_hash created_at =
     sha (py_join ''|''
       (hash_parts isof tenant actor action entity_type entity_id metadata previous_hash created_at))"

definition row_hash :: "(string \<Rightarrow> string) \<Rightarrow> (timestamp \<Rightarrow> string) \<Rightarrow> audit_row \<Rightarrow> string" where
  "row_hash sha isof r =
     compute_hash sha isof (au_tenant r) (au_actor r) (au_action r) (au_entity_type r) (au_entity_id r)
       (au_metadata r) (au_previous_hash r) (au_created_at r)"

definition tenant_rows :: "audit_log \<Rightarrow> string \<Rightarrow> audit_log" where
  "tenant_rows tbl t = filter (\<lambda>r. au_tenant r = t) tbl"

definition get_latest_hash :: "audit_log \<Rightarrow> string \<Rightarrow> string option" where
  "get_latest_hash tbl t =
     (case sort_key (\<lambda>r. - au_created_at r) (tenant_rows tbl t) of [] \<Rightarrow> None | r # _ \<Rightarrow> Some (au_entry_hash r))"

definition audit_append ::
  "(string \<Rightarrow> string) \<Rightarrow> (timestamp \<Rightarrow> string) \<Rightarrow> string \<Rightarrow> timestamp \<Rightarrow> string \<Rightarrow> string \<Rightarrow> string \<Rightarrow>
   string option \<Rightarrow> string option \<Rightarrow> json option \<Rightarrow> audit_log \<Rightarrow> audit_log" where
  "audit_append sha isof entry_id now t actor action entity_type entity_id metadata tbl =
     (let previous_hash = get_latest_hash tbl t
      in tbl @ [\<lparr>au_id = entry_id, au_tenant = t, au_actor = actor, au_action = action,
           au_entity_type = entity_type, au_entity_id = entity_id, au_metadata = metadata,
           au_previous_hash = previous_hash,
           au_entry_hash = compute_hash sha isof t actor action entity_type entity_id metadata previous_hash now,
           au_created_at = now, au_is_anonymized = False\<rparr>])"

definition audit_query ::
  "audit_log \<Rightarrow> string \<Rightarrow> string option \<Rightarrow> string option \<Rightarrow> string option \<Rightarrow> timestamp option \<Rightarrow> nat \<Rightarrow> nat \<Rightarrow> audit_log" where
  "audit_query tbl t action entity_type entity_id since limit offset =
     take limit (drop offset (sort_key (\<lambda>r. - au_created_at r)
       (filter (\<lambda>r. (case action of None \<Rightarrow> True | Some a \<Rightarrow> au_action r = a) \<and>
                    (case entity_type of None \<Rightarrow> True | Some e \<Rightarrow> au_entity_type r = Some e) \<and>
                    (case entity_id of None \<Rightarrow> True | Some e \<Rightarrow> au_entity_id r = Some e) \<and>
                    (case since of None \<Rightarrow> True | Some s \<Rightarrow> au_created_at r \<ge> s))
         (tenant_rows tbl t))))"

fun verify_loop ::
  "(string \<Rightarrow> string) \<Rightarrow> (timestamp \<Rightarrow> string) \<Rightarrow> string option \<Rightarrow> nat \<Rightarrow> audit_log \<Rightarrow> bool \<times> nat" where
  "verify_loop sha isof previous_hash checked [] = (True, checked)"
| "verify_loop sha isof previous_hash checked (r # rs) =
     (if au_previous_hash r \<noteq> previous_hash then (False, checked)
      else if au_is_anonymized r then verify_loop sha isof (Some (au_entry_hash r)) checked rs
      else if au_entry_hash r \<noteq> row_hash sha isof r then (False, checked)
      else verify_loop sha isof (Some (au_entry_hash r)) (checked + 1) rs)"

definition verify_chain ::
  "(string \<Rightarrow> string) \<Rightarrow> (timestamp \<Rightarrow> string) \<Rightarrow> audit_log \<Rightarrow> string \<Rightarrow> nat \<Rightarrow> bool \<times> nat" where
  "verify_chain sha isof tbl t limit =
     verify_loop sha isof None 0 (take limit (sort_key au_created_at (tenant_rows tbl t)))"

definition cleanup_old_entries :: "timestamp \<Rightarrow> string \<Rightarrow> int \<Rightarrow> audit_log \<Rightarrow> audit_log \<times> nat" where
  "cleanup_old_entries now t retention_days tbl =
     (let old = (\<lambda>r. au_tenant r = t \<and> au_created_at r < now - retention_days * microseconds_per_day)
      in (filter (\<lambda>r. \<not> old r) tbl, length (filter old tbl)))"

definition anonymize_user_entries :: "string \<Rightarrow> string \<Rightarrow> audit_log \<Rightarrow> audit_log \<times> nat" where
  "anonymize_user_entries t user_id tbl =
     (map (\<lambda>r. if au_tenant r = t \<and> au_actor r = user_id
               then r\<lparr>au_actor := ''[REDACTED]'', au_metadata := None, au_is_anonymized := True\<rparr> else r) tbl,
      length (filter (\<lambda>r. au_tenant r = t \<and> au_actor r = user_id) tbl))"

subsection \<open>Histories\<close>

text \<open>
  What the API does to the log over time: entries are appended, users are anonymised, and (kept apart, because it breaks the chain) old
  entries are deleted. An append is one step, which is what the advisory lock of the tenant is for; but the clock is read before the
  lock is taken, so \<open>now\<close> may be any instant, earlier than that of entries already there.
\<close>

inductive audit_history :: "(string \<Rightarrow> string) \<Rightarrow> (timestamp \<Rightarrow> string) \<Rightarrow> audit_log \<Rightarrow> bool"
  for sha isof where
  audit_empty: "audit_history sha isof []"
| audit_logged: "audit_history sha isof tbl \<Longrightarrow>
     audit_history sha isof (audit_append sha isof entry_id now t actor action ety eid metadata tbl)"
| audit_anonymized: "audit_history sha isof tbl \<Longrightarrow>
     audit_history sha isof (fst (anonymize_user_entries t user_id tbl))"

inductive_simps audit_history_Nil: "audit_history sha isof []"

subsection \<open>The chain invariant\<close>

text \<open>\<open>chained sha isof h rs\<close>: the rows link up from the hash \<open>h\<close> on and every row that still has its content
  has the right hash.\<close>

fun chained :: "(string \<Rightarrow> string) \<Rightarrow> (timestamp \<Rightarrow> string) \<Rightarrow> string option \<Rightarrow> audit_log \<Rightarrow> bool" where
  "chained sha isof h [] = True"
| "chained sha isof h (r # rs) \<longleftrightarrow>
     au_previous_hash r = h \<and> (au_is_anonymized r \<or> au_entry_hash r = row_hash sha isof r) \<and>
     chained sha isof (Some (au_entry_hash r)) rs"

definition last_hash :: "string option \<Rightarrow> audit_log \<Rightarrow> string option" where
  "last_hash h rs = (if rs = [] then h else Some (au_entry_hash (last rs)))"

lemma chained_append:
  "chained sha isof h (rs @ ss) \<longleftrightarrow> chained sha isof h rs \<and> chained sha isof (last_hash h rs) ss"
  by (induction rs arbitrary: h) (auto simp: last_hash_def)

lemma chained_take: "chained sha isof h rs \<Longrightarrow> chained sha isof h (take n rs)"
  by (metis append_take_drop_id chained_append)

lemma verify_loop_chained:
  "chained sha isof h rs \<Longrightarrow>
   verify_loop sha isof h c rs = (True, c + length (filter (\<lambda>r. \<not> au_is_anonymized r) rs))"
  by (induction rs arbitrary: h c) auto

lemma verify_loop_iff: "fst (verify_loop sha isof h c rs) \<longleftrightarrow> chained sha isof h rs"
  by (induction rs arbitrary: h c) auto

lemma verify_chain_iff:
  "fst (verify_chain sha isof tbl t limit) \<longleftrightarrow>
   chained sha isof None (take limit (sort_key au_created_at (tenant_rows tbl t)))"
  by (simp add: verify_chain_def verify_loop_iff)

lemma sorted_wrt_filter_map: "sorted_wrt (<) (map f xs) \<Longrightarrow> sorted_wrt (<) (map f (filter P xs))"
  by (induction xs) auto

lemma strict_sorted_sort_key:
  fixes f :: "'a \<Rightarrow> int"
  assumes "sorted_wrt (<) (map f xs)"
  shows "sort_key f xs = xs" "sort_key (\<lambda>x. - f x) xs = rev xs"
proof -
  show "sort_key f xs = xs"
    using assms by (intro sort_key_id_if_sorted) (simp add: strict_sorted_iff)
  have s: "sorted (map (\<lambda>x. - f x) (rev xs))"
    using assms by (simp add: sorted_wrt_map sorted_wrt_rev) (auto elim!: sorted_wrt_mono_rel[rotated])
  have inj: "inj_on (\<lambda>x. - f x) (set xs)"
    using assms by (simp add: strict_sorted_iff distinct_map inj_on_def)
  show "sort_key (\<lambda>x. - f x) xs = rev xs"
    using s inj by (intro sort_key_inj_key_eq) simp_all
qed

lemma tenant_rows_append [simp]: "tenant_rows (xs @ ys) t = tenant_rows xs t @ tenant_rows ys t"
  by (simp add: tenant_rows_def)

lemma tenant_rows_simps [simp]:
  "tenant_rows [] t = []"
  "tenant_rows (r # rs) t = (if au_tenant r = t then r # tenant_rows rs t else tenant_rows rs t)"
  by (simp_all add: tenant_rows_def)

text \<open>The instants of a tenant's entries grow in the order of insertion.\<close>

definition in_order :: "audit_log \<Rightarrow> string \<Rightarrow> bool" where
  "in_order tbl t \<longleftrightarrow> sorted_wrt (<) (map au_created_at (tenant_rows tbl t))"

lemma tenant_rows_sorted:
  assumes "in_order tbl t"
  shows "sort_key au_created_at (tenant_rows tbl t) = tenant_rows tbl t"
    "sort_key (\<lambda>r. - au_created_at r) (tenant_rows tbl t) = rev (tenant_rows tbl t)"
  by (rule strict_sorted_sort_key[OF assms[unfolded in_order_def]])+

text \<open>The hash that the next entry links to, and the invariant of every history: each entry is linked to the newest of those before it.\<close>

definition newest_hash :: "audit_log \<Rightarrow> string option" where
  "newest_hash rs = (case sort_key (\<lambda>r. - au_created_at r) rs of [] \<Rightarrow> None | r # _ \<Rightarrow> Some (au_entry_hash r))"

definition linked :: "(string \<Rightarrow> string) \<Rightarrow> (timestamp \<Rightarrow> string) \<Rightarrow> audit_log \<Rightarrow> bool" where
  "linked sha isof rs \<longleftrightarrow>
     (\<forall>i<length rs. au_previous_hash (rs ! i) = newest_hash (take i rs) \<and>
       (au_is_anonymized (rs ! i) \<or> au_entry_hash (rs ! i) = row_hash sha isof (rs ! i)))"

lemma linked_Nil [simp]: "linked sha isof []" by (simp add: linked_def)

lemma linked_snoc:
  "linked sha isof (rs @ [r]) \<longleftrightarrow>
     linked sha isof rs \<and> au_previous_hash r = newest_hash rs \<and> (au_is_anonymized r \<or> au_entry_hash r = row_hash sha isof r)"
  by (auto simp: linked_def nth_append less_Suc_eq)

lemma linked_at: "linked sha isof (us @ r # vs) \<Longrightarrow> au_previous_hash r = newest_hash us"
  unfolding linked_def by (drule spec[of _ "length us"]) simp

lemma newest_hash_last: "sorted_wrt (<) (map au_created_at rs) \<Longrightarrow> newest_hash rs = last_hash None rs"
  unfolding newest_hash_def by (subst strict_sorted_sort_key(2)) (auto simp: last_hash_def split: list.split dest: arg_cong[where f = last and x = "rev _"])

lemma newest_hash_max:
  assumes "rs \<noteq> []"
  obtains m where "m \<in> set rs" "newest_hash rs = Some (au_entry_hash m)" "\<forall>r\<in>set rs. au_created_at r \<le> au_created_at m"
proof -
  obtain m ms where s: "sort_key (\<lambda>r. - au_created_at r) rs = m # ms"
    using assms by (cases "sort_key (\<lambda>r. - au_created_at r) rs") (metis length_0_conv length_sort, blast)
  have "sorted (map (\<lambda>r. - au_created_at r) (m # ms))" unfolding s[symmetric] by (rule sorted_sort_key)
  moreover have "set rs = set (m # ms)" unfolding s[symmetric] by simp
  ultimately show ?thesis using that[of m] s by (auto simp: newest_hash_def)
qed

lemma linked_chained: "linked sha isof rs \<Longrightarrow> sorted_wrt (<) (map au_created_at rs) \<Longrightarrow> chained sha isof None rs"
proof (induction rs rule: rev_induct)
  case (snoc r rs)
  then have "sorted_wrt (<) (map au_created_at rs)" by (simp add: sorted_wrt_append)
  with snoc show ?case by (simp add: linked_snoc chained_append newest_hash_last)
qed simp

lemma out_of_order_pair:
  assumes "\<not> sorted_wrt (<) (map au_created_at rs)" and "distinct (map au_created_at rs)"
  obtains us r vs u where "rs = us @ r # vs" "u \<in> set us" "au_created_at r < au_created_at u"
proof -
  from assms(1) obtain i j where ij: "i < j" "j < length rs" "\<not> au_created_at (rs ! i) < au_created_at (rs ! j)"
    by (auto simp: sorted_wrt_iff_nth_less)
  have "au_created_at (rs ! i) \<noteq> au_created_at (rs ! j)" using assms(2) ij by (auto simp: distinct_conv_nth)
  moreover have "rs ! i \<in> set (take j rs)" using ij by (force simp: in_set_conv_nth)
  ultimately show ?thesis using that[of "take j rs" "rs ! j" "drop (Suc j) rs" "rs ! i"] ij by (simp add: id_take_nth_drop[symmetric])
qed

lemma out_of_order_unchained:
  assumes "linked sha isof rs" "\<not> sorted_wrt (<) (map au_created_at rs)" "distinct (map au_created_at rs)" "distinct (map au_entry_hash rs)"
  shows "\<not> chained sha isof None (sort_key au_created_at rs)"
proof
  assume c: "chained sha isof None (sort_key au_created_at rs)"
  obtain us r vs u where r: "rs = us @ r # vs" "u \<in> set us" "au_created_at r < au_created_at u" by (rule out_of_order_pair[OF assms(2,3)])
  then have "us \<noteq> []" by auto
  then obtain m where m: "m \<in> set us" "newest_hash us = Some (au_entry_hash m)" "\<forall>x\<in>set us. au_created_at x \<le> au_created_at m"
    by (rule newest_hash_max)
  have "r \<in> set (sort_key au_created_at rs)" using r(1) by simp
  then obtain as bs where ab: "sort_key au_created_at rs = as @ r # bs" by (meson split_list)
  have "last_hash None as = Some (au_entry_hash m)" using c[unfolded ab] linked_at[OF assms(1)[unfolded r(1)]] m(2) by (simp add: chained_append)
  then have last: "as \<noteq> []" "au_entry_hash (last as) = au_entry_hash m" by (auto simp: last_hash_def split: if_splits)
  have "last as \<in> set (sort_key au_created_at rs)" using last(1) unfolding ab by simp
  then have "last as = m" using last(2) assms(4) m(1) r(1) by (auto simp: distinct_map dest: inj_onD)
  moreover have "sorted (map au_created_at (as @ r # bs))" unfolding ab[symmetric] by (rule sorted_sort_key)
  ultimately have "au_created_at m \<le> au_created_at r" using last(1) by (auto simp: sorted_append)
  with m(3) r(2,3) show False by fastforce
qed

definition log_inv :: "(string \<Rightarrow> string) \<Rightarrow> (timestamp \<Rightarrow> string) \<Rightarrow> audit_log \<Rightarrow> bool" where
  "log_inv sha isof tbl \<longleftrightarrow> (\<forall>t. linked sha isof (tenant_rows tbl t))"

lemma log_inv_append:
  "log_inv sha isof tbl \<Longrightarrow> log_inv sha isof (audit_append sha isof entry_id now t actor action ety eid metadata tbl)"
  by (auto simp: log_inv_def audit_append_def Let_def linked_snoc row_hash_def get_latest_hash_def newest_hash_def)

lemma insort_key_map_same:
  "(\<And>x. f (g x) = (f x :: int)) \<Longrightarrow> insort_key f (g x) (map g xs) = map g (insort_key f x xs)"
  by (induction xs) auto

lemma sort_key_map_same: "(\<And>x. f (g x) = (f x :: int)) \<Longrightarrow> sort_key f (map g xs) = map g (sort_key f xs)"
  by (induction xs) (simp_all add: insort_key_map_same)

text \<open>A change that keeps links, hashes and instants, and marks what it changes.\<close>

lemma newest_hash_map:
  assumes "\<And>r. au_created_at (f r) = au_created_at r" "\<And>r. au_entry_hash (f r) = au_entry_hash r"
  shows "newest_hash (map f rs) = newest_hash rs"
proof -
  have "sort_key (\<lambda>r. - au_created_at r) (map f rs) = map f (sort_key (\<lambda>r. - au_created_at r) rs)"
    by (rule sort_key_map_same) (simp add: assms(1))
  then show ?thesis by (simp add: newest_hash_def assms(2) split: list.split)
qed

lemma linked_map:
  assumes "\<And>r. au_created_at (f r) = au_created_at r" "\<And>r. au_entry_hash (f r) = au_entry_hash r"
    "\<And>r. au_previous_hash (f r) = au_previous_hash r" "\<And>r. f r = r \<or> au_is_anonymized (f r)"
  shows "linked sha isof rs \<Longrightarrow> linked sha isof (map f rs)"
proof (induction rs rule: rev_induct)
  case (snoc r rs)
  then show ?case using assms(4)[of r] by (auto simp: linked_snoc newest_hash_map[OF assms(1,2)] assms(2,3))
qed simp

lemma log_inv_anonymize:
  assumes "log_inv sha isof tbl"
  shows "log_inv sha isof (fst (anonymize_user_entries t user_id tbl))"
proof -
  let ?f = "\<lambda>r. if au_tenant r = t \<and> au_actor r = user_id
      then r\<lparr>au_actor := ''[REDACTED]'', au_metadata := None, au_is_anonymized := True\<rparr> else r"
  have "tenant_rows (map ?f tbl) u = map ?f (tenant_rows tbl u)" for u
    by (induction tbl) auto
  moreover have "linked sha isof (map ?f (tenant_rows tbl u))" for u
    using assms by (intro linked_map) (auto simp: log_inv_def)
  ultimately show ?thesis by (simp add: log_inv_def anonymize_user_entries_def del: map_map)
qed

lemma audit_history_inv: "audit_history sha isof tbl \<Longrightarrow> log_inv sha isof tbl"
proof (induction rule: audit_history.induct)
  case audit_empty
  then show ?case by (simp add: log_inv_def)
qed (auto intro: log_inv_append log_inv_anonymize)

lemma history_linked: "audit_history sha isof tbl \<Longrightarrow> linked sha isof (tenant_rows tbl t)"
  using audit_history_inv by (simp add: log_inv_def)

lemma history_chained:
  assumes "audit_history sha isof tbl" "in_order tbl t"
  shows "chained sha isof None (tenant_rows tbl t)"
  using linked_chained[OF history_linked[OF assms(1)]] assms(2) by (simp add: in_order_def)

lemma verify_chain_sorted:
  assumes "in_order tbl t"
  shows "verify_chain sha isof tbl t limit = verify_loop sha isof None 0 (take limit (tenant_rows tbl t))"
  by (simp add: verify_chain_def tenant_rows_sorted(1)[OF assms])

text \<open>With a limit that leaves nothing out, the chain is that of all entries.\<close>

lemma verify_chain_all:
  "length (tenant_rows tbl t) \<le> limit \<Longrightarrow>
     fst (verify_chain sha isof tbl t limit) \<longleftrightarrow> chained sha isof None (sort_key au_created_at (tenant_rows tbl t))"
  by (simp add: verify_chain_iff)

lemma chained_content: "chained sha isof h rs \<Longrightarrow> r \<in> set rs \<Longrightarrow> au_is_anonymized r \<or> au_entry_hash r = row_hash sha isof r"
  by (induction rs arbitrary: h) auto

lemma chained_predecessor:
  "chained sha isof None rs \<Longrightarrow> q \<in> set rs \<Longrightarrow> au_previous_hash q = Some h \<Longrightarrow> h \<in> au_entry_hash ` set rs"
proof -
  assume c: "chained sha isof None rs" and "q \<in> set rs" and q: "au_previous_hash q = Some h"
  then obtain as bs where rs: "rs = as @ q # bs" by (meson split_list)
  with c q have "last_hash None as = Some h" by (simp add: chained_append)
  then have "as \<noteq> []" "h = au_entry_hash (last as)" by (auto simp: last_hash_def split: if_splits)
  then show ?thesis unfolding rs by simp
qed

lemma demo_history:
  "audit_history sha isof
     (audit_append sha isof ''e2'' 2 ''t'' ''bob'' ''plan.apply'' None None None
       (audit_append sha isof ''e1'' 1 ''t'' ''ann'' ''plan.create'' None None None []))"
  by (intro audit_logged audit_empty)

definition demo_audit_row :: audit_row where
  "demo_audit_row =
     \<lparr>au_id = ''e1'', au_tenant = ''t'', au_actor = ''ann'', au_action = ''plan.create'', au_entity_type = None,
      au_entity_id = None, au_metadata = None, au_previous_hash = None,
      au_entry_hash = ''t|ann|plan.create|||||ts'', au_created_at = 1, au_is_anonymized = False\<rparr>"

lemma demo_audit_row:
  "[] @ demo_audit_row # [] =
     audit_append (\<lambda>s. s) (\<lambda>_. ''ts'') ''e1'' 1 ''t'' ''ann'' ''plan.create'' None None None []"
  by (simp add: demo_audit_row_def audit_append_def Let_def get_latest_hash_def compute_hash_def hash_parts_def
      opt_or_def)

subsection \<open>Properties of the audit chain\<close>

text \<open>C39: A log that was only ever appended to, one entry at a time, and anonymised, in any order and by any tenants, verifies just where the
  clock readings of the tenant grew in the order of insertion: then the answer is true with any limit and counts the entries among the
  oldest \<open>limit\<close> that still carry their content; where they did not (distinct readings, distinct hashes), verification of all
  entries fails although nobody tampered. The code does not see to that order: an append reads the clock before it takes the lock.\<close>

theorem audit_history_verifies:
  assumes "audit_history sha isof tbl"
  shows "(sorted_wrt (<) (map au_created_at (tenant_rows tbl t)) \<longrightarrow>
      (\<forall>limit. verify_chain sha isof tbl t limit =
        (True, length (filter (\<lambda>r. \<not> au_is_anonymized r) (take limit (tenant_rows tbl t)))))) \<and>
    (\<not> sorted_wrt (<) (map au_created_at (tenant_rows tbl t)) \<and> distinct (map au_created_at (tenant_rows tbl t)) \<and>
      distinct (map au_entry_hash (tenant_rows tbl t)) \<longrightarrow>
      (\<forall>limit\<ge>length (tenant_rows tbl t). \<not> fst (verify_chain sha isof tbl t limit)))"
proof (intro conjI impI allI)
  fix limit assume "sorted_wrt (<) (map au_created_at (tenant_rows tbl t))"
  then have "in_order tbl t" by (simp add: in_order_def)
  then show "verify_chain sha isof tbl t limit = (True, length (filter (\<lambda>r. \<not> au_is_anonymized r) (take limit (tenant_rows tbl t))))"
    using verify_loop_chained[OF chained_take[OF history_chained[OF assms]]] by (simp add: verify_chain_sorted)
next
  fix limit assume "\<not> sorted_wrt (<) (map au_created_at (tenant_rows tbl t)) \<and> distinct (map au_created_at (tenant_rows tbl t)) \<and>
      distinct (map au_entry_hash (tenant_rows tbl t))" "length (tenant_rows tbl t) \<le> limit"
  then show "\<not> fst (verify_chain sha isof tbl t limit)"
    using out_of_order_unchained[OF history_linked[OF assms]] by (simp add: verify_chain_all)
qed

text \<open>Two appends in the order of their readings, and two that were overtaken between clock and lock.\<close>

theorem audit_history_verifies_witness:
  "verify_chain (\<lambda>s. s) (\<lambda>_. ''ts'')
     (audit_append (\<lambda>s. s) (\<lambda>_. ''ts'') ''e2'' 2 ''t'' ''bob'' ''plan.apply'' None None None
       (audit_append (\<lambda>s. s) (\<lambda>_. ''ts'') ''e1'' 1 ''t'' ''ann'' ''plan.create'' None None None [])) ''t'' 10 = (True, 2) \<and>
   \<not> fst (verify_chain (\<lambda>s. s) (\<lambda>_. ''ts'')
     (audit_append (\<lambda>s. s) (\<lambda>_. ''ts'') ''e2'' 1 ''t'' ''bob'' ''plan.apply'' None None None
       (audit_append (\<lambda>s. s) (\<lambda>_. ''ts'') ''e1'' 2 ''t'' ''ann'' ''plan.create'' None None None [])) ''t'' 10)"
proof
  show "verify_chain (\<lambda>s. s) (\<lambda>_. ''ts'')
     (audit_append (\<lambda>s. s) (\<lambda>_. ''ts'') ''e2'' 2 ''t'' ''bob'' ''plan.apply'' None None None
       (audit_append (\<lambda>s. s) (\<lambda>_. ''ts'') ''e1'' 1 ''t'' ''ann'' ''plan.create'' None None None [])) ''t'' 10 = (True, 2)"
    using audit_history_verifies[OF demo_history, where t = "''t''"] by (simp add: audit_append_def Let_def)
  have "audit_history (\<lambda>s. s) (\<lambda>_. ''ts'')
     (audit_append (\<lambda>s. s) (\<lambda>_. ''ts'') ''e2'' 1 ''t'' ''bob'' ''plan.apply'' None None None
       (audit_append (\<lambda>s. s) (\<lambda>_. ''ts'') ''e1'' 2 ''t'' ''ann'' ''plan.create'' None None None []))" by (intro audit_logged audit_empty)
  from audit_history_verifies[OF this, where t = "''t''"]
  show "\<not> fst (verify_chain (\<lambda>s. s) (\<lambda>_. ''ts'')
     (audit_append (\<lambda>s. s) (\<lambda>_. ''ts'') ''e2'' 1 ''t'' ''bob'' ''plan.apply'' None None None
       (audit_append (\<lambda>s. s) (\<lambda>_. ''ts'') ''e1'' 2 ''t'' ''ann'' ''plan.create'' None None None [])) ''t'' 10)"
    by (simp add: audit_append_def Let_def get_latest_hash_def compute_hash_def hash_parts_def opt_or_def)
qed

text \<open>C40: In a log whose clock readings grew in the order of insertion, rewriting an entry, which stays with its tenant, is noticed within the limit. An entry that is not
  marked anonymised and whose stored hash is not the hash of its content fails verification, with its instant kept or, where the limit
  covers all entries, with any instant; a changed stored hash fails it at the next entry of the tenant, marked or not (where the instant is changed
  too, if no other entry has the old hash). What is not noticed: an entry that keeps its hash and is marked anonymised may say anything, and
  the last entry can be rewritten with a new hash.\<close>

theorem audit_tampering_detected:
  assumes "audit_history sha isof (xs @ r # ys)" "au_tenant r = t" "au_tenant r' = t"
    and "sorted_wrt (<) (map au_created_at (tenant_rows (xs @ r # ys) t))"
  shows "(\<not> au_is_anonymized r' \<and> row_hash sha isof r' \<noteq> au_entry_hash r' \<and>
      (au_created_at r' = au_created_at r \<and> length (tenant_rows xs t) < limit \<or> length (tenant_rows (xs @ r # ys) t) \<le> limit) \<longrightarrow>
        \<not> fst (verify_chain sha isof (xs @ r' # ys) t limit)) \<and>
     (au_entry_hash r' \<noteq> au_entry_hash r \<and> tenant_rows ys t \<noteq> [] \<and>
      (au_created_at r' = au_created_at r \<and> Suc (length (tenant_rows xs t)) < limit \<or>
       au_entry_hash r \<notin> au_entry_hash ` set (tenant_rows (xs @ ys) t) \<and> length (tenant_rows (xs @ r # ys) t) \<le> limit) \<longrightarrow>
        \<not> fst (verify_chain sha isof (xs @ r' # ys) t limit))"
proof -
  have chain: "chained sha isof None (tenant_rows (xs @ r # ys) t)" using history_chained[OF assms(1)] assms(4) by (simp add: in_order_def)
  have next_row: "au_previous_hash q = Some (au_entry_hash r)" if "tenant_rows ys t = q # qs" for q qs
    using chain that assms(2) by (auto simp: chained_append)
  have all: "fst (verify_chain sha isof (xs @ r' # ys) t limit) \<longleftrightarrow> chained sha isof None (sort_key au_created_at (tenant_rows (xs @ r' # ys) t))"
    if "length (tenant_rows (xs @ r # ys) t) \<le> limit" using that assms(2,3) by (intro verify_chain_all) simp
  have kept: "fst (verify_chain sha isof (xs @ r' # ys) t limit) \<longleftrightarrow> chained sha isof None (tenant_rows xs t @ r' # take k (tenant_rows ys t))"
    if "au_created_at r' = au_created_at r" "limit = Suc (length (tenant_rows xs t) + k)" for k
  proof -
    have "in_order (xs @ r' # ys) t" using assms(2,3,4) that(1) by (simp add: in_order_def)
    with that(2) assms(3) show ?thesis by (simp add: verify_chain_sorted verify_loop_iff)
  qed
  have "\<not> fst (verify_chain sha isof (xs @ r' # ys) t limit)"
    if bad: "\<not> au_is_anonymized r'" "row_hash sha isof r' \<noteq> au_entry_hash r'"
      and "au_created_at r' = au_created_at r \<and> length (tenant_rows xs t) < limit \<or> length (tenant_rows (xs @ r # ys) t) \<le> limit"
    using that(3)
  proof
    assume c: "au_created_at r' = au_created_at r \<and> length (tenant_rows xs t) < limit"
    then obtain k where "limit = Suc (length (tenant_rows xs t) + k)" by (metis less_iff_Suc_add)
    with kept c bad show ?thesis by (auto simp: chained_append)
  next
    assume "length (tenant_rows (xs @ r # ys) t) \<le> limit"
    moreover have "r' \<in> set (sort_key au_created_at (tenant_rows (xs @ r' # ys) t))" using assms(3) by simp
    ultimately show ?thesis using all chained_content bad by metis
  qed
  moreover have "\<not> fst (verify_chain sha isof (xs @ r' # ys) t limit)"
    if bad: "au_entry_hash r' \<noteq> au_entry_hash r" "tenant_rows ys t \<noteq> []"
      and "au_created_at r' = au_created_at r \<and> Suc (length (tenant_rows xs t)) < limit \<or>
        au_entry_hash r \<notin> au_entry_hash ` set (tenant_rows (xs @ ys) t) \<and> length (tenant_rows (xs @ r # ys) t) \<le> limit"
  proof -
    from bad(2) obtain q qs where q: "tenant_rows ys t = q # qs" by (cases "tenant_rows ys t") auto
    from that(3) show ?thesis
    proof
      assume c: "au_created_at r' = au_created_at r \<and> Suc (length (tenant_rows xs t)) < limit"
      then obtain k where "limit = Suc (length (tenant_rows xs t) + Suc k)" by (metis add_Suc_right add_Suc less_iff_Suc_add)
      with kept[of "Suc k"] c q next_row[OF q] bad(1) show ?thesis by (auto simp: chained_append)
    next
      assume c: "au_entry_hash r \<notin> au_entry_hash ` set (tenant_rows (xs @ ys) t) \<and> length (tenant_rows (xs @ r # ys) t) \<le> limit"
      have "q \<in> set (sort_key au_created_at (tenant_rows (xs @ r' # ys) t))" using q by simp
      then have "au_entry_hash r \<in> au_entry_hash ` set (sort_key au_created_at (tenant_rows (xs @ r' # ys) t))"
        if "chained sha isof None (sort_key au_created_at (tenant_rows (xs @ r' # ys) t))"
        using chained_predecessor[OF that _ next_row[OF q]] by blast
      with c bad(1) assms(3) all show ?thesis by auto
    qed
  qed
  ultimately show ?thesis by blast
qed

theorem audit_tampering_detected_witness:
  "\<not> fst (verify_chain (\<lambda>s. s) (\<lambda>_. ''ts'') [demo_audit_row\<lparr>au_actor := ''eve'', au_created_at := 7\<rparr>] ''t'' 10)"
proof -
  have h: "audit_history (\<lambda>s. s) (\<lambda>_. ''ts'') ([] @ demo_audit_row # [])"
    unfolding demo_audit_row by (intro audit_logged audit_empty)
  have "row_hash (\<lambda>s. s) (\<lambda>_. ''ts'') (demo_audit_row\<lparr>au_actor := ''eve'', au_created_at := 7\<rparr>) \<noteq>
      au_entry_hash (demo_audit_row\<lparr>au_actor := ''eve'', au_created_at := 7\<rparr>)"
    by (simp add: demo_audit_row_def row_hash_def compute_hash_def hash_parts_def opt_or_def)
  then show ?thesis
    using audit_tampering_detected[OF h, of "''t''" "demo_audit_row\<lparr>au_actor := ''eve'', au_created_at := 7\<rparr>" 10]
    by (simp add: demo_audit_row_def)
qed

text \<open>An entry that keeps its link, its stored hash and its instant and is marked anonymised verifies, whatever else it says: the mark is no part
  of what is hashed.\<close>

theorem anonymised_mark_hides_tampering:
  assumes "fst (verify_chain sha isof (xs @ r # ys) t limit)"
    and "au_tenant r' = au_tenant r" "au_previous_hash r' = au_previous_hash r" "au_entry_hash r' = au_entry_hash r"
    and "au_created_at r' = au_created_at r" "au_is_anonymized r'" "in_order (xs @ r # ys) t"
  shows "fst (verify_chain sha isof (xs @ r' # ys) t limit)"
proof -
  have order: "in_order (xs @ r' # ys) t" using assms(2,5,7) by (auto simp: in_order_def)
  have "chained sha isof h (take n (as @ r' # bs))" if "chained sha isof h (take n (as @ r # bs))" for h n as bs
    using that assms(3,4,6) by (cases "n - length as") (auto simp: chained_append)
  then show ?thesis using assms(1,2) unfolding verify_chain_sorted[OF assms(7)] verify_chain_sorted[OF order] verify_loop_iff
    by (cases "au_tenant r = t") auto
qed

text \<open>deleting old entries breaks the chain of a tenant: as soon as the clean-up removes some entries of the
  tenant and keeps others, verification fails at the very first remaining entry, with any positive limit.\<close>

theorem cleanup_breaks_chain:
  assumes "audit_history sha isof tbl" "in_order tbl t" "cleanup_old_entries now t days tbl = (tbl', n)"
    and "n > 0" "tenant_rows tbl' t \<noteq> []" "limit > 0"
  shows "verify_chain sha isof tbl' t limit = (False, 0)"
proof -
  let ?old = "\<lambda>r. au_tenant r = t \<and> au_created_at r < now - days * microseconds_per_day"
  let ?rows = "tenant_rows tbl t"
  have tbl': "tbl' = filter (\<lambda>r. \<not> ?old r) tbl" and n: "n = length (filter ?old tbl)"
    using assms(3) by (auto simp: cleanup_old_entries_def Let_def)
  have s: "sorted_wrt (<) (map au_created_at ?rows)" using assms(2) by (simp add: in_order_def)
  have rows': "tenant_rows tbl' t = filter (\<lambda>r. \<not> ?old r) ?rows"
    by (simp add: tbl' tenant_rows_def conj_commute)
  have s': "in_order tbl' t" unfolding in_order_def rows' by (rule sorted_wrt_filter_map[OF s])
  from assms(5) obtain q qs where q: "tenant_rows tbl' t = q # qs" by (cases "tenant_rows tbl' t") auto
  then obtain us vs where split: "?rows = us @ q # vs" "\<forall>u\<in>set us. ?old u" "\<not> ?old q"
    using rows' by (fastforce simp: filter_eq_Cons_iff)
  have "us \<noteq> []"
  proof
    assume "us = []"
    have le: "au_created_at q \<le> au_created_at r" if "r \<in> set ?rows" for r
      using that s unfolding split(1) \<open>us = []\<close> by (auto simp: sorted_wrt_map)
    have "q \<in> set ?rows" unfolding split(1) by simp
    then have "au_tenant q = t" by (simp add: tenant_rows_def)
    with split(3) have ge: "\<not> au_created_at q < now - days * microseconds_per_day" by simp
    have "\<not> ?old r" if "r \<in> set tbl" for r
      using le[of r] ge that by (auto simp: tenant_rows_def)
    then have "\<forall>r\<in>set tbl. \<not> ?old r" by blast
    then have "filter ?old tbl = []" by (simp add: filter_empty_conv)
    with n assms(4) show False by simp
  qed
  with split(1) history_chained[OF assms(1,2)] have "au_previous_hash q \<noteq> None"
    by (auto simp: chained_append last_hash_def)
  moreover from assms(6) obtain k where "limit = Suc k" by (cases limit) auto
  ultimately show ?thesis unfolding verify_chain_sorted[OF s'] q by simp
qed

theorem cleanup_breaks_chain_witness:
  "verify_chain (\<lambda>s. s) (\<lambda>_. ''ts'')
     (fst (cleanup_old_entries 2 ''t'' 0
       (audit_append (\<lambda>s. s) (\<lambda>_. ''ts'') ''e2'' 2 ''t'' ''bob'' ''plan.apply'' None None None
         (audit_append (\<lambda>s. s) (\<lambda>_. ''ts'') ''e1'' 1 ''t'' ''ann'' ''plan.create'' None None None [])))) ''t'' 1000 = (False, 0)"
  by (rule cleanup_breaks_chain[OF demo_history _ prod.collapse[symmetric]])
    (simp_all add: in_order_def audit_append_def Let_def cleanup_old_entries_def)

end
