(* ===== verification/Locks.thy ===== *)
theory Locks
  imports Audit_Log
begin

text \<open>
  Advisory partition locks, \<^verbatim>\<open>LockRepository\<close> of \<^verbatim>\<open>core_engine/core_engine/state/repository.py\<close>. The table is
  the list of its rows; \<^verbatim>\<open>INSERT \<dots> ON CONFLICT DO NOTHING\<close> on the unique key (tenant, model, range)
  inserts only when no row has the key. The contract clients rely on is the locale \<open>lock_store\<close>; the
  concurrent clients themselves are the step relation \<open>lock_step\<close>.
\<close>

record lock_row =
  lk_tenant :: string
  lk_model :: string
  lk_start :: date
  lk_end :: date
  lk_by :: string
  lk_at :: timestamp
  lk_ttl :: int

type_synonym lock_table = "lock_row list"
type_synonym lock_key = "string \<times> string \<times> date \<times> date"

definition row_key :: "lock_row \<Rightarrow> lock_key" where
  "row_key r = (lk_tenant r, lk_model r, lk_start r, lk_end r)"

definition row_expiry :: "lock_row \<Rightarrow> timestamp" where
  "row_expiry r = lk_at r + lk_ttl r * microseconds_per_second"

text \<open>\<^verbatim>\<open>SELECT \<dots> WHERE\<close> on the columns of the unique key.\<close>

definition rows_of :: "lock_table \<Rightarrow> lock_key \<Rightarrow> lock_row list" where
  "rows_of tbl k = filter (\<lambda>r. row_key r = k) tbl"

definition acquire_lock :: "timestamp \<Rightarrow> lock_key \<Rightarrow> string \<Rightarrow> int \<Rightarrow> lock_table \<Rightarrow> lock_table \<times> bool" where
  "acquire_lock now k locked_by ttl_seconds tbl =
     (let tbl' = filter (\<lambda>r. \<not> (row_key r = k \<and> row_expiry r < now)) tbl;
          (tenant, model_name, range_start, range_end) = k
      in if rows_of tbl' k \<noteq> [] then (tbl', False)
         else (tbl' @ [\<lparr>lk_tenant = tenant, lk_model = model_name, lk_start = range_start, lk_end = range_end,
                        lk_by = locked_by, lk_at = now, lk_ttl = ttl_seconds\<rparr>], True))"

definition release_lock :: "lock_key \<Rightarrow> lock_table \<Rightarrow> lock_table" where
  "release_lock k tbl = filter (\<lambda>r. row_key r \<noteq> k) tbl"

definition check_lock :: "timestamp \<Rightarrow> lock_key \<Rightarrow> lock_table \<Rightarrow> bool" where
  "check_lock now k tbl \<longleftrightarrow> length (filter (\<lambda>r. row_expiry r \<ge> now) (rows_of tbl k)) > 0"

text \<open>\<open>range_text\<close> prints the two dates as \<^verbatim>\<open>start:end\<close>; it is an argument because the calendar text of a date is.\<close>

definition force_release_lock ::
  "(string \<Rightarrow> string) \<Rightarrow> (date \<Rightarrow> string) \<Rightarrow> string \<Rightarrow> timestamp \<Rightarrow> lock_key \<Rightarrow> string \<Rightarrow> string \<Rightarrow>
   lock_table \<times> audit_log \<Rightarrow> (lock_table \<times> audit_log) \<times> bool" where
  "force_release_lock sha date_text entry_id now k released_by reason st =
     (case k of (tenant, model_name, range_start, range_end) \<Rightarrow>
       (case rows_of (fst st) k of
          [] \<Rightarrow> (st, False)
        | r # _ \<Rightarrow>
            let metadata = JObj [(''action'', JStr ''lock.force_release''), (''original_owner'', JStr (lk_by r)),
                  (''reason'', JStr reason), (''released_by'', JStr released_by), (''model_name'', JStr model_name),
                  (''range'', JStr (date_text range_start @ '':'' @ date_text range_end))];
                row = \<lparr>au_id = entry_id, au_tenant = tenant, au_actor = released_by,
                  au_action = ''lock.force_release'', au_entity_type = Some ''lock'',
                  au_entity_id = Some (model_name @ '':'' @ date_text range_start @ '':'' @ date_text range_end),
                  au_metadata = Some metadata, au_previous_hash = None, au_entry_hash = sha (json_dumps metadata),
                  au_created_at = now, au_is_anonymized = False\<rparr>
            in ((release_lock k (fst st), snd st @ [row]), True)))"

subsection \<open>The contract of a lock store\<close>

text \<open>\<open>holder s k\<close> is the owner of the row of \<open>k\<close> with the instant up to which it counts.\<close>

locale lock_store =
  fixes acquire :: "'s \<Rightarrow> 'k \<Rightarrow> 'o \<Rightarrow> timestamp \<Rightarrow> int \<Rightarrow> 's \<times> bool"
    and release :: "'s \<Rightarrow> 'k \<Rightarrow> 's"
    and holder :: "'s \<Rightarrow> 'k \<Rightarrow> ('o \<times> timestamp) option"
    and wf_store :: "'s \<Rightarrow> bool"
  assumes acquire_wf: "wf_store s \<Longrightarrow> wf_store (fst (acquire s k c now ttl))"
    and release_wf: "wf_store s \<Longrightarrow> wf_store (release s k)"
    and acquire_busy: "wf_store s \<Longrightarrow> holder s k = Some (c', e) \<Longrightarrow> now \<le> e \<Longrightarrow>
          \<not> snd (acquire s k c now ttl) \<and> holder (fst (acquire s k c now ttl)) = holder s"
    and acquire_free: "wf_store s \<Longrightarrow> (\<And>c' e. holder s k = Some (c', e) \<Longrightarrow> e < now) \<Longrightarrow>
          snd (acquire s k c now ttl) \<and>
          holder (fst (acquire s k c now ttl)) = (holder s)(k \<mapsto> (c, now + ttl * microseconds_per_second))"
    and release_holder: "wf_store s \<Longrightarrow> holder (release s k) = (holder s)(k := None)"
begin

text \<open>A claim is what a client that was told \<^verbatim>\<open>True\<close> believes: it holds \<open>k\<close> up to \<open>e\<close>.\<close>

definition claims_ok :: "'s \<Rightarrow> timestamp \<Rightarrow> ('o \<times> 'k \<times> timestamp) set \<Rightarrow> bool" where
  "claims_ok s now C \<longleftrightarrow> (\<forall>c k e. (c, k, e) \<in> C \<longrightarrow> now \<le> e \<longrightarrow> holder s k = Some (c, e))"

lemma claims_exclusive:
  assumes "claims_ok s now C" "(c, k, e) \<in> C" "(c', k, e') \<in> C" "now \<le> e" "now \<le> e'"
  shows "c = c' \<and> e = e'"
proof -
  note ok = assms(1)[unfolded claims_ok_def, rule_format]
  from ok[OF assms(2,4)] ok[OF assms(3,5)] show ?thesis by simp
qed

lemma claims_tick: "claims_ok s now C \<Longrightarrow> now \<le> now' \<Longrightarrow> claims_ok s now' C"
  unfolding claims_ok_def by (meson order_trans)

lemma claims_acquire:
  assumes "wf_store s" "claims_ok s now C"
  shows "claims_ok (fst (acquire s k c now ttl)) now
     (if snd (acquire s k c now ttl) then insert (c, k, now + ttl * microseconds_per_second) C else C)"
proof (cases "\<exists>c' e. holder s k = Some (c', e) \<and> now \<le> e")
  case True
  then obtain c' e where "holder s k = Some (c', e)" "now \<le> e" by blast
  from acquire_busy[OF assms(1) this] assms(2) show ?thesis by (simp add: claims_ok_def)
next
  case False
  then have free: "\<And>c' e. holder s k = Some (c', e) \<Longrightarrow> e < now" by force
  have taken: "snd (acquire s k c now ttl)"
    and holders: "holder (fst (acquire s k c now ttl)) = (holder s)(k \<mapsto> (c, now + ttl * microseconds_per_second))"
    using acquire_free[OF assms(1), of k now c ttl] free by simp_all
  have "k' \<noteq> k \<and> holder s k' = Some (c', e')" if "(c', k', e') \<in> C" "now \<le> e'" for c' k' e'
  proof -
    have "holder s k' = Some (c', e')"
      by (rule assms(2)[unfolded claims_ok_def, rule_format, OF that])
    moreover from this free[of c' e'] that(2) have "k' \<noteq> k" by (metis linorder_not_less)
    ultimately show ?thesis by blast
  qed
  with taken show ?thesis unfolding claims_ok_def holders by (simp only: if_True insert_iff prod.inject) force
qed

lemma claims_release:
  assumes "wf_store s" "claims_ok s now C" "(c, k, e) \<in> C" "now \<le> e"
  shows "claims_ok (release s k) now (C - {(c, k, e)})"
  unfolding claims_ok_def
proof (intro allI impI)
  fix c' k' e' assume c': "(c', k', e') \<in> C - {(c, k, e)}" "now \<le> e'"
  then have "k' \<noteq> k" using claims_exclusive[OF assms(2,3), of c' e'] assms(4) by auto
  with c' assms(2) show "holder (release s k) k' = Some (c', e')"
    by (simp add: release_holder[OF assms(1)] claims_ok_def)
qed

lemma acquire_iff_free:
  "wf_store s \<Longrightarrow> snd (acquire s k c now ttl) \<longleftrightarrow> \<not> (\<exists>c' e. holder s k = Some (c', e) \<and> now \<le> e)"
  using acquire_busy[of s k _ _ now c ttl] acquire_free[of s k now c ttl] by force

end

subsection \<open>The table is a lock store\<close>

definition holder_of :: "lock_table \<Rightarrow> lock_key \<Rightarrow> (string \<times> timestamp) option" where
  "holder_of tbl k = (case rows_of tbl k of [] \<Rightarrow> None | r # _ \<Rightarrow> Some (lk_by r, row_expiry r))"

definition lock_table_ok :: "lock_table \<Rightarrow> bool" where
  "lock_table_ok tbl \<longleftrightarrow> distinct (map row_key tbl)"

lemma rows_of_filter [store_simps]: "rows_of (filter Q tbl) k = filter Q (rows_of tbl k)"
  by (simp add: rows_of_def conj_commute)

lemma rows_of_append [store_simps]: "rows_of (xs @ ys) k = rows_of xs k @ rows_of ys k"
  by (simp add: rows_of_def)

lemma rows_of_key: "r \<in> set (rows_of tbl k) \<Longrightarrow> row_key r = k"
  by (simp add: rows_of_def)

lemma rows_of_unique:
  assumes "lock_table_ok tbl"
  obtains "rows_of tbl k = []" | r where "rows_of tbl k = [r]" "row_key r = k"
proof -
  have "distinct (map row_key (rows_of tbl k))"
    using assms by (simp add: rows_of_def lock_table_ok_def distinct_map_filter)
  then show ?thesis
  proof (cases "rows_of tbl k")
    case Nil
    then show ?thesis by (rule that(1))
  next
    case (Cons r rs)
    have "rs = []"
    proof (cases rs)
      case (Cons q qs)
      with \<open>rows_of tbl k = r # rs\<close> have "row_key r = k" "row_key q = k"
        using rows_of_key[of _ tbl k] by simp_all
      with \<open>distinct (map row_key (rows_of tbl k))\<close> \<open>rows_of tbl k = r # rs\<close> Cons show ?thesis by simp
    qed simp
    with Cons that(2)[of r] rows_of_key[of r tbl k] show ?thesis by simp
  qed
qed

lemma lock_table_ok_filter [simp]: "lock_table_ok tbl \<Longrightarrow> lock_table_ok (filter P tbl)"
  by (simp add: lock_table_ok_def distinct_map_filter)

lemma holder_unexpired:
  "lock_table_ok tbl \<Longrightarrow> holder_of (filter (\<lambda>r. \<not> (row_key r = k \<and> row_expiry r < now)) tbl) k' =
     (case holder_of tbl k' of
        Some (c, e) \<Rightarrow> if k' = k \<and> e < now then None else Some (c, e) | None \<Rightarrow> None)"
  by (rule rows_of_unique[of tbl k']) (auto simp: holder_of_def store_simps)

lemma rows_of_holder: "rows_of tbl k = [] \<longleftrightarrow> holder_of tbl k = None"
  by (simp add: holder_of_def split: list.splits)

lemma acquire_lock_busy:
  assumes "lock_table_ok tbl" "holder_of tbl k = Some (c', e)" "now \<le> e"
  shows "\<not> snd (acquire_lock now k c ttl tbl) \<and> holder_of (fst (acquire_lock now k c ttl tbl)) = holder_of tbl \<and>
     lock_table_ok (fst (acquire_lock now k c ttl tbl))"
proof -
  let ?tbl = "filter (\<lambda>r. \<not> (row_key r = k \<and> row_expiry r < now)) tbl"
  have same: "holder_of ?tbl k' = holder_of tbl k'" for k'
    unfolding holder_unexpired[OF assms(1)] using assms(2,3) by (auto split: option.splits)
  then have "rows_of ?tbl k \<noteq> []" using assms(2) by (simp add: rows_of_holder)
  then have "acquire_lock now k c ttl tbl = (?tbl, False)"
    by (simp add: acquire_lock_def Let_def split: prod.splits)
  with same lock_table_ok_filter[OF assms(1)] show ?thesis by auto
qed

lemma acquire_lock_free:
  assumes "lock_table_ok tbl" and free: "\<And>c' e. holder_of tbl k = Some (c', e) \<Longrightarrow> e < now"
  shows "snd (acquire_lock now k c ttl tbl) \<and> lock_table_ok (fst (acquire_lock now k c ttl tbl)) \<and>
     holder_of (fst (acquire_lock now k c ttl tbl)) =
       (holder_of tbl)(k \<mapsto> (c, now + ttl * microseconds_per_second))"
proof -
  obtain t m a b where k: "k = (t, m, a, b)" by (cases k)
  let ?tbl = "filter (\<lambda>r. \<not> (row_key r = k \<and> row_expiry r < now)) tbl"
  let ?row = "\<lparr>lk_tenant = t, lk_model = m, lk_start = a, lk_end = b, lk_by = c, lk_at = now, lk_ttl = ttl\<rparr>"
  have row: "row_key ?row = k" "row_expiry ?row = now + ttl * microseconds_per_second"
    by (simp_all add: row_key_def row_expiry_def k)
  have "holder_of ?tbl k = None"
    unfolding holder_unexpired[OF assms(1)] using free by (auto split: option.splits)
  then have none: "rows_of ?tbl k = []" by (simp add: rows_of_holder)
  then have acq: "acquire_lock now k c ttl tbl = (?tbl @ [?row], True)"
    by (simp add: acquire_lock_def Let_def k)
  from none have "k \<notin> row_key ` set ?tbl" unfolding rows_of_def filter_empty_conv by blast
  then have "lock_table_ok (?tbl @ [?row])"
    using lock_table_ok_filter[OF assms(1)] row(1) by (simp add: lock_table_ok_def del: set_filter)
  moreover have "holder_of (?tbl @ [?row]) k' = ((holder_of tbl)(k \<mapsto> (c, now + ttl * microseconds_per_second))) k'" for k'
  proof (cases "k' = k")
    case True
    then show ?thesis using none row by (simp add: holder_of_def rows_of_append) (simp add: rows_of_def)
  next
    case False
    then have "rows_of [?row] k' = []" using row(1) by (simp add: rows_of_def)
    then have "holder_of (?tbl @ [?row]) k' = holder_of ?tbl k'" by (simp add: holder_of_def rows_of_append)
    then show ?thesis
      unfolding holder_unexpired[OF assms(1)] using False by (simp split: option.splits)
  qed
  ultimately show ?thesis unfolding acq by auto
qed

lemma release_lock_holder: "lock_table_ok tbl \<Longrightarrow> holder_of (release_lock k tbl) = (holder_of tbl)(k := None)"
proof (rule ext)
  fix k' assume "lock_table_ok tbl"
  then show "holder_of (release_lock k tbl) k' = ((holder_of tbl)(k := None)) k'"
    by (rule rows_of_unique[of tbl k']) (auto simp: release_lock_def holder_of_def store_simps)
qed

lemma acquire_lock_ok: "lock_table_ok tbl \<Longrightarrow> lock_table_ok (fst (acquire_lock now k c ttl tbl))"
proof (cases "\<exists>c' e. holder_of tbl k = Some (c', e) \<and> now \<le> e")
  case True
  assume "lock_table_ok tbl"
  with True show ?thesis using acquire_lock_busy by blast
next
  case False
  assume "lock_table_ok tbl"
  with acquire_lock_free[OF this, of k now c ttl] False show ?thesis by force
qed

interpretation locks: lock_store
  "\<lambda>tbl k c now ttl. acquire_lock now k c ttl tbl" "\<lambda>tbl k. release_lock k tbl" holder_of lock_table_ok
proof (unfold_locales, goal_cases)
  case (1 s k c now ttl)
  then show ?case by (rule acquire_lock_ok)
next
  case (2 s k)
  then show ?case by (simp add: release_lock_def)
next
  case (3 s k c' e now c ttl)
  then show ?case using acquire_lock_busy by blast
next
  case (4 s k now c ttl)
  then show ?case using acquire_lock_free[of s k now c ttl] by blast
next
  case (5 s k)
  then show ?case by (rule release_lock_holder)
qed

lemma check_lock_holder:
  "lock_table_ok tbl \<Longrightarrow> check_lock now k tbl \<longleftrightarrow> (\<exists>c e. holder_of tbl k = Some (c, e) \<and> now \<le> e)"
  by (rule rows_of_unique[of tbl k]) (auto simp: check_lock_def holder_of_def)

subsection \<open>Concurrent clients\<close>

text \<open>
  A world is the table, the clock and the claims of the clients that were told they own a lock. Clients
  of any number and in any order try to lock, give a lock back while it still counts, or let time pass.
\<close>

record lock_world =
  lw_table :: lock_table
  lw_now :: timestamp
  lw_claims :: "(string \<times> lock_key \<times> timestamp) set"

inductive lock_step :: "lock_world \<Rightarrow> lock_world \<Rightarrow> bool" where
  try_lock: "acquire_lock (lw_now w) k c ttl (lw_table w) = (tbl, got) \<Longrightarrow>
     lock_step w (w\<lparr>lw_table := tbl,
       lw_claims := (if got then insert (c, k, lw_now w + ttl * microseconds_per_second) (lw_claims w)
                     else lw_claims w)\<rparr>)"
| give_back: "(c, k, e) \<in> lw_claims w \<Longrightarrow> lw_now w \<le> e \<Longrightarrow>
     lock_step w (w\<lparr>lw_table := release_lock k (lw_table w), lw_claims := lw_claims w - {(c, k, e)}\<rparr>)"
| time_passes: "lw_now w \<le> t \<Longrightarrow> lock_step w (w\<lparr>lw_now := t\<rparr>)"

inductive lock_reachable :: "lock_world \<Rightarrow> bool" where
  lock_start: "lock_reachable \<lparr>lw_table = [], lw_now = t, lw_claims = {}\<rparr>"
| lock_next: "lock_reachable w \<Longrightarrow> lock_step w w' \<Longrightarrow> lock_reachable w'"

inductive_cases lock_stepE: "lock_step w w'"

definition world_ok :: "lock_world \<Rightarrow> bool" where
  "world_ok w \<longleftrightarrow> lock_table_ok (lw_table w) \<and> locks.claims_ok (lw_table w) (lw_now w) (lw_claims w)"

lemma world_ok_step:
  assumes "lock_step w w'" "world_ok w"
  shows "world_ok w'"
  using assms(1)
proof cases
  case (try_lock k c ttl tbl got)
  then show ?thesis
    using locks.claims_acquire[of "lw_table w" "lw_now w" "lw_claims w" k c ttl] acquire_lock_ok[of "lw_table w" "lw_now w" k c ttl] assms(2)
    by (simp add: world_ok_def split: if_splits)
next
  case (give_back c k e)
  then show ?thesis
    using locks.claims_release[of "lw_table w" "lw_now w" "lw_claims w" c k e] assms(2)
    by (simp add: world_ok_def release_lock_def)
next
  case (time_passes t)
  then show ?thesis
    using locks.claims_tick[of "lw_table w" "lw_now w" "lw_claims w" t] assms(2) by (simp add: world_ok_def)
qed

lemma lock_reachable_ok: "lock_reachable w \<Longrightarrow> world_ok w"
proof (induction rule: lock_reachable.induct)
  case (lock_start t)
  then show ?case by (simp add: world_ok_def lock_table_ok_def locks.claims_ok_def)
qed (rule world_ok_step)

lemma acquire_lock_empty:
  "acquire_lock now (t, m, a, b) c ttl [] = ([\<lparr>lk_tenant = t, lk_model = m, lk_start = a, lk_end = b,
     lk_by = c, lk_at = now, lk_ttl = ttl\<rparr>], True)"
  by (simp add: acquire_lock_def rows_of_def)

subsection \<open>Properties of the locks\<close>

text \<open>C12: two clients never both hold a live lock on the same partition: in every state reachable by lock
  attempts, timely releases and the passage of time, in any interleaving, two unexpired claims on one key
  are the same claim.\<close>

theorem lock_mutual_exclusion:
  assumes "lock_reachable w" "(c, k, e) \<in> lw_claims w" "(c', k, e') \<in> lw_claims w" "lw_now w \<le> e" "lw_now w \<le> e'"
  shows "c = c' \<and> e = e'"
  using locks.claims_exclusive[OF _ assms(2-5), of "lw_table w"] lock_reachable_ok[OF assms(1)]
  by (simp add: world_ok_def)

theorem lock_mutual_exclusion_witness:
  "\<exists>w. lock_reachable w \<and> (''ann'', (''t'', ''m'', 1, 2), 60000000) \<in> lw_claims w \<and>
     (\<forall>c' e'. (c', (''t'', ''m'', 1, 2), e') \<in> lw_claims w \<longrightarrow> lw_now w \<le> e' \<longrightarrow> c' = ''ann'' \<and> e' = 60000000)"
proof -
  let ?start = "\<lparr>lw_table = [], lw_now = 0, lw_claims = {}\<rparr>"
  let ?w = "?start\<lparr>lw_table := fst (acquire_lock 0 (''t'', ''m'', 1, 2) ''ann'' 60 []),
     lw_claims := {(''ann'', (''t'', ''m'', 1, 2), 60000000)}\<rparr>"
  have "acquire_lock (lw_now ?start) (''t'', ''m'', 1, 2) ''ann'' 60 (lw_table ?start) =
      (fst (acquire_lock 0 (''t'', ''m'', 1, 2) ''ann'' 60 []), True)"
    by (simp add: acquire_lock_empty)
  from try_lock[OF this] have "lock_step ?start ?w" by (simp add: microseconds_per_second_def)
  then have r: "lock_reachable ?w" using lock_start lock_next by blast
  have "(''ann'', (''t'', ''m'', 1, 2), 60000000) \<in> lw_claims ?w" by simp
  with lock_mutual_exclusion[OF r this] r show ?thesis by (intro exI[of _ ?w]) fastforce
qed

text \<open>on a table that respects its unique key an attempt succeeds exactly when the check reports the
  partition free; afterwards the partition reads as locked up to and including the end of the time to
  live and free later, until it is released, and no other partition changes.\<close>

theorem acquire_lock_exact:
  assumes "lock_table_ok tbl" "acquire_lock now k c ttl tbl = (tbl', got)"
  shows "got = (\<not> check_lock now k tbl) \<and> lock_table_ok tbl' \<and>
     (got \<longrightarrow> (\<forall>t. check_lock t k tbl' \<longleftrightarrow> t \<le> now + ttl * microseconds_per_second)) \<and>
     (\<not> got \<longrightarrow> (\<forall>t. check_lock t k tbl' = check_lock t k tbl)) \<and>
     (\<forall>t k'. k' \<noteq> k \<longrightarrow> check_lock t k' tbl' = check_lock t k' tbl) \<and>
     (\<forall>t. \<not> check_lock t k (release_lock k tbl'))"
proof -
  have ok: "lock_table_ok tbl'" using acquire_lock_ok[OF assms(1), of now k c ttl] assms(2) by simp
  have ok': "lock_table_ok (release_lock k tbl')" using ok by (simp add: release_lock_def)
  have got: "got = (\<not> check_lock now k tbl)"
    using locks.acquire_iff_free[OF assms(1), of now k c ttl] assms(2) by (simp add: check_lock_holder[OF assms(1)])
  have busy: "holder_of tbl' = holder_of tbl" if "\<not> got"
    using that got acquire_lock_busy[OF assms(1), of k _ _ now c ttl] assms(2)
    by (auto simp: check_lock_holder[OF assms(1)])
  have free: "holder_of tbl' = (holder_of tbl)(k \<mapsto> (c, now + ttl * microseconds_per_second))" if "got"
  proof -
    have "e < now" if "holder_of tbl k = Some (c', e)" for c' e
      using \<open>got\<close> got that by (auto simp: check_lock_holder[OF assms(1)])
    then show ?thesis using acquire_lock_free[OF assms(1), of k now c ttl] assms(2) by simp
  qed
  show ?thesis
    unfolding check_lock_holder[OF ok] check_lock_holder[OF assms(1)] check_lock_holder[OF ok'] release_lock_holder[OF ok]
    using ok got[unfolded check_lock_holder[OF assms(1)]] busy free by (cases got) simp_all
qed

theorem acquire_lock_exact_witness:
  "check_lock 5 (''t'', ''m'', 1, 2) (fst (acquire_lock 0 (''t'', ''m'', 1, 2) ''ann'' 60 []))"
proof -
  have ok: "lock_table_ok []" by (simp add: lock_table_ok_def)
  show ?thesis
    using acquire_lock_exact[OF ok acquire_lock_empty, of 0 "''t''" "''m''" 1 2 "''ann''" 60]
    by (simp add: acquire_lock_empty microseconds_per_second_def)
qed

text \<open>a release does not check who owns the row. When a client whose time to live has passed releases
  late, it removes the lock of the client that took over, and a third client gets the partition while
  the second one's claim still counts.\<close>

theorem late_release_breaks_exclusion:
  assumes "t0 + ttl * microseconds_per_second < t1" "t1 \<le> t2" "t2 \<le> t1 + ttl' * microseconds_per_second"
  shows "\<exists>tbl1 tbl2 tbl3. acquire_lock t0 k c1 ttl [] = (tbl1, True) \<and> acquire_lock t1 k c2 ttl' tbl1 = (tbl2, True) \<and>
     check_lock t2 k tbl2 \<and> \<not> snd (acquire_lock t2 k c3 ttl' tbl2) \<and>
     acquire_lock t2 k c3 ttl' (release_lock k tbl2) = (tbl3, True)"
proof -
  obtain t m a b where k: "k = (t, m, a, b)" by (cases k)
  let ?row = "\<lambda>since c ttl. \<lparr>lk_tenant = t, lk_model = m, lk_start = a, lk_end = b, lk_by = c, lk_at = since, lk_ttl = ttl\<rparr>"
  have "acquire_lock t1 k c2 ttl' [?row t0 c1 ttl] = ([?row t1 c2 ttl'], True)"
    using assms(1) by (simp add: acquire_lock_def k rows_of_def row_key_def row_expiry_def)
  moreover have "check_lock t2 k [?row t1 c2 ttl']"
    using assms(3) by (simp add: check_lock_def k rows_of_def row_key_def row_expiry_def)
  moreover have "\<not> snd (acquire_lock t2 k c3 ttl' [?row t1 c2 ttl'])"
    using assms(3) by (simp add: acquire_lock_def k rows_of_def row_key_def row_expiry_def)
  moreover have "release_lock k [?row t1 c2 ttl'] = []"
    by (simp add: release_lock_def k row_key_def)
  ultimately show ?thesis using acquire_lock_empty k by metis
qed

theorem late_release_breaks_exclusion_witness:
  "\<exists>tbl3. acquire_lock 2000000 (''t'', ''m'', 1, 2) ''cy'' 60
     (release_lock (''t'', ''m'', 1, 2) (fst (acquire_lock 2000000 (''t'', ''m'', 1, 2) ''bob'' 60
       (fst (acquire_lock 0 (''t'', ''m'', 1, 2) ''ann'' 1 []))))) = (tbl3, True)"
  using late_release_breaks_exclusion[of 0 1 2000000 2000000 60 "(''t'', ''m'', 1, 2)" "''ann''" "''bob''" "''cy''"]
  by (auto simp: microseconds_per_second_def)

text \<open>a forced release writes an audit entry that is not linked to its predecessor, so on any log of the
  tenant that is not empty the chain no longer verifies once the new entry is within the limit.\<close>

theorem force_release_breaks_chain:
  assumes "audit_history sha isof tbl" "in_order tbl t" "\<forall>r\<in>set (tenant_rows tbl t). au_created_at r < now" "tenant_rows tbl t \<noteq> []"
    and "rows_of locks (t, m, a, b) \<noteq> []" "length (tenant_rows tbl t) < limit"
    and "force_release_lock sha date_text entry_id now (t, m, a, b) by_user reason (locks, tbl) = ((locks', tbl'), done)"
  shows "done \<and> rows_of locks' (t, m, a, b) = [] \<and> \<not> fst (verify_chain sha isof tbl' t limit)"
proof -
  from assms(5) obtain r rs where "rows_of locks (t, m, a, b) = r # rs" by (cases "rows_of locks (t, m, a, b)") auto
  with assms(7) obtain row where row: "tbl' = tbl @ [row]" "au_tenant row = t" "au_previous_hash row = None"
    "au_created_at row = now" "done" "locks' = release_lock (t, m, a, b) locks"
    by (auto simp: force_release_lock_def Let_def)
  have "in_order tbl' t" using assms(2,3) row by (simp add: in_order_def sorted_wrt_append)
  moreover have "take limit (tenant_rows tbl' t) = tenant_rows tbl t @ [row]"
    using row assms(6) by simp
  moreover have "\<not> chained sha isof None (tenant_rows tbl t @ [row])"
    using assms(4) row(3) by (simp add: chained_append last_hash_def)
  moreover have "rows_of locks' (t, m, a, b) = []"
    using row(6) by (simp add: release_lock_def rows_of_def)
  ultimately show ?thesis using row(5) by (simp add: verify_chain_sorted verify_loop_iff)
qed

theorem force_release_breaks_chain_witness:
  "\<not> fst (verify_chain (\<lambda>s. s) (\<lambda>_. ''ts'') (snd (fst (force_release_lock (\<lambda>s. s) (\<lambda>_. ''d'') ''e9'' 9
     (''t'', ''m'', 1, 2) ''root'' ''stuck'' (fst (acquire_lock 0 (''t'', ''m'', 1, 2) ''ann'' 60 []),
       [demo_audit_row])))) ''t'' 1000)"
proof -
  have h: "audit_history (\<lambda>s. s) (\<lambda>_. ''ts'') [demo_audit_row]"
    using demo_audit_row by (metis append_Nil audit_empty audit_logged)
  have rows: "tenant_rows [demo_audit_row] ''t'' = [demo_audit_row]" by (simp add: demo_audit_row_def)
  let ?X = "force_release_lock (\<lambda>s. s) (\<lambda>_. ''d'') ''e9'' 9
     (''t'', ''m'', 1, 2) ''root'' ''stuck'' (fst (acquire_lock 0 (''t'', ''m'', 1, 2) ''ann'' 60 []), [demo_audit_row])"
  have eq: "?X = ((fst (fst ?X), snd (fst ?X)), snd ?X)" by simp
  show ?thesis
    by (rule force_release_breaks_chain[OF h _ _ _ _ _ eq, THEN conjunct2, THEN conjunct2])
      (simp_all add: in_order_def acquire_lock_empty rows_of_def row_key_def demo_audit_row_def)
qed

end
