(* ===== verification/Stores.thy ===== *)
theory Stores
  imports Locks "HOL-Library.Product_Lexorder"
begin

text \<open>
  The repositories the execution service writes through: watermarks, runs, plans, telemetry,
  backfill checkpoints and backfill audit (\<^verbatim>\<open>core_engine/core_engine/state/repository.py\<close>,
  \<^verbatim>\<open>run_repository.py\<close>, \<^verbatim>\<open>plan_repository.py\<close>). A table is the list of its rows in insertion order, a
  \<^verbatim>\<open>WHERE\<close> is a filter, an \<^verbatim>\<open>ORDER BY\<close> a stable sort, a \<^verbatim>\<open>LIMIT\<close> a prefix, and an upsert replaces the row
  with the same key or inserts one. The tenant is an argument of every operation, as it is a field of every repository.
\<close>

subsection \<open>Watermarks\<close>

record wm_row =
  wm_tenant :: string
  wm_model :: string
  wm_start :: date
  wm_end :: date
  wm_row_count :: "int option"
  wm_last_updated :: timestamp

definition wm_rows :: "wm_row list \<Rightarrow> string \<Rightarrow> string \<Rightarrow> wm_row list" where
  "wm_rows tbl t m = filter (\<lambda>r. wm_tenant r = t \<and> wm_model r = m) tbl"

definition get_watermark :: "wm_row list \<Rightarrow> string \<Rightarrow> string \<Rightarrow> (date \<times> date) option" where
  "get_watermark tbl t m =
     (case sort_key (\<lambda>r. - wm_last_updated r) (wm_rows tbl t m) of
        [] \<Rightarrow> None | r # _ \<Rightarrow> Some (wm_start r, wm_end r))"

text \<open>\<^verbatim>\<open>INSERT \<dots> ON CONFLICT (\<dots>) DO UPDATE\<close>\<close>

definition upsert :: "('r \<Rightarrow> 'k) \<Rightarrow> ('r \<Rightarrow> 'r) \<Rightarrow> 'r \<Rightarrow> 'r list \<Rightarrow> 'r list" where
  "upsert key upd row tbl =
     (if list_ex (\<lambda>r. key r = key row) tbl then map (\<lambda>r. if key r = key row then upd r else r) tbl
      else tbl @ [row])"

definition wm_key :: "wm_row \<Rightarrow> string \<times> string \<times> date \<times> date" where
  "wm_key r = (wm_tenant r, wm_model r, wm_start r, wm_end r)"

definition update_watermark ::
  "timestamp \<Rightarrow> string \<Rightarrow> string \<Rightarrow> date \<Rightarrow> date \<Rightarrow> int option \<Rightarrow> wm_row list \<Rightarrow> wm_row list" where
  "update_watermark now t m s e rc tbl =
     upsert wm_key (\<lambda>r. r\<lparr>wm_row_count := rc, wm_last_updated := now\<rparr>)
       \<lparr>wm_tenant = t, wm_model = m, wm_start = s, wm_end = e, wm_row_count = rc, wm_last_updated = now\<rparr> tbl"

definition get_all_for_model :: "wm_row list \<Rightarrow> string \<Rightarrow> string \<Rightarrow> wm_row list" where
  "get_all_for_model tbl t m = sort_key wm_start (wm_rows tbl t m)"

text \<open>The window function numbers the rows of each model by descending \<^verbatim>\<open>last_updated\<close>; the outer query keeps number 1.\<close>

definition get_watermarks_batch :: "wm_row list \<Rightarrow> string \<Rightarrow> string list \<Rightarrow> (string \<times> date \<times> date) list" where
  "get_watermarks_batch tbl t names =
     (let rows = filter (\<lambda>r. wm_tenant r = t \<and> wm_model r \<in> set names) tbl;
          ranked = sort_key (\<lambda>r. - wm_last_updated r) rows;
          best = (\<lambda>m. filter (\<lambda>r. wm_model r = m) ranked)
      in concat (map (\<lambda>m. case best m of [] \<Rightarrow> [] | r # _ \<Rightarrow> [(m, wm_start r, wm_end r)]) (remdups (map wm_model rows))))"

subsection \<open>Runs\<close>

record run_row =
  rn_run_id :: string
  rn_tenant :: string
  rn_plan_id :: string
  rn_step_id :: string
  rn_model :: string
  rn_status :: string
  rn_started :: "timestamp option"
  rn_finished :: "timestamp option"
  rn_range_start :: "date option"
  rn_range_end :: "date option"
  rn_error :: "string option"
  rn_executor_version :: string
  rn_retry_count :: nat
  rn_cost :: "rat option"

datatype db_error = UniqueViolation | CheckViolation | RowNotFound

text \<open>The check constraint of the \<^verbatim>\<open>runs\<close> table in \<^verbatim>\<open>tables.py\<close> and migration 022. A database older than that migration has none.\<close>

definition ck_runs_status :: "string \<Rightarrow> bool" where
  "ck_runs_status s \<longleftrightarrow> s \<in> {''PENDING'', ''RUNNING'', ''COMPLETED'', ''FAILED'', ''CANCELLED''}"

definition create_run :: "(string \<Rightarrow> bool) \<Rightarrow> run_row \<Rightarrow> run_row list \<Rightarrow> db_error + run_row list" where
  "create_run check row tbl =
     (if \<not> check (rn_status row) then Inl CheckViolation
      else if list_ex (\<lambda>r. rn_run_id r = rn_run_id row) tbl then Inl UniqueViolation
      else Inr (tbl @ [row]))"

definition update_run :: "string \<Rightarrow> string \<Rightarrow> (run_row \<Rightarrow> run_row) \<Rightarrow> run_row list \<Rightarrow> run_row list" where
  "update_run t run_id f tbl = map (\<lambda>r. if rn_tenant r = t \<and> rn_run_id r = run_id then f r else r) tbl"

definition update_status ::
  "(string \<Rightarrow> bool) \<Rightarrow> string \<Rightarrow> string \<Rightarrow> string \<Rightarrow> timestamp option \<Rightarrow> string option \<Rightarrow> run_row list \<Rightarrow>
   db_error + run_row list" where
  "update_status check t run_id status finished_at error_message tbl =
     (if list_ex (\<lambda>r. rn_tenant r = t \<and> rn_run_id r = run_id) tbl \<and> \<not> check status then Inl CheckViolation
      else Inr (update_run t run_id
        (\<lambda>r. r\<lparr>rn_status := status,
               rn_finished := (case finished_at of None \<Rightarrow> rn_finished r | Some f \<Rightarrow> Some f),
               rn_error := (case error_message of None \<Rightarrow> rn_error r | Some e \<Rightarrow> Some e)\<rparr>) tbl))"

definition update_cost :: "string \<Rightarrow> string \<Rightarrow> rat \<Rightarrow> run_row list \<Rightarrow> run_row list" where
  "update_cost t run_id c tbl = update_run t run_id (\<lambda>r. r\<lparr>rn_cost := Some c\<rparr>) tbl"

text \<open>\<^verbatim>\<open>ASC NULLS LAST\<close>, \<^verbatim>\<open>DESC NULLS LAST\<close> and the plain \<^verbatim>\<open>DESC\<close> of PostgreSQL, which puts nulls first.\<close>

definition asc_nulls_last :: "timestamp option \<Rightarrow> nat \<times> int" where
  "asc_nulls_last x = (case x of Some t \<Rightarrow> (0, t) | None \<Rightarrow> (1, 0))"

definition desc_nulls_last :: "timestamp option \<Rightarrow> nat \<times> int" where
  "desc_nulls_last x = (case x of Some t \<Rightarrow> (0, - t) | None \<Rightarrow> (1, 0))"

definition desc_nulls_first :: "timestamp option \<Rightarrow> nat \<times> int" where
  "desc_nulls_first x = (case x of None \<Rightarrow> (0, 0) | Some t \<Rightarrow> (1, - t))"

definition get_by_plan :: "run_row list \<Rightarrow> string \<Rightarrow> string \<Rightarrow> run_row list" where
  "get_by_plan tbl t plan_id =
     sort_key (asc_nulls_last \<circ> rn_started) (filter (\<lambda>r. rn_tenant r = t \<and> rn_plan_id r = plan_id) tbl)"

definition get_by_id :: "run_row list \<Rightarrow> string \<Rightarrow> string \<Rightarrow> run_row option" where
  "get_by_id tbl t run_id = find (\<lambda>r. rn_tenant r = t \<and> rn_run_id r = run_id) tbl"

definition model_runs :: "run_row list \<Rightarrow> string \<Rightarrow> string \<Rightarrow> run_row list" where
  "model_runs tbl t m = filter (\<lambda>r. rn_tenant r = t \<and> rn_model r = m) tbl"

definition get_recent_runs :: "run_row list \<Rightarrow> string \<Rightarrow> string \<Rightarrow> nat \<Rightarrow> run_row list" where
  "get_recent_runs tbl t m limit = take limit (sort_key (desc_nulls_last \<circ> rn_started) (model_runs tbl t m))"

text \<open>\<^verbatim>\<open>avg\<close> of SQL: null on no (non-null) value.\<close>

definition sql_avg :: "rat list \<Rightarrow> rat option" where
  "sql_avg xs = (if xs = [] then None else Some (sum_list xs / of_nat (length xs)))"

definition run_seconds :: "run_row \<Rightarrow> rat" where
  "run_seconds r = of_int (the (rn_finished r) - the (rn_started r)) / of_int microseconds_per_second"

definition completed_runs :: "run_row list \<Rightarrow> run_row list" where
  "completed_runs = filter (\<lambda>r. rn_status r = ''COMPLETED'' \<and> rn_finished r \<noteq> None \<and> rn_started r \<noteq> None)"

record run_stats =
  rs_avg_runtime :: "rat option"
  rs_avg_cost :: "rat option"
  rs_run_count :: nat

definition stats_of :: "run_row list \<Rightarrow> run_stats" where
  "stats_of rows =
     (if rows = [] then \<lparr>rs_avg_runtime = None, rs_avg_cost = None, rs_run_count = 0\<rparr>
      else \<lparr>rs_avg_runtime = sql_avg (map run_seconds rows),
            rs_avg_cost = sql_avg (map (the \<circ> rn_cost) (filter (\<lambda>r. rn_cost r \<noteq> None) rows)),
            rs_run_count = length rows\<rparr>)"

definition last_completed :: "run_row list \<Rightarrow> run_row list" where
  "last_completed rows = take 30 (sort_key (desc_nulls_first \<circ> rn_finished) (completed_runs rows))"

definition get_historical_stats :: "run_row list \<Rightarrow> string \<Rightarrow> string \<Rightarrow> run_stats" where
  "get_historical_stats tbl t m = stats_of (last_completed (model_runs tbl t m))"

definition get_historical_stats_batch :: "run_row list \<Rightarrow> string \<Rightarrow> string list \<Rightarrow> (string \<times> run_stats) list" where
  "get_historical_stats_batch tbl t names =
     (let rows = completed_runs (filter (\<lambda>r. rn_tenant r = t \<and> rn_model r \<in> set names) tbl);
          ranked = sort_key (desc_nulls_first \<circ> rn_finished) rows;
          newest = (\<lambda>m. take 30 (filter (\<lambda>r. rn_model r = m) ranked))
      in map (\<lambda>m. (m, stats_of (newest m))) (remdups (map rn_model rows)))"

definition get_failure_rates_batch :: "run_row list \<Rightarrow> string \<Rightarrow> string list \<Rightarrow> (string \<times> rat) list" where
  "get_failure_rates_batch tbl t names =
     (let rows = filter (\<lambda>r. rn_tenant r = t \<and> rn_model r \<in> set names) tbl;
          of_model = (\<lambda>m. filter (\<lambda>r. rn_model r = m) rows)
      in map (\<lambda>m. (m, of_nat (length (filter (\<lambda>r. rn_status r = ''FAILED'') (of_model m))) /
                     of_nat (length (of_model m)))) (remdups (map rn_model rows)) @
         map (\<lambda>m. (m, 0)) (filter (\<lambda>m. m \<notin> rn_model ` set rows) (remdups names)))"

definition count_for_model :: "run_row list \<Rightarrow> string \<Rightarrow> string \<Rightarrow> nat" where
  "count_for_model tbl t m = length (model_runs tbl t m)"

definition count_by_status :: "run_row list \<Rightarrow> string \<Rightarrow> string \<Rightarrow> string \<Rightarrow> nat" where
  "count_by_status tbl t m s = length (filter (\<lambda>r. rn_status r = s) (model_runs tbl t m))"

record run_summary =
  sy_total_runs :: nat
  sy_failed_runs :: nat
  sy_recent_runs :: nat
  sy_recent_failures :: nat
  sy_consecutive_failures :: nat
  sy_avg_runtime :: rat
  sy_recent_avg_runtime :: rat
  sy_runtime_trend :: rat
  sy_hours_since_last_success :: rat
  sy_last_error_type :: "string option"
  sy_recent_costs :: "rat list"
  sy_historical_costs :: "rat list"

definition get_model_run_summary :: "timestamp \<Rightarrow> run_row list \<Rightarrow> string \<Rightarrow> string \<Rightarrow> run_summary" where
  "get_model_run_summary now tbl t m =
     (let runs = model_runs tbl t m;
          recent = filter (\<lambda>r. case rn_started r of Some s \<Rightarrow> s \<ge> now - 7 * microseconds_per_day | None \<Rightarrow> False) runs;
          failed = filter (\<lambda>r. rn_status r = ''FAILED'');
          ordered = get_recent_runs tbl t m 20;
          avg = (case sql_avg (map run_seconds (completed_runs runs)) of Some a \<Rightarrow> a | None \<Rightarrow> 0);
          recent_avg = (case sql_avg (map run_seconds (completed_runs recent)) of Some a \<Rightarrow> a | None \<Rightarrow> 0);
          ended = sort_key (desc_nulls_first \<circ> rn_finished)
            (filter (\<lambda>r. rn_status r = ''COMPLETED'' \<and> rn_finished r \<noteq> None) runs);
          priced = (\<lambda>rs. sort_key (desc_nulls_first \<circ> rn_started) (filter (\<lambda>r. rn_cost r \<noteq> None) rs))
      in \<lparr>sy_total_runs = length runs, sy_failed_runs = length (failed runs),
          sy_recent_runs = length recent, sy_recent_failures = length (failed recent),
          sy_consecutive_failures = length (takeWhile (\<lambda>r. rn_status r = ''FAILED'') ordered),
          sy_avg_runtime = avg, sy_recent_avg_runtime = recent_avg,
          sy_runtime_trend = (if avg > 0 then (recent_avg - avg) / avg else 0),
          sy_hours_since_last_success =
            (case ended of [] \<Rightarrow> 0
             | r # _ \<Rightarrow> of_int (now - the (rn_finished r)) / of_int microseconds_per_second / 3600),
          sy_last_error_type =
            (case ordered of r # _ \<Rightarrow> if rn_status r = ''FAILED'' then rn_error r else None | [] \<Rightarrow> None),
          sy_recent_costs = map (the \<circ> rn_cost) (priced recent),
          sy_historical_costs = map (the \<circ> rn_cost) (take 50 (priced runs))\<rparr>)"

subsection \<open>Plans\<close>

text \<open>A step and an approval as the stored JSON documents hold them; dates are already parsed.\<close>

record stored_step =
  st_step_id :: string
  st_model :: string
  st_run_type :: string
  st_input_range :: "(date \<times> date) option"
  st_depends_on :: "string list"
  st_parallel_group :: nat
  st_reason :: string

record approval =
  ap_user :: string
  ap_comment :: string
  ap_at :: timestamp
  ap_rejected :: bool \<comment> \<open>the flag that a rejection adds\<close>

record plan_row =
  pr_plan_id :: string
  pr_tenant :: string
  pr_base_sha :: string
  pr_target_sha :: string
  pr_steps :: "stored_step list"
  pr_approvals :: "approval list"
  pr_created_at :: timestamp

definition save_plan ::
  "timestamp \<Rightarrow> string \<Rightarrow> string \<Rightarrow> string \<Rightarrow> string \<Rightarrow> stored_step list \<Rightarrow> plan_row list \<Rightarrow> db_error + plan_row list" where
  "save_plan now t plan_id base_sha target_sha steps tbl =
     (if list_ex (\<lambda>r. pr_plan_id r = plan_id) tbl then Inl UniqueViolation
      else Inr (tbl @ [\<lparr>pr_plan_id = plan_id, pr_tenant = t, pr_base_sha = base_sha, pr_target_sha = target_sha,
                        pr_steps = steps, pr_approvals = [], pr_created_at = now\<rparr>]))"

definition get_plan :: "plan_row list \<Rightarrow> string \<Rightarrow> string \<Rightarrow> plan_row option" where
  "get_plan tbl t plan_id = find (\<lambda>r. pr_tenant r = t \<and> pr_plan_id r = plan_id) tbl"

definition add_approval ::
  "timestamp \<Rightarrow> string \<Rightarrow> string \<Rightarrow> string \<Rightarrow> string \<Rightarrow> plan_row list \<Rightarrow> db_error + plan_row list" where
  "add_approval now t plan_id user comment tbl =
     (if \<not> list_ex (\<lambda>r. pr_tenant r = t \<and> pr_plan_id r = plan_id) tbl then Inl RowNotFound
      else Inr (map (\<lambda>r. if pr_tenant r = t \<and> pr_plan_id r = plan_id
                         then r\<lparr>pr_approvals := pr_approvals r @ [\<lparr>ap_user = user, ap_comment = comment, ap_at = now, ap_rejected = False\<rparr>]\<rparr>
                         else r) tbl))"

definition list_recent :: "plan_row list \<Rightarrow> string \<Rightarrow> nat \<Rightarrow> nat \<Rightarrow> plan_row list" where
  "list_recent tbl t limit offset =
     take limit (drop offset (sort_key (\<lambda>r. - pr_created_at r) (filter (\<lambda>r. pr_tenant r = t) tbl)))"

text \<open>Descending by creation time, then by plan identifier: the reverse of the ascending order of the pair.\<close>

definition list_after_cursor :: "plan_row list \<Rightarrow> string \<Rightarrow> timestamp \<Rightarrow> string \<Rightarrow> nat \<Rightarrow> plan_row list" where
  "list_after_cursor tbl t cursor_ts cursor_id limit =
     take limit (rev (sort_key (\<lambda>r. (pr_created_at r, pr_plan_id r))
       (filter (\<lambda>r. pr_tenant r = t \<and>
          (pr_created_at r < cursor_ts \<or> pr_created_at r = cursor_ts \<and> pr_plan_id r < cursor_id)) tbl)))"

subsection \<open>Telemetry\<close>

record telemetry_row =
  te_tenant :: string
  te_run_id :: string
  te_model :: string
  te_runtime_seconds :: rat
  te_shuffle_bytes :: int
  te_input_rows :: int
  te_output_rows :: int
  te_partition_count :: int
  te_captured_at :: timestamp

definition record_telemetry :: "telemetry_row \<Rightarrow> telemetry_row list \<Rightarrow> telemetry_row list" where
  "record_telemetry row tbl = tbl @ [row]"

definition telemetry_for_run :: "telemetry_row list \<Rightarrow> string \<Rightarrow> string \<Rightarrow> telemetry_row list" where
  "telemetry_for_run tbl t run_id =
     sort_key te_captured_at (filter (\<lambda>r. te_tenant r = t \<and> te_run_id r = run_id) tbl)"

definition telemetry_for_model :: "telemetry_row list \<Rightarrow> string \<Rightarrow> string \<Rightarrow> nat \<Rightarrow> telemetry_row list" where
  "telemetry_for_model tbl t m limit =
     take limit (sort_key (\<lambda>r. - te_captured_at r) (filter (\<lambda>r. te_tenant r = t \<and> te_model r = m) tbl))"

definition cleanup_old_telemetry ::
  "timestamp \<Rightarrow> string \<Rightarrow> int \<Rightarrow> telemetry_row list \<Rightarrow> telemetry_row list \<times> nat" where
  "cleanup_old_telemetry now t retention_days tbl =
     (let old = (\<lambda>r. te_tenant r = t \<and> te_captured_at r < now - retention_days * microseconds_per_day)
      in (filter (\<lambda>r. \<not> old r) tbl, length (filter old tbl)))"

subsection \<open>Backfill checkpoints\<close>

record checkpoint_row =
  cp_backfill_id :: string
  cp_tenant :: string
  cp_model :: string
  cp_overall_start :: date
  cp_overall_end :: date
  cp_completed_through :: "date option"
  cp_chunk_size_days :: int
  cp_status :: string
  cp_total_chunks :: nat
  cp_completed_chunks :: nat
  cp_error_message :: "string option"
  cp_cluster_size :: "string option"
  cp_plan_id :: "string option"
  cp_created_at :: timestamp
  cp_updated_at :: timestamp

definition create_checkpoint ::
  "timestamp \<Rightarrow> string \<Rightarrow> string \<Rightarrow> string \<Rightarrow> date \<Rightarrow> date \<Rightarrow> int \<Rightarrow> nat \<Rightarrow> string option \<Rightarrow> string option \<Rightarrow>
   checkpoint_row list \<Rightarrow> db_error + checkpoint_row list" where
  "create_checkpoint now t backfill_id m s e chunk_size chunks_total cluster plan_id tbl =
     (if list_ex (\<lambda>r. cp_backfill_id r = backfill_id) tbl then Inl UniqueViolation
      else Inr (tbl @ [\<lparr>cp_backfill_id = backfill_id, cp_tenant = t, cp_model = m, cp_overall_start = s,
        cp_overall_end = e, cp_completed_through = None, cp_chunk_size_days = chunk_size, cp_status = ''RUNNING'',
        cp_total_chunks = chunks_total, cp_completed_chunks = 0, cp_error_message = None, cp_cluster_size = cluster,
        cp_plan_id = plan_id, cp_created_at = now, cp_updated_at = now\<rparr>]))"

definition get_checkpoint :: "checkpoint_row list \<Rightarrow> string \<Rightarrow> string \<Rightarrow> checkpoint_row option" where
  "get_checkpoint tbl t backfill_id = find (\<lambda>r. cp_tenant r = t \<and> cp_backfill_id r = backfill_id) tbl"

definition update_checkpoint ::
  "string \<Rightarrow> string \<Rightarrow> (checkpoint_row \<Rightarrow> checkpoint_row) \<Rightarrow> checkpoint_row list \<Rightarrow> checkpoint_row list" where
  "update_checkpoint t backfill_id f tbl =
     map (\<lambda>r. if cp_tenant r = t \<and> cp_backfill_id r = backfill_id then f r else r) tbl"

definition update_progress ::
  "timestamp \<Rightarrow> string \<Rightarrow> string \<Rightarrow> date \<Rightarrow> nat \<Rightarrow> checkpoint_row list \<Rightarrow> checkpoint_row list" where
  "update_progress now t backfill_id through completed =
     update_checkpoint t backfill_id (\<lambda>r. r\<lparr>cp_completed_through := Some through, cp_completed_chunks := completed,
       cp_updated_at := now\<rparr>)"

definition mark_completed :: "timestamp \<Rightarrow> string \<Rightarrow> string \<Rightarrow> checkpoint_row list \<Rightarrow> checkpoint_row list" where
  "mark_completed now t backfill_id =
     update_checkpoint t backfill_id (\<lambda>r. r\<lparr>cp_status := ''COMPLETED'', cp_updated_at := now\<rparr>)"

definition mark_failed :: "timestamp \<Rightarrow> string \<Rightarrow> string \<Rightarrow> string \<Rightarrow> checkpoint_row list \<Rightarrow> checkpoint_row list" where
  "mark_failed now t backfill_id error_message =
     update_checkpoint t backfill_id (\<lambda>r. r\<lparr>cp_status := ''FAILED'',
       cp_error_message := Some (take 2000 error_message), cp_updated_at := now\<rparr>)"

definition get_resumable :: "checkpoint_row list \<Rightarrow> string \<Rightarrow> string option \<Rightarrow> checkpoint_row list" where
  "get_resumable tbl t model_name =
     sort_key (\<lambda>r. - cp_created_at r)
       (filter (\<lambda>r. cp_tenant r = t \<and> cp_status r \<in> {''FAILED'', ''RUNNING''} \<and>
          (case model_name of None \<Rightarrow> True | Some m \<Rightarrow> cp_model r = m)) tbl)"

definition list_for_model :: "checkpoint_row list \<Rightarrow> string \<Rightarrow> string \<Rightarrow> nat \<Rightarrow> checkpoint_row list" where
  "list_for_model tbl t m limit =
     take limit (sort_key (\<lambda>r. - cp_created_at r) (filter (\<lambda>r. cp_tenant r = t \<and> cp_model r = m) tbl))"

subsection \<open>Backfill audit\<close>

record chunk_row =
  ch_tenant :: string
  ch_backfill_id :: string
  ch_model :: string
  ch_start :: date
  ch_end :: date
  ch_status :: string
  ch_run_id :: "string option"
  ch_error :: "string option"
  ch_duration :: "rat option"
  ch_executed_at :: timestamp

definition record_chunk ::
  "timestamp \<Rightarrow> string \<Rightarrow> string \<Rightarrow> string \<Rightarrow> date \<Rightarrow> date \<Rightarrow> string \<Rightarrow> string option \<Rightarrow> string option \<Rightarrow> rat option \<Rightarrow>
   chunk_row list \<Rightarrow> chunk_row list" where
  "record_chunk now t backfill_id m s e status run_id error_message duration tbl =
     tbl @ [\<lparr>ch_tenant = t, ch_backfill_id = backfill_id, ch_model = m, ch_start = s, ch_end = e, ch_status = status,
       ch_run_id = run_id,
       ch_error = (case error_message of None \<Rightarrow> None | Some msg \<Rightarrow> if msg = [] then None else Some (take 2000 msg)),
       ch_duration = duration, ch_executed_at = now\<rparr>]"

definition chunk_history :: "chunk_row list \<Rightarrow> string \<Rightarrow> string \<Rightarrow> nat \<Rightarrow> chunk_row list" where
  "chunk_history tbl t m limit =
     take limit (sort_key (\<lambda>r. - ch_executed_at r) (filter (\<lambda>r. ch_tenant r = t \<and> ch_model r = m) tbl))"

definition chunks_for_backfill :: "chunk_row list \<Rightarrow> string \<Rightarrow> string \<Rightarrow> chunk_row list" where
  "chunks_for_backfill tbl t backfill_id =
     sort_key ch_start (filter (\<lambda>r. ch_tenant r = t \<and> ch_backfill_id r = backfill_id) tbl)"

end
