(* ===== verification/Access.thy ===== *)
theory Access
  imports Json
begin

text \<open>
  Who may do what: the role hierarchy of \<^verbatim>\<open>api/api/middleware/rbac.py\<close>, the license tiers of
  \<^verbatim>\<open>core_engine/core_engine/license/feature_flags.py\<close> and the signed license files of
  \<^verbatim>\<open>license_manager.py\<close>. Roles and tiers share the contract \<open>tiered_grants\<close>: a hierarchy of levels each
  of which grants what the level below grants.
\<close>

locale tiered_grants =
  fixes levels :: "'l::linorder set"
    and grants :: "'l \<Rightarrow> 'f set"
  assumes finite_levels: "finite levels"
    and grants_mono: "a \<in> levels \<Longrightarrow> b \<in> levels \<Longrightarrow> a \<le> b \<Longrightarrow> grants a \<subseteq> grants b"
begin

definition least_level :: "'f \<Rightarrow> 'l" where
  "least_level f = Min {l \<in> levels. f \<in> grants l}"

lemma granted_iff_least:
  assumes "l \<in> levels" "\<exists>k\<in>levels. f \<in> grants k"
  shows "f \<in> grants l \<longleftrightarrow> least_level f \<le> l"
proof -
  have fin: "finite {k \<in> levels. f \<in> grants k}" and ne: "{k \<in> levels. f \<in> grants k} \<noteq> {}"
    using finite_levels assms(2) by auto
  have least: "least_level f \<in> levels" "f \<in> grants (least_level f)"
    using Min_in[OF fin ne] by (simp_all add: least_level_def)
  show ?thesis
  proof
    assume "f \<in> grants l"
    then show "least_level f \<le> l" using Min_le[OF fin, of l] assms(1) by (simp add: least_level_def)
  next
    assume "least_level f \<le> l"
    then show "f \<in> grants l" using grants_mono[OF least(1) assms(1)] least(2) by blast
  qed
qed

lemma denied_below: "a \<in> levels \<Longrightarrow> b \<in> levels \<Longrightarrow> a \<le> b \<Longrightarrow> f \<notin> grants b \<Longrightarrow> f \<notin> grants a"
  using grants_mono by blast

end

subsection \<open>License tiers\<close>

datatype license_tier = COMMUNITY | TEAM | ENTERPRISE

fun tier_rank :: "license_tier \<Rightarrow> nat" where
  "tier_rank COMMUNITY = 0"
| "tier_rank TEAM = 1"
| "tier_rank ENTERPRISE = 2"

lemma tier_rank_inj [simp]: "tier_rank a = tier_rank b \<longleftrightarrow> a = b"
  by (cases a; cases b) simp_all

instantiation license_tier :: linorder
begin

definition less_eq_license_tier :: "license_tier \<Rightarrow> license_tier \<Rightarrow> bool" where
  "less_eq_license_tier a b \<longleftrightarrow> tier_rank a \<le> tier_rank b"

definition less_license_tier :: "license_tier \<Rightarrow> license_tier \<Rightarrow> bool" where
  "less_license_tier a b \<longleftrightarrow> tier_rank a < tier_rank b"

instance
  by standard (auto simp: less_eq_license_tier_def less_license_tier_def dest: le_antisym)

end

datatype feature =
    PLAN_GENERATE | PLAN_APPLY | MODEL_LOADING | LINEAGE_VIEW | BACKFILL | LOCAL_DEV
  | AI_ADVISORY | COST_TRACKING | MIGRATION_TOOLS | STRUCTURED_TELEMETRY | API_ACCESS | TEAM_MANAGEMENT
  | MULTI_TENANT | SSO_OIDC | COST_OPTIMIZATION | FAILURE_PREDICTION | AI_RESPONSE_CACHING | AUDIT_LOG
  | RECONCILIATION | LLM_BUDGET_GUARDRAILS

definition community_features :: "feature set" where
  "community_features = {PLAN_GENERATE, PLAN_APPLY, MODEL_LOADING, LINEAGE_VIEW, BACKFILL, LOCAL_DEV}"

definition team_features :: "feature set" where
  "team_features = community_features \<union>
     {AI_ADVISORY, COST_TRACKING, MIGRATION_TOOLS, STRUCTURED_TELEMETRY, API_ACCESS, TEAM_MANAGEMENT}"

definition enterprise_features :: "feature set" where
  "enterprise_features = team_features \<union>
     {MULTI_TENANT, SSO_OIDC, COST_OPTIMIZATION, FAILURE_PREDICTION, AI_RESPONSE_CACHING, AUDIT_LOG,
      RECONCILIATION, LLM_BUDGET_GUARDRAILS}"

lemmas feature_sets = community_features_def team_features_def enterprise_features_def

fun get_tier_features :: "license_tier \<Rightarrow> feature set" where
  "get_tier_features COMMUNITY = community_features"
| "get_tier_features TEAM = team_features"
| "get_tier_features ENTERPRISE = enterprise_features"

definition is_feature_enabled :: "license_tier \<Rightarrow> feature \<Rightarrow> bool" where
  "is_feature_enabled tier f \<longleftrightarrow> f \<in> get_tier_features tier"

definition get_required_tier :: "feature \<Rightarrow> license_tier" where
  "get_required_tier f =
     (case filter (\<lambda>tier. f \<in> get_tier_features tier) [COMMUNITY, TEAM, ENTERPRISE] of
        tier # _ \<Rightarrow> tier | [] \<Rightarrow> ENTERPRISE)"

lemma tier_cases: "(tier :: license_tier) \<in> {COMMUNITY, TEAM, ENTERPRISE}"
  by (cases tier) simp_all

interpretation tiers: tiered_grants "{COMMUNITY, TEAM, ENTERPRISE}" get_tier_features
  by unfold_locales (auto simp: less_eq_license_tier_def feature_sets)

lemma every_feature_sold: "\<exists>tier\<in>{COMMUNITY, TEAM, ENTERPRISE}. f \<in> get_tier_features tier"
  by (cases f) (auto simp: feature_sets)

lemma required_tier_least: "get_required_tier f = tiers.least_level f"
proof -
  have "f \<in> get_tier_features tier \<longleftrightarrow> get_required_tier f \<le> tier" for tier
    by (cases f; cases tier) (simp_all add: get_required_tier_def feature_sets less_eq_license_tier_def)
  moreover have "f \<in> get_tier_features tier \<longleftrightarrow> tiers.least_level f \<le> tier" for tier
    by (rule tiers.granted_iff_least[OF tier_cases every_feature_sold])
  ultimately show ?thesis by (metis order_antisym order_refl)
qed

subsection \<open>Roles\<close>

datatype role = VIEWER | OPERATOR | ENGINEER | ADMIN | SERVICE

fun role_value :: "role \<Rightarrow> nat" where
  "role_value VIEWER = 0"
| "role_value OPERATOR = 1"
| "role_value ENGINEER = 2"
| "role_value ADMIN = 3"
| "role_value SERVICE = 10"

lemma role_value_inj [simp]: "role_value a = role_value b \<longleftrightarrow> a = b"
  by (cases a; cases b) simp_all

instantiation role :: linorder
begin

definition less_eq_role :: "role \<Rightarrow> role \<Rightarrow> bool" where
  "less_eq_role a b \<longleftrightarrow> role_value a \<le> role_value b"

definition less_role :: "role \<Rightarrow> role \<Rightarrow> bool" where
  "less_role a b \<longleftrightarrow> role_value a < role_value b"

instance
  by standard (auto simp: less_eq_role_def less_role_def dest: le_antisym)

end

datatype permission =
    READ_PLANS | CREATE_PLANS | APPROVE_PLANS | APPLY_PLANS | READ_MODELS | WRITE_MODELS | READ_RUNS
  | CREATE_BACKFILLS | MANAGE_CREDENTIALS | READ_AUDIT | MANAGE_SETTINGS | MANAGE_WEBHOOKS | RUN_TESTS
  | READ_TEST_RESULTS | MANAGE_ENVIRONMENTS | CREATE_EPHEMERAL_ENVS | PROMOTE_ENVIRONMENTS
  | VIEW_ANALYTICS | VIEW_REPORTS | MANAGE_HEALTH | VIEW_INVOICES

definition viewer_perms :: "permission set" where
  "viewer_perms = {READ_PLANS, READ_MODELS, READ_RUNS, READ_TEST_RESULTS}"

definition operator_perms :: "permission set" where
  "operator_perms = viewer_perms \<union> {APPROVE_PLANS, CREATE_BACKFILLS, READ_AUDIT}"

definition engineer_perms :: "permission set" where
  "engineer_perms = operator_perms \<union> {CREATE_PLANS, APPLY_PLANS, WRITE_MODELS, CREATE_EPHEMERAL_ENVS, RUN_TESTS}"

definition admin_perms :: "permission set" where
  "admin_perms = engineer_perms \<union>
     {MANAGE_CREDENTIALS, MANAGE_SETTINGS, MANAGE_WEBHOOKS, MANAGE_ENVIRONMENTS, PROMOTE_ENVIRONMENTS,
      VIEW_ANALYTICS, VIEW_REPORTS, MANAGE_HEALTH, VIEW_INVOICES}"

definition service_perms :: "permission set" where
  "service_perms = {READ_PLANS, READ_MODELS, READ_RUNS, CREATE_PLANS, APPLY_PLANS}"

lemmas perm_sets = viewer_perms_def operator_perms_def engineer_perms_def admin_perms_def service_perms_def

fun role_permissions :: "role \<Rightarrow> permission set" where
  "role_permissions VIEWER = viewer_perms"
| "role_permissions OPERATOR = operator_perms"
| "role_permissions ENGINEER = engineer_perms"
| "role_permissions ADMIN = admin_perms"
| "role_permissions SERVICE = service_perms"

definition role_has_permission :: "role \<Rightarrow> permission \<Rightarrow> bool" where
  "role_has_permission r p \<longleftrightarrow> p \<in> role_permissions r"

interpretation roles: tiered_grants "{VIEWER, OPERATOR, ENGINEER, ADMIN}" role_permissions
  by unfold_locales (auto simp: less_eq_role_def perm_sets)

definition role_lookup :: "(string \<times> role) list" where
  "role_lookup = [(''viewer'', VIEWER), (''operator'', OPERATOR), (''engineer'', ENGINEER), (''admin'', ADMIN),
     (''service'', SERVICE)]"

definition parse_role :: "string \<Rightarrow> role option" where
  "parse_role raw = map_of role_lookup (py_lower (py_strip raw))"

datatype http_error = HTTPException nat

text \<open>A request's state holds the claims the authentication middleware set.\<close>

record request_state =
  rq_role :: "string option"
  rq_sub :: "string option"

definition get_user_role :: "request_state \<Rightarrow> http_error + role" where
  "get_user_role req =
     (case rq_role req of
        None \<Rightarrow> if rq_sub req \<noteq> None then Inl (HTTPException 401) else Inr VIEWER
      | Some raw \<Rightarrow> (case parse_role raw of Some r \<Rightarrow> Inr r | None \<Rightarrow> Inl (HTTPException 403)))"

definition require_permission :: "permission \<Rightarrow> request_state \<Rightarrow> http_error + role" where
  "require_permission p req =
     (case get_user_role req of
        Inl e \<Rightarrow> Inl e
      | Inr r \<Rightarrow> if \<not> role_has_permission r p then Inl (HTTPException 403) else Inr r)"

definition require_role :: "role \<Rightarrow> request_state \<Rightarrow> http_error + role" where
  "require_role min_role req =
     (case get_user_role req of
        Inl e \<Rightarrow> Inl e
      | Inr r \<Rightarrow> if r = SERVICE then Inl (HTTPException 403)
                 else if r < min_role then Inl (HTTPException 403) else Inr r)"

subsection \<open>License files\<close>

record license_file =
  lf_license_id :: string
  lf_tenant_id :: string
  lf_tier :: license_tier
  lf_issued_at :: timestamp
  lf_expires_at :: timestamp
  lf_max_models :: int
  lf_max_plan_runs_per_day :: int
  lf_ai_enabled :: bool
  lf_features :: "string list"
  lf_signature :: string

datatype license_error = LicenseVerificationError | LicenseExpiredError | LicenseLimitExceededError | InvalidDocument

record license_manager =
  lm_license :: "license_file option"
  lm_effective_tier :: license_tier

definition new_license_manager :: license_manager where
  "new_license_manager = \<lparr>lm_license = None, lm_effective_tier = COMMUNITY\<rparr>"

fun json_compact :: "json \<Rightarrow> string" where
  "json_compact JNull = ''null''"
| "json_compact (JBool b) = (if b then ''true'' else ''false'')"
| "json_compact (JInt i) = int_string i"
| "json_compact (JStr s) = dump_string s"
| "json_compact (JList xs) = ''['' @ py_join '','' (map json_compact xs) @ '']''"
| "json_compact (JObj kvs) =
     CHR 0x7B # py_join '',''
       (map (\<lambda>(k, s). dump_string k @ '':'' @ s) (sort_key fst (map (\<lambda>(k, v). (k, json_compact v)) kvs))) @ [CHR 0x7D]"

text \<open>
  \<open>ed25519 key signature message\<close> is the verification of the cryptography package (base64 decoding
  included); a manager without a public key skips it.
\<close>

definition signed_payload :: "(string \<times> json) list \<Rightarrow> string" where
  "signed_payload data = json_compact (JObj (filter (\<lambda>(k, _). k \<noteq> ''signature'') data))"

definition verify_signature ::
  "(string \<Rightarrow> string \<Rightarrow> string \<Rightarrow> bool) \<Rightarrow> string option \<Rightarrow> (string \<times> json) list \<Rightarrow> bool" where
  "verify_signature ed25519 public_key data =
     (case public_key of
        None \<Rightarrow> True
      | Some key \<Rightarrow>
          (case map_of data ''signature'' of
             Some (JStr s) \<Rightarrow> if s = [] then False else ed25519 key s (signed_payload data)
           | _ \<Rightarrow> False))"

text \<open>\<open>parse\<close> is the construction of the pydantic model from the document, \<open>None\<close> when validation fails.\<close>

definition load_license_from_string ::
  "((string \<times> json) list \<Rightarrow> license_file option) \<Rightarrow> (string \<Rightarrow> string \<Rightarrow> string \<Rightarrow> bool) \<Rightarrow> string option \<Rightarrow>
   timestamp \<Rightarrow> (string \<times> json) list \<Rightarrow> license_manager \<Rightarrow> (license_error + license_file) \<times> license_manager" where
  "load_license_from_string parse ed25519 public_key now data lm =
     (case parse data of
        None \<Rightarrow> (Inl InvalidDocument, lm)
      | Some lf \<Rightarrow>
          if \<not> verify_signature ed25519 public_key data then (Inl LicenseVerificationError, lm)
          else if now > lf_expires_at lf then (Inl LicenseExpiredError, lm)
          else (Inr lf, \<lparr>lm_license = Some lf, lm_effective_tier = lf_tier lf\<rparr>))"

definition check_entitlement :: "license_manager \<Rightarrow> feature \<Rightarrow> bool" where
  "check_entitlement lm f = is_feature_enabled (lm_effective_tier lm) f"

definition require_entitlement :: "license_manager \<Rightarrow> feature \<Rightarrow> license_error + unit" where
  "require_entitlement lm f = (if \<not> check_entitlement lm f then Inl LicenseLimitExceededError else Inr ())"

definition check_model_limit :: "license_manager \<Rightarrow> int \<Rightarrow> bool" where
  "check_model_limit lm n =
     (case lm_license lm of None \<Rightarrow> n \<le> 50 | Some lf \<Rightarrow> n \<le> lf_max_models lf)"

definition check_daily_plan_limit :: "license_manager \<Rightarrow> int \<Rightarrow> bool" where
  "check_daily_plan_limit lm n =
     (case lm_license lm of None \<Rightarrow> n \<le> 10 | Some lf \<Rightarrow> n \<le> lf_max_plan_runs_per_day lf)"

definition is_ai_enabled :: "license_manager \<Rightarrow> bool" where
  "is_ai_enabled lm =
     (case lm_license lm of None \<Rightarrow> False | Some lf \<Rightarrow> lf_ai_enabled lf \<and> check_entitlement lm AI_ADVISORY)"

text \<open>A manager's life: a sequence of attempts to load a document at some time.\<close>

fun load_all ::
  "((string \<times> json) list \<Rightarrow> license_file option) \<Rightarrow> (string \<Rightarrow> string \<Rightarrow> string \<Rightarrow> bool) \<Rightarrow> string option \<Rightarrow>
   (timestamp \<times> (string \<times> json) list) list \<Rightarrow> license_manager \<Rightarrow> license_manager" where
  "load_all parse ed25519 public_key [] lm = lm"
| "load_all parse ed25519 public_key ((now, data) # loads) lm =
     load_all parse ed25519 public_key loads (snd (load_license_from_string parse ed25519 public_key now data lm))"

lemma load_all_tier:
  assumes "lm_effective_tier (load_all parse ed25519 (Some key) loads lm) \<noteq> lm_effective_tier lm"
  shows "\<exists>(now, data)\<in>set loads. \<exists>lf s. parse data = Some lf \<and> now \<le> lf_expires_at lf \<and>
     lf_tier lf = lm_effective_tier (load_all parse ed25519 (Some key) loads lm) \<and>
     map_of data ''signature'' = Some (JStr s) \<and> ed25519 key s (signed_payload data)"
  using assms
proof (induction loads arbitrary: lm)
  case (Cons l loads)
  obtain now data where l: "l = (now, data)" by (cases l)
  let ?lm = "snd (load_license_from_string parse ed25519 (Some key) now data lm)"
  show ?case
  proof (cases "lm_effective_tier (load_all parse ed25519 (Some key) loads ?lm) = lm_effective_tier ?lm")
    case True
    then have e: "lm_effective_tier ?lm \<noteq> lm_effective_tier lm" using Cons.prems l by simp
    then obtain lf where lf: "parse data = Some lf" "verify_signature ed25519 (Some key) data"
      "now \<le> lf_expires_at lf" "lm_effective_tier ?lm = lf_tier lf"
      by (auto simp: load_license_from_string_def split: option.splits if_splits)
    from lf(2) obtain s where "map_of data ''signature'' = Some (JStr s)" "ed25519 key s (signed_payload data)"
      by (auto simp: verify_signature_def split: option.splits json.splits if_splits)
    with lf l True show ?thesis by auto
  next
    case False
    from Cons.IH[OF this] l show ?thesis by auto
  qed
qed simp

subsection \<open>Properties of access control\<close>

text \<open>tiers are cumulative and priced consistently: a feature is enabled for a tier exactly when the tier is
  at least the tier reported as required for the feature.\<close>

theorem feature_enabled_iff_required_tier:
  "is_feature_enabled tier f \<longleftrightarrow> get_required_tier f \<le> tier"
  unfolding is_feature_enabled_def required_tier_least
  by (rule tiers.granted_iff_least[OF tier_cases every_feature_sold])

text \<open>no escalation through the guards: a request that passes a permission guard carries the claim of a role
  that has the permission (or is anonymous, with the viewer's permissions only), a request that passes
  a role guard carries a human role of at least the required level, and everything the required level
  may do the admitted role may do too.\<close>

theorem guards_do_not_escalate:
  "(require_permission p req = Inr r \<longrightarrow>
      role_has_permission r p \<and>
      (rq_role req = None \<and> rq_sub req = None \<and> r = VIEWER \<or> (\<exists>raw. rq_role req = Some raw \<and> parse_role raw = Some r))) \<and>
   (require_role min_role req = Inr r \<and> min_role \<noteq> SERVICE \<longrightarrow>
      r \<noteq> SERVICE \<and> min_role \<le> r \<and> role_permissions min_role \<subseteq> role_permissions r)"
proof (intro conjI impI)
  assume "require_permission p req = Inr r"
  then show "role_has_permission r p"
    and "rq_role req = None \<and> rq_sub req = None \<and> r = VIEWER \<or> (\<exists>raw. rq_role req = Some raw \<and> parse_role raw = Some r)"
    by (auto simp: require_permission_def get_user_role_def split: sum.splits option.splits if_splits)
next
  assume a: "require_role min_role req = Inr r \<and> min_role \<noteq> SERVICE"
  then show r: "r \<noteq> SERVICE" and le: "min_role \<le> r"
    by (auto simp: require_role_def split: sum.splits if_splits)
  have "x \<in> {VIEWER, OPERATOR, ENGINEER, ADMIN}" if "x \<noteq> SERVICE" for x using that by (cases x) simp_all
  with a r le show "role_permissions min_role \<subseteq> role_permissions r"
    by (intro roles.grants_mono) blast+
qed

theorem guards_do_not_escalate_witness:
  "role_permissions OPERATOR \<subseteq> role_permissions ENGINEER"
proof -
  have "parse_role ''Engineer '' = Some ENGINEER" by code_simp
  then have "require_role OPERATOR \<lparr>rq_role = Some ''Engineer '', rq_sub = Some ''u1''\<rparr> = Inr ENGINEER"
    by (simp add: require_role_def get_user_role_def less_role_def)
  then show ?thesis
    using guards_do_not_escalate[of READ_PLANS "\<lparr>rq_role = Some ''Engineer '', rq_sub = Some ''u1''\<rparr>" ENGINEER OPERATOR]
    by simp
qed

text \<open>with a public key configured, the effective tier of a manager differs from its initial tier only if some
  document was loaded before its expiry with exactly that tier and a signature that verifies over the
  document without its signature field; failed loads change nothing.\<close>

theorem effective_tier_needs_signature:
  assumes "lm_effective_tier (load_all parse ed25519 (Some key) loads new_license_manager) \<noteq> COMMUNITY"
  shows "\<exists>(now, data)\<in>set loads. \<exists>lf s. parse data = Some lf \<and> now \<le> lf_expires_at lf \<and>
     lf_tier lf = lm_effective_tier (load_all parse ed25519 (Some key) loads new_license_manager) \<and>
     map_of data ''signature'' = Some (JStr s) \<and> ed25519 key s (signed_payload data)"
  using load_all_tier[of parse ed25519 key loads new_license_manager] assms
  by (simp add: new_license_manager_def)

definition demo_license :: license_file where
  "demo_license = \<lparr>lf_license_id = ''l'', lf_tenant_id = ''t'', lf_tier = TEAM, lf_issued_at = 0, lf_expires_at = 100,
     lf_max_models = 50, lf_max_plan_runs_per_day = 10, lf_ai_enabled = True, lf_features = [], lf_signature = ''s''\<rparr>"

theorem effective_tier_needs_signature_witness:
  "\<exists>(now, data)\<in>set [(50 :: timestamp, [(''signature'', JStr ''s'')])]. \<exists>s. map_of data ''signature'' = Some (JStr s)"
proof -
  have "lm_effective_tier (load_all (\<lambda>_. Some demo_license) (\<lambda>_ _ _. True) (Some ''k'')
      [(50, [(''signature'', JStr ''s'')])] new_license_manager) \<noteq> COMMUNITY"
    by (simp add: load_license_from_string_def verify_signature_def demo_license_def)
  from effective_tier_needs_signature[OF this] show ?thesis by auto
qed

end
