(* ===== verification/Execution.thy ===== *)
theory Execution
  imports Models Stores Access
begin

text \<open>
  The execution service, \<^verbatim>\<open>api/api/services/execution_service.py\<close>: applying a plan, single and chunked
  backfills, resuming, and the persistence of every outcome. One call runs in one database session
  that commits on a clean exit and rolls back on an exception, so a call is a function from the
  tables to an error, or to the new tables with the result. The execution engines (Databricks, DuckDB),
  the clock, identifiers, SHA-256 and the check constraint of the deployed \<^verbatim>\<open>runs\<close> table are the
  environment; the feedback service, whose exceptions are swallowed and whose tables are its own, is left out.
\<close>

subsection \<open>Environment and state\<close>

datatype platform_env = DEV | STAGING | PROD_ENV

record exec_env =
  en_tenant :: string
  en_platform_env :: platform_env
  en_clock :: "nat \<Rightarrow> timestamp"
  en_uuid :: "nat \<Rightarrow> string"
  en_sha :: "string \<Rightarrow> string"
  en_iso :: "date \<Rightarrow> string"
  en_check_status :: "string \<Rightarrow> bool"
  en_engine :: "stored_step \<Rightarrow> string option \<Rightarrow> nat \<Rightarrow> string option"

record exec_state =
  xs_plans :: "plan_row list"
  xs_runs :: "run_row list"
  xs_locks :: lock_table
  xs_watermarks :: "wm_row list"
  xs_telemetry :: "telemetry_row list"
  xs_checkpoints :: "checkpoint_row list"
  xs_chunks :: "chunk_row list"
  xs_models :: "(string \<times> string) list"
  xs_ticks :: nat

datatype exec_error =
    PermissionError
  | PlanNotFound
  | ModelNotFound
  | BackfillNotFound
  | AlreadyCompleted
  | NotResumable
  | BadRange
  | BadChunkSize
  | RangeLocked
  | DatabaseError db_error

definition now_of :: "exec_env \<Rightarrow> exec_state \<Rightarrow> timestamp" where
  "now_of env st = en_clock env (xs_ticks st)"

definition tick :: "exec_state \<Rightarrow> exec_state" where
  "tick st = st\<lparr>xs_ticks := xs_ticks st + 1\<rparr>"

subsection \<open>Cost rates (cluster\_templates.py)\<close>

definition cost_rates :: "(string \<times> rat) list" where
  "cost_rates = [(''small'', 7 / 10000), (''medium'', 28 / 10000), (''large'', 112 / 10000)]"

definition get_cost_rate :: "string \<Rightarrow> rat option" where
  "get_cost_rate cluster_size = map_of cost_rates (py_lower cluster_size)"

subsection \<open>Steps\<close>

definition executor_version :: string where
  "executor_version = ''api-control-plane-0.1.0''"

definition make_run_dict ::
  "string \<Rightarrow> string \<Rightarrow> string \<Rightarrow> string \<Rightarrow> string \<Rightarrow> run_status \<Rightarrow> string option \<Rightarrow> date option \<Rightarrow> date option \<Rightarrow>
   timestamp \<Rightarrow> timestamp \<Rightarrow> run_row" where
  "make_run_dict run_id t plan_id step_id model_name status error_message range_start range_end started_at finished_at =
     \<lparr>rn_run_id = run_id, rn_tenant = t, rn_plan_id = plan_id, rn_step_id = step_id, rn_model = model_name,
      rn_status = run_status_value status, rn_started = Some started_at, rn_finished = Some finished_at,
      rn_range_start = range_start, rn_range_end = range_end, rn_error = error_message,
      rn_executor_version = executor_version, rn_retry_count = 0, rn_cost = None\<rparr>"

text \<open>\<open>en_engine\<close> gives the exception text of a failed execution, or \<open>None\<close>.\<close>

definition execute_step ::
  "exec_env \<Rightarrow> string \<Rightarrow> stored_step \<Rightarrow> string option \<Rightarrow> exec_state \<Rightarrow> run_row \<times> exec_state" where
  "execute_step env plan_id step cluster st =
     (let run_id = en_uuid env (xs_ticks st); started_at = now_of env st; st1 = tick st;
          outcome = en_engine env step cluster (xs_ticks st1);
          finished_at = now_of env st1; st2 = tick st1
      in (make_run_dict run_id (en_tenant env) plan_id (st_step_id step) (st_model step)
            (case outcome of None \<Rightarrow> SUCCESS | Some _ \<Rightarrow> FAIL) (map_option (take 2000) outcome)
            (map_option fst (st_input_range step)) (map_option snd (st_input_range step)) started_at finished_at, st2))"

definition is_success :: "run_row \<Rightarrow> bool" where
  "is_success r \<longleftrightarrow> rn_status r = run_status_value SUCCESS"

text \<open>Cost of a successful run; an unknown cluster size is logged and skipped. Both instants are always set.\<close>

definition store_cost :: "exec_env \<Rightarrow> string option \<Rightarrow> run_row \<Rightarrow> exec_state \<Rightarrow> run_row \<times> exec_state" where
  "store_cost env cluster r st =
     (if is_success r then
        (case get_cost_rate (opt_or cluster ''small'') of
           None \<Rightarrow> (r, st)
         | Some rate \<Rightarrow> (r\<lparr>rn_cost := Some (run_seconds r * rate)\<rparr>,
                         st\<lparr>xs_runs := update_cost (en_tenant env) (rn_run_id r) (run_seconds r * rate) (xs_runs st)\<rparr>))
      else (r, st))"

definition persist_run :: "exec_env \<Rightarrow> run_row \<Rightarrow> exec_state \<Rightarrow> exec_error + exec_state" where
  "persist_run env r st =
     (case create_run (en_check_status env) r (xs_runs st) of
        Inl e \<Rightarrow> Inl (DatabaseError e) | Inr runs \<Rightarrow> Inr (st\<lparr>xs_runs := runs\<rparr>))"

definition advance_watermark :: "exec_env \<Rightarrow> string \<Rightarrow> date \<Rightarrow> date \<Rightarrow> exec_state \<Rightarrow> exec_state" where
  "advance_watermark env m s e st =
     tick (st\<lparr>xs_watermarks := update_watermark (now_of env st) (en_tenant env) m s e None (xs_watermarks st)\<rparr>)"

definition try_lock :: "exec_env \<Rightarrow> string \<Rightarrow> date \<Rightarrow> date \<Rightarrow> string \<Rightarrow> exec_state \<Rightarrow> exec_state \<times> bool" where
  "try_lock env m s e owner st =
     (let (locks, got) = acquire_lock (now_of env st) (en_tenant env, m, s, e) owner 3600 (xs_locks st)
      in (tick (st\<lparr>xs_locks := locks\<rparr>), got))"

definition unlock :: "exec_env \<Rightarrow> string \<Rightarrow> date \<Rightarrow> date \<Rightarrow> exec_state \<Rightarrow> exec_state" where
  "unlock env m s e st = st\<lparr>xs_locks := release_lock (en_tenant env, m, s, e) (xs_locks st)\<rparr>"

subsection \<open>Applying a plan\<close>

definition emit_telemetry :: "exec_env \<Rightarrow> run_row \<Rightarrow> exec_state \<Rightarrow> exec_state" where
  "emit_telemetry env r st =
     tick (st\<lparr>xs_telemetry := record_telemetry
       \<lparr>te_tenant = en_tenant env, te_run_id = rn_run_id r, te_model = rn_model r, te_runtime_seconds = run_seconds r,
        te_shuffle_bytes = 0, te_input_rows = 0, te_output_rows = 0, te_partition_count = 1,
        te_captured_at = now_of env st\<rparr> (xs_telemetry st)\<rparr>)"

text \<open>The range a step is locked for: only incremental steps with an input range are.\<close>

definition locked_range :: "stored_step \<Rightarrow> (date \<times> date) option" where
  "locked_range step = (if st_run_type step = ''INCREMENTAL'' then st_input_range step else None)"

definition run_plan_step ::
  "exec_env \<Rightarrow> string \<Rightarrow> string option \<Rightarrow> stored_step \<Rightarrow> exec_state \<Rightarrow> exec_error + run_row \<times> exec_state" where
  "run_plan_step env plan_id cluster step st =
     (let (r, st1) = execute_step env plan_id step cluster st
      in case persist_run env r st1 of
           Inl e \<Rightarrow> Inl e
         | Inr st2 \<Rightarrow>
             let st3 = (case locked_range step of
                          Some (s, e) \<Rightarrow> if is_success r then advance_watermark env (st_model step) s e st2 else st2
                        | None \<Rightarrow> st2);
                 st4 = emit_telemetry env r st3;
                 (r', st5) = store_cost env cluster r st4
             in Inr (r', case locked_range step of Some (s, e) \<Rightarrow> unlock env (st_model step) s e st5 | None \<Rightarrow> st5))"

definition apply_step ::
  "exec_env \<Rightarrow> string \<Rightarrow> string option \<Rightarrow> string option \<Rightarrow> stored_step \<Rightarrow> exec_state \<Rightarrow>
   exec_error + run_row option \<times> exec_state" where
  "apply_step env plan_id approved_by cluster step st =
     (if list_ex (\<lambda>r. rn_step_id r = st_step_id step \<and> rn_status r = ''SUCCESS'')
           (get_by_plan (xs_runs st) (en_tenant env) plan_id)
      then Inr (None, st)
      else
        (case locked_range step of
           Some (s, e) \<Rightarrow>
             let (st1, got) = try_lock env (st_model step) s e (opt_or approved_by ''api'') st
             in if \<not> got then
                  Inr (Some (make_run_dict (en_uuid env (xs_ticks st1)) (en_tenant env) plan_id (st_step_id step)
                    (st_model step) CANCELLED (Some ''Lock acquisition failed'') (Some s) (Some e)
                    (now_of env st1) (now_of env st1)), tick st1)
                else (case run_plan_step env plan_id cluster step st1 of
                        Inl err \<Rightarrow> Inl err | Inr (r, st2) \<Rightarrow> Inr (Some r, st2))
         | None \<Rightarrow>
             (case run_plan_step env plan_id cluster step st of
                Inl err \<Rightarrow> Inl err | Inr (r, st2) \<Rightarrow> Inr (Some r, st2))))"

fun apply_steps ::
  "exec_env \<Rightarrow> string \<Rightarrow> string option \<Rightarrow> string option \<Rightarrow> stored_step list \<Rightarrow> exec_state \<Rightarrow>
   exec_error + run_row list \<times> exec_state" where
  "apply_steps env plan_id approved_by cluster [] st = Inr ([], st)"
| "apply_steps env plan_id approved_by cluster (step # steps) st =
     (case apply_step env plan_id approved_by cluster step st of
        Inl e \<Rightarrow> Inl e
      | Inr (r, st1) \<Rightarrow>
          (case apply_steps env plan_id approved_by cluster steps st1 of
             Inl e \<Rightarrow> Inl e
           | Inr (rs, st2) \<Rightarrow> Inr ((case r of None \<Rightarrow> rs | Some r \<Rightarrow> r # rs), st2)))"

definition apply_plan ::
  "exec_env \<Rightarrow> string \<Rightarrow> string option \<Rightarrow> string option \<Rightarrow> bool \<Rightarrow> role option \<Rightarrow> exec_state \<Rightarrow>
   exec_error + run_row list \<times> exec_state" where
  "apply_plan env plan_id approved_by cluster auto_approve caller_role st =
     (if auto_approve \<and> caller_role \<noteq> Some ADMIN then Inl PermissionError
      else case get_plan (xs_plans st) (en_tenant env) plan_id of
             None \<Rightarrow> Inl PlanNotFound
           | Some p \<Rightarrow>
               if \<not> auto_approve \<and> en_platform_env env \<noteq> DEV \<and> pr_approvals p = [] then Inl PermissionError
               else apply_steps env plan_id approved_by cluster (pr_steps p) st)"

subsection \<open>Single backfill\<close>

definition backfill_step :: "exec_env \<Rightarrow> string \<Rightarrow> date \<Rightarrow> date \<Rightarrow> stored_step" where
  "backfill_step env m s e =
     \<lparr>st_step_id = compute_deterministic_id (en_sha env) [m, en_iso env s, en_iso env e], st_model = m,
      st_run_type = ''INCREMENTAL'', st_input_range = Some (s, e), st_depends_on = [], st_parallel_group = 0,
      st_reason = ''manual backfill''\<rparr>"

definition backfill ::
  "exec_env \<Rightarrow> string \<Rightarrow> date \<Rightarrow> date \<Rightarrow> string option \<Rightarrow> exec_state \<Rightarrow> exec_error + run_row \<times> exec_state" where
  "backfill env m s e cluster st =
     (if (en_tenant env, m) \<notin> set (xs_models st) then Inl ModelNotFound
      else if s > e then Inl BadRange
      else if check_lock (now_of env st) (en_tenant env, m, s, e) (xs_locks st) then Inl RangeLocked
      else
        let st1 = fst (try_lock env m s e ''backfill'' (tick st));
            step = backfill_step env m s e;
            plan_id = compute_deterministic_id (en_sha env) [''backfill'', m, en_iso env s, en_iso env e]
        in case save_plan (now_of env st1) (en_tenant env) plan_id ''backfill'' ''backfill'' [step] (xs_plans st1) of
             Inl err \<Rightarrow> Inl (DatabaseError err)
           | Inr plans \<Rightarrow>
               let (r, st2) = execute_step env plan_id step cluster (tick (st1\<lparr>xs_plans := plans\<rparr>))
               in case persist_run env r st2 of
                    Inl err \<Rightarrow> Inl err
                  | Inr st3 \<Rightarrow>
                      let st4 = (if is_success r then advance_watermark env m s e st3 else st3);
                          (r', st5) = store_cost env cluster r st4
                      in Inr (r', unlock env m s e st5))"

subsection \<open>Chunked backfill\<close>

text \<open>The loop advances by at least one day because callers check \<^verbatim>\<open>chunk_size_days >= 1\<close>; the guard \<open>n < 1\<close> below
  stands for the endless loop the source has otherwise, which no caller reaches.\<close>

function compute_chunks :: "date \<Rightarrow> date \<Rightarrow> int \<Rightarrow> (date \<times> date) list" where
  "compute_chunks cursor final n =
     (if n < 1 \<or> cursor > final then []
      else let chunk_end = min (cursor + (n - 1)) final
           in (cursor, chunk_end) # compute_chunks (chunk_end + 1) final n)"
  by pat_completeness auto
termination
  by (relation "measure (\<lambda>(c, e, n). nat (e + 1 - c))") auto

declare compute_chunks.simps [simp del]

record backfill_result =
  br_backfill_id :: string
  br_status :: string
  br_completed_chunks :: nat
  br_total_chunks :: nat
  br_runs :: "run_row list"
  br_error :: "string option"

definition chunk_step :: "exec_env \<Rightarrow> string \<Rightarrow> nat \<Rightarrow> nat \<Rightarrow> date \<Rightarrow> date \<Rightarrow> stored_step" where
  "chunk_step env m num chunks_total s e =
     \<lparr>st_step_id = compute_deterministic_id (en_sha env) [m, ''chunk'', en_iso env s, en_iso env e], st_model = m,
      st_run_type = ''INCREMENTAL'', st_input_range = Some (s, e), st_depends_on = [], st_parallel_group = 0,
      st_reason = ''chunked backfill chunk '' @ nat_digits num @ ''/'' @ nat_digits chunks_total\<rparr>"

definition lock_failed_message :: "exec_env \<Rightarrow> date \<Rightarrow> date \<Rightarrow> string" where
  "lock_failed_message env s e = ''Lock acquisition failed for chunk ['' @ en_iso env s @ '', '' @ en_iso env e @ '']''"

definition fail_backfill ::
  "exec_env \<Rightarrow> string \<Rightarrow> string \<Rightarrow> date \<Rightarrow> date \<Rightarrow> string option \<Rightarrow> string option \<Rightarrow> string \<Rightarrow> rat option \<Rightarrow>
   exec_state \<Rightarrow> exec_state" where
  "fail_backfill env backfill_id m s e run_id error stored_error duration st =
     (let st1 = tick (st\<lparr>xs_chunks := record_chunk (now_of env st) (en_tenant env) backfill_id m s e ''FAILED'' run_id
                         error duration (xs_chunks st)\<rparr>)
      in tick (st1\<lparr>xs_checkpoints := mark_failed (now_of env st1) (en_tenant env) backfill_id stored_error
                     (xs_checkpoints st1)\<rparr>))"

definition complete_chunk ::
  "exec_env \<Rightarrow> string \<Rightarrow> string \<Rightarrow> date \<Rightarrow> date \<Rightarrow> run_row \<Rightarrow> rat \<Rightarrow> nat \<Rightarrow> exec_state \<Rightarrow> exec_state" where
  "complete_chunk env backfill_id m s e r duration completed st =
     (let st1 = tick (st\<lparr>xs_chunks := record_chunk (now_of env st) (en_tenant env) backfill_id m s e ''SUCCESS''
                         (Some (rn_run_id r)) None (Some duration) (xs_chunks st)\<rparr>)
      in tick (st1\<lparr>xs_checkpoints := update_progress (now_of env st1) (en_tenant env) backfill_id e completed
                     (xs_checkpoints st1)\<rparr>))"

text \<open>The loop over the chunks; \<open>Some result\<close> is the early return on failure, with the counter and the runs so far.\<close>

fun chunk_loop ::
  "exec_env \<Rightarrow> string \<Rightarrow> string \<Rightarrow> string \<Rightarrow> string option \<Rightarrow> nat \<Rightarrow> (date \<times> date) list \<Rightarrow> nat \<Rightarrow> run_row list \<Rightarrow>
   exec_state \<Rightarrow> exec_error + (string option option \<times> nat \<times> run_row list) \<times> exec_state" where
  "chunk_loop env backfill_id m plan_id cluster chunks_total [] completed runs st = Inr ((None, completed, runs), st)"
| "chunk_loop env backfill_id m plan_id cluster chunks_total ((s, e) # chunks) completed runs st =
     (let step = chunk_step env m (completed + 1) chunks_total s e;
          (st1, got) = try_lock env m s e (''chunked_backfill:'' @ take 12 backfill_id) st
      in if \<not> got then
           (let error = lock_failed_message env s e
            in Inr ((Some (Some error), completed, runs),
                    fail_backfill env backfill_id m s e None (Some error) error None st1))
         else
           (let chunk_started = now_of env st1;
                (r, st2) = execute_step env plan_id step cluster (tick st1);
                duration = of_int (now_of env st2 - chunk_started) / of_int microseconds_per_second
            in case persist_run env r (tick st2) of
                 Inl err \<Rightarrow> Inl err
               | Inr st3 \<Rightarrow>
                   if is_success r then
                     (let (r', st4) = store_cost env cluster r (advance_watermark env m s e st3);
                          st5 = complete_chunk env backfill_id m s e r' duration (completed + 1) st4
                      in chunk_loop env backfill_id m plan_id cluster chunks_total chunks (completed + 1) (runs @ [r'])
                           (unlock env m s e st5))
                   else
                     Inr ((Some (rn_error r), completed, runs @ [r]),
                          unlock env m s e
                            (fail_backfill env backfill_id m s e (Some (rn_run_id r)) (rn_error r)
                              (opt_or (rn_error r) ''Chunk execution failed'') (Some duration) st3))))"

definition execute_chunks ::
  "exec_env \<Rightarrow> string \<Rightarrow> string \<Rightarrow> string \<Rightarrow> (date \<times> date) list \<Rightarrow> string option \<Rightarrow> nat \<Rightarrow> exec_state \<Rightarrow>
   exec_error + backfill_result \<times> exec_state" where
  "execute_chunks env backfill_id m plan_id chunks cluster start_index st =
     (let chunks_total = (case get_checkpoint (xs_checkpoints st) (en_tenant env) backfill_id of
                            Some cp \<Rightarrow> cp_total_chunks cp | None \<Rightarrow> length chunks + start_index)
      in case chunk_loop env backfill_id m plan_id cluster chunks_total chunks start_index [] st of
           Inl err \<Rightarrow> Inl err
         | Inr ((Some error, completed, runs), st1) \<Rightarrow>
             Inr (\<lparr>br_backfill_id = backfill_id, br_status = ''FAILED'', br_completed_chunks = completed,
                   br_total_chunks = chunks_total, br_runs = runs, br_error = error\<rparr>, st1)
         | Inr ((None, completed, runs), st1) \<Rightarrow>
             Inr (\<lparr>br_backfill_id = backfill_id, br_status = ''COMPLETED'', br_completed_chunks = completed,
                   br_total_chunks = chunks_total, br_runs = runs, br_error = None\<rparr>,
                  tick (st1\<lparr>xs_checkpoints := mark_completed (now_of env st1) (en_tenant env) backfill_id
                              (xs_checkpoints st1)\<rparr>)))"

definition chunked_backfill ::
  "exec_env \<Rightarrow> string \<Rightarrow> date \<Rightarrow> date \<Rightarrow> string option \<Rightarrow> int \<Rightarrow> exec_state \<Rightarrow>
   exec_error + backfill_result \<times> exec_state" where
  "chunked_backfill env m s e cluster n st =
     (if (en_tenant env, m) \<notin> set (xs_models st) then Inl ModelNotFound
      else if s > e then Inl BadRange
      else if n < 1 then Inl BadChunkSize
      else
        let chunks = compute_chunks s e n;
            backfill_id = compute_deterministic_id (en_sha env)
              [''chunked_backfill'', m, en_iso env s, en_iso env e, int_string n];
            plan_id = compute_deterministic_id (en_sha env) [''chunked_backfill_plan'', m, en_iso env s, en_iso env e]
        in case create_checkpoint (now_of env st) (en_tenant env) backfill_id m s e n (length chunks) cluster
                  (Some plan_id) (xs_checkpoints st) of
             Inl err \<Rightarrow> Inl (DatabaseError err)
           | Inr cps \<Rightarrow>
               execute_chunks env backfill_id m plan_id chunks cluster 0 (tick (st\<lparr>xs_checkpoints := cps\<rparr>)))"

definition resume_backfill ::
  "exec_env \<Rightarrow> string \<Rightarrow> exec_state \<Rightarrow> exec_error + backfill_result \<times> exec_state" where
  "resume_backfill env backfill_id st =
     (case get_checkpoint (xs_checkpoints st) (en_tenant env) backfill_id of
        None \<Rightarrow> Inl BackfillNotFound
      | Some cp \<Rightarrow>
          if cp_status cp = ''COMPLETED'' then Inl AlreadyCompleted
          else if cp_status cp \<notin> {''FAILED'', ''RUNNING''} then Inl NotResumable
          else
            let resume_start = (case cp_completed_through cp of Some d \<Rightarrow> d + 1 | None \<Rightarrow> cp_overall_start cp)
            in if resume_start > cp_overall_end cp then
                 Inr (\<lparr>br_backfill_id = backfill_id, br_status = ''COMPLETED'',
                       br_completed_chunks = cp_total_chunks cp, br_total_chunks = cp_total_chunks cp,
                       br_runs = [], br_error = None\<rparr>,
                      tick (st\<lparr>xs_checkpoints := mark_completed (now_of env st) (en_tenant env) backfill_id
                                 (xs_checkpoints st)\<rparr>))
               else
                 execute_chunks env backfill_id (cp_model cp)
                   (opt_or (cp_plan_id cp) (compute_deterministic_id (en_sha env)
                      [''chunked_backfill_plan'', cp_model cp, en_iso env (cp_overall_start cp), en_iso env (cp_overall_end cp)]))
                   (compute_chunks resume_start (cp_overall_end cp) (cp_chunk_size_days cp))
                   (cp_cluster_size cp) (cp_completed_chunks cp) st)"

end
