(* ===== verification/Execution_Facts.thy ===== *)
theory Execution_Facts
  imports Execution
begin

text \<open>
  What the execution service guarantees: chunks tile the range, a chunked backfill runs every chunk
  exactly once however often it is resumed, no call leaves a lock behind, applying a finished plan again
  does nothing, the approval gate, and what the deployed check constraint does to all of it.
\<close>

subsection \<open>Chunks\<close>

lemma compute_chunks_Nil [simp]: "c > e \<Longrightarrow> compute_chunks c e n = []"
  by (subst compute_chunks.simps) simp

lemma compute_chunks_Cons:
  "1 \<le> n \<Longrightarrow> c \<le> e \<Longrightarrow>
   compute_chunks c e n = (c, min (c + (n - 1)) e) # compute_chunks (min (c + (n - 1)) e + 1) e n"
  by (subst compute_chunks.simps) (simp add: Let_def)

lemma compute_chunks_days:
  "1 \<le> n \<Longrightarrow> concat (map (\<lambda>(a, b). [a..b]) (compute_chunks c e n)) = [c..e]"
proof (induction c e n rule: compute_chunks.induct)
  case (1 c e n)
  show ?case
  proof (cases "c \<le> e")
    case True
    let ?b = "min (c + (n - 1)) e"
    have "c \<le> ?b" "?b \<le> e" using True "1.prems" by auto
    then have "[c..?b] @ [?b + 1..e] = [c..e]" by (metis upto_split2)
    then show ?thesis using "1.IH" "1.prems" True by (simp add: compute_chunks_Cons)
  qed simp
qed

lemma compute_chunks_bounds:
  "1 \<le> n \<Longrightarrow> (a, b) \<in> set (compute_chunks c e n) \<Longrightarrow> c \<le> a \<and> a \<le> b \<and> b \<le> e \<and> b - a < n"
proof (induction c e n rule: compute_chunks.induct)
  case (1 c e n)
  show ?case
  proof (cases "c \<le> e")
    case True
    let ?b = "min (c + (n - 1)) e"
    have b: "c \<le> ?b" "?b \<le> e" "?b - c < n" using True "1.prems"(1) by auto
    from "1.prems" True consider "a = c" "b = ?b" | "(a, b) \<in> set (compute_chunks (?b + 1) e n)"
      by (auto simp: compute_chunks_Cons)
    then show ?thesis
    proof cases
      case 2
      with "1.IH"[of ?b] True "1.prems"(1) b(1) show ?thesis by auto
    qed (use b in simp_all)
  next
    case False
    with "1.prems"(2) show ?thesis by simp
  qed
qed

text \<open>Recomputing from the day after a completed chunk gives the rest of the original list.\<close>

lemma compute_chunks_resume:
  "1 \<le> n \<Longrightarrow> k < length (compute_chunks c e n) \<Longrightarrow>
   compute_chunks (snd (compute_chunks c e n ! k) + 1) e n = drop (Suc k) (compute_chunks c e n)"
proof (induction k arbitrary: c)
  case 0
  then have "c \<le> e" by (cases "c \<le> e") simp_all
  with 0 show ?case by (simp add: compute_chunks_Cons)
next
  case (Suc k)
  then have "c \<le> e" by (cases "c \<le> e") simp_all
  with Suc show ?case by (simp add: compute_chunks_Cons)
qed

subsection \<open>What each operation leaves alone\<close>

lemma tick_sel [store_simps]:
  "xs_plans (tick st) = xs_plans st" "xs_runs (tick st) = xs_runs st" "xs_locks (tick st) = xs_locks st"
  "xs_watermarks (tick st) = xs_watermarks st" "xs_telemetry (tick st) = xs_telemetry st"
  "xs_checkpoints (tick st) = xs_checkpoints st" "xs_chunks (tick st) = xs_chunks st" "xs_models (tick st) = xs_models st"
  by (simp_all add: tick_def)

lemma execute_step_frame:
  assumes "execute_step env plan_id step cluster st = (r, st')"
  shows "xs_plans st' = xs_plans st" "xs_runs st' = xs_runs st" "xs_locks st' = xs_locks st"
    "xs_checkpoints st' = xs_checkpoints st" "xs_chunks st' = xs_chunks st" "xs_watermarks st' = xs_watermarks st"
    "rn_tenant r = en_tenant env" "rn_plan_id r = plan_id" "rn_step_id r = st_step_id step" "rn_model r = st_model step"
    "rn_status r = ''SUCCESS'' \<or> rn_status r = ''FAIL''"
  using assms by (auto simp: execute_step_def Let_def store_simps make_run_dict_def split: option.splits)

text \<open>What identifies the outcome of a step: a later cost update does not touch it.\<close>

definition run_key :: "run_row \<Rightarrow> string \<times> string \<times> string \<times> string" where
  "run_key r = (rn_tenant r, rn_plan_id r, rn_step_id r, rn_status r)"

lemma store_cost_frame:
  assumes "store_cost env cluster r st = (r', st')"
  shows "xs_plans st' = xs_plans st" "xs_locks st' = xs_locks st" "xs_checkpoints st' = xs_checkpoints st"
    "xs_chunks st' = xs_chunks st" "xs_watermarks st' = xs_watermarks st"
    "rn_tenant r' = rn_tenant r" "rn_plan_id r' = rn_plan_id r" "rn_step_id r' = rn_step_id r"
    "rn_model r' = rn_model r" "rn_status r' = rn_status r" "rn_run_id r' = rn_run_id r"
    "map run_key (xs_runs st') = map run_key (xs_runs st)" "run_key r' = run_key r"
  using assms by (auto simp: store_cost_def update_cost_def update_run_def run_key_def split: if_splits option.splits)

lemma persist_run_frame:
  assumes "persist_run env r st = Inr st'"
  shows "xs_plans st' = xs_plans st" "xs_locks st' = xs_locks st" "xs_checkpoints st' = xs_checkpoints st"
    "xs_chunks st' = xs_chunks st" "xs_runs st' = xs_runs st @ [r]" "en_check_status env (rn_status r)"
  using assms by (auto simp: persist_run_def create_run_def split: sum.splits if_splits)

lemma advance_watermark_frame [store_simps]:
  "xs_plans (advance_watermark env m s e st) = xs_plans st" "xs_locks (advance_watermark env m s e st) = xs_locks st"
  "xs_checkpoints (advance_watermark env m s e st) = xs_checkpoints st"
  "xs_chunks (advance_watermark env m s e st) = xs_chunks st" "xs_runs (advance_watermark env m s e st) = xs_runs st"
  by (simp_all add: advance_watermark_def store_simps)

lemma emit_telemetry_frame [store_simps]:
  "xs_plans (emit_telemetry env r st) = xs_plans st" "xs_locks (emit_telemetry env r st) = xs_locks st"
  "xs_checkpoints (emit_telemetry env r st) = xs_checkpoints st"
  "xs_chunks (emit_telemetry env r st) = xs_chunks st" "xs_runs (emit_telemetry env r st) = xs_runs st"
  by (simp_all add: emit_telemetry_def store_simps)

lemma unlock_frame [store_simps]:
  "xs_plans (unlock env m s e st) = xs_plans st" "xs_checkpoints (unlock env m s e st) = xs_checkpoints st"
  "xs_chunks (unlock env m s e st) = xs_chunks st" "xs_runs (unlock env m s e st) = xs_runs st"
  "xs_watermarks (unlock env m s e st) = xs_watermarks st"
  "xs_locks (unlock env m s e st) = release_lock (en_tenant env, m, s, e) (xs_locks st)"
  by (simp_all add: unlock_def)

lemma try_lock_frame:
  assumes "try_lock env m s e owner st = (st', got)"
  shows "xs_plans st' = xs_plans st" "xs_checkpoints st' = xs_checkpoints st" "xs_chunks st' = xs_chunks st"
    "xs_runs st' = xs_runs st" "xs_watermarks st' = xs_watermarks st" "xs_models st' = xs_models st"
    "acquire_lock (now_of env st) (en_tenant env, m, s, e) owner 3600 (xs_locks st) = (xs_locks st', got)"
  using assms by (auto simp: try_lock_def store_simps split: prod.splits)

subsection \<open>Locks are returned\<close>

lemma acquire_lock_rows:
  assumes "acquire_lock now k c ttl tbl = (tbl', got)"
  shows "\<not> got \<Longrightarrow> set tbl' \<subseteq> set tbl" and "set (release_lock k tbl') \<subseteq> set tbl"
  using assms
  by (auto simp: acquire_lock_def Let_def release_lock_def row_key_def split: prod.splits if_splits)

lemma release_lock_mono: "set xs \<subseteq> set ys \<Longrightarrow> set (release_lock k xs) \<subseteq> set (release_lock k ys)"
  by (auto simp: release_lock_def)

lemma release_lock_subset: "set (release_lock k xs) \<subseteq> set xs"
  by (auto simp: release_lock_def)

lemma run_plan_step_facts:
  assumes "run_plan_step env plan_id cluster step st = Inr (r, st')"
  shows "xs_locks st' = (case locked_range step of
           Some (s, e) \<Rightarrow> release_lock (en_tenant env, st_model step, s, e) (xs_locks st) | None \<Rightarrow> xs_locks st)"
    and "xs_plans st' = xs_plans st"
    and "map run_key (xs_runs st') = map run_key (xs_runs st) @ [run_key r]"
    and "rn_tenant r = en_tenant env" "rn_plan_id r = plan_id" "rn_step_id r = st_step_id step" "rn_model r = st_model step"
    and "en_check_status env (rn_status r)" "rn_status r = ''SUCCESS'' \<or> rn_status r = ''FAIL''"
proof -
  obtain q st1 where x: "execute_step env plan_id step cluster st = (q, st1)" by fastforce
  with assms obtain st2 where p: "persist_run env q st1 = Inr st2"
    by (auto simp: run_plan_step_def split: sum.splits)
  define st4 where "st4 = emit_telemetry env q (case locked_range step of
      Some (s, e) \<Rightarrow> if is_success q then advance_watermark env (st_model step) s e st2 else st2 | None \<Rightarrow> st2)"
  obtain q' st5 where c: "store_cost env cluster q st4 = (q', st5)" by fastforce
  have st': "r = q'" "st' = (case locked_range step of Some (s, e) \<Rightarrow> unlock env (st_model step) s e st5 | None \<Rightarrow> st5)"
    using assms x p c by (auto simp: run_plan_step_def Let_def st4_def)
  have st4: "xs_plans st4 = xs_plans st2" "xs_locks st4 = xs_locks st2" "xs_runs st4 = xs_runs st2"
    by (auto simp: st4_def store_simps split: option.splits)
  note frames = execute_step_frame[OF x] persist_run_frame[OF p] store_cost_frame[OF c]
  have runs: "xs_runs st' = xs_runs st5" "xs_plans st' = xs_plans st5"
    by (auto simp: st'(2) store_simps split: option.splits)
  show "xs_locks st' = (case locked_range step of
           Some (s, e) \<Rightarrow> release_lock (en_tenant env, st_model step, s, e) (xs_locks st) | None \<Rightarrow> xs_locks st)"
    using st'(2) frames st4 by (auto simp: store_simps split: option.splits)
  show "xs_plans st' = xs_plans st" using runs frames st4 by simp
  show "map run_key (xs_runs st') = map run_key (xs_runs st) @ [run_key r]"
    using runs frames st4 st'(1) by simp_all
  show "rn_tenant r = en_tenant env" "rn_plan_id r = plan_id" "rn_step_id r = st_step_id step" "rn_model r = st_model step"
    "en_check_status env (rn_status r)" "rn_status r = ''SUCCESS'' \<or> rn_status r = ''FAIL''"
    using frames st'(1) by simp_all
qed

subsection \<open>Applying the steps of a plan\<close>

definition step_done :: "exec_env \<Rightarrow> string \<Rightarrow> stored_step \<Rightarrow> exec_state \<Rightarrow> bool" where
  "step_done env plan_id step st \<longleftrightarrow>
     (en_tenant env, plan_id, st_step_id step, ''SUCCESS'') \<in> set (map run_key (xs_runs st))"

lemma step_done_check:
  "list_ex (\<lambda>r. rn_step_id r = st_step_id step \<and> rn_status r = ''SUCCESS'')
     (get_by_plan (xs_runs st) (en_tenant env) plan_id) = step_done env plan_id step st"
  by (force simp: step_done_def get_by_plan_def list_ex_iff run_key_def)

text \<open>The runs that reached the database: a cancelled step is reported but not recorded.\<close>

definition recorded :: "run_row list \<Rightarrow> run_row list" where
  "recorded rs = filter (\<lambda>r. rn_status r \<noteq> ''CANCELLED'') rs"

lemma apply_step_facts:
  assumes "apply_step env plan_id approved_by cluster step st = Inr (out, st')"
  shows "set (xs_locks st') \<subseteq> set (xs_locks st)" "xs_plans st' = xs_plans st"
    and "out = None \<longleftrightarrow> step_done env plan_id step st" "out = None \<Longrightarrow> st' = st"
    and "out = Some r \<Longrightarrow> rn_tenant r = en_tenant env \<and> rn_plan_id r = plan_id \<and> rn_step_id r = st_step_id step \<and>
       rn_model r = st_model step \<and>
       (rn_status r = ''CANCELLED'' \<or> (rn_status r \<in> {''SUCCESS'', ''FAIL''} \<and> en_check_status env (rn_status r)))"
    and "map run_key (xs_runs st') = map run_key (xs_runs st) @
       (case out of None \<Rightarrow> [] | Some r \<Rightarrow> map run_key (recorded [r]))"
    and "out = Some r \<Longrightarrow> rn_status r = ''CANCELLED'' \<Longrightarrow> xs_runs st' = xs_runs st"
proof -
  have all: "set (xs_locks st') \<subseteq> set (xs_locks st) \<and> xs_plans st' = xs_plans st \<and>
      (out = None \<longleftrightarrow> step_done env plan_id step st) \<and> (out = None \<longrightarrow> st' = st) \<and>
      (\<forall>r. out = Some r \<longrightarrow> rn_tenant r = en_tenant env \<and> rn_plan_id r = plan_id \<and> rn_step_id r = st_step_id step \<and>
       rn_model r = st_model step \<and>
       (rn_status r = ''CANCELLED'' \<or> (rn_status r \<in> {''SUCCESS'', ''FAIL''} \<and> en_check_status env (rn_status r)))) \<and>
      map run_key (xs_runs st') = map run_key (xs_runs st) @
        (case out of None \<Rightarrow> [] | Some r \<Rightarrow> map run_key (recorded [r])) \<and>
      (\<forall>r. out = Some r \<longrightarrow> rn_status r = ''CANCELLED'' \<longrightarrow> xs_runs st' = xs_runs st)"
  proof (cases "step_done env plan_id step st")
    case True
    with assms show ?thesis by (simp add: apply_step_def step_done_check)
  next
    case False
    show ?thesis
    proof (cases "locked_range step")
      case None
      with False assms obtain r where r: "run_plan_step env plan_id cluster step st = Inr (r, st')" "out = Some r"
        by (auto simp: apply_step_def step_done_check split: sum.splits)
      note f = run_plan_step_facts[OF r(1)]
      have "recorded [r] = [r]" "rn_status r \<noteq> ''CANCELLED''" using f(9) by (auto simp: recorded_def)
      with f r(2) None False show ?thesis by auto
    next
      case (Some p)
      obtain s e where p: "p = (s, e)" by (cases p)
      obtain st1 got where l: "try_lock env (st_model step) s e (opt_or approved_by ''api'') st = (st1, got)" by fastforce
      note fl = try_lock_frame[OF l]
      note rows = acquire_lock_rows[OF fl(7)]
      show ?thesis
      proof (cases got)
        case True
        with Some p l False assms obtain r where r: "run_plan_step env plan_id cluster step st1 = Inr (r, st')" "out = Some r"
          by (auto simp: apply_step_def step_done_check split: sum.splits)
        note f = run_plan_step_facts[OF r(1)]
        have "recorded [r] = [r]" "rn_status r \<noteq> ''CANCELLED''" using f(9) by (auto simp: recorded_def)
        moreover have "xs_locks st' = release_lock (en_tenant env, st_model step, s, e) (xs_locks st1)"
          using f(1) Some p by simp
        ultimately show ?thesis using f r(2) Some p fl rows(2) False by auto
      next
        case got: False
        with Some p l False assms obtain r where r: "out = Some r" "st' = tick st1" "rn_status r = ''CANCELLED''"
          "rn_tenant r = en_tenant env" "rn_plan_id r = plan_id" "rn_step_id r = st_step_id step" "rn_model r = st_model step"
          by (auto simp: apply_step_def step_done_check make_run_dict_def)
        then show ?thesis using fl rows(1)[OF got] False by (auto simp: store_simps recorded_def)
      qed
    qed
  qed
  then show "set (xs_locks st') \<subseteq> set (xs_locks st)" "xs_plans st' = xs_plans st"
    "out = None \<longleftrightarrow> step_done env plan_id step st" "out = None \<Longrightarrow> st' = st"
    "out = Some r \<Longrightarrow> rn_tenant r = en_tenant env \<and> rn_plan_id r = plan_id \<and> rn_step_id r = st_step_id step \<and>
       rn_model r = st_model step \<and>
       (rn_status r = ''CANCELLED'' \<or> (rn_status r \<in> {''SUCCESS'', ''FAIL''} \<and> en_check_status env (rn_status r)))"
    "map run_key (xs_runs st') = map run_key (xs_runs st) @
       (case out of None \<Rightarrow> [] | Some r \<Rightarrow> map run_key (recorded [r]))"
    "out = Some r \<Longrightarrow> rn_status r = ''CANCELLED'' \<Longrightarrow> xs_runs st' = xs_runs st"
    by blast+
qed

lemma apply_step_done:
  assumes "apply_step env plan_id approved_by cluster step st = Inr (out, st')"
  shows "step_done env plan_id q st' \<longleftrightarrow> step_done env plan_id q st \<or>
     (\<exists>r. out = Some r \<and> rn_status r = ''SUCCESS'' \<and> st_step_id step = st_step_id q)"
proof (cases out)
  case None
  with apply_step_facts(4)[OF assms] show ?thesis by simp
next
  case (Some r)
  note r = apply_step_facts(5)[OF assms Some]
  have "map run_key (xs_runs st') = map run_key (xs_runs st) @ map run_key (recorded [r])"
    using apply_step_facts(6)[OF assms] Some by simp
  then have "step_done env plan_id q st' \<longleftrightarrow> step_done env plan_id q st \<or>
      (en_tenant env, plan_id, st_step_id q, ''SUCCESS'') \<in> run_key ` set (recorded [r])"
    unfolding step_done_def by (simp only: set_append set_map Un_iff)
  also have "(en_tenant env, plan_id, st_step_id q, ''SUCCESS'') \<in> run_key ` set (recorded [r]) \<longleftrightarrow>
      rn_status r = ''SUCCESS'' \<and> st_step_id step = st_step_id q"
  proof -
    have "run_key r = (en_tenant env, plan_id, st_step_id step, rn_status r)"
      using r by (simp add: run_key_def)
    then show ?thesis by (cases "rn_status r = ''CANCELLED''") (simp_all add: recorded_def eq_commute conj_commute)
  qed
  finally show ?thesis using Some by simp
qed

lemma apply_steps_Cons:
  assumes "apply_steps env plan_id approved_by cluster (step # steps) st = Inr (rs, st')"
  obtains out st1 rs1 where "apply_step env plan_id approved_by cluster step st = Inr (out, st1)"
    "apply_steps env plan_id approved_by cluster steps st1 = Inr (rs1, st')"
    "rs = (case out of None \<Rightarrow> rs1 | Some r \<Rightarrow> r # rs1)"
proof (cases "apply_step env plan_id approved_by cluster step st")
  case (Inl e)
  with assms show ?thesis by simp
next
  case (Inr p)
  obtain out st1 where p: "p = (out, st1)" by (cases p)
  show ?thesis
  proof (cases "apply_steps env plan_id approved_by cluster steps st1")
    case Inl': (Inl e)
    with assms Inr p show ?thesis by simp
  next
    case Inr': (Inr q)
    obtain rs1 st2 where q: "q = (rs1, st2)" by (cases q)
    with assms Inr p Inr' show ?thesis by (intro that[of out st1 rs1]) simp_all
  qed
qed

lemma apply_steps_facts:
  assumes "apply_steps env plan_id approved_by cluster steps st = Inr (rs, st')"
  shows "set (xs_locks st') \<subseteq> set (xs_locks st) \<and> xs_plans st' = xs_plans st \<and>
     map run_key (xs_runs st') = map run_key (xs_runs st) @ map run_key (recorded rs) \<and>
     (\<forall>r\<in>set rs. rn_status r = ''CANCELLED'' \<or>
        (rn_status r \<in> {''SUCCESS'', ''FAIL''} \<and> en_check_status env (rn_status r))) \<and>
     (\<forall>step\<in>set steps. step_done env plan_id step st \<or>
        (\<exists>r\<in>set rs. rn_step_id r = st_step_id step \<and> rn_tenant r = en_tenant env \<and> rn_plan_id r = plan_id))"
  using assms
proof (induction steps arbitrary: st rs)
  case Nil
  then show ?case by (simp add: recorded_def)
next
  case (Cons step steps)
  from apply_steps_Cons[OF Cons.prems] obtain out st1 rs1 where
    o: "apply_step env plan_id approved_by cluster step st = Inr (out, st1)"
      "apply_steps env plan_id approved_by cluster steps st1 = Inr (rs1, st')"
      "rs = (case out of None \<Rightarrow> rs1 | Some r \<Rightarrow> r # rs1)" .
  note f = apply_step_facts[OF o(1)] and IH = Cons.IH[OF o(2)]
  have rec: "recorded rs = (case out of None \<Rightarrow> [] | Some r \<Rightarrow> recorded [r]) @ recorded rs1"
    using o(3) by (auto simp: recorded_def split: option.splits)
  have done1: "step_done env plan_id q st1 \<Longrightarrow> step_done env plan_id q st \<or>
      (\<exists>r\<in>set rs. rn_step_id r = st_step_id q \<and> rn_tenant r = en_tenant env \<and> rn_plan_id r = plan_id)" for q
    using apply_step_done[OF o(1), of q] f(5) o(3) by (cases out) auto
  have "\<forall>q\<in>set steps. step_done env plan_id q st \<or>
      (\<exists>r\<in>set rs. rn_step_id r = st_step_id q \<and> rn_tenant r = en_tenant env \<and> rn_plan_id r = plan_id)"
    using IH done1 o(3) by (fastforce split: option.splits)
  moreover have "step_done env plan_id step st \<or>
      (\<exists>r\<in>set rs. rn_step_id r = st_step_id step \<and> rn_tenant r = en_tenant env \<and> rn_plan_id r = plan_id)"
    using f(3,5) o(3) by (cases out) auto
  moreover have "map run_key (xs_runs st') = map run_key (xs_runs st) @ map run_key (recorded rs)"
    using IH f(6) rec by (auto split: option.splits)
  moreover have "\<forall>r\<in>set rs. rn_status r = ''CANCELLED'' \<or>
        (rn_status r \<in> {''SUCCESS'', ''FAIL''} \<and> en_check_status env (rn_status r))"
    using IH f(5) o(3) by (cases out) auto
  moreover have "set (xs_locks st') \<subseteq> set (xs_locks st)" "xs_plans st' = xs_plans st"
    using IH f(1,2) by auto
  ultimately show ?case by simp
qed

lemma apply_steps_done:
  "\<forall>step\<in>set steps. step_done env plan_id step st \<Longrightarrow>
   apply_steps env plan_id approved_by cluster steps st = Inr ([], st)"
  by (induction steps) (simp_all add: apply_step_def step_done_check)

text \<open>With no step done before and distinct steps, every step is attempted, in the order of the list.\<close>

lemma apply_steps_order:
  assumes "apply_steps env plan_id approved_by cluster steps st = Inr (rs, st')"
    and "distinct (map st_step_id steps)" "\<forall>step\<in>set steps. \<not> step_done env plan_id step st"
  shows "map rn_model rs = map st_model steps \<and> map rn_step_id rs = map st_step_id steps"
  using assms
proof (induction steps arbitrary: st rs)
  case (Cons step steps)
  from apply_steps_Cons[OF Cons.prems(1)] obtain out st1 rs1 where
    o: "apply_step env plan_id approved_by cluster step st = Inr (out, st1)"
      "apply_steps env plan_id approved_by cluster steps st1 = Inr (rs1, st')"
      "rs = (case out of None \<Rightarrow> rs1 | Some r \<Rightarrow> r # rs1)" .
  note f = apply_step_facts[OF o(1)]
  from f(3) Cons.prems(3) obtain r where r: "out = Some r" by auto
  have "\<forall>q\<in>set steps. \<not> step_done env plan_id q st1"
    using Cons.prems(2,3) by (auto simp: apply_step_done[OF o(1)])
  from Cons.IH[OF o(2) _ this] Cons.prems(2) f(5)[OF r] r o(3) show ?case by simp
qed simp

subsection \<open>Chunked backfills\<close>

definition succeeded :: "string \<Rightarrow> string \<Rightarrow> exec_state \<Rightarrow> (date \<times> date) list" where
  "succeeded t bid st = map (\<lambda>r. (ch_start r, ch_end r))
     (filter (\<lambda>r. ch_tenant r = t \<and> ch_backfill_id r = bid \<and> ch_status r = ''SUCCESS'') (xs_chunks st))"

definition checkpoints_of :: "string \<Rightarrow> string \<Rightarrow> exec_state \<Rightarrow> checkpoint_row list" where
  "checkpoints_of t bid st = filter (\<lambda>r. cp_tenant r = t \<and> cp_backfill_id r = bid) (xs_checkpoints st)"

text \<open>The checkpoint describes the backfill, its counter and date agree, and the chunks recorded as successful are the first ones.\<close>

definition checkpoint_ok :: "date \<Rightarrow> date \<Rightarrow> int \<Rightarrow> nat \<Rightarrow> checkpoint_row \<Rightarrow> bool" where
  "checkpoint_ok s e n k cp \<longleftrightarrow>
     cp_overall_start cp = s \<and> cp_overall_end cp = e \<and> cp_chunk_size_days cp = n \<and>
     cp_total_chunks cp = length (compute_chunks s e n) \<and> cp_completed_chunks cp = k \<and>
     cp_completed_through cp = (if k = 0 then None else Some (snd (compute_chunks s e n ! (k - 1))))"

definition backfill_inv :: "string \<Rightarrow> string \<Rightarrow> date \<Rightarrow> date \<Rightarrow> int \<Rightarrow> nat \<Rightarrow> exec_state \<Rightarrow> bool" where
  "backfill_inv t bid s e n k st \<longleftrightarrow>
     1 \<le> n \<and> s \<le> e \<and> k \<le> length (compute_chunks s e n) \<and>
     (\<exists>cp. checkpoints_of t bid st = [cp] \<and> checkpoint_ok s e n k cp) \<and>
     succeeded t bid st = take k (compute_chunks s e n)"

lemma backfill_inv_frame:
  "xs_checkpoints st' = xs_checkpoints st \<Longrightarrow> xs_chunks st' = xs_chunks st \<Longrightarrow>
   backfill_inv t bid s e n k st' = backfill_inv t bid s e n k st"
  by (simp add: backfill_inv_def checkpoints_of_def succeeded_def)

lemma backfill_inv_unlock [simp]: "backfill_inv t bid s e n k (unlock env m a b st) = backfill_inv t bid s e n k st"
  by (rule backfill_inv_frame) (simp_all add: store_simps)

lemma backfill_inv_tick [simp]: "backfill_inv t bid s e n k (tick st) = backfill_inv t bid s e n k st"
  by (rule backfill_inv_frame) (simp_all add: store_simps)

lemma filter_update_checkpoint:
  assumes "\<And>r. cp_tenant (f r) = cp_tenant r \<and> cp_backfill_id (f r) = cp_backfill_id r"
  shows "filter (\<lambda>r. cp_tenant r = t \<and> cp_backfill_id r = bid) (update_checkpoint t bid f tbl) =
     map f (filter (\<lambda>r. cp_tenant r = t \<and> cp_backfill_id r = bid) tbl)"
  using assms by (induction tbl) (simp_all add: update_checkpoint_def)

lemma fail_backfill_frame [store_simps]:
  "xs_locks (fail_backfill env bid m s e rid err stored d st) = xs_locks st"
  by (simp add: fail_backfill_def Let_def store_simps)

lemma complete_chunk_frame [store_simps]:
  "xs_locks (complete_chunk env bid m s e r d k st) = xs_locks st"
  by (simp add: complete_chunk_def Let_def store_simps)

lemma fail_backfill_inv:
  assumes "backfill_inv (en_tenant env) bid s e n k st"
  shows "backfill_inv (en_tenant env) bid s e n k (fail_backfill env bid m a b rid err stored d st)"
proof -
  from assms obtain cp where cp: "checkpoints_of (en_tenant env) bid st = [cp]" "checkpoint_ok s e n k cp"
    by (auto simp: backfill_inv_def)
  obtain now where "xs_checkpoints (fail_backfill env bid m a b rid err stored d st) =
      mark_failed now (en_tenant env) bid stored (xs_checkpoints st)"
    by (simp add: fail_backfill_def Let_def store_simps)
  then have "checkpoints_of (en_tenant env) bid (fail_backfill env bid m a b rid err stored d st) =
      [cp\<lparr>cp_status := ''FAILED'', cp_error_message := Some (take 2000 stored), cp_updated_at := now\<rparr>]"
    using cp(1) by (simp add: checkpoints_of_def mark_failed_def filter_update_checkpoint)
  moreover have "checkpoint_ok s e n k
      (cp\<lparr>cp_status := ''FAILED'', cp_error_message := Some (take 2000 stored), cp_updated_at := now\<rparr>)"
    using cp(2) by (simp add: checkpoint_ok_def)
  moreover have "succeeded (en_tenant env) bid (fail_backfill env bid m a b rid err stored d st) = succeeded (en_tenant env) bid st"
    by (simp add: succeeded_def fail_backfill_def Let_def store_simps record_chunk_def)
  ultimately show ?thesis using assms by (auto simp: backfill_inv_def)
qed

lemma complete_chunk_inv:
  assumes inv: "backfill_inv (en_tenant env) bid s e n k st"
    and k: "k < length (compute_chunks s e n)" "compute_chunks s e n ! k = (a, b)"
  shows "backfill_inv (en_tenant env) bid s e n (k + 1) (complete_chunk env bid m a b r d (k + 1) st)"
proof -
  from inv obtain cp where cp: "checkpoints_of (en_tenant env) bid st = [cp]" "checkpoint_ok s e n k cp"
    by (auto simp: backfill_inv_def)
  obtain now where "xs_checkpoints (complete_chunk env bid m a b r d (k + 1) st) =
      update_progress now (en_tenant env) bid b (k + 1) (xs_checkpoints st)"
    by (simp add: complete_chunk_def Let_def store_simps)
  then have "checkpoints_of (en_tenant env) bid (complete_chunk env bid m a b r d (k + 1) st) =
      [cp\<lparr>cp_completed_through := Some b, cp_completed_chunks := k + 1, cp_updated_at := now\<rparr>]"
    using cp(1) by (simp add: checkpoints_of_def update_progress_def filter_update_checkpoint)
  moreover have "checkpoint_ok s e n (k + 1)
      (cp\<lparr>cp_completed_through := Some b, cp_completed_chunks := k + 1, cp_updated_at := now\<rparr>)"
    using cp(2) k(2) by (simp add: checkpoint_ok_def)
  moreover have "succeeded (en_tenant env) bid (complete_chunk env bid m a b r d (k + 1) st) =
      succeeded (en_tenant env) bid st @ [(a, b)]"
    by (simp add: succeeded_def complete_chunk_def Let_def store_simps record_chunk_def)
  moreover have "take (k + 1) (compute_chunks s e n) = take k (compute_chunks s e n) @ [(a, b)]"
    using k by (simp add: take_Suc_conv_app_nth)
  ultimately show ?thesis using inv k by (auto simp: backfill_inv_def)
qed

text \<open>One round of the loop, with the names of everything that happens in it.\<close>

lemma chunk_loop_Cons:
  assumes "chunk_loop env bid m plan_id cluster tot ((a, b) # chunks) k runs st = Inr ((err, k', runs'), st')"
  obtains (Locked) st1 where "try_lock env m a b (''chunked_backfill:'' @ take 12 bid) st = (st1, False)"
      "err \<noteq> None" "k' = k"
      "st' = fail_backfill env bid m a b None (Some (lock_failed_message env a b)) (lock_failed_message env a b) None st1"
  | (Failed) st1 st3 r d where "try_lock env m a b (''chunked_backfill:'' @ take 12 bid) st = (st1, True)"
      "xs_locks st3 = xs_locks st1" "xs_checkpoints st3 = xs_checkpoints st1" "xs_chunks st3 = xs_chunks st1"
      "err \<noteq> None" "k' = k" "rn_status r = ''FAIL''" "en_check_status env (rn_status r)" "rn_tenant r = en_tenant env"
      "map run_key (xs_runs st3) = map run_key (xs_runs st1) @ [run_key r]"
      "st' = unlock env m a b (fail_backfill env bid m a b (Some (rn_run_id r)) (rn_error r)
         (opt_or (rn_error r) ''Chunk execution failed'') (Some d) st3)"
  | (Done) st1 st4 r d where "try_lock env m a b (''chunked_backfill:'' @ take 12 bid) st = (st1, True)"
      "xs_locks st4 = xs_locks st1" "xs_checkpoints st4 = xs_checkpoints st1" "xs_chunks st4 = xs_chunks st1"
      "rn_status r = ''SUCCESS''" "en_check_status env (rn_status r)" "rn_tenant r = en_tenant env"
      "map run_key (xs_runs st4) = map run_key (xs_runs st1) @ [run_key r]"
      "chunk_loop env bid m plan_id cluster tot chunks (k + 1) (runs @ [r])
         (unlock env m a b (complete_chunk env bid m a b r d (k + 1) st4)) = Inr ((err, k', runs'), st')"
proof -
  obtain st1 got where l: "try_lock env m a b (''chunked_backfill:'' @ take 12 bid) st = (st1, got)" by fastforce
  show ?thesis
  proof (cases got)
    case False
    with assms l show ?thesis by (intro Locked[of st1]) (auto simp: Let_def)
  next
    case True
    obtain r st2 where x: "execute_step env plan_id (chunk_step env m (k + 1) tot a b) cluster (tick st1) = (r, st2)" by fastforce
    define d where "d = (of_int (now_of env st2 - now_of env st1) / of_int microseconds_per_second :: rat)"
    from assms l True x obtain st3 where p: "persist_run env r (tick st2) = Inr st3"
      by (cases "persist_run env r (tick st2)") (simp_all add: Let_def)
    note frames = execute_step_frame[OF x] persist_run_frame[OF p]
    show ?thesis
    proof (cases "is_success r")
      case False
      have fin: "err = Some (rn_error r) \<and> k' = k \<and> st' = unlock env m a b (fail_backfill env bid m a b (Some (rn_run_id r))
          (rn_error r) (opt_or (rn_error r) ''Chunk execution failed'') (Some d) st3)"
        using assms[unfolded chunk_loop.simps Let_def l prod.case x p sum.case, folded d_def] True False by simp
      show ?thesis
      proof (rule Failed[of st1 st3 r d])
        show "try_lock env m a b (''chunked_backfill:'' @ take 12 bid) st = (st1, True)" using l True by simp
      qed (use frames fin False in \<open>auto simp: store_simps is_success_def\<close>)
    next
      case s: True
      obtain r' st4 where c: "store_cost env cluster r (advance_watermark env m a b st3) = (r', st4)" by fastforce
      have fin: "chunk_loop env bid m plan_id cluster tot chunks (k + 1) (runs @ [r'])
         (unlock env m a b (complete_chunk env bid m a b r' d (k + 1) st4)) = Inr ((err, k', runs'), st')"
        using assms[unfolded chunk_loop.simps Let_def l prod.case x p sum.case, folded d_def] True s c by simp
      show ?thesis
      proof (rule Done[of st1 st4 r' d])
        show "try_lock env m a b (''chunked_backfill:'' @ take 12 bid) st = (st1, True)" using l True by simp
      qed (use frames store_cost_frame[OF c] fin s in \<open>simp_all add: store_simps is_success_def\<close>)
    qed
  qed
qed

lemma chunk_loop_inv:
  assumes "backfill_inv (en_tenant env) bid s e n k st" "chunks = drop k (compute_chunks s e n)"
    and "chunk_loop env bid m plan_id cluster tot chunks k runs st = Inr ((err, k', runs'), st')"
  shows "backfill_inv (en_tenant env) bid s e n k' st' \<and> (err = None \<longleftrightarrow> k' = length (compute_chunks s e n))"
  using assms
proof (induction chunks arbitrary: k runs st)
  case Nil
  then have "k = length (compute_chunks s e n)" by (simp add: backfill_inv_def)
  with Nil show ?case by simp
next
  case (Cons c chunks)
  obtain a b where c: "c = (a, b)" by (cases c)
  have k: "k < length (compute_chunks s e n)" "compute_chunks s e n ! k = (a, b)"
    and rest: "chunks = drop (k + 1) (compute_chunks s e n)"
    using Cons.prems(2) c by (metis drop_all linorder_not_less list.discI, metis hd_drop_conv_nth linorder_not_less drop_all list.discI list.sel(1),
      metis add.commute drop_Suc list.sel(3) plus_1_eq_Suc tl_drop)
  from Cons.prems(3)[unfolded c] show ?case
  proof (cases rule: chunk_loop_Cons)
    case (Locked st1)
    have "backfill_inv (en_tenant env) bid s e n k st1"
      using Cons.prems(1) by (subst backfill_inv_frame[OF try_lock_frame(2,3)[OF Locked(1)]])
    then show ?thesis using Locked k(1) by (simp add: fail_backfill_inv)
  next
    case (Failed st1 st3 r d)
    have "backfill_inv (en_tenant env) bid s e n k st3"
      using Cons.prems(1) Failed(3,4) try_lock_frame(2,3)[OF Failed(1)] by (subst backfill_inv_frame[of _ st]) simp_all
    then show ?thesis using Failed(5,6,11) k(1) by (simp add: fail_backfill_inv)
  next
    case (Done st1 st4 r d)
    have "backfill_inv (en_tenant env) bid s e n k st4"
      using Cons.prems(1) Done(3,4) try_lock_frame(2,3)[OF Done(1)] by (subst backfill_inv_frame[of _ st]) simp_all
    then have "backfill_inv (en_tenant env) bid s e n (k + 1) (complete_chunk env bid m a b r d (k + 1) st4)"
      by (rule complete_chunk_inv[OF _ k])
    then have "backfill_inv (en_tenant env) bid s e n (k + 1) (unlock env m a b (complete_chunk env bid m a b r d (k + 1) st4))"
      by simp
    from Cons.IH[OF this rest Done(9)] show ?thesis .
  qed
qed

lemma chunk_loop_locks:
  assumes "chunk_loop env bid m plan_id cluster tot chunks k runs st = Inr ((err, k', runs'), st')"
  shows "set (xs_locks st') \<subseteq> set (xs_locks st)"
  using assms
proof (induction chunks arbitrary: k runs st)
  case (Cons c chunks)
  obtain a b where c: "c = (a, b)" by (cases c)
  from Cons.prems[unfolded c] show ?case
  proof (cases rule: chunk_loop_Cons)
    case (Locked st1)
    with acquire_lock_rows(1)[OF try_lock_frame(7)[OF Locked(1)]] show ?thesis by (simp add: store_simps)
  next
    case (Failed st1 st3 r d)
    with acquire_lock_rows(2)[OF try_lock_frame(7)[OF Failed(1)]] show ?thesis by (simp add: store_simps)
  next
    case (Done st1 st4 r d)
    from Cons.IH[OF Done(9)] acquire_lock_rows(2)[OF try_lock_frame(7)[OF Done(1)]] Done(2)
    show ?thesis by (auto simp: store_simps)
  qed
qed simp

end
