(* ===== verification/Execution_Props.thy ===== *)
theory Execution_Props
  imports Execution_Facts
begin

text \<open>
  The properties of the execution service. \<open>service_call\<close> is any one successful call of it, \<open>service_history\<close>
  a sequence of them, \<open>backfill_run\<close> a chunked backfill with the resumes it needed, everything else of the
  system acting in between. \<open>demo_env\<close> is an environment with a ticking clock and a choice of what fails.
\<close>

definition demo_env :: "(string \<Rightarrow> bool) \<Rightarrow> (date option \<Rightarrow> bool) \<Rightarrow> exec_env" where
  "demo_env check fails =
     \<lparr>en_tenant = ''t'', en_platform_env = PROD_ENV, en_clock = (\<lambda>n. int n), en_uuid = nat_digits, en_sha = (\<lambda>s. s),
      en_iso = int_string, en_check_status = check,
      en_engine = (\<lambda>step cluster n. if fails (map_option fst (st_input_range step)) then Some ''boom'' else None)\<rparr>"

definition demo_plan_step :: "string \<Rightarrow> string \<Rightarrow> stored_step" where
  "demo_plan_step sid m =
     \<lparr>st_step_id = sid, st_model = m, st_run_type = ''INCREMENTAL'', st_input_range = Some (1, 2), st_depends_on = [],
      st_parallel_group = 0, st_reason = ''r''\<rparr>"

definition demo_state :: exec_state where
  "demo_state =
     \<lparr>xs_plans = [\<lparr>pr_plan_id = ''p'', pr_tenant = ''t'', pr_base_sha = ''a'', pr_target_sha = ''b'',
        pr_steps = [demo_plan_step ''1'' ''m'', demo_plan_step ''2'' ''n''],
        pr_approvals = [\<lparr>ap_user = ''u'', ap_comment = [], ap_at = 0, ap_rejected = False\<rparr>], pr_created_at = 0\<rparr>],
      xs_runs = [], xs_locks = [], xs_watermarks = [], xs_telemetry = [], xs_checkpoints = [], xs_chunks = [],
      xs_models = [(''t'', ''m'')], xs_ticks = 0\<rparr>"

subsection \<open>The approval gate\<close>

lemma apply_steps_error:
  "apply_steps env plan_id approved_by cluster steps st \<noteq> Inl PermissionError"
proof (induction steps arbitrary: st)
  case (Cons step steps)
  have "apply_step env plan_id approved_by cluster step st \<noteq> Inl PermissionError"
    by (auto simp: apply_step_def run_plan_step_def persist_run_def Let_def split: option.splits sum.splits prod.splits)
  with Cons show ?case by (auto split: sum.splits option.splits)
qed simp

text \<open>Applying a plan is refused for lack of permission exactly when auto approval is asked for by anyone but an admin,
  or when it is not asked for, the platform is not a development one, and the stored plan has no approval.\<close>

theorem apply_plan_permission:
  "apply_plan env plan_id approved_by cluster auto_approve caller_role st = Inl PermissionError \<longleftrightarrow>
     (auto_approve \<and> caller_role \<noteq> Some ADMIN) \<or>
     (\<not> auto_approve \<and> en_platform_env env \<noteq> DEV \<and>
      (\<exists>p. get_plan (xs_plans st) (en_tenant env) plan_id = Some p \<and> pr_approvals p = []))"
  by (auto simp: apply_plan_def apply_steps_error split: option.splits)

lemma apply_plan_returns:
  assumes "apply_plan env plan_id approved_by cluster auto_approve caller_role st = Inr (rs, st')"
  obtains p where "get_plan (xs_plans st) (en_tenant env) plan_id = Some p"
    "apply_steps env plan_id approved_by cluster (pr_steps p) st = Inr (rs, st')"
    "\<forall>st2. xs_plans st2 = xs_plans st \<longrightarrow> apply_plan env plan_id approved_by cluster auto_approve caller_role st2 =
       apply_steps env plan_id approved_by cluster (pr_steps p) st2"
proof -
  from assms obtain p where p: "get_plan (xs_plans st) (en_tenant env) plan_id = Some p"
    by (auto simp: apply_plan_def split: if_splits option.splits)
  with assms show ?thesis by (intro that[OF p]) (auto simp: apply_plan_def split: if_splits)
qed

subsection \<open>What applying a plan attempts\<close>

lemma apply_steps_attempts:
  assumes "apply_steps env plan_id approved_by cluster steps st = Inr (rs, st')"
    and "distinct (map st_step_id steps)"
  shows "map (\<lambda>r. (rn_step_id r, rn_model r)) rs =
    map (\<lambda>s. (st_step_id s, st_model s)) (filter (\<lambda>s. \<not> step_done env plan_id s st) steps)"
  using assms
proof (induction steps arbitrary: st rs)
  case (Cons step steps)
  from apply_steps_Cons[OF Cons.prems(1)] obtain out st1 rs1 where
    o: "apply_step env plan_id approved_by cluster step st = Inr (out, st1)"
      "apply_steps env plan_id approved_by cluster steps st1 = Inr (rs1, st')"
      "rs = (case out of None \<Rightarrow> rs1 | Some r \<Rightarrow> r # rs1)" .
  note f = apply_step_facts[OF o(1)]
  have "filter (\<lambda>s. \<not> step_done env plan_id s st1) steps = filter (\<lambda>s. \<not> step_done env plan_id s st) steps"
    using Cons.prems(2) by (intro filter_cong) (auto simp: apply_step_done[OF o(1)])
  with Cons.IH[OF o(2)] Cons.prems(2) f(3,5) o(3) show ?case by (cases out) auto
qed simp

lemma apply_plan_attempts_runs:
  assumes "apply_plan env plan_id approved_by cluster auto_approve caller_role st = Inr (rs, st')"
    and "get_plan (xs_plans st) (en_tenant env) plan_id = Some p"
    and "distinct (map st_step_id (pr_steps p))"
  shows "map (\<lambda>r. (rn_step_id r, rn_model r)) rs =
    map (\<lambda>s. (st_step_id s, st_model s)) (filter (\<lambda>s. \<not> step_done env plan_id s st) (pr_steps p))"
proof -
  from apply_plan_returns[OF assms(1)] obtain q where
    "get_plan (xs_plans st) (en_tenant env) plan_id = Some q"
    "apply_steps env plan_id approved_by cluster (pr_steps q) st = Inr (rs, st')" .
  with assms(2,3) show ?thesis by (simp add: apply_steps_attempts)
qed

text \<open>C9: Applying a plan with distinct step identifiers attempts exactly the steps that have no successful run yet, in the order
  of the plan, one run each: a plan applied again after a partial failure repeats only what failed.\<close>

theorem apply_plan_attempts_unfinished:
  assumes "apply_plan env plan_id approved_by cluster auto_approve caller_role st = Inr (rs, st')"
    and "get_plan (xs_plans st) (en_tenant env) plan_id = Some p"
    and "distinct (map st_step_id (pr_steps p))"
  shows "map (\<lambda>r. (rn_step_id r, rn_model r)) rs =
    map (\<lambda>s. (st_step_id s, st_model s)) (filter (\<lambda>s. \<not> step_done env plan_id s st) (pr_steps p))"
  using assms by (rule apply_plan_attempts_runs)

theorem apply_plan_attempts_unfinished_witness:
  "\<exists>rs st'. apply_plan (demo_env (\<lambda>s. True) (\<lambda>d. d = None)) ''p'' None None False None demo_state = Inr (rs, st') \<and>
     map (\<lambda>r. (rn_step_id r, rn_model r)) rs = [(''1'', ''m''), (''2'', ''n'')]"
proof -
  let ?env = "demo_env (\<lambda>s. True) (\<lambda>d. d = None)"
  have "case apply_plan ?env ''p'' None None False None demo_state of Inl e \<Rightarrow> False | Inr q \<Rightarrow> True" by code_simp
  then obtain rs st' where r: "apply_plan ?env ''p'' None None False None demo_state = Inr (rs, st')"
    by (auto split: sum.splits)
  have p: "get_plan (xs_plans demo_state) (en_tenant ?env) ''p'' = Some (hd (xs_plans demo_state))"
    "distinct (map st_step_id (pr_steps (hd (xs_plans demo_state))))"
    "filter (\<lambda>s. \<not> step_done ?env ''p'' s demo_state) (pr_steps (hd (xs_plans demo_state))) = [demo_plan_step ''1'' ''m'', demo_plan_step ''2'' ''n'']"
    by (simp_all add: demo_env_def demo_state_def get_plan_def demo_plan_step_def step_done_def)
  show ?thesis using apply_plan_attempts_unfinished[OF r p(1,2)] r p(3) by (simp add: demo_plan_step_def)
qed

text \<open>After an application in which every attempted step succeeded, applying the same plan again runs nothing and changes nothing.\<close>

theorem apply_plan_idempotent:
  assumes "apply_plan env plan_id approved_by cluster auto_approve caller_role st = Inr (rs, st')"
    and "\<forall>r\<in>set rs. rn_status r = ''SUCCESS''"
  shows "apply_plan env plan_id approved_by cluster auto_approve caller_role st' = Inr ([], st')"
proof -
  from apply_plan_returns[OF assms(1)] obtain p where
    "get_plan (xs_plans st) (en_tenant env) plan_id = Some p" and p: "apply_steps env plan_id approved_by cluster (pr_steps p) st = Inr (rs, st')"
      "\<forall>st2. xs_plans st2 = xs_plans st \<longrightarrow> apply_plan env plan_id approved_by cluster auto_approve caller_role st2 =
       apply_steps env plan_id approved_by cluster (pr_steps p) st2" .
  note f = apply_steps_facts[OF p(1)]
  have keys: "map run_key (xs_runs st') = map run_key (xs_runs st) @ map run_key (recorded rs)" using f by simp
  have "recorded rs = rs" using assms(2) by (simp add: recorded_def filter_id_conv)
  with keys have keys: "set (map run_key (xs_runs st')) = set (map run_key (xs_runs st)) \<union> run_key ` set rs" by simp
  have "step_done env plan_id step st'" if step: "step \<in> set (pr_steps p)" for step
  proof -
    from f step consider "step_done env plan_id step st"
      | r where "r \<in> set rs" "rn_step_id r = st_step_id step" "rn_tenant r = en_tenant env" "rn_plan_id r = plan_id" by blast
    then show ?thesis
    proof cases
      case 2
      then have "run_key r = (en_tenant env, plan_id, st_step_id step, ''SUCCESS'')" using assms(2) by (simp add: run_key_def)
      with 2(1) show ?thesis unfolding step_done_def keys by (metis UnI2 imageI)
    qed (simp only: step_done_def keys Un_iff simp_thms)
  qed
  then show ?thesis using p(2) f by (simp add: apply_steps_done)
qed

theorem apply_plan_idempotent_witness:
  "\<exists>rs st'. length rs = 2 \<and> apply_plan (demo_env (\<lambda>s. True) (\<lambda>d. d = None)) ''p'' None None False None st' = Inr ([], st') \<and>
     apply_plan (demo_env (\<lambda>s. True) (\<lambda>d. d = None)) ''p'' None None False None demo_state = Inr (rs, st')"
proof -
  let ?env = "demo_env (\<lambda>s. True) (\<lambda>d. d = None)"
  have "case apply_plan ?env ''p'' None None False None demo_state of
      Inl e \<Rightarrow> False | Inr (rs, st') \<Rightarrow> length rs = 2 \<and> list_all (\<lambda>r. rn_status r = ''SUCCESS'') rs" by code_simp
  then obtain rs st' where r: "apply_plan ?env ''p'' None None False None demo_state = Inr (rs, st')" "length rs = 2"
      "\<forall>r\<in>set rs. rn_status r = ''SUCCESS''"
    by (auto split: sum.splits simp: list_all_iff)
  from apply_plan_idempotent[OF r(1,3)] r show ?thesis by blast
qed

subsection \<open>Whole calls\<close>

text \<open>The call appended runs of the caller's tenant, with one of the two statuses the service writes, all of them accepted by the table.\<close>

definition runs_grow :: "exec_env \<Rightarrow> exec_state \<Rightarrow> exec_state \<Rightarrow> bool" where
  "runs_grow env st st' \<longleftrightarrow> (\<exists>ks. map run_key (xs_runs st') = map run_key (xs_runs st) @ ks \<and>
     (\<forall>(t, plan_id, step_id, status)\<in>set ks. t = en_tenant env \<and> status \<in> {''SUCCESS'', ''FAIL''} \<and> en_check_status env status))"

lemma runs_grow_same: "map run_key (xs_runs st') = map run_key (xs_runs st) \<Longrightarrow> runs_grow env st st'"
  by (simp add: runs_grow_def)

lemma runs_grow_trans: "runs_grow env st st1 \<Longrightarrow> runs_grow env st1 st' \<Longrightarrow> runs_grow env st st'"
  unfolding runs_grow_def by (elim exE) (rule exI, auto)

lemma runs_grow_one:
  assumes "map run_key (xs_runs st') = map run_key (xs_runs st) @ [run_key r]" "rn_tenant r = en_tenant env"
    "rn_status r \<in> {''SUCCESS'', ''FAIL''}" "en_check_status env (rn_status r)"
  shows "runs_grow env st st'"
  using assms unfolding runs_grow_def by (intro exI[of _ "[run_key r]"]) (auto simp: run_key_def)

lemma apply_plan_effect:
  assumes "apply_plan env plan_id approved_by cluster auto_approve caller_role st = Inr (rs, st')"
  shows "set (xs_locks st') \<subseteq> set (xs_locks st) \<and> runs_grow env st st'"
proof -
  from apply_plan_returns[OF assms] obtain p where
    p: "get_plan (xs_plans st) (en_tenant env) plan_id = Some p"
      "apply_steps env plan_id approved_by cluster (pr_steps p) st = Inr (rs, st')" .
  have "runs_grow env st st'" using p(2)
  proof (induction "pr_steps p" arbitrary: st rs p)
    case Nil
    then show ?case by (simp add: runs_grow_same)
  next
    case (Cons step steps)
    then have "apply_steps env plan_id approved_by cluster (step # steps) st = Inr (rs, st')" by simp
    from apply_steps_Cons[OF this] obtain out st1 rs1 where
      o: "apply_step env plan_id approved_by cluster step st = Inr (out, st1)"
        "apply_steps env plan_id approved_by cluster steps st1 = Inr (rs1, st')" .
    note f = apply_step_facts[OF o(1)]
    have "runs_grow env st st1"
    proof (cases "\<exists>r. out = Some r \<and> rn_status r \<noteq> ''CANCELLED''")
      case True
      then obtain r where r: "out = Some r" "rn_status r \<noteq> ''CANCELLED''" by blast
      with f(5)[OF r(1)] f(6) show ?thesis by (intro runs_grow_one[of _ _ r]) (simp_all add: recorded_def)
    next
      case False
      with f(4,7) show ?thesis by (cases out) (auto intro: runs_grow_same)
    qed
    moreover have "runs_grow env st1 st'"
      using Cons.hyps(1)[of "\<lparr>pr_plan_id = [], pr_tenant = [], pr_base_sha = [], pr_target_sha = [], pr_steps = steps,
        pr_approvals = [], pr_created_at = 0\<rparr>"] o(2) by simp
    ultimately show ?case by (rule runs_grow_trans)
  qed
  with apply_steps_facts[OF p(2)] show ?thesis by simp
qed

lemma backfill_effect:
  assumes "backfill env m s e cluster st = Inr (r, st')"
  shows "set (xs_locks st') \<subseteq> set (xs_locks st) \<and> runs_grow env st st' \<and> en_check_status env (rn_status r) \<and>
    rn_status r \<in> {''SUCCESS'', ''FAIL''}"
proof -
  obtain st1 got where l: "try_lock env m s e ''backfill'' (tick st) = (st1, got)" by fastforce
  define pid where "pid = compute_deterministic_id (en_sha env) [''backfill'', m, en_iso env s, en_iso env e]"
  from assms l obtain plans where sp: "save_plan (now_of env st1) (en_tenant env) pid ''backfill'' ''backfill''
      [backfill_step env m s e] (xs_plans st1) = Inr plans"
    by (auto simp: backfill_def Let_def pid_def split: if_splits sum.splits)
  obtain q st2 where x: "execute_step env pid (backfill_step env m s e) cluster (tick (st1\<lparr>xs_plans := plans\<rparr>)) = (q, st2)"
    by fastforce
  from assms l sp x obtain st3 where p: "persist_run env q st2 = Inr st3"
    by (auto simp: backfill_def Let_def pid_def split: if_splits sum.splits)
  define st4 where "st4 = (if is_success q then advance_watermark env m s e st3 else st3)"
  obtain q' st5 where c: "store_cost env cluster q st4 = (q', st5)" by fastforce
  have fin: "r = q'" "st' = unlock env m s e st5"
    using assms l sp x p c by (auto simp: backfill_def Let_def pid_def st4_def split: if_splits)
  note frames = execute_step_frame[OF x] persist_run_frame[OF p] store_cost_frame[OF c] try_lock_frame[OF l]
  have st4: "xs_locks st4 = xs_locks st3" "xs_runs st4 = xs_runs st3" by (simp_all add: st4_def store_simps)
  have "xs_locks st' = release_lock (en_tenant env, m, s, e) (xs_locks st1)"
    using fin frames st4 by (simp add: store_simps)
  then have "set (xs_locks st') \<subseteq> set (xs_locks st)"
    using acquire_lock_rows(2)[OF try_lock_frame(7)[OF l]] by (simp add: store_simps)
  moreover have "map run_key (xs_runs st') = map run_key (xs_runs st) @ [run_key r]"
    using fin frames st4 by (simp add: store_simps)
  ultimately show ?thesis using frames fin by (auto intro: runs_grow_one[of _ _ r])
qed

lemma chunk_loop_runs:
  assumes "chunk_loop env bid m plan_id cluster tot chunks k runs st = Inr ((err, k', runs'), st')"
  shows "runs_grow env st st'"
  using assms
proof (induction chunks arbitrary: k runs st)
  case Nil
  then show ?case by (simp add: runs_grow_same)
next
  case (Cons c chunks)
  obtain a b where c: "c = (a, b)" by (cases c)
  from Cons.prems[unfolded c] show ?case
  proof (cases rule: chunk_loop_Cons)
    case (Locked st1)
    with try_lock_frame[OF Locked(1)] show ?thesis
      by (intro runs_grow_same) (simp add: fail_backfill_def Let_def store_simps)
  next
    case (Failed st1 st3 r d)
    with try_lock_frame[OF Failed(1)] show ?thesis
      by (intro runs_grow_one[of _ _ r]) (simp_all add: fail_backfill_def Let_def store_simps)
  next
    case (Done st1 st4 r d)
    have "runs_grow env st (unlock env m a b (complete_chunk env bid m a b r d (k + 1) st4))"
      using Done try_lock_frame[OF Done(1)]
      by (intro runs_grow_one[of _ _ r]) (simp_all add: complete_chunk_def Let_def store_simps)
    with Cons.IH[OF Done(9)] show ?thesis by (metis runs_grow_trans)
  qed
qed

text \<open>One successful call of the service, with any arguments.\<close>

inductive service_call :: "exec_env \<Rightarrow> exec_state \<Rightarrow> exec_state \<Rightarrow> bool" for env :: exec_env where
  applied: "apply_plan env plan_id approved_by cluster auto_approve caller_role st = Inr (rs, st') \<Longrightarrow> service_call env st st'"
| single: "backfill env m s e cluster st = Inr (r, st') \<Longrightarrow> service_call env st st'"
| chunked: "chunked_backfill env m s e cluster n st = Inr (res, st') \<Longrightarrow> service_call env st st'"
| resumed: "resume_backfill env bid st = Inr (res, st') \<Longrightarrow> service_call env st st'"

text \<open>Calls one after the other; the environment of each is its own.\<close>

inductive service_history :: "exec_state \<Rightarrow> exec_state \<Rightarrow> bool" where
  start: "service_history st st"
| call: "service_history st st1 \<Longrightarrow> service_call env st1 st2 \<Longrightarrow> service_history st st2"

lemma execute_chunks_loop:
  assumes "execute_chunks env bid m plan_id chunks cluster k st = Inr (res, st')"
  obtains err k' runs st1 where "chunk_loop env bid m plan_id cluster (br_total_chunks res) chunks k [] st = Inr ((err, k', runs), st1)"
    "st' = (case err of Some _ \<Rightarrow> st1 | None \<Rightarrow>
       tick (st1\<lparr>xs_checkpoints := mark_completed (now_of env st1) (en_tenant env) bid (xs_checkpoints st1)\<rparr>))"
    "br_backfill_id res = bid" "br_completed_chunks res = k'"
    "br_status res = (case err of Some _ \<Rightarrow> ''FAILED'' | None \<Rightarrow> ''COMPLETED'')"
    "br_total_chunks res =
       (case get_checkpoint (xs_checkpoints st) (en_tenant env) bid of Some cp \<Rightarrow> cp_total_chunks cp | None \<Rightarrow> length chunks + k)"
proof -
  let ?tot = "case get_checkpoint (xs_checkpoints st) (en_tenant env) bid of Some cp \<Rightarrow> cp_total_chunks cp | None \<Rightarrow> length chunks + k"
  show ?thesis
  proof (cases "chunk_loop env bid m plan_id cluster ?tot chunks k [] st")
    case (Inl e)
    with assms show ?thesis by (simp add: execute_chunks_def Let_def)
  next
    case (Inr q)
    obtain err k' runs st1 where q: "q = ((err, k', runs), st1)" by (cases q) auto
    have res: "br_total_chunks res = ?tot"
      using assms Inr q by (auto simp: execute_chunks_def Let_def split: option.splits)
    show ?thesis
      by (rule that[OF Inr[unfolded q, folded res]]) (use assms Inr q in \<open>auto simp: execute_chunks_def Let_def split: option.splits\<close>)
  qed
qed

lemma execute_chunks_effect:
  assumes "execute_chunks env bid m plan_id chunks cluster k st = Inr (res, st')"
  shows "set (xs_locks st') \<subseteq> set (xs_locks st) \<and> runs_grow env st st'"
proof -
  from execute_chunks_loop[OF assms] obtain err k' runs st1 where
    l: "chunk_loop env bid m plan_id cluster (br_total_chunks res) chunks k [] st = Inr ((err, k', runs), st1)"
    and fin: "st' = (case err of Some _ \<Rightarrow> st1 | None \<Rightarrow>
       tick (st1\<lparr>xs_checkpoints := mark_completed (now_of env st1) (en_tenant env) bid (xs_checkpoints st1)\<rparr>))" .
  have "xs_locks st' = xs_locks st1 \<and> xs_runs st' = xs_runs st1"
    unfolding fin by (simp add: store_simps split: option.splits)
  with chunk_loop_locks[OF l] chunk_loop_runs[OF l] show ?thesis by (simp add: runs_grow_def)
qed

lemma service_call_effect: "service_call env st st' \<Longrightarrow> set (xs_locks st') \<subseteq> set (xs_locks st) \<and> runs_grow env st st'"
proof (induction rule: service_call.induct)
  case applied
  then show ?case by (rule apply_plan_effect)
next
  case single
  then show ?case using backfill_effect by blast
next
  case (chunked m s e cluster n st res st')
  then obtain bid plan_id cps where
    "execute_chunks env bid m plan_id (compute_chunks s e n) cluster 0 (tick (st\<lparr>xs_checkpoints := cps\<rparr>)) = Inr (res, st')"
    by (auto simp: chunked_backfill_def Let_def split: if_splits sum.splits)
  from execute_chunks_effect[OF this] show ?case by (simp add: store_simps runs_grow_def)
next
  case (resumed bid st res st')
  show ?case
  proof (cases "\<exists>m plan_id chunks cluster k. execute_chunks env bid m plan_id chunks cluster k st = Inr (res, st')")
    case True
    then show ?thesis using execute_chunks_effect by blast
  next
    case False
    with resumed have "xs_locks st' = xs_locks st \<and> xs_runs st' = xs_runs st"
      by (auto simp: resume_backfill_def Let_def store_simps split: option.splits if_splits)
    then show ?thesis by (simp add: runs_grow_same)
  qed
qed

text \<open>C10: No successful call leaves a lock behind: every lock row that exists after it existed before it.\<close>

theorem service_call_returns_locks:
  assumes "service_call env st st'"
  shows "set (xs_locks st') \<subseteq> set (xs_locks st)"
  using service_call_effect[OF assms] by simp

text \<open>Whatever sequence of calls is made, historical statistics stay empty: the service writes the statuses SUCCESS and FAIL, and
  the statistics that the planner uses count only COMPLETED.\<close>

theorem service_runs_never_counted:
  assumes "service_history st st'" and "\<forall>r\<in>set (xs_runs st). rn_status r \<noteq> ''COMPLETED''"
  shows "get_historical_stats (xs_runs st') t m = \<lparr>rs_avg_runtime = None, rs_avg_cost = None, rs_run_count = 0\<rparr>"
proof -
  have "\<forall>q\<in>set (map run_key (xs_runs st')). snd (snd (snd q)) \<noteq> ''COMPLETED''"
    using assms
  proof (induction rule: service_history.induct)
    case (call st st1 env st2)
    then have IH: "\<forall>q\<in>set (map run_key (xs_runs st1)). snd (snd (snd q)) \<noteq> ''COMPLETED''" by blast
    from service_call_effect[OF call.hyps(2)] obtain ks where
      ks: "map run_key (xs_runs st2) = map run_key (xs_runs st1) @ ks"
        "\<forall>(t, plan_id, step_id, status)\<in>set ks. status \<in> {''SUCCESS'', ''FAIL''}"
      by (fastforce simp: runs_grow_def)
    have "snd (snd (snd q)) \<noteq> ''COMPLETED''" if "q \<in> set ks" for q using ks(2) that by (cases q) auto
    with IH show ?case unfolding ks(1) by auto
  qed (auto simp: run_key_def)
  then have "completed_runs (model_runs (xs_runs st') t m) = []"
    by (force simp: completed_runs_def model_runs_def run_key_def filter_empty_conv)
  then show ?thesis by (simp add: get_historical_stats_def last_completed_def stats_of_def)
qed

text \<open>On a database with the check constraint of the deployed schema no successful call records any run: the statuses written are
  not among those the constraint accepts, so steps are either cancelled or abort the call.\<close>

theorem deployed_constraint_records_nothing:
  assumes "service_call env st st'" and "en_check_status env = ck_runs_status"
  shows "map run_key (xs_runs st') = map run_key (xs_runs st)"
proof -
  from service_call_effect[OF assms(1)] obtain ks where
    ks: "map run_key (xs_runs st') = map run_key (xs_runs st) @ ks"
      "\<forall>(t, plan_id, step_id, status)\<in>set ks. t = en_tenant env \<and> status \<in> {''SUCCESS'', ''FAIL''} \<and> ck_runs_status status"
    by (auto simp: runs_grow_def assms(2))
  have "ks = []"
  proof (rule ccontr)
    assume "ks \<noteq> []"
    then obtain q where "q \<in> set ks" by (cases ks) auto
    with ks(2) show False by (auto simp: ck_runs_status_def)
  qed
  with ks(1) show ?thesis by simp
qed

lemma demo_call: "\<exists>rs st'. apply_plan (demo_env (\<lambda>s. True) (\<lambda>d. d = None)) ''p'' None None False None demo_state = Inr (rs, st') \<and>
    length (xs_runs st') = 2"
proof -
  have "case apply_plan (demo_env (\<lambda>s. True) (\<lambda>d. d = None)) ''p'' None None False None demo_state of
      Inl e \<Rightarrow> False | Inr (rs, st') \<Rightarrow> length (xs_runs st') = 2" by code_simp
  then show ?thesis by (auto split: sum.splits)
qed

theorem service_call_returns_locks_witness:
  "\<exists>st'. service_call (demo_env (\<lambda>s. True) (\<lambda>d. d = None)) demo_state st' \<and> set (xs_locks st') \<subseteq> set (xs_locks demo_state)"
proof -
  from demo_call obtain rs st' where
    "apply_plan (demo_env (\<lambda>s. True) (\<lambda>d. d = None)) ''p'' None None False None demo_state = Inr (rs, st')" by blast
  then have "service_call (demo_env (\<lambda>s. True) (\<lambda>d. d = None)) demo_state st'" by (rule service_call.intros)
  with service_call_returns_locks[OF this] show ?thesis by blast
qed

theorem service_runs_never_counted_witness:
  "\<exists>st'. service_history demo_state st' \<and> length (xs_runs st') = 2 \<and>
     get_historical_stats (xs_runs st') ''t'' ''m'' = \<lparr>rs_avg_runtime = None, rs_avg_cost = None, rs_run_count = 0\<rparr>"
proof -
  from demo_call obtain rs st' where
    a: "apply_plan (demo_env (\<lambda>s. True) (\<lambda>d. d = None)) ''p'' None None False None demo_state = Inr (rs, st')"
      "length (xs_runs st') = 2" by blast
  have h: "service_history demo_state st'"
    by (rule service_history.call[OF service_history.start service_call.applied[OF a(1)]])
  from service_runs_never_counted[OF h] have
    "get_historical_stats (xs_runs st') ''t'' ''m'' = \<lparr>rs_avg_runtime = None, rs_avg_cost = None, rs_run_count = 0\<rparr>"
    by (simp add: demo_state_def)
  with h a(2) show ?thesis by blast
qed

text \<open>With somebody else's lock on the first range, the first step is cancelled; the second, without a range, cannot be recorded.\<close>

definition locked_state :: exec_state where
  "locked_state = demo_state\<lparr>xs_locks := [\<lparr>lk_tenant = ''t'', lk_model = ''m'', lk_start = 1, lk_end = 2, lk_by = ''x'', lk_at = 0,
     lk_ttl = 3600\<rparr>], xs_plans := map (\<lambda>p. p\<lparr>pr_steps := [demo_plan_step ''1'' ''m'']\<rparr>) (xs_plans demo_state)\<rparr>"

theorem deployed_constraint_records_nothing_witness:
  "\<exists>st'. service_call (demo_env ck_runs_status (\<lambda>d. False)) locked_state st' \<and>
     map run_key (xs_runs st') = map run_key (xs_runs locked_state) \<and>
     apply_plan (demo_env ck_runs_status (\<lambda>d. False)) ''p'' None None False None demo_state = Inl (DatabaseError CheckViolation)"
proof -
  have "case apply_plan (demo_env ck_runs_status (\<lambda>d. False)) ''p'' None None False None locked_state of
      Inl e \<Rightarrow> False | Inr (rs, st') \<Rightarrow> True" by code_simp
  then obtain rs st' where "apply_plan (demo_env ck_runs_status (\<lambda>d. False)) ''p'' None None False None locked_state = Inr (rs, st')"
    by (auto split: sum.splits)
  then have c: "service_call (demo_env ck_runs_status (\<lambda>d. False)) locked_state st'" by (rule service_call.intros)
  have "case apply_plan (demo_env ck_runs_status (\<lambda>d. False)) ''p'' None None False None demo_state of
      Inl (DatabaseError CheckViolation) \<Rightarrow> True | _ \<Rightarrow> False" by code_simp
  then have "apply_plan (demo_env ck_runs_status (\<lambda>d. False)) ''p'' None None False None demo_state = Inl (DatabaseError CheckViolation)"
    by (auto split: sum.splits exec_error.splits db_error.splits)
  with c deployed_constraint_records_nothing[OF c] show ?thesis by (auto simp: demo_env_def)
qed

subsection \<open>Chunked backfills with resumes\<close>

text \<open>The chunks of a backfill cover every day of the range exactly once, in order, and no chunk is empty or longer than the chunk size.\<close>

theorem chunks_tile_range:
  assumes "1 \<le> n"
  shows "concat (map (\<lambda>(a, b). [a..b]) (compute_chunks s e n)) = [s..e] \<and>
    (\<forall>(a, b)\<in>set (compute_chunks s e n). a \<le> b \<and> b - a < n)"
  using compute_chunks_days[OF assms] compute_chunks_bounds[OF assms] by fastforce

theorem chunks_tile_range_witness:
  "concat (map (\<lambda>(a, b). [a..b]) (compute_chunks 1 10 7)) = [1..10] \<and>
   list_all (\<lambda>(a, b). a \<le> b \<and> b - a < 7) (compute_chunks 1 10 7)"
  using chunks_tile_range[of 7 1 10] by (auto simp: list_all_iff)

text \<open>
  A chunked backfill of tenant \<open>t\<close> and the resumes after it, each with its own environment. Between two
  calls anything may happen that leaves this backfill's checkpoint and audit rows alone. \<open>bid\<close> is the backfill's
  identifier and the last argument but one the last call's result.
\<close>

inductive backfill_run :: "string \<Rightarrow> date \<Rightarrow> date \<Rightarrow> int \<Rightarrow> string \<Rightarrow> backfill_result \<Rightarrow> exec_state \<Rightarrow> bool"
  for t :: string and s :: date and e :: date and n :: int where
  started: "en_tenant env = t \<Longrightarrow> chunked_backfill env m s e cluster n st = Inr (res, st') \<Longrightarrow>
    succeeded t (br_backfill_id res) st = [] \<Longrightarrow> backfill_run t s e n (br_backfill_id res) res st'"
| resumed: "backfill_run t s e n bid res st \<Longrightarrow> en_tenant env = t \<Longrightarrow> resume_backfill env bid st = Inr (res', st') \<Longrightarrow>
    backfill_run t s e n bid res' st'"
| others: "backfill_run t s e n bid res st \<Longrightarrow> checkpoints_of t bid st' = checkpoints_of t bid st \<Longrightarrow>
    succeeded t bid st' = succeeded t bid st \<Longrightarrow> backfill_run t s e n bid res st'"

lemma find_hd_filter: "find P xs = (case filter P xs of [] \<Rightarrow> None | x # _ \<Rightarrow> Some x)"
  by (induction xs) auto

lemma get_checkpoint_inv:
  assumes "backfill_inv t bid s e n k st"
  obtains cp where "get_checkpoint (xs_checkpoints st) t bid = Some cp" "checkpoint_ok s e n k cp"
proof -
  from assms obtain cp where cp: "checkpoints_of t bid st = [cp]" "checkpoint_ok s e n k cp" by (auto simp: backfill_inv_def)
  then have "get_checkpoint (xs_checkpoints st) t bid = Some cp"
    unfolding get_checkpoint_def checkpoints_of_def by (simp add: find_hd_filter)
  with cp(2) that show thesis by blast
qed

definition backfill_ok :: "string \<Rightarrow> string \<Rightarrow> date \<Rightarrow> date \<Rightarrow> int \<Rightarrow> backfill_result \<Rightarrow> exec_state \<Rightarrow> bool" where
  "backfill_ok t bid s e n res st \<longleftrightarrow>
     backfill_inv t bid s e n (br_completed_chunks res) st \<and> br_total_chunks res = length (compute_chunks s e n) \<and>
     (br_status res = ''COMPLETED'' \<longleftrightarrow> br_completed_chunks res = br_total_chunks res)"

lemma backfill_inv_mark_completed:
  assumes "backfill_inv t bid s e n k st"
  shows "backfill_inv t bid s e n k (st\<lparr>xs_checkpoints := mark_completed now t bid (xs_checkpoints st)\<rparr>)"
  using assms
  by (auto simp: backfill_inv_def checkpoints_of_def mark_completed_def filter_update_checkpoint succeeded_def store_simps checkpoint_ok_def)

lemma execute_chunks_ok:
  assumes inv: "backfill_inv (en_tenant env) bid s e n k st" and chunks: "chunks = drop k (compute_chunks s e n)"
    and run: "execute_chunks env bid m plan_id chunks cluster k st = Inr (res, st')"
  shows "backfill_ok (en_tenant env) bid s e n res st'"
proof -
  from get_checkpoint_inv[OF inv] obtain cp where
    cp: "get_checkpoint (xs_checkpoints st) (en_tenant env) bid = Some cp" "checkpoint_ok s e n k cp" .
  from execute_chunks_loop[OF run] obtain err k' runs st1 where
    l: "chunk_loop env bid m plan_id cluster (br_total_chunks res) chunks k [] st = Inr ((err, k', runs), st1)"
    and fin: "st' = (case err of Some _ \<Rightarrow> st1 | None \<Rightarrow>
       tick (st1\<lparr>xs_checkpoints := mark_completed (now_of env st1) (en_tenant env) bid (xs_checkpoints st1)\<rparr>))"
      "br_backfill_id res = bid" "br_completed_chunks res = k'"
      "br_status res = (case err of Some _ \<Rightarrow> ''FAILED'' | None \<Rightarrow> ''COMPLETED'')"
      "br_total_chunks res = (case get_checkpoint (xs_checkpoints st) (en_tenant env) bid of
         Some cp \<Rightarrow> cp_total_chunks cp | None \<Rightarrow> length chunks + k)" .
  have tot: "br_total_chunks res = cp_total_chunks cp" using fin(5) cp(1) by simp
  from chunk_loop_inv[OF inv chunks l] have
    o: "backfill_inv (en_tenant env) bid s e n k' st1" "err = None \<longleftrightarrow> k' = length (compute_chunks s e n)" by auto
  then have "backfill_inv (en_tenant env) bid s e n k' st'"
    unfolding fin(1) by (auto split: option.splits intro: backfill_inv_mark_completed)
  then show ?thesis
    using fin(3,4) tot o(2) cp(2) by (auto simp: backfill_ok_def checkpoint_ok_def split: option.splits)
qed

lemma chunked_backfill_ok:
  assumes run: "chunked_backfill env m s e cluster n st = Inr (res, st')"
    and none: "succeeded (en_tenant env) (br_backfill_id res) st = []"
  shows "backfill_ok (en_tenant env) (br_backfill_id res) s e n res st'"
proof -
  define bid where "bid = compute_deterministic_id (en_sha env)
      [''chunked_backfill'', m, en_iso env s, en_iso env e, int_string n]"
  from run obtain plan_id cps where
    ok: "s \<le> e" "1 \<le> n" and
    cps: "create_checkpoint (now_of env st) (en_tenant env) bid m s e n (length (compute_chunks s e n)) cluster
      (Some plan_id) (xs_checkpoints st) = Inr cps" and
    ex: "execute_chunks env bid m plan_id (compute_chunks s e n) cluster 0 (tick (st\<lparr>xs_checkpoints := cps\<rparr>)) = Inr (res, st')"
    by (auto simp: chunked_backfill_def Let_def bid_def split: if_splits sum.splits)
  have bid: "br_backfill_id res = bid" using execute_chunks_loop[OF ex] by metis
  let ?st = "tick (st\<lparr>xs_checkpoints := cps\<rparr>)"
  have "filter (\<lambda>r. cp_tenant r = en_tenant env \<and> cp_backfill_id r = bid) (xs_checkpoints st) = []"
    using cps by (auto simp: create_checkpoint_def list_ex_iff filter_empty_conv split: if_splits)
  then have "\<exists>cp. checkpoints_of (en_tenant env) bid ?st = [cp] \<and> checkpoint_ok s e n 0 cp"
    using cps by (auto simp: create_checkpoint_def checkpoints_of_def store_simps checkpoint_ok_def split: if_splits)
  moreover have "succeeded (en_tenant env) bid ?st = []"
    using none bid by (simp add: succeeded_def store_simps)
  ultimately have "backfill_inv (en_tenant env) bid s e n 0 ?st" using ok by (simp add: backfill_inv_def)
  from execute_chunks_ok[OF this _ ex] show ?thesis by (simp add: bid)
qed

lemma resume_start_rest:
  assumes "backfill_inv t bid s e n k st" and "checkpoint_ok s e n k cp"
  shows "compute_chunks (case cp_completed_through cp of Some d \<Rightarrow> d + 1 | None \<Rightarrow> cp_overall_start cp) e n =
    drop k (compute_chunks s e n)"
proof (cases k)
  case 0
  with assms show ?thesis by (simp add: checkpoint_ok_def)
next
  case (Suc j)
  with assms have "1 \<le> n" "j < length (compute_chunks s e n)" by (simp_all add: backfill_inv_def)
  from compute_chunks_resume[OF this] Suc assms(2) show ?thesis by (simp add: checkpoint_ok_def)
qed

lemma resume_backfill_ok:
  assumes inv: "backfill_inv (en_tenant env) bid s e n k st"
    and run: "resume_backfill env bid st = Inr (res, st')"
  shows "backfill_ok (en_tenant env) bid s e n res st'"
proof -
  from get_checkpoint_inv[OF inv] obtain cp where
    cp: "get_checkpoint (xs_checkpoints st) (en_tenant env) bid = Some cp" "checkpoint_ok s e n k cp" .
  define first where "first = (case cp_completed_through cp of Some d \<Rightarrow> d + 1 | None \<Rightarrow> cp_overall_start cp)"
  have rest: "compute_chunks first e n = drop k (compute_chunks s e n)"
    unfolding first_def by (rule resume_start_rest[OF inv cp(2)])
  have okcp: "cp_overall_end cp = e" "cp_chunk_size_days cp = n" "cp_completed_chunks cp = k"
      "cp_total_chunks cp = length (compute_chunks s e n)"
    using cp(2) by (simp_all add: checkpoint_ok_def)
  have ks: "k \<le> length (compute_chunks s e n)" using inv by (simp add: backfill_inv_def)
  show ?thesis
  proof (cases "first > e")
    case True
    with rest ks have k: "k = length (compute_chunks s e n)" by simp
    have "res = \<lparr>br_backfill_id = bid, br_status = ''COMPLETED'', br_completed_chunks = cp_total_chunks cp,
          br_total_chunks = cp_total_chunks cp, br_runs = [], br_error = None\<rparr>"
      "st' = tick (st\<lparr>xs_checkpoints := mark_completed (now_of env st) (en_tenant env) bid (xs_checkpoints st)\<rparr>)"
      using run True cp(1) okcp by (auto simp: resume_backfill_def Let_def first_def[symmetric] split: if_splits)
    with inv k okcp show ?thesis by (simp add: backfill_ok_def backfill_inv_mark_completed)
  next
    case False
    then obtain m plan_id cluster where
      "execute_chunks env bid m plan_id (compute_chunks first e n) cluster k st = Inr (res, st')"
      using run cp(1) okcp by (auto simp: resume_backfill_def Let_def first_def[symmetric] split: if_splits)
    from execute_chunks_ok[OF inv _ this] rest show ?thesis by simp
  qed
qed

text \<open>C8: Through a chunked backfill and any number of resumes, after failures at any chunk, the chunks recorded as successful are the
  first ones of the range, each exactly once and in order, as many as the result counts; the result says COMPLETED exactly
  when that is all of them, and then they cover every day of the range.\<close>

theorem backfill_run_exact:
  assumes "backfill_run t s e n bid res st"
  shows "succeeded t bid st = take (br_completed_chunks res) (compute_chunks s e n) \<and>
    (br_status res = ''COMPLETED'' \<longleftrightarrow> br_completed_chunks res = length (compute_chunks s e n)) \<and>
    (br_status res = ''COMPLETED'' \<longrightarrow> concat (map (\<lambda>(a, b). [a..b]) (succeeded t bid st)) = [s..e])"
proof -
  have "backfill_ok t bid s e n res st"
    using assms
  proof (induction rule: backfill_run.induct)
    case (started env m cluster st res st')
    then show ?case using chunked_backfill_ok by blast
  next
    case (resumed bid res st env res' st')
    then show ?case using resume_backfill_ok by (auto simp: backfill_ok_def)
  next
    case (others bid res st st')
    then show ?case by (simp add: backfill_ok_def backfill_inv_def)
  qed
  then show ?thesis by (auto simp: backfill_ok_def backfill_inv_def compute_chunks_days)
qed

text \<open>Days 1 to 10 in chunks of 4; the second chunk fails at first and the backfill is resumed.\<close>

theorem backfill_run_exact_witness:
  "\<exists>bid res st. backfill_run ''t'' 1 10 4 bid res st \<and> br_status res = ''COMPLETED'' \<and>
     concat (map (\<lambda>(a, b). [a..b]) (succeeded ''t'' bid st)) = [1..10]"
proof -
  let ?bad = "demo_env (\<lambda>s. True) (\<lambda>d. d = Some 5)" and ?good = "demo_env (\<lambda>s. True) (\<lambda>d. False)"
  have "case chunked_backfill ?bad ''m'' 1 10 None 4 demo_state of Inl e \<Rightarrow> False
    | Inr q \<Rightarrow> (case resume_backfill ?good (br_backfill_id (fst q)) (snd q) of Inl e \<Rightarrow> False
                 | Inr (res2, st2) \<Rightarrow> br_status res2 = ''COMPLETED'')"
    by code_simp
  from case_Inr[OF this] obtain res st where r: "chunked_backfill ?bad ''m'' 1 10 None 4 demo_state = Inr (res, st)" and
    "case resume_backfill ?good (br_backfill_id res) st of Inl e \<Rightarrow> False
         | Inr (res2, st2) \<Rightarrow> br_status res2 = ''COMPLETED''"
    by auto
  then obtain res2 st2 where r2: "resume_backfill ?good (br_backfill_id res) st = Inr (res2, st2)" "br_status res2 = ''COMPLETED''"
    by (auto split: sum.splits)
  have "backfill_run ''t'' 1 10 4 (br_backfill_id res) res st"
    by (rule backfill_run.started[OF _ r]) (simp_all add: demo_env_def demo_state_def succeeded_def)
  then have b: "backfill_run ''t'' 1 10 4 (br_backfill_id res) res2 st2"
    by (rule backfill_run.resumed[OF _ _ r2(1)]) (simp add: demo_env_def)
  with backfill_run_exact[OF b] r2(2) show ?thesis by blast
qed

subsection \<open>Calls return\<close>

text \<open>The identifiers still to be drawn are in no row of the table.\<close>

definition fresh_ids :: "exec_env \<Rightarrow> exec_state \<Rightarrow> bool" where
  "fresh_ids env st \<longleftrightarrow> (\<forall>r\<in>set (xs_runs st). \<forall>k\<ge>xs_ticks st. rn_run_id r \<noteq> en_uuid env k)"

lemma fresh_ids_later:
  "fresh_ids env st \<Longrightarrow> map rn_run_id (xs_runs st') = map rn_run_id (xs_runs st) \<Longrightarrow> xs_ticks st \<le> xs_ticks st' \<Longrightarrow> fresh_ids env st'"
proof -
  assume f: "fresh_ids env st" and ids: "map rn_run_id (xs_runs st') = map rn_run_id (xs_runs st)" and t: "xs_ticks st \<le> xs_ticks st'"
  have "\<forall>i\<in>set (map rn_run_id (xs_runs st)). \<forall>k\<ge>xs_ticks st. i \<noteq> en_uuid env k" using f by (auto simp: fresh_ids_def)
  then have "\<forall>i\<in>set (map rn_run_id (xs_runs st')). \<forall>k\<ge>xs_ticks st. i \<noteq> en_uuid env k" unfolding ids .
  with t show ?thesis by (auto simp: fresh_ids_def)
qed

lemma ids_update_cost [simp]: "map rn_run_id (update_cost t i c tbl) = map rn_run_id tbl"
  by (simp add: update_cost_def update_run_def)

lemma run_plan_step_returns:
  assumes "\<And>s. en_check_status env s" "inj (en_uuid env)" "fresh_ids env st"
  shows "\<exists>r st'. run_plan_step env plan_id cluster step st = Inr (r, st') \<and> fresh_ids env st'"
proof -
  obtain q st1 where x: "execute_step env plan_id step cluster st = (q, st1)" by fastforce
  have q: "rn_run_id q = en_uuid env (xs_ticks st)" "xs_ticks st1 = xs_ticks st + 2" "xs_runs st1 = xs_runs st"
    using x by (auto simp: execute_step_def Let_def make_run_dict_def tick_def)
  have "\<forall>r\<in>set (xs_runs st). rn_run_id r \<noteq> rn_run_id q" using assms(3) q(1) by (simp add: fresh_ids_def)
  then have p: "persist_run env q st1 = Inr (st1\<lparr>xs_runs := xs_runs st @ [q]\<rparr>)"
    using assms(1) q(3) by (auto simp: persist_run_def create_run_def list_ex_iff)
  let ?st2 = "st1\<lparr>xs_runs := xs_runs st @ [q]\<rparr>"
  have "fresh_ids env ?st2"
    using assms(2,3) q by (auto simp: fresh_ids_def inj_eq)
  define st4 where "st4 = emit_telemetry env q (case locked_range step of
      Some (s, e) \<Rightarrow> if is_success q then advance_watermark env (st_model step) s e ?st2 else ?st2 | None \<Rightarrow> ?st2)"
  have st4: "map rn_run_id (xs_runs st4) = map rn_run_id (xs_runs ?st2)" "xs_ticks ?st2 \<le> xs_ticks st4"
    by (auto simp: st4_def store_simps emit_telemetry_def advance_watermark_def tick_def split: option.splits)
  obtain q' st5 where c: "store_cost env cluster q st4 = (q', st5)" by fastforce
  have st5: "map rn_run_id (xs_runs st5) = map rn_run_id (xs_runs st4)" "xs_ticks st5 = xs_ticks st4"
    using c by (auto simp: store_cost_def split: if_splits option.splits)
  define st' where "st' = (case locked_range step of Some (s, e) \<Rightarrow> unlock env (st_model step) s e st5 | None \<Rightarrow> st5)"
  have "xs_runs st' = xs_runs st5" "xs_ticks st' = xs_ticks st5"
    by (auto simp: st'_def unlock_def split: option.splits)
  then have "fresh_ids env st'"
    using st4 st5 by (intro fresh_ids_later[OF \<open>fresh_ids env ?st2\<close>]) simp_all
  moreover have "run_plan_step env plan_id cluster step st = Inr (q', st')"
    using x p c by (simp add: run_plan_step_def Let_def st4_def st'_def)
  ultimately show ?thesis by blast
qed

lemma apply_step_returns:
  assumes "\<And>s. en_check_status env s" "inj (en_uuid env)" "fresh_ids env st"
  shows "\<exists>out st'. apply_step env plan_id approved_by cluster step st = Inr (out, st') \<and> fresh_ids env st'"
proof (cases "step_done env plan_id step st")
  case True
  with assms(3) show ?thesis by (simp add: apply_step_def step_done_check)
next
  case False
  note fresh = this
  show ?thesis
  proof (cases "locked_range step")
    case None
    from run_plan_step_returns[OF assms, of plan_id cluster step] obtain r st' where
      "run_plan_step env plan_id cluster step st = Inr (r, st')" "fresh_ids env st'" by blast
    with fresh None show ?thesis by (simp add: apply_step_def step_done_check)
  next
    case (Some p)
    obtain s e where p: "p = (s, e)" by (cases p)
    obtain st1 got where l: "try_lock env (st_model step) s e (opt_or approved_by ''api'') st = (st1, got)" by fastforce
    then have st1: "xs_runs st1 = xs_runs st" "xs_ticks st \<le> xs_ticks st1"
      by (auto simp: try_lock_def tick_def split: prod.splits)
    then have f1: "fresh_ids env st1" by (intro fresh_ids_later[OF assms(3)]) simp_all
    show ?thesis
    proof (cases got)
      case True
      from run_plan_step_returns[OF assms(1,2) f1, of plan_id cluster step] obtain r st' where
        "run_plan_step env plan_id cluster step st1 = Inr (r, st')" "fresh_ids env st'" by blast
      with fresh Some p l True show ?thesis by (simp add: apply_step_def step_done_check)
    next
      case False
      have "fresh_ids env (tick st1)" by (rule fresh_ids_later[OF f1]) (simp_all add: tick_def)
      with fresh Some p l False show ?thesis by (simp add: apply_step_def step_done_check)
    qed
  qed
qed

lemma apply_steps_returns:
  assumes "\<And>s. en_check_status env s" "inj (en_uuid env)" "fresh_ids env st"
  shows "\<exists>rs st'. apply_steps env plan_id approved_by cluster steps st = Inr (rs, st')"
  using assms(3)
proof (induction steps arbitrary: st)
  case (Cons step steps)
  from apply_step_returns[OF assms(1,2) Cons.prems, of plan_id approved_by cluster step] obtain out st1 where
    o: "apply_step env plan_id approved_by cluster step st = Inr (out, st1)" "fresh_ids env st1" by blast
  from Cons.IH[OF o(2)] o(1) show ?case by auto
qed simp

end
