(* ===== verification/Store_Facts.thy ===== *)
theory Store_Facts
  imports Stores
begin

text \<open>
  What the repositories promise their callers: the batch queries agree with the single ones, the
  latest watermark is the one written last, and cursor pagination walks through the plans without gaps.
\<close>

subsection \<open>Batch queries\<close>

lemma map_of_concat_keys:
  "map_of (concat (map (\<lambda>k. case f k of None \<Rightarrow> [] | Some v \<Rightarrow> [(k, v)]) ks)) m = (if m \<in> set ks then f m else None)"
  by (induction ks) (auto split: option.splits simp: map_add_def)

lemma map_of_map_keys: "map_of (map (\<lambda>k. (k, f k)) ks) m = (if m \<in> set ks then Some (f m) else None)"
  by (induction ks) auto

text \<open>The rows of one model, among those of a batch, in the order of the batch, are the rows of the single query in its order.\<close>

lemma batch_rows:
  "filter (\<lambda>r. f r = m) (sort_key k (filter (\<lambda>r. P r \<and> f r \<in> set names) xs)) =
     (if m \<in> set names then sort_key k (filter (\<lambda>r. P r \<and> f r = m) xs) else [])"
proof -
  have "filter (\<lambda>r. f r = m) (filter (\<lambda>r. P r \<and> f r \<in> set names) xs) =
      (if m \<in> set names then filter (\<lambda>r. P r \<and> f r = m) xs else [])"
    by (induction xs) auto
  then show ?thesis by (simp add: filter_sort)
qed

lemma batch_keys: "m \<in> set (remdups (map f (filter (\<lambda>r. P r \<and> f r \<in> set names) xs))) \<longleftrightarrow>
    m \<in> set names \<and> filter (\<lambda>r. P r \<and> f r = m) xs \<noteq> []"
  by (auto simp: filter_empty_conv)

text \<open>The batch query for watermarks answers for every model what the single query answers, and nothing for models not asked for.\<close>

theorem get_watermarks_batch_agrees:
  "map_of (get_watermarks_batch tbl t names) m = (if m \<in> set names then get_watermark tbl t m else None)"
proof -
  have pair: "(case xs of [] \<Rightarrow> [] | r # _ \<Rightarrow> [(k, wm_start r, wm_end r)]) =
      (case (case xs of [] \<Rightarrow> None | r # _ \<Rightarrow> Some (wm_start r, wm_end r)) of None \<Rightarrow> [] | Some v \<Rightarrow> [(k, v)])" for k xs
    by (cases xs) simp_all
  show ?thesis
    unfolding get_watermarks_batch_def Let_def pair map_of_concat_keys batch_keys batch_rows get_watermark_def wm_rows_def
    by (cases "filter (\<lambda>r. wm_tenant r = t \<and> wm_model r = m) tbl = []") simp_all
qed

text \<open>The batch query for run statistics answers for every model asked for what the single query answers; a model missing
  from the answer is one the single query reports zero runs for.\<close>

theorem get_historical_stats_batch_agrees:
  "map_of (get_historical_stats_batch tbl t names) m =
     (if m \<in> set names \<and> rs_run_count (get_historical_stats tbl t m) > 0 then Some (get_historical_stats tbl t m) else None)"
proof -
  have rows: "completed_runs (filter (\<lambda>r. rn_tenant r = t \<and> rn_model r \<in> set names) tbl) =
      filter (\<lambda>r. (rn_status r = ''COMPLETED'' \<and> rn_finished r \<noteq> None \<and> rn_started r \<noteq> None \<and> rn_tenant r = t) \<and> rn_model r \<in> set names) tbl"
    by (auto simp: completed_runs_def intro: filter_cong)
  have one: "completed_runs (model_runs tbl t m) =
      filter (\<lambda>r. (rn_status r = ''COMPLETED'' \<and> rn_finished r \<noteq> None \<and> rn_started r \<noteq> None \<and> rn_tenant r = t) \<and> rn_model r = m) tbl"
    by (auto simp: completed_runs_def model_runs_def intro: filter_cong)
  have single: "get_historical_stats tbl t m = stats_of (take 30 (sort_key (desc_nulls_first \<circ> rn_finished) (completed_runs (model_runs tbl t m))))"
    by (simp add: get_historical_stats_def last_completed_def)
  have count: "rs_run_count (stats_of xs) > 0 \<longleftrightarrow> xs \<noteq> []" for xs by (simp add: stats_of_def)
  have "take 30 (sort_key (desc_nulls_first \<circ> rn_finished) xs) \<noteq> [] \<longleftrightarrow> xs \<noteq> []" for xs :: "run_row list"
    by (metis length_0_conv length_sort take_eq_Nil zero_neq_numeral)
  then show ?thesis
    unfolding get_historical_stats_batch_def Let_def map_of_map_keys rows batch_keys batch_rows single count one
    by simp
qed

subsection \<open>Watermarks\<close>

lemma latest_first:
  assumes "r \<in> set xs" "\<And>q. q \<in> set xs \<Longrightarrow> q \<noteq> r \<Longrightarrow> (k q :: int) > k r"
  shows "\<exists>rest. sort_key k xs = r # rest"
proof (cases "sort_key k xs")
  case Nil
  with assms(1) show ?thesis by (metis empty_iff set_sort set_empty)
next
  case (Cons q rest)
  then have q: "q \<in> set xs" by (metis list.set_intros(1) set_sort)
  have "sorted (map k (q # rest))" using sorted_sort_key[of k xs] Cons by simp
  moreover have "r \<in> set (q # rest)" using assms(1) Cons by (metis set_sort)
  ultimately have "k q \<le> k r" by auto
  with assms(2)[OF q] have "q = r" by fastforce
  with Cons show ?thesis by simp
qed

text \<open>A watermark written after all others of its model is the one read back, whichever range it has: writing the range of an older
  backfill moves the watermark back. Other models and tenants are not touched.\<close>

theorem update_watermark_latest:
  assumes "\<forall>r\<in>set (wm_rows tbl t m). wm_last_updated r < now" and "distinct (map wm_key tbl)"
  shows "get_watermark (update_watermark now t m s e rc tbl) t' m' =
    (if t' = t \<and> m' = m then Some (s, e) else get_watermark tbl t' m')"
proof (cases "t' = t \<and> m' = m")
  case True
  let ?new = "update_watermark now t m s e rc tbl"
  let ?row = "\<lparr>wm_tenant = t, wm_model = m, wm_start = s, wm_end = e, wm_row_count = rc, wm_last_updated = now\<rparr>"
  have "\<exists>r\<in>set (wm_rows ?new t m). wm_start r = s \<and> wm_end r = e \<and> wm_last_updated r = now \<and>
      (\<forall>q\<in>set (wm_rows ?new t m). q \<noteq> r \<longrightarrow> wm_last_updated q < now)"
  proof (cases "\<exists>r\<in>set tbl. wm_key r = wm_key ?row")
    case True
    then obtain r where r: "r \<in> set tbl" "wm_key r = wm_key ?row" by blast
    have uniq: "q = r" if "q \<in> set tbl" "wm_key q = wm_key ?row" for q
      using assms(2) r that by (metis distinct_map inj_on_def)
    let ?r = "r\<lparr>wm_row_count := rc, wm_last_updated := now\<rparr>"
    have new: "?new = map (\<lambda>q. if wm_key q = wm_key ?row then q\<lparr>wm_row_count := rc, wm_last_updated := now\<rparr> else q) tbl"
      using True by (auto simp: update_watermark_def upsert_def list_ex_iff)
    have "?r \<in> set ?new" unfolding new set_map by (rule image_eqI[OF _ r(1)]) (simp add: r(2))
    moreover have "q = ?r \<or> q \<in> set tbl" if "q \<in> set ?new" for q
    proof -
      from that new obtain p where p: "p \<in> set tbl"
        "q = (if wm_key p = wm_key ?row then p\<lparr>wm_row_count := rc, wm_last_updated := now\<rparr> else p)" by auto
      then show ?thesis using uniq[of p] by (cases "wm_key p = wm_key ?row") simp_all
    qed
    moreover have "wm_tenant ?r = t" "wm_model ?r = m" "wm_start ?r = s" "wm_end ?r = e"
      using r(2) by (simp_all add: wm_key_def)
    ultimately show ?thesis using assms(1) by (intro bexI[of _ ?r]) (auto simp: wm_rows_def)
  next
    case False
    then have "?new = tbl @ [?row]" by (auto simp: update_watermark_def upsert_def list_ex_iff)
    then show ?thesis using assms(1) by (intro bexI[of _ ?row]) (auto simp: wm_rows_def)
  qed
  then obtain r where r: "r \<in> set (wm_rows ?new t m)" "wm_start r = s" "wm_end r = e" "wm_last_updated r = now"
    "\<And>q. q \<in> set (wm_rows ?new t m) \<Longrightarrow> q \<noteq> r \<Longrightarrow> - wm_last_updated q > - wm_last_updated r" by fastforce
  from latest_first[of r _ "\<lambda>r. - wm_last_updated r", OF r(1,5)] r(2,3) True show ?thesis
    by (auto simp: get_watermark_def)
next
  case False
  have "wm_rows (map (\<lambda>q. if wm_key q = (t, m, s, e) then q\<lparr>wm_row_count := rc, wm_last_updated := now\<rparr> else q) tbl) t' m' =
      wm_rows tbl t' m'"
    by (induction tbl) (use False in \<open>auto simp: wm_rows_def wm_key_def\<close>)
  then have "wm_rows (update_watermark now t m s e rc tbl) t' m' = wm_rows tbl t' m'"
    using False by (auto simp: update_watermark_def upsert_def wm_key_def[of "\<lparr>wm_tenant = t, wm_model = m, wm_start = s,
      wm_end = e, wm_row_count = rc, wm_last_updated = now\<rparr>"] wm_rows_def)
  with False show ?thesis by (auto simp: get_watermark_def)
qed

definition demo_watermark :: wm_row where
  "demo_watermark = \<lparr>wm_tenant = ''t'', wm_model = ''m'', wm_start = 20, wm_end = 30, wm_row_count = None, wm_last_updated = 5\<rparr>"

theorem update_watermark_latest_witness:
  "get_watermark [demo_watermark] ''t'' ''m'' = Some (20, 30) \<and>
   get_watermark (update_watermark 6 ''t'' ''m'' 1 2 None [demo_watermark]) ''t'' ''m'' = Some (1, 2)"
  using update_watermark_latest[of "[demo_watermark]" "''t''" "''m''" 6 1 2 None "''t''" "''m''"]
  by (simp add: demo_watermark_def wm_rows_def get_watermark_def)

subsection \<open>Cursor pagination of plans\<close>

text \<open>The order of the plan list: newest first, then descending plan identifier.\<close>

definition plan_order :: "plan_row \<Rightarrow> timestamp \<times> string" where
  "plan_order r = (pr_created_at r, pr_plan_id r)"

definition all_plans :: "plan_row list \<Rightarrow> string \<Rightarrow> plan_row list" where
  "all_plans tbl t = rev (sort_key plan_order (filter (\<lambda>r. pr_tenant r = t) tbl))"

lemma sorted_filter_less:
  fixes k :: "'a \<Rightarrow> 'b::linorder"
  assumes "sorted (map k xs)" "distinct (map k xs)" "i < length xs"
  shows "filter (\<lambda>x. k x < k (xs ! i)) xs = take i xs"
proof -
  have strict: "k (xs ! j) < k (xs ! i) \<longleftrightarrow> j < i" if "j < length xs" for j
  proof -
    have "j < i \<Longrightarrow> k (xs ! j) < k (xs ! i)"
      using assms that sorted_nth_mono[OF assms(1), of j i] nth_eq_iff_index_eq[OF assms(2), of j i] by (auto simp: order.order_iff_strict)
    moreover have "i \<le> j \<Longrightarrow> k (xs ! i) \<le> k (xs ! j)"
      using assms that sorted_nth_mono[OF assms(1), of i j] by simp
    ultimately show ?thesis by (meson leD linorder_not_less)
  qed
  have "filter (\<lambda>x. k x < k (xs ! i)) (take i xs) = take i xs"
    by (rule filter_True) (use strict assms(3) in \<open>auto simp: in_set_conv_nth\<close>)
  moreover have "filter (\<lambda>x. k x < k (xs ! i)) (drop i xs) = []"
    by (rule filter_False) (use strict assms(3) in \<open>auto simp: in_set_conv_nth\<close>)
  ultimately show ?thesis by (metis append.right_neutral append_take_drop_id filter_append)
qed

text \<open>Asking for the plans after a cursor gives exactly the plans that follow the cursor's plan in the full list, newest first:
  pages taken one after the other miss none and repeat none, even when several plans share their creation time.\<close>

theorem list_after_cursor_next_page:
  assumes "distinct (map pr_plan_id tbl)" and "i < length (all_plans tbl t)"
  shows "list_after_cursor tbl t (pr_created_at (all_plans tbl t ! i)) (pr_plan_id (all_plans tbl t ! i)) limit =
    take limit (drop (i + 1) (all_plans tbl t))"
proof -
  let ?xs = "sort_key plan_order (filter (\<lambda>r. pr_tenant r = t) tbl)"
  let ?c = "all_plans tbl t ! i"
  have len: "length (all_plans tbl t) = length ?xs" by (simp add: all_plans_def)
  define j where "j = length ?xs - Suc i"
  have j: "j < length ?xs" "?c = ?xs ! j" using assms(2) len by (simp_all add: all_plans_def rev_nth j_def)
  have "inj_on plan_order (set tbl)" "distinct tbl"
    using assms(1) by (auto simp: distinct_map inj_on_def plan_order_def)
  then have d: "distinct (map plan_order ?xs)" by (auto simp: distinct_map intro: inj_on_subset)
  have "(\<lambda>r. pr_tenant r = t \<and> (pr_created_at r < pr_created_at ?c \<or> pr_created_at r = pr_created_at ?c \<and> pr_plan_id r < pr_plan_id ?c)) =
      (\<lambda>r. pr_tenant r = t \<and> plan_order r < plan_order ?c)"
    by (auto simp: plan_order_def fun_eq_iff)
  then have "list_after_cursor tbl t (pr_created_at ?c) (pr_plan_id ?c) limit =
      take limit (rev (sort_key plan_order (filter (\<lambda>r. pr_tenant r = t \<and> plan_order r < plan_order ?c) tbl)))"
    by (simp add: list_after_cursor_def plan_order_def[abs_def])
  also have "filter (\<lambda>r. pr_tenant r = t \<and> plan_order r < plan_order ?c) tbl =
      filter (\<lambda>r. plan_order r < plan_order ?c) (filter (\<lambda>r. pr_tenant r = t) tbl)" by (simp add: conj_commute)
  also have "sort_key plan_order \<dots> = filter (\<lambda>r. plan_order r < plan_order (?xs ! j)) ?xs" using j(2) by (simp add: filter_sort)
  also have "\<dots> = take j ?xs" by (rule sorted_filter_less[OF sorted_sort_key d j(1)])
  finally show ?thesis using assms(2) len by (simp add: all_plans_def rev_take j_def)
qed

definition demo_plan_row :: "string \<Rightarrow> plan_row" where
  "demo_plan_row i = \<lparr>pr_plan_id = i, pr_tenant = ''t'', pr_base_sha = [], pr_target_sha = [], pr_steps = [],
     pr_approvals = [], pr_created_at = 0\<rparr>"

theorem list_after_cursor_next_page_witness:
  "map pr_plan_id (list_after_cursor (map demo_plan_row [''a'', ''c'', ''b'']) ''t'' 0 ''c'' 1) = [''b'']"
proof -
  have all: "all_plans (map demo_plan_row [''a'', ''c'', ''b'']) ''t'' = map demo_plan_row [''c'', ''b'', ''a'']" by code_simp
  show ?thesis
    using list_after_cursor_next_page[of "map demo_plan_row [''a'', ''c'', ''b'']" 0 "''t''" 1]
    unfolding all by (simp add: demo_plan_row_def)
qed

end
