(* ===== verification/Plan_Service.thy ===== *)
theory Plan_Service
  imports Planner_Facts Loader_Facts Execution_Props Store_Facts
begin

text \<open>
  The plan service, \<^verbatim>\<open>api/api/services/plan_service.py\<close>: loading the models of a repository, comparing them
  with the files of the base commit, gathering watermarks and statistics, planning and saving the plan. Git
  (\<open>sv_git_diff\<close>, \<open>sv_git_show\<close>: the standard output, or \<open>None\<close> on a non-zero exit), the SQL guard, the SQL differ and
  today's date are the environment. Metrics, metering and the Redis copy of the plan are left out.
\<close>

subsection \<open>Generating and saving a plan\<close>

record service_env =
  sv_loader :: loader_env
  sv_files :: "(string \<times> string option) list"
  sv_git_diff :: "string \<Rightarrow> string \<Rightarrow> string option"
  sv_git_show :: "string \<Rightarrow> string \<Rightarrow> string option"
  sv_critical_sql :: "string \<Rightarrow> bool"
  sv_differ :: "string \<Rightarrow> string \<Rightarrow> (bool \<times> bool) option"
  sv_today :: date
  sv_tenant :: string
  sv_now :: timestamp

datatype plan_service_error =
    LoadFailed load_error
  | UnsafeSQLError
  | InvalidSha string
  | GitDiffFailed
  | PlanningFailed planner_error
  | SaveFailed db_error

definition is_hex_char :: "char \<Rightarrow> bool" where
  "is_hex_char c \<longleftrightarrow> c \<in> set ''0123456789abcdefABCDEF''"

text \<open>\<^verbatim>\<open>_GIT_SHA_PATTERN\<close>: four to forty hexadecimal digits.\<close>

definition is_git_sha :: "string \<Rightarrow> bool" where
  "is_git_sha s \<longleftrightarrow> 4 \<le> length s \<and> length s \<le> 40 \<and> list_all is_hex_char s"

definition validate_models_sql_safety :: "(string \<Rightarrow> bool) \<Rightarrow> model_definition list \<Rightarrow> bool" where
  "validate_models_sql_safety critical models \<longleftrightarrow>
     list_all (\<lambda>m. let sql = opt_or (Some (md_clean_sql m)) (md_raw_sql m) in py_strip sql = [] \<or> \<not> critical sql) models"

definition git_changed_files :: "(string \<Rightarrow> string \<Rightarrow> string option) \<Rightarrow> string \<Rightarrow> string \<Rightarrow> plan_service_error + string list" where
  "git_changed_files diff base target =
     (if \<not> is_git_sha base then Inl (InvalidSha base)
      else if \<not> is_git_sha target then Inl (InvalidSha target)
      else case diff base target of
             None \<Rightarrow> Inl GitDiffFailed
           | Some out \<Rightarrow> Inr (filter (\<lambda>l. l \<noteq> []) (map py_strip (py_splitlines out))))"

text \<open>One changed file at the base commit: the model it declares there and its hash, if it declares one.\<close>

definition base_version :: "loader_env \<Rightarrow> (string \<Rightarrow> string \<Rightarrow> string option) \<Rightarrow> string \<Rightarrow> string \<Rightarrow> (string \<times> string) option" where
  "base_version env show sha path =
     (if \<not> ends_with ''.sql'' path then None
      else case show sha path of
             None \<Rightarrow> None
           | Some content \<Rightarrow>
               (case parse_yaml_header env content of
                  Inl _ \<Rightarrow> None
                | Inr header \<Rightarrow>
                    let n = opt_or (header_text header ''name'') []
                    in if n = [] then None else Some (n, ld_sha env content)))"

fun build_version_map ::
  "loader_env \<Rightarrow> (string \<Rightarrow> string \<Rightarrow> string option) \<Rightarrow> string \<Rightarrow> string list \<Rightarrow> (string \<times> string) list \<Rightarrow> (string \<times> string) list" where
  "build_version_map env show sha [] versions = versions"
| "build_version_map env show sha (path # paths) versions =
     build_version_map env show sha paths
       (case base_version env show sha path of None \<Rightarrow> versions | Some (n, h) \<Rightarrow> dict_set versions n h)"

definition models_by_name :: "model_definition list \<Rightarrow> (string \<times> model_definition) list" where
  "models_by_name models = foldl (\<lambda>d m. dict_set d (md_name m) m) [] models"

definition target_versions_of :: "model_definition list \<Rightarrow> (string \<times> string) list" where
  "target_versions_of models = foldl (\<lambda>d m. dict_set d (md_name m) (md_content_hash m)) [] models"

definition stats_dict :: "run_stats \<Rightarrow> (string \<times> rat) list" where
  "stats_dict r =
     (case rs_avg_runtime r of None \<Rightarrow> [] | Some x \<Rightarrow> [(''avg_runtime_seconds'', x)]) @
     (case rs_avg_cost r of None \<Rightarrow> [] | Some x \<Rightarrow> [(''avg_cost_usd'', x)]) @ [(''run_count'', of_nat (rs_run_count r))]"

text \<open>A step as the saved plan document holds it.\<close>

definition stored_step_of :: "plan_step \<Rightarrow> stored_step" where
  "stored_step_of s =
     \<lparr>st_step_id = ps_step_id s, st_model = ps_model s,
      st_run_type = (case ps_run_type s of FULL_REFRESH \<Rightarrow> ''FULL_REFRESH'' | INCREMENTAL \<Rightarrow> ''INCREMENTAL''),
      st_input_range = map_option (\<lambda>r. (dr_start r, dr_end r)) (ps_input_range s), st_depends_on = ps_depends_on s,
      st_parallel_group = ps_parallel_group s, st_reason = ps_reason s\<rparr>"

definition plan_request_of ::
  "'g nx \<Rightarrow> service_env \<Rightarrow> string \<Rightarrow> string \<Rightarrow> model_definition list \<Rightarrow> (string \<times> string) list \<Rightarrow> exec_state \<Rightarrow> 'g plan_request" where
  "plan_request_of nx env base target model_list base_versions st =
     (let names = dict_keys (models_by_name model_list);
          stats = get_historical_stats_batch (xs_runs st) (sv_tenant env) names;
          with_contracts = filter (\<lambda>m. md_contract_mode m \<noteq> DISABLED) model_list
      in \<lparr>rq_models = map_of (models_by_name model_list),
          rq_diff = compute_structural_diff base_versions (target_versions_of model_list),
          rq_dag = build_dag nx model_list,
          rq_watermarks = map_of (get_watermarks_batch (xs_watermarks st) (sv_tenant env) names),
          rq_run_stats = map_of (map (\<lambda>(m, s). (m, stats_dict s)) (filter (\<lambda>(m, s). rs_run_count s > 0) stats)),
          rq_config = None, rq_base = base, rq_target = target, rq_as_of_date = Some (sv_today env), rq_base_sql = None,
          rq_contract_results =
            (if with_contracts = [] then None else Some (validate_schema_contracts_batch with_contracts None None None))\<rparr>)"

definition service_generate_plan ::
  "'g nx \<Rightarrow> service_env \<Rightarrow> string \<Rightarrow> string \<Rightarrow> exec_state \<Rightarrow> plan_service_error + plan \<times> exec_state" where
  "service_generate_plan nx env base target st =
     (case load_models_from_directory (sv_loader env) (sv_files env) of
        Inl e \<Rightarrow> Inl (LoadFailed e)
      | Inr model_list \<Rightarrow>
          if \<not> validate_models_sql_safety (sv_critical_sql env) model_list then Inl UnsafeSQLError
          else
            (case git_changed_files (sv_git_diff env) base target of
               Inl e \<Rightarrow> Inl e
             | Inr changed \<Rightarrow>
                 let base_versions = build_version_map (sv_loader env) (sv_git_show env) base changed [];
                     rq = plan_request_of nx env base target model_list base_versions st
                 in case generate_plan nx (ld_sha (sv_loader env)) (sv_differ env) rq of
                      Inl e \<Rightarrow> Inl (PlanningFailed e)
                    | Inr p \<Rightarrow>
                        (case save_plan (sv_now env) (sv_tenant env) (pl_plan_id p) base target
                                (map stored_step_of (pl_steps p)) (xs_plans st) of
                           Inl e \<Rightarrow> Inl (SaveFailed e)
                         | Inr plans \<Rightarrow> Inr (p, st\<lparr>xs_plans := plans\<rparr>))))"

subsection \<open>Dictionaries built from a list\<close>

lemma map_of_fold_dict:
  "map_of (foldl (\<lambda>d m. dict_set d (f m) (g m)) d ms) k =
     (case filter (\<lambda>m. f m = k) (rev ms) of [] \<Rightarrow> map_of d k | m # _ \<Rightarrow> Some (g m))"
proof (induction ms rule: rev_induct)
  case (snoc m ms)
  then show ?case by (simp split: list.split)
qed simp

lemma dict_keys_map_of: "k \<in> set (dict_keys d) \<longleftrightarrow> map_of d k \<noteq> None"
  by (force simp: dict_keys_def map_of_eq_None_iff)

lemma fold_dict_keys: "map_of (foldl (\<lambda>d m. dict_set d (f m) (g m)) [] ms) k \<noteq> None \<longleftrightarrow> k \<in> f ` set ms"
proof -
  have "map_of (foldl (\<lambda>d m. dict_set d (f m) (g m)) [] ms) k \<noteq> None \<longleftrightarrow> filter (\<lambda>m. f m = k) (rev ms) \<noteq> []"
    by (simp add: map_of_fold_dict split: list.split)
  also have "\<dots> \<longleftrightarrow> k \<in> f ` set ms" by (auto simp: filter_empty_conv)
  finally show ?thesis .
qed

lemma fold_dict_value: "map_of (foldl (\<lambda>d m. dict_set d (f m) (g m)) [] ms) k = Some v \<Longrightarrow> \<exists>m\<in>set ms. f m = k \<and> v = g m"
proof -
  assume "map_of (foldl (\<lambda>d m. dict_set d (f m) (g m)) [] ms) k = Some v"
  then obtain m rest where "filter (\<lambda>m. f m = k) (rev ms) = m # rest" "v = g m"
    by (auto simp: map_of_fold_dict split: list.splits)
  then show ?thesis by (metis (mono_tags) Cons_eq_filterD in_set_conv_decomp set_rev)
qed

text \<open>A base version is the hash of a whole file, header included.\<close>

lemma build_version_map_values:
  "map_of (build_version_map env show sha paths versions) n = Some h \<Longrightarrow>
   map_of versions n = Some h \<or> (\<exists>content header. parse_yaml_header env content = Inr header \<and> h = ld_sha env content)"
proof (induction paths arbitrary: versions)
  case (Cons path paths)
  show ?case
  proof (cases "base_version env show sha path")
    case None
    with Cons show ?thesis by simp
  next
    case (Some p)
    obtain m v where p: "p = (m, v)" by (cases p)
    from Some p obtain content header where "parse_yaml_header env content = Inr header" "v = ld_sha env content"
      by (auto simp: base_version_def Let_def split: if_splits option.splits sum.splits)
    with Cons.IH[of "dict_set versions m v"] Cons.prems Some p show ?thesis by (auto split: if_splits)
  qed
qed simp

subsection \<open>Which models a service plan runs\<close>

lemma service_generate_plan_Inr:
  assumes "service_generate_plan nx env base target st = Inr (p, st')"
  obtains models changed where "load_models_from_directory (sv_loader env) (sv_files env) = Inr models"
    "git_changed_files (sv_git_diff env) base target = Inr changed"
    "generate_plan nx (ld_sha (sv_loader env)) (sv_differ env) (plan_request_of nx env base target models
       (build_version_map (sv_loader env) (sv_git_show env) base changed []) st) = Inr p"
    "save_plan (sv_now env) (sv_tenant env) (pl_plan_id p) base target (map stored_step_of (pl_steps p)) (xs_plans st) =
       Inr (xs_plans st')" "st' = st\<lparr>xs_plans := xs_plans st'\<rparr>"
  using assms by (auto simp: service_generate_plan_def Let_def split: sum.splits if_splits)

lemma service_generate_plan_intro:
  assumes "load_models_from_directory (sv_loader env) (sv_files env) = Inr models"
    and "validate_models_sql_safety (sv_critical_sql env) models = True"
    and "git_changed_files (sv_git_diff env) base target = Inr changed"
    and "generate_plan nx (ld_sha (sv_loader env)) (sv_differ env) (plan_request_of nx env base target models
       (build_version_map (sv_loader env) (sv_git_show env) base changed []) st) = Inr p"
    and "save_plan (sv_now env) (sv_tenant env) (pl_plan_id p) base target (map stored_step_of (pl_steps p)) (xs_plans st) = Inr plans"
  shows "service_generate_plan nx env base target st = Inr (p, st\<lparr>xs_plans := plans\<rparr>)"
  using assms by (simp add: service_generate_plan_def Let_def)

lemma load_pass_hash:
  "load_pass env reg files = Inr ms \<Longrightarrow> m \<in> set ms \<Longrightarrow> md_content_hash m = ld_sha env (md_clean_sql m)"
proof (induction files arbitrary: ms)
  case (Cons f files)
  show ?case
  proof (cases "parse_model_file env f reg")
    case (Inl e)
    with Cons show ?thesis by (auto split: if_splits)
  next
    case (Inr m')
    with Cons.prems obtain ms' where ms': "load_pass env reg files = Inr ms'" "ms = m' # ms'" by (auto split: sum.splits)
    have "md_content_hash m' = ld_sha env (md_clean_sql m')"
      using Inr by (auto simp: parse_model_file_def Let_def build_definition_fields(3,4) split: option.splits sum.splits)
    with Cons.IH[OF ms'(1)] Cons.prems(2) ms'(2) show ?thesis by auto
  qed
qed simp

lemma loaded_hash:
  assumes "load_models_from_directory env files = Inr ms" "m \<in> set ms"
  shows "md_content_hash m = ld_sha env (md_clean_sql m)"
  using assms load_pass_hash by (fastforce simp: load_models_from_directory_def split: sum.splits)

lemma service_plan_models:
  assumes "nx_laws nx" and "service_generate_plan nx env base target st = Inr (p, st')"
    and "load_models_from_directory (sv_loader env) (sv_files env) = Inr models"
    and "inj (ld_sha (sv_loader env))"
    and "\<forall>m\<in>set models. isl (parse_yaml_header (sv_loader env) (md_clean_sql m))"
  shows "set (map ps_model (pl_steps p)) = md_name ` set models \<and> sorted_wrt (<) (map ps_model (pl_steps p))"
proof -
  from service_generate_plan_Inr[OF assms(2)] assms(3) obtain changed where
    gen: "generate_plan nx (ld_sha (sv_loader env)) (sv_differ env) (plan_request_of nx env base target models
       (build_version_map (sv_loader env) (sv_git_show env) base changed []) st) = Inr p"
    by (metis sum.inject(2))
  let ?base = "build_version_map (sv_loader env) (sv_git_show env) base changed []"
  let ?rq = "plan_request_of nx env base target models ?base st"
  have sel: "rq_models ?rq = map_of (models_by_name models)" "rq_base_sql ?rq = None"
    "rq_diff ?rq = compute_structural_diff ?base (target_versions_of models)"
    by (simp_all add: plan_request_of_def Let_def)
  have names: "rq_models ?rq k \<noteq> None \<longleftrightarrow> k \<in> md_name ` set models" for k
    by (simp only: sel models_by_name_def fold_dict_keys)
  have changed: "k \<in> set (df_added_models (rq_diff ?rq)) \<union> set (df_modified_models (rq_diff ?rq))"
    if "k \<in> md_name ` set models" for k
  proof -
    have cur: "map_of (target_versions_of models) k \<noteq> None"
      using that by (simp only: target_versions_of_def fold_dict_keys)
    then obtain h where h: "map_of (target_versions_of models) k = Some h" by blast
    then obtain m where m: "m \<in> set models" "h = ld_sha (sv_loader env) (md_clean_sql m)"
      using fold_dict_value[of md_name md_content_hash models k h] loaded_hash[OF assms(3)]
      by (auto simp: target_versions_of_def)
    have "map_of ?base k \<noteq> Some h"
    proof
      assume "map_of ?base k = Some h"
      then obtain content header where c: "parse_yaml_header (sv_loader env) content = Inr header"
          "h = ld_sha (sv_loader env) content"
        using build_version_map_values[of "sv_loader env" "sv_git_show env" base changed "[]" k h] by auto
      then have "content = md_clean_sql m" using m(2) assms(4) by (auto dest: injD)
      with c(1) assms(5) m(1) show False by auto
    qed
    with h cur show ?thesis by (auto simp: sel compute_structural_diff_def Let_def dict_keys_map_of)
  qed
  have aff: "map ps_model (pl_steps p) = request_affected nx (sv_differ env) ?rq" by (rule plan_step_models[OF gen])
  have cosm: "set (request_changed (sv_differ env) ?rq) = set (df_added_models (rq_diff ?rq)) \<union> set (df_modified_models (rq_diff ?rq))"
    by (auto simp: set_directly_changed set_cosmetic_models sel)
  have "set (request_affected nx (sv_differ env) ?rq) = md_name ` set models"
    unfolding set_affected_models[OF assms(1)] cosm using names changed by blast
  then show ?thesis unfolding aff by (simp add: strict_sorted_iff)
qed

text \<open>C5: Every plan the service makes runs every model of the repository, whatever changed between the two commits. The base
  versions cover only the changed files, so every other model counts as added; and they hash the whole file, while the target
  versions hash the SQL without its header, so every changed file counts as modified.\<close>

theorem service_plan_runs_every_model:
  assumes "nx_laws nx" and "service_generate_plan nx env base target st = Inr (p, st')"
    and "load_models_from_directory (sv_loader env) (sv_files env) = Inr models"
    and "inj (ld_sha (sv_loader env))"
    and "\<forall>m\<in>set models. isl (parse_yaml_header (sv_loader env) (md_clean_sql m))"
  shows "set (map ps_model (pl_steps p)) = md_name ` set models \<and> sorted_wrt (<) (map ps_model (pl_steps p))"
  using assms by (rule service_plan_models)

text \<open>Two model files, no file changed between the commits.\<close>

definition demo_service :: service_env where
  "demo_service = \<lparr>sv_loader = demo_loader, sv_files = demo_files, sv_git_diff = (\<lambda>a b. Some []), sv_git_show = (\<lambda>s p. None),
     sv_critical_sql = (\<lambda>s. False), sv_differ = (\<lambda>a b. None), sv_today = 738000, sv_tenant = ''t'', sv_now = 0\<rparr>"

definition empty_state :: exec_state where
  "empty_state = demo_state\<lparr>xs_plans := []\<rparr>"

lemma demo_service_sel:
  "sv_loader demo_service = demo_loader" "sv_files demo_service = demo_files" "sv_git_diff demo_service = (\<lambda>a b. Some [])"
  "sv_critical_sql demo_service = (\<lambda>s. False)" "sv_differ demo_service = (\<lambda>a b. None)" "sv_tenant demo_service = ''t''"
  "sv_now demo_service = 0" "ld_sha demo_loader = (\<lambda>s. s)"
  by (simp_all add: demo_service_def demo_loader_def)

definition demo_base :: string where
  "demo_base = ''aaaa''"

definition demo_target :: string where
  "demo_target = ''bbbb''"

definition demo_row :: "plan \<Rightarrow> plan_row" where
  "demo_row p = \<lparr>pr_plan_id = pl_plan_id p, pr_tenant = ''t'', pr_base_sha = demo_base, pr_target_sha = demo_target,
     pr_steps = map stored_step_of (pl_steps p), pr_approvals = [], pr_created_at = 0\<rparr>"

lemma demo_service_plan:
  "\<exists>p. service_generate_plan list_nx demo_service demo_base demo_target empty_state = Inr (p, empty_state\<lparr>xs_plans := [demo_row p]\<rparr>)"
proof -
  obtain ms where ms: "load_models_from_directory demo_loader demo_files = Inr ms" using demo_load_names by (elim exE conjE)
  have git: "git_changed_files (\<lambda>a b. Some []) demo_base demo_target = Inr []"
    by (simp add: git_changed_files_def is_git_sha_def is_hex_char_def demo_base_def demo_target_def)
  let ?rq = "plan_request_of list_nx demo_service demo_base demo_target ms [] empty_state"
  have "rq_as_of_date ?rq = Some 738000" "pc_default_lookback_days (request_config ?rq) < 738000"
    by (simp_all add: plan_request_of_def Let_def demo_service_def request_config_def default_config_def)
  then have "\<exists>p. generate_plan list_nx (\<lambda>s. s) (\<lambda>a b. None) ?rq = Inr p" by (rule generate_plan_ex)
  then obtain p where p: "generate_plan list_nx (\<lambda>s. s) (\<lambda>a b. None) ?rq = Inr p" by (elim exE)
  have safe: "validate_models_sql_safety (\<lambda>s. False) ms = True"
    by (simp add: validate_models_sql_safety_def list_all_iff Let_def)
  have save: "save_plan 0 ''t'' (pl_plan_id p) demo_base demo_target (map stored_step_of (pl_steps p)) (xs_plans empty_state) =
      Inr [demo_row p]"
    by (simp add: save_plan_def empty_state_def demo_row_def)
  have p': "generate_plan list_nx (ld_sha (sv_loader demo_service)) (sv_differ demo_service) (plan_request_of list_nx demo_service
      demo_base demo_target ms (build_version_map (sv_loader demo_service) (sv_git_show demo_service) demo_base [] []) empty_state) = Inr p"
    using p by (simp only: demo_service_sel build_version_map.simps)
  from service_generate_plan_intro[OF _ _ _ p', unfolded demo_service_sel, OF ms safe git save] show ?thesis ..
qed

lemma demo_service_planned:
  "\<exists>p st'. service_generate_plan list_nx demo_service demo_base demo_target empty_state = Inr (p, st')"
  using demo_service_plan by blast

lemma demo_hyps:
  "\<exists>ms. load_models_from_directory (sv_loader demo_service) (sv_files demo_service) = Inr ms \<and> inj (ld_sha (sv_loader demo_service)) \<and>
     (\<forall>m\<in>set ms. isl (parse_yaml_header (sv_loader demo_service) (md_clean_sql m))) \<and> map md_name ms = [''b'', ''x.a''] \<and>
     map md_referenced_tables ms = [[''x.a''], []]"
proof -
  from demo_load_names obtain ms where ms: "load_models_from_directory demo_loader demo_files = Inr ms"
    "map md_name ms = [''b'', ''x.a'']" "map md_referenced_tables ms = [[''x.a''], []]"
    "list_all (\<lambda>m. isl (parse_yaml_header demo_loader (md_clean_sql m))) ms" by (elim exE conjE)
  have env: "sv_loader demo_service = demo_loader" "sv_files demo_service = demo_files" by (simp_all add: demo_service_def)
  have h: "inj (ld_sha demo_loader)" by (simp add: demo_loader_def)
  have l: "\<forall>m\<in>set ms. isl (parse_yaml_header demo_loader (md_clean_sql m))" using ms(4) by (simp only: list_all_iff)
  show ?thesis unfolding env by (intro exI conjI; rule ms(1) h l ms(2) ms(3))
qed

theorem service_plan_runs_every_model_witness:
  "\<exists>p st'. service_generate_plan list_nx demo_service demo_base demo_target empty_state = Inr (p, st') \<and>
     set (map ps_model (pl_steps p)) = {''b'', ''x.a''}"
proof -
  from demo_service_planned obtain p st' where
    p: "service_generate_plan list_nx demo_service demo_base demo_target empty_state = Inr (p, st')" by (elim exE)
  from demo_hyps obtain ms where ms: "load_models_from_directory (sv_loader demo_service) (sv_files demo_service) = Inr ms"
    "inj (ld_sha (sv_loader demo_service))" "\<forall>m\<in>set ms. isl (parse_yaml_header (sv_loader demo_service) (md_clean_sql m))"
    "map md_name ms = [''b'', ''x.a'']" by (elim exE conjE)
  have "set (map ps_model (pl_steps p)) = md_name ` set ms"
    by (rule service_plan_runs_every_model[OF list_nx_laws p ms(1-3), THEN conjunct1])
  also have "\<dots> = {''b'', ''x.a''}" using ms(4) by (metis list.set(1) list.set(2) set_map)
  finally have all: "set (map ps_model (pl_steps p)) = {''b'', ''x.a''}" .
  from conjI[OF p all] show ?thesis by (intro exI)
qed

subsection \<open>Saving the same plan again\<close>

lemma plan_id_of_models:
  assumes "generate_plan nx sha differ rq = Inr p"
  shows "pl_plan_id p = sha (rq_base rq @ rq_target rq @
    concat (map (\<lambda>m. compute_step_id sha m (rq_base rq) (rq_target rq)) (request_affected nx differ rq)))"
proof -
  from assms obtain as_of where steps:
    "list_all2 (\<lambda>m s. make_step nx sha rq as_of (request_changed differ rq) (request_affected nx differ rq)
        (plan_parallel_groups nx (request_affected nx differ rq) (rq_dag rq)) m = Inr s)
      (request_affected nx differ rq) (pl_steps p)"
    "pl_plan_id p = compute_plan_id sha (rq_base rq) (rq_target rq) (pl_steps p)" by (rule generate_plan_Inr)
  have "map ps_step_id (pl_steps p) = map (\<lambda>m. compute_step_id sha m (rq_base rq) (rq_target rq)) (request_affected nx differ rq)"
    using steps(1) by (induction rule: list_all2_induct) (simp_all add: make_step_Inr(2))
  then show ?thesis by (simp add: steps(2) compute_plan_id_def)
qed

text \<open>A repository can be planned only once for a pair of commits, by one tenant: every later call for the same commits, by any tenant,
  ends in an error, because the plan identifier depends on neither tenant nor time and is the primary key of the plans.\<close>

theorem regenerating_plan_fails:
  assumes "service_generate_plan nx env base target st = Inr (p, st')" and "set (xs_plans st') \<subseteq> set (xs_plans later_st)"
  shows "\<exists>e. service_generate_plan nx (env\<lparr>sv_tenant := other, sv_now := later\<rparr>) base target later_st = Inl e"
proof (rule ccontr)
  let ?env = "env\<lparr>sv_tenant := other, sv_now := later\<rparr>"
  assume "\<nexists>e. service_generate_plan nx ?env base target later_st = Inl e"
  then obtain p2 st2' where second: "service_generate_plan nx ?env base target later_st = Inr (p2, st2')"
    by (cases "service_generate_plan nx ?env base target later_st") auto
  from service_generate_plan_Inr[OF assms(1)] obtain models changed where
    g: "load_models_from_directory (sv_loader env) (sv_files env) = Inr models"
      "git_changed_files (sv_git_diff env) base target = Inr changed"
      "generate_plan nx (ld_sha (sv_loader env)) (sv_differ env) (plan_request_of nx env base target models
       (build_version_map (sv_loader env) (sv_git_show env) base changed []) st) = Inr p"
      "save_plan (sv_now env) (sv_tenant env) (pl_plan_id p) base target (map stored_step_of (pl_steps p)) (xs_plans st) =
       Inr (xs_plans st')" by blast
  from service_generate_plan_Inr[OF second] g(1,2) have
    g2: "generate_plan nx (ld_sha (sv_loader env)) (sv_differ env) (plan_request_of nx ?env base target models
       (build_version_map (sv_loader env) (sv_git_show env) base changed []) later_st) = Inr p2"
      "save_plan later other (pl_plan_id p2) base target (map stored_step_of (pl_steps p2)) (xs_plans later_st) = Inr (xs_plans st2')"
    by auto
  have same: "pl_plan_id p2 = pl_plan_id p"
    unfolding plan_id_of_models[OF g(3)] plan_id_of_models[OF g2(1)] by (simp add: plan_request_of_def Let_def request_config_def)
  have "xs_plans st' = xs_plans st @ [\<lparr>pr_plan_id = pl_plan_id p, pr_tenant = sv_tenant env, pr_base_sha = base,
      pr_target_sha = target, pr_steps = map stored_step_of (pl_steps p), pr_approvals = [], pr_created_at = sv_now env\<rparr>]"
    using g(4) by (simp add: save_plan_def split: if_splits)
  then obtain r where "r \<in> set (xs_plans st')" "pr_plan_id r = pl_plan_id p2" using same by force
  with assms(2) g2(2) show False by (auto simp: save_plan_def list_ex_iff split: if_splits)
qed

theorem regenerating_plan_fails_witness:
  "\<exists>p st' e. service_generate_plan list_nx demo_service demo_base demo_target empty_state = Inr (p, st') \<and>
     service_generate_plan list_nx (demo_service\<lparr>sv_tenant := ''other'', sv_now := 9\<rparr>) demo_base demo_target st' = Inl e"
proof -
  from demo_service_planned obtain p st' where
    p: "service_generate_plan list_nx demo_service demo_base demo_target empty_state = Inr (p, st')" by (elim exE)
  have "\<exists>e. service_generate_plan list_nx (demo_service\<lparr>sv_tenant := ''other'', sv_now := 9\<rparr>) demo_base demo_target st' = Inl e"
    by (rule regenerating_plan_fails[OF p subset_refl])
  then obtain e where "service_generate_plan list_nx (demo_service\<lparr>sv_tenant := ''other'', sv_now := 9\<rparr>) demo_base demo_target st' = Inl e" ..
  from conjI[OF p this] show ?thesis by (intro exI)
qed

subsection \<open>Applying the plan that was saved\<close>

lemma plan_step_ids:
  assumes "generate_plan nx sha differ rq = Inr p"
  shows "map ps_step_id (pl_steps p) = map (\<lambda>m. compute_step_id sha m (rq_base rq) (rq_target rq)) (map ps_model (pl_steps p))"
proof -
  from assms obtain as_of where
    "list_all2 (\<lambda>m s. make_step nx sha rq as_of (request_changed differ rq) (request_affected nx differ rq)
        (plan_parallel_groups nx (request_affected nx differ rq) (rq_dag rq)) m = Inr s)
      (request_affected nx differ rq) (pl_steps p)" by (rule generate_plan_Inr)
  then show ?thesis
    by (induction rule: list_all2_induct) (simp_all add: make_step_Inr(1,2))
qed

lemma saved_plan_found:
  "save_plan now t i base target steps tbl = Inr tbl' \<Longrightarrow> get_plan tbl' t i =
     Some \<lparr>pr_plan_id = i, pr_tenant = t, pr_base_sha = base, pr_target_sha = target, pr_steps = steps, pr_approvals = [], pr_created_at = now\<rparr>"
  by (induction tbl arbitrary: tbl') (auto simp: save_plan_def get_plan_def split: if_splits)

text \<open>C6: Applying a freshly saved plan runs its models one after the other in the alphabetical order of their names, so that a model
  whose name comes before that of a model it reads is run first, before its input is refreshed.\<close>

theorem applied_plan_order:
  assumes "service_generate_plan nx env base target st = Inr (p, st1)"
    and "apply_plan ex (pl_plan_id p) approved_by cluster auto_approve caller_role st1 = Inr (rs, st2)"
    and "en_tenant ex = sv_tenant env" and "inj (ld_sha (sv_loader env))"
    and "\<forall>r\<in>set (xs_runs st1). rn_plan_id r \<noteq> pl_plan_id p"
  shows "map rn_model rs = map ps_model (pl_steps p) \<and> sorted_wrt (<) (map rn_model rs)"
proof -
  from service_generate_plan_Inr[OF assms(1)] obtain models changed where
    g: "generate_plan nx (ld_sha (sv_loader env)) (sv_differ env) (plan_request_of nx env base target models
       (build_version_map (sv_loader env) (sv_git_show env) base changed []) st) = Inr p"
      "save_plan (sv_now env) (sv_tenant env) (pl_plan_id p) base target (map stored_step_of (pl_steps p)) (xs_plans st) =
       Inr (xs_plans st1)" by blast
  have sorted: "sorted_wrt (<) (map ps_model (pl_steps p))"
    unfolding plan_step_models[OF g(1)] by (simp add: strict_sorted_iff)
  then have names: "distinct (map ps_model (pl_steps p))" by (simp add: strict_sorted_iff)
  have "inj (\<lambda>m. compute_step_id (ld_sha (sv_loader env)) m b t)" for b t
    using assms(4) by (auto simp: compute_step_id_def inj_def)
  then have ids: "distinct (map ps_step_id (pl_steps p))"
    unfolding plan_step_ids[OF g(1)] distinct_map[of _ "map ps_model (pl_steps p)"] using names inj_on_subset by blast
  note row = saved_plan_found[OF g(2)]
  have "map (\<lambda>r. (rn_step_id r, rn_model r)) rs = map (\<lambda>s. (st_step_id s, st_model s))
      (filter (\<lambda>s. \<not> step_done ex (pl_plan_id p) s st1) (map stored_step_of (pl_steps p)))"
    using apply_plan_attempts_runs[OF assms(2), unfolded assms(3), OF row] ids by (simp add: stored_step_of_def o_def)
  moreover have "filter (\<lambda>s. \<not> step_done ex (pl_plan_id p) s st1) (map stored_step_of (pl_steps p)) = map stored_step_of (pl_steps p)"
    using assms(5) by (auto simp: filter_id_conv step_done_def run_key_def)
  ultimately have "map (snd \<circ> (\<lambda>r. (rn_step_id r, rn_model r))) rs = map (snd \<circ> (\<lambda>s. (st_step_id s, st_model s))) (map stored_step_of (pl_steps p))"
    unfolding map_map[symmetric] by simp
  then have "map rn_model rs = map ps_model (pl_steps p)" by (simp add: o_def stored_step_of_def)
  with sorted show ?thesis by simp
qed

lemma demo_plan_models:
  assumes "service_generate_plan list_nx demo_service demo_base demo_target empty_state = Inr (p, st')"
  shows "map ps_model (pl_steps p) = [''b'', ''x.a'']"
proof -
  from demo_hyps obtain ms where ms: "load_models_from_directory (sv_loader demo_service) (sv_files demo_service) = Inr ms"
    "inj (ld_sha (sv_loader demo_service))" "\<forall>m\<in>set ms. isl (parse_yaml_header (sv_loader demo_service) (md_clean_sql m))"
    "map md_name ms = [''b'', ''x.a'']" by (elim exE conjE)
  note f = service_plan_models[OF list_nx_laws assms ms(1-3)]
  have "set (map md_name ms) = {''b'', ''x.a''}" unfolding ms(4) by simp
  with f have names: "set (map ps_model (pl_steps p)) = {''b'', ''x.a''}" by (simp only: set_map)
  from f have "sorted (map ps_model (pl_steps p))" "distinct (map ps_model (pl_steps p))" by (simp_all add: strict_sorted_iff)
  moreover have "sorted [''b'', ''x.a'']" "distinct [''b'', ''x.a'']" "set (map ps_model (pl_steps p)) = set [''b'', ''x.a'']"
    using names by simp_all
  ultimately show ?thesis by (rule sorted_distinct_eqI)
qed

definition demo_applier :: exec_env where
  "demo_applier = demo_env (\<lambda>s. True) (\<lambda>d. False)\<lparr>en_uuid := \<lambda>n. replicate n (CHR ''x'')\<rparr>"

text \<open>Model \<open>b\<close> reads \<open>x.a\<close> and runs before it.\<close>

theorem applied_plan_order_witness:
  "\<exists>p st1 rs st2. service_generate_plan list_nx demo_service demo_base demo_target empty_state = Inr (p, st1) \<and>
     apply_plan demo_applier (pl_plan_id p) None None True (Some ADMIN) st1 = Inr (rs, st2) \<and>
     map rn_model rs = [''b'', ''x.a'']"
proof -
  from demo_service_plan obtain p where
    p: "service_generate_plan list_nx demo_service demo_base demo_target empty_state = Inr (p, empty_state\<lparr>xs_plans := [demo_row p]\<rparr>)"
    by (elim exE)
  let ?st = "empty_state\<lparr>xs_plans := [demo_row p]\<rparr>"
  have ex: "en_check_status demo_applier s" "inj (en_uuid demo_applier)" "fresh_ids demo_applier ?st" "en_tenant demo_applier = sv_tenant demo_service" for s
    by (simp_all add: demo_applier_def inj_def replicate_eq_replicate demo_env_def fresh_ids_def empty_state_def demo_state_def demo_service_def)
  have plan: "get_plan (xs_plans ?st) (en_tenant demo_applier) (pl_plan_id p) = Some (demo_row p)"
    by (simp add: get_plan_def demo_row_def demo_applier_def demo_env_def)
  from apply_steps_returns[OF ex(1-3)] obtain rs st2 where
    "apply_steps demo_applier (pl_plan_id p) None None (pr_steps (demo_row p)) ?st = Inr (rs, st2)" by blast
  then have a: "apply_plan demo_applier (pl_plan_id p) None None True (Some ADMIN) ?st = Inr (rs, st2)"
    using plan by (simp add: apply_plan_def)
  have runs: "\<forall>r\<in>set (xs_runs ?st). rn_plan_id r \<noteq> pl_plan_id p" by (simp add: empty_state_def demo_state_def)
  have "inj (ld_sha (sv_loader demo_service))" by (simp add: demo_service_def demo_loader_def)
  from applied_plan_order[OF p a ex(4) this runs] have "map rn_model rs = [''b'', ''x.a'']"
    by (simp only: demo_plan_models[OF p])
  with p a show ?thesis by (intro exI conjI)
qed

end
