(* ===== verification/Impact.thy ===== *)
theory Impact
  imports Models Py_Text
begin

text \<open>
  What-if simulation, \<^verbatim>\<open>core_engine/core_engine/simulation/impact_analyzer.py\<close>: the models a column change or the removal
  of a model would affect. The dependency mapping is the dictionary \<open>ia_dag\<close> from a model to the models it reads;
  \<open>ia_columns\<close> is the SQL toolkit: the column names a statement refers to, or \<open>None\<close> when it does not parse.
\<close>

subsection \<open>Changes and reports\<close>

datatype change_action = ADD | REMOVE | RENAME | TYPE_CHANGE

fun change_action_value :: "change_action \<Rightarrow> string" where
  "change_action_value ADD = ''ADD''"
| "change_action_value REMOVE = ''REMOVE''"
| "change_action_value RENAME = ''RENAME''"
| "change_action_value TYPE_CHANGE = ''TYPE_CHANGE''"

datatype reference_severity = IMPACT_BREAKING | IMPACT_WARNING | IMPACT_INFO

fun severity_index :: "reference_severity \<Rightarrow> nat" where
  "severity_index IMPACT_INFO = 0"
| "severity_index IMPACT_WARNING = 1"
| "severity_index IMPACT_BREAKING = 2"

record column_change =
  ch_action :: change_action
  ch_column_name :: string
  ch_new_name :: "string option"
  ch_old_type :: "string option"
  ch_new_type :: "string option"

record impact_violation =
  iv_model_name :: string
  iv_column_name :: string
  iv_violation_type :: string
  iv_severity :: reference_severity
  iv_message :: string

record affected_model =
  am_model_name :: string
  am_reference_type :: string
  am_columns_affected :: "string list"
  am_contract_violations :: "impact_violation list"
  am_severity :: reference_severity

record impact_report =
  ir_source_model :: string
  ir_column_changes :: "column_change list"
  ir_directly_affected :: "affected_model list"
  ir_transitively_affected :: "affected_model list"
  ir_contract_violations :: "impact_violation list"
  ir_breaking_count :: nat
  ir_warning_count :: nat
  ir_summary :: string

record removal_report =
  rr_removed_model :: string
  rr_directly_affected :: "affected_model list"
  rr_transitively_affected :: "affected_model list"
  rr_orphaned_models :: "string list"
  rr_breaking_count :: nat
  rr_summary :: string

record analyzer =
  ia_models :: "string \<rightharpoonup> model_definition"
  ia_dag :: "(string \<times> string list) list"
  ia_max_depth :: int
  ia_columns :: "string \<Rightarrow> string list option"

text \<open>The \<^verbatim>\<open>ValueError\<close> of a traversal that goes too deep, with the model it names.\<close>

datatype impact_error = DepthExceeded string

subsection \<open>Type compatibility\<close>

definition type_compat :: "((string \<times> string) \<times> bool) list" where
  "type_compat =
     [((''INT'', ''BIGINT''), True), ((''INT'', ''FLOAT''), True), ((''INT'', ''DOUBLE''), True), ((''BIGINT'', ''DOUBLE''), True),
      ((''FLOAT'', ''DOUBLE''), True), ((''SMALLINT'', ''INT''), True), ((''SMALLINT'', ''BIGINT''), True),
      ((''TINYINT'', ''INT''), True), ((''TINYINT'', ''BIGINT''), True),
      ((''VARCHAR'', ''STRING''), True), ((''CHAR'', ''STRING''), True), ((''CHAR'', ''VARCHAR''), True),
      ((''DATE'', ''TIMESTAMP''), True),
      ((''STRING'', ''STRING''), True), ((''INT'', ''INT''), True), ((''BIGINT'', ''BIGINT''), True), ((''FLOAT'', ''FLOAT''), True),
      ((''DOUBLE'', ''DOUBLE''), True), ((''BOOLEAN'', ''BOOLEAN''), True), ((''DATE'', ''DATE''), True),
      ((''TIMESTAMP'', ''TIMESTAMP''), True), ((''DECIMAL'', ''DECIMAL''), True),
      ((''BIGINT'', ''INT''), False), ((''DOUBLE'', ''FLOAT''), False), ((''DOUBLE'', ''INT''), False), ((''FLOAT'', ''INT''), False),
      ((''STRING'', ''INT''), False), ((''STRING'', ''BOOLEAN''), False), ((''TIMESTAMP'', ''DATE''), False),
      ((''STRING'', ''DATE''), False), ((''INT'', ''BOOLEAN''), False), ((''INT'', ''STRING''), False)]"

definition is_type_compatible :: "string \<Rightarrow> string \<Rightarrow> bool" where
  "is_type_compatible old_type new_type =
     (let old_norm = py_strip (py_upper old_type); new_norm = py_strip (py_upper new_type)
      in old_norm = new_norm \<or> map_of type_compat (old_norm, new_norm) = Some True)"

subsection \<open>Helpers of the analyzer\<close>

definition add_child :: "string \<Rightarrow> (string \<times> string list) list \<Rightarrow> string \<Rightarrow> (string \<times> string list) list" where
  "add_child child reverse parent =
     (let reverse = (if map_of reverse parent = None then dict_set reverse parent [] else reverse)
      in dict_set reverse parent (the (map_of reverse parent) @ [child]))"

definition build_reverse_dag :: "(string \<times> string list) list \<Rightarrow> (string \<times> string list) list" where
  "build_reverse_dag dag =
     foldl (\<lambda>reverse (child, parents). foldl (add_child child) reverse parents) (map (\<lambda>(name, _). (name, [])) dag) dag"

text \<open>\<^verbatim>\<open>d.get(k, [])\<close>\<close>

definition get_list :: "(string \<times> string list) list \<Rightarrow> string \<Rightarrow> string list" where
  "get_list d k = (case map_of d k of None \<Rightarrow> [] | Some v \<Rightarrow> v)"

definition truthy :: "string option \<Rightarrow> bool" where
  "truthy x \<longleftrightarrow> x \<noteq> None \<and> x \<noteq> Some []"

definition resolve_changed_columns :: "column_change list \<Rightarrow> string list" where
  "resolve_changed_columns changes =
     concat (map (\<lambda>c. py_lower (ch_column_name c) #
       (if truthy (ch_new_name c) then [py_lower (the (ch_new_name c))] else [])) changes)"

definition extract_referenced_columns :: "(string \<Rightarrow> string list option) \<Rightarrow> string \<Rightarrow> string list" where
  "extract_referenced_columns columns sql =
     (case columns sql of None \<Rightarrow> [] | Some names \<Rightarrow> map py_lower (filter (\<lambda>n. n \<noteq> []) names))"

fun classify_change_severity :: "column_change list \<Rightarrow> reference_severity" where
  "classify_change_severity [] = IMPACT_INFO"
| "classify_change_severity (c # changes) =
     (if ch_action c = REMOVE \<or> ch_action c = RENAME then IMPACT_BREAKING
      else if ch_action c = TYPE_CHANGE then
        (if truthy (ch_old_type c) \<and> truthy (ch_new_type c) then
           (if \<not> is_type_compatible (the (ch_old_type c)) (the (ch_new_type c)) then IMPACT_BREAKING else IMPACT_WARNING)
         else IMPACT_WARNING)
      else classify_change_severity changes)"

definition show_opt :: "string option \<Rightarrow> string" where
  "show_opt x = (case x of None \<Rightarrow> ''None'' | Some s \<Rightarrow> s)"

definition change_violation :: "string \<Rightarrow> column_contract \<Rightarrow> column_change \<Rightarrow> impact_violation list" where
  "change_violation m contract change =
     (if ch_action change = REMOVE then
        [\<lparr>iv_model_name = m, iv_column_name = ch_column_name change, iv_violation_type = ''COLUMN_REMOVED'',
          iv_severity = IMPACT_BREAKING,
          iv_message = ''Contract on '' @ quoted m @ '' requires column '' @ quoted (ch_column_name change) @ '' ('' @
            cc_data_type contract @ ''), but it would be removed.''\<rparr>]
      else if ch_action change = RENAME then
        [\<lparr>iv_model_name = m, iv_column_name = ch_column_name change, iv_violation_type = ''COLUMN_RENAMED'',
          iv_severity = IMPACT_BREAKING,
          iv_message = ''Contract on '' @ quoted m @ '' requires column '' @ quoted (ch_column_name change) @
            '', but it would be renamed to '' @ quoted (show_opt (ch_new_name change)) @ ''.''\<rparr>]
      else if ch_action change = TYPE_CHANGE \<and> truthy (ch_new_type change) \<and>
              \<not> is_type_compatible (cc_data_type contract) (the (ch_new_type change)) then
        [\<lparr>iv_model_name = m, iv_column_name = ch_column_name change, iv_violation_type = ''TYPE_CHANGED'',
          iv_severity = IMPACT_BREAKING,
          iv_message = ''Contract on '' @ quoted m @ '' declares '' @ quoted (ch_column_name change) @ '' as '' @
            cc_data_type contract @ '', but it would change to '' @ the (ch_new_type change) @ ''.''\<rparr>]
      else [])"

definition check_contracts :: "string \<Rightarrow> model_definition \<Rightarrow> column_change list \<Rightarrow> impact_violation list" where
  "check_contracts m md changes =
     (if md_contract_mode md = DISABLED \<or> md_contract_columns md = [] then []
      else let contract_map = foldl (\<lambda>d c. dict_set d (py_lower (cc_name c)) c) [] (md_contract_columns md)
           in sort_key iv_column_name (concat (map (\<lambda>change.
                case map_of contract_map (py_lower (ch_column_name change)) of
                  None \<Rightarrow> [] | Some contract \<Rightarrow> change_violation m contract change) changes)))"

definition column_summary ::
  "string \<Rightarrow> column_change list \<Rightarrow> affected_model list \<Rightarrow> affected_model list \<Rightarrow> nat \<Rightarrow> nat \<Rightarrow> string" where
  "column_summary source changes direct transitive breaking warning =
     py_join '' ''
       ([''Simulating '' @ py_join '', '' (map (\<lambda>c. change_action_value (ch_action c) @ '' '' @ quoted (ch_column_name c)) changes) @
         '' on '' @ quoted source @ '': '' @ nat_digits (length direct) @ '' direct and '' @ nat_digits (length transitive) @
         '' transitive models affected.''] @
        (if breaking > 0 then [nat_digits breaking @ '' BREAKING impact(s).''] else []) @
        (if warning > 0 then [nat_digits warning @ '' WARNING impact(s).''] else []) @
        (if breaking = 0 \<and> warning = 0 \<and> direct = [] \<and> transitive = [] then [''No downstream impact detected.''] else []))"

subsection \<open>The traversals\<close>

text \<open>The names that can still enter a queue.\<close>

definition walk_names :: "(string \<times> string list) list \<Rightarrow> (string \<times> nat) list \<Rightarrow> string set" where
  "walk_names rdag queue = \<Union> (set ` snd ` set rdag) \<union> fst ` set queue"

definition walk_measure :: "(string \<times> string list) list \<Rightarrow> (string \<times> nat) list \<Rightarrow> string list \<Rightarrow> nat \<times> nat" where
  "walk_measure rdag queue visited = (card (walk_names rdag queue - set visited), length queue)"

text \<open>Children to enqueue after a visit.\<close>

definition new_entries :: "(string \<times> string list) list \<Rightarrow> string \<Rightarrow> nat \<Rightarrow> string list \<Rightarrow> (string \<times> nat) list" where
  "new_entries rdag m depth visited = map (\<lambda>c. (c, depth + 1)) (filter (\<lambda>c. c \<notin> set visited) (sort (get_list rdag m)))"

lemma walk_measure_visit:
  assumes "m \<notin> set visited" "set extra \<subseteq> set (new_entries rdag m depth (m # visited))"
  shows "(walk_measure rdag (queue @ extra) (m # visited), walk_measure rdag ((m, depth) # queue) visited) \<in> less_than <*lex*> less_than"
proof -
  have fin: "finite (walk_names rdag q)" for q by (simp add: walk_names_def)
  have "fst ` set (new_entries rdag m depth (m # visited)) \<subseteq> \<Union> (set ` snd ` set rdag)"
    by (auto simp: new_entries_def get_list_def split: option.splits intro!: bexI[of _ "(m, _)"] map_of_SomeD)
  with assms(2) have "fst ` set extra \<subseteq> \<Union> (set ` snd ` set rdag)" by blast
  then have "walk_names rdag (queue @ extra) \<subseteq> walk_names rdag ((m, depth) # queue)"
    by (auto simp: walk_names_def)
  moreover have "m \<in> walk_names rdag ((m, depth) # queue) - set visited" using assms(1) by (simp add: walk_names_def)
  ultimately have "walk_names rdag (queue @ extra) - set (m # visited) \<subset> walk_names rdag ((m, depth) # queue) - set visited" by auto
  then show ?thesis using fin by (simp add: walk_measure_def psubset_card_mono)
qed

lemma walk_measure_skip:
  "(walk_measure rdag queue visited, walk_measure rdag ((m, depth) # queue) visited) \<in> less_than <*lex*> less_than"
proof -
  have "walk_names rdag queue - set visited \<subseteq> walk_names rdag ((m, depth) # queue) - set visited" by (auto simp: walk_names_def)
  moreover have "finite (walk_names rdag q)" for q by (simp add: walk_names_def)
  ultimately have "card (walk_names rdag queue - set visited) \<le> card (walk_names rdag ((m, depth) # queue) - set visited)"
    by (simp add: card_mono)
  then show ?thesis by (auto simp: walk_measure_def)
qed

definition reference_type_of :: "nat \<Rightarrow> string" where
  "reference_type_of depth = (if depth = 1 then ''direct'' else ''transitive'')"

definition max_severity :: "impact_violation list \<Rightarrow> reference_severity" where
  "max_severity vs = fold (\<lambda>v best. if severity_index (iv_severity v) > severity_index best then iv_severity v else best)
     (tl vs) (iv_severity (hd vs))"

definition column_affected ::
  "analyzer \<Rightarrow> column_change list \<Rightarrow> string \<Rightarrow> nat \<Rightarrow> model_definition \<Rightarrow> affected_model" where
  "column_affected a changes m depth md =
     (let referenced = extract_referenced_columns (ia_columns a) (opt_or (Some (md_clean_sql md)) (md_raw_sql md));
          affected_cols = sorted_set (filter (\<lambda>c. c \<in> set referenced) (resolve_changed_columns changes));
          violations = check_contracts m md changes
      in \<lparr>am_model_name = m, am_reference_type = reference_type_of depth, am_columns_affected = affected_cols,
          am_contract_violations = violations,
          am_severity = (if violations \<noteq> [] then max_severity violations
                         else if affected_cols \<noteq> [] then classify_change_severity changes else IMPACT_INFO)\<rparr>)"

function column_loop ::
  "analyzer \<Rightarrow> (string \<times> string list) list \<Rightarrow> column_change list \<Rightarrow> (string \<times> nat) list \<Rightarrow> string list \<Rightarrow>
   affected_model list \<Rightarrow> affected_model list \<Rightarrow> impact_violation list \<Rightarrow>
   impact_error + affected_model list \<times> affected_model list \<times> impact_violation list" where
  "column_loop a rdag changes [] visited direct transitive violations = Inr (direct, transitive, violations)"
| "column_loop a rdag changes ((m, depth) # queue) visited direct transitive violations =
     (if int depth > ia_max_depth a then Inl (DepthExceeded m)
      else if m \<in> set visited then column_loop a rdag changes queue visited direct transitive violations
      else (case ia_models a m of
              None \<Rightarrow> column_loop a rdag changes queue (m # visited) direct transitive violations
            | Some md \<Rightarrow>
                let affected = column_affected a changes m depth md
                in column_loop a rdag changes (queue @ new_entries rdag m depth (m # visited)) (m # visited)
                     (if depth = 1 then direct @ [affected] else direct) (if depth = 1 then transitive else transitive @ [affected])
                     (violations @ am_contract_violations affected)))"
  by pat_completeness auto
termination
proof (relation "inv_image (less_than <*lex*> less_than) (\<lambda>(a, rdag, _, queue, visited, _). walk_measure rdag queue visited)", goal_cases)
  case 1
  show ?case by (intro wf_inv_image wf_lex_prod wf_less_than)
next
  case (3 a rdag changes m depth queue visited)
  then show ?case using walk_measure_visit[of m visited "[]" rdag depth queue] by simp
qed (simp_all add: walk_measure_skip walk_measure_visit)

definition simulate_column_change :: "analyzer \<Rightarrow> string \<Rightarrow> column_change list \<Rightarrow> impact_error + impact_report" where
  "simulate_column_change a source changes =
     (if ia_models a source = None then
        Inr \<lparr>ir_source_model = source, ir_column_changes = changes, ir_directly_affected = [], ir_transitively_affected = [],
             ir_contract_violations = [], ir_breaking_count = 0, ir_warning_count = 0,
             ir_summary = ''Model '' @ quoted source @ '' not found.''\<rparr>
      else
        let rdag = build_reverse_dag (ia_dag a)
        in case column_loop a rdag changes (map (\<lambda>c. (c, 1)) (sort (get_list rdag source))) [] [] [] [] of
             Inl e \<Rightarrow> Inl e
           | Inr (direct, transitive, violations) \<Rightarrow>
               let breaking = length (filter (\<lambda>x. am_severity x = IMPACT_BREAKING) (direct @ transitive));
                   warning = length (filter (\<lambda>x. am_severity x = IMPACT_WARNING) (direct @ transitive))
               in Inr \<lparr>ir_source_model = source, ir_column_changes = changes, ir_directly_affected = direct,
                       ir_transitively_affected = transitive, ir_contract_violations = violations,
                       ir_breaking_count = breaking, ir_warning_count = warning,
                       ir_summary = column_summary source changes direct transitive breaking warning\<rparr>)"

definition simulate_type_change ::
  "analyzer \<Rightarrow> string \<Rightarrow> string \<Rightarrow> string \<Rightarrow> string \<Rightarrow> impact_error + impact_report" where
  "simulate_type_change a source column old_type new_type =
     simulate_column_change a source
       [\<lparr>ch_action = TYPE_CHANGE, ch_column_name = column, ch_new_name = None, ch_old_type = Some old_type, ch_new_type = Some new_type\<rparr>]"

definition removal_affected :: "string \<Rightarrow> nat \<Rightarrow> affected_model" where
  "removal_affected m depth =
     \<lparr>am_model_name = m, am_reference_type = reference_type_of depth, am_columns_affected = [], am_contract_violations = [],
      am_severity = IMPACT_BREAKING\<rparr>"

function removal_loop ::
  "analyzer \<Rightarrow> (string \<times> string list) list \<Rightarrow> string \<Rightarrow> (string \<times> nat) list \<Rightarrow> string list \<Rightarrow>
   affected_model list \<Rightarrow> affected_model list \<Rightarrow> string list \<Rightarrow>
   impact_error + affected_model list \<times> affected_model list \<times> string list" where
  "removal_loop a rdag removed [] visited direct transitive orphaned = Inr (direct, transitive, orphaned)"
| "removal_loop a rdag removed ((m, depth) # queue) visited direct transitive orphaned =
     (if int depth > ia_max_depth a then Inl (DepthExceeded m)
      else if m \<in> set visited then removal_loop a rdag removed queue visited direct transitive orphaned
      else
        let upstream = filter (\<lambda>u. u \<noteq> removed) (get_list (ia_dag a) m);
            affected = removal_affected m depth
        in removal_loop a rdag removed (queue @ new_entries rdag m depth (m # visited)) (m # visited)
             (if depth = 1 then direct @ [affected] else direct) (if depth = 1 then transitive else transitive @ [affected])
             (if upstream = [] then orphaned @ [m] else orphaned))"
  by pat_completeness auto
termination
proof (relation "inv_image (less_than <*lex*> less_than) (\<lambda>(a, rdag, _, queue, visited, _). walk_measure rdag queue visited)", goal_cases)
  case 1
  show ?case by (intro wf_inv_image wf_lex_prod wf_less_than)
qed (simp_all add: walk_measure_skip walk_measure_visit)

definition simulate_model_removal :: "analyzer \<Rightarrow> string \<Rightarrow> impact_error + removal_report" where
  "simulate_model_removal a removed =
     (if ia_models a removed = None then
        Inr \<lparr>rr_removed_model = removed, rr_directly_affected = [], rr_transitively_affected = [], rr_orphaned_models = [],
             rr_breaking_count = 0, rr_summary = ''Model '' @ quoted removed @ '' not found.''\<rparr>
      else
        let rdag = build_reverse_dag (ia_dag a)
        in case removal_loop a rdag removed (map (\<lambda>c. (c, 1)) (sort (get_list rdag removed))) [] [] [] [] of
             Inl e \<Rightarrow> Inl e
           | Inr (direct, transitive, orphaned) \<Rightarrow>
               let orphans = sort orphaned
               in Inr \<lparr>rr_removed_model = removed, rr_directly_affected = direct, rr_transitively_affected = transitive,
                       rr_orphaned_models = orphans, rr_breaking_count = length direct + length transitive,
                       rr_summary = py_join '' ''
                         ([''Removing '' @ quoted removed @ '' would affect '' @ nat_digits (length direct) @ '' direct and '' @
                           nat_digits (length transitive) @ '' transitive models.''] @
                          (if orphans \<noteq> [] then
                             [nat_digits (length orphans) @ '' model(s) would be orphaned: '' @ py_join '', '' orphans @ ''.'']
                           else []))\<rparr>)"

declare column_loop.simps(2) [simp del] and removal_loop.simps(2) [simp del]

end
