(* ===== verification/Impact_Facts.thy ===== *)
theory Impact_Facts
  imports Impact "HOL-Library.Sublist"
begin

text \<open>
  What the simulations report. \<open>walk\<close> is the traversal both loops share: the models in the order of their first visit, with
  their depth; \<open>column_loop_walk\<close> and \<open>removal_loop_walk\<close> say that the loops compute it. A visit at depth \<open>d\<close> stands for a path
  of \<open>d\<close> references from the source.
\<close>

subsection \<open>References, forwards and backwards\<close>

definition reads :: "analyzer \<Rightarrow> (string \<times> string) set" where
  "reads a = {(p, c). \<exists>ps. map_of (ia_dag a) c = Some ps \<and> p \<in> set ps}"

lemma get_list_simps [simp]: "get_list [] k = []" "get_list (dict_set d k' v) k = (if k' = k then v else get_list d k)"
  by (simp_all add: get_list_def)

lemma get_list_add_child [simp]: "get_list (add_child c reverse p) k = get_list reverse k @ (if k = p then [c] else [])"
  by (auto simp: add_child_def get_list_def split: option.splits)

lemma get_list_parents: "get_list (foldl (add_child c) reverse parents) k = get_list reverse k @ replicate (count_list parents k) c"
  by (induction parents arbitrary: reverse) auto

lemma set_reverse_dag_fold:
  "set (get_list (foldl (\<lambda>reverse (c, parents). foldl (add_child c) reverse parents) reverse dag) k) =
   set (get_list reverse k) \<union> {c. \<exists>ps. (c, ps) \<in> set dag \<and> k \<in> set ps}"
proof (induction dag arbitrary: reverse)
  case (Cons x dag)
  obtain c ps where x: "x = (c, ps)" by (cases x)
  have "set (replicate (count_list ps k) c) = (if k \<in> set ps then {c} else {})" by (auto simp: count_list_0_iff)
  then show ?case unfolding x by (auto simp: Cons.IH get_list_parents)
qed simp

lemma set_reverse_dag:
  assumes "dict_ok (ia_dag a)"
  shows "set (get_list (build_reverse_dag (ia_dag a)) p) = reads a `` {p}"
proof -
  have "get_list (map (\<lambda>(name, _). (name, [])) dag) p = []" for dag :: "(string \<times> string list) list"
    by (induction dag) (auto simp: get_list_def)
  then have "set (get_list (build_reverse_dag (ia_dag a)) p) = {c. \<exists>ps. (c, ps) \<in> set (ia_dag a) \<and> p \<in> set ps}"
    unfolding build_reverse_dag_def set_reverse_dag_fold by simp
  also have "\<dots> = reads a `` {p}"
    using assms by (auto simp: reads_def dict_ok_def dest: map_of_SomeD)
  finally show ?thesis .
qed

subsection \<open>The shared traversal\<close>

function walk ::
  "(string \<times> string list) list \<Rightarrow> (string \<Rightarrow> bool) \<Rightarrow> int \<Rightarrow> (string \<times> nat) list \<Rightarrow> string list \<Rightarrow> string + (string \<times> nat) list" where
  "walk rdag keep max_depth [] visited = Inr []"
| "walk rdag keep max_depth ((m, depth) # queue) visited =
     (if int depth > max_depth then Inl m
      else if m \<in> set visited then walk rdag keep max_depth queue visited
      else (case walk rdag keep max_depth (queue @ (if keep m then new_entries rdag m depth (m # visited) else [])) (m # visited) of
              Inl e \<Rightarrow> Inl e | Inr vs \<Rightarrow> Inr ((m, depth) # vs)))"
  by pat_completeness auto
termination
proof (relation "inv_image (less_than <*lex*> less_than) (\<lambda>(rdag, _, _, queue, visited). walk_measure rdag queue visited)", goal_cases)
  case 1
  show ?case by (intro wf_inv_image wf_lex_prod wf_less_than)
next
  case (3 rdag keep max_depth m depth queue visited)
  then show ?case
    using walk_measure_visit[of m visited "[]" rdag depth queue] walk_measure_visit[of m visited "new_entries rdag m depth (m # visited)" rdag depth queue]
    by simp
qed (simp_all add: walk_measure_skip)

declare walk.simps(2) [simp del]

definition walk_edges :: "(string \<times> string list) list \<Rightarrow> (string \<Rightarrow> bool) \<Rightarrow> (string \<times> string) set" where
  "walk_edges rdag keep = {(u, v). keep u \<and> v \<in> set (get_list rdag u)}"

text \<open>One step of a traversal that returns.\<close>

lemma walk_Cons:
  assumes "walk rdag keep mx ((m, d) # q) visited = Inr vs"
  obtains (Skip) "m \<in> set visited" "walk rdag keep mx q visited = Inr vs"
  | (Visit) vs' where "m \<notin> set visited" "vs = (m, d) # vs'"
      "walk rdag keep mx (q @ (if keep m then new_entries rdag m d (m # visited) else [])) (m # visited) = Inr vs'"
  using assms by (auto simp: walk.simps(2) split: if_splits sum.splits)

lemma walk_induct [consumes 1, case_names Nil Skip Visit]:
  assumes "walk rdag keep mx q visited = Inr vs"
    and "\<And>visited. P [] visited []"
    and "\<And>m d q visited vs. m \<in> set visited \<Longrightarrow> P q visited vs \<Longrightarrow> P ((m, d) # q) visited vs"
    and "\<And>m d q visited vs. m \<notin> set visited \<Longrightarrow>
      walk rdag keep mx (q @ (if keep m then new_entries rdag m d (m # visited) else [])) (m # visited) = Inr vs \<Longrightarrow>
      P (q @ (if keep m then new_entries rdag m d (m # visited) else [])) (m # visited) vs \<Longrightarrow> P ((m, d) # q) visited ((m, d) # vs)"
  shows "P q visited vs"
  using assms
proof (induction rdag keep mx q visited arbitrary: vs rule: walk.induct)
  case (2 rdag keep mx m d q visited)
  from 2(3) have ok: "\<not> int d > mx" by (auto simp: walk.simps(2) split: if_splits)
  from 2(3) show ?case
  proof (cases rule: walk_Cons)
    case Skip
    then show ?thesis using 2(5)[OF Skip(1)] 2(1)[OF ok Skip] 2(4-6) by blast
  next
    case (Visit vs')
    show ?thesis unfolding Visit(2) using 2(6)[OF Visit(1,3)] 2(2)[OF ok Visit(1,3)] 2(4-6) by blast
  qed
qed simp

lemma set_new_entries:
  "(x, e) \<in> set (new_entries rdag m d visited) \<longleftrightarrow> e = d + 1 \<and> x \<in> set (get_list rdag m) \<and> x \<notin> set visited"
  by (auto simp: new_entries_def)

lemma fst_new_entries: "fst ` set (new_entries rdag m d visited) = set (get_list rdag m) - set visited"
  by (auto simp: new_entries_def image_iff)

lemma walk_distinct: "walk rdag keep mx q visited = Inr vs \<Longrightarrow> distinct (map fst vs) \<and> fst ` set vs \<inter> set visited = {}"
  by (induction rule: walk_induct) auto

lemma walk_closed:
  assumes "walk rdag keep mx q visited = Inr vs"
    and "\<forall>u\<in>set visited. walk_edges rdag keep `` {u} \<subseteq> set visited \<union> fst ` set q"
  shows "fst ` set q \<subseteq> set visited \<union> fst ` set vs \<and>
    (\<forall>u\<in>set visited \<union> fst ` set vs. walk_edges rdag keep `` {u} \<subseteq> set visited \<union> fst ` set vs)"
  using assms
proof (induction rule: walk_induct)
  case (Skip m d q visited vs)
  then have "\<forall>u\<in>set visited. walk_edges rdag keep `` {u} \<subseteq> set visited \<union> fst ` set q" by auto
  with Skip show ?case by auto
next
  case (Visit m d q visited vs)
  let ?q = "q @ (if keep m then new_entries rdag m d (m # visited) else [])"
  have "walk_edges rdag keep `` {u} \<subseteq> set (m # visited) \<union> fst ` set ?q" if "u \<in> set (m # visited)" for u
  proof (cases "u = m")
    case True
    then show ?thesis by (auto simp: walk_edges_def fst_new_entries image_Un)
  next
    case False
    with that Visit.prems have "walk_edges rdag keep `` {u} \<subseteq> set visited \<union> fst ` set ((m, d) # q)" by simp
    then show ?thesis by auto
  qed
  with Visit.IH have "fst ` set ?q \<subseteq> set (m # visited) \<union> fst ` set vs \<and>
    (\<forall>u\<in>set (m # visited) \<union> fst ` set vs. walk_edges rdag keep `` {u} \<subseteq> set (m # visited) \<union> fst ` set vs)" by blast
  then show ?case by auto
qed simp

text \<open>Paths of \<open>d\<close> references.\<close>

lemma walk_sound:
  assumes "walk rdag keep mx q visited = Inr vs" "\<forall>(x, d)\<in>set q. (s, x) \<in> walk_edges rdag keep ^^ d"
  shows "\<forall>(x, d)\<in>set vs. (s, x) \<in> walk_edges rdag keep ^^ d"
  using assms
proof (induction rule: walk_induct)
  case (Visit m d q visited vs)
  then have "\<forall>(x, e)\<in>set (q @ (if keep m then new_entries rdag m d (m # visited) else [])). (s, x) \<in> walk_edges rdag keep ^^ e"
    by (auto simp: set_new_entries walk_edges_def)
  with Visit show ?case by auto
qed auto

lemma walk_deep:
  assumes "walk rdag keep mx q visited = Inl m" "\<forall>(x, d)\<in>set q. (s, x) \<in> walk_edges rdag keep ^^ d"
  shows "\<exists>d. int d > mx \<and> (s, m) \<in> walk_edges rdag keep ^^ d"
  using assms
proof (induction rdag keep mx q visited rule: walk.induct)
  case (2 rdag keep mx x d q visited)
  consider "int d > mx" | "\<not> int d > mx" "x \<in> set visited" | "\<not> int d > mx" "x \<notin> set visited" by blast
  then show ?case
  proof cases
    case 1
    with 2(3,4) show ?thesis by (auto simp: walk.simps(2))
  next
    case 2
    with "2.IH"(1) "2.prems" show ?thesis by (simp add: walk.simps(2))
  next
    case 3
    then have "\<forall>(y, e)\<in>set (q @ (if keep x then new_entries rdag x d (x # visited) else [])). (s, y) \<in> walk_edges rdag keep ^^ e"
      using "2.prems"(2) by (auto simp: set_new_entries walk_edges_def)
    with "2.IH"(2)[OF 3] "2.prems"(1) 3 show ?thesis by (simp add: walk.simps(2) split: sum.splits)
  qed
qed simp

text \<open>A queue holds at most two depths, the smaller first.\<close>

definition queue_ok :: "(string \<times> nat) list \<Rightarrow> bool" where
  "queue_ok q \<longleftrightarrow> sorted (map snd q) \<and> (\<forall>d\<in>snd ` set q. 1 \<le> d \<and> d \<le> snd (hd q) + 1)"

lemma queue_ok_visit:
  assumes "queue_ok ((m, d) # q)" "set extra \<subseteq> set (new_entries rdag m d visited)"
  shows "queue_ok (q @ extra)"
proof -
  have extra: "\<forall>p\<in>set extra. snd p = d + 1" using assms(2) by (auto simp: new_entries_def)
  then have "sorted (map snd extra)" by (induction extra) auto
  with assms(1) extra show ?thesis
    by (cases q; cases extra) (auto simp: queue_ok_def sorted_append)
qed

lemma walk_lower: "walk rdag keep mx q visited = Inr vs \<Longrightarrow> \<forall>d\<in>snd ` set q. b \<le> d \<Longrightarrow> \<forall>d\<in>snd ` set vs. b \<le> d"
proof (induction rule: walk_induct)
  case (Visit m d q visited vs)
  then have "\<forall>e\<in>snd ` set (q @ (if keep m then new_entries rdag m d (m # visited) else [])). b \<le> e"
    by (auto simp: new_entries_def)
  with Visit show ?case by auto
qed auto

lemma filter_new_entries: "d > 0 \<Longrightarrow> filter (\<lambda>p. snd p = Suc 0) (new_entries rdag m d visited) = []"
  by (auto simp: new_entries_def filter_empty_conv)

lemma walk_order:
  assumes "walk rdag keep mx q visited = Inr vs" "queue_ok q"
  shows "sorted (map snd vs) \<and> subseq (filter (\<lambda>p. snd p = 1) vs) (filter (\<lambda>p. snd p = 1) q) \<and>
    (\<forall>x. (x, 1) \<in> set q \<longrightarrow> x \<notin> set visited \<longrightarrow> (x, 1) \<in> set vs)"
  using assms
proof (induction rule: walk_induct)
  case (Skip m d q visited vs)
  have "queue_ok q" using queue_ok_visit[OF Skip.prems, of "[]"] by simp
  from Skip.IH[OF this] Skip.hyps show ?case by (auto intro: subseq_Cons')
next
  case (Visit m d q visited vs)
  let ?extra = "if keep m then new_entries rdag m d (m # visited) else []"
  have q: "queue_ok (q @ ?extra)" by (rule queue_ok_visit[OF Visit.prems]) auto
  have d: "d > 0" "\<forall>e\<in>snd ` set q. d \<le> e" using Visit.prems by (auto simp: queue_ok_def)
  then have "\<forall>e\<in>snd ` set (q @ ?extra). d \<le> e" by (auto simp: new_entries_def)
  from walk_lower[OF Visit.hyps(2) this] Visit.IH[OF q] have sorted: "sorted (map snd ((m, d) # vs))" by auto
  have "filter (\<lambda>p. snd p = 1) (q @ ?extra) = filter (\<lambda>p. snd p = 1) q" using d(1) by (simp add: filter_new_entries)
  with Visit.IH[OF q] have sub: "subseq (filter (\<lambda>p. snd p = 1) vs) (filter (\<lambda>p. snd p = 1) q)" by simp
  have "(x, 1) \<in> set ((m, d) # vs)" if "(x, 1) \<in> set ((m, d) # q)" "x \<notin> set visited" for x
  proof (cases "x = m")
    case True
    have "d = 1" using that(1) d by force
    with True show ?thesis by simp
  next
    case False
    with that have "(x, 1) \<in> set (q @ ?extra)" "x \<notin> set (m # visited)" by auto
    with Visit.IH[OF q] show ?thesis by auto
  qed
  with sorted sub show ?case by auto
qed simp

lemma filter_rest: "distinct (map f xs) \<Longrightarrow> f ` set (filter (\<lambda>x. \<not> P x) xs) = f ` set xs - f ` set (filter P xs)"
  by (induction xs) auto

lemma relpow_subset:
  fixes R S :: "('a \<times> 'a) set"
  shows "R \<subseteq> S \<Longrightarrow> R ^^ n \<subseteq> S ^^ n"
  by (induction n) (auto intro!: relcomp_mono)

text \<open>A traversal from the references of one model.\<close>

abbreviation start_queue :: "(string \<times> string list) list \<Rightarrow> string \<Rightarrow> (string \<times> nat) list" where
  "start_queue rdag s \<equiv> map (\<lambda>c. (c, 1)) (sort (get_list rdag s))"

lemma start_queue_ok: "queue_ok (start_queue rdag s)"
  by (cases "sort (get_list rdag s)") (auto simp: queue_ok_def sorted_wrt_map o_def hd_map)

lemma walk_from:
  assumes "walk rdag keep mx (start_queue rdag s) [] = Inr vs" "keep s"
  shows "distinct (map fst vs)" "fst ` set vs = (walk_edges rdag keep)\<^sup>+ `` {s}"
    "map fst (filter (\<lambda>p. snd p = 1) vs) = sorted_list_of_set (walk_edges rdag keep `` {s})"
    "filter (\<lambda>p. snd p = 1) vs @ filter (\<lambda>p. snd p \<noteq> 1) vs = vs"
    "fst ` set (filter (\<lambda>p. snd p = 1) vs) = walk_edges rdag keep `` {s}"
    "fst ` set (filter (\<lambda>p. snd p \<noteq> 1) vs) = (walk_edges rdag keep)\<^sup>+ `` {s} - walk_edges rdag keep `` {s}"
proof -
  let ?E = "walk_edges rdag keep"
  have E: "?E `` {s} = set (get_list rdag s)" using assms(2) by (auto simp: walk_edges_def)
  have names: "fst ` set (start_queue rdag s) = ?E `` {s}" unfolding E by force
  show distinct: "distinct (map fst vs)" using walk_distinct[OF assms(1)] by simp
  have sound: "\<forall>(x, d)\<in>set vs. (s, x) \<in> ?E ^^ d"
    by (rule walk_sound[OF assms(1)]) (use E in auto)
  note order = walk_order[OF assms(1) start_queue_ok]
  have pos: "\<forall>d\<in>snd ` set vs. 1 \<le> d" by (rule walk_lower[OF assms(1)]) auto
  have one: "(x, 1) \<in> set vs \<longleftrightarrow> (s, x) \<in> ?E" for x
    using sound order E by (auto simp: image_iff)
  have closed: "?E `` {s} \<subseteq> fst ` set vs" "\<forall>u\<in>fst ` set vs. ?E `` {u} \<subseteq> fst ` set vs"
    using walk_closed[OF assms(1)] names by auto
  show all: "fst ` set vs = ?E\<^sup>+ `` {s}"
  proof (intro equalityI subsetI)
    fix x assume "x \<in> fst ` set vs"
    then obtain d where "(x, d) \<in> set vs" by force
    with sound pos have "(s, x) \<in> ?E ^^ d" "d > 0" by force+
    then show "x \<in> ?E\<^sup>+ `` {s}" by (auto simp: trancl_power)
  next
    fix x assume "x \<in> ?E\<^sup>+ `` {s}"
    then have "(s, x) \<in> ?E\<^sup>+" by simp
    then show "x \<in> fst ` set vs"
      by (induction rule: trancl_induct) (use closed in auto)
  qed
  let ?ones = "filter (\<lambda>p. snd p = 1) vs"
  show ones: "fst ` set ?ones = ?E `` {s}" using one by force
  show "fst ` set (filter (\<lambda>p. snd p \<noteq> 1) vs) = ?E\<^sup>+ `` {s} - ?E `` {s}"
    unfolding filter_rest[OF distinct, of "\<lambda>p. snd p = 1"] ones all ..
  have "set (map fst ?ones) = ?E `` {s}" using ones by simp
  moreover have "distinct (map fst ?ones)" using distinct by (rule distinct_map_filter)
  moreover have "sorted (map fst ?ones)"
  proof -
    have "subseq (map fst ?ones) (map fst (filter (\<lambda>p. snd p = 1) (start_queue rdag s)))"
      using order by (intro subseq_map) simp
    moreover have "map fst (filter (\<lambda>p. snd p = 1) (start_queue rdag s)) = sort (get_list rdag s)" by (simp add: o_def filter_map)
    ultimately show ?thesis by (metis sorted_nths sorted_sort subseq_conv_nths)
  qed
  ultimately show "map fst ?ones = sorted_list_of_set (?E `` {s})"
    by (metis sorted_list_of_set.idem_if_sorted_distinct)
  have "filter (\<lambda>p. snd p = 1) ws @ filter (\<lambda>p. snd p \<noteq> 1) ws = ws" if "sorted (map snd ws)" "\<forall>d\<in>snd ` set ws. 1 \<le> d" for ws :: "(string \<times> nat) list"
    using that
  proof (induction ws)
    case (Cons w ws)
    show ?case
    proof (cases "snd w = 1")
      case False
      with Cons.prems have "\<forall>p\<in>set ws. snd p \<noteq> 1" by (auto simp: image_iff)
      then have "filter (\<lambda>p. snd p = 1) ws = []" "filter (\<lambda>p. snd p \<noteq> 1) ws = ws" by (auto simp: filter_empty_conv filter_id_conv)
      with False show ?thesis by simp
    qed (use Cons in auto)
  qed simp
  with order pos show "?ones @ filter (\<lambda>p. snd p \<noteq> 1) vs = vs" by blast
qed

subsection \<open>The loops are traversals\<close>

lemma removal_loop_walk:
  "removal_loop a rdag removed q visited direct transitive orphaned =
     (case walk rdag (\<lambda>_. True) (ia_max_depth a) q visited of
        Inl m \<Rightarrow> Inl (DepthExceeded m)
      | Inr vs \<Rightarrow> Inr
          (direct @ map (\<lambda>(m, d). removal_affected m d) (filter (\<lambda>p. snd p = 1) vs),
           transitive @ map (\<lambda>(m, d). removal_affected m d) (filter (\<lambda>p. snd p \<noteq> 1) vs),
           orphaned @ map fst (filter (\<lambda>(m, d). filter (\<lambda>u. u \<noteq> removed) (get_list (ia_dag a) m) = []) vs)))"
proof (induction a rdag removed q visited direct transitive orphaned rule: removal_loop.induct)
  case (2 a rdag removed m d q visited direct transitive orphaned)
  consider "int d > ia_max_depth a" | "\<not> int d > ia_max_depth a" "m \<in> set visited" | "\<not> int d > ia_max_depth a" "m \<notin> set visited" by blast
  then show ?case
  proof cases
    case 3
    from "2.IH"(2)[OF 3 refl refl] 3 show ?thesis
      by (simp add: removal_loop.simps(2) walk.simps(2) Let_def split: sum.split)
  qed (use "2.IH"(1) in \<open>simp_all add: removal_loop.simps(2) walk.simps(2)\<close>)
qed simp

text \<open>A model the analyzer does not know is visited without being reported.\<close>

definition visit_report :: "analyzer \<Rightarrow> column_change list \<Rightarrow> (string \<times> nat) list \<Rightarrow> affected_model list" where
  "visit_report a changes vs =
     concat (map (\<lambda>(m, d). case ia_models a m of None \<Rightarrow> [] | Some md \<Rightarrow> [column_affected a changes m d md]) vs)"

lemma visit_report_simps [simp]:
  "visit_report a changes [] = []"
  "visit_report a changes ((m, d) # vs) =
     (case ia_models a m of None \<Rightarrow> [] | Some md \<Rightarrow> [column_affected a changes m d md]) @ visit_report a changes vs"
  "visit_report a changes (vs @ ws) = visit_report a changes vs @ visit_report a changes ws"
  by (simp_all add: visit_report_def)

lemma column_loop_walk:
  "column_loop a rdag changes q visited direct transitive violations =
     (case walk rdag (\<lambda>m. ia_models a m \<noteq> None) (ia_max_depth a) q visited of
        Inl m \<Rightarrow> Inl (DepthExceeded m)
      | Inr vs \<Rightarrow> Inr
          (direct @ visit_report a changes (filter (\<lambda>p. snd p = 1) vs),
           transitive @ visit_report a changes (filter (\<lambda>p. snd p \<noteq> 1) vs),
           violations @ concat (map am_contract_violations (visit_report a changes vs))))"
proof (induction a rdag changes q visited direct transitive violations rule: column_loop.induct)
  case (2 a rdag changes m d q visited direct transitive violations)
  consider "int d > ia_max_depth a" | "\<not> int d > ia_max_depth a" "m \<in> set visited"
    | "\<not> int d > ia_max_depth a" "m \<notin> set visited" "ia_models a m = None"
    | md where "\<not> int d > ia_max_depth a" "m \<notin> set visited" "ia_models a m = Some md" by blast
  then show ?case
  proof cases
    case 3
    from "2.IH"(2)[OF 3] 3 show ?thesis
      by (simp add: column_loop.simps(2) walk.simps(2) split: sum.split)
  next
    case 4
    from "2.IH"(3)[OF 4 refl] 4 show ?thesis
      by (simp add: column_loop.simps(2) walk.simps(2) Let_def split: sum.split)
  qed (use "2.IH"(1) in \<open>simp_all add: column_loop.simps(2) walk.simps(2)\<close>)
qed simp

lemma visit_report_names: "map am_model_name (visit_report a changes vs) = filter (\<lambda>m. ia_models a m \<noteq> None) (map fst vs)"
  by (induction vs) (auto simp: column_affected_def Let_def split: option.splits)

subsection \<open>The reports\<close>

lemma walk_edges_reads:
  assumes "dict_ok (ia_dag a)"
  shows "walk_edges (build_reverse_dag (ia_dag a)) keep = {(p, c) \<in> reads a. keep p}"
  using set_reverse_dag[OF assms] by (auto simp: walk_edges_def)

lemma filter_sorted_list_of_set:
  "finite A \<Longrightarrow> filter P (sorted_list_of_set A) = sorted_list_of_set {x \<in> A. P (x::'a::linorder)}"
  by (rule sorted_distinct_eqI) (auto simp: sorted_filter[of id, simplified])

lemma finite_reads: "finite (reads a `` {m})"
proof (rule finite_subset)
  show "reads a `` {m} \<subseteq> fst ` set (ia_dag a)" by (force simp: reads_def dest: map_of_SomeD)
qed simp

lemma removal_report_Inr:
  assumes "simulate_model_removal a m = Inr r" "ia_models a m \<noteq> None"
  obtains vs where "walk (build_reverse_dag (ia_dag a)) (\<lambda>_. True) (ia_max_depth a) (start_queue (build_reverse_dag (ia_dag a)) m) [] = Inr vs"
    "rr_directly_affected r = map (\<lambda>(m, d). removal_affected m d) (filter (\<lambda>p. snd p = 1) vs)"
    "rr_transitively_affected r = map (\<lambda>(m, d). removal_affected m d) (filter (\<lambda>p. snd p \<noteq> 1) vs)"
    "rr_orphaned_models r = sort (map fst (filter (\<lambda>(c, d). filter (\<lambda>u. u \<noteq> m) (get_list (ia_dag a) c) = []) vs))"
    "rr_breaking_count r = length vs"
proof -
  let ?rdag = "build_reverse_dag (ia_dag a)"
  from assms obtain d t orphans where l: "removal_loop a ?rdag m (start_queue ?rdag m) [] [] [] [] = Inr (d, t, orphans)"
    and r: "rr_directly_affected r = d" "rr_transitively_affected r = t" "rr_orphaned_models r = sort orphans"
      "rr_breaking_count r = length d + length t"
    by (auto simp: simulate_model_removal_def Let_def split: sum.splits)
  from l obtain vs where vs: "walk ?rdag (\<lambda>_. True) (ia_max_depth a) (start_queue ?rdag m) [] = Inr vs"
    and res: "d = map (\<lambda>(m, d). removal_affected m d) (filter (\<lambda>p. snd p = 1) vs)"
      "t = map (\<lambda>(m, d). removal_affected m d) (filter (\<lambda>p. snd p \<noteq> 1) vs)"
      "orphans = map fst (filter (\<lambda>(c, d). filter (\<lambda>u. u \<noteq> m) (get_list (ia_dag a) c) = []) vs)"
    by (auto simp: removal_loop_walk split: sum.splits)
  have "length d + length t = length vs"
    unfolding res length_map by (rule sum_length_filter_compl)
  then show ?thesis by (intro that[OF vs]) (simp_all only: r res)
qed

lemma removal_names: "map am_model_name (map (\<lambda>(m, d). removal_affected m d) vs) = map fst vs"
  by (auto simp: removal_affected_def)

text \<open>When the removal of a model is simulated, the direct part of the report is the alphabetical list of the models that read it; the
  transitive part holds every other model that depends on it through others, each once; the orphans are exactly the models that
  read nothing else, and the count is the number of all models downstream.\<close>

theorem removal_report_exact:
  assumes "dict_ok (ia_dag a)" "ia_models a m \<noteq> None" "simulate_model_removal a m = Inr r"
  shows "map am_model_name (rr_directly_affected r) = sorted_list_of_set (reads a `` {m}) \<and>
    set (map am_model_name (rr_transitively_affected r)) = (reads a)\<^sup>+ `` {m} - reads a `` {m} \<and>
    distinct (map am_model_name (rr_transitively_affected r)) \<and>
    rr_orphaned_models r = sorted_list_of_set {c \<in> reads a `` {m}. (reads a)\<inverse> `` {c} \<subseteq> {m}} \<and>
    rr_breaking_count r = card ((reads a)\<^sup>+ `` {m})"
proof -
  have E: "walk_edges (build_reverse_dag (ia_dag a)) (\<lambda>_. True) = reads a" using walk_edges_reads[OF assms(1)] by simp
  from removal_report_Inr[OF assms(3,2)] obtain vs where
    vs: "walk (build_reverse_dag (ia_dag a)) (\<lambda>_. True) (ia_max_depth a) (start_queue (build_reverse_dag (ia_dag a)) m) [] = Inr vs"
    and r: "rr_directly_affected r = map (\<lambda>(m, d). removal_affected m d) (filter (\<lambda>p. snd p = 1) vs)"
    "rr_transitively_affected r = map (\<lambda>(m, d). removal_affected m d) (filter (\<lambda>p. snd p \<noteq> 1) vs)"
    "rr_orphaned_models r = sort (map fst (filter (\<lambda>(c, d). filter (\<lambda>u. u \<noteq> m) (get_list (ia_dag a) c) = []) vs))"
    "rr_breaking_count r = length vs" .
  note w = walk_from[OF vs TrueI, unfolded E]
  have direct: "map am_model_name (rr_directly_affected r) = sorted_list_of_set (reads a `` {m})"
    unfolding r removal_names by (rule w(3))
  have transitive: "set (map am_model_name (rr_transitively_affected r)) = (reads a)\<^sup>+ `` {m} - reads a `` {m}"
    unfolding r removal_names set_map by (rule w(6))
  have distinct: "distinct (map am_model_name (rr_transitively_affected r))"
    unfolding r removal_names using w(1) by (rule distinct_map_filter)
  have readers: "set (get_list (ia_dag a) c) = (reads a)\<inverse> `` {c}" for c
    by (cases "map_of (ia_dag a) c") (auto simp: reads_def get_list_def)
  have orphan: "filter (\<lambda>u. u \<noteq> m) (get_list (ia_dag a) c) = [] \<longleftrightarrow> (reads a)\<inverse> `` {c} \<subseteq> {m}" for c
    unfolding readers[symmetric] by (auto simp: filter_empty_conv)
  have "fst ` {p \<in> set vs. (reads a)\<inverse> `` {fst p} \<subseteq> {m}} = {c \<in> reads a `` {m}. (reads a)\<inverse> `` {c} \<subseteq> {m}}"
  proof (intro equalityI subsetI)
    fix c assume "c \<in> fst ` {p \<in> set vs. (reads a)\<inverse> `` {fst p} \<subseteq> {m}}"
    then have c: "(m, c) \<in> (reads a)\<^sup>+" "(reads a)\<inverse> `` {c} \<subseteq> {m}" using w(2) by auto
    from c(1) obtain u where "(u, c) \<in> reads a" by (meson tranclE)
    with c(2) show "c \<in> {c \<in> reads a `` {m}. (reads a)\<inverse> `` {c} \<subseteq> {m}}" by auto
  next
    fix c assume c: "c \<in> {c \<in> reads a `` {m}. (reads a)\<inverse> `` {c} \<subseteq> {m}}"
    then have "c \<in> fst ` set vs" unfolding w(2) by auto
    with c show "c \<in> fst ` {p \<in> set vs. (reads a)\<inverse> `` {fst p} \<subseteq> {m}}" by auto
  qed
  then have "set (rr_orphaned_models r) = {c \<in> reads a `` {m}. (reads a)\<inverse> `` {c} \<subseteq> {m}}"
    unfolding r orphan by (auto simp: case_prod_beta)
  moreover have "distinct (rr_orphaned_models r)" "sorted (rr_orphaned_models r)" unfolding r using w(1) by (simp_all add: distinct_map_filter)
  ultimately have "rr_orphaned_models r = sorted_list_of_set {c \<in> reads a `` {m}. (reads a)\<inverse> `` {c} \<subseteq> {m}}"
    using sorted_list_of_set.idem_if_sorted_distinct[of "rr_orphaned_models r"] by simp
  moreover have "rr_breaking_count r = card ((reads a)\<^sup>+ `` {m})"
    unfolding r w(2)[symmetric] using distinct_card[OF w(1)] by simp
  ultimately show ?thesis using direct transitive distinct by simp
qed

lemma shallow_simulations_return:
  assumes "dict_ok (ia_dag a)" "\<forall>d x. (m, x) \<in> reads a ^^ d \<longrightarrow> int d \<le> ia_max_depth a"
  shows "(\<exists>r. simulate_model_removal a m = Inr r) \<and> (\<exists>r. simulate_column_change a m changes = Inr r)"
proof -
  have no_error: "walk (build_reverse_dag (ia_dag a)) keep (ia_max_depth a) (start_queue (build_reverse_dag (ia_dag a)) m) [] \<noteq> Inl x"
    if "keep m" for keep x
  proof
    let ?E = "walk_edges (build_reverse_dag (ia_dag a)) keep"
    assume w: "walk (build_reverse_dag (ia_dag a)) keep (ia_max_depth a) (start_queue (build_reverse_dag (ia_dag a)) m) [] = Inl x"
    have "\<forall>(y, d)\<in>set (start_queue (build_reverse_dag (ia_dag a)) m). (m, y) \<in> ?E ^^ d"
      using that by (auto simp: walk_edges_def)
    from walk_deep[OF w this] obtain d where d: "int d > ia_max_depth a" "(m, x) \<in> ?E ^^ d" by blast
    have "?E ^^ d \<subseteq> reads a ^^ d" unfolding walk_edges_reads[OF assms(1)] by (rule relpow_subset) auto
    with d assms(2) show False by force
  qed
  have "\<exists>r. simulate_model_removal a m = Inr r"
    using no_error[of "\<lambda>_. True"]
    by (cases "walk (build_reverse_dag (ia_dag a)) (\<lambda>_. True) (ia_max_depth a) (start_queue (build_reverse_dag (ia_dag a)) m) []")
      (auto simp: simulate_model_removal_def removal_loop_walk Let_def)
  moreover have "\<exists>r. simulate_column_change a m changes = Inr r"
  proof (cases "ia_models a m = None")
    case False
    then show ?thesis
      using no_error[of "\<lambda>m. ia_models a m \<noteq> None"]
      by (cases "walk (build_reverse_dag (ia_dag a)) (\<lambda>m. ia_models a m \<noteq> None) (ia_max_depth a) (start_queue (build_reverse_dag (ia_dag a)) m) []")
        (auto simp: simulate_column_change_def column_loop_walk Let_def)
  qed (simp add: simulate_column_change_def)
  ultimately show ?thesis by blast
qed

text \<open>A simulation raises its depth error only when a chain of more than \<open>max_depth\<close> references starts at the source: without one,
  both simulations return.\<close>

theorem simulations_return:
  assumes "dict_ok (ia_dag a)" "\<forall>d x. (m, x) \<in> reads a ^^ d \<longrightarrow> int d \<le> ia_max_depth a"
  shows "(\<exists>r. simulate_model_removal a m = Inr r) \<and> (\<exists>r. simulate_column_change a m changes = Inr r)"
  using assms by (rule shallow_simulations_return)

lemma column_report_Inr:
  assumes "simulate_column_change a m changes = Inr r" "ia_models a m \<noteq> None"
  obtains vs where "walk (build_reverse_dag (ia_dag a)) (\<lambda>m. ia_models a m \<noteq> None) (ia_max_depth a)
      (start_queue (build_reverse_dag (ia_dag a)) m) [] = Inr vs"
    "ir_directly_affected r = visit_report a changes (filter (\<lambda>p. snd p = 1) vs)"
    "ir_transitively_affected r = visit_report a changes (filter (\<lambda>p. snd p \<noteq> 1) vs)"
    "ir_contract_violations r = concat (map am_contract_violations (visit_report a changes vs))"
    "ir_breaking_count r = length (filter (\<lambda>x. am_severity x = IMPACT_BREAKING) (ir_directly_affected r @ ir_transitively_affected r))"
proof -
  let ?rdag = "build_reverse_dag (ia_dag a)"
  from assms obtain d t viols where l: "column_loop a ?rdag changes (start_queue ?rdag m) [] [] [] [] = Inr (d, t, viols)"
    and r: "ir_directly_affected r = d" "ir_transitively_affected r = t" "ir_contract_violations r = viols"
      "ir_breaking_count r = length (filter (\<lambda>x. am_severity x = IMPACT_BREAKING) (d @ t))"
    by (auto simp: simulate_column_change_def Let_def split: sum.splits)
  from l obtain vs where vs: "walk ?rdag (\<lambda>m. ia_models a m \<noteq> None) (ia_max_depth a) (start_queue ?rdag m) [] = Inr vs"
    and res: "d = visit_report a changes (filter (\<lambda>p. snd p = 1) vs)" "t = visit_report a changes (filter (\<lambda>p. snd p \<noteq> 1) vs)"
      "viols = concat (map am_contract_violations (visit_report a changes vs))"
    by (auto simp: column_loop_walk split: sum.splits)
  show ?thesis by (rule that[OF vs]) (simp_all only: r res)
qed

lemma column_affected_name [simp]: "am_model_name (column_affected a changes m d md) = m"
  by (simp add: column_affected_def Let_def)

text \<open>Every reported model is reported by one visit.\<close>

lemma reported_visit:
  assumes "x \<in> set (visit_report a changes vs)"
  obtains d md where "ia_models a (am_model_name x) = Some md" "x = column_affected a changes (am_model_name x) d md"
proof -
  from assms obtain m d where "x \<in> set (case ia_models a m of None \<Rightarrow> [] | Some md \<Rightarrow> [column_affected a changes m d md])"
    by (auto simp: visit_report_def)
  then obtain md where "ia_models a m = Some md" "x = column_affected a changes m d md" by (cases "ia_models a m") auto
  then show ?thesis by (intro that[of md d]) simp_all
qed

text \<open>The report of a column change names each known model downstream of the source exactly once, reached through known models only:
  the direct part in alphabetical order, the others as transitive; and its violations are those of the named models, in their order.\<close>

theorem column_report_exact:
  assumes "dict_ok (ia_dag a)" "ia_models a m \<noteq> None" "simulate_column_change a m changes = Inr r"
  shows "map am_model_name (ir_directly_affected r) = sorted_list_of_set {c \<in> reads a `` {m}. ia_models a c \<noteq> None} \<and>
    set (map am_model_name (ir_transitively_affected r)) =
      {c \<in> {(p, c) \<in> reads a. ia_models a p \<noteq> None}\<^sup>+ `` {m}. ia_models a c \<noteq> None} - reads a `` {m} \<and>
    distinct (map am_model_name (ir_directly_affected r @ ir_transitively_affected r)) \<and>
    ir_contract_violations r = concat (map am_contract_violations (ir_directly_affected r @ ir_transitively_affected r))"
proof -
  let ?keep = "\<lambda>m. ia_models a m \<noteq> None" and ?E = "{(p, c) \<in> reads a. ia_models a p \<noteq> None}"
  have E: "walk_edges (build_reverse_dag (ia_dag a)) ?keep = ?E" by (rule walk_edges_reads[OF assms(1)])
  have first: "?E `` {m} = reads a `` {m}" using assms(2) by auto
  from column_report_Inr[OF assms(3,2)] obtain vs where
    vs: "walk (build_reverse_dag (ia_dag a)) ?keep (ia_max_depth a) (start_queue (build_reverse_dag (ia_dag a)) m) [] = Inr vs"
    and r: "ir_directly_affected r = visit_report a changes (filter (\<lambda>p. snd p = 1) vs)"
    "ir_transitively_affected r = visit_report a changes (filter (\<lambda>p. snd p \<noteq> 1) vs)"
    "ir_contract_violations r = concat (map am_contract_violations (visit_report a changes vs))" .
  note w = walk_from[OF vs assms(2), unfolded E first]
  let ?one = "filter (\<lambda>p. snd p = 1) vs" and ?more = "filter (\<lambda>p. snd p \<noteq> 1) vs"
  have all: "ir_directly_affected r @ ir_transitively_affected r = visit_report a changes vs"
    unfolding r using w(4) visit_report_simps(3)[of a changes ?one ?more] by simp
  have direct: "map am_model_name (ir_directly_affected r) = sorted_list_of_set {c \<in> reads a `` {m}. ia_models a c \<noteq> None}"
    unfolding r visit_report_names w(3) using finite_reads[of a m] by (simp only: filter_sorted_list_of_set)
  have distinct: "distinct (map am_model_name (visit_report a changes vs))"
    unfolding visit_report_names using w(1) by (rule distinct_filter)
  have "set (map am_model_name (ir_transitively_affected r)) = {c \<in> fst ` set ?more. ia_models a c \<noteq> None}"
    unfolding r visit_report_names by auto
  also have "\<dots> = {c \<in> ?E\<^sup>+ `` {m}. ia_models a c \<noteq> None} - reads a `` {m}" unfolding w(6) by auto
  finally have "set (map am_model_name (ir_transitively_affected r)) = {c \<in> ?E\<^sup>+ `` {m}. ia_models a c \<noteq> None} - reads a `` {m}" .
  with direct distinct all r(3) show ?thesis by simp
qed

lemma check_contracts_severity: "v \<in> set (check_contracts m md changes) \<Longrightarrow> iv_severity v = IMPACT_BREAKING"
  by (auto simp: check_contracts_def change_violation_def Let_def split: if_splits option.splits)

lemma max_severity_const: "vs \<noteq> [] \<Longrightarrow> \<forall>v\<in>set vs. iv_severity v = s \<Longrightarrow> max_severity vs = s"
proof -
  have "fold (\<lambda>v best. if severity_index (iv_severity v) > severity_index best then iv_severity v else best) ws s = s"
    if "\<forall>v\<in>set ws. iv_severity v = s" for ws
    using that by (induction ws) auto
  then show "vs \<noteq> [] \<Longrightarrow> \<forall>v\<in>set vs. iv_severity v = s \<Longrightarrow> max_severity vs = s"
    by (cases vs) (auto simp: max_severity_def)
qed

lemma contract_map_known:
  "cc \<in> set ccs \<Longrightarrow> map_of (foldl (\<lambda>d c. dict_set d (py_lower (cc_name c)) c) d ccs) (py_lower (cc_name cc)) \<noteq> None"
proof (induction ccs arbitrary: d)
  case (Cons c ccs)
  have "map_of d k \<noteq> None \<Longrightarrow> map_of (foldl (\<lambda>d c. dict_set d (py_lower (cc_name c)) c) d ccs) k \<noteq> None" for d k
    by (induction ccs arbitrary: d) auto
  with Cons show ?case by auto
qed simp

lemma column_affected_severity:
  "am_severity (column_affected a changes m d md) =
     (if check_contracts m md changes \<noteq> [] then IMPACT_BREAKING
      else if am_columns_affected (column_affected a changes m d md) \<noteq> [] then classify_change_severity changes else IMPACT_INFO)"
proof -
  have "check_contracts m md changes \<noteq> [] \<Longrightarrow> max_severity (check_contracts m md changes) = IMPACT_BREAKING"
    using check_contracts_severity by (intro max_severity_const) blast+
  then show ?thesis by (simp add: column_affected_def Let_def)
qed

lemma report_severity:
  assumes "simulate_column_change a m changes = Inr r" "x \<in> set (ir_directly_affected r @ ir_transitively_affected r)"
  obtains md where "ia_models a (am_model_name x) = Some md"
    "am_severity x = (if check_contracts (am_model_name x) md changes \<noteq> [] then IMPACT_BREAKING
       else if am_columns_affected x \<noteq> [] then classify_change_severity changes else IMPACT_INFO)"
proof -
  have "ia_models a m \<noteq> None"
  proof
    assume "ia_models a m = None"
    with assms show False by (auto simp: simulate_column_change_def)
  qed
  from column_report_Inr[OF assms(1) this] assms(2) obtain vs where "x \<in> set (visit_report a changes vs)"
    by (metis set_append Un_iff)
  then obtain d md where md: "ia_models a (am_model_name x) = Some md" "x = column_affected a changes (am_model_name x) d md"
    by (rule reported_visit)
  from md(1) show ?thesis by (rule that) (metis md(2) column_affected_severity)
qed

text \<open>A column that some affected model holds a contract on, compared without case, cannot be removed or renamed unnoticed: that model
  is reported as breaking, whatever the other changes are and whether or not its SQL parses.\<close>

theorem contracted_removal_is_breaking:
  assumes "simulate_column_change a m changes = Inr r" "x \<in> set (ir_directly_affected r @ ir_transitively_affected r)"
    and "ia_models a (am_model_name x) = Some md" "md_contract_mode md \<noteq> DISABLED" "cc \<in> set (md_contract_columns md)"
    and "ch \<in> set changes" "ch_action ch = REMOVE \<or> ch_action ch = RENAME" "py_lower (ch_column_name ch) = py_lower (cc_name cc)"
  shows "am_severity x = IMPACT_BREAKING"
proof -
  from report_severity[OF assms(1,2)] assms(3) have
    sev: "am_severity x = (if check_contracts (am_model_name x) md changes \<noteq> [] then IMPACT_BREAKING
       else if am_columns_affected x \<noteq> [] then classify_change_severity changes else IMPACT_INFO)" by (metis option.inject)
  let ?map = "foldl (\<lambda>d c. dict_set d (py_lower (cc_name c)) c) [] (md_contract_columns md)"
  let ?f = "\<lambda>change. case map_of ?map (py_lower (ch_column_name change)) of
     None \<Rightarrow> [] | Some contract \<Rightarrow> change_violation (am_model_name x) contract change"
  from contract_map_known[OF assms(5), of "[]"] obtain contract where
    "map_of ?map (py_lower (ch_column_name ch)) = Some contract" unfolding assms(8) by blast
  then have "?f ch \<noteq> []" using assms(7) by (auto simp: change_violation_def)
  then have "concat (map ?f changes) \<noteq> []" using assms(6) by auto
  then have "check_contracts (am_model_name x) md changes \<noteq> []"
    using assms(4,5) unfolding check_contracts_def Let_def by (metis (no_types, lifting) empty_iff empty_set set_empty set_sort)
  with sev show ?thesis by simp
qed

text \<open>The severity of a change list is that of its first change that is not an addition: after a compatible type change, no later
  change, not even the removal of a column that is read, is reported as breaking for models without contracts.\<close>

theorem leading_type_change_hides_breaking:
  assumes "simulate_column_change a m (c # cs) = Inr r"
    and "ch_action c = TYPE_CHANGE" "ch_old_type c = Some t" "ch_new_type c = Some t'" "is_type_compatible t t'"
    and "\<And>n md. ia_models a n = Some md \<Longrightarrow> md_contract_columns md = []"
  shows "ir_breaking_count r = 0"
proof (cases "ia_models a m = None")
  case True
  with assms(1) show ?thesis by (auto simp: simulate_column_change_def)
next
  case False
  have "am_severity x \<noteq> IMPACT_BREAKING" if x: "x \<in> set (ir_directly_affected r @ ir_transitively_affected r)" for x
  proof -
    from report_severity[OF assms(1) x] obtain md where md: "ia_models a (am_model_name x) = Some md"
      "am_severity x = (if check_contracts (am_model_name x) md (c # cs) \<noteq> [] then IMPACT_BREAKING
         else if am_columns_affected x \<noteq> [] then classify_change_severity (c # cs) else IMPACT_INFO)" .
    have "check_contracts (am_model_name x) md (c # cs) = []" using assms(6)[OF md(1)] by (simp add: check_contracts_def)
    with md(2) assms(2-5) show ?thesis by auto
  qed
  then have "filter (\<lambda>x. am_severity x = IMPACT_BREAKING) (ir_directly_affected r @ ir_transitively_affected r) = []"
    by (auto simp: filter_empty_conv)
  with column_report_Inr[OF assms(1) False] show ?thesis by (metis length_0_conv)
qed

subsection \<open>Concrete simulations\<close>

definition demo_analyzer :: "(string \<Rightarrow> column_contract list) \<Rightarrow> analyzer" where
  "demo_analyzer contracts =
     \<lparr>ia_models = map_of (map (\<lambda>n. (n, (demo_model n [])\<lparr>md_contract_mode := STRICT, md_contract_columns := contracts n\<rparr>))
        [''a'', ''b'', ''c'']),
      ia_dag = [(''a'', []), (''b'', [''a'']), (''c'', [''b'', ''a''])], ia_max_depth = 100,
      ia_columns = (\<lambda>sql. Some [''X'', ''y''])\<rparr>"

lemma demo_analyzer_sel [simp]: "ia_dag (demo_analyzer f) = [(''a'', []), (''b'', [''a'']), (''c'', [''b'', ''a''])]"
  "ia_models (demo_analyzer f) ''a'' \<noteq> None" "ia_max_depth (demo_analyzer f) = 100"
  by (simp_all add: demo_analyzer_def)

lemma demo_analyzer_known: "(\<exists>md. ia_models (demo_analyzer f) n = Some md) \<longleftrightarrow> n \<in> {''a'', ''b'', ''c''}"
  by (simp add: demo_analyzer_def)

lemma reads_demo: "reads (demo_analyzer f) = {(''a'', ''b''), (''b'', ''c''), (''a'', ''c'')}"
  by (auto simp: reads_def split: if_splits)

lemma relpow_rank:
  fixes rank :: "'a \<Rightarrow> nat"
  assumes "\<forall>(u, v)\<in>R. rank u < rank v" "(u, v) \<in> R ^^ n"
  shows "rank u + n \<le> rank v"
  using assms(2)
proof (induction n arbitrary: v)
  case (Suc n)
  then obtain w where "(u, w) \<in> R ^^ n" "(w, v) \<in> R" by auto
  with Suc.IH[of w] assms(1) show ?case by fastforce
qed simp

lemma demo_shallow: "\<forall>d x. (''a'', x) \<in> reads (demo_analyzer f) ^^ d \<longrightarrow> int d \<le> ia_max_depth (demo_analyzer f)"
proof (intro allI impI)
  fix d x assume d: "(''a'', x) \<in> reads (demo_analyzer f) ^^ d"
  let ?rank = "\<lambda>m. if m = ''a'' then 0 else if m = ''b'' then 1 else 2 :: nat"
  have "?rank ''a'' + d \<le> ?rank x" by (rule relpow_rank[OF _ d]) (simp add: reads_demo)
  then show "int d \<le> ia_max_depth (demo_analyzer f)" by (simp split: if_splits)
qed

lemma demo_dict [simp]: "dict_ok (ia_dag (demo_analyzer f))"
  by (simp add: dict_ok_def)

theorem simulations_return_witness: "\<exists>r. simulate_model_removal (demo_analyzer (\<lambda>_. [])) ''a'' = Inr r"
  using simulations_return[OF demo_dict demo_shallow] by blast

theorem removal_report_exact_witness:
  "\<exists>r. simulate_model_removal (demo_analyzer (\<lambda>_. [])) ''a'' = Inr r \<and>
     map am_model_name (rr_directly_affected r) = [''b'', ''c''] \<and> rr_orphaned_models r = [''b'']"
proof -
  let ?a = "demo_analyzer (\<lambda>_. [])"
  from shallow_simulations_return[OF demo_dict demo_shallow] obtain r where r: "simulate_model_removal ?a ''a'' = Inr r" by blast
  have "reads ?a `` {''a''} = {''b'', ''c''}" by (auto simp: reads_demo)
  moreover have "{c \<in> {''b'', ''c''}. (reads ?a)\<inverse> `` {c} \<subseteq> {''a''}} = {''b''}" by (auto simp: reads_demo)
  ultimately show ?thesis using removal_report_exact[OF demo_dict demo_analyzer_sel(2) r] r by simp
qed

theorem column_report_exact_witness:
  "\<exists>r. simulate_column_change (demo_analyzer (\<lambda>_. [])) ''a'' [] = Inr r \<and>
     map am_model_name (ir_directly_affected r) = [''b'', ''c'']"
proof -
  let ?a = "demo_analyzer (\<lambda>_. [])"
  from shallow_simulations_return[OF demo_dict demo_shallow] obtain r where r: "simulate_column_change ?a ''a'' [] = Inr r" by blast
  have "{c \<in> reads ?a `` {''a''}. ia_models ?a c \<noteq> None} = {''b'', ''c''}" by (auto simp: reads_demo demo_analyzer_known)
  with column_report_exact[OF demo_dict demo_analyzer_sel(2) r] r show ?thesis by simp
qed

definition demo_removal :: "string \<Rightarrow> column_change" where
  "demo_removal n = \<lparr>ch_action = REMOVE, ch_column_name = n, ch_new_name = None, ch_old_type = None, ch_new_type = None\<rparr>"

definition demo_widening :: column_change where
  "demo_widening = \<lparr>ch_action = TYPE_CHANGE, ch_column_name = ''z'', ch_new_name = None, ch_old_type = Some ''int'', ch_new_type = Some ''bigint''\<rparr>"

definition demo_contracts :: "string \<Rightarrow> column_contract list" where
  "demo_contracts n = (if n = ''b'' then [\<lparr>cc_name = ''Q'', cc_data_type = ''INT'', cc_nullable = True\<rparr>] else [])"

theorem contracted_removal_is_breaking_witness:
  "\<exists>r. simulate_column_change (demo_analyzer demo_contracts) ''a'' [demo_widening, demo_removal ''q''] = Inr r \<and>
     am_severity (hd (ir_directly_affected r)) = IMPACT_BREAKING"
proof -
  let ?a = "demo_analyzer demo_contracts" and ?cs = "[demo_widening, demo_removal ''q'']"
  have "case simulate_column_change ?a ''a'' ?cs of Inl e \<Rightarrow> False
    | Inr r \<Rightarrow> map am_model_name (ir_directly_affected r) = [''b'', ''c'']" by code_simp
  from case_Inr[OF this] obtain r where r: "simulate_column_change ?a ''a'' ?cs = Inr r"
    "map am_model_name (ir_directly_affected r) = [''b'', ''c'']" by (elim exE conjE)
  obtain x xs where x: "ir_directly_affected r = x # xs" "am_model_name x = ''b''" using r(2) by (cases "ir_directly_affected r") auto
  have b: "ia_models ?a ''b'' = Some ((demo_model ''b'' [])\<lparr>md_contract_mode := STRICT, md_contract_columns := demo_contracts ''b''\<rparr>)"
    by (simp add: demo_analyzer_def)
  have lower: "py_lower ''q'' = py_lower ''Q''" by code_simp
  have "am_severity x = IMPACT_BREAKING"
    by (rule contracted_removal_is_breaking[OF r(1) _ b[folded x(2)], of "\<lparr>cc_name = ''Q'', cc_data_type = ''INT'', cc_nullable = True\<rparr>" "demo_removal ''q''"])
      (simp_all add: x demo_contracts_def demo_removal_def lower)
  with r(1) x(1) show ?thesis by simp
qed

theorem leading_type_change_hides_breaking_witness:
  "\<exists>r r'. simulate_column_change (demo_analyzer (\<lambda>_. [])) ''a'' [demo_widening, demo_removal ''x''] = Inr r \<and> ir_breaking_count r = 0 \<and>
     simulate_column_change (demo_analyzer (\<lambda>_. [])) ''a'' [demo_removal ''x'', demo_widening] = Inr r' \<and> ir_breaking_count r' = 2"
proof -
  let ?a = "demo_analyzer (\<lambda>_. [])"
  from shallow_simulations_return[OF demo_dict demo_shallow] obtain r where
    r: "simulate_column_change ?a ''a'' [demo_widening, demo_removal ''x''] = Inr r" by blast
  have compat: "is_type_compatible ''int'' ''bigint''" by code_simp
  have "ir_breaking_count r = 0"
    by (rule leading_type_change_hides_breaking[OF r _ _ _ compat])
      (auto simp: demo_widening_def demo_analyzer_def split: if_splits)
  moreover have "case simulate_column_change ?a ''a'' [demo_removal ''x'', demo_widening] of Inl e \<Rightarrow> False
    | Inr r \<Rightarrow> ir_breaking_count r = 2" by code_simp
  from case_Inr[OF this] obtain r' where "simulate_column_change ?a ''a'' [demo_removal ''x'', demo_widening] = Inr r'"
    "ir_breaking_count r' = 2" by (elim exE conjE)
  ultimately show ?thesis using r by blast
qed

end
