(* ===== verification/Outbox.thy ===== *)
theory Outbox
  imports Json "HOL-Library.Multiset"
begin

text \<open>
  The event bus and its transactional outbox: \<^verbatim>\<open>api/api/services/event_bus.py\<close> and \<^verbatim>\<open>EventOutboxRepository\<close> of
  \<^verbatim>\<open>core_engine/core_engine/state/repository.py\<close>. A handler is a value of any type; \<open>be_run\<close> gives what it does to the world
  and how it ends. Handlers called together run here one after the other. The table is the list of its rows in insertion order.
\<close>

subsection \<open>Events and handlers\<close>

datatype event_type =
    PLAN_GENERATED | PLAN_APPROVED | PLAN_REJECTED | PLAN_APPLY_STARTED | PLAN_APPLY_COMPLETED | PLAN_APPLY_FAILED
  | RUN_STARTED | RUN_COMPLETED | RUN_FAILED | SCHEMA_DRIFT_DETECTED | TEST_GATE_BLOCKED

fun event_type_value :: "event_type \<Rightarrow> string" where
  "event_type_value PLAN_GENERATED = ''plan.generated''"
| "event_type_value PLAN_APPROVED = ''plan.approved''"
| "event_type_value PLAN_REJECTED = ''plan.rejected''"
| "event_type_value PLAN_APPLY_STARTED = ''plan.apply_started''"
| "event_type_value PLAN_APPLY_COMPLETED = ''plan.apply_completed''"
| "event_type_value PLAN_APPLY_FAILED = ''plan.apply_failed''"
| "event_type_value RUN_STARTED = ''run.started''"
| "event_type_value RUN_COMPLETED = ''run.completed''"
| "event_type_value RUN_FAILED = ''run.failed''"
| "event_type_value SCHEMA_DRIFT_DETECTED = ''schema.drift_detected''"
| "event_type_value TEST_GATE_BLOCKED = ''test.gate_blocked''"

definition all_event_types :: "event_type list" where
  "all_event_types = [PLAN_GENERATED, PLAN_APPROVED, PLAN_REJECTED, PLAN_APPLY_STARTED, PLAN_APPLY_COMPLETED, PLAN_APPLY_FAILED,
     RUN_STARTED, RUN_COMPLETED, RUN_FAILED, SCHEMA_DRIFT_DETECTED, TEST_GATE_BLOCKED]"

text \<open>\<^verbatim>\<open>EventType(value)\<close>; \<open>None\<close> is its \<^verbatim>\<open>ValueError\<close>.\<close>

definition event_type_of :: "string \<Rightarrow> event_type option" where
  "event_type_of s = find (\<lambda>t. event_type_value t = s) all_event_types"

lemma event_type_of_value [simp]: "event_type_of (event_type_value t) = Some t"
  by (cases t) (simp_all add: event_type_of_def all_event_types_def)

record event_payload =
  ep_event_type :: event_type
  ep_tenant_id :: string
  ep_timestamp :: timestamp
  ep_correlation_id :: string
  ep_data :: json

datatype handler_outcome = Finished | TimedOut | Raised

text \<open>The environment: the serialisation of a payload and back, and what a handler does.\<close>

record ('h, 'w) bus_env =
  be_dump :: "event_payload \<Rightarrow> json"
  be_load :: "json \<Rightarrow> string + event_payload"
  be_run :: "'h \<Rightarrow> event_payload \<Rightarrow> 'w \<Rightarrow> handler_outcome \<times> 'w"

record 'h event_bus =
  eb_handlers :: "(event_type option \<times> 'h list) list"

definition handlers_for :: "'h event_bus \<Rightarrow> event_type option \<Rightarrow> 'h list" where
  "handlers_for bus t = (case map_of (eb_handlers bus) t of None \<Rightarrow> [] | Some hs \<Rightarrow> hs)"

definition register_handler :: "'h event_bus \<Rightarrow> 'h \<Rightarrow> event_type option \<Rightarrow> 'h event_bus" where
  "register_handler bus h t = bus\<lparr>eb_handlers := dict_set (eb_handlers bus) t (handlers_for bus t @ [h])\<rparr>"

definition matching_handlers :: "'h event_bus \<Rightarrow> event_type \<Rightarrow> 'h list" where
  "matching_handlers bus t = handlers_for bus (Some t) @ handlers_for bus None"

definition handler_count :: "'h event_bus \<Rightarrow> nat" where
  "handler_count bus = sum_list (map (\<lambda>(_, hs). length hs) (eb_handlers bus))"

text \<open>Every handler runs, whatever the others do; the flag is \<^verbatim>\<open>all_ok\<close>.\<close>

fun run_handlers :: "('h, 'w) bus_env \<Rightarrow> 'h list \<Rightarrow> event_payload \<Rightarrow> 'w \<Rightarrow> bool \<times> 'w" where
  "run_handlers env [] payload w = (True, w)"
| "run_handlers env (h # hs) payload w =
     (let (outcome, w1) = be_run env h payload w; (all_ok, w2) = run_handlers env hs payload w1
      in (outcome = Finished \<and> all_ok, w2))"

definition data_or_empty :: "json option \<Rightarrow> json" where
  "data_or_empty d = (case d of None \<Rightarrow> JObj [] | Some j \<Rightarrow> if json_falsy j then JObj [] else j)"

definition emit ::
  "('h, 'w) bus_env \<Rightarrow> 'h event_bus \<Rightarrow> event_type \<Rightarrow> string \<Rightarrow> json option \<Rightarrow> string option \<Rightarrow> timestamp \<Rightarrow> string \<Rightarrow> 'w \<Rightarrow> 'w" where
  "emit env bus t tenant d corr now fresh w =
     (let payload = \<lparr>ep_event_type = t, ep_tenant_id = tenant, ep_timestamp = now, ep_correlation_id = opt_or corr fresh,
                     ep_data = data_or_empty d\<rparr>;
          handlers = matching_handlers bus t
      in if handlers = [] then w else snd (run_handlers env handlers payload w))"

subsection \<open>The outbox table\<close>

record outbox_row =
  ob_id :: int
  ob_tenant_id :: string
  ob_event_type :: string
  ob_payload :: json
  ob_correlation_id :: string
  ob_status :: string
  ob_created_at :: timestamp
  ob_delivered_at :: "timestamp option"
  ob_attempts :: nat
  ob_last_error :: "string option"

record outbox =
  ox_rows :: "outbox_row list"
  ox_next_id :: int

definition is_pending :: "outbox_row \<Rightarrow> bool" where
  "is_pending r \<longleftrightarrow> ob_status r = ''pending''"

definition outbox_write :: "string \<Rightarrow> string \<Rightarrow> json \<Rightarrow> string \<Rightarrow> timestamp \<Rightarrow> outbox \<Rightarrow> outbox" where
  "outbox_write tenant t payload corr now ox =
     \<lparr>ox_rows = ox_rows ox @ [\<lparr>ob_id = ox_next_id ox, ob_tenant_id = tenant, ob_event_type = t, ob_payload = payload,
        ob_correlation_id = corr, ob_status = ''pending'', ob_created_at = now, ob_delivered_at = None, ob_attempts = 0,
        ob_last_error = None\<rparr>],
      ox_next_id = ox_next_id ox + 1\<rparr>"

definition get_pending :: "outbox_row list \<Rightarrow> nat \<Rightarrow> outbox_row list" where
  "get_pending rows limit = take limit (sort_key ob_created_at (filter is_pending rows))"

definition count_pending :: "outbox_row list \<Rightarrow> nat" where
  "count_pending rows = length (filter is_pending rows)"

definition mark_delivered :: "timestamp \<Rightarrow> int \<Rightarrow> outbox_row list \<Rightarrow> outbox_row list" where
  "mark_delivered now i rows =
     map (\<lambda>r. if ob_id r = i then r\<lparr>ob_status := ''delivered'', ob_delivered_at := Some now\<rparr> else r) rows"

definition mark_delivered_batch :: "timestamp \<Rightarrow> int list \<Rightarrow> outbox_row list \<Rightarrow> outbox_row list" where
  "mark_delivered_batch now ids rows =
     map (\<lambda>r. if ob_id r \<in> set ids then r\<lparr>ob_status := ''delivered'', ob_delivered_at := Some now\<rparr> else r) rows"

definition mark_failed :: "int \<Rightarrow> string \<Rightarrow> bool \<Rightarrow> outbox_row list \<Rightarrow> outbox_row list" where
  "mark_failed i err permanent rows =
     map (\<lambda>r. if ob_id r = i
              then r\<lparr>ob_attempts := ob_attempts r + 1, ob_last_error := Some (take 1024 err),
                     ob_status := (if permanent then ''failed'' else ob_status r)\<rparr>
              else r) rows"

definition hours :: "int \<Rightarrow> int" where
  "hours n = n * 3600000000"

definition cleanup_delivered :: "timestamp \<Rightarrow> int \<Rightarrow> outbox_row list \<Rightarrow> outbox_row list \<times> nat" where
  "cleanup_delivered now older_than rows =
     (let gone = (\<lambda>r. ob_status r = ''delivered'' \<and> (case ob_delivered_at r of None \<Rightarrow> False | Some d \<Rightarrow> d < now - hours older_than))
      in (filter (\<lambda>r. \<not> gone r) rows, length (filter gone rows)))"

definition cleanup_failed :: "timestamp \<Rightarrow> int \<Rightarrow> outbox_row list \<Rightarrow> outbox_row list \<times> nat" where
  "cleanup_failed now older_than rows =
     (let gone = (\<lambda>r. ob_status r = ''failed'' \<and> ob_created_at r < now - hours older_than)
      in (filter (\<lambda>r. \<not> gone r) rows, length (filter gone rows)))"

subsection \<open>Persistent events\<close>

definition emit_persistent ::
  "('h, 'w) bus_env \<Rightarrow> 'h event_bus \<Rightarrow> event_type \<Rightarrow> string \<Rightarrow> json option \<Rightarrow> string option \<Rightarrow> timestamp \<Rightarrow> string \<Rightarrow>
   outbox \<times> 'w \<Rightarrow> outbox \<times> 'w" where
  "emit_persistent env bus t tenant d corr now fresh st =
     (let (ox, w) = st; corr_id = opt_or corr fresh;
          payload = \<lparr>ep_event_type = t, ep_tenant_id = tenant, ep_timestamp = now, ep_correlation_id = corr_id, ep_data = data_or_empty d\<rparr>
      in (outbox_write tenant (event_type_value t) (be_dump env payload) corr_id now ox,
          emit env bus t tenant d (Some corr_id) now fresh w))"

text \<open>A batch: one insertion for all rows, then the handlers, event by event; \<open>fresh\<close> gives the identifiers that are generated.\<close>

definition emit_persistent_batch ::
  "('h, 'w) bus_env \<Rightarrow> 'h event_bus \<Rightarrow> (event_type \<times> string \<times> json option \<times> string option) list \<Rightarrow> timestamp \<Rightarrow> (nat \<Rightarrow> string) \<Rightarrow>
   outbox \<times> 'w \<Rightarrow> outbox \<times> 'w" where
  "emit_persistent_batch env bus events now fresh st =
     (if events = [] then st
      else let (ox, w) = st;
               payloads = map (\<lambda>(i, t, tenant, d, corr). (t, tenant, data_or_empty d, opt_or corr (fresh i))) (enumerate 0 events)
           in (foldl (\<lambda>ox (t, tenant, d, corr_id). outbox_write tenant (event_type_value t)
                  (be_dump env \<lparr>ep_event_type = t, ep_tenant_id = tenant, ep_timestamp = now, ep_correlation_id = corr_id, ep_data = d\<rparr>)
                  corr_id now ox) ox payloads,
               foldl (\<lambda>w (t, tenant, d, corr_id). emit env bus t tenant (Some d) (Some corr_id) now (fresh (length events)) w) w payloads))"

subsection \<open>The poller\<close>

record poller =
  po_max_attempts :: nat
  po_cleanup_retention_hours :: int

definition adaptive_limit :: "nat \<Rightarrow> nat" where
  "adaptive_limit pending_count = min 500 (max 100 (pending_count * 2))"

text \<open>The error a snapshot ends with, or \<open>None\<close> when it was delivered.\<close>

definition dispatch_entry ::
  "('h, 'w) bus_env \<Rightarrow> 'h event_bus \<Rightarrow> nat \<Rightarrow> outbox_row \<Rightarrow> 'w \<Rightarrow> string option \<times> 'w" where
  "dispatch_entry env bus max_attempts snap w =
     (if ob_attempts snap \<ge> max_attempts then (Some ''max_attempts_exceeded'', w)
      else case event_type_of (ob_event_type snap) of
             None \<Rightarrow> (Some (take 1024 (quoted (ob_event_type snap) @ '' is not a valid EventType'')), w)
           | Some t \<Rightarrow>
               (case be_load env (ob_payload snap) of
                  Inl err \<Rightarrow> (Some (take 1024 err), w)
                | Inr payload \<Rightarrow>
                    let (all_ok, w1) = run_handlers env (matching_handlers bus t) payload w
                    in (if all_ok then None else Some ''handler_error'', w1)))"

fun dispatch_all ::
  "('h, 'w) bus_env \<Rightarrow> 'h event_bus \<Rightarrow> nat \<Rightarrow> outbox_row list \<Rightarrow> 'w \<Rightarrow> (int list \<times> (int \<times> string) list) \<times> 'w" where
  "dispatch_all env bus max_attempts [] w = (([], []), w)"
| "dispatch_all env bus max_attempts (snap # snaps) w =
     (let (err, w1) = dispatch_entry env bus max_attempts snap w;
          ((delivered, failed), w2) = dispatch_all env bus max_attempts snaps w1
      in (case err of
            None \<Rightarrow> ((ob_id snap # delivered, failed), w2)
          | Some e \<Rightarrow> ((delivered, (ob_id snap, e) # failed), w2)))"

definition commit_poll :: "timestamp \<Rightarrow> int list \<Rightarrow> (int \<times> string) list \<Rightarrow> outbox_row list \<Rightarrow> outbox_row list" where
  "commit_poll now delivered failed rows =
     foldl (\<lambda>rows (i, e). mark_failed i e (e = ''max_attempts_exceeded'') rows)
       (if delivered = [] then rows else mark_delivered_batch now delivered rows) failed"

definition poll_once ::
  "('h, 'w) bus_env \<Rightarrow> 'h event_bus \<Rightarrow> poller \<Rightarrow> timestamp \<Rightarrow> outbox \<times> 'w \<Rightarrow> outbox \<times> 'w" where
  "poll_once env bus po now st =
     (let (ox, w) = st; pending_count = count_pending (ox_rows ox)
      in if pending_count = 0 then (ox, w)
         else
           let snapshots = get_pending (ox_rows ox) (adaptive_limit pending_count);
               ((delivered, failed), w1) = dispatch_all env bus (po_max_attempts po) snapshots w
           in (ox\<lparr>ox_rows := commit_poll now delivered failed (ox_rows ox)\<rparr>, w1))"

definition cleanup :: "poller \<Rightarrow> timestamp \<Rightarrow> outbox \<Rightarrow> outbox" where
  "cleanup po now ox =
     ox\<lparr>ox_rows := fst (cleanup_failed now (po_cleanup_retention_hours po)
       (fst (cleanup_delivered now (po_cleanup_retention_hours po) (ox_rows ox))))\<rparr>"

end
