(* ===== verification/Outbox_Facts.thy ===== *)
theory Outbox_Facts
  imports Outbox
begin

text \<open>
  The outbox under any sequence of emissions, polls, polls that crash before they commit, and clean-ups (\<open>outbox_history\<close>):
  what a poll does to each row, that polling drains the table, and how often an entry is tried.
\<close>

subsection \<open>What a poll does to a row\<close>

definition fail_row :: "string \<Rightarrow> outbox_row \<Rightarrow> outbox_row" where
  "fail_row err r = r\<lparr>ob_attempts := ob_attempts r + 1, ob_last_error := Some (take 1024 err),
     ob_status := (if err = ''max_attempts_exceeded'' then ''failed'' else ob_status r)\<rparr>"

definition deliver_row :: "timestamp \<Rightarrow> outbox_row \<Rightarrow> outbox_row" where
  "deliver_row now r = r\<lparr>ob_status := ''delivered'', ob_delivered_at := Some now\<rparr>"

definition settle_row :: "timestamp \<Rightarrow> int list \<Rightarrow> (int \<times> string) list \<Rightarrow> outbox_row \<Rightarrow> outbox_row" where
  "settle_row now delivered failed r =
     (case map_of failed (ob_id r) of Some err \<Rightarrow> fail_row err r | None \<Rightarrow> if ob_id r \<in> set delivered then deliver_row now r else r)"

lemma row_ids [simp]: "ob_id (fail_row err r) = ob_id r" "ob_id (deliver_row now r) = ob_id r" "ob_id (settle_row now ds fs r) = ob_id r"
  by (simp_all add: fail_row_def deliver_row_def settle_row_def split: option.split)

lemma mark_failed_rows: "mark_failed i err (err = ''max_attempts_exceeded'') rows = map (\<lambda>r. if ob_id r = i then fail_row err r else r) rows"
  by (simp add: mark_failed_def fail_row_def)

lemma fold_mark_failed:
  "distinct (map fst failed) \<Longrightarrow> foldl (\<lambda>rows (i, e). mark_failed i e (e = ''max_attempts_exceeded'') rows) rows failed =
     map (\<lambda>r. case map_of failed (ob_id r) of Some err \<Rightarrow> fail_row err r | None \<Rightarrow> r) rows"
proof (induction failed arbitrary: rows)
  case (Cons f failed)
  obtain i e where f: "f = (i, e)" by (cases f)
  have "map_of failed i = None" using Cons.prems by (simp add: f map_of_eq_None_iff)
  with Cons show ?case by (auto simp: f mark_failed_rows split: option.split)
qed simp

lemma commit_poll_rows:
  assumes "distinct (map fst failed)" "set delivered \<inter> fst ` set failed = {}"
  shows "commit_poll now delivered failed rows = map (settle_row now delivered failed) rows"
proof -
  have "(if delivered = [] then rows else mark_delivered_batch now delivered rows) =
      map (\<lambda>r. if ob_id r \<in> set delivered then deliver_row now r else r) rows"
    by (simp add: mark_delivered_batch_def deliver_row_def)
  moreover have "i \<in> set delivered \<Longrightarrow> map_of failed i = None" for i
    using assms(2) by (auto simp: map_of_eq_None_iff)
  ultimately show ?thesis
    unfolding commit_poll_def fold_mark_failed[OF assms(1)] by (auto simp: settle_row_def split: option.split)
qed

text \<open>The errors a snapshot can end with.\<close>

definition entry_fails :: "('h, 'w) bus_env \<Rightarrow> 'h event_bus \<Rightarrow> nat \<Rightarrow> outbox_row \<Rightarrow> string \<Rightarrow> bool" where
  "entry_fails env bus mx s e \<longleftrightarrow>
     (if ob_attempts s \<ge> mx then e = ''max_attempts_exceeded'' else \<exists>w. fst (dispatch_entry env bus mx s w) = Some e)"

lemma dispatch_entry_cases:
  assumes "dispatch_entry env bus mx s w = (err, w')"
  shows "case err of None \<Rightarrow> ob_attempts s < mx | Some e \<Rightarrow> entry_fails env bus mx s e"
proof (cases err)
  case None
  with assms show ?thesis by (auto simp: dispatch_entry_def split: if_splits)
next
  case (Some e)
  have "fst (dispatch_entry env bus mx s w) = Some e" using assms Some by simp
  moreover have "ob_attempts s \<ge> mx \<Longrightarrow> e = ''max_attempts_exceeded''" using assms Some by (simp add: dispatch_entry_def)
  ultimately show ?thesis using Some by (auto simp: entry_fails_def)
qed

lemma dispatch_all_facts:
  "dispatch_all env bus mx snaps w = ((delivered, failed), w') \<Longrightarrow>
   mset delivered + mset (map fst failed) = mset (map ob_id snaps) \<and>
   (\<forall>i\<in>set delivered. \<exists>s\<in>set snaps. ob_id s = i \<and> ob_attempts s < mx) \<and>
   (\<forall>p\<in>set failed. \<exists>s\<in>set snaps. ob_id s = fst p \<and> entry_fails env bus mx s (snd p))"
proof (induction snaps arbitrary: w delivered failed w')
  case (Cons s snaps)
  obtain err w1 where d: "dispatch_entry env bus mx s w = (err, w1)" by fastforce
  obtain ds fs w2 where r: "dispatch_all env bus mx snaps w1 = ((ds, fs), w2)" by (metis surj_pair)
  show ?case
    using Cons.prems d r Cons.IH[OF r] dispatch_entry_cases[OF d] by (cases err) auto
qed auto

text \<open>A poll settles each row of its batch, once, and no other.\<close>

lemma poll_once_rows:
  assumes "poll_once env bus po now (ox, w) = (ox', w')" "distinct (map ob_id (ox_rows ox))"
  obtains (Idle) "count_pending (ox_rows ox) = 0" "ox' = ox"
  | (Polled) snaps delivered failed where "set snaps \<subseteq> {r \<in> set (ox_rows ox). is_pending r}" "snaps \<noteq> []"
      "ox' = ox\<lparr>ox_rows := map (settle_row now delivered failed) (ox_rows ox)\<rparr>"
      "dispatch_all env bus (po_max_attempts po) snaps w = ((delivered, failed), w')"
      "distinct (map ob_id snaps)" "snaps = get_pending (ox_rows ox) (adaptive_limit (count_pending (ox_rows ox)))"
proof (cases "count_pending (ox_rows ox) = 0")
  case True
  with assms(1) show ?thesis by (intro Idle) (auto simp: poll_once_def)
next
  case False
  let ?snaps = "get_pending (ox_rows ox) (adaptive_limit (count_pending (ox_rows ox)))"
  obtain ds fs w1 where d: "dispatch_all env bus (po_max_attempts po) ?snaps w = ((ds, fs), w1)" by (metis surj_pair)
  let ?sorted = "sort_key ob_created_at (filter is_pending (ox_rows ox))"
  have sub: "set ?snaps \<subseteq> {r \<in> set (ox_rows ox). is_pending r}"
    using set_take_subset[of _ ?sorted] by (auto simp: get_pending_def)
  have ne: "?snaps \<noteq> []"
    using False set_sort[of ob_created_at "filter is_pending (ox_rows ox)"]
    by (auto simp: get_pending_def adaptive_limit_def count_pending_def simp del: set_sort)
  have "distinct (map ob_id ?sorted)"
    using distinct_map_filter[OF assms(2)] by (metis distinct_map mset_eq_imp_distinct_iff mset_sort set_sort)
  then have dist: "distinct (map ob_id ?snaps)" by (simp add: get_pending_def take_map[symmetric])
  note facts = dispatch_all_facts[OF d]
  then have "distinct (ds @ map fst fs)"
    using dist by (metis mset_append mset_eq_imp_distinct_iff)
  then have "distinct (map fst fs)" "set ds \<inter> fst ` set fs = {}" by auto
  then have "ox' = ox\<lparr>ox_rows := map (settle_row now ds fs) (ox_rows ox)\<rparr>" "w' = w1"
    using assms(1) False d by (simp_all add: poll_once_def Let_def commit_poll_rows)
  then show ?thesis using Polled[OF sub ne _ _ dist] d by blast
qed

text \<open>The fate of one row.\<close>

lemma settle_row_cases:
  assumes "dispatch_all env bus mx snaps w = ((delivered, failed), w')" "distinct (map ob_id snaps)"
    and "set snaps \<subseteq> set rows" "distinct (map ob_id rows)" "r \<in> set rows"
  obtains (Same) "r \<notin> set snaps" "settle_row now delivered failed r = r"
  | (Delivered) "r \<in> set snaps" "ob_attempts r < mx" "settle_row now delivered failed r = deliver_row now r"
  | (Failed) e where "r \<in> set snaps" "settle_row now delivered failed r = fail_row e r"
      "entry_fails env bus mx r e"
proof -
  note facts = dispatch_all_facts[OF assms(1)]
  have ids: "set delivered \<union> fst ` set failed = ob_id ` set snaps"
    using facts by (metis list.set_map mset_append set_append set_mset_mset)
  have same: "s = r" if "s \<in> set snaps" "ob_id s = ob_id r" for s
    using that assms(3-5) by (auto simp: distinct_map inj_on_def)
  show ?thesis
  proof (cases "map_of failed (ob_id r)")
    case (Some e)
    then have "(ob_id r, e) \<in> set failed" by (rule map_of_SomeD)
    with facts obtain s where s: "s \<in> set snaps" "ob_id s = ob_id r"
      "entry_fails env bus mx s e" by fastforce
    with same[OF s(1,2)] Some show ?thesis by (intro Failed) (auto simp: settle_row_def)
  next
    case None
    show ?thesis
    proof (cases "ob_id r \<in> set delivered")
      case True
      with facts obtain s where s: "s \<in> set snaps" "ob_id s = ob_id r" "ob_attempts s < mx" by blast
      with same[OF s(1,2)] None True show ?thesis by (intro Delivered) (auto simp: settle_row_def)
    next
      case False
      with None ids have "ob_id r \<notin> ob_id ` set snaps" by (auto simp: map_of_eq_None_iff)
      with None False show ?thesis by (intro Same) (auto simp: settle_row_def)
    qed
  qed
qed

subsection \<open>Polling drains the table\<close>

text \<open>What is left to do for the pending rows.\<close>

definition row_work :: "poller \<Rightarrow> outbox_row \<Rightarrow> nat" where
  "row_work po r = (if is_pending r then (po_max_attempts po - ob_attempts r) + 1 else 0)"

definition outbox_work :: "poller \<Rightarrow> outbox \<Rightarrow> nat" where
  "outbox_work po ox = sum_list (map (row_work po) (ox_rows ox))"

lemma sum_list_map_less:
  "\<forall>x\<in>set xs. f (g x) \<le> f x \<Longrightarrow> \<exists>x\<in>set xs. f (g x) < f x \<Longrightarrow> sum_list (map f (map g xs)) < sum_list (map (f :: 'a \<Rightarrow> nat) xs)"
proof (induction xs)
  case (Cons x xs)
  have le: "sum_list (map f (map g xs)) \<le> sum_list (map f xs)" using Cons.prems(1) by (induction xs) (auto intro: add_mono)
  show ?case
  proof (cases "f (g x) < f x")
    case True
    with le show ?thesis by simp
  next
    case False
    with Cons show ?thesis by (simp add: add_le_less_mono)
  qed
qed simp

lemma row_work_settled:
  "row_work po (deliver_row now r) = 0"
  "is_pending r \<Longrightarrow> ob_attempts r \<ge> po_max_attempts po \<longrightarrow> e = ''max_attempts_exceeded'' \<Longrightarrow> row_work po (fail_row e r) < row_work po r"
  by (auto simp: row_work_def deliver_row_def fail_row_def is_pending_def)

lemma poll_once_work:
  assumes "poll_once env bus po now (ox, w) = (ox', w')" "distinct (map ob_id (ox_rows ox))" "count_pending (ox_rows ox) \<noteq> 0"
  shows "outbox_work po ox' < outbox_work po ox \<and> map ob_id (ox_rows ox') = map ob_id (ox_rows ox)"
  using assms(1,2)
proof (cases rule: poll_once_rows)
  case (Polled snaps ds fs)
  let ?settle = "settle_row now ds fs"
  have less: "row_work po (?settle r) < row_work po r" if "r \<in> set snaps" for r
  proof -
    have r: "r \<in> set (ox_rows ox)" "is_pending r" using that Polled(1) by auto
    have sub: "set snaps \<subseteq> set (ox_rows ox)" using Polled(1) by auto
    show ?thesis
    proof (cases rule: settle_row_cases[OF Polled(4,5) sub assms(2) r(1), where now = now, case_names Same Delivered Failed])
      case Same
      with that show ?thesis by simp
    next
      case Delivered
      with r(2) show ?thesis by (simp add: row_work_settled) (simp add: row_work_def)
    next
      case (Failed e)
      then show ?thesis using row_work_settled(2)[OF r(2), of po e] by (simp add: entry_fails_def split: if_splits)
    qed
  qed
  have "row_work po (?settle r) \<le> row_work po r" if r: "r \<in> set (ox_rows ox)" for r
  proof (cases "r \<in> set snaps")
    case False
    have sub: "set snaps \<subseteq> set (ox_rows ox)" using Polled(1) by auto
    show ?thesis
      by (cases rule: settle_row_cases[OF Polled(4,5) sub assms(2) r, where now = now]) (use False in auto)
  qed (use less in force)
  moreover have "\<exists>r\<in>set (ox_rows ox). row_work po (?settle r) < row_work po r"
    using Polled(1,2) less by (metis (no_types, lifting) last_in_set mem_Collect_eq subsetD)
  ultimately show ?thesis
    unfolding outbox_work_def Polled(3) by (auto simp: o_def intro!: sum_list_map_less[simplified])
qed (use assms(3) in simp)

text \<open>Polls one after the other, at the given instants, with nothing written in between.\<close>

primrec polls :: "('h, 'w) bus_env \<Rightarrow> 'h event_bus \<Rightarrow> poller \<Rightarrow> (nat \<Rightarrow> timestamp) \<Rightarrow> nat \<Rightarrow> outbox \<times> 'w \<Rightarrow> outbox \<times> 'w" where
  "polls env bus po clock 0 st = st"
| "polls env bus po clock (Suc n) st = poll_once env bus po (clock n) (polls env bus po clock n st)"

lemma polls_work:
  assumes "distinct (map ob_id (ox_rows (fst st)))"
  shows "(count_pending (ox_rows (fst (polls env bus po clock n st))) = 0 \<or>
      outbox_work po (fst (polls env bus po clock n st)) + n \<le> outbox_work po (fst st)) \<and>
    map ob_id (ox_rows (fst (polls env bus po clock n st))) = map ob_id (ox_rows (fst st))"
proof (induction n)
  case (Suc n)
  obtain ox w where st: "polls env bus po clock n st = (ox, w)" by fastforce
  obtain ox' w' where p: "poll_once env bus po (clock n) (ox, w) = (ox', w')" by fastforce
  have d: "distinct (map ob_id (ox_rows ox))" using Suc assms st by simp
  show ?case
  proof (cases "count_pending (ox_rows ox) = 0")
    case True
    then show ?thesis using Suc st by (simp add: poll_once_def)
  next
    case False
    from poll_once_work[OF p d False] Suc st p False show ?thesis by auto
  qed
qed simp

lemma polls_drain:
  assumes "distinct (map ob_id (ox_rows (fst st)))"
  shows "count_pending (ox_rows (fst (polls env bus po clock (outbox_work po (fst st)) st))) = 0"
proof -
  let ?ox = "fst (polls env bus po clock (outbox_work po (fst st)) st)"
  from polls_work[OF assms, of env bus po clock "outbox_work po (fst st)"] consider
    "count_pending (ox_rows ?ox) = 0" | "outbox_work po ?ox = 0" by auto
  then show ?thesis
  proof cases
    case 2
    then have "\<forall>r\<in>set (ox_rows ?ox). \<not> is_pending r" by (auto simp: outbox_work_def row_work_def split: if_splits)
    then show ?thesis by (simp add: count_pending_def filter_empty_conv)
  qed
qed

subsection \<open>Histories\<close>

text \<open>Everything that can happen to the outbox, in any order; a crashed poll has run handlers and committed nothing.\<close>

inductive outbox_history ::
  "('h, 'w) bus_env \<Rightarrow> 'h event_bus \<Rightarrow> poller \<Rightarrow> outbox \<times> 'w \<Rightarrow> bool"
  for env :: "('h, 'w) bus_env" and bus :: "'h event_bus" and po :: poller where
  start: "outbox_history env bus po (\<lparr>ox_rows = [], ox_next_id = 1\<rparr>, w)"
| emitted: "outbox_history env bus po st \<Longrightarrow> outbox_history env bus po (emit_persistent env bus t tenant d corr now fresh st)"
| batch: "outbox_history env bus po st \<Longrightarrow> outbox_history env bus po (emit_persistent_batch env bus events now freshes st)"
| polled: "outbox_history env bus po st \<Longrightarrow> outbox_history env bus po (poll_once env bus po now st)"
| crashed: "outbox_history env bus po (ox, w) \<Longrightarrow> outbox_history env bus po (ox, snd (poll_once env bus po now (ox, w)))"
| cleaned: "outbox_history env bus po (ox, w) \<Longrightarrow> outbox_history env bus po (cleanup po now ox, w)"

definition row_ok :: "nat \<Rightarrow> outbox_row \<Rightarrow> bool" where
  "row_ok mx r \<longleftrightarrow>
     ob_status r = ''pending'' \<and> ob_delivered_at r = None \<and> ob_attempts r \<le> mx \<or>
     ob_status r = ''delivered'' \<and> ob_delivered_at r \<noteq> None \<and> ob_attempts r < mx \<or>
     ob_status r = ''failed'' \<and> ob_delivered_at r = None \<and> ob_attempts r = mx + 1"

definition outbox_ok :: "nat \<Rightarrow> outbox \<Rightarrow> bool" where
  "outbox_ok mx ox \<longleftrightarrow> distinct (map ob_id (ox_rows ox)) \<and> (\<forall>r\<in>set (ox_rows ox). ob_id r < ox_next_id ox \<and> row_ok mx r)"

lemma outbox_ok_write: "outbox_ok mx ox \<Longrightarrow> outbox_ok mx (outbox_write tenant t payload corr now ox)"
  by (fastforce simp: outbox_ok_def outbox_write_def row_ok_def)

lemma outbox_ok_filter: "outbox_ok mx ox \<Longrightarrow> outbox_ok mx (ox\<lparr>ox_rows := filter P (ox_rows ox)\<rparr>)"
  by (auto simp: outbox_ok_def distinct_map_filter)

text \<open>No text of a decoding error is the mark of a permanent failure.\<close>

definition honest_errors :: "('h, 'w) bus_env \<Rightarrow> bool" where
  "honest_errors env \<longleftrightarrow> (\<forall>j e. be_load env j = Inl e \<longrightarrow> take 1024 e \<noteq> ''max_attempts_exceeded'')"

lemma dispatch_error_honest:
  assumes "honest_errors env" "entry_fails env bus mx r e"
  shows "e = ''max_attempts_exceeded'' \<longleftrightarrow> ob_attempts r \<ge> mx"
proof (cases "ob_attempts r \<ge> mx")
  case False
  then obtain w where w: "fst (dispatch_entry env bus mx r w) = Some e" using assms(2) by (auto simp: entry_fails_def)
  have "take 1024 (quoted s @ u) \<noteq> ''max_attempts_exceeded''" for s u by (simp add: quoted_def)
  with w False assms(1) show ?thesis
    by (auto simp: dispatch_entry_def honest_errors_def Let_def split: option.splits sum.splits prod.splits if_splits)
qed (use assms(2) in \<open>simp add: entry_fails_def\<close>)

lemma poll_once_ok:
  assumes "honest_errors env" "outbox_ok (po_max_attempts po) ox"
  shows "outbox_ok (po_max_attempts po) (fst (poll_once env bus po now (ox, w)))"
proof -
  obtain ox' w' where p: "poll_once env bus po now (ox, w) = (ox', w')" by fastforce
  have d: "distinct (map ob_id (ox_rows ox))" using assms(2) by (simp add: outbox_ok_def)
  from p d show ?thesis
  proof (cases rule: poll_once_rows)
    case Idle
    with p assms(2) show ?thesis by simp
  next
    case (Polled snaps ds fs)
    have sub: "set snaps \<subseteq> set (ox_rows ox)" using Polled(1) by auto
    have "row_ok (po_max_attempts po) (settle_row now ds fs r)" if r: "r \<in> set (ox_rows ox)" for r
    proof -
      have ok: "row_ok (po_max_attempts po) r" using assms(2) r by (simp add: outbox_ok_def)
      have pend: "r \<in> set snaps \<Longrightarrow> ob_status r = ''pending''" using Polled(1) by (auto simp: is_pending_def)
      show ?thesis
      proof (cases rule: settle_row_cases[OF Polled(4,5) sub d r, where now = now, case_names Same Delivered Failed])
        case Same
        with ok show ?thesis by simp
      next
        case Delivered
        then show ?thesis by (simp add: row_ok_def deliver_row_def)
      next
        case (Failed e)
        with ok pend dispatch_error_honest[OF assms(1) Failed(3)] show ?thesis by (auto simp: row_ok_def fail_row_def)
      qed
    qed
    then have "outbox_ok (po_max_attempts po) ox'" using assms(2) Polled(3) by (simp add: outbox_ok_def o_def)
    with p show ?thesis by simp
  qed
qed

lemma outbox_history_ok:
  assumes "outbox_history env bus po st" "honest_errors env"
  shows "outbox_ok (po_max_attempts po) (fst st)"
  using assms(1)
proof (induction rule: outbox_history.induct)
  case (emitted st t tenant d corr now fresh)
  then show ?case by (cases st) (simp add: emit_persistent_def Let_def outbox_ok_write)
next
  case (batch st events now freshes)
  have "outbox_ok mx ox \<Longrightarrow> outbox_ok mx (foldl (\<lambda>ox (t, tenant, d, c). outbox_write tenant (f t) (g t tenant d c) c now ox) ox ps)"
    for mx ox f g and ps :: "(event_type \<times> string \<times> json \<times> string) list"
    by (induction ps arbitrary: ox) (auto simp: outbox_ok_write)
  with batch show ?case by (cases st) (simp add: emit_persistent_batch_def Let_def)
next
  case (polled st now)
  then show ?case using poll_once_ok[OF assms(2)] by (cases st) simp
next
  case (cleaned ox w now)
  then show ?case by (simp add: cleanup_def cleanup_failed_def cleanup_delivered_def Let_def outbox_ok_filter[of _ "ox\<lparr>ox_rows := _\<rparr>", simplified] outbox_ok_filter)
qed (simp_all add: outbox_ok_def)

text \<open>Whatever is emitted, polled, interrupted or cleaned up, and however the handlers end: an entry stays pending for at most
  \<open>max_attempts\<close> failed deliveries, is marked failed only after exactly that many (the poll that gives up adds one more to the
  count), and is marked delivered only by a delivery before that; identifiers stay unique.\<close>

theorem outbox_attempts_bounded:
  assumes "outbox_history env bus po (ox, w)" "honest_errors env" "r \<in> set (ox_rows ox)"
  shows "(ob_status r = ''pending'' \<and> ob_attempts r \<le> po_max_attempts po \<or>
      ob_status r = ''delivered'' \<and> ob_delivered_at r \<noteq> None \<and> ob_attempts r < po_max_attempts po \<or>
      ob_status r = ''failed'' \<and> ob_attempts r = po_max_attempts po + 1) \<and>
     distinct (map ob_id (ox_rows ox))"
  using outbox_history_ok[OF assms(1,2)] assms(3) by (auto simp: outbox_ok_def row_ok_def)

text \<open>C13: Polling drains any outbox: if nothing more is written, then after as many polls as there are deliveries left to try, counting
  one more for each pending entry, no entry is pending, even if every handler fails and even if more entries wait than a batch holds.\<close>

theorem outbox_drains:
  assumes "outbox_history env bus po (ox, w)" "honest_errors env"
  shows "count_pending (ox_rows (fst (polls env bus po clock
    (\<Sum>r\<leftarrow>filter is_pending (ox_rows ox). po_max_attempts po - ob_attempts r + 1) (ox, w)))) = 0"
proof -
  have "distinct (map ob_id (ox_rows (fst (ox, w))))" using outbox_history_ok[OF assms] by (simp add: outbox_ok_def)
  moreover have "outbox_work po (fst (ox, w)) = (\<Sum>r\<leftarrow>filter is_pending (ox_rows ox). po_max_attempts po - ob_attempts r + 1)"
    unfolding outbox_work_def fst_conv sum_list_map_filter' row_work_def by (rule refl)
  ultimately show ?thesis using polls_drain[of "(ox, w)" env bus po clock] by simp
qed

subsection \<open>A persistent event is handled twice\<close>

lemma run_handlers_log:
  assumes "\<And>h p w. be_run env h p w = (Finished, w @ [(h, ep_correlation_id p)])"
  shows "run_handlers env hs p w = (True, w @ map (\<lambda>h. (h, ep_correlation_id p)) hs)"
  by (induction hs arbitrary: w) (simp_all add: assms)

text \<open>In the normal case, in which every handler succeeds, the poll that follows a persistent event runs every matching handler for it a
  second time, with the same correlation identifier: an audit handler records each such event twice.\<close>

theorem persistent_event_handled_twice:
  assumes "\<And>h p w. be_run env h p w = (Finished, w @ [(h, ep_correlation_id p)])" "\<And>p. be_load env (be_dump env p) = Inr p"
    and "0 < po_max_attempts po" "count_pending (ox_rows ox) = 0"
    and "emit_persistent env bus t tenant d (Some corr) now fresh (ox, w) = st1" "corr \<noteq> []"
  shows "snd (poll_once env bus po now' st1) =
    w @ map (\<lambda>h. (h, corr)) (matching_handlers bus t) @ map (\<lambda>h. (h, corr)) (matching_handlers bus t)"
proof -
  let ?p = "\<lparr>ep_event_type = t, ep_tenant_id = tenant, ep_timestamp = now, ep_correlation_id = corr, ep_data = data_or_empty d\<rparr>"
  let ?row = "\<lparr>ob_id = ox_next_id ox, ob_tenant_id = tenant, ob_event_type = event_type_value t, ob_payload = be_dump env ?p,
    ob_correlation_id = corr, ob_status = ''pending'', ob_created_at = now, ob_delivered_at = None, ob_attempts = 0, ob_last_error = None\<rparr>"
  have corr: "opt_or (Some corr) f = corr" for f using assms(6) by (simp add: opt_or_def)
  let ?w1 = "w @ map (\<lambda>h. (h, corr)) (matching_handlers bus t)"
  have emitted: "emit env bus t tenant d (Some corr) now fresh w = ?w1"
    by (simp add: emit_def Let_def corr run_handlers_log[OF assms(1)])
  have st1: "st1 = (\<lparr>ox_rows = ox_rows ox @ [?row], ox_next_id = ox_next_id ox + 1\<rparr>, ?w1)"
    unfolding assms(5)[symmetric] by (simp add: emit_persistent_def corr emitted outbox_write_def)
  have none: "filter is_pending (ox_rows ox) = []" using assms(4) by (simp add: count_pending_def)
  have row: "is_pending ?row" by (simp add: is_pending_def)
  have "dispatch_entry env bus (po_max_attempts po) ?row ?w1 = (None, ?w1 @ map (\<lambda>h. (h, corr)) (matching_handlers bus t))"
    using assms(2)[of ?p] assms(3) by (simp add: dispatch_entry_def run_handlers_log[OF assms(1)])
  then have dispatch: "dispatch_all env bus (po_max_attempts po) [?row] ?w1 =
      (([ox_next_id ox], []), ?w1 @ map (\<lambda>h. (h, corr)) (matching_handlers bus t))" by simp
  have "get_pending (ox_rows ox @ [?row]) (adaptive_limit (count_pending (ox_rows ox @ [?row]))) = [?row]"
    by (simp add: get_pending_def none row adaptive_limit_def)
  then have "snd (poll_once env bus po now' st1) = snd (dispatch_all env bus (po_max_attempts po) [?row] ?w1)"
    unfolding st1 poll_once_def using row by (simp add: count_pending_def Let_def case_prod_beta)
  then show ?thesis unfolding dispatch by simp
qed

subsection \<open>A concrete outbox\<close>

text \<open>Two handlers, of which \<open>fails\<close> says which raise; payloads are their own correlation identifiers.\<close>

definition demo_bus_env :: "(string \<Rightarrow> bool) \<Rightarrow> (string, (string \<times> string) list) bus_env" where
  "demo_bus_env fails =
     \<lparr>be_dump = (\<lambda>p. JList [JStr (event_type_value (ep_event_type p)), JStr (ep_tenant_id p), JInt (ep_timestamp p), JStr (ep_correlation_id p), ep_data p]),
      be_load = (\<lambda>j. case j of
          JList [JStr t, JStr tenant, JInt ts, JStr c, d] \<Rightarrow>
            (case event_type_of t of
               Some ty \<Rightarrow> Inr \<lparr>ep_event_type = ty, ep_tenant_id = tenant, ep_timestamp = ts, ep_correlation_id = c, ep_data = d\<rparr>
             | None \<Rightarrow> Inl ''bad'')
        | _ \<Rightarrow> Inl ''bad''),
      be_run = (\<lambda>h p w. (if fails h then Raised else Finished, w @ [(h, ep_correlation_id p)]))\<rparr>"

definition demo_bus :: "string event_bus" where
  "demo_bus = register_handler (register_handler \<lparr>eb_handlers = []\<rparr> ''audit'' None) ''metrics'' None"

definition demo_poller :: poller where
  "demo_poller = \<lparr>po_max_attempts = 3, po_cleanup_retention_hours = 12\<rparr>"

definition demo_outbox :: "(string \<Rightarrow> bool) \<Rightarrow> outbox \<times> (string \<times> string) list" where
  "demo_outbox fails = emit_persistent (demo_bus_env fails) demo_bus PLAN_APPROVED ''t'' None (Some ''c1'') 5 ''f'' (\<lparr>ox_rows = [], ox_next_id = 1\<rparr>, [])"

lemma demo_honest: "honest_errors (demo_bus_env fails)"
  by (auto simp: honest_errors_def demo_bus_env_def split: json.splits list.splits option.splits)

lemma demo_outbox_history: "outbox_history (demo_bus_env fails) demo_bus demo_poller (demo_outbox fails)"
  unfolding demo_outbox_def by (intro outbox_history.intros)

theorem outbox_attempts_bounded_witness:
  "\<exists>r. outbox_history (demo_bus_env (\<lambda>_. True)) demo_bus demo_poller (demo_outbox (\<lambda>_. True)) \<and>
     ox_rows (fst (demo_outbox (\<lambda>_. True))) = [r] \<and> ob_attempts r \<le> 3"
proof -
  obtain ox w where st: "demo_outbox (\<lambda>_. True) = (ox, w)" by fastforce
  have "length (ox_rows (fst (demo_outbox (\<lambda>_. True)))) = 1 \<and> ob_status (hd (ox_rows (fst (demo_outbox (\<lambda>_. True))))) = ''pending''" by code_simp
  then obtain r where r: "ox_rows ox = [r]" "ob_status r = ''pending''" unfolding st by (cases "ox_rows ox") auto
  from outbox_attempts_bounded[OF demo_outbox_history[of "\<lambda>_. True", unfolded st] demo_honest, of r] r
  have "ob_attempts r \<le> 3" by (simp add: demo_poller_def)
  with r demo_outbox_history[of "\<lambda>_. True"] show ?thesis by (simp add: st)
qed

theorem outbox_drains_witness:
  "count_pending (ox_rows (fst (demo_outbox (\<lambda>h. h = ''metrics'')))) = 1 \<and>
   count_pending (ox_rows (fst (polls (demo_bus_env (\<lambda>h. h = ''metrics'')) demo_bus demo_poller int 4 (demo_outbox (\<lambda>h. h = ''metrics''))))) = 0"
proof -
  let ?f = "\<lambda>h. h = ''metrics''"
  obtain ox w where st: "demo_outbox ?f = (ox, w)" by fastforce
  have "map (\<lambda>r. (is_pending r, ob_attempts r)) (ox_rows (fst (demo_outbox ?f))) = [(True, 0)]" by code_simp
  then obtain r where r: "ox_rows ox = [r]" "is_pending r" "ob_attempts r = 0" unfolding st by auto
  then have four: "(\<Sum>r\<leftarrow>filter is_pending (ox_rows ox). po_max_attempts demo_poller - ob_attempts r + 1) = 4" by (simp add: demo_poller_def)
  note outbox_drains[OF demo_outbox_history[of ?f, unfolded st] demo_honest, of int, unfolded four]
  moreover have "count_pending (ox_rows ox) = 1" using r by (simp add: count_pending_def)
  ultimately show ?thesis unfolding st by simp
qed

theorem persistent_event_handled_twice_witness:
  "snd (poll_once (demo_bus_env (\<lambda>_. False)) demo_bus demo_poller 9 (demo_outbox (\<lambda>_. False))) =
     [(''audit'', ''c1''), (''metrics'', ''c1''), (''audit'', ''c1''), (''metrics'', ''c1'')]"
proof -
  have "matching_handlers demo_bus PLAN_APPROVED = [''audit'', ''metrics'']"
    by (simp add: demo_bus_def register_handler_def matching_handlers_def handlers_for_def)
  moreover have "snd (poll_once (demo_bus_env (\<lambda>_. False)) demo_bus demo_poller 9 (demo_outbox (\<lambda>_. False))) =
    [] @ map (\<lambda>h. (h, ''c1'')) (matching_handlers demo_bus PLAN_APPROVED) @ map (\<lambda>h. (h, ''c1'')) (matching_handlers demo_bus PLAN_APPROVED)"
    by (rule persistent_event_handled_twice[OF _ _ _ _ demo_outbox_def[symmetric]])
      (simp_all add: demo_bus_env_def demo_poller_def count_pending_def)
  ultimately show ?thesis by simp
qed

end
