(* ===== verification/Rate_Limit.thy ===== *)
theory Rate_Limit
  imports Py_Text "HOL-Library.Multiset"
begin

text \<open>
  The rate limiter of the API, \<^verbatim>\<open>api/api/middleware/rate_limit.py\<close>: the sliding-window counter in memory, its counterpart on
  Redis sorted sets, and the middleware that decides on each request. The middleware relies on the locale \<open>window_backend\<close>; the
  in-memory counter interprets it, and \<open>redis_window_backend\<close> shows it of the Redis one under \<open>zset_laws\<close>, the documented effect of
  the commands. Instants are seconds; tasks that only start and stop the clean-up are left out.
\<close>

subsection \<open>The in-memory counter\<close>

type_synonym buckets = "(string \<times> rat list) list"

definition window_seconds :: rat where
  "window_seconds = 60"

text \<open>\<^verbatim>\<open>while bucket and bucket[0] <= cutoff: bucket.popleft()\<close>\<close>

definition prune :: "rat \<Rightarrow> rat list \<Rightarrow> rat list" where
  "prune cutoff bucket = dropWhile (\<lambda>t. t \<le> cutoff) bucket"

definition counter_hit :: "rat \<Rightarrow> buckets \<Rightarrow> rat \<Rightarrow> string \<Rightarrow> nat \<times> buckets" where
  "counter_hit window b now key =
     (let bucket = prune (now - window) (case map_of b key of None \<Rightarrow> [] | Some ts \<Rightarrow> ts) @ [now]
      in (length bucket, dict_set b key bucket))"

definition counter_count :: "rat \<Rightarrow> buckets \<Rightarrow> rat \<Rightarrow> string \<Rightarrow> nat \<times> buckets" where
  "counter_count window b now key =
     (case map_of b key of
        None \<Rightarrow> (0, b)
      | Some ts \<Rightarrow> let bucket = prune (now - window) ts in (length bucket, dict_set b key bucket))"

definition counter_time_until_reset :: "rat \<Rightarrow> buckets \<Rightarrow> rat \<Rightarrow> string \<Rightarrow> rat" where
  "counter_time_until_reset window b now key =
     (case map_of b key of None \<Rightarrow> 0 | Some [] \<Rightarrow> 0 | Some (oldest # _) \<Rightarrow> max (oldest + window - now) 0)"

definition counter_cleanup :: "rat \<Rightarrow> buckets \<Rightarrow> rat \<Rightarrow> buckets" where
  "counter_cleanup window b now =
     (let pruned = map (\<lambda>(k, ts). (k, prune (now - window) ts)) b
      in foldl dict_del pruned (map fst (filter (\<lambda>(k, ts). ts = []) pruned)))"

subsection \<open>The Redis counter\<close>

text \<open>The commands of a sorted set; \<open>rz_zrange\<close> is the whole set in the order of the scores.\<close>

record 'r zsets =
  rz_zremrangebyscore :: "'r \<Rightarrow> rat \<Rightarrow> string \<Rightarrow> rat \<Rightarrow> 'r"
  rz_zadd :: "'r \<Rightarrow> rat \<Rightarrow> string \<Rightarrow> string \<Rightarrow> rat \<Rightarrow> 'r"
  rz_zcard :: "'r \<Rightarrow> rat \<Rightarrow> string \<Rightarrow> nat"
  rz_expire :: "'r \<Rightarrow> rat \<Rightarrow> string \<Rightarrow> int \<Rightarrow> 'r"
  rz_zrange :: "'r \<Rightarrow> rat \<Rightarrow> string \<Rightarrow> (string \<times> rat) list"

definition rl_key :: "string \<Rightarrow> string" where
  "rl_key key = ''rl:'' @ key"

text \<open>\<open>member\<close> is the text of the time followed by a fresh identifier.\<close>

definition redis_hit :: "'r zsets \<Rightarrow> rat \<Rightarrow> 'r \<Rightarrow> rat \<Rightarrow> string \<Rightarrow> string \<Rightarrow> nat \<times> 'r" where
  "redis_hit rz window r now member key =
     (let r1 = rz_zremrangebyscore rz r now (rl_key key) (now - window);
          r2 = rz_zadd rz r1 now (rl_key key) member now;
          n = rz_zcard rz r2 now (rl_key key)
      in (n, rz_expire rz r2 now (rl_key key) (\<lfloor>window\<rfloor> + 2)))"

definition redis_count :: "'r zsets \<Rightarrow> rat \<Rightarrow> 'r \<Rightarrow> rat \<Rightarrow> string \<Rightarrow> nat \<times> 'r" where
  "redis_count rz window r now key =
     (let r1 = rz_zremrangebyscore rz r now (rl_key key) (now - window) in (rz_zcard rz r1 now (rl_key key), r1))"

definition redis_time_until_reset :: "'r zsets \<Rightarrow> rat \<Rightarrow> 'r \<Rightarrow> rat \<Rightarrow> string \<Rightarrow> rat" where
  "redis_time_until_reset rz window r now key =
     (case rz_zrange rz r now (rl_key key) of [] \<Rightarrow> 0 | (_, oldest) # _ \<Rightarrow> max (oldest + window - now) 0)"

subsection \<open>The middleware\<close>

record rate_config =
  rl_enabled :: bool
  rl_default_rpm :: int
  rl_burst_multiplier :: rat
  rl_expensive :: "(string \<times> int) list"
  rl_auth_rpm :: int
  rl_exempt :: "string list"

definition default_rate_config :: rate_config where
  "default_rate_config =
     \<lparr>rl_enabled = True, rl_default_rpm = 60, rl_burst_multiplier = 3 / 2,
      rl_expensive = [(''/api/v1/plans/generate'', 10), (''/api/v1/plans/*/apply'', 5), (''/api/v1/plans/*/augment'', 10),
        (''/api/v1/plans/*/simulate'', 10), (''/api/v1/backfills'', 10), (''/api/v1/simulation/*'', 10)],
      rl_auth_rpm = 20, rl_exempt = [''/api/health'', ''/api/v1/health'', ''/ready'', ''/metrics'']\<rparr>"

text \<open>\<^verbatim>\<open>fnmatch\<close> for patterns without brackets: a star matches any text, a question mark one character.\<close>

fun fnmatch :: "string \<Rightarrow> string \<Rightarrow> bool" where
  "fnmatch [] s = (s = [])"
| "fnmatch (p # ps) s =
     (if p = CHR ''*'' then fnmatch ps s \<or> (case s of [] \<Rightarrow> False | c # cs \<Rightarrow> fnmatch (p # ps) cs)
      else (case s of [] \<Rightarrow> False | c # cs \<Rightarrow> (p = CHR ''?'' \<or> p = c) \<and> fnmatch ps cs))"

text \<open>Who asks: the tenant of the authentication, if any, and the address of the client, if known.\<close>

record rl_request =
  rq_tenant_id :: "string option"
  rq_host :: "string option"
  rq_path :: string

definition client_key :: "rl_request \<Rightarrow> string" where
  "client_key rq =
     (if rq_tenant_id rq \<noteq> None \<and> rq_tenant_id rq \<noteq> Some [] then ''tenant:'' @ the (rq_tenant_id rq)
      else ''ip:'' @ (case rq_host rq of None \<Rightarrow> ''unknown'' | Some h \<Rightarrow> h))"

definition limit_for_path :: "rate_config \<Rightarrow> string \<Rightarrow> int" where
  "limit_for_path cfg path =
     (if path \<in> set (rl_exempt cfg) then 0
      else if starts_with ''/api/auth'' path \<or> starts_with ''/api/v1/auth'' path then rl_auth_rpm cfg
      else case find (\<lambda>(pattern, _). fnmatch pattern path \<or> path = pattern) (rl_expensive cfg) of
             Some (_, limit) \<Rightarrow> limit
           | None \<Rightarrow> rl_default_rpm cfg)"

text \<open>\<^verbatim>\<open>int(x)\<close>, towards zero\<close>

definition py_trunc :: "rat \<Rightarrow> int" where
  "py_trunc x = (if x \<ge> 0 then \<lfloor>x\<rfloor> else \<lceil>x\<rceil>)"

definition effective_burst_limit :: "rate_config \<Rightarrow> int \<Rightarrow> int" where
  "effective_burst_limit cfg base_limit = py_trunc (of_int base_limit * rl_burst_multiplier cfg)"

definition counter_key_of :: "rl_request \<Rightarrow> int \<Rightarrow> string" where
  "counter_key_of rq base_limit = client_key rq @ '':'' @ int_string base_limit"

text \<open>\<open>Forwarded\<close> and \<open>TooMany\<close> hold the rate-limit headers.\<close>

datatype rl_answer =
    Unlimited
  | Forwarded (rl_limit: int) (rl_remaining: int) (rl_reset: int)
  | TooMany (rl_limit: int) (rl_retry_after: int)

text \<open>\<open>later\<close> is the instant at which the downstream response is decorated.\<close>

definition dispatch ::
  "('s \<Rightarrow> rat \<Rightarrow> string \<Rightarrow> nat \<times> 's) \<Rightarrow> ('s \<Rightarrow> rat \<Rightarrow> string \<Rightarrow> rat) \<Rightarrow> rate_config \<Rightarrow> rat \<Rightarrow> rat \<Rightarrow> rat \<Rightarrow> rl_request \<Rightarrow> 's \<Rightarrow>
   rl_answer \<times> 's" where
  "dispatch hit reset cfg now later jitter rq s =
     (if \<not> rl_enabled cfg then (Unlimited, s)
      else let base_limit = limit_for_path cfg (rq_path rq)
           in if base_limit = 0 then (Unlimited, s)
              else
                let burst_limit = effective_burst_limit cfg base_limit;
                    key = counter_key_of rq base_limit;
                    (current_count, s1) = hit s now key
                in if int current_count > burst_limit then
                     (let retry_after_base = max (py_trunc (reset s1 now key) + 1) 1
                      in (TooMany burst_limit (max (py_trunc (of_int retry_after_base * (1 + jitter))) 1), s1))
                   else (Forwarded burst_limit (max (burst_limit - int current_count) 0) (max (py_trunc (reset s1 later key) + 1) 1), s1))"

text \<open>Requests one after the other, each with its instants and its jitter.\<close>

type_synonym timed_request = "rat \<times> rat \<times> rat \<times> rl_request"

fun run_dispatch ::
  "('s \<Rightarrow> rat \<Rightarrow> string \<Rightarrow> nat \<times> 's) \<Rightarrow> ('s \<Rightarrow> rat \<Rightarrow> string \<Rightarrow> rat) \<Rightarrow> rate_config \<Rightarrow> timed_request list \<Rightarrow> 's \<Rightarrow>
   rl_answer list \<times> 's" where
  "run_dispatch hit reset cfg [] s = ([], s)"
| "run_dispatch hit reset cfg ((now, later, jitter, rq) # reqs) s =
     (let (a, s1) = dispatch hit reset cfg now later jitter rq s; (as, s2) = run_dispatch hit reset cfg reqs s1
      in (a # as, s2))"

text \<open>The keys a list of requests hits.\<close>

definition metered :: "rate_config \<Rightarrow> rl_request \<Rightarrow> bool" where
  "metered cfg rq \<longleftrightarrow> rl_enabled cfg \<and> limit_for_path cfg (rq_path rq) \<noteq> 0"

definition request_key :: "rate_config \<Rightarrow> rl_request \<Rightarrow> string" where
  "request_key cfg rq = counter_key_of rq (limit_for_path cfg (rq_path rq))"

definition request_hits :: "rate_config \<Rightarrow> timed_request list \<Rightarrow> (rat \<times> string) list" where
  "request_hits cfg reqs = map (\<lambda>(now, _, _, rq). (now, request_key cfg rq)) (filter (\<lambda>(_, _, _, rq). metered cfg rq) reqs)"

definition request_burst :: "rate_config \<Rightarrow> rl_request \<Rightarrow> int" where
  "request_burst cfg rq = effective_burst_limit cfg (limit_for_path cfg (rq_path rq))"

fun is_forwarded :: "rl_answer \<Rightarrow> bool" where
  "is_forwarded (Forwarded l m r) = True"
| "is_forwarded _ = False"

lemma dispatch_state: "snd (dispatch hit reset cfg now later jitter rq s) = (if metered cfg rq then snd (hit s now (request_key cfg rq)) else s)"
  by (auto simp: dispatch_def metered_def request_key_def Let_def split: prod.splits)

lemma dispatch_forwarded:
  "is_forwarded (fst (dispatch hit reset cfg now later jitter rq s)) \<longleftrightarrow>
     metered cfg rq \<and> int (fst (hit s now (request_key cfg rq))) \<le> request_burst cfg rq"
  by (auto simp: dispatch_def metered_def request_key_def request_burst_def Let_def split: prod.splits)

lemma run_dispatch_append:
  "run_dispatch hit reset cfg (xs @ ys) s =
     (let (as, s1) = run_dispatch hit reset cfg xs s; (bs, s2) = run_dispatch hit reset cfg ys s1 in (as @ bs, s2))"
  by (induction hit reset cfg xs s rule: run_dispatch.induct) (auto simp: Let_def split: prod.splits)

lemma run_dispatch_length: "length (fst (run_dispatch hit reset cfg reqs s)) = length reqs"
  by (induction hit reset cfg reqs s rule: run_dispatch.induct) (auto simp: Let_def split: prod.splits)

lemma length_filter_zip:
  "length ys = length xs \<Longrightarrow> \<forall>p\<in>set (zip xs ys). P p \<longrightarrow> Q (fst p) \<Longrightarrow> length (filter P (zip xs ys)) \<le> length (filter Q xs)"
  by (induction ys xs rule: list_induct2) auto

lemma zip_forwarded:
  "((now, later, jitter, rq), a) \<in> set (zip reqs (fst (run_dispatch hit reset cfg reqs s))) \<Longrightarrow> is_forwarded a \<Longrightarrow> metered cfg rq"
proof (induction hit reset cfg reqs s rule: run_dispatch.induct)
  case (2 hit reset cfg now' later' jitter' rq' reqs s)
  obtain b s1 where d: "dispatch hit reset cfg now' later' jitter' rq' s = (b, s1)" by fastforce
  obtain bs s2 where r: "run_dispatch hit reset cfg reqs s1 = (bs, s2)" by fastforce
  from "2.prems"(1) d r consider "rq = rq'" "a = b" | "((now, later, jitter, rq), a) \<in> set (zip reqs bs)" by auto
  then show ?case
  proof cases
    case 1
    with "2.prems"(2) d dispatch_forwarded[of hit reset cfg now' later' jitter' rq' s] show ?thesis by simp
  next
    case 2
    with "2.IH"[OF d[symmetric] refl] "2.prems"(2) r show ?thesis by simp
  qed
qed simp

lemma run_dispatch_state:
  "snd (run_dispatch hit reset cfg reqs s) = foldl (\<lambda>s (t, k). snd (hit s t k)) s (request_hits cfg reqs)"
proof (induction hit reset cfg reqs s rule: run_dispatch.induct)
  case (2 hit reset cfg now later jitter rq reqs s)
  obtain a s1 where d: "dispatch hit reset cfg now later jitter rq s = (a, s1)" by fastforce
  then have "s1 = (if metered cfg rq then snd (hit s now (request_key cfg rq)) else s)"
    using dispatch_state[of hit reset cfg now later jitter rq s] by simp
  with 2[OF d[symmetric] refl] d show ?case by (auto simp: request_hits_def Let_def split: prod.splits)
qed (simp add: request_hits_def)

subsection \<open>What the middleware relies on\<close>

text \<open>\<open>hits s k\<close> are the times recorded for a key; \<open>ok s now\<close> says that \<open>s\<close> is a state reached by hits up to \<open>now\<close>.\<close>

locale window_backend =
  fixes hits :: "'s \<Rightarrow> rat \<Rightarrow> string \<Rightarrow> rat list"
    and ok :: "'s \<Rightarrow> rat \<Rightarrow> bool"
    and hit :: "'s \<Rightarrow> rat \<Rightarrow> string \<Rightarrow> nat \<times> 's"
    and window :: rat
  assumes hit_count: "ok s now \<Longrightarrow> fst (hit s now k) = length (filter (\<lambda>t. now - window < t) (hits s now k)) + 1"
    and hit_ok: "ok s now \<Longrightarrow> ok (snd (hit s now k)) now"
    and ok_later: "ok s now \<Longrightarrow> now \<le> now' \<Longrightarrow> ok s now'"
    and hit_hits: "ok s now \<Longrightarrow> now \<le> now' \<Longrightarrow>
      filter (\<lambda>t. now' - window < t) (hits (snd (hit s now k)) now' k') =
        filter (\<lambda>t. now' - window < t) (hits s now' k' @ (if k' = k then [now] else []))"
begin

text \<open>The times recorded in the window are those of all hits of the key.\<close>

lemma run_hits:
  assumes "ok s T" "sorted (T # map fst ops)" "\<forall>t\<in>set (map fst ops). t \<le> now" "T \<le> now"
  shows "ok (foldl (\<lambda>s (t, k). snd (hit s t k)) s ops) (last (T # map fst ops)) \<and>
    filter (\<lambda>t. now - window < t) (hits (foldl (\<lambda>s (t, k). snd (hit s t k)) s ops) now k) =
      filter (\<lambda>t. now - window < t) (hits s now k @ map fst (filter (\<lambda>op. snd op = k) ops))"
  using assms
proof (induction ops arbitrary: s T)
  case (Cons op ops)
  obtain t k' where op: "op = (t, k')" by (cases op)
  have ok: "ok s t" using Cons.prems(1,2) ok_later op by auto
  let ?s = "snd (hit s t k')"
  have "ok ?s t" by (rule hit_ok[OF ok])
  from Cons.IH[OF this] Cons.prems(2,3) op have IH: "ok (foldl (\<lambda>s (t, k). snd (hit s t k)) ?s ops) (last (t # map fst ops))"
    "filter (\<lambda>t. now - window < t) (hits (foldl (\<lambda>s (t, k). snd (hit s t k)) ?s ops) now k) =
      filter (\<lambda>t. now - window < t) (hits ?s now k @ map fst (filter (\<lambda>op. snd op = k) ops))" by auto
  have "t \<le> now" using Cons.prems(3) op by simp
  from hit_hits[OF ok this, of k' k] IH op show ?case by auto
qed simp

text \<open>A hit counts every earlier hit of its key in the window.\<close>

lemma hit_after_run:
  assumes "\<forall>now k. hits s now k = []" "ok s T" "sorted (T # map fst ops @ [now])"
  shows "fst (hit (foldl (\<lambda>s (t, k). snd (hit s t k)) s ops) now k) =
    length (filter (\<lambda>op. snd op = k \<and> now - window < fst op) ops) + 1"
proof -
  let ?s = "foldl (\<lambda>s (t, k). snd (hit s t k)) s ops"
  have order: "sorted (T # map fst ops)" "\<forall>t\<in>set (map fst ops). t \<le> now" "T \<le> now" using assms(3) by (auto simp: sorted_append)
  note run = run_hits[OF assms(2) order, of k]
  have "last (T # map fst ops) \<le> now" using order last_in_set[of "T # map fst ops"] by auto
  then have "ok ?s now" using run ok_later by blast
  from hit_count[OF this, of k] run assms(1) show ?thesis
    by (simp add: filter_map o_def conj_commute)
qed

text \<open>A request is forwarded when the hits of its key in the window, itself included, are within the burst limit.\<close>

lemma forwarded_after_run:
  assumes "\<forall>now k. hits s now k = []" "ok s T" "sorted (T # map fst reqs @ [now])"
  shows "is_forwarded (fst (dispatch hit reset cfg now later jitter rq (snd (run_dispatch hit reset cfg reqs s)))) \<longleftrightarrow>
    metered cfg rq \<and>
    int (length (filter (\<lambda>op. snd op = request_key cfg rq \<and> now - window < fst op) (request_hits cfg reqs))) + 1 \<le> request_burst cfg rq"
proof -
  have "set (map fst (request_hits cfg reqs)) \<subseteq> set (map fst reqs)" by (force simp: request_hits_def)
  moreover have "sorted (map fst (request_hits cfg reqs))"
  proof -
    have "map fst (request_hits cfg reqs) = map fst (filter (\<lambda>(_, _, _, rq). metered cfg rq) reqs)"
      by (auto simp: request_hits_def)
    moreover have "sorted (map fst reqs)" using assms(3) by (simp add: sorted_append)
    ultimately show ?thesis by (simp add: sorted_filter)
  qed
  moreover have "\<forall>t\<in>set (map fst reqs). T \<le> t \<and> t \<le> now" "T \<le> now" using assms(3) by (auto simp: sorted_append)
  ultimately have "sorted (map fst (request_hits cfg reqs))" "\<forall>t\<in>set (map fst (request_hits cfg reqs)). T \<le> t \<and> t \<le> now" "T \<le> now"
    by blast+
  then have "sorted (T # map fst (request_hits cfg reqs) @ [now])" by (simp add: sorted_append)
  from hit_after_run[OF assms(1,2) this] show ?thesis
    by (simp add: dispatch_forwarded run_dispatch_state add.commute)
qed

text \<open>In every window, the requests of one client and limit that are forwarded are within the burst limit.\<close>

lemma forwarded_bound:
  assumes "\<forall>now k. hits s now k = []" "ok s T" "sorted (T # map fst reqs)" "0 \<le> window" "0 \<le> effective_burst_limit cfg limit"
  shows "int (length (filter (\<lambda>((now, _, _, rq), a). is_forwarded a \<and> request_key cfg rq = k \<and> limit_for_path cfg (rq_path rq) = limit \<and>
      u - window < now \<and> now \<le> u) (zip reqs (fst (run_dispatch hit reset cfg reqs s))))) \<le> effective_burst_limit cfg limit"
  using assms(3)
proof (induction reqs rule: rev_induct)
  case Nil
  then show ?case using assms(5) by simp
next
  case (snoc req reqs)
  obtain now later jitter rq where req: "req = (now, later, jitter, rq)" by (metis surj_pair)
  let ?P = "\<lambda>((now, _, _, rq), a). is_forwarded a \<and> request_key cfg rq = k \<and> limit_for_path cfg (rq_path rq) = limit \<and>
      u - window < now \<and> now \<le> u"
  obtain as s1 where r: "run_dispatch hit reset cfg reqs s = (as, s1)" by fastforce
  obtain a s2 where d: "dispatch hit reset cfg now later jitter rq s1 = (a, s2)" by fastforce
  have len: "length as = length reqs" using run_dispatch_length[of hit reset cfg reqs s] r by simp
  have all: "filter ?P (zip (reqs @ [req]) (fst (run_dispatch hit reset cfg (reqs @ [req]) s))) =
      filter ?P (zip reqs as) @ (if ?P ((now, later, jitter, rq), a) then [((now, later, jitter, rq), a)] else [])"
    using r d len by (simp add: run_dispatch_append req Let_def)
  have order: "sorted (T # map fst reqs @ [now])" using snoc.prems req by simp
  have IH: "int (length (filter ?P (zip reqs as))) \<le> effective_burst_limit cfg limit"
    using snoc.IH snoc.prems r by (simp add: sorted_append)
  show ?case
  proof (cases "?P ((now, later, jitter, rq), a)")
    case False
    show ?thesis unfolding all if_not_P[OF False] append_Nil2 by (rule IH)
  next
    case True
    from forwarded_after_run[OF assms(1,2) order, of reset cfg later jitter rq] True r d have
      "int (length (filter (\<lambda>op. snd op = k \<and> now - window < fst op) (request_hits cfg reqs))) + 1 \<le> effective_burst_limit cfg limit"
      by (auto simp: request_burst_def)
    moreover have "length (filter ?P (zip reqs as)) \<le> length (filter (\<lambda>op. snd op = k \<and> now - window < fst op) (request_hits cfg reqs))"
    proof -
      have "length (filter ?P (zip reqs as)) \<le>
          length (filter (\<lambda>(t, _, _, rq). metered cfg rq \<and> request_key cfg rq = k \<and> now - window < t) reqs)"
      proof (rule length_filter_zip[OF len], intro ballI impI)
        fix p assume p: "p \<in> set (zip reqs as)" "?P p"
        obtain t l j q b where "p = ((t, l, j, q), b)" by (metis surj_pair)
        then show "case fst p of (t, _, _, rq) \<Rightarrow> metered cfg rq \<and> request_key cfg rq = k \<and> now - window < t"
          using zip_forwarded[of t l j q b reqs hit reset cfg s] p r True by auto
      qed
      also have "\<dots> = length (filter (\<lambda>op. snd op = k \<and> now - window < fst op) (request_hits cfg reqs))"
        by (induction reqs) (auto simp: request_hits_def)
      finally show ?thesis .
    qed
    ultimately show ?thesis unfolding all using True by simp
  qed
qed

end

subsection \<open>The in-memory counter\<close>

definition bucket_hits :: "buckets \<Rightarrow> rat \<Rightarrow> string \<Rightarrow> rat list" where
  "bucket_hits b now key = (case map_of b key of None \<Rightarrow> [] | Some ts \<Rightarrow> ts)"

definition buckets_ok :: "buckets \<Rightarrow> rat \<Rightarrow> bool" where
  "buckets_ok b now \<longleftrightarrow> (\<forall>key. sorted (bucket_hits b now key) \<and> (\<forall>t\<in>set (bucket_hits b now key). t \<le> now))"

lemma bucket_hits_any: "bucket_hits b now key = bucket_hits b now' key"
  by (simp add: bucket_hits_def)

lemma filter_prune: "c \<le> c' \<Longrightarrow> filter (\<lambda>t. c' < t) (prune c ts) = filter (\<lambda>t. c' < t) ts"
  unfolding prune_def by (induction ts) auto

lemma prune_sorted: "sorted ts \<Longrightarrow> prune c ts = filter (\<lambda>t. c < t) ts"
proof (induction ts)
  case (Cons t ts)
  show ?case
  proof (cases "c < t")
    case True
    with Cons.prems have "\<forall>x\<in>set (t # ts). c < x" by auto
    then have "filter (\<lambda>x. c < x) (t # ts) = t # ts" by (simp only: filter_True)
    with True show ?thesis by (simp add: prune_def)
  qed (use Cons in \<open>simp add: prune_def\<close>)
qed (simp add: prune_def)

lemma counter_hit_count: "fst (counter_hit w b now key) = length (prune (now - w) (bucket_hits b now key)) + 1"
  by (simp add: counter_hit_def bucket_hits_def Let_def)

lemma counter_hit_hits:
  "bucket_hits (snd (counter_hit w b now key)) now' k =
     (if k = key then prune (now - w) (bucket_hits b now key) @ [now] else bucket_hits b now' k)"
  by (auto simp: counter_hit_def bucket_hits_def Let_def)

interpretation memory_window: window_backend bucket_hits buckets_ok "counter_hit window_seconds" window_seconds
proof (unfold_locales, goal_cases)
  case (1 s now k)
  then have "sorted (bucket_hits s now k)" by (simp add: buckets_ok_def)
  then show ?case by (simp add: counter_hit_count prune_sorted)
next
  case (2 s now k)
  then have ok: "sorted (bucket_hits s now k')" "\<forall>t\<in>set (bucket_hits s now k'). t \<le> now" for k' by (auto simp: buckets_ok_def)
  then show ?case by (auto simp: buckets_ok_def counter_hit_hits prune_sorted sorted_append sorted_filter[of id, simplified])
next
  case (3 s now now')
  then show ?case unfolding buckets_ok_def using bucket_hits_any[of s now' _ now] by fastforce
next
  case (4 s now now' k k')
  then show ?case by (auto simp: counter_hit_hits filter_prune bucket_hits_any[of s now _ now'])
qed

subsection \<open>The Redis counter\<close>

text \<open>The documented effect of the commands: the set is kept in the order of its scores; members up to the cutoff are removed; a new
  member is added; the key is gone when its time to live has passed; no other key is touched.\<close>

definition zset_laws :: "'r zsets \<Rightarrow> bool" where
  "zset_laws rz \<longleftrightarrow>
     (\<forall>r now k. sorted (map snd (rz_zrange rz r now k)) \<and> rz_zcard rz r now k = length (rz_zrange rz r now k)) \<and>
     (\<forall>r now k c. rz_zrange rz (rz_zremrangebyscore rz r now k c) now k = filter (\<lambda>(m, t). c < t) (rz_zrange rz r now k)) \<and>
     (\<forall>r now k m t. m \<notin> fst ` set (rz_zrange rz r now k) \<longrightarrow>
        mset (rz_zrange rz (rz_zadd rz r now k m t) now k) = add_mset (m, t) (mset (rz_zrange rz r now k))) \<and>
     (\<forall>r now now' k ttl. now \<le> now' \<longrightarrow> 0 < ttl \<longrightarrow>
        rz_zrange rz (rz_expire rz r now k ttl) now' k = (if now' < now + of_int ttl then rz_zrange rz r now k else [])) \<and>
     (\<forall>r now now' k k' c m t ttl. now \<le> now' \<longrightarrow> k' \<noteq> k \<longrightarrow>
        rz_zrange rz (rz_zremrangebyscore rz r now k c) now' k' = rz_zrange rz r now' k' \<and>
        rz_zrange rz (rz_zadd rz r now k m t) now' k' = rz_zrange rz r now' k' \<and>
        rz_zrange rz (rz_expire rz r now k ttl) now' k' = rz_zrange rz r now' k')"

definition zset_hits :: "'r zsets \<Rightarrow> 'r \<Rightarrow> rat \<Rightarrow> string \<Rightarrow> rat list" where
  "zset_hits rz r now key = map snd (rz_zrange rz r now (rl_key key))"

text \<open>Scores lie in the past, and a set only loses scores that have left the window.\<close>

definition zset_ok :: "'r zsets \<Rightarrow> 'r \<Rightarrow> rat \<Rightarrow> bool" where
  "zset_ok rz r T \<longleftrightarrow>
     (\<forall>key now. T \<le> now \<longrightarrow> (\<forall>t\<in>set (zset_hits rz r now key). t \<le> T)) \<and>
     (\<forall>key now now'. T \<le> now \<longrightarrow> now \<le> now' \<longrightarrow>
        filter (\<lambda>t. now' - window_seconds < t) (zset_hits rz r now' key) = filter (\<lambda>t. now' - window_seconds < t) (zset_hits rz r now key))"

text \<open>\<open>fresh\<close> is the member a hit adds.\<close>

definition fresh_members :: "'r zsets \<Rightarrow> ('r \<Rightarrow> rat \<Rightarrow> string \<Rightarrow> string) \<Rightarrow> bool" where
  "fresh_members rz fresh \<longleftrightarrow> (\<forall>r now key. fresh r now key \<notin> fst ` set (rz_zrange rz r now (rl_key key)))"

lemma sorted_mset_eq: "sorted xs \<Longrightarrow> sorted ys \<Longrightarrow> mset xs = mset ys \<Longrightarrow> xs = (ys :: rat list)"
  by (metis properties_for_sort)

lemma redis_hit_hits:
  assumes "zset_laws rz" "fresh_members rz fresh" "zset_ok rz r now" "now \<le> now'"
  shows "zset_hits rz (snd (redis_hit rz window_seconds r now (fresh r now key) key)) now' k =
     (if k = key then (if now' < now + 62 then filter (\<lambda>t. now - window_seconds < t) (zset_hits rz r now key) @ [now] else [])
      else zset_hits rz r now' k)"
    and "fst (redis_hit rz window_seconds r now (fresh r now key) key) =
      length (filter (\<lambda>t. now - window_seconds < t) (zset_hits rz r now key)) + 1"
proof -
  let ?m = "fresh r now key" and ?k = "rl_key key"
  let ?r1 = "rz_zremrangebyscore rz r now ?k (now - window_seconds)"
  let ?r2 = "rz_zadd rz ?r1 now ?k ?m now"
  have z1: "rz_zrange rz ?r1 now ?k = filter (\<lambda>(m, t). now - window_seconds < t) (rz_zrange rz r now ?k)"
    using assms(1) by (simp add: zset_laws_def)
  have "?m \<notin> fst ` set (rz_zrange rz ?r1 now ?k)" using assms(2) unfolding z1 by (force simp: fresh_members_def)
  then have "mset (rz_zrange rz ?r2 now ?k) = add_mset (?m, now) (mset (rz_zrange rz ?r1 now ?k))"
    using assms(1) by (simp add: zset_laws_def)
  then have "image_mset snd (mset (rz_zrange rz ?r2 now ?k)) = image_mset snd (add_mset (?m, now) (mset (rz_zrange rz ?r1 now ?k)))" by simp
  then have "mset (map snd (rz_zrange rz ?r2 now ?k)) = mset (map snd (rz_zrange rz ?r1 now ?k) @ [now])" by simp
  moreover have "map snd (rz_zrange rz ?r1 now ?k) = filter (\<lambda>t. now - window_seconds < t) (zset_hits rz r now key)"
    unfolding z1 zset_hits_def by (simp add: filter_map o_def case_prod_unfold)
  ultimately have m2: "mset (map snd (rz_zrange rz ?r2 now ?k)) = mset (filter (\<lambda>t. now - window_seconds < t) (zset_hits rz r now key) @ [now])" by simp
  have sorted: "sorted (map snd (rz_zrange rz r' now ?k))" for r' using assms(1) by (simp add: zset_laws_def)
  have old: "sorted (zset_hits rz r now key)" "\<forall>t\<in>set (zset_hits rz r now key). t \<le> now"
    using sorted[of r] assms(3) unfolding zset_ok_def by (simp add: zset_hits_def, blast)
  have "sorted (filter (\<lambda>t. now - window_seconds < t) (zset_hits rz r now key) @ [now])"
    using old by (auto simp: sorted_append sorted_filter[of id, simplified])
  from sorted_mset_eq[OF sorted this m2] have
    z2: "map snd (rz_zrange rz ?r2 now ?k) = filter (\<lambda>t. now - window_seconds < t) (zset_hits rz r now key) @ [now]" .
  have ttl: "\<lfloor>window_seconds\<rfloor> + 2 = 62" by (simp add: window_seconds_def)
  have state: "snd (redis_hit rz window_seconds r now ?m key) = rz_expire rz ?r2 now ?k 62"
    unfolding redis_hit_def ttl by (simp add: Let_def)
  have at_key: "rz_zrange rz (rz_expire rz ?r2 now ?k 62) now' ?k = (if now' < now + 62 then rz_zrange rz ?r2 now ?k else [])"
    using assms(1,4) by (simp add: zset_laws_def)
  have other: "rz_zrange rz (rz_expire rz ?r2 now ?k 62) now' (rl_key k) = rz_zrange rz r now' (rl_key k)" if "k \<noteq> key"
  proof -
    have "rl_key k \<noteq> ?k" using that by (simp add: rl_key_def)
    with assms(1,4) show ?thesis unfolding zset_laws_def by metis
  qed
  show "zset_hits rz (snd (redis_hit rz window_seconds r now ?m key)) now' k =
     (if k = key then (if now' < now + 62 then filter (\<lambda>t. now - window_seconds < t) (zset_hits rz r now key) @ [now] else [])
      else zset_hits rz r now' k)"
    unfolding state using at_key other z2 by (simp add: zset_hits_def)
  have "fst (redis_hit rz window_seconds r now ?m key) = length (rz_zrange rz ?r2 now ?k)"
    using assms(1) by (simp add: redis_hit_def Let_def zset_laws_def)
  also have "\<dots> = length (filter (\<lambda>t. now - window_seconds < t) (zset_hits rz r now key)) + 1"
    using arg_cong[where f = length, OF z2] by simp
  finally show "fst (redis_hit rz window_seconds r now ?m key) =
      length (filter (\<lambda>t. now - window_seconds < t) (zset_hits rz r now key)) + 1" .
qed

lemma redis_window_backend:
  assumes "zset_laws rz" "fresh_members rz fresh"
  shows "window_backend (zset_hits rz) (zset_ok rz) (\<lambda>r now key. redis_hit rz window_seconds r now (fresh r now key) key) window_seconds"
proof (unfold_locales, goal_cases)
  case (1 r now key)
  then show ?case by (rule redis_hit_hits(2)[OF assms _ order_refl])
next
  case (2 r now key)
  note h = redis_hit_hits(1)[OF assms 2]
  have past: "\<forall>t\<in>set (zset_hits rz r a k). t \<le> now" if "now \<le> a" for a k using 2 that unfolding zset_ok_def by blast
  have keep: "filter (\<lambda>t. b - window_seconds < t) (zset_hits rz r b k) = filter (\<lambda>t. b - window_seconds < t) (zset_hits rz r a k)"
    if "now \<le> a" "a \<le> b" for a b k using 2 that unfolding zset_ok_def by blast
  have "\<forall>t\<in>set (zset_hits rz (snd (redis_hit rz window_seconds r now (fresh r now key) key)) a k). t \<le> now" if "now \<le> a" for a k
    unfolding h[OF that] using past that by (auto simp: past[OF order_refl])
  moreover have "filter (\<lambda>t. b - window_seconds < t) (zset_hits rz (snd (redis_hit rz window_seconds r now (fresh r now key) key)) b k) =
      filter (\<lambda>t. b - window_seconds < t) (zset_hits rz (snd (redis_hit rz window_seconds r now (fresh r now key) key)) a k)"
    if ab: "now \<le> a" "a \<le> b" for a b k
  proof (cases "k = key \<and> a < now + 62 \<and> \<not> b < now + 62")
    case True
    have "filter (\<lambda>t. b - window_seconds < t) (filter (\<lambda>t. now - window_seconds < t) (zset_hits rz r now key) @ [now]) = []"
      using True past[of now key] by (auto simp: filter_empty_conv window_seconds_def)
    with True show ?thesis using h[OF ab(1)] h[of b] ab by simp
  next
    case False
    with keep[OF ab] show ?thesis using h[OF ab(1)] h[of b] ab by auto
  qed
  ultimately show ?case unfolding zset_ok_def by blast
next
  case (3 r now now')
  have "\<forall>t\<in>set (zset_hits rz r a k). t \<le> now'" if "now' \<le> a" for a k
    using 3 that unfolding zset_ok_def by (meson order_trans)
  with 3 show ?case unfolding zset_ok_def by (meson order_trans)
next
  case (4 r now now' key k)
  have past: "\<forall>t\<in>set (zset_hits rz r now key). t \<le> now" using 4 unfolding zset_ok_def by blast
  have keep: "filter (\<lambda>t. now' - window_seconds < t) (zset_hits rz r now' key) = filter (\<lambda>t. now' - window_seconds < t) (zset_hits rz r now key)"
    using 4 unfolding zset_ok_def by blast
  show ?case
  proof (cases "k = key")
    case True
    have old: "filter (\<lambda>t. now' - window_seconds < t) (filter (\<lambda>t. now - window_seconds < t) (zset_hits rz r now key)) =
        filter (\<lambda>t. now' - window_seconds < t) (zset_hits rz r now key)"
      using 4(2) by (auto intro!: filter_cong)
    have "now' < now + 62 \<or> filter (\<lambda>t. now' - window_seconds < t) (zset_hits rz r now key @ [now]) = []"
      using past by (auto simp: filter_empty_conv window_seconds_def)
    then show ?thesis unfolding redis_hit_hits(1)[OF assms 4] using True keep old by auto
  next
    case False
    then show ?thesis unfolding redis_hit_hits(1)[OF assms 4] by simp
  qed
qed

subsection \<open>What clients get\<close>

text \<open>C14: Whatever requests come in, in time order and from any clients: in every window of a minute, the requests of one client under one
  limit that the middleware forwards are at most the burst limit.\<close>

theorem rate_limit_bound:
  assumes "sorted (map fst reqs)" "0 \<le> effective_burst_limit cfg limit"
  shows "int (length (filter (\<lambda>((now, _, _, rq), a). is_forwarded a \<and> request_key cfg rq = k \<and> limit_for_path cfg (rq_path rq) = limit \<and>
      u - window_seconds < now \<and> now \<le> u)
    (zip reqs (fst (run_dispatch (counter_hit window_seconds) (counter_time_until_reset window_seconds) cfg reqs [])))))
    \<le> effective_burst_limit cfg limit"
proof (rule memory_window.forwarded_bound[OF _ _ _ _ assms(2), of "[]" "case reqs of [] \<Rightarrow> 0 | r # _ \<Rightarrow> fst r"])
  show "sorted ((case reqs of [] \<Rightarrow> 0 | r # _ \<Rightarrow> fst r) # map fst reqs)" using assms(1) by (cases reqs) auto
qed (simp_all add: bucket_hits_def buckets_ok_def window_seconds_def)

text \<open>A metered request is forwarded exactly when the requests of its client under its limit in the last minute, the refused ones
  included, are fewer than the burst limit: a client that keeps asking stays refused, whatever the Retry-After header told it.\<close>

theorem refused_requests_count:
  assumes "zset_laws rz" "fresh_members rz fresh" "\<forall>now key. rz_zrange rz r now key = []"
    and "sorted (map fst reqs @ [now])" "metered cfg rq"
  shows "is_forwarded (fst (dispatch (\<lambda>r now key. redis_hit rz window_seconds r now (fresh r now key) key)
      (redis_time_until_reset rz window_seconds) cfg now later jitter rq
      (snd (run_dispatch (\<lambda>r now key. redis_hit rz window_seconds r now (fresh r now key) key)
        (redis_time_until_reset rz window_seconds) cfg reqs r)))) \<longleftrightarrow>
    int (length (filter (\<lambda>op. snd op = request_key cfg rq \<and> now - window_seconds < fst op) (request_hits cfg reqs))) < request_burst cfg rq"
proof -
  let ?T = "case reqs of [] \<Rightarrow> now | q # _ \<Rightarrow> fst q"
  have "sorted (?T # map fst reqs @ [now])" using assms(4) by (cases reqs) (auto simp: sorted_append)
  moreover have "\<forall>now key. zset_hits rz r now key = []" using assms(3) by (simp add: zset_hits_def)
  moreover have "zset_ok rz r ?T" using assms(3) by (simp add: zset_ok_def zset_hits_def)
  ultimately show ?thesis
    using window_backend.forwarded_after_run[OF redis_window_backend[OF assms(1,2)], of r ?T reqs now] assms(5) by auto
qed

subsection \<open>A Redis of association lists\<close>

type_synonym zset_store = "(string \<times> (string \<times> rat) list \<times> rat option) list"

definition zs_range :: "zset_store \<Rightarrow> rat \<Rightarrow> string \<Rightarrow> (string \<times> rat) list" where
  "zs_range r now k = (case map_of r k of None \<Rightarrow> [] | Some (ms, deadline) \<Rightarrow>
     (case deadline of None \<Rightarrow> sort_key snd ms | Some e \<Rightarrow> if e \<le> now then [] else sort_key snd ms))"

definition list_zsets :: "zset_store zsets" where
  "list_zsets =
     \<lparr>rz_zremrangebyscore = (\<lambda>r now k c. dict_set r k (filter (\<lambda>(m, t). c < t) (zs_range r now k), None)),
      rz_zadd = (\<lambda>r now k m t. dict_set r k (filter (\<lambda>(m', _). m' \<noteq> m) (zs_range r now k) @ [(m, t)], None)),
      rz_zcard = (\<lambda>r now k. length (zs_range r now k)),
      rz_expire = (\<lambda>r now k ttl. dict_set r k (zs_range r now k, Some (now + of_int ttl))),
      rz_zrange = zs_range\<rparr>"

definition long_member :: "zset_store \<Rightarrow> rat \<Rightarrow> string \<Rightarrow> string" where
  "long_member r now key = CHR ''x'' # concat (map fst (zs_range r now (rl_key key)))"

lemma zs_range_simps:
  "zs_range (dict_set r k (ms, None)) now k' = (if k' = k then sort_key snd ms else zs_range r now k')"
  "zs_range (dict_set r k (ms, Some e)) now k' = (if k' = k then (if e \<le> now then [] else sort_key snd ms) else zs_range r now k')"
  by (auto simp: zs_range_def)

lemma zs_range_sorted [simp]: "sorted (map snd (zs_range r now k))"
  by (auto simp: zs_range_def split: option.split)

lemma sort_zs_range [simp]: "sort_key snd (zs_range r now k) = zs_range r now k"
  by (rule sort_key_id_if_sorted) simp

lemma sort_zs_filter [simp]: "sort_key snd (filter P (zs_range r now k)) = filter P (zs_range r now k)"
  by (simp add: filter_sort[symmetric] flip: filter_sort)

lemma filter_absent: "m \<notin> fst ` set xs \<Longrightarrow> filter (\<lambda>(m', _). m' \<noteq> m) xs = xs"
  by (induction xs) auto

lemma list_zsets_laws: "zset_laws list_zsets"
  unfolding zset_laws_def list_zsets_def by (auto simp: zs_range_simps filter_absent simp flip: mset_filter)

lemma long_member_fresh: "fresh_members list_zsets long_member"
proof -
  have "length m \<le> length (concat (map fst xs))" if "m \<in> fst ` set xs" for m and xs :: "(string \<times> rat) list"
  proof -
    from that have "m \<in> set (map fst xs)" by simp
    then obtain ys zs where "map fst xs = ys @ m # zs" by (meson split_list)
    then show ?thesis by simp
  qed
  then show ?thesis by (fastforce simp: fresh_members_def list_zsets_def long_member_def)
qed

text \<open>One request a minute; the client asks at 0, 50 and 100 seconds.\<close>

definition demo_rate_config :: rate_config where
  "demo_rate_config = \<lparr>rl_enabled = True, rl_default_rpm = 1, rl_burst_multiplier = 1, rl_expensive = [], rl_auth_rpm = 1, rl_exempt = []\<rparr>"

definition demo_rl_request :: rl_request where
  "demo_rl_request = \<lparr>rq_tenant_id = Some ''t'', rq_host = None, rq_path = ''/api/v1/models''\<rparr>"

definition demo_requests :: "timed_request list" where
  "demo_requests = [(0, 0, 0, demo_rl_request), (50, 50, 0, demo_rl_request)]"

lemma demo_limit: "limit_for_path demo_rate_config (rq_path demo_rl_request) = 1" "effective_burst_limit demo_rate_config 1 = 1"
  by (simp_all add: limit_for_path_def demo_rate_config_def effective_burst_limit_def py_trunc_def)

lemma demo_metered: "metered demo_rate_config demo_rl_request" "request_burst demo_rate_config demo_rl_request = 1"
  by (simp_all add: metered_def request_burst_def demo_limit) (simp add: demo_rate_config_def)

lemma demo_request_hits: "request_hits demo_rate_config demo_requests =
    [(0, request_key demo_rate_config demo_rl_request), (50, request_key demo_rate_config demo_rl_request)]"
  by (simp add: request_hits_def demo_requests_def demo_metered)

theorem refused_requests_count_witness:
  "\<not> is_forwarded (fst (dispatch (\<lambda>r now key. redis_hit list_zsets window_seconds r now (long_member r now key) key)
      (redis_time_until_reset list_zsets window_seconds) demo_rate_config 100 100 0 demo_rl_request
      (snd (run_dispatch (\<lambda>r now key. redis_hit list_zsets window_seconds r now (long_member r now key) key)
        (redis_time_until_reset list_zsets window_seconds) demo_rate_config demo_requests []))))"
proof -
  have "\<forall>now key. rz_zrange list_zsets [] now key = []" by (simp add: list_zsets_def zs_range_def)
  moreover have "sorted (map fst demo_requests @ [100])" by (simp add: demo_requests_def)
  ultimately show ?thesis
    using refused_requests_count[OF list_zsets_laws long_member_fresh _ _ demo_metered(1)]
    by (simp add: demo_request_hits demo_metered window_seconds_def)
qed

theorem rate_limit_bound_witness:
  "int (length (filter (\<lambda>((now, _, _, rq), a). is_forwarded a \<and> request_key demo_rate_config rq = ''tenant:t:1'' \<and>
      limit_for_path demo_rate_config (rq_path rq) = 1 \<and> 50 - window_seconds < now \<and> now \<le> 50)
    (zip demo_requests (fst (run_dispatch (counter_hit window_seconds) (counter_time_until_reset window_seconds) demo_rate_config demo_requests []))))) \<le> 1"
  using rate_limit_bound[of demo_requests demo_rate_config 1 "''tenant:t:1''" 50]
  by (simp add: demo_limit demo_requests_def)

end
