(* ===== verification/Login_Limits.thy ===== *)
theory Login_Limits
  imports Py_Text "HOL-Library.Countable"
begin

text \<open>
  Brute-force protection of logins, \<^verbatim>\<open>api/api/middleware/login_rate_limiter.py\<close>: the in-memory store, the Redis store, and
  the limiter that prefers Redis and falls back. What the routes rely on is the locale \<open>login_backend\<close>, interpreted on both
  stores. Redis is the record \<open>redis\<close> of the four commands the code sends, with their documented effect as \<open>redis_laws\<close>;
  a field of a hash is a text, read and written with \<^verbatim>\<open>int\<close>, \<^verbatim>\<open>float\<close> and \<^verbatim>\<open>str\<close>. Instants are seconds.
\<close>

subsection \<open>Attempts and the backoff schedule\<close>

definition backoff_schedule :: "rat list" where
  "backoff_schedule = [30, 60, 120, 240, 900]"

definition max_attempts_before_lockout :: nat where
  "max_attempts_before_lockout = 5"

record attempt_record =
  at_failed_count :: nat
  at_last_failed_at :: rat
  at_locked_until :: rat

definition no_attempts :: attempt_record where
  "no_attempts = \<lparr>at_failed_count = 0, at_last_failed_at = 0, at_locked_until = 0\<rparr>"

definition backoff_of :: "nat \<Rightarrow> rat" where
  "backoff_of failed_count = backoff_schedule ! (min (failed_count - max_attempts_before_lockout) (length backoff_schedule - 1))"

text \<open>The answer of a check: allowed, and the seconds to wait.\<close>

definition check_record :: "rat \<Rightarrow> attempt_record \<Rightarrow> bool \<times> int" where
  "check_record now r = (if at_locked_until r > now then (False, \<lfloor>at_locked_until r - now\<rfloor> + 1) else (True, 0))"

definition count_failure :: "rat \<Rightarrow> attempt_record \<Rightarrow> attempt_record" where
  "count_failure now r =
     (let n = at_failed_count r + 1
      in \<lparr>at_failed_count = n, at_last_failed_at = now,
          at_locked_until = (if n \<ge> max_attempts_before_lockout then now + backoff_of n else at_locked_until r)\<rparr>)"

subsection \<open>The in-memory store\<close>

type_synonym login_key = "string \<times> string"

definition memory_key :: "string \<Rightarrow> string \<Rightarrow> login_key" where
  "memory_key email client_ip = (py_strip (py_lower email), client_ip)"

type_synonym login_memory = "(login_key \<times> attempt_record) list"

text \<open>\<^verbatim>\<open>self._attempts[key]\<close> of a \<^verbatim>\<open>defaultdict\<close>: a missing key is added with an empty record.\<close>

definition touch :: "login_memory \<Rightarrow> login_key \<Rightarrow> attempt_record \<times> login_memory" where
  "touch mem k = (case map_of mem k of Some r \<Rightarrow> (r, mem) | None \<Rightarrow> (no_attempts, dict_set mem k no_attempts))"

definition mem_check :: "rat \<Rightarrow> login_key \<Rightarrow> login_memory \<Rightarrow> (bool \<times> int) \<times> login_memory" where
  "mem_check now k mem = (let (r, mem) = touch mem k in (check_record now r, mem))"

text \<open>The clock is read twice: for the time of the failure and for the lock.\<close>

definition mem_record_failure :: "rat \<Rightarrow> rat \<Rightarrow> login_key \<Rightarrow> login_memory \<Rightarrow> login_memory" where
  "mem_record_failure now later k mem =
     (let (r, mem) = touch mem k;
          r = r\<lparr>at_failed_count := at_failed_count r + 1, at_last_failed_at := now\<rparr>;
          r = (if at_failed_count r \<ge> max_attempts_before_lockout
               then r\<lparr>at_locked_until := later + backoff_of (at_failed_count r)\<rparr> else r)
      in dict_set mem k r)"

definition mem_record_success :: "login_key \<Rightarrow> login_memory \<Rightarrow> login_memory" where
  "mem_record_success k mem = (if map_of mem k = None then mem else dict_del mem k)"

definition cleanup_stale :: "rat \<Rightarrow> rat \<Rightarrow> login_memory \<Rightarrow> login_memory" where
  "cleanup_stale now max_age mem =
     foldl dict_del mem (map fst (filter (\<lambda>(k, r). now - at_last_failed_at r > max_age \<and> at_locked_until r < now) mem))"

subsection \<open>The Redis store\<close>

record 'r redis =
  rd_hgetall :: "'r \<Rightarrow> rat \<Rightarrow> string \<Rightarrow> (string \<times> string) list"
  rd_hset :: "'r \<Rightarrow> rat \<Rightarrow> string \<Rightarrow> (string \<times> string) list \<Rightarrow> 'r"
  rd_expire :: "'r \<Rightarrow> rat \<Rightarrow> string \<Rightarrow> int \<Rightarrow> 'r"
  rd_delete :: "'r \<Rightarrow> rat \<Rightarrow> string \<Rightarrow> 'r"

text \<open>\<^verbatim>\<open>str(x)\<close> and \<^verbatim>\<open>float(s)\<close> of a float.\<close>

record float_text =
  ft_show :: "rat \<Rightarrow> string"
  ft_read :: "string \<Rightarrow> rat"

definition redis_ttl :: int where
  "redis_ttl = 3600"

definition redis_key :: "string \<Rightarrow> string \<Rightarrow> string" where
  "redis_key email client_ip = ''login_rl'' @ '':'' @ py_strip (py_lower email) @ '':'' @ client_ip"

definition field_float :: "float_text \<Rightarrow> (string \<times> string) list \<Rightarrow> string \<Rightarrow> rat" where
  "field_float ft d f = (case map_of d f of None \<Rightarrow> 0 | Some s \<Rightarrow> ft_read ft s)"

text \<open>\<^verbatim>\<open>int(data.get("failed_count", 0))\<close>; the text is always one the code wrote.\<close>

definition field_count :: "(string \<times> string) list \<Rightarrow> nat" where
  "field_count d = (case map_of d ''failed_count'' of None \<Rightarrow> 0 | Some s \<Rightarrow> (case py_int s of None \<Rightarrow> 0 | Some i \<Rightarrow> nat i))"

definition redis_check :: "'r redis \<Rightarrow> float_text \<Rightarrow> rat \<Rightarrow> string \<Rightarrow> 'r \<Rightarrow> bool \<times> int" where
  "redis_check rd ft now k r =
     (let d = rd_hgetall rd r now k
      in if d = [] then (True, 0)
         else let locked_until = field_float ft d ''locked_until''
              in if locked_until > now then (False, \<lfloor>locked_until - now\<rfloor> + 1) else (True, 0))"

definition redis_record_failure :: "'r redis \<Rightarrow> float_text \<Rightarrow> rat \<Rightarrow> string \<Rightarrow> 'r \<Rightarrow> 'r" where
  "redis_record_failure rd ft now k r =
     (let d = rd_hgetall rd r now k;
          failed_count = field_count d + 1;
          locked_until = (if failed_count \<ge> max_attempts_before_lockout then now + backoff_of failed_count
                          else field_float ft d ''locked_until'');
          mapping = [(''failed_count'', int_string (int failed_count)), (''last_failed_at'', ft_show ft now),
                     (''locked_until'', ft_show ft locked_until)]
      in rd_expire rd (rd_hset rd r now k mapping) now k redis_ttl)"

definition redis_record_success :: "'r redis \<Rightarrow> rat \<Rightarrow> string \<Rightarrow> 'r \<Rightarrow> 'r" where
  "redis_record_success rd now k r = rd_delete rd r now k"

subsection \<open>The limiter\<close>

text \<open>\<open>up\<close> says whether Redis answers the call; a call it does not answer goes to the in-memory store.\<close>

record 'r login_limiter =
  ll_redis :: "'r option"
  ll_memory :: login_memory

definition check_rate_limit ::
  "'r redis \<Rightarrow> float_text \<Rightarrow> bool \<Rightarrow> rat \<Rightarrow> string \<Rightarrow> string \<Rightarrow> 'r login_limiter \<Rightarrow> (bool \<times> int) \<times> 'r login_limiter" where
  "check_rate_limit rd ft up now email ip l =
     (case (ll_redis l, up) of
        (Some r, True) \<Rightarrow> (redis_check rd ft now (redis_key email ip) r, l)
      | _ \<Rightarrow> (let (res, mem) = mem_check now (memory_key email ip) (ll_memory l) in (res, l\<lparr>ll_memory := mem\<rparr>)))"

definition record_failure ::
  "'r redis \<Rightarrow> float_text \<Rightarrow> bool \<Rightarrow> rat \<Rightarrow> string \<Rightarrow> string \<Rightarrow> 'r login_limiter \<Rightarrow> 'r login_limiter" where
  "record_failure rd ft up now email ip l =
     (case (ll_redis l, up) of
        (Some r, True) \<Rightarrow> l\<lparr>ll_redis := Some (redis_record_failure rd ft now (redis_key email ip) r)\<rparr>
      | _ \<Rightarrow> l\<lparr>ll_memory := mem_record_failure now now (memory_key email ip) (ll_memory l)\<rparr>)"

definition record_success ::
  "'r redis \<Rightarrow> bool \<Rightarrow> rat \<Rightarrow> string \<Rightarrow> string \<Rightarrow> 'r login_limiter \<Rightarrow> 'r login_limiter" where
  "record_success rd up now email ip l =
     (case (ll_redis l, up) of
        (Some r, True) \<Rightarrow> l\<lparr>ll_redis := Some (redis_record_success rd now (redis_key email ip) r)\<rparr>
      | _ \<Rightarrow> l\<lparr>ll_memory := mem_record_success (memory_key email ip) (ll_memory l)\<rparr>)"

subsection \<open>Runs of attempts\<close>

datatype 'k login_op = Checked rat 'k | Failed rat 'k | Succeeded rat 'k

fun op_time :: "'k login_op \<Rightarrow> rat" where
  "op_time (Checked t k) = t"
| "op_time (Failed t k) = t"
| "op_time (Succeeded t k) = t"

fun run_login ::
  "('s \<Rightarrow> rat \<Rightarrow> 'k \<Rightarrow> (bool \<times> int) \<times> 's) \<Rightarrow> ('s \<Rightarrow> rat \<Rightarrow> 'k \<Rightarrow> 's) \<Rightarrow> ('s \<Rightarrow> rat \<Rightarrow> 'k \<Rightarrow> 's) \<Rightarrow> 'k login_op \<Rightarrow> 's \<Rightarrow> 's" where
  "run_login check failure success (Checked t k) s = snd (check s t k)"
| "run_login check failure success (Failed t k) s = failure s t k"
| "run_login check failure success (Succeeded t k) s = success s t k"

primrec run_logins ::
  "('s \<Rightarrow> rat \<Rightarrow> 'k \<Rightarrow> (bool \<times> int) \<times> 's) \<Rightarrow> ('s \<Rightarrow> rat \<Rightarrow> 'k \<Rightarrow> 's) \<Rightarrow> ('s \<Rightarrow> rat \<Rightarrow> 'k \<Rightarrow> 's) \<Rightarrow> 'k login_op list \<Rightarrow> 's \<Rightarrow> 's" where
  "run_logins check failure success [] s = s"
| "run_logins check failure success (op # ops) s = run_logins check failure success ops (run_login check failure success op s)"

text \<open>The failures of a key since its last success, and the time of the last; \<open>stale\<close> ends a row of failures.\<close>

fun streak_step :: "(rat \<Rightarrow> rat \<Rightarrow> bool) \<Rightarrow> 'k \<Rightarrow> 'k login_op \<Rightarrow> nat \<times> rat \<Rightarrow> nat \<times> rat" where
  "streak_step stale k (Checked t k') acc = acc"
| "streak_step stale k (Failed t k') acc =
     (if k' \<noteq> k then acc else if stale (snd acc) t then (1, t) else (fst acc + 1, t))"
| "streak_step stale k (Succeeded t k') acc = (if k' = k then (0, 0) else acc)"

primrec streak :: "(rat \<Rightarrow> rat \<Rightarrow> bool) \<Rightarrow> 'k \<Rightarrow> 'k login_op list \<Rightarrow> nat \<times> rat \<Rightarrow> nat \<times> rat" where
  "streak stale k [] acc = acc"
| "streak stale k (op # ops) acc = streak stale k ops (streak_step stale k op acc)"

definition streak_record :: "(rat \<Rightarrow> rat \<Rightarrow> bool) \<Rightarrow> nat \<times> rat \<Rightarrow> rat \<Rightarrow> attempt_record" where
  "streak_record stale acc now =
     (if fst acc = 0 \<or> stale (snd acc) now then no_attempts
      else \<lparr>at_failed_count = fst acc, at_last_failed_at = snd acc,
            at_locked_until = (if fst acc \<ge> 5 then snd acc + backoff_of (fst acc) else 0)\<rparr>)"

text \<open>Five failures in a row lock the key until the backoff has passed since the last.\<close>

definition lockout_answer :: "rat \<Rightarrow> nat \<times> rat \<Rightarrow> bool \<times> int" where
  "lockout_answer now acc =
     (if fst acc \<ge> 5 \<and> now < snd acc + backoff_of (fst acc) then (False, \<lfloor>snd acc + backoff_of (fst acc) - now\<rfloor> + 1) else (True, 0))"

lemma backoff_bounds: "30 \<le> backoff_of n" "backoff_of n \<le> 900"
proof -
  have "min (n - max_attempts_before_lockout) (length backoff_schedule - 1) < length backoff_schedule" by (simp add: backoff_schedule_def)
  then have "backoff_of n \<in> set backoff_schedule" unfolding backoff_of_def by (rule nth_mem)
  then show "30 \<le> backoff_of n" "backoff_of n \<le> 900" by (auto simp: backoff_schedule_def)
qed

subsection \<open>What a store promises\<close>

text \<open>
  \<open>attempts s now k\<close> is what the store knows of a key; \<open>stale t now\<close> says that an entry last written at \<open>t\<close> may be forgotten,
  which never happens before the longest lock has ended.
\<close>

locale login_backend =
  fixes attempts :: "'s \<Rightarrow> rat \<Rightarrow> 'k \<Rightarrow> attempt_record"
    and check :: "'s \<Rightarrow> rat \<Rightarrow> 'k \<Rightarrow> (bool \<times> int) \<times> 's"
    and failure :: "'s \<Rightarrow> rat \<Rightarrow> 'k \<Rightarrow> 's"
    and success :: "'s \<Rightarrow> rat \<Rightarrow> 'k \<Rightarrow> 's"
    and stale :: "rat \<Rightarrow> rat \<Rightarrow> bool"
  assumes check_answer: "0 \<le> now \<Longrightarrow> fst (check s now k) = check_record now (attempts s now k)"
    and check_frame: "attempts (snd (check s now k)) now' k' = attempts s now' k'"
    and failure_key: "now \<le> now' \<Longrightarrow>
      attempts (failure s now k) now' k' =
        (if k' = k then (if stale now now' then no_attempts else count_failure now (attempts s now k)) else attempts s now' k')"
    and success_key: "now \<le> now' \<Longrightarrow> attempts (success s now k) now' k' = (if k' = k then no_attempts else attempts s now' k')"
    and stale_later: "stale t now \<Longrightarrow> now \<le> now' \<Longrightarrow> stale t now'"
    and stale_unlocked: "stale t now \<Longrightarrow> t + 900 \<le> now"
begin

text \<open>What a check knows after a run: the failures in a row and the last of them.\<close>

lemma attempts_run:
  assumes "\<forall>now\<ge>T. attempts s now k = streak_record stale acc now" "sorted (T # map op_time ops)"
  shows "\<forall>now\<ge>last (T # map op_time ops).
    attempts (run_logins check failure success ops s) now k = streak_record stale (streak stale k ops acc) now"
  using assms
proof (induction ops arbitrary: T s acc)
  case (Cons op ops)
  let ?s = "run_login check failure success op s" and ?acc = "streak_step stale k op acc"
  have T: "T \<le> op_time op" using Cons.prems(2) by simp
  have "attempts ?s now k = streak_record stale ?acc now" if now: "op_time op \<le> now" for now
  proof (cases op)
    case (Checked t k')
    with Cons.prems(1) T now show ?thesis by (simp add: check_frame)
  next
    case (Failed t k')
    show ?thesis
    proof (cases "k' = k")
      case True
      have "attempts s t k = streak_record stale acc t" using Cons.prems(1) T Failed by simp
      with Failed True now show ?thesis
        by (cases acc) (auto simp: failure_key streak_record_def count_failure_def no_attempts_def Let_def max_attempts_before_lockout_def)
    next
      case False
      with Failed Cons.prems(1) T now show ?thesis by (simp add: failure_key)
    qed
  next
    case (Succeeded t k')
    with Cons.prems(1) T now show ?thesis by (auto simp: success_key streak_record_def)
  qed
  from Cons.IH[of "op_time op" ?s ?acc] this Cons.prems(2) show ?case by simp
qed simp

lemma lockout:
  assumes "\<forall>now k. attempts s now k = no_attempts" "sorted (map op_time ops)" "\<forall>t\<in>set (map op_time ops). 0 \<le> t \<and> t \<le> now" "0 \<le> now"
  shows "fst (check (run_logins check failure success ops s) now k) = lockout_answer now (streak stale k ops (0, 0))"
proof -
  have "attempts (run_logins check failure success ops s) now k = streak_record stale (streak stale k ops (0, 0)) now"
  proof (cases ops)
    case Nil
    with assms(1) show ?thesis by (simp add: streak_record_def)
  next
    case (Cons op ops')
    have "\<forall>now\<ge>op_time op. attempts s now k = streak_record stale (0, 0) now" using assms(1) by (simp add: streak_record_def)
    from attempts_run[OF this, of ops] have "\<forall>now\<ge>last (op_time op # map op_time ops).
        attempts (run_logins check failure success ops s) now k = streak_record stale (streak stale k ops (0, 0)) now"
      using assms(2) Cons by simp
    moreover have "last (op_time op # map op_time ops) \<le> now" using assms(3) Cons last_in_set[of "op_time op # map op_time ops"] by auto
    ultimately show ?thesis by blast
  qed
  moreover obtain n t where acc: "streak stale k ops (0, 0) = (n, t)" by fastforce
  ultimately have a: "attempts (run_logins check failure success ops s) now k = streak_record stale (n, t) now" by simp
  show ?thesis
    unfolding check_answer[OF assms(4)] a acc
    using stale_unlocked[of t now] backoff_bounds(2)[of n] assms(4)
    by (auto simp: streak_record_def lockout_answer_def check_record_def no_attempts_def max_attempts_before_lockout_def)
qed

end

subsection \<open>The in-memory store keeps the promise\<close>

definition mem_attempts :: "login_memory \<Rightarrow> rat \<Rightarrow> login_key \<Rightarrow> attempt_record" where
  "mem_attempts mem now k = (case map_of mem k of None \<Rightarrow> no_attempts | Some r \<Rightarrow> r)"

interpretation memory: login_backend mem_attempts "\<lambda>s now k. mem_check now k s" "\<lambda>s now k. mem_record_failure now now k s"
  "\<lambda>s now k. mem_record_success k s" "\<lambda>t now. False"
  by unfold_locales
    (auto simp: mem_attempts_def mem_check_def mem_record_failure_def mem_record_success_def touch_def count_failure_def Let_def
      split: option.splits)

text \<open>Cleaning up never ends a lock.\<close>

lemma map_of_dict_dels: "map_of (foldl dict_del d ks) k = (if k \<in> set ks then None else map_of d k)"
  by (induction ks arbitrary: d) auto

lemma cleanup_keeps_locks:
  assumes "dict_ok mem" "0 \<le> now"
  shows "fst (mem_check now k (cleanup_stale now max_age mem)) = fst (mem_check now k mem)"
proof (cases "map_of mem k")
  case None
  then show ?thesis by (simp add: mem_check_def touch_def cleanup_stale_def map_of_dict_dels)
next
  case (Some r)
  let ?gone = "map fst (filter (\<lambda>(k, r). now - at_last_failed_at r > max_age \<and> at_locked_until r < now) mem)"
  have after: "map_of (cleanup_stale now max_age mem) k = (if k \<in> set ?gone then None else Some r)"
    by (simp only: cleanup_stale_def map_of_dict_dels Some)
  show ?thesis
  proof (cases "k \<in> set ?gone")
    case True
    then obtain r' where "(k, r') \<in> set mem" "at_locked_until r' < now" by auto
    then have "at_locked_until r < now" using Some map_of_SomeI[OF assms(1)] by fastforce
    with True after Some assms(2) show ?thesis by (simp add: mem_check_def touch_def check_record_def no_attempts_def)
  next
    case False
    with after Some show ?thesis by (simp add: mem_check_def touch_def)
  qed
qed

subsection \<open>The Redis store keeps it too\<close>

text \<open>What the documentation of Redis says of the commands, as sent: fields are merged, the key is gone after its time to live, and
  no command touches another key. Floats are read back as written.\<close>

definition redis_laws :: "'r redis \<Rightarrow> bool" where
  "redis_laws rd \<longleftrightarrow>
     (\<forall>r now k m ttl now' k'. now \<le> now' \<longrightarrow> 0 < ttl \<longrightarrow>
        map_of (rd_hgetall rd (rd_expire rd (rd_hset rd r now k m) now k ttl) now' k') =
          (if k' = k then (if now' < now + of_int ttl then map_of (rd_hgetall rd r now k) ++ map_of m else Map.empty)
           else map_of (rd_hgetall rd r now' k'))) \<and>
     (\<forall>r now k now' k'. now \<le> now' \<longrightarrow>
        map_of (rd_hgetall rd (rd_delete rd r now k) now' k') = (if k' = k then Map.empty else map_of (rd_hgetall rd r now' k')))"

definition float_laws :: "float_text \<Rightarrow> bool" where
  "float_laws ft \<longleftrightarrow> (\<forall>x. ft_read ft (ft_show ft x) = x)"

definition redis_attempts :: "'r redis \<Rightarrow> float_text \<Rightarrow> 'r \<Rightarrow> rat \<Rightarrow> string \<Rightarrow> attempt_record" where
  "redis_attempts rd ft r now k =
     (let d = rd_hgetall rd r now k
      in \<lparr>at_failed_count = field_count d, at_last_failed_at = field_float ft d ''last_failed_at'',
          at_locked_until = field_float ft d ''locked_until''\<rparr>)"

lemma redis_login_backend:
  assumes "redis_laws rd" "float_laws ft"
  shows "login_backend (redis_attempts rd ft) (\<lambda>s now k. (redis_check rd ft now k s, s))
    (\<lambda>s now k. redis_record_failure rd ft now k s) (\<lambda>s now k. redis_record_success rd now k s) (\<lambda>t now. t + 3600 \<le> now)"
proof (unfold_locales, goal_cases)
  case (1 now s k)
  then show ?case by (simp add: redis_check_def redis_attempts_def check_record_def field_float_def Let_def)
next
  case (3 now now' s k k')
  let ?d = "rd_hgetall rd s now k" and ?r = "redis_record_failure rd ft now k s"
  have law: "map_of (rd_hgetall rd ?r now' k') =
      (if k' = k then (if now' < now + 3600 then map_of ?d ++ map_of
         (let failed_count = field_count ?d + 1;
              locked_until = (if failed_count \<ge> max_attempts_before_lockout then now + backoff_of failed_count
                              else field_float ft ?d ''locked_until'')
          in [(''failed_count'', int_string (int failed_count)), (''last_failed_at'', ft_show ft now), (''locked_until'', ft_show ft locked_until)])
         else Map.empty) else map_of (rd_hgetall rd s now' k'))"
    using assms(1) 3 unfolding redis_laws_def redis_record_failure_def Let_def redis_ttl_def by (simp del: map_of.simps)
  have float: "ft_read ft (ft_show ft x) = x" for x using assms(2) by (simp add: float_laws_def)
  have suc: "py_int (int_string (1 + int n)) = Some (1 + int n)" for n
    using py_int_int_string[of "Suc n"] by simp
  have nat_suc: "nat (1 + int n) = Suc n" for n by simp
  show ?case
    by (simp add: redis_attempts_def Let_def field_count_def field_float_def law)
      (simp add: count_failure_def no_attempts_def Let_def field_count_def field_float_def py_int_int_string suc nat_suc float not_less)
next
  case (4 now now' s k k')
  have "map_of (rd_hgetall rd (redis_record_success rd now k s) now' k') = (if k' = k then Map.empty else map_of (rd_hgetall rd s now' k'))"
    using assms(1) 4 unfolding redis_laws_def redis_record_success_def by blast
  then show ?case by (simp add: redis_attempts_def Let_def field_count_def field_float_def no_attempts_def)
qed auto

subsection \<open>When a login is refused\<close>

text \<open>C15: With the in-memory store, after any sequence of checks, failures and successes in time order, a login is refused exactly when
  its key has failed at least five times since its last success and the backoff of that many failures has not passed since
  the last; no other key matters, and the seconds to wait are the whole seconds that remain, plus one.\<close>

theorem memory_lockout_exact:
  assumes "sorted (map op_time ops)" "\<forall>t\<in>set (map op_time ops). 0 \<le> t \<and> t \<le> now" "0 \<le> now"
  shows "fst (mem_check now k (run_logins (\<lambda>s now k. mem_check now k s) (\<lambda>s now k. mem_record_failure now now k s)
      (\<lambda>s now k. mem_record_success k s) ops [])) = lockout_answer now (streak (\<lambda>t now. False) k ops (0, 0))"
  by (rule memory.lockout[OF _ assms]) (simp add: mem_attempts_def)

text \<open>With Redis the same holds of the keys it stores, except that a gap of an hour ends a row of failures; a forgotten row never
  unlocks a key early.\<close>

theorem redis_lockout_exact:
  assumes "redis_laws rd" "float_laws ft" "\<forall>now k. rd_hgetall rd r now k = []"
    and "sorted (map op_time ops)" "\<forall>t\<in>set (map op_time ops). 0 \<le> t \<and> t \<le> now" "0 \<le> now"
  shows "redis_check rd ft now k (run_logins (\<lambda>s now k. (redis_check rd ft now k s, s)) (\<lambda>s now k. redis_record_failure rd ft now k s)
      (\<lambda>s now k. redis_record_success rd now k s) ops r) = lockout_answer now (streak (\<lambda>t now. t + 3600 \<le> now) k ops (0, 0))"
proof -
  have "\<forall>now k. redis_attempts rd ft r now k = no_attempts"
    using assms(3) by (simp add: redis_attempts_def field_count_def field_float_def no_attempts_def)
  from login_backend.lockout[OF redis_login_backend[OF assms(1,2)] this assms(4-6)] show ?thesis by simp
qed

subsection \<open>A Redis of association lists\<close>

type_synonym list_store = "(string \<times> (string \<times> string) list \<times> rat option) list"

definition ls_get :: "list_store \<Rightarrow> rat \<Rightarrow> string \<Rightarrow> (string \<times> string) list" where
  "ls_get r now k = (case map_of r k of None \<Rightarrow> [] | Some (d, deadline) \<Rightarrow>
     (case deadline of None \<Rightarrow> d | Some e \<Rightarrow> if e \<le> now then [] else d))"

definition list_redis :: "list_store redis" where
  "list_redis =
     \<lparr>rd_hgetall = ls_get,
      rd_hset = (\<lambda>r now k m. dict_set r k (foldl (\<lambda>d (f, v). dict_set d f v) (ls_get r now k) (rev m), None)),
      rd_expire = (\<lambda>r now k ttl. dict_set r k (ls_get r now k, Some (now + of_int ttl))),
      rd_delete = (\<lambda>r now k. dict_del r k)\<rparr>"

lemma map_of_fold_set: "map_of (foldl (\<lambda>d (f, v). dict_set d f v) d (rev m)) = map_of d ++ map_of m"
  by (induction m) (auto simp: fun_eq_iff map_add_def split: option.split)

lemma list_redis_laws: "redis_laws list_redis"
  by (auto simp: redis_laws_def list_redis_def ls_get_def map_of_fold_set split: option.splits)

definition demo_float :: float_text where
  "demo_float = \<lparr>ft_show = (\<lambda>x. replicate (to_nat x) CHR ''x''), ft_read = (\<lambda>s. from_nat (length s))\<rparr>"

lemma demo_float_laws: "float_laws demo_float"
  by (simp add: float_laws_def demo_float_def)

definition demo_attempts :: "'k \<Rightarrow> 'k login_op list" where
  "demo_attempts k = map (\<lambda>t. Failed t k) [1, 2, 3, 4, 5]"

theorem memory_lockout_exact_witness:
  "fst (mem_check 20 (memory_key ''U '' ''ip'') (run_logins (\<lambda>s now k. mem_check now k s) (\<lambda>s now k. mem_record_failure now now k s)
      (\<lambda>s now k. mem_record_success k s) (demo_attempts (memory_key ''u'' ''ip'')) [])) = (False, 16)"
proof -
  have key: "memory_key ''U '' ''ip'' = memory_key ''u'' ''ip''" by code_simp
  have "fst (mem_check 20 (memory_key ''u'' ''ip'') (run_logins (\<lambda>s now k. mem_check now k s) (\<lambda>s now k. mem_record_failure now now k s)
      (\<lambda>s now k. mem_record_success k s) (demo_attempts (memory_key ''u'' ''ip'')) [])) =
    lockout_answer 20 (streak (\<lambda>t now. False) (memory_key ''u'' ''ip'') (demo_attempts (memory_key ''u'' ''ip'')) (0, 0))"
    by (rule memory_lockout_exact) (simp_all add: demo_attempts_def)
  also have "\<dots> = (False, 16)"
    by (simp add: demo_attempts_def lockout_answer_def backoff_of_def backoff_schedule_def max_attempts_before_lockout_def)
  finally show ?thesis unfolding key .
qed

theorem redis_lockout_exact_witness:
  "redis_check list_redis demo_float 20 ''k'' (run_logins (\<lambda>s now k. (redis_check list_redis demo_float now k s, s))
     (\<lambda>s now k. redis_record_failure list_redis demo_float now k s) (\<lambda>s now k. redis_record_success list_redis now k s)
     (demo_attempts ''k'') []) = (False, 16)"
proof -
  have "\<forall>now k. rd_hgetall list_redis [] now k = []" by (simp add: list_redis_def ls_get_def)
  then have "redis_check list_redis demo_float 20 ''k'' (run_logins (\<lambda>s now k. (redis_check list_redis demo_float now k s, s))
     (\<lambda>s now k. redis_record_failure list_redis demo_float now k s) (\<lambda>s now k. redis_record_success list_redis now k s)
     (demo_attempts ''k'') []) = lockout_answer 20 (streak (\<lambda>t now. t + 3600 \<le> now) ''k'' (demo_attempts ''k'') (0, 0))"
    by (rule redis_lockout_exact[OF list_redis_laws demo_float_laws]) (simp_all add: demo_attempts_def)
  also have "\<dots> = (False, 16)"
    by (simp add: demo_attempts_def lockout_answer_def backoff_of_def backoff_schedule_def max_attempts_before_lockout_def)
  finally show ?thesis .
qed

end
