(* ===== verification/Retry.thy ===== *)
theory Retry
  imports Prelude
begin

text \<open>
  Retries with exponential backoff, \<^verbatim>\<open>core_engine/core_engine/executor/retry.py\<close>; the two entry points differ only in how they
  sleep. The callable is a function of a state it may change; \<open>draw\<close> gives the random factor of each attempt. The sleeps are returned.
\<close>

record retry_config =
  rc_max_retries :: nat
  rc_base_delay :: rat
  rc_max_delay :: rat
  rc_jitter :: bool

text \<open>The constraints of the fields.\<close>

definition retry_config_ok :: "retry_config \<Rightarrow> bool" where
  "retry_config_ok cfg \<longleftrightarrow> 0 < rc_base_delay cfg \<and> 0 < rc_max_delay cfg"

text \<open>Delays are rational numbers. The program's are floats, and its power of two an unbounded integer that no longer fits a float at attempt 1024,
  where the product raises OverflowError: the model is that of fewer retries.\<close>

definition compute_delay :: "retry_config \<Rightarrow> (nat \<Rightarrow> rat) \<Rightarrow> nat \<Rightarrow> rat" where
  "compute_delay cfg draw attempt =
     (let delay = min (rc_base_delay cfg * 2 ^ attempt) (rc_max_delay cfg) in if rc_jitter cfg then delay * draw attempt else delay)"

fun retry_loop ::
  "('s \<Rightarrow> ('e + 'a) \<times> 's) \<Rightarrow> retry_config \<Rightarrow> ('e \<Rightarrow> bool) \<Rightarrow> (nat \<Rightarrow> rat) \<Rightarrow> nat list \<Rightarrow> 'e option \<Rightarrow> 's \<Rightarrow> rat list \<Rightarrow>
   ('e + 'a) option \<times> 's \<times> rat list" where
  "retry_loop fn cfg retryable draw [] last_exception s slept = (map_option Inl last_exception, s, slept)"
| "retry_loop fn cfg retryable draw (attempt # attempts) last_exception s slept =
     (case fn s of
        (Inr x, s1) \<Rightarrow> (Some (Inr x), s1, slept)
      | (Inl e, s1) \<Rightarrow>
          if \<not> retryable e then (Some (Inl e), s1, slept)
          else if attempt \<ge> rc_max_retries cfg then (Some (Inl e), s1, slept)
          else retry_loop fn cfg retryable draw attempts (Some e) s1 (slept @ [compute_delay cfg draw attempt]))"

text \<open>The outcome \<open>None\<close> would be the failed assertion that an exception was seen.\<close>

definition retry_with_backoff ::
  "('s \<Rightarrow> ('e + 'a) \<times> 's) \<Rightarrow> retry_config \<Rightarrow> ('e \<Rightarrow> bool) \<Rightarrow> (nat \<Rightarrow> rat) \<Rightarrow> 's \<Rightarrow> ('e + 'a) option \<times> 's \<times> rat list" where
  "retry_with_backoff fn cfg retryable draw s = retry_loop fn cfg retryable draw [0..<rc_max_retries cfg + 1] None s []"

text \<open>The state and outcome of the n-th call.\<close>

primrec call_state :: "('s \<Rightarrow> ('e + 'a) \<times> 's) \<Rightarrow> 's \<Rightarrow> nat \<Rightarrow> 's" where
  "call_state fn s 0 = s"
| "call_state fn s (Suc n) = snd (fn (call_state fn s n))"

definition call_outcome :: "('s \<Rightarrow> ('e + 'a) \<times> 's) \<Rightarrow> 's \<Rightarrow> nat \<Rightarrow> 'e + 'a" where
  "call_outcome fn s n = fst (fn (call_state fn s n))"

lemma retry_loop_exact:
  assumes "k \<le> rc_max_retries cfg" "s = call_state fn s0 k" "slept = map (compute_delay cfg draw) [0..<k]"
  shows "\<exists>n. k \<le> n \<and> n \<le> rc_max_retries cfg \<and>
    retry_loop fn cfg retryable draw [k..<rc_max_retries cfg + 1] last_exception s slept =
      (Some (call_outcome fn s0 n), call_state fn s0 (n + 1), map (compute_delay cfg draw) [0..<n]) \<and>
    (\<forall>i. k \<le> i \<and> i < n \<longrightarrow> (\<exists>e. call_outcome fn s0 i = Inl e \<and> retryable e)) \<and>
    (n < rc_max_retries cfg \<longrightarrow> (case call_outcome fn s0 n of Inl e \<Rightarrow> \<not> retryable e | Inr x \<Rightarrow> True))"
  using assms
proof (induction "rc_max_retries cfg - k" arbitrary: k s slept last_exception)
  case 0
  then have k: "k = rc_max_retries cfg" by simp
  have "[k..<rc_max_retries cfg + 1] = [k]" using k by simp
  with 0 k show ?case
    by (intro exI[of _ k]) (auto simp: call_outcome_def split: sum.splits prod.splits)
next
  case (Suc d)
  then have less: "k < rc_max_retries cfg" by simp
  then have upt: "[k..<rc_max_retries cfg + 1] = k # [Suc k..<rc_max_retries cfg + 1]" by (simp add: upt_conv_Cons)
  show ?case
  proof (cases "\<exists>e. call_outcome fn s0 k = Inl e \<and> retryable e")
    case False
    with Suc.prems less show ?thesis unfolding upt
      by (intro exI[of _ k]) (auto simp: call_outcome_def split: sum.splits prod.splits)
  next
    case True
    then obtain e where e: "call_outcome fn s0 k = Inl e" "retryable e" by blast
    then have fn: "fn s = (Inl e, call_state fn s0 (Suc k))" using Suc.prems(2) by (simp add: call_outcome_def prod_eq_iff)
    have "\<exists>n. Suc k \<le> n \<and> n \<le> rc_max_retries cfg \<and>
        retry_loop fn cfg retryable draw [Suc k..<rc_max_retries cfg + 1] (Some e) (call_state fn s0 (Suc k)) (slept @ [compute_delay cfg draw k]) =
          (Some (call_outcome fn s0 n), call_state fn s0 (n + 1), map (compute_delay cfg draw) [0..<n]) \<and>
        (\<forall>i. Suc k \<le> i \<and> i < n \<longrightarrow> (\<exists>e. call_outcome fn s0 i = Inl e \<and> retryable e)) \<and>
        (n < rc_max_retries cfg \<longrightarrow> (case call_outcome fn s0 n of Inl e \<Rightarrow> \<not> retryable e | Inr x \<Rightarrow> True))"
      using Suc.hyps(2) less Suc.prems(3) by (intro Suc.hyps(1)) auto
    then obtain n where n: "Suc k \<le> n" "n \<le> rc_max_retries cfg"
        "retry_loop fn cfg retryable draw [Suc k..<rc_max_retries cfg + 1] (Some e) (call_state fn s0 (Suc k)) (slept @ [compute_delay cfg draw k]) =
          (Some (call_outcome fn s0 n), call_state fn s0 (n + 1), map (compute_delay cfg draw) [0..<n])"
        "\<forall>i. Suc k \<le> i \<and> i < n \<longrightarrow> (\<exists>e. call_outcome fn s0 i = Inl e \<and> retryable e)"
        "n < rc_max_retries cfg \<longrightarrow> (case call_outcome fn s0 n of Inl e \<Rightarrow> \<not> retryable e | Inr x \<Rightarrow> True)" by blast
    have "\<exists>e. call_outcome fn s0 i = Inl e \<and> retryable e" if "k \<le> i \<and> i < n" for i
      using that n(4) e by (cases "i = k") auto
    with n e(2) less fn show ?thesis unfolding upt by (intro exI[of _ n]) auto
  qed
qed

lemma delay_bounds:
  assumes "retry_config_ok cfg" "1 / 2 \<le> draw k" "draw k \<le> 3 / 2"
  shows "0 < compute_delay cfg draw k \<and> compute_delay cfg draw k \<le> (if rc_jitter cfg then 3 / 2 else 1) * rc_max_delay cfg"
proof -
  let ?d = "min (rc_base_delay cfg * 2 ^ k) (rc_max_delay cfg)"
  have d: "0 < ?d" "?d \<le> rc_max_delay cfg" using assms(1) by (auto simp: retry_config_ok_def)
  have "?d * draw k \<le> rc_max_delay cfg * (3 / 2)" using d assms by (intro mult_mono) auto
  with d assms(2) show ?thesis by (auto simp: compute_delay_def Let_def)
qed

text \<open>C38: A call with retries always ends: it makes between one and \<open>max_retries + 1\<close> calls and answers with the outcome of the last, which
  is the first that succeeds or raises an exception not to be retried, or the last one allowed; it sleeps once between two calls,
  for a positive time of at most the maximal delay, or one and a half times that with jitter. (Delays are exact
  numbers here; in the program's floats the power of two overflows at attempt 1024.)\<close>

theorem retry_exact:
  assumes "retry_config_ok cfg" "\<forall>k. 1 / 2 \<le> draw k \<and> draw k \<le> 3 / 2"
  shows "\<exists>n\<le>rc_max_retries cfg.
    retry_with_backoff fn cfg retryable draw s =
      (Some (call_outcome fn s n), call_state fn s (n + 1), map (compute_delay cfg draw) [0..<n]) \<and>
    (\<forall>i<n. \<exists>e. call_outcome fn s i = Inl e \<and> retryable e) \<and>
    (n < rc_max_retries cfg \<longrightarrow> (case call_outcome fn s n of Inl e \<Rightarrow> \<not> retryable e | Inr x \<Rightarrow> True)) \<and>
    (\<forall>d\<in>set (map (compute_delay cfg draw) [0..<n]). 0 < d \<and> d \<le> (if rc_jitter cfg then 3 / 2 else 1) * rc_max_delay cfg)"
proof -
  from retry_loop_exact[of 0 cfg s fn s "[]" draw retryable None] obtain n where
    "n \<le> rc_max_retries cfg" "retry_with_backoff fn cfg retryable draw s =
      (Some (call_outcome fn s n), call_state fn s (n + 1), map (compute_delay cfg draw) [0..<n])"
    "\<forall>i<n. \<exists>e. call_outcome fn s i = Inl e \<and> retryable e"
    "n < rc_max_retries cfg \<longrightarrow> (case call_outcome fn s n of Inl e \<Rightarrow> \<not> retryable e | Inr x \<Rightarrow> True)"
    by (auto simp: retry_with_backoff_def)
  with delay_bounds[OF assms(1)] assms(2) show ?thesis by (intro exI[of _ n]) auto
qed

text \<open>A call that fails twice.\<close>

definition flaky :: "nat \<Rightarrow> (string + nat) \<times> nat" where
  "flaky n = (if n < 2 then Inl ''down'' else Inr n, n + 1)"

definition demo_retry :: retry_config where
  "demo_retry = \<lparr>rc_max_retries = 3, rc_base_delay = 2, rc_max_delay = 60, rc_jitter = False\<rparr>"

theorem retry_exact_witness:
  "\<exists>n\<le>3. retry_with_backoff flaky demo_retry (\<lambda>e. True) (\<lambda>k. 1) 0 =
     (Some (call_outcome flaky 0 n), call_state flaky 0 (n + 1), map (compute_delay demo_retry (\<lambda>k. 1)) [0..<n])"
proof -
  have "retry_config_ok demo_retry" by (simp add: retry_config_ok_def demo_retry_def)
  moreover have "\<forall>k::nat. 1 / 2 \<le> (1::rat) \<and> (1::rat) \<le> 3 / 2" by simp
  ultimately have "\<exists>n\<le>rc_max_retries demo_retry. retry_with_backoff flaky demo_retry (\<lambda>e. True) (\<lambda>k. 1) 0 =
     (Some (call_outcome flaky 0 n), call_state flaky 0 (n + 1), map (compute_delay demo_retry (\<lambda>k. 1)) [0..<n])"
    using retry_exact[of demo_retry "\<lambda>k. 1" flaky "\<lambda>e. True" 0] by blast
  then show ?thesis by (simp add: demo_retry_def)
qed

end
