(* ===== verification/Tokens.thy ===== *)
theory Tokens
  imports Py_Text "HOL-Library.Countable"
begin

text \<open>
  Tokens and credentials, \<^verbatim>\<open>api/api/security.py\<close>: the claims and the configuration, the token manager in its development, JWT
  and KMS modes, the claims of an OIDC token, and the vault of encrypted credentials. A text is the list of its UTF-8 bytes.
  HMAC, PBKDF2, Fernet, PyJWT, pydantic and the key management services are the fields of \<open>token_env\<close>; URL-safe base64 is
  modelled as the interpreter decodes it, foreign characters and padding included. An error names the place that raises it.
\<close>

subsection \<open>URL-safe base64\<close>

definition b64_alphabet :: string where
  "b64_alphabet = ''ABCDEFGHIJKLMNOPQRSTUVWXYZabcdefghijklmnopqrstuvwxyz0123456789-_''"

definition b64_char :: "nat \<Rightarrow> char" where
  "b64_char n = b64_alphabet ! n"

fun b64_groups :: "nat list \<Rightarrow> string" where
  "b64_groups [] = []"
| "b64_groups [x] = [b64_char (x div 4), b64_char ((x mod 4) * 16), CHR ''='', CHR ''='']"
| "b64_groups [x, y] = [b64_char (x div 4), b64_char ((x mod 4) * 16 + y div 16), b64_char ((y mod 16) * 4), CHR ''='']"
| "b64_groups (x # y # z # bytes) =
     [b64_char (x div 4), b64_char ((x mod 4) * 16 + y div 16), b64_char ((y mod 16) * 4 + z div 64), b64_char (z mod 64)]
     @ b64_groups bytes"

definition urlsafe_b64encode :: "string \<Rightarrow> string" where
  "urlsafe_b64encode s = b64_groups (map of_char s)"

text \<open>The standard alphabet is accepted as well: decoding first maps the URL-safe characters to it.\<close>

definition sextet_of :: "char \<Rightarrow> nat option" where
  "sextet_of c =
     (if c = CHR ''+'' then Some 62 else if c = CHR ''/'' then Some 63
      else (let n = length (takeWhile (\<lambda>a. a \<noteq> c) b64_alphabet) in if n < 64 then Some n else None))"

text \<open>
  \<open>b64_scan quad left pads\<close>: the number of characters of the current group, the bits left over from the last one, and the
  padding seen since. Padding that completes a group ends the data.
\<close>

fun b64_scan :: "nat \<Rightarrow> nat \<Rightarrow> nat \<Rightarrow> string \<Rightarrow> nat list \<Rightarrow> nat list option" where
  "b64_scan quad left pads [] out = (if quad = 0 then Some (rev out) else None)"
| "b64_scan quad left pads (c # cs) out =
     (if c = CHR ''='' then
        (if 2 \<le> quad \<and> 4 \<le> quad + (pads + 1) then Some (rev out)
         else b64_scan quad left (if 2 \<le> quad then pads + 1 else pads) cs out)
      else (case sextet_of c of
              None \<Rightarrow> b64_scan quad left pads cs out
            | Some v \<Rightarrow>
                (if quad = 0 then b64_scan 1 v 0 cs out
                 else if quad = 1 then b64_scan 2 (v mod 16) 0 cs ((left * 4 + v div 16) # out)
                 else if quad = 2 then b64_scan 3 (v mod 4) 0 cs ((left * 16 + v div 4) # out)
                 else b64_scan 0 0 0 cs ((left * 64 + v) # out))))"

definition is_ascii :: "string \<Rightarrow> bool" where
  "is_ascii s \<longleftrightarrow> list_all (\<lambda>c. (of_char c :: nat) < 128) s"

definition urlsafe_b64decode :: "string \<Rightarrow> string option" where
  "urlsafe_b64decode s = (if is_ascii s then map_option (map char_of) (b64_scan 0 0 0 s []) else None)"

text \<open>\<^verbatim>\<open>bytes.decode("utf-8")\<close> accepts exactly the well-formed sequences.\<close>

definition cont_byte :: "nat \<Rightarrow> bool" where
  "cont_byte b \<longleftrightarrow> 128 \<le> b \<and> b < 192"

fun utf8_ok :: "nat list \<Rightarrow> bool" where
  "utf8_ok [] = True"
| "utf8_ok (a # bs) =
     (if a < 128 then utf8_ok bs
      else (case bs of
              [] \<Rightarrow> False
            | b # cs \<Rightarrow>
                if 194 \<le> a \<and> a < 224 then cont_byte b \<and> utf8_ok cs
                else (case cs of
                        [] \<Rightarrow> False
                      | c # ds \<Rightarrow>
                          if 224 \<le> a \<and> a < 240
                          then cont_byte b \<and> cont_byte c \<and> (a = 224 \<longrightarrow> 160 \<le> b) \<and> (a = 237 \<longrightarrow> b < 160) \<and> utf8_ok ds
                          else (case ds of
                                  [] \<Rightarrow> False
                                | d # es \<Rightarrow> 240 \<le> a \<and> a < 245 \<and> cont_byte b \<and> cont_byte c \<and> cont_byte d \<and>
                                    (a = 240 \<longrightarrow> 144 \<le> b) \<and> (a = 244 \<longrightarrow> b < 144) \<and> utf8_ok es))))"

definition utf8_decode :: "string \<Rightarrow> string option" where
  "utf8_decode s = (if utf8_ok (map of_char s) then Some s else None)"

lemma b64_char_facts:
  assumes "n < 64"
  shows "sextet_of (b64_char n) = Some n \<and> b64_char n \<noteq> CHR ''='' \<and> b64_char n \<noteq> CHR ''.'' \<and> (of_char (b64_char n) :: nat) < 128"
proof -
  have "\<forall>n\<in>set [0..<64]. sextet_of (b64_char n) = Some n \<and> b64_char n \<noteq> CHR ''='' \<and> b64_char n \<noteq> CHR ''.'' \<and>
      (of_char (b64_char n) :: nat) < 128"
    by code_simp
  with assms show ?thesis by simp
qed

lemmas b64_sextet [simp] = b64_char_facts[THEN conjunct1]
  and b64_not_pad [simp] = b64_char_facts[THEN conjunct2, THEN conjunct1]
  and b64_not_dot [simp] = b64_char_facts[THEN conjunct2, THEN conjunct2, THEN conjunct1]
  and b64_small [simp] = b64_char_facts[THEN conjunct2, THEN conjunct2, THEN conjunct2]

lemma sextets:
  assumes "x < 256" "y < 256" "z < (256::nat)"
  shows "x div 4 < 64" "x mod 4 * 16 + y div 16 < 64" "y mod 16 * 4 + z div 64 < 64" "z mod 64 < 64"
    and "x div 4 * 4 + (x mod 4 * 16 + y div 16) div 16 = x"
    and "(x mod 4 * 16 + y div 16) mod 16 * 16 + (y mod 16 * 4 + z div 64) div 4 = y"
    and "(y mod 16 * 4 + z div 64) mod 4 * 64 + z mod 64 = z"
proof -
  have q: "y div 16 < 16" "z div 64 < 4" "x div 4 < 64" "x mod 4 < 4" "y mod 16 < 16" using assms by (simp_all add: less_mult_imp_div_less)
  then show "x div 4 < 64" "x mod 4 * 16 + y div 16 < 64" "y mod 16 * 4 + z div 64 < 64" "z mod 64 < 64" by simp_all
  have "(x mod 4 * 16 + y div 16) div 16 = x mod 4" "(x mod 4 * 16 + y div 16) mod 16 = y div 16"
    "(y mod 16 * 4 + z div 64) div 4 = y mod 16" "(y mod 16 * 4 + z div 64) mod 4 = z div 64"
    using q by simp_all
  then show "x div 4 * 4 + (x mod 4 * 16 + y div 16) div 16 = x" "(y mod 16 * 4 + z div 64) mod 4 * 64 + z mod 64 = z"
    "(x mod 4 * 16 + y div 16) mod 16 * 16 + (y mod 16 * 4 + z div 64) div 4 = y"
    by simp_all
qed

lemma b64_scan_groups: "list_all (\<lambda>x. x < 256) xs \<Longrightarrow> b64_scan 0 0 0 (b64_groups xs) out = Some (rev out @ xs)"
proof (induction xs arbitrary: out rule: b64_groups.induct)
  case (2 x)
  then show ?case using sextets[of x 0 0] by simp
next
  case (3 x y)
  then show ?case using sextets[of x y 0] by simp
next
  case (4 x y z bytes)
  then have xyz: "x < 256" "y < 256" "z < 256" "list_all (\<lambda>x. x < 256) bytes" by simp_all
  note f = sextets[OF xyz(1-3)]
  show ?case using 4(1)[OF xyz(4)] f by (simp del: div_mult_self1 div_mult_self2 mod_mult_self1 mod_mult_self2)
qed simp

lemma b64_groups_ascii: "list_all (\<lambda>x. x < 256) xs \<Longrightarrow> list_all (\<lambda>c. (of_char c :: nat) < 128 \<and> c \<noteq> CHR ''.'') (b64_groups xs)"
proof (induction xs rule: b64_groups.induct)
  case (2 x)
  then show ?case using sextets[of x 0 0] by simp
next
  case (3 x y)
  then show ?case using sextets[of x y 0] by simp
next
  case (4 x y z bytes)
  then show ?case using sextets[of x y z] by simp
qed simp

lemma bytes_small: "list_all (\<lambda>x. x < 256) (map (of_char :: char \<Rightarrow> nat) s)"
  by (induction s) auto

text \<open>Decoding undoes encoding, and an encoded text holds no dot.\<close>

lemma b64_roundtrip [simp]: "urlsafe_b64decode (urlsafe_b64encode s) = Some s"
proof -
  have "is_ascii (urlsafe_b64encode s)"
    using b64_groups_ascii[OF bytes_small[of s]] by (auto simp: is_ascii_def urlsafe_b64encode_def list_all_iff)
  then show ?thesis using b64_scan_groups[OF bytes_small[of s], of "[]"]
    by (simp add: urlsafe_b64decode_def urlsafe_b64encode_def comp_def)
qed

lemma b64_no_dot [simp]: "CHR ''.'' \<notin> set (urlsafe_b64encode s)"
  using b64_groups_ascii[OF bytes_small[of s]] by (auto simp: urlsafe_b64encode_def list_all_iff)

subsection \<open>Claims and configuration\<close>

datatype auth_mode = MODE_JWT | MODE_KMS | MODE_OIDC | MODE_DEVELOPMENT

datatype kms_provider = AWS_KMS | AZURE_KEYVAULT | KMS_AUTO

record token_claims =
  tc_sub :: string
  tc_tenant_id :: string
  tc_iss :: string
  tc_iat :: timestamp
  tc_exp :: timestamp
  tc_scopes :: "string list"
  tc_jti :: string
  tc_identity_kind :: string
  tc_role :: "string option"

record token_config =
  cf_auth_mode :: auth_mode
  cf_jwt_secret :: string
  cf_jwt_algorithm :: string
  cf_token_ttl_seconds :: int
  cf_refresh_token_ttl_seconds :: int
  cf_kms_key_arn :: "string option"
  cf_kms_provider :: kms_provider
  cf_oidc_issuer_url :: "string option"
  cf_oidc_audience :: "string option"
  cf_max_token_ttl_seconds :: int
  cf_jwt_secret_previous :: "string option"

text \<open>What a call raises: the class of the exception, and for a \<^verbatim>\<open>PermissionError\<close> the place.\<close>

datatype refusal =
    InvalidFormat | DecodeFailed | SignatureFailed | InvalidClaims | TokenExpired | InvalidToken | KmsFailed
  | OidcMissingKid | OidcNoKey | OidcBadKey | OidcIssuer | OidcAudience | OidcMissingSub | OidcMissingTenant | OidcNotConfigured
  | OidcFetch

datatype token_error = PermissionError refusal | ValueError | TypeError | ValidationError

datatype jwt_error = ExpiredSignatureError | InvalidSignatureError | InvalidIssuerError | InvalidAudienceError | InvalidTokenError

text \<open>
  The parameters: HMAC-SHA256 in hexadecimal, the JSON of the claims, PyJWT with the issuer it checks, the two key services, a
  random key, and Fernet. A call to a service that fails is \<open>None\<close>; \<open>te_jwt_decode\<close> gives \<open>None\<close> for claims that pydantic refuses.
  The parsers also fill in the claims that a token leaves out, where the program draws a fresh \<open>jti\<close> at each parse and reads the clock for
  \<open>iat\<close> and \<open>exp\<close>; the manager's own tokens carry every claim, so for them nothing is filled in.
\<close>

record token_env =
  te_hmac :: "string \<Rightarrow> string \<Rightarrow> string"
  te_dump :: "token_claims \<Rightarrow> string"
  te_parse :: "string \<Rightarrow> token_claims option"
  te_jwt_encode :: "token_claims \<Rightarrow> string \<Rightarrow> string \<Rightarrow> string"
  te_jwt_decode :: "string \<Rightarrow> string \<Rightarrow> string \<Rightarrow> timestamp \<Rightarrow> jwt_error + token_claims option"
  te_aws_generate :: "string \<Rightarrow> (string \<times> string) option"
  te_aws_decrypt :: "string option \<Rightarrow> string \<Rightarrow> string option"
  te_urandom :: string
  te_azure_uri_ok :: "string \<Rightarrow> bool"
  te_azure_wrap :: "string \<Rightarrow> string \<Rightarrow> string option"
  te_azure_unwrap :: "string \<Rightarrow> string \<Rightarrow> string option"
  te_fernet_encrypt :: "string \<Rightarrow> string \<Rightarrow> string"
  te_fernet_decrypt :: "string \<Rightarrow> string \<Rightarrow> string option"

text \<open>\<^verbatim>\<open>needle in text\<close>.\<close>

definition py_contains :: "string \<Rightarrow> string \<Rightarrow> bool" where
  "py_contains needle s \<longleftrightarrow> needle = [] \<or> rsplit_at needle s \<noteq> None"

definition arn_prefix :: string where "arn_prefix = ''arn:aws:kms:''"
definition vault_host :: string where "vault_host = ''.vault.azure.net/''"

definition resolve_kms_provider :: "token_config \<Rightarrow> kms_provider" where
  "resolve_kms_provider cfg =
     (if cf_kms_provider cfg \<noteq> KMS_AUTO then cf_kms_provider cfg
      else (let uri = opt_or (cf_kms_key_arn cfg) []
            in if starts_with arn_prefix uri then AWS_KMS
               else if py_contains vault_host uri then AZURE_KEYVAULT else AWS_KMS))"

subsection \<open>Development tokens\<close>

definition dev_prefix :: string where "dev_prefix = ''bmdev''"
definition kms_prefix :: string where "kms_prefix = ''bmkms''"

definition sign_dev_token :: "token_env \<Rightarrow> token_config \<Rightarrow> token_claims \<Rightarrow> string" where
  "sign_dev_token env cfg claims =
     (let payload = te_dump env claims;
          signature = te_hmac env (cf_jwt_secret cfg) payload
      in dev_prefix @ ''.'' @ urlsafe_b64encode payload @ ''.'' @ signature)"

text \<open>\<^verbatim>\<open>hmac.compare_digest\<close> refuses texts that are not ASCII.\<close>

definition validate_dev_token :: "token_env \<Rightarrow> token_config \<Rightarrow> timestamp \<Rightarrow> string \<Rightarrow> token_error + token_claims" where
  "validate_dev_token env cfg now token =
     (let parts = py_split CHR ''.'' token
      in if length parts \<noteq> 3 \<or> hd parts \<noteq> dev_prefix then Inl (PermissionError InvalidFormat)
         else (case Option.bind (urlsafe_b64decode (parts ! 1)) utf8_decode of
                 None \<Rightarrow> Inl (PermissionError DecodeFailed)
               | Some payload \<Rightarrow>
                   (let expected_sig = te_hmac env (cf_jwt_secret cfg) payload
                    in if \<not> (is_ascii (parts ! 2) \<and> is_ascii expected_sig) then Inl TypeError
                       else if parts ! 2 \<noteq> expected_sig then Inl (PermissionError SignatureFailed)
                       else (case te_parse env payload of
                               None \<Rightarrow> Inl (PermissionError InvalidClaims)
                             | Some claims \<Rightarrow> if tc_exp claims < now then Inl (PermissionError TokenExpired) else Inr claims))))"

subsection \<open>JWT tokens and the rotation of the secret\<close>

definition sign_jwt_token :: "token_env \<Rightarrow> token_config \<Rightarrow> token_claims \<Rightarrow> string" where
  "sign_jwt_token env cfg claims = te_jwt_encode env claims (cf_jwt_secret cfg) (cf_jwt_algorithm cfg)"

fun try_secrets :: "token_env \<Rightarrow> token_config \<Rightarrow> timestamp \<Rightarrow> string \<Rightarrow> string list \<Rightarrow> token_error + token_claims" where
  "try_secrets env cfg now token [] = Inl (PermissionError SignatureFailed)"
| "try_secrets env cfg now token (secret # secrets) =
     (case te_jwt_decode env token secret (cf_jwt_algorithm cfg) now of
        Inr None \<Rightarrow> Inl ValidationError
      | Inr (Some claims) \<Rightarrow> Inr claims
      | Inl ExpiredSignatureError \<Rightarrow> Inl (PermissionError TokenExpired)
      | Inl InvalidSignatureError \<Rightarrow> try_secrets env cfg now token secrets
      | Inl _ \<Rightarrow> Inl (PermissionError InvalidToken))"

definition validate_jwt_token :: "token_env \<Rightarrow> token_config \<Rightarrow> timestamp \<Rightarrow> string \<Rightarrow> token_error + token_claims" where
  "validate_jwt_token env cfg now token =
     try_secrets env cfg now token
       (cf_jwt_secret cfg # (case cf_jwt_secret_previous cfg of None \<Rightarrow> [] | Some previous \<Rightarrow> [previous]))"

subsection \<open>Tokens sealed by a key service\<close>

definition fernet_seal :: "token_env \<Rightarrow> string \<Rightarrow> string \<Rightarrow> string \<Rightarrow> string" where
  "fernet_seal env plaintext_key encrypted_key payload =
     (let fernet_key = urlsafe_b64encode (take 32 plaintext_key)
      in kms_prefix @ ''.'' @ urlsafe_b64encode encrypted_key @ ''.'' @ te_fernet_encrypt env fernet_key payload)"

definition sign_kms_aws :: "token_env \<Rightarrow> string \<Rightarrow> string \<Rightarrow> token_error + string" where
  "sign_kms_aws env arn payload =
     (case te_aws_generate env arn of
        None \<Rightarrow> Inl (PermissionError KmsFailed)
      | Some (plaintext_key, encrypted_key) \<Rightarrow> Inr (fernet_seal env plaintext_key encrypted_key payload))"

definition sign_kms_azure :: "token_env \<Rightarrow> string \<Rightarrow> string \<Rightarrow> token_error + string" where
  "sign_kms_azure env uri payload =
     (if \<not> te_azure_uri_ok env uri then Inl (PermissionError KmsFailed)
      else (case te_azure_wrap env uri (te_urandom env) of
              None \<Rightarrow> Inl (PermissionError KmsFailed)
            | Some encrypted_key \<Rightarrow> Inr (fernet_seal env (te_urandom env) encrypted_key payload)))"

definition sign_kms_token :: "token_env \<Rightarrow> token_config \<Rightarrow> token_claims \<Rightarrow> token_error + string" where
  "sign_kms_token env cfg claims =
     (case cf_kms_key_arn cfg of
        None \<Rightarrow> Inl ValueError
      | Some arn \<Rightarrow>
          if arn = [] then Inl ValueError
          else if resolve_kms_provider cfg = AZURE_KEYVAULT then sign_kms_azure env arn (te_dump env claims)
          else sign_kms_aws env arn (te_dump env claims))"

definition unseal :: "token_env \<Rightarrow> (string \<Rightarrow> string option) \<Rightarrow> string list \<Rightarrow> string option" where
  "unseal env decrypt_key parts =
     (case urlsafe_b64decode (parts ! 1) of
        None \<Rightarrow> None
      | Some encrypted_key \<Rightarrow>
          if \<not> is_ascii (parts ! 2) then None
          else (case decrypt_key encrypted_key of
                  None \<Rightarrow> None
                | Some plaintext_key \<Rightarrow>
                    Option.bind (te_fernet_decrypt env (urlsafe_b64encode (take 32 plaintext_key)) (parts ! 2)) utf8_decode))"

definition unseal_kms_aws :: "token_env \<Rightarrow> token_config \<Rightarrow> string list \<Rightarrow> string option" where
  "unseal_kms_aws env cfg parts = unseal env (te_aws_decrypt env (cf_kms_key_arn cfg)) parts"

definition unseal_kms_azure :: "token_env \<Rightarrow> token_config \<Rightarrow> string list \<Rightarrow> string option" where
  "unseal_kms_azure env cfg parts =
     (let uri = opt_or (cf_kms_key_arn cfg) []
      in if \<not> te_azure_uri_ok env uri then None else unseal env (te_azure_unwrap env uri) parts)"

definition validate_kms_token :: "token_env \<Rightarrow> token_config \<Rightarrow> timestamp \<Rightarrow> string \<Rightarrow> token_error + token_claims" where
  "validate_kms_token env cfg now token =
     (let parts = py_split CHR ''.'' token
      in if length parts \<noteq> 3 \<or> hd parts \<noteq> kms_prefix then Inl (PermissionError InvalidFormat)
         else (case (if resolve_kms_provider cfg = AZURE_KEYVAULT then unseal_kms_azure env cfg parts
                     else unseal_kms_aws env cfg parts) of
                 None \<Rightarrow> Inl (PermissionError KmsFailed)
               | Some payload \<Rightarrow>
                   (case te_parse env payload of
                      None \<Rightarrow> Inl (PermissionError InvalidClaims)
                    | Some claims \<Rightarrow> if tc_exp claims < now then Inl (PermissionError TokenExpired) else Inr claims)))"

subsection \<open>Tokens of an identity provider\<close>

text \<open>
  What the OIDC code asks of its surroundings: the parts of a URL, the name service, the class of an address (private, loopback,
  link-local, reserved), the JSON an HTTPS fetch returns, and PyJWT with its key construction.
\<close>

datatype dns_reply = DnsTimeout | DnsError | DnsAnswers "string list"

type_synonym json_dict = "(string \<times> json) list"

text \<open>The arguments of the constructor \<^verbatim>\<open>TokenClaims\<close> and its answer; absent times and identifiers get defaults.\<close>

record claim_fields =
  cl_sub :: json
  cl_tenant_id :: string
  cl_iss :: json
  cl_iat :: "json option"
  cl_exp :: "json option"
  cl_scopes :: "string list"
  cl_jti :: "json option"
  cl_identity_kind :: json

record 'k oidc_env =
  oe_urlparse :: "string \<Rightarrow> string \<times> string option"
  oe_resolve :: "string \<Rightarrow> dns_reply"
  oe_ip_class :: "string \<Rightarrow> (bool \<times> bool \<times> bool \<times> bool) option"
  oe_fetch :: "string \<Rightarrow> timestamp \<Rightarrow> json_dict option"
  oe_header_kid :: "string \<Rightarrow> string option option"
  oe_rsa_key :: "json_dict \<Rightarrow> 'k option"
  oe_decode :: "string \<Rightarrow> 'k \<Rightarrow> string \<Rightarrow> string option \<Rightarrow> timestamp \<Rightarrow> jwt_error + json_dict"
  oe_str :: "json \<Rightarrow> string"
  oe_make :: "claim_fields \<Rightarrow> timestamp \<Rightarrow> string \<Rightarrow> token_claims option"

datatype url_refusal = NotHttps | NoHostname | ForeignHost | DnsTimedOut | DnsFailed | DnsEmpty | BadAddress | PrivateAddress

fun check_addresses :: "'k oidc_env \<Rightarrow> string list \<Rightarrow> url_refusal option" where
  "check_addresses env [] = None"
| "check_addresses env (ip # ips) =
     (case oe_ip_class env ip of
        None \<Rightarrow> Some BadAddress
      | Some (private, loopback, link_local, reserved) \<Rightarrow>
          if private \<or> loopback \<or> link_local \<or> reserved then Some PrivateAddress else check_addresses env ips)"

definition validate_url_safe :: "'k oidc_env \<Rightarrow> string \<Rightarrow> string \<Rightarrow> url_refusal option" where
  "validate_url_safe env url allowed_issuer_host =
     (let (scheme, hostname) = oe_urlparse env url
      in if scheme \<noteq> ''https'' then Some NotHttps
         else (case hostname of
                 None \<Rightarrow> Some NoHostname
               | Some host \<Rightarrow>
                   if host = [] then Some NoHostname
                   else if py_lower host \<noteq> py_lower allowed_issuer_host \<and> \<not> ends_with (CHR ''.'' # py_lower allowed_issuer_host) (py_lower host)
                   then Some ForeignHost
                   else (case oe_resolve env host of
                           DnsTimeout \<Rightarrow> Some DnsTimedOut
                         | DnsError \<Rightarrow> Some DnsFailed
                         | DnsAnswers ips \<Rightarrow> if ips = [] then Some DnsEmpty else check_addresses env ips)))"

text \<open>The provider's caches: the key set, when it was fetched, and the discovery document.\<close>

record oidc_provider =
  op_issuer_url :: string
  op_audience :: "string option"
  op_allowed_host :: string
  op_jwks :: "json list option"
  op_jwks_fetched_at :: timestamp
  op_discovery :: "json_dict option"

definition jwks_cache_ttl :: int where
  "jwks_cache_ttl = 3600 * microseconds_per_second"

definition rstrip_slash :: "string \<Rightarrow> string" where
  "rstrip_slash s = rev (dropWhile (\<lambda>c. c = CHR ''/'') (rev s))"

definition new_oidc_provider :: "'k oidc_env \<Rightarrow> string \<Rightarrow> string option \<Rightarrow> token_error + oidc_provider" where
  "new_oidc_provider env issuer_url audience =
     (let url = rstrip_slash issuer_url
      in (case snd (oe_urlparse env url) of
            None \<Rightarrow> Inl (PermissionError OidcNotConfigured)
          | Some host \<Rightarrow>
              if host = [] then Inl (PermissionError OidcNotConfigured)
              else Inr \<lparr>op_issuer_url = url, op_audience = audience, op_allowed_host = host, op_jwks = None,
                        op_jwks_fetched_at = 0, op_discovery = None\<rparr>))"

definition safe_fetch :: "'k oidc_env \<Rightarrow> timestamp \<Rightarrow> string \<Rightarrow> oidc_provider \<Rightarrow> json_dict option" where
  "safe_fetch env now url p =
     (if validate_url_safe env url (op_allowed_host p) = None then oe_fetch env url now else None)"

definition required_fields :: "string list" where
  "required_fields = [''issuer'', ''jwks_uri'', ''id_token_signing_alg_values_supported'']"

definition fetch_discovery :: "'k oidc_env \<Rightarrow> timestamp \<Rightarrow> oidc_provider \<Rightarrow> (token_error + json_dict) \<times> oidc_provider" where
  "fetch_discovery env now p =
     (case safe_fetch env now (op_issuer_url p @ ''/.well-known/openid-configuration'') p of
        None \<Rightarrow> (Inl (PermissionError OidcFetch), p)
      | Some data \<Rightarrow>
          if list_ex (\<lambda>f. map_of data f = None) required_fields then (Inl (PermissionError OidcFetch), p)
          else (Inr data, p\<lparr>op_discovery := Some data\<rparr>))"

definition fetch_jwks :: "'k oidc_env \<Rightarrow> timestamp \<Rightarrow> oidc_provider \<Rightarrow> (token_error + json list) \<times> oidc_provider" where
  "fetch_jwks env now p =
     (let (r, p) = (case op_discovery p of None \<Rightarrow> fetch_discovery env now p | Some d \<Rightarrow> (Inr d, p))
      in (case r of
            Inl e \<Rightarrow> (Inl e, p)
          | Inr discovery \<Rightarrow>
              (case map_of discovery ''jwks_uri'' of
                 Some (JStr jwks_uri) \<Rightarrow>
                   (case safe_fetch env now jwks_uri p of
                      None \<Rightarrow> (Inl (PermissionError OidcFetch), p)
                    | Some data \<Rightarrow>
                        (case map_of data ''keys'' of
                           Some (JList keys) \<Rightarrow>
                             if keys = [] then (Inl (PermissionError OidcFetch), p)
                             else (Inr keys, p\<lparr>op_jwks := Some keys, op_jwks_fetched_at := now\<rparr>)
                         | _ \<Rightarrow> (Inl (PermissionError OidcFetch), p)))
               | _ \<Rightarrow> (Inl TypeError, p))))"

fun find_key :: "string \<Rightarrow> json list \<Rightarrow> json_dict option" where
  "find_key kid [] = None"
| "find_key kid (JObj d # keys) = (if map_of d ''kid'' = Some (JStr kid) then Some d else find_key kid keys)"
| "find_key kid (_ # keys) = find_key kid keys"

definition get_signing_key :: "'k oidc_env \<Rightarrow> timestamp \<Rightarrow> string \<Rightarrow> oidc_provider \<Rightarrow> (token_error + json_dict) \<times> oidc_provider" where
  "get_signing_key env now kid p =
     (let cache_expired = (now - op_jwks_fetched_at p > jwks_cache_ttl);
          (r, p) = (case op_jwks p of
                      None \<Rightarrow> fetch_jwks env now p
                    | Some keys \<Rightarrow> if cache_expired then fetch_jwks env now p else (Inr keys, p))
      in (case r of
            Inl e \<Rightarrow> (Inl e, p)
          | Inr keys \<Rightarrow>
              (case find_key kid keys of
                 Some d \<Rightarrow> (Inr d, p)
               | None \<Rightarrow>
                   if cache_expired then (Inl (PermissionError OidcNoKey), p)
                   else (let (r, p) = fetch_jwks env now p
                         in (case r of
                               Inl e \<Rightarrow> (Inl e, p)
                             | Inr keys \<Rightarrow> (case find_key kid keys of
                                              Some d \<Rightarrow> (Inr d, p)
                                            | None \<Rightarrow> (Inl (PermissionError OidcNoKey), p)))))))"

text \<open>\<^verbatim>\<open>text.split()\<close>: the words between blanks.\<close>

fun words_loop :: "string \<Rightarrow> string \<Rightarrow> string list" where
  "words_loop w [] = (if w = [] then [] else [rev w])"
| "words_loop w (c # cs) =
     (if is_space c then (if w = [] then words_loop [] cs else rev w # words_loop [] cs) else words_loop (c # w) cs)"

definition py_words :: "string \<Rightarrow> string list" where
  "py_words s = words_loop [] s"

fun first_truthy :: "json_dict \<Rightarrow> string list \<Rightarrow> json option" where
  "first_truthy d [] = None"
| "first_truthy d (k # ks) =
     (case map_of d k of Some j \<Rightarrow> if json_falsy j then first_truthy d ks else Some j | None \<Rightarrow> first_truthy d ks)"

definition oidc_scopes :: "json_dict \<Rightarrow> string list" where
  "oidc_scopes payload =
     (let raw = (case map_of payload ''scope'' of Some j \<Rightarrow> j
                 | None \<Rightarrow> (case map_of payload ''scp'' of Some j \<Rightarrow> j | None \<Rightarrow> JStr []));
          scopes = (case raw of JStr s \<Rightarrow> map JStr (py_words s) | JList js \<Rightarrow> js | _ \<Rightarrow> [JStr ''read'']);
          granted = (if list_ex (\<lambda>s. List.member scopes (JStr s)) [''read'', ''openid'', ''profile''] then [''read''] else []) @
                    (if list_ex (\<lambda>s. List.member scopes (JStr s)) [''write'', ''admin''] then [''write''] else [])
      in if granted = [] then [''read''] else granted)"

definition map_claims :: "'k oidc_env \<Rightarrow> timestamp \<Rightarrow> string \<Rightarrow> json_dict \<Rightarrow> token_error + token_claims" where
  "map_claims env now fresh_jti payload =
     (let sub = (case map_of payload ''sub'' of Some j \<Rightarrow> j | None \<Rightarrow> JStr [])
      in if json_falsy sub then Inl (PermissionError OidcMissingSub)
         else (case first_truthy payload [''tenant_id'', ''org_id'', ''azp'', ''client_id''] of
                 None \<Rightarrow> Inl (PermissionError OidcMissingTenant)
               | Some tenant_id \<Rightarrow>
                   (case oe_make env
                      \<lparr>cl_sub = sub, cl_tenant_id = oe_str env tenant_id,
                       cl_iss = (case map_of payload ''iss'' of Some j \<Rightarrow> j | None \<Rightarrow> JStr []),
                       cl_iat = map_of payload ''iat'', cl_exp = map_of payload ''exp'', cl_scopes = oidc_scopes payload,
                       cl_jti = map_of payload ''jti'',
                       cl_identity_kind = (case map_of payload ''identity_kind'' of Some j \<Rightarrow> j | None \<Rightarrow> JStr ''user'')\<rparr> now fresh_jti of
                      None \<Rightarrow> Inl ValidationError
                    | Some claims \<Rightarrow> Inr claims)))"

definition oidc_validate_token ::
  "'k oidc_env \<Rightarrow> timestamp \<Rightarrow> string \<Rightarrow> string \<Rightarrow> oidc_provider \<Rightarrow> (token_error + token_claims) \<times> oidc_provider" where
  "oidc_validate_token env now fresh_jti token p =
     (case oe_header_kid env token of
        None \<Rightarrow> (Inl (PermissionError InvalidToken), p)
      | Some header_kid \<Rightarrow>
          let kid = opt_or header_kid []
          in if kid = [] then (Inl (PermissionError OidcMissingKid), p)
             else (let (r, p) = get_signing_key env now kid p
                   in (case r of
                         Inl e \<Rightarrow> (Inl e, p)
                       | Inr key_data \<Rightarrow>
                           (case oe_rsa_key env key_data of
                              None \<Rightarrow> (Inl (PermissionError OidcBadKey), p)
                            | Some public_key \<Rightarrow>
                                ((case oe_decode env token public_key (op_issuer_url p) (op_audience p) now of
                                    Inl ExpiredSignatureError \<Rightarrow> Inl (PermissionError TokenExpired)
                                  | Inl InvalidIssuerError \<Rightarrow> Inl (PermissionError OidcIssuer)
                                  | Inl InvalidAudienceError \<Rightarrow> Inl (PermissionError OidcAudience)
                                  | Inl _ \<Rightarrow> Inl (PermissionError InvalidToken)
                                  | Inr payload \<Rightarrow> map_claims env now fresh_jti payload), p)))))"

subsection \<open>The token manager\<close>

definition issuer :: string where "issuer = ''ironlayer''"

text \<open>The claims of a new token. \<^verbatim>\<open>scopes or [...]\<close> replaces an empty list, too.\<close>

definition issued_claims ::
  "token_config \<Rightarrow> timestamp \<Rightarrow> string \<Rightarrow> string \<Rightarrow> string \<Rightarrow> string list option \<Rightarrow> int option \<Rightarrow> string \<Rightarrow> string option \<Rightarrow>
   token_claims" where
  "issued_claims cfg now jti subject tenant_id scopes ttl_seconds identity_kind role =
     (let ttl = min (case ttl_seconds of None \<Rightarrow> cf_token_ttl_seconds cfg | Some t \<Rightarrow> t) (cf_max_token_ttl_seconds cfg)
      in \<lparr>tc_sub = subject, tc_tenant_id = tenant_id, tc_iss = issuer, tc_iat = now,
          tc_exp = now + ttl * microseconds_per_second,
          tc_scopes = (case scopes of None \<Rightarrow> [''read'', ''write''] | Some s \<Rightarrow> if s = [] then [''read'', ''write''] else s),
          tc_jti = jti, tc_identity_kind = identity_kind, tc_role = role\<rparr>)"

definition sign_token :: "token_env \<Rightarrow> token_config \<Rightarrow> token_claims \<Rightarrow> token_error + string" where
  "sign_token env cfg claims =
     (case cf_auth_mode cfg of
        MODE_DEVELOPMENT \<Rightarrow> Inr (sign_dev_token env cfg claims)
      | MODE_JWT \<Rightarrow> Inr (sign_jwt_token env cfg claims)
      | MODE_KMS \<Rightarrow> sign_kms_token env cfg claims
      | MODE_OIDC \<Rightarrow> Inl ValueError)"

definition generate_token ::
  "token_env \<Rightarrow> token_config \<Rightarrow> timestamp \<Rightarrow> string \<Rightarrow> string \<Rightarrow> string \<Rightarrow> string list option \<Rightarrow> int option \<Rightarrow> string \<Rightarrow>
   string option \<Rightarrow> token_error + string" where
  "generate_token env cfg now jti subject tenant_id scopes ttl_seconds identity_kind role =
     sign_token env cfg (issued_claims cfg now jti subject tenant_id scopes ttl_seconds identity_kind role)"

definition user_kind :: string where "user_kind = ''user''"
definition refresh_scope :: string where "refresh_scope = ''refresh''"

definition generate_refresh_token ::
  "token_env \<Rightarrow> token_config \<Rightarrow> timestamp \<Rightarrow> string \<Rightarrow> string \<Rightarrow> string \<Rightarrow> token_error + string" where
  "generate_refresh_token env cfg now jti subject tenant_id =
     generate_token env cfg now jti subject tenant_id (Some [refresh_scope]) (Some (cf_refresh_token_ttl_seconds cfg)) user_kind None"

text \<open>The three modes whose tokens the program signs itself.\<close>

definition validate_own_token :: "token_env \<Rightarrow> token_config \<Rightarrow> timestamp \<Rightarrow> string \<Rightarrow> token_error + token_claims" where
  "validate_own_token env cfg now token =
     (case cf_auth_mode cfg of
        MODE_DEVELOPMENT \<Rightarrow> validate_dev_token env cfg now token
      | MODE_JWT \<Rightarrow> validate_jwt_token env cfg now token
      | MODE_KMS \<Rightarrow> validate_kms_token env cfg now token
      | MODE_OIDC \<Rightarrow> Inl ValueError)"

record token_manager =
  tm_config :: token_config
  tm_oidc_provider :: "oidc_provider option"

definition get_oidc_provider :: "'k oidc_env \<Rightarrow> token_manager \<Rightarrow> (token_error + oidc_provider) \<times> token_manager" where
  "get_oidc_provider oe tm =
     (case tm_oidc_provider tm of
        Some p \<Rightarrow> (Inr p, tm)
      | None \<Rightarrow>
          let url = opt_or (cf_oidc_issuer_url (tm_config tm)) []
          in if url = [] then (Inl (PermissionError OidcNotConfigured), tm)
             else (case new_oidc_provider oe url (cf_oidc_audience (tm_config tm)) of
                     Inl e \<Rightarrow> (Inl e, tm)
                   | Inr p \<Rightarrow> (Inr p, tm\<lparr>tm_oidc_provider := Some p\<rparr>)))"

definition validate_token_async ::
  "token_env \<Rightarrow> 'k oidc_env \<Rightarrow> timestamp \<Rightarrow> string \<Rightarrow> string \<Rightarrow> token_manager \<Rightarrow> (token_error + token_claims) \<times> token_manager" where
  "validate_token_async env oe now fresh_jti token tm =
     (if cf_auth_mode (tm_config tm) = MODE_OIDC then
        (case get_oidc_provider oe tm of
           (Inl e, tm) \<Rightarrow> (Inl e, tm)
         | (Inr p, tm) \<Rightarrow> (let (r, p) = oidc_validate_token oe now fresh_jti token p in (r, tm\<lparr>tm_oidc_provider := Some p\<rparr>)))
      else (validate_own_token env (tm_config tm) now token, tm))"

subsection \<open>The credential vault\<close>

record vault_env =
  ve_pbkdf2 :: "string \<Rightarrow> string \<Rightarrow> string"
  ve_fernet_encrypt :: "string \<Rightarrow> string \<Rightarrow> string"
  ve_fernet_decrypt :: "string \<Rightarrow> string \<Rightarrow> string option"

definition vault_v1 :: string where "vault_v1 = [CHR 0x01]"
definition vault_v2 :: string where "vault_v2 = [CHR 0x02]"
definition fixed_salt :: string where "fixed_salt = ''ironlayer-credential-vault-v1''"

definition vault_encrypt :: "vault_env \<Rightarrow> string \<Rightarrow> string \<Rightarrow> string \<Rightarrow> string" where
  "vault_encrypt env secret salt plaintext =
     (let token = ve_fernet_encrypt env (urlsafe_b64encode (ve_pbkdf2 env secret salt)) plaintext
      in urlsafe_b64encode (vault_v2 @ salt @ token))"

definition vault_decrypt :: "vault_env \<Rightarrow> string \<Rightarrow> string \<Rightarrow> string option" where
  "vault_decrypt env secret ciphertext =
     (case urlsafe_b64decode ciphertext of
        None \<Rightarrow> None
      | Some raw \<Rightarrow>
          let version = take 1 raw;
              (token, salt) = (if version = vault_v2 then (drop 17 raw, take 16 (drop 1 raw))
                               else if version = vault_v1 then (drop 1 raw, fixed_salt) else (raw, fixed_salt))
          in Option.bind (ve_fernet_decrypt env (urlsafe_b64encode (ve_pbkdf2 env secret salt)) token) utf8_decode)"

subsection \<open>Facts\<close>

text \<open>What the signatures and ciphers promise, for the claims \<open>c\<close>: what was written is read back, and texts carry no dot.\<close>

definition token_laws :: "token_env \<Rightarrow> token_claims \<Rightarrow> bool" where
  "token_laws env c \<longleftrightarrow>
     te_parse env (te_dump env c) = Some c \<and> utf8_decode (te_dump env c) = Some (te_dump env c) \<and>
     (\<forall>s p. is_ascii (te_hmac env s p) \<and> CHR ''.'' \<notin> set (te_hmac env s p)) \<and>
     (\<forall>s a t. tc_iss c = issuer \<longrightarrow>
        (tc_iat c \<le> t \<and> t + microseconds_per_second \<le> tc_exp c \<longrightarrow> te_jwt_decode env (te_jwt_encode env c s a) s a t = Inr (Some c)) \<and>
        (tc_exp c \<le> t \<longrightarrow> te_jwt_decode env (te_jwt_encode env c s a) s a t = Inl ExpiredSignatureError)) \<and>
     (\<forall>arn p e. te_aws_generate env arn = Some (p, e) \<longrightarrow> te_aws_decrypt env (Some arn) e = Some p) \<and>
     (\<forall>uri k e. te_azure_wrap env uri k = Some e \<longrightarrow> te_azure_unwrap env uri e = Some k) \<and>
     (\<forall>k x. te_fernet_decrypt env k (te_fernet_encrypt env k x) = Some x \<and> is_ascii (te_fernet_encrypt env k x) \<and>
        CHR ''.'' \<notin> set (te_fernet_encrypt env k x))"

text \<open>A token of one secret is not taken for one of the other.\<close>

definition tells_secrets :: "token_env \<Rightarrow> token_claims \<Rightarrow> string \<Rightarrow> string \<Rightarrow> bool" where
  "tells_secrets env c old new \<longleftrightarrow>
     (\<forall>a t. te_jwt_decode env (te_jwt_encode env c old a) new a t = Inl InvalidSignatureError)"

text \<open>The documented rotation: the old secret becomes the previous one.\<close>

definition rotate_secret :: "string \<Rightarrow> token_config \<Rightarrow> token_config" where
  "rotate_secret new cfg = cfg\<lparr>cf_jwt_secret := new, cf_jwt_secret_previous := Some (cf_jwt_secret cfg)\<rparr>"

lemma prefixes [simp]: "CHR ''.'' \<notin> set dev_prefix" "CHR ''.'' \<notin> set kms_prefix"
  by (simp_all add: dev_prefix_def kms_prefix_def)

lemma split_token:
  "CHR ''.'' \<notin> set a \<Longrightarrow> CHR ''.'' \<notin> set b \<Longrightarrow> CHR ''.'' \<notin> set c \<Longrightarrow>
   py_split CHR ''.'' (a @ CHR ''.'' # b @ CHR ''.'' # c) = [a, b, c]"
  by (simp add: py_split_append py_split_none)

lemma dev_token_reads:
  assumes "token_laws env c"
  shows "validate_dev_token env cfg t (sign_dev_token env cfg c) = (if tc_exp c < t then Inl (PermissionError TokenExpired) else Inr c)"
  using assms by (simp add: validate_dev_token_def sign_dev_token_def Let_def split_token token_laws_def)

lemma unseal_seals:
  assumes "token_laws env c" "decrypt e = Some p" "utf8_decode payload = Some payload"
  shows "unseal env decrypt (py_split CHR ''.'' (fernet_seal env p e payload)) = Some payload"
  using assms by (simp add: unseal_def fernet_seal_def Let_def split_token token_laws_def)

lemma sealed_shape:
  assumes "token_laws env c"
  shows "length (py_split CHR ''.'' (fernet_seal env p e payload)) = 3 \<and> hd (py_split CHR ''.'' (fernet_seal env p e payload)) = kms_prefix"
  using assms by (simp add: fernet_seal_def Let_def split_token token_laws_def)

lemma kms_token_reads:
  assumes laws: "token_laws env c" and sign: "sign_kms_token env cfg c = Inr tok"
  shows "validate_kms_token env cfg t tok = (if tc_exp c < t then Inl (PermissionError TokenExpired) else Inr c)"
proof -
  from sign obtain arn where arn: "cf_kms_key_arn cfg = Some arn" "arn \<noteq> []" by (auto simp: sign_kms_token_def split: option.splits if_splits)
  have dump: "te_parse env (te_dump env c) = Some c" "utf8_decode (te_dump env c) = Some (te_dump env c)"
    using laws by (simp_all add: token_laws_def)
  show ?thesis
  proof (cases "resolve_kms_provider cfg = AZURE_KEYVAULT")
    case True
    with sign arn obtain e where e: "te_azure_uri_ok env arn" "te_azure_wrap env arn (te_urandom env) = Some e"
      "tok = fernet_seal env (te_urandom env) e (te_dump env c)"
      by (auto simp: sign_kms_token_def sign_kms_azure_def split: if_splits option.splits)
    then have "te_azure_unwrap env arn e = Some (te_urandom env)" using laws by (simp add: token_laws_def)
    from unseal_seals[where decrypt = "te_azure_unwrap env arn", OF laws this dump(2)] True e arn sealed_shape[OF laws] dump show ?thesis
      by (simp add: validate_kms_token_def unseal_kms_azure_def Let_def opt_or_def)
  next
    case False
    with sign arn obtain p e where e: "te_aws_generate env arn = Some (p, e)" "tok = fernet_seal env p e (te_dump env c)"
      by (auto simp: sign_kms_token_def sign_kms_aws_def split: if_splits option.splits)
    then have "te_aws_decrypt env (Some arn) e = Some p" using laws by (simp add: token_laws_def)
    from unseal_seals[where decrypt = "te_aws_decrypt env (Some arn)", OF laws this dump(2)] False e arn sealed_shape[OF laws] dump show ?thesis
      by (simp add: validate_kms_token_def unseal_kms_aws_def Let_def)
  qed
qed

lemma own_token_reads:
  assumes "token_laws env c" "sign_token env cfg c = Inr tok" "tc_iss c = issuer" "tc_iat c \<le> t" "t + microseconds_per_second \<le> tc_exp c"
  shows "validate_own_token env cfg t tok = Inr c"
proof (cases "cf_auth_mode cfg")
  case MODE_JWT
  with assms(2) have "tok = te_jwt_encode env c (cf_jwt_secret cfg) (cf_jwt_algorithm cfg)" by (simp add: sign_token_def sign_jwt_token_def)
  with MODE_JWT assms show ?thesis by (simp add: validate_own_token_def validate_jwt_token_def token_laws_def)
next
  case MODE_KMS
  with assms kms_token_reads[OF assms(1)] show ?thesis by (simp add: validate_own_token_def sign_token_def microseconds_per_second_def)
next
  case MODE_DEVELOPMENT
  with assms dev_token_reads[OF assms(1)] show ?thesis by (auto simp: validate_own_token_def sign_token_def microseconds_per_second_def)
qed (use assms(2) in \<open>simp add: sign_token_def\<close>)

text \<open>C16: A token of the manager is accepted, with exactly the claims it was issued with, from its issue until a second before its
  expiry, and refused as expired after it: in the development, the JWT and both KMS modes. In JWT mode this also holds once
  the secret was rotated with the old one kept as the previous secret.\<close>

theorem issued_token_lifetime:
  assumes "token_laws env c" "c = issued_claims cfg now jti subject tenant_id scopes ttl kind role"
    and "generate_token env cfg now jti subject tenant_id scopes ttl kind role = Inr tok"
    and "cfg' = cfg \<or> (cf_auth_mode cfg = MODE_JWT \<and> cfg' = rotate_secret new cfg \<and> tells_secrets env c (cf_jwt_secret cfg) new)"
  shows "(\<forall>t. now \<le> t \<and> t + microseconds_per_second \<le> tc_exp c \<longrightarrow> validate_own_token env cfg' t tok = Inr c) \<and>
    (\<forall>t. tc_exp c < t \<longrightarrow> validate_own_token env cfg' t tok = Inl (PermissionError TokenExpired))"
proof -
  have c: "tc_iss c = issuer" "tc_iat c = now" using assms(2) by (simp_all add: issued_claims_def Let_def)
  have sign: "sign_token env cfg c = Inr tok" using assms(2,3) by (simp add: generate_token_def)
  have mode: "cf_auth_mode (rotate_secret new cfg) = cf_auth_mode cfg" by (simp add: rotate_secret_def)
  show ?thesis
  proof (cases "cf_auth_mode cfg")
    case MODE_JWT
    with sign have tok: "tok = te_jwt_encode env c (cf_jwt_secret cfg) (cf_jwt_algorithm cfg)" by (simp add: sign_token_def sign_jwt_token_def)
    have "\<exists>rest. \<forall>t. validate_own_token env cfg' t tok = try_secrets env cfg' t tok (cf_jwt_secret cfg # rest)"
      using assms(4)
    proof
      assume "cfg' = cfg"
      then show ?thesis using MODE_JWT by (auto simp: validate_own_token_def validate_jwt_token_def)
    next
      assume "cf_auth_mode cfg = MODE_JWT \<and> cfg' = rotate_secret new cfg \<and> tells_secrets env c (cf_jwt_secret cfg) new"
      then show ?thesis using tok
        by (intro exI[of _ "[]"]) (simp add: validate_own_token_def validate_jwt_token_def rotate_secret_def tells_secrets_def)
    qed
    then obtain rest where v: "validate_own_token env cfg' t tok = try_secrets env cfg' t tok (cf_jwt_secret cfg # rest)" for t by blast
    have "cf_jwt_algorithm cfg' = cf_jwt_algorithm cfg" using assms(4) by (auto simp: rotate_secret_def)
    with v tok c assms(1) show ?thesis by (auto simp: token_laws_def)
  next
    case MODE_KMS
    with sign assms(4) have "validate_own_token env cfg' t tok = validate_kms_token env cfg t tok" "sign_kms_token env cfg c = Inr tok" for t
      by (auto simp: validate_own_token_def sign_token_def)
    with kms_token_reads[OF assms(1)] show ?thesis by (auto simp: microseconds_per_second_def)
  next
    case MODE_OIDC
    with sign show ?thesis by (simp add: sign_token_def)
  next
    case MODE_DEVELOPMENT
    with sign assms(4) have "validate_own_token env cfg' t tok = validate_dev_token env cfg t tok" "tok = sign_dev_token env cfg c" for t
      by (auto simp: validate_own_token_def sign_token_def)
    with dev_token_reads[OF assms(1)] show ?thesis by (auto simp: microseconds_per_second_def)
  qed
qed

text \<open>The vault decrypts what it encrypted, whatever the random salt, and it still decrypts the two older formats: the versioned
  envelope with the fixed salt and the bare Fernet token.\<close>

theorem vault_roundtrip:
  assumes "\<forall>k x. ve_fernet_decrypt env k (ve_fernet_encrypt env k x) = Some x"
    and "\<forall>k x. take 1 (ve_fernet_encrypt env k x) = ''g''" and "length salt = 16" "utf8_decode x = Some x"
  shows "vault_decrypt env secret (vault_encrypt env secret salt x) = Some x \<and>
    (let old = ve_fernet_encrypt env (urlsafe_b64encode (ve_pbkdf2 env secret fixed_salt)) x
     in vault_decrypt env secret (urlsafe_b64encode (vault_v1 @ old)) = Some x \<and>
        vault_decrypt env secret (urlsafe_b64encode old) = Some x)"
  using assms by (simp add: vault_decrypt_def vault_encrypt_def vault_v1_def vault_v2_def Let_def)

text \<open>An environment that keeps the laws: texts are the numbers of what they stand for.\<close>

definition number_text :: "'a::countable \<Rightarrow> string" where
  "number_text x = nat_digits (to_nat x)"

definition read_number :: "string \<Rightarrow> 'a::countable option" where
  "read_number s = map_option from_nat (nat_of_text s)"

lemma read_number_text [simp]: "read_number (number_text x) = Some x"
  by (simp add: read_number_def number_text_def nat_of_digits)

lemma number_text_plain: "is_ascii (number_text x) \<and> CHR ''.'' \<notin> set (number_text x) \<and> utf8_decode (number_text x) = Some (number_text x)"
proof -
  have d: "\<exists>d::nat. d < 10 \<and> c = char_of (48 + d)" if "c \<in> set (number_text x)" for c
    using that digits_no_space by (simp add: number_text_def)
  have small: "(of_char c :: nat) < 58 \<and> 48 \<le> (of_char c :: nat)" if "c \<in> set (number_text x)" for c using d[OF that] by auto
  then have ascii: "is_ascii (number_text x)" by (force simp: is_ascii_def list_all_iff)
  have "utf8_ok (map of_char s)" if "list_all (\<lambda>c. (of_char c :: nat) < 128) s" for s using that by (induction s) auto
  with ascii have "utf8_decode (number_text x) = Some (number_text x)" by (simp add: utf8_decode_def is_ascii_def)
  moreover have "CHR ''.'' \<notin> set (number_text x)" using small by fastforce
  ultimately show ?thesis using ascii by blast
qed

instance char :: countable
proof (rule countable_classI[of "of_char :: char \<Rightarrow> nat"])
qed (use of_char_nat_eq in blast)

definition claims_tuple :: "token_claims \<Rightarrow> string \<times> string \<times> string \<times> int \<times> int \<times> string list \<times> string \<times> string \<times> string option" where
  "claims_tuple c = (tc_sub c, tc_tenant_id c, tc_iss c, tc_iat c, tc_exp c, tc_scopes c, tc_jti c, tc_identity_kind c, tc_role c)"

definition tuple_claims :: "string \<times> string \<times> string \<times> int \<times> int \<times> string list \<times> string \<times> string \<times> string option \<Rightarrow> token_claims" where
  "tuple_claims t =
     (case t of (sub, tenant_id, iss, iat, expires, scopes, jti, identity_kind, role) \<Rightarrow>
        \<lparr>tc_sub = sub, tc_tenant_id = tenant_id, tc_iss = iss, tc_iat = iat, tc_exp = expires, tc_scopes = scopes, tc_jti = jti,
         tc_identity_kind = identity_kind, tc_role = role\<rparr>)"

lemma tuple_claims [simp]: "tuple_claims (claims_tuple c) = c"
  by (simp add: tuple_claims_def claims_tuple_def)

definition demo_token_env :: token_env where
  "demo_token_env =
     \<lparr>te_hmac = (\<lambda>s p. number_text (s, p)),
      te_dump = (\<lambda>c. number_text (claims_tuple c)),
      te_parse = (\<lambda>s. map_option tuple_claims (read_number s)),
      te_jwt_encode = (\<lambda>c s a. number_text (claims_tuple c, s, a)),
      te_jwt_decode = (\<lambda>tok s a t.
         case read_number tok of
           None \<Rightarrow> Inl InvalidTokenError
         | Some (c, s', a') \<Rightarrow>
             if s' \<noteq> s \<or> a' \<noteq> a then Inl InvalidSignatureError
             else if tc_exp (tuple_claims c) \<le> t then Inl ExpiredSignatureError
             else if tc_iss (tuple_claims c) \<noteq> issuer then Inl InvalidIssuerError else Inr (Some (tuple_claims c))),
      te_aws_generate = (\<lambda>arn. Some (''data key'', arn @ ''data key'')),
      te_aws_decrypt = (\<lambda>arn e. case arn of None \<Rightarrow> None | Some k \<Rightarrow> if starts_with k e then Some (drop (length k) e) else None),
      te_urandom = ''random key'', te_azure_uri_ok = (\<lambda>u. True),
      te_azure_wrap = (\<lambda>u k. Some k), te_azure_unwrap = (\<lambda>u e. Some e),
      te_fernet_encrypt = (\<lambda>k x. number_text (k, x)),
      te_fernet_decrypt = (\<lambda>k y. case read_number y of None \<Rightarrow> None | Some (k', x) \<Rightarrow> if k' = k then Some x else None)\<rparr>"

lemma demo_token_laws: "token_laws demo_token_env c"
  by (simp add: token_laws_def demo_token_env_def number_text_plain starts_with_def microseconds_per_second_def)

lemma demo_tells_secrets: "old \<noteq> new \<Longrightarrow> tells_secrets demo_token_env c old new"
  by (simp add: tells_secrets_def demo_token_env_def)

definition demo_token_config :: token_config where
  "demo_token_config =
     \<lparr>cf_auth_mode = MODE_JWT, cf_jwt_secret = ''old'', cf_jwt_algorithm = ''HS256'', cf_token_ttl_seconds = 3600,
      cf_refresh_token_ttl_seconds = 86400, cf_kms_key_arn = None, cf_kms_provider = KMS_AUTO, cf_oidc_issuer_url = None,
      cf_oidc_audience = None, cf_max_token_ttl_seconds = 86400, cf_jwt_secret_previous = None\<rparr>"

definition demo_claims :: token_claims where
  "demo_claims = issued_claims demo_token_config 0 ''j1'' ''u1'' ''t1'' None None user_kind (Some ''admin'')"

theorem issued_token_lifetime_witness:
  "\<exists>tok. generate_token demo_token_env demo_token_config 0 ''j1'' ''u1'' ''t1'' None None user_kind (Some ''admin'') = Inr tok \<and>
     validate_own_token demo_token_env (rotate_secret ''new'' demo_token_config) 0 tok = Inr demo_claims"
proof -
  let ?tok = "te_jwt_encode demo_token_env demo_claims ''old'' ''HS256''"
  have gen: "generate_token demo_token_env demo_token_config 0 ''j1'' ''u1'' ''t1'' None None user_kind (Some ''admin'') = Inr ?tok"
    by (simp add: generate_token_def sign_token_def sign_jwt_token_def demo_claims_def demo_token_config_def)
  have rot: "cf_auth_mode demo_token_config = MODE_JWT \<and>
      rotate_secret ''new'' demo_token_config = rotate_secret ''new'' demo_token_config \<and>
      tells_secrets demo_token_env demo_claims (cf_jwt_secret demo_token_config) ''new''"
    by (simp add: demo_token_config_def demo_tells_secrets)
  have "tc_exp demo_claims = 3600 * 1000000"
    by (simp add: demo_claims_def issued_claims_def demo_token_config_def microseconds_per_second_def)
  with issued_token_lifetime[OF demo_token_laws demo_claims_def gen disjI2[OF rot]] have
    "validate_own_token demo_token_env (rotate_secret ''new'' demo_token_config) 0 ?tok = Inr demo_claims"
    by (simp add: microseconds_per_second_def)
  with gen show ?thesis by blast
qed

definition demo_vault_env :: vault_env where
  "demo_vault_env =
     \<lparr>ve_pbkdf2 = (\<lambda>s salt. s @ salt), ve_fernet_encrypt = (\<lambda>k x. CHR ''g'' # x), ve_fernet_decrypt = (\<lambda>k y. Some (tl y))\<rparr>"

theorem vault_roundtrip_witness:
  "vault_decrypt demo_vault_env ''s'' (vault_encrypt demo_vault_env ''s'' (replicate 16 CHR ''x'') ''dapi1'') = Some ''dapi1''"
proof -
  have "utf8_decode ''dapi1'' = Some ''dapi1''" by code_simp
  then show ?thesis using vault_roundtrip[of demo_vault_env "replicate 16 CHR ''x''" "''dapi1''" "''s''"]
    by (simp add: demo_vault_env_def)
qed

end
