(* ===== verification/Revocation.thy ===== *)
theory Revocation
  imports Tokens
begin

text \<open>
  Revoked tokens: the table (\<^verbatim>\<open>TokenRevocationRepository\<close> in \<^verbatim>\<open>core_engine/core_engine/state/repository.py\<close>) and the layered
  lookup of the authentication middleware (\<^verbatim>\<open>api/api/middleware/auth.py\<close>): a cache in each replica, Redis, the table. The
  locale \<open>revocation_store\<close> is what the services rely on; it is interpreted on the table. Redis is the record \<open>rev_redis\<close> of the
  two commands sent. Which layers answer a call is an argument of the call.
\<close>

subsection \<open>The table\<close>

record revocation =
  rv_tenant_id :: string
  rv_jti :: string
  rv_reason :: "string option"
  rv_revoked_at :: timestamp
  rv_expires_at :: "timestamp option"

type_synonym revocations = "revocation list"

definition same_token :: "string \<Rightarrow> string \<Rightarrow> revocation \<Rightarrow> bool" where
  "same_token tenant_id jti r \<longleftrightarrow> rv_tenant_id r = tenant_id \<and> rv_jti r = jti"

text \<open>The upsert: a row of the tenant for the token keeps its expiry.\<close>

definition revoke :: "timestamp \<Rightarrow> string \<Rightarrow> string \<Rightarrow> string option \<Rightarrow> timestamp option \<Rightarrow> revocations \<Rightarrow> revocations" where
  "revoke now tenant_id jti reason expires_at tbl =
     (if list_ex (same_token tenant_id jti) tbl
      then map (\<lambda>r. if same_token tenant_id jti r then r\<lparr>rv_reason := reason, rv_revoked_at := now\<rparr> else r) tbl
      else tbl @ [\<lparr>rv_tenant_id = tenant_id, rv_jti = jti, rv_reason = reason, rv_revoked_at = now, rv_expires_at = expires_at\<rparr>])"

definition is_revoked :: "string \<Rightarrow> string option \<Rightarrow> revocations \<Rightarrow> bool" where
  "is_revoked jti tenant_id tbl \<longleftrightarrow>
     0 < length (filter (\<lambda>r. rv_jti r = jti \<and> (case tenant_id of None \<Rightarrow> True | Some t \<Rightarrow> rv_tenant_id r = t)) tbl)"

definition expired_row :: "timestamp \<Rightarrow> revocation \<Rightarrow> bool" where
  "expired_row now r \<longleftrightarrow> (case rv_expires_at r of None \<Rightarrow> False | Some e \<Rightarrow> e < now)"

definition cleanup_expired :: "timestamp \<Rightarrow> string \<Rightarrow> revocations \<Rightarrow> nat \<times> revocations" where
  "cleanup_expired now tenant_id tbl =
     (let gone = (\<lambda>r. rv_tenant_id r = tenant_id \<and> expired_row now r)
      in (length (filter gone tbl), filter (\<lambda>r. \<not> gone r) tbl))"

definition cleanup_all_expired :: "timestamp \<Rightarrow> revocations \<Rightarrow> nat \<times> revocations" where
  "cleanup_all_expired now tbl = (length (filter (expired_row now) tbl), filter (\<lambda>r. \<not> expired_row now r) tbl)"

subsection \<open>What the services rely on\<close>

text \<open>\<open>kept x jti s\<close>: the token is revoked, and no clean-up before the instant \<open>x\<close> forgets it.\<close>

datatype store_step = Put timestamp string string "timestamp option" | Clean timestamp "string option"

fun step_time :: "store_step \<Rightarrow> timestamp" where
  "step_time (Put now _ _ _) = now"
| "step_time (Clean now _) = now"

locale revocation_store =
  fixes put :: "timestamp \<Rightarrow> string \<Rightarrow> string \<Rightarrow> timestamp option \<Rightarrow> 's \<Rightarrow> 's"
    and clean :: "timestamp \<Rightarrow> string option \<Rightarrow> 's \<Rightarrow> 's"
    and revoked :: "string \<Rightarrow> 's \<Rightarrow> bool"
    and kept :: "timestamp \<Rightarrow> string \<Rightarrow> 's \<Rightarrow> bool"
  assumes kept_revoked: "kept x jti s \<Longrightarrow> revoked jti s"
    and kept_put: "kept x jti s \<Longrightarrow> kept x jti (put now tenant jti' expires s)"
    and kept_clean: "kept x jti s \<Longrightarrow> now \<le> x \<Longrightarrow> kept x jti (clean now scope s)"
    and put_kept: "\<not> revoked jti s \<Longrightarrow> (case expires of None \<Rightarrow> True | Some e \<Rightarrow> x \<le> e) \<Longrightarrow> kept x jti (put now tenant jti expires s)"
    and revoked_put: "revoked jti (put now tenant jti' expires s) \<longleftrightarrow> jti = jti' \<or> revoked jti s"
    and revoked_clean: "revoked jti (clean now scope s) \<Longrightarrow> revoked jti s"
begin

fun put_or_clean :: "store_step \<Rightarrow> 's \<Rightarrow> 's" where
  "put_or_clean (Put now tenant jti expires) s = put now tenant jti expires s"
| "put_or_clean (Clean now scope) s = clean now scope s"

definition after :: "store_step list \<Rightarrow> 's \<Rightarrow> 's" where
  "after h s = foldl (\<lambda>s e. put_or_clean e s) s h"

lemma kept_after: "kept x jti s \<Longrightarrow> \<forall>e\<in>set h. step_time e \<le> x \<Longrightarrow> kept x jti (after h s)"
proof (induction h arbitrary: s)
  case (Cons e h)
  then show ?case by (cases e) (auto simp: after_def kept_put kept_clean)
qed (simp add: after_def)

text \<open>Once revoked until its expiry, a token stays revoked until then, whatever is revoked or cleaned up.\<close>

lemma revoked_until:
  "\<not> revoked jti s \<Longrightarrow> (case expires of None \<Rightarrow> True | Some e \<Rightarrow> x \<le> e) \<Longrightarrow> \<forall>e\<in>set h. step_time e \<le> x \<Longrightarrow>
   revoked jti (after h (put now tenant jti expires s))"
  by (intro kept_revoked kept_after put_kept)

lemma never_put: "revoked jti (after h s) \<Longrightarrow> revoked jti s \<or> (\<exists>now tenant expires. Put now tenant jti expires \<in> set h)"
proof (induction h arbitrary: s)
  case (Cons e h)
  then show ?case by (cases e) (fastforce simp: after_def revoked_put dest: revoked_clean)+
qed (simp add: after_def)

end

definition put_revocation :: "timestamp \<Rightarrow> string \<Rightarrow> string \<Rightarrow> timestamp option \<Rightarrow> revocations \<Rightarrow> revocations" where
  "put_revocation now tenant jti expires tbl = revoke now tenant jti None expires tbl"

definition clean_revocations :: "timestamp \<Rightarrow> string option \<Rightarrow> revocations \<Rightarrow> revocations" where
  "clean_revocations now tenant tbl =
     snd (case tenant of None \<Rightarrow> cleanup_all_expired now tbl | Some t \<Rightarrow> cleanup_expired now t tbl)"

definition kept_row :: "timestamp \<Rightarrow> string \<Rightarrow> revocations \<Rightarrow> bool" where
  "kept_row x jti tbl \<longleftrightarrow> (\<exists>r\<in>set tbl. rv_jti r = jti \<and> (case rv_expires_at r of None \<Rightarrow> True | Some e \<Rightarrow> x \<le> e))"

lemma is_revoked_iff: "is_revoked jti None tbl \<longleftrightarrow> (\<exists>r\<in>set tbl. rv_jti r = jti)"
  by (auto simp: is_revoked_def filter_empty_conv)

definition renewed :: "timestamp \<Rightarrow> string \<Rightarrow> string \<Rightarrow> string option \<Rightarrow> revocation \<Rightarrow> revocation" where
  "renewed now tenant jti reason r = (if same_token tenant jti r then r\<lparr>rv_reason := reason, rv_revoked_at := now\<rparr> else r)"

lemma renewed_fields [simp]:
  "rv_jti (renewed now tenant jti reason r) = rv_jti r" "rv_expires_at (renewed now tenant jti reason r) = rv_expires_at r"
  "rv_tenant_id (renewed now tenant jti reason r) = rv_tenant_id r"
  by (simp_all add: renewed_def)

lemma revoke_set:
  "set (revoke now tenant jti reason expires tbl) =
     (if \<exists>r\<in>set tbl. same_token tenant jti r then renewed now tenant jti reason ` set tbl
      else insert \<lparr>rv_tenant_id = tenant, rv_jti = jti, rv_reason = reason, rv_revoked_at = now, rv_expires_at = expires\<rparr> (set tbl))"
  by (auto simp: revoke_def list_ex_iff renewed_def)

lemma revoke_keeps:
  assumes "r \<in> set tbl"
  shows "\<exists>r'\<in>set (revoke now tenant jti reason expires tbl). rv_jti r' = rv_jti r \<and> rv_expires_at r' = rv_expires_at r"
  using assms unfolding revoke_set by auto

lemma revoked_after_revoke:
  "is_revoked j None (revoke now tenant jti reason expires tbl) \<longleftrightarrow> j = jti \<or> is_revoked j None tbl"
  unfolding is_revoked_iff revoke_set by (auto simp: same_token_def)

lemma kept_row_revoke: "kept_row x j tbl \<Longrightarrow> kept_row x j (revoke now tenant jti reason expires tbl)"
  unfolding kept_row_def using revoke_keeps[of _ tbl now tenant jti reason expires] by (metis (no_types, lifting))

lemma revoke_kept_row:
  assumes "\<not> is_revoked jti None tbl" "case expires of None \<Rightarrow> True | Some e \<Rightarrow> x \<le> e"
  shows "kept_row x jti (revoke now tenant jti reason expires tbl)"
proof -
  have "\<not> (\<exists>r\<in>set tbl. same_token tenant jti r)" using assms(1) by (auto simp: is_revoked_iff same_token_def)
  then show ?thesis unfolding kept_row_def revoke_set using assms(2) by simp
qed

lemma clean_subset: "set (clean_revocations now tenant tbl) \<subseteq> set tbl"
  by (auto simp: clean_revocations_def cleanup_all_expired_def cleanup_expired_def Let_def split: option.splits)

lemma kept_row_clean:
  assumes "kept_row x jti tbl" "now \<le> x"
  shows "kept_row x jti (clean_revocations now tenant tbl)"
proof -
  from assms obtain r where r: "r \<in> set tbl" "rv_jti r = jti" "case rv_expires_at r of None \<Rightarrow> True | Some e \<Rightarrow> x \<le> e"
    by (auto simp: kept_row_def)
  then have "\<not> expired_row now r" using assms(2) by (auto simp: expired_row_def split: option.splits)
  with r have "r \<in> set (clean_revocations now tenant tbl)"
    by (auto simp: clean_revocations_def cleanup_all_expired_def cleanup_expired_def Let_def split: option.splits)
  with r show ?thesis by (auto simp: kept_row_def)
qed

interpretation table: revocation_store put_revocation clean_revocations "\<lambda>jti. is_revoked jti None" kept_row
proof unfold_locales
  show "is_revoked jti None s" if "kept_row x jti s" for x jti s using that by (auto simp: kept_row_def is_revoked_iff)
  show "is_revoked jti None s" if "is_revoked jti None (clean_revocations now tenant s)" for jti now tenant s
    using that by (auto simp: is_revoked_iff dest: subsetD[OF clean_subset])
qed (auto simp: put_revocation_def kept_row_revoke kept_row_clean revoke_kept_row revoked_after_revoke)

subsection \<open>The cache of a replica\<close>

record rev_cache =
  rc_cache :: "(string \<times> bool \<times> timestamp) list"
  rc_ttl :: int
  rc_max_entries :: nat

definition new_rev_cache :: "int \<Rightarrow> rev_cache" where
  "new_rev_cache ttl = \<lparr>rc_cache = [], rc_ttl = ttl, rc_max_entries = 10000\<rparr>"

definition cache_get :: "timestamp \<Rightarrow> string \<Rightarrow> rev_cache \<Rightarrow> bool option \<times> rev_cache" where
  "cache_get now jti c =
     (case map_of (rc_cache c) jti of
        None \<Rightarrow> (None, c)
      | Some (revoked, cached_at) \<Rightarrow>
          if now - cached_at > rc_ttl c then (None, c\<lparr>rc_cache := dict_del (rc_cache c) jti\<rparr>) else (Some revoked, c))"

definition stale_keys :: "timestamp \<Rightarrow> rev_cache \<Rightarrow> string list" where
  "stale_keys now c = map fst (filter (\<lambda>(k, _, t). now - t > rc_ttl c) (rc_cache c))"

definition cache_cleanup :: "timestamp \<Rightarrow> rev_cache \<Rightarrow> rev_cache" where
  "cache_cleanup now c = c\<lparr>rc_cache := foldl dict_del (rc_cache c) (stale_keys now c)\<rparr>"

definition cache_set :: "timestamp \<Rightarrow> string \<Rightarrow> bool \<Rightarrow> rev_cache \<Rightarrow> rev_cache" where
  "cache_set now jti revoked c =
     (let c = (if length (rc_cache c) \<ge> rc_max_entries c then cache_cleanup now c else c)
      in c\<lparr>rc_cache := dict_set (rc_cache c) jti (revoked, now)\<rparr>)"

fun get_batch :: "timestamp \<Rightarrow> string list \<Rightarrow> rev_cache \<Rightarrow> (string \<times> bool option) list \<Rightarrow> (string \<times> bool option) list \<times> rev_cache" where
  "get_batch now [] c result = (result, c)"
| "get_batch now (jti # jtis) c result =
     (let (status, c) = cache_get now jti c in get_batch now jtis c (dict_set result jti status))"

subsection \<open>The layered lookup\<close>

record 'r rev_redis =
  rr_get :: "'r \<Rightarrow> timestamp \<Rightarrow> string \<Rightarrow> string option"
  rr_set :: "'r \<Rightarrow> timestamp \<Rightarrow> string \<Rightarrow> string \<Rightarrow> int \<Rightarrow> 'r"

text \<open>What answers during a call: a Redis client, its reads, its writes, and the \<open>n\<close>-th lookup in the database.\<close>

record availability =
  av_client :: bool
  av_get :: bool
  av_set :: bool
  av_db :: "nat \<Rightarrow> bool"

text \<open>The caches are the replica's own; Redis and the table are shared.\<close>

record 'r shared_store =
  ss_redis :: 'r
  ss_rows :: revocations

definition revoked_key :: "string \<Rightarrow> string" where
  "revoked_key jti = ''ironlayer:revoked:'' @ jti"

definition one_day :: int where
  "one_day = 86400 * microseconds_per_second"

definition populate_redis :: "'r rev_redis \<Rightarrow> availability \<Rightarrow> timestamp \<Rightarrow> string \<Rightarrow> 'r \<Rightarrow> 'r" where
  "populate_redis rr av now jti r = (if av_client av \<and> av_set av then rr_set rr r now (revoked_key jti) ''1'' one_day else r)"

definition look_up_row ::
  "'r rev_redis \<Rightarrow> bool \<Rightarrow> availability \<Rightarrow> timestamp \<Rightarrow> string \<Rightarrow> rev_cache \<Rightarrow> 'r shared_store \<Rightarrow>
   bool \<times> rev_cache \<times> 'r shared_store" where
  "look_up_row rr redis_url av now jti c ss =
     (let revoked = is_revoked jti None (ss_rows ss);
          c = cache_set now jti revoked c;
          ss = (if redis_url \<and> revoked then ss\<lparr>ss_redis := populate_redis rr av now jti (ss_redis ss)\<rparr> else ss)
      in (revoked, c, ss))"

text \<open>When the database does not answer, the cache is asked again.\<close>

definition stale_or_closed :: "timestamp \<Rightarrow> string \<Rightarrow> rev_cache \<Rightarrow> bool \<times> rev_cache" where
  "stale_or_closed now jti c = (case cache_get now jti c of (Some stale, c) \<Rightarrow> (stale, c) | (None, c) \<Rightarrow> (True, c))"

definition check_revocation ::
  "'r rev_redis \<Rightarrow> bool \<Rightarrow> availability \<Rightarrow> timestamp \<Rightarrow> string \<Rightarrow> rev_cache \<Rightarrow> 'r shared_store \<Rightarrow>
   bool \<times> rev_cache \<times> 'r shared_store" where
  "check_revocation rr redis_url av now jti c ss =
     (case cache_get now jti c of
        (Some revoked, c) \<Rightarrow> (revoked, c, ss)
      | (None, c) \<Rightarrow>
          if redis_url \<and> \<not> av_client av then (True, c, ss)
          else (case (if redis_url \<and> av_get av then rr_get rr (ss_redis ss) now (revoked_key jti) else None) of
                  Some s \<Rightarrow> (s = ''1'', cache_set now jti (s = ''1'') c, ss)
                | None \<Rightarrow>
                    if av_db av 0 then look_up_row rr redis_url av now jti c ss
                    else (let (revoked, c) = stale_or_closed now jti c in (revoked, c, ss))))"

subsection \<open>The lookup of many tokens\<close>

fun redis_values ::
  "timestamp \<Rightarrow> (string \<times> string option) list \<Rightarrow> rev_cache \<Rightarrow> (string \<times> bool) list \<Rightarrow> string list \<Rightarrow>
   (string \<times> bool) list \<times> string list \<times> rev_cache" where
  "redis_values now [] c result misses = (result, misses, c)"
| "redis_values now ((jti, v) # vs) c result misses =
     (case v of
        Some s \<Rightarrow> redis_values now vs (cache_set now jti (s = ''1'') c) (dict_set result jti (s = ''1'')) misses
      | None \<Rightarrow> redis_values now vs c result (misses @ [jti]))"

text \<open>The loop over the database ends at the first lookup that fails.\<close>

fun rows_loop ::
  "'r rev_redis \<Rightarrow> bool \<Rightarrow> availability \<Rightarrow> timestamp \<Rightarrow> nat \<Rightarrow> string list \<Rightarrow> rev_cache \<Rightarrow> 'r shared_store \<Rightarrow>
   (string \<times> bool) list \<Rightarrow> bool \<times> (string \<times> bool) list \<times> rev_cache \<times> 'r shared_store" where
  "rows_loop rr redis_url av now n [] c ss result = (True, result, c, ss)"
| "rows_loop rr redis_url av now n (jti # jtis) c ss result =
     (if \<not> av_db av n then (False, result, c, ss)
      else (let (revoked, c, ss) = look_up_row rr redis_url av now jti c ss
            in rows_loop rr redis_url av now (Suc n) jtis c ss (dict_set result jti revoked)))"

fun stale_loop :: "timestamp \<Rightarrow> string list \<Rightarrow> rev_cache \<Rightarrow> (string \<times> bool) list \<Rightarrow> (string \<times> bool) list \<times> rev_cache" where
  "stale_loop now [] c result = (result, c)"
| "stale_loop now (jti # jtis) c result =
     (let (revoked, c) = stale_or_closed now jti c in stale_loop now jtis c (dict_set result jti revoked))"

definition check_revocation_batch ::
  "'r rev_redis \<Rightarrow> bool \<Rightarrow> availability \<Rightarrow> timestamp \<Rightarrow> string list \<Rightarrow> rev_cache \<Rightarrow> 'r shared_store \<Rightarrow>
   (string \<times> bool) list \<times> rev_cache \<times> 'r shared_store" where
  "check_revocation_batch rr redis_url av now jtis c ss =
     (let (cached, c) = get_batch now jtis c [];
          result = foldl (\<lambda>d (jti, status). case status of Some b \<Rightarrow> dict_set d jti b | None \<Rightarrow> d) [] cached;
          misses = map fst (filter (\<lambda>(_, status). status = None) cached)
      in if misses = [] then (result, c, ss)
         else if redis_url \<and> \<not> av_client av then (foldl (\<lambda>d jti. dict_set d jti True) result misses, c, ss)
         else (let (result, db_misses, c) =
                     (if redis_url \<and> av_get av
                      then redis_values now (map (\<lambda>jti. (jti, rr_get rr (ss_redis ss) now (revoked_key jti))) misses) c result []
                      else (result, misses, c))
               in if db_misses = [] then (result, c, ss)
                  else (let (ok, result, c, ss) = rows_loop rr redis_url av now 0 db_misses c ss result
                        in if ok then (result, c, ss)
                           else (let (result, c) = stale_loop now db_misses c result in (result, c, ss)))))"

subsection \<open>What the cache answers\<close>

definition view :: "timestamp \<Rightarrow> string \<Rightarrow> rev_cache \<Rightarrow> bool option" where
  "view now jti c =
     (case map_of (rc_cache c) jti of None \<Rightarrow> None | Some (b, t) \<Rightarrow> if now - t > rc_ttl c then None else Some b)"

definition cache_ok :: "rev_cache \<Rightarrow> bool" where
  "cache_ok c \<longleftrightarrow> dict_ok (rc_cache c)"

text \<open>\<open>same_views now c c'\<close>: from \<open>now\<close> on the caches answer alike.\<close>

definition same_views :: "timestamp \<Rightarrow> rev_cache \<Rightarrow> rev_cache \<Rightarrow> bool" where
  "same_views now c c' \<longleftrightarrow> rc_ttl c' = rc_ttl c \<and> (cache_ok c \<longrightarrow> cache_ok c') \<and> (\<forall>t k. now \<le> t \<longrightarrow> view t k c' = view t k c)"

lemma same_views_refl [simp]: "same_views now c c"
  by (simp add: same_views_def)

lemma same_views_trans: "same_views now c c' \<Longrightarrow> same_views now c' c'' \<Longrightarrow> same_views now c c''"
  by (simp add: same_views_def)

lemma cache_get_view: "fst (cache_get now jti c) = view now jti c"
  by (simp add: cache_get_def view_def split: option.splits)

lemma cache_get_same: "same_views now c (snd (cache_get now jti c))"
  by (auto simp: cache_get_def same_views_def cache_ok_def view_def split: option.splits)

lemma map_of_foldl_del: "map_of (foldl dict_del d ks) k = (if k \<in> set ks then None else map_of d k)"
  by (induction ks arbitrary: d) auto

lemma dict_ok_foldl_del: "dict_ok d \<Longrightarrow> dict_ok (foldl dict_del d ks)"
  by (induction ks arbitrary: d) auto

lemma cache_cleanup_same:
  assumes "cache_ok c"
  shows "same_views now c (cache_cleanup now c)"
proof -
  have "view t k (cache_cleanup now c) = view t k c" if "now \<le> t" for t k
  proof (cases "map_of (rc_cache c) k")
    case None
    then show ?thesis by (simp add: view_def cache_cleanup_def map_of_foldl_del)
  next
    case (Some e)
    have "(k, e) \<in> set (rc_cache c)" using Some by (rule map_of_SomeD)
    moreover have "e' = e" if "(k, e') \<in> set (rc_cache c)" for e'
      using map_of_SomeI[OF assms[unfolded cache_ok_def] that] Some by simp
    ultimately have "k \<in> set (stale_keys now c) \<longleftrightarrow> now - snd e > rc_ttl c"
      by (force simp: case_prod_unfold stale_keys_def)
    then show ?thesis using Some that by (cases e) (simp add: view_def cache_cleanup_def map_of_foldl_del)
  qed
  then show ?thesis using assms by (simp add: same_views_def cache_cleanup_def cache_ok_def dict_ok_foldl_del)
qed

lemma view_put:
  "view t k (c\<lparr>rc_cache := dict_set (rc_cache c) jti (b, now)\<rparr>) =
     (if k = jti then if t - now > rc_ttl c then None else Some b else view t k c)"
  by (auto simp: view_def split: option.splits)

lemma cache_set_facts:
  assumes "cache_ok c"
  shows "cache_ok (cache_set now jti b c)" "rc_ttl (cache_set now jti b c) = rc_ttl c"
    "now \<le> t \<Longrightarrow> view t k (cache_set now jti b c) = (if k = jti then if t - now > rc_ttl c then None else Some b else view t k c)"
    "map_of (rc_cache (cache_set now jti b c)) jti = Some (b, now)"
    "k \<noteq> jti \<Longrightarrow> map_of (rc_cache (cache_set now jti b c)) k = Some e \<Longrightarrow> map_of (rc_cache c) k = Some e"
proof -
  let ?c = "if length (rc_cache c) \<ge> rc_max_entries c then cache_cleanup now c else c"
  have same: "same_views now c ?c" using cache_cleanup_same[OF assms] by simp
  have set: "cache_set now jti b c = ?c\<lparr>rc_cache := dict_set (rc_cache ?c) jti (b, now)\<rparr>" by (simp add: cache_set_def Let_def)
  have sub: "map_of (rc_cache ?c) k = Some e \<Longrightarrow> map_of (rc_cache c) k = Some e"
    by (auto simp: cache_cleanup_def map_of_foldl_del split: if_splits)
  show "cache_ok (cache_set now jti b c)" "rc_ttl (cache_set now jti b c) = rc_ttl c"
    using same assms unfolding set by (simp_all add: same_views_def cache_ok_def)
  show "map_of (rc_cache (cache_set now jti b c)) jti = Some (b, now)" unfolding set by simp
  show "map_of (rc_cache c) k = Some e" if "k \<noteq> jti" "map_of (rc_cache (cache_set now jti b c)) k = Some e"
    using that sub unfolding set by simp
  show "view t k (cache_set now jti b c) = (if k = jti then if t - now > rc_ttl c then None else Some b else view t k c)" if "now \<le> t"
    using same that unfolding set view_put by (simp add: same_views_def)
qed

subsection \<open>The answer of one lookup\<close>

definition layered_answer ::
  "'r rev_redis \<Rightarrow> bool \<Rightarrow> availability \<Rightarrow> timestamp \<Rightarrow> rev_cache \<Rightarrow> 'r shared_store \<Rightarrow> string \<Rightarrow> bool" where
  "layered_answer rr redis_url av now c ss jti =
     (case view now jti c of
        Some b \<Rightarrow> b
      | None \<Rightarrow>
          if redis_url \<and> \<not> av_client av then True
          else (case (if redis_url \<and> av_get av then rr_get rr (ss_redis ss) now (revoked_key jti) else None) of
                  Some s \<Rightarrow> s = ''1''
                | None \<Rightarrow> av_db av 0 \<longrightarrow> is_revoked jti None (ss_rows ss)))"

text \<open>A database that does not answer always means a refusal: an entry that expired is gone when it is asked for again.\<close>

lemma stale_is_closed: "view now jti c = None \<Longrightarrow> fst (stale_or_closed now jti c)"
  using cache_get_view[of now jti c] by (cases "cache_get now jti c") (auto simp: stale_or_closed_def)

lemma stale_same: "same_views now c (snd (stale_or_closed now jti c))"
  using cache_get_same[of now c jti] by (cases "cache_get now jti c") (auto simp: stale_or_closed_def split: option.splits)

lemma check_answer: "fst (check_revocation rr redis_url av now jti c ss) = layered_answer rr redis_url av now c ss jti"
proof -
  obtain v c1 where g: "cache_get now jti c = (v, c1)" by (cases "cache_get now jti c")
  then have v: "v = view now jti c" and same: "same_views now c c1"
    using cache_get_view[of now jti c] cache_get_same[of now c jti] by simp_all
  show ?thesis
  proof (cases v)
    case None
    then have "view now jti c1 = None" using same v by (simp add: same_views_def)
    then have "fst (stale_or_closed now jti c1)" by (rule stale_is_closed)
    then show ?thesis using g None v
      by (cases "stale_or_closed now jti c1")
        (auto simp: check_revocation_def layered_answer_def look_up_row_def Let_def split: option.splits)
  next
    case (Some b)
    then show ?thesis using g v by (simp add: check_revocation_def layered_answer_def)
  qed
qed

subsection \<open>The batch answers as the single lookups do\<close>

lemma get_batch_facts:
  "(\<forall>k. map_of (fst (get_batch now jtis c result)) k = (if k \<in> set jtis then Some (view now k c) else map_of result k)) \<and>
   (dict_ok result \<longrightarrow> dict_ok (fst (get_batch now jtis c result))) \<and> same_views now c (snd (get_batch now jtis c result))"
proof (induction jtis arbitrary: c result)
  case (Cons jti jtis)
  obtain v c1 where g: "cache_get now jti c = (v, c1)" by (cases "cache_get now jti c")
  then have v: "v = view now jti c" and same: "same_views now c c1"
    using cache_get_view[of now jti c] cache_get_same[of now c jti] by simp_all
  have views: "view now k c1 = view now k c" for k using same by (simp add: same_views_def)
  have step: "get_batch now (jti # jtis) c result = get_batch now jtis c1 (dict_set result jti v)" by (simp add: g)
  show ?case unfolding step using Cons.IH[of c1 "dict_set result jti v"] same by (auto simp: v views intro: same_views_trans)
qed simp

definition collect_cached :: "(string \<times> bool option) list \<Rightarrow> (string \<times> bool) list" where
  "collect_cached cached = foldl (\<lambda>d (jti, status). case status of Some b \<Rightarrow> dict_set d jti b | None \<Rightarrow> d) [] cached"

lemma collect_cached_map:
  assumes "dict_ok cached"
  shows "map_of (collect_cached cached) k = (case map_of cached k of Some (Some b) \<Rightarrow> Some b | _ \<Rightarrow> None)"
proof -
  have "map_of (foldl (\<lambda>d (jti, status). case status of Some b \<Rightarrow> dict_set d jti b | None \<Rightarrow> d) d cached) k =
      (case map_of cached k of Some (Some b) \<Rightarrow> Some b | _ \<Rightarrow> map_of d k)" for d
    using assms
  proof (induction cached arbitrary: d)
    case (Cons e cached)
    then have ok: "dict_ok cached" and fresh: "fst e \<notin> fst ` set cached" by (auto simp: dict_ok_def)
    then have "map_of cached (fst e) = None" by (simp add: map_of_eq_None_iff)
    with Cons.IH[OF ok] show ?case by (cases e; cases "snd e") (auto split: option.splits)
  qed simp
  then show ?thesis by (auto simp: collect_cached_def split: option.splits)
qed

lemma fold_true: "map_of (foldl (\<lambda>d jti. dict_set d jti True) d jtis) k = (if k \<in> set jtis then Some True else map_of d k)"
  by (induction jtis arbitrary: d) auto

lemma redis_values_facts:
  assumes "dict_ok vs" "cache_ok c" "redis_values now vs c result misses = (result', misses', c')"
  shows "(\<forall>k. map_of result' k = (case map_of vs k of Some (Some s) \<Rightarrow> Some (s = ''1'') | _ \<Rightarrow> map_of result k)) \<and>
    set misses' = set misses \<union> {k. map_of vs k = Some None} \<and>
    (\<forall>k t. now \<le> t \<longrightarrow> (\<forall>s. map_of vs k \<noteq> Some (Some s)) \<longrightarrow> view t k c' = view t k c)"
  using assms
proof (induction vs arbitrary: c result misses)
  case (Cons e vs)
  obtain j v where e: "e = (j, v)" by (cases e)
  from Cons.prems have ok: "dict_ok vs" and fresh: "map_of vs j = None"
    using e by (auto simp: dict_ok_def map_of_eq_None_iff)
  show ?case
  proof (cases v)
    case None
    then have "redis_values now vs c result (misses @ [j]) = (result', misses', c')" using Cons.prems(3) e by simp
    from Cons.IH[OF ok Cons.prems(2) this] None e fresh show ?thesis by auto
  next
    case (Some s)
    then have "redis_values now vs (cache_set now j (s = ''1'') c) (dict_set result j (s = ''1'')) misses = (result', misses', c')"
      using Cons.prems(3) e by simp
    from Cons.IH[OF ok cache_set_facts(1)[OF Cons.prems(2)] this] Some e fresh cache_set_facts(3)[OF Cons.prems(2)]
    show ?thesis by (auto split: option.splits)
  qed
qed auto

lemma rows_loop_all:
  assumes "\<forall>n. av_db av n"
  shows "fst (rows_loop rr redis_url av now n jtis c ss result) \<and>
    (\<forall>k. map_of (fst (snd (rows_loop rr redis_url av now n jtis c ss result))) k =
       (if k \<in> set jtis then Some (is_revoked k None (ss_rows ss)) else map_of result k))"
proof (induction jtis arbitrary: n c ss result)
  case (Cons j jtis)
  obtain c1 ss1 where l: "look_up_row rr redis_url av now j c ss = (is_revoked j None (ss_rows ss), c1, ss1)" "ss_rows ss1 = ss_rows ss"
    by (simp add: look_up_row_def Let_def)
  have step: "rows_loop rr redis_url av now n (j # jtis) c ss result =
      rows_loop rr redis_url av now (Suc n) jtis c1 ss1 (dict_set result j (is_revoked j None (ss_rows ss)))"
    using assms l by simp
  show ?case unfolding step using Cons.IH[of "Suc n" c1 ss1 "dict_set result j (is_revoked j None (ss_rows ss))"] l(2) by auto
qed simp

lemma stale_loop_closed:
  assumes "\<forall>j\<in>set jtis. view now j c = None"
  shows "map_of (fst (stale_loop now jtis c result)) k = (if k \<in> set jtis then Some True else map_of result k)"
  using assms
proof (induction jtis arbitrary: c result)
  case (Cons j jtis)
  obtain b c1 where s: "stale_or_closed now j c = (b, c1)" by (cases "stale_or_closed now j c")
  then have b: "b" and same: "same_views now c c1" using stale_is_closed[of now j c] stale_same[of now c j] Cons.prems by auto
  then have "\<forall>k\<in>set jtis. view now k c1 = None" using Cons.prems by (simp add: same_views_def)
  from Cons.IH[OF this] s b show ?case by auto
qed simp

text \<open>The batch lookup gives for every token the answer that a lookup of that token alone gives in the same situation, whichever
  of the layers answer: the cache, Redis, and the database when it answers all lookups or none.\<close>

theorem batch_agrees_with_single:
  assumes "cache_ok c" "\<forall>n. av_db av n = av_db av 0" "jti \<in> set jtis"
  shows "map_of (fst (check_revocation_batch rr redis_url av now jtis c ss)) jti =
    Some (fst (check_revocation rr redis_url av now jti c ss))"
proof -
  obtain cached c1 where g: "get_batch now jtis c [] = (cached, c1)" by (cases "get_batch now jtis c []")
  have cached: "map_of cached k = (if k \<in> set jtis then Some (view now k c) else None)" and ok: "dict_ok cached"
    and same: "same_views now c c1" for k
    using get_batch_facts[of now jtis c "[]"] g by (simp_all add: dict_ok_def)
  define misses where "misses = map fst (filter (\<lambda>(_, status). status = None) cached)"
  have result: "map_of (collect_cached cached) k = (if k \<in> set jtis then view now k c else None)" for k
    using collect_cached_map[OF ok, of k] cached by (auto split: option.splits)
  have misses: "k \<in> set misses \<longleftrightarrow> k \<in> set jtis \<and> view now k c = None" for k
  proof -
    have "k \<in> set misses \<longleftrightarrow> (k, None) \<in> set cached" unfolding misses_def by force
    also have "\<dots> \<longleftrightarrow> map_of cached k = Some None" using ok by (auto dest: map_of_SomeI map_of_SomeD)
    finally show ?thesis by (simp add: cached)
  qed
  have "dict_ok (filter (\<lambda>(_, status). status = None) cached)" using ok by simp
  then have vs: "dict_ok (map (\<lambda>jti. (jti, f jti)) misses)" for f :: "string \<Rightarrow> string option"
    by (simp add: dict_ok_def misses_def comp_def)
  obtain result db_misses c2 where r: "(if redis_url \<and> av_get av
      then redis_values now (map (\<lambda>jti. (jti, rr_get rr (ss_redis ss) now (revoked_key jti))) misses) c1 (collect_cached cached) []
      else (collect_cached cached, misses, c1)) = (result, db_misses, c2)"
    by (cases "if redis_url \<and> av_get av
      then redis_values now (map (\<lambda>jti. (jti, rr_get rr (ss_redis ss) now (revoked_key jti))) misses) c1 (collect_cached cached) []
      else (collect_cached cached, misses, c1)")
  have batch: "check_revocation_batch rr redis_url av now jtis c ss =
     (if misses = [] then (collect_cached cached, c1, ss)
      else if redis_url \<and> \<not> av_client av then (foldl (\<lambda>d jti. dict_set d jti True) (collect_cached cached) misses, c1, ss)
      else if db_misses = [] then (result, c2, ss)
      else (let (ok, result, c, ss) = rows_loop rr redis_url av now 0 db_misses c2 ss result
            in if ok then (result, c, ss) else (let (result, c) = stale_loop now db_misses c result in (result, c, ss))))"
    unfolding check_revocation_batch_def g Let_def prod.case collect_cached_def[symmetric] misses_def[symmetric] r ..
  define g where "g k = (if redis_url \<and> av_get av then rr_get rr (ss_redis ss) now (revoked_key k) else None)" for k
  have entries: "map_of (map (\<lambda>jti. (jti, f jti)) misses) k = (if k \<in> set misses then Some (f k) else None)" for f :: "string \<Rightarrow> string option" and k
    by (simp add: map_of_map_restrict restrict_map_def)
  have r_facts: "(\<forall>k. map_of result k = (if k \<in> set misses then map_option (\<lambda>s. s = ''1'') (g k) else map_of (collect_cached cached) k)) \<and>
      set db_misses = {k. k \<in> set misses \<and> g k = None} \<and> (\<forall>k\<in>set db_misses. view now k c2 = None)"
  proof (cases "redis_url \<and> av_get av")
    case True
    then have "redis_values now (map (\<lambda>jti. (jti, rr_get rr (ss_redis ss) now (revoked_key jti))) misses) c1 (collect_cached cached) []
        = (result, db_misses, c2)" using r by simp
    moreover have "cache_ok c1" using same assms(1) by (simp add: same_views_def)
    ultimately have f: "map_of result k = (if k \<in> set misses then map_option (\<lambda>s. s = ''1'') (g k) else map_of (collect_cached cached) k)"
      "k \<in> set db_misses \<longleftrightarrow> k \<in> set misses \<and> g k = None"
      "k \<in> set misses \<longrightarrow> g k = None \<longrightarrow> view now k c2 = view now k c1" for k
      using redis_values_facts[OF vs, of c1 now _ "collect_cached cached" "[]" result db_misses c2] True
      unfolding entries by (simp_all add: g_def misses result split: option.splits)
    then show ?thesis using misses same by (auto simp: same_views_def)
  next
    case False
    then have eqs: "result = collect_cached cached" "db_misses = misses" "c2 = c1" and "g k = None" for k using r by (auto simp: g_def)
    with same show ?thesis unfolding eqs by (auto simp: misses result same_views_def)
  qed
  have rest: "map_of (fst (let (ok, result, c, ss) = rows_loop rr redis_url av now 0 db_misses c2 ss result
      in if ok then (result, c, ss) else (let (result, c) = stale_loop now db_misses c result in (result, c, ss)))) k =
      (if k \<in> set db_misses then Some (av_db av 0 \<longrightarrow> is_revoked k None (ss_rows ss)) else map_of result k)"
    if ne: "db_misses \<noteq> []" for k
  proof (cases "av_db av 0")
    case True
    then have "\<forall>n. av_db av n" using assms(2) by blast
    from rows_loop_all[OF this, of rr redis_url now 0 db_misses c2 ss result] True show ?thesis
      by (auto simp: Let_def case_prod_unfold)
  next
    case False
    then have "rows_loop rr redis_url av now 0 db_misses c2 ss result = (False, result, c2, ss)" using ne by (cases db_misses) auto
    with False stale_loop_closed[of db_misses now c2 result] r_facts show ?thesis by (simp add: Let_def case_prod_unfold)
  qed
  have "map_of (fst (check_revocation_batch rr redis_url av now jtis c ss)) jti =
     (if misses = [] then map_of (collect_cached cached) jti
      else if redis_url \<and> \<not> av_client av then (if jti \<in> set misses then Some True else map_of (collect_cached cached) jti)
      else if jti \<in> set db_misses then Some (av_db av 0 \<longrightarrow> is_revoked jti None (ss_rows ss)) else map_of result jti)"
    unfolding batch using rest[of jti] by (simp add: fold_true)
  also have "\<dots> = Some (layered_answer rr redis_url av now c ss jti)"
    using misses[of jti] result[of jti] r_facts assms(3)
    by (cases "view now jti c"; cases "g jti") (auto simp: layered_answer_def g_def[symmetric])
  finally show ?thesis by (simp add: check_answer)
qed

subsection \<open>Replicas over a shared store\<close>

record 'r deployment =
  dp_caches :: "nat \<Rightarrow> rev_cache"
  dp_shared :: "'r shared_store"

datatype token_event =
    RevokeToken timestamp string string "string option" "timestamp option"
  | CheckToken timestamp nat availability string
  | CleanTokens timestamp "string option"

fun event_time :: "token_event \<Rightarrow> timestamp" where
  "event_time (RevokeToken now _ _ _ _) = now"
| "event_time (CheckToken now _ _ _) = now"
| "event_time (CleanTokens now _) = now"

fun token_step :: "'r rev_redis \<Rightarrow> bool \<Rightarrow> token_event \<Rightarrow> 'r deployment \<Rightarrow> 'r deployment" where
  "token_step rr redis_url (RevokeToken now tenant jti reason expires) d =
     d\<lparr>dp_shared := (dp_shared d)\<lparr>ss_rows := revoke now tenant jti reason expires (ss_rows (dp_shared d))\<rparr>\<rparr>"
| "token_step rr redis_url (CheckToken now replica av jti) d =
     (let (_, c, ss) = check_revocation rr redis_url av now jti (dp_caches d replica) (dp_shared d)
      in d\<lparr>dp_caches := (dp_caches d)(replica := c), dp_shared := ss\<rparr>)"
| "token_step rr redis_url (CleanTokens now scope) d =
     d\<lparr>dp_shared := (dp_shared d)\<lparr>ss_rows := clean_revocations now scope (ss_rows (dp_shared d))\<rparr>\<rparr>"

definition token_history :: "'r rev_redis \<Rightarrow> bool \<Rightarrow> token_event list \<Rightarrow> 'r deployment \<Rightarrow> 'r deployment" where
  "token_history rr redis_url h d = foldl (\<lambda>d e. token_step rr redis_url e d) d h"

text \<open>A fresh deployment: 5 seconds of caching with Redis, 30 without.\<close>

definition cache_ttl :: "bool \<Rightarrow> int" where
  "cache_ttl redis_url = (if redis_url then 5 else 30) * microseconds_per_second"

definition new_deployment :: "bool \<Rightarrow> 'r \<Rightarrow> 'r deployment" where
  "new_deployment redis_url r =
     \<lparr>dp_caches = (\<lambda>_. new_rev_cache (cache_ttl redis_url)), dp_shared = \<lparr>ss_redis = r, ss_rows = []\<rparr>\<rparr>"

text \<open>Redis as documented: a value is read until its time to live is over.\<close>

definition rev_redis_laws :: "'r rev_redis \<Rightarrow> bool" where
  "rev_redis_laws rr \<longleftrightarrow>
     (\<forall>r s k v ttl t k'. s \<le> t \<longrightarrow>
        rr_get rr (rr_set rr r s k v ttl) t k' = (if k' = k then (if t < s + ttl then Some v else None) else rr_get rr r t k'))"

text \<open>
  What one token looks like in a deployment: \<open>revoked\<close> says whether its row is in the table; caches and Redis hold nothing newer
  than \<open>now\<close>, no \<open>False\<close> newer than \<open>t0\<close> if the token is revoked, and no \<open>True\<close> if it never was.
\<close>

definition cache_state :: "bool \<Rightarrow> timestamp \<Rightarrow> bool \<Rightarrow> timestamp \<Rightarrow> string \<Rightarrow> rev_cache \<Rightarrow> bool" where
  "cache_state redis_url now revoked t0 jti c \<longleftrightarrow>
     cache_ok c \<and> rc_ttl c = cache_ttl redis_url \<and>
     (\<forall>b t. map_of (rc_cache c) jti = Some (b, t) \<longrightarrow> t \<le> now \<and> (revoked \<longrightarrow> \<not> b \<longrightarrow> t \<le> t0) \<and> (\<not> revoked \<longrightarrow> \<not> b))"

definition expiry_ok :: "timestamp \<Rightarrow> timestamp option \<Rightarrow> bool" where
  "expiry_ok x expires \<longleftrightarrow> (case expires of None \<Rightarrow> True | Some e \<Rightarrow> x \<le> e)"

definition token_state ::
  "'r rev_redis \<Rightarrow> bool \<Rightarrow> timestamp \<Rightarrow> timestamp \<Rightarrow> bool \<Rightarrow> timestamp \<Rightarrow> string \<Rightarrow> 'r deployment \<Rightarrow> bool" where
  "token_state rr redis_url x now revoked t0 jti d \<longleftrightarrow>
     (\<forall>n. cache_state redis_url now revoked t0 jti (dp_caches d n)) \<and>
     (\<forall>t\<ge>now. rr_get rr (ss_redis (dp_shared d)) t (revoked_key jti) \<in> (if revoked then {None, Some ''1''} else {None})) \<and>
     (is_revoked jti None (ss_rows (dp_shared d)) \<longleftrightarrow> revoked) \<and>
     (\<forall>r\<in>set (ss_rows (dp_shared d)). rv_jti r = jti \<longrightarrow> expiry_ok x (rv_expires_at r))"

lemma fresh_token_state:
  assumes "\<forall>t k. rr_get rr r t k = None"
  shows "token_state rr redis_url x now False t0 jti (new_deployment redis_url r)"
  using assms by (simp add: token_state_def cache_state_def new_deployment_def new_rev_cache_def cache_ok_def dict_ok_def is_revoked_def)

lemma token_state_later: "token_state rr redis_url x now revoked t0 jti d \<Longrightarrow> now \<le> now' \<Longrightarrow> token_state rr redis_url x now' revoked t0 jti d"
  unfolding token_state_def cache_state_def by (meson order_trans)

lemma cache_state_get:
  assumes "cache_state redis_url now revoked t0 jti c"
  shows "cache_state redis_url now revoked t0 jti (snd (cache_get t k c))"
  using assms by (auto simp: cache_get_def cache_state_def cache_ok_def split: option.splits)

lemma cache_state_set:
  assumes "cache_state redis_url now revoked t0 jti c" "k = jti \<longrightarrow> b = revoked"
  shows "cache_state redis_url now revoked t0 jti (cache_set now k b c)"
proof -
  have ok: "cache_ok c" using assms(1) by (simp add: cache_state_def)
  note f = cache_set_facts[OF ok]
  show ?thesis unfolding cache_state_def
  proof (intro conjI allI impI)
    fix b' t assume e: "map_of (rc_cache (cache_set now k b c)) jti = Some (b', t)"
    have "t \<le> now \<and> (revoked \<longrightarrow> \<not> b' \<longrightarrow> t \<le> t0) \<and> (\<not> revoked \<longrightarrow> \<not> b')"
    proof (cases "k = jti")
      case True
      then show ?thesis using e f(4)[of now k b] assms(2) by simp
    next
      case False
      then show ?thesis using f(5)[of jti k now b] e assms(1) by (simp add: cache_state_def)
    qed
    then show "t \<le> now" "revoked \<Longrightarrow> \<not> b' \<Longrightarrow> t \<le> t0" "\<not> revoked \<Longrightarrow> \<not> b'" by blast+
  qed (use f assms(1) in \<open>simp_all add: cache_state_def\<close>)
qed

lemma revoked_key_inj [simp]: "revoked_key a = revoked_key b \<longleftrightarrow> a = b"
  by (simp add: revoked_key_def)

definition revokes :: "string \<Rightarrow> token_event \<Rightarrow> bool" where
  "revokes jti e \<longleftrightarrow> (case e of RevokeToken _ _ j _ _ \<Rightarrow> j = jti | _ \<Rightarrow> False)"

text \<open>Revocations of the token outlive the instant \<open>x\<close>: its expiry.\<close>

definition revocation_ok :: "timestamp \<Rightarrow> string \<Rightarrow> token_event \<Rightarrow> bool" where
  "revocation_ok x jti e \<longleftrightarrow> (case e of RevokeToken _ _ j _ expires \<Rightarrow> j = jti \<longrightarrow> expiry_ok x expires | _ \<Rightarrow> True)"

lemma check_state:
  assumes "rev_redis_laws rr" "cache_state redis_url now revoked t0 jti c"
    and "\<forall>t\<ge>now. rr_get rr (ss_redis ss) t (revoked_key jti) \<in> (if revoked then {None, Some ''1''} else {None})"
    and "is_revoked jti None (ss_rows ss) \<longleftrightarrow> revoked"
    and "check_revocation rr redis_url av now k c ss = (b, c', ss')"
  shows "cache_state redis_url now revoked t0 jti c' \<and> ss_rows ss' = ss_rows ss \<and>
    (\<forall>t\<ge>now. rr_get rr (ss_redis ss') t (revoked_key jti) \<in> (if revoked then {None, Some ''1''} else {None}))"
proof -
  obtain v c1 where g: "cache_get now k c = (v, c1)" by (cases "cache_get now k c")
  have c1: "cache_state redis_url now revoked t0 jti c1" using cache_state_get[OF assms(2), of now k] g by simp
  have redis: "rr_get rr (ss_redis ss) now (revoked_key jti) \<in> (if revoked then {None, Some ''1''} else {None})" using assms(3) by simp
  consider (kept) "c' = c1" "ss' = ss" | (stale) "c' = snd (stale_or_closed now k c1)" "ss' = ss"
    | (redis) s where "rr_get rr (ss_redis ss) now (revoked_key k) = Some s" "c' = cache_set now k (s = ''1'') c1" "ss' = ss"
    | (row) "(is_revoked k None (ss_rows ss), c', ss') = look_up_row rr redis_url av now k c1 ss"
  proof (cases v)
    case (Some hit)
    with assms(5) g that(1) show ?thesis by (simp add: check_revocation_def)
  next
    case None
    let ?redis = "if redis_url \<and> av_get av then rr_get rr (ss_redis ss) now (revoked_key k) else None"
    consider "redis_url \<and> \<not> av_client av" | s where "\<not> (redis_url \<and> \<not> av_client av)" "?redis = Some s"
      | "\<not> (redis_url \<and> \<not> av_client av)" "?redis = None" "av_db av 0" | "\<not> (redis_url \<and> \<not> av_client av)" "?redis = None" "\<not> av_db av 0"
      by (cases ?redis) auto
    then show ?thesis
    proof cases
      case 1
      with assms(5) g None that(1) show ?thesis by (simp add: check_revocation_def)
    next
      case (2 s)
      then have "rr_get rr (ss_redis ss) now (revoked_key k) = Some s" by (simp split: if_splits)
      moreover have "c' = cache_set now k (s = ''1'') c1" "ss' = ss"
        using assms(5) 2 unfolding check_revocation_def g None by auto
      ultimately show ?thesis by (rule that(3))
    next
      case 3
      with assms(5) show ?thesis unfolding check_revocation_def g None by (intro that(4)) (auto simp: look_up_row_def Let_def)
    next
      case 4
      with assms(5) that(2) show ?thesis
        unfolding check_revocation_def g None by (cases "stale_or_closed now k c1") simp
    qed
  qed
  then show ?thesis
  proof cases
    case kept
    with c1 assms(3) show ?thesis by blast
  next
    case stale
    have "snd (stale_or_closed now k c1) = snd (cache_get now k c1)"
      by (cases "cache_get now k c1") (simp add: stale_or_closed_def split: option.splits)
    with stale cache_state_get[OF c1, of now k] assms(3) show ?thesis by simp
  next
    case redis
    have "k = jti \<longrightarrow> (s = ''1'') = revoked" using redis(1) assms(3) by (auto split: if_splits)
    with redis cache_state_set[OF c1, of k "s = ''1''"] assms(3) show ?thesis by simp
  next
    case row
    have c': "c' = cache_set now k (is_revoked k None (ss_rows ss)) c1" using row by (simp add: look_up_row_def Let_def)
    have ss': "ss' = ss \<or> (is_revoked k None (ss_rows ss) \<and> ss' = ss\<lparr>ss_redis := rr_set rr (ss_redis ss) now (revoked_key k) ''1'' one_day\<rparr>)"
      using row by (auto simp: look_up_row_def Let_def populate_redis_def)
    have "cache_state redis_url now revoked t0 jti c'" using cache_state_set[OF c1, of k] assms(4) c' by simp
    moreover have "\<forall>t\<ge>now. rr_get rr (ss_redis ss') t (revoked_key jti) \<in> (if revoked then {None, Some ''1''} else {None})"
      using ss'
    proof
      assume "ss' = ss" with assms(3) show ?thesis by simp
    next
      assume s: "is_revoked k None (ss_rows ss) \<and> ss' = ss\<lparr>ss_redis := rr_set rr (ss_redis ss) now (revoked_key k) ''1'' one_day\<rparr>"
      have "rr_get rr (ss_redis ss') t (revoked_key jti) =
          (if jti = k then if t < now + one_day then Some ''1'' else None else rr_get rr (ss_redis ss) t (revoked_key jti))"
        if "now \<le> t" for t
        using s assms(1) that unfolding rev_redis_laws_def by simp
      with s assms(3,4) show ?thesis by auto
    qed
    ultimately show ?thesis using ss' by auto
  qed
qed

lemma token_step_state:
  assumes laws: "rev_redis_laws rr" and st: "token_state rr redis_url x now revoked t0 jti d"
    and e: "event_time e = now" "now \<le> x" "revocation_ok x jti e"
  shows "token_state rr redis_url x now (revoked \<or> revokes jti e) (if revoked then t0 else now) jti (token_step rr redis_url e d)"
proof (cases e)
  case (RevokeToken now' tenant j reason expires)
  have rows: "expiry_ok x (rv_expires_at r)"
    if "r \<in> set (revoke now tenant j reason expires (ss_rows (dp_shared d)))" "rv_jti r = jti" for r
  proof -
    from that(1) consider r' where "r' \<in> set (ss_rows (dp_shared d))" "rv_jti r = rv_jti r'" "rv_expires_at r = rv_expires_at r'"
      | "rv_jti r = j" "rv_expires_at r = expires"
      unfolding revoke_set by (auto split: if_splits)
    then show ?thesis using that(2) st e(3) RevokeToken by cases (auto simp: token_state_def revocation_ok_def)
  qed
  have caches: "cache_state redis_url now (revoked \<or> j = jti) (if revoked then t0 else now) jti (dp_caches d n)" for n
    using st by (auto simp: token_state_def cache_state_def)
  have redis: "\<forall>t\<ge>now. rr_get rr (ss_redis (dp_shared d)) t (revoked_key jti) \<in> (if revoked \<or> j = jti then {None, Some ''1''} else {None})"
    using st by (auto simp: token_state_def)
  have "is_revoked jti None (revoke now tenant j reason expires (ss_rows (dp_shared d))) \<longleftrightarrow> revoked \<or> j = jti"
    using st by (auto simp: token_state_def revoked_after_revoke)
  with RevokeToken e(1) rows caches redis show ?thesis by (simp add: token_state_def revokes_def)
next
  case (CheckToken now' replica av k)
  obtain b c' ss' where c: "check_revocation rr redis_url av now k (dp_caches d replica) (dp_shared d) = (b, c', ss')"
    by (cases "check_revocation rr redis_url av now k (dp_caches d replica) (dp_shared d)")
  from check_state[OF laws _ _ _ this, of revoked t0 jti] st have
    "cache_state redis_url now revoked t0 jti c' \<and> ss_rows ss' = ss_rows (dp_shared d) \<and>
     (\<forall>t\<ge>now. rr_get rr (ss_redis ss') t (revoked_key jti) \<in> (if revoked then {None, Some ''1''} else {None}))"
    by (simp add: token_state_def)
  moreover have "cache_state redis_url now revoked t0 jti c \<Longrightarrow> cache_state redis_url now revoked (if revoked then t0 else now) jti c" for c
    by (auto simp: cache_state_def)
  ultimately show ?thesis using st CheckToken e(1) c by (auto simp: token_state_def revokes_def)
next
  case (CleanTokens now' scope)
  have "is_revoked jti None (clean_revocations now scope (ss_rows (dp_shared d))) \<longleftrightarrow> revoked"
  proof
    assume "is_revoked jti None (clean_revocations now scope (ss_rows (dp_shared d)))"
    then show revoked using table.revoked_clean st by (auto simp: token_state_def)
  next
    assume revoked
    then have "kept_row x jti (ss_rows (dp_shared d))"
      using st by (auto simp: token_state_def is_revoked_iff kept_row_def expiry_ok_def)
    then show "is_revoked jti None (clean_revocations now scope (ss_rows (dp_shared d)))"
      using table.kept_revoked table.kept_clean e(2) by blast
  qed
  moreover have "cache_state redis_url now revoked t0 jti c \<Longrightarrow> cache_state redis_url now revoked (if revoked then t0 else now) jti c" for c
    by (auto simp: cache_state_def)
  moreover have "expiry_ok x (rv_expires_at r)"
    if "r \<in> set (clean_revocations now scope (ss_rows (dp_shared d)))" "rv_jti r = jti" for r
    using subsetD[OF clean_subset that(1)] that(2) st by (simp add: token_state_def)
  ultimately show ?thesis using st CleanTokens e(1) by (simp add: token_state_def revokes_def)
qed

lemma token_history_state:
  assumes "rev_redis_laws rr" "token_state rr redis_url x now revoked t0 jti d" "revoked \<longrightarrow> t0 \<le> now"
    and "sorted (map event_time h)" "\<forall>e\<in>set h. now \<le> event_time e \<and> event_time e \<le> x \<and> revocation_ok x jti e"
    and "\<forall>e\<in>set h. event_time e \<le> t" "now \<le> t"
  shows "\<exists>t1. token_state rr redis_url x t (revoked \<or> (\<exists>e\<in>set h. revokes jti e)) t1 jti (token_history rr redis_url h d) \<and>
    (revoked \<longrightarrow> t1 = t0) \<and> (\<forall>e\<in>set h. revokes jti e \<longrightarrow> t1 \<le> event_time e)"
  using assms(2-)
proof (induction h arbitrary: now revoked t0 d)
  case Nil
  then show ?case using token_state_later by (fastforce simp: token_history_def)
next
  case (Cons e h)
  let ?now = "event_time e"
  have "token_state rr redis_url x ?now revoked t0 jti d" using Cons.prems(1,4) token_state_later by auto
  from token_step_state[OF assms(1) this refl] Cons.prems(4) have
    st: "token_state rr redis_url x ?now (revoked \<or> revokes jti e) (if revoked then t0 else ?now) jti (token_step rr redis_url e d)" by simp
  have h: "sorted (map event_time h)" "\<forall>e'\<in>set h. ?now \<le> event_time e' \<and> event_time e' \<le> x \<and> revocation_ok x jti e'"
    "\<forall>e'\<in>set h. event_time e' \<le> t" "?now \<le> t" using Cons.prems by auto
  have t0: "revoked \<or> revokes jti e \<longrightarrow> (if revoked then t0 else ?now) \<le> ?now" using Cons.prems(2,4) by auto
  from Cons.IH[OF st t0 h] obtain t1 where t1:
    "token_state rr redis_url x t ((revoked \<or> revokes jti e) \<or> (\<exists>e\<in>set h. revokes jti e)) t1 jti
       (token_history rr redis_url h (token_step rr redis_url e d))"
    "revoked \<or> revokes jti e \<longrightarrow> t1 = (if revoked then t0 else ?now)" "\<forall>e\<in>set h. revokes jti e \<longrightarrow> t1 \<le> event_time e" by blast
  have "\<forall>e'\<in>set (e # h). revokes jti e' \<longrightarrow> t1 \<le> event_time e'" using t1(2,3) Cons.prems(2,4) by auto
  with t1 show ?case by (intro exI[of _ t1]) (auto simp: token_history_def disj_assoc)
qed

text \<open>C17: A revocation takes effect everywhere within the lifetime of a cache entry: once a token was revoked, every replica refuses it from
  5 seconds after (30 without Redis) until its expiry, whatever was asked, revoked or cleaned up in between and whichever layers
  answer. A token that was never revoked is refused only while Redis or the database does not answer.\<close>

theorem revocation_latency:
  assumes "rev_redis_laws rr" "\<forall>t k. rr_get rr r t k = None" "sorted (map event_time h)"
    and "\<forall>e\<in>set h. event_time e \<le> t \<and> revocation_ok x jti e" "t \<le> x"
    and "d = token_history rr redis_url h (new_deployment redis_url r)"
    and "answer = fst (check_revocation rr redis_url av t jti (dp_caches d replica) (dp_shared d))"
  shows "(\<forall>e\<in>set h. revokes jti e \<and> event_time e + cache_ttl redis_url < t \<longrightarrow> answer) \<and>
    ((\<forall>e\<in>set h. \<not> revokes jti e) \<and> av_client av \<and> av_db av 0 \<longrightarrow> \<not> answer)"
proof -
  define start where "start = (case h of [] \<Rightarrow> t | e # _ \<Rightarrow> event_time e)"
  have h: "\<forall>e\<in>set h. start \<le> event_time e \<and> event_time e \<le> x \<and> revocation_ok x jti e" "start \<le> t"
    using assms(3-5) by (cases h; force simp: start_def)+
  have "\<forall>e\<in>set h. event_time e \<le> t" using assms(4) by blast
  from token_history_state[OF assms(1) fresh_token_state[OF assms(2), where redis_url = redis_url] _ assms(3) h(1) this h(2)] assms(6)
  obtain t1 where st: "token_state rr redis_url x t (\<exists>e\<in>set h. revokes jti e) t1 jti d"
    "\<forall>e\<in>set h. revokes jti e \<longrightarrow> t1 \<le> event_time e" by auto
  have ans: "answer = layered_answer rr redis_url av t (dp_caches d replica) (dp_shared d) jti"
    using assms(7) by (simp add: check_answer)
  have c: "cache_state redis_url t (\<exists>e\<in>set h. revokes jti e) t1 jti (dp_caches d replica)"
    and redis: "rr_get rr (ss_redis (dp_shared d)) t (revoked_key jti) \<in> (if \<exists>e\<in>set h. revokes jti e then {None, Some ''1''} else {None})"
    and row: "is_revoked jti None (ss_rows (dp_shared d)) \<longleftrightarrow> (\<exists>e\<in>set h. revokes jti e)"
    using st(1) by (simp_all add: token_state_def)
  have answer if "e \<in> set h" "revokes jti e" "event_time e + cache_ttl redis_url < t" for e
  proof -
    have t1: "t - t1 > cache_ttl redis_url" using st(2) that by fastforce
    have "view t jti (dp_caches d replica) \<noteq> Some False"
      using c that(1,2) t1 by (force simp: view_def cache_state_def split: option.splits if_splits)
    then show ?thesis using redis row that(1,2) unfolding ans layered_answer_def
      by (auto split: option.splits if_splits)
  qed
  moreover have "\<not> answer" if "\<forall>e\<in>set h. \<not> revokes jti e" "av_client av" "av_db av 0"
  proof -
    have "view t jti (dp_caches d replica) \<noteq> Some True"
      using c that(1) by (auto simp: view_def cache_state_def split: option.splits if_splits)
    then show ?thesis using redis row that unfolding ans layered_answer_def by (auto split: option.splits if_splits)
  qed
  ultimately show ?thesis by blast
qed

subsection \<open>A store that keeps the laws\<close>

definition demo_rev_redis :: "(string \<Rightarrow> (string \<times> timestamp) option) rev_redis" where
  "demo_rev_redis =
     \<lparr>rr_get = (\<lambda>r t k. case r k of None \<Rightarrow> None | Some (v, e) \<Rightarrow> if t < e then Some v else None),
      rr_set = (\<lambda>r s k v ttl. r(k \<mapsto> (v, s + ttl)))\<rparr>"

lemma demo_rev_redis_laws: "rev_redis_laws demo_rev_redis"
  by (simp add: rev_redis_laws_def demo_rev_redis_def)

definition all_up :: availability where
  "all_up = \<lparr>av_client = True, av_get = True, av_set = True, av_db = (\<lambda>_. True)\<rparr>"

definition all_down :: availability where
  "all_down = \<lparr>av_client = True, av_get = False, av_set = False, av_db = (\<lambda>_. False)\<rparr>"

definition demo_token_history :: "token_event list" where
  "demo_token_history = [CheckToken 0 0 all_up ''j1'', RevokeToken 1000000 ''t1'' ''j1'' None None]"

theorem batch_agrees_with_single_witness:
  "map_of (fst (check_revocation_batch demo_rev_redis True all_up 0 [''j1'', ''j2''] (new_rev_cache 5)
      \<lparr>ss_redis = Map.empty, ss_rows = revoke 0 ''t1'' ''j1'' None None []\<rparr>)) ''j1'' = Some True"
proof -
  let ?c = "new_rev_cache 5" and ?ss = "\<lparr>ss_redis = Map.empty, ss_rows = revoke 0 ''t1'' ''j1'' None None []\<rparr>"
  have "cache_ok ?c" "\<forall>n. av_db all_up n = av_db all_up 0" "''j1'' \<in> set [''j1'', ''j2'']"
    by (simp_all add: cache_ok_def dict_ok_def new_rev_cache_def all_up_def)
  note batch = batch_agrees_with_single[OF this, of demo_rev_redis True 0 ?ss, unfolded check_answer]
  have "layered_answer demo_rev_redis True all_up 0 ?c ?ss ''j1'' = True"
    by (simp add: layered_answer_def view_def new_rev_cache_def all_up_def demo_rev_redis_def is_revoked_def revoke_def)
  with batch show ?thesis by (simp only:)
qed

theorem revocation_latency_witness:
  "fst (check_revocation demo_rev_redis True all_down 7000000 ''j1''
     (dp_caches (token_history demo_rev_redis True demo_token_history (new_deployment True Map.empty)) 0)
     (dp_shared (token_history demo_rev_redis True demo_token_history (new_deployment True Map.empty))))"
proof -
  have r: "\<forall>t k. rr_get demo_rev_redis Map.empty t k = None" by (simp add: demo_rev_redis_def)
  have h: "sorted (map event_time demo_token_history)"
    "\<forall>e\<in>set demo_token_history. event_time e \<le> 7000000 \<and> revocation_ok 7000000 ''j1'' e"
    by (simp_all add: demo_token_history_def revocation_ok_def expiry_ok_def)
  have e: "RevokeToken 1000000 ''t1'' ''j1'' None None \<in> set demo_token_history" by (simp add: demo_token_history_def)
  have t: "revokes ''j1'' (RevokeToken 1000000 ''t1'' ''j1'' None None) \<and>
      event_time (RevokeToken 1000000 ''t1'' ''j1'' None None) + cache_ttl True < 7000000"
    by (simp add: revokes_def cache_ttl_def microseconds_per_second_def)
  note latency = revocation_latency[OF demo_rev_redis_laws r h order_refl refl refl, THEN conjunct1, THEN bspec, OF e]
  show ?thesis by (rule latency[THEN mp]) (rule t)
qed

end
