(* ===== verification/Accounts.thy ===== *)
theory Accounts
  imports Revocation Audit_Log
begin

text \<open>
  Users, API keys, tenants and sessions: \<^verbatim>\<open>UserRepository\<close>, \<^verbatim>\<open>APIKeyRepository\<close> and \<^verbatim>\<open>TenantConfigRepository\<close> of
  \<^verbatim>\<open>core_engine/core_engine/state/repository.py\<close>, the services \<^verbatim>\<open>api/api/services/auth_service.py\<close> and \<^verbatim>\<open>team_service.py\<close> with the
  seat quota of \<^verbatim>\<open>quota_service.py\<close>, and the endpoints of \<^verbatim>\<open>api/api/routers/auth.py\<close>, whose session commits when the handler
  returns and rolls back when it raises. The environment holds bcrypt, SHA-256, random identifiers and the token manager.
\<close>

subsection \<open>Tables\<close>

record user_row =
  us_id :: string
  us_tenant_id :: string
  us_email :: string
  us_password_hash :: string
  us_display_name :: string
  us_role :: string
  us_is_active :: bool
  us_email_verified :: bool
  us_created_at :: timestamp
  us_last_login_at :: "timestamp option"

record api_key_row =
  ak_id :: string
  ak_tenant_id :: string
  ak_user_id :: string
  ak_name :: string
  ak_key_prefix :: string
  ak_key_hash :: string
  ak_scopes :: "string list option"
  ak_expires_at :: "timestamp option"
  ak_revoked_at :: "timestamp option"
  ak_last_used_at :: "timestamp option"
  ak_created_at :: timestamp

record tenant_row =
  tn_tenant_id :: string
  tn_llm_enabled :: bool
  tn_llm_monthly_budget_usd :: "rat option"
  tn_llm_daily_budget_usd :: "rat option"
  tn_created_at :: timestamp
  tn_updated_at :: timestamp
  tn_plan_quota_monthly :: "int option"
  tn_api_quota_monthly :: "int option"
  tn_ai_quota_monthly :: "int option"
  tn_max_seats :: "int option"
  tn_retention_days :: int
  tn_updated_by :: "string option"
  tn_deactivated_at :: "timestamp option"

datatype db_error = IntegrityError | MultipleResultsFound

text \<open>\<^verbatim>\<open>scalar_one_or_none()\<close>.\<close>

definition scalar_one_or_none :: "'a list \<Rightarrow> db_error + 'a option" where
  "scalar_one_or_none rows = (case rows of [] \<Rightarrow> Inr None | [r] \<Rightarrow> Inr (Some r) | _ \<Rightarrow> Inl MultipleResultsFound)"

subsection \<open>Users\<close>

record 'k account_env =
  ae_uuid :: "nat \<Rightarrow> string"
  ae_hash_password :: "nat \<Rightarrow> string \<Rightarrow> string"
  ae_check_password :: "string \<Rightarrow> string \<Rightarrow> bool"
  ae_sha :: "string \<Rightarrow> string"
  ae_iso :: "timestamp \<Rightarrow> string"
  ae_token :: token_env
  ae_oidc :: "'k oidc_env"
  ae_config :: token_config

definition normal_email :: "string \<Rightarrow> string" where
  "normal_email email = py_strip (py_lower email)"

text \<open>The insertion keeps the primary key and the pair of tenant and address unique; \<open>n\<close> feeds the random identifier and the salt.\<close>

definition user_create ::
  "'k account_env \<Rightarrow> nat \<Rightarrow> timestamp \<Rightarrow> string \<Rightarrow> string \<Rightarrow> string \<Rightarrow> string \<Rightarrow> string \<Rightarrow> user_row list \<Rightarrow>
   db_error + user_row \<times> user_row list" where
  "user_create env n now tenant_id email password display_name role tbl =
     (let row = \<lparr>us_id = ae_uuid env n, us_tenant_id = tenant_id, us_email = normal_email email,
                 us_password_hash = ae_hash_password env n password, us_display_name = py_strip display_name, us_role = role,
                 us_is_active = True, us_email_verified = False, us_created_at = now, us_last_login_at = None\<rparr>
      in if list_ex (\<lambda>r. us_id r = us_id row \<or> us_tenant_id r = tenant_id \<and> us_email r = us_email row) tbl
         then Inl IntegrityError else Inr (row, tbl @ [row]))"

definition get_by_email :: "string \<Rightarrow> string \<Rightarrow> user_row list \<Rightarrow> db_error + user_row option" where
  "get_by_email tenant_id email tbl = scalar_one_or_none (filter (\<lambda>r. us_tenant_id r = tenant_id \<and> us_email r = normal_email email) tbl)"

definition get_by_email_any_tenant :: "string \<Rightarrow> user_row list \<Rightarrow> db_error + user_row option" where
  "get_by_email_any_tenant email tbl = scalar_one_or_none (filter (\<lambda>r. us_email r = normal_email email \<and> us_is_active r) tbl)"

definition get_by_id :: "string \<Rightarrow> string \<Rightarrow> user_row list \<Rightarrow> db_error + user_row option" where
  "get_by_id tenant_id user_id tbl = scalar_one_or_none (filter (\<lambda>r. us_tenant_id r = tenant_id \<and> us_id r = user_id) tbl)"

definition verify_password :: "'k account_env \<Rightarrow> string \<Rightarrow> string \<Rightarrow> user_row list \<Rightarrow> db_error + user_row option" where
  "verify_password env email password tbl =
     (case get_by_email_any_tenant email tbl of
        Inl e \<Rightarrow> Inl e
      | Inr None \<Rightarrow> Inr None
      | Inr (Some user) \<Rightarrow> if \<not> ae_check_password env password (us_password_hash user) then Inr None else Inr (Some user))"

definition update_last_login :: "timestamp \<Rightarrow> string \<Rightarrow> string \<Rightarrow> user_row list \<Rightarrow> user_row list" where
  "update_last_login now tenant_id user_id tbl =
     map (\<lambda>r. if us_tenant_id r = tenant_id \<and> us_id r = user_id then r\<lparr>us_last_login_at := Some now\<rparr> else r) tbl"

definition list_by_tenant :: "string \<Rightarrow> user_row list \<Rightarrow> user_row list" where
  "list_by_tenant tenant_id tbl = sort_key us_created_at (filter (\<lambda>r. us_tenant_id r = tenant_id) tbl)"

definition count_by_tenant :: "string \<Rightarrow> user_row list \<Rightarrow> nat" where
  "count_by_tenant tenant_id tbl = length (filter (\<lambda>r. us_tenant_id r = tenant_id) tbl)"

subsection \<open>API keys\<close>

definition key_convention :: string where "key_convention = ''bmkey.''"

definition generate_key :: "'k account_env \<Rightarrow> nat \<Rightarrow> string \<times> string \<times> string" where
  "generate_key env n =
     (let random_part = ae_uuid env n @ ae_uuid env (n + 1);
          plaintext = key_convention @ random_part
      in (plaintext, take 16 random_part, ae_sha env plaintext))"

definition key_create ::
  "'k account_env \<Rightarrow> nat \<Rightarrow> timestamp \<Rightarrow> string \<Rightarrow> string \<Rightarrow> string \<Rightarrow> string list option \<Rightarrow> timestamp option \<Rightarrow> api_key_row list \<Rightarrow>
   db_error + (api_key_row \<times> string) \<times> api_key_row list" where
  "key_create env n now tenant_id user_id name scopes expires_at tbl =
     (let (plaintext, prefix, key_hash) = generate_key env n;
          row = \<lparr>ak_id = ae_uuid env (n + 2), ak_tenant_id = tenant_id, ak_user_id = user_id, ak_name = py_strip name,
                 ak_key_prefix = prefix, ak_key_hash = key_hash, ak_scopes = scopes, ak_expires_at = expires_at,
                 ak_revoked_at = None, ak_last_used_at = None, ak_created_at = now\<rparr>
      in if list_ex (\<lambda>r. ak_id r = ak_id row \<or> ak_key_hash r = key_hash) tbl then Inl IntegrityError
         else Inr ((row, plaintext), tbl @ [row]))"

definition usable_key :: "timestamp \<Rightarrow> string \<Rightarrow> string \<Rightarrow> api_key_row \<Rightarrow> bool" where
  "usable_key now tenant_id key_hash r \<longleftrightarrow>
     ak_key_hash r = key_hash \<and> ak_tenant_id r = tenant_id \<and> ak_revoked_at r = None \<and>
     (case ak_expires_at r of None \<Rightarrow> True | Some e \<Rightarrow> e > now)"

definition validate_key ::
  "'k account_env \<Rightarrow> timestamp \<Rightarrow> string \<Rightarrow> string \<Rightarrow> api_key_row list \<Rightarrow> (db_error + api_key_row option) \<times> api_key_row list" where
  "validate_key env now tenant_id plaintext_key tbl =
     (let key_hash = ae_sha env plaintext_key
      in (case scalar_one_or_none (filter (usable_key now tenant_id key_hash) tbl) of
            Inl e \<Rightarrow> (Inl e, tbl)
          | Inr None \<Rightarrow> (Inr None, tbl)
          | Inr (Some row) \<Rightarrow>
              (Inr (Some (row\<lparr>ak_last_used_at := Some now\<rparr>)),
               map (\<lambda>r. if usable_key now tenant_id key_hash r then r\<lparr>ak_last_used_at := Some now\<rparr> else r) tbl)))"

definition list_keys_by_user :: "string \<Rightarrow> string \<Rightarrow> api_key_row list \<Rightarrow> api_key_row list" where
  "list_keys_by_user tenant_id user_id tbl =
     sort_key (\<lambda>r. - ak_created_at r)
       (filter (\<lambda>r. ak_tenant_id r = tenant_id \<and> ak_user_id r = user_id \<and> ak_revoked_at r = None) tbl)"

definition key_revoke :: "timestamp \<Rightarrow> string \<Rightarrow> string \<Rightarrow> api_key_row list \<Rightarrow> bool \<times> api_key_row list" where
  "key_revoke now tenant_id key_id tbl =
     (let hit = (\<lambda>r. ak_tenant_id r = tenant_id \<and> ak_id r = key_id \<and> ak_revoked_at r = None)
      in (list_ex hit tbl, map (\<lambda>r. if hit r then r\<lparr>ak_revoked_at := Some now\<rparr> else r) tbl))"

subsection \<open>Tenants\<close>

definition tenant_get :: "string \<Rightarrow> tenant_row list \<Rightarrow> tenant_row option" where
  "tenant_get tenant_id tbl = (case filter (\<lambda>r. tn_tenant_id r = tenant_id) tbl of [] \<Rightarrow> None | r # _ \<Rightarrow> Some r)"

text \<open>
  An argument of the upsert: a budget is written when it is given, a quota when it is not the sentinel, which is \<open>None\<close> here; the
  inner option is the value, \<^verbatim>\<open>None\<close> for unlimited.
\<close>

record tenant_update =
  tu_llm_enabled :: bool
  tu_updated_by :: string
  tu_llm_monthly_budget_usd :: "rat option"
  tu_llm_daily_budget_usd :: "rat option"
  tu_plan_quota_monthly :: "int option option"
  tu_api_quota_monthly :: "int option option"
  tu_ai_quota_monthly :: "int option option"

definition given :: "'a option \<Rightarrow> 'a \<Rightarrow> 'a" where
  "given new old = (case new of None \<Rightarrow> old | Some x \<Rightarrow> x)"

definition new_tenant :: "timestamp \<Rightarrow> string \<Rightarrow> bool \<Rightarrow> string \<Rightarrow> tenant_row" where
  "new_tenant now tenant_id llm_enabled updated_by =
     \<lparr>tn_tenant_id = tenant_id, tn_llm_enabled = llm_enabled, tn_llm_monthly_budget_usd = None, tn_llm_daily_budget_usd = None,
      tn_created_at = now, tn_updated_at = now, tn_plan_quota_monthly = None, tn_api_quota_monthly = None,
      tn_ai_quota_monthly = None, tn_max_seats = None, tn_retention_days = 365, tn_updated_by = Some updated_by,
      tn_deactivated_at = None\<rparr>"

definition apply_tenant_update :: "timestamp \<Rightarrow> tenant_update \<Rightarrow> tenant_row \<Rightarrow> tenant_row" where
  "apply_tenant_update now u r =
     r\<lparr>tn_llm_enabled := tu_llm_enabled u, tn_updated_by := Some (tu_updated_by u), tn_updated_at := now,
       tn_llm_monthly_budget_usd := (case tu_llm_monthly_budget_usd u of None \<Rightarrow> tn_llm_monthly_budget_usd r | Some b \<Rightarrow> Some b),
       tn_llm_daily_budget_usd := (case tu_llm_daily_budget_usd u of None \<Rightarrow> tn_llm_daily_budget_usd r | Some b \<Rightarrow> Some b),
       tn_plan_quota_monthly := given (tu_plan_quota_monthly u) (tn_plan_quota_monthly r),
       tn_api_quota_monthly := given (tu_api_quota_monthly u) (tn_api_quota_monthly r),
       tn_ai_quota_monthly := given (tu_ai_quota_monthly u) (tn_ai_quota_monthly r)\<rparr>"

definition tenant_upsert :: "timestamp \<Rightarrow> string \<Rightarrow> tenant_update \<Rightarrow> tenant_row list \<Rightarrow> tenant_row option \<times> tenant_row list" where
  "tenant_upsert now tenant_id u tbl =
     (let tbl = (if tenant_get tenant_id tbl = None
                 then tbl @ [apply_tenant_update now u (new_tenant now tenant_id (tu_llm_enabled u) (tu_updated_by u))]
                 else map (\<lambda>r. if tn_tenant_id r = tenant_id then apply_tenant_update now u r else r) tbl)
      in (tenant_get tenant_id tbl, tbl))"

definition tenant_create :: "timestamp \<Rightarrow> string \<Rightarrow> bool \<Rightarrow> string \<Rightarrow> tenant_row list \<Rightarrow> (unit + tenant_row) \<times> tenant_row list" where
  "tenant_create now tenant_id llm_enabled created_by tbl =
     (if tenant_get tenant_id tbl \<noteq> None then (Inl (), tbl)
      else (let r = new_tenant now tenant_id llm_enabled created_by in (Inr r, tbl @ [r])))"

definition tenant_deactivate :: "timestamp \<Rightarrow> string \<Rightarrow> string \<Rightarrow> tenant_row list \<Rightarrow> tenant_row option \<times> tenant_row list" where
  "tenant_deactivate now tenant_id deactivated_by tbl =
     (let off = (\<lambda>r. r\<lparr>tn_deactivated_at := Some now, tn_updated_by := Some deactivated_by, tn_updated_at := now\<rparr>)
      in (map_option off (tenant_get tenant_id tbl), map (\<lambda>r. if tn_tenant_id r = tenant_id then off r else r) tbl))"

definition tenant_list_all :: "bool \<Rightarrow> tenant_row list \<Rightarrow> tenant_row list" where
  "tenant_list_all include_deactivated tbl =
     sort_key tn_tenant_id (filter (\<lambda>r. include_deactivated \<or> tn_deactivated_at r = None) tbl)"

subsection \<open>The database of accounts\<close>

record account_state =
  ac_users :: "user_row list"
  ac_keys :: "api_key_row list"
  ac_tenants :: "tenant_row list"
  ac_tiers :: "(string \<times> string) list" \<comment> \<open>tenant and \<^verbatim>\<open>plan_tier\<close> of the billing table\<close>
  ac_revocations :: revocations
  ac_audit :: audit_log
  ac_next :: nat \<comment> \<open>random identifiers drawn so far\<close>

datatype account_error = AuthError nat | DbError db_error | TokenError token_error | NoSuchUser | InactiveUser | SeatLimit | UserExists | BadRole

type_synonym 'a account_result = "(account_error + 'a) \<times> account_state"

definition draw :: "nat \<Rightarrow> account_state \<Rightarrow> nat \<times> account_state" where
  "draw k st = (ac_next st, st\<lparr>ac_next := ac_next st + k\<rparr>)"

definition create_user ::
  "'k account_env \<Rightarrow> timestamp \<Rightarrow> string \<Rightarrow> string \<Rightarrow> string \<Rightarrow> string \<Rightarrow> string \<Rightarrow> account_state \<Rightarrow> user_row account_result" where
  "create_user env now tenant_id email password display_name role st =
     (let (n, st) = draw 1 st
      in (case user_create env n now tenant_id email password display_name role (ac_users st) of
            Inl e \<Rightarrow> (Inl (DbError e), st)
          | Inr (row, tbl) \<Rightarrow> (Inr row, st\<lparr>ac_users := tbl\<rparr>)))"

subsection \<open>The authentication service\<close>

definition read_write :: "string list" where "read_write = [''read'', ''write'']"

text \<open>An access token with the user's role and a refresh token.\<close>

definition issue_pair ::
  "'k account_env \<Rightarrow> timestamp \<Rightarrow> string \<Rightarrow> string \<Rightarrow> string \<Rightarrow> account_state \<Rightarrow> (string \<times> string) account_result" where
  "issue_pair env now user_id tenant_id role st =
     (let (n, st) = draw 1 st
      in (case generate_token (ae_token env) (ae_config env) now (ae_uuid env n) user_id tenant_id (Some read_write) None user_kind (Some role) of
            Inl e \<Rightarrow> (Inl (TokenError e), st)
          | Inr access_token \<Rightarrow>
              (let (n, st) = draw 1 st
               in (case generate_refresh_token (ae_token env) (ae_config env) now (ae_uuid env n) user_id tenant_id of
                     Inl e \<Rightarrow> (Inl (TokenError e), st)
                   | Inr refresh_token \<Rightarrow> (Inr (access_token, refresh_token), st)))))"

definition signup_update :: "string \<Rightarrow> tenant_update" where
  "signup_update email =
     \<lparr>tu_llm_enabled = False, tu_updated_by = email, tu_llm_monthly_budget_usd = None, tu_llm_daily_budget_usd = None,
      tu_plan_quota_monthly = None, tu_api_quota_monthly = None, tu_ai_quota_monthly = None\<rparr>"

definition admin_role :: string where "admin_role = ''admin''"

definition signup ::
  "'k account_env \<Rightarrow> timestamp \<Rightarrow> string \<Rightarrow> string \<Rightarrow> string \<Rightarrow> account_state \<Rightarrow> (user_row \<times> string \<times> string) account_result" where
  "signup env now email password display_name st =
     (let email = normal_email email
      in if email = [] \<or> CHR ''@'' \<notin> set email then (Inl (AuthError 400), st)
         else if length password < 8 then (Inl (AuthError 400), st)
         else if py_strip display_name = [] then (Inl (AuthError 400), st)
         else (case get_by_email_any_tenant email (ac_users st) of
                 Inl e \<Rightarrow> (Inl (DbError e), st)
               | Inr (Some _) \<Rightarrow> (Inl (AuthError 409), st)
               | Inr None \<Rightarrow>
                   (let (n, st) = draw 1 st;
                        tenant_id = take 16 (ae_uuid env n);
                        st = st\<lparr>ac_tenants := snd (tenant_upsert now tenant_id (signup_update email) (ac_tenants st))\<rparr>
                    in (case create_user env now tenant_id email password (py_strip display_name) admin_role st of
                          (Inl e, st) \<Rightarrow> (Inl e, st)
                        | (Inr user, st) \<Rightarrow>
                            (case issue_pair env now (us_id user) tenant_id (us_role user) st of
                               (Inl e, st) \<Rightarrow> (Inl e, st)
                             | (Inr (access, refresh), st) \<Rightarrow> (Inr (user, access, refresh), st))))))"

definition login_tenant :: string where "login_tenant = ''__login__''"
definition auth_tenant :: string where "auth_tenant = ''__auth__''"

definition audit_failed_login :: "'k account_env \<Rightarrow> timestamp \<Rightarrow> string \<Rightarrow> string option \<Rightarrow> account_state \<Rightarrow> account_state" where
  "audit_failed_login env now email ip st =
     (let (n, st) = draw 1 st;
          meta = JObj ([(''reason'', JStr ''invalid_credentials''), (''timestamp'', JStr (ae_iso env now))] @
                       (case ip of None \<Rightarrow> [] | Some i \<Rightarrow> [(''ip'', JStr i)]))
      in st\<lparr>ac_audit := audit_append (ae_sha env) (ae_iso env) (ae_uuid env n) now auth_tenant ''unauthenticated'' ''AUTH_FAILED''
              (Some ''user'') (Some (ae_sha env email)) (Some meta) (ac_audit st)\<rparr>)"

definition login ::
  "'k account_env \<Rightarrow> timestamp \<Rightarrow> string \<Rightarrow> string \<Rightarrow> string option \<Rightarrow> account_state \<Rightarrow> (user_row \<times> string \<times> string) account_result" where
  "login env now email password ip st =
     (let email = normal_email email
      in (case verify_password env email password (ac_users st) of
            Inl e \<Rightarrow> (Inl (DbError e), st)
          | Inr None \<Rightarrow> (Inl (AuthError 401), audit_failed_login env now email ip st)
          | Inr (Some user) \<Rightarrow>
              if \<not> us_is_active user then (Inl (AuthError 403), st)
              else (let st = st\<lparr>ac_users := update_last_login now login_tenant (us_id user) (ac_users st)\<rparr>
                    in (case issue_pair env now (us_id user) (us_tenant_id user) (us_role user) st of
                          (Inl e, st) \<Rightarrow> (Inl e, st)
                        | (Inr (access, refresh), st) \<Rightarrow> (Inr (user, access, refresh), st)))))"

text \<open>Every request builds its own token manager.\<close>

definition validate_for :: "'k account_env \<Rightarrow> timestamp \<Rightarrow> nat \<Rightarrow> string \<Rightarrow> token_error + token_claims" where
  "validate_for env now n token =
     fst (validate_token_async (ae_token env) (ae_oidc env) now (ae_uuid env n) token
            \<lparr>tm_config = ae_config env, tm_oidc_provider = None\<rparr>)"

definition rotation_reason :: string where "rotation_reason = ''refresh_rotation''"

definition refresh :: "'k account_env \<Rightarrow> timestamp \<Rightarrow> string \<Rightarrow> account_state \<Rightarrow> (string \<times> string) account_result" where
  "refresh env now refresh_token st =
     (let (n, st) = draw 1 st
      in (case validate_for env now n refresh_token of
            Inl (PermissionError _) \<Rightarrow> (Inl (AuthError 401), st)
          | Inl e \<Rightarrow> (Inl (TokenError e), st)
          | Inr claims \<Rightarrow>
              if refresh_scope \<notin> set (tc_scopes claims) then (Inl (AuthError 401), st)
              else if is_revoked (tc_jti claims) None (ac_revocations st) then (Inl (AuthError 401), st)
              else (case get_by_id (tc_tenant_id claims) (tc_sub claims) (ac_users st) of
                      Inl e \<Rightarrow> (Inl (DbError e), st)
                    | Inr None \<Rightarrow> (Inl (AuthError 401), st)
                    | Inr (Some user) \<Rightarrow>
                        if \<not> us_is_active user then (Inl (AuthError 401), st)
                        else (let st = st\<lparr>ac_revocations := revoke now (tc_tenant_id claims) (tc_jti claims) (Some rotation_reason)
                                              (Some (tc_exp claims)) (ac_revocations st)\<rparr>
                              in issue_pair env now (tc_sub claims) (tc_tenant_id claims) (us_role user) st))))"

definition get_current_user :: "string \<Rightarrow> string \<Rightarrow> account_state \<Rightarrow> account_error + user_row" where
  "get_current_user user_id tenant_id st =
     (case get_by_id tenant_id user_id (ac_users st) of
        Inl e \<Rightarrow> Inl (DbError e) | Inr None \<Rightarrow> Inl (AuthError 404) | Inr (Some user) \<Rightarrow> Inr user)"

definition create_api_key ::
  "'k account_env \<Rightarrow> timestamp \<Rightarrow> string \<Rightarrow> string \<Rightarrow> string \<Rightarrow> string list option \<Rightarrow> account_state \<Rightarrow> (api_key_row \<times> string) account_result" where
  "create_api_key env now user_id tenant_id name scopes st =
     (if py_strip name = [] then (Inl (AuthError 400), st)
      else (let (n, st) = draw 3 st
            in (case key_create env n now tenant_id user_id (py_strip name) scopes None (ac_keys st) of
                  Inl e \<Rightarrow> (Inl (DbError e), st)
                | Inr (res, tbl) \<Rightarrow> (Inr res, st\<lparr>ac_keys := tbl\<rparr>))))"

subsection \<open>Seats and team members\<close>

definition tier_seats :: "string \<Rightarrow> int option" where
  "tier_seats tier = (if tier = ''team'' then Some 10 else if tier = ''enterprise'' then None else Some 1)"

definition plan_tier :: "string \<Rightarrow> account_state \<Rightarrow> string" where
  "plan_tier tenant_id st = opt_or (map_of (ac_tiers st) tenant_id) ''community''"

definition effective_seat_limit :: "string \<Rightarrow> account_state \<Rightarrow> int option" where
  "effective_seat_limit tenant_id st =
     (case tenant_get tenant_id (ac_tenants st) of
        Some r \<Rightarrow> (case tn_max_seats r of Some n \<Rightarrow> Some n | None \<Rightarrow> tier_seats (plan_tier tenant_id st))
      | None \<Rightarrow> tier_seats (plan_tier tenant_id st))"

definition check_seat_quota :: "string \<Rightarrow> account_state \<Rightarrow> bool" where
  "check_seat_quota tenant_id st =
     (case effective_seat_limit tenant_id st of
        None \<Rightarrow> True | Some limit \<Rightarrow> \<not> int (count_by_tenant tenant_id (ac_users st)) \<ge> limit)"

definition update_user :: "string \<Rightarrow> (user_row \<Rightarrow> user_row) \<Rightarrow> account_state \<Rightarrow> account_state" where
  "update_user user_id f st = st\<lparr>ac_users := map (\<lambda>r. if us_id r = user_id then f r else r) (ac_users st)\<rparr>"

text \<open>The quantity sent to Stripe for a tenant with a subscription.\<close>

definition stripe_quantity :: "string \<Rightarrow> account_state \<Rightarrow> nat" where
  "stripe_quantity tenant_id st = max (count_by_tenant tenant_id (ac_users st)) 1"

definition invite_member ::
  "'k account_env \<Rightarrow> timestamp \<Rightarrow> string \<Rightarrow> string \<Rightarrow> string \<Rightarrow> account_state \<Rightarrow> user_row account_result" where
  "invite_member env now tenant_id email role st =
     (if \<not> check_seat_quota tenant_id st then (Inl SeatLimit, st)
      else (case get_by_email tenant_id email (ac_users st) of
              Inl e \<Rightarrow> (Inl (DbError e), st)
            | Inr (Some existing) \<Rightarrow>
                if us_is_active existing then (Inl UserExists, st)
                else (let again = (\<lambda>r. r\<lparr>us_is_active := True, us_role := role\<rparr>)
                      in (Inr (again existing), update_user (us_id existing) again st))
            | Inr None \<Rightarrow>
                (let (n, st) = draw 1 st
                 in create_user env now tenant_id email (ae_uuid env n) (takeWhile (\<lambda>c. c \<noteq> CHR ''@'') email) role st)))"

definition remove_member :: "string \<Rightarrow> string \<Rightarrow> account_state \<Rightarrow> user_row account_result" where
  "remove_member tenant_id user_id st =
     (case get_by_id tenant_id user_id (ac_users st) of
        Inl e \<Rightarrow> (Inl (DbError e), st)
      | Inr None \<Rightarrow> (Inl NoSuchUser, st)
      | Inr (Some user) \<Rightarrow>
          if \<not> us_is_active user then (Inl InactiveUser, st)
          else (let off = (\<lambda>r. r\<lparr>us_is_active := False\<rparr>) in (Inr (off user), update_user user_id off st)))"

definition team_roles :: "string list" where
  "team_roles = [''viewer'', ''operator'', ''engineer'', ''admin'']"

definition update_role :: "string \<Rightarrow> string \<Rightarrow> string \<Rightarrow> account_state \<Rightarrow> user_row account_result" where
  "update_role tenant_id user_id new_role st =
     (if \<not> List.member team_roles new_role then (Inl BadRole, st)
      else (case get_by_id tenant_id user_id (ac_users st) of
              Inl e \<Rightarrow> (Inl (DbError e), st)
            | Inr None \<Rightarrow> (Inl NoSuchUser, st)
            | Inr (Some user) \<Rightarrow>
                (let f = (\<lambda>r. r\<lparr>us_role := new_role\<rparr>) in (Inr (f user), update_user user_id f st))))"

text \<open>Members in the order they joined, the limit, and the seats shown as used.\<close>

definition list_members :: "string \<Rightarrow> account_state \<Rightarrow> user_row list \<times> int option \<times> nat" where
  "list_members tenant_id st =
     (let users = list_by_tenant tenant_id (ac_users st) in (users, effective_seat_limit tenant_id st, length users))"

subsection \<open>Requests\<close>

text \<open>The session of a request commits when the handler returns; what was drawn at random stays drawn.\<close>

definition roll_back :: "account_state \<Rightarrow> account_state \<Rightarrow> account_state" where
  "roll_back st st' = st\<lparr>ac_next := ac_next st'\<rparr>"

definition transacted :: "'a account_result \<Rightarrow> account_state \<Rightarrow> 'a account_result" where
  "transacted res st = (case res of (Inl e, st') \<Rightarrow> (Inl e, roll_back st st') | (Inr x, st') \<Rightarrow> (Inr x, st'))"

text \<open>\<^verbatim>\<open>/refresh\<close> turns an \<^verbatim>\<open>AuthError\<close> into a response that clears the cookie, so that case commits.\<close>

definition route_refresh :: "'k account_env \<Rightarrow> timestamp \<Rightarrow> string option \<Rightarrow> account_state \<Rightarrow> (string \<times> string) account_result" where
  "route_refresh env now cookie st =
     (let token = opt_or cookie []
      in if token = [] then (Inl (AuthError 401), st)
         else (case refresh env now token st of
                 (Inl (AuthError s), st') \<Rightarrow> (Inl (AuthError s), st')
               | res \<Rightarrow> transacted res st))"

definition route_session :: "'k account_env \<Rightarrow> timestamp \<Rightarrow> string option \<Rightarrow> account_state \<Rightarrow> (string \<times> string \<times> user_row) account_result" where
  "route_session env now cookie st =
     (let token = opt_or cookie []
      in if token = [] then (Inl (AuthError 401), st)
         else (case refresh env now token st of
                 (Inl (AuthError s), st') \<Rightarrow> (Inl (AuthError s), st')
               | (Inl e, st') \<Rightarrow> (Inl e, roll_back st st')
               | (Inr (access, new_refresh), st') \<Rightarrow>
                   (let (n, st') = draw 1 st'
                    in (case validate_for env now n access of
                          Inl (PermissionError _) \<Rightarrow> (Inl (AuthError 401), roll_back st st')
                        | Inl e \<Rightarrow> (Inl (TokenError e), roll_back st st')
                        | Inr claims \<Rightarrow>
                            (case get_current_user (tc_sub claims) (tc_tenant_id claims) st' of
                               Inl e \<Rightarrow> (Inl e, roll_back st st')
                             | Inr profile \<Rightarrow> (Inr (access, new_refresh, profile), st'))))))"

definition route_signup ::
  "'k account_env \<Rightarrow> timestamp \<Rightarrow> string \<Rightarrow> string \<Rightarrow> string \<Rightarrow> account_state \<Rightarrow> (user_row \<times> string \<times> string) account_result" where
  "route_signup env now email password display_name st = transacted (signup env now email password display_name st) st"

definition route_login ::
  "'k account_env \<Rightarrow> timestamp \<Rightarrow> string \<Rightarrow> string \<Rightarrow> account_state \<Rightarrow> (user_row \<times> string \<times> string) account_result" where
  "route_login env now email password st = transacted (login env now email password None st) st"

text \<open>The handler only clears the cookie.\<close>

definition route_logout :: "account_state \<Rightarrow> unit account_result" where
  "route_logout st = (Inr (), st)"

definition settings_audit ::
  "'k account_env \<Rightarrow> timestamp \<Rightarrow> string \<Rightarrow> string \<Rightarrow> string \<Rightarrow> string \<Rightarrow> string \<Rightarrow> string \<Rightarrow> account_state \<Rightarrow> account_state" where
  "settings_audit env now tenant_id actor action entity_type entity_id reason st =
     (let (n, st) = draw 1 st
      in st\<lparr>ac_audit := audit_append (ae_sha env) (ae_iso env) (ae_uuid env n) now tenant_id actor action (Some entity_type)
              (Some entity_id) (Some (JObj [(''reason'', JStr reason)])) (ac_audit st)\<rparr>)"

definition route_create_api_key ::
  "'k account_env \<Rightarrow> timestamp \<Rightarrow> string \<Rightarrow> string \<Rightarrow> string \<Rightarrow> string list option \<Rightarrow> account_state \<Rightarrow> (api_key_row \<times> string) account_result" where
  "route_create_api_key env now user_id tenant_id name scopes st =
     (case create_api_key env now user_id tenant_id name scopes st of
        (Inl e, st') \<Rightarrow> (Inl e, roll_back st st')
      | (Inr (row, plaintext), st') \<Rightarrow>
          (Inr (row, plaintext),
           settings_audit env now tenant_id user_id ''SETTINGS_UPDATED'' ''api_key'' (ak_id row) (''API key created: '' @ name) st'))"

definition route_revoke_api_key :: "'k account_env \<Rightarrow> timestamp \<Rightarrow> string \<Rightarrow> string \<Rightarrow> string \<Rightarrow> account_state \<Rightarrow> unit account_result" where
  "route_revoke_api_key env now user_id tenant_id key_id st =
     (let (found, tbl) = key_revoke now tenant_id key_id (ac_keys st)
      in if \<not> found then (Inl (AuthError 404), st)
         else (Inr (), settings_audit env now tenant_id user_id ''SETTINGS_UPDATED'' ''api_key'' key_id ''API key revoked''
                         (st\<lparr>ac_keys := tbl\<rparr>)))"

definition route_revoke_token ::
  "'k account_env \<Rightarrow> timestamp \<Rightarrow> string \<Rightarrow> string \<Rightarrow> string \<Rightarrow> string option \<Rightarrow> timestamp option \<Rightarrow> account_state \<Rightarrow> unit account_result" where
  "route_revoke_token env now user_id tenant_id jti reason expires_at st =
     (Inr (), settings_audit env now tenant_id user_id ''TOKEN_REVOKED'' ''token'' jti (opt_or reason ''No reason provided'')
                (st\<lparr>ac_revocations := revoke now tenant_id jti reason expires_at (ac_revocations st)\<rparr>))"

text \<open>Any request, and the clean-up of the revocations.\<close>

datatype account_call =
    CallSignup string string string
  | CallLogin string string
  | CallRefresh "string option"
  | CallSession "string option"
  | CallLogout
  | CallRevokeToken string string string "string option" "timestamp option"
  | CallCreateKey string string string "string list option"
  | CallRevokeKey string string string
  | CallInvite string string string
  | CallRemove string string
  | CallSetRole string string string
  | CallCleanup "string option"

fun account_step :: "'k account_env \<Rightarrow> timestamp \<Rightarrow> account_call \<Rightarrow> account_state \<Rightarrow> account_state" where
  "account_step env now (CallSignup email password name) st = snd (route_signup env now email password name st)"
| "account_step env now (CallLogin email password) st = snd (route_login env now email password st)"
| "account_step env now (CallRefresh cookie) st = snd (route_refresh env now cookie st)"
| "account_step env now (CallSession cookie) st = snd (route_session env now cookie st)"
| "account_step env now CallLogout st = snd (route_logout st)"
| "account_step env now (CallRevokeToken user tenant jti reason expires) st = snd (route_revoke_token env now user tenant jti reason expires st)"
| "account_step env now (CallCreateKey user tenant name scopes) st = snd (route_create_api_key env now user tenant name scopes st)"
| "account_step env now (CallRevokeKey user tenant key_id) st = snd (route_revoke_api_key env now user tenant key_id st)"
| "account_step env now (CallInvite tenant email role) st = snd (transacted (invite_member env now tenant email role st) st)"
| "account_step env now (CallRemove tenant user) st = snd (transacted (remove_member tenant user st) st)"
| "account_step env now (CallSetRole tenant user role) st = snd (transacted (update_role tenant user role st) st)"
| "account_step env now (CallCleanup scope) st = st\<lparr>ac_revocations := clean_revocations now scope (ac_revocations st)\<rparr>"

definition account_history :: "'k account_env \<Rightarrow> (timestamp \<times> account_call) list \<Rightarrow> account_state \<Rightarrow> account_state" where
  "account_history env h st = foldl (\<lambda>st (now, c). account_step env now c st) st h"

end
