(* ===== verification/Http_Stack.thy ===== *)
theory Http_Stack
  imports Accounts Access Rate_Limit
begin

text \<open>
  The middleware of the API, \<^verbatim>\<open>api/api/middleware\<close>, and the order in which \<^verbatim>\<open>create_app\<close> of \<^verbatim>\<open>api/api/main.py\<close> composes it. A
  middleware turns an application into one; an application maps a request and the world to a response, or an exception, and the
  world. The world holds \<^verbatim>\<open>request.state\<close>, the counters, caches and tables the middleware uses, and what it records. The CORS
  middleware and the routers are not under \<^verbatim>\<open>src/\<close> or are left to their components: they are parameters.
\<close>

subsection \<open>Requests and the world\<close>

text \<open>Header names are in lower case; \<open>hr_chunks\<close> are the sizes of the messages the body arrives in.\<close>

record http_request =
  hr_method :: string
  hr_path :: string
  hr_headers :: "(string \<times> string) list"
  hr_cookies :: "(string \<times> string) list"
  hr_client :: "string option"
  hr_chunks :: "nat list"

record http_response =
  hp_status :: nat
  hp_headers :: "(string \<times> string) list"
  hp_cookies :: "(string \<times> string) list"

text \<open>\<^verbatim>\<open>request.state\<close>: attributes that may be absent.\<close>

record scope =
  sc_tenant_id :: "string option"
  sc_sub :: "string option"
  sc_scopes :: "string list option"
  sc_identity_kind :: "string option"
  sc_role :: "string option"
  sc_trace_id :: "string option"
  sc_span_id :: "string option"
  sc_parent_span_id :: "string option"

definition empty_scope :: scope where
  "empty_scope =
     \<lparr>sc_tenant_id = None, sc_sub = None, sc_scopes = None, sc_identity_kind = None, sc_role = None,
      sc_trace_id = None, sc_span_id = None, sc_parent_span_id = None\<rparr>"

record access_log =
  al_method :: string
  al_path :: string
  al_status :: nat
  al_client :: "string option"
  al_correlation_id :: string
  al_tenant_id :: string
  al_identity_kind :: string
  al_trace_id :: string
  al_span_id :: string
  al_headers :: "(string \<times> string) list"

record usage_entry =
  ue_tenant_id :: string
  ue_method :: string
  ue_path :: string
  ue_status :: nat

record ('s, 'r) world =
  wo_scope :: scope
  wo_limits :: 's \<comment> \<open>rate-limit counters\<close>
  wo_cache :: rev_cache
  wo_redis :: 'r
  wo_accounts :: account_state
  wo_manager :: "token_manager option"
  wo_license :: "license_manager option"
  wo_usage :: "usage_entry list"
  wo_metrics :: "(string \<times> string \<times> nat) list"
  wo_log :: "access_log list"
  wo_read :: nat \<comment> \<open>messages of the body the application has read\<close>

datatype http_fault = TokenFault token_error | ConfigFault | AppFault string

type_synonym ('s, 'r) app = "http_request \<Rightarrow> ('s, 'r) world \<Rightarrow> (http_fault + http_response) \<times> ('s, 'r) world"

type_synonym ('s, 'r) middleware = "('s, 'r) app \<Rightarrow> ('s, 'r) app"

text \<open>
  What surrounds one request: the process environment, the settings, the instants, random texts, and which stores answer.
  \<open>he_cors\<close> is Starlette's CORS middleware.
\<close>

record ('k, 's, 'r) http_env =
  he_environ :: "string \<Rightarrow> string option"
  he_jwt_secret :: "string option"
  he_dev_secret :: string
  he_accounts :: "'k account_env"
  he_now :: timestamp
  he_rev_redis :: "'r rev_redis"
  he_redis_url :: bool
  he_avail :: availability
  he_revocation :: bool
  he_database :: bool
  he_hit :: "'s \<Rightarrow> rat \<Rightarrow> string \<Rightarrow> nat \<times> 's"
  he_reset :: "'s \<Rightarrow> rat \<Rightarrow> string \<Rightarrow> rat"
  he_rates :: rate_config
  he_clock :: "rat \<times> rat \<times> rat" \<comment> \<open>arrival, departure, jitter\<close>
  he_csrf_token :: string
  he_trace_id :: string
  he_span_id :: string
  he_correlation_id :: string
  he_api_url :: "string option"
  he_max_body :: int
  he_collector :: bool
  he_prometheus :: bool
  he_cors :: "('s, 'r) middleware"

definition header :: "string \<Rightarrow> http_request \<Rightarrow> string option" where
  "header name rq = map_of (hr_headers rq) name"

definition json_response :: "nat \<Rightarrow> (string \<times> string) list \<Rightarrow> http_response" where
  "json_response status headers = \<lparr>hp_status = status, hp_headers = headers, hp_cookies = []\<rparr>"

definition set_header :: "string \<Rightarrow> string \<Rightarrow> http_response \<Rightarrow> http_response" where
  "set_header name value r = r\<lparr>hp_headers := dict_set (hp_headers r) name value\<rparr>"

text \<open>Continue with the response of \<^verbatim>\<open>call_next\<close>; an exception passes.\<close>

definition on_response ::
  "(http_response \<Rightarrow> ('s, 'r) world \<Rightarrow> (http_fault + http_response) \<times> ('s, 'r) world) \<Rightarrow>
   (http_fault + http_response) \<times> ('s, 'r) world \<Rightarrow> (http_fault + http_response) \<times> ('s, 'r) world" where
  "on_response f res = (case res of (Inl e, w) \<Rightarrow> (Inl e, w) | (Inr r, w) \<Rightarrow> f r w)"

definition decorate :: "(http_response \<Rightarrow> http_response) \<Rightarrow> (http_fault + http_response) \<times> ('s, 'r) world \<Rightarrow>
    (http_fault + http_response) \<times> ('s, 'r) world" where
  "decorate f = on_response (\<lambda>r w. (Inr (f r), w))"

subsection \<open>Metering\<close>

definition metering_skip_paths :: "string list" where
  "metering_skip_paths = [''/docs'', ''/redoc'', ''/openapi.json'', ''/favicon.ico'', ''/ready'', ''/metrics'', ''/api/v1/health'']"

definition anonymous :: string where "anonymous = ''anonymous''"

definition metering :: "('k, 's, 'r) http_env \<Rightarrow> ('s, 'r) middleware" where
  "metering env app rq w =
     on_response (\<lambda>r w.
       let path = (if rstrip_slash (hr_path rq) = [] then ''/'' else rstrip_slash (hr_path rq))
       in if path \<in> set metering_skip_paths \<or> \<not> he_collector env then (Inr r, w)
          else (Inr r, w\<lparr>wo_usage := wo_usage w @
                  [\<lparr>ue_tenant_id = (case sc_tenant_id (wo_scope w) of None \<Rightarrow> anonymous | Some t \<Rightarrow> t), ue_method = hr_method rq,
                    ue_path = path, ue_status = hp_status r\<rparr>]\<rparr>))
     (app rq w)"

subsection \<open>Request logging\<close>

definition sensitive_headers :: "string list" where
  "sensitive_headers = [''authorization'', ''x-api-key'', ''cookie'', ''x-csrf-token'']"

definition safe_headers :: "http_request \<Rightarrow> (string \<times> string) list" where
  "safe_headers rq = map (\<lambda>(k, v). (k, if py_lower k \<in> set sensitive_headers then ''***'' else v)) (hr_headers rq)"

definition log_entry :: "http_request \<Rightarrow> string \<Rightarrow> nat \<Rightarrow> scope \<Rightarrow> access_log" where
  "log_entry rq correlation_id status sc =
     \<lparr>al_method = hr_method rq, al_path = hr_path rq, al_status = status, al_client = hr_client rq,
      al_correlation_id = correlation_id, al_tenant_id = (case sc_tenant_id sc of None \<Rightarrow> anonymous | Some t \<Rightarrow> t),
      al_identity_kind = (case sc_identity_kind sc of None \<Rightarrow> user_kind | Some k \<Rightarrow> k),
      al_trace_id = opt_or (sc_trace_id sc) [], al_span_id = opt_or (sc_span_id sc) [], al_headers = safe_headers rq\<rparr>"

definition request_logging :: "('k, 's, 'r) http_env \<Rightarrow> ('s, 'r) middleware" where
  "request_logging env app rq w =
     (let given = opt_or (header ''x-correlation-id'' rq) [];
          correlation_id = (if given = [] then he_correlation_id env else given);
          (res, w) = app rq w;
          status = (case res of Inl _ \<Rightarrow> 500 | Inr r \<Rightarrow> hp_status r);
          w = w\<lparr>wo_log := wo_log w @ [log_entry rq correlation_id status (wo_scope w)]\<rparr>
      in decorate (set_header ''X-Correlation-ID'' correlation_id) (res, w))"

subsection \<open>Rate limiting\<close>

text \<open>The request as the limiter sees it, with what \<^verbatim>\<open>request.state\<close> holds when it arrives there.\<close>

definition limiter_view :: "http_request \<Rightarrow> scope \<Rightarrow> rl_request" where
  "limiter_view rq sc = \<lparr>rq_tenant_id = sc_tenant_id sc, rq_host = hr_client rq, rq_path = hr_path rq\<rparr>"

definition rate_limit :: "('k, 's, 'r) http_env \<Rightarrow> ('s, 'r) middleware" where
  "rate_limit env app rq w =
     (let (now, later, jitter) = he_clock env;
          (answer, limits) = Rate_Limit.dispatch (he_hit env) (he_reset env) (he_rates env) now later jitter
                               (limiter_view rq (wo_scope w)) (wo_limits w);
          w = w\<lparr>wo_limits := limits\<rparr>
      in (case answer of
            Unlimited \<Rightarrow> app rq w
          | TooMany limit retry_after \<Rightarrow>
              (Inr (json_response 429 [(''Retry-After'', int_string retry_after), (''X-RateLimit-Limit'', int_string limit),
                      (''X-RateLimit-Remaining'', ''0''), (''X-RateLimit-Reset'', int_string retry_after)]), w)
          | Forwarded limit remaining reset \<Rightarrow>
              decorate (set_header ''X-RateLimit-Reset'' (int_string reset) \<circ> set_header ''X-RateLimit-Remaining'' (int_string remaining)
                \<circ> set_header ''X-RateLimit-Limit'' (int_string limit)) (app rq w)))"

subsection \<open>License\<close>

definition gated_endpoints :: "(string \<times> feature) list" where
  "gated_endpoints = [(''/api/v1/audit'', AUDIT_LOG), (''/api/v1/reconciliation'', RECONCILIATION), (''/api/v1/tenant/config'', MULTI_TENANT)]"

definition license :: "('s, 'r) middleware" where
  "license app rq w =
     (case wo_license w of
        None \<Rightarrow> app rq w
      | Some lm \<Rightarrow>
          (case find (\<lambda>(prefix, _). starts_with prefix (hr_path rq)) gated_endpoints of
             Some (_, f) \<Rightarrow> if \<not> check_entitlement lm f then (Inr (json_response 402 []), w) else app rq w
           | None \<Rightarrow> app rq w))"

text \<open>The manager has no public key, so no signature is verified; \<open>file\<close> is what reading the path gives.\<close>

definition init_license_manager ::
  "((string \<times> json) list \<Rightarrow> license_file option) \<Rightarrow> (string \<Rightarrow> string \<Rightarrow> string \<Rightarrow> bool) \<Rightarrow> timestamp \<Rightarrow>
   (string \<times> json) list option \<Rightarrow> license_manager" where
  "init_license_manager parse ed25519 now file =
     (case file of
        None \<Rightarrow> new_license_manager
      | Some data \<Rightarrow> snd (load_license_from_string parse ed25519 None now data new_license_manager))"

subsection \<open>Trace context\<close>

definition is_lhex :: "char \<Rightarrow> bool" where
  "is_lhex c \<longleftrightarrow> List.member ''0123456789abcdef'' c"

definition hex_of_length :: "nat \<Rightarrow> string \<Rightarrow> bool" where
  "hex_of_length n s \<longleftrightarrow> length s = n \<and> list_all is_lhex s"

definition parse_traceparent :: "string \<Rightarrow> string \<times> string \<times> string" where
  "parse_traceparent h =
     (case py_split (CHR ''-'') (py_lower (py_strip h)) of
        [version, trace_id, parent_span_id, flags] \<Rightarrow>
          if \<not> (hex_of_length 2 version \<and> hex_of_length 32 trace_id \<and> hex_of_length 16 parent_span_id \<and> hex_of_length 2 flags)
          then ([], [], [])
          else if version = ''ff'' then ([], [], [])
          else if trace_id = replicate 32 CHR ''0'' \<or> parent_span_id = replicate 16 CHR ''0'' then ([], [], [])
          else (trace_id, parent_span_id, flags)
      | _ \<Rightarrow> ([], [], []))"

definition get_traceparent :: "string \<Rightarrow> string \<Rightarrow> string \<Rightarrow> string" where
  "get_traceparent trace_id span_id flags =
     (if trace_id = [] \<or> span_id = [] then [] else ''00-'' @ trace_id @ ''-'' @ span_id @ ''-'' @ flags)"

definition trace_context :: "('k, 's, 'r) http_env \<Rightarrow> ('s, 'r) middleware" where
  "trace_context env app rq w =
     (let (trace_id, parent, _) = parse_traceparent (opt_or (header ''traceparent'' rq) []);
          trace_id = (if trace_id = [] then he_trace_id env else trace_id);
          sc = (wo_scope w)\<lparr>sc_trace_id := Some trace_id, sc_span_id := Some (he_span_id env), sc_parent_span_id := Some parent\<rparr>
      in decorate (set_header ''X-Trace-ID'' trace_id) (app rq (w\<lparr>wo_scope := sc\<rparr>)))"

subsection \<open>Authentication\<close>

definition environ_or :: "(string \<Rightarrow> string option) \<Rightarrow> string \<Rightarrow> string \<Rightarrow> string" where
  "environ_or environ name fallback = opt_or (environ name) fallback"

definition is_dev :: "(string \<Rightarrow> string option) \<Rightarrow> bool" where
  "is_dev environ \<longleftrightarrow>
     environ_or environ ''PLATFORM_ENV'' ''development'' = ''development'' \<and>
     py_lower (environ_or environ ''AUTH_MODE'' ''development'') = ''development''"

definition open_paths :: "string list" where
  "open_paths = [''/api/v1/health'', ''/ready'', ''/favicon.ico'', ''/api/v1/billing/webhooks'', ''/api/v1/webhooks/github'',
     ''/api/v1/auth/signup'', ''/api/v1/auth/login'', ''/api/v1/auth/refresh'', ''/api/v1/auth/session'', ''/api/v1/auth/logout'']"

definition build_public_paths :: "(string \<Rightarrow> string option) \<Rightarrow> string list" where
  "build_public_paths environ =
     (if is_dev environ then open_paths @ [''/docs'', ''/openapi.json'', ''/redoc'', ''/metrics'']
      else if py_lower (environ_or environ ''METRICS_PUBLIC'' ''false'') = ''true'' then open_paths @ [''/metrics''] else open_paths)"

definition build_public_prefixes :: "(string \<Rightarrow> string option) \<Rightarrow> string list" where
  "build_public_prefixes environ = (if is_dev environ then [''/docs'', ''/redoc''] else [])"

definition is_public_path :: "(string \<Rightarrow> string option) \<Rightarrow> string \<Rightarrow> bool" where
  "is_public_path environ path \<longleftrightarrow>
     path \<in> set (build_public_paths environ) \<or> list_ex (\<lambda>prefix. starts_with prefix path) (build_public_prefixes environ)"

definition auth_mode_of :: "string \<Rightarrow> auth_mode" where
  "auth_mode_of raw =
     (if raw = ''jwt'' then MODE_JWT else if raw = ''kms_exchange'' then MODE_KMS
      else if raw = ''oidc_onprem'' then MODE_OIDC else MODE_DEVELOPMENT)"

definition environ_int :: "(string \<Rightarrow> string option) \<Rightarrow> string \<Rightarrow> int \<Rightarrow> http_fault + int" where
  "environ_int environ name fallback =
     (case environ name of
        None \<Rightarrow> Inr fallback
      | Some s \<Rightarrow> (case py_int s of None \<Rightarrow> Inl (TokenFault ValueError) | Some i \<Rightarrow> Inr i))"

text \<open>Without a secret the development mode draws one, \<open>dev_secret\<close>, at every call; an unknown mode is the development mode.\<close>

definition build_token_config ::
  "(string \<Rightarrow> string option) \<Rightarrow> string option \<Rightarrow> string \<Rightarrow> http_fault + token_config" where
  "build_token_config environ jwt_secret dev_secret =
     (let mode = auth_mode_of (py_lower (environ_or environ ''AUTH_MODE'' ''development''));
          secret = opt_or jwt_secret []
      in if secret = [] \<and> mode \<noteq> MODE_DEVELOPMENT then Inl ConfigFault
         else (case environ_int environ ''TOKEN_TTL_SECONDS'' 3600 of
                 Inl e \<Rightarrow> Inl e
               | Inr ttl \<Rightarrow>
                   (case environ_int environ ''MAX_TOKEN_TTL_SECONDS'' 86400 of
                      Inl e \<Rightarrow> Inl e
                    | Inr max_ttl \<Rightarrow>
                        (case environ_int environ ''REFRESH_TOKEN_TTL_SECONDS'' 86400 of
                           Inl e \<Rightarrow> Inl e
                         | Inr refresh_ttl \<Rightarrow>
                             Inr \<lparr>cf_auth_mode = mode, cf_jwt_secret = (if secret = [] then ''dev-'' @ dev_secret else secret),
                                  cf_jwt_algorithm = environ_or environ ''JWT_ALGORITHM'' ''HS256'', cf_token_ttl_seconds = ttl,
                                  cf_refresh_token_ttl_seconds = refresh_ttl, cf_kms_key_arn = environ ''KMS_KEY_ARN'',
                                  cf_kms_provider = KMS_AUTO, cf_oidc_issuer_url = environ ''OIDC_ISSUER_URL'',
                                  cf_oidc_audience = environ ''OIDC_AUDIENCE'', cf_max_token_ttl_seconds = max_ttl,
                                  cf_jwt_secret_previous =
                                    (case environ ''JWT_SECRET_PREVIOUS'' of None \<Rightarrow> None | Some s \<Rightarrow> if s = [] then None else Some s)\<rparr>))))"

definition ensure_token_manager :: "('k, 's, 'r) http_env \<Rightarrow> ('s, 'r) world \<Rightarrow> (http_fault + token_manager) \<times> ('s, 'r) world" where
  "ensure_token_manager env w =
     (case wo_manager w of
        Some tm \<Rightarrow> (Inr tm, w)
      | None \<Rightarrow>
          (case build_token_config (he_environ env) (he_jwt_secret env) (he_dev_secret env) of
             Inl e \<Rightarrow> (Inl e, w)
           | Inr cfg \<Rightarrow> (let tm = \<lparr>tm_config = cfg, tm_oidc_provider = None\<rparr> in (Inr tm, w\<lparr>wo_manager := Some tm\<rparr>))))"

text \<open>\<^verbatim>\<open>header.split(None, 1)\<close>\<close>

definition split_once :: "string \<Rightarrow> string list" where
  "split_once h =
     (let s = dropWhile is_space h; rest = dropWhile is_space (dropWhile (\<lambda>c. \<not> is_space c) s)
      in if s = [] then [] else if rest = [] then [takeWhile (\<lambda>c. \<not> is_space c) s]
         else [takeWhile (\<lambda>c. \<not> is_space c) s, rest])"

definition bearer_token :: "http_request \<Rightarrow> string option" where
  "bearer_token rq =
     (case split_once (opt_or (header ''authorization'' rq) []) of
        [scheme, token] \<Rightarrow> if py_lower scheme = ''bearer'' then Some token else None
      | _ \<Rightarrow> None)"

definition known_roles :: "string list" where
  "known_roles = [''admin'', ''engineer'', ''viewer'', ''service'', ''operator'']"

definition service_kind :: string where "service_kind = ''service''"
definition viewer_role :: string where "viewer_role = ''viewer''"

definition normal_role :: "string option \<Rightarrow> string \<Rightarrow> string" where
  "normal_role role identity_kind =
     (let r = opt_or role [];
          r = (if r = [] then (if identity_kind = service_kind then service_kind else viewer_role) else r)
      in if r \<notin> set known_roles then viewer_role else r)"

definition unauthorized :: http_response where
  "unauthorized = json_response 401 [(''WWW-Authenticate'', ''Bearer'')]"

text \<open>\<^verbatim>\<open>if jti and _check_revocation is not None\<close>\<close>

definition token_revoked :: "('k, 's, 'r) http_env \<Rightarrow> string \<Rightarrow> ('s, 'r) world \<Rightarrow> bool \<times> ('s, 'r) world" where
  "token_revoked env jti w =
     (if jti = [] \<or> \<not> he_revocation env then (False, w)
      else (let (revoked, cache, shared) =
                  check_revocation (he_rev_redis env) (he_redis_url env) (he_avail env) (he_now env) jti (wo_cache w)
                    \<lparr>ss_redis = wo_redis w, ss_rows = ac_revocations (wo_accounts w)\<rparr>
            in (revoked, w\<lparr>wo_cache := cache, wo_redis := ss_redis shared\<rparr>)))"

definition claims_scope :: "token_claims \<Rightarrow> scope \<Rightarrow> scope" where
  "claims_scope claims sc =
     sc\<lparr>sc_tenant_id := Some (tc_tenant_id claims), sc_sub := Some (tc_sub claims), sc_scopes := Some (tc_scopes claims),
        sc_identity_kind := Some (tc_identity_kind claims), sc_role := Some (normal_role (tc_role claims) (tc_identity_kind claims))\<rparr>"

definition default_tenant :: string where "default_tenant = ''default''"

text \<open>
  The repository of the keys is built without a tenant, so it looks in the tenant \<^verbatim>\<open>default\<close>. Its update is committed with the
  success; any database error is answered.
\<close>

definition authenticate_api_key :: "('k, 's, 'r) http_env \<Rightarrow> string \<Rightarrow> ('s, 'r) middleware" where
  "authenticate_api_key env api_key app rq w =
     (if \<not> he_database env then (Inr (json_response 503 []), w)
      else
        let st = wo_accounts w
        in (case validate_key (he_accounts env) (he_now env) default_tenant api_key (ac_keys st) of
              (Inr (Some key_row), keys) \<Rightarrow>
                (case get_by_id (ak_tenant_id key_row) (ak_user_id key_row) (ac_users st) of
                   Inr (Some user) \<Rightarrow>
                     if \<not> us_is_active user then (Inr unauthorized, w)
                     else app rq
                       (w\<lparr>wo_accounts := st\<lparr>ac_keys := keys\<rparr>,
                          wo_scope := (wo_scope w)\<lparr>sc_tenant_id := Some (ak_tenant_id key_row), sc_sub := Some (ak_user_id key_row),
                            sc_scopes := Some (case ak_scopes key_row of None \<Rightarrow> read_write | Some s \<Rightarrow> if s = [] then read_write else s),
                            sc_identity_kind := Some service_kind, sc_role := Some (us_role user)\<rparr>\<rparr>)
                 | _ \<Rightarrow> (Inr unauthorized, w))
            | _ \<Rightarrow> (Inr unauthorized, w)))"

definition authentication :: "('k, 's, 'r) http_env \<Rightarrow> ('s, 'r) middleware" where
  "authentication env app rq w =
     (if is_public_path (he_environ env) (hr_path rq) then app rq w
      else (case ensure_token_manager env w of
              (Inl e, w) \<Rightarrow> (Inl e, w)
            | (Inr tm, w) \<Rightarrow>
                (case bearer_token rq of
                   None \<Rightarrow> (Inr unauthorized, w)
                 | Some token \<Rightarrow>
                     if starts_with key_convention token then authenticate_api_key env token app rq w
                     else
                       let n = ac_next (wo_accounts w);
                           (res, tm) = validate_token_async (ae_token (he_accounts env)) (ae_oidc (he_accounts env)) (he_now env)
                                         (ae_uuid (he_accounts env) n) token tm;
                           w = w\<lparr>wo_manager := Some tm, wo_accounts := snd (draw 1 (wo_accounts w))\<rparr>
                       in (case res of
                             Inl (PermissionError _) \<Rightarrow> (Inr unauthorized, w)
                           | Inl e \<Rightarrow> (Inl (TokenFault e), w)
                           | Inr claims \<Rightarrow>
                               (let (revoked, w) = token_revoked env (tc_jti claims) w
                                in if revoked then (Inr unauthorized, w)
                                   else app rq (w\<lparr>wo_scope := claims_scope claims (wo_scope w)\<rparr>))))))"

subsection \<open>Cross-site requests, security headers, size of the body, metrics\<close>

definition safe_methods :: "string list" where "safe_methods = [''GET'', ''HEAD'', ''OPTIONS'']"
definition csrf_cookie :: string where "csrf_cookie = ''csrf_token''"

text \<open>\<^verbatim>\<open>secrets.compare_digest\<close> raises on texts that are not ASCII.\<close>

definition csrf :: "('k, 's, 'r) http_env \<Rightarrow> ('s, 'r) middleware" where
  "csrf env app rq w =
     (let cookie = map_of (hr_cookies rq)
      in if hr_method rq \<in> set safe_methods then
           decorate (\<lambda>r. if cookie csrf_cookie = None then r\<lparr>hp_cookies := hp_cookies r @ [(csrf_cookie, he_csrf_token env)]\<rparr> else r)
             (app rq w)
         else
           let cookie_token = opt_or (cookie csrf_cookie) [];
               header_token = opt_or (header ''x-csrf-token'' rq) []
           in if cookie ''refresh_token'' = None then app rq w
              else if cookie_token = [] \<or> header_token = [] then (Inr (json_response 403 []), w)
              else if \<not> is_ascii cookie_token \<or> \<not> is_ascii header_token then (Inl (TokenFault TypeError), w)
              else if cookie_token \<noteq> header_token then (Inr (json_response 403 []), w)
              else app rq w)"

definition quoted :: "string \<Rightarrow> string" where
  "quoted s = CHR 0x27 # s @ [CHR 0x27]"

definition default_csp :: string where
  "default_csp =
     py_join ''; ''
       (map (\<lambda>(directive, source, rest). directive @ '' '' @ quoted source @ rest)
         [(''default-src'', ''self'', []), (''script-src'', ''self'', []), (''style-src'', ''self'', []), (''img-src'', ''self'', '' data:''),
          (''font-src'', ''self'', []), (''frame-ancestors'', ''none'', []), (''base-uri'', ''self'', []), (''form-action'', ''self'', [])])"

definition add_hsts :: "(string \<Rightarrow> string option) \<Rightarrow> bool" where
  "add_hsts environ \<longleftrightarrow> \<not> List.member [''development'', ''dev'', ''local''] (py_lower (environ_or environ ''PLATFORM_ENV'' ''development''))"

definition csp_policy :: "('k, 's, 'r) http_env \<Rightarrow> string" where
  "csp_policy env =
     default_csp @ ''; connect-src '' @ quoted ''self'' @ (let url = opt_or (he_api_url env) [] in if url = [] then [] else '' '' @ url) @
     (if add_hsts (he_environ env) then ''; upgrade-insecure-requests'' else [])"

definition csp_headers :: "('k, 's, 'r) http_env \<Rightarrow> (string \<times> string) list" where
  "csp_headers env =
     [(''Content-Security-Policy'', csp_policy env), (''X-Content-Type-Options'', ''nosniff''), (''X-Frame-Options'', ''DENY''),
      (''Referrer-Policy'', ''strict-origin-when-cross-origin''), (''Permissions-Policy'', ''camera=(), microphone=(), geolocation=()'')] @
     (if add_hsts (he_environ env) then [(''Strict-Transport-Security'', ''max-age=63072000; includeSubDomains; preload'')] else [])"

definition csp :: "('k, 's, 'r) http_env \<Rightarrow> ('s, 'r) middleware" where
  "csp env app rq w = decorate (\<lambda>r. foldl (\<lambda>r (k, v). set_header k v r) r (csp_headers env)) (app rq w)"

text \<open>The messages the application sees: the first that passes the limit becomes an empty last one.\<close>

fun limited_chunks :: "int \<Rightarrow> int \<Rightarrow> nat list \<Rightarrow> nat list" where
  "limited_chunks max_size received [] = []"
| "limited_chunks max_size received (n # ns) =
     (if received + int n > max_size then [0] else n # limited_chunks max_size (received + int n) ns)"

definition body_limit :: "('k, 's, 'r) http_env \<Rightarrow> ('s, 'r) middleware" where
  "body_limit env app rq w =
     (let max_size = he_max_body env;
          go = (\<lambda>_::unit.
            let chunks = limited_chunks max_size 0 (hr_chunks rq)
            in on_response (\<lambda>r w.
                 if sum_list (take (wo_read w) (map int (hr_chunks rq))) > max_size then (Inr (json_response 413 []), w) else (Inr r, w))
               (app (rq\<lparr>hr_chunks := chunks\<rparr>) w))
      in (case header ''content-length'' rq of
            None \<Rightarrow> go ()
          | Some s \<Rightarrow>
              (case py_int s of
                 None \<Rightarrow> (Inr (json_response 400 []), w)
               | Some n \<Rightarrow> if n > max_size then (Inr (json_response 413 []), w) else go ())))"

text \<open>The four patterns of path parameters, each on the text after a slash; the answer is the length of the match.\<close>

definition match_uuid :: "string \<Rightarrow> nat option" where
  "match_uuid s =
     (if length s \<ge> 36 \<and> list_all (\<lambda>i. if List.member [8, 13, 18, 23] i then s ! i = CHR ''-'' else is_lhex (s ! i)) [0..<36]
      then Some 36 else None)"

definition match_hash :: "string \<Rightarrow> nat option" where
  "match_hash s = (let n = length (takeWhile is_lhex s) in if n \<ge> 12 then Some (min n 64) else None)"

definition is_lalpha :: "char \<Rightarrow> bool" where
  "is_lalpha c = (let n = (of_char c :: nat) in 97 \<le> n \<and> n \<le> 122)"

definition match_named :: "string \<Rightarrow> nat option" where
  "match_named s =
     (let letters = takeWhile is_lalpha s; rest = dropWhile is_lalpha s; n = length (takeWhile is_lhex (drop 1 rest))
      in if letters \<noteq> [] \<and> rest \<noteq> [] \<and> hd rest = CHR ''-'' \<and> n \<ge> 8 then Some (length letters + 1 + n) else None)"

definition match_number :: "string \<Rightarrow> nat option" where
  "match_number s = (let n = length (takeWhile (\<lambda>c. digit_value c \<noteq> None) s) in if n > 0 then Some n else None)"

fun sub_segments :: "(string \<Rightarrow> nat option) \<Rightarrow> string \<Rightarrow> string" where
  "sub_segments m [] = []"
| "sub_segments m (c # cs) =
     (case (if c = CHR ''/'' then m cs else None) of
        Some n \<Rightarrow> CHR ''/'' # CHR 0x7B # ''id'' @ CHR 0x7D # sub_segments m (drop n cs)
      | None \<Rightarrow> c # sub_segments m cs)"

definition normalise_path :: "string \<Rightarrow> string" where
  "normalise_path path = sub_segments match_number (sub_segments match_named (sub_segments match_hash (sub_segments match_uuid path)))"

definition prometheus_skip_paths :: "string list" where
  "prometheus_skip_paths = [''/metrics'', ''/docs'', ''/redoc'', ''/openapi.json'', ''/favicon.ico'']"

definition prometheus :: "('k, 's, 'r) http_env \<Rightarrow> ('s, 'r) middleware" where
  "prometheus env app rq w =
     (if \<not> he_prometheus env \<or> hr_path rq \<in> set prometheus_skip_paths then app rq w
      else on_response (\<lambda>r w. (Inr r, w\<lparr>wo_metrics := wo_metrics w @ [(hr_method rq, normalise_path (hr_path rq), hp_status r)]\<rparr>)) (app rq w))"

subsection \<open>The stack\<close>

text \<open>Starlette puts an added middleware before those already there, and the first of the list is the outermost.\<close>

definition add_middleware :: "('s, 'r) middleware \<Rightarrow> ('s, 'r) middleware list \<Rightarrow> ('s, 'r) middleware list" where
  "add_middleware m ms = m # ms"

definition build_stack :: "('s, 'r) middleware list \<Rightarrow> ('s, 'r) app \<Rightarrow> ('s, 'r) app" where
  "build_stack ms app = foldr (\<lambda>m inner. m inner) ms app"

text \<open>The calls of \<^verbatim>\<open>create_app\<close> in their order.\<close>

definition create_app :: "('k, 's, 'r) http_env \<Rightarrow> ('s, 'r) middleware list" where
  "create_app env =
     foldl (\<lambda>ms m. add_middleware m ms) []
       [prometheus env, body_limit env, he_cors env, csp env, csrf env, authentication env, trace_context env, license,
        rate_limit env, request_logging env, metering env]"

text \<open>A request arrives with an empty \<^verbatim>\<open>request.state\<close> and an unread body.\<close>

definition serve :: "('k, 's, 'r) http_env \<Rightarrow> ('s, 'r) app \<Rightarrow> ('s, 'r) app" where
  "serve env app rq w = build_stack (create_app env) app rq (w\<lparr>wo_scope := empty_scope, wo_read := 0\<rparr>)"

end
