(* ===== verification/Http_Facts.thy ===== *)
theory Http_Facts
  imports Http_Stack
begin

text \<open>
  What the composition of the middleware guarantees: which requests reach the application and as whom, under which key they are
  counted, what an unauthenticated client sees, and what tokens, keys and licenses open.
\<close>

subsection \<open>The interface of a middleware\<close>

text \<open>A middleware depends on the application only through the calls it makes: \<open>passes rq w rq' w'\<close> bounds them.\<close>

locale middleware_layer =
  fixes mw :: "('s, 'r) middleware"
    and passes :: "http_request \<Rightarrow> ('s, 'r) world \<Rightarrow> http_request \<Rightarrow> ('s, 'r) world \<Rightarrow> bool"
  assumes calls_only: "(\<And>rq' w'. passes rq w rq' w' \<Longrightarrow> app rq' w' = app' rq' w') \<Longrightarrow> mw app rq w = mw app' rq w"

text \<open>One layer around another.\<close>

locale two_layers = outer: middleware_layer mw1 passes1 + inner: middleware_layer mw2 passes2
  for mw1 :: "('s, 'r) middleware" and passes1 and mw2 :: "('s, 'r) middleware" and passes2
begin

lemma composed:
  "(\<And>rq1 w1 rq' w'. passes1 rq w rq1 w1 \<Longrightarrow> passes2 rq1 w1 rq' w' \<Longrightarrow> app rq' w' = app' rq' w') \<Longrightarrow>
   mw1 (mw2 app) rq w = mw1 (mw2 app') rq w"
  by (rule outer.calls_only, rule inner.calls_only) blast

end

sublocale two_layers \<subseteq> pair: middleware_layer "\<lambda>app. mw1 (mw2 app)"
  "\<lambda>rq w rq' w'. \<exists>rq1 w1. passes1 rq w rq1 w1 \<and> passes2 rq1 w1 rq' w'"
  by unfold_locales (rule composed, blast)

subsection \<open>What each layer passes on\<close>

definition unchanged :: "http_request \<Rightarrow> ('s, 'r) world \<Rightarrow> http_request \<Rightarrow> ('s, 'r) world \<Rightarrow> bool" where
  "unchanged rq w rq' w' \<longleftrightarrow> rq' = rq \<and> w' = w"

definition counted :: "http_request \<Rightarrow> ('s, 'r) world \<Rightarrow> http_request \<Rightarrow> ('s, 'r) world \<Rightarrow> bool" where
  "counted rq w rq' w' \<longleftrightarrow> rq' = rq \<and> (\<exists>l. w' = w\<lparr>wo_limits := l\<rparr>)"

definition license_allows :: "license_manager option \<Rightarrow> string \<Rightarrow> bool" where
  "license_allows lic path \<longleftrightarrow>
     (case lic of None \<Rightarrow> True
      | Some lm \<Rightarrow> (case find (\<lambda>(prefix, _). starts_with prefix path) gated_endpoints of None \<Rightarrow> True | Some (_, f) \<Rightarrow> check_entitlement lm f))"

definition licensed :: "http_request \<Rightarrow> ('s, 'r) world \<Rightarrow> http_request \<Rightarrow> ('s, 'r) world \<Rightarrow> bool" where
  "licensed rq w rq' w' \<longleftrightarrow> rq' = rq \<and> w' = w \<and> license_allows (wo_license w) (hr_path rq)"

text \<open>Only the trace identifiers of the scope change.\<close>

definition same_identity :: "scope \<Rightarrow> scope \<Rightarrow> bool" where
  "same_identity sc sc' \<longleftrightarrow> sc_tenant_id sc' = sc_tenant_id sc \<and> sc_sub sc' = sc_sub sc \<and> sc_scopes sc' = sc_scopes sc \<and>
     sc_identity_kind sc' = sc_identity_kind sc \<and> sc_role sc' = sc_role sc"

definition traced :: "http_request \<Rightarrow> ('s, 'r) world \<Rightarrow> http_request \<Rightarrow> ('s, 'r) world \<Rightarrow> bool" where
  "traced rq w rq' w' \<longleftrightarrow> rq' = rq \<and> (\<exists>sc. w' = w\<lparr>wo_scope := sc\<rparr> \<and> same_identity (wo_scope w) sc)"

text \<open>An unrevoked token of the manager, or a key of an active user, gave the scope its identity.\<close>

definition by_token :: "('k, 's, 'r) http_env \<Rightarrow> http_request \<Rightarrow> ('s, 'r) world \<Rightarrow> scope \<Rightarrow> bool" where
  "by_token env rq w sc \<longleftrightarrow>
     (\<exists>tm token claims w1. ensure_token_manager env w = (Inr tm, w1) \<and> bearer_token rq = Some token \<and> \<not> starts_with key_convention token \<and>
        fst (validate_token_async (ae_token (he_accounts env)) (ae_oidc (he_accounts env)) (he_now env)
               (ae_uuid (he_accounts env) (ac_next (wo_accounts w))) token tm) = Inr claims \<and>
        \<not> fst (token_revoked env (tc_jti claims) w) \<and> same_identity (claims_scope claims empty_scope) sc)"

definition by_key :: "('k, 's, 'r) http_env \<Rightarrow> http_request \<Rightarrow> ('s, 'r) world \<Rightarrow> scope \<Rightarrow> bool" where
  "by_key env rq w sc \<longleftrightarrow>
     (\<exists>token key user. bearer_token rq = Some token \<and> starts_with key_convention token \<and> key \<in> set (ac_keys (wo_accounts w)) \<and>
        usable_key (he_now env) default_tenant (ae_sha (he_accounts env) token) key \<and>
        get_by_id default_tenant (ak_user_id key) (ac_users (wo_accounts w)) = Inr (Some user) \<and> us_is_active user \<and>
        sc_tenant_id sc = Some default_tenant \<and> sc_sub sc = Some (ak_user_id key) \<and> sc_role sc = Some (us_role user))"

definition identified :: "('k, 's, 'r) http_env \<Rightarrow> http_request \<Rightarrow> ('s, 'r) world \<Rightarrow> http_request \<Rightarrow> ('s, 'r) world \<Rightarrow> bool" where
  "identified env rq w rq' w' \<longleftrightarrow> rq' = rq \<and>
     (is_public_path (he_environ env) (hr_path rq) \<and> w' = w \<or>
      \<not> is_public_path (he_environ env) (hr_path rq) \<and> (by_token env rq w (wo_scope w') \<or> by_key env rq w (wo_scope w')))"

definition csrf_ok :: "http_request \<Rightarrow> bool" where
  "csrf_ok rq \<longleftrightarrow> hr_method rq \<in> set safe_methods \<or> map_of (hr_cookies rq) ''refresh_token'' = None \<or>
     (\<exists>t. t \<noteq> [] \<and> map_of (hr_cookies rq) csrf_cookie = Some t \<and> header ''x-csrf-token'' rq = Some t)"

definition csrf_checked :: "http_request \<Rightarrow> ('s, 'r) world \<Rightarrow> http_request \<Rightarrow> ('s, 'r) world \<Rightarrow> bool" where
  "csrf_checked rq w rq' w' \<longleftrightarrow> rq' = rq \<and> w' = w \<and> csrf_ok rq"

text \<open>The announced size is within the limit, and so is what can be read.\<close>

definition size_limited :: "('k, 's, 'r) http_env \<Rightarrow> http_request \<Rightarrow> ('s, 'r) world \<Rightarrow> http_request \<Rightarrow> ('s, 'r) world \<Rightarrow> bool" where
  "size_limited env rq w rq' w' \<longleftrightarrow> w' = w \<and> rq' = rq\<lparr>hr_chunks := limited_chunks (he_max_body env) 0 (hr_chunks rq)\<rparr> \<and>
     (case header ''content-length'' rq of None \<Rightarrow> True | Some s \<Rightarrow> \<exists>n. py_int s = Some n \<and> n \<le> he_max_body env)"

text \<open>The law of the CORS middleware: what it lets through it does not touch.\<close>

definition cors_transparent :: "('s, 'r) middleware \<Rightarrow> bool" where
  "cors_transparent cors \<longleftrightarrow> (\<forall>app app' rq w. app rq w = app' rq w \<longrightarrow> cors app rq w = cors app' rq w)"

interpretation metering: middleware_layer "metering env" unchanged for env :: "('k, 's, 'r) http_env"
  by unfold_locales (simp add: metering_def unchanged_def)

interpretation logging: middleware_layer "request_logging env" unchanged for env :: "('k, 's, 'r) http_env"
  by unfold_locales (simp add: request_logging_def unchanged_def)

lemma passes_intros [simp]:
  "counted rq w rq (w\<lparr>wo_limits := l\<rparr>)"
  "same_identity (wo_scope w) sc \<Longrightarrow> traced rq w rq (w\<lparr>wo_scope := sc\<rparr>)"
  "same_identity sc (sc\<lparr>sc_trace_id := t, sc_span_id := s, sc_parent_span_id := p\<rparr>)"
  by (auto simp: counted_def traced_def same_identity_def)

interpretation rates: middleware_layer "rate_limit env" counted for env :: "('k, 's, 'r) http_env"
  by unfold_locales (auto simp: rate_limit_def Let_def split: prod.split rl_answer.split)

interpretation license: middleware_layer license licensed
  by unfold_locales (auto simp: license_def licensed_def license_allows_def split: option.split)

interpretation trace: middleware_layer "trace_context env" traced for env :: "('k, 's, 'r) http_env"
  by unfold_locales (auto simp: trace_context_def Let_def split: prod.split)

interpretation csrf: middleware_layer "csrf env" csrf_checked for env :: "('k, 's, 'r) http_env"
  by unfold_locales (auto simp: csrf_def csrf_checked_def csrf_ok_def Let_def opt_or_def split: option.splits)

interpretation csp: middleware_layer "csp env" unchanged for env :: "('k, 's, 'r) http_env"
  by unfold_locales (simp add: csp_def unchanged_def)

interpretation body: middleware_layer "body_limit env" "size_limited env" for env :: "('k, 's, 'r) http_env"
  by unfold_locales (auto simp: body_limit_def size_limited_def Let_def split: option.split)

interpretation prometheus: middleware_layer "prometheus env" unchanged for env :: "('k, 's, 'r) http_env"
  by unfold_locales (simp add: prometheus_def unchanged_def)

lemma key_row_found:
  assumes "validate_key aenv now t key ks = (Inr (Some row), ks')"
  shows "\<exists>r\<in>set ks. usable_key now t (ae_sha aenv key) r \<and> ak_user_id row = ak_user_id r \<and> ak_tenant_id row = t"
proof -
  obtain r where r: "filter (usable_key now t (ae_sha aenv key)) ks = [r]" "row = r\<lparr>ak_last_used_at := Some now\<rparr>"
    using assms by (auto simp: validate_key_def scalar_one_or_none_def Let_def split: sum.splits option.splits list.splits)
  then have "r \<in> set ks" "usable_key now t (ae_sha aenv key) r" by (auto simp: filter_eq_Cons_iff)
  with r show ?thesis by (auto simp: usable_key_def)
qed

lemma api_key_layer:
  assumes "bearer_token rq = Some token" "starts_with key_convention token"
    and "\<And>w'. by_key env rq w (wo_scope w') \<Longrightarrow> app rq w' = app' rq w'"
  shows "authenticate_api_key env token app rq w = authenticate_api_key env token app' rq w"
proof -
  let ?st = "wo_accounts w"
  obtain v keys where v: "validate_key (he_accounts env) (he_now env) default_tenant token (ac_keys ?st) = (v, keys)"
    by (cases "validate_key (he_accounts env) (he_now env) default_tenant token (ac_keys ?st)")
  show ?thesis
  proof (cases "\<exists>row user. v = Inr (Some row) \<and> get_by_id (ak_tenant_id row) (ak_user_id row) (ac_users ?st) = Inr (Some user) \<and> us_is_active user")
    case True
    then obtain row user where ru: "v = Inr (Some row)" "get_by_id (ak_tenant_id row) (ak_user_id row) (ac_users ?st) = Inr (Some user)"
      "us_is_active user" by blast
    from key_row_found[OF v[unfolded ru(1)]] obtain r where r: "r \<in> set (ac_keys ?st)"
      "usable_key (he_now env) default_tenant (ae_sha (he_accounts env) token) r" "ak_user_id row = ak_user_id r" "ak_tenant_id row = default_tenant"
      by blast
    then have "by_key env rq w sc" if "sc_tenant_id sc = Some default_tenant" "sc_sub sc = Some (ak_user_id row)" "sc_role sc = Some (us_role user)" for sc
      using ru assms(1,2) that by (auto simp: by_key_def)
    then show ?thesis using assms(3) v ru r(4) by (simp add: authenticate_api_key_def Let_def)
  next
    case False
    then show ?thesis using v by (auto simp: authenticate_api_key_def Let_def split: sum.splits option.splits)
  qed
qed

lemma ensured: "ensure_token_manager env w = (Inr tm, w1) \<Longrightarrow> w1 = w\<lparr>wo_manager := Some tm\<rparr>"
  by (auto simp: ensure_token_manager_def Let_def split: option.splits sum.splits)

lemma revoked_frame:
  "fst (token_revoked env jti (w\<lparr>wo_manager := tm, wo_accounts := snd (draw k (wo_accounts w))\<rparr>)) = fst (token_revoked env jti w)"
  by (auto simp: token_revoked_def draw_def split: prod.split)

lemma authentication_layer:
  assumes "\<And>rq' w'. identified env rq w rq' w' \<Longrightarrow> app rq' w' = app' rq' w'"
  shows "authentication env app rq w = authentication env app' rq w"
proof (cases "is_public_path (he_environ env) (hr_path rq)")
  case True
  then show ?thesis using assms by (simp add: authentication_def identified_def)
next
  case False
  obtain m w1 where m: "ensure_token_manager env w = (m, w1)" by (cases "ensure_token_manager env w")
  show ?thesis
  proof (cases "\<exists>tm token. m = Inr tm \<and> bearer_token rq = Some token")
    case True
    then obtain tm token where t: "m = Inr tm" "bearer_token rq = Some token" by blast
    from m t ensured have w1: "w1 = w\<lparr>wo_manager := Some tm\<rparr>" by blast
    show ?thesis
    proof (cases "starts_with key_convention token")
      case True
      have "authenticate_api_key env token app rq w1 = authenticate_api_key env token app' rq w1"
        by (rule api_key_layer[OF t(2) True]) (use assms False in \<open>auto simp: identified_def by_key_def w1\<close>)
      then show ?thesis using False m t True by (simp add: authentication_def)
    next
      case plain: False
      let ?v = "validate_token_async (ae_token (he_accounts env)) (ae_oidc (he_accounts env)) (he_now env)
          (ae_uuid (he_accounts env) (ac_next (wo_accounts w))) token tm"
      obtain res tm' where v: "?v = (res, tm')" by (cases ?v)
      let ?w = "w1\<lparr>wo_manager := Some tm', wo_accounts := snd (draw 1 (wo_accounts w))\<rparr>"
      show ?thesis
      proof (cases res)
        case (Inl e)
        then show ?thesis using False m t plain v by (cases e) (auto simp: authentication_def w1)
      next
        case (Inr claims)
        obtain b w2 where r: "token_revoked env (tc_jti claims) ?w = (b, w2)" by (cases "token_revoked env (tc_jti claims) ?w")
        have "b = fst (token_revoked env (tc_jti claims) w)"
          using r revoked_frame[where env = env and jti = "tc_jti claims" and w = w and tm = "Some tm'" and k = 1] by (simp add: w1)
        then have "identified env rq w rq w'" if "\<not> b" "wo_scope w' = claims_scope claims (wo_scope w2)" for w'
          using False m t plain v Inr that
          by (auto simp: identified_def by_token_def same_identity_def claims_scope_def)
        then show ?thesis using assms False m t plain v Inr r by (auto simp: authentication_def w1 Let_def)
      qed
    qed
  qed (use False m in \<open>auto simp: authentication_def split: sum.splits option.splits\<close>)
qed

interpretation auth: middleware_layer "authentication env" "identified env" for env :: "('k, 's, 'r) http_env"
  by unfold_locales (rule authentication_layer)

subsection \<open>Who reaches the application\<close>

lemma stack_order:
  "build_stack (create_app env) app =
     metering env (request_logging env (rate_limit env (license (trace_context env (authentication env (csrf env (csp env
       (he_cors env (body_limit env (prometheus env app))))))))))"
  by (simp add: build_stack_def create_app_def add_middleware_def)

interpretation observed: two_layers "metering env" unchanged "request_logging env" unchanged for env :: "('k, 's, 'r) http_env" ..

interpretation limited: two_layers "rate_limit env" counted license licensed for env :: "('k, 's, 'r) http_env" ..

interpretation entered: two_layers "trace_context env" traced "authentication env" "identified env" for env :: "('k, 's, 'r) http_env" ..

interpretation guarded: two_layers "csrf env" csrf_checked "csp env" unchanged for env :: "('k, 's, 'r) http_env" ..

interpretation sized: two_layers "body_limit env" "size_limited env" "prometheus env" unchanged for env :: "('k, 's, 'r) http_env" ..

text \<open>The conditions under which the stack calls the application: license, cross-site check, size, and identity.\<close>

definition may_reach :: "('k, 's, 'r) http_env \<Rightarrow> http_request \<Rightarrow> ('s, 'r) world \<Rightarrow> http_request \<Rightarrow> ('s, 'r) world \<Rightarrow> bool" where
  "may_reach env rq w rq' w' \<longleftrightarrow>
     rq' = rq\<lparr>hr_chunks := limited_chunks (he_max_body env) 0 (hr_chunks rq)\<rparr> \<and>
     license_allows (wo_license w) (hr_path rq) \<and> csrf_ok rq \<and>
     (case header ''content-length'' rq of None \<Rightarrow> True | Some s \<Rightarrow> \<exists>n. py_int s = Some n \<and> n \<le> he_max_body env) \<and>
     (if is_public_path (he_environ env) (hr_path rq) then same_identity empty_scope (wo_scope w')
      else by_token env rq w (wo_scope w') \<or> by_key env rq w (wo_scope w'))"

lemma identity_frame:
  "by_token env rq (w\<lparr>wo_scope := sc, wo_read := n, wo_limits := l\<rparr>) s = by_token env rq w s"
  "by_token env rq (w\<lparr>wo_scope := sc\<rparr>) s = by_token env rq w s"
  "by_token env rq (w\<lparr>wo_limits := l\<rparr>) s = by_token env rq w s"
  "by_token env rq (w\<lparr>wo_read := n\<rparr>) s = by_token env rq w s"
  by (auto simp: by_token_def ensure_token_manager_def token_revoked_def Let_def split: option.splits sum.splits prod.splits)

lemma key_frame:
  "by_key env rq (w\<lparr>wo_scope := sc\<rparr>) s = by_key env rq w s"
  "by_key env rq (w\<lparr>wo_limits := l\<rparr>) s = by_key env rq w s"
  "by_key env rq (w\<lparr>wo_read := n\<rparr>) s = by_key env rq w s"
  by (simp_all add: by_key_def)

text \<open>C20: The application is called only with requests that the license allows, that pass the cross-site check, whose body is within
  the limit, and, outside the public paths, with the identity of an unrevoked valid token or of a key of an active user: on all other
  inputs it may do anything without changing a response or the state.\<close>

theorem app_sees_only_admitted:
  assumes "cors_transparent (he_cors env)"
    and "\<forall>rq' w'. may_reach env rq w rq' w' \<longrightarrow> app rq' w' = app' rq' w'"
  shows "serve env app rq w = serve env app' rq w"
proof -
  let ?w = "w\<lparr>wo_scope := empty_scope, wo_read := 0\<rparr>"
  let ?inner = "\<lambda>app. csrf env (csp env (he_cors env (body_limit env (prometheus env app))))"
  have inner_eq: "?inner app rq2 w2 = ?inner app' rq2 w2"
    if l: "counted rq ?w rq0 w0" "licensed rq0 w0 rq1 w1" and e: "traced rq1 w1 rq' w'" "identified env rq' w' rq2 w2"
    for rq0 w0 rq1 w1 rq' w' rq2 w2
  proof (rule guarded.composed, unfold unchanged_def csrf_checked_def, elim conjE)
    fix rq4 w4 rq3 w3
    from l obtain lim where l1: "rq1 = rq" "w1 = ?w\<lparr>wo_limits := lim\<rparr>" "license_allows (wo_license w) (hr_path rq)"
      by (auto simp: counted_def licensed_def)
    from e obtain sc where e1: "rq2 = rq" "same_identity empty_scope sc" "identified env rq (w1\<lparr>wo_scope := sc\<rparr>) rq w2"
      using l1 by (auto simp: traced_def identified_def)
    have who: "if is_public_path (he_environ env) (hr_path rq) then same_identity empty_scope (wo_scope w2)
        else by_token env rq w (wo_scope w2) \<or> by_key env rq w (wo_scope w2)"
      using e1(2,3) unfolding l1(2) identified_def by (simp add: identity_frame key_frame split: if_splits) auto
    assume g: "csrf_ok rq2" "rq4 = rq2" "w4 = w2" "rq3 = rq4" "w3 = w4"
    have "body_limit env (prometheus env app) rq w2 = body_limit env (prometheus env app') rq w2"
    proof (rule sized.composed, unfold unchanged_def size_limited_def, elim conjE)
      fix rq6 w6 rq5 w5
      assume s: "w6 = w2" "rq6 = rq\<lparr>hr_chunks := limited_chunks (he_max_body env) 0 (hr_chunks rq)\<rparr>" "rq5 = rq6" "w5 = w6"
        "case header ''content-length'' rq of None \<Rightarrow> True | Some s \<Rightarrow> \<exists>n. py_int s = Some n \<and> n \<le> he_max_body env"
      have "may_reach env rq w (rq\<lparr>hr_chunks := limited_chunks (he_max_body env) 0 (hr_chunks rq)\<rparr>) w2"
        unfolding may_reach_def by (intro conjI refl l1(3) who s(5)) (use g(1) in \<open>simp only: e1(1)\<close>)
      with assms(2) show "app rq5 w5 = app' rq5 w5" unfolding s(1-4) by blast
    qed
    with assms(1) have "he_cors env (body_limit env (prometheus env app)) rq w2 = he_cors env (body_limit env (prometheus env app')) rq w2"
      unfolding cors_transparent_def by blast
    then show "he_cors env (body_limit env (prometheus env app)) rq3 w3 = he_cors env (body_limit env (prometheus env app')) rq3 w3"
      unfolding g(2-5) e1(1) .
  qed
  let ?entry = "\<lambda>app. trace_context env (authentication env (?inner app))"
  have "?entry app rq1 w1 = ?entry app' rq1 w1" if "counted rq ?w rq0 w0" "licensed rq0 w0 rq1 w1" for rq0 w0 rq1 w1
    by (rule entered.composed[where app = "?inner app" and app' = "?inner app'"]) (rule inner_eq[OF that])
  then have "rate_limit env (license (?entry app)) rq ?w = rate_limit env (license (?entry app')) rq ?w"
    by (rule limited.composed[where app = "?entry app" and app' = "?entry app'"])
  then show ?thesis unfolding serve_def stack_order by (intro observed.composed) (simp add: unchanged_def)
qed

subsection \<open>What is counted, and what an unauthenticated client sees\<close>

lemma decorate_simps [simp]: "decorate f (Inr r, w) = (Inr (f r), w)" "decorate f (Inl e, w) = (Inl e, w)"
  by (simp_all add: decorate_def on_response_def)

lemma metering_Inr:
  "app rq w = (Inr r, w') \<Longrightarrow> \<exists>u. metering env app rq w = (Inr r, w'\<lparr>wo_usage := u\<rparr>)"
  by (cases w') (auto simp: metering_def on_response_def Let_def)

lemma logging_Inr:
  "app rq w = (Inr r, w') \<Longrightarrow> \<exists>c l. request_logging env app rq w = (Inr (set_header ''X-Correlation-ID'' c r), w'\<lparr>wo_log := l\<rparr>)"
  by (auto simp: request_logging_def Let_def)

lemma observed_Inr:
  assumes "app rq w = (Inr r, w')"
  shows "\<exists>c u l. metering env (request_logging env app) rq w = (Inr (set_header ''X-Correlation-ID'' c r), w'\<lparr>wo_log := l, wo_usage := u\<rparr>)"
proof -
  obtain c l where "request_logging env app rq w = (Inr (set_header ''X-Correlation-ID'' c r), w'\<lparr>wo_log := l\<rparr>)"
    using logging_Inr[where app = app, OF assms] by blast
  from metering_Inr[where app = "request_logging env app", OF this] show ?thesis by blast
qed

text \<open>The counter key of a request at the place where the stack has the limiter.\<close>

definition address_view :: "http_request \<Rightarrow> rl_request" where
  "address_view rq = \<lparr>rq_tenant_id = None, rq_host = hr_client rq, rq_path = hr_path rq\<rparr>"

definition address_key :: "http_request \<Rightarrow> string" where
  "address_key rq = ''ip:'' @ (case hr_client rq of None \<Rightarrow> ''unknown'' | Some h \<Rightarrow> h)"

lemma refused_at_limiter:
  assumes "metered (he_rates env) (address_view rq)" "he_clock env = (now, later, jitter)"
    and "he_hit env (wo_limits w) now (address_key rq @ '':'' @ int_string (limit_for_path (he_rates env) (hr_path rq))) = (n, s)"
    and "int n > effective_burst_limit (he_rates env) (limit_for_path (he_rates env) (hr_path rq))" "wo_scope w = empty_scope"
  shows "\<exists>headers. \<forall>app. rate_limit env app rq w = (Inr (json_response 429 headers), w\<lparr>wo_limits := s\<rparr>)"
proof -
  have "limiter_view rq (wo_scope w) = address_view rq" using assms(5) by (simp add: limiter_view_def address_view_def empty_scope_def)
  moreover have "counter_key_of (address_view rq) b = address_key rq @ '':'' @ int_string b" for b
    by (simp add: counter_key_of_def client_key_def address_view_def address_key_def)
  ultimately show ?thesis using assms(1-4)
    by (auto simp: rate_limit_def Rate_Limit.dispatch_def metered_def Let_def address_view_def)
qed

text \<open>The limiter stands before the authentication, so it counts by the address of the client whatever the credentials: a request
  whose address has used up its budget is refused with 429, be it of another tenant and correctly authenticated.\<close>

theorem limits_count_addresses:
  assumes "metered (he_rates env) (address_view rq)" "he_clock env = (now, later, jitter)"
    and "he_hit env (wo_limits w) now (address_key rq @ '':'' @ int_string (limit_for_path (he_rates env) (hr_path rq))) = (n, s)"
    and "int n > effective_burst_limit (he_rates env) (limit_for_path (he_rates env) (hr_path rq))"
  shows "\<exists>r. fst (serve env app rq w) = Inr r \<and> hp_status r = 429 \<and> wo_limits (snd (serve env app rq w)) = s"
proof -
  let ?inner = "license (trace_context env (authentication env (csrf env (csp env (he_cors env (body_limit env (prometheus env app)))))))"
  let ?w = "w\<lparr>wo_scope := empty_scope, wo_read := 0\<rparr>"
  have "he_hit env (wo_limits ?w) now (address_key rq @ '':'' @ int_string (limit_for_path (he_rates env) (hr_path rq))) = (n, s)"
    using assms(3) by simp
  from refused_at_limiter[OF assms(1,2) this assms(4)] obtain hs where
    "\<forall>inner. rate_limit env inner rq ?w = (Inr (json_response 429 hs), ?w\<lparr>wo_limits := s\<rparr>)" by auto
  from observed_Inr[where app = "rate_limit env ?inner", OF spec[OF this]] obtain c u l where
    "serve env app rq w = (Inr (set_header ''X-Correlation-ID'' c (json_response 429 hs)), ?w\<lparr>wo_limits := s, wo_log := l, wo_usage := u\<rparr>)"
    unfolding serve_def stack_order by blast
  then show ?thesis by (simp add: set_header_def json_response_def)
qed

text \<open>The headers of answers that are not the application's.\<close>

definition outer_headers :: "string list" where
  "outer_headers = [''WWW-Authenticate'', ''Retry-After'', ''X-RateLimit-Limit'', ''X-RateLimit-Remaining'', ''X-RateLimit-Reset'',
     ''X-Trace-ID'', ''X-Correlation-ID'']"

definition outer_answer :: "(string \<times> string \<times> nat) list \<Rightarrow> (http_fault + http_response) \<times> ('s, 'r) world \<Rightarrow> bool" where
  "outer_answer ms res \<longleftrightarrow>
     (\<exists>r w'. res = (Inr r, w') \<and> hp_status r \<in> {401, 402, 429} \<and> fst ` set (hp_headers r) \<subseteq> set outer_headers \<and>
        (''X-Trace-ID'' \<in> fst ` set (hp_headers r) \<longleftrightarrow> hp_status r = 401) \<and> wo_metrics w' = ms)"

lemma set_header_names [simp]: "fst ` set (hp_headers (set_header k v r)) = insert k (fst ` set (hp_headers r))"
  "hp_status (set_header k v r) = hp_status r"
  by (simp_all add: set_header_def)

lemma outer_answer_decorate:
  assumes "outer_answer ms res" "k \<in> set outer_headers" "k \<noteq> ''X-Trace-ID''"
  shows "outer_answer ms (decorate (set_header k v) res)"
proof -
  from assms(1) obtain r w' where "res = (Inr r, w')" "hp_status r \<in> {401, 402, 429}" "fst ` set (hp_headers r) \<subseteq> set outer_headers"
    "''X-Trace-ID'' \<in> fst ` set (hp_headers r) \<longleftrightarrow> hp_status r = 401" "wo_metrics w' = ms"
    unfolding outer_answer_def by blast
  with assms(2,3) show ?thesis unfolding outer_answer_def
    by (intro exI[of _ "set_header k v r"] exI[of _ w']) simp
qed

lemma decorate_comp: "decorate (f \<circ> g) res = decorate f (decorate g res)"
  by (cases res; cases "fst res") auto

lemma anonymous_authentication:
  assumes "bearer_token rq = None" "\<not> is_public_path (he_environ env) (hr_path rq)" "fst (ensure_token_manager env w) = Inr tm"
  shows "\<exists>w'. authentication env app rq w = (Inr unauthorized, w') \<and> wo_metrics w' = wo_metrics w"
proof -
  have "ensure_token_manager env w = (Inr tm, w\<lparr>wo_manager := Some tm\<rparr>)"
    using ensured[of env w tm] assms(3) by (cases "ensure_token_manager env w") auto
  with assms(1,2) show ?thesis by (simp add: authentication_def)
qed

lemma anonymous_entry:
  assumes "bearer_token rq = None" "\<not> is_public_path (he_environ env) (hr_path rq)" "fst (ensure_token_manager env w) = Inr tm"
  shows "outer_answer (wo_metrics w) (trace_context env (authentication env app) rq w)"
proof -
  obtain t p f where h: "parse_traceparent (opt_or (header ''traceparent'' rq) []) = (t, p, f)"
    by (cases "parse_traceparent (opt_or (header ''traceparent'' rq) [])")
  have same: "fst (ensure_token_manager env (w\<lparr>wo_scope := sc\<rparr>)) = Inr tm" for sc
    using assms(3) by (auto simp: ensure_token_manager_def Let_def split: option.splits sum.splits)
  obtain w' where "authentication env app rq (w\<lparr>wo_scope := (wo_scope w)\<lparr>sc_trace_id := Some (if t = [] then he_trace_id env else t),
      sc_span_id := Some (he_span_id env), sc_parent_span_id := Some p\<rparr>\<rparr>) = (Inr unauthorized, w')" "wo_metrics w' = wo_metrics w"
    using anonymous_authentication[where app = app, OF assms(1,2) same] by force
  then show ?thesis
    by (simp add: trace_context_def h Let_def outer_answer_def) (simp add: unauthorized_def json_response_def outer_headers_def)
qed

lemma anonymous_limited:
  assumes "\<And>w'. wo_metrics w' = wo_metrics w \<Longrightarrow> wo_manager w' = wo_manager w \<Longrightarrow> outer_answer (wo_metrics w) (inner rq w')"
  shows "outer_answer (wo_metrics w) (rate_limit env (license inner) rq w)"
proof -
  have lic: "outer_answer (wo_metrics w) (license inner rq w')"
    if "wo_metrics w' = wo_metrics w" "wo_manager w' = wo_manager w" for w'
    using assms[OF that] that(1) by (auto simp: license_def outer_answer_def json_response_def split: option.split)
  obtain now later jitter where c: "he_clock env = (now, later, jitter)" by (cases "he_clock env")
  obtain a l where d: "Rate_Limit.dispatch (he_hit env) (he_reset env) (he_rates env) now later jitter (limiter_view rq (wo_scope w)) (wo_limits w) = (a, l)"
    by (cases "Rate_Limit.dispatch (he_hit env) (he_reset env) (he_rates env) now later jitter (limiter_view rq (wo_scope w)) (wo_limits w)")
  have inner: "outer_answer (wo_metrics w) (license inner rq (w\<lparr>wo_limits := l\<rparr>))" by (rule lic) simp_all
  show ?thesis
  proof (cases a)
    case (Forwarded limit remaining reset)
    then show ?thesis using c d
      by (simp add: rate_limit_def decorate_comp) (intro outer_answer_decorate inner; simp add: outer_headers_def)
  next
    case (TooMany limit retry)
    then show ?thesis using c d
      by (simp add: rate_limit_def outer_answer_def json_response_def outer_headers_def)
  qed (use c d inner in \<open>simp add: rate_limit_def\<close>)
qed

text \<open>The authentication stands before CORS, the security headers, the size limit and the metrics: a request without a bearer token
  to a path that is not public, a browser's preflight among them, is answered 401, 402 or 429 by the outer layers alone. The answer
  carries no CORS or security header, and the trace identifier only when it is 401, and it is not counted in the metrics.\<close>

theorem anonymous_requests_stop_outside:
  fixes w :: "('s, 'r) world"
  assumes "bearer_token rq = None" "\<not> is_public_path (he_environ env) (hr_path rq)" "fst (ensure_token_manager env w) = Inr tm"
  shows "outer_answer (wo_metrics w) (serve env app rq w)"
proof -
  let ?w = "w\<lparr>wo_scope := empty_scope, wo_read := 0\<rparr>"
  let ?inner = "trace_context env (authentication env (csrf env (csp env (he_cors env (body_limit env (prometheus env app))))))"
  have man: "fst (ensure_token_manager env w') = Inr tm" if "wo_manager w' = wo_manager w" for w' :: "('s, 'r) world"
    using assms(3) that by (auto simp: ensure_token_manager_def Let_def split: option.splits sum.splits)
  have "outer_answer (wo_metrics ?w) (rate_limit env (license ?inner) rq ?w)"
  proof (rule anonymous_limited)
    fix w' :: "('s, 'r) world"
    assume "wo_metrics w' = wo_metrics ?w" "wo_manager w' = wo_manager ?w"
    with anonymous_entry[OF assms(1,2) man, of w'] show "outer_answer (wo_metrics ?w) (?inner rq w')" by simp
  qed
  then obtain r w' where r: "rate_limit env (license ?inner) rq ?w = (Inr r, w')" and ok: "outer_answer (wo_metrics w) (Inr r, w')"
    by (auto simp: outer_answer_def)
  from observed_Inr[where app = "rate_limit env (license ?inner)", OF r] obtain c u l where
    "serve env app rq w = decorate (set_header ''X-Correlation-ID'' c) (Inr r, w'\<lparr>wo_log := l, wo_usage := u\<rparr>)"
    unfolding serve_def stack_order by (metis decorate_simps(1))
  moreover have "outer_answer (wo_metrics w) (Inr r, w'\<lparr>wo_log := l, wo_usage := u\<rparr>)" using ok by (auto simp: outer_answer_def)
  ultimately show ?thesis by (simp only:) (rule outer_answer_decorate; simp add: outer_headers_def)
qed

end
