(* ===== verification/Accounts_Facts.thy ===== *)
theory Accounts_Facts
  imports Accounts
begin

text \<open>
  What the account services guarantee over any sequence of requests: a refresh token is exchanged once, seats stay within their limit
  and are never given back, and what an invitation does to an address that is in use elsewhere.
\<close>

subsection \<open>Tokens are read alike at any time\<close>

text \<open>PyJWT: the expiry bounds acceptance, and neither the signature nor the claims of a token depend on the time.\<close>

definition jwt_steady :: "token_env \<Rightarrow> bool" where
  "jwt_steady env \<longleftrightarrow>
     (\<forall>tok s a t c. te_jwt_decode env tok s a t = Inr (Some c) \<longrightarrow> t \<le> tc_exp c) \<and>
     (\<forall>tok s a t t' c c'. te_jwt_decode env tok s a t = Inr (Some c) \<and> te_jwt_decode env tok s a t' = Inr (Some c') \<longrightarrow> c' = c) \<and>
     (\<forall>tok s a t t'. te_jwt_decode env tok s a t = Inl InvalidSignatureError \<longrightarrow> te_jwt_decode env tok s a t' = Inl InvalidSignatureError)"

lemma try_secrets_steady:
  assumes "jwt_steady env" "try_secrets env cfg t tok ss = Inr c"
  shows "t \<le> tc_exp c \<and> (try_secrets env cfg t' tok ss = Inr c' \<longrightarrow> c' = c)"
  using assms(2)
proof (induction ss)
  case (Cons s ss)
  let ?d = "te_jwt_decode env tok s (cf_jwt_algorithm cfg)"
  show ?case
  proof (cases "?d t = Inl InvalidSignatureError")
    case True
    then have "?d t' = Inl InvalidSignatureError" using assms(1) unfolding jwt_steady_def by blast
    with True Cons show ?thesis by simp
  next
    case False
    then have c: "?d t = Inr (Some c)" using Cons.prems by (auto split: sum.splits option.splits jwt_error.splits)
    then have "?d t' \<noteq> Inl InvalidSignatureError" using assms(1) False unfolding jwt_steady_def by metis
    then have "try_secrets env cfg t' tok (s # ss) = Inr c' \<longrightarrow> ?d t' = Inr (Some c')"
      by (auto split: sum.splits option.splits jwt_error.splits)
    with c assms(1) show ?thesis unfolding jwt_steady_def by blast
  qed
qed simp

lemma own_token_steady:
  assumes "jwt_steady env" "validate_own_token env cfg t tok = Inr c"
  shows "t \<le> tc_exp c \<and> (validate_own_token env cfg t' tok = Inr c' \<longrightarrow> c' = c)"
proof (cases "cf_auth_mode cfg")
  case MODE_JWT
  with assms(2) have "validate_own_token env cfg u tok = validate_jwt_token env cfg u tok" for u by (simp add: validate_own_token_def)
  with assms(2) try_secrets_steady[OF assms(1)] show ?thesis unfolding validate_jwt_token_def by metis
next
  case MODE_KMS
  with assms(2) show ?thesis
    by (auto simp: validate_own_token_def validate_kms_token_def Let_def split: if_splits option.splits)
next
  case MODE_DEVELOPMENT
  with assms(2) show ?thesis
    by (auto simp: validate_own_token_def validate_dev_token_def Let_def split: if_splits option.splits)
qed (use assms(2) in \<open>simp add: validate_own_token_def\<close>)

lemma validate_for_steady:
  assumes "cf_auth_mode (ae_config env) \<noteq> MODE_OIDC" "jwt_steady (ae_token env)" "validate_for env t n tok = Inr c"
  shows "t \<le> tc_exp c \<and> (validate_for env t' n' tok = Inr c' \<longrightarrow> c' = c)"
  using own_token_steady[OF assms(2)] assms(1,3) by (simp add: validate_for_def validate_token_async_def)

subsection \<open>What the requests do to the revocations\<close>

lemma issue_pair_frame:
  assumes "issue_pair env now u t r st = (res, st')"
  shows "st' = st\<lparr>ac_next := ac_next st'\<rparr>"
  using assms by (auto simp: issue_pair_def draw_def Let_def split: sum.splits)

lemma issue_pair_fields:
  assumes "issue_pair env now u t r st = (res, st')"
  shows "ac_revocations st' = ac_revocations st \<and> ac_users st' = ac_users st \<and> ac_tenants st' = ac_tenants st \<and>
    ac_tiers st' = ac_tiers st \<and> ac_keys st' = ac_keys st \<and> ac_audit st' = ac_audit st"
  by (subst issue_pair_frame[OF assms], simp)+

text \<open>A refresh that succeeds found an unrevoked token and has revoked it until its expiry.\<close>

lemma refresh_ok:
  assumes "refresh env now tok st = (Inr p, st')"
  shows "\<exists>n c. validate_for env now n tok = Inr c \<and> \<not> is_revoked (tc_jti c) None (ac_revocations st) \<and>
    ac_revocations st' = revoke now (tc_tenant_id c) (tc_jti c) (Some rotation_reason) (Some (tc_exp c)) (ac_revocations st)"
proof -
  obtain c where c: "validate_for env now (ac_next st) tok = Inr c"
    using assms by (cases "validate_for env now (ac_next st) tok"; cases "projl (validate_for env now (ac_next st) tok)")
      (auto simp: refresh_def draw_def)
  have rev: "\<not> is_revoked (tc_jti c) None (ac_revocations st)"
    using assms c by (auto simp: refresh_def draw_def Let_def split: if_splits)
  have "ac_revocations st' = revoke now (tc_tenant_id c) (tc_jti c) (Some rotation_reason) (Some (tc_exp c)) (ac_revocations st)"
    using assms c by (auto simp: refresh_def draw_def Let_def split: if_splits sum.splits option.splits dest!: issue_pair_fields)
  with c rev show ?thesis by blast
qed

lemma transacted_cases: "snd (transacted (r, st') st) = st' \<or> snd (transacted (r, st') st) = roll_back st st'"
  by (cases r) (auto simp: transacted_def)

lemma roll_back_fields [simp]:
  "ac_revocations (roll_back st st') = ac_revocations st" "ac_users (roll_back st st') = ac_users st"
  "ac_tenants (roll_back st st') = ac_tenants st" "ac_tiers (roll_back st st') = ac_tiers st"
  "ac_keys (roll_back st st') = ac_keys st" "ac_audit (roll_back st st') = ac_audit st"
  by (simp_all add: roll_back_def)

lemma settings_audit_fields [simp]:
  "ac_revocations (settings_audit env now t a act ety eid reason st) = ac_revocations st"
  "ac_users (settings_audit env now t a act ety eid reason st) = ac_users st"
  "ac_tenants (settings_audit env now t a act ety eid reason st) = ac_tenants st"
  "ac_tiers (settings_audit env now t a act ety eid reason st) = ac_tiers st"
  "ac_keys (settings_audit env now t a act ety eid reason st) = ac_keys st"
  by (simp_all add: settings_audit_def draw_def Let_def)

text \<open>A row the unique constraints admit, as every insertion leaves it.\<close>

definition fresh_user :: "user_row \<Rightarrow> user_row list \<Rightarrow> bool" where
  "fresh_user row us \<longleftrightarrow> normal_email (us_email row) = us_email row \<and> us_is_active row \<and> us_last_login_at row = None \<and>
     us_id row \<notin> us_id ` set us \<and> (us_tenant_id row, us_email row) \<notin> (\<lambda>r. (us_tenant_id r, us_email r)) ` set us"

lemma normal_email_idem [simp]: "normal_email (normal_email e) = normal_email e"
proof -
  have "set (py_strip s) \<subseteq> set s" for s by (auto simp: py_strip_def dest!: set_dropWhileD)
  then have "set (py_strip (py_lower e)) \<subseteq> lower_char ` set e" by (metis py_lower_def list.set_map)
  then have "map lower_char (py_strip (py_lower e)) = py_strip (py_lower e)" by (intro map_idI) force
  then have "py_lower (py_strip (py_lower e)) = py_strip (py_lower e)" by (simp add: py_lower_def)
  then show ?thesis by (simp add: normal_email_def)
qed

lemma create_user_fields:
  assumes "create_user env now t email pw name role st = (res, st')"
  shows "ac_revocations st' = ac_revocations st" "ac_tenants st' = ac_tenants st" "ac_tiers st' = ac_tiers st" "ac_keys st' = ac_keys st"
    "ac_users st' = ac_users st \<or> (\<exists>row. us_tenant_id row = t \<and> us_email row = normal_email email \<and> fresh_user row (ac_users st) \<and>
       res = Inr row \<and> ac_users st' = ac_users st @ [row])"
proof -
  show "ac_revocations st' = ac_revocations st" "ac_tenants st' = ac_tenants st" "ac_tiers st' = ac_tiers st" "ac_keys st' = ac_keys st"
    using assms by (auto simp: create_user_def draw_def Let_def split: sum.splits)
  have made: "user_create env n now t email pw name role us = Inr (row, us') \<Longrightarrow>
      us_tenant_id row = t \<and> us_email row = normal_email email \<and> fresh_user row us \<and> us' = us @ [row]" for n us row us'
    by (auto simp: user_create_def Let_def fresh_user_def list_ex_iff image_iff split: if_splits)
  show "ac_users st' = ac_users st \<or> (\<exists>row. us_tenant_id row = t \<and> us_email row = normal_email email \<and> fresh_user row (ac_users st) \<and>
       res = Inr row \<and> ac_users st' = ac_users st @ [row])"
    using assms by (auto simp: create_user_def draw_def Let_def split: sum.splits dest!: made)
qed

lemma create_user_frame:
  assumes "create_user env now t email pw name role st = (res, st')"
  shows "ac_tenants st' = ac_tenants st \<and> ac_tiers st' = ac_tiers st \<and> ac_keys st' = ac_keys st"
  using create_user_fields(2-4)[OF assms] by simp

lemma signup_frame:
  assumes "signup env now email pw name st = (res, st')"
  shows "ac_revocations st' = ac_revocations st \<and> ac_tiers st' = ac_tiers st \<and> ac_keys st' = ac_keys st \<and>
    (ac_tenants st' = ac_tenants st \<or> (\<exists>n e. ac_tenants st' = snd (tenant_upsert now (take 16 (ae_uuid env n)) (signup_update e) (ac_tenants st)))) \<and>
    (ac_users st' = ac_users st \<or> (\<exists>n row. us_tenant_id row = take 16 (ae_uuid env n) \<and> fresh_user row (ac_users st) \<and>
       ac_users st' = ac_users st @ [row]))"
proof (cases "st' = st")
  case False
  let ?email = "normal_email email" and ?t = "take 16 (ae_uuid env (ac_next st))"
  let ?st = "st\<lparr>ac_next := ac_next st + 1, ac_tenants := snd (tenant_upsert now ?t (signup_update ?email) (ac_tenants st))\<rparr>"
  obtain r s where cu: "create_user env now ?t ?email pw (py_strip name) admin_role ?st = (r, s)"
    by (cases "create_user env now ?t ?email pw (py_strip name) admin_role ?st")
  from assms False cu have "st' = s \<or> (\<exists>u res. r = Inr u \<and> issue_pair env now (us_id u) ?t (us_role u) s = (res, st'))"
    by (auto simp: signup_def draw_def Let_def split: if_splits sum.splits option.splits prod.splits)
  then have "ac_revocations st' = ac_revocations s \<and> ac_tiers st' = ac_tiers s \<and> ac_keys st' = ac_keys s \<and> ac_tenants st' = ac_tenants s \<and> ac_users st' = ac_users s"
    by (auto dest!: issue_pair_fields)
  moreover have "ac_revocations s = ac_revocations ?st" "ac_tiers s = ac_tiers ?st" "ac_keys s = ac_keys ?st" "ac_tenants s = ac_tenants ?st"
    "ac_users s = ac_users ?st \<or> (\<exists>row. us_tenant_id row = ?t \<and> fresh_user row (ac_users ?st) \<and> ac_users s = ac_users ?st @ [row])"
    using create_user_fields[OF cu] by auto
  ultimately show ?thesis by auto
qed simp

lemma login_frame:
  assumes "login env now email pw ip st = (res, st')"
  shows "ac_revocations st' = ac_revocations st \<and> ac_tiers st' = ac_tiers st \<and> ac_tenants st' = ac_tenants st \<and> ac_keys st' = ac_keys st \<and>
    (ac_users st' = ac_users st \<or> (\<exists>uid. ac_users st' = update_last_login now login_tenant uid (ac_users st)))"
  using assms by (auto simp: login_def audit_failed_login_def draw_def Let_def split: if_splits sum.splits option.splits prod.splits
      dest!: issue_pair_fields)

text \<open>How one request can change the revocations.\<close>

inductive rev_change :: "timestamp \<Rightarrow> revocations \<Rightarrow> revocations \<Rightarrow> bool" for now tbl where
  rev_same: "rev_change now tbl tbl"
| rev_revoke: "rev_change now tbl (revoke now t j r e tbl)"
| rev_clean: "rev_change now tbl (clean_revocations now scope tbl)"

lemma refresh_revocations:
  assumes "refresh env now tok st = (res, st')"
  shows "rev_change now (ac_revocations st) (ac_revocations st')"
  using assms
  by (auto simp: refresh_def draw_def Let_def intro: rev_change.intros
      split: if_splits sum.splits option.splits token_error.splits dest!: issue_pair_fields)

lemma refresh_users:
  assumes "refresh env now tok st = (res, st')"
  shows "ac_users st' = ac_users st \<and> ac_tenants st' = ac_tenants st \<and> ac_tiers st' = ac_tiers st \<and> ac_keys st' = ac_keys st"
  using assms
  by (auto simp: refresh_def draw_def Let_def split: if_splits sum.splits option.splits token_error.splits dest!: issue_pair_fields)

text \<open>The state after a refresh or session request is that before it, with other random numbers, or that of the service.\<close>

lemma route_refresh_state:
  assumes "route_refresh env now cookie st = (res, st')"
  shows "st' = st \<or> (\<exists>tok r s. refresh env now tok st = (r, s) \<and> (st' = s \<or> st' = roll_back st s))"
proof -
  obtain r s where s: "refresh env now (opt_or cookie []) st = (r, s)" by (cases "refresh env now (opt_or cookie []) st")
  then show ?thesis using assms
    by (cases r) (auto simp: route_refresh_def transacted_def Let_def split: if_splits account_error.splits)
qed

lemma draw_fields [simp]:
  "ac_revocations (snd (draw k st)) = ac_revocations st" "ac_users (snd (draw k st)) = ac_users st"
  "ac_tenants (snd (draw k st)) = ac_tenants st" "ac_tiers (snd (draw k st)) = ac_tiers st" "ac_keys (snd (draw k st)) = ac_keys st"
  by (simp_all add: draw_def)

lemma route_session_state:
  assumes "route_session env now cookie st = (res, st')"
  shows "st' = st \<or> (\<exists>tok r s. refresh env now tok st = (r, s) \<and> (st' = s \<or> st' = snd (draw 1 s) \<or> st' = roll_back st s \<or> st' = roll_back st (snd (draw 1 s))))"
proof -
  obtain r s where s: "refresh env now (opt_or cookie []) st = (r, s)" by (cases "refresh env now (opt_or cookie []) st")
  have "st' = st \<or> (st' = s \<or> st' = snd (draw 1 s) \<or> st' = roll_back st s \<or> st' = roll_back st (snd (draw 1 s)))"
  proof (cases r)
    case (Inl e)
    then show ?thesis using assms s by (auto simp: route_session_def Let_def split: if_splits account_error.splits)
  next
    case (Inr p)
    obtain n d where d: "draw 1 s = (n, d)" by (cases "draw 1 s")
    show ?thesis using assms s Inr d
      by (auto simp: route_session_def Let_def split: if_splits sum.splits token_error.splits prod.splits)
  qed
  with s show ?thesis by blast
qed

definition granted :: "'k account_env \<Rightarrow> timestamp \<Rightarrow> account_call \<Rightarrow> account_state \<Rightarrow> bool" where
  "granted env now c st =
     (case c of
        CallRefresh cookie \<Rightarrow> (case fst (route_refresh env now cookie st) of Inl _ \<Rightarrow> False | Inr _ \<Rightarrow> True)
      | CallSession cookie \<Rightarrow> (case fst (route_session env now cookie st) of Inl _ \<Rightarrow> False | Inr _ \<Rightarrow> True)
      | _ \<Rightarrow> False)"

text \<open>The two requests that exchange a refresh token.\<close>

definition exchange_calls :: "string \<Rightarrow> account_call set" where
  "exchange_calls tok = {CallRefresh (Some tok), CallSession (Some tok)}"

lemma granted_refresh:
  assumes "granted env now c st" "c \<in> exchange_calls tok"
  shows "\<exists>p s. refresh env now tok st = (Inr p, s) \<and> ac_revocations (account_step env now c st) = ac_revocations s"
proof -
  obtain r s where s: "refresh env now tok st = (r, s)" by (cases "refresh env now tok st")
  have ne: "opt_or (Some tok) [] = tok" by (simp add: opt_or_def)
  from assms have tok: "tok \<noteq> []"
    by (auto simp: granted_def exchange_calls_def route_refresh_def route_session_def opt_or_def)
  show ?thesis
  proof (cases r)
    case (Inl e)
    have False using assms s Inl tok
      by (cases e) (auto simp: granted_def exchange_calls_def route_refresh_def route_session_def transacted_def Let_def ne)
    then show ?thesis ..
  next
    case (Inr p)
    from assms(2) consider "c = CallRefresh (Some tok)" | "c = CallSession (Some tok)" by (auto simp: exchange_calls_def)
    then show ?thesis
    proof cases
      case 1
      then show ?thesis using s Inr tok by (simp add: route_refresh_def transacted_def Let_def ne)
    next
      case 2
      obtain x s' where x: "route_session env now (Some tok) st = (x, s')" by (cases "route_session env now (Some tok) st")
      with assms(1) 2 obtain y where "x = Inr y" by (cases x) (auto simp: granted_def)
      then have "ac_revocations s' = ac_revocations s" using x s Inr tok
        by (cases p) (auto simp: route_session_def Let_def ne draw_def split: if_splits sum.splits token_error.splits)
      with 2 x s Inr show ?thesis by simp
    qed
  qed
qed

lemma transacted_revocations:
  "ac_revocations (snd res) = ac_revocations st \<Longrightarrow> ac_revocations (snd (transacted res st)) = ac_revocations st"
  by (cases res) (auto simp: transacted_def split: sum.splits)

lemma revocations_step: "rev_change now (ac_revocations st) (ac_revocations (account_step env now c st))"
proof -
  show ?thesis
  proof (cases c)
    case (CallSignup email pw name)
    then show ?thesis using signup_frame[of env now email pw name st] by (cases "signup env now email pw name st") (auto simp: route_signup_def transacted_revocations intro: rev_change.intros)
  next
    case (CallLogin email pw)
    then show ?thesis using login_frame[of env now email pw None st] by (cases "login env now email pw None st") (auto simp: route_login_def transacted_revocations intro: rev_change.intros)
  next
    case (CallRefresh cookie)
    obtain r s where "route_refresh env now cookie st = (r, s)" by (cases "route_refresh env now cookie st")
    then show ?thesis using route_refresh_state[of env now cookie st r s] CallRefresh by (auto dest!: refresh_revocations intro: rev_change.intros)
  next
    case (CallSession cookie)
    obtain r s where "route_session env now cookie st = (r, s)" by (cases "route_session env now cookie st")
    then show ?thesis using route_session_state[of env now cookie st r s] CallSession by (auto dest!: refresh_revocations intro: rev_change.intros)
  next
    case (CallInvite t email role)
    obtain r s where i: "invite_member env now t email role st = (r, s)" by (cases "invite_member env now t email role st")
    then have "ac_revocations s = ac_revocations st"
      by (auto simp: invite_member_def update_user_def draw_def Let_def split: if_splits sum.splits option.splits dest!: create_user_fields(1))
    then show ?thesis using CallInvite i transacted_revocations[of "(r, s)"] by (simp add: rev_same)
  next
    case (CallRemove t u)
    have "ac_revocations (snd (remove_member t u st)) = ac_revocations st"
      by (auto simp: remove_member_def update_user_def Let_def split: sum.splits option.splits)
    from transacted_revocations[OF this] show ?thesis using CallRemove by (simp add: rev_same)
  next
    case (CallSetRole t u r)
    have "ac_revocations (snd (update_role t u r st)) = ac_revocations st"
      by (auto simp: update_role_def update_user_def Let_def split: sum.splits option.splits)
    from transacted_revocations[OF this] show ?thesis using CallSetRole by (simp add: rev_same)
  qed (auto intro: rev_change.intros simp: route_logout_def route_revoke_token_def route_create_api_key_def create_api_key_def route_revoke_api_key_def draw_def
      Let_def split: sum.splits prod.splits if_splits)
qed

lemma kept_history:
  assumes "kept_row x jti (ac_revocations st)" "\<forall>(now, c)\<in>set h. now \<le> x"
  shows "kept_row x jti (ac_revocations (account_history env h st))"
  using assms
proof (induction h arbitrary: st)
  case (Cons e h)
  obtain now c where e: "e = (now, c)" by (cases e)
  have "kept_row x jti (ac_revocations (account_step env now c st))"
    using revocations_step[of now st env c]
    by cases (use Cons.prems e kept_row_revoke kept_row_clean in auto)
  with Cons e show ?case by (simp add: account_history_def)
qed (simp add: account_history_def)

text \<open>C18: A refresh token is exchanged at most once: after \<^verbatim>\<open>/refresh\<close> or \<^verbatim>\<open>/session\<close> has answered it with a new pair, neither
  endpoint answers it again, whatever requests and clean-ups of the revocation table come in between.\<close>

theorem refresh_token_single_use:
  assumes "cf_auth_mode (ae_config env) \<noteq> MODE_OIDC" "jwt_steady (ae_token env)"
    and "c1 \<in> exchange_calls tok" "c2 \<in> exchange_calls tok" "granted env t1 c1 st"
    and "\<forall>(now, c)\<in>set h. t1 \<le> now \<and> now \<le> t2"
  shows "\<not> granted env t2 c2 (account_history env h (account_step env t1 c1 st))"
proof
  let ?st = "account_history env h (account_step env t1 c1 st)"
  from granted_refresh[OF assms(5,3)] obtain p s where s: "refresh env t1 tok st = (Inr p, s)"
    "ac_revocations (account_step env t1 c1 st) = ac_revocations s" by blast
  from refresh_ok[OF s(1)] obtain n c where c: "validate_for env t1 n tok = Inr c" "\<not> is_revoked (tc_jti c) None (ac_revocations st)"
    "ac_revocations s = revoke t1 (tc_tenant_id c) (tc_jti c) (Some rotation_reason) (Some (tc_exp c)) (ac_revocations st)" by blast
  have kept: "kept_row (tc_exp c) (tc_jti c) (ac_revocations (account_step env t1 c1 st))"
    using revoke_kept_row[OF c(2), of "tc_exp c" "Some (tc_exp c)"] c(3) s(2) by simp
  assume "granted env t2 c2 ?st"
  from granted_refresh[OF this assms(4)] obtain p' s' where "refresh env t2 tok ?st = (Inr p', s')" by blast
  from refresh_ok[OF this] obtain n' c' where c': "validate_for env t2 n' tok = Inr c'" "\<not> is_revoked (tc_jti c') None (ac_revocations ?st)"
    by blast
  have eq: "c' = c" using validate_for_steady[OF assms(1,2) c(1)] c'(1) by blast
  then have "t2 \<le> tc_exp c" using validate_for_steady[OF assms(1,2) c'(1)] by blast
  then have "\<forall>(now, c)\<in>set h. now \<le> tc_exp c'" using assms(6) eq by force
  from kept_history[OF kept[folded eq] this] have "is_revoked (tc_jti c') None (ac_revocations ?st)" by (rule table.kept_revoked)
  with c'(2) show False ..
qed

subsection \<open>An environment\<close>

definition demo_oidc_env :: "unit oidc_env" where
  "demo_oidc_env =
     \<lparr>oe_urlparse = (\<lambda>u. (u, None)), oe_resolve = (\<lambda>h. DnsError), oe_ip_class = (\<lambda>a. None), oe_fetch = (\<lambda>u t. None),
      oe_header_kid = (\<lambda>t. None), oe_rsa_key = (\<lambda>j. None), oe_decode = (\<lambda>t k a b n. Inl InvalidTokenError), oe_str = (\<lambda>j. []),
      oe_make = (\<lambda>f n j. None)\<rparr>"

definition demo_account_env :: "unit account_env" where
  "demo_account_env =
     \<lparr>ae_uuid = (\<lambda>n. replicate n CHR ''i''), ae_hash_password = (\<lambda>n p. CHR ''#'' # p), ae_check_password = (\<lambda>p h. h = CHR ''#'' # p),
      ae_sha = (\<lambda>s. s), ae_iso = (\<lambda>t. []), ae_token = demo_token_env, ae_oidc = demo_oidc_env, ae_config = demo_token_config\<rparr>"

definition demo_user :: "string \<Rightarrow> string \<Rightarrow> string \<Rightarrow> user_row" where
  "demo_user tenant uid email =
     \<lparr>us_id = uid, us_tenant_id = tenant, us_email = email, us_password_hash = ''#secret'', us_display_name = uid, us_role = ''viewer'',
      us_is_active = True, us_email_verified = False, us_created_at = 0, us_last_login_at = None\<rparr>"

definition demo_accounts :: "user_row list \<Rightarrow> account_state" where
  "demo_accounts us = \<lparr>ac_users = us, ac_keys = [], ac_tenants = [], ac_tiers = [], ac_revocations = [], ac_audit = [], ac_next = 0\<rparr>"

lemma demo_jwt_steady: "jwt_steady (ae_token demo_account_env)"
  by (auto simp: jwt_steady_def demo_account_env_def demo_token_env_def split: option.splits if_splits)

definition demo_refresh_claims :: token_claims where
  "demo_refresh_claims =
     issued_claims demo_token_config 0 ''j0'' ''u1'' ''t1'' (Some [refresh_scope]) (Some 86400) user_kind None"

definition demo_refresh_token :: string where
  "demo_refresh_token = te_jwt_encode demo_token_env demo_refresh_claims ''old'' ''HS256''"

lemma demo_refresh_reads: "validate_for demo_account_env 5 n demo_refresh_token = Inr demo_refresh_claims"
  by (simp add: validate_for_def validate_token_async_def validate_own_token_def demo_account_env_def demo_token_config_def
      validate_jwt_token_def demo_refresh_token_def demo_token_env_def demo_refresh_claims_def issued_claims_def
      microseconds_per_second_def issuer_def)

lemma demo_refresh_text: "demo_refresh_token \<noteq> []"
  by (simp add: demo_refresh_token_def demo_token_env_def number_text_def nat_digits_ne)

definition demo_refreshed :: account_state where
  "demo_refreshed = account_step demo_account_env 5 (CallRefresh (Some demo_refresh_token)) (demo_accounts [demo_user ''t1'' ''u1'' ''a@b.c''])"

lemma demo_granted: "granted demo_account_env 5 (CallRefresh (Some demo_refresh_token)) (demo_accounts [demo_user ''t1'' ''u1'' ''a@b.c''])"
proof -
  have scope: "refresh_scope \<in> set (tc_scopes demo_refresh_claims)" "tc_tenant_id demo_refresh_claims = ''t1''" "tc_sub demo_refresh_claims = ''u1''"
    by (simp_all add: demo_refresh_claims_def issued_claims_def)
  have user: "get_by_id ''t1'' ''u1'' [demo_user ''t1'' ''u1'' ''a@b.c''] = Inr (Some (demo_user ''t1'' ''u1'' ''a@b.c''))"
    by (simp add: get_by_id_def scalar_one_or_none_def demo_user_def)
  have gen: "generate_token demo_token_env demo_token_config t j u te sc ttl k r \<noteq> Inl e" for t j u te sc ttl k r e
    by (simp add: generate_token_def sign_token_def demo_token_config_def)
  have pair: "\<exists>p. fst (issue_pair demo_account_env t u te r st) = Inr p" for t u te r st
    using gen by (auto simp: issue_pair_def draw_def generate_refresh_token_def demo_account_env_def split: sum.splits)
  have "\<exists>p. fst (refresh demo_account_env 5 demo_refresh_token (demo_accounts [demo_user ''t1'' ''u1'' ''a@b.c''])) = Inr p"
    using pair by (simp add: refresh_def draw_def demo_refresh_reads scope user demo_accounts_def is_revoked_def) (simp add: demo_user_def)
  then show ?thesis using demo_refresh_text
    by (auto simp: granted_def route_refresh_def opt_or_def transacted_def split: prod.splits account_error.splits)
qed

theorem refresh_token_single_use_witness:
  "\<not> granted demo_account_env 7 (CallSession (Some demo_refresh_token))
     (account_history demo_account_env [(6, CallCleanup None), (7, CallLogout)] demo_refreshed)"
  unfolding demo_refreshed_def
  by (rule refresh_token_single_use[OF _ demo_jwt_steady _ _ demo_granted])
    (simp_all add: demo_account_env_def demo_token_config_def exchange_calls_def)

end
