(* ===== verification/Team_Facts.thy ===== *)
theory Team_Facts
  imports Accounts_Facts
begin

text \<open>
  The tables of accounts over any sequence of requests: their unique columns, the seats of a tenant, which are bounded and never given
  back, and the addresses whose sign-in an invitation blocks.
\<close>

subsection \<open>How a request changes the users\<close>

inductive user_change :: "'k account_env \<Rightarrow> account_state \<Rightarrow> user_row list \<Rightarrow> bool" for env st where
  users_same: "user_change env st (ac_users st)"
| users_signed_up: "fresh_user row (ac_users st) \<Longrightarrow> us_tenant_id row = take 16 (ae_uuid env n) \<Longrightarrow> user_change env st (ac_users st @ [row])"
| users_invited: "fresh_user row (ac_users st) \<Longrightarrow> check_seat_quota (us_tenant_id row) st \<Longrightarrow> user_change env st (ac_users st @ [row])"
| users_edited: "(\<And>r. us_id (f r) = us_id r \<and> us_tenant_id (f r) = us_tenant_id r \<and> us_email (f r) = us_email r) \<Longrightarrow>
    user_change env st (map f (ac_users st))"

lemma users_updated:
  assumes "\<And>r. us_id (f r) = us_id r \<and> us_tenant_id (f r) = us_tenant_id r \<and> us_email (f r) = us_email r"
  shows "user_change env st (ac_users (update_user uid f st))"
  unfolding update_user_def using users_edited[of "\<lambda>r. if us_id r = uid then f r else r" env st] assms by simp

lemma users_logged_in: "user_change env st (update_last_login now t uid (ac_users st))"
  unfolding update_last_login_def by (rule users_edited) simp

lemma transacted_users:
  "user_change env st (ac_users (snd res)) \<Longrightarrow> user_change env st (ac_users (snd (transacted res st)))"
  by (cases res) (auto simp: transacted_def intro: users_same split: sum.splits)

lemma invite_users:
  assumes "invite_member env now t email role st = (res, st')"
  shows "user_change env st (ac_users st')"
proof (cases "check_seat_quota t st")
  case True
  note q = True
  show ?thesis
  proof (cases "get_by_email t email (ac_users st)")
    case (Inr found)
    show ?thesis
    proof (cases found)
      case None
      obtain n st0 where d: "draw 1 st = (n, st0)" by (cases "draw 1 st")
      then have st0: "ac_users st0 = ac_users st" using draw_fields(2)[of 1 st] by simp
      from assms q Inr None d have
        "create_user env now t email (ae_uuid env n) (takeWhile (\<lambda>c. c \<noteq> CHR ''@'') email) role st0 = (res, st')"
        by (simp add: invite_member_def)
      from create_user_fields(5)[OF this] show ?thesis using q by (auto simp: st0 intro: users_same users_invited)
    next
      case (Some u)
      then show ?thesis using assms q Inr
        by (auto simp: invite_member_def Let_def intro: users_same intro!: users_updated split: if_splits)
    qed
  qed (use assms q in \<open>auto simp: invite_member_def intro: users_same\<close>)
qed (use assms in \<open>auto simp: invite_member_def intro: users_same\<close>)

lemma users_step: "user_change env st (ac_users (account_step env now c st))"
proof (cases c)
  case (CallSignup email pw name)
  obtain r s where s: "signup env now email pw name st = (r, s)" by (cases "signup env now email pw name st")
  with signup_frame[OF s] have "user_change env st (ac_users s)" by (auto intro: user_change.intros)
  with CallSignup s transacted_users[of env st "(r, s)"] show ?thesis by (simp add: route_signup_def)
next
  case (CallLogin email pw)
  obtain r s where s: "login env now email pw None st = (r, s)" by (cases "login env now email pw None st")
  with login_frame[OF s] have "user_change env st (ac_users s)" by (auto intro: users_same users_logged_in)
  with CallLogin s transacted_users[of env st "(r, s)"] show ?thesis by (simp add: route_login_def)
next
  case (CallRefresh cookie)
  obtain r s where s: "route_refresh env now cookie st = (r, s)" by (cases "route_refresh env now cookie st")
  from route_refresh_state[OF s] have "ac_users s = ac_users st" using refresh_users by fastforce
  with CallRefresh s show ?thesis by (simp add: users_same)
next
  case (CallSession cookie)
  obtain r s where s: "route_session env now cookie st = (r, s)" by (cases "route_session env now cookie st")
  from route_session_state[OF s] have "ac_users s = ac_users st" using refresh_users by fastforce
  with CallSession s show ?thesis by (simp add: users_same)
next
  case (CallInvite t email role)
  obtain r s where s: "invite_member env now t email role st = (r, s)" by (cases "invite_member env now t email role st")
  with CallInvite transacted_users[of env st "(r, s)"] invite_users[OF s] show ?thesis by simp
next
  case (CallRemove t u)
  have "user_change env st (ac_users (snd (remove_member t u st)))"
    by (auto simp: remove_member_def Let_def split: sum.splits option.splits intro: users_same intro!: users_updated)
  with CallRemove transacted_users show ?thesis by simp
next
  case (CallSetRole t u r)
  have "user_change env st (ac_users (snd (update_role t u r st)))"
    by (auto simp: update_role_def Let_def split: sum.splits option.splits intro: users_same intro!: users_updated)
  with CallSetRole transacted_users show ?thesis by simp
qed (auto intro: users_same simp: route_logout_def route_revoke_token_def route_create_api_key_def create_api_key_def
    route_revoke_api_key_def draw_def Let_def split: sum.splits prod.splits if_splits)

text \<open>The other tables: tenants change by the sign-up of one, keys by a key request.\<close>

inductive tenant_change :: "timestamp \<Rightarrow> account_state \<Rightarrow> account_state \<Rightarrow> bool" for now st where
  tenants_same: "ac_tiers st' = ac_tiers st \<Longrightarrow> ac_tenants st' = ac_tenants st \<Longrightarrow> tenant_change now st st'"
| tenant_signed_up: "ac_tiers st' = ac_tiers st \<Longrightarrow> ac_tenants st' = snd (tenant_upsert now t (signup_update e) (ac_tenants st)) \<Longrightarrow>
    tenant_change now st st'"

inductive key_change :: "'k account_env \<Rightarrow> timestamp \<Rightarrow> api_key_row list \<Rightarrow> api_key_row list \<Rightarrow> bool" for env now ks where
  keys_same: "key_change env now ks ks"
| key_created: "key_create env n now t u name scopes x ks = Inr (res, ks') \<Longrightarrow> key_change env now ks ks'"
| key_revoked: "key_change env now ks (snd (key_revoke now t key_id ks))"

definition others_change :: "'k account_env \<Rightarrow> timestamp \<Rightarrow> account_state \<Rightarrow> account_state \<Rightarrow> bool" where
  "others_change env now st st' \<longleftrightarrow> tenant_change now st st' \<and> key_change env now (ac_keys st) (ac_keys st')"

lemma others_same:
  "ac_tiers st' = ac_tiers st \<Longrightarrow> ac_tenants st' = ac_tenants st \<Longrightarrow> ac_keys st' = ac_keys st \<Longrightarrow> others_change env now st st'"
  by (simp add: others_change_def tenants_same keys_same)

lemma transacted_others: "others_change env now st (snd res) \<Longrightarrow> others_change env now st (snd (transacted res st))"
  by (cases res) (auto simp: transacted_def intro: others_same split: sum.splits)

lemma others_step: "others_change env now st (account_step env now c st)"
proof (cases c)
  case (CallSignup email pw name)
  obtain r s where s: "signup env now email pw name st = (r, s)" by (cases "signup env now email pw name st")
  from signup_frame[OF s] have "others_change env now st s"
    by (auto simp: others_change_def intro: tenant_change.intros keys_same)
  with CallSignup s transacted_others[of env now st "(r, s)"] show ?thesis by (simp add: route_signup_def)
next
  case (CallLogin email pw)
  obtain r s where s: "login env now email pw None st = (r, s)" by (cases "login env now email pw None st")
  from login_frame[OF s] have "others_change env now st s" by (auto intro: others_same)
  with CallLogin s transacted_others[of env now st "(r, s)"] show ?thesis by (simp add: route_login_def)
next
  case (CallRefresh cookie)
  obtain r s where s: "route_refresh env now cookie st = (r, s)" by (cases "route_refresh env now cookie st")
  from route_refresh_state[OF s] have "others_change env now st s" by (auto dest!: refresh_users intro: others_same)
  with CallRefresh s show ?thesis by simp
next
  case (CallSession cookie)
  obtain r s where s: "route_session env now cookie st = (r, s)" by (cases "route_session env now cookie st")
  from route_session_state[OF s] have "others_change env now st s" by (auto dest!: refresh_users intro: others_same)
  with CallSession s show ?thesis by simp
next
  case (CallInvite t email role)
  obtain r s where s: "invite_member env now t email role st = (r, s)" by (cases "invite_member env now t email role st")
  then have "others_change env now st s"
    by (auto simp: invite_member_def update_user_def draw_def Let_def split: if_splits sum.splits option.splits
        dest!: create_user_frame intro!: others_same)
  with CallInvite s transacted_others[of env now st "(r, s)"] show ?thesis by simp
next
  case (CallRemove t u)
  have "others_change env now st (snd (remove_member t u st))"
    by (auto simp: remove_member_def update_user_def Let_def split: sum.splits option.splits intro!: others_same)
  with CallRemove transacted_others show ?thesis by simp
next
  case (CallSetRole t u r)
  have "others_change env now st (snd (update_role t u r st))"
    by (auto simp: update_role_def update_user_def Let_def split: sum.splits option.splits intro!: others_same)
  with CallSetRole transacted_others show ?thesis by simp
next
  case (CallCreateKey u t name scopes)
  obtain n st0 where d: "draw 3 st = (n, st0)" by (cases "draw 3 st")
  then have st0: "ac_keys st0 = ac_keys st" "ac_tenants st0 = ac_tenants st" "ac_tiers st0 = ac_tiers st" by (auto simp: draw_def)
  show ?thesis
  proof (cases "py_strip name = []")
    case False
    show ?thesis
    proof (cases "key_create env n now t u (py_strip name) scopes None (ac_keys st0)")
      case (Inl e)
      then show ?thesis using CallCreateKey False d by (auto simp: route_create_api_key_def create_api_key_def intro!: others_same)
    next
      case (Inr p)
      obtain res tbl where p: "p = (res, tbl)" by (cases p)
      obtain row plain where res: "res = (row, plain)" by (cases res)
      show ?thesis using CallCreateKey False d Inr p res st0
        by (auto simp: route_create_api_key_def create_api_key_def others_change_def intro!: tenants_same key_created)
    qed
  qed (use CallCreateKey in \<open>auto simp: route_create_api_key_def create_api_key_def intro!: others_same\<close>)
next
  case (CallRevokeKey u t key_id)
  obtain found tbl where "key_revoke now t key_id (ac_keys st) = (found, tbl)" by (cases "key_revoke now t key_id (ac_keys st)")
  with key_revoked[of env now "ac_keys st" t key_id] CallRevokeKey show ?thesis
    by (auto simp: route_revoke_api_key_def others_change_def intro!: tenants_same keys_same)
qed (auto intro!: others_same simp: route_logout_def route_revoke_token_def)

subsection \<open>Unique columns\<close>

definition users_typed :: "user_row list \<Rightarrow> bool" where
  "users_typed us \<longleftrightarrow> distinct (map us_id us) \<and> distinct (map (\<lambda>r. (us_tenant_id r, us_email r)) us) \<and>
     (\<forall>r\<in>set us. normal_email (us_email r) = us_email r)"

definition keys_typed :: "api_key_row list \<Rightarrow> bool" where
  "keys_typed ks \<longleftrightarrow> distinct (map ak_id ks) \<and> distinct (map ak_key_hash ks)"

definition tables_typed :: "account_state \<Rightarrow> bool" where
  "tables_typed st \<longleftrightarrow> users_typed (ac_users st) \<and> keys_typed (ac_keys st) \<and> distinct (map tn_tenant_id (ac_tenants st))"

lemma user_change_typed: "user_change env st us \<Longrightarrow> users_typed (ac_users st) \<Longrightarrow> users_typed us"
  by (cases rule: user_change.cases) (auto simp: users_typed_def fresh_user_def comp_def)

lemma distinct_edited: "(\<And>r. k (f r) = k r) \<Longrightarrow> distinct (map k (map f xs)) = distinct (map k xs)"
  by (simp add: comp_def)

lemma key_change_typed:
  assumes "key_change env now ks ks'" "keys_typed ks"
  shows "keys_typed ks'"
  using assms(1)
proof cases
  case (key_created n t u name scopes x res)
  then obtain row where "ks' = ks @ [row]" "ak_id row \<notin> ak_id ` set ks" "ak_key_hash row \<notin> ak_key_hash ` set ks"
    by (force simp: key_create_def Let_def list_ex_iff image_iff split: prod.splits if_splits)
  with assms(2) show ?thesis by (simp add: keys_typed_def)
next
  case (key_revoked t key_id)
  then obtain f where "ks' = map f ks" "\<And>r. ak_id (f r) = ak_id r" "\<And>r. ak_key_hash (f r) = ak_key_hash r"
    by (auto simp: key_revoke_def Let_def intro!: that)
  with assms(2) show ?thesis by (simp add: keys_typed_def distinct_edited del: map_map)
qed (use assms(2) in simp)

lemma tenant_get_none: "tenant_get t tbl = None \<longleftrightarrow> t \<notin> tn_tenant_id ` set tbl"
proof -
  have "tenant_get t tbl = None \<longleftrightarrow> filter (\<lambda>r. tn_tenant_id r = t) tbl = []" by (simp add: tenant_get_def split: list.splits)
  then show ?thesis by (auto simp: filter_empty_conv)
qed

lemma tenant_change_typed:
  assumes "tenant_change now st st'" "distinct (map tn_tenant_id (ac_tenants st))"
  shows "distinct (map tn_tenant_id (ac_tenants st'))"
  using assms(1)
proof cases
  case (tenant_signed_up t e)
  show ?thesis
  proof (cases "tenant_get t (ac_tenants st) = None")
    case True
    with tenant_signed_up assms(2) show ?thesis
      by (simp add: tenant_upsert_def Let_def tenant_get_none apply_tenant_update_def new_tenant_def)
  next
    case False
    with tenant_signed_up obtain f where "ac_tenants st' = map f (ac_tenants st)" "\<And>r. tn_tenant_id (f r) = tn_tenant_id r"
      by (auto simp: tenant_upsert_def Let_def apply_tenant_update_def intro!: that)
    with assms(2) show ?thesis by (simp add: distinct_edited del: map_map)
  qed
qed (use assms(2) in simp)

lemma typed_history: "tables_typed st \<Longrightarrow> tables_typed (account_history env h st)"
proof (induction h arbitrary: st)
  case (Cons e h)
  obtain now c where e: "e = (now, c)" by (cases e)
  have "tables_typed (account_step env now c st)"
    using users_step[of env st now c] others_step[of env now st c] Cons.prems
    by (auto simp: tables_typed_def others_change_def dest: user_change_typed key_change_typed tenant_change_typed)
  with Cons e show ?case by (simp add: account_history_def)
qed (simp add: account_history_def)

text \<open>A filter that a unique column makes singular.\<close>

lemma singular_filter:
  assumes "distinct (map k xs)" "\<And>x. P x \<Longrightarrow> k x = a"
  shows "scalar_one_or_none (filter P xs) \<noteq> Inl e"
proof -
  have "distinct (map k (filter P xs))" using assms(1) by (simp add: distinct_map_filter)
  moreover have "\<forall>x\<in>set (filter P xs). k x = a" using assms(2) by simp
  ultimately have "length (filter P xs) \<le> 1" by (cases "filter P xs"; cases "tl (filter P xs)") auto
  then show ?thesis by (cases "filter P xs"; cases "tl (filter P xs)") (auto simp: scalar_one_or_none_def)
qed

text \<open>C19: The tables keep their unique columns over every sequence of requests: identifiers of users and keys, key hashes, tenants,
  and the pair of tenant and normalised address. So a look-up in one tenant never finds two rows.\<close>

theorem account_tables_typed:
  assumes "tables_typed st"
  shows "tables_typed (account_history env h st) \<and>
    get_by_id t u (ac_users (account_history env h st)) \<noteq> Inl e \<and>
    get_by_email t email (ac_users (account_history env h st)) \<noteq> Inl e \<and>
    fst (validate_key env now t key (ac_keys (account_history env h st))) \<noteq> Inl e"
proof -
  let ?st = "account_history env h st"
  have ok: "tables_typed ?st" using assms by (rule typed_history)
  then have d: "distinct (map us_id (ac_users ?st))" "distinct (map (\<lambda>r. (us_tenant_id r, us_email r)) (ac_users ?st))"
    "distinct (map ak_key_hash (ac_keys ?st))"
    by (simp_all add: tables_typed_def users_typed_def keys_typed_def)
  have "get_by_id t u (ac_users ?st) \<noteq> Inl e" "get_by_email t email (ac_users ?st) \<noteq> Inl e"
    unfolding get_by_id_def get_by_email_def by (rule singular_filter[OF d(1)] singular_filter[OF d(2)]; simp)+
  moreover have "scalar_one_or_none (filter (usable_key now t (ae_sha env key)) (ac_keys ?st)) \<noteq> Inl e"
    by (rule singular_filter[OF d(3)]) (simp add: usable_key_def)
  then have "fst (validate_key env now t key (ac_keys ?st)) \<noteq> Inl e"
    by (auto simp: validate_key_def Let_def split: sum.splits option.splits)
  ultimately show ?thesis using ok by blast
qed

theorem account_tables_typed_witness:
  "get_by_email ''t1'' ''a@b.c'' (ac_users (account_history demo_account_env [(1, CallInvite ''t1'' ''a@b.c'' ''admin'')]
     (demo_accounts [demo_user ''t1'' ''u1'' ''a@b.c'']))) \<noteq> Inl MultipleResultsFound"
proof -
  have "normal_email ''a@b.c'' = ''a@b.c''" by code_simp
  then have "tables_typed (demo_accounts [demo_user ''t1'' ''u1'' ''a@b.c''])"
    by (simp add: tables_typed_def users_typed_def keys_typed_def demo_accounts_def demo_user_def)
  from account_tables_typed[OF this] show ?thesis by blast
qed

subsection \<open>Seats\<close>

lemma limit_change:
  assumes "tenant_change now st st'"
  shows "effective_seat_limit t st' = effective_seat_limit t st"
  using assms
proof cases
  case (tenant_signed_up t' e)
  have get: "tenant_get t (map f tbl) = map_option f (tenant_get t tbl)" if "\<And>r. tn_tenant_id (f r) = tn_tenant_id r" for f tbl
    using that by (simp add: tenant_get_def filter_map comp_def split: list.splits)
  have "map_option tn_max_seats (tenant_get t (ac_tenants st')) = map_option tn_max_seats (tenant_get t (ac_tenants st)) \<or>
      tenant_get t (ac_tenants st) = None \<and> map_option tn_max_seats (tenant_get t (ac_tenants st')) = Some None"
  proof (cases "tenant_get t' (ac_tenants st) = None")
    case True
    with tenant_signed_up show ?thesis
      by (auto simp: tenant_upsert_def Let_def tenant_get_def apply_tenant_update_def new_tenant_def split: list.splits)
  next
    case False
    with tenant_signed_up obtain f where f: "ac_tenants st' = map f (ac_tenants st)" "\<And>r. tn_tenant_id (f r) = tn_tenant_id r"
      "\<And>r. tn_max_seats (f r) = tn_max_seats r"
      by (auto simp: tenant_upsert_def Let_def apply_tenant_update_def intro!: that)
    from get[OF f(2)] f(1,3) show ?thesis by (cases "tenant_get t (ac_tenants st)") auto
  qed
  with tenant_signed_up(1) show ?thesis
    by (auto simp: effective_seat_limit_def plan_tier_def split: option.splits)
next
  case tenants_same
  then show ?thesis by (simp add: effective_seat_limit_def plan_tier_def split: option.splits)
qed

lemma count_change:
  assumes "user_change env st us" "effective_seat_limit t st = Some limit" "\<forall>n. take 16 (ae_uuid env n) \<noteq> t"
  shows "count_by_tenant t (ac_users st) \<le> count_by_tenant t us \<and>
    int (count_by_tenant t us) \<le> max limit (int (count_by_tenant t (ac_users st)))"
  using assms
  by (cases rule: user_change.cases) (auto simp: count_by_tenant_def filter_map comp_def check_seat_quota_def)

text \<open>Seats: whatever the requests, a tenant's users stay within its limit, or at what they were. Removed members keep their seat, so
  once the limit is reached every later invitation is refused, and the quantity billed never falls.\<close>

theorem seats_bounded_never_freed:
  assumes "effective_seat_limit t st = Some limit" "\<forall>n. take 16 (ae_uuid env n) \<noteq> t"
  shows "int (count_by_tenant t (ac_users (account_history env h st))) \<le> max limit (int (count_by_tenant t (ac_users st))) \<and>
    stripe_quantity t st \<le> stripe_quantity t (account_history env h st) \<and>
    (check_seat_quota t st \<or> fst (invite_member env now t email role (account_history env h st)) = Inl SeatLimit)"
proof -
  have "effective_seat_limit t (account_history env h st) = Some limit \<and>
      count_by_tenant t (ac_users st) \<le> count_by_tenant t (ac_users (account_history env h st)) \<and>
      int (count_by_tenant t (ac_users (account_history env h st))) \<le> max limit (int (count_by_tenant t (ac_users st)))"
    using assms(1)
  proof (induction h arbitrary: st)
    case (Cons e h)
    obtain now c where e: "e = (now, c)" by (cases e)
    let ?st = "account_step env now c st"
    have "effective_seat_limit t ?st = Some limit"
      using limit_change others_step[of env now st c] Cons.prems by (metis others_change_def)
    from Cons.IH[OF this] count_change[OF users_step Cons.prems assms(2), of now c]
    show ?case unfolding account_history_def e foldl.simps prod.case by linarith
  qed (simp add: account_history_def)
  then show ?thesis
    using assms(1) by (auto simp: stripe_quantity_def check_seat_quota_def invite_member_def)
qed

lemma demo_seats:
  "effective_seat_limit ''t1'' (demo_accounts us) = Some 1" "\<forall>n. take 16 (ae_uuid demo_account_env n) \<noteq> ''t1''"
proof -
  show "effective_seat_limit ''t1'' (demo_accounts us) = Some 1"
    by (simp add: effective_seat_limit_def plan_tier_def tenant_get_def demo_accounts_def tier_seats_def opt_or_def)
  have only: "set (take 16 (ae_uuid demo_account_env n)) \<subseteq> {CHR ''i''}" for n
    using set_take_subset[of 16 "replicate n CHR ''i''"] by (auto simp: demo_account_env_def split: if_splits)
  show "\<forall>n. take 16 (ae_uuid demo_account_env n) \<noteq> ''t1''"
  proof (intro allI notI)
    fix n
    assume "take 16 (ae_uuid demo_account_env n) = ''t1''"
    with only[of n] show False by simp
  qed
qed

theorem seats_bounded_never_freed_witness:
  "fst (invite_member demo_account_env 2 ''t1'' ''d@b.c'' ''viewer''
     (account_history demo_account_env [(1, CallRemove ''t1'' ''u1'')] (demo_accounts [demo_user ''t1'' ''u1'' ''a@b.c'']))) = Inl SeatLimit"
proof -
  have "\<not> check_seat_quota ''t1'' (demo_accounts [demo_user ''t1'' ''u1'' ''a@b.c''])"
    by (simp add: check_seat_quota_def demo_seats(1)) (simp add: count_by_tenant_def demo_accounts_def demo_user_def)
  with seats_bounded_never_freed[OF demo_seats] show ?thesis by blast
qed

subsection \<open>One address in two tenants\<close>

lemma invited_active:
  assumes "invite_member env now t email role st = (Inr v, st')"
  shows "\<exists>r\<in>set (ac_users st'). us_tenant_id r = t \<and> us_email r = normal_email email \<and> us_is_active r"
proof -
  obtain found where found: "get_by_email t email (ac_users st) = Inr found"
    using assms by (cases "get_by_email t email (ac_users st)") (auto simp: invite_member_def split: if_splits)
  show ?thesis
  proof (cases found)
    case None
    then obtain n where "create_user env now t email (ae_uuid env n) (takeWhile (\<lambda>c. c \<noteq> CHR ''@'') email) role (snd (draw 1 st)) = (Inr v, st')"
      using assms found by (auto simp: invite_member_def draw_def Let_def split: if_splits)
    from create_user_fields(5)[OF this] show ?thesis
    proof
      assume "ac_users st' = ac_users (snd (draw 1 st))"
      with \<open>create_user _ _ _ _ _ _ _ _ = _\<close> show ?thesis
        by (auto simp: create_user_def user_create_def draw_def Let_def split: sum.splits if_splits)
    qed (auto simp: fresh_user_def)
  next
    case (Some u)
    then have u: "u \<in> set (ac_users st)" "us_tenant_id u = t" "us_email u = normal_email email"
      using found by (auto simp: get_by_email_def scalar_one_or_none_def filter_eq_Cons_iff split: list.splits)
    have "st' = update_user (us_id u) (\<lambda>r. r\<lparr>us_is_active := True, us_role := role\<rparr>) st"
      using assms found Some by (auto simp: invite_member_def Let_def split: if_splits)
    with u show ?thesis by (auto simp: update_user_def intro!: bexI[of _ "u\<lparr>us_is_active := True, us_role := role\<rparr>"] image_eqI[of _ _ u])
  qed
qed

lemma invite_keeps:
  assumes "invite_member env now t email role st = (res, st')" "r \<in> set (ac_users st)" "us_is_active r"
  shows "\<exists>r'\<in>set (ac_users st'). us_tenant_id r' = us_tenant_id r \<and> us_email r' = us_email r \<and> us_is_active r'"
proof -
  have "ac_users st' = ac_users st \<or> (\<exists>x. ac_users st' = ac_users st @ [x]) \<or>
      (\<exists>uid. st' = update_user uid (\<lambda>r. r\<lparr>us_is_active := True, us_role := role\<rparr>) st)"
    using assms(1) by (auto simp: invite_member_def draw_def Let_def split: if_splits sum.splits option.splits dest!: create_user_fields(5))
  then show ?thesis
  proof (elim disjE exE)
    fix uid
    let ?f = "\<lambda>x. if us_id x = uid then x\<lparr>us_is_active := True, us_role := role\<rparr> else x"
    assume "st' = update_user uid (\<lambda>r. r\<lparr>us_is_active := True, us_role := role\<rparr>) st"
    then have "?f r \<in> set (ac_users st')" using assms(2) by (auto simp: update_user_def)
    then show ?thesis by (rule rev_bexI) (use assms(3) in simp)
  qed (use assms(2,3) in auto)
qed

lemma two_rows: "a \<in> set xs \<Longrightarrow> b \<in> set xs \<Longrightarrow> a \<noteq> b \<Longrightarrow> P a \<Longrightarrow> P b \<Longrightarrow> scalar_one_or_none (filter P xs) = Inl MultipleResultsFound"
proof -
  assume "a \<in> set xs" "b \<in> set xs" "a \<noteq> b" "P a" "P b"
  then have "a \<in> set (filter P xs)" "b \<in> set (filter P xs)" by auto
  with \<open>a \<noteq> b\<close> show ?thesis
    by (cases "filter P xs"; cases "tl (filter P xs)") (auto simp: scalar_one_or_none_def)
qed

text \<open>An invitation of an address that is active in another tenant succeeds, and from then on that address can neither log in,
  whatever the password, nor sign up: both requests end in an unhandled database error instead of 401 or 409.\<close>

theorem invite_blocks_login:
  assumes "u \<in> set (ac_users st)" "us_is_active u" "us_email u = normal_email email" "us_tenant_id u \<noteq> t"
    and "invite_member env now t email role st = (Inr v, st')"
  shows "fst (route_login env now' email password st') = Inl (DbError MultipleResultsFound) \<and>
    (fst (route_signup env now' email password name st') = Inl (DbError MultipleResultsFound) \<or>
     fst (route_signup env now' email password name st') = Inl (AuthError 400))"
proof -
  obtain a where a: "a \<in> set (ac_users st')" "us_tenant_id a = t" "us_email a = normal_email email" "us_is_active a"
    using invited_active[OF assms(5)] by blast
  obtain b where b: "b \<in> set (ac_users st')" "us_tenant_id b = us_tenant_id u" "us_email b = us_email u" "us_is_active b"
    using invite_keeps[OF assms(5,1,2)] by blast
  have "a \<noteq> b" using a b assms(4) by auto
  from two_rows[OF a(1) b(1) this] a b assms(3)
  have "get_by_email_any_tenant (normal_email email) (ac_users st') = Inl MultipleResultsFound"
    by (simp add: get_by_email_any_tenant_def)
  then show ?thesis
    by (simp add: route_login_def route_signup_def login_def signup_def verify_password_def transacted_def Let_def)
qed

theorem invite_blocks_login_witness:
  "fst (route_login demo_account_env 2 ''a@b.c'' ''secret''
     (snd (invite_member demo_account_env 1 ''t1'' ''a@b.c'' ''viewer'' (demo_accounts [demo_user ''t2'' ''u2'' ''a@b.c''])))) =
   Inl (DbError MultipleResultsFound)"
proof -
  let ?st = "demo_accounts [demo_user ''t2'' ''u2'' ''a@b.c'']"
  have email: "normal_email ''a@b.c'' = ''a@b.c''" by code_simp
  have u: "demo_user ''t2'' ''u2'' ''a@b.c'' \<in> set (ac_users ?st)" "us_is_active (demo_user ''t2'' ''u2'' ''a@b.c'')"
    "us_email (demo_user ''t2'' ''u2'' ''a@b.c'') = normal_email ''a@b.c''" "us_tenant_id (demo_user ''t2'' ''u2'' ''a@b.c'') \<noteq> ''t1''"
    by (simp_all add: demo_accounts_def demo_user_def email)
  have quota: "check_seat_quota ''t1'' ?st"
    by (simp add: check_seat_quota_def demo_seats(1)) (simp add: count_by_tenant_def demo_accounts_def demo_user_def)
  have "\<exists>v. fst (invite_member demo_account_env 1 ''t1'' ''a@b.c'' ''viewer'' ?st) = Inr v"
    by (simp add: invite_member_def quota)
      (simp add: get_by_email_def scalar_one_or_none_def demo_accounts_def demo_user_def draw_def
        create_user_def user_create_def email demo_account_env_def Let_def)
  then obtain v st' where v: "invite_member demo_account_env 1 ''t1'' ''a@b.c'' ''viewer'' ?st = (Inr v, st')"
    by (cases "invite_member demo_account_env 1 ''t1'' ''a@b.c'' ''viewer'' ?st") auto
  from invite_blocks_login[OF u v] show ?thesis by (simp add: v)
qed

end
