(* ===== verification/Http_Props.thy ===== *)
theory Http_Props
  imports Http_Facts Team_Facts
begin

text \<open>What tokens, keys and licenses open: the middleware together with the account services, the roles and the license manager.\<close>

subsection \<open>Tokens\<close>

lemma authentication_token:
  assumes "\<not> is_public_path (he_environ env) (hr_path rq)" "fst (ensure_token_manager env w) = Inr tm"
    and "bearer_token rq = Some tok" "\<not> starts_with key_convention tok"
    and "cf_auth_mode (tm_config tm) \<noteq> MODE_OIDC" "validate_own_token (ae_token (he_accounts env)) (tm_config tm) (he_now env) tok = Inr c"
    and "\<not> fst (token_revoked env (tc_jti c) w)"
  shows "\<exists>w'. authentication env app rq w = app rq (w'\<lparr>wo_scope := claims_scope c (wo_scope w)\<rparr>)"
proof -
  have e: "ensure_token_manager env w = (Inr tm, w\<lparr>wo_manager := Some tm\<rparr>)"
    using ensured[of env w tm] assms(2) by (cases "ensure_token_manager env w") auto
  let ?w = "w\<lparr>wo_manager := Some tm, wo_accounts := snd (draw 1 (wo_accounts w))\<rparr>"
  obtain w2 where r: "token_revoked env (tc_jti c) ?w = (False, w2)"
    using assms(7) revoked_frame[where env = env and jti = "tc_jti c" and w = w and tm = "Some tm" and k = 1]
    by (cases "token_revoked env (tc_jti c) ?w") auto
  then have "wo_scope w2 = wo_scope w" by (auto simp: token_revoked_def split: if_splits prod.splits)
  with e r assms show ?thesis by (auto simp: authentication_def validate_token_async_def Let_def)
qed

lemma authentication_refused:
  assumes "\<not> is_public_path (he_environ env) (hr_path rq)" "fst (ensure_token_manager env w) = Inr tm"
    and "bearer_token rq = Some tok" "\<not> starts_with key_convention tok"
    and "cf_auth_mode (tm_config tm) \<noteq> MODE_OIDC"
    and "validate_own_token (ae_token (he_accounts env)) (tm_config tm) (he_now env) tok = Inl (PermissionError e)"
  shows "fst (authentication env app rq w) = Inr unauthorized"
proof -
  have "ensure_token_manager env w = (Inr tm, w\<lparr>wo_manager := Some tm\<rparr>)"
    using ensured[of env w tm] assms(2) by (cases "ensure_token_manager env w") auto
  with assms show ?thesis by (auto simp: authentication_def validate_token_async_def Let_def)
qed

text \<open>What a handler's guard sees of \<^verbatim>\<open>request.state\<close>.\<close>

definition guard_view :: "scope \<Rightarrow> request_state" where
  "guard_view sc = \<lparr>rq_role = sc_role sc, rq_sub = sc_sub sc\<rparr>"

text \<open>A refresh token is accepted as a bearer token: nothing looks at its scope, so during its life it opens every endpoint that asks
  for a permission of a viewer, in the tenant and under the name of its user, and none that asks for more.\<close>

theorem refresh_token_opens_api:
  assumes "generate_refresh_token (ae_token (he_accounts env)) (tm_config tm) iat jti sub tenant = Inr tok"
    and "token_laws (ae_token (he_accounts env))
           (issued_claims (tm_config tm) iat jti sub tenant (Some [refresh_scope]) (Some (cf_refresh_token_ttl_seconds (tm_config tm))) user_kind None)"
    and "iat \<le> he_now env"
    and "he_now env + microseconds_per_second \<le>
           iat + min (cf_refresh_token_ttl_seconds (tm_config tm)) (cf_max_token_ttl_seconds (tm_config tm)) * microseconds_per_second"
    and "\<not> is_public_path (he_environ env) (hr_path rq)" "fst (ensure_token_manager env w) = Inr tm"
    and "bearer_token rq = Some tok" "\<not> starts_with key_convention tok" "\<not> fst (token_revoked env jti w)"
  shows "\<exists>w'. authentication env app rq w = app rq w' \<and>
    sc_tenant_id (wo_scope w') = Some tenant \<and> sc_sub (wo_scope w') = Some sub \<and> sc_scopes (wo_scope w') = Some [refresh_scope] \<and>
    require_permission p (guard_view (wo_scope w')) = (if p \<in> viewer_perms then Inr VIEWER else Inl (HTTPException 403))"
proof -
  let ?c = "issued_claims (tm_config tm) iat jti sub tenant (Some [refresh_scope]) (Some (cf_refresh_token_ttl_seconds (tm_config tm))) user_kind None"
  have c: "tc_iss ?c = issuer" "tc_iat ?c = iat" "tc_jti ?c = jti" "tc_role ?c = None" "tc_identity_kind ?c = user_kind"
    "tc_tenant_id ?c = tenant" "tc_sub ?c = sub" "tc_scopes ?c = [refresh_scope]"
    "tc_exp ?c = iat + min (cf_refresh_token_ttl_seconds (tm_config tm)) (cf_max_token_ttl_seconds (tm_config tm)) * microseconds_per_second"
    by (simp_all add: issued_claims_def)
  have sign: "sign_token (ae_token (he_accounts env)) (tm_config tm) ?c = Inr tok"
    using assms(1) by (simp add: generate_refresh_token_def generate_token_def)
  then have mode: "cf_auth_mode (tm_config tm) \<noteq> MODE_OIDC" by (auto simp: sign_token_def)
  from own_token_reads[OF assms(2) sign] assms(3,4) c(1,2,9)
  have "validate_own_token (ae_token (he_accounts env)) (tm_config tm) (he_now env) tok = Inr ?c" by simp
  from authentication_token[OF assms(5,6,7,8) mode this] assms(9) c(3) obtain w'
    where w': "authentication env app rq w = app rq (w'\<lparr>wo_scope := claims_scope ?c (wo_scope w)\<rparr>)" by auto
  have role: "normal_role None user_kind = viewer_role"
    by (simp add: normal_role_def opt_or_def user_kind_def service_kind_def viewer_role_def known_roles_def)
  have "parse_role viewer_role = Some VIEWER" by (simp add: viewer_role_def) code_simp
  then have "get_user_role (guard_view (claims_scope ?c (wo_scope w))) = Inr VIEWER"
    by (simp add: get_user_role_def guard_view_def claims_scope_def c role)
  then show ?thesis
    by (intro exI[of _ "w'\<lparr>wo_scope := claims_scope ?c (wo_scope w)\<rparr>"])
      (simp add: w' require_permission_def role_has_permission_def, simp add: claims_scope_def c)
qed

text \<open>Without \<^verbatim>\<open>JWT_SECRET\<close> the development mode draws a secret each time a manager is built, and every service builds its own: a token
  that one of them issues is refused by the middleware.\<close>

theorem unset_secret_refuses_own_tokens:
  assumes "build_token_config (he_environ env) None s1 = Inr cfg" "build_token_config (he_environ env) None s2 = Inr (tm_config tm)"
    and "generate_token (ae_token (he_accounts env)) cfg iat jti sub tenant scopes ttl kind role = Inr tok"
    and "token_laws (ae_token (he_accounts env)) (issued_claims cfg iat jti sub tenant scopes ttl kind role)"
    and "\<forall>p. te_hmac (ae_token (he_accounts env)) (''dev-'' @ s1) p \<noteq> te_hmac (ae_token (he_accounts env)) (''dev-'' @ s2) p"
    and "\<not> is_public_path (he_environ env) (hr_path rq)" "wo_manager w = Some tm" "bearer_token rq = Some tok"
  shows "fst (authentication env app rq w) = Inr unauthorized"
proof -
  let ?env = "ae_token (he_accounts env)" and ?c = "issued_claims cfg iat jti sub tenant scopes ttl kind role"
  have cfg: "cf_auth_mode cfg = MODE_DEVELOPMENT \<and> cf_jwt_secret cfg = ''dev-'' @ s" if "build_token_config (he_environ env) None s = Inr cfg" for s cfg
    using that by (auto simp: build_token_config_def Let_def opt_or_def split: if_splits sum.splits)
  have tok: "tok = sign_dev_token ?env cfg ?c"
    using assms(3) cfg[OF assms(1)] by (simp add: generate_token_def sign_token_def)
  have "validate_dev_token ?env (tm_config tm) (he_now env) tok = Inl (PermissionError SignatureFailed)"
    using assms(4,5) cfg[OF assms(1)] cfg[OF assms(2)] unfolding tok
    by (simp add: validate_dev_token_def sign_dev_token_def Let_def split_token token_laws_def)
  then have "validate_own_token ?env (tm_config tm) (he_now env) tok = Inl (PermissionError SignatureFailed)"
    using cfg[OF assms(2)] by (simp add: validate_own_token_def)
  moreover have "\<not> starts_with key_convention tok"
    by (simp add: tok sign_dev_token_def Let_def starts_with_def key_convention_def dev_prefix_def)
  ultimately show ?thesis
    using authentication_refused[OF assms(6) _ assms(8)] assms(7) cfg[OF assms(2)] by (simp add: ensure_token_manager_def)
qed

subsection \<open>Keys\<close>

definition has_key :: "string \<Rightarrow> string \<Rightarrow> api_key_row list \<Rightarrow> bool" where
  "has_key t hash ks \<longleftrightarrow> (\<exists>r\<in>set ks. ak_key_hash r = hash \<and> ak_tenant_id r = t)"

lemma key_change_has_key:
  assumes "key_change env now ks ks'" "has_key t hash ks"
  shows "has_key t hash ks'"
  using assms(1)
proof cases
  case (key_created n t' u name scopes x res)
  then obtain row where "ks' = ks @ [row]" by (auto simp: key_create_def Let_def split: prod.splits if_splits)
  with assms(2) show ?thesis by (auto simp: has_key_def)
next
  case (key_revoked t' key_id)
  then obtain f where "ks' = map f ks" "\<And>r. ak_tenant_id (f r) = ak_tenant_id r" "\<And>r. ak_key_hash (f r) = ak_key_hash r"
    by (auto simp: key_revoke_def Let_def intro!: that)
  with assms(2) show ?thesis by (auto simp: has_key_def)
qed (use assms(2) in simp)

lemma history_has_key: "has_key t hash (ac_keys st) \<Longrightarrow> has_key t hash (ac_keys (account_history env h st))"
proof (induction h arbitrary: st)
  case (Cons e h)
  obtain now c where e: "e = (now, c)" by (cases e)
  have "has_key t hash (ac_keys (account_step env now c st))"
    using others_step[of env now st c] Cons.prems by (auto simp: others_change_def dest: key_change_has_key)
  with Cons e show ?case by (simp add: account_history_def)
qed (simp add: account_history_def)

lemma made_key:
  "key_create env n now t u name scopes x ks = Inr ((row, plain), tbl) \<Longrightarrow> has_key t (ae_sha env plain) tbl \<and> starts_with key_convention plain"
  by (auto simp: key_create_def generate_key_def Let_def has_key_def starts_with_def split: if_splits)

lemma created_key:
  assumes "route_create_api_key env now u t name scopes st = (Inr (row, plain), st')"
  shows "has_key t (ae_sha env plain) (ac_keys st') \<and> starts_with key_convention plain"
proof -
  obtain n st0 where d: "draw 3 st = (n, st0)" by (cases "draw 3 st")
  obtain s where s: "create_api_key env now u t name scopes st = (Inr (row, plain), s)" "ac_keys st' = ac_keys s"
    using assms by (auto simp: route_create_api_key_def split: prod.splits sum.splits)
  then obtain tbl where "key_create env n now t u (py_strip name) scopes None (ac_keys st0) = Inr ((row, plain), tbl)" "ac_keys s = tbl"
    using d by (auto simp: create_api_key_def split: if_splits sum.splits prod.splits)
  with made_key s(2) show ?thesis by metis
qed

lemma foreign_key_unusable:
  assumes "keys_typed ks" "has_key t (ae_sha env plain) ks" "t \<noteq> default_tenant"
  shows "validate_key env now default_tenant plain ks = (Inr None, ks)"
proof -
  have "filter (usable_key now default_tenant (ae_sha env plain)) ks = []"
  proof (rule ccontr)
    assume "filter (usable_key now default_tenant (ae_sha env plain)) ks \<noteq> []"
    then obtain r where r: "r \<in> set ks" "ak_key_hash r = ae_sha env plain" "ak_tenant_id r = default_tenant"
      by (auto simp: filter_empty_conv usable_key_def)
    obtain r' where "r' \<in> set ks" "ak_key_hash r' = ae_sha env plain" "ak_tenant_id r' = t" using assms(2) by (auto simp: has_key_def)
    with r assms(1) have "r = r'" by (auto simp: keys_typed_def distinct_map inj_on_def)
    with r assms(3) \<open>ak_tenant_id r' = t\<close> show False by simp
  qed
  then show ?thesis by (simp add: validate_key_def scalar_one_or_none_def)
qed

text \<open>A key that any tenant but \<^verbatim>\<open>default\<close> creates never authenticates a request, whatever happens to the accounts afterwards: the
  middleware looks keys up in the tenant \<^verbatim>\<open>default\<close>.\<close>

theorem api_keys_only_default:
  assumes "tables_typed st" "tenant \<noteq> default_tenant"
    and "route_create_api_key (he_accounts env) t0 u tenant name scopes st = (Inr (row, plain), st')"
    and "wo_accounts w = account_history (he_accounts env) h st'"
    and "he_database env" "\<not> is_public_path (he_environ env) (hr_path rq)" "fst (ensure_token_manager env w) = Inr tm"
    and "bearer_token rq = Some plain"
  shows "fst (authentication env app rq w) = Inr unauthorized"
proof -
  have "st' = account_step (he_accounts env) t0 (CallCreateKey u tenant name scopes) st" using assms(3) by simp
  then have "wo_accounts w = account_history (he_accounts env) ((t0, CallCreateKey u tenant name scopes) # h) st"
    using assms(4) by (simp add: account_history_def)
  with assms(1) have "keys_typed (ac_keys (wo_accounts w))" using typed_history by (metis tables_typed_def)
  moreover have "has_key tenant (ae_sha (he_accounts env) plain) (ac_keys (wo_accounts w))"
    using created_key[OF assms(3)] history_has_key assms(4) by metis
  ultimately have none: "validate_key (he_accounts env) (he_now env) default_tenant plain (ac_keys (wo_accounts w)) = (Inr None, ac_keys (wo_accounts w))"
    using assms(2) by (rule foreign_key_unusable)
  have "ensure_token_manager env w = (Inr tm, w\<lparr>wo_manager := Some tm\<rparr>)"
    using ensured[of env w tm] assms(7) by (cases "ensure_token_manager env w") auto
  with assms(5,6,8) none created_key[OF assms(3)] show ?thesis
    by (simp add: authentication_def authenticate_api_key_def)
qed

subsection \<open>Licenses\<close>

text \<open>What the license gate of a deployment lets through depends on the tier written in the license file alone: any document that
  parses and has not expired opens the gated paths of its tier, whatever its signature, and every other request passes.\<close>

theorem license_gate_exact:
  assumes "wo_license w = Some (init_license_manager parse ed25519 now file)"
  shows "license app rq w =
    (if \<exists>(prefix, f)\<in>set gated_endpoints. starts_with prefix (hr_path rq) \<and>
          (case Option.bind file parse of None \<Rightarrow> True | Some lf \<Rightarrow> lf_expires_at lf < now \<or> lf_tier lf \<noteq> ENTERPRISE)
     then (Inr (json_response 402 []), w) else app rq w)"
proof -
  let ?lm = "init_license_manager parse ed25519 now file"
  let ?closed = "case Option.bind file parse of None \<Rightarrow> True | Some lf \<Rightarrow> lf_expires_at lf < now \<or> lf_tier lf \<noteq> ENTERPRISE"
  have tier: "lm_effective_tier ?lm = (case Option.bind file parse of None \<Rightarrow> COMMUNITY | Some lf \<Rightarrow> if lf_expires_at lf < now then COMMUNITY else lf_tier lf)"
    by (auto simp: init_license_manager_def load_license_from_string_def verify_signature_def new_license_manager_def split: option.splits)
  have gated: "\<forall>(prefix, f)\<in>set gated_endpoints. f \<in> enterprise_features - team_features \<and> f \<notin> community_features"
    by (simp add: gated_endpoints_def feature_sets)
  have check: "check_entitlement ?lm f \<longleftrightarrow> \<not> ?closed" if "f \<in> enterprise_features - team_features \<and> f \<notin> community_features" for f
    unfolding check_entitlement_def is_feature_enabled_def tier using that
    by (cases "Option.bind file parse"; cases "lf_tier (the (Option.bind file parse))") auto
  show ?thesis
  proof (cases "find (\<lambda>(prefix, _). starts_with prefix (hr_path rq)) gated_endpoints")
    case None
    then have "\<forall>(prefix, _)\<in>set gated_endpoints. \<not> starts_with prefix (hr_path rq)" by (auto simp: find_None_iff)
    with None assms show ?thesis by (auto simp: license_def)
  next
    case (Some g)
    obtain prefix f where g: "g = (prefix, f)" by (cases g)
    have m: "(prefix, f) \<in> set gated_endpoints" "starts_with prefix (hr_path rq)"
      using Some g by (auto simp: find_Some_iff in_set_conv_nth)
    with gated check have "check_entitlement ?lm f \<longleftrightarrow> \<not> ?closed" by fast
    with assms Some g m show ?thesis by (auto simp: license_def)
  qed
qed

subsection \<open>A deployment\<close>

text \<open>JWT mode, the in-process limiter with one request a minute, and a CORS middleware that lets everything through.\<close>

definition demo_environ :: "string \<Rightarrow> string option" where
  "demo_environ name = (if name = ''AUTH_MODE'' then Some ''jwt'' else None)"

definition demo_http_env :: "(unit, buckets, string \<Rightarrow> (string \<times> timestamp) option) http_env" where
  "demo_http_env =
     \<lparr>he_environ = demo_environ, he_jwt_secret = Some ''old'', he_dev_secret = ''d'', he_accounts = demo_account_env, he_now = 5,
      he_rev_redis = demo_rev_redis, he_redis_url = False, he_avail = all_up, he_revocation = True, he_database = True,
      he_hit = counter_hit window_seconds, he_reset = counter_time_until_reset window_seconds, he_rates = demo_rate_config,
      he_clock = (0, 0, 0), he_csrf_token = ''c'', he_trace_id = ''t'', he_span_id = ''s'', he_correlation_id = ''r'', he_api_url = None,
      he_max_body = 100, he_collector = True, he_prometheus = True, he_cors = id\<rparr>"

definition demo_world :: "token_manager option \<Rightarrow> (buckets, string \<Rightarrow> (string \<times> timestamp) option) world" where
  "demo_world tm =
     \<lparr>wo_scope = empty_scope, wo_limits = [(''ip:unknown:1'', [0])], wo_cache = new_rev_cache 30, wo_redis = Map.empty,
      wo_accounts = demo_accounts [demo_user ''t1'' ''u1'' ''a@b.c''], wo_manager = tm, wo_license = Some new_license_manager,
      wo_usage = [], wo_metrics = [], wo_log = [], wo_read = 0\<rparr>"

definition demo_manager :: token_manager where
  "demo_manager = \<lparr>tm_config = demo_token_config, tm_oidc_provider = None\<rparr>"

definition demo_get :: "(string \<times> string) list \<Rightarrow> http_request" where
  "demo_get headers =
     \<lparr>hr_method = ''OPTIONS'', hr_path = ''/api/v1/models'', hr_headers = headers, hr_cookies = [], hr_client = None, hr_chunks = []\<rparr>"

definition bearer_header :: "string \<Rightarrow> (string \<times> string) list" where
  "bearer_header token = [(''authorization'', ''Bearer '' @ token)]"

definition demo_app :: "nat \<Rightarrow> ('s, 'r) app" where
  "demo_app status rq w = (Inr (json_response status []), w)"

lemma demo_private: "\<not> is_public_path (he_environ demo_http_env) (hr_path (demo_get headers))"
proof -
  have "\<not> is_dev demo_environ" by (simp add: is_dev_def environ_or_def demo_environ_def opt_or_def) code_simp
  then show ?thesis
    by (simp add: is_public_path_def build_public_paths_def build_public_prefixes_def demo_http_env_def demo_get_def open_paths_def)
qed

lemma demo_managed: "fst (ensure_token_manager env (demo_world (Some tm))) = Inr tm"
  by (simp add: ensure_token_manager_def demo_world_def)

lemma split_bearer:
  assumes "token \<noteq> []" "\<not> is_space (hd token)"
  shows "bearer_token (demo_get (bearer_header token)) = Some token"
proof -
  have chars: "is_space CHR '' ''" "\<forall>c\<in>set ''Bearer''. \<not> is_space c" by code_simp+
  then have take: "takeWhile (\<lambda>c. \<not> is_space c) (''Bearer'' @ CHR '' '' # token) = ''Bearer''"
    and drop: "dropWhile (\<lambda>c. \<not> is_space c) (''Bearer'' @ CHR '' '' # token) = CHR '' '' # token"
    and start: "dropWhile is_space (''Bearer'' @ CHR '' '' # token) = ''Bearer'' @ CHR '' '' # token"
    by (auto simp: takeWhile_append1 dropWhile_append1)
  have rest: "dropWhile is_space token = token" using assms by (cases token) auto
  have "split_once (''Bearer'' @ CHR '' '' # token) = [''Bearer'', token]"
    unfolding split_once_def start take drop by (simp add: Let_def chars rest assms(1))
  moreover have "py_lower ''Bearer'' = ''bearer''" by code_simp
  ultimately show ?thesis
    by (simp add: bearer_token_def header_def demo_get_def bearer_header_def opt_or_def)
qed

lemma demo_anonymous: "bearer_token (demo_get []) = None"
  by (simp add: bearer_token_def header_def demo_get_def opt_or_def split_once_def)

theorem app_sees_only_admitted_witness:
  "serve demo_http_env (demo_app 200) (demo_get []) (demo_world (Some demo_manager)) =
   serve demo_http_env (demo_app 500) (demo_get []) (demo_world (Some demo_manager))"
proof (rule app_sees_only_admitted)
  show "cors_transparent (he_cors demo_http_env)" by (simp add: cors_transparent_def demo_http_env_def)
  show "\<forall>rq' w'. may_reach demo_http_env (demo_get []) (demo_world (Some demo_manager)) rq' w' \<longrightarrow> demo_app 200 rq' w' = demo_app 500 rq' w'"
    by (simp add: may_reach_def demo_private by_token_def by_key_def demo_anonymous)
qed

theorem anonymous_requests_stop_outside_witness:
  "outer_answer [] (serve demo_http_env (demo_app 200) (demo_get []) (demo_world (Some demo_manager)))"
  using anonymous_requests_stop_outside[OF demo_anonymous demo_private demo_managed, where app = "demo_app 200"]
  by (simp add: demo_world_def)

lemma demo_address:
  "address_view (demo_get headers) = \<lparr>rq_tenant_id = None, rq_host = None, rq_path = ''/api/v1/models''\<rparr>"
  "address_key (demo_get headers) = ''ip:unknown''"
  by (simp_all add: address_view_def address_key_def demo_get_def)

lemma demo_rate: "limit_for_path (he_rates demo_http_env) ''/api/v1/models'' = 1" "effective_burst_limit (he_rates demo_http_env) 1 = 1"
  by (simp_all add: demo_http_env_def limit_for_path_def demo_rate_config_def effective_burst_limit_def py_trunc_def)

theorem limits_count_addresses_witness:
  "\<exists>r. fst (serve demo_http_env (demo_app 200) (demo_get (bearer_header ''x'')) (demo_world (Some demo_manager))) = Inr r \<and> hp_status r = 429"
proof -
  have m: "metered (he_rates demo_http_env) (address_view (demo_get (bearer_header ''x'')))"
    by (simp add: metered_def demo_address demo_rate) (simp add: demo_http_env_def demo_rate_config_def)
  have one: "int_string 1 = ''1''" by code_simp
  have path: "hr_path (demo_get (bearer_header ''x'')) = ''/api/v1/models''" by (simp add: demo_get_def)
  have clock: "he_clock demo_http_env = (0, 0, 0)" by (simp add: demo_http_env_def)
  obtain s where hit: "he_hit demo_http_env (wo_limits (demo_world (Some demo_manager))) 0
      (address_key (demo_get (bearer_header ''x'')) @ '':'' @ int_string (limit_for_path (he_rates demo_http_env) (hr_path (demo_get (bearer_header ''x''))))) = (2, s)"
    by (simp add: demo_address path demo_rate one) (simp add: demo_http_env_def demo_world_def counter_hit_def prune_def window_seconds_def)
  show ?thesis
    using limits_count_addresses[OF m clock hit, where app = "demo_app 200"] by (simp add: path demo_rate) blast
qed

lemma demo_token_reads: "token_laws demo_token_env demo_refresh_claims"
  by (rule demo_token_laws)

definition demo_quiet_env :: "(unit, buckets, string \<Rightarrow> (string \<times> timestamp) option) http_env" where
  "demo_quiet_env = demo_http_env\<lparr>he_revocation := False\<rparr>"

lemma demo_bearer:
  assumes "x \<noteq> []" "\<forall>c\<in>set x. \<not> is_space c" "hd x \<noteq> CHR ''b''"
  shows "bearer_token (demo_get (bearer_header x)) = Some x" "\<not> starts_with key_convention x"
proof -
  show "bearer_token (demo_get (bearer_header x)) = Some x" using assms by (intro split_bearer) auto
  show "\<not> starts_with key_convention x" using assms by (cases x) (auto simp: starts_with_def key_convention_def)
qed

lemma number_text_bearer: "number_text x \<noteq> [] \<and> (\<forall>c\<in>set (number_text x). \<not> is_space c) \<and> hd (number_text x) \<noteq> CHR ''b''"
proof -
  have digit: "\<not> is_space c \<and> c \<noteq> CHR ''b''" if "c \<in> set (nat_digits n)" for c n
  proof -
    from digits_no_space[OF that] obtain d :: nat where "d < 10" "c = char_of (48 + d)" by blast
    then have "(of_char c :: nat) = 48 + d" by (simp add: of_char_of)
    with \<open>d < 10\<close> show ?thesis by (auto simp: is_space_def Let_def)
  qed
  have "hd (nat_digits (to_nat x)) \<in> set (nat_digits (to_nat x))" by (simp add: nat_digits_ne)
  with digit show ?thesis unfolding number_text_def using nat_digits_ne by blast
qed

theorem refresh_token_opens_api_witness:
  "\<exists>w'. authentication demo_quiet_env (demo_app 200) (demo_get (bearer_header demo_refresh_token)) (demo_world (Some demo_manager)) =
       demo_app 200 (demo_get (bearer_header demo_refresh_token)) w' \<and> sc_tenant_id (wo_scope w') = Some ''t1'' \<and>
     require_permission READ_PLANS (guard_view (wo_scope w')) = Inr VIEWER"
proof -
  let ?env = "demo_quiet_env" and ?rq = "demo_get (bearer_header demo_refresh_token)" and ?w = "demo_world (Some demo_manager)"
  have acc: "ae_token (he_accounts ?env) = demo_token_env" "he_now ?env = 5" "tm_config demo_manager = demo_token_config"
    by (simp_all add: demo_quiet_env_def demo_http_env_def demo_account_env_def demo_manager_def)
  have gen: "generate_refresh_token (ae_token (he_accounts ?env)) (tm_config demo_manager) 0 ''j0'' ''u1'' ''t1'' = Inr demo_refresh_token"
    unfolding acc by (simp add: generate_refresh_token_def generate_token_def sign_token_def sign_jwt_token_def demo_refresh_token_def
        demo_refresh_claims_def demo_token_config_def)
  have now: "0 \<le> he_now ?env" "he_now ?env + microseconds_per_second \<le> 0 + min (cf_refresh_token_ttl_seconds (tm_config demo_manager))
      (cf_max_token_ttl_seconds (tm_config demo_manager)) * microseconds_per_second"
    unfolding acc by (simp_all add: demo_token_config_def microseconds_per_second_def)
  have closed: "\<not> is_public_path (he_environ ?env) (hr_path ?rq)" using demo_private by (simp add: demo_quiet_env_def)
  have digits: "demo_refresh_token = number_text (claims_tuple demo_refresh_claims, ''old'', ''HS256'')"
    by (simp add: demo_refresh_token_def demo_token_env_def)
  have tok: "bearer_token ?rq = Some demo_refresh_token" "\<not> starts_with key_convention demo_refresh_token"
    using demo_bearer[of demo_refresh_token] number_text_bearer unfolding digits by blast+
  have rev: "\<not> fst (token_revoked ?env ''j0'' ?w)" by (simp add: token_revoked_def demo_quiet_env_def)
  from refresh_token_opens_api[OF gen demo_token_laws[of _, folded acc(1)] now closed demo_managed tok rev, where app = "demo_app 200" and p = READ_PLANS]
  show ?thesis by (auto simp: viewer_perms_def)
qed

definition no_environ :: "string \<Rightarrow> string option" where
  "no_environ name = None"

definition demo_dev_env :: "(unit, buckets, string \<Rightarrow> (string \<times> timestamp) option) http_env" where
  "demo_dev_env = demo_http_env\<lparr>he_environ := no_environ, he_jwt_secret := None\<rparr>"

definition dev_config :: "string \<Rightarrow> token_config" where
  "dev_config s = projr (build_token_config no_environ None s)"

lemma dev_config: "build_token_config (he_environ demo_dev_env) None s = Inr (dev_config s)"
proof -
  have mode: "py_lower ''development'' = ''development''" by code_simp
  have "\<exists>c. build_token_config no_environ None s = Inr c"
    by (simp add: build_token_config_def environ_int_def environ_or_def no_environ_def opt_or_def mode auth_mode_of_def Let_def)
  then show ?thesis by (auto simp: dev_config_def demo_dev_env_def)
qed

theorem unset_secret_refuses_own_tokens_witness:
  "\<exists>tok. generate_token demo_token_env (dev_config ''a'') 0 ''j'' ''u1'' ''t1'' None None user_kind None = Inr tok \<and>
     fst (authentication demo_dev_env (demo_app 200) (demo_get (bearer_header tok))
       (demo_world (Some \<lparr>tm_config = dev_config ''b'', tm_oidc_provider = None\<rparr>))) = Inr unauthorized"
proof -
  let ?c = "issued_claims (dev_config ''a'') 0 ''j'' ''u1'' ''t1'' None None user_kind None"
  let ?tok = "sign_dev_token demo_token_env (dev_config ''a'') ?c" and ?tm = "\<lparr>tm_config = dev_config ''b'', tm_oidc_provider = None\<rparr>"
  have env: "ae_token (he_accounts demo_dev_env) = demo_token_env" by (simp add: demo_dev_env_def demo_http_env_def demo_account_env_def)
  have lower: "py_lower ''development'' = ''development''" by code_simp
  have "cf_auth_mode (dev_config ''a'') = MODE_DEVELOPMENT"
    by (simp add: dev_config_def build_token_config_def environ_int_def environ_or_def no_environ_def opt_or_def lower auth_mode_of_def Let_def)
  then have gen: "generate_token (ae_token (he_accounts demo_dev_env)) (dev_config ''a'') 0 ''j'' ''u1'' ''t1'' None None user_kind None = Inr ?tok"
    unfolding env by (simp add: generate_token_def sign_token_def)
  have "p \<noteq> q \<Longrightarrow> number_text (p, x) \<noteq> number_text (q, x)" for p q x :: string
    by (metis option.inject prod.inject read_number_text)
  then have mac: "\<forall>p. te_hmac (ae_token (he_accounts demo_dev_env)) (''dev-'' @ ''a'') p \<noteq> te_hmac (ae_token (he_accounts demo_dev_env)) (''dev-'' @ ''b'') p"
    unfolding env by (simp add: demo_token_env_def)
  have head: "?tok = CHR ''b'' # drop 1 ?tok" "hd ?tok = CHR ''b''" by (simp_all add: sign_dev_token_def Let_def dev_prefix_def)
  have "\<not> is_space CHR ''b''" by code_simp
  then have bearer: "bearer_token (demo_get (bearer_header ?tok)) = Some ?tok" using head by (intro split_bearer) auto
  have closed: "\<not> is_public_path (he_environ demo_dev_env) (hr_path (demo_get (bearer_header ?tok)))"
  proof -
    have "starts_with ''/docs'' ''/api/v1/models'' = False" "starts_with ''/redoc'' ''/api/v1/models'' = False" by code_simp+
    then show ?thesis by (simp add: is_public_path_def build_public_paths_def build_public_prefixes_def demo_get_def open_paths_def)
  qed
  have "wo_manager (demo_world (Some ?tm)) = Some ?tm" by (simp add: demo_world_def)
  from unset_secret_refuses_own_tokens[OF dev_config _ gen demo_token_laws[of _, folded env] mac closed this bearer, where app = "demo_app 200"]
  show ?thesis using gen unfolding env by (auto simp: dev_config)
qed

theorem api_keys_only_default_witness:
  "\<exists>row st'. route_create_api_key demo_account_env 1 ''u1'' ''t1'' ''ci'' None (demo_accounts [demo_user ''t1'' ''u1'' ''a@b.c'']) = (Inr (row, ''bmkey.i''), st') \<and>
     fst (authentication demo_http_env (demo_app 200) (demo_get (bearer_header ''bmkey.i'')) ((demo_world (Some demo_manager))\<lparr>wo_accounts := st'\<rparr>)) = Inr unauthorized"
proof -
  let ?st = "demo_accounts [demo_user ''t1'' ''u1'' ''a@b.c'']"
  have acc: "he_accounts demo_http_env = demo_account_env" "he_database demo_http_env" by (simp_all add: demo_http_env_def)
  have email: "normal_email ''a@b.c'' = ''a@b.c''" by code_simp
  have typed: "tables_typed ?st"
    by (simp add: tables_typed_def users_typed_def keys_typed_def demo_accounts_def demo_user_def email)
  have strip: "py_strip ''ci'' = ''ci''" by code_simp
  have "\<exists>row st'. route_create_api_key demo_account_env 1 ''u1'' ''t1'' ''ci'' None ?st = (Inr (row, ''bmkey.i''), st')"
    by (simp add: route_create_api_key_def create_api_key_def strip draw_def key_create_def generate_key_def demo_account_env_def demo_accounts_def
        key_convention_def Let_def)
  then obtain row st' where c: "route_create_api_key demo_account_env 1 ''u1'' ''t1'' ''ci'' None ?st = (Inr (row, ''bmkey.i''), st')" by blast
  let ?w = "(demo_world (Some demo_manager))\<lparr>wo_accounts := st'\<rparr>"
  have hist: "wo_accounts ?w = account_history (he_accounts demo_http_env) [] st'" by (simp add: account_history_def)
  have man: "fst (ensure_token_manager demo_http_env ?w) = Inr demo_manager" by (simp add: ensure_token_manager_def demo_world_def)
  have "\<not> is_space CHR ''b''" by code_simp
  then have bearer: "bearer_token (demo_get (bearer_header ''bmkey.i'')) = Some ''bmkey.i''" by (intro split_bearer) simp_all
  have other: "''t1'' \<noteq> default_tenant" by (simp add: default_tenant_def)
  from api_keys_only_default[OF typed other c[folded acc(1)] hist acc(2) demo_private man bearer, where app = "demo_app 200"] c
  show ?thesis by blast
qed

definition forged_manager :: license_manager where
  "forged_manager =
     init_license_manager (\<lambda>_. Some (demo_license\<lparr>lf_tier := ENTERPRISE\<rparr>)) (\<lambda>_ _ _. False) 50 (Some [(''signature'', JStr ''forged'')])"

definition demo_audit_request :: http_request where
  "demo_audit_request = (demo_get [])\<lparr>hr_path := ''/api/v1/audit''\<rparr>"

theorem license_gate_exact_witness:
  "license (demo_app 200) demo_audit_request ((demo_world None)\<lparr>wo_license := Some forged_manager\<rparr>) =
     demo_app 200 demo_audit_request ((demo_world None)\<lparr>wo_license := Some forged_manager\<rparr>)"
proof -
  let ?w = "(demo_world None)\<lparr>wo_license := Some forged_manager\<rparr>"
  have w: "wo_license ?w = Some (init_license_manager (\<lambda>_. Some (demo_license\<lparr>lf_tier := ENTERPRISE\<rparr>)) (\<lambda>_ _ _. False) 50
      (Some [(''signature'', JStr ''forged'')]))"
    by (simp add: forged_manager_def)
  have "lf_expires_at (demo_license\<lparr>lf_tier := ENTERPRISE\<rparr>) = 100" by (simp add: demo_license_def)
  with license_gate_exact[OF w] show ?thesis by simp
qed

end
