(* ===== verification/Metering.thy ===== *)
theory Metering
  imports Accounts
begin

text \<open>
  Usage and spending: the collector of \<^verbatim>\<open>core_engine/core_engine/metering/collector.py\<close> with its sinks, the monthly quotas of
  \<^verbatim>\<open>api/api/services/quota_service.py\<close> over the usage table, and the budget guard of \<^verbatim>\<open>ai_engine/ai_engine/engines/budget_guard.py\<close>
  with its in-memory log of calls and the client that calls it. Amounts are rationals, instants microseconds.
\<close>

subsection \<open>Days and months in UTC\<close>

definition day_us :: int where "day_us = 86400 * microseconds_per_second"

text \<open>\<^verbatim>\<open>now.replace(hour=0, minute=0, second=0, microsecond=0)\<close>\<close>

definition day_start :: "timestamp \<Rightarrow> timestamp" where
  "day_start t = t div day_us * day_us"

text \<open>Month \<open>i\<close> of the 400 years of the Gregorian cycle that starts with 2001, and the first day of the month that holds day \<open>d\<close>.\<close>

definition leap_year :: "nat \<Rightarrow> bool" where
  "leap_year y \<longleftrightarrow> y mod 4 = 0 \<and> (y mod 100 \<noteq> 0 \<or> y mod 400 = 0)"

definition month_length :: "nat \<Rightarrow> int" where
  "month_length i =
     (let m = i mod 12 + 1
      in if m = 2 then (if leap_year (i div 12 + 1) then 29 else 28) else if m \<in> {4, 6, 9, 11} then 30 else 31)"

fun walk_months :: "nat \<Rightarrow> nat \<Rightarrow> int \<Rightarrow> int \<Rightarrow> int" where
  "walk_months 0 i s d = s"
| "walk_months (Suc k) i s d = (if d < s + month_length i then s else walk_months k (Suc i) (s + month_length i) d)"

definition cycle_days :: int where "cycle_days = 146097"

text \<open>Days from 2001-01-01, which is day 11323 of the epoch.\<close>

definition month_start_day :: "int \<Rightarrow> int" where
  "month_start_day d = d div cycle_days * cycle_days + walk_months 4799 0 0 (d mod cycle_days)"

definition month_start :: "timestamp \<Rightarrow> timestamp" where
  "month_start t = (month_start_day (t div day_us - 11323) + 11323) * day_us"

subsection \<open>Usage events and the collector\<close>

datatype usage_event_type = PLAN_RUN | PLAN_APPLY | AI_CALL | MODEL_LOADED | BACKFILL_RUN | API_REQUEST

fun event_value :: "usage_event_type \<Rightarrow> string" where
  "event_value PLAN_RUN = ''plan_run''"
| "event_value PLAN_APPLY = ''plan_apply''"
| "event_value AI_CALL = ''ai_call''"
| "event_value MODEL_LOADED = ''model_loaded''"
| "event_value BACKFILL_RUN = ''backfill_run''"
| "event_value API_REQUEST = ''api_request''"

record usage_event =
  ev_event_id :: string
  ev_tenant_id :: string
  ev_event_type :: usage_event_type
  ev_timestamp :: timestamp
  ev_quantity :: int

record usage_row =
  ur_event_id :: string
  ur_tenant_id :: string
  ur_event_type :: string
  ur_quantity :: int
  ur_created_at :: timestamp

text \<open>A sink takes a batch; it may raise.\<close>

type_synonym 's sink = "usage_event list \<Rightarrow> 's \<Rightarrow> bool \<times> 's"

definition row_of_event :: "usage_event \<Rightarrow> usage_row" where
  "row_of_event e =
     \<lparr>ur_event_id = ev_event_id e, ur_tenant_id = ev_tenant_id e, ur_event_type = event_value (ev_event_type e),
      ur_quantity = ev_quantity e, ur_created_at = ev_timestamp e\<rparr>"

text \<open>
  The database: the table and the tasks of the event loop that hold a batch which is not committed yet. \<^verbatim>\<open>_async_flush\<close> never raises: it commits
  a batch whole, and a batch that fails, for lack of a database or for a known identifier, is logged and lost.
\<close>

record usage_db =
  ud_rows :: "usage_row list"
  ud_tasks :: "usage_event list list"

definition async_flush :: "bool \<Rightarrow> usage_event list \<Rightarrow> usage_row list \<Rightarrow> usage_row list" where
  "async_flush up events rows =
     (let new = map row_of_event events in if up \<and> distinct (map ur_event_id (rows @ new)) then rows @ new else rows)"

text \<open>Where an event loop is running (\<open>loop\<close>: the routes) the sink only creates a task; elsewhere (the flush thread) it runs the flush.\<close>

definition database_sink :: "bool \<Rightarrow> bool \<Rightarrow> usage_db sink" where
  "database_sink loop up events db =
     (False,
      if events = [] then db
      else if loop then db\<lparr>ud_tasks := ud_tasks db @ [events]\<rparr>
      else db\<lparr>ud_rows := async_flush up events (ud_rows db)\<rparr>)"

text \<open>The loop comes to the \<open>i\<close>th pending task.\<close>

definition run_task :: "bool \<Rightarrow> nat \<Rightarrow> usage_db \<Rightarrow> usage_db" where
  "run_task up i db =
     (if i < length (ud_tasks db)
      then db\<lparr>ud_rows := async_flush up (ud_tasks db ! i) (ud_rows db), ud_tasks := take i (ud_tasks db) @ drop (Suc i) (ud_tasks db)\<rparr>
      else db)"

text \<open>The file sink appends one line for each event; it raises when the file cannot be opened.\<close>

definition file_sink :: "(usage_event \<Rightarrow> string) \<Rightarrow> bool \<Rightarrow> string list sink" where
  "file_sink dump writable events lines =
     (if events = [] then (False, lines) else if writable then (False, lines @ map dump events) else (True, lines))"

record collector =
  co_buffer :: "usage_event list"
  co_failures :: nat
  co_open_until :: rat

record collector_config =
  cc_max_buffer_size :: nat
  cc_threshold :: nat
  cc_backoff :: rat

definition default_collector_config :: collector_config where
  "default_collector_config = \<lparr>cc_max_buffer_size = 1000, cc_threshold = 3, cc_backoff = 60\<rparr>"

definition api_collector_config :: collector_config where
  "api_collector_config = default_collector_config\<lparr>cc_max_buffer_size := 500\<rparr>"

definition new_collector :: collector where
  "new_collector = \<lparr>co_buffer = [], co_failures = 0, co_open_until = 0\<rparr>"

text \<open>\<^verbatim>\<open>max(1, int(n * 0.20))\<close>\<close>

definition keep_count :: "nat \<Rightarrow> nat" where
  "keep_count n = max 1 (n div 5)"

definition flush_locked :: "collector_config \<Rightarrow> 's sink \<Rightarrow> rat \<Rightarrow> rat \<Rightarrow> collector \<Rightarrow> 's \<Rightarrow> nat \<times> collector \<times> 's" where
  "flush_locked cfg sink now later c s =
     (if co_buffer c = [] then (0, c, s)
      else if co_open_until c > now then (0, c\<lparr>co_buffer := []\<rparr>, s)
      else
        let batch = co_buffer c;
            (raised, s) = sink batch s;
            n = co_failures c + 1
        in (length batch,
            if \<not> raised then c\<lparr>co_buffer := [], co_failures := 0\<rparr>
            else if n \<ge> cc_threshold cfg
            then c\<lparr>co_buffer := drop (length batch - keep_count (length batch)) batch, co_failures := n,
                   co_open_until := later + cc_backoff cfg\<rparr>
            else c\<lparr>co_buffer := [], co_failures := n\<rparr>, s))"

definition record_usage_event :: "collector_config \<Rightarrow> 's sink \<Rightarrow> rat \<Rightarrow> rat \<Rightarrow> usage_event \<Rightarrow> collector \<Rightarrow> 's \<Rightarrow> collector \<times> 's" where
  "record_usage_event cfg sink now later e c s =
     (let c = c\<lparr>co_buffer := co_buffer c @ [e]\<rparr>
      in if length (co_buffer c) \<ge> cc_max_buffer_size cfg then snd (flush_locked cfg sink now later c s) else (c, s))"

definition get_usage_summary :: "string option \<Rightarrow> collector \<Rightarrow> (string \<times> int) list" where
  "get_usage_summary tenant_id c =
     foldl (\<lambda>summary e.
         if opt_or tenant_id [] \<noteq> [] \<and> Some (ev_tenant_id e) \<noteq> tenant_id then summary
         else (let key = event_value (ev_event_type e)
               in dict_set summary key ((case map_of summary key of None \<Rightarrow> 0 | Some n \<Rightarrow> n) + ev_quantity e)))
       [] (co_buffer c)"

subsection \<open>Quotas\<close>

definition get_monthly_event_count :: "timestamp \<Rightarrow> string \<Rightarrow> string \<Rightarrow> usage_row list \<Rightarrow> int" where
  "get_monthly_event_count now tenant_id event_type rows =
     sum_list (map ur_quantity (filter (\<lambda>r. ur_tenant_id r = tenant_id \<and> ur_event_type r = event_type \<and> ur_created_at r \<ge> month_start now) rows))"

definition get_current_usage :: "timestamp \<Rightarrow> string \<Rightarrow> usage_row list \<Rightarrow> (string \<times> int) list" where
  "get_current_usage now tenant_id rows =
     map (\<lambda>t. (t, get_monthly_event_count now tenant_id t rows))
       (remdups (map ur_event_type (filter (\<lambda>r. ur_tenant_id r = tenant_id \<and> ur_created_at r \<ge> month_start now) rows)))"

datatype quota_field = PlanQuota | AiQuota | ApiQuota

definition tier_quota :: "string \<Rightarrow> quota_field \<Rightarrow> int option" where
  "tier_quota tier f =
     (if tier = ''enterprise'' then None
      else if tier = ''team'' then Some (case f of PlanQuota \<Rightarrow> 1000 | AiQuota \<Rightarrow> 5000 | ApiQuota \<Rightarrow> 100000)
      else Some (case f of PlanQuota \<Rightarrow> 25 | AiQuota \<Rightarrow> 0 | ApiQuota \<Rightarrow> 10000))"

fun explicit_quota :: "quota_field \<Rightarrow> tenant_row \<Rightarrow> int option" where
  "explicit_quota PlanQuota r = tn_plan_quota_monthly r"
| "explicit_quota AiQuota r = tn_ai_quota_monthly r"
| "explicit_quota ApiQuota r = tn_api_quota_monthly r"

definition get_effective_quota :: "string \<Rightarrow> account_state \<Rightarrow> quota_field \<Rightarrow> int option" where
  "get_effective_quota tenant_id st f =
     (case Option.bind (tenant_get tenant_id (ac_tenants st)) (explicit_quota f) of
        Some q \<Rightarrow> Some q
      | None \<Rightarrow> tier_quota (plan_tier tenant_id st) f)"

definition quota_field_of :: "string \<Rightarrow> quota_field option" where
  "quota_field_of event_type =
     (if event_type = ''plan_run'' then Some PlanQuota else if event_type = ''ai_call'' then Some AiQuota
      else if event_type = ''api_request'' then Some ApiQuota else None)"

text \<open>The three checks and the reservation share this body; only the last is asked by the text of an event type, and may raise.\<close>

definition quota_allows :: "timestamp \<Rightarrow> string \<Rightarrow> account_state \<Rightarrow> usage_row list \<Rightarrow> string \<Rightarrow> quota_field \<Rightarrow> bool" where
  "quota_allows now tenant_id st rows event_type f =
     (case get_effective_quota tenant_id st f of
        None \<Rightarrow> True
      | Some limit \<Rightarrow> \<not> get_monthly_event_count now tenant_id event_type rows \<ge> limit)"

definition check_plan_quota :: "timestamp \<Rightarrow> string \<Rightarrow> account_state \<Rightarrow> usage_row list \<Rightarrow> bool" where
  "check_plan_quota now tenant_id st rows = quota_allows now tenant_id st rows ''plan_run'' PlanQuota"

definition check_ai_quota :: "timestamp \<Rightarrow> string \<Rightarrow> account_state \<Rightarrow> usage_row list \<Rightarrow> bool" where
  "check_ai_quota now tenant_id st rows = quota_allows now tenant_id st rows ''ai_call'' AiQuota"

definition check_api_quota :: "timestamp \<Rightarrow> string \<Rightarrow> account_state \<Rightarrow> usage_row list \<Rightarrow> bool" where
  "check_api_quota now tenant_id st rows = quota_allows now tenant_id st rows ''api_request'' ApiQuota"

definition check_and_reserve :: "timestamp \<Rightarrow> string \<Rightarrow> account_state \<Rightarrow> usage_row list \<Rightarrow> string \<Rightarrow> bool option" where
  "check_and_reserve now tenant_id st rows event_type =
     map_option (quota_allows now tenant_id st rows event_type) (quota_field_of event_type)"

definition get_quota_remaining_and_limit ::
  "timestamp \<Rightarrow> string \<Rightarrow> account_state \<Rightarrow> usage_row list \<Rightarrow> string \<Rightarrow> (int \<times> int) option" where
  "get_quota_remaining_and_limit now tenant_id st rows event_type =
     Option.bind (quota_field_of event_type) (\<lambda>f. map_option (\<lambda>limit. (max 0 (limit - get_monthly_event_count now tenant_id event_type rows), limit))
       (get_effective_quota tenant_id st f))"

subsection \<open>The log of calls to the language model\<close>

record llm_row =
  lg_tenant_id :: string
  lg_call_type :: string
  lg_model_id :: string
  lg_input_tokens :: int
  lg_output_tokens :: int
  lg_cost :: rat
  lg_latency_ms :: int
  lg_success :: bool
  lg_error_type :: "string option"
  lg_created_at :: timestamp

definition get_period_cost :: "string \<Rightarrow> timestamp \<Rightarrow> llm_row list \<Rightarrow> rat" where
  "get_period_cost tenant_id since rows =
     sum_list (map lg_cost (filter (\<lambda>r. lg_tenant_id r = tenant_id \<and> lg_created_at r \<ge> since) rows))"

definition get_daily_cost :: "timestamp \<Rightarrow> string \<Rightarrow> llm_row list \<Rightarrow> rat" where
  "get_daily_cost now tenant_id rows = get_period_cost tenant_id (day_start now) rows"

definition get_monthly_cost :: "timestamp \<Rightarrow> string \<Rightarrow> llm_row list \<Rightarrow> rat" where
  "get_monthly_cost now tenant_id rows = get_period_cost tenant_id (month_start now) rows"

text \<open>The check of the API: the daily budget first.\<close>

definition check_llm_budget :: "timestamp \<Rightarrow> string \<Rightarrow> tenant_row list \<Rightarrow> llm_row list \<Rightarrow> bool" where
  "check_llm_budget now tenant_id tenants rows =
     (case tenant_get tenant_id tenants of
        None \<Rightarrow> True
      | Some config \<Rightarrow>
          if (case tn_llm_daily_budget_usd config of None \<Rightarrow> False | Some b \<Rightarrow> get_daily_cost now tenant_id rows \<ge> b) then False
          else if (case tn_llm_monthly_budget_usd config of None \<Rightarrow> False | Some b \<Rightarrow> get_monthly_cost now tenant_id rows \<ge> b) then False
          else True)"

definition quota_percentage :: "int \<Rightarrow> int option \<Rightarrow> rat option" where
  "quota_percentage used limit = (case limit of None \<Rightarrow> None | Some l \<Rightarrow> if l = 0 then None else Some (py_round (of_int used / of_int l * 100) 1))"

record usage_vs_limits =
  uv_quotas :: "(string \<times> int \<times> int option \<times> rat option) list"
  uv_daily :: "rat \<times> rat option"
  uv_monthly :: "rat \<times> rat option"
  uv_seats :: "nat \<times> int option \<times> rat option"

definition get_usage_vs_limits :: "timestamp \<Rightarrow> string \<Rightarrow> account_state \<Rightarrow> usage_row list \<Rightarrow> llm_row list \<Rightarrow> usage_vs_limits" where
  "get_usage_vs_limits now tenant_id st rows calls =
     (let usage = get_current_usage now tenant_id rows;
          config = tenant_get tenant_id (ac_tenants st);
          quota = (\<lambda>event_type f.
            let used = (case map_of usage event_type of None \<Rightarrow> 0 | Some n \<Rightarrow> n); limit = get_effective_quota tenant_id st f
            in (event_type, used, limit, quota_percentage used limit));
          seats = count_by_tenant tenant_id (ac_users st); seat_limit = effective_seat_limit tenant_id st
      in \<lparr>uv_quotas = [quota ''plan_run'' PlanQuota, quota ''ai_call'' AiQuota, quota ''api_request'' ApiQuota],
          uv_daily = (py_round (get_daily_cost now tenant_id calls) 4, Option.bind config tn_llm_daily_budget_usd),
          uv_monthly = (py_round (get_monthly_cost now tenant_id calls) 4, Option.bind config tn_llm_monthly_budget_usd),
          uv_seats = (seats, seat_limit, quota_percentage (int seats) seat_limit)\<rparr>)"

subsection \<open>The budget guard\<close>

text \<open>The in-memory log keeps what is at most 31 days old; its guard has one tenant. \<open>later\<close> is the instant of the pruning.\<close>

definition prune_records :: "timestamp \<Rightarrow> llm_row list \<Rightarrow> llm_row list" where
  "prune_records now rows = filter (\<lambda>r. lg_created_at r \<ge> now - 31 * day_us) rows"

definition estimate_call_cost :: "int \<Rightarrow> int \<Rightarrow> rat" where
  "estimate_call_cost input_tokens output_tokens = of_int input_tokens * (3 / 1000000) + of_int output_tokens * (15 / 1000000)"

record budget_guard =
  bg_tenant_id :: string
  bg_daily_budget :: "rat option"
  bg_monthly_budget :: "rat option"

datatype budget_period = Daily | Monthly

datatype guard_error = BudgetExceededError budget_period rat rat | CallError string

definition has_budget :: "budget_guard \<Rightarrow> bool" where
  "has_budget g \<longleftrightarrow> bg_daily_budget g \<noteq> None \<or> bg_monthly_budget g \<noteq> None"

definition over :: "rat option \<Rightarrow> rat \<Rightarrow> bool" where
  "over budget spent = (case budget of None \<Rightarrow> False | Some b \<Rightarrow> spent \<ge> b)"

definition check_budget :: "budget_guard \<Rightarrow> timestamp \<Rightarrow> llm_row list \<Rightarrow> guard_error option" where
  "check_budget g now rows =
     (let daily = get_period_cost (bg_tenant_id g) (day_start now) rows; monthly = get_period_cost (bg_tenant_id g) (month_start now) rows
      in if over (bg_daily_budget g) daily then Some (BudgetExceededError Daily (the (bg_daily_budget g)) daily)
         else if over (bg_monthly_budget g) monthly then Some (BudgetExceededError Monthly (the (bg_monthly_budget g)) monthly)
         else None)"

definition record_usage ::
  "budget_guard \<Rightarrow> timestamp \<Rightarrow> string \<Rightarrow> string \<Rightarrow> int \<Rightarrow> int \<Rightarrow> int \<Rightarrow> bool \<Rightarrow> string option \<Rightarrow> llm_row list \<Rightarrow> rat \<times> llm_row list" where
  "record_usage g now call_type model_id input_tokens output_tokens latency_ms success error_type rows =
     (let cost = estimate_call_cost input_tokens output_tokens;
          row = \<lparr>lg_tenant_id = bg_tenant_id g, lg_call_type = call_type, lg_model_id = model_id, lg_input_tokens = input_tokens,
                 lg_output_tokens = output_tokens, lg_cost = cost, lg_latency_ms = latency_ms, lg_success = success,
                 lg_error_type = error_type, lg_created_at = now\<rparr>
      in (cost, prune_records now (rows @ [row])))"

text \<open>A call to the model: its token counts and latency, or the name of the exception.\<close>

type_synonym llm_outcome = "string + int \<times> int \<times> int"

definition guard_call ::
  "budget_guard \<Rightarrow> timestamp \<Rightarrow> timestamp \<Rightarrow> string \<Rightarrow> string \<Rightarrow> llm_outcome \<Rightarrow> llm_row list \<Rightarrow> (guard_error + rat) \<times> llm_row list" where
  "guard_call g now later call_type model_id outcome rows =
     (case check_budget g now rows of
        Some e \<Rightarrow> (Inl e, rows)
      | None \<Rightarrow>
          (case outcome of
             Inl err \<Rightarrow> (Inl (CallError err), snd (record_usage g later call_type model_id 0 0 0 False (Some err) rows))
           | Inr (input_tokens, output_tokens, latency_ms) \<Rightarrow>
               (let (cost, rows) = record_usage g later call_type model_id input_tokens output_tokens latency_ms True None rows
                in (Inr cost, rows))))"

record budget_status =
  bs_daily :: "rat option \<times> rat \<times> rat option"
  bs_monthly :: "rat option \<times> rat \<times> rat option"
  bs_exceeded :: bool

definition get_budget_status :: "budget_guard \<Rightarrow> timestamp \<Rightarrow> llm_row list \<Rightarrow> budget_status" where
  "get_budget_status g now rows =
     (let daily = get_period_cost (bg_tenant_id g) (day_start now) rows; monthly = get_period_cost (bg_tenant_id g) (month_start now) rows;
          remaining = (\<lambda>budget spent. map_option (\<lambda>b. py_round (max 0 (b - spent)) 6) budget)
      in \<lparr>bs_daily = (bg_daily_budget g, py_round daily 6, remaining (bg_daily_budget g) daily),
          bs_monthly = (bg_monthly_budget g, py_round monthly 6, remaining (bg_monthly_budget g) monthly),
          bs_exceeded = (over (bg_daily_budget g) daily \<or> over (bg_monthly_budget g) monthly)\<rparr>)"

text \<open>\<^verbatim>\<open>_call_llm\<close>: the guard is used when it has a budget.\<close>

definition call_llm ::
  "budget_guard option \<Rightarrow> timestamp \<Rightarrow> timestamp \<Rightarrow> string \<Rightarrow> string \<Rightarrow> string + (string \<times> int \<times> int \<times> int) \<Rightarrow> llm_row list \<Rightarrow>
   (guard_error + string) \<times> llm_row list" where
  "call_llm guard now later call_type model_id response rows =
     (let outcome = (case response of Inl err \<Rightarrow> Inl err | Inr (_, usage) \<Rightarrow> Inr usage);
          answer = (case response of Inl err \<Rightarrow> Inl (CallError err) | Inr (body, _) \<Rightarrow> Inr body)
      in (case guard of
            Some g \<Rightarrow>
              if has_budget g
              then (case guard_call g now later call_type model_id outcome rows of (Inl e, rows) \<Rightarrow> (Inl e, rows) | (Inr _, rows) \<Rightarrow> (answer, rows))
              else (answer, rows)
          | None \<Rightarrow> (answer, rows)))"

subsection \<open>Plans under the quota\<close>

text \<open>
  The route that generates plans, in its two parts: the check, and, after the generation, which waits and may fail, the metering of the
  run, with \<open>clock\<close> and \<open>clock'\<close> the readings of the monotonic clock. Other requests are served between the two.
\<close>

definition route_plan_check :: "string \<Rightarrow> account_state \<Rightarrow> timestamp \<Rightarrow> usage_db \<Rightarrow> bool" where
  "route_plan_check tenant_id st now db = check_plan_quota now tenant_id st (ud_rows db)"

definition plan_run :: "string \<Rightarrow> timestamp \<Rightarrow> string \<Rightarrow> usage_event" where
  "plan_run event_id now tenant_id =
     \<lparr>ev_event_id = event_id, ev_tenant_id = tenant_id, ev_event_type = PLAN_RUN, ev_timestamp = now, ev_quantity = 1\<rparr>"

definition route_plan_meter ::
  "collector_config \<Rightarrow> bool \<Rightarrow> rat \<Rightarrow> rat \<Rightarrow> string \<Rightarrow> timestamp \<Rightarrow> string \<Rightarrow> collector \<Rightarrow> usage_db \<Rightarrow> collector \<times> usage_db" where
  "route_plan_meter cfg up clock clock' event_id now tenant_id c db =
     record_usage_event cfg (database_sink True up) clock clock' (plan_run event_id now tenant_id) c db"

end
