(* ===== verification/Metering_Facts.thy ===== *)
theory Metering_Facts
  imports Metering "HOL-Library.Multiset"
begin

text \<open>
  What metering guarantees: events are delivered at most once, the plan quota is overrun by less than what is metered and not yet
  committed, and the budget guard overspends a period by less than one call.
\<close>

subsection \<open>Months\<close>

lemma month_length_bounds: "28 \<le> month_length i \<and> month_length i \<le> 31"
  by (simp add: month_length_def Let_def)

lemma walk_months_le: "s \<le> d \<Longrightarrow> s \<le> walk_months k i s d \<and> walk_months k i s d \<le> d"
proof (induction k i s d rule: walk_months.induct)
  case (2 k i s d)
  have "0 \<le> month_length i" using month_length_bounds[of i] by simp
  with 2 show ?case by (cases "d < s + month_length i") (simp, fastforce)
qed simp

lemma walk_months_mono: "s \<le> d \<Longrightarrow> d \<le> d' \<Longrightarrow> walk_months k i s d \<le> walk_months k i s d'"
proof (induction k i s d rule: walk_months.induct)
  case (2 k i s d)
  have "0 \<le> month_length i" using month_length_bounds[of i] by simp
  with 2 show ?case using walk_months_le[of s d' "Suc k" i] walk_months_le[of "s + month_length i" d' k "Suc i"]
    by (cases "d < s + month_length i"; cases "d' < s + month_length i") auto
qed simp

definition months_before :: "nat \<Rightarrow> int" where
  "months_before i = (\<Sum>j<i. month_length j)"

lemma month_length_in_year:
  assumes "m < 12"
  shows "month_length (12 * y + m) =
     (if m = 1 then (if leap_year (y + 1) then 29 else 28) else if m \<in> {3, 5, 8, 10} then 30 else 31)"
proof -
  have m: "(12 * y + m) mod 12 = m" and y: "(12 * y + m) div 12 = y" using assms by simp_all
  show ?thesis unfolding month_length_def Let_def m y by auto
qed

lemma months_before_Suc: "months_before (Suc i) = months_before i + month_length i"
  by (simp add: months_before_def)

lemma year_length: "months_before (12 * Suc y) = months_before (12 * y) + 365 + (if leap_year (y + 1) then 1 else 0)"
proof -
  have "12 * Suc y = Suc (Suc (Suc (Suc (Suc (Suc (Suc (Suc (Suc (Suc (Suc (Suc (12 * y))))))))))))" by simp
  then show ?thesis
    using month_length_in_year[of 0 y] month_length_in_year[of 1 y] month_length_in_year[of 2 y] month_length_in_year[of 3 y]
      month_length_in_year[of 4 y] month_length_in_year[of 5 y] month_length_in_year[of 6 y] month_length_in_year[of 7 y]
      month_length_in_year[of 8 y] month_length_in_year[of 9 y] month_length_in_year[of 10 y] month_length_in_year[of 11 y]
    by (simp add: months_before_Suc numeral_eq_Suc del: mult_Suc mult_Suc_right)
qed

lemma months_before_years: "months_before (12 * y) = 365 * int y + int (y div 4) - int (y div 100) + int (y div 400)"
proof (induction y)
  case (Suc y)
  have "Suc y mod 400 = 0 \<Longrightarrow> Suc y mod 100 = 0" and "Suc y mod 100 = 0 \<Longrightarrow> Suc y mod 4 = 0" by presburger+
  then have "int (Suc y div 4) - int (Suc y div 100) + int (Suc y div 400) =
      int (y div 4) - int (y div 100) + int (y div 400) + (if leap_year (Suc y) then 1 else 0)"
    unfolding leap_year_def div_Suc by (simp del: mod_Suc)
  with Suc show ?case unfolding year_length by simp
qed (simp add: months_before_def)

lemma walk_months_within:
  "months_before i \<le> d \<Longrightarrow> d < months_before (Suc (i + k)) \<Longrightarrow> d - 31 < walk_months k i (months_before i) d"
proof (induction k arbitrary: i)
  case 0
  then show ?case using month_length_bounds[of i] by (simp add: months_before_Suc)
next
  case (Suc k)
  then show ?case using month_length_bounds[of i] Suc.IH[of "Suc i"] by (auto simp: months_before_Suc)
qed

lemma month_start_day_bounds: "d - 31 < month_start_day d \<and> month_start_day d \<le> d"
proof -
  have r: "0 \<le> d mod cycle_days" "d mod cycle_days < cycle_days" by (simp_all add: cycle_days_def)
  have c: "months_before (12 * 400) = cycle_days" unfolding months_before_years by (simp add: cycle_days_def)
  have z: "months_before 0 = 0" by (simp add: months_before_def)
  have "d mod cycle_days - 31 < walk_months 4799 0 0 (d mod cycle_days)"
    using walk_months_within[of 0 "d mod cycle_days" 4799] r c z by simp
  moreover have "walk_months 4799 0 0 (d mod cycle_days) \<le> d mod cycle_days" using walk_months_le[OF r(1)] by simp
  ultimately show ?thesis using div_mult_mod_eq[of d cycle_days] unfolding month_start_day_def by linarith
qed

lemma month_start_day_mono: "d \<le> d' \<Longrightarrow> month_start_day d \<le> month_start_day d'"
proof -
  assume le: "d \<le> d'"
  have pos: "0 < cycle_days" by (simp add: cycle_days_def)
  have "d div cycle_days \<le> d' div cycle_days" using le pos by (simp add: zdiv_mono1)
  then consider "d div cycle_days = d' div cycle_days" | "d div cycle_days + 1 \<le> d' div cycle_days" by linarith
  then show ?thesis
  proof cases
    case 1
    then have "d mod cycle_days \<le> d' mod cycle_days"
      using le by (metis add_le_cancel_left div_mult_mod_eq)
    then show ?thesis unfolding month_start_day_def 1 using walk_months_mono pos by simp
  next
    case 2
    have "month_start_day d \<le> d" using month_start_day_bounds by blast
    also have "\<dots> \<le> (d div cycle_days + 1) * cycle_days"
      using div_mult_mod_eq[of d cycle_days] pos_mod_bound[OF pos, of d] unfolding distrib_right by linarith
    also have "\<dots> \<le> d' div cycle_days * cycle_days" using 2 pos by (simp add: mult_right_mono)
    also have "\<dots> \<le> month_start_day d'"
      unfolding month_start_day_def using walk_months_le[of 0 "d' mod cycle_days"] pos by simp
    finally show ?thesis .
  qed
qed

subsection \<open>Budget periods\<close>

text \<open>A budget period starts before its instants, never moves back, and is no longer than what the log keeps.\<close>

locale budget_window =
  fixes start :: "timestamp \<Rightarrow> timestamp"
  assumes start_le: "start t \<le> t"
    and start_mono: "t \<le> t' \<Longrightarrow> start t \<le> start t'"
    and start_recent: "t - 31 * day_us \<le> start t"

lemma day_us_pos: "0 < day_us"
  by (simp add: day_us_def microseconds_per_second_def)

interpretation daily: budget_window day_start
proof unfold_locales
  fix t t' :: timestamp
  show "day_start t \<le> t" using day_us_pos div_mult_mod_eq[of t day_us] by (simp add: day_start_def minus_mod_eq_div_mult[symmetric])
  show "t \<le> t' \<Longrightarrow> day_start t \<le> day_start t'" using day_us_pos by (simp add: day_start_def zdiv_mono1 mult_right_mono)
  show "t - 31 * day_us \<le> day_start t"
    using day_us_pos pos_mod_bound[OF day_us_pos, of t] unfolding day_start_def minus_mod_eq_div_mult[symmetric] by linarith
qed

interpretation monthly: budget_window month_start
proof unfold_locales
  fix t t' :: timestamp
  let ?d = "\<lambda>t. t div day_us - 11323"
  have dt: "(?d t + 11323) * day_us = day_start t" by (simp add: day_start_def)
  have "(month_start_day (?d t) + 11323) * day_us \<le> (?d t + 11323) * day_us"
    using month_start_day_bounds[of "?d t"] day_us_pos by (intro mult_right_mono) simp_all
  then show "month_start t \<le> t" using daily.start_le[of t] dt unfolding month_start_def by linarith
  show "t \<le> t' \<Longrightarrow> month_start t \<le> month_start t'"
    unfolding month_start_def using day_us_pos by (intro mult_right_mono add_right_mono month_start_day_mono) (simp_all add: zdiv_mono1)
  have "(?d t - 30 + 11323) * day_us \<le> (month_start_day (?d t) + 11323) * day_us"
    using month_start_day_bounds[of "?d t"] day_us_pos by (intro mult_right_mono) simp_all
  moreover have "t < day_start t + day_us"
    using pos_mod_bound[OF day_us_pos, of t] by (simp add: day_start_def minus_mod_eq_div_mult[symmetric])
  moreover have "(?d t - 30 + 11323) * day_us = day_start t - 30 * day_us"
    unfolding dt[symmetric] by (simp add: algebra_simps)
  ultimately show "t - 31 * day_us \<le> month_start t" unfolding month_start_def by linarith
qed

subsection \<open>Spending under the guard\<close>

text \<open>A run of guarded calls: instants of the check and of the record, and what the model answers. The ledger has what was spent.\<close>

type_synonym guarded_call = "timestamp \<times> timestamp \<times> llm_outcome"

definition guard_step ::
  "budget_guard \<Rightarrow> guarded_call \<Rightarrow> (timestamp \<times> rat) list \<times> llm_row list \<Rightarrow> (timestamp \<times> rat) list \<times> llm_row list" where
  "guard_step g c st =
     (case guard_call g (fst c) (fst (snd c)) ''llm'' ''model'' (snd (snd c)) (snd st) of
        (Inr cost, rows) \<Rightarrow> (fst st @ [(fst (snd c), cost)], rows)
      | (Inl e, rows) \<Rightarrow> (fst st, rows))"

definition run_guard :: "budget_guard \<Rightarrow> guarded_call list \<Rightarrow> (timestamp \<times> rat) list \<times> llm_row list" where
  "run_guard g calls = foldl (\<lambda>st c. guard_step g c st) ([], []) calls"

fun chronological :: "timestamp \<Rightarrow> guarded_call list \<Rightarrow> bool" where
  "chronological t [] = True"
| "chronological t ((now, later, out) # calls) \<longleftrightarrow> t \<le> now \<and> now \<le> later \<and> chronological later calls"

definition call_cost_in :: "rat \<Rightarrow> llm_outcome \<Rightarrow> bool" where
  "call_cost_in c out =
     (case out of Inl e \<Rightarrow> True | Inr (i, j, l) \<Rightarrow> 0 \<le> i \<and> 0 \<le> j \<and> estimate_call_cost i j \<le> c)"

definition spent_since :: "timestamp \<Rightarrow> (timestamp \<times> rat) list \<Rightarrow> rat" where
  "spent_since since ledger = sum_list (map snd (filter (\<lambda>(u, c). u \<ge> since) ledger))"

fun period_start :: "budget_period \<Rightarrow> timestamp \<Rightarrow> timestamp" where
  "period_start Daily t = day_start t"
| "period_start Monthly t = month_start t"

fun budget_of :: "budget_period \<Rightarrow> budget_guard \<Rightarrow> rat option" where
  "budget_of Daily g = bg_daily_budget g"
| "budget_of Monthly g = bg_monthly_budget g"

interpretation period: budget_window "period_start p"
  by unfold_locales (cases p; simp add: daily.start_le monthly.start_le daily.start_mono monthly.start_mono daily.start_recent monthly.start_recent)+

lemma check_budget_pass:
  "check_budget g now rows = None \<Longrightarrow> budget_of p g = Some b \<Longrightarrow> get_period_cost (bg_tenant_id g) (period_start p now) rows < b"
  by (cases p) (auto simp: check_budget_def over_def Let_def split: if_splits)

lemma spent_since_append [simp]: "spent_since s (xs @ ys) = spent_since s xs + spent_since s ys"
  by (simp add: spent_since_def)

lemma spent_since_anti:
  assumes "\<forall>(u, c)\<in>set ledger. 0 \<le> c" and "s \<le> s'"
  shows "spent_since s' ledger \<le> spent_since s ledger"
  using assms by (induction ledger) (auto simp: spent_since_def)

lemma spent_since_nonneg: "\<forall>(u, c)\<in>set ledger. 0 \<le> c \<Longrightarrow> 0 \<le> spent_since s ledger"
  by (induction ledger) (auto simp: spent_since_def)

lemma estimate_nonneg: "0 \<le> i \<Longrightarrow> 0 \<le> j \<Longrightarrow> 0 \<le> estimate_call_cost i j"
  by (simp add: estimate_call_cost_def)

lemma period_cost_append [simp]: "get_period_cost x s (rows @ rows') = get_period_cost x s rows + get_period_cost x s rows'"
  by (simp add: get_period_cost_def)

lemma period_cost_prune: "t - 31 * day_us \<le> s \<Longrightarrow> get_period_cost x s (prune_records t rows) = get_period_cost x s rows"
  unfolding get_period_cost_def prune_records_def filter_filter by (rule arg_cong[where f = "\<lambda>xs. sum_list (map lg_cost xs)"], rule filter_cong) auto

text \<open>At instant \<open>t\<close>: the log agrees with the ledger for as long as it keeps rows, and no period is overspent by a call.\<close>

definition guarded :: "budget_guard \<Rightarrow> rat \<Rightarrow> timestamp \<Rightarrow> (timestamp \<times> rat) list \<times> llm_row list \<Rightarrow> bool" where
  "guarded g c t st \<longleftrightarrow>
     (\<forall>(u, x)\<in>set (fst st). 0 \<le> x) \<and>
     (\<forall>s\<ge>t - 31 * day_us. get_period_cost (bg_tenant_id g) s (snd st) = spent_since s (fst st)) \<and>
     (\<forall>p b. \<forall>u\<ge>t. budget_of p g = Some b \<longrightarrow> spent_since (period_start p u) (fst st) \<in> {0} \<union> {..<b + c})"

lemma guarded_later: "guarded g c t st \<Longrightarrow> t \<le> t' \<Longrightarrow> guarded g c t' st"
  unfolding guarded_def by (smt (verit, best))

lemma record_usage_log:
  assumes "t - 31 * day_us \<le> s"
  shows "get_period_cost (bg_tenant_id g) s (snd (record_usage g t ct m i j l ok err rows)) =
           get_period_cost (bg_tenant_id g) s rows + (if s \<le> t then estimate_call_cost i j else 0)"
  using assms by (simp add: record_usage_def Let_def period_cost_prune) (simp add: get_period_cost_def)

lemma guard_step_guarded:
  assumes inv: "guarded g c now st" and le: "now \<le> later" and out: "call_cost_in c out"
  shows "guarded g c later (guard_step g (now, later, out) st)"
proof (cases "check_budget g now (snd st)")
  case (Some e)
  then show ?thesis using guarded_later[OF inv le] by (simp add: guard_step_def guard_call_def)
next
  case None
  obtain ledger rows where st: "st = (ledger, rows)" by (cases st)
  have later: "guarded g c later (ledger, rows)" using guarded_later[OF inv le] st by simp
  show ?thesis
  proof (cases out)
    case (Inl err)
    have "estimate_call_cost 0 0 = 0" by (simp add: estimate_call_cost_def)
    then show ?thesis using later None st Inl by (simp add: guard_step_def guard_call_def guarded_def record_usage_log)
  next
    case (Inr r)
    obtain i j l where r: "r = (i, j, l)" by (cases r)
    define x where "x = estimate_call_cost i j"
    have x: "0 \<le> x" "x \<le> c" using out Inr r estimate_nonneg unfolding x_def call_cost_in_def by auto
    have step: "guard_step g (now, later, out) st = (ledger @ [(later, x)], snd (record_usage g later ''llm'' ''model'' i j l True None rows))"
      using None st Inr r by (simp add: guard_step_def guard_call_def record_usage_def Let_def x_def)
    have pos: "\<forall>(u, x)\<in>set ledger. 0 \<le> x" using inv st by (simp add: guarded_def)
    have "spent_since (period_start p u) (ledger @ [(later, x)]) < b + c" if "budget_of p g = Some b" "u \<ge> later" for p b u
    proof -
      have "spent_since (period_start p u) ledger \<le> spent_since (period_start p now) ledger"
        using spent_since_anti[OF pos] period.start_mono le that(2) by simp
      also have "\<dots> = get_period_cost (bg_tenant_id g) (period_start p now) rows"
        using inv st period.start_recent by (simp add: guarded_def)
      also have "\<dots> < b" using check_budget_pass that(1) None st by simp
      finally show ?thesis using x by (simp add: spent_since_def)
    qed
    then show ?thesis using later x step
      by (simp add: guarded_def record_usage_log) (simp add: spent_since_def x_def)
  qed
qed

lemma run_guard_guarded:
  "guarded g c t st \<Longrightarrow> chronological t calls \<Longrightarrow> \<forall>k\<in>set calls. call_cost_in c (snd (snd k)) \<Longrightarrow>
   guarded g c (foldl (\<lambda>u k. fst (snd k)) t calls) (foldl (\<lambda>st k. guard_step g k st) st calls)"
proof (induction t calls arbitrary: st rule: chronological.induct)
  case (2 t now later out calls)
  then show ?case using guard_step_guarded[OF guarded_later, of g c t st now later out] by simp
qed simp

text \<open>C22: The budget guard bounds spending. Whatever calls are made one after another under a guard with a daily or a monthly budget, the
  amount spent in the current UTC day or month is, at every instant from the last call on, nothing or less than the budget plus the
  price of one call; pruning the log after 31 days never makes the guard forget a charge of the current period.\<close>

theorem guarded_spend_bounded:
  assumes "chronological t0 calls" and "\<forall>k\<in>set calls. call_cost_in c (snd (snd k))"
    and "budget_of p g = Some b" and "foldl (\<lambda>u k. fst (snd k)) t0 calls \<le> t"
  shows "spent_since (period_start p t) (fst (run_guard g calls)) \<in> {0} \<union> {..<b + c}"
proof -
  have "guarded g c t0 ([], [])" by (simp add: guarded_def get_period_cost_def spent_since_def)
  from run_guard_guarded[OF this assms(1,2)] show ?thesis
    using assms(3,4) unfolding run_guard_def guarded_def by blast
qed

text \<open>On the first of January 2001: three calls of 0.90 under a daily budget of 1, the third one refused.\<close>

definition demo_guard :: budget_guard where
  "demo_guard = \<lparr>bg_tenant_id = ''acme'', bg_daily_budget = Some 1, bg_monthly_budget = Some 10\<rparr>"

definition demo_calls :: "guarded_call list" where
  "demo_calls = map (\<lambda>i. (11323 * day_us + i, 11323 * day_us + i + 1, Inr (100000, 40000, 800))) [10, 20, 30]"

lemma month_start_first_day: "0 \<le> i \<Longrightarrow> i < day_us \<Longrightarrow> month_start (11323 * day_us + i) = 11323 * day_us"
proof -
  assume i: "0 \<le> i" "i < day_us"
  then have d: "(11323 * day_us + i) div day_us = 11323" by simp
  have "walk_months (Suc 4798) 0 0 0 = 0" unfolding walk_months.simps using month_length_bounds[of 0] by simp
  then show ?thesis by (simp add: month_start_def d month_start_day_def)
qed

lemma day_start_first_day: "0 \<le> i \<Longrightarrow> i < day_us \<Longrightarrow> day_start (11323 * day_us + i) = 11323 * day_us"
  by (simp add: day_start_def)

lemma demo_run: "fst (run_guard demo_guard demo_calls) = [(11323 * day_us + 11, 9 / 10), (11323 * day_us + 21, 9 / 10)]"
proof -
  have u: "(100::int) < day_us" by (simp add: day_us_def microseconds_per_second_def)
  then have s: "day_start (11323 * day_us + i) = 11323 * day_us \<and> month_start (11323 * day_us + i) = 11323 * day_us" if "i \<in> {10, 20, 30}" for i
    using that month_start_first_day[of i] day_start_first_day[of i] by auto
  show ?thesis using u
    by (simp add: run_guard_def demo_calls_def guard_step_def guard_call_def check_budget_def s over_def demo_guard_def record_usage_def
        Let_def get_period_cost_def prune_records_def estimate_call_cost_def)
qed

theorem guarded_spend_bounded_witness:
  "spent_since (period_start Daily (11323 * day_us + 31)) (fst (run_guard demo_guard demo_calls)) \<in> {0} \<union> {..<1 + 9 / 10} \<and>
   fst (run_guard demo_guard demo_calls) = [(11323 * day_us + 11, 9 / 10), (11323 * day_us + 21, 9 / 10)]"
proof
  show "spent_since (period_start Daily (11323 * day_us + 31)) (fst (run_guard demo_guard demo_calls)) \<in> {0} \<union> {..<1 + 9 / 10}"
    by (rule guarded_spend_bounded[of 0]) (simp_all add: demo_calls_def demo_guard_def call_cost_in_def estimate_call_cost_def day_us_pos less_imp_le add_increasing)
qed (rule demo_run)

subsection \<open>Delivery of usage events\<close>

text \<open>
  A sink takes a batch whole or not at all, and not when it raises; between the collector's operations (\<open>tick\<close>) it may lose what it took.
  \<open>stored\<close> is what it has taken and not lost, \<open>env\<close> what decides all of this.
\<close>

locale event_sink =
  fixes sink :: "'env \<Rightarrow> 's sink"
    and tick :: "'env \<Rightarrow> 's \<Rightarrow> 's"
    and stored :: "'s \<Rightarrow> 'a multiset"
    and row_of :: "usage_event \<Rightarrow> 'a"
  assumes whole: "stored (snd (sink env batch s)) \<subseteq># stored s + mset (map row_of batch)"
    and raised: "fst (sink env batch s) \<Longrightarrow> stored (snd (sink env batch s)) \<subseteq># stored s"
    and ticked: "stored (tick env s) \<subseteq># stored s"

datatype collector_op = RecordEvent usage_event | FlushEvents | SinkTick

definition collector_step ::
  "collector_config \<Rightarrow> 's sink \<Rightarrow> ('s \<Rightarrow> 's) \<Rightarrow> rat \<Rightarrow> rat \<Rightarrow> collector_op \<Rightarrow> collector \<times> 's \<Rightarrow> collector \<times> 's" where
  "collector_step cfg sink tick now later op st =
     (case op of
        RecordEvent e \<Rightarrow> record_usage_event cfg sink now later e (fst st) (snd st)
      | FlushEvents \<Rightarrow> snd (flush_locked cfg sink now later (fst st) (snd st))
      | SinkTick \<Rightarrow> (fst st, tick (snd st)))"

type_synonym 'env collector_ops = "('env \<times> rat \<times> rat \<times> collector_op) list"

definition run_collector ::
  "collector_config \<Rightarrow> ('env \<Rightarrow> 's sink) \<Rightarrow> ('env \<Rightarrow> 's \<Rightarrow> 's) \<Rightarrow> 'env collector_ops \<Rightarrow> collector \<times> 's \<Rightarrow> collector \<times> 's" where
  "run_collector cfg sink tick ops st =
     foldl (\<lambda>st (env, now, later, op). collector_step cfg (sink env) (tick env) now later op st) st ops"

fun op_events :: "collector_op \<Rightarrow> usage_event list" where
  "op_events (RecordEvent e) = [e]"
| "op_events FlushEvents = []"
| "op_events SinkTick = []"

definition events_of :: "'env collector_ops \<Rightarrow> usage_event list" where
  "events_of ops = concat (map (\<lambda>(env, now, later, op). op_events op) ops)"

lemma events_of_simps [simp]:
  "events_of [] = []"
  "events_of ((env, now, later, op) # ops) = op_events op @ events_of ops"
  by (simp_all add: events_of_def)

lemma run_collector_simps [simp]:
  "run_collector cfg sink tick [] st = st"
  "run_collector cfg sink tick ((env, now, later, op) # ops) st =
     run_collector cfg sink tick ops (collector_step cfg (sink env) (tick env) now later op st)"
  by (simp_all add: run_collector_def)

text \<open>What was delivered or still will be.\<close>

definition delivered :: "('s \<Rightarrow> 'a multiset) \<Rightarrow> (usage_event \<Rightarrow> 'a) \<Rightarrow> collector \<times> 's \<Rightarrow> 'a multiset" where
  "delivered stored row_of st = stored (snd st) + mset (map row_of (co_buffer (fst st)))"

lemma mset_drop_subset: "mset (map f (drop n xs)) \<subseteq># mset (map f xs)"
  by (metis append_take_drop_id map_append mset_append mset_subset_eq_add_right)

context event_sink begin

lemma flush_delivers_less: "delivered stored row_of (snd (flush_locked cfg (sink env) now later c s)) \<subseteq># delivered stored row_of (c, s)"
proof -
  let ?b = "co_buffer c"
  have "stored s' + mset (map row_of (drop n ?b)) \<subseteq># stored s + mset (map row_of ?b)" if "stored s' \<subseteq># stored s" for s' n
    using that mset_drop_subset by (rule subset_mset.add_mono)
  moreover have "stored s' \<subseteq># stored s + mset (map row_of ?b)" if "stored s' \<subseteq># stored s" for s'
    using that by (rule subset_mset.add_increasing2[OF empty_le])
  ultimately show ?thesis using whole[of env ?b s] raised[of env ?b s]
    by (cases "sink env ?b s") (auto simp: delivered_def flush_locked_def Let_def)
qed

lemma step_delivers_less:
  "delivered stored row_of (collector_step cfg (sink env) (tick env) now later op st) \<subseteq># delivered stored row_of st + mset (map row_of (op_events op))"
proof (cases op)
  case (RecordEvent e)
  then show ?thesis using flush_delivers_less[of cfg env now later "fst st\<lparr>co_buffer := co_buffer (fst st) @ [e]\<rparr>" "snd st"]
    by (simp add: collector_step_def record_usage_event_def Let_def) (simp add: delivered_def)
next
  case FlushEvents
  then show ?thesis using flush_delivers_less[of cfg env now later "fst st" "snd st"] by (simp add: collector_step_def)
next
  case SinkTick
  then show ?thesis using ticked by (simp add: collector_step_def delivered_def)
qed

lemma run_delivers_less:
  "delivered stored row_of (run_collector cfg sink tick ops st) \<subseteq># delivered stored row_of st + mset (map row_of (events_of ops))"
proof (induction ops arbitrary: st)
  case (Cons o' ops)
  obtain env now later op where o: "o' = (env, now, later, op)" by (cases o')
  let ?st = "collector_step cfg (sink env) (tick env) now later op st"
  have "delivered stored row_of ?st + mset (map row_of (events_of ops)) \<subseteq>#
      (delivered stored row_of st + mset (map row_of (op_events op))) + mset (map row_of (events_of ops))"
    using step_delivers_less by (rule subset_mset.add_right_mono)
  then show ?case using subset_mset.order_trans[OF Cons[of ?st]] by (simp add: o add.assoc)
qed simp

end

text \<open>The rows of the table and of the batches that wait for the loop.\<close>

definition usage_stored :: "usage_db \<Rightarrow> usage_row multiset" where
  "usage_stored db = mset (ud_rows db) + mset (map row_of_event (concat (ud_tasks db)))"

definition usage_sink :: "bool \<times> bool \<times> nat \<Rightarrow> usage_db sink" where
  "usage_sink env = (case env of (loop, up, i) \<Rightarrow> database_sink loop up)"

definition usage_tick :: "bool \<times> bool \<times> nat \<Rightarrow> usage_db \<Rightarrow> usage_db" where
  "usage_tick env = (case env of (loop, up, i) \<Rightarrow> run_task up i)"

lemma mset_concat_nth:
  "i < length bs \<Longrightarrow> mset (concat bs) = mset (bs ! i) + mset (concat (take i bs @ drop (Suc i) bs))"
  by (subst (1) id_take_nth_drop[of i bs]) (auto simp: mset_concat)

lemma run_task_stored: "usage_stored (run_task up i db) \<subseteq># usage_stored db"
proof (cases "i < length (ud_tasks db)")
  case True
  have "mset (map row_of_event (concat (ud_tasks db))) =
      mset (map row_of_event (ud_tasks db ! i)) + mset (map row_of_event (concat (take i (ud_tasks db) @ drop (Suc i) (ud_tasks db))))"
    using arg_cong[OF mset_concat_nth[OF True], of "image_mset row_of_event"] by simp
  then show ?thesis using True by (auto simp: usage_stored_def run_task_def async_flush_def Let_def)
qed (simp add: run_task_def)

interpretation db_sink: event_sink usage_sink usage_tick usage_stored row_of_event
proof unfold_locales
  show "usage_stored (usage_tick env db) \<subseteq># usage_stored db" for env db
    using run_task_stored by (simp add: usage_tick_def split: prod.split)
qed (auto simp: usage_sink_def database_sink_def async_flush_def usage_stored_def Let_def split: if_splits)

interpretation jsonl_sink: event_sink "file_sink dump" "\<lambda>_ lines. lines" mset dump
  by unfold_locales (auto simp: file_sink_def split: if_splits)

text \<open>With a database that accepts every batch and distinct identifiers, the recorded events \<open>es\<close> are split into those that were committed,
  after the earlier rows, those that wait for the loop and those in the buffer.\<close>

definition outstanding :: "collector \<times> usage_db \<Rightarrow> usage_event list" where
  "outstanding st = concat (ud_tasks (snd st)) @ co_buffer (fst st)"

definition metered :: "usage_row list \<Rightarrow> usage_event list \<Rightarrow> collector \<times> usage_db \<Rightarrow> bool" where
  "metered rows es st \<longleftrightarrow>
     co_open_until (fst st) = 0 \<and>
     (\<exists>committed. ud_rows (snd st) = rows @ map row_of_event committed \<and> mset committed + mset (outstanding st) = mset es)"

definition fresh_ids :: "usage_row list \<Rightarrow> usage_event list \<Rightarrow> bool" where
  "fresh_ids rows es \<longleftrightarrow> distinct (map ur_event_id rows @ map ev_event_id es)"

lemma async_flush_fresh:
  assumes "fresh_ids rows es" and "mset committed + mset batch \<subseteq># mset es"
  shows "async_flush True batch (rows @ map row_of_event committed) = rows @ map row_of_event (committed @ batch)"
proof -
  have "image_mset ev_event_id (mset (committed @ batch)) \<subseteq># image_mset ev_event_id (mset es)"
    using assms(2) by (intro image_mset_subseteq_mono) simp
  then have sub: "mset (map ev_event_id (committed @ batch)) \<subseteq># mset (map ev_event_id es)" by (simp only: mset_map)
  obtain rest where rest: "mset (map ev_event_id es) = mset (map ev_event_id (committed @ batch) @ rest)"
    using sub by (metis ex_mset mset_append subset_mset.le_iff_add)
  have "distinct (map ur_event_id rows @ map ev_event_id (committed @ batch) @ rest)"
    using assms(1) rest mset_eq_imp_distinct_iff[of "map ur_event_id rows @ map ev_event_id es"
        "map ur_event_id rows @ map ev_event_id (committed @ batch) @ rest"] by (simp add: fresh_ids_def)
  moreover have "map ur_event_id (rows @ map row_of_event committed @ map row_of_event batch) = map ur_event_id rows @ map ev_event_id (committed @ batch)"
    by (simp add: row_of_event_def)
  ultimately have "distinct (map ur_event_id (rows @ map row_of_event committed @ map row_of_event batch))"
    by (metis append_assoc distinct_append)
  then show ?thesis by (simp add: async_flush_def Let_def del: map_map)
qed

lemma flush_metered:
  assumes m: "metered rows es (c, db)" and now: "0 \<le> now" and ids: "fresh_ids rows es"
  shows "metered rows es (snd (flush_locked cfg (database_sink loop True) now later c db))"
proof -
  from m obtain committed where d: "co_open_until c = 0" "ud_rows db = rows @ map row_of_event committed"
    "mset committed + mset (outstanding (c, db)) = mset es" by (auto simp: metered_def)
  have "mset committed + mset (co_buffer c) \<subseteq># mset es" unfolding d(3)[symmetric] by (simp add: outstanding_def)
  from async_flush_fresh[OF ids this] show ?thesis using d now
    by (auto simp: metered_def flush_locked_def database_sink_def Let_def outstanding_def ac_simps
        simp del: map_append intro: exI[of _ committed] exI[of _ "committed @ co_buffer c"])
qed

lemma record_metered:
  assumes m: "metered rows es (c, db)" and now: "0 \<le> now" and ids: "fresh_ids rows (es @ [e])"
  shows "metered rows (es @ [e]) (record_usage_event cfg (database_sink loop True) now later e c db)"
proof -
  have "metered rows (es @ [e]) (c\<lparr>co_buffer := co_buffer c @ [e]\<rparr>, db)"
    using m by (auto simp: metered_def outstanding_def intro!: exI)
  then show ?thesis using flush_metered[OF _ now ids] by (simp add: record_usage_event_def Let_def)
qed

lemma task_metered:
  assumes m: "metered rows es (c, db)" and ids: "fresh_ids rows es"
  shows "metered rows es (c, run_task True i db)"
proof (cases "i < length (ud_tasks db)")
  case True
  let ?b = "ud_tasks db ! i"
  from m obtain committed where d: "co_open_until c = 0" "ud_rows db = rows @ map row_of_event committed"
    "mset committed + mset (outstanding (c, db)) = mset es" by (auto simp: metered_def)
  have b: "mset (concat (ud_tasks db)) = mset ?b + mset (concat (take i (ud_tasks db) @ drop (Suc i) (ud_tasks db)))" by (rule mset_concat_nth[OF True])
  have "mset committed + mset ?b \<subseteq># mset es" unfolding d(3)[symmetric] by (simp add: outstanding_def b)
  from async_flush_fresh[OF ids this] show ?thesis using d True b
    by (auto simp: metered_def run_task_def outstanding_def ac_simps simp del: map_append intro!: exI[of _ "committed @ ?b"])
next
  case False
  with m show ?thesis by (simp add: run_task_def)
qed

lemma run_collector_metered:
  "metered rows es st \<Longrightarrow> \<forall>((loop, up, i), now, later, op)\<in>set ops. up \<and> 0 \<le> now \<Longrightarrow> fresh_ids rows (es @ events_of ops) \<Longrightarrow>
   metered rows (es @ events_of ops) (run_collector cfg usage_sink usage_tick ops st)"
proof (induction ops arbitrary: es st)
  case (Cons o' ops)
  obtain loop up i now later op where o: "o' = ((loop, up, i), now, later, op)" by (metis prod_cases6 prod.collapse)
  have ids: "fresh_ids rows (es @ op_events op)" using Cons.prems(3) o by (auto simp: fresh_ids_def)
  have "metered rows (es @ op_events op) (collector_step cfg (usage_sink (loop, up, i)) (usage_tick (loop, up, i)) now later op st)"
    using flush_metered[of rows es "fst st" "snd st" now cfg loop later] record_metered[of rows es "fst st" "snd st" now _ cfg loop later]
      task_metered[of rows es "fst st" "snd st" i] Cons.prems(1,2) ids
    by (cases op) (simp_all add: o collector_step_def usage_sink_def usage_tick_def)
  then show ?case using Cons.IH[of "es @ op_events op"] Cons.prems(2,3) by (simp add: o)
qed simp

text \<open>Usage events reach the table at most once, whatever fails, whenever the breaker opens and in whatever order the loop comes to the batches: the
  rows stored, in wait and buffered are among the recorded events; and they are all of them while the database accepts every batch, the
  identifiers are distinct and the clock is not negative.\<close>

theorem usage_events_delivered:
  "delivered usage_stored row_of_event (run_collector cfg usage_sink usage_tick ops (new_collector, \<lparr>ud_rows = [], ud_tasks = []\<rparr>)) \<subseteq>#
     mset (map row_of_event (events_of ops)) \<and>
   ((\<forall>((loop, up, i), now, later, op)\<in>set ops. up \<and> 0 \<le> now) \<and> distinct (map ev_event_id (events_of ops)) \<longrightarrow>
    delivered usage_stored row_of_event (run_collector cfg usage_sink usage_tick ops (new_collector, \<lparr>ud_rows = [], ud_tasks = []\<rparr>)) =
      mset (map row_of_event (events_of ops)))"
proof (intro conjI impI)
  let ?st = "(new_collector, \<lparr>ud_rows = [], ud_tasks = []\<rparr>)"
  have none: "delivered usage_stored row_of_event ?st = {#}" by (simp add: delivered_def new_collector_def usage_stored_def)
  then show "delivered usage_stored row_of_event (run_collector cfg usage_sink usage_tick ops ?st) \<subseteq># mset (map row_of_event (events_of ops))"
    using db_sink.run_delivers_less[of cfg ops ?st] by simp
  assume a: "(\<forall>((loop, up, i), now, later, op)\<in>set ops. up \<and> 0 \<le> now) \<and> distinct (map ev_event_id (events_of ops))"
  have "metered [] [] ?st" by (simp add: metered_def new_collector_def outstanding_def)
  from run_collector_metered[OF this, of ops cfg] a obtain committed where c:
    "ud_rows (snd (run_collector cfg usage_sink usage_tick ops ?st)) = map row_of_event committed"
    "mset committed + mset (outstanding (run_collector cfg usage_sink usage_tick ops ?st)) = mset (events_of ops)"
    by (auto simp: fresh_ids_def metered_def)
  show "delivered usage_stored row_of_event (run_collector cfg usage_sink usage_tick ops ?st) = mset (map row_of_event (events_of ops))"
    using arg_cong[OF c(2), of "image_mset row_of_event"] by (simp add: delivered_def usage_stored_def c(1) outstanding_def add.assoc)
qed

definition demo_event :: "string \<Rightarrow> usage_event" where
  "demo_event i = \<lparr>ev_event_id = i, ev_tenant_id = ''acme'', ev_event_type = PLAN_RUN, ev_timestamp = 5, ev_quantity = 1\<rparr>"

text \<open>Two events fill the buffer on the loop, the task waits while a third is recorded and flushed by the thread, and then commits.\<close>

theorem usage_events_delivered_witness:
  "delivered usage_stored row_of_event (run_collector (default_collector_config\<lparr>cc_max_buffer_size := 2\<rparr>) usage_sink usage_tick
     [((True, True, 0), 1, 1, RecordEvent (demo_event ''a'')), ((True, True, 0), 2, 2, RecordEvent (demo_event ''b'')),
      ((True, True, 0), 3, 3, RecordEvent (demo_event ''c'')), ((False, True, 0), 3, 3, FlushEvents), ((True, True, 0), 4, 4, SinkTick)]
     (new_collector, \<lparr>ud_rows = [], ud_tasks = []\<rparr>)) =
   mset (map row_of_event (map demo_event [''a'', ''b'', ''c'']))"
  using usage_events_delivered[of "default_collector_config\<lparr>cc_max_buffer_size := 2\<rparr>"
    "[((True, True, 0), 1, 1, RecordEvent (demo_event ''a'')), ((True, True, 0), 2, 2, RecordEvent (demo_event ''b'')),
      ((True, True, 0), 3, 3, RecordEvent (demo_event ''c'')), ((False, True, 0), 3, 3, FlushEvents), ((True, True, 0), 4, 4, SinkTick)]"]
  by (simp add: demo_event_def)

subsection \<open>Plans within the month's quota\<close>

text \<open>
  The steps of a server: a request passes the check or is refused; one of those in flight ends its generation, which may have failed; other
  usage is recorded; the meter is flushed, on the loop or in the thread; and the loop comes to a pending task.
\<close>

datatype plan_op =
  StartPlan string timestamp
| EndPlan nat bool string timestamp rat rat
| OtherUsage usage_event rat rat
| FlushMeter bool rat rat
| RunTask nat

text \<open>The state: the tenants of the requests in flight, the events that were recorded, the collector and the database.\<close>

record plan_world =
  pw_running :: "string list"
  pw_recorded :: "usage_event list"
  pw_meter :: "collector \<times> usage_db"

definition plan_step :: "collector_config \<Rightarrow> account_state \<Rightarrow> plan_op \<Rightarrow> plan_world \<Rightarrow> plan_world" where
  "plan_step cfg st op w =
     (let (c, db) = pw_meter w in
      case op of
        StartPlan tenant_id now \<Rightarrow> (if route_plan_check tenant_id st now db then w\<lparr>pw_running := pw_running w @ [tenant_id]\<rparr> else w)
      | EndPlan i generated event_id now clock clock' \<Rightarrow>
          if i < length (pw_running w) then
            let tenant_id = pw_running w ! i; w = w\<lparr>pw_running := take i (pw_running w) @ drop (Suc i) (pw_running w)\<rparr>
            in if generated
               then w\<lparr>pw_recorded := pw_recorded w @ [plan_run event_id now tenant_id],
                      pw_meter := route_plan_meter cfg True clock clock' event_id now tenant_id c db\<rparr>
               else w
          else w
      | OtherUsage e clock clock' \<Rightarrow>
          w\<lparr>pw_recorded := pw_recorded w @ [e], pw_meter := record_usage_event cfg (database_sink True True) clock clock' e c db\<rparr>
      | FlushMeter loop clock clock' \<Rightarrow> w\<lparr>pw_meter := snd (flush_locked cfg (database_sink loop True) clock clock' c db)\<rparr>
      | RunTask i \<Rightarrow> w\<lparr>pw_meter := (c, run_task True i db)\<rparr>)"

definition new_world :: "usage_row list \<Rightarrow> plan_world" where
  "new_world rows = \<lparr>pw_running = [], pw_recorded = [], pw_meter = (new_collector, \<lparr>ud_rows = rows, ud_tasks = []\<rparr>)\<rparr>"

fun run_plans :: "collector_config \<Rightarrow> account_state \<Rightarrow> plan_op list \<Rightarrow> plan_world \<Rightarrow> plan_world" where
  "run_plans cfg st [] w = w"
| "run_plans cfg st (op # ops) w = run_plans cfg st ops (plan_step cfg st op w)"

text \<open>At every check at most \<open>k\<close> flush tasks are pending and at most \<open>f\<close> requests in flight.\<close>

fun paced :: "nat \<Rightarrow> nat \<Rightarrow> collector_config \<Rightarrow> account_state \<Rightarrow> plan_op list \<Rightarrow> plan_world \<Rightarrow> bool" where
  "paced k f cfg st [] w = True"
| "paced k f cfg st (op # ops) w \<longleftrightarrow>
     (case op of StartPlan _ _ \<Rightarrow> length (ud_tasks (snd (pw_meter w))) \<le> k \<and> length (pw_running w) \<le> f | _ \<Rightarrow> True) \<and>
     paced k f cfg st ops (plan_step cfg st op w)"

text \<open>The checks fall into the month that starts with \<open>m\<close>, no run is stamped earlier, and what else is recorded are not runs.\<close>

fun op_in_month :: "timestamp \<Rightarrow> plan_op \<Rightarrow> bool" where
  "op_in_month m (StartPlan tenant_id now) \<longleftrightarrow> month_start now = m"
| "op_in_month m (EndPlan i generated event_id now clock clock') \<longleftrightarrow> m \<le> now \<and> 0 \<le> clock"
| "op_in_month m (OtherUsage e clock clock') \<longleftrightarrow> ev_event_type e \<noteq> PLAN_RUN \<and> 0 \<le> clock"
| "op_in_month m (FlushMeter loop clock clock') \<longleftrightarrow> 0 \<le> clock"
| "op_in_month m (RunTask i) \<longleftrightarrow> True"

fun op_ids :: "plan_op \<Rightarrow> string list" where
  "op_ids (EndPlan i generated event_id now clock clock') = [event_id]"
| "op_ids (OtherUsage e clock clock') = [ev_event_id e]"
| "op_ids op = []"

definition runs_of :: "string \<Rightarrow> usage_event list \<Rightarrow> int" where
  "runs_of tenant_id es = int (length (filter (\<lambda>e. ev_tenant_id e = tenant_id \<and> ev_event_type e = PLAN_RUN) es))"

definition running_of :: "string \<Rightarrow> plan_world \<Rightarrow> int" where
  "running_of tenant_id w = int (length (filter (\<lambda>x. x = tenant_id) (pw_running w)))"

lemma runs_of_append [simp]: "runs_of x (es @ es') = runs_of x es + runs_of x es'"
  by (simp add: runs_of_def)

lemma runs_of_mset:
  assumes "mset es = mset es'"
  shows "runs_of x es = runs_of x es'"
proof -
  have "mset (filter P es) = mset (filter P es')" for P using assms by simp
  from mset_eq_length[OF this] show ?thesis by (simp only: runs_of_def)
qed

lemma runs_of_le: "runs_of x es \<le> int (length es)"
  by (simp only: runs_of_def of_nat_le_iff length_filter_le)

lemma event_value_run [simp]: "event_value t = ''plan_run'' \<longleftrightarrow> t = PLAN_RUN"
  by (cases t) simp_all

text \<open>The batches that wait are at most a buffer each, and the buffer is never full.\<close>

definition batches_fit :: "collector_config \<Rightarrow> collector \<times> usage_db \<Rightarrow> bool" where
  "batches_fit cfg st \<longleftrightarrow>
     length (co_buffer (fst st)) < cc_max_buffer_size cfg \<and> (\<forall>b\<in>set (ud_tasks (snd st)). length b \<le> cc_max_buffer_size cfg)"

lemma flush_fits:
  assumes "0 < cc_max_buffer_size cfg" "length (co_buffer c) \<le> cc_max_buffer_size cfg" "\<forall>b\<in>set (ud_tasks db). length b \<le> cc_max_buffer_size cfg"
  shows "batches_fit cfg (snd (flush_locked cfg (database_sink loop up) now later c db))"
  using assms by (auto simp: batches_fit_def flush_locked_def database_sink_def Let_def)

lemma record_fits:
  assumes "batches_fit cfg (c, db)"
  shows "batches_fit cfg (record_usage_event cfg (database_sink loop up) now later e c db)"
proof (cases "Suc (length (co_buffer c)) < cc_max_buffer_size cfg")
  case False
  then show ?thesis using assms flush_fits[of cfg "c\<lparr>co_buffer := co_buffer c @ [e]\<rparr>" db] by (simp add: record_usage_event_def Let_def batches_fit_def)
qed (use assms in \<open>simp add: record_usage_event_def Let_def batches_fit_def\<close>)

lemma task_fits: "batches_fit cfg (c, db) \<Longrightarrow> batches_fit cfg (c, run_task up i db)"
  by (auto simp: batches_fit_def run_task_def dest: in_set_takeD in_set_dropD)

lemma length_concat_le: "\<forall>b\<in>set bs. length b \<le> n \<Longrightarrow> length (concat bs) \<le> length bs * n"
  by (induction bs) auto

lemma outstanding_le:
  assumes "batches_fit cfg (c, db)" "length (ud_tasks db) \<le> k"
  shows "int (length (outstanding (c, db))) \<le> int (Suc k * cc_max_buffer_size cfg) - 1"
proof -
  have "length (concat (ud_tasks db)) \<le> length (ud_tasks db) * cc_max_buffer_size cfg"
    using assms(1) by (intro length_concat_le) (simp add: batches_fit_def)
  also have "\<dots> \<le> k * cc_max_buffer_size cfg" using assms(2) by (rule mult_le_mono1)
  finally have "length (outstanding (c, db)) < Suc k * cc_max_buffer_size cfg" using assms(1) by (simp add: outstanding_def batches_fit_def)
  then show ?thesis by linarith
qed

text \<open>The invariant of the runs.\<close>

definition plans_metered :: "collector_config \<Rightarrow> timestamp \<Rightarrow> usage_row list \<Rightarrow> plan_world \<Rightarrow> bool" where
  "plans_metered cfg m rows w \<longleftrightarrow>
     metered rows (pw_recorded w) (pw_meter w) \<and> batches_fit cfg (pw_meter w) \<and>
     (\<forall>e\<in>set (pw_recorded w). ev_event_type e = PLAN_RUN \<longrightarrow> ev_quantity e = 1 \<and> m \<le> ev_timestamp e)"

lemma count_of_runs:
  assumes "\<forall>e\<in>set es. ev_event_type e = PLAN_RUN \<longrightarrow> ev_quantity e = 1 \<and> month_start now \<le> ev_timestamp e"
    and "\<forall>r\<in>set rows. ur_created_at r < month_start now"
  shows "get_monthly_event_count now x ''plan_run'' (rows @ map row_of_event es) = runs_of x es"
proof -
  have "get_monthly_event_count now x ''plan_run'' (map row_of_event es) = runs_of x es"
    using assms(1) by (induction es) (auto simp: get_monthly_event_count_def runs_of_def row_of_event_def)
  moreover have "filter (\<lambda>r. ur_tenant_id r = x \<and> ur_event_type r = ''plan_run'' \<and> month_start now \<le> ur_created_at r) rows = []"
    using assms(2) by (auto simp: filter_empty_conv)
  ultimately show ?thesis by (simp add: get_monthly_event_count_def)
qed

lemma admitted_within:
  assumes inv: "plans_metered cfg m rows w" and check: "route_plan_check x st now (snd (pw_meter w))" and now: "month_start now = m"
    and quota: "get_effective_quota x st PlanQuota = Some q" and old: "\<forall>r\<in>set rows. ur_created_at r < m"
    and k: "length (ud_tasks (snd (pw_meter w))) \<le> k"
  shows "runs_of x (pw_recorded w) < q + int (Suc k * cc_max_buffer_size cfg) - 1"
proof -
  obtain c db where cd: "pw_meter w = (c, db)" by (cases "pw_meter w")
  obtain committed where db: "ud_rows db = rows @ map row_of_event committed"
    and split: "mset committed + mset (outstanding (c, db)) = mset (pw_recorded w)"
    using inv by (auto simp: plans_metered_def metered_def cd)
  have "set committed \<subseteq> set (pw_recorded w)" using arg_cong[OF split, of set_mset] by auto
  then have "get_monthly_event_count now x ''plan_run'' (ud_rows db) = runs_of x committed"
    unfolding db using inv old now by (intro count_of_runs) (auto simp: plans_metered_def)
  moreover have "get_monthly_event_count now x ''plan_run'' (ud_rows db) < q"
    using check quota by (simp add: route_plan_check_def check_plan_quota_def quota_allows_def cd)
  moreover have "runs_of x (pw_recorded w) = runs_of x committed + runs_of x (outstanding (c, db))"
    using runs_of_mset[of "committed @ outstanding (c, db)" "pw_recorded w" x] split by simp
  moreover have "runs_of x (outstanding (c, db)) \<le> int (length (outstanding (c, db)))" by (rule runs_of_le)
  moreover have "batches_fit cfg (c, db)" using inv by (simp add: plans_metered_def cd)
  from outstanding_le[OF this] k have "int (length (outstanding (c, db))) \<le> int (Suc k * cc_max_buffer_size cfg) - 1" by (simp add: cd)
  ultimately show ?thesis by linarith
qed

lemma plan_step_metered:
  assumes inv: "plans_metered cfg m rows w" and op: "op_in_month m op" and pos: "0 < cc_max_buffer_size cfg"
    and ids: "distinct (map ur_event_id rows @ map ev_event_id (pw_recorded w) @ op_ids op)"
  shows "plans_metered cfg m rows (plan_step cfg st op w)"
proof -
  obtain c db where cd: "pw_meter w = (c, db)" by (cases "pw_meter w")
  have m: "metered rows (pw_recorded w) (c, db)" and fits: "batches_fit cfg (c, db)"
    and runs: "\<forall>e\<in>set (pw_recorded w). ev_event_type e = PLAN_RUN \<longrightarrow> ev_quantity e = 1 \<and> m \<le> ev_timestamp e"
    using inv by (simp_all add: plans_metered_def cd)
  have old: "fresh_ids rows (pw_recorded w)" using ids by (auto simp: fresh_ids_def)
  show ?thesis
  proof (cases op)
    case (EndPlan i generated event_id now clock clock')
    then have "fresh_ids rows (pw_recorded w @ [plan_run event_id now x])" for x using ids by (simp add: fresh_ids_def plan_run_def)
    from record_metered[OF m _ this] record_fits[OF fits] show ?thesis using op inv runs
      by (auto simp: EndPlan plan_step_def plans_metered_def cd Let_def route_plan_meter_def plan_run_def)
  next
    case (OtherUsage e clock clock')
    then have "fresh_ids rows (pw_recorded w @ [e])" using ids by (simp add: fresh_ids_def)
    from record_metered[OF m _ this] record_fits[OF fits] show ?thesis using op runs
      by (auto simp: OtherUsage plan_step_def plans_metered_def cd)
  next
    case (FlushMeter loop clock clock')
    have "batches_fit cfg (snd (flush_locked cfg (database_sink loop True) clock clock' c db))"
      using fits by (intro flush_fits[OF pos]) (simp_all add: batches_fit_def)
    then show ?thesis using flush_metered[OF m _ old] op runs by (simp add: FlushMeter plan_step_def plans_metered_def cd)
  qed (use inv m fits runs task_metered[OF m old] task_fits[OF fits] in \<open>simp_all add: plan_step_def plans_metered_def cd\<close>)
qed

lemma remove_nth_count: "i < length xs \<Longrightarrow>
  int (length (filter P (take i xs @ drop (Suc i) xs))) = int (length (filter P xs)) - (if P (xs ! i) then 1 else 0)"
  by (subst (3) id_take_nth_drop[of i xs]) simp_all

text \<open>Only a check that passes adds to the runs of a tenant and its requests in flight.\<close>

lemma plan_step_counts:
  assumes op: "op_in_month m op"
  shows "runs_of x (pw_recorded (plan_step cfg st op w)) + running_of x (plan_step cfg st op w) \<le>
    runs_of x (pw_recorded w) + running_of x w +
      (case op of StartPlan y now \<Rightarrow> if y = x \<and> route_plan_check x st now (snd (pw_meter w)) then 1 else 0 | _ \<Rightarrow> 0)"
  using op by (cases op)
    (auto simp: plan_step_def Let_def running_of_def runs_of_def plan_run_def remove_nth_count[simplified] split: prod.split)

lemma plan_step_bounded:
  assumes inv: "plans_metered cfg m rows w" and op: "op_in_month m op"
    and quota: "get_effective_quota x st PlanQuota = Some q" and old: "\<forall>r\<in>set rows. ur_created_at r < m"
    and pace: "case op of StartPlan _ _ \<Rightarrow> length (ud_tasks (snd (pw_meter w))) \<le> k \<and> length (pw_running w) \<le> f | _ \<Rightarrow> True"
    and bound: "runs_of x (pw_recorded w) + running_of x w \<le> q + int (Suc k * cc_max_buffer_size cfg) - 1 + int f"
  shows "runs_of x (pw_recorded (plan_step cfg st op w)) + running_of x (plan_step cfg st op w) \<le>
    q + int (Suc k * cc_max_buffer_size cfg) - 1 + int f"
proof (cases "\<exists>now. op = StartPlan x now \<and> route_plan_check x st now (snd (pw_meter w))")
  case True
  then obtain now where s: "op = StartPlan x now" "route_plan_check x st now (snd (pw_meter w))" by blast
  then have "runs_of x (pw_recorded w) < q + int (Suc k * cc_max_buffer_size cfg) - 1"
    using admitted_within[OF inv s(2) _ quota old] op pace by simp
  moreover have "length (filter (\<lambda>y. y = x) (pw_running w)) \<le> f" using pace s(1) by (intro le_trans[OF length_filter_le]) simp
  then have "running_of x w \<le> int f" by (simp add: running_of_def)
  ultimately show ?thesis using plan_step_counts[OF op, of x cfg st w] s by simp
next
  case False
  then show ?thesis using plan_step_counts[OF op, of x cfg st w] bound by (auto split: plan_op.splits if_splits)
qed

lemma recorded_ids: "mset (map ev_event_id (pw_recorded (plan_step cfg st op w))) \<subseteq># mset (map ev_event_id (pw_recorded w) @ op_ids op)"
  by (cases op) (auto simp: plan_step_def Let_def plan_run_def split: prod.split)

lemma distinct_mset_sub: "mset xs \<subseteq># mset ys \<Longrightarrow> distinct (as @ ys @ bs) \<Longrightarrow> distinct (as @ xs @ bs)"
proof -
  assume "mset xs \<subseteq># mset ys" and d: "distinct (as @ ys @ bs)"
  then obtain zs where z: "mset ys = mset (xs @ zs)" by (metis ex_mset mset_append subset_mset.le_iff_add)
  have "distinct (as @ (xs @ zs) @ bs)" using d z mset_eq_imp_distinct_iff[of "as @ ys @ bs" "as @ (xs @ zs) @ bs"] by simp
  then show ?thesis by auto
qed

lemma run_plans_bounded:
  assumes quota: "get_effective_quota x st PlanQuota = Some q" and pos: "0 < cc_max_buffer_size cfg"
    and old: "\<forall>r\<in>set rows. ur_created_at r < m"
  shows "plans_metered cfg m rows w \<Longrightarrow> \<forall>op\<in>set ops. op_in_month m op \<Longrightarrow> paced k f cfg st ops w \<Longrightarrow>
    distinct (map ur_event_id rows @ map ev_event_id (pw_recorded w) @ concat (map op_ids ops)) \<Longrightarrow>
    runs_of x (pw_recorded w) + running_of x w \<le> q + int (Suc k * cc_max_buffer_size cfg) - 1 + int f \<Longrightarrow>
    runs_of x (pw_recorded (run_plans cfg st ops w)) + running_of x (run_plans cfg st ops w) \<le>
      q + int (Suc k * cc_max_buffer_size cfg) - 1 + int f"
proof (induction ops arbitrary: w)
  case (Cons op ops)
  let ?w = "plan_step cfg st op w"
  have op: "op_in_month m op" using Cons.prems(2) by simp
  have "distinct (map ur_event_id rows @ (map ev_event_id (pw_recorded w) @ op_ids op) @ concat (map op_ids ops))"
    using Cons.prems(4) by simp
  from distinct_mset_sub[OF recorded_ids this]
  have ids: "distinct (map ur_event_id rows @ map ev_event_id (pw_recorded ?w) @ concat (map op_ids ops))" .
  have "plans_metered cfg m rows ?w" using Cons.prems(4) by (intro plan_step_metered[OF Cons.prems(1) op pos]) auto
  moreover have "runs_of x (pw_recorded ?w) + running_of x ?w \<le> q + int (Suc k * cc_max_buffer_size cfg) - 1 + int f"
    using Cons.prems(3,5) by (intro plan_step_bounded[OF Cons.prems(1) op quota old]) simp_all
  ultimately show ?case using Cons.IH[OF _ _ _ ids] Cons.prems(2,3) by simp
qed simp

text \<open>C21: The plan quota is a bound up to what is metered and not yet counted. One server process that starts with an empty meter serves requests that may
  interleave, while the meter is flushed and the event loop comes to the flush tasks in any order; the identifiers of the events are distinct and
  every batch is accepted by the database. If at every check at
  most \<open>k\<close> flush tasks are pending and at most \<open>f\<close> requests are in flight, then a tenant with a monthly quota of \<open>q\<close> plans gets at most
  \<open>q\<close> plans in a UTC month, plus \<open>k + 1\<close> buffers less one, plus \<open>f\<close>: the check reads the table, and the runs in the buffer, in the tasks and in flight
  escape it. Nothing in the code bounds \<open>k\<close> (\<open>pending_tasks_escape_quota\<close>).\<close>

theorem plan_quota_overshoot_bounded:
  assumes "get_effective_quota tenant_id st PlanQuota = Some q" and "0 \<le> q" and "0 < cc_max_buffer_size cfg"
    and "\<forall>r\<in>set rows. ur_created_at r < m" and "\<forall>op\<in>set ops. op_in_month m op"
    and "distinct (map ur_event_id rows @ concat (map op_ids ops))" and "paced k f cfg st ops (new_world rows)"
  shows "runs_of tenant_id (pw_recorded (run_plans cfg st ops (new_world rows))) \<le>
    q + (int k + 1) * int (cc_max_buffer_size cfg) - 1 + int f"
proof -
  let ?w = "run_plans cfg st ops (new_world rows)"
  have start: "plans_metered cfg m rows (new_world rows)"
    using assms(3) by (simp add: plans_metered_def new_world_def metered_def outstanding_def new_collector_def batches_fit_def)
  have "0 < Suc k * cc_max_buffer_size cfg" using assms(3) by (intro mult_pos_pos) simp_all
  then have "1 \<le> int (Suc k * cc_max_buffer_size cfg)" by linarith
  then have zero: "runs_of tenant_id (pw_recorded (new_world rows)) + running_of tenant_id (new_world rows) \<le>
      q + int (Suc k * cc_max_buffer_size cfg) - 1 + int f"
    using assms(2) unfolding new_world_def runs_of_def running_of_def plan_world.simps list.size filter.simps by linarith
  have "runs_of tenant_id (pw_recorded ?w) + running_of tenant_id ?w \<le> q + int (Suc k * cc_max_buffer_size cfg) - 1 + int f"
    using assms(6) by (intro run_plans_bounded[OF assms(1,3,4) start assms(5,7) _ zero]) (simp add: new_world_def)
  moreover have "0 \<le> running_of tenant_id ?w" by (simp add: running_of_def)
  ultimately show ?thesis by (simp add: algebra_simps)
qed

text \<open>A tenant with one plan a month and a buffer of two: two plans, whose batch waits for the loop, and two more are admitted before it commits;
  the fifth request is refused.\<close>

definition one_plan_tenant :: account_state where
  "one_plan_tenant = \<lparr>ac_users = [], ac_keys = [],
     ac_tenants = [\<lparr>tn_tenant_id = ''acme'', tn_llm_enabled = True, tn_llm_monthly_budget_usd = None, tn_llm_daily_budget_usd = None,
       tn_created_at = 0, tn_updated_at = 0, tn_plan_quota_monthly = Some 1, tn_api_quota_monthly = None, tn_ai_quota_monthly = None,
       tn_max_seats = None, tn_retention_days = 30, tn_updated_by = None, tn_deactivated_at = None\<rparr>],
     ac_tiers = [], ac_revocations = [], ac_audit = [], ac_next = 0\<rparr>"

definition five_plans :: "plan_op list" where
  "five_plans =
     [StartPlan ''acme'' (11323 * day_us + 1), EndPlan 0 True ''p1'' (11323 * day_us + 1) 1 1,
      StartPlan ''acme'' (11323 * day_us + 2), EndPlan 0 True ''p2'' (11323 * day_us + 2) 1 1,
      StartPlan ''acme'' (11323 * day_us + 3), EndPlan 0 True ''p3'' (11323 * day_us + 3) 1 1,
      StartPlan ''acme'' (11323 * day_us + 4), EndPlan 0 True ''p4'' (11323 * day_us + 4) 1 1,
      RunTask 0, StartPlan ''acme'' (11323 * day_us + 5), EndPlan 0 True ''p5'' (11323 * day_us + 5) 1 1]"

definition small_buffer :: collector_config where
  "small_buffer = default_collector_config\<lparr>cc_max_buffer_size := 2\<rparr>"

lemma one_plan_quota: "get_effective_quota ''acme'' one_plan_tenant PlanQuota = Some 1"
  by (simp add: get_effective_quota_def one_plan_tenant_def tenant_get_def)

lemma five_plans_month:
  "month_start (11323 * day_us + 1) = 11323 * day_us" "month_start (11323 * day_us + 2) = 11323 * day_us"
  "month_start (11323 * day_us + 3) = 11323 * day_us" "month_start (11323 * day_us + 4) = 11323 * day_us"
  "month_start (11323 * day_us + 5) = 11323 * day_us"
  by (rule month_start_first_day; simp add: day_us_def microseconds_per_second_def)+

lemma five_plans_in_month: "\<forall>op\<in>set five_plans. op_in_month (11323 * day_us) op"
  by (simp add: five_plans_def five_plans_month)

lemmas plan_run_simps = five_plans_def new_world_def new_collector_def plan_step_def route_plan_check_def check_plan_quota_def
  quota_allows_def one_plan_quota get_monthly_event_count_def Let_def route_plan_meter_def record_usage_event_def flush_locked_def
  database_sink_def run_task_def async_flush_def row_of_event_def small_buffer_def default_collector_config_def plan_run_def five_plans_month

lemma five_plans_run: "runs_of ''acme'' (pw_recorded (run_plans small_buffer one_plan_tenant five_plans (new_world []))) = 4"
  by (simp add: plan_run_simps runs_of_def)

lemma five_plans_paced: "paced 2 0 small_buffer one_plan_tenant five_plans (new_world [])"
  by (simp add: plan_run_simps)

theorem plan_quota_overshoot_bounded_witness:
  "runs_of ''acme'' (pw_recorded (run_plans small_buffer one_plan_tenant five_plans (new_world []))) \<le> 1 + (2 + 1) * 2 - 1 + 0 \<and>
   runs_of ''acme'' (pw_recorded (run_plans small_buffer one_plan_tenant five_plans (new_world []))) = 4"
proof
  show "runs_of ''acme'' (pw_recorded (run_plans small_buffer one_plan_tenant five_plans (new_world []))) \<le> 1 + (2 + 1) * 2 - 1 + 0"
    using plan_quota_overshoot_bounded[OF one_plan_quota _ _ _ five_plans_in_month _ five_plans_paced]
    by (simp add: small_buffer_def) (simp add: five_plans_def)
qed (rule five_plans_run)

text \<open>While the loop comes to no flush task, a tenant with any positive quota gets as many plans as it asks for, one after the other.\<close>

definition one_plan :: "string \<Rightarrow> timestamp \<Rightarrow> string \<Rightarrow> plan_op list" where
  "one_plan tenant_id now event_id = [StartPlan tenant_id now, EndPlan 0 True event_id now 0 0]"

theorem pending_tasks_escape_quota:
  assumes "get_effective_quota tenant_id st PlanQuota = Some q" and "0 < q"
  shows "runs_of tenant_id (pw_recorded (run_plans cfg st (concat (map (one_plan tenant_id now) ids)) (new_world []))) = int (length ids)"
proof -
  have passes: "route_plan_check tenant_id st now db" if "ud_rows db = []" for db
    using assms that by (simp add: route_plan_check_def check_plan_quota_def quota_allows_def get_monthly_event_count_def)
  have uncommitted: "ud_rows (snd (record_usage_event cfg (database_sink True up) t t' e c db)) = ud_rows db" for up t t' e c db
    by (simp add: record_usage_event_def flush_locked_def database_sink_def Let_def)
  have "pw_running w = [] \<Longrightarrow> ud_rows (snd (pw_meter w)) = [] \<Longrightarrow>
      runs_of tenant_id (pw_recorded (run_plans cfg st (concat (map (one_plan tenant_id now) ids)) w)) = runs_of tenant_id (pw_recorded w) + int (length ids)" for w
  proof (induction ids arbitrary: w)
    case (Cons i ids)
    let ?w = "plan_step cfg st (EndPlan 0 True i now 0 0) (plan_step cfg st (StartPlan tenant_id now) w)"
    obtain c db where cd: "pw_meter w = (c, db)" by (cases "pw_meter w")
    have "pw_running ?w = [] \<and> ud_rows (snd (pw_meter ?w)) = [] \<and> pw_recorded ?w = pw_recorded w @ [plan_run i now tenant_id]"
      using Cons.prems passes[of db] by (simp add: plan_step_def cd Let_def route_plan_meter_def uncommitted)
    with Cons.IH[of ?w] show ?case by (simp add: one_plan_def runs_of_def plan_run_def)
  qed simp
  from this[of "new_world []"] show ?thesis by (simp add: new_world_def runs_of_def)
qed

theorem pending_tasks_escape_quota_witness:
  "runs_of ''acme'' (pw_recorded (run_plans api_collector_config one_plan_tenant
     (concat (map (one_plan ''acme'' 5) (map (\<lambda>n. replicate n (CHR ''p'')) [0..<9000]))) (new_world []))) = 9000"
  using pending_tasks_escape_quota[OF one_plan_quota, of api_collector_config 5 "map (\<lambda>n. replicate n (CHR ''p'')) [0..<9000]"] by simp

end
