(* ===== verification/Billing.thy ===== *)
theory Billing
  imports Metering Access
begin

text \<open>
  Subscriptions: \<^verbatim>\<open>api/api/services/billing_service.py\<close> with the tier that a price buys, checkout and portal, the handlers of
  Stripe's events and the hourly report of usage; the routes of \<^verbatim>\<open>api/api/routers/billing.py\<close>; and the feature gate of
  \<^verbatim>\<open>api/api/dependencies.py\<close>. Stripe is a record of operations.
\<close>

subsection \<open>The billing table\<close>

record billing_row =
  bc_tenant_id :: string
  bc_stripe_customer_id :: string
  bc_stripe_subscription_id :: "string option"
  bc_plan_tier :: string
  bc_period_start :: "timestamp option"
  bc_period_end :: "timestamp option"

record billing_state =
  bl_customers :: "billing_row list"
  bl_accounts :: account_state
  bl_reported :: "(string \<times> nat \<times> int) list" \<comment> \<open>usage records sent: item, quantity and second\<close>

text \<open>The accounts with the tiers of the table, which is where the quotas and the seat limit read them.\<close>

definition billed_accounts :: "billing_state \<Rightarrow> account_state" where
  "billed_accounts st = (bl_accounts st)\<lparr>ac_tiers := map (\<lambda>r. (bc_tenant_id r, bc_plan_tier r)) (bl_customers st)\<rparr>"

definition customer_of :: "string \<Rightarrow> billing_state \<Rightarrow> billing_row option" where
  "customer_of tenant_id st = List.find (\<lambda>r. bc_tenant_id r = tenant_id) (bl_customers st)"

definition new_customer :: "string \<Rightarrow> string \<Rightarrow> billing_row" where
  "new_customer tenant_id customer_id =
     \<lparr>bc_tenant_id = tenant_id, bc_stripe_customer_id = customer_id, bc_stripe_subscription_id = None, bc_plan_tier = ''community'',
      bc_period_start = None, bc_period_end = None\<rparr>"

subsection \<open>Stripe\<close>

text \<open>What the service reads of an event's object: \<^verbatim>\<open>items\<close> has the price of each item.\<close>

record stripe_object =
  so_id :: "string option"
  so_customer :: "string option"
  so_subscription_customer :: "string option" \<comment> \<open>of a nested subscription\<close>
  so_items :: "string option list"
  so_current_period_start :: "int option"
  so_current_period_end :: "int option"
  so_metadata :: "(string \<times> string) list"

record stripe_event =
  se_type :: string
  se_object :: stripe_object

record live_subscription =
  ls_status :: "string option"
  ls_items :: "(string \<times> string option) list" \<comment> \<open>identifier and price\<close>

record checkout_params =
  cp_price :: string
  cp_quantity :: nat
  cp_success_url :: string
  cp_cancel_url :: string
  cp_tenant_id :: string
  cp_customer :: "string option"
  cp_customer_email :: "string option"

datatype verify_error = InvalidPayload | BadSignature

text \<open>The calls that may raise answer \<open>None\<close>. A session of the checkout has a customer, or none, and an address.\<close>

record stripe_api =
  sa_create_customer :: "string \<Rightarrow> nat \<Rightarrow> string option"
  sa_create_portal :: "string \<Rightarrow> string \<Rightarrow> string option"
  sa_create_checkout :: "checkout_params \<Rightarrow> (string option \<times> string) option"
  sa_retrieve_subscription :: "string \<Rightarrow> live_subscription option"
  sa_create_usage_record :: "string \<Rightarrow> nat \<Rightarrow> int \<Rightarrow> bool"
  sa_construct_event :: "string \<Rightarrow> string \<Rightarrow> string \<Rightarrow> verify_error + stripe_event"

record billing_settings =
  ss_billing_enabled :: bool
  ss_webhook_secret :: string
  ss_price_id_community :: string
  ss_price_id_team :: string
  ss_price_id_enterprise :: string
  ss_metered_price_id :: string
  ss_price_id_per_seat :: string

text \<open>Nothing configured: the settings' defaults, but with billing switched on.\<close>

definition default_billing_settings :: billing_settings where
  "default_billing_settings =
     \<lparr>ss_billing_enabled = True, ss_webhook_secret = [], ss_price_id_community = [], ss_price_id_team = [],
      ss_price_id_enterprise = [], ss_metered_price_id = [], ss_price_id_per_seat = []\<rparr>"

datatype billing_error = HttpError nat | StripeError | MultipleRows

subsection \<open>Prices and tiers\<close>

text \<open>The dictionary is built in this order, so of equal keys the last one counts.\<close>

definition tier_map :: "billing_settings \<Rightarrow> (string \<times> string) list" where
  "tier_map ss =
     (let d = dict_set (dict_set (dict_set [] (ss_price_id_community ss) ''community'') (ss_price_id_team ss) ''team'')
                (ss_price_id_enterprise ss) ''enterprise''
      in if ss_price_id_per_seat ss \<noteq> [] then dict_set d (ss_price_id_per_seat ss) ''team'' else d)"

definition price_id_to_tier :: "billing_settings \<Rightarrow> string \<Rightarrow> string" where
  "price_id_to_tier ss price_id = (case map_of (tier_map ss) price_id of None \<Rightarrow> ''community'' | Some t \<Rightarrow> t)"

subsection \<open>The service\<close>

definition get_or_create_customer ::
  "stripe_api \<Rightarrow> nat \<Rightarrow> string \<Rightarrow> billing_state \<Rightarrow> (billing_error + billing_row) \<times> billing_state" where
  "get_or_create_customer api n tenant_id st =
     (case customer_of tenant_id st of
        Some r \<Rightarrow> (Inr r, st)
      | None \<Rightarrow>
          (case sa_create_customer api tenant_id n of
             None \<Rightarrow> (Inl StripeError, st)
           | Some c \<Rightarrow> (Inr (new_customer tenant_id c), st\<lparr>bl_customers := bl_customers st @ [new_customer tenant_id c]\<rparr>)))"

record subscription_info =
  si_plan_tier :: string
  si_status :: string
  si_subscription_id :: "string option"
  si_period_start :: "timestamp option"
  si_period_end :: "timestamp option"

definition get_subscription_info :: "stripe_api \<Rightarrow> string \<Rightarrow> billing_state \<Rightarrow> subscription_info" where
  "get_subscription_info api tenant_id st =
     (case customer_of tenant_id st of
        None \<Rightarrow> \<lparr>si_plan_tier = ''community'', si_status = ''active'', si_subscription_id = None, si_period_start = None, si_period_end = None\<rparr>
      | Some r \<Rightarrow>
          \<lparr>si_plan_tier = bc_plan_tier r,
           si_status =
             (if opt_or (bc_stripe_subscription_id r) [] = [] then ''active''
              else (case sa_retrieve_subscription api (the (bc_stripe_subscription_id r)) of
                      None \<Rightarrow> ''unknown'' | Some sub \<Rightarrow> (case ls_status sub of None \<Rightarrow> ''unknown'' | Some s \<Rightarrow> s))),
           si_subscription_id = bc_stripe_subscription_id r, si_period_start = bc_period_start r, si_period_end = bc_period_end r\<rparr>)"

definition create_portal_session ::
  "stripe_api \<Rightarrow> nat \<Rightarrow> string \<Rightarrow> string \<Rightarrow> billing_state \<Rightarrow> (billing_error + string) \<times> billing_state" where
  "create_portal_session api n tenant_id return_url st =
     (case get_or_create_customer api n tenant_id st of
        (Inl e, st) \<Rightarrow> (Inl e, st)
      | (Inr r, st) \<Rightarrow>
          (case sa_create_portal api (bc_stripe_customer_id r) return_url of None \<Rightarrow> (Inl StripeError, st) | Some url \<Rightarrow> (Inr url, st)))"

definition create_checkout_session ::
  "stripe_api \<Rightarrow> billing_settings \<Rightarrow> string \<Rightarrow> string \<Rightarrow> string \<Rightarrow> string \<Rightarrow> string option \<Rightarrow> billing_state \<Rightarrow>
   (billing_error + string) \<times> billing_state" where
  "create_checkout_session api ss tenant_id price_id success_url cancel_url customer_email st =
     (let existing = customer_of tenant_id st;
          quantity = (if price_id = ss_price_id_per_seat ss then stripe_quantity tenant_id (bl_accounts st) else 1);
          known = (case existing of None \<Rightarrow> None | Some r \<Rightarrow> if bc_stripe_customer_id r \<noteq> [] then Some (bc_stripe_customer_id r) else None);
          params = \<lparr>cp_price = price_id, cp_quantity = quantity, cp_success_url = success_url, cp_cancel_url = cancel_url,
                    cp_tenant_id = tenant_id, cp_customer = known,
                    cp_customer_email = (if known = None \<and> opt_or customer_email [] \<noteq> [] then customer_email else None)\<rparr>
      in (case sa_create_checkout api params of
            None \<Rightarrow> (Inl StripeError, st)
          | Some (customer, url) \<Rightarrow>
              (Inr url,
               if existing = None \<and> opt_or customer [] \<noteq> []
               then st\<lparr>bl_customers := bl_customers st @ [new_customer tenant_id (the customer)]\<rparr> else st)))"

subsection \<open>Stripe's events\<close>

definition by_customer :: "string \<Rightarrow> billing_state \<Rightarrow> billing_error + billing_row option" where
  "by_customer c st =
     (case filter (\<lambda>r. bc_stripe_customer_id r = c) (bl_customers st) of
        [] \<Rightarrow> Inr None | [r] \<Rightarrow> Inr (Some r) | _ \<Rightarrow> Inl MultipleRows)"

definition update_customer :: "string \<Rightarrow> (billing_row \<Rightarrow> billing_row) \<Rightarrow> billing_state \<Rightarrow> billing_state" where
  "update_customer c f st = st\<lparr>bl_customers := map (\<lambda>r. if bc_stripe_customer_id r = c then f r else r) (bl_customers st)\<rparr>"

definition truthy :: "int option \<Rightarrow> bool" where "truthy x \<longleftrightarrow> x \<noteq> None \<and> x \<noteq> Some 0"

definition from_timestamp :: "int \<Rightarrow> timestamp" where "from_timestamp s = s * microseconds_per_second"

definition updated_row :: "billing_settings \<Rightarrow> stripe_object \<Rightarrow> billing_row \<Rightarrow> billing_row" where
  "updated_row ss sub r =
     r\<lparr>bc_stripe_subscription_id := so_id sub,
       bc_plan_tier := (case so_items sub of [] \<Rightarrow> bc_plan_tier r | price # _ \<Rightarrow> price_id_to_tier ss (opt_or price [])),
       bc_period_start := (if truthy (so_current_period_start sub) then map_option from_timestamp (so_current_period_start sub) else bc_period_start r),
       bc_period_end := (if truthy (so_current_period_end sub) then map_option from_timestamp (so_current_period_end sub) else bc_period_end r)\<rparr>"

text \<open>The seats of the metadata: a text that is no integer is ignored, and so is a tenant that has no configuration.\<close>

definition sync_max_seats :: "timestamp \<Rightarrow> stripe_object \<Rightarrow> string \<Rightarrow> billing_state \<Rightarrow> billing_state" where
  "sync_max_seats now sub tenant_id st =
     (case Option.bind (map_of (so_metadata sub) ''ironlayer_max_seats'') py_int of
        None \<Rightarrow> st
      | Some n \<Rightarrow>
          let acc = bl_accounts st
          in st\<lparr>bl_accounts := acc\<lparr>ac_tenants :=
                 map (\<lambda>r. if tn_tenant_id r = tenant_id \<and> tn_max_seats r \<noteq> Some n
                          then r\<lparr>tn_max_seats := Some n, tn_updated_at := now\<rparr> else r) (ac_tenants acc)\<rparr>\<rparr>)"

definition handle_subscription_update ::
  "billing_settings \<Rightarrow> timestamp \<Rightarrow> stripe_object \<Rightarrow> billing_state \<Rightarrow> (billing_error + unit) \<times> billing_state" where
  "handle_subscription_update ss now sub st =
     (let c = opt_or (so_customer sub) []
      in case by_customer c st of
           Inl e \<Rightarrow> (Inl e, st)
         | Inr None \<Rightarrow> (Inr (), st)
         | Inr (Some r) \<Rightarrow> (Inr (), sync_max_seats now sub (bc_tenant_id r) (update_customer c (updated_row ss sub) st)))"

definition deleted_row :: "billing_row \<Rightarrow> billing_row" where
  "deleted_row r = r\<lparr>bc_stripe_subscription_id := None, bc_plan_tier := ''community'', bc_period_start := None, bc_period_end := None\<rparr>"

definition handle_subscription_deleted :: "stripe_object \<Rightarrow> billing_state \<Rightarrow> (billing_error + unit) \<times> billing_state" where
  "handle_subscription_deleted sub st =
     (let c = opt_or (so_customer sub) []
      in case by_customer c st of
           Inl e \<Rightarrow> (Inl e, st)
         | Inr None \<Rightarrow> (Inr (), st)
         | Inr (Some r) \<Rightarrow> (Inr (), update_customer c deleted_row st))"

definition update_events :: "string list" where
  "update_events = [''customer.subscription.created'', ''customer.subscription.updated'']"

definition deletion_event :: string where "deletion_event = ''customer.subscription.deleted''"

text \<open>Payments are only logged.\<close>

definition handle_webhook_event ::
  "billing_settings \<Rightarrow> timestamp \<Rightarrow> stripe_event \<Rightarrow> billing_state \<Rightarrow> (billing_error + string) \<times> billing_state" where
  "handle_webhook_event ss now ev st =
     (let t = se_type ev; processed = (\<lambda>(r, st). (case r of Inl e \<Rightarrow> Inl e | Inr _ \<Rightarrow> Inr ''processed'', st))
      in if t \<in> set update_events then processed (handle_subscription_update ss now (se_object ev) st)
         else if t = deletion_event then processed (handle_subscription_deleted (se_object ev) st)
         else if t = ''invoice.paid'' \<or> t = ''invoice.payment_failed'' then (Inr ''processed'', st)
         else (Inr ''ignored'', st))"

text \<open>The tenant of an event: that of its customer, or the one in the metadata.\<close>

definition webhook_tenant :: "stripe_object \<Rightarrow> billing_state \<Rightarrow> billing_error + string option" where
  "webhook_tenant obj st =
     (let c = (if opt_or (so_customer obj) [] \<noteq> [] then so_customer obj else so_subscription_customer obj);
          named = map_of (so_metadata obj) ''ironlayer_tenant_id''
      in if opt_or c [] = [] then Inr named
         else (case by_customer (the c) st of
                 Inl e \<Rightarrow> Inl e | Inr None \<Rightarrow> Inr named | Inr (Some r) \<Rightarrow> Inr (Some (bc_tenant_id r))))"

text \<open>The route: what raises answers an error and leaves the database as it was.\<close>

definition stripe_webhook ::
  "stripe_api \<Rightarrow> billing_settings \<Rightarrow> timestamp \<Rightarrow> string \<Rightarrow> string \<Rightarrow> billing_state \<Rightarrow> (billing_error + string) \<times> billing_state" where
  "stripe_webhook api ss now body sig_header st =
     (if \<not> ss_billing_enabled ss then (Inr ''billing_disabled'', st)
      else if sig_header = [] then (Inl (HttpError 400), st)
      else (case sa_construct_event api body sig_header (ss_webhook_secret ss) of
              Inl e \<Rightarrow> (Inl (HttpError 400), st)
            | Inr ev \<Rightarrow>
                (case webhook_tenant (se_object ev) st of
                   Inl e \<Rightarrow> (Inl e, st)
                 | Inr None \<Rightarrow> (Inr ''ignored'', st)
                 | Inr (Some tenant_id) \<Rightarrow>
                     (case handle_webhook_event ss now ev st of (Inl e, st') \<Rightarrow> (Inl e, st) | (Inr s, st') \<Rightarrow> (Inr s, st')))))"

subsection \<open>Routes\<close>

definition url_ok :: "string \<Rightarrow> bool" where
  "url_ok url \<longleftrightarrow> py_strip url = url \<and> starts_with ''https://'' url \<and> (\<forall>c\<in>set [CHR 0x0A, CHR 0x0D, CHR 0x20, CHR 0x09]. c \<notin> set url)"

definition route_portal ::
  "stripe_api \<Rightarrow> billing_settings \<Rightarrow> nat \<Rightarrow> string \<Rightarrow> string \<Rightarrow> billing_state \<Rightarrow> (billing_error + string) \<times> billing_state" where
  "route_portal api ss n tenant_id return_url st =
     (if \<not> url_ok return_url then (Inl (HttpError 422), st)
      else if \<not> ss_billing_enabled ss then (Inl (HttpError 404), st)
      else (case create_portal_session api n tenant_id return_url st of (Inl e, st') \<Rightarrow> (Inl e, st) | (Inr url, st') \<Rightarrow> (Inr url, st')))"

text \<open>The address of the user is filled in when the token has a subject and the tenant has such a user.\<close>

definition route_checkout ::
  "stripe_api \<Rightarrow> billing_settings \<Rightarrow> string \<Rightarrow> string option \<Rightarrow> string \<Rightarrow> string \<Rightarrow> string \<Rightarrow> billing_state \<Rightarrow>
   (billing_error + string) \<times> billing_state" where
  "route_checkout api ss tenant_id sub price_id success_url cancel_url st =
     (if \<not> (url_ok success_url \<and> url_ok cancel_url) then (Inl (HttpError 422), st)
      else if \<not> ss_billing_enabled ss then (Inl (HttpError 404), st)
      else (case (case sub of None \<Rightarrow> Inr None | Some user_id \<Rightarrow> get_by_id tenant_id user_id (ac_users (bl_accounts st))) of
              Inl e \<Rightarrow> (Inl MultipleRows, st)
            | Inr user \<Rightarrow> create_checkout_session api ss tenant_id price_id success_url cancel_url (map_option us_email user) st))"

definition route_subscription :: "stripe_api \<Rightarrow> billing_settings \<Rightarrow> string \<Rightarrow> billing_state \<Rightarrow> subscription_info" where
  "route_subscription api ss tenant_id st =
     (if \<not> ss_billing_enabled ss
      then \<lparr>si_plan_tier = ''community'', si_status = ''active'', si_subscription_id = None, si_period_start = None, si_period_end = None\<rparr>
      else get_subscription_info api tenant_id st)"

definition tier_of_text :: "string \<Rightarrow> license_tier option" where
  "tier_of_text s =
     (if s = ''community'' then Some COMMUNITY else if s = ''team'' then Some TEAM else if s = ''enterprise'' then Some ENTERPRISE else None)"

definition require_feature :: "feature \<Rightarrow> string \<Rightarrow> account_state \<Rightarrow> billing_error + unit" where
  "require_feature f tenant_id st =
     (let tier = (case tier_of_text (plan_tier tenant_id st) of None \<Rightarrow> COMMUNITY | Some t \<Rightarrow> t)
      in if is_feature_enabled tier f then Inr () else Inl (HttpError 403))"

subsection \<open>The report of usage\<close>

text \<open>One run at \<open>now\<close> over the rows of the usage table; \<open>interval\<close> is in microseconds.\<close>

definition report_tenant ::
  "stripe_api \<Rightarrow> billing_settings \<Rightarrow> int \<Rightarrow> timestamp \<Rightarrow> usage_row list \<Rightarrow> billing_row \<Rightarrow> (string \<times> nat \<times> int) list" where
  "report_tenant api ss interval now usage r =
     (let n = length (filter (\<lambda>u. ur_tenant_id u = bc_tenant_id r \<and> ur_created_at u \<ge> now - interval) usage)
      in if n = 0 \<or> ss_metered_price_id ss = [] then []
         else (case Option.bind (bc_stripe_subscription_id r) (sa_retrieve_subscription api) of
                 None \<Rightarrow> []
               | Some sub \<Rightarrow>
                   (case List.find (\<lambda>(item, price). price = Some (ss_metered_price_id ss)) (ls_items sub) of
                      None \<Rightarrow> []
                    | Some (item, price) \<Rightarrow>
                        let sec = now div microseconds_per_second
                        in if sa_create_usage_record api item n sec then [(item, n, sec)] else [])))"

definition report_usage :: "stripe_api \<Rightarrow> billing_settings \<Rightarrow> int \<Rightarrow> timestamp \<Rightarrow> usage_row list \<Rightarrow> billing_state \<Rightarrow> billing_state" where
  "report_usage api ss interval now usage st =
     st\<lparr>bl_reported := bl_reported st @
          concat (map (report_tenant api ss interval now usage) (filter (\<lambda>r. bc_stripe_subscription_id r \<noteq> None) (bl_customers st)))\<rparr>"

end
