(* ===== verification/Billing_Facts.thy ===== *)
theory Billing_Facts
  imports Billing
begin

text \<open>
  What billing guarantees: an event of Stripe touches one customer and is harmless when it comes twice; what a tier a customer ends with;
  which tenants no event can reach; and which usage is billed.
\<close>

subsection \<open>Tiers\<close>

lemma price_id_to_tier_exact:
  "price_id_to_tier ss p =
     (if ss_price_id_per_seat ss \<noteq> [] \<and> p = ss_price_id_per_seat ss then ''team''
      else if p = ss_price_id_enterprise ss then ''enterprise'' else if p = ss_price_id_team ss then ''team'' else ''community'')"
  by (simp add: price_id_to_tier_def tier_map_def Let_def)

lemma map_of_tiers:
  "map_of (map (\<lambda>r. (bc_tenant_id r, bc_plan_tier r)) rows) t = map_option bc_plan_tier (List.find (\<lambda>r. bc_tenant_id r = t) rows)"
  by (induction rows) auto

lemma plan_tier_billed:
  "plan_tier t (billed_accounts st) = opt_or (map_option bc_plan_tier (customer_of t st)) ''community''"
  by (simp add: plan_tier_def billed_accounts_def customer_of_def map_of_tiers)

lemma find_map_same:
  "(\<And>r. P (f r) = P r) \<Longrightarrow> List.find P (map f xs) = map_option f (List.find P xs)"
  by (induction xs) auto

subsection \<open>One event\<close>

lemma updated_row_keys [simp]:
  "bc_tenant_id (updated_row ss sub r) = bc_tenant_id r" "bc_stripe_customer_id (updated_row ss sub r) = bc_stripe_customer_id r"
  "bc_tenant_id (deleted_row r) = bc_tenant_id r" "bc_stripe_customer_id (deleted_row r) = bc_stripe_customer_id r"
  by (simp_all add: updated_row_def deleted_row_def)

lemma updated_row_again [simp]: "updated_row ss sub (updated_row ss sub r) = updated_row ss sub r" "deleted_row (deleted_row r) = deleted_row r"
  by (simp_all add: updated_row_def deleted_row_def split: list.splits)

lemma sync_customers [simp]: "bl_customers (sync_max_seats now sub t st) = bl_customers st" "bl_reported (sync_max_seats now sub t st) = bl_reported st"
  by (simp_all add: sync_max_seats_def Let_def split: option.splits)

lemma update_customer_parts [simp]:
  "bl_accounts (update_customer c f st) = bl_accounts st" "bl_reported (update_customer c f st) = bl_reported st"
  by (simp_all add: update_customer_def)

lemma by_customer_sync [simp]: "by_customer c (sync_max_seats now sub t st) = by_customer c st"
  by (simp add: by_customer_def)

lemma filter_map_same: "(\<And>r. P (f r) = P r) \<Longrightarrow> filter P (map f xs) = map f (filter P xs)"
  by (induction xs) auto

lemma by_customer_update:
  assumes "\<And>r. bc_stripe_customer_id (f r) = bc_stripe_customer_id r"
  shows "by_customer d (update_customer c f st) =
     (case by_customer d st of Inl e \<Rightarrow> Inl e | Inr x \<Rightarrow> Inr (map_option (\<lambda>r. if d = c then f r else r) x))"
proof -
  let ?g = "\<lambda>r. if bc_stripe_customer_id r = c then f r else r"
  have "filter (\<lambda>r. bc_stripe_customer_id r = d) (map ?g (bl_customers st)) = map ?g (filter (\<lambda>r. bc_stripe_customer_id r = d) (bl_customers st))"
    by (rule filter_map_same) (simp add: assms)
  moreover have "\<forall>r\<in>set (filter (\<lambda>r. bc_stripe_customer_id r = d) (bl_customers st)). bc_stripe_customer_id r = d" by simp
  ultimately show ?thesis
    by (cases "filter (\<lambda>r. bc_stripe_customer_id r = d) (bl_customers st)" rule: remdups_adj.cases) (auto simp: by_customer_def update_customer_def)
qed

lemma by_customer_row: "by_customer c st = Inr (Some r) \<Longrightarrow> r \<in> set (bl_customers st) \<and> bc_stripe_customer_id r = c"
  unfolding by_customer_def by (auto split: list.splits dest!: arg_cong[where f = set])

text \<open>What one call of the webhook may do to the state.\<close>

datatype webhook_effect = NoEffect | Updated stripe_object | Deleted stripe_object

fun apply_effect :: "billing_settings \<Rightarrow> timestamp \<Rightarrow> webhook_effect \<Rightarrow> billing_state \<Rightarrow> billing_state" where
  "apply_effect ss now NoEffect st = st"
| "apply_effect ss now (Updated sub) st = snd (handle_subscription_update ss now sub st)"
| "apply_effect ss now (Deleted sub) st = snd (handle_subscription_deleted sub st)"

definition effect_of :: "stripe_api \<Rightarrow> billing_settings \<Rightarrow> string \<Rightarrow> string \<Rightarrow> billing_state \<Rightarrow> webhook_effect" where
  "effect_of api ss body sig_header st =
     (if \<not> ss_billing_enabled ss \<or> sig_header = [] then NoEffect
      else (case sa_construct_event api body sig_header (ss_webhook_secret ss) of
              Inl e \<Rightarrow> NoEffect
            | Inr ev \<Rightarrow>
                (case webhook_tenant (se_object ev) st of
                   Inr (Some tenant_id) \<Rightarrow>
                     if se_type ev \<in> set update_events then Updated (se_object ev)
                     else if se_type ev = deletion_event then Deleted (se_object ev) else NoEffect
                 | _ \<Rightarrow> NoEffect)))"

lemma handler_failure:
  "fst (handle_subscription_update ss now sub st) = Inl e \<Longrightarrow> snd (handle_subscription_update ss now sub st) = st"
  "fst (handle_subscription_deleted sub st) = Inl e \<Longrightarrow> snd (handle_subscription_deleted sub st) = st"
  by (auto simp: handle_subscription_update_def handle_subscription_deleted_def Let_def split: sum.splits option.splits)

lemma webhook_effects: "snd (stripe_webhook api ss now body sig_header st) = apply_effect ss now (effect_of api ss body sig_header st) st"
  using handler_failure
  by (auto simp: stripe_webhook_def effect_of_def handle_webhook_event_def Let_def split: sum.splits option.splits prod.splits) (metis fst_conv snd_conv)+

lemma by_customer_effect:
  "by_customer d (apply_effect ss now e st) = (case by_customer d st of Inl x \<Rightarrow> Inl x | Inr None \<Rightarrow> Inr None | Inr (Some r) \<Rightarrow>
     Inr (Some (case e of NoEffect \<Rightarrow> r
       | Updated sub \<Rightarrow> if d = opt_or (so_customer sub) [] then updated_row ss sub r else r
       | Deleted sub \<Rightarrow> if d = opt_or (so_customer sub) [] then deleted_row r else r)))"
  by (cases e; cases "by_customer d st")
    (auto simp: handle_subscription_update_def handle_subscription_deleted_def Let_def by_customer_update split: sum.splits option.splits)

lemma webhook_tenant_effect: "webhook_tenant obj (apply_effect ss now e st) = webhook_tenant obj st"
  unfolding webhook_tenant_def Let_def by_customer_effect by (auto split: sum.splits option.splits webhook_effect.splits)

lemma effect_stable: "effect_of api ss body sig_header (apply_effect ss now e st) = effect_of api ss body sig_header st"
  by (cases "sa_construct_event api body sig_header (ss_webhook_secret ss)") (simp_all add: effect_of_def webhook_tenant_effect)

lemma update_customer_again:
  "(\<And>r. f (f r) = f r) \<Longrightarrow> (\<And>r. bc_stripe_customer_id (f r) = bc_stripe_customer_id r) \<Longrightarrow>
   update_customer c f (update_customer c f st) = update_customer c f st"
  by (simp add: update_customer_def)

lemma sync_again:
  "sync_max_seats now' sub t (update_customer c f (sync_max_seats now sub t st)) = update_customer c f (sync_max_seats now sub t st)"
proof -
  have "(\<lambda>r. if tn_tenant_id r = t \<and> tn_max_seats r \<noteq> Some n then r\<lparr>tn_max_seats := Some n, tn_updated_at := now'\<rparr> else r) \<circ>
      (\<lambda>r. if tn_tenant_id r = t \<and> tn_max_seats r \<noteq> Some n then r\<lparr>tn_max_seats := Some n, tn_updated_at := now\<rparr> else r) =
      (\<lambda>r. if tn_tenant_id r = t \<and> tn_max_seats r \<noteq> Some n then r\<lparr>tn_max_seats := Some n, tn_updated_at := now\<rparr> else r)" for n
    by (auto simp: fun_eq_iff)
  then show ?thesis by (auto simp: sync_max_seats_def update_customer_def Let_def split: option.splits)
qed

lemma update_customer_sync: "update_customer c f (sync_max_seats now sub t st) = sync_max_seats now sub t (update_customer c f st)"
  by (simp add: sync_max_seats_def update_customer_def Let_def split: option.splits)

lemma effect_again: "apply_effect ss now' e (apply_effect ss now e st) = apply_effect ss now e st"
proof (cases e)
  case (Updated sub)
  show ?thesis
  proof (cases "by_customer (opt_or (so_customer sub) []) st")
    case (Inr x)
    then show ?thesis
      using Updated sync_again[of now' sub _ _ _ now st] update_customer_again[of "updated_row ss sub" "opt_or (so_customer sub) []" st]
      by (cases x) (simp_all add: handle_subscription_update_def Let_def by_customer_update update_customer_sync sync_again[of _ _ _ "opt_or (so_customer sub) []" "updated_row ss sub" _ st, simplified update_customer_sync])
  qed (simp add: Updated handle_subscription_update_def Let_def)
next
  case (Deleted sub)
  show ?thesis
  proof (cases "by_customer (opt_or (so_customer sub) []) st")
    case (Inr x)
    then show ?thesis
      using Deleted update_customer_again[of deleted_row "opt_or (so_customer sub) []" st]
      by (cases x) (simp_all add: handle_subscription_deleted_def Let_def by_customer_update)
  qed (simp add: Deleted handle_subscription_deleted_def Let_def)
qed simp

text \<open>Redelivery of a Stripe event is harmless: delivering the same event again, at any later time, changes nothing.\<close>

theorem webhook_redelivery_harmless:
  "snd (stripe_webhook api ss now' body sig_header (snd (stripe_webhook api ss now body sig_header st))) =
   snd (stripe_webhook api ss now body sig_header st)"
  by (simp add: webhook_effects effect_stable effect_again)

subsection \<open>Many events\<close>

text \<open>Calls of the webhook: instant, body and signature.\<close>

type_synonym webhook_call = "timestamp \<times> string \<times> string"

definition deliver :: "stripe_api \<Rightarrow> billing_settings \<Rightarrow> webhook_call list \<Rightarrow> billing_state \<Rightarrow> billing_state" where
  "deliver api ss calls st = foldl (\<lambda>st (now, body, sig_header). snd (stripe_webhook api ss now body sig_header st)) st calls"

lemma effect_tenants: "map bc_tenant_id (bl_customers (apply_effect ss now e st)) = map bc_tenant_id (bl_customers st)"
  by (cases e) (auto simp: handle_subscription_update_def handle_subscription_deleted_def Let_def update_customer_def split: sum.splits option.splits)

lemma deliver_tenants: "map bc_tenant_id (bl_customers (deliver api ss calls st)) = map bc_tenant_id (bl_customers st)"
proof (induction calls arbitrary: st)
  case (Cons c calls)
  obtain now body sig_header where c: "c = (now, body, sig_header)" by (metis prod_cases3)
  show ?case using Cons by (simp add: deliver_def c webhook_effects effect_tenants)
qed (simp add: deliver_def)

lemma customer_of_None: "customer_of t st = None \<longleftrightarrow> t \<notin> set (map bc_tenant_id (bl_customers st))"
  by (auto simp: customer_of_def find_None_iff)

text \<open>C24: A tenant that buys its first subscription at the checkout stays on the community tier. Where the request names no
  customer, Stripe creates one when the payment succeeds, so the session it answers has none yet and no billing row is written; and no event of Stripe, whatever it says, reaches a
  tenant without a row, not even one whose metadata names the tenant.\<close>

theorem first_checkout_never_upgrades:
  assumes "customer_of tenant_id st = None"
    and "\<forall>params. cp_customer params = None \<longrightarrow> (case sa_create_checkout api params of None \<Rightarrow> True | Some (customer, url) \<Rightarrow> customer = None)"
    and "route_checkout api ss tenant_id sub price_id success_url cancel_url st = (Inr checkout_url, st')"
  shows "plan_tier tenant_id (billed_accounts (deliver api ss calls st')) = ''community''"
proof -
  have none: "customer = None" if "sa_create_checkout api params = Some (customer, url)" "cp_customer params = None" for params customer url
    using assms(2)[rule_format, OF that(2)] that(1) by simp
  have "st' = st" using assms(1,3)
    by (auto dest!: none simp: route_checkout_def create_checkout_session_def Let_def opt_or_def split: if_splits sum.splits option.splits prod.splits)
  then have "customer_of tenant_id (deliver api ss calls st') = None" using assms(1) by (simp add: customer_of_None deliver_tenants)
  then show ?thesis by (simp add: plan_tier_billed opt_or_def)
qed

definition billed_tenant :: "billing_row \<Rightarrow> string \<Rightarrow> tenant_row list \<Rightarrow> billing_state" where
  "billed_tenant r url tenants =
     \<lparr>bl_customers = [r],
      bl_accounts = \<lparr>ac_users = [], ac_keys = [], ac_tenants = tenants, ac_tiers = [], ac_revocations = [], ac_audit = [], ac_next = 0\<rparr>,
      bl_reported = []\<rparr>"

definition demo_object :: stripe_object where
  "demo_object =
     \<lparr>so_id = Some ''sub_1'', so_customer = Some ''cus_1'', so_subscription_customer = None, so_items = [Some ''price_team''],
      so_current_period_start = Some 1700000000, so_current_period_end = Some 1702592000,
      so_metadata = [(''ironlayer_tenant_id'', ''acme'')]\<rparr>"

text \<open>A Stripe that answers with the customer it was asked for and makes others at the payment, and whose signature on a body is the body itself.\<close>

definition demo_stripe :: stripe_api where
  "demo_stripe =
     \<lparr>sa_create_customer = (\<lambda>t n. Some ''cus_1''), sa_create_portal = (\<lambda>c url. Some ''https://portal''),
      sa_create_checkout = (\<lambda>params. Some (cp_customer params, ''https://pay'')),
      sa_retrieve_subscription = (\<lambda>s. Some \<lparr>ls_status = Some ''active'', ls_items = [(''si_1'', Some ''price_metered'')]\<rparr>),
      sa_create_usage_record = (\<lambda>item n sec. True),
      sa_construct_event = (\<lambda>body sig_header secret.
        if sig_header = body then Inr \<lparr>se_type = ''customer.subscription.created'', se_object = demo_object\<rparr> else Inl BadSignature)\<rparr>"

definition demo_billing_settings :: billing_settings where
  "demo_billing_settings = default_billing_settings\<lparr>ss_price_id_team := ''price_team'', ss_metered_price_id := ''price_metered''\<rparr>"

definition no_customers :: billing_state where
  "no_customers =
     \<lparr>bl_customers = [],
      bl_accounts = \<lparr>ac_users = [], ac_keys = [], ac_tenants = [], ac_tiers = [], ac_revocations = [], ac_audit = [], ac_next = 0\<rparr>,
      bl_reported = []\<rparr>"

lemma url_ok_demo: "url_ok ''https://a''"
  by code_simp

theorem first_checkout_never_upgrades_witness:
  "plan_tier ''acme'' (billed_accounts (deliver demo_stripe demo_billing_settings [(5, ''event'', ''event'')] no_customers)) = ''community'' \<and>
   plan_tier ''acme'' (billed_accounts (deliver demo_stripe demo_billing_settings [(5, ''event'', ''event'')]
     (snd (route_portal demo_stripe demo_billing_settings 0 ''acme'' ''https://a'' no_customers)))) = ''team''"
proof
  show "plan_tier ''acme'' (billed_accounts (deliver demo_stripe demo_billing_settings [(5, ''event'', ''event'')] no_customers)) = ''community''"
    by (rule first_checkout_never_upgrades[where sub = None and price_id = "''price_team''" and success_url = "''https://a''" and cancel_url = "''https://a''"
          and st = no_customers and st' = no_customers and checkout_url = "''https://pay''"])
      (simp_all add: no_customers_def customer_of_def demo_stripe_def route_checkout_def url_ok_demo demo_billing_settings_def
        default_billing_settings_def create_checkout_session_def Let_def opt_or_def)
  show "plan_tier ''acme'' (billed_accounts (deliver demo_stripe demo_billing_settings [(5, ''event'', ''event'')]
     (snd (route_portal demo_stripe demo_billing_settings 0 ''acme'' ''https://a'' no_customers)))) = ''team''"
    by (simp add: plan_tier_billed route_portal_def url_ok_demo create_portal_session_def get_or_create_customer_def customer_of_def
        no_customers_def demo_billing_settings_def default_billing_settings_def deliver_def stripe_webhook_def webhook_tenant_def
        handle_webhook_event_def handle_subscription_update_def by_customer_def demo_stripe_def demo_object_def opt_or_def Let_def
        new_customer_def update_events_def update_customer_def sync_max_seats_def updated_row_def price_id_to_tier_exact)
qed

subsection \<open>Other customers\<close>

lemma find_distinct:
  "distinct (map k xs) \<Longrightarrow> x \<in> set xs \<Longrightarrow> List.find (\<lambda>y. k y = k x) xs = Some x"
  by (induction xs) (auto simp: image_iff)

lemma find_row_map:
  assumes "distinct (map bc_tenant_id rows)" and "List.find (\<lambda>r. bc_tenant_id r = t) rows = Some r" and "g r = r"
    and "\<And>x. bc_tenant_id (g x) = bc_tenant_id x"
  shows "List.find (\<lambda>r. bc_tenant_id r = t) (map g rows) = Some r"
  using assms by (simp add: find_map_same)

lemma tenant_get_map:
  "\<forall>r. tn_tenant_id (g r) = tn_tenant_id r \<Longrightarrow> \<forall>r. tn_tenant_id r = t \<longrightarrow> g r = r \<Longrightarrow> tenant_get t (map g rows) = tenant_get t rows"
  by (induction rows) (auto simp: tenant_get_def)

lemma sync_other: "t \<noteq> tenant_id \<Longrightarrow> tenant_get t (ac_tenants (bl_accounts (sync_max_seats now sub tenant_id st))) = tenant_get t (ac_tenants (bl_accounts st))"
  by (auto simp: sync_max_seats_def Let_def intro!: tenant_get_map split: option.splits)

lemma effect_other:
  assumes tenants: "distinct (map bc_tenant_id (bl_customers st))" and r: "customer_of t st = Some r"
    and e: "\<forall>sub. e \<in> {Updated sub, Deleted sub} \<longrightarrow> opt_or (so_customer sub) [] \<noteq> bc_stripe_customer_id r"
  shows "customer_of t (apply_effect ss now e st) = Some r \<and>
    tenant_get t (ac_tenants (bl_accounts (apply_effect ss now e st))) = tenant_get t (ac_tenants (bl_accounts st))"
proof -
  have rt: "bc_tenant_id r = t" "r \<in> set (bl_customers st)" using r by (auto simp: customer_of_def find_Some_iff)
  have other: "bc_tenant_id q \<noteq> t" if "by_customer c st = Inr (Some q)" "c \<noteq> bc_stripe_customer_id r" for c q
  proof
    assume "bc_tenant_id q = t"
    then have "q = r" using by_customer_row[OF that(1)] rt tenants by (metis distinct_map inj_onD)
    then show False using by_customer_row[OF that(1)] that(2) by simp
  qed
  have upd: "customer_of t (update_customer c f st) = Some r"
    if "c \<noteq> bc_stripe_customer_id r" "\<And>x. bc_tenant_id (f x) = bc_tenant_id x" for c f
    using find_row_map[OF tenants, of t r "\<lambda>x. if bc_stripe_customer_id x = c then f x else x"] r that by (simp add: customer_of_def update_customer_def)
  show ?thesis
  proof (cases e)
    case NoEffect
    then show ?thesis using r by simp
  next
    case (Updated sub)
    show ?thesis
    proof (cases "by_customer (opt_or (so_customer sub) []) st")
      case (Inr x)
      show ?thesis
      proof (cases x)
        case (Some q)
        have "t \<noteq> bc_tenant_id q" using other[of _ q] Inr Some Updated e by auto
        then show ?thesis using Updated Inr Some e upd[of _ "updated_row ss sub"]
          by (simp add: handle_subscription_update_def Let_def customer_of_def sync_other)
      qed (use Updated Inr r in \<open>simp add: handle_subscription_update_def Let_def\<close>)
    qed (use Updated r in \<open>simp add: handle_subscription_update_def Let_def\<close>)
  next
    case (Deleted sub)
    show ?thesis
    proof (cases "by_customer (opt_or (so_customer sub) []) st")
      case (Inr x)
      then show ?thesis using Deleted e r upd[of _ deleted_row]
        by (cases x) (auto simp: handle_subscription_deleted_def Let_def)
    qed (use Deleted r in \<open>simp add: handle_subscription_deleted_def Let_def\<close>)
  qed
qed

text \<open>C23: A tenant's subscription is changed only by genuine events about its own customer: a request whose signature Stripe does not verify,
  and a verified event about any other customer, leave the tenant's billing row and its configuration as they were, whatever tenant the
  metadata of the event names.\<close>

theorem webhook_confined:
  assumes "distinct (map bc_tenant_id (bl_customers st))" and "customer_of tenant_id st = Some r" and "bc_stripe_customer_id r \<noteq> []"
    and "\<forall>ev. sa_construct_event api body sig_header (ss_webhook_secret ss) = Inr ev \<longrightarrow> so_customer (se_object ev) \<noteq> Some (bc_stripe_customer_id r)"
  shows "customer_of tenant_id (snd (stripe_webhook api ss now body sig_header st)) = Some r \<and>
    tenant_get tenant_id (ac_tenants (bl_accounts (snd (stripe_webhook api ss now body sig_header st)))) =
      tenant_get tenant_id (ac_tenants (bl_accounts st))"
  unfolding webhook_effects
  by (rule effect_other[OF assms(1,2)])
    (use assms(3,4) in \<open>auto simp: effect_of_def opt_or_def split: if_splits sum.splits option.splits\<close>)

text \<open>Another customer's event, and a forged one, for a tenant with a row.\<close>

definition demo_billing :: billing_state where
  "demo_billing = billed_tenant (new_customer ''initech'' ''cus_2'') [] []"

theorem webhook_confined_witness:
  "customer_of ''initech'' (snd (stripe_webhook demo_stripe demo_billing_settings 5 ''event'' ''event'' demo_billing)) =
     Some (new_customer ''initech'' ''cus_2'')"
  using webhook_confined[of demo_billing "''initech''" "new_customer ''initech'' ''cus_2''" demo_stripe "''event''" "''event''" demo_billing_settings 5]
  by (simp add: demo_billing_def billed_tenant_def customer_of_def new_customer_def demo_stripe_def demo_object_def)

subsection \<open>A subscription without a price\<close>

lemma enterprise_has_every_feature: "is_feature_enabled ENTERPRISE f"
  by (cases f) (simp_all add: is_feature_enabled_def feature_sets)

lemma by_customer_own:
  assumes "distinct (map bc_tenant_id (bl_customers st))" and "customer_of t st = Some r" and "by_customer c st = Inr (Some q)" and "bc_stripe_customer_id r = c"
  shows "q = r"
proof -
  have "r \<in> set (filter (\<lambda>r. bc_stripe_customer_id r = c) (bl_customers st))"
    using assms(2,4) by (auto simp: customer_of_def find_Some_iff)
  then show ?thesis using assms(3) unfolding by_customer_def
    by (cases "filter (\<lambda>r. bc_stripe_customer_id r = c) (bl_customers st)" rule: remdups_adj.cases) simp_all
qed

text \<open>Where no price is configured for the enterprise tier, a subscription whose first item shows no price unlocks everything: the empty
  default of the setting is a key of the price table and the empty text is what a missing price reads as, so the event gives its
  customer the enterprise tier, and the gate of every feature opens.\<close>

theorem missing_price_opens_everything:
  assumes "distinct (map bc_tenant_id (bl_customers st))" and "customer_of tenant_id st = Some r" and "by_customer c st = Inr (Some r)"
    and "c \<noteq> []" and "ss_billing_enabled ss" and "ss_price_id_enterprise ss = []" and "sig_header \<noteq> []"
    and "sa_construct_event api body sig_header (ss_webhook_secret ss) = Inr ev"
    and "se_type ev \<in> set update_events" and "so_customer (se_object ev) = Some c" and "so_items (se_object ev) = None # items"
  shows "require_feature f tenant_id (billed_accounts (snd (stripe_webhook api ss now body sig_header st))) = Inr ()"
proof -
  let ?st = "snd (stripe_webhook api ss now body sig_header st)"
  have c: "opt_or (so_customer (se_object ev)) [] = c" using assms(4,10) by (simp add: opt_or_def)
  then have "effect_of api ss body sig_header st = Updated (se_object ev)"
    using assms by (simp add: effect_of_def webhook_tenant_def)
  then have "bl_customers ?st = map (\<lambda>r. if bc_stripe_customer_id r = c then updated_row ss (se_object ev) r else r) (bl_customers st)"
    using assms(3) c by (simp add: webhook_effects handle_subscription_update_def update_customer_def)
  then have "customer_of tenant_id ?st = Some (updated_row ss (se_object ev) r)"
    using assms(2) by_customer_row[OF assms(3)] by (simp add: customer_of_def find_map_same)
  moreover have "bc_plan_tier (updated_row ss (se_object ev) r) = ''enterprise''"
    using assms(6,11) by (cases "ss_price_id_per_seat ss") (simp_all add: updated_row_def price_id_to_tier_exact opt_or_def)
  ultimately have "plan_tier tenant_id (billed_accounts ?st) = ''enterprise''" by (simp add: plan_tier_billed opt_or_def)
  then show ?thesis by (simp add: require_feature_def tier_of_text_def enterprise_has_every_feature)
qed

theorem missing_price_opens_everything_witness:
  "require_feature SSO_OIDC ''acme'' (billed_accounts (snd (stripe_webhook
     (demo_stripe\<lparr>sa_construct_event := \<lambda>body sig_header secret.
        Inr \<lparr>se_type = ''customer.subscription.updated'', se_object = demo_object\<lparr>so_items := [None]\<rparr>\<rparr>\<rparr>)
     demo_billing_settings 5 ''event'' ''sig'' (billed_tenant (new_customer ''acme'' ''cus_1'') [] [])))) = Inr ()"
  by (rule missing_price_opens_everything[where r = "new_customer ''acme'' ''cus_1''" and c = "''cus_1''"
        and ev = "\<lparr>se_type = ''customer.subscription.updated'', se_object = demo_object\<lparr>so_items := [None]\<rparr>\<rparr>" and items = "[]"])
    (simp_all add: billed_tenant_def customer_of_def new_customer_def by_customer_def demo_billing_settings_def default_billing_settings_def
      update_events_def demo_object_def)

subsection \<open>Reported usage\<close>



definition reported_amount :: "string \<Rightarrow> (string \<times> nat \<times> int) list \<Rightarrow> nat" where
  "reported_amount item records = sum_list (map (\<lambda>(i, n, sec). n) (filter (\<lambda>(i, n, sec). i = item) records))"




lemma reported_amount_append [simp]:
  "reported_amount item (xs @ ys) = reported_amount item xs + reported_amount item ys" "reported_amount item [] = 0"
  by (simp_all add: reported_amount_def)










end
