(* ===== verification/Invoices.thy ===== *)
theory Invoices
  imports Billing Stores Metering_Facts
begin

text \<open>
  Invoices: \<^verbatim>\<open>InvoiceRepository\<close> of \<^verbatim>\<open>core_engine/core_engine/state/repository.py\<close> and \<^verbatim>\<open>api/api/services/invoice_service.py\<close>,
  with the numbers of a month, the line items of a period, invoices made from Stripe's events, and the files of the rendered documents.
  The rendering and the resolution of paths by the file system are parameters; durations of a write are not modelled.
\<close>

subsection \<open>The month of an instant\<close>

fun walk_index :: "nat \<Rightarrow> nat \<Rightarrow> int \<Rightarrow> int \<Rightarrow> nat" where
  "walk_index 0 i s d = i"
| "walk_index (Suc k) i s d = (if d < s + month_length i then i else walk_index k (Suc i) (s + month_length i) d)"

definition civil_month :: "timestamp \<Rightarrow> int \<times> nat" where
  "civil_month t =
     (let d = t div day_us - 11323; i = walk_index 4799 0 0 (d mod cycle_days)
      in (2001 + 400 * (d div cycle_days) + int (i div 12), i mod 12 + 1))"

text \<open>\<open>pad k s\<close> fills with zeros on the left; \<^verbatim>\<open>strftime('%Y%m')\<close> of a year with four digits.\<close>

definition pad :: "nat \<Rightarrow> string \<Rightarrow> string" where
  "pad k s = replicate (k - length s) (CHR ''0'') @ s"

definition month_label :: "timestamp \<Rightarrow> string" where
  "month_label t = (let (y, m) = civil_month t in int_string y @ pad 2 (nat_digits m))"

subsection \<open>The repository\<close>

record line_item =
  li_description :: string
  li_quantity :: int
  li_unit_price :: rat
  li_amount :: rat

record invoice_row =
  iv_invoice_id :: string
  iv_tenant_id :: string
  iv_stripe_invoice_id :: "string option"
  iv_invoice_number :: string
  iv_period_start :: timestamp
  iv_period_end :: timestamp
  iv_subtotal_usd :: rat
  iv_tax_usd :: rat
  iv_total_usd :: rat
  iv_line_items :: "line_item list"
  iv_pdf_storage_key :: "string option"
  iv_status :: string
  iv_created_at :: timestamp

datatype invoice_error = InvoiceConflict | InvoiceStatusCheck | InvalidId | PathTraversal | DuplicateRows

definition ck_invoices_status :: "string \<Rightarrow> bool" where
  "ck_invoices_status s \<longleftrightarrow> s \<in> {''generated'', ''paid'', ''void''}"

definition invoice_create :: "invoice_row \<Rightarrow> invoice_row list \<Rightarrow> invoice_error + invoice_row list" where
  "invoice_create row tbl =
     (if list_ex (\<lambda>r. iv_invoice_id r = iv_invoice_id row \<or>
                      iv_tenant_id r = iv_tenant_id row \<and> iv_invoice_number r = iv_invoice_number row) tbl then Inl InvoiceConflict
      else if \<not> ck_invoices_status (iv_status row) then Inl InvoiceStatusCheck
      else Inr (tbl @ [row]))"

definition invoice_get :: "string \<Rightarrow> string \<Rightarrow> invoice_row list \<Rightarrow> invoice_row option" where
  "invoice_get t invoice_id tbl = List.find (\<lambda>r. iv_tenant_id r = t \<and> iv_invoice_id r = invoice_id) tbl"

definition invoice_list :: "string \<Rightarrow> nat \<Rightarrow> nat \<Rightarrow> invoice_row list \<Rightarrow> invoice_row list \<times> nat" where
  "invoice_list t limit offset tbl =
     (let mine = filter (\<lambda>r. iv_tenant_id r = t) tbl
      in (take limit (drop offset (sort_key (\<lambda>r. - iv_created_at r) mine)), length mine))"

definition invoice_update :: "string \<Rightarrow> string \<Rightarrow> (invoice_row \<Rightarrow> invoice_row) \<Rightarrow> invoice_row list \<Rightarrow> bool \<times> invoice_row list" where
  "invoice_update t invoice_id f tbl =
     (list_ex (\<lambda>r. iv_tenant_id r = t \<and> iv_invoice_id r = invoice_id) tbl,
      map (\<lambda>r. if iv_tenant_id r = t \<and> iv_invoice_id r = invoice_id then f r else r) tbl)"

definition update_pdf_key :: "string \<Rightarrow> string \<Rightarrow> string \<Rightarrow> invoice_row list \<Rightarrow> bool \<times> invoice_row list" where
  "update_pdf_key t invoice_id key tbl = invoice_update t invoice_id (\<lambda>r. r\<lparr>iv_pdf_storage_key := Some key\<rparr>) tbl"

definition update_status :: "string \<Rightarrow> string \<Rightarrow> string \<Rightarrow> invoice_row list \<Rightarrow> invoice_error + bool \<times> invoice_row list" where
  "update_status t invoice_id status tbl =
     (if list_ex (\<lambda>r. iv_tenant_id r = t \<and> iv_invoice_id r = invoice_id) tbl \<and> \<not> ck_invoices_status status then Inl InvoiceStatusCheck
      else Inr (invoice_update t invoice_id (\<lambda>r. r\<lparr>iv_status := status\<rparr>) tbl))"

definition number_prefix :: "timestamp \<Rightarrow> string" where
  "number_prefix now = ''INV-'' @ month_label now @ ''-''"

definition numbered :: "string \<Rightarrow> string \<Rightarrow> invoice_row \<Rightarrow> bool" where
  "numbered t p r \<longleftrightarrow> iv_tenant_id r = t \<and> starts_with p (iv_invoice_number r)"

definition get_next_invoice_number :: "timestamp \<Rightarrow> string \<Rightarrow> invoice_row list \<Rightarrow> string" where
  "get_next_invoice_number now t tbl =
     (let p = number_prefix now in p @ pad 4 (nat_digits (length (filter (numbered t p) tbl) + 1)))"

definition get_by_stripe_invoice :: "string \<Rightarrow> string \<Rightarrow> invoice_row list \<Rightarrow> invoice_error + invoice_row option" where
  "get_by_stripe_invoice t stripe_invoice_id tbl =
     (case filter (\<lambda>r. iv_tenant_id r = t \<and> iv_stripe_invoice_id r = Some stripe_invoice_id) tbl of
        [] \<Rightarrow> Inr None | [r] \<Rightarrow> Inr (Some r) | _ \<Rightarrow> Inl DuplicateRows)"

subsection \<open>Files\<close>

definition safe_char :: "char \<Rightarrow> bool" where
  "safe_char c = (let n = (of_char c :: nat) in 48 \<le> n \<and> n \<le> 57 \<or> 65 \<le> n \<and> n \<le> 90 \<or> 97 \<le> n \<and> n \<le> 122 \<or> n = 95 \<or> n = 45)"

text \<open>The end anchor of the pattern also matches before a final line feed.\<close>

definition safe_component :: "string \<Rightarrow> bool" where
  "safe_component s =
     (let body = (if s \<noteq> [] \<and> last s = CHR 0x0A then butlast s else s) in body \<noteq> [] \<and> list_all safe_char body)"

record invoice_env =
  ie_storage_path :: string
  ie_resolve :: "string \<Rightarrow> string"
  ie_render :: "invoice_row \<Rightarrow> string"

definition resolve_safe_path :: "invoice_env \<Rightarrow> string \<Rightarrow> string \<Rightarrow> invoice_error + string" where
  "resolve_safe_path env tenant_id invoice_id =
     (if \<not> (safe_component tenant_id \<and> safe_component invoice_id) then Inl InvalidId
      else
        let base = ie_resolve env (ie_storage_path env); full = ie_resolve env (base @ ''/'' @ tenant_id @ ''/'' @ invoice_id @ ''.pdf'')
        in if \<not> starts_with base full then Inl PathTraversal else Inr full)"

record invoice_state =
  is_invoices :: "invoice_row list"
  is_files :: "(string \<times> string) list"

definition store_pdf :: "invoice_env \<Rightarrow> string \<Rightarrow> string \<Rightarrow> string \<Rightarrow> invoice_state \<Rightarrow> (invoice_error + string) \<times> invoice_state" where
  "store_pdf env t invoice_id content st =
     (case resolve_safe_path env t invoice_id of
        Inl e \<Rightarrow> (Inl e, st)
      | Inr path \<Rightarrow> (Inr path, st\<lparr>is_files := dict_set (is_files st) path content\<rparr>))"

definition get_pdf :: "invoice_env \<Rightarrow> string \<Rightarrow> string \<Rightarrow> invoice_state \<Rightarrow> invoice_error + string option" where
  "get_pdf env t invoice_id st =
     (if \<not> safe_component invoice_id then Inl InvalidId
      else (case Option.bind (invoice_get t invoice_id (is_invoices st)) iv_pdf_storage_key of
              None \<Rightarrow> Inr None
            | Some key \<Rightarrow>
                if key = [] then Inr None
                else
                  let base = ie_resolve env (ie_storage_path env); path = ie_resolve env key
                  in if \<not> starts_with base path then Inl PathTraversal else Inr (map_of (is_files st) path)))"

subsection \<open>Generation\<close>

definition usage_quantity :: "string \<Rightarrow> string \<Rightarrow> timestamp \<Rightarrow> timestamp \<Rightarrow> usage_row list \<Rightarrow> int" where
  "usage_quantity t event_type p_start p_end usage =
     sum_list (map ur_quantity (filter (\<lambda>u. ur_tenant_id u = t \<and> ur_event_type u = event_type \<and> p_start \<le> ur_created_at u \<and> ur_created_at u < p_end) usage))"

definition included_item :: "string \<Rightarrow> int \<Rightarrow> line_item list" where
  "included_item description n =
     (if n > 0 then [\<lparr>li_description = description, li_quantity = n, li_unit_price = 0, li_amount = 0\<rparr>] else [])"

definition priced_item :: "string \<Rightarrow> rat \<Rightarrow> line_item list" where
  "priced_item description cost =
     (if cost > 0 then [\<lparr>li_description = description, li_quantity = 1, li_unit_price = cost, li_amount = cost\<rparr>] else [])"

definition run_cost :: "string \<Rightarrow> timestamp \<Rightarrow> timestamp \<Rightarrow> run_row list \<Rightarrow> rat" where
  "run_cost t p_start p_end runs =
     py_round (sum_list (map (the \<circ> rn_cost) (filter (\<lambda>r. rn_tenant r = t \<and> rn_cost r \<noteq> None \<and>
       (case rn_started r of None \<Rightarrow> False | Some s \<Rightarrow> p_start \<le> s \<and> s < p_end)) runs))) 2"

definition llm_cost :: "string \<Rightarrow> timestamp \<Rightarrow> timestamp \<Rightarrow> llm_row list \<Rightarrow> rat" where
  "llm_cost t p_start p_end calls =
     py_round (sum_list (map lg_cost (filter (\<lambda>r. lg_tenant_id r = t \<and> p_start \<le> lg_created_at r \<and> lg_created_at r < p_end) calls))) 2"

definition line_items_of ::
  "string \<Rightarrow> timestamp \<Rightarrow> timestamp \<Rightarrow> usage_row list \<Rightarrow> run_row list \<Rightarrow> llm_row list \<Rightarrow> line_item list" where
  "line_items_of t p_start p_end usage runs calls =
     included_item ''Plan Runs'' (usage_quantity t ''plan_run'' p_start p_end usage) @
     included_item ''AI Advisory Calls'' (usage_quantity t ''ai_call'' p_start p_end usage) @
     priced_item ''Compute Cost (Databricks)'' (run_cost t p_start p_end runs) @
     priced_item ''LLM Usage (AI Advisory)'' (llm_cost t p_start p_end calls) @
     included_item ''API Requests'' (usage_quantity t ''api_request'' p_start p_end usage)"

text \<open>The document is stored before the row; a row that is refused leaves its file behind.\<close>

definition persist_invoice :: "invoice_env \<Rightarrow> invoice_row \<Rightarrow> invoice_state \<Rightarrow> (invoice_error + invoice_row) \<times> invoice_state" where
  "persist_invoice env row st =
     (case store_pdf env (iv_tenant_id row) (iv_invoice_id row) (ie_render env row) st of
        (Inl e, st) \<Rightarrow> (Inl e, st)
      | (Inr path, st) \<Rightarrow>
          (let row = row\<lparr>iv_pdf_storage_key := Some path\<rparr>
           in case invoice_create row (is_invoices st) of
                Inl e \<Rightarrow> (Inl e, st)
              | Inr tbl \<Rightarrow> (Inr row, st\<lparr>is_invoices := tbl\<rparr>)))"

definition generate_invoice ::
  "invoice_env \<Rightarrow> timestamp \<Rightarrow> string \<Rightarrow> string \<Rightarrow> timestamp \<Rightarrow> timestamp \<Rightarrow> usage_row list \<Rightarrow> run_row list \<Rightarrow> llm_row list \<Rightarrow> invoice_state \<Rightarrow>
   (invoice_error + invoice_row) \<times> invoice_state" where
  "generate_invoice env now t invoice_id p_start p_end usage runs calls st =
     (let items = line_items_of t p_start p_end usage runs calls;
          subtotal = py_round (sum_list (map li_amount items)) 2; tax = 0
      in persist_invoice env
           \<lparr>iv_invoice_id = invoice_id, iv_tenant_id = t, iv_stripe_invoice_id = None,
            iv_invoice_number = get_next_invoice_number now t (is_invoices st), iv_period_start = p_start, iv_period_end = p_end,
            iv_subtotal_usd = subtotal, iv_tax_usd = tax, iv_total_usd = py_round (subtotal + tax) 2, iv_line_items = items,
            iv_pdf_storage_key = None, iv_status = ''generated'', iv_created_at = now\<rparr> st)"

text \<open>What the service reads of Stripe's invoice; amounts are in cents, and what is missing is 0.\<close>

record stripe_line =
  sl_description :: "string option"
  sl_quantity :: "int option"
  sl_unit_amount :: int
  sl_amount :: int

record stripe_invoice =
  sv_id :: "string option"
  sv_period_start :: int
  sv_period_end :: int
  sv_lines :: "stripe_line list"
  sv_subtotal :: int
  sv_tax :: int
  sv_total :: int

definition dollars :: "int \<Rightarrow> rat" where "dollars cents = py_round (of_int cents / 100) 2"

definition item_of_stripe :: "stripe_line \<Rightarrow> line_item" where
  "item_of_stripe l =
     \<lparr>li_description = (case sl_description l of None \<Rightarrow> ''Subscription'' | Some d \<Rightarrow> d),
      li_quantity = (case sl_quantity l of None \<Rightarrow> 1 | Some q \<Rightarrow> q), li_unit_price = dollars (sl_unit_amount l), li_amount = dollars (sl_amount l)\<rparr>"

definition generate_invoice_from_stripe ::
  "invoice_env \<Rightarrow> timestamp \<Rightarrow> string \<Rightarrow> string \<Rightarrow> stripe_invoice \<Rightarrow> invoice_state \<Rightarrow> (invoice_error + invoice_row option) \<times> invoice_state" where
  "generate_invoice_from_stripe env now t invoice_id sv st =
     (if opt_or (sv_id sv) [] = [] then (Inr None, st)
      else (case get_by_stripe_invoice t (the (sv_id sv)) (is_invoices st) of
              Inl e \<Rightarrow> (Inl e, st)
            | Inr (Some r) \<Rightarrow> (Inr None, st)
            | Inr None \<Rightarrow>
                (case persist_invoice env
                   \<lparr>iv_invoice_id = invoice_id, iv_tenant_id = t, iv_stripe_invoice_id = sv_id sv,
                    iv_invoice_number = get_next_invoice_number now t (is_invoices st),
                    iv_period_start = from_timestamp (sv_period_start sv), iv_period_end = from_timestamp (sv_period_end sv),
                    iv_subtotal_usd = dollars (sv_subtotal sv), iv_tax_usd = dollars (sv_tax sv), iv_total_usd = dollars (sv_total sv),
                    iv_line_items = map item_of_stripe (sv_lines sv), iv_pdf_storage_key = None, iv_status = ''generated'',
                    iv_created_at = now\<rparr> st of
                   (Inl e, st) \<Rightarrow> (Inl e, st)
                 | (Inr row, st) \<Rightarrow>
                     (case update_status t invoice_id ''paid'' (is_invoices st) of
                        Inl e \<Rightarrow> (Inl e, st)
                      | Inr (_, tbl) \<Rightarrow> (Inr (Some row), st\<lparr>is_invoices := tbl\<rparr>)))))"

subsection \<open>Numbers\<close>

lemma dash_no_digit: "CHR ''-'' \<notin> set (nat_digits n)"
proof
  assume "CHR ''-'' \<in> set (nat_digits n)"
  then obtain d :: nat where d: "d < 10" "CHR ''-'' = char_of (48 + d)" using digits_no_space by blast
  then have "(of_char (CHR ''-'') :: nat) = (48 + d) mod 256" by simp
  then show False using d(1) by simp
qed

lemma civil_year_nonneg: "0 \<le> t \<Longrightarrow> 0 \<le> fst (civil_month t)"
proof -
  assume "0 \<le> t"
  then have "0 \<le> t div day_us" using day_us_pos by (simp add: pos_imp_zdiv_nonneg_iff)
  then have "- cycle_days \<le> t div day_us - 11323" by (simp add: cycle_days_def)
  then have "(- 1) * cycle_days div cycle_days \<le> (t div day_us - 11323) div cycle_days" by (intro zdiv_mono1) (simp_all add: cycle_days_def)
  then have "- 1 \<le> (t div day_us - 11323) div cycle_days" by (simp add: cycle_days_def)
  then show ?thesis by (simp add: civil_month_def Let_def)
qed

lemma dash_not_in_label: "0 \<le> t \<Longrightarrow> CHR ''-'' \<notin> set (month_label t)"
  using civil_year_nonneg[of t] dash_no_digit by (cases "civil_month t") (auto simp: month_label_def pad_def int_string_def)

lemma starts_with_append: "starts_with p s \<longleftrightarrow> (\<exists>z. s = p @ z)"
  unfolding starts_with_def by (metis append_eq_conv_conj append_take_drop_id)

lemma label_of_prefix: "CHR ''-'' \<notin> set l \<Longrightarrow> takeWhile (\<lambda>c. c \<noteq> CHR ''-'') (l @ CHR ''-'' # z) = l"
  by (induction l) auto

lemma prefix_clash:
  assumes "0 \<le> u" "0 \<le> v" and "starts_with (number_prefix v) (number_prefix u @ s)"
  shows "number_prefix v = number_prefix u"
proof -
  obtain z where "number_prefix u @ s = number_prefix v @ z" using assms(3) by (auto simp: starts_with_append)
  then have eq: "month_label u @ CHR ''-'' # s = month_label v @ CHR ''-'' # z" by (simp add: number_prefix_def)
  have "month_label u = month_label v"
    using arg_cong[OF eq, of "takeWhile (\<lambda>c. c \<noteq> CHR ''-'')"] dash_not_in_label[OF assms(1)] dash_not_in_label[OF assms(2)]
    by (simp only: label_of_prefix not_False_eq_True)
  then show ?thesis by (simp add: number_prefix_def)
qed

lemma nat_of_zero: "s \<noteq> [] \<Longrightarrow> nat_of_text (CHR ''0'' # s) = nat_of_text s \<or> nat_of_text s = None"
  by (cases s) (auto simp: nat_of_text_def digit_value_def Let_def split: option.splits if_splits)

lemma nat_of_pad: "nat_of_text (pad k (nat_digits n)) = Some n"
proof -
  have "nat_of_text (replicate j (CHR ''0'') @ nat_digits n) = Some n" for j
  proof (induction j)
    case (Suc j)
    then show ?case using nat_of_zero[of "replicate j (CHR ''0'') @ nat_digits n"] nat_digits_ne by simp
  qed (simp add: nat_of_digits)
  then show ?thesis by (simp add: pad_def)
qed

lemma pad_inj: "pad k (nat_digits n) = pad k (nat_digits m) \<longleftrightarrow> n = m"
  by (metis nat_of_pad option.inject)

definition number_of :: "timestamp \<Rightarrow> nat \<Rightarrow> string" where
  "number_of now i = number_prefix now @ pad 4 (nat_digits i)"

text \<open>The invoices of a tenant in the month of \<open>now\<close> have the numbers from 1 on, in the order of the table.\<close>

definition sequential :: "timestamp \<Rightarrow> string \<Rightarrow> invoice_row list \<Rightarrow> bool" where
  "sequential now t tbl \<longleftrightarrow>
     map iv_invoice_number (filter (numbered t (number_prefix now)) tbl) =
       map (\<lambda>i. number_of now (Suc i)) [0..<length (filter (numbered t (number_prefix now)) tbl)]"

lemma sequential_append:
  assumes seq: "sequential v t tbl" and u: "0 \<le> u" "0 \<le> v" and row: "iv_invoice_number row = get_next_invoice_number u (iv_tenant_id row) tbl"
  shows "sequential v t (tbl @ [row])"
proof (cases "numbered t (number_prefix v) row")
  case True
  then have t: "iv_tenant_id row = t" and "starts_with (number_prefix v) (iv_invoice_number row)" by (simp_all add: numbered_def)
  then have "starts_with (number_prefix v) (number_prefix u @ pad 4 (nat_digits (length (filter (numbered t (number_prefix u)) tbl) + 1)))"
    by (simp add: row get_next_invoice_number_def Let_def)
  from prefix_clash[OF u this] have p: "number_prefix v = number_prefix u" .
  have "iv_invoice_number row = number_of v (Suc (length (filter (numbered t (number_prefix v)) tbl)))"
    by (simp add: row get_next_invoice_number_def Let_def number_of_def p t)
  then show ?thesis using seq True by (simp add: sequential_def)
next
  case False
  then show ?thesis using seq by (simp add: sequential_def)
qed

lemma sequential_map:
  assumes "sequential v t tbl" and "\<And>r. iv_tenant_id (f r) = iv_tenant_id r" "\<And>r. iv_invoice_number (f r) = iv_invoice_number r"
  shows "sequential v t (map f tbl)"
proof -
  have "filter (numbered t (number_prefix v)) (map f tbl) = map f (filter (numbered t (number_prefix v)) tbl)"
    by (induction tbl) (simp_all add: numbered_def assms(2,3))
  then show ?thesis using assms(1) by (simp add: sequential_def o_def assms(3))
qed

lemma next_number_fresh:
  assumes "sequential now t tbl" and "r \<in> set tbl" and "iv_tenant_id r = t"
  shows "iv_invoice_number r \<noteq> get_next_invoice_number now t tbl"
proof
  let ?mine = "filter (numbered t (number_prefix now)) tbl"
  assume eq: "iv_invoice_number r = get_next_invoice_number now t tbl"
  then have num: "iv_invoice_number r = number_of now (Suc (length ?mine))" by (simp add: get_next_invoice_number_def number_of_def Let_def)
  then have "r \<in> set ?mine" using assms(2,3) by (auto simp: numbered_def number_of_def starts_with_append)
  then have "iv_invoice_number r \<in> set (map iv_invoice_number ?mine)" by simp
  then obtain i where "i < length ?mine" "iv_invoice_number r = number_of now (Suc i)"
    using assms(1) unfolding sequential_def by auto
  then show False using num by (simp add: number_of_def pad_inj)
qed

subsection \<open>Any invoices in any order\<close>

datatype invoice_call =
    GenerateInvoice timestamp string string timestamp timestamp "usage_row list" "run_row list" "llm_row list"
  | InvoiceFromStripe timestamp string string stripe_invoice
  | SetStatus string string string

fun invoice_step :: "invoice_env \<Rightarrow> invoice_call \<Rightarrow> invoice_state \<Rightarrow> invoice_state" where
  "invoice_step env (GenerateInvoice now t invoice_id p_start p_end usage runs calls) st =
     snd (generate_invoice env now t invoice_id p_start p_end usage runs calls st)"
| "invoice_step env (InvoiceFromStripe now t invoice_id sv) st = snd (generate_invoice_from_stripe env now t invoice_id sv st)"
| "invoice_step env (SetStatus t invoice_id status) st =
     (case update_status t invoice_id status (is_invoices st) of Inl e \<Rightarrow> st | Inr (_, tbl) \<Rightarrow> st\<lparr>is_invoices := tbl\<rparr>)"

fun call_instant :: "invoice_call \<Rightarrow> timestamp" where
  "call_instant (GenerateInvoice now t invoice_id p_start p_end usage runs calls) = now"
| "call_instant (InvoiceFromStripe now t invoice_id sv) = now"
| "call_instant (SetStatus t invoice_id status) = 0"

definition invoice_history :: "invoice_env \<Rightarrow> invoice_call list \<Rightarrow> invoice_state \<Rightarrow> invoice_state" where
  "invoice_history env calls st = foldl (\<lambda>st c. invoice_step env c st) st calls"

lemma persist_sequential:
  assumes "sequential v t (is_invoices st)" and "0 \<le> u" "0 \<le> v"
    and "iv_invoice_number row = get_next_invoice_number u (iv_tenant_id row) (is_invoices st)"
  shows "sequential v t (is_invoices (snd (persist_invoice env row st)))"
proof -
  have "sequential v t (is_invoices st @ [row\<lparr>iv_pdf_storage_key := k\<rparr>])" for k
    using sequential_append[OF assms(1-3), of "row\<lparr>iv_pdf_storage_key := k\<rparr>"] assms(4) by simp
  then show ?thesis using assms(1)
    by (auto simp: persist_invoice_def store_pdf_def invoice_create_def Let_def split: sum.splits if_splits)
qed

lemma update_status_sequential:
  "sequential v t tbl \<Longrightarrow> update_status t' invoice_id status tbl = Inr (b, tbl') \<Longrightarrow> sequential v t tbl'"
  by (auto simp: update_status_def invoice_update_def split: if_splits intro!: sequential_map)

lemma invoice_step_sequential:
  assumes seq: "sequential v t (is_invoices st)" and "0 \<le> v" "0 \<le> call_instant c"
  shows "sequential v t (is_invoices (invoice_step env c st))"
proof (cases c)
  case (GenerateInvoice now t' invoice_id p_start p_end usage runs calls)
  then show ?thesis using assms by (simp add: generate_invoice_def Let_def persist_sequential)
next
  case (InvoiceFromStripe now t' invoice_id sv)
  show ?thesis
  proof (cases "opt_or (sv_id sv) [] = []")
    case False
    define row where "row = \<lparr>iv_invoice_id = invoice_id, iv_tenant_id = t', iv_stripe_invoice_id = sv_id sv,
        iv_invoice_number = get_next_invoice_number now t' (is_invoices st),
        iv_period_start = from_timestamp (sv_period_start sv), iv_period_end = from_timestamp (sv_period_end sv),
        iv_subtotal_usd = dollars (sv_subtotal sv), iv_tax_usd = dollars (sv_tax sv), iv_total_usd = dollars (sv_total sv),
        iv_line_items = map item_of_stripe (sv_lines sv), iv_pdf_storage_key = None, iv_status = ''generated'', iv_created_at = now\<rparr>"
    have "sequential v t (is_invoices (snd (persist_invoice env row st)))"
      using persist_sequential[OF seq _ assms(2), of now row env] assms(3) InvoiceFromStripe by (simp add: row_def)
    then show ?thesis using seq InvoiceFromStripe False update_status_sequential[of v t "is_invoices (snd (persist_invoice env row st))" t' invoice_id "''paid''"]
      unfolding generate_invoice_from_stripe_def row_def[symmetric] invoice_step.simps
      by (cases "persist_invoice env row st") (auto simp: generate_invoice_from_stripe_def row_def[symmetric] split: sum.splits option.splits)
  qed (use seq InvoiceFromStripe in \<open>simp add: generate_invoice_from_stripe_def\<close>)
next
  case (SetStatus t' invoice_id status)
  then show ?thesis using seq update_status_sequential[OF seq] by (auto split: sum.splits)
qed

text \<open>C26: Invoice numbers have no gaps and no duplicates. Whatever invoices are made, from usage or from Stripe, for any tenants and in any
  order, each tenant's invoices of a month carry the numbers 1, 2, 3 and so on of that month, and the number that is handed out next
  belongs to no invoice of the tenant, so the unique index on it never refuses one.\<close>

theorem invoice_numbers_sequential:
  assumes "\<forall>c\<in>set calls. 0 \<le> call_instant c" and "0 \<le> now"
  shows "sequential now t (is_invoices (invoice_history env calls \<lparr>is_invoices = [], is_files = files\<rparr>)) \<and>
    (\<forall>r\<in>set (is_invoices (invoice_history env calls \<lparr>is_invoices = [], is_files = files\<rparr>)). iv_tenant_id r = t \<longrightarrow>
      iv_invoice_number r \<noteq> get_next_invoice_number now t (is_invoices (invoice_history env calls \<lparr>is_invoices = [], is_files = files\<rparr>)))"
proof -
  have "sequential now t (is_invoices st) \<Longrightarrow> sequential now t (is_invoices (invoice_history env calls st))" for st
    using assms(1) unfolding invoice_history_def
    by (induction calls arbitrary: st) (simp_all add: invoice_step_sequential[OF _ assms(2)])
  from this[of "\<lparr>is_invoices = [], is_files = files\<rparr>"] show ?thesis using next_number_fresh by (simp add: sequential_def)
qed

definition demo_invoice_env :: invoice_env where
  "demo_invoice_env = \<lparr>ie_storage_path = ''/inv'', ie_resolve = (\<lambda>p. p), ie_render = iv_invoice_number\<rparr>"

definition demo_invoice_calls :: "invoice_call list" where
  "demo_invoice_calls = map (\<lambda>i. GenerateInvoice (11323 * day_us) ''t'' i 0 0 [] [] []) [''a'', ''b'']"

theorem invoice_numbers_sequential_witness:
  "sequential (11323 * day_us) ''t'' (is_invoices (invoice_history demo_invoice_env demo_invoice_calls \<lparr>is_invoices = [], is_files = []\<rparr>)) \<and>
   length (is_invoices (invoice_history demo_invoice_env demo_invoice_calls \<lparr>is_invoices = [], is_files = []\<rparr>)) = 2"
proof
  show seq: "sequential (11323 * day_us) ''t'' (is_invoices (invoice_history demo_invoice_env demo_invoice_calls \<lparr>is_invoices = [], is_files = []\<rparr>))"
    using invoice_numbers_sequential[of demo_invoice_calls "11323 * day_us" "''t''" demo_invoice_env "[]"] day_us_pos by (simp add: demo_invoice_calls_def)
  have safe: "safe_component ''t''" "safe_component ''a''" "safe_component ''b''" by code_simp+
  have path: "resolve_safe_path demo_invoice_env ''t'' i = Inr (''/inv/t/'' @ i @ ''.pdf'')" if "safe_component i" for i
    using safe that by (simp add: resolve_safe_path_def demo_invoice_env_def starts_with_def Let_def)
  let ?after = "invoice_history demo_invoice_env [GenerateInvoice (11323 * day_us) ''t'' ''a'' 0 0 [] [] []] \<lparr>is_invoices = [], is_files = []\<rparr>"
  have one: "length (is_invoices ?after) = 1 \<and> (\<forall>r\<in>set (is_invoices ?after). iv_tenant_id r = ''t'' \<and> iv_invoice_id r = ''a'')"
    using path safe by (simp add: invoice_history_def generate_invoice_def persist_invoice_def store_pdf_def invoice_create_def ck_invoices_status_def Let_def)
  have "sequential (11323 * day_us) ''t'' (is_invoices ?after)"
    by (rule invoice_numbers_sequential[THEN conjunct1]) (simp_all add: day_us_pos less_imp_le)
  then have "\<forall>r\<in>set (is_invoices ?after). iv_invoice_number r \<noteq> get_next_invoice_number (11323 * day_us) ''t'' (is_invoices ?after)"
    using next_number_fresh one by blast
  then have "length (is_invoices (invoice_step demo_invoice_env (GenerateInvoice (11323 * day_us) ''t'' ''b'' 0 0 [] [] []) ?after)) = 2"
    using one path safe by (auto simp: generate_invoice_def persist_invoice_def store_pdf_def invoice_create_def ck_invoices_status_def Let_def list_ex_iff)
  then show "length (is_invoices (invoice_history demo_invoice_env demo_invoice_calls \<lparr>is_invoices = [], is_files = []\<rparr>)) = 2"
    by (simp add: invoice_history_def demo_invoice_calls_def)
qed

end
