(* ===== verification/Approvals.thy ===== *)
theory Approvals
  imports Execution_Props Audit_Log Access
begin

text \<open>
  Who lets a plan run: the endpoints of \<^verbatim>\<open>api/api/routers/approvals.py\<close> over the plans and the audit log, against the gate of
  \<^verbatim>\<open>apply_plan\<close>; and the rules of \<^verbatim>\<open>api/api/services/auto_approval.py\<close>. The column \<^verbatim>\<open>auto_approved\<close>, which nothing sets
  to true, and the copies of plans in Redis are left out.
\<close>

subsection \<open>Approving and rejecting\<close>

record approval_env =
  av_sha :: "string \<Rightarrow> string"
  av_iso :: "timestamp \<Rightarrow> string"
  av_uuid :: "nat \<Rightarrow> string"

record approval_state =
  av_plans :: "plan_row list"
  av_audit :: audit_log

definition user_identity :: "request_state \<Rightarrow> string" where
  "user_identity req = (case rq_sub req of None \<Rightarrow> ''anonymous'' | Some s \<Rightarrow> s)"

definition audit_plan ::
  "approval_env \<Rightarrow> timestamp \<Rightarrow> string \<Rightarrow> string \<Rightarrow> string \<Rightarrow> string \<Rightarrow> string \<Rightarrow> string \<Rightarrow> audit_log \<Rightarrow> audit_log" where
  "audit_plan env now tenant_id actor action plan_id key note entries =
     audit_append (av_sha env) (av_iso env) (av_uuid env (length entries)) now tenant_id actor action (Some ''plan'') (Some plan_id)
       (Some (JObj [(key, JStr note)])) entries"

text \<open>A refused request answers the status of the exception and changes nothing.\<close>

definition approve_plan ::
  "approval_env \<Rightarrow> timestamp \<Rightarrow> string \<Rightarrow> request_state \<Rightarrow> string \<Rightarrow> string option \<Rightarrow> approval_state \<Rightarrow>
   (http_error + plan_row option) \<times> approval_state" where
  "approve_plan env now tenant_id req plan_id comment st =
     (case require_permission APPROVE_PLANS req of
        Inl e \<Rightarrow> (Inl e, st)
      | Inr _ \<Rightarrow>
          let user = user_identity req
          in if user = [] then (Inl (HTTPException 401), st)
             else (case get_plan (av_plans st) tenant_id plan_id of
                     None \<Rightarrow> (Inl (HTTPException 404), st)
                   | Some row \<Rightarrow>
                       if list_ex (\<lambda>a. ap_user a = user) (pr_approvals row) then (Inl (HTTPException 409), st)
                       else (case add_approval now tenant_id plan_id user (opt_or comment []) (av_plans st) of
                               Inl e \<Rightarrow> (Inl (HTTPException 500), st)
                             | Inr plans \<Rightarrow>
                                 (Inr (get_plan plans tenant_id plan_id),
                                  \<lparr>av_plans = plans, av_audit = audit_plan env now tenant_id user ''PLAN_APPROVED'' plan_id ''comment'' (opt_or comment []) (av_audit st)\<rparr>))))"

definition set_approvals :: "string \<Rightarrow> string \<Rightarrow> approval list \<Rightarrow> plan_row list \<Rightarrow> plan_row list" where
  "set_approvals t plan_id as tbl = map (\<lambda>r. if pr_tenant r = t \<and> pr_plan_id r = plan_id then r\<lparr>pr_approvals := as\<rparr> else r) tbl"

definition reject_plan ::
  "approval_env \<Rightarrow> timestamp \<Rightarrow> string \<Rightarrow> request_state \<Rightarrow> string \<Rightarrow> string \<Rightarrow> approval_state \<Rightarrow>
   (http_error + plan_row option) \<times> approval_state" where
  "reject_plan env now tenant_id req plan_id reason st =
     (case require_permission APPROVE_PLANS req of
        Inl e \<Rightarrow> (Inl e, st)
      | Inr _ \<Rightarrow>
          let user = user_identity req
          in if reason = [] then (Inl (HTTPException 422), st)
             else if user = [] then (Inl (HTTPException 401), st)
             else (case get_plan (av_plans st) tenant_id plan_id of
                     None \<Rightarrow> (Inl (HTTPException 404), st)
                   | Some row \<Rightarrow>
                       let plans = set_approvals tenant_id plan_id
                             (pr_approvals row @ [\<lparr>ap_user = user, ap_comment = reason, ap_at = now, ap_rejected = True\<rparr>]) (av_plans st)
                       in (Inr (get_plan plans tenant_id plan_id),
                           \<lparr>av_plans = plans, av_audit = audit_plan env now tenant_id user ''PLAN_REJECTED'' plan_id ''reason'' reason (av_audit st)\<rparr>)))"

datatype approval_call =
    Approve timestamp string request_state string "string option"
  | Reject timestamp string request_state string string

fun approval_step :: "approval_env \<Rightarrow> approval_call \<Rightarrow> approval_state \<Rightarrow> approval_state" where
  "approval_step env (Approve now tenant_id req plan_id comment) st = snd (approve_plan env now tenant_id req plan_id comment st)"
| "approval_step env (Reject now tenant_id req plan_id reason) st = snd (reject_plan env now tenant_id req plan_id reason st)"

definition approval_history :: "approval_env \<Rightarrow> approval_call list \<Rightarrow> approval_state \<Rightarrow> approval_state" where
  "approval_history env calls st = foldl (\<lambda>st c. approval_step env c st) st calls"

subsection \<open>The rules of auto-approval\<close>

record approval_config =
  acf_enabled :: bool
  acf_max_risk_score :: rat
  acf_max_cost_usd :: rat
  acf_allowed_change_types :: "string list"
  acf_sla_tags :: "string list"
  acf_dashboard_tags :: "string list"
  acf_force_manual_models :: "string list"

definition default_approval_config :: approval_config where
  "default_approval_config =
     \<lparr>acf_enabled = False, acf_max_risk_score = 3, acf_max_cost_usd = 50,
      acf_allowed_change_types = [''non_breaking'', ''rename_only'', ''cosmetic_only'', ''COSMETIC_ONLY'', ''NO_CHANGE''],
      acf_sla_tags = [''sla'', ''sla-critical'', ''tier-1''],
      acf_dashboard_tags = [''dashboard'', ''executive-dashboard'', ''reporting''], acf_force_manual_models = []\<rparr>"

text \<open>What the rules read of the advice on a model: the two entries, where they are dictionaries that have them.\<close>

record model_advice =
  ma_risk_score :: "rat option"
  ma_change_type :: "string option"

record plan_summary =
  ps_models_changed :: "string list"
  ps_estimated_cost_usd :: "rat option"

text \<open>A rule with its verdict and the names its reason lists.\<close>

record approval_rule =
  rl_name :: string
  rl_passed :: bool
  rl_offenders :: "string list"

definition rule_of :: "string \<Rightarrow> string list \<Rightarrow> approval_rule" where
  "rule_of name offenders = \<lparr>rl_name = name, rl_passed = (offenders = []), rl_offenders = offenders\<rparr>"

definition check_risk_score :: "approval_config \<Rightarrow> (string \<times> model_advice) list \<Rightarrow> approval_rule" where
  "check_risk_score cf advice =
     (let max_risk = foldl (\<lambda>m (n, a). max m (case ma_risk_score a of None \<Rightarrow> 0 | Some r \<Rightarrow> r)) 0 advice
      in \<lparr>rl_name = ''risk_score'', rl_passed = (max_risk < acf_max_risk_score cf), rl_offenders = []\<rparr>)"

definition check_cost :: "approval_config \<Rightarrow> plan_summary \<Rightarrow> approval_rule" where
  "check_cost cf s =
     \<lparr>rl_name = ''cost_threshold'', rl_passed = ((case ps_estimated_cost_usd s of None \<Rightarrow> 0 | Some c \<Rightarrow> c) < acf_max_cost_usd cf), rl_offenders = []\<rparr>"

definition change_type_of :: "(string \<times> model_advice) list \<Rightarrow> string \<Rightarrow> string" where
  "change_type_of advice m = (case Option.bind (map_of advice m) ma_change_type of None \<Rightarrow> ''unknown'' | Some t \<Rightarrow> t)"

definition check_change_types :: "approval_config \<Rightarrow> (string \<times> model_advice) list \<Rightarrow> string list \<Rightarrow> approval_rule" where
  "check_change_types cf advice models =
     rule_of ''change_type''
       (map (\<lambda>m. m @ ''='' @ change_type_of advice m)
         (filter (\<lambda>m. change_type_of advice m \<notin> set (acf_allowed_change_types cf) \<and> change_type_of advice m \<noteq> ''unknown'') models))"

definition has_tag :: "string list \<Rightarrow> (string \<times> string list) list \<Rightarrow> string \<Rightarrow> bool" where
  "has_tag tags model_tags m \<longleftrightarrow>
     list_ex (\<lambda>t. py_lower t \<in> set (map py_lower tags)) (case map_of model_tags m of None \<Rightarrow> [] | Some ts \<Rightarrow> ts)"

definition check_sla_tags :: "approval_config \<Rightarrow> string list \<Rightarrow> (string \<times> string list) list \<Rightarrow> approval_rule" where
  "check_sla_tags cf models model_tags = rule_of ''sla_models'' (filter (has_tag (acf_sla_tags cf) model_tags) models)"

definition check_dashboard_deps :: "approval_config \<Rightarrow> string list \<Rightarrow> (string \<times> string list) list \<Rightarrow> approval_rule" where
  "check_dashboard_deps cf models model_tags = rule_of ''dashboard_dependencies'' (filter (has_tag (acf_dashboard_tags cf) model_tags) models)"

definition check_force_manual :: "approval_config \<Rightarrow> string list \<Rightarrow> approval_rule" where
  "check_force_manual cf models = rule_of ''force_manual_review'' (filter (\<lambda>m. m \<in> set (acf_force_manual_models cf)) models)"

record approval_decision =
  de_auto_approved :: bool
  de_rules :: "approval_rule list"

definition evaluate ::
  "approval_config \<Rightarrow> plan_summary \<Rightarrow> (string \<times> model_advice) list option \<Rightarrow> (string \<times> string list) list option \<Rightarrow> approval_decision" where
  "evaluate cf s advisory_data model_tags =
     (if \<not> acf_enabled cf
      then \<lparr>de_auto_approved = False, de_rules = [\<lparr>rl_name = ''feature_enabled'', rl_passed = False, rl_offenders = []\<rparr>]\<rparr>
      else
        let advice = (case advisory_data of None \<Rightarrow> [] | Some a \<Rightarrow> a); tags = (case model_tags of None \<Rightarrow> [] | Some t \<Rightarrow> t);
            models = ps_models_changed s;
            rules = [check_risk_score cf advice, check_cost cf s, check_change_types cf advice models, check_sla_tags cf models tags,
                     check_dashboard_deps cf models tags, check_force_manual cf models]
        in \<lparr>de_auto_approved = list_all rl_passed rules, de_rules = rules\<rparr>)"

subsection \<open>Facts\<close>

lemma get_plan_map:
  assumes "\<And>r. pr_tenant (f r) = pr_tenant r" "\<And>r. pr_plan_id (f r) = pr_plan_id r"
  shows "get_plan (map f tbl) t p = map_option f (get_plan tbl t p)"
  unfolding get_plan_def by (induction tbl) (simp_all add: assms)

lemma get_plan_key: "get_plan tbl t p = Some r \<Longrightarrow> r \<in> set tbl \<and> pr_tenant r = t \<and> pr_plan_id r = p"
  by (auto simp: get_plan_def find_Some_iff)

lemma get_plan_set_approvals: "get_plan tbl t p = Some r \<Longrightarrow> get_plan (set_approvals t p as tbl) t p = Some (r\<lparr>pr_approvals := as\<rparr>)"
  using get_plan_key[of tbl t p r] by (simp add: set_approvals_def get_plan_map)

text \<open>Rejecting a plan that nobody approved opens its gate. Outside the development environment such a plan cannot be applied without the
  override; a rejection is stored in the list of approvals, the gate only asks whether the list is empty, and from then on anyone who may
  apply plans gets its steps run.\<close>

theorem rejection_admits_application:
  assumes "get_plan (av_plans st) (en_tenant env) plan_id = Some row" and "pr_approvals row = []" and "en_platform_env env \<noteq> DEV"
    and "reject_plan aenv now (en_tenant env) req plan_id reason st = (Inr answer, st')"
  shows "apply_plan env plan_id approved_by cluster False caller_role (xs\<lparr>xs_plans := av_plans st\<rparr>) = Inl PermissionError \<and>
    apply_plan env plan_id approved_by cluster False caller_role (xs\<lparr>xs_plans := av_plans st'\<rparr>) =
      apply_steps env plan_id approved_by cluster (pr_steps row) (xs\<lparr>xs_plans := av_plans st'\<rparr>) \<and>
    apply_plan env plan_id approved_by cluster False caller_role (xs\<lparr>xs_plans := av_plans st'\<rparr>) \<noteq> Inl PermissionError"
proof -
  have "av_plans st' = set_approvals (en_tenant env) plan_id
      [\<lparr>ap_user = user_identity req, ap_comment = reason, ap_at = now, ap_rejected = True\<rparr>] (av_plans st)"
    using assms(1,2,4) by (auto simp: reject_plan_def Let_def split: sum.splits if_splits)
  then have row': "get_plan (av_plans st') (en_tenant env) plan_id =
      Some (row\<lparr>pr_approvals := [\<lparr>ap_user = user_identity req, ap_comment = reason, ap_at = now, ap_rejected = True\<rparr>]\<rparr>)"
    using get_plan_set_approvals[OF assms(1)] by simp
  show ?thesis using assms(1-3) row' apply_steps_error by (simp add: apply_plan_def)
qed

definition operator_request :: request_state where
  "operator_request = \<lparr>rq_role = Some ''operator'', rq_sub = Some ''olga''\<rparr>"

definition demo_approval_env :: approval_env where
  "demo_approval_env = \<lparr>av_sha = (\<lambda>s. s), av_iso = int_string, av_uuid = nat_digits\<rparr>"

definition unapproved_plan :: plan_row where
  "unapproved_plan = \<lparr>pr_plan_id = ''p'', pr_tenant = ''t'', pr_base_sha = ''a'', pr_target_sha = ''b'', pr_steps = [],
     pr_approvals = [], pr_created_at = 0\<rparr>"

lemma operator_may_approve: "require_permission APPROVE_PLANS operator_request = Inr OPERATOR"
  by code_simp

theorem rejection_admits_application_witness:
  "apply_plan (demo_env (\<lambda>s. True) (\<lambda>r. False)) ''p'' None None False (Some ENGINEER)
     (demo_state\<lparr>xs_plans := av_plans (snd (reject_plan demo_approval_env 5 ''t'' operator_request ''p'' ''no'' \<lparr>av_plans = [unapproved_plan], av_audit = []\<rparr>))\<rparr>)
   \<noteq> Inl PermissionError"
proof -
  define outcome where "outcome = reject_plan demo_approval_env 5 ''t'' operator_request ''p'' ''no'' \<lparr>av_plans = [unapproved_plan], av_audit = []\<rparr>"
  obtain answer st' where o: "outcome = (Inr answer, st')"
    unfolding outcome_def reject_plan_def operator_may_approve
    by (simp add: user_identity_def operator_request_def get_plan_def unapproved_plan_def Let_def)
  have "get_plan (av_plans \<lparr>av_plans = [unapproved_plan], av_audit = []\<rparr>) (en_tenant (demo_env (\<lambda>s. True) (\<lambda>r. False))) ''p'' = Some unapproved_plan"
    by (simp add: get_plan_def unapproved_plan_def demo_env_def)
  moreover have "reject_plan demo_approval_env 5 (en_tenant (demo_env (\<lambda>s. True) (\<lambda>r. False))) operator_request ''p'' ''no''
      \<lparr>av_plans = [unapproved_plan], av_audit = []\<rparr> = (Inr answer, st')"
    using o by (simp add: outcome_def demo_env_def)
  ultimately show ?thesis
    using rejection_admits_application[of "\<lparr>av_plans = [unapproved_plan], av_audit = []\<rparr>" "demo_env (\<lambda>s. True) (\<lambda>r. False)" "''p''"
        unapproved_plan demo_approval_env 5 operator_request "''no''" answer st' None None "Some ENGINEER" demo_state] o
    by (simp add: outcome_def unapproved_plan_def demo_env_def)
qed

subsection \<open>Who is in the list\<close>

fun granted_user :: "approval_call \<Rightarrow> string option" where
  "granted_user (Approve now tenant_id req plan_id comment) =
     (case require_permission APPROVE_PLANS req of Inl e \<Rightarrow> None | Inr r \<Rightarrow> if user_identity req = [] then None else Some (user_identity req))"
| "granted_user (Reject now tenant_id req plan_id reason) =
     (case require_permission APPROVE_PLANS req of Inl e \<Rightarrow> None | Inr r \<Rightarrow> if user_identity req = [] then None else Some (user_identity req))"

definition approvers :: "plan_row \<Rightarrow> string list" where
  "approvers r = map ap_user (filter (\<lambda>a. \<not> ap_rejected a) (pr_approvals r))"

definition approvals_ok :: "string set \<Rightarrow> plan_row list \<Rightarrow> bool" where
  "approvals_ok users tbl \<longleftrightarrow> (\<forall>r\<in>set tbl. distinct (approvers r) \<and> ap_user ` set (pr_approvals r) \<subseteq> users)"

lemma approvals_ok_map:
  assumes "approvals_ok users tbl"
    and "\<And>r. r \<in> set tbl \<Longrightarrow> distinct (approvers r) \<Longrightarrow> distinct (approvers (f r)) \<and> ap_user ` set (pr_approvals (f r)) \<subseteq> users \<union> ap_user ` set (pr_approvals r)"
  shows "approvals_ok users (map f tbl)"
proof -
  have "distinct (approvers (f r)) \<and> ap_user ` set (pr_approvals (f r)) \<subseteq> users" if r: "r \<in> set tbl" for r
  proof -
    have "distinct (approvers r)" "ap_user ` set (pr_approvals r) \<subseteq> users" using assms(1) r by (simp_all add: approvals_ok_def)
    then show ?thesis using assms(2)[OF r] by blast
  qed
  then show ?thesis by (simp add: approvals_ok_def)
qed

definition plans_unique :: "plan_row list \<Rightarrow> bool" where
  "plans_unique tbl \<longleftrightarrow> distinct (map pr_plan_id tbl)"

lemma unique_plan: "plans_unique tbl \<Longrightarrow> get_plan tbl t p = Some row \<Longrightarrow> r \<in> set tbl \<Longrightarrow> pr_plan_id r = p \<Longrightarrow> r = row"
  using get_plan_key[of tbl t p row] by (auto simp: plans_unique_def distinct_map dest: inj_onD)

lemma approval_step_ok:
  assumes unique: "plans_unique (av_plans st)" and ok: "approvals_ok users (av_plans st)"
  shows "approvals_ok (users \<union> set_option (granted_user c)) (av_plans (approval_step env c st)) \<and> plans_unique (av_plans (approval_step env c st))"
proof -
  let ?users = "users \<union> set_option (granted_user c)"
  have ok': "approvals_ok ?users (av_plans st)" using ok by (auto simp: approvals_ok_def)
  have unique': "plans_unique (map f (av_plans st))" if "\<And>r. pr_plan_id (f r) = pr_plan_id r" for f
    using unique that by (simp add: plans_unique_def o_def)
  show ?thesis
  proof (cases "av_plans (approval_step env c st) = av_plans st")
    case True
    then show ?thesis using ok' unique by simp
  next
    case changed: False
    show ?thesis
    proof (cases c)
      case (Approve now t req p comment)
      let ?f = "\<lambda>r. if pr_tenant r = t \<and> pr_plan_id r = p
        then r\<lparr>pr_approvals := pr_approvals r @ [\<lparr>ap_user = user_identity req, ap_comment = opt_or comment [], ap_at = now, ap_rejected = False\<rparr>]\<rparr> else r"
      obtain row role where row: "get_plan (av_plans st) t p = Some row" and fresh: "\<not> list_ex (\<lambda>a. ap_user a = user_identity req) (pr_approvals row)"
        and perm: "require_permission APPROVE_PLANS req = Inr role" "user_identity req \<noteq> []"
        and new: "av_plans (approval_step env c st) = map ?f (av_plans st)"
        using changed Approve by (auto simp: approve_plan_def add_approval_def Let_def split: sum.splits option.splits if_splits)
      have "approvals_ok ?users (map ?f (av_plans st))"
      proof (rule approvals_ok_map[OF ok'])
        fix r assume r: "r \<in> set (av_plans st)" "distinct (approvers r)"
        have "r = row" if "pr_tenant r = t \<and> pr_plan_id r = p" using unique_plan[OF unique row r(1)] that by blast
        then show "distinct (approvers (?f r)) \<and> ap_user ` set (pr_approvals (?f r)) \<subseteq> ?users \<union> ap_user ` set (pr_approvals r)"
          using r fresh perm Approve by (auto simp: approvers_def list_ex_iff)
      qed
      then show ?thesis using new unique'[of ?f] by simp
    next
      case (Reject now t req p reason)
      obtain row role where row: "get_plan (av_plans st) t p = Some row"
        and perm: "require_permission APPROVE_PLANS req = Inr role" "user_identity req \<noteq> []"
        and new: "av_plans (approval_step env c st) = set_approvals t p
          (pr_approvals row @ [\<lparr>ap_user = user_identity req, ap_comment = reason, ap_at = now, ap_rejected = True\<rparr>]) (av_plans st)"
        using changed Reject by (auto simp: reject_plan_def Let_def split: sum.splits option.splits if_splits)
      have "approvals_ok ?users (av_plans (approval_step env c st))"
        unfolding new set_approvals_def
      proof (rule approvals_ok_map[OF ok'])
        fix r assume r: "r \<in> set (av_plans st)" "distinct (approvers r)"
        let ?r = "if pr_tenant r = t \<and> pr_plan_id r = p
          then r\<lparr>pr_approvals := pr_approvals row @ [\<lparr>ap_user = user_identity req, ap_comment = reason, ap_at = now, ap_rejected = True\<rparr>]\<rparr> else r"
        have "r = row" if "pr_tenant r = t \<and> pr_plan_id r = p" using unique_plan[OF unique row r(1)] that by blast
        then show "distinct (approvers ?r) \<and> ap_user ` set (pr_approvals ?r) \<subseteq> ?users \<union> ap_user ` set (pr_approvals r)"
          using r perm Reject by (auto simp: approvers_def)
      qed
      then show ?thesis unfolding new set_approvals_def using unique' by simp
    qed
  qed
qed

text \<open>C11: Approvals belong to people who may give them. Whatever approvals and rejections are asked for, in any order, by anyone, every
  entry of a plan names the authenticated user of a request that held the permission to approve, and no user approves a plan twice.\<close>

theorem approvals_by_permitted_users:
  assumes "plans_unique (av_plans st)" and "\<forall>r\<in>set (av_plans st). pr_approvals r = []"
  shows "approvals_ok {u. \<exists>c\<in>set calls. granted_user c = Some u} (av_plans (approval_history env calls st))"
proof -
  have "approvals_ok (users \<union> {u. \<exists>c\<in>set calls. granted_user c = Some u}) (av_plans (approval_history env calls st)) "
    if "plans_unique (av_plans st)" "approvals_ok users (av_plans st)" for users
    using that
  proof (induction calls arbitrary: st users)
    case (Cons c calls)
    have "users \<union> set_option (granted_user c) \<union> {u. \<exists>c\<in>set calls. granted_user c = Some u} = users \<union> {u. \<exists>c\<in>set (c # calls). granted_user c = Some u}"
      by (cases "granted_user c") auto
    then show ?case using Cons.IH[of "approval_step env c st" "users \<union> set_option (granted_user c)"] approval_step_ok[OF Cons.prems, of c env]
      by (simp add: approval_history_def)
  qed (simp add: approval_history_def)
  from this[of "{}"] show ?thesis using assms by (simp add: approvals_ok_def approvers_def)
qed

theorem approvals_by_permitted_users_witness:
  "approvals_ok {''olga''} (av_plans (approval_history demo_approval_env
     [Approve 5 ''t'' operator_request ''p'' None, Approve 6 ''t'' operator_request ''p'' None] \<lparr>av_plans = [unapproved_plan], av_audit = []\<rparr>))"
proof -
  let ?calls = "[Approve 5 ''t'' operator_request ''p'' None, Approve 6 ''t'' operator_request ''p'' None]"
  have "{u. \<exists>c\<in>set ?calls. granted_user c = Some u} = {''olga''}"
    by (simp add: operator_may_approve) (simp add: user_identity_def operator_request_def)
  moreover have "approvals_ok {u. \<exists>c\<in>set ?calls. granted_user c = Some u}
      (av_plans (approval_history demo_approval_env ?calls \<lparr>av_plans = [unapproved_plan], av_audit = []\<rparr>))"
    by (rule approvals_by_permitted_users) (simp_all add: plans_unique_def unapproved_plan_def)
  ultimately show ?thesis by (simp only:)
qed

subsection \<open>What is approved without a person\<close>

lemma max_risk_less: "foldl (\<lambda>m (n, a). max m (case ma_risk_score a of None \<Rightarrow> 0 | Some r \<Rightarrow> r)) z advice < (b :: rat) \<longleftrightarrow>
   z < b \<and> (\<forall>(n, a)\<in>set advice. (case ma_risk_score a of None \<Rightarrow> 0 | Some r \<Rightarrow> r) < b)"
  by (induction advice arbitrary: z) auto

text \<open>
  A plan is approved exactly when the feature is on, every advised risk and the cost are below their thresholds, and no changed model
  has a forbidden change type, a guarded tag or a place on the manual list; a change that was never classified is not forbidden.
\<close>

lemma auto_approval_exact:
  "de_auto_approved (evaluate cf s advisory_data model_tags) \<longleftrightarrow>
     acf_enabled cf \<and> 0 < acf_max_risk_score cf \<and>
     (\<forall>(n, a)\<in>set (case advisory_data of None \<Rightarrow> [] | Some a \<Rightarrow> a). (case ma_risk_score a of None \<Rightarrow> 0 | Some r \<Rightarrow> r) < acf_max_risk_score cf) \<and>
     (case ps_estimated_cost_usd s of None \<Rightarrow> 0 | Some c \<Rightarrow> c) < acf_max_cost_usd cf \<and>
     (\<forall>m\<in>set (ps_models_changed s).
        change_type_of (case advisory_data of None \<Rightarrow> [] | Some a \<Rightarrow> a) m \<in> set (acf_allowed_change_types cf) \<union> {''unknown''} \<and>
        \<not> has_tag (acf_sla_tags cf) (case model_tags of None \<Rightarrow> [] | Some t \<Rightarrow> t) m \<and>
        \<not> has_tag (acf_dashboard_tags cf) (case model_tags of None \<Rightarrow> [] | Some t \<Rightarrow> t) m \<and>
        m \<notin> set (acf_force_manual_models cf))"
  by (auto simp: evaluate_def Let_def check_risk_score_def max_risk_less check_cost_def check_change_types_def check_sla_tags_def
      check_dashboard_deps_def check_force_manual_def rule_of_def filter_empty_conv)

text \<open>Without advice, tags and an estimate every plan is approved, whatever it changes.\<close>

lemma no_advice_is_approved:
  "acf_force_manual_models cf = [] \<Longrightarrow> acf_enabled cf \<Longrightarrow> 0 < acf_max_risk_score cf \<Longrightarrow> 0 < acf_max_cost_usd cf \<Longrightarrow>
   de_auto_approved (evaluate cf \<lparr>ps_models_changed = models, ps_estimated_cost_usd = None\<rparr> None None)"
  by (simp add: auto_approval_exact change_type_of_def has_tag_def)

end
