(* ===== verification/Environments.thy ===== *)
theory Environments
  imports Prelude Json
begin

text \<open>
  Environments: \<^verbatim>\<open>EnvironmentRepository\<close> of \<^verbatim>\<open>core_engine/core_engine/state/repository.py\<close> and
  \<^verbatim>\<open>api/api/services/environment_service.py\<close> with the routes of \<^verbatim>\<open>api/api/routers/environments.py\<close>: catalogs and schemas by name,
  ephemeral environments of pull requests that expire, promotions of snapshots between environments. Deletion is soft.
\<close>

subsection \<open>Tables\<close>

record environment_row =
  ev_id :: nat
  ev_tenant :: string
  ev_name :: string
  ev_catalog :: string
  ev_schema_prefix :: string
  ev_is_default :: bool
  ev_is_production :: bool
  ev_is_ephemeral :: bool
  ev_pr_number :: "int option"
  ev_branch_name :: "string option"
  ev_expires_at :: "timestamp option"
  ev_created_by :: string
  ev_deleted_at :: "timestamp option"
  ev_created_at :: timestamp
  ev_updated_at :: timestamp

record promotion_row =
  pm_id :: nat
  pm_tenant :: string
  pm_source :: string
  pm_target :: string
  pm_source_snapshot :: string
  pm_target_snapshot :: string
  pm_promoted_by :: string
  pm_promoted_at :: timestamp
  pm_metadata :: "(string \<times> string) list"

record env_state =
  es_environments :: "environment_row list"
  es_promotions :: "promotion_row list"
  es_next_id :: nat

datatype env_error = EnvExists | SourceNotFound | TargetNotFound | EnvNotFound

record new_environment =
  ne_name :: string
  ne_catalog :: string
  ne_schema_prefix :: string
  ne_is_production :: bool
  ne_is_ephemeral :: bool
  ne_pr_number :: "int option"
  ne_branch_name :: "string option"
  ne_expires_at :: "timestamp option"
  ne_created_by :: string

subsection \<open>The repository\<close>

text \<open>The unique index is on tenant and name, and does not look at \<^verbatim>\<open>deleted_at\<close>.\<close>

definition env_create :: "timestamp \<Rightarrow> string \<Rightarrow> new_environment \<Rightarrow> env_state \<Rightarrow> (env_error + environment_row) \<times> env_state" where
  "env_create now t e st =
     (if list_ex (\<lambda>r. ev_tenant r = t \<and> ev_name r = ne_name e) (es_environments st) then (Inl EnvExists, st)
      else
        let row = \<lparr>ev_id = es_next_id st, ev_tenant = t, ev_name = ne_name e, ev_catalog = ne_catalog e, ev_schema_prefix = ne_schema_prefix e,
              ev_is_default = False, ev_is_production = ne_is_production e, ev_is_ephemeral = ne_is_ephemeral e,
              ev_pr_number = ne_pr_number e, ev_branch_name = ne_branch_name e, ev_expires_at = ne_expires_at e,
              ev_created_by = ne_created_by e, ev_deleted_at = None, ev_created_at = now, ev_updated_at = now\<rparr>
        in (Inr row, st\<lparr>es_environments := es_environments st @ [row], es_next_id := es_next_id st + 1\<rparr>))"

definition active_env :: "string \<Rightarrow> string \<Rightarrow> environment_row \<Rightarrow> bool" where
  "active_env t name r \<longleftrightarrow> ev_tenant r = t \<and> ev_name r = name \<and> ev_deleted_at r = None"

definition env_get :: "string \<Rightarrow> string \<Rightarrow> env_state \<Rightarrow> environment_row option" where
  "env_get t name st = List.find (active_env t name) (es_environments st)"

definition env_list_all :: "string \<Rightarrow> bool \<Rightarrow> env_state \<Rightarrow> environment_row list" where
  "env_list_all t include_deleted st =
     sort_key ev_name (filter (\<lambda>r. ev_tenant r = t \<and> (include_deleted \<or> ev_deleted_at r = None)) (es_environments st))"

definition mark_deleted :: "timestamp \<Rightarrow> environment_row \<Rightarrow> environment_row" where
  "mark_deleted now r = r\<lparr>ev_deleted_at := Some now, ev_updated_at := now\<rparr>"

definition env_soft_delete :: "timestamp \<Rightarrow> string \<Rightarrow> string \<Rightarrow> env_state \<Rightarrow> bool \<times> env_state" where
  "env_soft_delete now t name st =
     (case env_get t name st of
        None \<Rightarrow> (False, st)
      | Some _ \<Rightarrow>
          (list_ex (active_env t name) (es_environments st),
           st\<lparr>es_environments := map (\<lambda>r. if active_env t name r then mark_deleted now r else r) (es_environments st)\<rparr>))"

definition env_get_default :: "string \<Rightarrow> env_state \<Rightarrow> environment_row option" where
  "env_get_default t st = List.find (\<lambda>r. ev_tenant r = t \<and> ev_is_default r \<and> ev_deleted_at r = None) (es_environments st)"

definition env_get_ephemeral :: "string \<Rightarrow> env_state \<Rightarrow> environment_row list" where
  "env_get_ephemeral t st = sort_key ev_name (filter (\<lambda>r. ev_tenant r = t \<and> ev_is_ephemeral r \<and> ev_deleted_at r = None) (es_environments st))"

definition env_expired :: "timestamp \<Rightarrow> string \<Rightarrow> environment_row \<Rightarrow> bool" where
  "env_expired now t r \<longleftrightarrow>
     ev_tenant r = t \<and> ev_is_ephemeral r \<and> (case ev_expires_at r of None \<Rightarrow> False | Some x \<Rightarrow> x < now) \<and> ev_deleted_at r = None"

definition env_cleanup_expired :: "timestamp \<Rightarrow> string \<Rightarrow> env_state \<Rightarrow> nat \<times> env_state" where
  "env_cleanup_expired now t st =
     (length (filter (env_expired now t) (es_environments st)),
      st\<lparr>es_environments := map (\<lambda>r. if env_expired now t r then mark_deleted now r else r) (es_environments st)\<rparr>)"

definition record_promotion ::
  "timestamp \<Rightarrow> string \<Rightarrow> string \<Rightarrow> string \<Rightarrow> string \<Rightarrow> string \<Rightarrow> string \<Rightarrow> (string \<times> string) list \<Rightarrow> env_state \<Rightarrow>
   promotion_row \<times> env_state" where
  "record_promotion now t source target source_snapshot target_snapshot promoted_by metadata st =
     (let row = \<lparr>pm_id = es_next_id st, pm_tenant = t, pm_source = source, pm_target = target, pm_source_snapshot = source_snapshot,
            pm_target_snapshot = target_snapshot, pm_promoted_by = promoted_by, pm_promoted_at = now, pm_metadata = metadata\<rparr>
      in (row, st\<lparr>es_promotions := es_promotions st @ [row], es_next_id := es_next_id st + 1\<rparr>))"

definition env_promotion_history :: "string \<Rightarrow> string option \<Rightarrow> nat \<Rightarrow> env_state \<Rightarrow> promotion_row list" where
  "env_promotion_history t name limit st =
     take limit (sort_key (\<lambda>r. - pm_promoted_at r)
       (filter (\<lambda>r. pm_tenant r = t \<and> (case name of None \<Rightarrow> True | Some n \<Rightarrow> pm_source r = n \<or> pm_target r = n)) (es_promotions st)))"

subsection \<open>The service\<close>

definition create_environment ::
  "timestamp \<Rightarrow> string \<Rightarrow> string \<Rightarrow> string \<Rightarrow> string \<Rightarrow> bool \<Rightarrow> string \<Rightarrow> env_state \<Rightarrow> (env_error + environment_row) \<times> env_state" where
  "create_environment now t name catalog schema_prefix is_production created_by st =
     env_create now t \<lparr>ne_name = name, ne_catalog = catalog, ne_schema_prefix = schema_prefix, ne_is_production = is_production,
       ne_is_ephemeral = False, ne_pr_number = None, ne_branch_name = None, ne_expires_at = None, ne_created_by = created_by\<rparr> st"

definition pr_name :: "int \<Rightarrow> string" where "pr_name pr_number = ''pr-'' @ int_string pr_number"

definition create_ephemeral_environment ::
  "timestamp \<Rightarrow> string \<Rightarrow> int \<Rightarrow> string \<Rightarrow> string \<Rightarrow> string \<Rightarrow> string \<Rightarrow> int \<Rightarrow> env_state \<Rightarrow> (env_error + environment_row) \<times> env_state" where
  "create_ephemeral_environment now t pr_number branch_name catalog schema_prefix created_by ttl_hours st =
     env_create now t \<lparr>ne_name = pr_name pr_number, ne_catalog = catalog, ne_schema_prefix = schema_prefix, ne_is_production = False,
       ne_is_ephemeral = True, ne_pr_number = Some pr_number, ne_branch_name = Some branch_name,
       ne_expires_at = Some (now + ttl_hours * 3600 * microseconds_per_second), ne_created_by = created_by\<rparr> st"

definition promote :: "timestamp \<Rightarrow> string \<Rightarrow> string \<Rightarrow> string \<Rightarrow> string \<Rightarrow> string \<Rightarrow> env_state \<Rightarrow> (env_error + promotion_row) \<times> env_state" where
  "promote now t source target snapshot_id promoted_by st =
     (case env_get t source st of
        None \<Rightarrow> (Inl SourceNotFound, st)
      | Some s \<Rightarrow>
          (case env_get t target st of
             None \<Rightarrow> (Inl TargetNotFound, st)
           | Some g \<Rightarrow>
               (let (row, st) = record_promotion now t source target snapshot_id snapshot_id promoted_by
                      [(''source_catalog'', ev_catalog s), (''source_schema'', ev_schema_prefix s),
                       (''target_catalog'', ev_catalog g), (''target_schema'', ev_schema_prefix g)] st
                in (Inr row, st))))"

record sql_rewriter =
  sr_source_catalog :: string
  sr_source_schema :: string
  sr_target_catalog :: string
  sr_target_schema :: string

definition is_noop :: "sql_rewriter \<Rightarrow> bool" where
  "is_noop rw \<longleftrightarrow> py_lower (sr_source_catalog rw) = py_lower (sr_target_catalog rw) \<and> py_lower (sr_source_schema rw) = py_lower (sr_target_schema rw)"

text \<open>\<open>rewrite_tables\<close> is the SQL toolkit's rewriter.\<close>

definition rewrite :: "(sql_rewriter \<Rightarrow> string \<Rightarrow> string) \<Rightarrow> sql_rewriter \<Rightarrow> string \<Rightarrow> string" where
  "rewrite rewrite_tables rw sql = (if is_noop rw then sql else rewrite_tables rw sql)"

definition get_sql_rewriter :: "string \<Rightarrow> string \<Rightarrow> string \<Rightarrow> env_state \<Rightarrow> sql_rewriter option" where
  "get_sql_rewriter t source target st =
     Option.bind (env_get t source st) (\<lambda>s. map_option (\<lambda>g.
       \<lparr>sr_source_catalog = ev_catalog s, sr_source_schema = ev_schema_prefix s, sr_target_catalog = ev_catalog g, sr_target_schema = ev_schema_prefix g\<rparr>)
         (env_get t target st))"

subsection \<open>Calls\<close>

datatype env_call =
    CreateEnv string string string bool string
  | CreateEphemeral int string string string string int
  | DeleteEnv string
  | Promote string string string string
  | CleanupExpired

fun env_step :: "timestamp \<Rightarrow> string \<Rightarrow> env_call \<Rightarrow> env_state \<Rightarrow> env_state" where
  "env_step now t (CreateEnv name catalog schema_prefix is_production created_by) st =
     snd (create_environment now t name catalog schema_prefix is_production created_by st)"
| "env_step now t (CreateEphemeral pr_number branch_name catalog schema_prefix created_by ttl_hours) st =
     snd (create_ephemeral_environment now t pr_number branch_name catalog schema_prefix created_by ttl_hours st)"
| "env_step now t (DeleteEnv name) st = snd (env_soft_delete now t name st)"
| "env_step now t (Promote source target snapshot_id promoted_by) st = snd (promote now t source target snapshot_id promoted_by st)"
| "env_step now t CleanupExpired st = snd (env_cleanup_expired now t st)"

definition env_history :: "(timestamp \<times> string \<times> env_call) list \<Rightarrow> env_state \<Rightarrow> env_state" where
  "env_history calls st = foldl (\<lambda>st (now, t, c). env_step now t c st) st calls"

subsection \<open>Names\<close>

definition env_keys :: "env_state \<Rightarrow> (string \<times> string) list" where
  "env_keys st = map (\<lambda>r. (ev_tenant r, ev_name r)) (es_environments st)"

text \<open>The name was taken once and its environment is deleted.\<close>

definition retired :: "string \<Rightarrow> string \<Rightarrow> env_state \<Rightarrow> bool" where
  "retired t name st \<longleftrightarrow> (\<exists>r\<in>set (es_environments st). ev_tenant r = t \<and> ev_name r = name \<and> ev_deleted_at r \<noteq> None)"

lemma create_keys:
  "distinct (env_keys st) \<Longrightarrow> distinct (env_keys (snd (env_create now t e st)))"
  "retired t' name st \<Longrightarrow> retired t' name (snd (env_create now t e st))"
  by (auto simp: env_create_def env_keys_def retired_def Let_def list_ex_iff)

lemma delete_keys [simp]:
  "map (\<lambda>r. (ev_tenant r, ev_name r)) (map (\<lambda>r. if P r then mark_deleted now r else r) rows) = map (\<lambda>r. (ev_tenant r, ev_name r)) rows"
  by (simp add: mark_deleted_def)

lemma delete_retired:
  "retired t name st \<Longrightarrow> retired t name (st\<lparr>es_environments := map (\<lambda>r. if P r then mark_deleted now r else r) (es_environments st)\<rparr>)"
proof -
  assume "retired t name st"
  then obtain r where r: "r \<in> set (es_environments st)" "ev_tenant r = t" "ev_name r = name" "ev_deleted_at r \<noteq> None" by (auto simp: retired_def)
  let ?r = "if P r then mark_deleted now r else r"
  have "?r \<in> (\<lambda>r. if P r then mark_deleted now r else r) ` set (es_environments st)" using r(1) by (rule imageI)
  moreover have "ev_tenant ?r = t" "ev_name ?r = name" "ev_deleted_at ?r \<noteq> None" using r(2-4) by (simp_all add: mark_deleted_def)
  ultimately show ?thesis unfolding retired_def by (auto simp del: image_iff)
qed

lemma promote_environments [simp]: "es_environments (snd (promote now t source target snapshot_id promoted_by st)) = es_environments st"
  by (simp add: promote_def record_promotion_def Let_def split: option.splits)

lemma env_step_keys: "distinct (env_keys st) \<Longrightarrow> distinct (env_keys (env_step now t c st))"
proof (cases c)
  case (DeleteEnv name)
  then show "distinct (env_keys st) \<Longrightarrow> distinct (env_keys (env_step now t c st))"
    by (simp add: env_soft_delete_def env_keys_def del: map_map split: option.splits)
next
  case CleanupExpired
  then show "distinct (env_keys st) \<Longrightarrow> distinct (env_keys (env_step now t c st))"
    by (simp add: env_cleanup_expired_def env_keys_def del: map_map)
next
  case (Promote source target snapshot_id promoted_by)
  then show "distinct (env_keys st) \<Longrightarrow> distinct (env_keys (env_step now t c st))" by (simp add: env_keys_def)
qed (simp_all add: create_environment_def create_ephemeral_environment_def create_keys)

lemma env_step_retired: "retired t' name st \<Longrightarrow> retired t' name (env_step now t c st)"
proof (cases c)
  case (Promote source target snapshot_id promoted_by)
  then show "retired t' name st \<Longrightarrow> retired t' name (env_step now t c st)" by (simp add: retired_def)
qed (auto simp: create_environment_def create_ephemeral_environment_def create_keys env_soft_delete_def env_cleanup_expired_def delete_retired
    split: option.splits)

lemma env_history_keeps:
  "distinct (env_keys st) \<and> retired t name st \<Longrightarrow> distinct (env_keys (env_history calls st)) \<and> retired t name (env_history calls st)"
  unfolding env_history_def by (induction calls arbitrary: st) (auto simp: env_step_keys env_step_retired)

lemma retired_name_blocked:
  assumes "distinct (env_keys st)" and "retired t name st"
  shows "env_get t name st = None" and "ne_name e = name \<Longrightarrow> fst (env_create now t e st) = Inl EnvExists"
proof -
  obtain r where r: "r \<in> set (es_environments st)" "ev_tenant r = t" "ev_name r = name" "ev_deleted_at r \<noteq> None"
    using assms(2) by (auto simp: retired_def)
  have same: "q = r" if "q \<in> set (es_environments st)" "active_env t name q" for q
  proof -
    have "inj_on (\<lambda>r. (ev_tenant r, ev_name r)) (set (es_environments st))" using assms(1) by (simp add: env_keys_def distinct_map)
    from inj_onD[OF this _ that(1) r(1)] show ?thesis using r(2,3) that(2) by (simp add: active_env_def)
  qed
  have "\<not> active_env t name q" if "q \<in> set (es_environments st)" for q
    using same[OF that] r(4) by (cases "active_env t name q") (simp_all add: active_env_def)
  then show "env_get t name st = None" by (simp add: env_get_def find_None_iff)
  show "fst (env_create now t e st) = Inl EnvExists" if "ne_name e = name"
    using r that by (auto simp: env_create_def list_ex_iff)
qed

lemma soft_delete_retires: "fst (env_soft_delete now t name st) \<Longrightarrow> retired t name (snd (env_soft_delete now t name st))"
proof -
  assume "fst (env_soft_delete now t name st)"
  then obtain q where get: "env_get t name st = Some q" and ex: "list_ex (active_env t name) (es_environments st)"
    by (cases "env_get t name st") (simp_all add: env_soft_delete_def)
  have st': "snd (env_soft_delete now t name st) =
      st\<lparr>es_environments := map (\<lambda>r. if active_env t name r then mark_deleted now r else r) (es_environments st)\<rparr>"
    using get by (simp add: env_soft_delete_def)
  obtain r where r: "r \<in> set (es_environments st)" "active_env t name r" using ex unfolding list_ex_iff by blast
  have "(if active_env t name r then mark_deleted now r else r) \<in> (\<lambda>r. if active_env t name r then mark_deleted now r else r) ` set (es_environments st)"
    using r(1) by (rule imageI)
  then have "mark_deleted now r \<in> set (es_environments (snd (env_soft_delete now t name st)))" using r(2) st' by simp
  moreover have "ev_tenant (mark_deleted now r) = t" "ev_name (mark_deleted now r) = name" "ev_deleted_at (mark_deleted now r) \<noteq> None"
    using r(2) by (simp_all add: active_env_def mark_deleted_def)
  ultimately show ?thesis unfolding retired_def by blast
qed

text \<open>The name of a deleted environment is lost. Once an environment was deleted, then whatever else is done, it is not found, no
  environment can be created under its name, and where the name is that of a pull request, that pull request never gets an environment
  again; the unique index of the table does not look at the mark of deletion.\<close>

theorem deleted_name_is_lost:
  assumes "distinct (env_keys st)" and "fst (env_soft_delete now t name st)"
  shows "env_get t name (env_history calls (snd (env_soft_delete now t name st))) = None \<and>
    fst (create_environment now' t name catalog schema_prefix is_production created_by
      (env_history calls (snd (env_soft_delete now t name st)))) = Inl EnvExists \<and>
    (pr_name n = name \<longrightarrow> fst (create_ephemeral_environment now' t n branch_name catalog schema_prefix created_by ttl_hours
      (env_history calls (snd (env_soft_delete now t name st)))) = Inl EnvExists)"
proof -
  have "distinct (env_keys (snd (env_soft_delete now t name st)))" using env_step_keys[OF assms(1), of now t "DeleteEnv name"] by simp
  then have "distinct (env_keys (env_history calls (snd (env_soft_delete now t name st)))) \<and>
      retired t name (env_history calls (snd (env_soft_delete now t name st)))"
    using env_history_keeps soft_delete_retires[OF assms(2)] by blast
  then have keys: "distinct (env_keys (env_history calls (snd (env_soft_delete now t name st))))"
    and gone: "retired t name (env_history calls (snd (env_soft_delete now t name st)))" by simp_all
  show ?thesis using retired_name_blocked(1)[OF keys gone]
    by (simp add: create_environment_def create_ephemeral_environment_def retired_name_blocked(2)[OF keys gone])
qed

definition demo_env_state :: env_state where
  "demo_env_state = snd (create_ephemeral_environment 5 ''t'' 7 ''fix'' ''dev'' ''pr7'' ''ann'' 72 \<lparr>es_environments = [], es_promotions = [], es_next_id = 0\<rparr>)"


theorem deleted_name_is_lost_witness:
  "fst (create_ephemeral_environment 9 ''t'' 7 ''fix-2'' ''dev'' ''pr7'' ''ann'' 72
     (env_history [(8, ''t'', CleanupExpired)] (snd (env_soft_delete 6 ''t'' (pr_name 7) demo_env_state)))) = Inl EnvExists"
proof -
  have "distinct (env_keys demo_env_state)" and "fst (env_soft_delete 6 ''t'' (pr_name 7) demo_env_state)"
    by (simp_all add: demo_env_state_def create_ephemeral_environment_def env_create_def env_keys_def Let_def env_soft_delete_def env_get_def active_env_def)
  then show ?thesis
    using deleted_name_is_lost[of demo_env_state 6 "''t''" "pr_name 7" "[(8, ''t'', CleanupExpired)]" 9 "''dev''" "''pr7''" False "''ann''" 7 "''fix-2''" 72] by simp
qed

end
