(* ===== verification/Cron.thy ===== *)
theory Cron
  imports Py_Text
begin

text \<open>
  The subset of cron expressions of \<^verbatim>\<open>api/api/services/reconciliation_scheduler.py\<close>: hourly, daily and weekly schedules,
  the instants each one names, and the next of them after a given instant. Instants are microseconds since the start of 1970, which
  was a Thursday.
\<close>

subsection \<open>Expressions\<close>

datatype cron = Hourly nat | Daily nat nat | Weekly nat nat nat

text \<open>The words of a text: what \<^verbatim>\<open>\s+\<close> separates. The first argument is the word being read, backwards.\<close>

fun words_of :: "string \<Rightarrow> string \<Rightarrow> string list" where
  "words_of acc [] = (if acc = [] then [] else [rev acc])"
| "words_of acc (c # cs) =
     (if is_space c then (if acc = [] then words_of [] cs else rev acc # words_of [] cs) else words_of (c # acc) cs)"

text \<open>\<^verbatim>\<open>\d\<close> and \<^verbatim>\<open>\d{1,2}\<close>\<close>

fun one_digit :: "string \<Rightarrow> nat option" where
  "one_digit [c] = digit_value c"
| "one_digit s = None"

fun two_digits :: "string \<Rightarrow> nat option" where
  "two_digits [c] = digit_value c"
| "two_digits [c, d] = (case (digit_value c, digit_value d) of (Some x, Some y) \<Rightarrow> Some (10 * x + y) | _ \<Rightarrow> None)"
| "two_digits s = None"

text \<open>The three patterns, in the order they are tried.\<close>

definition parse_cron :: "string \<Rightarrow> cron option" where
  "parse_cron expr =
     (case words_of [] (py_strip expr) of
        [m, h, d, mo, w] \<Rightarrow>
          (if d \<noteq> ''*'' \<or> mo \<noteq> ''*'' then None
           else case two_digits m of None \<Rightarrow> None | Some minute \<Rightarrow>
             (if h = ''*'' \<and> w = ''*'' then Some (Hourly minute)
              else case two_digits h of None \<Rightarrow> None | Some hour \<Rightarrow>
                (if w = ''*'' then Some (Daily minute hour)
                 else case one_digit w of None \<Rightarrow> None | Some dow \<Rightarrow> Some (Weekly minute hour dow))))
      | _ \<Rightarrow> None)"

subsection \<open>The next run\<close>

datatype cron_error = UnsupportedExpression | FieldOutOfRange

definition minute_len :: int where "minute_len = 60 * microseconds_per_second"
definition hour_len :: int where "hour_len = 60 * minute_len"

text \<open>\<^verbatim>\<open>replace\<close> with a minute, and with an hour and a minute, and \<^verbatim>\<open>weekday\<close> (Monday is 0).\<close>

definition at_minute :: "timestamp \<Rightarrow> nat \<Rightarrow> timestamp" where
  "at_minute t m = t - t mod hour_len + int m * minute_len"

definition at_time :: "timestamp \<Rightarrow> nat \<Rightarrow> nat \<Rightarrow> timestamp" where
  "at_time t h m = t - t mod microseconds_per_day + int h * hour_len + int m * minute_len"

definition weekday_of :: "timestamp \<Rightarrow> int" where
  "weekday_of t = (t div microseconds_per_day + 3) mod 7"

definition compute_next_run :: "string \<Rightarrow> timestamp \<Rightarrow> cron_error + timestamp" where
  "compute_next_run cron_expression from_time =
     (case parse_cron cron_expression of
        None \<Rightarrow> Inl UnsupportedExpression
      | Some (Hourly minute) \<Rightarrow>
          (if \<not> minute < 60 then Inl FieldOutOfRange
           else let candidate = at_minute from_time minute
                in Inr (if candidate \<le> from_time then candidate + hour_len else candidate))
      | Some (Daily minute hour) \<Rightarrow>
          (if \<not> (minute < 60 \<and> hour < 24) then Inl FieldOutOfRange
           else let candidate = at_time from_time hour minute
                in Inr (if candidate \<le> from_time then candidate + microseconds_per_day else candidate))
      | Some (Weekly minute hour target_dow) \<Rightarrow>
          (if \<not> (minute < 60 \<and> hour < 24) then Inl FieldOutOfRange
           else let python_dow = (int target_dow - 1) mod 7;
                    candidate = at_time from_time hour minute;
                    days_ahead = (python_dow - weekday_of candidate) mod 7
                in Inr (candidate + (if days_ahead = 0 \<and> candidate \<le> from_time then 7 else days_ahead) * microseconds_per_day)))"

subsection \<open>The instants a schedule names\<close>

text \<open>The specification: days count from Thursday, so that Sunday, which cron writes as 0, is day 3 of 1970.\<close>

fun cron_in_range :: "cron \<Rightarrow> bool" where
  "cron_in_range (Hourly m) \<longleftrightarrow> m < 60"
| "cron_in_range (Daily m h) \<longleftrightarrow> m < 60 \<and> h < 24"
| "cron_in_range (Weekly m h d) \<longleftrightarrow> m < 60 \<and> h < 24"

fun cron_matches :: "cron \<Rightarrow> timestamp \<Rightarrow> bool" where
  "cron_matches (Hourly m) u \<longleftrightarrow> u mod hour_len = int m * minute_len"
| "cron_matches (Daily m h) u \<longleftrightarrow> u mod microseconds_per_day = int h * hour_len + int m * minute_len"
| "cron_matches (Weekly m h d) u \<longleftrightarrow>
     u mod microseconds_per_day = int h * hour_len + int m * minute_len \<and> (u div microseconds_per_day + 4) mod 7 = int d mod 7"

lemma lengths: "microseconds_per_day = 24 * hour_len" "hour_len = 60 * minute_len" "0 < minute_len" "0 < hour_len" "0 < microseconds_per_day"
  by (simp_all add: microseconds_per_day_def hour_len_def minute_len_def microseconds_per_second_def)

lemma minute_offset: "m < 60 \<Longrightarrow> 0 \<le> int m * minute_len \<and> int m * minute_len < hour_len"
  using lengths(3) by (simp add: lengths(2))

lemma time_offset:
  assumes "m < 60" "h < 24"
  shows "0 \<le> int h * hour_len + int m * minute_len \<and> int h * hour_len + int m * minute_len < microseconds_per_day"
proof -
  have "int h * hour_len \<le> 23 * hour_len" using assms(2) lengths(4) by (intro mult_right_mono) auto
  moreover have "0 \<le> int h * hour_len" using lengths(4) by simp
  ultimately show ?thesis using minute_offset[OF assms(1)] unfolding lengths(1) by linarith
qed

text \<open>Between an instant of a period and the one before it there is no other of the same phase.\<close>

lemma no_earlier_phase:
  fixes u t v P s :: int
  assumes "0 < P" "u - P \<le> t" "t < v" "v < u" "(u + s) mod P = r"
  shows "(v + s) mod P \<noteq> r"
proof
  assume "(v + s) mod P = r"
  with assms(5) have "P dvd (u + s) - (v + s)" using mod_eq_dvd_iff by metis
  moreover have "(u + s) - (v + s) = u - v" by simp
  ultimately have "P dvd u - v" by metis
  moreover have "0 < u - v" "u - v < P" using assms(2-4) by simp_all
  ultimately show False using zdvd_not_zless by blast
qed

lemma next_phase:
  fixes t P r :: int
  assumes "0 < P" "0 \<le> r" "r < P"
  defines "c \<equiv> t - t mod P + r"
  defines "u \<equiv> if c \<le> t then c + P else c"
  shows "u mod P = r" "t < u" "u - P \<le> t" "c mod P = r" "t < c + P"
proof -
  have m: "0 \<le> t mod P" "t mod P < P" using assms(1) by simp_all
  have "c = r + P * (t div P)" unfolding c_def minus_mod_eq_mult_div by simp
  then have c: "c mod P = r" using assms(2,3) by simp
  then show "c mod P = r" .
  show "u mod P = r" using c by (simp add: u_def)
  show "t < u" "u - P \<le> t" "t < c + P" using m assms(2,3) unfolding u_def c_def by (cases "t - t mod P + r \<le> t"; simp only: if_True if_False; linarith)+
qed

lemma cron_weekly:
  "cron_matches (Weekly m h d) u \<longleftrightarrow>
     (u + 4 * microseconds_per_day) mod (microseconds_per_day * 7) = microseconds_per_day * (int d mod 7) + (int h * hour_len + int m * minute_len)"
  if "m < 60" "h < 24"
proof -
  let ?D = microseconds_per_day and ?r = "int h * hour_len + int m * minute_len"
  have r: "0 \<le> ?r" "?r < ?D" using time_offset[OF that] by simp_all
  have "(u + 4 * ?D) mod (?D * 7) = ?D * ((u div ?D + 4) mod 7) + u mod ?D"
    using lengths(5) by (subst zmod_zmult2_eq) (simp_all add: add.commute)
  moreover have "?D * a + b = ?D * a' + ?r \<longleftrightarrow> a = a' \<and> b = ?r" if "0 \<le> b" "b < ?D" for a a' b
    using that r lengths(5)
    by (metis add.commute add_right_cancel div_mult_self2 less_irrefl div_pos_pos_trivial add_0_left)
  ultimately show ?thesis using lengths(5) by auto
qed

lemma week_day: "(y + ((x - 1) mod 7 - (y + 3) mod 7) mod 7 + 4) mod 7 = x mod 7" for x y :: int
proof -
  have "((x - 1) mod 7 - (y + 3) mod 7) mod 7 = ((x - 1) - (y + 3)) mod 7" by (rule mod_diff_eq)
  then have "(y + ((x - 1) mod 7 - (y + 3) mod 7) mod 7 + 4) mod 7 = (y + ((x - 1) - (y + 3)) mod 7 + 4) mod 7" by (rule arg_cong)
  also have "\<dots> = (y + 4 + ((x - 1) - (y + 3)) mod 7) mod 7" by (simp only: ac_simps)
  also have "\<dots> = (y + 4 + ((x - 1) - (y + 3))) mod 7" by (rule mod_add_right_eq)
  finally show ?thesis by simp
qed

lemma next_weekly:
  fixes t :: timestamp and d :: nat
  assumes range: "m < 60" "h < 24"
  defines "c \<equiv> at_time t h m"
  defines "k \<equiv> ((int d - 1) mod 7 - weekday_of c) mod 7"
  defines "u \<equiv> c + (if k = 0 \<and> c \<le> t then 7 else k) * microseconds_per_day"
  shows "cron_matches (Weekly m h d) u" "t < u" "u - microseconds_per_day * 7 \<le> t"
proof -
  let ?D = microseconds_per_day
  define r where "r = int h * hour_len + int m * minute_len"
  have r: "0 \<le> r" "r < ?D" using time_offset[OF range] by (simp_all add: r_def)
  have c: "c = t - t mod ?D + r" by (simp add: c_def at_time_def r_def)
  note c_facts = next_phase(4,5)[OF lengths(5) r, of t, folded c]
  define j where "j = (if k = 0 \<and> c \<le> t then 7 else k)"
  have u: "u = c + j * ?D" by (simp add: u_def j_def)
  have k: "0 \<le> k" "k < 7" by (simp_all add: k_def)
  have div: "u div ?D = c div ?D + j" and "mod": "u mod ?D = r" using lengths(5) c_facts(1) unfolding u by simp_all
  have "(u div ?D + 4) mod 7 = (c div ?D + k + 4) mod 7" unfolding div j_def
  proof (cases "k = 0 \<and> c \<le> t")
    case True
    have week: "(x + 7 + 4) mod 7 = (x + 0 + 4) mod 7" for x :: int by presburger
    show "(c div ?D + (if k = 0 \<and> c \<le> t then 7 else k) + 4) mod 7 = (c div ?D + k + 4) mod 7"
      by (simp only: if_P[OF True]) (simp only: conjunct1[OF True] week)
  next
    case False
    then show "(c div ?D + (if k = 0 \<and> c \<le> t then 7 else k) + 4) mod 7 = (c div ?D + k + 4) mod 7" by (simp only: if_False)
  qed
  also have "\<dots> = int d mod 7" unfolding k_def weekday_of_def by (rule week_day)
  finally show "cron_matches (Weekly m h d) u" using "mod" by (simp add: r_def)
  have low: "c + 1 * ?D \<le> c + j * ?D" if "j \<noteq> 0" using that k lengths(5) by (intro add_left_mono mult_right_mono) (auto simp: j_def)
  show "t < u"
  proof (cases "j = 0")
    case True
    then have "\<not> c \<le> t" by (auto simp: j_def split: if_splits)
    then show ?thesis using True by (simp add: u)
  next
    case False
    with low c_facts(2) show ?thesis by (simp add: u)
  qed
  show "u - ?D * 7 \<le> t"
  proof (cases "c \<le> t")
    case True
    have "j * ?D \<le> 7 * ?D" using k lengths(5) by (intro mult_right_mono) (auto simp: j_def)
    with True show ?thesis by (simp add: u)
  next
    case False
    then have "j * ?D \<le> 6 * ?D" using k lengths(5) by (intro mult_right_mono) (auto simp: j_def)
    moreover have "c < t + ?D" using r pos_mod_sign[OF lengths(5), of t] False unfolding c by linarith
    ultimately show ?thesis by (simp add: u)
  qed
qed

subsection \<open>Correctness\<close>

lemma next_run_ok:
  assumes Some: "parse_cron expr = Some c" and range: "cron_in_range c"
  shows "\<exists>u. compute_next_run expr t = Inr u \<and> t < u \<and> cron_matches c u \<and> {v. t < v \<and> v < u \<and> cron_matches c v} = {}"
proof (cases c)
  case (Hourly m)
  then have r: "0 \<le> int m * minute_len" "int m * minute_len < hour_len" using minute_offset range by auto
  note f = next_phase(1-3)[OF lengths(4) r, of t]
  then show ?thesis
    using Some Hourly range no_earlier_phase[OF lengths(4) f(3), where s = 0]
    by (auto simp: compute_next_run_def at_minute_def Let_def)
next
  case (Daily m h)
  then have r: "0 \<le> int h * hour_len + int m * minute_len" "int h * hour_len + int m * minute_len < microseconds_per_day"
    using time_offset range by auto
  note f = next_phase(1-3)[OF lengths(5) r, of t]
  then show ?thesis
    using Some Daily range no_earlier_phase[OF lengths(5) f(3), where s = 0]
    by (auto simp: compute_next_run_def at_time_def Let_def add.assoc)
next
  case (Weekly m h d)
  with range have hm: "m < 60" "h < 24" by auto
  define k where "k = ((int d - 1) mod 7 - weekday_of (at_time t h m)) mod 7"
  define u where "u = at_time t h m + (if k = 0 \<and> at_time t h m \<le> t then 7 else k) * microseconds_per_day"
  note f = next_weekly[OF hm, where t = t and d = d, folded k_def, folded u_def]
  have "\<not> cron_matches (Weekly m h d) v" if "t < v" "v < u" for v
    using no_earlier_phase[OF _ f(3) that f(1)[unfolded cron_weekly[OF hm]]] lengths(5) unfolding cron_weekly[OF hm] by simp
  moreover have "compute_next_run expr t = Inr u" using Some Weekly hm by (simp add: compute_next_run_def Let_def u_def k_def)
  ultimately show ?thesis using f(1,2) Weekly by blast
qed

text \<open>The expressions that have a next run.\<close>

definition cron_ok :: "string \<Rightarrow> bool" where
  "cron_ok expr \<longleftrightarrow> (case parse_cron expr of None \<Rightarrow> False | Some c \<Rightarrow> cron_in_range c)"

lemma next_run_error:
  "\<not> cron_ok expr \<Longrightarrow> compute_next_run expr t = Inl (if parse_cron expr = None then UnsupportedExpression else FieldOutOfRange)"
  by (auto simp: cron_ok_def compute_next_run_def split: option.splits cron.splits)

lemma next_run_later: "cron_ok expr \<Longrightarrow> \<exists>u. compute_next_run expr t = Inr u \<and> t < u"
  using next_run_ok by (fastforce simp: cron_ok_def split: option.splits)

text \<open>C27: The next run is the next: for an expression of one of the three patterns with its fields in range, the computed instant is one that
  the schedule names, lies after the given one, and none that the schedule names lies between; other expressions, and fields out of
  range, are errors, and nothing else is.\<close>

theorem next_run_is_next:
  "case parse_cron expr of
     None \<Rightarrow> compute_next_run expr t = Inl UnsupportedExpression
   | Some c \<Rightarrow>
       if cron_in_range c
       then \<exists>u. compute_next_run expr t = Inr u \<and> t < u \<and> cron_matches c u \<and> {v. t < v \<and> v < u \<and> cron_matches c v} = {}
       else compute_next_run expr t = Inl FieldOutOfRange"
  using next_run_ok next_run_error[of expr t] by (auto simp: cron_ok_def split: option.splits)

text \<open>Spaces and blanks around the fields do not matter, hours and weekdays do, and the week has ten days: 8 and 9 are Monday and Tuesday.\<close>

lemma cron_examples:
  "parse_cron ''5 * * * *'' = Some (Hourly 5)" "parse_cron ''  05   3 * * * '' = Some (Daily 5 3)"
  "parse_cron ''0 2 * * 8'' = Some (Weekly 0 2 8)" "parse_cron ''*/5 * * * *'' = None" "parse_cron ''0 0 1 * *'' = None"
  "compute_next_run ''0 24 * * *'' 0 = Inl FieldOutOfRange"
  by code_simp+

lemma cron_eighth_day: "cron_matches (Weekly m h 8) u \<longleftrightarrow> cron_matches (Weekly m h 1) u"
  by simp

end
