(* ===== verification/Drift.thy ===== *)
theory Drift
  imports Contracts
begin

text \<open>
  Schema drift, \<^verbatim>\<open>core_engine/core_engine/executor/schema_introspector.py\<close>: the parser of the warehouse's description of a table,
  and the comparison of an expected with an actual schema, which ignores the case of names and normalises types.
\<close>

subsection \<open>Schemas\<close>

record column_info =
  ci_name :: string
  ci_data_type :: string
  ci_nullable :: bool
  ci_comment :: "string option"

record table_schema =
  ts_table_name :: string
  ts_columns :: "column_info list"

datatype drift_type = COLUMN_ADDED | COLUMN_REMOVED | TYPE_CHANGED

fun drift_text :: "drift_type \<Rightarrow> string" where
  "drift_text COLUMN_ADDED = ''COLUMN_ADDED''"
| "drift_text COLUMN_REMOVED = ''COLUMN_REMOVED''"
| "drift_text TYPE_CHANGED = ''TYPE_CHANGED''"

record schema_drift =
  sd_model_name :: string
  sd_drift_type :: drift_type
  sd_column_name :: string
  sd_expected :: string
  sd_actual :: string
  sd_message :: string

subsection \<open>Parsing\<close>

text \<open>A row of \<^verbatim>\<open>DESCRIBE TABLE EXTENDED\<close>: name, type and comment, where it has them. The columns end at the first blank or \<open>#\<close> line.\<close>

type_synonym describe_row = "string option \<times> string option \<times> string option"

fun describe_loop :: "describe_row list \<Rightarrow> bool \<Rightarrow> string \<Rightarrow> column_info list \<Rightarrow> table_schema" where
  "describe_loop [] in_metadata table_name cols = \<lparr>ts_table_name = table_name, ts_columns = cols\<rparr>"
| "describe_loop ((name, data_type, comment) # rows) in_metadata table_name cols =
     (let col_name = py_strip (opt_or name []); data_type = py_strip (opt_or data_type []); comment = py_strip (opt_or comment [])
      in if col_name = [] \<or> hd col_name = CHR ''#'' then describe_loop rows True table_name cols
         else if in_metadata
         then describe_loop rows True
                (if data_type \<noteq> [] \<and> py_lower col_name \<in> {''table'', ''name'', ''table_name''} then data_type else table_name) cols
         else describe_loop rows False table_name
                (cols @ [\<lparr>ci_name = col_name, ci_data_type = data_type, ci_nullable = True,
                          ci_comment = (if comment = [] then None else Some comment)\<rparr>]))"

definition parse_describe_output :: "describe_row list \<Rightarrow> table_schema" where
  "parse_describe_output rows = describe_loop rows False [] []"

subsection \<open>Comparison\<close>

definition column_map :: "table_schema \<Rightarrow> (string \<times> column_info) list" where
  "column_map ts = foldl (\<lambda>d c. dict_set d (py_lower (ci_name c)) c) [] (ts_columns ts)"

definition shown :: "column_info \<Rightarrow> string" where "shown c = ci_name c @ '': '' @ ci_data_type c"

definition removed_drift :: "string \<Rightarrow> column_info \<Rightarrow> schema_drift" where
  "removed_drift m c =
     \<lparr>sd_model_name = m, sd_drift_type = COLUMN_REMOVED, sd_column_name = ci_name c, sd_expected = shown c, sd_actual = ''(missing)'',
      sd_message = ''Column '' @ quoted (ci_name c) @ '' (type: '' @ ci_data_type c @ '') exists in expected schema but is missing from actual.''\<rparr>"

definition added_drift :: "string \<Rightarrow> column_info \<Rightarrow> schema_drift" where
  "added_drift m c =
     \<lparr>sd_model_name = m, sd_drift_type = COLUMN_ADDED, sd_column_name = ci_name c, sd_expected = ''(not expected)'', sd_actual = shown c,
      sd_message = ''Column '' @ quoted (ci_name c) @ '' (type: '' @ ci_data_type c @ '') exists in actual schema but is not in the expected schema.''\<rparr>"

definition changed_drift :: "string \<Rightarrow> column_info \<Rightarrow> column_info \<Rightarrow> schema_drift" where
  "changed_drift m e a =
     \<lparr>sd_model_name = m, sd_drift_type = TYPE_CHANGED, sd_column_name = ci_name e, sd_expected = ci_data_type e, sd_actual = ci_data_type a,
      sd_message = ''Column '' @ quoted (ci_name e) @ '' type changed: expected '' @ ci_data_type e @ '', actual '' @ ci_data_type a @ ''.''\<rparr>"

definition compare_schemas :: "table_schema \<Rightarrow> table_schema \<Rightarrow> schema_drift list" where
  "compare_schemas expected actual =
     (let m = (if ts_table_name expected \<noteq> [] then ts_table_name expected
               else if ts_table_name actual \<noteq> [] then ts_table_name actual else ''unknown'');
          em = column_map expected; am = column_map actual;
          removed = map (removed_drift m \<circ> snd) (filter (\<lambda>(k, c). map_of am k = None) (sort_key fst em));
          added = map (added_drift m \<circ> snd) (filter (\<lambda>(k, c). map_of em k = None) (sort_key fst am));
          common = filter (\<lambda>k. map_of am k \<noteq> None) (sort (map fst em));
          changed = concat (map (\<lambda>k. let e = the (map_of em k); a = the (map_of am k)
              in if normalize_type (ci_data_type e) \<noteq> normalize_type (ci_data_type a) then [changed_drift m e a] else []) common)
      in sort_key (\<lambda>d. (drift_text (sd_drift_type d), py_lower (sd_column_name d))) (removed @ added @ changed))"

definition contract_schema :: "model_definition \<Rightarrow> table_schema option" where
  "contract_schema m =
     (if md_contract_columns m \<noteq> []
      then Some \<lparr>ts_table_name = md_name m, ts_columns = map (\<lambda>c. \<lparr>ci_name = cc_name c, ci_data_type = cc_data_type c, ci_nullable = cc_nullable c,
             ci_comment = None\<rparr>) (sort_key (\<lambda>c. py_lower (cc_name c)) (md_contract_columns m))\<rparr>
      else if md_output_columns m \<noteq> []
      then Some \<lparr>ts_table_name = md_name m, ts_columns = map (\<lambda>n. \<lparr>ci_name = n, ci_data_type = ''UNKNOWN'', ci_nullable = True, ci_comment = None\<rparr>)
             (sort_key py_lower (md_output_columns m))\<rparr>
      else None)"

definition compare_with_contracts :: "model_definition \<Rightarrow> table_schema \<Rightarrow> schema_drift list" where
  "compare_with_contracts m actual = (case contract_schema m of None \<Rightarrow> [] | Some expected \<Rightarrow> compare_schemas expected actual)"

subsection \<open>What is reported\<close>

text \<open>The column that a name stands for: the last one with the name, whatever its case.\<close>

definition column_of :: "table_schema \<Rightarrow> string \<Rightarrow> column_info option" where
  "column_of ts k = List.find (\<lambda>c. py_lower (ci_name c) = k) (rev (ts_columns ts))"

lemma fst_dict_set: "fst ` set (dict_set d k v) = insert k (fst ` set d)" "distinct (map fst d) \<Longrightarrow> distinct (map fst (dict_set d k v))"
  by (induction d k v rule: dict_set.induct) auto

lemma column_map_snoc:
  "column_map \<lparr>ts_table_name = t, ts_columns = cs @ [c]\<rparr> = dict_set (column_map \<lparr>ts_table_name = t, ts_columns = cs\<rparr>) (py_lower (ci_name c)) c"
  by (simp add: column_map_def)

lemma column_map_facts:
  "map_of (column_map ts) = column_of ts \<and> distinct (map fst (column_map ts)) \<and> (\<forall>(k, c)\<in>set (column_map ts). k = py_lower (ci_name c))"
proof -
  have "map_of (column_map \<lparr>ts_table_name = t, ts_columns = cs\<rparr>) = column_of \<lparr>ts_table_name = t, ts_columns = cs\<rparr> \<and>
      distinct (map fst (column_map \<lparr>ts_table_name = t, ts_columns = cs\<rparr>)) \<and>
      (\<forall>k c. map_of (column_map \<lparr>ts_table_name = t, ts_columns = cs\<rparr>) k = Some c \<longrightarrow> k = py_lower (ci_name c))" for t cs
  proof (induction cs rule: rev_induct)
    case Nil
    then show ?case by (simp add: column_map_def column_of_def)
  next
    case (snoc c cs)
    then show ?case by (auto simp: column_map_snoc column_of_def fst_dict_set fun_eq_iff)
  qed
  moreover have "\<lparr>ts_table_name = ts_table_name ts, ts_columns = ts_columns ts\<rparr> = ts" by simp
  ultimately have facts: "map_of (column_map ts) = column_of ts" "distinct (map fst (column_map ts))"
      "\<forall>k c. map_of (column_map ts) k = Some c \<longrightarrow> k = py_lower (ci_name c)" by metis+
  have "k = py_lower (ci_name c)" if "(k, c) \<in> set (column_map ts)" for k c
    using facts(3) map_of_is_SomeI[OF facts(2) that] by blast
  with facts show ?thesis by blast
qed

lemma column_map_set: "(k, c) \<in> set (column_map ts) \<longleftrightarrow> column_of ts k = Some c"
  using column_map_facts[of ts] by (metis map_of_eq_Some_iff)

lemma no_image: "{f c | k c. P k c} = {} \<longleftrightarrow> (\<forall>k. \<not> (\<exists>c. P k c))"
  by blast

lemma no_image2: "{f a b | k a b. P k a b} = {} \<longleftrightarrow> (\<forall>k. \<not> (\<exists>a b. P k a b))"
  by blast

lemma same_column:
  "(\<not> (\<exists>c. x = Some c \<and> y = None) \<and> \<not> (\<exists>c. y = Some c \<and> x = None) \<and>
     \<not> (\<exists>e a. x = Some e \<and> y = Some a \<and> normalize_type (ci_data_type e) \<noteq> normalize_type (ci_data_type a))) \<longleftrightarrow>
   map_option (normalize_type \<circ> ci_data_type) x = map_option (normalize_type \<circ> ci_data_type) y"
  by (cases x; cases y) auto

definition model_label :: "table_schema \<Rightarrow> table_schema \<Rightarrow> string" where
  "model_label expected actual =
     (if ts_table_name expected \<noteq> [] then ts_table_name expected else if ts_table_name actual \<noteq> [] then ts_table_name actual else ''unknown'')"

text \<open>The report that the two schemas call for, column by column.\<close>

definition due_drifts :: "table_schema \<Rightarrow> table_schema \<Rightarrow> schema_drift set" where
  "due_drifts expected actual =
     {removed_drift (model_label expected actual) c | k c. column_of expected k = Some c \<and> column_of actual k = None} \<union>
     {added_drift (model_label expected actual) c | k c. column_of actual k = Some c \<and> column_of expected k = None} \<union>
     {changed_drift (model_label expected actual) e a | k e a. column_of expected k = Some e \<and> column_of actual k = Some a \<and>
        normalize_type (ci_data_type e) \<noteq> normalize_type (ci_data_type a)}"

lemma compare_schemas_set: "set (compare_schemas expected actual) = due_drifts expected actual"
proof -
  let ?m = "model_label expected actual"
  let ?R = "{removed_drift ?m c | k c. column_of expected k = Some c \<and> column_of actual k = None}"
  let ?A = "{added_drift ?m c | k c. column_of actual k = Some c \<and> column_of expected k = None}"
  let ?T = "{changed_drift ?m e a | k e a. column_of expected k = Some e \<and> column_of actual k = Some a \<and>
        normalize_type (ci_data_type e) \<noteq> normalize_type (ci_data_type a)}"
  have em: "map_of (column_map expected) = column_of expected" and am: "map_of (column_map actual) = column_of actual"
    using column_map_facts by blast+
  have keys: "k \<in> fst ` set (column_map expected) \<longleftrightarrow> column_of expected k \<noteq> None" for k
    unfolding em[symmetric] by (metis map_of_eq_None_iff)
  have r: "set (map (removed_drift ?m \<circ> snd) (filter (\<lambda>(k, c). column_of actual k = None) (sort_key fst (column_map expected)))) = ?R"
    by (force simp: column_map_set image_iff)
  have a: "set (map (added_drift ?m \<circ> snd) (filter (\<lambda>(k, c). column_of expected k = None) (sort_key fst (column_map actual)))) = ?A"
    by (force simp: column_map_set image_iff)
  have t: "set (concat (map (\<lambda>k. let e = the (column_of expected k); a = the (column_of actual k)
      in if normalize_type (ci_data_type e) \<noteq> normalize_type (ci_data_type a) then [changed_drift ?m e a] else [])
      (filter (\<lambda>k. column_of actual k \<noteq> None) (sort (map fst (column_map expected)))))) = ?T"
    unfolding set_concat set_map set_filter set_sort Let_def using keys by (auto split: if_splits) (metis option.sel)+
  show ?thesis unfolding compare_schemas_def Let_def em am model_label_def[symmetric] set_sort set_append r a t[unfolded Let_def] Un_assoc due_drifts_def by (rule refl)
qed

lemma no_drifts_iff:
  "due_drifts expected actual = {} \<longleftrightarrow>
     (\<forall>k. map_option (normalize_type \<circ> ci_data_type) (column_of expected k) = map_option (normalize_type \<circ> ci_data_type) (column_of actual k))"
proof -
  have "due_drifts expected actual = {} \<longleftrightarrow> (\<forall>k. \<not> (\<exists>c. column_of expected k = Some c \<and> column_of actual k = None) \<and>
      \<not> (\<exists>c. column_of actual k = Some c \<and> column_of expected k = None) \<and>
      \<not> (\<exists>e a. column_of expected k = Some e \<and> column_of actual k = Some a \<and>
        normalize_type (ci_data_type e) \<noteq> normalize_type (ci_data_type a)))"
    unfolding due_drifts_def Un_empty conj_assoc no_image no_image2 all_conj_distrib by (rule refl)
  also have "\<dots> \<longleftrightarrow> (\<forall>k. map_option (normalize_type \<circ> ci_data_type) (column_of expected k) = map_option (normalize_type \<circ> ci_data_type) (column_of actual k))"
    by (intro all_cong1 same_column)
  finally show ?thesis .
qed

text \<open>C28: The drift report is exact: it holds one removal for each expected column that the table lacks, one addition for each column that was
  not expected, one change of type for each column both have with different normalised types, and nothing else, in the order of kind and
  name; so it is empty just when the two schemas agree on every name, up to case, and type.\<close>

theorem drift_report_exact:
  "set (compare_schemas expected actual) = due_drifts expected actual \<and>
   (compare_schemas expected actual = [] \<longleftrightarrow>
     (\<forall>k. map_option (normalize_type \<circ> ci_data_type) (column_of expected k) = map_option (normalize_type \<circ> ci_data_type) (column_of actual k))) \<and>
   sorted (map (\<lambda>d. (drift_text (sd_drift_type d), py_lower (sd_column_name d))) (compare_schemas expected actual))"
proof -
  have "compare_schemas expected actual = [] \<longleftrightarrow> due_drifts expected actual = {}"
    using compare_schemas_set[of expected actual] by (metis set_empty)
  then show ?thesis using compare_schemas_set no_drifts_iff by (simp add: compare_schemas_def Let_def)
qed

text \<open>A model that declares only the names of its columns is compared on types all the same: a present column of any known type is a change.\<close>

theorem untyped_columns_always_change:
  assumes "md_contract_columns m = []" "c \<in> set (md_output_columns m)" "column_of actual (py_lower c) = Some a"
    and "normalize_type (ci_data_type a) \<noteq> normalize_type ''UNKNOWN''"
  shows "\<exists>d\<in>set (compare_with_contracts m actual). sd_drift_type d = TYPE_CHANGED \<and> sd_actual d = ci_data_type a"
proof -
  define cols where "cols = map (\<lambda>n. \<lparr>ci_name = n, ci_data_type = ''UNKNOWN'', ci_nullable = True, ci_comment = None\<rparr>) (sort_key py_lower (md_output_columns m))"
  define e where "e = \<lparr>ts_table_name = md_name m, ts_columns = cols\<rparr>"
  have "md_output_columns m \<noteq> []" using assms(2) by auto
  with assms(1) have cmp: "compare_with_contracts m actual = compare_schemas e actual"
    by (simp add: compare_with_contracts_def contract_schema_def e_def cols_def)
  have "\<exists>x\<in>set (ts_columns e). py_lower (ci_name x) = py_lower c" using assms(2) by (auto simp: e_def cols_def)
  then have "column_of e (py_lower c) \<noteq> None" unfolding column_of_def find_None_iff by auto
  then obtain x where x: "column_of e (py_lower c) = Some x" by blast
  then have "ci_data_type x = ''UNKNOWN''" by (auto simp: column_of_def find_Some_iff e_def cols_def rev_nth)
  with x assms(3,4) have "changed_drift (model_label e actual) x a \<in> due_drifts e actual" unfolding due_drifts_def by fastforce
  then show ?thesis unfolding cmp compare_schemas_set by (rule bexI[rotated]) (simp add: changed_drift_def)
qed

subsection \<open>What the comparison sees\<close>

text \<open>A column without its comment, and a drift without the model's name: what the comparison reads and what its readers keep.\<close>

definition bare :: "column_info \<Rightarrow> column_info" where "bare c = c\<lparr>ci_comment := None\<rparr>"

definition unnamed :: "schema_drift \<Rightarrow> schema_drift" where "unnamed d = d\<lparr>sd_model_name := []\<rparr>"

lemma bare_sel [simp]: "ci_name (bare c) = ci_name c" "ci_data_type (bare c) = ci_data_type c" "ci_nullable (bare c) = ci_nullable c"
  by (simp_all add: bare_def)

lemma sorted_map_unique:
  fixes xs ys :: "('a::linorder \<times> 'b) list"
  assumes "sorted (map fst xs)" "distinct (map fst xs)" "sorted (map fst ys)" "distinct (map fst ys)" "map_of xs = map_of ys"
  shows "xs = ys"
proof -
  have set: "set xs = set ys" using map_of_inject_set[OF assms(2,4)] assms(5) by simp
  have "inj_on fst (set xs \<union> set ys)" using assms(2) set by (simp add: distinct_map)
  from map_sorted_distinct_set_unique[OF this assms(1,2,3,4) set] show ?thesis .
qed

lemma map_of_bare: "map_of (map (\<lambda>(k, c). (k, bare c)) xs) = map_option bare \<circ> map_of xs"
  by (induction xs) (auto simp: fun_eq_iff)

definition same_columns :: "table_schema \<Rightarrow> table_schema \<Rightarrow> bool" where
  "same_columns e e' \<longleftrightarrow> (\<forall>k. map_option bare (column_of e k) = map_option bare (column_of e' k))"

lemma same_columns_items:
  assumes "same_columns e e'"
  shows "map (\<lambda>(k, c). (k, bare c)) (sort_key fst (column_map e)) = map (\<lambda>(k, c). (k, bare c)) (sort_key fst (column_map e'))"
proof (rule sorted_map_unique)
  have fst: "map fst (map (\<lambda>(k, c). (k, bare c)) xs) = map fst xs" for xs :: "(string \<times> column_info) list" by (induction xs) auto
  have d: "distinct (map fst (sort_key fst (column_map ts)))" for ts
    using column_map_facts[of ts] by (simp add: distinct_map inj_on_def) 
  have of: "map_of (sort_key fst (column_map ts)) = column_of ts" for ts
  proof -
    have "map_of (sort_key fst (column_map ts)) = map_of (column_map ts)"
      using map_of_inject_set[OF d[of ts] conjunct1[OF conjunct2[OF column_map_facts[of ts]]]] by simp
    with column_map_facts[of ts] show ?thesis by simp
  qed
  show "map_of (map (\<lambda>(k, c). (k, bare c)) (sort_key fst (column_map e))) = map_of (map (\<lambda>(k, c). (k, bare c)) (sort_key fst (column_map e')))"
    using assms unfolding map_of_bare of same_columns_def by (simp add: fun_eq_iff)
qed (use column_map_facts in \<open>simp_all add: distinct_map inj_on_def o_def split_def\<close>)

lemma sort_key_image: "(\<And>x. k (f x) = k' x) \<Longrightarrow> sort_key k (map f xs) = map f (sort_key k' xs)"
proof (induction xs)
  case (Cons x xs)
  have "insort_key k (f x) (map f ys) = map f (insort_key k' x ys)" for ys using Cons.prems by (induction ys) auto
  with Cons show ?case by simp
qed simp

text \<open>The comparison as a function of the sorted columns, with one name for all reports.\<close>

definition drifts_of :: "string \<Rightarrow> (string \<times> column_info) list \<Rightarrow> (string \<times> column_info) list \<Rightarrow> schema_drift list" where
  "drifts_of m es as =
     sort_key (\<lambda>d. (drift_text (sd_drift_type d), py_lower (sd_column_name d)))
       (map (removed_drift m \<circ> snd) (filter (\<lambda>(k, c). map_of as k = None) es) @
        map (added_drift m \<circ> snd) (filter (\<lambda>(k, c). map_of es k = None) as) @
        concat (map (\<lambda>(k, e). case map_of as k of None \<Rightarrow> [] | Some a \<Rightarrow>
          if normalize_type (ci_data_type e) \<noteq> normalize_type (ci_data_type a) then [changed_drift m e a] else []) es))"

definition items :: "table_schema \<Rightarrow> (string \<times> column_info) list" where "items ts = sort_key fst (column_map ts)"

lemma items_map: "map_of (items ts) = map_of (column_map ts)"
  unfolding items_def using column_map_facts[of ts]
  by (intro iffD2[OF map_of_inject_set]) (auto simp: distinct_map inj_on_def)

lemma compare_schemas_items: "compare_schemas e a = drifts_of (model_label e a) (items e) (items a)"
proof -
  have fst: "sort (map fst (column_map e)) = map fst (items e)" unfolding items_def by (rule sort_key_image) simp
  have e: "map_of (items e) k = Some c" if "(k, c) \<in> set (items e)" for k c
    using that column_map_facts[of e] unfolding items_map by (intro map_of_is_SomeI) (simp_all add: items_def)
  have sub: "concat (map (\<lambda>k. let e = the (map_of (items e) k); a = the (map_of (items a) k)
          in if normalize_type (ci_data_type e) \<noteq> normalize_type (ci_data_type a) then [changed_drift m e a] else [])
        (filter (\<lambda>k. map_of (items a) k \<noteq> None) (map fst xs))) =
      concat (map (\<lambda>(k, e). case map_of (items a) k of None \<Rightarrow> [] | Some a \<Rightarrow>
          if normalize_type (ci_data_type e) \<noteq> normalize_type (ci_data_type a) then [changed_drift m e a] else []) xs)"
    if "set xs \<subseteq> set (items e)" for xs m
    using that
  proof (induction xs)
    case (Cons x xs)
    obtain k c where x: "x = (k, c)" by (cases x)
    with Cons.prems e have "map_of (items e) k = Some c" by simp
    with Cons x show ?case by (cases "map_of (items a) k") (simp_all add: Let_def)
  qed simp
  show ?thesis
    unfolding compare_schemas_def Let_def drifts_of_def model_label_def[symmetric] items_map[symmetric] fst
    using sub[OF subset_refl, unfolded Let_def] by (simp add: items_def)
qed

lemma unnamed_drifts: "map unnamed (drifts_of m es as) = drifts_of [] es as"
proof -
  have r: "unnamed (removed_drift m c) = removed_drift [] c" "unnamed (added_drift m c) = added_drift [] c"
    "unnamed (changed_drift m c d) = changed_drift [] c d" for c d
    by (simp_all add: unnamed_def removed_drift_def added_drift_def changed_drift_def)
  have key: "(drift_text (sd_drift_type (unnamed d)), py_lower (sd_column_name (unnamed d))) =
      (drift_text (sd_drift_type d), py_lower (sd_column_name d))" for d by (simp add: unnamed_def)
  have t: "map unnamed (case x of (k, e) \<Rightarrow> case map_of as k of None \<Rightarrow> [] | Some a \<Rightarrow>
        if normalize_type (ci_data_type e) \<noteq> normalize_type (ci_data_type a) then [changed_drift m e a] else []) =
      (case x of (k, e) \<Rightarrow> case map_of as k of None \<Rightarrow> [] | Some a \<Rightarrow>
        if normalize_type (ci_data_type e) \<noteq> normalize_type (ci_data_type a) then [changed_drift [] e a] else [])" for x
    by (auto simp: r split: prod.splits option.splits)
  show ?thesis
    unfolding drifts_of_def sort_key_image[where f = unnamed and k = "\<lambda>d. (drift_text (sd_drift_type d), py_lower (sd_column_name d))", OF key, symmetric]
    by (rule arg_cong[where f = "sort_key _"]) (simp add: map_concat t o_def r)
qed

lemma bare_drifts: "drifts_of m (map (\<lambda>(k, c). (k, bare c)) es) as = drifts_of m es as"
proof -
  have r: "removed_drift m (bare c) = removed_drift m c" "changed_drift m (bare c) d = changed_drift m c d" for c d
    by (simp_all add: removed_drift_def changed_drift_def shown_def)
  have none: "map_of (map (\<lambda>(k, c). (k, bare c)) es) k = None \<longleftrightarrow> map_of es k = None" for k by (simp add: map_of_bare)
  have f: "map (removed_drift m \<circ> snd) (filter (\<lambda>(k, c). map_of as k = None) (map (\<lambda>(k, c). (k, bare c)) es)) =
      map (removed_drift m \<circ> snd) (filter (\<lambda>(k, c). map_of as k = None) es)"
    by (induction es) (auto simp: r)
  have g: "concat (map (\<lambda>(k, e). case map_of as k of None \<Rightarrow> [] | Some a \<Rightarrow>
          if normalize_type (ci_data_type e) \<noteq> normalize_type (ci_data_type a) then [changed_drift m e a] else [])
        (map (\<lambda>(k, c). (k, bare c)) es)) =
      concat (map (\<lambda>(k, e). case map_of as k of None \<Rightarrow> [] | Some a \<Rightarrow>
          if normalize_type (ci_data_type e) \<noteq> normalize_type (ci_data_type a) then [changed_drift m e a] else []) es)"
    by (induction es) (auto simp: r split: option.splits)
  show ?thesis unfolding drifts_of_def f g none by (rule refl)
qed

text \<open>Two expected schemas that agree up to case of names, order, comments and table name are compared alike.\<close>

lemma compare_same_columns:
  assumes "same_columns e e'"
  shows "map unnamed (compare_schemas e a) = map unnamed (compare_schemas e' a)"
  using same_columns_items[OF assms] unfolding compare_schemas_items unnamed_drifts items_def[symmetric] by (metis bare_drifts)

end
