(* ===== verification/Reconciliation.thy ===== *)
theory Reconciliation
  imports Cron Drift Stores
begin

text \<open>
  Reconciliation: \<^verbatim>\<open>api/api/services/reconciliation_service.py\<close>, the scheduler of \<^verbatim>\<open>reconciliation_scheduler.py\<close>,
  the three repositories of \<^verbatim>\<open>core_engine/core_engine/state/repository.py\<close> it writes to, and the routes of
  \<^verbatim>\<open>api/api/routers/reconciliation.py\<close> that change state.
\<close>

subsection \<open>State\<close>

record check_row =
  kr_id :: nat
  kr_tenant :: string
  kr_run_id :: string
  kr_model :: string
  kr_expected :: string
  kr_warehouse :: string
  kr_discrepancy :: "string option"
  kr_resolved :: bool
  kr_resolved_by :: "string option"
  kr_resolved_at :: "timestamp option"
  kr_note :: "string option"
  kr_checked_at :: timestamp

text \<open>A column and a drift as the JSON documents hold them.\<close>

type_synonym stored_column = "string \<times> string \<times> bool"
type_synonym stored_drift = "string \<times> string \<times> string \<times> string \<times> string"

record drift_row =
  dr_id :: nat
  dr_tenant :: string
  dr_model :: string
  dr_expected :: "stored_column list option"
  dr_actual :: "stored_column list option"
  dr_type :: string
  dr_details :: "stored_drift list option"
  dr_resolved :: bool
  dr_resolved_by :: "string option"
  dr_resolved_at :: "timestamp option"
  dr_note :: "string option"
  dr_checked_at :: timestamp

record schedule_row =
  sc_tenant :: string
  sc_type :: string
  sc_cron :: string
  sc_enabled :: bool
  sc_last_run :: "timestamp option"
  sc_next_run :: "timestamp option"
  sc_created_at :: timestamp
  sc_updated_at :: timestamp

text \<open>The identifiers are the sequences of the two tables; \<open>rc_ticks\<close> counts the instants taken from the clock.\<close>

record recon_state =
  rc_checks :: "check_row list"
  rc_next_check :: nat
  rc_drifts :: "drift_row list"
  rc_next_drift :: nat
  rc_schedules :: "schedule_row list"
  rc_ticks :: nat

text \<open>
  What the operations read: the clock, the plans, runs and models of the database, the column \<^verbatim>\<open>external_run_id\<close> of a run, which
  execution writes as null, and the backend's answer for an external run, \<open>None\<close> where the query raises, as it does without
  credentials.
\<close>

record recon_env =
  rv_tenant :: string
  rv_clock :: "nat \<Rightarrow> timestamp"
  rv_plans :: "plan_row list"
  rv_runs :: "run_row list"
  rv_external :: "run_row \<Rightarrow> string option"
  rv_models :: "(string \<times> string) list"
  rv_verify :: "string \<Rightarrow> run_status option"

definition rc_now :: "recon_env \<Rightarrow> recon_state \<Rightarrow> timestamp" where
  "rc_now env st = rv_clock env (rc_ticks st)"

definition rc_tick :: "recon_state \<Rightarrow> recon_state" where
  "rc_tick st = st\<lparr>rc_ticks := Suc (rc_ticks st)\<rparr>"

subsection \<open>ReconciliationRepository\<close>

definition record_check :: "recon_env \<Rightarrow> string \<Rightarrow> string \<Rightarrow> string \<Rightarrow> string \<Rightarrow> string option \<Rightarrow> recon_state \<Rightarrow> recon_state" where
  "record_check env run_id model_name expected_status warehouse_status discrepancy_type st =
     rc_tick (st\<lparr>rc_checks := rc_checks st @
         [\<lparr>kr_id = rc_next_check st, kr_tenant = rv_tenant env, kr_run_id = run_id, kr_model = model_name, kr_expected = expected_status,
           kr_warehouse = warehouse_status, kr_discrepancy = discrepancy_type, kr_resolved = (discrepancy_type = None),
           kr_resolved_by = None, kr_resolved_at = None, kr_note = None, kr_checked_at = rc_now env st\<rparr>],
       rc_next_check := Suc (rc_next_check st)\<rparr>)"

definition get_unresolved_checks :: "string \<Rightarrow> nat \<Rightarrow> recon_state \<Rightarrow> check_row list" where
  "get_unresolved_checks t limit st =
     take limit (sort_key (\<lambda>r. - kr_checked_at r)
       (filter (\<lambda>r. kr_tenant r = t \<and> \<not> kr_resolved r \<and> kr_discrepancy r \<noteq> None) (rc_checks st)))"

definition resolve_check :: "recon_env \<Rightarrow> nat \<Rightarrow> string \<Rightarrow> string \<Rightarrow> recon_state \<Rightarrow> check_row option \<times> recon_state" where
  "resolve_check env check_id resolved_by note st =
     (let here = (\<lambda>r. kr_tenant r = rv_tenant env \<and> kr_id r = check_id);
          done = (\<lambda>r. r\<lparr>kr_resolved := True, kr_resolved_by := Some resolved_by, kr_resolved_at := Some (rc_now env st), kr_note := Some note\<rparr>)
      in case List.find here (rc_checks st) of
           None \<Rightarrow> (None, st)
         | Some r \<Rightarrow> (Some (done r), rc_tick (st\<lparr>rc_checks := map (\<lambda>r. if here r then done r else r) (rc_checks st)\<rparr>)))"

record check_stats =
  ks_total :: nat
  ks_discrepancies :: nat
  ks_unresolved :: nat
  ks_resolved :: nat

definition get_stats :: "string \<Rightarrow> recon_state \<Rightarrow> check_stats" where
  "get_stats t st =
     (let total = length (filter (\<lambda>r. kr_tenant r = t) (rc_checks st));
          discrepancies = length (filter (\<lambda>r. kr_tenant r = t \<and> kr_discrepancy r \<noteq> None) (rc_checks st));
          unresolved = length (filter (\<lambda>r. kr_tenant r = t \<and> kr_discrepancy r \<noteq> None \<and> \<not> kr_resolved r) (rc_checks st))
      in \<lparr>ks_total = total, ks_discrepancies = discrepancies, ks_unresolved = unresolved, ks_resolved = discrepancies - unresolved\<rparr>)"

subsection \<open>Reconciling runs\<close>

definition classify_discrepancy :: "string \<Rightarrow> string \<Rightarrow> string" where
  "classify_discrepancy expected actual =
     (if expected = run_status_value SUCCESS \<and> actual = run_status_value FAIL then ''phantom_success''
      else if expected = run_status_value FAIL \<and> actual = run_status_value SUCCESS then ''missed_success''
      else if expected = run_status_value RUNNING \<and> actual = run_status_value SUCCESS then ''stale_running''
      else if expected = run_status_value RUNNING \<and> actual = run_status_value FAIL then ''stale_running_failed''
      else if expected = run_status_value PENDING \<and> actual \<in> {run_status_value SUCCESS, run_status_value FAIL} then ''stale_pending''
      else ''status_mismatch'')"

record recon_report =
  rp_total :: nat
  rp_checked :: nat
  rp_matched :: nat
  rp_discrepancies :: nat
  rp_skipped :: nat

text \<open>The runs of the 50 most recent plans, whatever their age.\<close>

definition recent_runs :: "recon_env \<Rightarrow> run_row list" where
  "recent_runs env = concat (map (\<lambda>p. get_by_plan (rv_runs env) (rv_tenant env) (pr_plan_id p)) (list_recent (rv_plans env) (rv_tenant env) 50 0))"

definition reconcile_run :: "recon_env \<Rightarrow> run_row \<Rightarrow> recon_report \<times> recon_state \<Rightarrow> recon_report \<times> recon_state" where
  "reconcile_run env run acc =
     (let (rp, st) = acc
      in if opt_or (rv_external env run) [] = [] then (rp\<lparr>rp_skipped := Suc (rp_skipped rp)\<rparr>, st)
         else case rv_verify env (opt_or (rv_external env run) []) of
           None \<Rightarrow> (rp\<lparr>rp_skipped := Suc (rp_skipped rp)\<rparr>, st)
         | Some status \<Rightarrow>
             (let expected = rn_status run; actual = run_status_value status; rp = rp\<lparr>rp_checked := Suc (rp_checked rp)\<rparr>
              in if expected = actual
                 then (rp\<lparr>rp_matched := Suc (rp_matched rp)\<rparr>, record_check env (rn_run_id run) (rn_model run) expected actual None st)
                 else (rp\<lparr>rp_discrepancies := Suc (rp_discrepancies rp)\<rparr>,
                       record_check env (rn_run_id run) (rn_model run) expected actual (Some (classify_discrepancy expected actual)) st)))"

definition runs_to_check :: "recon_env \<Rightarrow> string option \<Rightarrow> run_row list" where
  "runs_to_check env plan_id =
     (if opt_or plan_id [] \<noteq> [] then get_by_plan (rv_runs env) (rv_tenant env) (opt_or plan_id []) else recent_runs env)"

definition trigger_reconciliation :: "recon_env \<Rightarrow> string option \<Rightarrow> recon_state \<Rightarrow> recon_report \<times> recon_state" where
  "trigger_reconciliation env plan_id st =
     (let runs = runs_to_check env plan_id
      in fold (reconcile_run env) runs
           (\<lparr>rp_total = length runs, rp_checked = 0, rp_matched = 0, rp_discrepancies = 0, rp_skipped = 0\<rparr>, st))"

subsection \<open>SchemaDriftRepository\<close>

definition ck_drift_type :: "string \<Rightarrow> bool" where
  "ck_drift_type s \<longleftrightarrow> s \<in> {''COLUMN_ADDED'', ''COLUMN_REMOVED'', ''TYPE_CHANGED'', ''NONE''}"

definition record_drift ::
  "recon_env \<Rightarrow> string \<Rightarrow> stored_column list option \<Rightarrow> stored_column list option \<Rightarrow> string \<Rightarrow> stored_drift list option \<Rightarrow> recon_state \<Rightarrow>
   nat \<times> recon_state" where
  "record_drift env model_name expected_columns actual_columns drift_type drift_details st =
     (rc_next_drift st,
      rc_tick (st\<lparr>rc_drifts := rc_drifts st @
         [\<lparr>dr_id = rc_next_drift st, dr_tenant = rv_tenant env, dr_model = model_name, dr_expected = expected_columns,
           dr_actual = actual_columns, dr_type = drift_type, dr_details = drift_details, dr_resolved = False, dr_resolved_by = None,
           dr_resolved_at = None, dr_note = None, dr_checked_at = rc_now env st\<rparr>],
       rc_next_drift := Suc (rc_next_drift st)\<rparr>))"

definition get_unresolved_drifts :: "string \<Rightarrow> nat \<Rightarrow> recon_state \<Rightarrow> drift_row list" where
  "get_unresolved_drifts t limit st =
     take limit (sort_key (\<lambda>r. - dr_checked_at r) (filter (\<lambda>r. dr_tenant r = t \<and> \<not> dr_resolved r) (rc_drifts st)))"

definition get_drifts_for_model :: "string \<Rightarrow> string \<Rightarrow> nat \<Rightarrow> recon_state \<Rightarrow> drift_row list" where
  "get_drifts_for_model t model_name limit st =
     take limit (sort_key (\<lambda>r. - dr_checked_at r) (filter (\<lambda>r. dr_tenant r = t \<and> dr_model r = model_name) (rc_drifts st)))"

definition resolve_drift :: "recon_env \<Rightarrow> nat \<Rightarrow> string \<Rightarrow> string \<Rightarrow> recon_state \<Rightarrow> drift_row option \<times> recon_state" where
  "resolve_drift env check_id resolved_by note st =
     (let here = (\<lambda>r. dr_tenant r = rv_tenant env \<and> dr_id r = check_id);
          done = (\<lambda>r. r\<lparr>dr_resolved := True, dr_resolved_by := Some resolved_by, dr_resolved_at := Some (rc_now env st), dr_note := Some note\<rparr>)
      in case List.find here (rc_drifts st) of
           None \<Rightarrow> (None, st)
         | Some r \<Rightarrow> (Some (done r), rc_tick (st\<lparr>rc_drifts := map (\<lambda>r. if here r then done r else r) (rc_drifts st)\<rparr>)))"

subsection \<open>Checking for drift\<close>

definition stored_columns :: "table_schema \<Rightarrow> stored_column list option" where
  "stored_columns ts =
     (if ts_columns ts = [] then None
      else Some (map (\<lambda>c. (ci_name c, ci_data_type c, ci_nullable c)) (sort_key (\<lambda>c. py_lower (ci_name c)) (ts_columns ts))))"

definition schema_of_columns :: "string \<Rightarrow> stored_column list \<Rightarrow> table_schema" where
  "schema_of_columns model_name cols =
     \<lparr>ts_table_name = model_name,
      ts_columns = map (\<lambda>(n, ty, nullable). \<lparr>ci_name = n, ci_data_type = ty, ci_nullable = nullable, ci_comment = None\<rparr>) cols\<rparr>"

definition stored_drift_of :: "schema_drift \<Rightarrow> stored_drift" where
  "stored_drift_of d = (drift_text (sd_drift_type d), sd_column_name d, sd_expected d, sd_actual d, sd_message d)"

definition derive_expected_schema :: "recon_env \<Rightarrow> string \<Rightarrow> recon_state \<Rightarrow> table_schema option" where
  "derive_expected_schema env model_name st =
     (case List.find (\<lambda>r. dr_model r = model_name \<and> dr_expected r \<noteq> None \<and> dr_expected r \<noteq> Some [])
             (get_unresolved_drifts (rv_tenant env) 100 st) of
        None \<Rightarrow> None
      | Some r \<Rightarrow> map_option (schema_of_columns model_name) (dr_expected r))"

definition overall_drift_type :: "schema_drift list \<Rightarrow> string" where
  "overall_drift_type drifts =
     (if drifts = [] then ''NONE''
      else if list_ex (\<lambda>d. sd_drift_type d = COLUMN_REMOVED) drifts then ''COLUMN_REMOVED''
      else if list_ex (\<lambda>d. sd_drift_type d = TYPE_CHANGED) drifts then ''TYPE_CHANGED''
      else if list_ex (\<lambda>d. sd_drift_type d = COLUMN_ADDED) drifts then ''COLUMN_ADDED''
      else drift_text (sd_drift_type (hd drifts)))"

record drift_answer =
  da_model :: string
  da_status :: string
  da_drift_type :: "string option"
  da_drifts :: "stored_drift list"
  da_check_id :: "nat option"

definition check_schema_drift ::
  "recon_env \<Rightarrow> string \<Rightarrow> table_schema option \<Rightarrow> table_schema option \<Rightarrow> recon_state \<Rightarrow> drift_answer \<times> recon_state" where
  "check_schema_drift env model_name actual_schema expected_schema st =
     (if (rv_tenant env, model_name) \<notin> set (rv_models env)
      then (\<lparr>da_model = model_name, da_status = ''model_not_found'', da_drift_type = None, da_drifts = [], da_check_id = None\<rparr>, st)
      else case actual_schema of
        None \<Rightarrow> (\<lparr>da_model = model_name, da_status = ''no_actual_schema'', da_drift_type = None, da_drifts = [], da_check_id = None\<rparr>, st)
      | Some actual \<Rightarrow>
          (let expected = (case expected_schema of None \<Rightarrow> derive_expected_schema env model_name st | Some e \<Rightarrow> Some e);
               drifts = (case expected of None \<Rightarrow> [] | Some e \<Rightarrow> if ts_columns e \<noteq> [] then compare_schemas e actual else []);
               serialised = map stored_drift_of drifts; drift_type = overall_drift_type drifts;
               (check_id, st') = record_drift env model_name (case expected of None \<Rightarrow> None | Some e \<Rightarrow> stored_columns e)
                 (stored_columns actual) drift_type (if serialised = [] then None else Some serialised) st
           in (\<lparr>da_model = model_name, da_status = ''checked'', da_drift_type = Some drift_type, da_drifts = serialised,
                da_check_id = Some check_id\<rparr>, st')))"

record schemas_report =
  sr_requested :: nat
  sr_checked :: nat
  sr_drifts_found :: nat
  sr_results :: "drift_answer list"

text \<open>The models are a page of the table: \<^verbatim>\<open>list_all\<close> returns at most 100 rows.\<close>

definition listed_models :: "recon_env \<Rightarrow> string list" where
  "listed_models env = take 100 (sort (map snd (filter (\<lambda>m. fst m = rv_tenant env) (rv_models env))))"

definition check_one :: "recon_env \<Rightarrow> string \<Rightarrow> schemas_report \<times> recon_state \<Rightarrow> schemas_report \<times> recon_state" where
  "check_one env name acc =
     (let (sr, st) = acc; (result, st') = check_schema_drift env name None None st;
          sr = sr\<lparr>sr_results := sr_results sr @ [result]\<rparr>
      in (if da_status result = ''checked''
          then (let sr = sr\<lparr>sr_checked := Suc (sr_checked sr)\<rparr>
                in if opt_or (da_drift_type result) ''NONE'' \<noteq> ''NONE'' then sr\<lparr>sr_drifts_found := Suc (sr_drifts_found sr)\<rparr> else sr)
          else sr, st'))"

definition check_all_schemas :: "recon_env \<Rightarrow> string list option \<Rightarrow> recon_state \<Rightarrow> schemas_report \<times> recon_state" where
  "check_all_schemas env model_names st =
     (let names = (case model_names of None \<Rightarrow> listed_models env | Some ns \<Rightarrow> ns)
      in fold (check_one env) (sort names)
           (\<lparr>sr_requested = length names, sr_checked = 0, sr_drifts_found = 0, sr_results = []\<rparr>, st))"

text \<open>The route: one model where the body names one, else all of them.\<close>

definition schema_drift_route :: "recon_env \<Rightarrow> string option \<Rightarrow> recon_state \<Rightarrow> (drift_answer + schemas_report) \<times> recon_state" where
  "schema_drift_route env model_name st =
     (if opt_or model_name [] \<noteq> []
      then (let (a, st') = check_schema_drift env (opt_or model_name []) None None st in (Inl a, st'))
      else (let (r, st') = check_all_schemas env None st in (Inr r, st')))"

subsection \<open>ReconciliationScheduleRepository\<close>

definition sc_key :: "schedule_row \<Rightarrow> string \<times> string" where "sc_key r = (sc_tenant r, sc_type r)"

definition get_schedule :: "string \<Rightarrow> string \<Rightarrow> recon_state \<Rightarrow> schedule_row option" where
  "get_schedule t schedule_type st = List.find (\<lambda>r. sc_tenant r = t \<and> sc_type r = schedule_type) (rc_schedules st)"

definition upsert_schedule :: "recon_env \<Rightarrow> string \<Rightarrow> string \<Rightarrow> bool \<Rightarrow> recon_state \<Rightarrow> recon_state" where
  "upsert_schedule env schedule_type cron_expression enabled st =
     (let now = rc_now env st
      in rc_tick (st\<lparr>rc_schedules :=
           upsert sc_key (\<lambda>r. r\<lparr>sc_cron := cron_expression, sc_enabled := enabled, sc_updated_at := now\<rparr>)
             \<lparr>sc_tenant = rv_tenant env, sc_type = schedule_type, sc_cron = cron_expression, sc_enabled = enabled, sc_last_run = None,
              sc_next_run = None, sc_created_at = now, sc_updated_at = now\<rparr> (rc_schedules st)\<rparr>))"

definition update_last_run :: "recon_env \<Rightarrow> string \<Rightarrow> timestamp \<Rightarrow> timestamp \<Rightarrow> recon_state \<Rightarrow> recon_state" where
  "update_last_run env schedule_type last_run_at next_run_at st =
     rc_tick (st\<lparr>rc_schedules :=
       map (\<lambda>r. if sc_tenant r = rv_tenant env \<and> sc_type r = schedule_type
                then r\<lparr>sc_last_run := Some last_run_at, sc_next_run := Some next_run_at, sc_updated_at := rc_now env st\<rparr> else r)
         (rc_schedules st)\<rparr>)"

definition get_all_enabled :: "string \<Rightarrow> recon_state \<Rightarrow> schedule_row list" where
  "get_all_enabled t st = sort_key sc_type (filter (\<lambda>r. sc_tenant r = t \<and> sc_enabled r) (rc_schedules st))"

subsection \<open>The scheduler\<close>

definition execute_schedule :: "recon_env \<Rightarrow> schedule_row \<Rightarrow> recon_state \<Rightarrow> recon_state" where
  "execute_schedule env schedule st =
     (let now = rc_now env st; st = rc_tick st;
          advance = (\<lambda>st. case compute_next_run (sc_cron schedule) now of
             Inl e \<Rightarrow> st | Inr next_run \<Rightarrow> update_last_run env (sc_type schedule) now next_run st)
      in if sc_type schedule = ''run_reconciliation'' then advance (snd (trigger_reconciliation env None st))
         else if sc_type schedule = ''schema_drift'' then advance (snd (check_all_schemas env None st))
         else st)"

definition schedule_due :: "timestamp \<Rightarrow> schedule_row \<Rightarrow> bool" where
  "schedule_due now s \<longleftrightarrow> (case sc_next_run s of None \<Rightarrow> False | Some t \<Rightarrow> t \<le> now)"

definition run_due_schedules :: "recon_env \<Rightarrow> recon_state \<Rightarrow> recon_state" where
  "run_due_schedules env st =
     (let schedules = get_all_enabled (rv_tenant env) st; now = rc_now env st
      in fold (\<lambda>s st. if schedule_due now s then execute_schedule env s st else st) schedules (rc_tick st))"

subsection \<open>The schedule route\<close>

datatype schedule_error = InvalidBody | InvalidCron cron_error | RowMissing

record schedule_answer =
  sa_type :: string
  sa_cron :: string
  sa_enabled :: bool
  sa_last_run :: "timestamp option"
  sa_next_run :: timestamp

text \<open>\<open>croniter\<close> is the validator of the optional package, where it is installed.\<close>

definition valid_schedule_body :: "(string \<Rightarrow> bool) option \<Rightarrow> string \<Rightarrow> string \<Rightarrow> bool" where
  "valid_schedule_body croniter schedule_type cron_expression \<longleftrightarrow>
     schedule_type \<noteq> [] \<and> cron_expression \<noteq> [] \<and> length cron_expression \<le> 100 \<and>
     (case croniter of None \<Rightarrow> True | Some is_valid \<Rightarrow> is_valid cron_expression)"

definition put_schedule ::
  "recon_env \<Rightarrow> (string \<Rightarrow> bool) option \<Rightarrow> string \<Rightarrow> string \<Rightarrow> bool \<Rightarrow> recon_state \<Rightarrow> (schedule_error + schedule_answer) \<times> recon_state" where
  "put_schedule env croniter schedule_type cron_expression enabled st =
     (if \<not> valid_schedule_body croniter schedule_type cron_expression then (Inl InvalidBody, st)
      else let now = rc_now env st; st = rc_tick st
      in case compute_next_run cron_expression now of
           Inl e \<Rightarrow> (Inl (InvalidCron e), st)
         | Inr next_run \<Rightarrow>
             (let st = upsert_schedule env schedule_type cron_expression enabled st
              in case get_schedule (rv_tenant env) schedule_type st of
                   None \<Rightarrow> (Inl RowMissing, st)
                 | Some schedule \<Rightarrow>
                     (let last = (case sc_last_run schedule of None \<Rightarrow> now | Some t \<Rightarrow> t);
                          first = (sc_next_run schedule = None);
                          st = (if first then update_last_run env schedule_type last next_run st else st)
                      in (Inr \<lparr>sa_type = schedule_type, sa_cron = sc_cron schedule, sa_enabled = sc_enabled schedule,
                               sa_last_run = (if first then Some last else sc_last_run schedule), sa_next_run = next_run\<rparr>, st))))"

subsection \<open>Facts about the report\<close>

lemma record_check_sel [simp]:
  "rc_drifts (record_check env r m e w d st) = rc_drifts st" "rc_schedules (record_check env r m e w d st) = rc_schedules st"
  "rc_next_drift (record_check env r m e w d st) = rc_next_drift st" "rc_ticks (record_check env r m e w d st) = Suc (rc_ticks st)"
  by (simp_all add: record_check_def rc_tick_def)

text \<open>The verdict on one run: the recorded and the actual status, where the run can be checked.\<close>

definition verdict :: "recon_env \<Rightarrow> run_row \<Rightarrow> (string \<times> string) option" where
  "verdict env run =
     (if opt_or (rv_external env run) [] = [] then None
      else map_option (\<lambda>s. (rn_status run, run_status_value s)) (rv_verify env (opt_or (rv_external env run) [])))"

definition checked_runs :: "recon_env \<Rightarrow> run_row list \<Rightarrow> run_row list" where
  "checked_runs env runs = filter (\<lambda>r. verdict env r \<noteq> None) runs"

definition mismatched :: "recon_env \<Rightarrow> run_row \<Rightarrow> bool" where
  "mismatched env r \<longleftrightarrow> (case verdict env r of None \<Rightarrow> False | Some (e, a) \<Rightarrow> e \<noteq> a)"

text \<open>What a check row says, without its identifier and time.\<close>

definition check_content :: "check_row \<Rightarrow> string \<times> string \<times> string \<times> string \<times> string \<times> string option \<times> bool" where
  "check_content k = (kr_tenant k, kr_run_id k, kr_model k, kr_expected k, kr_warehouse k, kr_discrepancy k, kr_resolved k)"

definition expected_content :: "recon_env \<Rightarrow> run_row \<Rightarrow> string \<times> string \<times> string \<times> string \<times> string \<times> string option \<times> bool" where
  "expected_content env r =
     (case verdict env r of None \<Rightarrow> ([], [], [], [], [], None, False)
      | Some (e, a) \<Rightarrow> (rv_tenant env, rn_run_id r, rn_model r, e, a, if e = a then None else Some (classify_discrepancy e a), e = a))"

lemma mismatched_checked: "mismatched env r \<Longrightarrow> \<exists>e a. verdict env r = Some (e, a)"
  by (auto simp: mismatched_def split: option.splits)

lemma checked_mismatched: "filter (mismatched env) (checked_runs env runs) = filter (mismatched env) runs"
  unfolding checked_runs_def filter_filter using mismatched_checked by (intro filter_cong) auto

lemma reconcile_run_cases:
  "reconcile_run env run (rp, st) =
     (case verdict env run of
        None \<Rightarrow> (rp\<lparr>rp_skipped := Suc (rp_skipped rp)\<rparr>, st)
      | Some (e, a) \<Rightarrow>
          (if e = a then rp\<lparr>rp_checked := Suc (rp_checked rp), rp_matched := Suc (rp_matched rp)\<rparr>
           else rp\<lparr>rp_checked := Suc (rp_checked rp), rp_discrepancies := Suc (rp_discrepancies rp)\<rparr>,
           record_check env (rn_run_id run) (rn_model run) e a (if e = a then None else Some (classify_discrepancy e a)) st))"
  by (auto simp: reconcile_run_def verdict_def Let_def split: option.splits)

lemma record_check_rows:
  "rc_checks (record_check env (rn_run_id run) (rn_model run) e a (if e = a then None else Some (classify_discrepancy e a)) st) =
     rc_checks st @ [k] \<Longrightarrow> verdict env run = Some (e, a) \<Longrightarrow> check_content k = expected_content env run \<and> kr_id k = rc_next_check st"
  by (auto simp: record_check_def rc_tick_def check_content_def expected_content_def)

lemma fold_reconcile_run:
  "\<exists>new. fold (reconcile_run env) runs (rp, st) =
     (rp\<lparr>rp_checked := rp_checked rp + length (checked_runs env runs),
         rp_matched := rp_matched rp + length (filter (\<lambda>r. \<not> mismatched env r) (checked_runs env runs)),
         rp_discrepancies := rp_discrepancies rp + length (filter (mismatched env) runs),
         rp_skipped := rp_skipped rp + length (filter (\<lambda>r. verdict env r = None) runs)\<rparr>,
      st\<lparr>rc_checks := rc_checks st @ new, rc_next_check := rc_next_check st + length new, rc_ticks := rc_ticks st + length new\<rparr>) \<and>
     map check_content new = map (expected_content env) (checked_runs env runs) \<and>
     map kr_id new = [rc_next_check st..<rc_next_check st + length new]"
proof (induction runs arbitrary: rp st)
  case Nil
  show ?case by (intro exI[of _ "[]"]) (simp add: checked_runs_def)
next
  case (Cons run runs)
  show ?case
  proof (cases "verdict env run")
    case None
    from Cons.IH[of "rp\<lparr>rp_skipped := Suc (rp_skipped rp)\<rparr>" st] show ?thesis
      by (auto simp: reconcile_run_cases None checked_runs_def mismatched_def)
  next
    case (Some q)
    obtain e a where q: "q = (e, a)" by (cases q)
    define rp1 where "rp1 = (if e = a then rp\<lparr>rp_checked := Suc (rp_checked rp), rp_matched := Suc (rp_matched rp)\<rparr>
       else rp\<lparr>rp_checked := Suc (rp_checked rp), rp_discrepancies := Suc (rp_discrepancies rp)\<rparr>)"
    define st1 where "st1 = record_check env (rn_run_id run) (rn_model run) e a (if e = a then None else Some (classify_discrepancy e a)) st"
    obtain k where k: "rc_checks st1 = rc_checks st @ [k]" "rc_next_check st1 = Suc (rc_next_check st)" "rc_ticks st1 = Suc (rc_ticks st)"
        "rc_drifts st1 = rc_drifts st" "rc_next_drift st1 = rc_next_drift st" "rc_schedules st1 = rc_schedules st"
      by (simp add: st1_def record_check_def rc_tick_def)
    from record_check_rows[OF k(1)[unfolded st1_def]] Some q
    have content: "check_content k = expected_content env run" "kr_id k = rc_next_check st" by auto
    have step: "reconcile_run env run (rp, st) = (rp1, st1)" by (simp add: reconcile_run_cases Some q rp1_def st1_def)
    from Cons.IH[of rp1 st1] obtain new where new:
      "fold (reconcile_run env) runs (rp1, st1) =
         (rp1\<lparr>rp_checked := rp_checked rp1 + length (checked_runs env runs),
             rp_matched := rp_matched rp1 + length (filter (\<lambda>r. \<not> mismatched env r) (checked_runs env runs)),
             rp_discrepancies := rp_discrepancies rp1 + length (filter (mismatched env) runs),
             rp_skipped := rp_skipped rp1 + length (filter (\<lambda>r. verdict env r = None) runs)\<rparr>,
          st1\<lparr>rc_checks := rc_checks st1 @ new, rc_next_check := rc_next_check st1 + length new, rc_ticks := rc_ticks st1 + length new\<rparr>)"
      "map check_content new = map (expected_content env) (checked_runs env runs)"
      "map kr_id new = [rc_next_check st1..<rc_next_check st1 + length new]" by blast
    have "map kr_id (k # new) = [rc_next_check st..<rc_next_check st + length (k # new)]"
      by (simp add: new(3) k(2) content(2) upt_rec)
    moreover have "map check_content (k # new) = map (expected_content env) (checked_runs env (run # runs))"
      by (simp add: new(2) content(1) checked_runs_def Some)
    moreover have "st1\<lparr>rc_checks := rc_checks st1 @ new, rc_next_check := rc_next_check st1 + length new, rc_ticks := rc_ticks st1 + length new\<rparr> =
        st\<lparr>rc_checks := rc_checks st @ k # new, rc_next_check := rc_next_check st + length (k # new), rc_ticks := rc_ticks st + length (k # new)\<rparr>"
      using k by simp
    moreover have "checked_runs env (run # runs) = run # checked_runs env runs" by (simp add: checked_runs_def Some)
    moreover have mm: "mismatched env run \<longleftrightarrow> e \<noteq> a" by (simp add: mismatched_def Some q)
    moreover have "fold (reconcile_run env) (run # runs) (rp, st) = fold (reconcile_run env) runs (rp1, st1)" by (simp add: step)
    ultimately show ?thesis unfolding new(1)
      by (intro exI[of _ "k # new"]) (cases "e = a"; simp add: rp1_def Some del: list.map)
  qed
qed

lemma counted_runs:
  "length (filter (\<lambda>r. verdict env r = None) runs) = length runs - length (checked_runs env runs)"
  "length (filter (\<lambda>r. \<not> mismatched env r) (checked_runs env runs)) = length (checked_runs env runs) - length (filter (mismatched env) runs)"
  "length (filter (mismatched env) runs) \<le> length (checked_runs env runs)" "length (checked_runs env runs) \<le> length runs"
proof -
  note some = checked_mismatched[of env runs, symmetric]
  show "length (checked_runs env runs) \<le> length runs" by (simp add: checked_runs_def)
  show "length (filter (mismatched env) runs) \<le> length (checked_runs env runs)" unfolding some by (rule length_filter_le)
  have "length (filter (\<lambda>r. verdict env r = None) runs) + length (checked_runs env runs) = length runs"
    unfolding checked_runs_def using sum_length_filter_compl[of "\<lambda>r. verdict env r = None" runs] by simp
  then show "length (filter (\<lambda>r. verdict env r = None) runs) = length runs - length (checked_runs env runs)" by simp
  have "length (filter (mismatched env) (checked_runs env runs)) + length (filter (\<lambda>r. \<not> mismatched env r) (checked_runs env runs)) =
      length (checked_runs env runs)" by (rule sum_length_filter_compl)
  then show "length (filter (\<lambda>r. \<not> mismatched env r) (checked_runs env runs)) =
      length (checked_runs env runs) - length (filter (mismatched env) runs)" unfolding some by simp
qed

lemma unresolved_new:
  assumes "map check_content new = map (expected_content env) chk" "\<forall>r\<in>set chk. verdict env r \<noteq> None"
  shows "length (filter (\<lambda>k. kr_tenant k = rv_tenant env \<and> kr_discrepancy k \<noteq> None \<and> \<not> kr_resolved k) new) = length (filter (mismatched env) chk)"
  using assms
proof (induction new arbitrary: chk)
  case (Cons k new)
  then obtain r chk' where c: "chk = r # chk'" "check_content k = expected_content env r" "map check_content new = map (expected_content env) chk'"
    by (cases chk) auto
  with Cons.prems(2) obtain e a where v: "verdict env r = Some (e, a)" by auto
  from c(2) v have "kr_tenant k = rv_tenant env \<and> kr_discrepancy k \<noteq> None \<and> \<not> kr_resolved k \<longleftrightarrow> mismatched env r"
    by (auto simp: check_content_def expected_content_def mismatched_def split: if_splits)
  with Cons.IH[OF c(3)] Cons.prems(2) c(1) show ?case by simp
qed simp

text \<open>C29: A reconciliation accounts for every run in its scope: the runs it checked are those with an external identifier for which the
  backend answered, each leaves one row with the two statuses, resolved just when they agree and otherwise with their discrepancy; all
  others are skipped, and the number of unresolved discrepancies grows by the number reported.\<close>

theorem reconciliation_report_exact:
  "\<exists>new. rc_checks (snd (trigger_reconciliation env plan_id st)) = rc_checks st @ new \<and>
     map check_content new = map (expected_content env) (checked_runs env (runs_to_check env plan_id)) \<and>
     map kr_id new = [rc_next_check st..<rc_next_check st + length new] \<and>
     fst (trigger_reconciliation env plan_id st) =
       \<lparr>rp_total = length (runs_to_check env plan_id), rp_checked = length new,
        rp_matched = length new - length (filter (mismatched env) (runs_to_check env plan_id)),
        rp_discrepancies = length (filter (mismatched env) (runs_to_check env plan_id)),
        rp_skipped = length (runs_to_check env plan_id) - length new\<rparr> \<and>
     ks_unresolved (get_stats (rv_tenant env) (snd (trigger_reconciliation env plan_id st))) =
       ks_unresolved (get_stats (rv_tenant env) st) + rp_discrepancies (fst (trigger_reconciliation env plan_id st))"
proof -
  let ?runs = "runs_to_check env plan_id"
  let ?rp = "\<lparr>rp_total = length ?runs, rp_checked = 0, rp_matched = 0, rp_discrepancies = 0, rp_skipped = 0\<rparr>"
  obtain new where new:
    "trigger_reconciliation env plan_id st =
       (\<lparr>rp_total = length ?runs, rp_checked = length (checked_runs env ?runs),
         rp_matched = length (checked_runs env ?runs) - length (filter (mismatched env) ?runs),
         rp_discrepancies = length (filter (mismatched env) ?runs), rp_skipped = length ?runs - length (checked_runs env ?runs)\<rparr>,
        st\<lparr>rc_checks := rc_checks st @ new, rc_next_check := rc_next_check st + length new, rc_ticks := rc_ticks st + length new\<rparr>)"
    "map check_content new = map (expected_content env) (checked_runs env ?runs)"
    "map kr_id new = [rc_next_check st..<rc_next_check st + length new]"
    using fold_reconcile_run[of env ?runs ?rp st] unfolding counted_runs(1,2)
    by (elim exE conjE) (rule that, simp_all add: trigger_reconciliation_def Let_def)
  have len: "length new = length (checked_runs env ?runs)" using arg_cong[OF new(2), of length] by simp
  from unresolved_new[OF new(2)] checked_mismatched have "length (filter (\<lambda>k. kr_tenant k = rv_tenant env \<and> kr_discrepancy k \<noteq> None \<and> \<not> kr_resolved k) new) =
      length (filter (mismatched env) ?runs)" by (simp add: checked_runs_def)
  with new len show ?thesis by (intro exI[of _ new]) (simp add: get_stats_def Let_def)
qed

subsection \<open>Drift checks\<close>

lemma check_without_schema: "snd (check_schema_drift env m None e st) = st \<and> da_status (fst (check_schema_drift env m None e st)) \<noteq> ''checked''"
  by (simp add: check_schema_drift_def)

lemma check_all_without_schema:
  "snd (fold (check_one env) ns (sr, st)) = st \<and> sr_checked (fst (fold (check_one env) ns (sr, st))) = sr_checked sr \<and>
   sr_drifts_found (fst (fold (check_one env) ns (sr, st))) = sr_drifts_found sr"
proof (induction ns arbitrary: sr)
  case (Cons n ns)
  obtain a where "check_schema_drift env n None None st = (a, st)" "da_status a \<noteq> ''checked''"
    using check_without_schema[of env n None st] by (metis prod.collapse)
  then have "check_one env n (sr, st) = (sr\<lparr>sr_results := sr_results sr @ [a]\<rparr>, st)" by (simp add: check_one_def Let_def)
  with Cons.IH[of "sr\<lparr>sr_results := sr_results sr @ [a]\<rparr>"] show ?case by simp
qed simp

text \<open>
  Neither the route nor the scheduler ever compares two schemas: whatever models they are asked about, a drift check from there counts
  no model as checked, finds no drift, and leaves the records as they were, since nobody fetches the actual schema.
\<close>

theorem drift_routes_compare_nothing:
  "snd (schema_drift_route env model_name st) = st \<and> snd (check_all_schemas env names st) = st \<and>
   sr_checked (fst (check_all_schemas env names st)) = 0 \<and> sr_drifts_found (fst (check_all_schemas env names st)) = 0"
proof -
  have all: "snd (check_all_schemas env names st) = st" for names
    using check_all_without_schema by (simp add: check_all_schemas_def Let_def)
  moreover have "snd (schema_drift_route env model_name st) = st"
    using check_without_schema all by (simp add: schema_drift_route_def split_def Let_def)
  ultimately show ?thesis using check_all_without_schema by (simp add: check_all_schemas_def Let_def)
qed

lemma find_filter: "List.find P xs = (case filter P xs of [] \<Rightarrow> None | x # _ \<Rightarrow> Some x)"
  by (induction xs) auto

lemma stored_same_columns:
  assumes "stored_columns e = Some cols"
  shows "same_columns e (schema_of_columns m cols)" "cols \<noteq> []"
proof -
  let ?g = "\<lambda>c. py_lower (ci_name c)"
  have cols: "ts_columns e \<noteq> []" "cols = map (\<lambda>c. (ci_name c, ci_data_type c, ci_nullable c)) (sort_key ?g (ts_columns e))"
    using assms by (auto simp: stored_columns_def split: if_splits)
  then show "cols \<noteq> []" by (metis length_0_conv length_map length_sort)
  have new: "ts_columns (schema_of_columns m cols) = map bare (sort_key ?g (ts_columns e))"
    by (simp add: schema_of_columns_def cols(2) bare_def)
  have "map_option bare (column_of e k) = map_option bare (column_of (schema_of_columns m cols) k)" for k
  proof -
    have P: "(\<lambda>c. py_lower (ci_name c) = k) \<circ> bare = (\<lambda>c. py_lower (ci_name c) = k)" by (simp add: fun_eq_iff)
    have "filter (\<lambda>c. py_lower (ci_name c) = k) (map bare (sort_key ?g (ts_columns e))) = map bare (filter (\<lambda>c. ?g c = k) (sort_key ?g (ts_columns e)))"
      unfolding filter_map P ..
    also have "\<dots> = map bare (filter (\<lambda>c. ?g c = k) (ts_columns e))" by (simp only: sort_key_stable)
    finally have f: "filter (\<lambda>c. py_lower (ci_name c) = k) (map bare (sort_key ?g (ts_columns e))) = map bare (filter (\<lambda>c. ?g c = k) (ts_columns e))" .
    have bb: "bare (bare c) = bare c" for c by (simp add: bare_def)
    show ?thesis
      unfolding column_of_def new find_filter rev_filter[symmetric] f rev_map[symmetric]
      by (cases "rev (filter (\<lambda>c. ?g c = k) (ts_columns e))") (simp_all add: rev_map bb)
  qed
  then show "same_columns e (schema_of_columns m cols)" by (simp add: same_columns_def)
qed

lemma sort_key_new_first:
  assumes "\<forall>y\<in>set xs. f x < f y" shows "sort_key f (xs @ [x]) = x # sort_key f xs"
  using assms
proof (induction xs)
  case (Cons y xs)
  then have "\<not> f y \<le> f x" by auto
  with Cons show ?case by simp
qed simp

lemma serialised_unnamed: "map unnamed ds = map unnamed ds' \<Longrightarrow> map stored_drift_of ds = map stored_drift_of ds'"
proof -
  assume u: "map unnamed ds = map unnamed ds'"
  have s: "stored_drift_of (unnamed d) = stored_drift_of d" for d by (simp add: stored_drift_of_def unnamed_def)
  have "map stored_drift_of ds = map (stored_drift_of \<circ> unnamed) ds" for ds by (simp add: s)
  with u show ?thesis by (metis map_map)
qed

lemma overall_unnamed: "overall_drift_type (map unnamed ds) = overall_drift_type ds"
proof -
  have t: "sd_drift_type (unnamed d) = sd_drift_type d" for d by (simp add: unnamed_def)
  have "list_ex (\<lambda>d. sd_drift_type d = x) (map unnamed ds) = list_ex (\<lambda>d. sd_drift_type d = x) ds" for x
    by (induction ds) (simp_all add: t)
  then show ?thesis unfolding overall_drift_type_def by (cases ds) (simp_all add: t)
qed

lemma checked_answer:
  assumes "(rv_tenant env, m) \<in> set (rv_models env)"
    and "(case expected of None \<Rightarrow> derive_expected_schema env m st | Some e \<Rightarrow> Some e) = Some e" "ts_columns e \<noteq> []"
  shows "fst (check_schema_drift env m (Some actual) expected st) =
     \<lparr>da_model = m, da_status = ''checked'', da_drift_type = Some (overall_drift_type (compare_schemas e actual)),
      da_drifts = map stored_drift_of (compare_schemas e actual), da_check_id = Some (rc_next_drift st)\<rparr>"
  using assms by (simp add: check_schema_drift_def record_drift_def Let_def)

text \<open>The expected schema is remembered: after a check of a model against an explicit expected schema, a check that names none is answered
  just as if the schema had been given again, kind of drift and details alike.\<close>

theorem drift_verdict_remembered:
  assumes "(rv_tenant env, m) \<in> set (rv_models env)" "ts_columns e \<noteq> []"
    and "\<forall>r\<in>set (rc_drifts st). dr_checked_at r < rc_now env st"
    and "st' = snd (check_schema_drift env m (Some first) (Some e) st)"
  shows "fst (check_schema_drift env m (Some actual) None st') = fst (check_schema_drift env m (Some actual) (Some e) st')"
proof -
  obtain cols where cols: "stored_columns e = Some cols" using assms(2) by (simp add: stored_columns_def)
  have same: "same_columns e (schema_of_columns m cols)" "cols \<noteq> []" using stored_same_columns[OF cols] by simp_all
  obtain r where r: "rc_drifts st' = rc_drifts st @ [r]" "dr_tenant r = rv_tenant env" "dr_model r = m" "dr_expected r = Some cols"
      "\<not> dr_resolved r" "dr_checked_at r = rc_now env st"
    using assms(1) cols unfolding assms(4) by (auto simp: check_schema_drift_def record_drift_def rc_tick_def Let_def)
  have "get_unresolved_drifts (rv_tenant env) 100 st' =
      take 100 (r # sort_key (\<lambda>r. - dr_checked_at r) (filter (\<lambda>r. dr_tenant r = rv_tenant env \<and> \<not> dr_resolved r) (rc_drifts st)))"
    unfolding get_unresolved_drifts_def r(1) using assms(3) r by (simp add: sort_key_new_first del: take_Suc_Cons)
  then have derived: "derive_expected_schema env m st' = Some (schema_of_columns m cols)"
    using r(3,4) same(2) by (simp add: derive_expected_schema_def)
  have "ts_columns (schema_of_columns m cols) \<noteq> []" using same(2) by (simp add: schema_of_columns_def)
  note new = checked_answer[where expected = None and st = st' and actual = actual, OF assms(1) _ this, simplified, OF derived]
  note given = checked_answer[where expected = "Some e" and st = st' and actual = actual, OF assms(1) _ assms(2), simplified]
  have u: "map unnamed (compare_schemas e actual) = map unnamed (compare_schemas (schema_of_columns m cols) actual)"
    using compare_same_columns[OF same(1)] .
  then have "overall_drift_type (compare_schemas e actual) = overall_drift_type (compare_schemas (schema_of_columns m cols) actual)"
    by (metis overall_unnamed)
  with serialised_unnamed[OF u] show ?thesis unfolding new given by simp
qed

definition demo_column :: "string \<Rightarrow> string \<Rightarrow> column_info" where
  "demo_column n ty = \<lparr>ci_name = n, ci_data_type = ty, ci_nullable = True, ci_comment = Some ''c''\<rparr>"

definition demo_recon_env :: recon_env where
  "demo_recon_env =
     \<lparr>rv_tenant = ''t'', rv_clock = (\<lambda>n. int n * 60000000), rv_plans = [], rv_runs = [], rv_external = (\<lambda>r. None),
      rv_models = [(''t'', ''m'')], rv_verify = (\<lambda>x. None)\<rparr>"

definition demo_recon_state :: recon_state where
  "demo_recon_state = \<lparr>rc_checks = [], rc_next_check = 1, rc_drifts = [], rc_next_drift = 1, rc_schedules = [], rc_ticks = 0\<rparr>"

theorem drift_verdict_remembered_witness:
  "let e = \<lparr>ts_table_name = ''other'', ts_columns = [demo_column ''b'' ''INT'', demo_column ''A'' ''STRING'']\<rparr>;
       actual = \<lparr>ts_table_name = [], ts_columns = [demo_column ''a'' ''INT'', demo_column ''B'' ''INT'']\<rparr>;
       st' = snd (check_schema_drift demo_recon_env ''m'' (Some e) (Some e) demo_recon_state);
       answer = fst (check_schema_drift demo_recon_env ''m'' (Some actual) None st')
   in da_drift_type answer = Some ''TYPE_CHANGED'' \<and> answer = fst (check_schema_drift demo_recon_env ''m'' (Some actual) (Some e) st')"
proof -
  let ?e = "\<lparr>ts_table_name = ''other'', ts_columns = [demo_column ''b'' ''INT'', demo_column ''A'' ''STRING'']\<rparr>"
  let ?actual = "\<lparr>ts_table_name = [], ts_columns = [demo_column ''a'' ''INT'', demo_column ''B'' ''INT'']\<rparr>"
  let ?st = "snd (check_schema_drift demo_recon_env ''m'' (Some ?e) (Some ?e) demo_recon_state)"
  have "(rv_tenant demo_recon_env, ''m'') \<in> set (rv_models demo_recon_env)" "ts_columns ?e \<noteq> []"
    "\<forall>r\<in>set (rc_drifts demo_recon_state). dr_checked_at r < rc_now demo_recon_env demo_recon_state"
    by (simp_all add: demo_recon_env_def demo_recon_state_def)
  from drift_verdict_remembered[where first = ?e and actual = ?actual, OF this refl]
  have "fst (check_schema_drift demo_recon_env ''m'' (Some ?actual) None ?st) = fst (check_schema_drift demo_recon_env ''m'' (Some ?actual) (Some ?e) ?st)" .
  moreover have "da_drift_type (fst (check_schema_drift demo_recon_env ''m'' (Some ?actual) (Some ?e) ?st)) = Some ''TYPE_CHANGED''" by code_simp
  ultimately show ?thesis by (simp add: Let_def)
qed

subsection \<open>Schedules\<close>

definition known_type :: "string \<Rightarrow> bool" where
  "known_type ty \<longleftrightarrow> ty \<in> {''run_reconciliation'', ''schema_drift''}"

lemma trigger_frame:
  "rc_schedules (snd (trigger_reconciliation env p st)) = rc_schedules st \<and> rc_ticks st \<le> rc_ticks (snd (trigger_reconciliation env p st))"
  unfolding trigger_reconciliation_def Let_def
  using fold_reconcile_run[of env "runs_to_check env p"
    "\<lparr>rp_total = length (runs_to_check env p), rp_checked = 0, rp_matched = 0, rp_discrepancies = 0, rp_skipped = 0\<rparr>" st]
  by (elim exE conjE) simp

text \<open>A row that ran: its last run is no earlier than \<open>now\<close>, and its next one lies after that.\<close>

definition advanced :: "timestamp \<Rightarrow> string \<Rightarrow> schedule_row \<Rightarrow> schedule_row \<Rightarrow> bool" where
  "advanced now cron r r' \<longleftrightarrow>
     (\<exists>t u w. r' = r\<lparr>sc_last_run := Some t, sc_next_run := Some u, sc_updated_at := w\<rparr> \<and> now \<le> t \<and> compute_next_run cron t = Inr u \<and> t < u)"

lemma execute_schedule_rows:
  assumes "sc_tenant s = rv_tenant env" "\<And>i j. i \<le> j \<Longrightarrow> rv_clock env i \<le> rv_clock env j" "now \<le> rc_now env st"
  shows "\<exists>f. rc_schedules (execute_schedule env s st) = map f (rc_schedules st) \<and>
     (\<forall>r. if sc_key r = sc_key s \<and> known_type (sc_type s) \<and> cron_ok (sc_cron s) then advanced now (sc_cron s) r (f r) else f r = r)"
    and "now \<le> rc_now env (execute_schedule env s st)"
proof -
  define ran where "ran = (if sc_type s = ''run_reconciliation'' then snd (trigger_reconciliation env None (rc_tick st))
     else if sc_type s = ''schema_drift'' then snd (check_all_schemas env None (rc_tick st)) else rc_tick st)"
  have ran: "rc_schedules ran = rc_schedules st" "rc_ticks st \<le> rc_ticks ran"
    using trigger_frame[of env None "rc_tick st"] check_all_without_schema[of env]
    by (auto simp: ran_def rc_tick_def check_all_schemas_def Let_def)
  show "now \<le> rc_now env (execute_schedule env s st)"
  proof -
    have "rc_ticks st \<le> rc_ticks (execute_schedule env s st)"
      using trigger_frame[of env None "rc_tick st"] check_all_without_schema[of env]
      by (auto simp: execute_schedule_def rc_tick_def update_last_run_def check_all_schemas_def Let_def split: sum.splits intro: le_trans)
    with assms(2,3) show ?thesis unfolding rc_now_def by (meson order_trans)
  qed
  show "\<exists>f. rc_schedules (execute_schedule env s st) = map f (rc_schedules st) \<and>
     (\<forall>r. if sc_key r = sc_key s \<and> known_type (sc_type s) \<and> cron_ok (sc_cron s) then advanced now (sc_cron s) r (f r) else f r = r)"
  proof (cases "known_type (sc_type s) \<and> cron_ok (sc_cron s)")
    case True
    then obtain u where u: "compute_next_run (sc_cron s) (rc_now env st) = Inr u" "rc_now env st < u" using next_run_later by blast
    have "execute_schedule env s st = update_last_run env (sc_type s) (rc_now env st) u ran"
      using True u by (auto simp: execute_schedule_def known_type_def ran_def Let_def)
    then have "rc_schedules (execute_schedule env s st) =
        map (\<lambda>r. if sc_key r = sc_key s then r\<lparr>sc_last_run := Some (rc_now env st), sc_next_run := Some u, sc_updated_at := rc_now env ran\<rparr> else r)
          (rc_schedules st)"
      using ran(1) assms(1) by (simp add: update_last_run_def rc_tick_def sc_key_def rc_now_def)
    moreover have "advanced now (sc_cron s) r (r\<lparr>sc_last_run := Some (rc_now env st), sc_next_run := Some u, sc_updated_at := rc_now env ran\<rparr>)" for r
      using u assms(3) unfolding advanced_def by blast
    ultimately show ?thesis using True
      by (intro exI[of _ "\<lambda>r. if sc_key r = sc_key s then r\<lparr>sc_last_run := Some (rc_now env st), sc_next_run := Some u, sc_updated_at := rc_now env ran\<rparr> else r"]) simp
  next
    case False
    then have "rc_schedules (execute_schedule env s st) = rc_schedules st"
      using ran(1) next_run_error[of "sc_cron s"] by (auto simp: execute_schedule_def known_type_def ran_def rc_tick_def Let_def)
    with False show ?thesis by (intro exI[of _ "\<lambda>r. r"]) auto
  qed
qed

text \<open>The schedules of a pass: those of the tenant that are enabled and due, of a known type and with a usable expression.\<close>

definition runs_now :: "recon_env \<Rightarrow> timestamp \<Rightarrow> schedule_row \<Rightarrow> bool" where
  "runs_now env now s \<longleftrightarrow>
     sc_tenant s = rv_tenant env \<and> sc_enabled s \<and> schedule_due now s \<and> known_type (sc_type s) \<and> cron_ok (sc_cron s)"

lemma advanced_key: "advanced now cron r r' \<Longrightarrow> sc_key r' = sc_key r"
  by (auto simp: advanced_def sc_key_def)

lemma fold_due_schedules:
  assumes "\<And>i j. i \<le> j \<Longrightarrow> rv_clock env i \<le> rv_clock env j"
  shows "\<forall>s\<in>set L. sc_tenant s = rv_tenant env \<and> sc_enabled s \<Longrightarrow> distinct (map sc_key L) \<Longrightarrow> now \<le> rc_now env st \<Longrightarrow>
     \<exists>f. rc_schedules (fold (\<lambda>s st. if schedule_due now s then execute_schedule env s st else st) L st) = map f (rc_schedules st) \<and>
       (\<forall>r. (\<forall>s\<in>set L. runs_now env now s \<and> sc_key s = sc_key r \<longrightarrow> advanced now (sc_cron s) r (f r)) \<and>
            (\<not> (\<exists>s\<in>set L. runs_now env now s \<and> sc_key s = sc_key r) \<longrightarrow> f r = r))"
proof (induction L arbitrary: st)
  case Nil
  then show ?case by (intro exI[of _ "\<lambda>r. r"]) simp
next
  case (Cons s L)
  define st1 where "st1 = (if schedule_due now s then execute_schedule env s st else st)"
  have tenant: "sc_tenant s = rv_tenant env" and on: "sc_enabled s" using Cons.prems(1) by simp_all
  note exec = execute_schedule_rows[OF tenant assms Cons.prems(3)]
  have "\<exists>f. rc_schedules st1 = map f (rc_schedules st) \<and>
      (\<forall>r. if sc_key r = sc_key s \<and> runs_now env now s then advanced now (sc_cron s) r (f r) else f r = r)"
  proof (cases "schedule_due now s")
    case True
    then show ?thesis using exec(1) tenant on by (simp add: st1_def runs_now_def)
  next
    case False
    then show ?thesis by (intro exI[of _ "\<lambda>r. r"]) (simp add: st1_def runs_now_def)
  qed
  then obtain f1 where f1: "rc_schedules st1 = map f1 (rc_schedules st)"
      "\<And>r. sc_key r = sc_key s \<and> runs_now env now s \<Longrightarrow> advanced now (sc_cron s) r (f1 r)"
      "\<And>r. \<not> (sc_key r = sc_key s \<and> runs_now env now s) \<Longrightarrow> f1 r = r" by meson
  have "now \<le> rc_now env st1" using exec(2) Cons.prems(3) by (simp add: st1_def)
  with Cons.IH[of st1] Cons.prems(1,2) obtain f2 where f2:
    "rc_schedules (fold (\<lambda>s st. if schedule_due now s then execute_schedule env s st else st) L st1) = map f2 (rc_schedules st1)"
    "\<And>r s. s \<in> set L \<Longrightarrow> runs_now env now s \<and> sc_key s = sc_key r \<Longrightarrow> advanced now (sc_cron s) r (f2 r)"
    "\<And>r. \<not> (\<exists>s\<in>set L. runs_now env now s \<and> sc_key s = sc_key r) \<Longrightarrow> f2 r = r" by (auto 4 3)
  have key1: "sc_key (f1 r) = sc_key r" for r
    using f1(2,3) advanced_key by (cases "sc_key r = sc_key s \<and> runs_now env now s") metis+
  have other: "sc_key q \<noteq> sc_key s" if "q \<in> set L" for q using Cons.prems(2) that by (force simp: image_iff)
  have "advanced now (sc_cron q) r (f2 (f1 r))" if "q \<in> set (s # L)" "runs_now env now q" "sc_key q = sc_key r" for q r
  proof (cases "q = s")
    case True
    with that(2,3) have "advanced now (sc_cron q) r (f1 r)" using f1(2) by simp
    moreover have "f2 (f1 r) = f1 r" using other that(3) True by (intro f2(3)) (auto simp: key1)
    ultimately show ?thesis by simp
  next
    case False
    with that have q: "q \<in> set L" by simp
    moreover have "f1 r = r" using other[OF q] that(3) by (intro f1(3)) simp
    ultimately show ?thesis using f2(2) that by simp
  qed
  moreover have "f2 (f1 r) = r" if "\<not> (\<exists>q\<in>set (s # L). runs_now env now q \<and> sc_key q = sc_key r)" for r
  proof -
    have "f1 r = r" using that by (intro f1(3)) (metis list.set_intros(1))
    with that f2(3) show ?thesis by simp
  qed
  moreover have "rc_schedules (fold (\<lambda>s st. if schedule_due now s then execute_schedule env s st else st) (s # L) st) = map (f2 \<circ> f1) (rc_schedules st)"
    by (simp add: st1_def[symmetric] f2(1) f1(1))
  ultimately show ?case by (intro exI[of _ "f2 \<circ> f1"]) auto
qed

text \<open>C30: A pass of the scheduler runs what is due and nothing else, once: an enabled schedule of the tenant that is due, of a known type and
  with a usable expression gets a last run no earlier than the pass and a next run after that, computed from its expression; every other
  schedule keeps its row, so one of an unknown type, or with an unusable expression, stays due at every pass.\<close>

theorem scheduler_pass_advances:
  assumes "\<And>i j. i \<le> j \<Longrightarrow> rv_clock env i \<le> rv_clock env j" and "distinct (map sc_key (rc_schedules st))"
  shows "\<exists>f. rc_schedules (run_due_schedules env st) = map f (rc_schedules st) \<and>
     (\<forall>s\<in>set (rc_schedules st). if runs_now env (rc_now env st) s then advanced (rc_now env st) (sc_cron s) s (f s) else f s = s)"
proof -
  let ?now = "rc_now env st"
  let ?L = "get_all_enabled (rv_tenant env) st"
  have L: "set ?L = {s \<in> set (rc_schedules st). sc_tenant s = rv_tenant env \<and> sc_enabled s}" by (auto simp: get_all_enabled_def)
  have "distinct (rc_schedules st)" "inj_on sc_key (set (rc_schedules st))" using assms(2) by (simp_all add: distinct_map)
  then have dist: "distinct (map sc_key ?L)" unfolding distinct_map L by (auto simp: get_all_enabled_def intro: inj_on_subset)
  have "?now \<le> rc_now env (rc_tick st)" using assms(1) by (simp add: rc_now_def rc_tick_def)
  from fold_due_schedules[OF assms(1) _ dist this] L obtain f where f:
    "rc_schedules (run_due_schedules env st) = map f (rc_schedules (rc_tick st))"
    "\<And>r s. s \<in> set ?L \<Longrightarrow> runs_now env ?now s \<and> sc_key s = sc_key r \<Longrightarrow> advanced ?now (sc_cron s) r (f r)"
    "\<And>r. \<not> (\<exists>s\<in>set ?L. runs_now env ?now s \<and> sc_key s = sc_key r) \<Longrightarrow> f r = r"
    by (auto 4 3 simp: run_due_schedules_def Let_def)
  have "if runs_now env ?now s then advanced ?now (sc_cron s) s (f s) else f s = s" if s: "s \<in> set (rc_schedules st)" for s
  proof (cases "runs_now env ?now s")
    case True
    then have "s \<in> set ?L" using s unfolding L by (simp add: runs_now_def)
    with True f(2) show ?thesis by simp
  next
    case False
    have "\<not> (\<exists>q\<in>set ?L. runs_now env ?now q \<and> sc_key q = sc_key s)"
      using False inj_onD[OF \<open>inj_on sc_key (set (rc_schedules st))\<close>] s unfolding L by blast
    with False f(3) show ?thesis by simp
  qed
  with f(1) show ?thesis by (intro exI[of _ f]) (simp add: rc_tick_def)
qed

definition demo_schedule :: "string \<Rightarrow> schedule_row" where
  "demo_schedule ty =
     \<lparr>sc_tenant = ''t'', sc_type = ty, sc_cron = ''30 * * * *'', sc_enabled = True, sc_last_run = None, sc_next_run = Some (- 1),
      sc_created_at = - 2, sc_updated_at = - 2\<rparr>"

theorem scheduler_pass_advances_witness:
  "\<exists>f. rc_schedules (run_due_schedules demo_recon_env (demo_recon_state\<lparr>rc_schedules := [demo_schedule ''schema_drift'', demo_schedule ''x'']\<rparr>)) =
       [f (demo_schedule ''schema_drift''), demo_schedule ''x''] \<and> advanced 0 ''30 * * * *'' (demo_schedule ''schema_drift'') (f (demo_schedule ''schema_drift''))"
proof -
  let ?st = "demo_recon_state\<lparr>rc_schedules := [demo_schedule ''schema_drift'', demo_schedule ''x'']\<rparr>"
  have "distinct (map sc_key (rc_schedules ?st))" by (simp add: demo_schedule_def sc_key_def)
  moreover have "rv_clock demo_recon_env i \<le> rv_clock demo_recon_env j" if "i \<le> j" for i j using that by (simp add: demo_recon_env_def)
  ultimately obtain f where f: "rc_schedules (run_due_schedules demo_recon_env ?st) = map f (rc_schedules ?st)"
    "\<forall>s\<in>set (rc_schedules ?st). if runs_now demo_recon_env (rc_now demo_recon_env ?st) s
       then advanced (rc_now demo_recon_env ?st) (sc_cron s) s (f s) else f s = s"
    using scheduler_pass_advances[of demo_recon_env ?st] by blast
  have "cron_ok ''30 * * * *''" by code_simp
  then have "runs_now demo_recon_env (rc_now demo_recon_env ?st) (demo_schedule ''schema_drift'')"
    "\<not> runs_now demo_recon_env (rc_now demo_recon_env ?st) (demo_schedule ''x'')" "rc_now demo_recon_env ?st = 0"
    by (simp_all add: runs_now_def demo_schedule_def demo_recon_env_def demo_recon_state_def rc_now_def known_type_def schedule_due_def)
  with f show ?thesis by (intro exI[of _ f]) (simp add: demo_schedule_def)
qed

subsection \<open>Where the code falls short of its documentation\<close>

text \<open>Without external identifiers, and execution writes none, every run is skipped and nothing is recorded.\<close>

lemma nothing_external:
  assumes "\<forall>r\<in>set runs. rv_external env r = None"
  shows "fold (reconcile_run env) runs (rp, st) = (rp\<lparr>rp_skipped := rp_skipped rp + length runs\<rparr>, st)"
  using assms by (induction runs arbitrary: rp) (simp_all add: reconcile_run_def opt_or_def)

theorem internal_runs_never_checked:
  assumes "\<forall>r\<in>set (rv_runs env). rv_external env r = None"
  shows "snd (trigger_reconciliation env plan_id st) = st \<and> rp_checked (fst (trigger_reconciliation env plan_id st)) = 0"
proof -
  have "set (runs_to_check env plan_id) \<subseteq> set (rv_runs env)" by (auto simp: runs_to_check_def recent_runs_def get_by_plan_def)
  with assms have "\<forall>r\<in>set (runs_to_check env plan_id). rv_external env r = None" by blast
  from nothing_external[OF this] show ?thesis by (simp add: trigger_reconciliation_def Let_def)
qed

theorem internal_runs_never_checked_witness:
  "snd (trigger_reconciliation demo_recon_env None demo_recon_state) = demo_recon_state"
  using internal_runs_never_checked[of demo_recon_env] by (simp add: demo_recon_env_def)

text \<open>A new expression for a schedule that has a next run keeps that next run, whatever the answer says.\<close>

theorem rescheduling_keeps_next_run:
  assumes "get_schedule (rv_tenant env) ty st = Some s" "sc_next_run s = Some n"
    and "valid_schedule_body croniter ty cron" "compute_next_run cron (rc_now env st) = Inr u"
  shows "\<exists>a s'. fst (put_schedule env croniter ty cron enabled st) = Inr a \<and> sa_next_run a = u \<and>
     get_schedule (rv_tenant env) ty (snd (put_schedule env croniter ty cron enabled st)) = Some s' \<and>
     sc_cron s' = cron \<and> sc_enabled s' = enabled \<and> sc_next_run s' = Some n"
proof -
  let ?here = "\<lambda>r :: schedule_row. sc_tenant r = rv_tenant env \<and> sc_type r = ty"
  let ?st = "upsert_schedule env ty cron enabled (rc_tick st)"
  have s: "?here s" "s \<in> set (rc_schedules st)" using assms(1) by (auto simp: get_schedule_def find_Some_iff)
  define upd :: "schedule_row \<Rightarrow> schedule_row" where "upd = (\<lambda>r. r\<lparr>sc_cron := cron, sc_enabled := enabled, sc_updated_at := rc_now env (rc_tick st)\<rparr>)"
  have rows: "rc_schedules ?st = map (\<lambda>r. if ?here r then upd r else r) (rc_schedules st)"
    using s by (auto simp: upsert_schedule_def upsert_def sc_key_def rc_tick_def upd_def Let_def list_ex_iff)
  have "List.find ?here (map (\<lambda>r. if ?here r then upd r else r) rs) = map_option upd (List.find ?here rs)" for rs
    by (induction rs) (auto simp: upd_def)
  then have found: "get_schedule (rv_tenant env) ty ?st = Some (upd s)"
    using assms(1) unfolding get_schedule_def rows by (simp add: rc_tick_def)
  then have "put_schedule env croniter ty cron enabled st =
      (Inr \<lparr>sa_type = ty, sa_cron = cron, sa_enabled = enabled, sa_last_run = sc_last_run s, sa_next_run = u\<rparr>, ?st)"
    using assms(2-4) by (simp add: put_schedule_def Let_def upd_def)
  with found assms(2) show ?thesis by (simp add: upd_def)
qed

theorem rescheduling_keeps_next_run_witness:
  "\<exists>a s'. fst (put_schedule demo_recon_env None ''x'' ''0 0 * * *'' True (demo_recon_state\<lparr>rc_schedules := [demo_schedule ''x'']\<rparr>)) = Inr a \<and>
     sa_next_run a = 86400000000 \<and>
     get_schedule ''t'' ''x'' (snd (put_schedule demo_recon_env None ''x'' ''0 0 * * *'' True (demo_recon_state\<lparr>rc_schedules := [demo_schedule ''x'']\<rparr>))) = Some s' \<and>
     sc_next_run s' = Some (- 1)"
proof -
  let ?st = "demo_recon_state\<lparr>rc_schedules := [demo_schedule ''x'']\<rparr>"
  have t: "rv_tenant demo_recon_env = ''t''" by (simp add: demo_recon_env_def)
  have "get_schedule ''t'' ''x'' ?st = Some (demo_schedule ''x'')" "sc_next_run (demo_schedule ''x'') = Some (- 1)"
    by (simp_all add: get_schedule_def demo_schedule_def)
  moreover have "valid_schedule_body None ''x'' ''0 0 * * *''" by (simp add: valid_schedule_body_def)
  moreover have "compute_next_run ''0 0 * * *'' (rc_now demo_recon_env ?st) = Inr 86400000000" by code_simp
  ultimately show ?thesis using rescheduling_keeps_next_run[of demo_recon_env "''x''" ?st] unfolding t by blast
qed

text \<open>Resolving is not guarded by the state of the row: a second resolution replaces who resolved it, when and why.\<close>

theorem resolution_overwrites:
  assumes "resolve_check env check_id first_user first_note st = (Some r, st1)"
    and "resolve_check env check_id user note st1 = (Some r', st2)"
  shows "kr_resolved_by r = Some first_user \<and> kr_resolved_by r' = Some user \<and> kr_note r' = Some note \<and> kr_id r' = kr_id r"
  using assms by (auto simp: resolve_check_def Let_def find_Some_iff split: option.splits)

end
