(* ===== verification/Github_Webhooks.thy ===== *)
theory Github_Webhooks
  imports Tokens Access Json
begin

text \<open>
  Push webhooks, \<^verbatim>\<open>api/api/routers/webhooks.py\<close> and \<^verbatim>\<open>api/api/services/github_webhook_service.py\<close>: the receiver, which
  authenticates a delivery by the secret of the configuration that its own payload names, and the configurations of a tenant.
  HMAC, bcrypt, the JSON decoder, the vault's ciphers and the parser of instants are parameters.
\<close>

subsection \<open>Configurations\<close>

record webhook_row =
  wc_id :: nat
  wc_tenant :: string
  wc_provider :: string
  wc_repo_url :: string
  wc_branch :: string
  wc_secret_hash :: string
  wc_secret_encrypted :: "string option"
  wc_auto_plan :: bool
  wc_auto_apply :: bool
  wc_created_at :: timestamp
  wc_updated_at :: timestamp

record webhook_state =
  ws_rows :: "webhook_row list"
  ws_next_id :: nat

text \<open>
  \<open>we_salts\<close> are the random salt of the vault and that of bcrypt for the call; \<open>we_instant\<close> is \<^verbatim>\<open>datetime.fromisoformat\<close>: whether
  the text has an offset, and the instant.
\<close>

record webhook_env =
  we_hmac :: "string \<Rightarrow> string \<Rightarrow> string"
  we_json_loads :: "string \<Rightarrow> json option"
  we_instant :: "string \<Rightarrow> (bool \<times> timestamp) option"
  we_now :: timestamp
  we_vault :: vault_env
  we_key :: string
  we_bcrypt :: "string \<Rightarrow> string \<Rightarrow> string"
  we_salts :: "string \<times> string"

datatype config_error = Unprocessable | Refused http_error | IntegrityError | NotFound

definition uq_webhook :: "webhook_row \<Rightarrow> string \<times> string \<times> string \<times> string" where
  "uq_webhook r = (wc_tenant r, wc_provider r, wc_repo_url r, wc_branch r)"

text \<open>The service's \<^verbatim>\<open>create_config\<close>, with a vault or without.\<close>

definition create_config ::
  "webhook_env \<Rightarrow> string \<Rightarrow> bool \<Rightarrow> string \<Rightarrow> string \<Rightarrow> string \<Rightarrow> bool \<Rightarrow> bool \<Rightarrow> webhook_state \<Rightarrow> (config_error + webhook_row) \<times> webhook_state" where
  "create_config env t vault repo_url branch secret auto_plan auto_apply st =
     (let row = \<lparr>wc_id = ws_next_id st, wc_tenant = t, wc_provider = ''github'', wc_repo_url = repo_url, wc_branch = branch,
            wc_secret_hash = we_bcrypt env (snd (we_salts env)) secret,
            wc_secret_encrypted = (if vault then Some (vault_encrypt (we_vault env) (we_key env) (fst (we_salts env)) secret) else None),
            wc_auto_plan = auto_plan, wc_auto_apply = auto_apply, wc_created_at = we_now env, wc_updated_at = we_now env\<rparr>
      in if list_ex (\<lambda>r. uq_webhook r = uq_webhook row) (ws_rows st) then (Inl IntegrityError, st)
         else (Inr row, st\<lparr>ws_rows := ws_rows st @ [row], ws_next_id := Suc (ws_next_id st)\<rparr>))"

definition route_create_config ::
  "webhook_env \<Rightarrow> request_state \<Rightarrow> string \<Rightarrow> string \<Rightarrow> string \<Rightarrow> string \<Rightarrow> bool \<Rightarrow> bool \<Rightarrow> webhook_state \<Rightarrow>
   (config_error + webhook_row) \<times> webhook_state" where
  "route_create_config env req t repo_url branch secret auto_plan auto_apply st =
     (case require_permission MANAGE_WEBHOOKS req of
        Inl e \<Rightarrow> (Inl (Refused e), st)
      | Inr r \<Rightarrow> if length secret < 32 then (Inl Unprocessable, st)
                 else create_config env t True repo_url branch secret auto_plan auto_apply st)"

definition list_configs :: "string \<Rightarrow> webhook_state \<Rightarrow> webhook_row list" where
  "list_configs t st = filter (\<lambda>r. wc_tenant r = t) (ws_rows st)"

definition delete_config :: "string \<Rightarrow> nat \<Rightarrow> webhook_state \<Rightarrow> bool \<times> webhook_state" where
  "delete_config t config_id st =
     (let here = (\<lambda>r. wc_id r = config_id \<and> wc_tenant r = t)
      in (list_ex here (ws_rows st), st\<lparr>ws_rows := filter (\<lambda>r. \<not> here r) (ws_rows st)\<rparr>))"

definition route_delete_config :: "request_state \<Rightarrow> string \<Rightarrow> nat \<Rightarrow> webhook_state \<Rightarrow> (config_error + nat) \<times> webhook_state" where
  "route_delete_config req t config_id st =
     (case require_permission MANAGE_WEBHOOKS req of
        Inl e \<Rightarrow> (Inl (Refused e), st)
      | Inr r \<Rightarrow> (let (deleted, st') = delete_config t config_id st
                  in (if deleted then Inr config_id else Inl NotFound, st')))"

text \<open>The service's two checks of a signature.\<close>

definition sha256_tag :: string where "sha256_tag = ''sha256=''"

text \<open>\<^verbatim>\<open>compare_digest\<close> raises on texts that are not ASCII.\<close>

definition compare_digest :: "string \<Rightarrow> string \<Rightarrow> bool option" where
  "compare_digest a b = (if is_ascii a \<and> is_ascii b then Some (a = b) else None)"

definition validate_signature :: "webhook_env \<Rightarrow> string \<Rightarrow> string \<Rightarrow> string \<Rightarrow> bool option" where
  "validate_signature env payload signature_header secret =
     (if \<not> starts_with sha256_tag signature_header then Some False
      else compare_digest (we_hmac env secret payload) (drop 7 signature_header))"

definition verify_webhook_hmac :: "webhook_env \<Rightarrow> string \<Rightarrow> string \<Rightarrow> string \<Rightarrow> bool option" where
  "verify_webhook_hmac env body signature_header secret =
     (if \<not> starts_with sha256_tag signature_header then Some False
      else compare_digest (sha256_tag @ we_hmac env secret body) signature_header)"

definition verify_secret :: "string \<Rightarrow> nat \<Rightarrow> string \<Rightarrow> string \<Rightarrow> webhook_state \<Rightarrow> bool" where
  "verify_secret t config_id payload signature st = list_ex (\<lambda>r. wc_id r = config_id \<and> wc_tenant r = t) (ws_rows st)"

subsection \<open>Reading the payload\<close>

text \<open>\<^verbatim>\<open>x.get(k, d)\<close>; only an object has it.\<close>

definition jget :: "json \<Rightarrow> string \<Rightarrow> json \<Rightarrow> json option" where
  "jget j k d = (case j of JObj kvs \<Rightarrow> Some (case map_of kvs k of None \<Rightarrow> d | Some v \<Rightarrow> v) | _ \<Rightarrow> None)"

definition ref_prefix :: string where "ref_prefix = ''refs/heads/''"

definition push_branch :: "json \<Rightarrow> string option" where
  "push_branch event =
     (case jget event ''ref'' (JStr []) of
        Some (JStr r) \<Rightarrow> Some (if starts_with ref_prefix r then py_replace ref_prefix [] r else r)
      | _ \<Rightarrow> None)"

definition push_repo :: "json \<Rightarrow> json option" where
  "push_repo event =
     (case jget event ''repository'' (JObj []) of
        None \<Rightarrow> None
      | Some repo \<Rightarrow>
          (case jget repo ''clone_url'' (JStr []) of
             None \<Rightarrow> None
           | Some a \<Rightarrow> if json_falsy a then jget repo ''html_url'' (JStr []) else Some a))"

text \<open>
  The rows for a repository and a branch; \<open>None\<close> where the driver refuses the value. A null value matches no row, since the column is
  not nullable.
\<close>

definition matching_configs :: "(webhook_row \<Rightarrow> bool) \<Rightarrow> json \<Rightarrow> string \<Rightarrow> webhook_state \<Rightarrow> webhook_row list option" where
  "matching_configs scope repo branch st =
     (case repo of
        JStr u \<Rightarrow> Some (filter (\<lambda>r. scope r \<and> wc_provider r = ''github'' \<and> wc_repo_url r = u \<and> wc_branch r = branch) (ws_rows st))
      | JNull \<Rightarrow> Some []
      | _ \<Rightarrow> None)"

subsection \<open>The receiver\<close>

record push_plan =
  pp_tenant :: string
  pp_repo_url :: string
  pp_branch :: string
  pp_base_sha :: json
  pp_target_sha :: json
  pp_auto_apply :: bool

datatype webhook_answer =
    Raised nat
  | Unhandled
  | OtherEvent string
  | Ignored string
  | Acknowledged string
  | PlanTriggered push_plan

text \<open>\<^verbatim>\<open>x[:8]\<close> in the log line of a triggered plan.\<close>

definition sliceable :: "json \<Rightarrow> bool" where
  "sliceable j \<longleftrightarrow> (case j of JStr s \<Rightarrow> True | JList xs \<Rightarrow> True | _ \<Rightarrow> False)"

definition handle_push_event :: "string \<Rightarrow> json \<Rightarrow> webhook_state \<Rightarrow> webhook_answer" where
  "handle_push_event t event st =
     (case (push_branch event, push_repo event, jget event ''before'' (JStr []), jget event ''after'' (JStr [])) of
        (Some branch, Some repo, Some before_sha, Some after_sha) \<Rightarrow>
          if json_falsy repo \<or> json_falsy before_sha \<or> json_falsy after_sha then Ignored ''incomplete_payload''
          else (case matching_configs (\<lambda>r. wc_tenant r = t) repo branch st of
             None \<Rightarrow> Unhandled
           | Some [] \<Rightarrow> Ignored ''no_matching_config''
           | Some [config] \<Rightarrow>
               (if \<not> wc_auto_plan config then Acknowledged t
                else if \<not> (sliceable before_sha \<and> sliceable after_sha) then Unhandled
                else PlanTriggered \<lparr>pp_tenant = t, pp_repo_url = wc_repo_url config, pp_branch = branch, pp_base_sha = before_sha,
                       pp_target_sha = after_sha, pp_auto_apply = wc_auto_apply config\<rparr>)
           | Some _ \<Rightarrow> Unhandled)
      | _ \<Rightarrow> Unhandled)"

text \<open>The guard against replays: the answer that ends the request, if any.\<close>

definition replay_window :: int where "replay_window = 300 * microseconds_per_second"

definition replay_guard :: "webhook_env \<Rightarrow> json \<Rightarrow> webhook_answer option" where
  "replay_guard env event =
     (case jget event ''head_commit'' JNull of
        Some (JObj commit) \<Rightarrow>
          (case jget (JObj commit) ''timestamp'' (JStr []) of
             Some ts \<Rightarrow>
               if json_falsy ts then None
               else (case ts of
                  JStr s \<Rightarrow> (case we_instant env (py_replace ''Z'' ''+00:00'' s) of
                     Some (True, t) \<Rightarrow> if we_now env - t > replay_window then Some (Raised 400) else None
                   | _ \<Rightarrow> None)
                | _ \<Rightarrow> Some Unhandled)
           | None \<Rightarrow> None)
      | _ \<Rightarrow> None)"

definition github_webhook :: "webhook_env \<Rightarrow> string \<Rightarrow> string \<Rightarrow> string \<Rightarrow> webhook_state \<Rightarrow> webhook_answer" where
  "github_webhook env event_type signature body st =
     (if event_type \<noteq> ''push'' then OtherEvent event_type
      else if signature = [] then Raised 400
      else if \<not> starts_with sha256_tag signature then Raised 400
      else case we_json_loads env body of
        None \<Rightarrow> Raised 400
      | Some event \<Rightarrow>
        (case (push_repo event, push_branch event) of
           (Some repo, Some branch) \<Rightarrow>
             (case matching_configs (\<lambda>r. True) repo branch st of
                None \<Rightarrow> Unhandled
              | Some [] \<Rightarrow> Ignored ''no_matching_config''
              | Some [config] \<Rightarrow>
                  (if opt_or (wc_secret_encrypted config) [] = [] then Raised 403
                   else case vault_decrypt (we_vault env) (we_key env) (opt_or (wc_secret_encrypted config) []) of
                     None \<Rightarrow> Raised 500
                   | Some secret \<Rightarrow>
                       (case verify_webhook_hmac env body signature secret of
                          None \<Rightarrow> Unhandled
                        | Some False \<Rightarrow> Raised 403
                        | Some True \<Rightarrow>
                            (case replay_guard env event of
                               Some answer \<Rightarrow> answer
                             | None \<Rightarrow> handle_push_event (wc_tenant config) event st)))
              | Some _ \<Rightarrow> Unhandled)
         | _ \<Rightarrow> Unhandled))"

subsection \<open>Facts\<close>

lemma py_replace_front:
  assumes "old \<noteq> []" shows "py_replace old new (old @ s) = new @ py_replace old new s"
proof -
  obtain c cs where "old = c # cs" using assms by (cases old) auto
  then show ?thesis by (subst py_replace.simps) (simp add: starts_with_def)
qed

text \<open>A text that holds a pattern nowhere is not changed.\<close>

definition holds_nowhere :: "string \<Rightarrow> string \<Rightarrow> bool" where
  "holds_nowhere p s \<longleftrightarrow> (\<forall>i<length s. \<not> starts_with p (drop i s))"

lemma py_replace_nowhere: "holds_nowhere p s \<Longrightarrow> py_replace p new s = s"
proof (induction s)
  case Nil
  show ?case by (subst py_replace.simps) simp
next
  case (Cons c s)
  then have "\<not> starts_with p (c # s)" "holds_nowhere p s" by (force simp: holds_nowhere_def)+
  with Cons.IH show ?case by (subst py_replace.simps) simp
qed

text \<open>An answer that the event was processed.\<close>

definition processed :: "webhook_answer \<Rightarrow> bool" where
  "processed a \<longleftrightarrow> (case a of Ignored r \<Rightarrow> r = ''incomplete_payload'' | Acknowledged t \<Rightarrow> True | PlanTriggered p \<Rightarrow> True | _ \<Rightarrow> False)"

lemma matching_one:
  assumes "matching_configs (\<lambda>r. True) repo branch st = Some [config]"
  shows "repo = JStr (wc_repo_url config) \<and> branch = wc_branch config \<and>
     filter (\<lambda>r. wc_provider r = ''github'' \<and> wc_repo_url r = wc_repo_url config \<and> wc_branch r = wc_branch config) (ws_rows st) = [config]"
proof -
  from assms obtain u where u: "repo = JStr u"
    "filter (\<lambda>r. wc_provider r = ''github'' \<and> wc_repo_url r = u \<and> wc_branch r = branch) (ws_rows st) = [config]"
    by (auto simp: matching_configs_def split: json.splits)
  have "config \<in> set (filter (\<lambda>r. wc_provider r = ''github'' \<and> wc_repo_url r = u \<and> wc_branch r = branch) (ws_rows st))"
    unfolding u(2) by simp
  then have "wc_repo_url config = u \<and> wc_branch config = branch" by simp
  with u show ?thesis by simp
qed

lemma handle_own_config:
  assumes "handle_push_event (wc_tenant config) event st = a" "processed a"
    and "push_branch event = Some branch" "push_repo event = Some repo" "matching_configs (\<lambda>r. True) repo branch st = Some [config]"
  shows "case a of PlanTriggered p \<Rightarrow> pp_tenant p = wc_tenant config \<and> pp_repo_url p = wc_repo_url config \<and> pp_branch p = wc_branch config \<and>
      wc_auto_plan config \<and> pp_auto_apply p = wc_auto_apply config
    | Acknowledged t \<Rightarrow> t = wc_tenant config \<and> \<not> wc_auto_plan config | _ \<Rightarrow> True"
proof -
  obtain u where u: "repo = JStr u" "u = wc_repo_url config"
    "filter (\<lambda>r. wc_provider r = ''github'' \<and> wc_repo_url r = u \<and> wc_branch r = branch) (ws_rows st) = [config]"
    and c: "wc_branch config = branch" using matching_one[OF assms(5)] by blast
  have "filter (\<lambda>r. wc_tenant r = wc_tenant config \<and> wc_provider r = ''github'' \<and> wc_repo_url r = u \<and> wc_branch r = branch) (ws_rows st) =
      filter (\<lambda>r. wc_tenant r = wc_tenant config) [config]"
    unfolding u(3)[symmetric] filter_filter by (rule filter_cong) auto
  then have own: "matching_configs (\<lambda>r. wc_tenant r = wc_tenant config) repo branch st = Some [config]"
    by (simp add: matching_configs_def u(1))
  show ?thesis
    using assms(1,2) c unfolding handle_push_event_def assms(3,4)
    by (auto simp: own processed_def split: option.splits if_splits)
qed

text \<open>C31: Only the holder of the secret is heard: a delivery is processed only if exactly one configuration, of any tenant, matches the
  repository and the branch that the payload names, its vault secret decrypts, the signature is the HMAC of the body under that secret,
  and the head commit is not too old; and then the plan is for that configuration's tenant, with its flags.\<close>

theorem webhook_authentic:
  assumes "github_webhook env event_type signature body st = a" and "processed a"
  shows "\<exists>event config secret. we_json_loads env body = Some event \<and> push_branch event = Some (wc_branch config) \<and>
     push_repo event = Some (JStr (wc_repo_url config)) \<and>
     filter (\<lambda>r. wc_provider r = ''github'' \<and> wc_repo_url r = wc_repo_url config \<and> wc_branch r = wc_branch config) (ws_rows st) = [config] \<and>
     vault_decrypt (we_vault env) (we_key env) (opt_or (wc_secret_encrypted config) []) = Some secret \<and>
     signature = sha256_tag @ we_hmac env secret body \<and> replay_guard env event = None \<and>
     (case a of PlanTriggered p \<Rightarrow> pp_tenant p = wc_tenant config \<and> pp_repo_url p = wc_repo_url config \<and> pp_branch p = wc_branch config \<and>
         wc_auto_plan config \<and> pp_auto_apply p = wc_auto_apply config
       | Acknowledged t \<Rightarrow> t = wc_tenant config \<and> \<not> wc_auto_plan config | _ \<Rightarrow> True)"
proof -
  obtain event repo branch configs where e: "we_json_loads env body = Some event" "push_repo event = Some repo" "push_branch event = Some branch"
      "matching_configs (\<lambda>r. True) repo branch st = Some configs"
    using assms unfolding github_webhook_def processed_def by (auto split: if_splits option.splits)
  obtain config where c: "configs = [config]"
    using assms unfolding github_webhook_def processed_def e option.case prod.case
    by (cases configs rule: remdups_adj.cases) (auto split: if_splits)
  note match = e(4)[unfolded c]
  obtain secret where s: "vault_decrypt (we_vault env) (we_key env) (opt_or (wc_secret_encrypted config) []) = Some secret"
      "verify_webhook_hmac env body signature secret = Some True" "replay_guard env event = None \<or> replay_guard env event = Some a"
    using assms unfolding github_webhook_def processed_def e(1-3) option.case prod.case match list.case
    by (auto split: if_splits option.splits bool.splits)
  have guard: "replay_guard env event \<noteq> Some a"
    using assms(2) by (auto simp: replay_guard_def processed_def split: option.splits json.splits if_splits prod.splits bool.splits)
  with s(3) have none: "replay_guard env event = None" by blast
  have "handle_push_event (wc_tenant config) event st = a"
    using assms s none unfolding github_webhook_def processed_def e(1-3) option.case prod.case match list.case
    by (auto split: if_splits)
  note own = handle_own_config[OF this assms(2) e(3,2) match]
  have "signature = sha256_tag @ we_hmac env secret body"
    using s(2) by (auto simp: verify_webhook_hmac_def compare_digest_def split: if_splits)
  with e(1-3) matching_one[OF match] s(1) none own show ?thesis by blast
qed

lemma push_branch_of_ref:
  assumes "jget event ''ref'' (JStr []) = Some (JStr (ref_prefix @ branch))" "holds_nowhere ref_prefix branch"
  shows "push_branch event = Some branch"
proof -
  have "ref_prefix \<noteq> []" by (simp add: ref_prefix_def)
  with assms show ?thesis by (simp add: push_branch_def starts_with_def py_replace_front py_replace_nowhere)
qed

lemma vault_encrypt_ne: "vault_encrypt env secret salt x \<noteq> []"
proof
  assume e: "vault_encrypt env secret salt x = []"
  have "urlsafe_b64decode (urlsafe_b64encode (vault_v2 @ y)) = Some (vault_v2 @ y)" for y by simp
  with e have "urlsafe_b64decode [] = Some (vault_v2 @ salt @ ve_fernet_encrypt env (urlsafe_b64encode (ve_pbkdf2 env secret salt)) x)"
    unfolding vault_encrypt_def Let_def by metis
  moreover have "urlsafe_b64decode [] = Some []" by code_simp
  ultimately show False by (simp add: vault_v2_def)
qed

text \<open>A configuration works: after a tenant's administrator has created one for a repository and branch that no configuration matched,
  a complete and fresh push event for them, signed with the secret, triggers a plan of that tenant for the pushed commits, or is
  acknowledged where plans are not automatic.\<close>

theorem created_config_receives:
  assumes "route_create_config env req t repo_url branch secret auto_plan auto_apply st = (Inr row, st')"
    and "filter (\<lambda>r. wc_provider r = ''github'' \<and> wc_repo_url r = repo_url \<and> wc_branch r = branch) (ws_rows st) = []"
    and "\<forall>k x. ve_fernet_decrypt (we_vault env) k (ve_fernet_encrypt (we_vault env) k x) = Some x"
    and "\<forall>k x. take 1 (ve_fernet_encrypt (we_vault env) k x) = ''g''" "length (fst (we_salts env)) = 16" "utf8_decode secret = Some secret"
    and "we_vault env' = we_vault env" "we_key env' = we_key env" "is_ascii (we_hmac env' secret body)"
    and "we_json_loads env' body = Some event" "push_repo event = Some (JStr repo_url)" "push_branch event = Some branch"
    and "jget event ''before'' (JStr []) = Some (JStr b)" "jget event ''after'' (JStr []) = Some (JStr a)" "repo_url \<noteq> []" "b \<noteq> []" "a \<noteq> []"
    and "replay_guard env' event = None"
  shows "github_webhook env' ''push'' (sha256_tag @ we_hmac env' secret body) body st' =
     (if auto_plan then PlanTriggered \<lparr>pp_tenant = t, pp_repo_url = repo_url, pp_branch = branch, pp_base_sha = JStr b, pp_target_sha = JStr a,
        pp_auto_apply = auto_apply\<rparr> else Acknowledged t)"
proof -
  define enc where "enc = vault_encrypt (we_vault env) (we_key env) (fst (we_salts env)) secret"
  have st': "st' = st\<lparr>ws_rows := ws_rows st @ [row], ws_next_id := Suc (ws_next_id st)\<rparr>"
    and row: "wc_tenant row = t" "wc_provider row = ''github''" "wc_repo_url row = repo_url" "wc_branch row = branch"
      "wc_secret_encrypted row = Some enc" "wc_auto_plan row = auto_plan" "wc_auto_apply row = auto_apply"
    using assms(1) by (auto simp: route_create_config_def create_config_def enc_def Let_def split: sum.splits if_splits)
  have dec: "vault_decrypt (we_vault env') (we_key env') enc = Some secret"
    unfolding enc_def assms(7,8) using vault_roundtrip[OF assms(3-6)] by simp
  have all: "matching_configs (\<lambda>r. True) (JStr repo_url) branch st' = Some [row]"
    using assms(2) row by (simp add: matching_configs_def st')
  have "filter (\<lambda>r. wc_tenant r = t \<and> wc_provider r = ''github'' \<and> wc_repo_url r = repo_url \<and> wc_branch r = branch) (ws_rows st) = []"
    using assms(2) by (auto simp: filter_empty_conv)
  then have own: "matching_configs (\<lambda>r. wc_tenant r = t) (JStr repo_url) branch st' = Some [row]"
    using row by (simp add: matching_configs_def st')
  have enc: "opt_or (Some enc) [] = enc" "enc \<noteq> []" using vault_encrypt_ne by (simp_all add: opt_or_def enc_def)
  have tag: "starts_with sha256_tag (sha256_tag @ x)" "sha256_tag @ x \<noteq> []" "is_ascii sha256_tag" "sha256_tag \<noteq> []" for x
    by (simp_all add: starts_with_def) (code_simp)+
  have "verify_webhook_hmac env' body (sha256_tag @ we_hmac env' secret body) secret = Some True"
    using assms(9) tag(1,3) by (simp add: verify_webhook_hmac_def compare_digest_def is_ascii_def)
  then have "github_webhook env' ''push'' (sha256_tag @ we_hmac env' secret body) body st' = handle_push_event t event st'"
    by (simp add: github_webhook_def tag assms(10-12) all row(1,5) enc dec assms(18))
  also have "\<dots> = (if auto_plan then PlanTriggered \<lparr>pp_tenant = t, pp_repo_url = repo_url, pp_branch = branch, pp_base_sha = JStr b,
        pp_target_sha = JStr a, pp_auto_apply = auto_apply\<rparr> else Acknowledged t)"
    using assms(15-17) by (simp add: handle_push_event_def assms(11-14) own row json_falsy_def sliceable_def)
  finally show ?thesis .
qed

text \<open>Any tenant can silence another's webhook: once a second tenant creates a configuration for the same repository and branch, which the
  constraint of the table admits, every signed push to them fails for both tenants, whatever the signature.\<close>

theorem shared_repository_blocks:
  assumes "r \<in> set (ws_rows st)" "wc_provider r = ''github''" "wc_repo_url r = repo_url" "wc_branch r = branch" "wc_tenant r \<noteq> t"
    and "route_create_config env req t repo_url branch secret auto_plan auto_apply st = (Inr row, st')"
    and "we_json_loads env' body = Some event" "push_repo event = Some (JStr repo_url)" "push_branch event = Some branch"
  shows "github_webhook env' ''push'' (sha256_tag @ mac) body st' = Unhandled"
proof -
  let ?P = "\<lambda>r. wc_provider r = ''github'' \<and> wc_repo_url r = repo_url \<and> wc_branch r = branch"
  have "ws_rows st' = ws_rows st @ [row]" "?P row"
    using assms(6) by (auto simp: route_create_config_def create_config_def Let_def split: sum.splits if_splits)
  then have "matching_configs (\<lambda>r. True) (JStr repo_url) branch st' = Some (filter ?P (ws_rows st) @ [row])"
    by (simp add: matching_configs_def)
  moreover obtain x xs where "filter ?P (ws_rows st) = x # xs" using assms(1-4) by (cases "filter ?P (ws_rows st)") (auto simp: filter_empty_conv)
  moreover have "starts_with sha256_tag (sha256_tag @ mac)" "sha256_tag @ mac \<noteq> []" by (simp_all add: starts_with_def sha256_tag_def)
  ultimately show ?thesis using assms(7-9) by (cases xs) (simp_all add: github_webhook_def)
qed

definition demo_event :: json where
  "demo_event =
     JObj [(''ref'', JStr ''refs/heads/main''), (''before'', JStr ''a1''), (''after'', JStr ''b2''),
       (''repository'', JObj [(''clone_url'', JStr ''https://x/y.git'')])]"

definition demo_webhook_env :: webhook_env where
  "demo_webhook_env =
     \<lparr>we_hmac = (\<lambda>s p. take 2 s), we_json_loads = (\<lambda>b. Some demo_event), we_instant = (\<lambda>s. None), we_now = 0, we_vault = demo_vault_env,
      we_key = ''k'', we_bcrypt = (\<lambda>salt s. salt), we_salts = (replicate 16 CHR ''x'', ''salt'')\<rparr>"

definition demo_admin :: request_state where "demo_admin = \<lparr>rq_role = Some ''admin'', rq_sub = Some ''u''\<rparr>"

definition demo_secret :: string where "demo_secret = ''0123456789abcdef0123456789abcdef''"

definition demo_created :: "string \<Rightarrow> webhook_state \<Rightarrow> (config_error + webhook_row) \<times> webhook_state" where
  "demo_created t st = route_create_config demo_webhook_env demo_admin t ''https://x/y.git'' ''main'' demo_secret True False st"

definition no_configs :: webhook_state where "no_configs = \<lparr>ws_rows = [], ws_next_id = 1\<rparr>"

lemma demo_event_reads:
  "push_repo demo_event = Some (JStr ''https://x/y.git'')" "push_branch demo_event = Some ''main''"
  "jget demo_event ''before'' (JStr []) = Some (JStr ''a1'')" "jget demo_event ''after'' (JStr []) = Some (JStr ''b2'')"
  "replay_guard demo_webhook_env demo_event = None"
  by (simp_all add: demo_event_def push_repo_def jget_def json_falsy_def replay_guard_def) code_simp

theorem webhook_authentic_witness:
  "\<exists>config. filter (\<lambda>r. wc_provider r = ''github'' \<and> wc_repo_url r = wc_repo_url config \<and> wc_branch r = wc_branch config)
       (ws_rows (snd (demo_created ''t'' no_configs))) = [config] \<and>
     (\<exists>p. github_webhook demo_webhook_env ''push'' ''sha256=01'' ''{}'' (snd (demo_created ''t'' no_configs)) = PlanTriggered p \<and>
        pp_tenant p = wc_tenant config)"
proof -
  have "case github_webhook demo_webhook_env ''push'' ''sha256=01'' ''{}'' (snd (demo_created ''t'' no_configs)) of
      PlanTriggered p \<Rightarrow> True | _ \<Rightarrow> False" by code_simp
  then obtain p where p: "github_webhook demo_webhook_env ''push'' ''sha256=01'' ''{}'' (snd (demo_created ''t'' no_configs)) = PlanTriggered p"
    by (auto split: webhook_answer.splits)
  from webhook_authentic[OF p] p show ?thesis by (auto simp: processed_def)
qed

theorem created_config_receives_witness:
  "github_webhook demo_webhook_env ''push'' ''sha256=01'' ''{}'' (snd (demo_created ''t'' no_configs)) =
     PlanTriggered \<lparr>pp_tenant = ''t'', pp_repo_url = ''https://x/y.git'', pp_branch = ''main'', pp_base_sha = JStr ''a1'', pp_target_sha = JStr ''b2'',
       pp_auto_apply = False\<rparr>"
proof -
  obtain row where row: "demo_created ''t'' no_configs = (Inr row, snd (demo_created ''t'' no_configs))"
  proof -
    have "case fst (demo_created ''t'' no_configs) of Inl e \<Rightarrow> False | Inr r \<Rightarrow> True" by code_simp
    then show ?thesis using that by (metis old.sum.simps(5) prod.collapse sum.exhaust)
  qed
  have mac: "sha256_tag @ we_hmac demo_webhook_env demo_secret ''{}'' = ''sha256=01''" by code_simp
  have laws: "\<forall>k x. ve_fernet_decrypt (we_vault demo_webhook_env) k (ve_fernet_encrypt (we_vault demo_webhook_env) k x) = Some x"
    "\<forall>k x. take 1 (ve_fernet_encrypt (we_vault demo_webhook_env) k x) = ''g''" "length (fst (we_salts demo_webhook_env)) = 16"
    "we_json_loads demo_webhook_env ''{}'' = Some demo_event"
    by (simp_all add: demo_webhook_env_def demo_vault_env_def)
  have eval: "utf8_decode demo_secret = Some demo_secret" "is_ascii (we_hmac demo_webhook_env demo_secret ''{}'')" by code_simp+
  have none: "filter (\<lambda>r. wc_provider r = ''github'' \<and> wc_repo_url r = ''https://x/y.git'' \<and> wc_branch r = ''main'') (ws_rows no_configs) = []"
    by (simp add: no_configs_def)
  have ne: "''https://x/y.git'' \<noteq> []" "''a1'' \<noteq> []" "''b2'' \<noteq> []" by simp_all
  from created_config_receives[OF row[unfolded demo_created_def] none laws(1-3) eval(1) refl refl eval(2) laws(4) demo_event_reads(1-4) ne
      demo_event_reads(5)]
  show ?thesis unfolding mac demo_created_def by simp
qed

theorem shared_repository_blocks_witness:
  "github_webhook demo_webhook_env ''push'' ''sha256=01'' ''{}'' (snd (demo_created ''u'' (snd (demo_created ''t'' no_configs)))) = Unhandled"
proof -
  let ?st = "snd (demo_created ''t'' no_configs)"
  have "case ws_rows ?st of [r] \<Rightarrow> wc_provider r = ''github'' \<and> wc_repo_url r = ''https://x/y.git'' \<and> wc_branch r = ''main'' \<and> wc_tenant r = ''t'' | _ \<Rightarrow> False"
    by code_simp
  then obtain r where "ws_rows ?st = [r]" "wc_provider r = ''github''" "wc_repo_url r = ''https://x/y.git''" "wc_branch r = ''main''" "wc_tenant r = ''t''"
    by (auto split: list.splits)
  then have r: "r \<in> set (ws_rows ?st)" "wc_provider r = ''github''" "wc_repo_url r = ''https://x/y.git''" "wc_branch r = ''main''" "wc_tenant r \<noteq> ''u''"
    by simp_all
  obtain row where row: "demo_created ''u'' ?st = (Inr row, snd (demo_created ''u'' ?st))"
  proof -
    have "case fst (demo_created ''u'' ?st) of Inl e \<Rightarrow> False | Inr r \<Rightarrow> True" by code_simp
    then show ?thesis using that by (metis old.sum.simps(5) prod.collapse sum.exhaust)
  qed
  have "we_json_loads demo_webhook_env ''{}'' = Some demo_event" by (simp add: demo_webhook_env_def)
  from shared_repository_blocks[OF r[unfolded demo_created_def] row[unfolded demo_created_def] this demo_event_reads(1,2), of "''01''"]
  show ?thesis unfolding demo_created_def by (simp add: sha256_tag_def)
qed

end
