(* ===== verification/Event_Subscriptions.thy ===== *)
theory Event_Subscriptions
  imports Outbox Access Tokens
begin

text \<open>
  Event subscriptions and their delivery: \<^verbatim>\<open>EventSubscriptionRepository\<close> of the state repository,
  \<^verbatim>\<open>api/api/routers/event_subscriptions.py\<close> and \<^verbatim>\<open>api/api/services/webhook_dispatcher.py\<close>. HMAC, bcrypt, the name service,
  the URL parser, the serialiser and the HTTP client are parameters; the address ranges are computed.
\<close>

subsection \<open>The repository\<close>

record subscription_row =
  sb_id :: nat
  sb_tenant :: string
  sb_name :: string
  sb_url :: string
  sb_secret_hash :: "string option"
  sb_event_types :: "string list option"
  sb_active :: bool
  sb_description :: "string option"
  sb_created_at :: timestamp
  sb_updated_at :: timestamp

record subscription_state =
  ss_rows :: "subscription_row list"
  ss_next_id :: nat

definition sub_create ::
  "timestamp \<Rightarrow> string \<Rightarrow> string \<Rightarrow> string \<Rightarrow> string option \<Rightarrow> string list option \<Rightarrow> string option \<Rightarrow> subscription_state \<Rightarrow>
   subscription_row \<times> subscription_state" where
  "sub_create now t name url secret_hash event_types description st =
     (let row = \<lparr>sb_id = ss_next_id st, sb_tenant = t, sb_name = name, sb_url = url, sb_secret_hash = secret_hash, sb_event_types = event_types,
            sb_active = True, sb_description = description, sb_created_at = now, sb_updated_at = now\<rparr>
      in (row, st\<lparr>ss_rows := ss_rows st @ [row], ss_next_id := Suc (ss_next_id st)\<rparr>))"

definition sub_here :: "string \<Rightarrow> nat \<Rightarrow> subscription_row \<Rightarrow> bool" where
  "sub_here t i r \<longleftrightarrow> sb_tenant r = t \<and> sb_id r = i"

definition sub_get :: "string \<Rightarrow> nat \<Rightarrow> subscription_state \<Rightarrow> subscription_row option" where
  "sub_get t i st = List.find (sub_here t i) (ss_rows st)"

definition sub_list_active :: "string \<Rightarrow> subscription_state \<Rightarrow> subscription_row list" where
  "sub_list_active t st = sort_key sb_id (filter (\<lambda>r. sb_tenant r = t \<and> sb_active r) (ss_rows st))"

definition sub_list_all :: "string \<Rightarrow> subscription_state \<Rightarrow> subscription_row list" where
  "sub_list_all t st = sort_key sb_id (filter (\<lambda>r. sb_tenant r = t) (ss_rows st))"

text \<open>The arguments of \<^verbatim>\<open>update\<close>: for the last two, the outer \<open>None\<close> is the sentinel that leaves the field alone.\<close>

record sub_changes =
  ch_name :: "string option"
  ch_url :: "string option"
  ch_secret_hash :: "string option"
  ch_active :: "bool option"
  ch_event_types :: "string list option option"
  ch_description :: "string option option"

definition or_else :: "'a option \<Rightarrow> 'a \<Rightarrow> 'a" where "or_else x d = (case x of None \<Rightarrow> d | Some v \<Rightarrow> v)"

definition apply_changes :: "timestamp \<Rightarrow> sub_changes \<Rightarrow> subscription_row \<Rightarrow> subscription_row" where
  "apply_changes now c r =
     r\<lparr>sb_name := or_else (ch_name c) (sb_name r), sb_url := or_else (ch_url c) (sb_url r),
       sb_secret_hash := (case ch_secret_hash c of None \<Rightarrow> sb_secret_hash r | Some h \<Rightarrow> Some h),
       sb_event_types := or_else (ch_event_types c) (sb_event_types r), sb_active := or_else (ch_active c) (sb_active r),
       sb_description := or_else (ch_description c) (sb_description r), sb_updated_at := now\<rparr>"

definition sub_update :: "timestamp \<Rightarrow> string \<Rightarrow> nat \<Rightarrow> sub_changes \<Rightarrow> subscription_state \<Rightarrow> subscription_row option \<times> subscription_state" where
  "sub_update now t i c st =
     (case sub_get t i st of
        None \<Rightarrow> (None, st)
      | Some r \<Rightarrow> (Some (apply_changes now c r),
                   st\<lparr>ss_rows := map (\<lambda>r. if sub_here t i r then apply_changes now c r else r) (ss_rows st)\<rparr>))"

definition sub_delete :: "string \<Rightarrow> nat \<Rightarrow> subscription_state \<Rightarrow> bool \<times> subscription_state" where
  "sub_delete t i st = (list_ex (sub_here t i) (ss_rows st), st\<lparr>ss_rows := filter (\<lambda>r. \<not> sub_here t i r) (ss_rows st)\<rparr>)"

definition list_for_event_type :: "string \<Rightarrow> string \<Rightarrow> subscription_state \<Rightarrow> subscription_row list" where
  "list_for_event_type t event_type st =
     filter (\<lambda>r. case sb_event_types r of None \<Rightarrow> True | Some types \<Rightarrow> event_type \<in> set types)
       (filter (\<lambda>r. sb_tenant r = t \<and> sb_active r) (ss_rows st))"

subsection \<open>The routes\<close>

datatype sub_error = Unprocessable | Refused http_error | NotFound

definition between :: "nat \<Rightarrow> nat \<Rightarrow> string \<Rightarrow> bool" where "between a b s \<longleftrightarrow> a \<le> length s \<and> length s \<le> b"

definition opt_all :: "('a \<Rightarrow> bool) \<Rightarrow> 'a option \<Rightarrow> bool" where "opt_all P x \<longleftrightarrow> (case x of None \<Rightarrow> True | Some v \<Rightarrow> P v)"

text \<open>\<open>bcrypt\<close> hashes with the salt drawn for the call.\<close>

definition route_create_subscription ::
  "(string \<Rightarrow> string) \<Rightarrow> timestamp \<Rightarrow> request_state \<Rightarrow> string \<Rightarrow> string \<Rightarrow> string \<Rightarrow> string option \<Rightarrow> string list option \<Rightarrow> string option \<Rightarrow>
   subscription_state \<Rightarrow> (sub_error + subscription_row) \<times> subscription_state" where
  "route_create_subscription bcrypt now req t name url secret event_types description st =
     (case require_permission MANAGE_WEBHOOKS req of
        Inl e \<Rightarrow> (Inl (Refused e), st)
      | Inr r \<Rightarrow>
          if \<not> (between 1 256 name \<and> between 1 2048 url \<and> opt_all (\<lambda>s. 32 \<le> length s) secret \<and> opt_all (between 0 1024) description)
          then (Inl Unprocessable, st)
          else (let (row, st') = sub_create now t name url (if opt_or secret [] \<noteq> [] then map_option bcrypt secret else None) event_types description st
                in (Inr row, st')))"

definition route_update_subscription ::
  "(string \<Rightarrow> string) \<Rightarrow> timestamp \<Rightarrow> request_state \<Rightarrow> string \<Rightarrow> nat \<Rightarrow> string option \<Rightarrow> string option \<Rightarrow> string option \<Rightarrow> string list option \<Rightarrow>
   bool option \<Rightarrow> string option \<Rightarrow> subscription_state \<Rightarrow> (sub_error + subscription_row) \<times> subscription_state" where
  "route_update_subscription bcrypt now req t i name url secret event_types active description st =
     (case require_permission MANAGE_WEBHOOKS req of
        Inl e \<Rightarrow> (Inl (Refused e), st)
      | Inr r \<Rightarrow>
          if \<not> (opt_all (between 1 256) name \<and> opt_all (between 1 2048) url \<and> opt_all (\<lambda>s. 32 \<le> length s) secret \<and>
                opt_all (between 0 1024) description)
          then (Inl Unprocessable, st)
          else (case sub_update now t i \<lparr>ch_name = name, ch_url = url, ch_secret_hash = map_option bcrypt secret, ch_active = active,
                      ch_event_types = map_option Some event_types, ch_description = map_option Some description\<rparr> st of
                  (None, st') \<Rightarrow> (Inl NotFound, st')
                | (Some row, st') \<Rightarrow> (Inr row, st')))"

definition route_delete_subscription :: "request_state \<Rightarrow> string \<Rightarrow> nat \<Rightarrow> subscription_state \<Rightarrow> (sub_error + nat) \<times> subscription_state" where
  "route_delete_subscription req t i st =
     (case require_permission MANAGE_WEBHOOKS req of
        Inl e \<Rightarrow> (Inl (Refused e), st)
      | Inr r \<Rightarrow> (let (deleted, st') = sub_delete t i st in (if deleted then Inr i else Inl NotFound, st')))"

definition route_get_subscription :: "request_state \<Rightarrow> string \<Rightarrow> nat \<Rightarrow> subscription_state \<Rightarrow> sub_error + subscription_row" where
  "route_get_subscription req t i st =
     (case require_permission MANAGE_WEBHOOKS req of
        Inl e \<Rightarrow> Inl (Refused e)
      | Inr r \<Rightarrow> (case sub_get t i st of None \<Rightarrow> Inl NotFound | Some row \<Rightarrow> Inr row))"

subsection \<open>Addresses\<close>

datatype ip = V4 int | V6 int

definition v4 :: "int \<Rightarrow> int \<Rightarrow> int \<Rightarrow> int \<Rightarrow> int" where
  "v4 a b c d = ((a * 256 + b) * 256 + c) * 256 + d"

text \<open>A network is its address and the length of its prefix; an address of the other version is in none.\<close>

fun in_network :: "ip \<Rightarrow> ip \<times> nat \<Rightarrow> bool" where
  "in_network (V4 a) (V4 n, p) \<longleftrightarrow> a div 2 ^ (32 - p) = n div 2 ^ (32 - p)"
| "in_network (V6 a) (V6 n, p) \<longleftrightarrow> a div 2 ^ (128 - p) = n div 2 ^ (128 - p)"
| "in_network _ _ \<longleftrightarrow> False"

definition blocked_networks :: "(ip \<times> nat) list" where
  "blocked_networks =
     [(V4 (v4 10 0 0 0), 8), (V4 (v4 172 16 0 0), 12), (V4 (v4 192 168 0 0), 16), (V4 (v4 127 0 0 0), 8), (V4 (v4 169 254 0 0), 16),
      (V6 1, 128), (V6 (0xfc00 * 2 ^ 112), 7), (V6 (0xfe80 * 2 ^ 112), 10)]"

definition blocked :: "ip \<Rightarrow> bool" where "blocked a \<longleftrightarrow> list_ex (in_network a) blocked_networks"

subsection \<open>Delivery\<close>

record subscription =
  sub_url :: string
  sub_secret :: string
  sub_events :: "string list"

record post =
  po_url :: string
  po_body :: string
  po_signature :: string
  po_event :: string
  po_delivery :: string

text \<open>What the outside sees: a request, or a pause of so many seconds.\<close>

datatype net_event = Posted post | Slept nat

datatype reply = Response nat | Timeout | RequestFailed string | OtherException

record url_parts =
  up_scheme :: string
  up_hostname :: "string option"
  up_port :: "nat option"

text \<open>
  \<open>de_urlparse\<close> is \<^verbatim>\<open>None\<close> where parsing raises. The name service and the client answer at a moment, which is the number of
  requests and pauses before; so both may answer differently from one moment to the next.
\<close>

record dispatch_env =
  de_dump :: "event_payload \<Rightarrow> string"
  de_hmac :: "string \<Rightarrow> string \<Rightarrow> string"
  de_urlparse :: "string \<Rightarrow> url_parts option"
  de_resolve :: "nat \<Rightarrow> string \<Rightarrow> nat \<Rightarrow> ip list option"
  de_reply :: "nat \<Rightarrow> post \<Rightarrow> reply"

datatype url_error = BadUrl | NeedsHttps | BadScheme | NoHostname | Unresolved | PrivateAddress ip

definition validate_webhook_url :: "dispatch_env \<Rightarrow> nat \<Rightarrow> string \<Rightarrow> bool \<Rightarrow> url_error option" where
  "validate_webhook_url env moment url allow_http =
     (case de_urlparse env url of
        None \<Rightarrow> Some BadUrl
      | Some parsed \<Rightarrow>
          if up_scheme parsed = ''http'' \<and> \<not> allow_http then Some NeedsHttps
          else if up_scheme parsed \<notin> {''http'', ''https''} then Some BadScheme
          else if opt_or (up_hostname parsed) [] = [] then Some NoHostname
          else (case de_resolve env moment (opt_or (up_hostname parsed) [])
                       (case up_port parsed of None \<Rightarrow> 443 | Some p \<Rightarrow> if p = 0 then 443 else p) of
                  None \<Rightarrow> Some Unresolved
                | Some addresses \<Rightarrow> map_option PrivateAddress (List.find blocked addresses)))"

definition sign :: "dispatch_env \<Rightarrow> string \<Rightarrow> string \<Rightarrow> string" where
  "sign env body secret = (if secret = [] then [] else de_hmac env secret body)"

definition verify_signature :: "dispatch_env \<Rightarrow> string \<Rightarrow> string \<Rightarrow> string \<Rightarrow> bool option" where
  "verify_signature env body secret signature =
     (if is_ascii (sign env body secret) \<and> is_ascii signature then Some (sign env body secret = signature) else None)"

datatype delivery_error = Http nat | Timeout_Error | Request_Error string | Refused_Url url_error

record delivery =
  dl_url :: string
  dl_status :: string
  dl_code :: "nat option"
  dl_error :: "delivery_error option"
  dl_attempts :: nat

definition max_retries :: nat where "max_retries = 3"

text \<open>The attempts from \<open>attempt\<close> on, of which \<open>n\<close> are left; \<open>None\<close> where an exception of another kind escapes.\<close>

fun deliver_loop :: "dispatch_env \<Rightarrow> post \<Rightarrow> nat \<Rightarrow> nat \<Rightarrow> delivery_error option \<Rightarrow> net_event list \<Rightarrow> delivery option \<times> net_event list" where
  "deliver_loop env req attempt 0 last_error trace =
     (Some \<lparr>dl_url = po_url req, dl_status = ''failed'', dl_code = None, dl_error = last_error, dl_attempts = max_retries\<rparr>, trace)"
| "deliver_loop env req attempt (Suc n) last_error trace =
     (let answer = de_reply env (length trace) req; trace = trace @ [Posted req];
          again = (\<lambda>e. deliver_loop env req (Suc attempt) n (Some e)
                         (if attempt < max_retries then trace @ [Slept (2 ^ (attempt - 1))] else trace))
      in case answer of
           Response status \<Rightarrow>
             if 200 \<le> status \<and> status < 300
             then (Some \<lparr>dl_url = po_url req, dl_status = ''delivered'', dl_code = Some status, dl_error = None, dl_attempts = attempt\<rparr>, trace)
             else again (Http status)
         | Timeout \<Rightarrow> again Timeout_Error
         | RequestFailed e \<Rightarrow> again (Request_Error e)
         | OtherException \<Rightarrow> (None, trace))"

declare deliver_loop.simps(2) [simp del]

definition request_for :: "dispatch_env \<Rightarrow> event_payload \<Rightarrow> string \<Rightarrow> string \<Rightarrow> post" where
  "request_for env payload url secret =
     \<lparr>po_url = url, po_body = de_dump env payload, po_signature = sign env (de_dump env payload) secret,
      po_event = event_type_value (ep_event_type payload), po_delivery = ep_correlation_id payload\<rparr>"

definition deliver :: "dispatch_env \<Rightarrow> string \<Rightarrow> string \<Rightarrow> event_payload \<Rightarrow> net_event list \<Rightarrow> delivery option \<times> net_event list" where
  "deliver env url secret payload trace = deliver_loop env (request_for env payload url secret) 1 max_retries None trace"

definition covers :: "subscription \<Rightarrow> event_payload \<Rightarrow> bool" where
  "covers sub payload \<longleftrightarrow> sub_events sub = [] \<or> event_type_value (ep_event_type payload) \<in> set (sub_events sub)"

fun dispatch_all_subs ::
  "dispatch_env \<Rightarrow> event_payload \<Rightarrow> subscription list \<Rightarrow> delivery list \<Rightarrow> net_event list \<Rightarrow> delivery list option \<times> net_event list" where
  "dispatch_all_subs env payload [] results trace = (Some results, trace)"
| "dispatch_all_subs env payload (sub # subs) results trace =
     (if \<not> covers sub payload then dispatch_all_subs env payload subs results trace
      else case validate_webhook_url env (length trace) (sub_url sub) False of
        Some e \<Rightarrow> dispatch_all_subs env payload subs
            (results @ [\<lparr>dl_url = sub_url sub, dl_status = ''blocked'', dl_code = None, dl_error = Some (Refused_Url e), dl_attempts = 0\<rparr>]) trace
      | None \<Rightarrow> (case deliver env (sub_url sub) (sub_secret sub) payload trace of
            (None, trace) \<Rightarrow> (None, trace)
          | (Some result, trace) \<Rightarrow> dispatch_all_subs env payload subs (results @ [result]) trace))"

definition dispatch_event :: "dispatch_env \<Rightarrow> event_payload \<Rightarrow> subscription list \<Rightarrow> delivery list option \<times> net_event list" where
  "dispatch_event env payload subs = dispatch_all_subs env payload subs [] []"

subsection \<open>Facts\<close>

definition failing :: "reply \<Rightarrow> bool" where
  "failing r \<longleftrightarrow> (case r of Response s \<Rightarrow> \<not> (200 \<le> s \<and> s < 300) | Timeout \<Rightarrow> True | RequestFailed e \<Rightarrow> True | OtherException \<Rightarrow> False)"

definition succeeding :: "reply \<Rightarrow> bool" where
  "succeeding r \<longleftrightarrow> (case r of Response s \<Rightarrow> 200 \<le> s \<and> s < 300 | _ \<Rightarrow> False)"

definition error_of :: "reply \<Rightarrow> delivery_error" where
  "error_of r = (case r of Response s \<Rightarrow> Http s | Timeout \<Rightarrow> Timeout_Error | RequestFailed e \<Rightarrow> Request_Error e | OtherException \<Rightarrow> Timeout_Error)"

lemma reply_cases: "failing r \<or> succeeding r \<or> r = OtherException"
  by (cases r) (auto simp: failing_def succeeding_def)

lemma deliver_failing:
  "failing (de_reply env (length trace) req) \<Longrightarrow>
     deliver_loop env req attempt (Suc n) prior trace =
       deliver_loop env req (Suc attempt) n (Some (error_of (de_reply env (length trace) req)))
         (if attempt < max_retries then trace @ [Posted req, Slept (2 ^ (attempt - 1))] else trace @ [Posted req])"
  by (auto simp: deliver_loop.simps(2) failing_def error_of_def Let_def split: reply.splits)

lemma deliver_ends:
  assumes "\<not> failing (de_reply env (length trace) req)"
  shows "snd (deliver_loop env req attempt (Suc n) prior trace) = trace @ [Posted req]"
    and "succeeding (de_reply env (length trace) req) \<Longrightarrow> \<exists>code. fst (deliver_loop env req attempt (Suc n) prior trace) =
      Some \<lparr>dl_url = po_url req, dl_status = ''delivered'', dl_code = Some code, dl_error = None, dl_attempts = attempt\<rparr>"
    and "\<not> succeeding (de_reply env (length trace) req) \<Longrightarrow> fst (deliver_loop env req attempt (Suc n) prior trace) = None"
  using assms by (auto simp: deliver_loop.simps(2) failing_def succeeding_def Let_def split: reply.splits)

definition schedule_of :: "post \<Rightarrow> net_event list" where
  "schedule_of req = [Posted req, Slept 1, Posted req, Slept 2, Posted req]"

text \<open>A delivery makes one to three attempts, one and two seconds apart, all with the same signed request: it stops at the first answer
  that is not a failure, is reported delivered just when that answer is a success, and failed only after three failures.\<close>

theorem delivery_exact:
  "\<exists>k\<in>{1, 2, 3}. let req = request_for env payload url secret; reply = (\<lambda>j. de_reply env (length trace + 2 * j) req);
      (result, trace') = deliver env url secret payload trace
    in trace' = trace @ take (2 * k - 1) (schedule_of req) \<and> list_all (\<lambda>j. failing (reply j)) [0..<k - 1] \<and>
       (if failing (reply (k - 1))
        then k = 3 \<and> result = Some \<lparr>dl_url = url, dl_status = ''failed'', dl_code = None, dl_error = Some (error_of (reply 2)), dl_attempts = 3\<rparr>
        else if succeeding (reply (k - 1))
        then \<exists>code. result = Some \<lparr>dl_url = url, dl_status = ''delivered'', dl_code = Some code, dl_error = None, dl_attempts = k\<rparr>
        else result = None)"
proof -
  define req where "req = request_for env payload url secret"
  define reply where "reply = (\<lambda>j. de_reply env (length trace + 2 * j) req)"
  have url: "po_url req = url" by (simp add: req_def request_for_def)
  have d: "deliver env url secret payload trace = deliver_loop env req 1 (Suc (Suc (Suc 0))) None trace"
    by (simp add: deliver_def req_def max_retries_def numeral_3_eq_3)
  let ?t1 = "trace @ [Posted req, Slept 1]"
  let ?t2 = "trace @ [Posted req, Slept 1, Posted req, Slept 2]"
  have r: "de_reply env (length trace) req = reply 0" "de_reply env (length ?t1) req = reply 1" "de_reply env (length ?t2) req = reply 2"
    by (simp_all add: reply_def eval_nat_numeral)
  show ?thesis
  proof (cases "failing (reply 0)")
    case False
    with deliver_ends[of env trace req 1 "Suc (Suc 0)" None] show ?thesis
      by (intro bexI[of _ 1]) (auto simp: Let_def split_def d req_def[symmetric] url schedule_of_def reply_def)
  next
    case f0: True
    then have d1: "deliver env url secret payload trace = deliver_loop env req 2 (Suc (Suc 0)) (Some (error_of (reply 0))) ?t1"
      using deliver_failing[of env trace req 1 "Suc (Suc 0)" None] unfolding d r by (simp add: max_retries_def numeral_2_eq_2)
    show ?thesis
    proof (cases "failing (reply 1)")
      case False
      with f0 deliver_ends[of env ?t1 req 2 "Suc 0" "Some (error_of (reply 0))"] show ?thesis unfolding r
        by (intro bexI[of _ 2]) (auto simp: Let_def split_def d1 req_def[symmetric] url schedule_of_def reply_def)
    next
      case f1: True
      then have d2: "deliver env url secret payload trace = deliver_loop env req 3 (Suc 0) (Some (error_of (reply 1))) ?t2"
        using deliver_failing[of env ?t1 req 2 "Suc 0" "Some (error_of (reply 0))"] unfolding d1 r by (simp add: max_retries_def)
      show ?thesis
      proof (cases "failing (reply 2)")
        case False
        with f0 f1 deliver_ends[of env ?t2 req 3 0 "Some (error_of (reply 1))"] show ?thesis unfolding r
          by (intro bexI[of _ 3]) (auto simp: Let_def split_def d2 req_def[symmetric] url schedule_of_def reply_def numeral_2_eq_2)
      next
        case f2: True
        then have "deliver env url secret payload trace = deliver_loop env req 4 0 (Some (error_of (reply 2))) (?t2 @ [Posted req])"
          using deliver_failing[of env ?t2 req 3 0 "Some (error_of (reply 1))"] unfolding d2 r by (simp add: max_retries_def)
        with f0 f1 f2 show ?thesis
          by (intro bexI[of _ 3]) (auto simp: Let_def req_def[symmetric] url schedule_of_def reply_def max_retries_def numeral_2_eq_2)
      qed
    qed
  qed
qed

lemma deliver_posts: "Posted p \<in> set (snd (deliver env url secret payload trace)) \<Longrightarrow>
    Posted p \<in> set trace \<or> p = request_for env payload url secret"
proof -
  have "Posted p \<in> set (snd (deliver_loop env req a n prior trace)) \<Longrightarrow> Posted p \<in> set trace \<or> p = req" for req a n prior trace
  proof (induction n arbitrary: a prior trace)
    case (Suc n)
    show ?case
    proof (cases "failing (de_reply env (length trace) req)")
      case True
      with Suc.prems have "Posted p \<in> set (snd (deliver_loop env req (Suc a) n (Some (error_of (de_reply env (length trace) req)))
          (if a < max_retries then trace @ [Posted req, Slept (2 ^ (a - 1))] else trace @ [Posted req])))"
        by (simp only: deliver_failing)
      from Suc.IH[OF this] show ?thesis by (auto split: if_splits)
    next
      case False
      with Suc.prems deliver_ends(1)[OF False] show ?thesis by auto
    qed
  qed simp
  then show "Posted p \<in> set (snd (deliver env url secret payload trace)) \<Longrightarrow> Posted p \<in> set trace \<or> p = request_for env payload url secret"
    unfolding deliver_def by blast
qed

text \<open>A URL that was found fit for a request at some moment.\<close>

definition fit :: "dispatch_env \<Rightarrow> string \<Rightarrow> bool" where
  "fit env url \<longleftrightarrow>
     (\<exists>moment parsed host addresses port. de_urlparse env url = Some parsed \<and> up_scheme parsed = ''https'' \<and> up_hostname parsed = Some host \<and>
        host \<noteq> [] \<and> de_resolve env moment host port = Some addresses \<and> list_all (\<lambda>a. \<not> blocked a) addresses)"

lemma validated_fit: "validate_webhook_url env moment url False = None \<Longrightarrow> fit env url"
  by (fastforce simp: validate_webhook_url_def fit_def opt_or_def find_None_iff list_all_iff split: option.splits if_splits)

lemma dispatch_posts:
  "Posted p \<in> set (snd (dispatch_all_subs env payload subs results trace)) \<Longrightarrow>
     Posted p \<in> set trace \<or> (\<exists>s\<in>set subs. covers s payload \<and> p = request_for env payload (sub_url s) (sub_secret s) \<and> fit env (sub_url s))"
proof (induction subs arbitrary: results trace)
  case (Cons s subs)
  show ?case
  proof (cases "covers s payload \<and> validate_webhook_url env (length trace) (sub_url s) False = None")
    case True
    obtain res trace1 where d: "deliver env (sub_url s) (sub_secret s) payload trace = (res, trace1)" by fastforce
    have here: "Posted p \<in> set trace1 \<Longrightarrow> Posted p \<in> set trace \<or> p = request_for env payload (sub_url s) (sub_secret s)"
      using deliver_posts[of p env "sub_url s" "sub_secret s" payload trace] d by simp
    have "Posted p \<in> set trace1 \<or> (\<exists>s\<in>set subs. covers s payload \<and> p = request_for env payload (sub_url s) (sub_secret s) \<and> fit env (sub_url s))"
      using Cons d True by (cases res) auto
    with here True validated_fit show ?thesis by fastforce
  next
    case False
    with Cons show ?thesis by (auto split: if_splits option.splits)
  qed
qed simp

text \<open>C32: The dispatcher writes only where it may: each request it makes is the signed request of a subscription that covers the event, to an
  HTTPS URL whose host resolved, when it was checked, to addresses outside the private ranges.\<close>

theorem dispatch_confined:
  assumes "Posted p \<in> set (snd (dispatch_event env payload subs))"
  shows "\<exists>s\<in>set subs. covers s payload \<and> p = request_for env payload (sub_url s) (sub_secret s) \<and> fit env (sub_url s)"
  using dispatch_posts[OF assms[unfolded dispatch_event_def]] by simp

definition demo_payload :: event_payload where
  "demo_payload = \<lparr>ep_event_type = RUN_FAILED, ep_tenant_id = ''t'', ep_timestamp = 0, ep_correlation_id = ''c'', ep_data = JNull\<rparr>"

definition demo_dispatch_env :: dispatch_env where
  "demo_dispatch_env =
     \<lparr>de_dump = (\<lambda>p. ''{}''), de_hmac = (\<lambda>s b. s), de_urlparse = (\<lambda>u. Some \<lparr>up_scheme = ''https'', up_hostname = Some u, up_port = None\<rparr>),
      de_resolve = (\<lambda>n h p. Some [if h = ''in'' then V4 (v4 10 1 2 3) else V4 (v4 8 8 8 8)]), de_reply = (\<lambda>n r. Response (200 + 300 div (n + 1)))\<rparr>"

theorem dispatch_confined_witness:
  "snd (dispatch_event demo_dispatch_env demo_payload
       [\<lparr>sub_url = ''in'', sub_secret = ''s'', sub_events = []\<rparr>, \<lparr>sub_url = ''out'', sub_secret = ''s'', sub_events = []\<rparr>]) =
     [Posted (request_for demo_dispatch_env demo_payload ''out'' ''s''), Slept 1, Posted (request_for demo_dispatch_env demo_payload ''out'' ''s''),
      Slept 2, Posted (request_for demo_dispatch_env demo_payload ''out'' ''s'')] \<and>
   fit demo_dispatch_env ''out''"
proof -
  let ?subs = "[\<lparr>sub_url = ''in'', sub_secret = ''s'', sub_events = []\<rparr>, \<lparr>sub_url = ''out'', sub_secret = ''s'', sub_events = []\<rparr>]"
  let ?req = "request_for demo_dispatch_env demo_payload ''out'' ''s''"
  have trace: "snd (dispatch_event demo_dispatch_env demo_payload ?subs) = [Posted ?req, Slept 1, Posted ?req, Slept 2, Posted ?req]" by code_simp
  then have "Posted ?req \<in> set (snd (dispatch_event demo_dispatch_env demo_payload ?subs))" by simp
  from dispatch_confined[OF this] obtain s where s: "s \<in> set ?subs" "?req = request_for demo_dispatch_env demo_payload (sub_url s) (sub_secret s)"
      "fit demo_dispatch_env (sub_url s)" by blast
  then have "sub_url s = ''out''" by (simp add: request_for_def)
  with s(3) trace show ?thesis by simp
qed

text \<open>The ranges leave out the unspecified address, the shared range 100.64.0.0/10, and the IPv4 addresses written as IPv6.\<close>

lemma unblocked_addresses:
  "\<not> blocked (V4 (v4 0 0 0 0))" "\<not> blocked (V4 (v4 100 64 0 1))" "\<not> blocked (V6 (0xffff * 2 ^ 32 + v4 127 0 0 1))" "\<not> blocked (V6 0)"
  "blocked (V4 (v4 172 31 255 255))" "\<not> blocked (V4 (v4 172 32 0 0))"
  by code_simp+

text \<open>A subscription with an empty list covers every event for the dispatcher and none for the repository.\<close>

theorem empty_list_selects_nothing:
  assumes "sb_event_types r = Some []"
  shows "r \<notin> set (list_for_event_type t e st)"
  using assms by (simp add: list_for_event_type_def)

end
