(* ===== verification/Model_Registry.thy ===== *)
theory Model_Registry
  imports Tokens Json
begin

text \<open>
  The registry of versioned ML models, \<^verbatim>\<open>ai_engine/ai_engine/ml/model_registry.py\<close>: the files of the models directory with their
  digests, the cache of loaded models, the ring buffer of predictions and the drift check. Serialisation, SHA-256, the conversion
  to a float and the stability index of numpy are parameters. Instants are microseconds.
\<close>

subsection \<open>Names and versions\<close>

text \<open>A final dollar sign of a pattern also matches before a final line feed.\<close>

definition chop_newline :: "string \<Rightarrow> string" where
  "chop_newline s = (if s \<noteq> [] \<and> last s = CHR 0x0A then butlast s else s)"

definition is_alnum :: "char \<Rightarrow> bool" where
  "is_alnum c \<longleftrightarrow> (let n = (of_char c :: nat) in 48 \<le> n \<and> n \<le> 57 \<or> 65 \<le> n \<and> n \<le> 90 \<or> 97 \<le> n \<and> n \<le> 122)"

definition plain_name :: "string \<Rightarrow> bool" where
  "plain_name s \<longleftrightarrow>
     s \<noteq> [] \<and> is_alnum (hd s) \<and> list_all (\<lambda>c. is_alnum c \<or> c = CHR ''_'' \<or> c = CHR ''-'') (tl s) \<and> length s \<le> 128"

definition valid_model_name :: "string \<Rightarrow> bool" where "valid_model_name s \<longleftrightarrow> plain_name (chop_newline s)"

definition digits_of :: "string \<Rightarrow> nat option" where
  "digits_of s = (if s \<noteq> [] \<and> list_all (\<lambda>c. digit_value c \<noteq> None) s then nat_of_text s else None)"

text \<open>\<^verbatim>\<open>\d+\.\d+\.\d+\<close>, read as numbers\<close>

definition version_numbers :: "string \<Rightarrow> (nat \<times> nat \<times> nat) option" where
  "version_numbers s =
     (case py_split CHR ''.'' s of
        [a, b, c] \<Rightarrow> (case (digits_of a, digits_of b, digits_of c) of (Some x, Some y, Some z) \<Rightarrow> Some (x, y, z) | _ \<Rightarrow> None)
      | _ \<Rightarrow> None)"

definition valid_model_version :: "string \<Rightarrow> bool" where
  "valid_model_version s \<longleftrightarrow> version_numbers (chop_newline s) \<noteq> None"

definition version_text :: "nat \<times> nat \<times> nat \<Rightarrow> string" where
  "version_text v = (case v of (a, b, c) \<Rightarrow> nat_digits a @ ''.'' @ nat_digits b @ ''.'' @ nat_digits c)"

definition model_file :: "string \<Rightarrow> string \<Rightarrow> string" where "model_file name version = name @ ''_v'' @ version @ ''.joblib''"
definition digest_file :: "string \<Rightarrow> string \<Rightarrow> string" where "digest_file name version = name @ ''_v'' @ version @ ''.sha256''"

text \<open>The version that a file name of the convention gives to a model.\<close>

definition file_version :: "string \<Rightarrow> string \<Rightarrow> (nat \<times> nat \<times> nat) option" where
  "file_version name file =
     (let file = chop_newline file
      in if name \<noteq> [] \<and> CHR 0x0A \<notin> set name \<and> starts_with (name @ ''_v'') file \<and> ends_with ''.joblib'' (drop (length name + 2) file)
         then version_numbers (take (length file - length name - 9) (drop (length name + 2) file)) else None)"

subsection \<open>State\<close>

record prediction =
  pd_model :: string
  pd_version :: string
  pd_features :: json
  pd_prediction :: json
  pd_actual :: json
  pd_recorded_at :: timestamp

record model_record =
  mr_name :: string
  mr_version :: string
  mr_loaded_at :: timestamp

text \<open>\<open>rg_files\<close> are the regular files of the directory, by name; the directory may not exist yet.\<close>

record 'm registry =
  rg_dir :: bool
  rg_files :: "(string \<times> string) list"
  rg_cache :: "((string \<times> string) \<times> 'm \<times> timestamp) list"
  rg_records :: "((string \<times> string) \<times> model_record) list"
  rg_active :: "(string \<times> string) list"
  rg_predictions :: "(string \<times> prediction list) list"
  rg_warned :: "string list"

record 'm registry_env =
  re_dump :: "'m \<Rightarrow> string"
  re_load :: "string \<Rightarrow> 'm"
  re_sha256 :: "string \<Rightarrow> string"
  re_float :: "json \<Rightarrow> rat option"
  re_psi :: "rat list \<Rightarrow> rat list \<Rightarrow> rat"

datatype registry_error =
  InvalidName | InvalidVersion | NoVersions | ModelFileNotFound | DigestMissing | DigestMismatch | NotAscii

definition max_prediction_records :: nat where "max_prediction_records = 10000"
definition psi_min_records :: nat where "psi_min_records = 100"
definition psi_window :: nat where "psi_window = 500"
definition cache_ttl :: int where "cache_ttl = 3600 * microseconds_per_second"

subsection \<open>Files\<close>

definition scan_versions :: "string \<Rightarrow> 'm registry \<Rightarrow> string list" where
  "scan_versions name rg =
     (if \<not> rg_dir rg then []
      else map version_text (sort (concat (map (\<lambda>(f, _). case file_version name f of None \<Rightarrow> [] | Some v \<Rightarrow> [v]) (rg_files rg)))))"

definition resolve_latest :: "string \<Rightarrow> 'm registry \<Rightarrow> registry_error + string" where
  "resolve_latest name rg = (let available = scan_versions name rg in if available = [] then Inl NoVersions else Inr (last available))"

text \<open>
  A load looks at the directory several times, and others may write to it in between: the scan for the latest version, whether the model
  and its digest exist, the text of the digest, the content that is hashed, and the content that joblib loads. A file that has gone at a
  later look raises the same error as a model that is not found.
\<close>

record dir_looks =
  dl_scan :: "(string \<times> string) list"
  dl_exists :: "(string \<times> string) list"
  dl_digest_exists :: "(string \<times> string) list"
  dl_digest :: "(string \<times> string) list"
  dl_hash :: "(string \<times> string) list"
  dl_load :: "(string \<times> string) list"

definition undisturbed :: "(string \<times> string) list \<Rightarrow> dir_looks" where
  "undisturbed files =
     \<lparr>dl_scan = files, dl_exists = files, dl_digest_exists = files, dl_digest = files, dl_hash = files, dl_load = files\<rparr>"

definition verify_model_file :: "'m registry_env \<Rightarrow> dir_looks \<Rightarrow> string \<Rightarrow> string \<Rightarrow> registry_error option" where
  "verify_model_file env d name version =
     (if map_of (dl_digest_exists d) (digest_file name version) = None then Some DigestMissing
      else case map_of (dl_digest d) (digest_file name version) of
        None \<Rightarrow> Some ModelFileNotFound
      | Some text \<Rightarrow> (case map_of (dl_hash d) (model_file name version) of
          None \<Rightarrow> Some ModelFileNotFound
        | Some content \<Rightarrow>
            (let expected = py_lower (py_strip text); actual = re_sha256 env content
             in if \<not> (is_ascii expected \<and> is_ascii actual) then Some NotAscii
                else if expected \<noteq> actual then Some DigestMismatch else None)))"

definition save_model :: "'m registry_env \<Rightarrow> 'm \<Rightarrow> string \<Rightarrow> string \<Rightarrow> 'm registry \<Rightarrow> (registry_error + string) \<times> 'm registry" where
  "save_model env model name version rg =
     (if \<not> valid_model_name name then (Inl InvalidName, rg)
      else if \<not> valid_model_version version then (Inl InvalidVersion, rg)
      else (Inr (model_file name version),
            rg\<lparr>rg_dir := True,
               rg_files := dict_set (dict_set (rg_files rg) (model_file name version) (re_dump env model))
                 (digest_file name version) (re_sha256 env (re_dump env model))\<rparr>))"

subsection \<open>Loading\<close>

text \<open>Reading the file: it is verified, and then opened again and deserialised, and cached. \<open>later\<close> is the instant of the entry.\<close>

definition read_model ::
  "'m registry_env \<Rightarrow> dir_looks \<Rightarrow> timestamp \<Rightarrow> string \<Rightarrow> string \<Rightarrow> 'm registry \<Rightarrow> (registry_error + 'm) \<times> 'm registry" where
  "read_model env d later name version rg =
     (if map_of (dl_exists d) (model_file name version) = None then (Inl ModelFileNotFound, rg)
      else case verify_model_file env d name version of
        Some e \<Rightarrow> (Inl e, rg)
      | None \<Rightarrow> (case map_of (dl_load d) (model_file name version) of
          None \<Rightarrow> (Inl ModelFileNotFound, rg)
        | Some content \<Rightarrow> (Inr (re_load env content),
            rg\<lparr>rg_cache := dict_set (rg_cache rg) (name, version) (re_load env content, later),
               rg_records := dict_set (rg_records rg) (name, version) \<lparr>mr_name = name, mr_version = version, mr_loaded_at = later\<rparr>,
               rg_active := dict_set (rg_active rg) name version\<rparr>)))"

text \<open>Once the version is known: the cache, unless the entry has expired.\<close>

definition load_version ::
  "'m registry_env \<Rightarrow> dir_looks \<Rightarrow> timestamp \<Rightarrow> timestamp \<Rightarrow> string \<Rightarrow> string \<Rightarrow> 'm registry \<Rightarrow> (registry_error + 'm) \<times> 'm registry" where
  "load_version env d now later name version rg =
     (case map_of (rg_cache rg) (name, version) of
        None \<Rightarrow> read_model env d later name version rg
      | Some (model, loaded_at) \<Rightarrow>
          if now - loaded_at \<le> cache_ttl then (Inr model, rg)
          else read_model env d later name version (rg\<lparr>rg_cache := dict_del (rg_cache rg) (name, version)\<rparr>))"

definition load_model_amid ::
  "'m registry_env \<Rightarrow> dir_looks \<Rightarrow> timestamp \<Rightarrow> timestamp \<Rightarrow> string \<Rightarrow> string option \<Rightarrow> 'm registry \<Rightarrow> (registry_error + 'm) \<times> 'm registry" where
  "load_model_amid env d now later name version rg =
     (if \<not> valid_model_name name then (Inl InvalidName, rg)
      else case version of
        Some v \<Rightarrow> if \<not> valid_model_version v then (Inl InvalidVersion, rg) else load_version env d now later name v rg
      | None \<Rightarrow> (case resolve_latest name (rg\<lparr>rg_files := dl_scan d\<rparr>) of
          Inl e \<Rightarrow> (Inl e, rg) | Inr v \<Rightarrow> load_version env d now later name v rg))"

text \<open>A load that nobody disturbs, at one instant.\<close>

definition load_model :: "'m registry_env \<Rightarrow> timestamp \<Rightarrow> string \<Rightarrow> string option \<Rightarrow> 'm registry \<Rightarrow> (registry_error + 'm) \<times> 'm registry" where
  "load_model env now name version rg = load_model_amid env (undisturbed (rg_files rg)) now now name version rg"

definition reload :: "string \<Rightarrow> 'm registry \<Rightarrow> 'm registry" where
  "reload name rg =
     (let drops = filter (\<lambda>k. fst k = name) (map fst (rg_cache rg))
      in rg\<lparr>rg_cache := filter (\<lambda>(k, _). fst k \<noteq> name) (rg_cache rg),
            rg_records := filter (\<lambda>(k, _). k \<notin> set drops) (rg_records rg),
            rg_active := dict_del (rg_active rg) name, rg_warned := filter (\<lambda>n. n \<noteq> name) (rg_warned rg)\<rparr>)"

definition loaded_models :: "'m registry \<Rightarrow> model_record list" where "loaded_models rg = map snd (rg_records rg)"

subsection \<open>Predictions\<close>

definition current_version :: "string \<Rightarrow> 'm registry \<Rightarrow> string" where
  "current_version name rg = (case map_of (rg_active rg) name of None \<Rightarrow> ''unknown'' | Some v \<Rightarrow> v)"

definition buffer_of :: "string \<Rightarrow> 'm registry \<Rightarrow> prediction list" where
  "buffer_of name rg = (case map_of (rg_predictions rg) name of None \<Rightarrow> [] | Some ps \<Rightarrow> ps)"

text \<open>Appending to a full ring drops its oldest entry.\<close>

definition ring_append :: "nat \<Rightarrow> 'a \<Rightarrow> 'a list \<Rightarrow> 'a list" where
  "ring_append n x xs = (let ys = xs @ [x] in drop (length ys - n) ys)"

definition record_prediction :: "timestamp \<Rightarrow> string \<Rightarrow> json \<Rightarrow> json \<Rightarrow> json \<Rightarrow> 'm registry \<Rightarrow> 'm registry" where
  "record_prediction now name features prediction actual rg =
     (let buf = buffer_of name rg;
          rec = \<lparr>pd_model = name, pd_version = current_version name rg, pd_features = features, pd_prediction = prediction,
                 pd_actual = actual, pd_recorded_at = now\<rparr>
      in rg\<lparr>rg_predictions := dict_set (rg_predictions rg) name (ring_append max_prediction_records rec buf),
            rg_warned := (if length buf = max_prediction_records \<and> name \<notin> set (rg_warned rg) then name # rg_warned rg else rg_warned rg)\<rparr>)"

subsection \<open>Drift\<close>

datatype drift_status = Stable | Warning | Drift | InsufficientData

record drift_report =
  dp_model :: string
  dp_status :: drift_status
  dp_psi :: "rat option"
  dp_sample_size :: nat

definition numeric_predictions :: "'m registry_env \<Rightarrow> prediction list \<Rightarrow> rat list" where
  "numeric_predictions env ps = concat (map (\<lambda>p. case re_float env (pd_prediction p) of None \<Rightarrow> [] | Some x \<Rightarrow> [x]) ps)"

definition baseline_window :: "prediction list \<Rightarrow> prediction list" where "baseline_window ps = take psi_window ps"
definition recent_window :: "prediction list \<Rightarrow> prediction list" where "recent_window ps = drop (length ps - psi_window) ps"

definition drift_check :: "'m registry_env \<Rightarrow> string \<Rightarrow> 'm registry \<Rightarrow> drift_report" where
  "drift_check env name rg =
     (let records = buffer_of name rg; total = length records
      in if total < psi_min_records then \<lparr>dp_model = name, dp_status = InsufficientData, dp_psi = None, dp_sample_size = total\<rparr>
         else let baseline_values = numeric_predictions env (baseline_window records);
                  recent_values = numeric_predictions env (recent_window records)
              in if baseline_values = [] \<or> recent_values = []
                 then \<lparr>dp_model = name, dp_status = InsufficientData, dp_psi = None, dp_sample_size = total\<rparr>
                 else let psi = re_psi env baseline_values recent_values
                      in \<lparr>dp_model = name, dp_status = (if psi < 1 / 10 then Stable else if psi < 2 / 10 then Warning else Drift),
                          dp_psi = Some psi, dp_sample_size = total\<rparr>)"

subsection \<open>What is handed out\<close>

text \<open>The version that a call asks for, and whether the cache answers.\<close>

definition asks_for :: "dir_looks \<Rightarrow> string \<Rightarrow> string option \<Rightarrow> 'm registry \<Rightarrow> string \<Rightarrow> bool" where
  "asks_for d name version rg v \<longleftrightarrow> version = Some v \<or> version = None \<and> resolve_latest name (rg\<lparr>rg_files := dl_scan d\<rparr>) = Inr v"

definition cache_answers :: "timestamp \<Rightarrow> 'm registry \<Rightarrow> string \<Rightarrow> string \<Rightarrow> bool" where
  "cache_answers now rg name v \<longleftrightarrow> (\<exists>m t. map_of (rg_cache rg) (name, v) = Some (m, t) \<and> now - t \<le> cache_ttl)"

text \<open>The file of a version had the digest beside it when it was hashed, and holds this model; or held it when it was opened again.\<close>

definition digest_matched :: "'m registry_env \<Rightarrow> dir_looks \<Rightarrow> string \<Rightarrow> string \<Rightarrow> bool" where
  "digest_matched env d name version \<longleftrightarrow>
     (\<exists>content text. map_of (dl_hash d) (model_file name version) = Some content \<and> map_of (dl_digest d) (digest_file name version) = Some text \<and>
        py_lower (py_strip text) = re_sha256 env content)"

definition holds_model :: "'m registry_env \<Rightarrow> (string \<times> string) list \<Rightarrow> string \<Rightarrow> string \<Rightarrow> 'm \<Rightarrow> bool" where
  "holds_model env files name version model \<longleftrightarrow> (\<exists>content. map_of files (model_file name version) = Some content \<and> model = re_load env content)"

text \<open>
  A registry in use, with a record of what was read, when, and with which looks at the directory: the directory changes at will, by \<open>save_model\<close> or
  by others, also during a load, models are loaded and reloaded, predictions recorded.
\<close>

inductive registry_run :: "'m registry_env \<Rightarrow> 'm registry \<Rightarrow> (string \<times> string \<times> 'm \<times> timestamp \<times> dir_looks) set \<Rightarrow> bool" for env where
  fresh: "rg_cache rg = [] \<Longrightarrow> registry_run env rg {}"
| files: "registry_run env rg W \<Longrightarrow> registry_run env (rg\<lparr>rg_files := fs, rg_dir := d\<rparr>) W"
| load: "registry_run env rg W \<Longrightarrow> load_model_amid env d now later name version rg = (r, rg') \<Longrightarrow>
    registry_run env rg' (W \<union> {(name, v, m, later, d) | v m. asks_for d name version rg v \<and> r = Inr m \<and> \<not> cache_answers now rg name v})"
| reload: "registry_run env rg W \<Longrightarrow> registry_run env (reload name rg) W"
| predict: "registry_run env rg W \<Longrightarrow> registry_run env (record_prediction now name f p a rg) W"

lemma map_of_dict_del_Some: "map_of (dict_del d k) k' = Some v \<Longrightarrow> map_of d k' = Some v"
  by (simp split: if_splits)

lemma map_of_filter_fst: "map_of (filter (\<lambda>(k, _). P k) d) k' = (if P k' then map_of d k' else None)"
  by (induction d) auto

lemma map_of_filter_Some: "map_of (filter (\<lambda>(k, _). P k) d) k' = Some v \<Longrightarrow> map_of d k' = Some v"
  by (simp add: map_of_filter_fst split: if_splits)

lemma read_model_Inr:
  assumes "read_model env d later name version rg = (Inr m, rg')"
  shows "digest_matched env d name version" "holds_model env (dl_load d) name version m"
    "rg_cache rg' = dict_set (rg_cache rg) (name, version) (m, later)"
  using assms by (auto simp: read_model_def verify_model_file_def digest_matched_def holds_model_def Let_def split: option.splits if_splits)

lemma read_model_Inl: "read_model env d later name version rg = (Inl e, rg') \<Longrightarrow> rg' = rg"
  by (auto simp: read_model_def split: option.splits if_splits)

lemma load_version_hit:
  assumes "load_version env d now later name version rg = (r, rg')" "cache_answers now rg name version"
  obtains m t where "r = Inr m" "rg' = rg" "map_of (rg_cache rg) (name, version) = Some (m, t)" "now - t \<le> cache_ttl"
  using assms by (auto simp: load_version_def cache_answers_def)

lemma load_version_miss:
  assumes "load_version env d now later name version rg = (r, rg')" "\<not> cache_answers now rg name version"
  obtains c where "read_model env d later name version (rg\<lparr>rg_cache := c\<rparr>) = (r, rg')" "\<forall>k e. map_of c k = Some e \<longrightarrow> map_of (rg_cache rg) k = Some e"
proof (cases "map_of (rg_cache rg) (name, version)")
  case None
  with assms(1) have "read_model env d later name version (rg\<lparr>rg_cache := rg_cache rg\<rparr>) = (r, rg')" by (simp add: load_version_def)
  then show ?thesis by (rule that) simp
next
  case (Some q)
  with assms have "read_model env d later name version (rg\<lparr>rg_cache := dict_del (rg_cache rg) (name, version)\<rparr>) = (r, rg')"
    by (cases q) (auto simp: load_version_def cache_answers_def)
  then show ?thesis by (rule that) (blast dest: map_of_dict_del_Some)
qed

lemma load_model_cases:
  assumes "load_model_amid env d now later name version rg = (r, rg')"
  obtains e where "r = Inl e" "rg' = rg" | v where "load_version env d now later name v rg = (r, rg')" "asks_for d name version rg v"
  using assms by (auto simp: load_model_amid_def asks_for_def split: if_splits option.splits sum.splits)

lemma load_cache:
  assumes "load_model_amid env d now later name version rg = (r, rg')" "map_of (rg_cache rg') k = Some e"
  shows "map_of (rg_cache rg) k = Some e \<or>
    (\<exists>v m. k = (name, v) \<and> e = (m, later) \<and> r = Inr m \<and> asks_for d name version rg v \<and> \<not> cache_answers now rg name v)"
  using assms(1)
proof (cases rule: load_model_cases)
  case (2 v)
  show ?thesis
  proof (cases "cache_answers now rg name v")
    case True
    from load_version_hit[OF 2(1) True] assms(2) show ?thesis by metis
  next
    case False
    from load_version_miss[OF 2(1) False] obtain c where c: "read_model env d later name v (rg\<lparr>rg_cache := c\<rparr>) = (r, rg')"
      "\<forall>k e. map_of c k = Some e \<longrightarrow> map_of (rg_cache rg) k = Some e" .
    show ?thesis
    proof (cases r)
      case (Inl x)
      with read_model_Inl[of env d later name v "rg\<lparr>rg_cache := c\<rparr>"] c(1) have "rg' = rg\<lparr>rg_cache := c\<rparr>" by simp
      with assms(2) have "map_of c k = Some e" by simp
      with c(2) show ?thesis by blast
    next
      case (Inr m)
      with read_model_Inr(3)[of env d later name v "rg\<lparr>rg_cache := c\<rparr>" m rg'] c(1)
      have set: "rg_cache rg' = dict_set c (name, v) (m, later)" by simp
      show ?thesis
      proof (cases "k = (name, v)")
        case True
        with set assms(2) have "e = (m, later)" by simp
        with True Inr 2(2) False show ?thesis by blast
      next
        case other: False
        with set assms(2) have "map_of c k = Some e" by simp
        with c(2) show ?thesis by blast
      qed
    qed
  qed
qed (use assms(2) in simp)

lemma registry_run_cache:
  assumes "registry_run env rg W" "map_of (rg_cache rg) (n, v) = Some (m, t)"
  shows "\<exists>d. (n, v, m, t, d) \<in> W"
  using assms
proof (induction arbitrary: n v m t rule: registry_run.induct)
  case (load rg W d now later name version r rg')
  from load_cache[OF load.hyps(2) load.prems] show ?case
  proof
    assume "map_of (rg_cache rg) (n, v) = Some (m, t)"
    from load.IH[OF this] show ?thesis by blast
  qed auto
next
  case (reload rg W name)
  then have "map_of (filter (\<lambda>(k, _). fst k \<noteq> name) (rg_cache rg)) (n, v) = Some (m, t)" by (simp add: reload_def Let_def)
  from map_of_filter_Some[OF this] reload.IH show ?case by blast
qed (auto simp: record_prediction_def Let_def)

lemma asks_for_unique: "asks_for d name version rg v \<Longrightarrow> asks_for d name version rg v' \<Longrightarrow> v = v'"
  by (auto simp: asks_for_def)

lemma loaded_or_cached:
  assumes "load_model_amid env d now later name version rg = (Inr m, rg')"
  obtains v where "asks_for d name version rg v" "cache_answers now rg name v" "rg' = rg"
      "\<exists>t. map_of (rg_cache rg) (name, v) = Some (m, t) \<and> now - t \<le> cache_ttl"
    | v where "asks_for d name version rg v" "\<not> cache_answers now rg name v" "digest_matched env d name v" "holds_model env (dl_load d) name v m"
  using assms
proof (cases rule: load_model_cases)
  case (2 v)
  show ?thesis
  proof (cases "cache_answers now rg name v")
    case True
    from load_version_hit[OF 2(1) True] obtain t where "rg' = rg" "map_of (rg_cache rg) (name, v) = Some (m, t)" "now - t \<le> cache_ttl" by auto
    then show ?thesis by (intro that(1)[OF 2(2) True]) auto
  next
    case False
    from load_version_miss[OF 2(1) False] obtain c where "read_model env d later name v (rg\<lparr>rg_cache := c\<rparr>) = (Inr m, rg')" .
    from read_model_Inr(1,2)[OF this] show ?thesis by (rule that(2)[OF 2(2) False])
  qed
qed simp

lemma registry_run_read:
  assumes "registry_run env rg W" "(n, v, m, t, d) \<in> W"
  shows "digest_matched env d n v \<and> holds_model env (dl_load d) n v m"
  using assms
proof (induction arbitrary: n v m t d rule: registry_run.induct)
  case (load rg W d' now later name version r rg')
  show ?case
  proof (cases "(n, v, m, t, d) \<in> W")
    case False
    with load.prems have new: "n = name" "d = d'" "asks_for d' name version rg v" "r = Inr m" "\<not> cache_answers now rg name v" by auto
    from load.hyps(2)[unfolded new(4)] show ?thesis
    proof (cases rule: loaded_or_cached)
      case (1 u)
      from 1(2)[unfolded asks_for_unique[OF 1(1) new(3)]] new(5) show ?thesis by (rule notE[rotated])
    next
      case (2 u)
      then show ?thesis unfolding new(1,2) asks_for_unique[OF 2(1) new(3)] by blast
    qed
  qed (rule load.IH)
qed auto

text \<open>C33: No model is handed out whose check failed: whatever happens to the directory, also during the call, each model that loading returns was
  deserialised by this call or by one that filled the cache at most an hour before, and in that call the content that was hashed had the
  digest beside it. The file is opened again to load it; where it is the same as when it was hashed, the model is that of the
  verified content (and where it was swapped in between, it is not: \<open>swapped_model_is_loaded\<close>).\<close>

theorem loads_only_verified:
  assumes "registry_run env rg W" and "load_model_amid env d now later name version rg = (Inr m, rg')"
  shows "\<exists>v d'. asks_for d name version rg v \<and>
     (d' = d \<and> \<not> cache_answers now rg name v \<or> (\<exists>t. (name, v, m, t, d') \<in> W \<and> now - t \<le> cache_ttl)) \<and>
     digest_matched env d' name v \<and> holds_model env (dl_load d') name v m \<and>
     (map_of (dl_load d') (model_file name v) = map_of (dl_hash d') (model_file name v) \<longrightarrow> holds_model env (dl_hash d') name v m)"
  using assms(2)
proof (cases rule: loaded_or_cached)
  case (1 v)
  from 1(4) obtain t where t: "map_of (rg_cache rg) (name, v) = Some (m, t)" "now - t \<le> cache_ttl" by blast
  from registry_run_cache[OF assms(1) t(1)] obtain d' where "(name, v, m, t, d') \<in> W" ..
  with 1(1) t(2) registry_run_read[OF assms(1) this] show ?thesis by (intro exI[of _ v] exI[of _ d']) (auto simp: holds_model_def)
next
  case (2 v)
  then show ?thesis by (intro exI[of _ v] exI[of _ d]) (auto simp: holds_model_def)
qed

text \<open>A file that is swapped after it was hashed and before it is loaded is handed out, and cached, whatever it holds.\<close>

theorem swapped_model_is_loaded:
  assumes "valid_model_name name" "valid_model_version v" "\<not> cache_answers now rg name v" "verify_model_file env d name v = None"
    and "map_of (dl_exists d) (model_file name v) \<noteq> None" "map_of (dl_load d) (model_file name v) = Some swapped"
  shows "fst (load_model_amid env d now later name (Some v) rg) = Inr (re_load env swapped)"
proof -
  have "fst (load_version env d now later name v rg) = Inr (re_load env swapped)"
    using assms(3-6) by (auto simp: load_version_def cache_answers_def read_model_def split: option.splits)
  then show ?thesis using assms(1,2) by (simp add: load_model_amid_def)
qed

subsection \<open>Versions read back\<close>

lemma digit_shown: "c \<in> set (nat_digits n) \<Longrightarrow> digit_value c \<noteq> None"
  using digits_no_space[of c n] digit_value_digit by (metis option.distinct(1))

lemma digits_of_digits: "digits_of (nat_digits n) = Some n"
  using digit_shown[of _ n] nat_digits_ne[of n] nat_of_digits[of n] by (auto simp: digits_of_def list_all_iff)

lemma not_in_digits: "digit_value c = None \<Longrightarrow> c \<notin> set (nat_digits n)"
  using digit_shown by blast

lemma version_numbers_text: "version_numbers (version_text v) = Some v"
proof -
  obtain a b c where v: "v = (a, b, c)" by (cases v)
  have dot: "CHR ''.'' \<notin> set (nat_digits n)" for n by (rule not_in_digits) code_simp
  have "py_split CHR ''.'' (version_text v) = [nat_digits a, nat_digits b, nat_digits c]"
    using py_split_append[OF dot[of a]] py_split_append[OF dot[of b]] py_split_none[OF dot[of c]]
    by (simp add: version_text_def v)
  then show ?thesis by (simp add: version_numbers_def digits_of_digits v)
qed

lemma chop_newline_id: "s \<noteq> [] \<Longrightarrow> last s \<noteq> CHR 0x0A \<Longrightarrow> chop_newline s = s"
  by (simp add: chop_newline_def)

lemma version_text_last: "version_text v \<noteq> [] \<and> last (version_text v) \<noteq> CHR 0x0A"
proof -
  obtain a b c where v: "v = (a, b, c)" by (cases v)
  have "CHR 0x0A \<notin> set (nat_digits c)" by (rule not_in_digits) code_simp
  moreover have "last (nat_digits c) \<in> set (nat_digits c)" using nat_digits_ne by simp
  ultimately have "last (nat_digits c) \<noteq> CHR 0x0A" by metis
  then show ?thesis using nat_digits_ne[of c] by (simp add: version_text_def v)
qed

lemma valid_version_text: "valid_model_version (version_text v)"
  using version_text_last[of v] by (simp add: valid_model_version_def chop_newline_id version_numbers_text)

lemma file_version_model:
  assumes "name \<noteq> []" "CHR 0x0A \<notin> set name"
  shows "file_version name (model_file name (version_text v)) = Some v"
proof -
  have "chop_newline (model_file name (version_text v)) = model_file name (version_text v)"
    by (rule chop_newline_id) (simp_all add: model_file_def)
  with assms show ?thesis
    by (simp add: file_version_def model_file_def Let_def starts_with_def ends_with_def version_numbers_text)
qed

lemma file_version_digest: "file_version name (digest_file name version) = None"
proof -
  have "chop_newline (digest_file name version) = digest_file name version" by (rule chop_newline_id) (simp_all add: digest_file_def)
  moreover have "\<not> ends_with ''.joblib'' (drop (length name + 2) (digest_file name version))"
  proof
    assume "ends_with ''.joblib'' (drop (length name + 2) (digest_file name version))"
    then have "ends_with ''.joblib'' (version @ ''.sha256'')" by (simp add: digest_file_def)
    then have "last ''.joblib'' = last (version @ ''.sha256'')" unfolding ends_with_def
      by (metis append_is_Nil_conv last_drop list.distinct(1) drop_eq_Nil linorder_not_less length_0_conv order_less_le)
    then show False by simp
  qed
  ultimately show ?thesis by (auto simp: file_version_def Let_def)
qed

lemma last_sort_max:
  fixes n :: "'a::linorder" assumes "n \<in> set xs" "\<forall>x\<in>set xs. x \<le> n" shows "last (sort xs) = n"
proof -
  have ne: "sort xs \<noteq> []" using assms(1) by (metis empty_iff list.set(1) set_sort)
  then obtain ys y where s: "sort xs = ys @ [y]" by (metis append_butlast_last_id)
  have "y \<le> n" using assms(2) s by (metis in_set_conv_decomp set_sort)
  have "sorted (ys @ [y])" using sorted_sort[of xs] s by simp
  then have "\<forall>z\<in>set ys. z \<le> y" by (simp add: sorted_append)
  moreover have "n \<in> set (ys @ [y])" unfolding s[symmetric] set_sort by (rule assms(1))
  ultimately have "n \<le> y" by auto
  with \<open>y \<le> n\<close> show ?thesis by (simp add: s)
qed

lemma scan_set:
  "set (concat (map (\<lambda>(f, _). case file_version name f of None \<Rightarrow> [] | Some v \<Rightarrow> [v]) fs)) =
     {v. \<exists>f\<in>fst ` set fs. file_version name f = Some v}"
  by (induction fs) (auto split: option.splits)

lemma resolve_latest_max:
  assumes "rg_dir rg" "\<exists>f\<in>fst ` set (rg_files rg). file_version name f = Some n"
    and "\<forall>f\<in>fst ` set (rg_files rg). \<forall>v. file_version name f = Some v \<longrightarrow> v \<le> n"
  shows "resolve_latest name rg = Inr (version_text n)"
proof -
  define L where "L = concat (map (\<lambda>(f, _). case file_version name f of None \<Rightarrow> [] | Some v \<Rightarrow> [v]) (rg_files rg))"
  have L: "set L = {v. \<exists>f\<in>fst ` set (rg_files rg). file_version name f = Some v}"
    unfolding L_def by (rule scan_set)
  have "n \<in> set L" "\<forall>v\<in>set L. v \<le> n" using assms(2,3) unfolding L by blast+
  from last_sort_max[OF this] have "last (sort L) = n" .
  moreover have "sort L \<noteq> []" using \<open>n \<in> set L\<close> by (metis empty_iff list.set(1) set_sort)
  ultimately show ?thesis by (simp add: resolve_latest_def scan_versions_def assms(1) L_def[symmetric] Let_def last_map)
qed

text \<open>C34: A saved model comes back: after saving a model under a version above all others, loading the latest version and loading that version
  both give the model itself, unless an older copy of the version is still cached.\<close>

theorem saved_model_is_latest:
  assumes "save_model env m name (version_text n) rg = (Inr path, rg')" "CHR 0x0A \<notin> set name"
    and "\<forall>f\<in>fst ` set (rg_files rg). \<forall>v. file_version name f = Some v \<longrightarrow> v \<le> n"
    and "map_of (rg_cache rg) (name, version_text n) = None"
    and "re_load env (re_dump env m) = m" "\<forall>c. is_ascii (re_sha256 env c) \<and> py_lower (py_strip (re_sha256 env c)) = re_sha256 env c"
  shows "fst (load_model env now name None rg') = Inr m \<and> fst (load_model env now name (Some (version_text n)) rg') = Inr m"
proof -
  have name: "valid_model_name name" and rg': "rg' = rg\<lparr>rg_dir := True, rg_files := dict_set (dict_set (rg_files rg)
      (model_file name (version_text n)) (re_dump env m)) (digest_file name (version_text n)) (re_sha256 env (re_dump env m))\<rparr>"
    using assms(1) by (auto simp: save_model_def split: if_splits)
  have ne: "name \<noteq> []" using name by (auto simp: valid_model_name_def plain_name_def chop_newline_def split: if_splits)
  have "model_file name (version_text n) \<noteq> digest_file name (version_text n)" by (simp add: model_file_def digest_file_def)
  then have files: "map_of (rg_files rg') (model_file name (version_text n)) = Some (re_dump env m)"
      "map_of (rg_files rg') (digest_file name (version_text n)) = Some (re_sha256 env (re_dump env m))"
    by (simp_all add: rg')
  have "fst (load_version env (undisturbed (rg_files rg')) now now name (version_text n) rg') = Inr m"
    using files assms(4-6) by (simp add: load_version_def read_model_def verify_model_file_def undisturbed_def rg')
  moreover have "resolve_latest name rg' = Inr (version_text n)"
    using assms(3) file_version_model[OF ne assms(2)] file_version_digest
    by (intro resolve_latest_max) (auto simp: rg')
  ultimately show ?thesis using name valid_version_text
    by (simp add: load_model_def load_model_amid_def undisturbed_def)
qed

subsection \<open>Predictions and drift\<close>

lemma buffer_record: "buffer_of name (record_prediction now m f p a rg) =
    (if name = m then ring_append max_prediction_records
       \<lparr>pd_model = m, pd_version = current_version m rg, pd_features = f, pd_prediction = p, pd_actual = a, pd_recorded_at = now\<rparr> (buffer_of m rg)
     else buffer_of name rg)"
  by (simp add: record_prediction_def buffer_of_def Let_def)

text \<open>The buffer holds the last ten thousand predictions, and no more.\<close>

lemma ring_append_last: "0 < n \<Longrightarrow> ring_append n x xs \<noteq> [] \<and> last (ring_append n x xs) = x \<and> length (ring_append n x xs) = min n (Suc (length xs))"
  by (auto simp: ring_append_def Let_def)

text \<open>Drift goes unnoticed at first: from the hundredth to the five hundredth prediction the baseline and the recent window are the same
  predictions, so a check reports a stable distribution whatever was predicted, or no numbers at all.\<close>

theorem early_drift_invisible:
  assumes "length (buffer_of name rg) \<le> psi_window" and "\<forall>v. re_psi env v v = 0"
  shows "dp_status (drift_check env name rg) \<in> {Stable, InsufficientData} \<and>
    dp_psi (drift_check env name rg) \<in> {None, Some 0}"
proof -
  have "baseline_window (buffer_of name rg) = buffer_of name rg" "recent_window (buffer_of name rg) = buffer_of name rg"
    using assms(1) by (simp_all add: baseline_window_def recent_window_def)
  with assms(2) show ?thesis by (simp add: drift_check_def Let_def)
qed

text \<open>A model that the cache answers does not become the active one, so predictions made with it carry the version loaded before.\<close>

theorem cached_load_not_attributed:
  assumes "valid_model_name name" "valid_model_version v" "map_of (rg_cache rg) (name, v) = Some (m, t)" "now - t \<le> cache_ttl"
    and "map_of (rg_active rg) name = Some other" "load_model env now name (Some v) rg = (r, rg')"
  shows "r = Inr m \<and> pd_version (last (buffer_of name (record_prediction later name f p a rg'))) = other"
proof -
  have "r = Inr m" "rg' = rg" using assms by (auto simp: load_model_def load_model_amid_def load_version_def)
  then show ?thesis using assms(5) by (simp add: buffer_record current_version_def ring_append_last max_prediction_records_def)
qed

subsection \<open>Examples\<close>

definition demo_registry_env :: "string registry_env" where
  "demo_registry_env =
     \<lparr>re_dump = (\<lambda>m. m), re_load = (\<lambda>c. c), re_sha256 = (\<lambda>c. ''abcdef''), re_float = (\<lambda>j. case j of JInt i \<Rightarrow> Some (of_int i) | _ \<Rightarrow> None),
      re_psi = (\<lambda>v w. if v = w then 0 else 1)\<rparr>"

definition empty_registry :: "string registry" where
  "empty_registry = \<lparr>rg_dir = False, rg_files = [], rg_cache = [], rg_records = [], rg_active = [], rg_predictions = [], rg_warned = []\<rparr>"

definition with_model :: "string registry" where
  "with_model = snd (save_model demo_registry_env ''weights'' ''cost_model'' ''1.2.0'' empty_registry)"

text \<open>A version with a leading zero is saved and listed without it, and then its file is not found.\<close>

lemma padded_version_lost:
  "let rg = snd (save_model demo_registry_env ''weights'' ''cost_model'' ''01.2.0'' empty_registry)
   in scan_versions ''cost_model'' rg = [''1.2.0''] \<and> fst (load_model demo_registry_env 0 ''cost_model'' None rg) = Inl ModelFileNotFound"
  by code_simp

theorem loads_only_verified_witness:
  "\<exists>v. asks_for (undisturbed (rg_files with_model)) ''cost_model'' None with_model v \<and>
     digest_matched demo_registry_env (undisturbed (rg_files with_model)) ''cost_model'' v \<and>
     holds_model demo_registry_env (rg_files with_model) ''cost_model'' v ''weights''"
proof -
  have cache: "rg_cache with_model = []" by code_simp
  have "fst (load_model_amid demo_registry_env (undisturbed (rg_files with_model)) 0 1 ''cost_model'' None with_model) = Inr ''weights''"
    by code_simp
  then obtain rg' where "load_model_amid demo_registry_env (undisturbed (rg_files with_model)) 0 1 ''cost_model'' None with_model = (Inr ''weights'', rg')"
    by (metis prod.collapse)
  from loads_only_verified[OF registry_run.fresh[OF cache] this] show ?thesis by (auto simp: undisturbed_def)
qed

text \<open>The model file is replaced between the digest check and the load.\<close>

theorem swapped_model_is_loaded_witness:
  "fst (load_model_amid demo_registry_env
     ((undisturbed (rg_files with_model))\<lparr>dl_load := [(''cost_model_v1.2.0.joblib'', ''payload'')]\<rparr>) 0 1 ''cost_model'' (Some ''1.2.0'') with_model) =
   Inr ''payload''"
proof -
  let ?d = "(undisturbed (rg_files with_model))\<lparr>dl_load := [(''cost_model_v1.2.0.joblib'', ''payload'')]\<rparr>"
  have "rg_cache with_model = []" by code_simp
  then have "\<not> cache_answers 0 with_model ''cost_model'' ''1.2.0''" by (simp add: cache_answers_def)
  moreover have "valid_model_name ''cost_model''" "valid_model_version ''1.2.0''" by code_simp+
  moreover have "verify_model_file demo_registry_env ?d ''cost_model'' ''1.2.0'' = None"
    "map_of (dl_exists ?d) (model_file ''cost_model'' ''1.2.0'') \<noteq> None"
    "map_of (dl_load ?d) (model_file ''cost_model'' ''1.2.0'') = Some ''payload''" by code_simp+
  ultimately show ?thesis using swapped_model_is_loaded[of "''cost_model''" "''1.2.0''" 0 with_model demo_registry_env ?d "''payload''" 1]
    by (simp add: demo_registry_env_def)
qed

theorem saved_model_is_latest_witness:
  "fst (load_model demo_registry_env 5 ''cost_model'' None (snd (save_model demo_registry_env ''new'' ''cost_model'' ''1.10.0'' with_model))) = Inr ''new''"
proof -
  have n: "version_text (1, 10, 0) = ''1.10.0''" by code_simp
  have saved: "fst (save_model demo_registry_env ''new'' ''cost_model'' (version_text (1, 10, 0)) with_model) = Inr ''cost_model_v1.10.0.joblib''"
    unfolding n by code_simp
  have files: "fst ` set (rg_files with_model) = {''cost_model_v1.2.0.joblib'', ''cost_model_v1.2.0.sha256''}"
  proof -
    have "map fst (rg_files with_model) = [''cost_model_v1.2.0.joblib'', ''cost_model_v1.2.0.sha256'']" by code_simp
    then show ?thesis by (metis list.simps(15) empty_set set_map)
  qed
  have v: "file_version ''cost_model'' ''cost_model_v1.2.0.joblib'' = Some (1, 2, 0)" "file_version ''cost_model'' ''cost_model_v1.2.0.sha256'' = None"
    by code_simp+
  have lower: "\<forall>f\<in>fst ` set (rg_files with_model). \<forall>v. file_version ''cost_model'' f = Some v \<longrightarrow> v \<le> (1, 10, 0)"
    unfolding files using v by simp
  have cache: "map_of (rg_cache with_model) (''cost_model'', version_text (1, 10, 0)) = None"
  proof -
    have "rg_cache with_model = []" by code_simp
    then show ?thesis by simp
  qed
  have laws: "re_load demo_registry_env (re_dump demo_registry_env ''new'') = ''new''"
    "\<forall>c. is_ascii (re_sha256 demo_registry_env c) \<and> py_lower (py_strip (re_sha256 demo_registry_env c)) = re_sha256 demo_registry_env c"
  proof -
    have "is_ascii ''abcdef''" "py_lower (py_strip ''abcdef'') = ''abcdef''" by code_simp+
    then show "\<forall>c. is_ascii (re_sha256 demo_registry_env c) \<and> py_lower (py_strip (re_sha256 demo_registry_env c)) = re_sha256 demo_registry_env c"
      by (simp add: demo_registry_env_def)
  qed (simp add: demo_registry_env_def)
  have "save_model demo_registry_env ''new'' ''cost_model'' (version_text (1, 10, 0)) with_model =
      (Inr ''cost_model_v1.10.0.joblib'', snd (save_model demo_registry_env ''new'' ''cost_model'' (version_text (1, 10, 0)) with_model))"
    using saved by (metis prod.collapse)
  from saved_model_is_latest[OF this _ lower cache laws, of 5] show ?thesis unfolding n by simp
qed

theorem early_drift_invisible_witness:
  "let rg = fold (\<lambda>i rg. record_prediction i ''cost_model'' JNull (JInt (i * i)) JNull rg) [1..100] empty_registry
   in dp_status (drift_check demo_registry_env ''cost_model'' rg) = Stable"
proof -
  let ?rg = "fold (\<lambda>i rg. record_prediction i ''cost_model'' JNull (JInt (i * i)) JNull rg) [1..100] empty_registry"
  have len: "length (buffer_of ''cost_model'' (fold (\<lambda>i rg. record_prediction i ''cost_model'' JNull (JInt (i * i)) JNull rg) is empty_registry)) = length is \<and>
      set (numeric_predictions demo_registry_env (buffer_of ''cost_model'' (fold (\<lambda>i rg. record_prediction i ''cost_model'' JNull (JInt (i * i)) JNull rg) is empty_registry))) =
        (\<lambda>i. of_int (i * i)) ` set is"
    if "length is \<le> 100" for "is" :: "int list"
    using that
  proof (induction "is" rule: rev_induct)
    case Nil
    show ?case by (simp add: buffer_of_def empty_registry_def numeric_predictions_def)
  next
    case (snoc i "is")
    then show ?case
      by (simp add: buffer_record ring_append_def max_prediction_records_def numeric_predictions_def demo_registry_env_def)
  qed
  have buf: "length (buffer_of ''cost_model'' ?rg) = 100" "numeric_predictions demo_registry_env (buffer_of ''cost_model'' ?rg) \<noteq> []"
    using len[of "[1..100]"] by force+
  have "dp_status (drift_check demo_registry_env ''cost_model'' ?rg) \<in> {Stable, InsufficientData}"
    using early_drift_invisible[of "''cost_model''" ?rg demo_registry_env] buf(1) by (simp add: psi_window_def demo_registry_env_def)
  moreover have "dp_status (drift_check demo_registry_env ''cost_model'' ?rg) \<noteq> InsufficientData"
    using buf by (simp add: drift_check_def Let_def psi_min_records_def baseline_window_def recent_window_def psi_window_def)
  ultimately show ?thesis by (simp add: Let_def)
qed

end
