(* ===== verification/Response_Cache.thy ===== *)
theory Response_Cache
  imports Json
begin

text \<open>
  The response cache of the AI engine, \<^verbatim>\<open>ai_engine/ai_engine/engines/cache.py\<close>, and the way its routes use it. SHA-256 is a
  parameter; instants of the monotonic clock are microseconds.
\<close>

subsection \<open>State\<close>

record 'v cache_entry =
  ce_value :: 'v
  ce_expires_at :: timestamp
  ce_request_type :: string
  ce_created_at :: timestamp

record cache_config =
  cc_ttl_overrides :: "(string \<times> int) list"
  cc_max_entries :: nat
  cc_enabled :: bool

record 'v response_cache =
  rc_store :: "(string \<times> 'v cache_entry) list"
  rc_hits :: nat
  rc_misses :: nat

definition default_ttl :: "(string \<times> int) list" where
  "default_ttl = [(''semantic_classify'', 3600), (''predict_cost'', 900), (''risk_score'', 3600), (''optimize_sql'', 1800)]"

definition fallback_ttl :: int where "fallback_ttl = 900"

definition ttl_of :: "cache_config \<Rightarrow> string \<Rightarrow> int" where
  "ttl_of cfg ty =
     (case map_of (fold (\<lambda>(k, v) d. dict_set d k v) (cc_ttl_overrides cfg) default_ttl) ty of None \<Rightarrow> fallback_ttl | Some s \<Rightarrow> s) *
     microseconds_per_second"

definition new_cache :: "'v response_cache" where "new_cache = \<lparr>rc_store = [], rc_hits = 0, rc_misses = 0\<rparr>"

subsection \<open>Operations\<close>

definition make_key :: "(string \<Rightarrow> string) \<Rightarrow> string \<Rightarrow> json \<Rightarrow> string \<Rightarrow> string" where
  "make_key sha256 request_type payload prompt_version =
     sha256 (json_dumps (JObj [(''type'', JStr request_type), (''prompt_version'', JStr prompt_version), (''payload'', payload)]))"

definition cache_get :: "cache_config \<Rightarrow> timestamp \<Rightarrow> string \<Rightarrow> 'v response_cache \<Rightarrow> 'v option \<times> 'v response_cache" where
  "cache_get cfg now key c =
     (if \<not> cc_enabled cfg then (None, c)
      else case map_of (rc_store c) key of
        None \<Rightarrow> (None, c\<lparr>rc_misses := Suc (rc_misses c)\<rparr>)
      | Some e \<Rightarrow>
          if now > ce_expires_at e then (None, c\<lparr>rc_store := dict_del (rc_store c) key, rc_misses := Suc (rc_misses c)\<rparr>)
          else (Some (ce_value e), c\<lparr>rc_hits := Suc (rc_hits c)\<rparr>))"

definition evict_oldest :: "cache_config \<Rightarrow> timestamp \<Rightarrow> (string \<times> 'v cache_entry) list \<Rightarrow> (string \<times> 'v cache_entry) list" where
  "evict_oldest cfg now store =
     (let store = filter (\<lambda>(k, e). \<not> now > ce_expires_at e) store
      in if length store < cc_max_entries cfg then store
         else let evict_count = max 1 (cc_max_entries cfg div 10);
                  oldest = take evict_count (sort_key (\<lambda>k. case map_of store k of Some e \<Rightarrow> ce_created_at e | None \<Rightarrow> 0) (map fst store))
              in filter (\<lambda>(k, e). k \<notin> set oldest) store)"

definition cache_put :: "cache_config \<Rightarrow> timestamp \<Rightarrow> string \<Rightarrow> 'v \<Rightarrow> string \<Rightarrow> 'v response_cache \<Rightarrow> 'v response_cache" where
  "cache_put cfg now key v request_type c =
     (if \<not> cc_enabled cfg then c
      else let store = (if length (rc_store c) \<ge> cc_max_entries cfg \<and> map_of (rc_store c) key = None
                        then evict_oldest cfg now (rc_store c) else rc_store c)
           in c\<lparr>rc_store := dict_set store key \<lparr>ce_value = v, ce_expires_at = now + ttl_of cfg request_type, ce_request_type = request_type,
                  ce_created_at = now\<rparr>\<rparr>)"

definition invalidate :: "string \<Rightarrow> 'v response_cache \<Rightarrow> bool \<times> 'v response_cache" where
  "invalidate key c = (map_of (rc_store c) key \<noteq> None, c\<lparr>rc_store := dict_del (rc_store c) key\<rparr>)"

definition invalidate_by_type :: "string \<Rightarrow> 'v response_cache \<Rightarrow> nat \<times> 'v response_cache" where
  "invalidate_by_type request_type c =
     (length (filter (\<lambda>(k, e). ce_request_type e = request_type) (rc_store c)),
      c\<lparr>rc_store := filter (\<lambda>(k, e). ce_request_type e \<noteq> request_type) (rc_store c)\<rparr>)"

definition invalidate_all :: "'v response_cache \<Rightarrow> nat \<times> 'v response_cache" where
  "invalidate_all c = (length (rc_store c), new_cache)"

record cache_stats =
  cs_entries :: nat
  cs_hits :: nat
  cs_misses :: nat
  cs_hit_rate :: rat
  cs_max_entries :: nat
  cs_enabled :: bool

definition stats :: "cache_config \<Rightarrow> 'v response_cache \<Rightarrow> cache_stats" where
  "stats cfg c =
     (let total = rc_hits c + rc_misses c
      in \<lparr>cs_entries = length (rc_store c), cs_hits = rc_hits c, cs_misses = rc_misses c,
          cs_hit_rate = (if total > 0 then py_round (of_nat (rc_hits c) / of_nat total) 4 else 0),
          cs_max_entries = cc_max_entries cfg, cs_enabled = cc_enabled cfg\<rparr>)"

text \<open>A cached route: on a miss the engine answers (\<open>answer\<close>, whatever its state makes it say at that moment), and its answer is stored. The
  prompt version is always the default.\<close>

definition request_key :: "(string \<Rightarrow> string) \<Rightarrow> string \<times> json \<Rightarrow> string" where
  "request_key sha256 req = make_key sha256 (fst req) (snd req) ''v1''"

definition serve ::
  "(string \<Rightarrow> string) \<Rightarrow> cache_config \<Rightarrow> 'v \<Rightarrow> timestamp \<Rightarrow> timestamp \<Rightarrow> string \<times> json \<Rightarrow> 'v response_cache \<Rightarrow> 'v \<times> 'v response_cache" where
  "serve sha256 cfg answer now later req c =
     (case cache_get cfg now (request_key sha256 req) c of
        (Some v, c) \<Rightarrow> (v, c)
      | (None, c) \<Rightarrow> (answer, cache_put cfg later (request_key sha256 req) answer (fst req) c))"

subsection \<open>A cache in use\<close>

text \<open>
  Requests among \<open>R\<close> are looked up and answers of the engine stored, each at any instant and, since the route may wait for the engine, with
  other operations in between; and entries are invalidated in every way. The log \<open>G\<close> holds, for each request, the last answer that was stored
  for it and when, unless an invalidation took it out since.
\<close>

type_synonym 'v answer_log = "((string \<times> json) \<times> timestamp \<times> 'v) set"

definition log_answer :: "string \<times> json \<Rightarrow> timestamp \<Rightarrow> 'v \<Rightarrow> 'v answer_log \<Rightarrow> 'v answer_log" where
  "log_answer req t v G = insert (req, t, v) {g \<in> G. fst g \<noteq> req}"

inductive cache_run :: "(string \<Rightarrow> string) \<Rightarrow> cache_config \<Rightarrow> (string \<times> json) set \<Rightarrow> 'v response_cache \<Rightarrow> 'v answer_log \<Rightarrow> bool"
  for sha256 cfg R where
  start: "cache_run sha256 cfg R new_cache {}"
| looked_up: "cache_run sha256 cfg R c G \<Longrightarrow> req \<in> R \<Longrightarrow> cache_run sha256 cfg R (snd (cache_get cfg now (request_key sha256 req) c)) G"
| stored: "cache_run sha256 cfg R c G \<Longrightarrow> req \<in> R \<Longrightarrow>
    cache_run sha256 cfg R (cache_put cfg t (request_key sha256 req) v (fst req) c) (log_answer req t v G)"
| key: "cache_run sha256 cfg R c G \<Longrightarrow> cache_run sha256 cfg R (snd (invalidate k c)) {g \<in> G. request_key sha256 (fst g) \<noteq> k}"
| type: "cache_run sha256 cfg R c G \<Longrightarrow> cache_run sha256 cfg R (snd (invalidate_by_type ty c)) {g \<in> G. fst (fst g) \<noteq> ty}"
| all: "cache_run sha256 cfg R c G \<Longrightarrow> cache_run sha256 cfg R (snd (invalidate_all c)) {}"

lemma serve_run:
  assumes "cache_run sha256 cfg R c G" "req \<in> R"
  shows "cache_run sha256 cfg R (snd (serve sha256 cfg answer now later req c))
    (if fst (cache_get cfg now (request_key sha256 req) c) = None then log_answer req later answer G else G)"
  using cache_run.looked_up[OF assms, of now] cache_run.stored[OF cache_run.looked_up[OF assms, of now] assms(2), of later answer]
  by (cases "cache_get cfg now (request_key sha256 req) c") (auto simp: serve_def split: option.splits)

text \<open>The log has at most one answer to a request.\<close>

lemma log_functional: "cache_run sha256 cfg R c G \<Longrightarrow> (req, t, v) \<in> G \<Longrightarrow> (req, t', v') \<in> G \<Longrightarrow> t = t' \<and> v = v'"
  by (induction arbitrary: req t v t' v' rule: cache_run.induct) (auto simp: log_answer_def)

subsection \<open>Facts\<close>

text \<open>Every entry holds the logged answer to a request of its key and expires with the time to live of its type; keys are not repeated, and
  the store is not above its bound.\<close>

definition entry_ok :: "(string \<Rightarrow> string) \<Rightarrow> cache_config \<Rightarrow> (string \<times> json) set \<Rightarrow> 'v answer_log \<Rightarrow> string \<Rightarrow> 'v cache_entry \<Rightarrow> bool" where
  "entry_ok sha256 cfg R G k e \<longleftrightarrow>
     (\<exists>req\<in>R. k = request_key sha256 req \<and> (req, ce_created_at e, ce_value e) \<in> G \<and> ce_request_type e = fst req \<and>
       ce_expires_at e = ce_created_at e + ttl_of cfg (fst req))"

definition cache_ok :: "(string \<Rightarrow> string) \<Rightarrow> cache_config \<Rightarrow> (string \<times> json) set \<Rightarrow> 'v answer_log \<Rightarrow> 'v response_cache \<Rightarrow> bool" where
  "cache_ok sha256 cfg R G c \<longleftrightarrow>
     dict_ok (rc_store c) \<and> length (rc_store c) \<le> max 1 (cc_max_entries cfg) \<and> (\<forall>(k, e)\<in>set (rc_store c). entry_ok sha256 cfg R G k e)"

lemma cache_ok_filter:
  assumes "cache_ok sha256 cfg R G c" "\<And>k e. P (k, e) \<Longrightarrow> entry_ok sha256 cfg R G k e \<Longrightarrow> entry_ok sha256 cfg R G' k e"
  shows "cache_ok sha256 cfg R G' (c\<lparr>rc_store := filter P (rc_store c)\<rparr>)"
  using assms le_trans[OF length_filter_le[of P "rc_store c"]] by (fastforce simp: cache_ok_def)

lemma cache_ok_counts: "cache_ok sha256 cfg R G (c\<lparr>rc_hits := h\<rparr>) = cache_ok sha256 cfg R G c"
  "cache_ok sha256 cfg R G (c\<lparr>rc_misses := m\<rparr>) = cache_ok sha256 cfg R G c"
  by (simp_all add: cache_ok_def)

lemma dict_set_members: "(k', v') \<in> set (dict_set d k v) \<Longrightarrow> (k', v') = (k, v) \<or> (k', v') \<in> set d"
  by (induction d k v rule: dict_set.induct) (auto split: if_splits)

lemma evict_subset: "set (evict_oldest cfg now store) \<subseteq> set store"
  by (auto simp: evict_oldest_def Let_def)

lemma evict_ok: "dict_ok store \<Longrightarrow> dict_ok (evict_oldest cfg now store)"
  by (auto simp: evict_oldest_def Let_def)

text \<open>Eviction makes room: below the bound, or to nothing.\<close>

lemma evict_makes_room:
  assumes "length store \<le> max 1 (cc_max_entries cfg)"
  shows "Suc (length (evict_oldest cfg now store)) \<le> max 1 (cc_max_entries cfg)"
proof -
  define s where "s = filter (\<lambda>(k, e). \<not> now > ce_expires_at e) store"
  have len: "length s \<le> max 1 (cc_max_entries cfg)" using assms length_filter_le[of _ store] unfolding s_def by (rule order_trans[rotated])
  define old where "old = take (max 1 (cc_max_entries cfg div 10))
    (sort_key (\<lambda>k. case map_of s k of Some e \<Rightarrow> ce_created_at e | None \<Rightarrow> 0) (map fst s))"
  show ?thesis
  proof (cases "length s < cc_max_entries cfg")
    case True
    then show ?thesis by (simp add: evict_oldest_def s_def[symmetric] Let_def)
  next
    case False
    have eq: "evict_oldest cfg now store = filter (\<lambda>(k, e). k \<notin> set old) s"
      using False by (simp add: evict_oldest_def s_def[symmetric] old_def Let_def)
    show ?thesis
    proof (cases "s = []")
      case True
      then show ?thesis unfolding eq by simp
    next
      case ne: False
      obtain k ks where ks: "sort_key (\<lambda>k. case map_of s k of Some e \<Rightarrow> ce_created_at e | None \<Rightarrow> 0) (map fst s) = k # ks"
        using ne by (metis length_0_conv length_map length_sort list.exhaust)
      have "k \<in> set old" using ks by (simp add: old_def take_Cons split: nat.splits) (metis One_nat_def list.set_intros(1) max_Suc_Suc max_0R not0_implies_Suc take_Suc_Cons)
      moreover have "k \<in> fst ` set s" using ks by (metis list.set_intros(1) set_map set_sort)
      ultimately have "\<exists>x\<in>set s. \<not> (case x of (k, e) \<Rightarrow> k \<notin> set old)" by auto
      then have "length (filter (\<lambda>(k, e). k \<notin> set old) s) < length s" by (metis length_filter_less)
      with len show ?thesis unfolding eq by simp
    qed
  qed
qed

lemma put_ok:
  assumes "cache_ok sha256 cfg R G c" "req \<in> R"
  shows "cache_ok sha256 cfg R (log_answer req t v G) (cache_put cfg t (request_key sha256 req) v (fst req) c) \<or> \<not> cc_enabled cfg"
proof (cases "cc_enabled cfg")
  case True
  define k where "k = request_key sha256 req"
  define e where "e = \<lparr>ce_value = v, ce_expires_at = t + ttl_of cfg (fst req), ce_request_type = fst req, ce_created_at = t\<rparr>"
  define store where "store = (if length (rc_store c) \<ge> cc_max_entries cfg \<and> map_of (rc_store c) k = None
      then evict_oldest cfg t (rc_store c) else rc_store c)"
  have put: "cache_put cfg t k v (fst req) c = c\<lparr>rc_store := dict_set store k e\<rparr>"
    using True by (simp add: cache_put_def store_def e_def Let_def)
  have ok: "dict_ok (rc_store c)" "length (rc_store c) \<le> max 1 (cc_max_entries cfg)" using assms(1) by (simp_all add: cache_ok_def)
  have sub: "set store \<subseteq> set (rc_store c)" using evict_subset by (auto simp: store_def split: if_splits)
  have d: "dict_ok (dict_set store k e)" by (rule dict_set_ok) (simp add: store_def ok(1) evict_ok)
  have "length (dict_set store k e) \<le> max 1 (cc_max_entries cfg)"
  proof (cases "length (rc_store c) \<ge> cc_max_entries cfg \<and> map_of (rc_store c) k = None")
    case True
    then show ?thesis using evict_makes_room[OF ok(2), of t] by (simp add: store_def length_dict_set)
  next
    case False
    then show ?thesis using ok(2) by (auto simp: store_def length_dict_set map_of_eq_None_iff[symmetric])
  qed
  moreover have "entry_ok sha256 cfg R (log_answer req t v G) k' e'" if m: "(k', e') \<in> set (dict_set store k e)" for k' e'
  proof (cases "k' = k")
    case True
    from map_of_is_SomeI[OF d[unfolded dict_ok_def] m] have "map_of (dict_set store k e) k' = Some e'" .
    with True have "e' = e" by simp
    then show ?thesis unfolding True entry_ok_def by (intro bexI[of _ req]) (use assms(2) in \<open>simp_all add: e_def k_def log_answer_def\<close>)
  next
    case False
    with dict_set_members[OF m] sub have "(k', e') \<in> set (rc_store c)" by auto
    with assms(1) have "entry_ok sha256 cfg R G k' e'" by (auto simp: cache_ok_def)
    with False show ?thesis by (auto simp: entry_ok_def log_answer_def k_def)
  qed
  ultimately show ?thesis using d unfolding cache_ok_def k_def[symmetric] put by auto
qed simp

lemma get_ok: "cache_ok sha256 cfg R G c \<Longrightarrow> cache_ok sha256 cfg R G (snd (cache_get cfg now key c))"
  using cache_ok_filter[of sha256 cfg R G c "\<lambda>(k', _). k' \<noteq> key" G]
  by (auto simp: cache_get_def cache_ok_counts dict_del_def cache_ok_def split: option.splits)

lemma cache_run_ok: "cache_run sha256 cfg R c G \<Longrightarrow> cache_ok sha256 cfg R G c \<or> \<not> cc_enabled cfg"
proof (induction rule: cache_run.induct)
  case start
  show ?case by (simp add: cache_ok_def new_cache_def dict_ok_def)
next
  case (looked_up c G req now)
  then show ?case using get_ok by blast
next
  case (stored c G req t v)
  then show ?case using put_ok[OF _ stored.hyps(2), where t = t and v = v] by blast
next
  case (key c G k)
  then show ?case using cache_ok_filter[of sha256 cfg R G c "\<lambda>(k', _). k' \<noteq> k" "{g \<in> G. request_key sha256 (fst g) \<noteq> k}"]
    by (auto simp: invalidate_def dict_del_def entry_ok_def)
next
  case (type c G ty)
  then show ?case using cache_ok_filter[of sha256 cfg R G c "\<lambda>(k, e). ce_request_type e \<noteq> ty" "{g \<in> G. fst (fst g) \<noteq> ty}"]
    by (auto simp: invalidate_by_type_def entry_ok_def)
next
  case (all c G)
  show ?case by (simp add: invalidate_all_def cache_ok_def new_cache_def dict_ok_def)
qed

lemma disabled_run: "cache_run sha256 cfg R c G \<Longrightarrow> \<not> cc_enabled cfg \<Longrightarrow> rc_store c = []"
  by (induction rule: cache_run.induct) (simp_all add: new_cache_def cache_get_def cache_put_def invalidate_def dict_del_def invalidate_by_type_def invalidate_all_def)

text \<open>C35: The cache serves nothing stale. The engine may answer the same request differently at different times, and lookups, stores and
  invalidations may interleave at any instants. A served value is then the answer that the engine gives now, or the last answer that was
  stored for this very request, stored no longer ago than the time to live of its type and not invalidated since, by key, by type or
  altogether; provided the keys of the requests do not collide. And the cache never holds more than its bound (one entry where it is 0).\<close>

theorem cache_serves_fresh:
  assumes "cache_run sha256 cfg R c G" "inj_on (request_key sha256) R" "req \<in> R"
  shows "(case fst (cache_get cfg now (request_key sha256 req) c) of
      None \<Rightarrow> fst (serve sha256 cfg answer now later req c) = answer
    | Some v \<Rightarrow> fst (serve sha256 cfg answer now later req c) = v \<and>
        (\<exists>s. (req, s, v) \<in> G \<and> now \<le> s + ttl_of cfg (fst req) \<and> (\<forall>s' v'. (req, s', v') \<in> G \<longrightarrow> s' = s \<and> v' = v))) \<and>
    length (rc_store c) \<le> max 1 (cc_max_entries cfg)"
proof (cases "cc_enabled cfg")
  case True
  with cache_run_ok[OF assms(1)] have ok: "cache_ok sha256 cfg R G c" by blast
  have fresh: "(req, ce_created_at e, ce_value e) \<in> G \<and> ce_expires_at e = ce_created_at e + ttl_of cfg (fst req)"
    if "map_of (rc_store c) (request_key sha256 req) = Some e" for e
  proof -
    from map_of_SomeD[OF that] ok have "entry_ok sha256 cfg R G (request_key sha256 req) e" by (auto simp: cache_ok_def)
    with inj_onD[OF assms(2)] assms(3) show ?thesis unfolding entry_ok_def by metis
  qed
  show ?thesis
  proof (cases "fst (cache_get cfg now (request_key sha256 req) c)")
    case None
    then show ?thesis using ok by (cases "cache_get cfg now (request_key sha256 req) c") (simp add: serve_def cache_ok_def)
  next
    case (Some v)
    then obtain e where e: "map_of (rc_store c) (request_key sha256 req) = Some e" "v = ce_value e" "now \<le> ce_expires_at e"
      using True by (auto simp: cache_get_def split: option.splits if_splits)
    have "fst (serve sha256 cfg answer now later req c) = v"
      using Some by (cases "cache_get cfg now (request_key sha256 req) c") (simp add: serve_def)
    moreover have "length (rc_store c) \<le> max 1 (cc_max_entries cfg)" using ok by (simp add: cache_ok_def)
    moreover have "(req, ce_created_at e, v) \<in> G" "now \<le> ce_created_at e + ttl_of cfg (fst req)"
      using fresh[OF e(1)] e(2,3) by simp_all
    ultimately show ?thesis using Some log_functional[OF assms(1)] by simp blast
  qed
next
  case False
  then show ?thesis using disabled_run[OF assms(1)] by (simp add: serve_def cache_get_def)
qed

text \<open>A prediction is served for its fifteen minutes although the engine would answer otherwise by then, and not after them.\<close>

theorem cache_serves_fresh_witness:
  "let cfg = \<lparr>cc_ttl_overrides = [], cc_max_entries = 2, cc_enabled = True\<rparr>; req = (''predict_cost'', JInt 1);
       c = snd (serve id cfg ''low'' 0 1 req new_cache)
   in fst (serve id cfg ''high'' (900 * microseconds_per_second) 0 req c) = ''low'' \<and>
      fst (serve id cfg ''high'' (900 * microseconds_per_second + 2) 0 req c) = ''high''"
proof -
  let ?cfg = "\<lparr>cc_ttl_overrides = [], cc_max_entries = 2, cc_enabled = True\<rparr>"
  let ?req = "(''predict_cost'', JInt 1)" and ?key = "request_key id (''predict_cost'', JInt 1)"
  let ?c = "snd (serve id ?cfg ''low'' 0 1 ?req new_cache)"
  have run: "cache_run id ?cfg {?req} ?c {(?req, 1, ''low'')}"
    using serve_run[OF cache_run.start, of ?req "{?req}" id ?cfg "''low''" 0 1]
    by (simp add: cache_get_def new_cache_def log_answer_def)
  have inj: "inj_on (request_key id) {?req}" by simp
  have store: "rc_store ?c = [(?key, \<lparr>ce_value = ''low'', ce_expires_at = 1 + ttl_of ?cfg ''predict_cost'', ce_request_type = ''predict_cost'', ce_created_at = 1\<rparr>)]"
    by (simp add: serve_def cache_get_def cache_put_def new_cache_def)
  have ttl: "ttl_of ?cfg ''predict_cost'' = 900 * microseconds_per_second" by (simp add: ttl_of_def default_ttl_def)
  have "fst (cache_get ?cfg (900 * microseconds_per_second) ?key ?c) = Some ''low''" by (simp add: cache_get_def store ttl)
  with cache_serves_fresh[OF run inj, where req = ?req and now = "900 * microseconds_per_second" and answer = "''high''" and later = 0]
  have "fst (serve id ?cfg ''high'' (900 * microseconds_per_second) 0 ?req ?c) = ''low''" by simp
  moreover have "fst (cache_get ?cfg (900 * microseconds_per_second + 2) ?key ?c) = None" by (simp add: cache_get_def store ttl)
  with cache_serves_fresh[OF run inj, where req = ?req and now = "900 * microseconds_per_second + 2" and answer = "''high''" and later = 0]
  have "fst (serve id ?cfg ''high'' (900 * microseconds_per_second + 2) 0 ?req ?c) = ''high''" by simp
  ultimately show ?thesis by (simp add: Let_def)
qed

end
