(* ===== verification/Fragility.thy ===== *)
theory Fragility
  imports Impact_Facts
begin

text \<open>
  The fragility scorer of the AI engine, \<^verbatim>\<open>ai_engine/ai_engine/engines/fragility_scorer.py\<close>: three traversals of the graph of
  models, whose adjacency lists are a dictionary from a model to its upstream models. Probabilities and scores are rational numbers.
\<close>

subsection \<open>Scores\<close>

datatype risk_factor = OwnRisk rat | UpstreamRisk rat | CascadeRisk nat rat rat | OnCriticalPath

record fragility_score =
  fs_model_name :: string
  fs_own_risk :: rat
  fs_upstream_risk :: rat
  fs_cascade_risk :: rat
  fs_fragility_score :: rat
  fs_critical_path :: bool
  fs_risk_factors :: "risk_factor list"

record scorer =
  sw_own :: rat
  sw_upstream :: rat
  sw_cascade :: rat

definition default_scorer :: scorer where
  "default_scorer = \<lparr>sw_own = 4 / 10, sw_upstream = 3 / 10, sw_cascade = 3 / 10\<rparr>"

type_synonym adjacency = "(string \<times> string list) list"

definition prob :: "(string \<times> rat) list \<Rightarrow> string \<Rightarrow> rat" where
  "prob predictions n = (case map_of predictions n of None \<Rightarrow> 0 | Some p \<Rightarrow> p)"

subsection \<open>Traversals\<close>

text \<open>The models with a list of their own; a node without one has no parents.\<close>

definition listed :: "adjacency \<Rightarrow> string set" where "listed dag = fst ` set dag"

lemma finite_listed [simp]: "finite (listed dag)" by (simp add: listed_def)

lemma unlisted: "n \<notin> listed dag \<Longrightarrow> get_list dag n = []"
  by (simp add: listed_def get_list_def flip: map_of_eq_None_iff)

text \<open>What shrinks: the listed nodes not yet visited, and then the queue.\<close>

definition bfs_order :: "((adjacency \<times> 'q list \<times> string list) \<times> (adjacency \<times> 'q list \<times> string list)) set" where
  "bfs_order = inv_image (less_than <*lex*> less_than)
     (\<lambda>(dag, queue, visited). (card (listed dag - set visited), length queue))"

lemma wf_bfs_order: "wf bfs_order"
  unfolding bfs_order_def by (intro wf_inv_image wf_lex_prod wf_less_than)

lemma bfs_visit:
  "n \<notin> set visited \<Longrightarrow> (get_list dag n = [] \<Longrightarrow> length queue' \<le> length queue) \<Longrightarrow>
     ((dag, queue', n # visited), (dag, q # queue, visited)) \<in> bfs_order"
proof -
  assume n: "n \<notin> set visited" and q: "get_list dag n = [] \<Longrightarrow> length queue' \<le> length queue"
  show ?thesis
  proof (cases "n \<in> listed dag")
    case True
    have "card (listed dag - set (n # visited)) < card (listed dag - set visited)"
      using True n by (intro psubset_card_mono) auto
    then show ?thesis by (simp add: bfs_order_def)
  next
    case False
    then have "listed dag - set (n # visited) = listed dag - set visited" by auto
    with q unlisted[OF False] show ?thesis by (simp add: bfs_order_def)
  qed
qed

lemma bfs_skip: "((dag, queue, visited), (dag, q # queue, visited)) \<in> bfs_order"
  by (simp add: bfs_order_def)

function upstream_loop ::
  "adjacency \<Rightarrow> (string \<times> rat) list \<Rightarrow> (string \<times> nat) list \<Rightarrow> string list \<Rightarrow> rat \<Rightarrow> rat" where
  "upstream_loop dag predictions [] visited max_risk = max_risk"
| "upstream_loop dag predictions ((node, depth) # queue) visited max_risk =
     (if node \<in> set visited then upstream_loop dag predictions queue visited max_risk
      else upstream_loop dag predictions
        (queue @ map (\<lambda>g. (g, depth + 1)) (filter (\<lambda>g. g \<notin> set (node # visited)) (sort (get_list dag node))))
        (node # visited) (max max_risk (prob predictions node * (8 / 10) ^ depth)))"
  by pat_completeness auto
termination
  by (relation "inv_image bfs_order (\<lambda>(dag, predictions, queue, visited, max_risk). (dag, queue, visited))")
    (simp_all add: wf_bfs_order bfs_skip bfs_visit)

definition compute_upstream_risk :: "string \<Rightarrow> adjacency \<Rightarrow> (string \<times> rat) list \<Rightarrow> rat" where
  "compute_upstream_risk model_name dag predictions =
     upstream_loop dag predictions (map (\<lambda>p. (p, 1)) (sort (get_list dag model_name))) [] 0"

function downstream_loop :: "adjacency \<Rightarrow> string list \<Rightarrow> string list \<Rightarrow> string list" where
  "downstream_loop rdag [] visited = visited"
| "downstream_loop rdag (node # queue) visited =
     (if node \<in> set visited then downstream_loop rdag queue visited
      else downstream_loop rdag (queue @ filter (\<lambda>c. c \<notin> set (node # visited)) (sort (get_list rdag node))) (node # visited))"
  by pat_completeness auto
termination
  by (relation bfs_order) (simp_all add: wf_bfs_order bfs_skip bfs_visit)

definition get_all_downstream :: "string \<Rightarrow> adjacency \<Rightarrow> string list" where
  "get_all_downstream model_name rdag = downstream_loop rdag (sort (get_list rdag model_name)) []"

function critical_loop :: "adjacency \<Rightarrow> (string \<times> rat) list \<Rightarrow> rat \<Rightarrow> string list \<Rightarrow> string list \<Rightarrow> bool" where
  "critical_loop dag predictions threshold [] visited \<longleftrightarrow> True"
| "critical_loop dag predictions threshold (node # queue) visited \<longleftrightarrow>
     (if node \<in> set visited then critical_loop dag predictions threshold queue visited
      else if prob predictions node \<le> threshold then False
      else critical_loop dag predictions threshold
        (queue @ filter (\<lambda>p. p \<notin> set (node # visited)) (sort (get_list dag node))) (node # visited))"
  by pat_completeness auto
termination
  by (relation "inv_image bfs_order (\<lambda>(dag, predictions, threshold, queue, visited). (dag, queue, visited))")
    (simp_all add: wf_bfs_order bfs_skip bfs_visit)

definition is_on_critical_path :: "string \<Rightarrow> adjacency \<Rightarrow> (string \<times> rat) list \<Rightarrow> rat \<Rightarrow> bool" where
  "is_on_critical_path model_name dag predictions threshold \<longleftrightarrow>
     \<not> prob predictions model_name \<le> threshold \<and> critical_loop dag predictions threshold (sort (get_list dag model_name)) []"

text \<open>The reverse lists, from a model to those that read it.\<close>

fun reverse_parents :: "string \<Rightarrow> string list \<Rightarrow> adjacency \<Rightarrow> adjacency" where
  "reverse_parents child [] reverse = reverse"
| "reverse_parents child (parent # parents) reverse =
     (let reverse = (if map_of reverse parent = None then dict_set reverse parent [] else reverse)
      in reverse_parents child parents (dict_set reverse parent (the (map_of reverse parent) @ [child])))"

fun reverse_entries :: "adjacency \<Rightarrow> adjacency \<Rightarrow> adjacency" where
  "reverse_entries [] reverse = reverse"
| "reverse_entries ((child, parents) # dag) reverse = reverse_entries dag (reverse_parents child parents reverse)"

definition scorer_reverse_dag :: "adjacency \<Rightarrow> adjacency" where
  "scorer_reverse_dag dag = reverse_entries dag (map (\<lambda>(name, _). (name, [])) dag)"

subsection \<open>The score\<close>

text \<open>The fields' bounds: a score outside them is refused.\<close>

definition score_ok :: "fragility_score \<Rightarrow> bool" where
  "score_ok s \<longleftrightarrow> 0 \<le> fs_own_risk s \<and> fs_own_risk s \<le> 1 \<and> 0 \<le> fs_upstream_risk s \<and> 0 \<le> fs_cascade_risk s \<and>
     0 \<le> fs_fragility_score s \<and> fs_fragility_score s \<le> 10"

definition checked_score :: "fragility_score \<Rightarrow> fragility_score option" where
  "checked_score s = (if score_ok s then Some s else None)"

definition compute_fragility :: "scorer \<Rightarrow> string \<Rightarrow> adjacency \<Rightarrow> (string \<times> rat) list \<Rightarrow> fragility_score option" where
  "compute_fragility sc model_name dag predictions =
     (let own_prob = prob predictions model_name;
          upstream_risk = compute_upstream_risk model_name dag predictions;
          downstream = length (get_all_downstream model_name (scorer_reverse_dag dag));
          cascade_raw = of_nat downstream * own_prob;
          max_cascade = max (length dag) 1;
          cascade_normalised = min (cascade_raw / of_nat max_cascade) 1;
          raw_score = sw_own sc * own_prob + sw_upstream sc * min upstream_risk 1 + sw_cascade sc * cascade_normalised;
          critical = is_on_critical_path model_name dag predictions (3 / 10)
      in checked_score \<lparr>fs_model_name = model_name, fs_own_risk = py_round own_prob 4, fs_upstream_risk = py_round upstream_risk 4,
          fs_cascade_risk = py_round cascade_raw 4, fs_fragility_score = py_round (min (raw_score * 10) 10) 2, fs_critical_path = critical,
          fs_risk_factors =
            (if own_prob > 0 then [OwnRisk own_prob] else []) @ (if upstream_risk > 0 then [UpstreamRisk upstream_risk] else []) @
            (if cascade_raw > 0 then [CascadeRisk downstream own_prob cascade_raw] else []) @ (if critical then [OnCriticalPath] else [])\<rparr>)"

fun all_scores :: "fragility_score option list \<Rightarrow> fragility_score list option" where
  "all_scores [] = Some []"
| "all_scores (x # xs) = (case (x, all_scores xs) of (Some s, Some ss) \<Rightarrow> Some (s # ss) | _ \<Rightarrow> None)"

definition compute_batch :: "scorer \<Rightarrow> adjacency \<Rightarrow> (string \<times> rat) list \<Rightarrow> fragility_score list option" where
  "compute_batch sc dag predictions =
     map_option (sort_key (\<lambda>s. - fs_fragility_score s)) (all_scores (map (\<lambda>n. compute_fragility sc n dag predictions) (sort (map fst dag))))"

subsection \<open>What the traversals find\<close>

text \<open>A walk of \<open>k\<close> steps through the adjacency lists.\<close>

inductive walk_up :: "adjacency \<Rightarrow> string \<Rightarrow> nat \<Rightarrow> string \<Rightarrow> bool" for dag m where
  one: "p \<in> set (get_list dag m) \<Longrightarrow> walk_up dag m 1 p"
| step: "walk_up dag m k n \<Longrightarrow> g \<in> set (get_list dag n) \<Longrightarrow> walk_up dag m (Suc k) g"

definition reached :: "adjacency \<Rightarrow> string \<Rightarrow> string set" where "reached dag m = {n. \<exists>k. walk_up dag m k n}"

text \<open>The invariant of the two plain traversals: what was visited leads only to what was visited or waits.\<close>

definition frontier :: "adjacency \<Rightarrow> string \<Rightarrow> string list \<Rightarrow> string list \<Rightarrow> bool" where
  "frontier dag m queue visited \<longleftrightarrow>
     set (get_list dag m) \<subseteq> set queue \<union> set visited \<and> (\<forall>n\<in>set visited. set (get_list dag n) \<subseteq> set queue \<union> set visited) \<and>
     set queue \<union> set visited \<subseteq> reached dag m"

lemma frontier_start: "frontier dag m (sort (get_list dag m)) []"
  by (auto simp: frontier_def reached_def intro: walk_up.one)

lemma frontier_skip: "frontier dag m (node # queue) visited \<Longrightarrow> node \<in> set visited \<Longrightarrow> frontier dag m queue visited"
  by (auto simp: frontier_def)

lemma frontier_visit:
  "frontier dag m (node # queue) visited \<Longrightarrow>
     frontier dag m (queue @ filter (\<lambda>c. c \<notin> set (node # visited)) (sort (get_list dag node))) (node # visited)"
  unfolding frontier_def by (fastforce simp: reached_def intro: walk_up.step)

lemma frontier_end: "frontier dag m [] visited \<Longrightarrow> set visited = reached dag m"
proof -
  assume f: "frontier dag m [] visited"
  have "n \<in> set visited" if "walk_up dag m k n" for k n
    using that f by induction (auto simp: frontier_def)
  with f show ?thesis by (auto simp: frontier_def reached_def)
qed

lemma downstream_loop_reaches: "frontier dag m queue visited \<Longrightarrow> set (downstream_loop dag queue visited) = reached dag m"
proof (induction dag queue visited rule: downstream_loop.induct)
  case (1 rdag visited)
  then show ?case using frontier_end by simp
next
  case (2 rdag node queue visited)
  then show ?case using frontier_skip frontier_visit by (cases "node \<in> set visited") auto
qed

lemma downstream_loop_distinct: "distinct visited \<Longrightarrow> distinct (downstream_loop rdag queue visited)"
  by (induction rdag queue visited rule: downstream_loop.induct) auto

lemma critical_loop_reaches:
  "frontier dag m queue visited \<Longrightarrow> \<forall>n\<in>set visited. \<not> prob predictions n \<le> threshold \<Longrightarrow>
     critical_loop dag predictions threshold queue visited \<longleftrightarrow> (\<forall>n\<in>reached dag m. \<not> prob predictions n \<le> threshold)"
proof (induction dag predictions threshold queue visited rule: critical_loop.induct)
  case (1 dag predictions threshold visited)
  then show ?case using frontier_end by simp
next
  case (2 dag predictions threshold node queue visited)
  have node: "node \<in> reached dag m" using 2(3) by (auto simp: frontier_def)
  consider (seen) "node \<in> set visited" | (low) "node \<notin> set visited" "prob predictions node \<le> threshold"
    | (high) "node \<notin> set visited" "\<not> prob predictions node \<le> threshold" by blast
  then show ?case
  proof cases
    case seen
    with 2(1)[OF seen frontier_skip[OF 2(3) seen] 2(4)] show ?thesis by simp
  next
    case low
    with node show ?thesis by auto
  next
    case high
    have "\<forall>n\<in>set (node # visited). \<not> prob predictions n \<le> threshold" using high 2(4) by simp
    from 2(2)[OF high frontier_visit[OF 2(3)] this] high show ?thesis by simp
  qed
qed

text \<open>The invariant of the weighted traversal: \<open>P\<close> are the visited nodes with the depth at which they were, in a breadth-first order.\<close>

definition weighted :: "adjacency \<Rightarrow> (string \<times> rat) list \<Rightarrow> string \<Rightarrow> (string \<times> nat) set \<Rightarrow> (string \<times> nat) list \<Rightarrow> rat \<Rightarrow> bool" where
  "weighted dag predictions m P queue risk \<longleftrightarrow>
     (\<forall>p\<in>set (get_list dag m). \<exists>d\<le>1. (p, d) \<in> P \<union> set queue) \<and>
     (\<forall>(n, d)\<in>P. \<forall>g\<in>set (get_list dag n). \<exists>e\<le>d + 1. (g, e) \<in> P \<union> set queue) \<and>
     (\<forall>(n, d)\<in>P \<union> set queue. walk_up dag m d n) \<and>
     (\<forall>(n, d)\<in>P. \<forall>(q, e)\<in>set queue. d \<le> e) \<and>
     sorted (map snd queue) \<and> (\<forall>x\<in>set queue. snd x \<le> snd (hd queue) + 1) \<and>
     (\<forall>(n, d)\<in>P. prob predictions n * (8 / 10) ^ d \<le> risk) \<and>
     (risk = 0 \<or> (\<exists>(n, d)\<in>P. risk = prob predictions n * (8 / 10) ^ d))"

lemma weighted_start: "weighted dag predictions m {} (map (\<lambda>p. (p, 1)) (sort (get_list dag m))) 0"
  by (auto simp: weighted_def image_iff sorted_map sorted_wrt_iff_nth_less hd_map intro: walk_up.one[unfolded One_nat_def])

lemma weighted_skip:
  assumes w: "weighted dag predictions m P ((node, depth) # queue) risk" and seen: "node \<in> fst ` P"
  shows "weighted dag predictions m P queue risk"
proof -
  from seen obtain d where d: "(node, d) \<in> P" by auto
  with w have "d \<le> depth" by (auto simp: weighted_def)
  then have swap: "\<exists>e\<le>k. (g, e) \<in> P \<union> set queue" if "\<exists>e\<le>k. (g, e) \<in> P \<union> set ((node, depth) # queue)" for g k
    using that d by (auto intro: le_trans)
  have sorted: "sorted (map snd queue)" "\<forall>x\<in>set queue. depth \<le> snd x" "\<forall>x\<in>set queue. snd x \<le> depth + 1"
    using w by (auto simp: weighted_def)
  have head: "\<forall>x\<in>set queue. snd x \<le> snd (hd queue) + 1"
  proof
    fix x assume x: "x \<in> set queue"
    then have "hd queue \<in> set queue" by (cases queue) auto
    with sorted x show "snd x \<le> snd (hd queue) + 1" by (meson add_le_mono1 le_trans)
  qed
  from w have
    1: "\<forall>p\<in>set (get_list dag m). \<exists>d\<le>1. (p, d) \<in> P \<union> set ((node, depth) # queue)" and
    2: "\<forall>(n, d)\<in>P. \<forall>g\<in>set (get_list dag n). \<exists>e\<le>d + 1. (g, e) \<in> P \<union> set ((node, depth) # queue)" and
    3: "\<forall>(n, d)\<in>P \<union> set queue. walk_up dag m d n" "\<forall>(n, d)\<in>P. \<forall>(q, e)\<in>set queue. d \<le> e"
      "\<forall>(n, d)\<in>P. prob predictions n * (8 / 10) ^ d \<le> risk" "risk = 0 \<or> (\<exists>(n, d)\<in>P. risk = prob predictions n * (8 / 10) ^ d)"
    unfolding weighted_def by auto
  have "\<forall>p\<in>set (get_list dag m). \<exists>d\<le>1. (p, d) \<in> P \<union> set queue" using 1 swap by blast
  moreover have "\<forall>(n, d)\<in>P. \<forall>g\<in>set (get_list dag n). \<exists>e\<le>d + 1. (g, e) \<in> P \<union> set queue" using 2 swap by blast
  ultimately show ?thesis unfolding weighted_def using 3 sorted(1) head by blast
qed

lemma weighted_visit:
  assumes w: "weighted dag predictions m P ((node, depth) # queue) risk" and new: "visited = fst ` P" and risk: "0 \<le> risk"
  shows "weighted dag predictions m (insert (node, depth) P)
    (queue @ map (\<lambda>g. (g, depth + 1)) (filter (\<lambda>g. g \<notin> insert node visited) (sort (get_list dag node))))
    (max risk (prob predictions node * (8 / 10) ^ depth))"
proof -
  let ?kids = "map (\<lambda>g. (g, depth + 1)) (filter (\<lambda>g. g \<notin> insert node visited) (sort (get_list dag node)))"
  let ?P = "insert (node, depth) P"
  from w have
    1: "\<forall>p\<in>set (get_list dag m). \<exists>d\<le>1. (p, d) \<in> P \<union> set ((node, depth) # queue)" and
    2: "\<forall>(n, d)\<in>P. \<forall>g\<in>set (get_list dag n). \<exists>e\<le>d + 1. (g, e) \<in> P \<union> set ((node, depth) # queue)" and
    3: "\<forall>(n, d)\<in>P \<union> set queue. walk_up dag m d n" "walk_up dag m depth node" and
    4: "\<forall>(n, d)\<in>P. d \<le> depth" "\<forall>(n, d)\<in>P. \<forall>(q, e)\<in>set queue. d \<le> e" and
    5: "sorted (map snd queue)" "\<forall>x\<in>set queue. depth \<le> snd x" "\<forall>x\<in>set queue. snd x \<le> depth + 1" and
    6: "\<forall>(n, d)\<in>P. prob predictions n * (8 / 10) ^ d \<le> risk" "risk = 0 \<or> (\<exists>(n, d)\<in>P. risk = prob predictions n * (8 / 10) ^ d)"
    unfolding weighted_def by auto
  have "\<forall>p\<in>set (get_list dag m). \<exists>d\<le>1. (p, d) \<in> ?P \<union> set (queue @ ?kids)" using 1 by fastforce
  moreover have "\<forall>(n, d)\<in>?P. \<forall>g\<in>set (get_list dag n). \<exists>e\<le>d + 1. (g, e) \<in> ?P \<union> set (queue @ ?kids)"
  proof -
    have "\<exists>e\<le>depth + 1. (g, e) \<in> ?P \<union> set (queue @ ?kids)" if g: "g \<in> set (get_list dag node)" for g
    proof (cases "g \<in> insert node visited")
      case True
      then show ?thesis
      proof
        assume "g \<in> visited"
        then obtain e where "(g, e) \<in> P" using new by auto
        moreover from this have "e \<le> depth + 1" using 4(1) by auto
        ultimately show ?thesis by blast
      qed (auto intro: exI[of _ depth])
    qed (use g in auto)
    moreover have "\<forall>(n, d)\<in>P. \<forall>g\<in>set (get_list dag n). \<exists>e\<le>d + 1. (g, e) \<in> ?P \<union> set (queue @ ?kids)" using 2 by fastforce
    ultimately show ?thesis by simp
  qed
  moreover have "\<forall>(n, d)\<in>?P \<union> set (queue @ ?kids). walk_up dag m d n" using 3 by (auto intro: walk_up.step)
  moreover have "\<forall>(n, d)\<in>?P. \<forall>(q, e)\<in>set (queue @ ?kids). d \<le> e" using 4 5(2) by fastforce
  moreover have "sorted (map snd (queue @ ?kids))" using 5 by (auto simp: sorted_append o_def sorted_map)
  moreover have "\<forall>x\<in>set (queue @ ?kids). snd x \<le> snd (hd (queue @ ?kids)) + 1"
  proof
    fix x assume x: "x \<in> set (queue @ ?kids)"
    then have "hd (queue @ ?kids) \<in> set (queue @ ?kids)" by (metis hd_in_set list.set(1) empty_iff)
    then have "depth \<le> snd (hd (queue @ ?kids))" using 5(2) by fastforce
    moreover have "snd x \<le> depth + 1" using x 5(3) by auto
    ultimately show "snd x \<le> snd (hd (queue @ ?kids)) + 1" by simp
  qed
  moreover have "\<forall>(n, d)\<in>?P. prob predictions n * (8 / 10) ^ d \<le> max risk (prob predictions node * (8 / 10) ^ depth)"
    using 6(1) by (auto simp: le_max_iff_disj)
  moreover have "max risk (prob predictions node * (8 / 10) ^ depth) = 0 \<or>
      (\<exists>(n, d)\<in>?P. max risk (prob predictions node * (8 / 10) ^ depth) = prob predictions n * (8 / 10) ^ d)"
    using 6(2) by (auto simp: max_def)
  ultimately show ?thesis unfolding weighted_def by blast
qed

lemma weighted_loop:
  "weighted dag predictions m P queue risk \<Longrightarrow> set visited = fst ` P \<Longrightarrow> 0 \<le> risk \<Longrightarrow>
     \<exists>P'. weighted dag predictions m P' [] (upstream_loop dag predictions queue visited risk) \<and> 0 \<le> upstream_loop dag predictions queue visited risk"
proof (induction dag predictions queue visited risk arbitrary: P rule: upstream_loop.induct)
  case (1 dag predictions visited risk)
  then show ?case by auto
next
  case (2 dag predictions node depth queue visited risk)
  show ?case
  proof (cases "node \<in> set visited")
    case True
    then show ?thesis using 2(1)[OF True weighted_skip[OF 2(3)]] 2(4,5) by simp
  next
    case False
    have "weighted dag predictions m (insert (node, depth) P)
        (queue @ map (\<lambda>g. (g, depth + 1)) (filter (\<lambda>g. g \<notin> set (node # visited)) (sort (get_list dag node))))
        (max risk (prob predictions node * (8 / 10) ^ depth))"
      using weighted_visit[OF 2(3) refl 2(5)] 2(4) by simp
    from 2(2)[OF False this] 2(4,5) False show ?thesis by (simp add: le_max_iff_disj)
  qed
qed

lemma weighted_walks: "weighted dag predictions m P [] risk \<Longrightarrow> walk_up dag m k n \<Longrightarrow> \<exists>d\<le>k. (n, d) \<in> P"
proof (rotate_tac, induction rule: walk_up.induct)
  case (one p)
  then show ?case by (auto simp: weighted_def)
next
  case (step k n g)
  then obtain d where d: "d \<le> k" "(n, d) \<in> P" by blast
  with step have "\<exists>e\<le>d + 1. (g, e) \<in> P" by (fastforce simp: weighted_def)
  with d show ?case by (auto intro: le_trans)
qed

text \<open>The upstream risk is the greatest discounted probability over all walks up the graph.\<close>

lemma upstream_risk_greatest:
  assumes "\<forall>(n, p)\<in>set predictions. 0 \<le> p"
  shows "(\<forall>k n. walk_up dag m k n \<longrightarrow> prob predictions n * (8 / 10) ^ k \<le> compute_upstream_risk m dag predictions) \<and>
    (compute_upstream_risk m dag predictions = 0 \<or>
      (\<exists>k n. walk_up dag m k n \<and> compute_upstream_risk m dag predictions = prob predictions n * (8 / 10) ^ k))"
proof -
  from weighted_loop[OF weighted_start, of "[]" dag predictions m]
  obtain P where w: "weighted dag predictions m P [] (compute_upstream_risk m dag predictions)"
    by (auto simp: compute_upstream_risk_def)
  have nonneg: "0 \<le> prob predictions n" for n
    using assms by (auto simp: prob_def split: option.split dest: map_of_SomeD)
  have "prob predictions n * (8 / 10) ^ k \<le> compute_upstream_risk m dag predictions" if "walk_up dag m k n" for k n
  proof -
    from weighted_walks[OF w that] obtain d where d: "d \<le> k" "(n, d) \<in> P" by blast
    have "prob predictions n * (8 / 10) ^ k \<le> prob predictions n * (8 / 10) ^ d"
      using d(1) nonneg by (intro mult_left_mono power_decreasing) auto
    also have "\<dots> \<le> compute_upstream_risk m dag predictions" using w d(2) by (auto simp: weighted_def)
    finally show ?thesis .
  qed
  moreover have "compute_upstream_risk m dag predictions = 0 \<or>
      (\<exists>k n. walk_up dag m k n \<and> compute_upstream_risk m dag predictions = prob predictions n * (8 / 10) ^ k)"
    using w unfolding weighted_def by blast
  ultimately show ?thesis by blast
qed

lemma critical_iff:
  "is_on_critical_path m dag predictions threshold \<longleftrightarrow> (\<forall>n\<in>insert m (reached dag m). threshold < prob predictions n)"
  using critical_loop_reaches[OF frontier_start, of predictions threshold dag m] by (auto simp: is_on_critical_path_def not_le)

lemma downstream_exact: "set (get_all_downstream m rdag) = reached rdag m \<and> distinct (get_all_downstream m rdag)"
  by (simp add: get_all_downstream_def downstream_loop_reaches frontier_start downstream_loop_distinct)

text \<open>The reverse lists are those of the impact analyzer, and what they reach are the models that reach back.\<close>

lemma scorer_reverse_dag: "scorer_reverse_dag dag = build_reverse_dag dag"
proof -
  have "reverse_parents c ps r = foldl (add_child c) r ps" for c ps r
    by (induction c ps r rule: reverse_parents.induct) (simp_all add: add_child_def Let_def)
  then have "reverse_entries dag r = foldl (\<lambda>reverse (child, parents). foldl (add_child child) reverse parents) r dag" for r
    by (induction dag r rule: reverse_entries.induct) simp_all
  then show ?thesis by (simp add: scorer_reverse_dag_def build_reverse_dag_def)
qed

definition edges :: "adjacency \<Rightarrow> (string \<times> string) set" where "edges dag = {(m, p). p \<in> set (get_list dag m)}"

lemma reached_edges: "reached dag m = (edges dag)\<^sup>+ `` {m}"
proof -
  have "(m, n) \<in> (edges dag)\<^sup>+" if "walk_up dag m k n" for k n
    using that by induction (auto simp: edges_def intro: trancl_into_trancl)
  moreover have "\<exists>k. walk_up dag m k n" if "(m, n) \<in> (edges dag)\<^sup>+" for n
    using that by induction (auto simp: edges_def intro: walk_up.intros)
  ultimately show ?thesis by (auto simp: reached_def)
qed

lemma reverse_reaches:
  assumes "dict_ok dag"
  shows "reached (scorer_reverse_dag dag) m = {n. m \<in> reached dag n}"
proof -
  have none: "get_list (map (\<lambda>(name, _). (name, [])) dag) p = []" for p and dag :: adjacency
    by (induction dag) (auto simp: get_list_def)
  have "(c, ps) \<in> set dag \<and> p \<in> set ps \<Longrightarrow> p \<in> set (get_list dag c)" for c p ps
    using assms by (auto simp: dict_ok_def get_list_def)
  moreover have "p \<in> set (get_list dag c) \<Longrightarrow> \<exists>ps. (c, ps) \<in> set dag \<and> p \<in> set ps" for c p
    by (cases "map_of dag c") (auto simp: get_list_def dest: map_of_SomeD)
  ultimately have "set (get_list (scorer_reverse_dag dag) p) = {c. p \<in> set (get_list dag c)}" for p
    unfolding scorer_reverse_dag build_reverse_dag_def set_reverse_dag_fold none by auto
  then have "edges (scorer_reverse_dag dag) = (edges dag)\<inverse>" by (auto simp: edges_def)
  then show ?thesis unfolding reached_edges by (auto simp: trancl_converse)
qed

text \<open>C36: The fragility scores mean what they say: over any graph (cycles included) whose failure probabilities lie between 0 and 1, the
  model has a score between 0 and 10; its upstream risk is the greatest probability of an ancestor discounted by 0.8 for each step of any
  walk to it; its cascade is its own probability times the number of models that depend on it at any distance, those it is an ancestor of; and it is critical just
  where its own probability and that of every ancestor exceed 0.3.\<close>

theorem fragility_exact:
  assumes "\<forall>(n, p)\<in>set predictions. 0 \<le> p \<and> p \<le> 1"
  shows "\<exists>s r. compute_fragility default_scorer m dag predictions = Some s \<and> 0 \<le> fs_fragility_score s \<and> fs_fragility_score s \<le> 10 \<and>
    (fs_critical_path s \<longleftrightarrow> (\<forall>n\<in>insert m (reached dag m). 3 / 10 < prob predictions n)) \<and>
    fs_cascade_risk s = py_round (of_nat (card (reached (scorer_reverse_dag dag) m)) * prob predictions m) 4 \<and>
    (dict_ok dag \<longrightarrow> reached (scorer_reverse_dag dag) m = {n. m \<in> reached dag n}) \<and>
    fs_upstream_risk s = py_round r 4 \<and> (\<forall>k n. walk_up dag m k n \<longrightarrow> prob predictions n * (8 / 10) ^ k \<le> r) \<and>
    (r = 0 \<or> (\<exists>k n. walk_up dag m k n \<and> r = prob predictions n * (8 / 10) ^ k))"
proof -
  let ?own = "prob predictions m" and ?up = "compute_upstream_risk m dag predictions"
  let ?down = "length (get_all_downstream m (scorer_reverse_dag dag))"
  have probs: "0 \<le> prob predictions n" "prob predictions n \<le> 1" for n
    using assms by (auto simp: prob_def split: option.split dest: map_of_SomeD)
  have up: "(\<forall>k n. walk_up dag m k n \<longrightarrow> prob predictions n * (8 / 10) ^ k \<le> ?up) \<and>
    (?up = 0 \<or> (\<exists>k n. walk_up dag m k n \<and> ?up = prob predictions n * (8 / 10) ^ k))"
    using assms by (intro upstream_risk_greatest) auto
  have up0: "0 \<le> ?up" using up probs(1) by (auto intro: order_trans[of 0])
  have down: "?down = card (reached (scorer_reverse_dag dag) m)"
    using downstream_exact[of m "scorer_reverse_dag dag"] by (metis distinct_card)
  define casc where "casc = min (of_nat ?down * ?own / of_nat (max (length dag) 1)) (1 :: rat)"
  define raw where "raw = 4 / 10 * ?own + 3 / 10 * min ?up 1 + 3 / 10 * casc"
  have casc: "0 \<le> casc" "casc \<le> 1" using probs by (auto simp: casc_def)
  have raw: "0 \<le> raw" using probs(1)[of m] up0 casc by (simp add: raw_def)
  have score: "0 \<le> py_round (min (raw * 10) 10) 2" "py_round (min (raw * 10) 10) 2 \<le> 10"
    using raw py_round_le[of "min (raw * 10) 10" 10 2] by (auto intro: py_round_nonneg)
  have own: "0 \<le> py_round ?own 4" "py_round ?own 4 \<le> 1"
    using probs[of m] py_round_le[of ?own 1 4] by (auto intro: py_round_nonneg)
  have rest: "0 \<le> py_round ?up 4" "0 \<le> py_round (of_nat ?down * ?own) 4" using up0 probs by (auto intro: py_round_nonneg)
  let ?s = "\<lambda>fs. \<lparr>fs_model_name = m, fs_own_risk = py_round ?own 4, fs_upstream_risk = py_round ?up 4,
        fs_cascade_risk = py_round (of_nat ?down * ?own) 4, fs_fragility_score = py_round (min (raw * 10) 10) 2,
        fs_critical_path = is_on_critical_path m dag predictions (3 / 10), fs_risk_factors = fs\<rparr>"
  obtain fs where s: "compute_fragility default_scorer m dag predictions = checked_score (?s fs)"
    by (simp only: compute_fragility_def Let_def default_scorer_def scorer.simps raw_def casc_def)
  have made: "compute_fragility default_scorer m dag predictions = Some (?s fs)"
    unfolding s checked_score_def score_ok_def using score own rest by simp
  show ?thesis
    by (intro exI[of _ "?s fs"] exI[of _ ?up]) (use up score reverse_reaches in \<open>simp add: made critical_iff down[symmetric]\<close>)
qed

text \<open>A diamond with a cycle above it: the low ancestor keeps the model off the critical path, and its risk still counts.\<close>

definition demo_adjacency :: adjacency where
  "demo_adjacency = [(''mart'', [''b'', ''a'']), (''a'', [''raw'']), (''b'', [''a'']), (''raw'', [''raw''])]"

definition demo_probs :: "(string \<times> rat) list" where
  "demo_probs = [(''mart'', 1 / 2), (''a'', 4 / 10), (''b'', 2 / 10), (''raw'', 9 / 10)]"

theorem fragility_exact_witness:
  "\<exists>s. compute_fragility default_scorer ''mart'' demo_adjacency demo_probs = Some s \<and> \<not> fs_critical_path s \<and> 1 / 10 < fs_upstream_risk s"
proof -
  have b: "walk_up demo_adjacency ''mart'' 1 ''b''" by (rule walk_up.one) (simp add: demo_adjacency_def get_list_def)
  have "\<exists>s r. compute_fragility default_scorer ''mart'' demo_adjacency demo_probs = Some s \<and> 0 \<le> fs_fragility_score s \<and> fs_fragility_score s \<le> 10 \<and>
    (fs_critical_path s \<longleftrightarrow> (\<forall>n\<in>insert ''mart'' (reached demo_adjacency ''mart''). 3 / 10 < prob demo_probs n)) \<and>
    fs_cascade_risk s = py_round (of_nat (card (reached (scorer_reverse_dag demo_adjacency) ''mart'')) * prob demo_probs ''mart'') 4 \<and>
    (dict_ok demo_adjacency \<longrightarrow> reached (scorer_reverse_dag demo_adjacency) ''mart'' = {n. ''mart'' \<in> reached demo_adjacency n}) \<and>
    fs_upstream_risk s = py_round r 4 \<and> (\<forall>k n. walk_up demo_adjacency ''mart'' k n \<longrightarrow> prob demo_probs n * (8 / 10) ^ k \<le> r) \<and>
    (r = 0 \<or> (\<exists>k n. walk_up demo_adjacency ''mart'' k n \<and> r = prob demo_probs n * (8 / 10) ^ k))"
    by (rule fragility_exact) (simp add: demo_probs_def)
  then obtain s r where s: "compute_fragility default_scorer ''mart'' demo_adjacency demo_probs = Some s"
    and crit: "fs_critical_path s \<longleftrightarrow> (\<forall>n\<in>insert ''mart'' (reached demo_adjacency ''mart''). 3 / 10 < prob demo_probs n)"
    and r: "fs_upstream_risk s = py_round r 4" "\<forall>k n. walk_up demo_adjacency ''mart'' k n \<longrightarrow> prob demo_probs n * (8 / 10) ^ k \<le> r"
    by (elim exE conjE) (rule that; assumption)
  have "''b'' \<in> reached demo_adjacency ''mart''" unfolding reached_def using b by (intro CollectI exI)
  moreover have low: "prob demo_probs ''b'' = 2 / 10" by (simp add: prob_def demo_probs_def)
  ultimately have "\<not> fs_critical_path s" unfolding crit by (intro notI) (drule bspec[of _ _ "''b''"]; simp)
  moreover have "4 / 25 \<le> r" using r(2)[rule_format, OF b] by (simp add: low)
  with conjunct2[OF iffD1[OF abs_le_iff py_round_error[of r 4]]] have "1 / 10 < py_round r 4" by simp
  ultimately show ?thesis using s r(1) by (intro exI[of _ s]) simp
qed

end
