(* ===== verification/Customer_Health.thy ===== *)
theory Customer_Health
  imports Metering Access
begin

text \<open>
  Customer health: \<^verbatim>\<open>api/services/customer_health_service.py\<close>, its repository and its routes. Scores are rational numbers. The clock is
  read several times in a call: \<open>clock i\<close> is the \<open>i\<close>-th reading. Rows that compare equal in a sorted query come in the table's order.
\<close>

subsection \<open>Scores\<close>

definition score_recency :: "timestamp \<Rightarrow> timestamp option \<Rightarrow> rat \<Rightarrow> rat" where
  "score_recency now dt max_points =
     (case dt of
        None \<Rightarrow> 0
      | Some t \<Rightarrow>
          let age_days = of_int (now - t) / of_int day_us
          in if age_days \<le> 1 then max_points
             else if age_days \<ge> 30 then 0
             else py_round (max_points * (1 - (age_days - 1) / 29)) 2)"

definition classify_status :: "rat \<Rightarrow> string" where
  "classify_status score = (if score \<ge> 60 then ''active'' else if score \<ge> 30 then ''at_risk'' else ''churning'')"

text \<open>\<open>None\<close> is the exception of a difference of a float and a decimal: \<open>decimals\<close> says whether numeric columns are read as decimals.\<close>

definition compute_trend :: "bool \<Rightarrow> rat \<Rightarrow> rat option \<Rightarrow> string option" where
  "compute_trend decimals current previous =
     (case previous of
        None \<Rightarrow> Some ''stable''
      | Some p \<Rightarrow>
          if decimals then None
          else let delta = current - p
               in Some (if delta > 5 then ''improving'' else if delta < -5 then ''declining'' else ''stable''))"

subsection \<open>The table\<close>

record engagement =
  eg_login_recency :: rat
  eg_plan_activity :: rat
  eg_ai_adoption :: rat
  eg_feature_breadth :: rat

record health_row =
  hl_id :: nat
  hl_tenant_id :: string
  hl_health_score :: rat
  hl_health_status :: string
  hl_last_login_at :: "timestamp option"
  hl_last_plan_run_at :: "timestamp option"
  hl_last_ai_call_at :: "timestamp option"
  hl_engagement_metrics :: engagement
  hl_trend_direction :: string
  hl_previous_score :: "rat option"
  hl_computed_at :: timestamp
  hl_updated_at :: timestamp

definition ck_health_status :: "health_row \<Rightarrow> bool" where
  "ck_health_status r \<longleftrightarrow> hl_health_status r \<in> {''active'', ''at_risk'', ''churning''}"

text \<open>The tables a computation reads, and the one it writes.\<close>

record health_db =
  hd_users :: "user_row list"
  hd_usage :: "usage_row list"
  hd_tenants :: "tenant_row list"
  hd_rows :: "health_row list"
  hd_next_id :: nat

definition health_get :: "string \<Rightarrow> health_row list \<Rightarrow> health_row option" where
  "health_get t rows = find (\<lambda>r. hl_tenant_id r = t) rows"

text \<open>The repository's \<^verbatim>\<open>upsert\<close>: the row of the tenant keeps its identifier.\<close>

definition health_upsert :: "health_row \<Rightarrow> health_db \<Rightarrow> health_db" where
  "health_upsert new db =
     (if list_ex (\<lambda>r. hl_tenant_id r = hl_tenant_id new) (hd_rows db)
      then db\<lparr>hd_rows := map (\<lambda>r. if hl_tenant_id r = hl_tenant_id new then new\<lparr>hl_id := hl_id r\<rparr> else r) (hd_rows db)\<rparr>
      else db\<lparr>hd_rows := hd_rows db @ [new\<lparr>hl_id := hd_next_id db\<rparr>], hd_next_id := Suc (hd_next_id db)\<rparr>)"

definition health_list_all :: "string \<Rightarrow> string \<Rightarrow> nat \<Rightarrow> nat \<Rightarrow> health_row list \<Rightarrow> health_row list \<times> nat" where
  "health_list_all status_filter sort_by limit offset rows =
     (let found = filter (\<lambda>r. status_filter = [] \<or> hl_health_status r = status_filter) rows;
          ordered = (if sort_by = ''health_score'' then sort_key hl_health_score found
                     else if sort_by = ''health_score_desc'' then sort_key (\<lambda>r. - hl_health_score r) found
                     else if sort_by = ''updated_at'' then sort_key (\<lambda>r. - hl_updated_at r) found
                     else sort_key hl_tenant_id found)
      in (take limit (drop offset ordered), length found))"

definition get_at_risk_tenants :: "health_row list \<Rightarrow> health_row list" where
  "get_at_risk_tenants rows =
     sort_key hl_health_score (filter (\<lambda>r. hl_health_status r \<in> set [''at_risk'', ''churning'']) rows)"

subsection \<open>The service\<close>

definition sql_max :: "timestamp list \<Rightarrow> timestamp option" where
  "sql_max ts = (case ts of [] \<Rightarrow> None | t # ts \<Rightarrow> Some (foldl max t ts))"

definition last_login :: "string \<Rightarrow> user_row list \<Rightarrow> timestamp option" where
  "last_login t users =
     sql_max (concat (map (\<lambda>u. case us_last_login_at u of None \<Rightarrow> [] | Some i \<Rightarrow> [i])
       (filter (\<lambda>u. us_tenant_id u = t \<and> us_is_active u) users)))"

definition last_event :: "string \<Rightarrow> string \<Rightarrow> usage_row list \<Rightarrow> timestamp option" where
  "last_event ty t usage = sql_max (map ur_created_at (filter (\<lambda>u. ur_tenant_id u = t \<and> ur_event_type u = ty) usage))"

definition feature_score :: "timestamp \<Rightarrow> string \<Rightarrow> usage_row list \<Rightarrow> rat" where
  "feature_score now t usage =
     (let thirty_days_ago = now - 30 * day_us;
          distinct_types = length (remdups (map ur_event_type
            (filter (\<lambda>u. ur_tenant_id u = t \<and> ur_created_at u \<ge> thirty_days_ago) usage)))
      in min 25 (py_round (of_nat distinct_types / 6 * 25) 2))"

text \<open>\<^verbatim>\<open>compute_health_score\<close>; \<open>None\<close> where it raises, before anything is written.\<close>

definition compute_health_score :: "bool \<Rightarrow> (nat \<Rightarrow> timestamp) \<Rightarrow> string \<Rightarrow> health_db \<Rightarrow> health_row option \<times> health_db" where
  "compute_health_score decimals clock t db =
     (let login = last_login t (hd_users db);
          plan_run = last_event ''plan_run'' t (hd_usage db);
          ai_call = last_event ''ai_call'' t (hd_usage db);
          metrics = \<lparr>eg_login_recency = score_recency (clock 1) login 25, eg_plan_activity = score_recency (clock 2) plan_run 25,
            eg_ai_adoption = score_recency (clock 3) ai_call 25, eg_feature_breadth = feature_score (clock 0) t (hd_usage db)\<rparr>;
          total = max 0 (min 100 (py_round (eg_login_recency metrics + eg_plan_activity metrics + eg_ai_adoption metrics +
            eg_feature_breadth metrics) 1));
          previous = map_option hl_health_score (health_get t (hd_rows db))
      in case compute_trend decimals total previous of
           None \<Rightarrow> (None, db)
         | Some trend \<Rightarrow>
             let db' = health_upsert \<lparr>hl_id = 0, hl_tenant_id = t, hl_health_score = total, hl_health_status = classify_status total,
                   hl_last_login_at = login, hl_last_plan_run_at = plan_run, hl_last_ai_call_at = ai_call, hl_engagement_metrics = metrics,
                   hl_trend_direction = trend, hl_previous_score = previous, hl_computed_at = clock 4, hl_updated_at = clock 4\<rparr> db
             in (health_get t (hd_rows db'), db'))"

text \<open>\<^verbatim>\<open>compute_all\<close>: a tenant whose computation raises is passed over.\<close>

fun compute_each :: "bool \<Rightarrow> (string \<Rightarrow> nat \<Rightarrow> timestamp) \<Rightarrow> string list \<Rightarrow> nat \<Rightarrow> health_db \<Rightarrow> nat \<times> health_db" where
  "compute_each decimals clocks [] n db = (n, db)"
| "compute_each decimals clocks (t # ts) n db =
     (case compute_health_score decimals (clocks t) t db of
        (None, db') \<Rightarrow> compute_each decimals clocks ts n db'
      | (Some _, db') \<Rightarrow> compute_each decimals clocks ts (n + 1) db')"

definition compute_all :: "bool \<Rightarrow> (string \<Rightarrow> nat \<Rightarrow> timestamp) \<Rightarrow> health_db \<Rightarrow> nat \<times> health_db" where
  "compute_all decimals clocks db =
     compute_each decimals clocks (map tn_tenant_id (tenant_list_all False (hd_tenants db))) 0 db"

text \<open>The answer holds every field of the row but its identifier.\<close>

definition get_health_detail :: "string \<Rightarrow> health_row list \<Rightarrow> health_row option" where
  "get_health_detail t rows = map_option (\<lambda>r. r\<lparr>hl_id := 0\<rparr>) (health_get t rows)"

record health_listing =
  hg_tenants :: "health_row list"
  hg_total :: nat
  hg_active :: nat
  hg_at_risk :: nat
  hg_churning :: nat

definition list_tenants :: "string \<Rightarrow> string \<Rightarrow> nat \<Rightarrow> nat \<Rightarrow> health_row list \<Rightarrow> health_listing" where
  "list_tenants status_filter sort_by limit offset rows =
     (let (found, total) = health_list_all status_filter sort_by limit offset rows;
          cnt = (\<lambda>s. length (filter (\<lambda>r. hl_health_status r = s) rows))
      in \<lparr>hg_tenants = found, hg_total = total, hg_active = cnt ''active'', hg_at_risk = cnt ''at_risk'', hg_churning = cnt ''churning''\<rparr>)"

subsection \<open>The routes\<close>

definition route_list_health ::
  "request_state \<Rightarrow> string \<Rightarrow> string \<Rightarrow> nat \<Rightarrow> nat \<Rightarrow> health_row list \<Rightarrow> http_error + health_listing" where
  "route_list_health req status sort_by limit offset rows =
     (case require_permission MANAGE_HEALTH req of
        Inl e \<Rightarrow> Inl e
      | Inr r \<Rightarrow>
          if limit < 1 \<or> 500 < limit \<or> 100000 < offset then Inl (HTTPException 422)
          else if status \<noteq> [] \<and> status \<notin> set [''active'', ''at_risk'', ''churning''] then Inl (HTTPException 400)
          else Inr (list_tenants status sort_by limit offset rows))"

definition route_tenant_health :: "request_state \<Rightarrow> string \<Rightarrow> health_row list \<Rightarrow> http_error + health_row" where
  "route_tenant_health req t rows =
     (case require_permission MANAGE_HEALTH req of
        Inl e \<Rightarrow> Inl e
      | Inr r \<Rightarrow> (case get_health_detail t rows of None \<Rightarrow> Inl (HTTPException 404) | Some row \<Rightarrow> Inr row))"

definition route_compute_health ::
  "bool \<Rightarrow> (string \<Rightarrow> nat \<Rightarrow> timestamp) \<Rightarrow> request_state \<Rightarrow> health_db \<Rightarrow> (http_error + nat) \<times> health_db" where
  "route_compute_health decimals clocks req db =
     (case require_permission MANAGE_HEALTH req of
        Inl e \<Rightarrow> (Inl e, db)
      | Inr r \<Rightarrow> (let (n, db') = compute_all decimals clocks db in (Inr n, db')))"

subsection \<open>Scores are bounded and follow recency\<close>

lemma day_positive: "0 < day_us" by (simp add: day_us_def microseconds_per_second_def)

lemma recency_scaled: "1 \<le> a \<Longrightarrow> a \<le> 30 \<Longrightarrow> 0 \<le> 25 * (1 - (a - 1) / 29) \<and> 25 * (1 - (a - 1) / 29) \<le> (25 :: rat)"
  by (simp add: field_simps)

text \<open>The points of an age in days.\<close>

definition recency_points :: "rat \<Rightarrow> rat" where
  "recency_points a = (if a \<le> 1 then 25 else if a \<ge> 30 then 0 else py_round (25 * (1 - (a - 1) / 29)) 2)"

lemma recency_points_bounds: "0 \<le> recency_points a \<and> recency_points a \<le> 25"
  using py_round_between[of 0 _ 25 2] recency_scaled[of a] by (simp add: recency_points_def not_le)

lemma recency_points_anti: "b \<le> a \<Longrightarrow> recency_points a \<le> recency_points b"
proof -
  assume ba: "b \<le> a"
  then have "py_round (25 * (1 - (a - 1) / 29)) 2 \<le> py_round (25 * (1 - (b - 1) / 29)) 2" by (intro py_round_mono) simp
  with ba recency_points_bounds[of a] recency_points_bounds[of b] show ?thesis by (simp add: recency_points_def split: if_splits)
qed

lemma score_recency_points: "score_recency now (Some t) 25 = recency_points (of_int (now - t) / of_int day_us)"
  by (simp only: score_recency_def option.case Let_def recency_points_def)

lemma score_recency_bounds: "0 \<le> score_recency now dt 25 \<and> score_recency now dt 25 \<le> 25"
  by (cases dt) (simp_all add: score_recency_points recency_points_bounds score_recency_def[of now None])

lemma score_recency_mono: "t \<le> t' \<Longrightarrow> score_recency now (Some t) 25 \<le> score_recency now (Some t') 25"
  using day_positive by (simp add: score_recency_points recency_points_anti divide_right_mono)

lemma sql_max_eq: "sql_max ts = (if ts = [] then None else Some (Max (set ts)))"
proof -
  have "foldl max t xs = Max (insert t (set xs))" for t and xs :: "timestamp list"
    by (induction xs rule: rev_induct) (auto simp: max.commute insert_commute[of t])
  then show ?thesis by (cases ts) (simp_all add: sql_max_def)
qed

lemma score_recency_max_append: "score_recency now (sql_max ts) 25 \<le> score_recency now (sql_max (ts @ us)) 25"
proof (cases "ts = []")
  case True
  then show ?thesis using score_recency_bounds by (simp add: sql_max_def[of "[]"] score_recency_def[of now None])
next
  case False
  then have "Max (set ts) \<le> Max (set (ts @ us))" by (intro Max_mono) auto
  from score_recency_mono[OF this] False show ?thesis by (simp add: sql_max_eq)
qed

lemma feature_score_bounds: "0 \<le> feature_score now t usage \<and> feature_score now t usage \<le> 25"
  by (simp add: feature_score_def Let_def py_round_nonneg)

lemma feature_score_append: "feature_score now t usage \<le> feature_score now t (usage @ extra)"
  unfolding feature_score_def Let_def
  by (intro min.mono py_round_mono mult_right_mono divide_right_mono) (auto simp: length_remdups_card_conv intro!: card_mono)

text \<open>What a computed row says.\<close>

definition total_of :: "engagement \<Rightarrow> rat" where
  "total_of m = py_round (eg_login_recency m + eg_plan_activity m + eg_ai_adoption m + eg_feature_breadth m) 1"

definition health_row_ok :: "health_row \<Rightarrow> bool" where
  "health_row_ok r \<longleftrightarrow>
     hl_health_score r = total_of (hl_engagement_metrics r) \<and> 0 \<le> hl_health_score r \<and> hl_health_score r \<le> 100 \<and>
     hl_health_status r = classify_status (hl_health_score r) \<and> ck_health_status r \<and>
     compute_trend False (hl_health_score r) (hl_previous_score r) = Some (hl_trend_direction r)"

lemma ck_classified: "hl_health_status r = classify_status x \<Longrightarrow> ck_health_status r"
  by (simp add: ck_health_status_def classify_status_def)

lemma health_upsert_rows:
  "distinct (map hl_tenant_id (hd_rows db)) \<Longrightarrow>
     distinct (map hl_tenant_id (hd_rows (health_upsert new db))) \<and>
     health_get t (hd_rows (health_upsert new db)) =
       (if t = hl_tenant_id new
        then Some (new\<lparr>hl_id := (case health_get t (hd_rows db) of None \<Rightarrow> hd_next_id db | Some r \<Rightarrow> hl_id r)\<rparr>)
        else health_get t (hd_rows db))"
proof -
  assume d: "distinct (map hl_tenant_id (hd_rows db))"
  have map: "map hl_tenant_id (map (\<lambda>r. if hl_tenant_id r = hl_tenant_id new then new\<lparr>hl_id := hl_id r\<rparr> else r) rows) = map hl_tenant_id rows"
    for rows by (induction rows) auto
  have found: "find (\<lambda>r. hl_tenant_id r = x) (map (\<lambda>r. if hl_tenant_id r = hl_tenant_id new then new\<lparr>hl_id := hl_id r\<rparr> else r) rows) =
      (case find (\<lambda>r. hl_tenant_id r = x) rows of None \<Rightarrow> None | Some r \<Rightarrow> Some (if x = hl_tenant_id new then new\<lparr>hl_id := hl_id r\<rparr> else r))"
    for x rows by (induction rows) auto
  have app: "find (\<lambda>r. hl_tenant_id r = x) (rows @ [r']) =
      (case find (\<lambda>r. hl_tenant_id r = x) rows of None \<Rightarrow> if hl_tenant_id r' = x then Some r' else None | Some r \<Rightarrow> Some r)"
    for x rows r' by (induction rows) auto
  have some: "list_ex (\<lambda>r. hl_tenant_id r = x) rows \<longleftrightarrow> find (\<lambda>r. hl_tenant_id r = x) rows \<noteq> None" for x rows
    by (induction rows) auto
  have "distinct (map hl_tenant_id (hd_rows (health_upsert new db)))"
    using d map[of "hd_rows db"] by (auto simp: health_upsert_def list_ex_iff simp del: map_map)
  moreover have "health_get t (hd_rows (health_upsert new db)) =
      (if t = hl_tenant_id new
       then Some (new\<lparr>hl_id := (case health_get t (hd_rows db) of None \<Rightarrow> hd_next_id db | Some r \<Rightarrow> hl_id r)\<rparr>)
       else health_get t (hd_rows db))"
    by (auto simp: health_upsert_def health_get_def some found app  split: option.splits)
  ultimately show ?thesis ..
qed

lemma health_upsert_frame [simp]:
  "hd_users (health_upsert new db) = hd_users db" "hd_usage (health_upsert new db) = hd_usage db"
  "hd_tenants (health_upsert new db) = hd_tenants db"
  by (simp_all add: health_upsert_def)

text \<open>The metrics that a computation finds.\<close>

definition metrics_of :: "(nat \<Rightarrow> timestamp) \<Rightarrow> string \<Rightarrow> health_db \<Rightarrow> engagement" where
  "metrics_of clock t db =
     \<lparr>eg_login_recency = score_recency (clock 1) (last_login t (hd_users db)) 25,
      eg_plan_activity = score_recency (clock 2) (last_event ''plan_run'' t (hd_usage db)) 25,
      eg_ai_adoption = score_recency (clock 3) (last_event ''ai_call'' t (hd_usage db)) 25,
      eg_feature_breadth = feature_score (clock 0) t (hd_usage db)\<rparr>"

lemma total_of_bounds: "0 \<le> total_of (metrics_of clock t db) \<and> total_of (metrics_of clock t db) \<le> 100"
proof -
  have "0 \<le> score_recency now dt 25" "score_recency now dt 25 \<le> 25" for now dt using score_recency_bounds by simp_all
  note r = this[of "clock 1" "last_login t (hd_users db)"] this[of "clock 2" "last_event ''plan_run'' t (hd_usage db)"]
    this[of "clock 3" "last_event ''ai_call'' t (hd_usage db)"]
  show ?thesis
    using py_round_between[of 0 _ 100 1] r feature_score_bounds[of "clock 0" t "hd_usage db"]
    by (simp add: total_of_def metrics_of_def)
qed

lemma float_trend: "\<exists>trend. compute_trend False x previous = Some trend"
  by (cases previous) (simp_all add: compute_trend_def Let_def)

lemma compute_health_score_cases:
  assumes "distinct (map hl_tenant_id (hd_rows db))"
  obtains (raised) "compute_health_score decimals clock t db = (None, db)" "decimals" "health_get t (hd_rows db) \<noteq> None"
    | (computed) new db' where "compute_health_score decimals clock t db = (Some new, db')" "hl_tenant_id new = t"
        "health_row_ok new" "hl_health_score new = total_of (metrics_of clock t db)"
        "hl_previous_score new = map_option hl_health_score (health_get t (hd_rows db))"
        "decimals \<longrightarrow> health_get t (hd_rows db) = None"
        "distinct (map hl_tenant_id (hd_rows db'))"
        "\<And>u. health_get u (hd_rows db') = (if u = t then Some new else health_get u (hd_rows db))"
        "hd_tenants db' = hd_tenants db"
proof (cases "decimals \<and> health_get t (hd_rows db) \<noteq> None")
  case True
  then have "compute_health_score decimals clock t db = (None, db)" by (auto simp: compute_health_score_def compute_trend_def)
  with True raised show ?thesis by blast
next
  case False
  let ?total = "total_of (metrics_of clock t db)" and ?prev = "map_option hl_health_score (health_get t (hd_rows db))"
  have "compute_trend decimals ?total ?prev = compute_trend False ?total ?prev"
    using False by (auto simp: compute_trend_def split: option.splits)
  moreover obtain trend where trend: "compute_trend False ?total ?prev = Some trend"
    using float_trend by blast
  ultimately have trend': "compute_trend decimals ?total ?prev = Some trend" by simp
  define new where "new = \<lparr>hl_id = 0, hl_tenant_id = t, hl_health_score = ?total, hl_health_status = classify_status ?total,
     hl_last_login_at = last_login t (hd_users db), hl_last_plan_run_at = last_event ''plan_run'' t (hd_usage db),
     hl_last_ai_call_at = last_event ''ai_call'' t (hd_usage db), hl_engagement_metrics = metrics_of clock t db,
     hl_trend_direction = trend, hl_previous_score = ?prev, hl_computed_at = clock 4, hl_updated_at = clock 4\<rparr>"
  let ?new = "new\<lparr>hl_id := (case health_get t (hd_rows db) of None \<Rightarrow> hd_next_id db | Some r \<Rightarrow> hl_id r)\<rparr>"
  have clip: "max 0 (min 100 ?total) = ?total" using total_of_bounds by simp
  note up = health_upsert_rows[OF assms, of new]
  have step: "compute_health_score decimals clock t db = (Some ?new, health_upsert new db)"
    unfolding compute_health_score_def Let_def
    using up[of t] trend' clip by (simp add: new_def total_of_def metrics_of_def)
  have ok: "health_row_ok ?new"
    using total_of_bounds trend by (simp add: health_row_ok_def new_def ck_health_status_def classify_status_def)
  show ?thesis
    by (rule computed[OF step]) (use up ok False in \<open>auto simp: new_def\<close>)
qed

subsection \<open>Any history\<close>

datatype health_step =
    Compute "string \<Rightarrow> nat \<Rightarrow> timestamp" request_state
  | Others "user_row list" "usage_row list" "tenant_row list"

fun health_after :: "bool \<Rightarrow> health_step \<Rightarrow> health_db \<Rightarrow> health_db" where
  "health_after decimals (Compute clocks req) db = snd (route_compute_health decimals clocks req db)"
| "health_after decimals (Others users usage tenants) db = db\<lparr>hd_users := users, hd_usage := usage, hd_tenants := tenants\<rparr>"

text \<open>What each computed row keeps: an invariant of the table and of one tenant's row.\<close>

definition health_inv :: "health_db \<Rightarrow> bool" where
  "health_inv db \<longleftrightarrow> distinct (map hl_tenant_id (hd_rows db)) \<and> (\<forall>t r. health_get t (hd_rows db) = Some r \<longrightarrow> health_row_ok r)"

lemma compute_each_inv: "health_inv db \<Longrightarrow> health_inv (snd (compute_each decimals clocks ts n db))"
proof (induction decimals clocks ts n db rule: compute_each.induct)
  case (2 decimals clocks t ts n db)
  from 2(3) have d: "distinct (map hl_tenant_id (hd_rows db))" by (simp add: health_inv_def)
  show ?case
  proof (cases rule: compute_health_score_cases[OF d, of decimals "clocks t" t, case_names raised computed])
    case raised
    then show ?thesis using 2 by simp
  next
    case (computed new db')
    have "health_inv db'" using computed 2(3) by (simp add: health_inv_def)
    then show ?thesis using 2(2)[OF computed(1)[symmetric] refl] computed(1) by simp
  qed
qed simp

lemma compute_each_frozen:
  "distinct (map hl_tenant_id (hd_rows db)) \<Longrightarrow> health_get u (hd_rows db) = Some r \<Longrightarrow>
     distinct (map hl_tenant_id (hd_rows (snd (compute_each True clocks ts n db)))) \<and>
     health_get u (hd_rows (snd (compute_each True clocks ts n db))) = Some r"
proof (induction "True" clocks ts n db rule: compute_each.induct)
  case (2 clocks t ts n db)
  show ?case
  proof (cases rule: compute_health_score_cases[OF 2(3), of True "clocks t" t, case_names raised computed])
    case raised
    then show ?thesis using 2 by simp
  next
    case (computed new db')
    have "health_get u (hd_rows db') = Some r" using computed(6,8) 2(4) by auto
    with 2(2)[OF computed(1)[symmetric] refl computed(7) this] computed(1) show ?thesis by simp
  qed
qed simp

lemma route_compute_rows:
  "snd (route_compute_health decimals clocks req db) = db \<or>
   snd (route_compute_health decimals clocks req db) =
     snd (compute_each decimals clocks (map tn_tenant_id (tenant_list_all False (hd_tenants db))) 0 db)"
  by (simp add: route_compute_health_def compute_all_def split_def Let_def split: sum.split)

lemma health_after_inv: "health_inv db \<Longrightarrow> health_inv (health_after decimals s db)"
proof (cases s)
  case (Compute clocks req)
  assume inv: "health_inv db"
  from route_compute_rows[of decimals clocks req db] show ?thesis
    using Compute inv compute_each_inv[OF inv] by auto
qed (simp add: health_inv_def)

text \<open>The health table is consistent: after any recomputations by anybody, at any instants and over any users, usage and tenants, each
  tenant has at most one row; its score is the rounded sum of its four metrics and lies between 0 and 100, its status is that of the
  score, and its trend that of the score against the previous one.\<close>

theorem health_records_consistent:
  assumes "hd_rows db = []" and "rows = hd_rows (fold (health_after decimals) steps db)"
  shows "distinct (map hl_tenant_id rows) \<and> list_all health_row_ok rows"
proof -
  have "health_inv (fold (health_after decimals) steps db')" if "health_inv db'" for db'
    using that by (induction steps arbitrary: db') (simp_all add: health_after_inv)
  from this[of db] assms have inv: "distinct (map hl_tenant_id rows)" "\<And>t r. health_get t rows = Some r \<Longrightarrow> health_row_ok r"
    by (simp_all add: health_inv_def health_get_def)
  have "health_get (hl_tenant_id r) rows = Some r" if "r \<in> set rows" for r
    using that inv(1) unfolding health_get_def by (induction rows) auto
  with inv show ?thesis by (fastforce simp: list_all_iff)
qed

definition health_admin :: request_state where "health_admin = \<lparr>rq_role = Some ''admin'', rq_sub = Some ''u''\<rparr>"

theorem health_records_consistent_witness:
  "\<exists>r. hd_rows (health_after False (Compute (\<lambda>t i. 0) health_admin)
      \<lparr>hd_users = [], hd_usage = [\<lparr>ur_event_id = ''e'', ur_tenant_id = ''acme'', ur_event_type = ''plan_run'', ur_quantity = 1, ur_created_at = 0\<rparr>],
       hd_tenants = [new_tenant 0 ''acme'' True ''u''], hd_rows = [], hd_next_id = 1\<rparr>) = [r] \<and>
     health_row_ok r \<and> hl_health_status r = ''churning''"
proof -
  let ?db = "\<lparr>hd_users = [], hd_usage = [\<lparr>ur_event_id = ''e'', ur_tenant_id = ''acme'', ur_event_type = ''plan_run'', ur_quantity = 1, ur_created_at = 0\<rparr>],
    hd_tenants = [new_tenant 0 ''acme'' True ''u''], hd_rows = [], hd_next_id = 1\<rparr>"
  let ?step = "Compute (\<lambda>t i. 0) health_admin"
  have "list_all health_row_ok (hd_rows (fold (health_after False) [?step] ?db))"
    using health_records_consistent[of ?db "hd_rows (fold (health_after False) [?step] ?db)" False "[?step]"] by simp
  moreover have "map (\<lambda>r. (hl_tenant_id r, hl_health_status r)) (hd_rows (health_after False ?step ?db)) = [(''acme'', ''churning'')]" by code_simp
  ultimately show ?thesis by auto
qed

text \<open>Where numeric columns are read as decimals, a score can be computed once: every later computation raises and is passed over.\<close>

theorem health_frozen_by_decimals:
  assumes "distinct (map hl_tenant_id (hd_rows db))" and "health_get t (hd_rows db) = Some r"
  shows "health_get t (hd_rows (fold (health_after True) steps db)) = Some r"
proof -
  have "distinct (map hl_tenant_id (hd_rows (health_after True s db'))) \<and> health_get t (hd_rows (health_after True s db')) = Some r"
    if "distinct (map hl_tenant_id (hd_rows db'))" "health_get t (hd_rows db') = Some r" for s db'
  proof (cases s)
    case (Compute clocks req)
    with compute_each_frozen[OF that, of clocks _ 0] that route_compute_rows[of True clocks req db'] show ?thesis by auto
  qed (use that in simp)
  then show ?thesis using assms by (induction steps arbitrary: db) simp_all
qed

text \<open>More usage never lowers a score computed at the same instants.\<close>

theorem activity_never_lowers_score:
  assumes "distinct (map hl_tenant_id (hd_rows db))"
    and "compute_health_score False clock t db = (Some r, db1)"
    and "compute_health_score False clock t (db\<lparr>hd_usage := hd_usage db @ extra\<rparr>) = (Some r', db2)"
  shows "hl_health_score r \<le> hl_health_score r'"
proof -
  let ?db = "db\<lparr>hd_usage := hd_usage db @ extra\<rparr>"
  have score: "hl_health_score new = total_of (metrics_of clock t d)"
    if "distinct (map hl_tenant_id (hd_rows d))" "compute_health_score False clock t d = (Some new, d')" for d d' new
    by (cases rule: compute_health_score_cases[OF that(1), of False clock t]) (use that(2) in auto)
  have events: "score_recency (clock i) (last_event ty t (hd_usage db)) 25 \<le> score_recency (clock i) (last_event ty t (hd_usage db @ extra)) 25"
    for i ty using score_recency_max_append by (simp add: last_event_def)
  have "total_of (metrics_of clock t db) \<le> total_of (metrics_of clock t ?db)"
    unfolding total_of_def metrics_of_def
    by (intro py_round_mono) (simp add: add_mono events feature_score_append)
  with score[OF assms(1,2)] score[of ?db r' db2] assms(1,3) show ?thesis by simp
qed

end
