(* ===== verification/Cost_Series.thy ===== *)
theory Cost_Series
  imports Complex_Main Prelude
begin

text \<open>
  The two statistics of the AI engine over cost histories: \<^verbatim>\<open>ai_engine/ai_engine/engines/cost_anomaly.py\<close> and
  \<^verbatim>\<open>cost_forecaster.py\<close>. Costs are real numbers, since both take square roots: the lemmas are about exact arithmetic, and the
  rounding of the program's floats, which matters where costs are nearly equal, is left out. The suggestions carry their numbers instead of text.
\<close>

subsection \<open>Rounding\<close>

definition half_even :: "real \<Rightarrow> int" where
  "half_even x =
     (let f = \<lfloor>x\<rfloor>; d = x - of_int f
      in if d < 1 / 2 then f else if d > 1 / 2 then f + 1 else if even f then f else f + 1)"

definition rounded :: "real \<Rightarrow> nat \<Rightarrow> real" where
  "rounded x n = of_int (half_even (x * 10 ^ n)) / 10 ^ n"

lemma half_even_mono: "x \<le> y \<Longrightarrow> half_even x \<le> half_even y"
proof -
  assume xy: "x \<le> y"
  then have le: "\<lfloor>x\<rfloor> \<le> \<lfloor>y\<rfloor>" by (rule floor_mono)
  show ?thesis
  proof (cases "\<lfloor>x\<rfloor> = \<lfloor>y\<rfloor>")
    case True
    with xy show ?thesis by (simp add: half_even_def Let_def)
  next
    case False
    then have "\<lfloor>x\<rfloor> + 1 \<le> \<lfloor>y\<rfloor>" using le by simp
    moreover have "half_even x \<le> \<lfloor>x\<rfloor> + 1" "\<lfloor>y\<rfloor> \<le> half_even y" by (simp_all add: half_even_def Let_def)
    ultimately show ?thesis by simp
  qed
qed

lemma rounded_mono: "x \<le> y \<Longrightarrow> rounded x n \<le> rounded y n"
  by (simp add: rounded_def divide_right_mono half_even_mono)

lemma half_even_int [simp]: "half_even (of_int k) = k"
  by (simp add: half_even_def)

lemma rounded_rounded [simp]: "rounded (rounded x n) n = rounded x n"
  by (simp add: rounded_def)

lemma rounded_zero [simp]: "rounded 0 n = 0"
  using half_even_int[of 0] by (simp add: rounded_def)

lemma rounded_nonneg: "0 \<le> x \<Longrightarrow> 0 \<le> rounded x n"
  using rounded_mono[of 0 x n] by simp

subsection \<open>Anomalies\<close>

datatype anomaly_type = No_Anomaly | Spike | Drop

datatype severity = No_Severity | Minor | Major | Critical

datatype investigation =
    Insufficient_Data
  | Nothing_Found
  | Spike_Found severity real real real
  | Drop_Found severity real real real

record anomaly_report =
  an_model_name :: string
  an_is_anomaly :: bool
  an_anomaly_type :: anomaly_type
  an_severity :: severity
  an_z_score :: real
  an_percentile :: real
  an_suggested_investigation :: investigation

record detector =
  dt_minor :: real
  dt_major :: real
  dt_critical :: real
  dt_iqr_factor :: real

definition default_detector :: detector where
  "default_detector = \<lparr>dt_minor = 2, dt_major = 3, dt_critical = 4, dt_iqr_factor = 3 / 2\<rparr>"

definition mean :: "real list \<Rightarrow> real" where "mean xs = sum_list xs / of_nat (length xs)"

definition variance :: "real list \<Rightarrow> real" where
  "variance xs = sum_list (map (\<lambda>x. (x - mean xs)\<^sup>2) xs) / of_nat (length xs)"

definition z_score_of :: "real list \<Rightarrow> real \<Rightarrow> real" where
  "z_score_of xs x =
     (let std_dev = (if variance xs > 0 then sqrt (variance xs) else 0)
      in if std_dev > 0 then (x - mean xs) / std_dev else 0)"

text \<open>Linear interpolation between the two neighbours of the rank.\<close>

definition percentile :: "real list \<Rightarrow> real \<Rightarrow> real" where
  "percentile sorted_data p =
     (if sorted_data = [] then 0
      else let n = length sorted_data;
               k = (p / 100) * (of_nat n - 1);
               floor_k = nat \<lfloor>k\<rfloor>;
               ceil_k = min (floor_k + 1) (n - 1);
               frac = k - of_nat floor_k
           in sorted_data ! floor_k + frac * (sorted_data ! ceil_k - sorted_data ! floor_k))"

definition iqr_anomaly :: "detector \<Rightarrow> real list \<Rightarrow> real \<Rightarrow> bool" where
  "iqr_anomaly dt xs x =
     (let q1 = percentile (sort xs) 25;
          q3 = percentile (sort xs) 75;
          iqr = q3 - q1
      in x < q1 - dt_iqr_factor dt * iqr \<or> x > q3 + dt_iqr_factor dt * iqr)"

definition percentile_rank :: "real list \<Rightarrow> real \<Rightarrow> real" where
  "percentile_rank xs x =
     rounded ((of_nat (length (filter (\<lambda>c. c < x) xs)) + 1 / 2 * of_nat (length (filter (\<lambda>c. c = x) xs))) / of_nat (length xs) * 100) 2"

definition severity_of :: "detector \<Rightarrow> real \<Rightarrow> severity" where
  "severity_of dt abs_z = (if abs_z \<ge> dt_critical dt then Critical else if abs_z \<ge> dt_major dt then Major else Minor)"

definition detect :: "detector \<Rightarrow> string \<Rightarrow> real list \<Rightarrow> real option \<Rightarrow> anomaly_report" where
  "detect dt model_name cost_history latest_cost =
     (if length cost_history < 3
      then \<lparr>an_model_name = model_name, an_is_anomaly = False, an_anomaly_type = No_Anomaly, an_severity = No_Severity, an_z_score = 0,
            an_percentile = 50, an_suggested_investigation = Insufficient_Data\<rparr>
      else let latest = (case latest_cost of None \<Rightarrow> last cost_history | Some c \<Rightarrow> c);
               z = z_score_of cost_history latest;
               rank = percentile_rank cost_history latest
           in if \<bar>z\<bar> \<ge> dt_minor dt \<or> iqr_anomaly dt cost_history latest
              then let sev = severity_of dt \<bar>z\<bar>
                   in \<lparr>an_model_name = model_name, an_is_anomaly = True, an_anomaly_type = (if z > 0 then Spike else Drop), an_severity = sev,
                       an_z_score = rounded z 4, an_percentile = rank,
                       an_suggested_investigation =
                         (if z > 0 then Spike_Found sev latest \<bar>z\<bar> (mean cost_history) else Drop_Found sev latest \<bar>z\<bar> (mean cost_history))\<rparr>
              else \<lparr>an_model_name = model_name, an_is_anomaly = False, an_anomaly_type = No_Anomaly, an_severity = No_Severity,
                    an_z_score = rounded z 4, an_percentile = rank, an_suggested_investigation = Nothing_Found\<rparr>)"

text \<open>The worst first, and the farthest first within a severity: two stable sorts, the second by the first part of the key.\<close>

definition severity_order :: "severity \<Rightarrow> nat" where
  "severity_order s = (case s of Critical \<Rightarrow> 0 | Major \<Rightarrow> 1 | Minor \<Rightarrow> 2 | No_Severity \<Rightarrow> 3)"

definition detect_batch :: "detector \<Rightarrow> (string \<times> real list) list \<Rightarrow> anomaly_report list" where
  "detect_batch dt models =
     sort_key (\<lambda>r. severity_order (an_severity r))
       (sort_key (\<lambda>r. - \<bar>an_z_score r\<bar>) (map (\<lambda>(name, history). detect dt name history None) (sort_key fst models)))"

subsection \<open>Forecasts\<close>

datatype trend_direction = Increasing | Decreasing | Stable

record cost_forecast =
  cf_model_name :: string
  cf_projected_7d_total :: real
  cf_projected_30d_total :: real
  cf_trend_direction :: trend_direction
  cf_confidence_interval :: "real \<times> real"
  cf_smoothing_factor :: real

record forecaster =
  fc_alpha :: real
  fc_trend_threshold :: real

definition default_forecaster :: forecaster where
  "default_forecaster = \<lparr>fc_alpha = 3 / 10, fc_trend_threshold = 5 / 100\<rparr>"

text \<open>The bounds of the fields: a forecast outside them is refused.\<close>

definition checked_forecast :: "cost_forecast \<Rightarrow> cost_forecast option" where
  "checked_forecast f =
     (if 0 \<le> cf_projected_7d_total f \<and> 0 \<le> cf_projected_30d_total f \<and> 0 \<le> cf_smoothing_factor f \<and> cf_smoothing_factor f \<le> 1
      then Some f else None)"

fun smooth_from :: "real \<Rightarrow> real \<Rightarrow> real list \<Rightarrow> real list" where
  "smooth_from alpha s [] = []"
| "smooth_from alpha s (y # ys) = (let s' = alpha * y + (1 - alpha) * s in s' # smooth_from alpha s' ys)"

definition exponential_smooth :: "real \<Rightarrow> real list \<Rightarrow> real list" where
  "exponential_smooth alpha xs = hd xs # smooth_from alpha (hd xs) (tl xs)"

definition detect_trend :: "forecaster \<Rightarrow> real list \<Rightarrow> trend_direction" where
  "detect_trend fc smoothed =
     (if length smoothed < 2 then Stable
      else let slope = (last smoothed - hd smoothed) / (of_nat (length smoothed) - 1);
               m = mean smoothed
           in if m = 0 then Stable
              else if slope / m > fc_trend_threshold fc then Increasing
              else if slope / m < - fc_trend_threshold fc then Decreasing
              else Stable)"

definition forecast :: "forecaster \<Rightarrow> string \<Rightarrow> real list \<Rightarrow> real \<Rightarrow> cost_forecast option" where
  "forecast fc model_name cost_history runs_per_day =
     (case cost_history of
        [] \<Rightarrow> checked_forecast \<lparr>cf_model_name = model_name, cf_projected_7d_total = 0, cf_projected_30d_total = 0, cf_trend_direction = Stable,
                 cf_confidence_interval = (0, 0), cf_smoothing_factor = fc_alpha fc\<rparr>
      | [c] \<Rightarrow>
          let daily_cost = c * runs_per_day
          in checked_forecast \<lparr>cf_model_name = model_name, cf_projected_7d_total = rounded (daily_cost * 7) 4,
               cf_projected_30d_total = rounded (daily_cost * 30) 4, cf_trend_direction = Stable,
               cf_confidence_interval = (rounded (daily_cost * 7 * (1 / 2)) 4, rounded (daily_cost * 7 * (3 / 2)) 4),
               cf_smoothing_factor = fc_alpha fc\<rparr>
      | _ \<Rightarrow>
          let smoothed = exponential_smooth (fc_alpha fc) cost_history;
              daily_cost = last smoothed * runs_per_day;
              projected_7d = rounded (daily_cost * 7) 4;
              errors = map (\<lambda>(actual, pred). \<bar>actual - pred\<bar>) (zip (tl cost_history) (butlast smoothed));
              error_std = (if errors \<noteq> [] then sqrt (variance errors) else last smoothed * (1 / 10));
              margin = 196 / 100 * error_std * sqrt 7 * runs_per_day
          in checked_forecast \<lparr>cf_model_name = model_name, cf_projected_7d_total = projected_7d,
               cf_projected_30d_total = rounded (daily_cost * 30) 4, cf_trend_direction = detect_trend fc smoothed,
               cf_confidence_interval = (rounded (max (projected_7d - margin) 0) 4, rounded (projected_7d + margin) 4),
               cf_smoothing_factor = fc_alpha fc\<rparr>)"

fun forecast_all :: "forecaster \<Rightarrow> (string \<times> real list) list \<Rightarrow> real \<Rightarrow> cost_forecast list option" where
  "forecast_all fc [] runs_per_day = Some []"
| "forecast_all fc ((name, history) # models) runs_per_day =
     (case forecast fc name history runs_per_day of
        None \<Rightarrow> None
      | Some f \<Rightarrow> map_option ((#) f) (forecast_all fc models runs_per_day))"

definition aggregate_name :: string where "aggregate_name = ''__aggregate__''"

definition aggregate_trend :: "trend_direction list \<Rightarrow> trend_direction" where
  "aggregate_trend directions =
     (let inc = count_list directions Increasing; dec = count_list directions Decreasing
      in if dec < inc \<and> length directions < 2 * inc then Increasing
         else if inc < dec \<and> length directions < 2 * dec then Decreasing
         else Stable)"

definition forecast_aggregate :: "forecaster \<Rightarrow> (string \<times> real list) list \<Rightarrow> real \<Rightarrow> cost_forecast option" where
  "forecast_aggregate fc models runs_per_day =
     (if models = []
      then checked_forecast \<lparr>cf_model_name = aggregate_name, cf_projected_7d_total = 0, cf_projected_30d_total = 0, cf_trend_direction = Stable,
             cf_confidence_interval = (0, 0), cf_smoothing_factor = fc_alpha fc\<rparr>
      else case forecast_all fc (sort_key fst models) runs_per_day of
             None \<Rightarrow> None
           | Some fs \<Rightarrow>
               checked_forecast \<lparr>cf_model_name = aggregate_name, cf_projected_7d_total = rounded (sum_list (map cf_projected_7d_total fs)) 4,
                 cf_projected_30d_total = rounded (sum_list (map cf_projected_30d_total fs)) 4,
                 cf_trend_direction = aggregate_trend (map cf_trend_direction fs),
                 cf_confidence_interval = (rounded (sum_list (map (\<lambda>f. fst (cf_confidence_interval f)) fs)) 4,
                   rounded (sum_list (map (\<lambda>f. snd (cf_confidence_interval f)) fs)) 4),
                 cf_smoothing_factor = fc_alpha fc\<rparr>)"

subsection \<open>Facts about anomalies\<close>

text \<open>No element of a list is more than \<open>sqrt (n - 1)\<close> standard deviations from the mean.\<close>

lemma sum_list_deviation: "xs \<noteq> [] \<Longrightarrow> sum_list (map (\<lambda>x. x - mean xs) xs) = 0"
  by (simp add: mean_def sum_list_subtractf sum_list_triv)

lemma square_of_sum: "(sum_list xs)\<^sup>2 \<le> of_nat (length xs) * sum_list (map (\<lambda>x. x\<^sup>2) (xs :: real list))"
proof (induction xs)
  case (Cons x xs)
  let ?n = "of_nat (length xs) :: real" and ?s = "sum_list xs" and ?q = "sum_list (map (\<lambda>x. x\<^sup>2) xs)"
  have "2 * (x * ?s) \<le> ?n * x\<^sup>2 + ?q"
  proof -
    have "0 \<le> sum_list (map (\<lambda>y. (x - y)\<^sup>2) xs)" by (intro sum_list_nonneg) auto
    also have "\<dots> = ?n * x\<^sup>2 - 2 * x * ?s + ?q"
      by (induction xs) (simp_all add: power2_eq_square algebra_simps)
    finally show ?thesis by (simp add: algebra_simps)
  qed
  with Cons.IH show ?case by (simp add: power2_eq_square algebra_simps)
qed simp

lemma deviation_bound:
  assumes "x \<in> set xs"
  shows "(x - mean xs)\<^sup>2 \<le> (of_nat (length xs) - 1) * variance xs"
proof -
  from assms obtain ys zs where xs: "xs = ys @ x # zs" by (auto simp: in_set_conv_decomp)
  let ?d = "\<lambda>y. y - mean xs" and ?rest = "ys @ zs"
  define m q n where "m = mean xs" and "q = sum_list (map (\<lambda>y. (?d y)\<^sup>2) ?rest)" and "n = (of_nat (length ?rest) :: real)"
  have ne: "xs \<noteq> []" using assms by auto
  have "sum_list (map ?d ?rest) = - ?d x" using sum_list_deviation[OF ne] by (simp add: xs algebra_simps)
  then have cs: "(?d x)\<^sup>2 \<le> n * q" using square_of_sum[of "map ?d ?rest"] by (simp add: q_def n_def o_def power2_commute[of x])
  have len: "of_nat (length xs) = n + 1" by (simp add: xs n_def)
  have "sum_list (map (\<lambda>y. (?d y)\<^sup>2) xs) = (?d x)\<^sup>2 + q" by (simp add: q_def xs algebra_simps)
  moreover have "n + 1 \<noteq> 0" by (simp add: n_def)
  ultimately have var: "(n + 1) * variance xs = (?d x)\<^sup>2 + q" unfolding variance_def len by simp
  have "(n + 1) * (?d x)\<^sup>2 \<le> n * ((n + 1) * variance xs)" unfolding var using cs by (simp add: algebra_simps)
  then have "(n + 1) * (?d x)\<^sup>2 \<le> (n + 1) * (n * variance xs)" by (simp add: mult.left_commute)
  moreover have "0 < n + 1" by (simp add: n_def)
  ultimately show ?thesis by (simp add: len)
qed

lemma z_score_bound: "x \<in> set xs \<Longrightarrow> (z_score_of xs x)\<^sup>2 \<le> of_nat (length xs) - 1"
proof -
  assume x: "x \<in> set xs"
  then have len: "Suc 0 \<le> length xs" by (cases xs) auto
  show ?thesis
  proof (cases "variance xs > 0")
    case True
    then have "(z_score_of xs x)\<^sup>2 = (x - mean xs)\<^sup>2 / variance xs" by (simp add: z_score_of_def power_divide)
    also have "\<dots> \<le> of_nat (length xs) - 1" using deviation_bound[OF x] True by (simp add: divide_le_eq)
    finally show ?thesis .
  qed (simp add: z_score_of_def len)
qed

lemma abs_bound: "0 \<le> c \<Longrightarrow> c \<le> \<bar>z\<bar> \<Longrightarrow> z\<^sup>2 \<le> b \<Longrightarrow> c\<^sup>2 \<le> (b :: real)"
  using abs_le_square_iff[of c z] by simp

text \<open>In exact arithmetic an alarm over the last cost of a history needs a history: nothing is a major anomaly with fewer than ten costs nor
  critical with fewer than seventeen, because the last cost is itself part of the mean and the deviation it is held against. The program
  computes in floats, where a score can come out above this bound when all costs are within a few roundings of each other: eight costs of 864.0066607504916
  and a ninth of 864.0066607504922 score 3.0 there.\<close>

theorem severity_needs_history:
  assumes "an_severity (detect default_detector m xs None) = s"
  shows "(s = Major \<longrightarrow> 10 \<le> length xs) \<and> (s = Critical \<longrightarrow> 17 \<le> length xs)"
proof (cases "length xs < 3")
  case True
  then show ?thesis using assms by (auto simp: detect_def)
next
  case False
  then have "last xs \<in> set xs" by (cases xs) auto
  note z = z_score_bound[OF this]
  have "s = Major \<Longrightarrow> 3 \<le> \<bar>z_score_of xs (last xs)\<bar>" "s = Critical \<Longrightarrow> 4 \<le> \<bar>z_score_of xs (last xs)\<bar>"
    using assms False by (auto simp: detect_def Let_def severity_of_def default_detector_def split: if_splits)
  with abs_bound[of 3, OF _ _ z] abs_bound[of 4, OF _ _ z] show ?thesis by (auto simp: of_nat_diff)
qed

text \<open>Sixteen free runs and one that costs seventeen are critical, just.\<close>

lemma demo_costs_z: "z_score_of (replicate 16 0 @ [17]) 17 = 4"
proof -
  have m: "mean (replicate 16 0 @ [17]) = 1" by (simp add: mean_def sum_list_replicate)
  have "variance (replicate 16 0 @ [17]) = 16" unfolding variance_def m by (simp add: sum_list_replicate)
  moreover have "sqrt 16 = (4 :: real)" by (rule real_sqrt_unique) simp_all
  ultimately show ?thesis by (simp add: z_score_of_def m)
qed

theorem severity_needs_history_witness:
  "an_severity (detect default_detector ''m'' (replicate 16 0 @ [17]) None) = Critical \<and> 17 \<le> length (replicate 16 (0 :: real) @ [17])"
proof -
  have "an_severity (detect default_detector ''m'' (replicate 16 0 @ [17]) None) = Critical"
    using demo_costs_z by (simp add: detect_def Let_def severity_of_def default_detector_def)
  from severity_needs_history[OF this] this show ?thesis by simp
qed

text \<open>A rise over a constant history, where sums are exact, is reported as a drop: whatever the amount of a cost above a history of at least three equal
  costs, the report calls it a minor drop with a score of zero and asks whether the model ran to its end.\<close>

theorem rise_over_constant_is_drop:
  assumes "3 \<le> n" and "c < x"
  shows "detect default_detector m (replicate n c) (Some x) =
    \<lparr>an_model_name = m, an_is_anomaly = True, an_anomaly_type = Drop, an_severity = Minor, an_z_score = 0, an_percentile = 100,
     an_suggested_investigation = Drop_Found Minor x 0 c\<rparr>"
proof -
  have mean: "mean (replicate n c) = c" using assms(1) by (simp add: mean_def sum_list_replicate)
  have var: "variance (replicate n c) = 0" unfolding variance_def mean by (simp add: sum_list_replicate)
  have z: "z_score_of (replicate n c) x = 0" by (simp add: z_score_of_def var)
  have sorted: "sort (replicate n c) = replicate n c" by (intro sort_key_id_if_sorted) (simp add: sorted_replicate)
  have flat: "percentile (replicate n c) p = c" if "0 \<le> p" "p \<le> 100" for p
  proof -
    let ?k = "p / 100 * (of_nat n - 1) :: real"
    have "?k \<le> 1 * (of_nat n - 1)" using that assms(1) by (intro mult_right_mono) auto
    moreover have "0 \<le> ?k" using that assms(1) by simp
    ultimately have "?k < of_nat n" by simp
    with \<open>0 \<le> ?k\<close> have "nat \<lfloor>?k\<rfloor> < n" by (simp add: nat_less_iff floor_less_iff)
    then show ?thesis using assms(1) by (simp add: percentile_def Let_def)
  qed
  have iqr: "iqr_anomaly default_detector (replicate n c) x" using assms(2) by (simp add: iqr_anomaly_def sorted flat)
  have "half_even (100 * 10 ^ 2) = 100 * 10 ^ 2" using half_even_int[of "100 * 10 ^ 2"] by simp
  then have rank: "percentile_rank (replicate n c) x = 100"
    using assms by (simp add: percentile_rank_def rounded_def filter_replicate)
  show ?thesis using assms(1) iqr by (simp add: detect_def Let_def z rank mean severity_of_def default_detector_def)
qed

theorem rise_over_constant_is_drop_witness:
  "an_anomaly_type (detect default_detector ''m'' (replicate 3 10) (Some 1000)) = Drop"
  using rise_over_constant_is_drop[of 3 10 1000 "''m''"] by simp

subsection \<open>Facts about forecasts\<close>

text \<open>The weight of each cost: the first keeps what the later ones leave.\<close>

definition smoothed_value :: "real \<Rightarrow> real \<Rightarrow> real list \<Rightarrow> real" where
  "smoothed_value alpha x ys =
     (1 - alpha) ^ length ys * x + (\<Sum>i<length ys. alpha * (1 - alpha) ^ (length ys - 1 - i) * ys ! i)"

lemma smooth_from_snoc: "smooth_from a s (ys @ [y]) = smooth_from a s ys @ [a * y + (1 - a) * last (s # smooth_from a s ys)]"
  by (induction ys arbitrary: s) (simp_all add: Let_def)

lemma last_smooth: "last (exponential_smooth a (x # ys)) = smoothed_value a x ys"
proof -
  have "last (x # smooth_from a x ys) = smoothed_value a x ys"
  proof (induction ys rule: rev_induct)
    case (snoc y ys)
    have "(\<Sum>i<length ys. a * (1 - a) ^ (length ys - i) * (ys @ [y]) ! i) =
        (1 - a) * (\<Sum>i<length ys. a * (1 - a) ^ (length ys - 1 - i) * ys ! i)"
      unfolding sum_distrib_left
    proof (intro sum.cong refl)
      fix i assume "i \<in> {..<length ys}"
      then have "length ys - i = Suc (length ys - 1 - i)" "(ys @ [y]) ! i = ys ! i" by (auto simp: nth_append)
      then show "a * (1 - a) ^ (length ys - i) * (ys @ [y]) ! i = (1 - a) * (a * (1 - a) ^ (length ys - 1 - i) * ys ! i)"
        by (simp only: power_Suc) (simp add: algebra_simps)
    qed
    with snoc.IH show ?case by (simp add: smooth_from_snoc smoothed_value_def algebra_simps)
  qed (simp add: smoothed_value_def)
  then show ?thesis by (simp add: exponential_smooth_def)
qed

lemma smooth_between:
  assumes "0 \<le> a" "a \<le> 1"
  shows "lo \<le> s \<Longrightarrow> s \<le> hi \<Longrightarrow> list_all (\<lambda>y. lo \<le> y \<and> y \<le> hi) ys \<Longrightarrow> lo \<le> last (s # smooth_from a s ys) \<and> last (s # smooth_from a s ys) \<le> hi"
proof (induction ys arbitrary: s)
  case (Cons y ys)
  have "a * lo + (1 - a) * lo \<le> a * y + (1 - a) * s" "a * y + (1 - a) * s \<le> a * hi + (1 - a) * hi"
    using Cons.prems assms by (intro add_mono mult_left_mono; simp)+
  then have "lo \<le> a * y + (1 - a) * s" "a * y + (1 - a) * s \<le> hi" by (simp_all add: algebra_simps)
  with Cons.IH Cons.prems(3) show ?case by (simp add: Let_def)
qed simp

text \<open>A forecast is a weighted mean of the history: for costs between two bounds that are not negative there is a forecast, its daily
  cost is the exponentially weighted mean, so its totals lie between those of the bounds, and they lie inside their confidence interval.\<close>

theorem forecast_exact:
  assumes "ys \<noteq> []" and "list_all (\<lambda>y. lo \<le> y \<and> y \<le> hi) (x # ys)" and "0 \<le> lo" and "0 \<le> rpd"
    and "0 \<le> fc_alpha fc" and "fc_alpha fc \<le> 1"
  shows "\<exists>f. forecast fc m (x # ys) rpd = Some f \<and>
    cf_projected_7d_total f = rounded (smoothed_value (fc_alpha fc) x ys * rpd * 7) 4 \<and>
    cf_projected_30d_total f = rounded (smoothed_value (fc_alpha fc) x ys * rpd * 30) 4 \<and>
    rounded (lo * rpd * 7) 4 \<le> cf_projected_7d_total f \<and> cf_projected_7d_total f \<le> rounded (hi * rpd * 7) 4 \<and>
    fst (cf_confidence_interval f) \<le> cf_projected_7d_total f \<and> cf_projected_7d_total f \<le> snd (cf_confidence_interval f)"
proof -
  let ?v = "smoothed_value (fc_alpha fc) x ys"
  have v: "lo \<le> ?v" "?v \<le> hi"
    using smooth_between[OF assms(5,6), of lo x hi ys] assms(2) last_smooth[of "fc_alpha fc" x ys] by (simp_all add: exponential_smooth_def)
  then have p: "lo * rpd * d \<le> ?v * rpd * d" "?v * rpd * d \<le> hi * rpd * d" "0 \<le> ?v * rpd * d" if "0 \<le> d" for d
    using assms(3,4) that by (auto intro: mult_right_mono)
  obtain y ys' where ys: "ys = y # ys'" using assms(1) by (cases ys) auto
  let ?errors = "map (\<lambda>(actual, pred). \<bar>actual - pred\<bar>) (zip (tl (x # ys)) (butlast (exponential_smooth (fc_alpha fc) (x # ys))))"
  define margin where "margin = 196 / 100 * (if ?errors \<noteq> [] then sqrt (variance ?errors) else ?v * (1 / 10)) * sqrt 7 * rpd"
  have "0 \<le> variance zs" for zs by (auto simp: variance_def intro!: divide_nonneg_nonneg sum_list_nonneg)
  then have margin: "0 \<le> margin" using assms(3,4) v by (simp add: margin_def)
  let ?p7 = "rounded (?v * rpd * 7) 4"
  have p7: "0 \<le> ?p7" "0 \<le> rounded (?v * rpd * 30) 4" using p[of 7] p[of 30] by (simp_all add: rounded_nonneg)
  have "forecast fc m (x # ys) rpd = checked_forecast \<lparr>cf_model_name = m, cf_projected_7d_total = ?p7,
      cf_projected_30d_total = rounded (?v * rpd * 30) 4, cf_trend_direction = detect_trend fc (exponential_smooth (fc_alpha fc) (x # ys)),
      cf_confidence_interval = (rounded (max (?p7 - margin) 0) 4, rounded (?p7 + margin) 4), cf_smoothing_factor = fc_alpha fc\<rparr>"
    by (simp only: forecast_def ys list.case Let_def margin_def last_smooth)
  moreover have "rounded (max (?p7 - margin) 0) 4 \<le> ?p7" "?p7 \<le> rounded (?p7 + margin) 4"
    using rounded_mono[of "max (?p7 - margin) 0" ?p7 4] rounded_mono[of ?p7 "?p7 + margin" 4] margin p7 by simp_all
  moreover have "rounded (lo * rpd * 7) 4 \<le> ?p7" "?p7 \<le> rounded (hi * rpd * 7) 4" using p[of 7] by (simp_all add: rounded_mono)
  ultimately show ?thesis using p7 assms(5,6) by (simp add: checked_forecast_def)
qed

theorem forecast_exact_witness:
  "\<exists>f. forecast default_forecaster ''m'' [10, 20] 1 = Some f \<and> rounded 70 4 \<le> cf_projected_7d_total f \<and> cf_projected_7d_total f \<le> rounded 140 4"
  using forecast_exact[of "[20]" 10 20 10 1 default_forecaster "''m''"] by (auto simp: default_forecaster_def)

text \<open>Half of the models are no majority.\<close>

lemma trend_counts: "count_list ds Increasing + count_list ds Decreasing \<le> length ds"
  by (induction ds) auto

lemma aggregate_trend_majority:
  "(aggregate_trend ds = Increasing \<longleftrightarrow> length ds < 2 * count_list ds Increasing) \<and>
   (aggregate_trend ds = Decreasing \<longleftrightarrow> length ds < 2 * count_list ds Decreasing)"
  using trend_counts[of ds] by (auto simp: aggregate_trend_def Let_def)

end
