(* ===== verification/Telemetry.thy ===== *)
theory Telemetry
  imports Stores
begin

text \<open>
  Retention and aggregation of telemetry: \<^verbatim>\<open>core/telemetry/retention.py\<close> over the telemetry table of the stores. A date is the number
  of days since the epoch; the groups of a query come in the order of their first rows.
\<close>

subsection \<open>Policy and records\<close>

record retention_policy =
  rp_raw_retention_days :: int
  rp_hourly_retention_days :: int
  rp_daily_retention_days :: int

definition default_policy :: retention_policy where
  "default_policy = \<lparr>rp_raw_retention_days = 30, rp_hourly_retention_days = 365, rp_daily_retention_days = 0\<rparr>"

record aggregate_record =
  ag_model_name :: string
  ag_period_start :: timestamp
  ag_period_end :: timestamp
  ag_run_count :: nat
  ag_avg_runtime_seconds :: rat
  ag_total_shuffle_bytes :: int
  ag_total_input_rows :: int
  ag_total_output_rows :: int
  ag_avg_partition_count :: rat
  ag_p50_runtime_seconds :: rat
  ag_p95_runtime_seconds :: rat

definition cleanup_expired_raw :: "retention_policy \<Rightarrow> timestamp \<Rightarrow> string \<Rightarrow> telemetry_row list \<Rightarrow> telemetry_row list \<times> nat" where
  "cleanup_expired_raw policy now t tbl =
     (let cutoff = now - rp_raw_retention_days policy * microseconds_per_day;
          expired = (\<lambda>r. te_tenant r = t \<and> te_captured_at r < cutoff)
      in (filter (\<lambda>r. \<not> expired r) tbl, length (filter expired tbl)))"

subsection \<open>Aggregates\<close>

definition percentile_of :: "rat list \<Rightarrow> rat \<Rightarrow> rat" where
  "percentile_of sorted_values pct =
     (if sorted_values = [] then 0
      else sorted_values ! min (nat \<lfloor>of_nat (length sorted_values) * pct\<rfloor>) (length sorted_values - 1))"

text \<open>The rows of a tenant in a period, and \<^verbatim>\<open>func.avg\<close> over a group.\<close>

definition in_period :: "string \<Rightarrow> timestamp \<Rightarrow> timestamp \<Rightarrow> telemetry_row list \<Rightarrow> telemetry_row list" where
  "in_period t period_start period_end tbl =
     filter (\<lambda>r. te_tenant r = t \<and> te_captured_at r \<ge> period_start \<and> te_captured_at r < period_end) tbl"

definition avg_of :: "rat list \<Rightarrow> rat" where "avg_of xs = (if xs = [] then 0 else sum_list xs / of_nat (length xs))"

definition aggregate_of :: "timestamp \<Rightarrow> timestamp \<Rightarrow> telemetry_row list \<Rightarrow> string \<Rightarrow> aggregate_record" where
  "aggregate_of period_start period_end rows m =
     (let rows = filter (\<lambda>r. te_model r = m) rows;
          runtimes = sort (map te_runtime_seconds rows)
      in \<lparr>ag_model_name = m, ag_period_start = period_start, ag_period_end = period_end, ag_run_count = length rows,
          ag_avg_runtime_seconds = avg_of (map te_runtime_seconds rows), ag_total_shuffle_bytes = sum_list (map te_shuffle_bytes rows),
          ag_total_input_rows = sum_list (map te_input_rows rows), ag_total_output_rows = sum_list (map te_output_rows rows),
          ag_avg_partition_count = avg_of (map (\<lambda>r. of_int (te_partition_count r)) rows),
          ag_p50_runtime_seconds = percentile_of runtimes (50 / 100), ag_p95_runtime_seconds = percentile_of runtimes (95 / 100)\<rparr>)"

definition aggregates_of :: "string \<Rightarrow> timestamp \<Rightarrow> timestamp \<Rightarrow> telemetry_row list \<Rightarrow> aggregate_record list" where
  "aggregates_of t period_start period_end tbl =
     (let rows = in_period t period_start period_end tbl
      in map (aggregate_of period_start period_end rows) (remdups (map te_model rows)))"

definition microseconds_per_hour :: int where "microseconds_per_hour = 3600 * microseconds_per_second"

definition target_day :: "int \<Rightarrow> int option \<Rightarrow> int" where
  "target_day today target_date = (case target_date of None \<Rightarrow> today - 1 | Some d \<Rightarrow> d)"

definition compute_hourly_aggregates :: "int \<Rightarrow> int option \<Rightarrow> string \<Rightarrow> telemetry_row list \<Rightarrow> aggregate_record list" where
  "compute_hourly_aggregates today target_date t tbl =
     (let day_start = target_day today target_date * microseconds_per_day
      in concat (map (\<lambda>hour_offset.
           let period_start = day_start + int hour_offset * microseconds_per_hour
           in aggregates_of t period_start (period_start + microseconds_per_hour) tbl) [0..<24]))"

definition compute_daily_aggregates :: "int \<Rightarrow> int option \<Rightarrow> string \<Rightarrow> telemetry_row list \<Rightarrow> aggregate_record list" where
  "compute_daily_aggregates today target_date t tbl =
     (let day_start = target_day today target_date * microseconds_per_day
      in aggregates_of t day_start (day_start + microseconds_per_day) tbl)"

subsection \<open>The hours make the day\<close>

text \<open>What the records of a model add up to.\<close>

definition model_sum :: "(aggregate_record \<Rightarrow> 'a :: comm_monoid_add) \<Rightarrow> string \<Rightarrow> aggregate_record list \<Rightarrow> 'a" where
  "model_sum f m records = sum_list (map f (filter (\<lambda>a. ag_model_name a = m) records))"

lemma aggregate_of_model [simp]: "ag_model_name (aggregate_of lo hi rows m) = m"
  by (simp add: aggregate_of_def Let_def)

lemma filter_eq_distinct: "distinct xs \<Longrightarrow> filter (\<lambda>x. x = m) xs = (if m \<in> set xs then [m] else [])"
  by (induction xs) auto

text \<open>A figure of a record that is a sum over its rows is one over the rows of the model in the period.\<close>

lemma model_sum_aggregates:
  assumes "\<And>rows. f (aggregate_of lo hi rows m) = sum_list (map g (filter (\<lambda>r. te_model r = m) rows))"
  shows "model_sum f m (aggregates_of t lo hi tbl) = sum_list (map g (filter (\<lambda>r. te_model r = m) (in_period t lo hi tbl)))"
proof -
  have none: "filter (\<lambda>r. te_model r = m) rows = []" if "m \<notin> te_model ` set rows" for rows
    using that by (auto simp: filter_empty_conv)
  show ?thesis
    by (auto simp: model_sum_def aggregates_of_def Let_def filter_map o_def filter_eq_distinct assms none)
qed

lemma hour_pos: "0 < microseconds_per_hour" by (simp add: microseconds_per_hour_def microseconds_per_second_def)

lemma day_hours: "microseconds_per_day = 24 * microseconds_per_hour"
  by (simp add: microseconds_per_hour_def microseconds_per_day_def microseconds_per_second_def)

lemma div_interval: "0 < (k :: int) \<Longrightarrow> h * k \<le> x \<and> x < h * k + k \<longleftrightarrow> x div k = h"
proof
  assume k: "0 < k" and "h * k \<le> x \<and> x < h * k + k"
  then show "x div k = h" by (intro int_div_pos_eq[where r = "x - h * k"]) (auto simp: algebra_simps)
next
  assume k: "0 < k" and h: "x div k = h"
  have "x = h * k + x mod k" using div_mult_mod_eq[of x k] h by simp
  then show "h * k \<le> x \<and> x < h * k + k" using pos_mod_sign[OF k, of x] pos_mod_bound[OF k, of x] by linarith
qed

lemma hour_of:
  assumes "lo \<le> c"
  shows "(lo + int h * microseconds_per_hour \<le> c \<and> c < lo + int h * microseconds_per_hour + microseconds_per_hour) \<longleftrightarrow>
    h = nat ((c - lo) div microseconds_per_hour)"
proof -
  have "(c - lo) div microseconds_per_hour \<ge> 0" using assms hour_pos by (simp add: pos_imp_zdiv_nonneg_iff)
  with div_interval[OF hour_pos, of "int h" "c - lo"] show ?thesis by auto
qed

lemma hour_in_day: "lo \<le> c \<Longrightarrow> c < lo + microseconds_per_day \<Longrightarrow> nat ((c - lo) div microseconds_per_hour) < 24"
proof -
  assume c: "lo \<le> c" "c < lo + microseconds_per_day"
  have "(c - lo) div microseconds_per_hour * microseconds_per_hour \<le> c - lo"
    using div_interval[OF hour_pos, of "(c - lo) div microseconds_per_hour" "c - lo"] by simp
  then have "(c - lo) div microseconds_per_hour * microseconds_per_hour < 24 * microseconds_per_hour" using c unfolding day_hours by linarith
  then have "(c - lo) div microseconds_per_hour < 24" using hour_pos by (simp only: mult_less_cancel_right_pos)
  then show ?thesis by simp
qed

lemma hours_cover_day:
  "(\<Sum>h<24. sum_list (map g (filter P (in_period t (lo + int h * microseconds_per_hour) (lo + int h * microseconds_per_hour + microseconds_per_hour) tbl)))) =
     (sum_list (map g (filter P (in_period t lo (lo + microseconds_per_day) tbl))) :: 'a :: comm_monoid_add)"
proof (induction tbl)
  case (Cons r tbl)
  let ?hour = "\<lambda>h. te_captured_at r \<ge> lo + int h * microseconds_per_hour \<and> te_captured_at r < lo + int h * microseconds_per_hour + microseconds_per_hour"
  let ?mine = "te_tenant r = t \<and> P r"
  have one: "(\<Sum>h<24. if ?mine \<and> ?hour h then g r else 0) =
      (if ?mine \<and> lo \<le> te_captured_at r \<and> te_captured_at r < lo + microseconds_per_day then g r else 0)"
  proof (cases "lo \<le> te_captured_at r \<and> te_captured_at r < lo + microseconds_per_day")
    case True
    then show ?thesis using hour_of[of lo "te_captured_at r"] hour_in_day[of lo "te_captured_at r"] by (auto simp: sum.delta)
  next
    case False
    have "\<not> ?hour h" if "h < 24" for h
    proof -
      have "int h * microseconds_per_hour + microseconds_per_hour \<le> microseconds_per_day" "0 \<le> int h * microseconds_per_hour"
        using that hour_pos mult_right_mono[of "int h + 1" 24 microseconds_per_hour] by (simp_all add: day_hours algebra_simps)
      with False show ?thesis by linarith
    qed
    with False show ?thesis by (auto intro!: sum.neutral)
  qed
  have "(\<Sum>h<24. sum_list (map g (filter P (in_period t (lo + int h * microseconds_per_hour) (lo + int h * microseconds_per_hour + microseconds_per_hour) (r # tbl))))) =
      (\<Sum>h<24. (if ?mine \<and> ?hour h then g r else 0) +
        sum_list (map g (filter P (in_period t (lo + int h * microseconds_per_hour) (lo + int h * microseconds_per_hour + microseconds_per_hour) tbl))))"
    by (intro sum.cong refl) (simp add: in_period_def)
  then show ?case unfolding sum.distrib one Cons.IH by (simp add: in_period_def)
qed (simp add: in_period_def)

lemma model_sum_hours:
  assumes "\<And>lo hi rows. f (aggregate_of lo hi rows m) = sum_list (map g (filter (\<lambda>r. te_model r = m) rows))"
  shows "model_sum f m (compute_hourly_aggregates today d t tbl) = model_sum f m (compute_daily_aggregates today d t tbl)"
proof -
  have concat: "model_sum f m (concat (map F [0..<n])) = (\<Sum>h<n. model_sum f m (F h))" for F and n :: nat
    by (induction n) (simp_all add: model_sum_def add.commute)
  show ?thesis
    unfolding compute_hourly_aggregates_def compute_daily_aggregates_def Let_def concat model_sum_aggregates[OF assms] hours_cover_day ..
qed

text \<open>The totals of the records of a model: runs, shuffled bytes, rows read and rows written; and those of rows of the table.\<close>

definition record_totals :: "string \<Rightarrow> aggregate_record list \<Rightarrow> nat \<times> int \<times> int \<times> int" where
  "record_totals m records =
     (model_sum ag_run_count m records, model_sum ag_total_shuffle_bytes m records, model_sum ag_total_input_rows m records,
      model_sum ag_total_output_rows m records)"

definition row_totals :: "telemetry_row list \<Rightarrow> nat \<times> int \<times> int \<times> int" where
  "row_totals rows =
     (length rows, sum_list (map te_shuffle_bytes rows), sum_list (map te_input_rows rows), sum_list (map te_output_rows rows))"

lemma aggregate_run_count: "ag_run_count (aggregate_of lo hi rows m) = sum_list (map (\<lambda>r. 1) (filter (\<lambda>r. te_model r = m) rows))"
  by (simp add: aggregate_of_def Let_def sum_list_triv)

lemma day_rows: "filter (\<lambda>r. te_model r = m) (in_period t (day * microseconds_per_day) (day * microseconds_per_day + microseconds_per_day) tbl) =
  filter (\<lambda>r. te_tenant r = t \<and> te_model r = m \<and> te_captured_at r div microseconds_per_day = day) tbl"
proof -
  have day: "0 < microseconds_per_day" by (simp add: microseconds_per_day_def microseconds_per_second_def)
  show ?thesis unfolding in_period_def filter_filter using div_interval[OF day, of day] by (intro filter_cong) auto
qed

lemma model_sum_day:
  assumes "\<And>lo hi rows. f (aggregate_of lo hi rows m) = sum_list (map g (filter (\<lambda>r. te_model r = m) rows))"
  shows "model_sum f m (compute_daily_aggregates today d t tbl) =
    sum_list (map g (filter (\<lambda>r. te_tenant r = t \<and> te_model r = m \<and> te_captured_at r div microseconds_per_day = target_day today d) tbl))"
  unfolding compute_daily_aggregates_def Let_def model_sum_aggregates[OF assms] day_rows ..

lemma daily_distinct: "distinct (map ag_model_name (compute_daily_aggregates today d t tbl))"
  by (simp add: compute_daily_aggregates_def aggregates_of_def Let_def o_def)

lemma hourly_distinct: "distinct (map (\<lambda>a. (ag_model_name a, ag_period_start a)) (compute_hourly_aggregates today d t tbl))"
proof -
  have hour: "map (\<lambda>a. (ag_model_name a, ag_period_start a)) (aggregates_of t lo hi tbl) = map (\<lambda>m. (m, lo)) (remdups (map te_model (in_period t lo hi tbl)))" for lo hi
    by (simp add: aggregates_of_def aggregate_of_def Let_def o_def)
  have pairs: "distinct (concat (map (\<lambda>h. map (\<lambda>m. (m, D + int h * microseconds_per_hour)) (remdups (R h))) [0..<n]))" for D n and R :: "nat \<Rightarrow> string list"
    using hour_pos by (induction n) (auto simp: distinct_map inj_on_def)
  show ?thesis using pairs by (simp add: compute_hourly_aggregates_def Let_def map_concat o_def hour)
qed

text \<open>C37: Each aggregation accounts for every row of the day once: for every model, the runs, shuffled bytes, rows read and rows written of the
  twenty-four hourly aggregations of a day together, and those of its daily one, are the totals of the tenant's rows of the model that were
  captured on that UTC day, whatever else is in the table; a model has one daily record and one for each hour at most.\<close>

theorem hours_make_the_day:
  "record_totals m (compute_hourly_aggregates today d t tbl) =
     row_totals (filter (\<lambda>r. te_tenant r = t \<and> te_model r = m \<and> te_captured_at r div microseconds_per_day = target_day today d) tbl) \<and>
   record_totals m (compute_daily_aggregates today d t tbl) =
     row_totals (filter (\<lambda>r. te_tenant r = t \<and> te_model r = m \<and> te_captured_at r div microseconds_per_day = target_day today d) tbl) \<and>
   distinct (map ag_model_name (compute_daily_aggregates today d t tbl)) \<and>
   distinct (map (\<lambda>a. (ag_model_name a, ag_period_start a)) (compute_hourly_aggregates today d t tbl))"
proof -
  have hours: "record_totals m (compute_hourly_aggregates today d t tbl) = record_totals m (compute_daily_aggregates today d t tbl)"
    unfolding record_totals_def model_sum_hours[where f = ag_run_count, OF aggregate_run_count]
    by (auto intro!: model_sum_hours simp: aggregate_of_def Let_def)
  have day: "record_totals m (compute_daily_aggregates today d t tbl) =
      row_totals (filter (\<lambda>r. te_tenant r = t \<and> te_model r = m \<and> te_captured_at r div microseconds_per_day = target_day today d) tbl)"
    unfolding record_totals_def row_totals_def model_sum_day[where f = ag_run_count, OF aggregate_run_count] sum_list_triv prod.inject
    by (intro conjI model_sum_day) (simp_all add: aggregate_of_def Let_def)
  with hours show ?thesis using daily_distinct hourly_distinct by simp
qed

text \<open>In exact arithmetic the hourly averages, weighted with their runs, add up to the day's average weighted with its own.\<close>

lemma avg_of_sum: "avg_of xs * of_nat (length xs) = sum_list xs" by (simp add: avg_of_def)

theorem hourly_averages_weighted:
  "model_sum (\<lambda>a. ag_avg_runtime_seconds a * of_nat (ag_run_count a)) m (compute_hourly_aggregates today d t tbl) =
     model_sum (\<lambda>a. ag_avg_runtime_seconds a * of_nat (ag_run_count a)) m (compute_daily_aggregates today d t tbl)"
proof -
  have weighted: "ag_avg_runtime_seconds (aggregate_of lo hi rows m) * of_nat (ag_run_count (aggregate_of lo hi rows m)) =
      sum_list (map te_runtime_seconds (filter (\<lambda>r. te_model r = m) rows))" for lo hi rows
    using avg_of_sum[of "map te_runtime_seconds (filter (\<lambda>r. te_model r = m) rows)"] by (simp add: aggregate_of_def Let_def)
  show ?thesis by (rule model_sum_hours[where f = "\<lambda>a. ag_avg_runtime_seconds a * of_nat (ag_run_count a)", OF weighted])
qed

text \<open>Cleaning up takes nothing from a day inside the window, in either aggregation.\<close>

lemma in_period_cleaned:
  "now - rp_raw_retention_days policy * microseconds_per_day \<le> lo \<Longrightarrow>
     in_period t lo hi (fst (cleanup_expired_raw policy now t tbl)) = in_period t lo hi tbl"
  by (auto simp: in_period_def cleanup_expired_raw_def Let_def intro!: filter_cong)

theorem cleanup_keeps_window:
  assumes "now - rp_raw_retention_days policy * microseconds_per_day \<le> target_day today d * microseconds_per_day"
  shows "compute_daily_aggregates today d t (fst (cleanup_expired_raw policy now t tbl)) = compute_daily_aggregates today d t tbl \<and>
    compute_hourly_aggregates today d t (fst (cleanup_expired_raw policy now t tbl)) = compute_hourly_aggregates today d t tbl"
proof -
  have later: "now - rp_raw_retention_days policy * microseconds_per_day \<le> target_day today d * microseconds_per_day + int h * microseconds_per_hour" for h
    using assms by (simp add: microseconds_per_hour_def microseconds_per_second_def add_increasing2)
  show ?thesis
    by (simp add: compute_daily_aggregates_def compute_hourly_aggregates_def aggregates_of_def Let_def in_period_cleaned[OF assms] in_period_cleaned[OF later])
qed

text \<open>The last day of the default window, at its first instant.\<close>

theorem cleanup_keeps_window_witness:
  "compute_daily_aggregates 30 (Some 0) ''acme'' (fst (cleanup_expired_raw default_policy (30 * microseconds_per_day) ''acme'' tbl)) =
   compute_daily_aggregates 30 (Some 0) ''acme'' tbl"
  using cleanup_keeps_window[of "30 * microseconds_per_day" default_policy 30 "Some 0" "''acme''" tbl] by (simp add: default_policy_def target_day_def)

end
