(* ===== verification/Spec2Isabelle.thy ===== *)
theory Spec2Isabelle
  imports Plan_Service Impact_Facts Outbox_Facts Rate_Limit Login_Limits Retry Http_Props Metering_Facts Billing_Facts Invoices Approvals Environments
    Reconciliation Github_Webhooks Event_Subscriptions Model_Registry Response_Cache Fragility Customer_Health Cost_Series Telemetry
begin

text \<open>
  IronLayer plans and executes incremental runs of SQL models. This library models its deterministic core and states what
  each part guarantees. Paths below are under \<^verbatim>\<open>src/\<close>; \<open>core\<close> is \<^verbatim>\<open>core_engine/core_engine\<close> and \<open>api\<close> is \<^verbatim>\<open>api/api\<close>.

  The program. A repository holds one SQL file per model. The plan service (\<^verbatim>\<open>api/services/plan_service.py\<close>) loads the files
  (\<^verbatim>\<open>core/loader\<close>), builds the graph of their references (\<^verbatim>\<open>core/graph/dag_builder.py\<close>), compares content hashes with those of
  the base commit (\<^verbatim>\<open>core/diff\<close>), validates schema contracts (\<^verbatim>\<open>core/contracts\<close>), and asks the planner
  (\<^verbatim>\<open>core/planner/interval_planner.py\<close>) for a plan, which it saves. The execution service (\<^verbatim>\<open>api/services/execution_service.py\<close>)
  applies saved plans and runs backfills, under advisory locks, recording runs, watermarks, telemetry, checkpoints. All tables
  are behind the repositories of \<^verbatim>\<open>core/state\<close>. Around them stand roles, licenses and the audit log.
  The API adds the accounts, the tokens and the middleware (\<^verbatim>\<open>api/middleware\<close>, composed in \<^verbatim>\<open>api/main.py\<close>), metering with quotas,
  Stripe billing, invoices, approvals, environments, reconciliation of runs and schemas, and webhooks in both directions. The AI engine
  (\<^verbatim>\<open>ai_engine/ai_engine\<close>, \<open>ai\<close> below) only advises; its model registry, response cache, fragility scorer and cost statistics
  are modelled.

  Theories, in the order of the imports:
  \<^item> \<open>Prelude\<close>: lists, ascending lists, option and sum results, insertion-ordered dictionaries; the collections of hints.
  \<^item> \<open>Py_Text\<close>: the string methods of Python the source calls (\<^verbatim>\<open>strip\<close>, \<^verbatim>\<open>splitlines\<close>, \<^verbatim>\<open>split\<close>, \<^verbatim>\<open>lower\<close>) on byte-sized characters.
  \<^item> \<open>Models\<close>: \<^verbatim>\<open>core/models\<close>: model definitions, plans, steps, date ranges (days as integers), run states.
  \<^item> \<open>Digraph\<close>, \<open>Dag\<close>, \<open>Dag_Sort\<close>, \<open>Dag_Facts\<close>: the graph module. networkx is the record \<open>nx\<close> of its operations, with the predicate
    \<open>nx_laws\<close> of its documented laws and an executable instance. Traversals, levels, and the lexicographic topological order over the
    locale \<open>min_heap\<close>.
  \<^item> \<open>Contracts\<close>: schema contract validation with its messages.
  \<^item> \<open>Planner\<close>, \<open>Planner_Facts\<close>: \<open>generate_plan\<close> with every helper; which models a plan runs, their dependencies, groups and ranges.
  \<^item> \<open>Impact\<close>, \<open>Impact_Facts\<close>: the impact analyzer of \<^verbatim>\<open>core/simulation\<close>; its reports list exactly the readers, each with its distance.
  \<^item> \<open>Json\<close>, \<open>Loader\<close>, \<open>Loader_Facts\<close>: file headers, contract and test declarations, the ref macro, and the two passes over a directory.
  \<^item> \<open>Locks\<close> (locale \<open>lock_store\<close>), \<open>Audit_Log\<close>, \<open>Stores\<close>, \<open>Store_Facts\<close>: the repositories as functions on lists of rows.
    \<open>audit_history\<close> is any appends and anonymisations, with any clock readings, since the code reads the clock before it takes the lock.
  \<^item> \<open>Access\<close>: roles, permissions, request guards, feature tiers and the license manager; roles and tiers share \<open>tiered_grants\<close>.
  \<^item> \<open>Execution\<close>, \<open>Execution_Facts\<close>, \<open>Execution_Props\<close>: the execution service over all its tables (\<open>exec_state\<close>); \<open>service_call\<close> and
    \<open>service_history\<close> are any calls in any order.
  \<^item> \<open>Plan_Service\<close>: the plan service, composing loader, graph, diff, planner and stores, and the application of what it saved.
  \<^item> \<open>Retry\<close>: \<^verbatim>\<open>core/executor/retry.py\<close>. \<open>Outbox\<close>, \<open>Outbox_Facts\<close>: the event bus with its table of pending events and the poller.
  \<^item> \<open>Rate_Limit\<close> (locale \<open>window_backend\<close>) and \<open>Login_Limits\<close> (locale \<open>login_backend\<close>): sliding windows and login lock-outs, each over an
    in-process store and over Redis.
  \<^item> \<open>Tokens\<close>: \<^verbatim>\<open>api/security.py\<close>: signing and validation in every mode, the OIDC provider, the credential vault. \<open>Revocation\<close> (locale
    \<open>revocation_store\<close>): the revocation table behind a cache per replica and Redis.
  \<^item> \<open>Accounts\<close>, \<open>Accounts_Facts\<close>, \<open>Team_Facts\<close>: users, keys, tenants, sessions, team members and seats; \<open>account_history\<close> is any requests in
    any order. Refresh tokens are exchanged once; tables keep their unique columns; seats.
  \<^item> \<open>Http_Stack\<close>, \<open>Http_Facts\<close>, \<open>Http_Props\<close>: every middleware and their composition (locales \<open>middleware_layer\<close>, \<open>two_layers\<close>): what
    reaches the application, under which identity, and what clients see of the layers outside the authentication.
  \<^item> \<open>Metering\<close>, \<open>Metering_Facts\<close> (locales \<open>budget_window\<close>, \<open>event_sink\<close>): usage events from the collector to the sinks, the quotas over
    the stored events, and the budget guard of the AI engine; by how much a quota or a budget can be overrun. The database of the meter
    (\<open>usage_db\<close>) holds the table and the flush tasks that the event loop has not come to; \<open>run_plans\<close> interleaves the two halves of the plan
    route, flushes and tasks at will.
  \<^item> \<open>Billing\<close>, \<open>Billing_Facts\<close>: \<^verbatim>\<open>api/services/billing_service.py\<close> and its routes: checkout, Stripe's events, tiers, the hourly report.
    \<open>Invoices\<close>: numbers, totals and files of invoices.
  \<^item> \<open>Approvals\<close>: approval, rejection and auto-approval of plans. \<open>Environments\<close>: environments, promotions, the rewriting of names.
  \<^item> \<open>Drift\<close>: \<^verbatim>\<open>core/executor/schema_introspector.py\<close>. \<open>Cron\<close>: the schedule expressions and the calendar they walk. \<open>Reconciliation\<close>: the
    checks of runs and schemas with their tables, and a pass of the scheduler.
  \<^item> \<open>Github_Webhooks\<close>: configurations, signatures and the receiver of pushes. \<open>Event_Subscriptions\<close>: subscriptions and the dispatcher.
  \<^item> \<open>Model_Registry\<close>: \<^verbatim>\<open>ai/ml/model_registry.py\<close>; \<open>registry_run\<close> is any operations, with any changes of the directory between
    them, and during a load between its looks at the directory (\<open>dir_looks\<close>).
    \<open>Response_Cache\<close>: \<^verbatim>\<open>ai/engines/cache.py\<close> behind a route; \<open>cache_run\<close> is any lookups, stores and invalidations, with a log of the answers,
    which the engine may change from one moment to the next. \<open>Fragility\<close>:
    \<^verbatim>\<open>ai/engines/fragility_scorer.py\<close>, its traversals against the walks of the graph. \<open>Cost_Series\<close>: the anomaly detector and the
    forecaster of \<^verbatim>\<open>ai/engines\<close> over real numbers, with the bounds of their scores and projections in exact
    arithmetic, from which the program's floats can stray where costs are nearly equal.
  \<^item> \<open>Customer_Health\<close>: health scores, their table and its recomputation. \<open>Telemetry\<close>: \<^verbatim>\<open>core/telemetry/retention.py\<close>, where the hours make
    the day.

  Numbers. Integers are unbounded, as in Python. Its floats are rational or real numbers; where a statement rests on that (\<open>Retry\<close>, \<open>Cost_Series\<close>,
  \<open>Fragility\<close>, amounts of money), it is one of exact arithmetic.

  Correspondence. A pydantic model or table row is a record whose fields keep the names of the source behind a short prefix; an enum is a
  datatype; a raised exception is a constructor of an error datatype in an \<open>Inl\<close>; an instant is an \<open>int\<close> of microseconds, a day is its
  ordinal; a Python dictionary is an association list updated in place when its order is read, and a map otherwise; a database table is
  the list of its rows, and a primary key or a check constraint is an \<open>Inl\<close> of the insertion.

  Parameters. SHA-256, Ed25519, the clock, fresh identifiers, ISO texts of days, the engine that runs SQL, sqlglot's differ, networkx, git and the
  JSON decoder are arguments of the definitions that use them, collected in records (\<open>nx\<close>, \<open>exec_env\<close>, \<open>loader_env\<close>, \<open>service_env\<close>,
  \<open>bus_env\<close>); so are the commands of Redis (\<open>redis\<close>, \<open>zsets\<close>, \<open>rev_redis\<close>), HMAC, PyJWT, Fernet and the key services (\<open>token_env\<close>, \<open>vault_env\<close>),
  HTTP and the name service (\<open>oidc_env\<close>), bcrypt (\<open>account_env\<close>) and Starlette's CORS middleware (\<open>http_env\<close>);
  Stripe (\<open>stripe_api\<close>), the rendering and the path resolution of invoices (\<open>invoice_env\<close>), the rewriter of SQL names, what a backend says of a
  run, the parser of instants and the JSON decoder (\<open>webhook_env\<close>), the URL parser, the name service and the HTTP client of
  deliveries (\<open>dispatch_env\<close>), joblib and numpy's stability index (\<open>registry_env\<close>).
  A property that needs more than their types says so: collision freedom as injectivity of the hash, distinct identifiers as
  injectivity of the source of identifiers, the laws of networkx, of Redis and of the signatures. Each is instantiated in the witness.

  Termination. Loops are structural, or have a measure: the breadth-first searches count nodes not yet seen, the topological
  sort the nodes left, the chunks of a backfill the days left, the scan of a path the characters left, a retry the attempts left. No
  definition carries fuel; the search for a day that a cron expression admits walks at most 4799 months, the 400-year cycle of the calendar.

  Not modelled: the text of log records, durations and gauges; Redis copies of plans; SQL parsing (sqlglot) and the SQL toolkit around it;
  the routers that only read; the dbt and SQLMesh loaders; the collectors of telemetry and the dashboards; the AI engine's language model calls and the heuristics
  over SQL trees; executors for remote engines; migrations; the
  command line. The manifest lists each with its reason. Sessions of the database are whole: a request's writes are kept or dropped together.
  Concurrency is the interleaving of whole repository calls: \<open>service_history\<close> is sequential, and the statements on locks and
  backfills allow any other calls between two steps.
\<close>

end
